(* ===== verification/FC_Prelude.thy ===== *)
theory FC_Prelude
  imports Main "HOL-Library.Word" "HOL-Library.List_Lexorder" "HOL-Library.Monad_Syntax"
begin

unbundle bit_operations_syntax

text \<open>
  Shared vocabulary of the development: the types that name bytes, texts and diagnostics, the
  list operations behind the standard-library algorithms the code calls (\<open>find_if\<close> followed by a
  write through the iterator, \<open>erase_if\<close> with an accumulated charge), the interface of a
  self-delimiting field codec, and the interface of a transition system with an invariant.
\<close>

section \<open>Types\<close>

type_synonym byte = "8 word"
type_synonym u16 = "16 word"
type_synonym u32 = "32 word"
type_synonym u64 = "64 word"

text \<open>A text is a byte string; the two views of it are related by the code of a character.\<close>

definition byte_of_char :: "char \<Rightarrow> byte" where
  "byte_of_char c = of_nat (of_char c)"

definition char_of_byte :: "byte \<Rightarrow> char" where
  "char_of_byte b = char_of (unat b)"

lemma unat_byte_less [simp]: "unat (b :: byte) < 256"
  using unsigned_less [of b, where 'a = nat] by simp

lemma unat_byte_of_char [simp]: "unat (byte_of_char c) = of_char c"
  by (simp add: byte_of_char_def unat_of_nat)

lemma char_of_byte_of_char [simp]: "char_of_byte (byte_of_char c) = c"
  by (simp add: char_of_byte_def)

lemma byte_of_char_of_byte [simp]: "byte_of_char (char_of_byte b) = b"
  by (simp add: byte_of_char_def char_of_byte_def)

definition bytes_of_text :: "string \<Rightarrow> byte list" where
  "bytes_of_text s = map byte_of_char s"

definition text_of_bytes :: "byte list \<Rightarrow> string" where
  "text_of_bytes bs = map char_of_byte bs"

lemma text_of_bytes_of_text [simp]: "text_of_bytes (bytes_of_text s) = s"
  by (simp add: text_of_bytes_def bytes_of_text_def comp_def)

lemma bytes_of_text_of_bytes [simp]: "bytes_of_text (text_of_bytes bs) = bs"
  by (simp add: text_of_bytes_def bytes_of_text_def comp_def)

lemma length_bytes_of_text [simp]: "length (bytes_of_text s) = length s"
  by (simp add: bytes_of_text_def)

lemma bytes_of_text_append [simp]: "bytes_of_text (s @ t) = bytes_of_text s @ bytes_of_text t"
  by (simp add: bytes_of_text_def)

named_theorems frame_laws \<open>what an operation leaves unchanged\<close>
named_theorems codec_laws \<open>decoding what was encoded\<close>

section \<open>Machine words\<close>

text \<open>Shifting left and filling the low bits is multiplication and addition where nothing is lost.\<close>

lemma unat_shift_fill:
  fixes hi :: "'a::len word" and lo :: "'a word"
  assumes "unat hi * 2 ^ k < 2 ^ LENGTH('a)" and "unat lo < 2 ^ k" and "k < LENGTH('a)"
  shows "unat (push_bit k hi OR lo) = unat hi * 2 ^ k + unat lo"
proof -
  have lo: "lo = take_bit k lo"
    using assms(2) by (metis take_bit_nat_eq_self_iff unsigned_take_bit_eq word_unat_eq_iff)
  have "push_bit k hi AND lo = 0"
    by (subst lo, rule bit_word_eqI) (auto simp: bit_simps)
  then have "push_bit k hi OR lo = push_bit k hi + lo"
    by (simp add: disjunctive_add_eq_or)
  moreover have hi: "unat (push_bit k hi) = unat hi * 2 ^ k"
    unfolding unsigned_push_bit_eq using assms(1) by (simp add: push_bit_eq_mult take_bit_eq_mod)
  moreover have "unat hi * 2 ^ k + unat lo < 2 ^ LENGTH('a)"
  proof -
    have "unat hi < 2 ^ (LENGTH('a) - k)"
    proof (rule ccontr)
      assume "\<not> ?thesis"
      then have "2 ^ (LENGTH('a) - k) * 2 ^ k \<le> unat hi * 2 ^ k" by simp
      moreover have "(2::nat) ^ (LENGTH('a) - k) * 2 ^ k = 2 ^ LENGTH('a)"
        using assms(3) by (simp flip: power_add)
      ultimately show False using assms(1) by simp
    qed
    then have "(unat hi + 1) * 2 ^ k \<le> 2 ^ (LENGTH('a) - k) * 2 ^ k" by (intro mult_le_mono1) simp
    also have "\<dots> = 2 ^ LENGTH('a)" using assms(3) by (simp flip: power_add)
    finally show ?thesis using assms(2) by (simp add: algebra_simps)
  qed
  ultimately show ?thesis by (simp add: unat_word_ariths)
qed

section \<open>First match\<close>

text \<open>
  \<open>std::ranges::find_if\<close> followed by a write through the returned iterator changes the first
  element that satisfies the predicate and nothing else.
\<close>

fun update_first :: "('a \<Rightarrow> bool) \<Rightarrow> ('a \<Rightarrow> 'a) \<Rightarrow> 'a list \<Rightarrow> 'a list" where
  "update_first P f [] = []"
| "update_first P f (x # xs) = (if P x then f x # xs else x # update_first P f xs)"

lemma length_update_first [simp]: "length (update_first P f xs) = length xs"
  by (induction xs) auto

lemma update_first_None: "List.find P xs = None \<Longrightarrow> update_first P f xs = xs"
  by (induction xs) (auto split: if_splits)

lemma set_update_first_subset:
  "set (update_first P f xs) \<subseteq> set xs \<union> f ` {x \<in> set xs. P x}"
  by (induction xs) auto

lemma find_SomeD: "List.find P xs = Some x \<Longrightarrow> x \<in> set xs \<and> P x"
  by (induction xs) (auto split: if_splits)

lemma find_None_iff_all: "List.find P xs = None \<longleftrightarrow> (\<forall>x \<in> set xs. \<not> P x)"
  by (induction xs) auto

lemma find_split:
  "List.find P xs = Some x \<Longrightarrow>
   \<exists>ys zs. xs = ys @ x # zs \<and> (\<forall>y \<in> set ys. \<not> P y) \<and> P x"
proof (induction xs)
  case (Cons a xs)
  show ?case
  proof (cases "P a")
    case True
    with Cons.prems show ?thesis by (intro exI [of _ "[]"] exI [of _ xs]) simp
  next
    case False
    with Cons obtain ys zs where "xs = ys @ x # zs" "\<forall>y \<in> set ys. \<not> P y" "P x" by auto
    with False show ?thesis by (intro exI [of _ "a # ys"] exI [of _ zs]) simp
  qed
qed simp

lemma map_update_first: "(\<And>x. P x \<Longrightarrow> g (f x) = g x) \<Longrightarrow> map g (update_first P f xs) = map g xs"
  by (induction xs) auto

section \<open>Field codecs\<close>

text \<open>
  The interface of one field of a binary frame: what a writer appends, the matching reader takes
  off the front of the remaining bytes, whatever follows. \<open>ok\<close> says which values the writer may
  be given.
\<close>

locale field_codec =
  fixes enc :: "'a \<Rightarrow> byte list"
    and dec :: "byte list \<Rightarrow> ('a \<times> byte list) option"
    and ok :: "'a \<Rightarrow> bool"
  assumes dec_enc: "ok x \<Longrightarrow> dec (enc x @ rest) = Some (x, rest)"
begin

lemma enc_append_inject:
  assumes "ok x" and "ok y" and "enc x @ xs = enc y @ ys"
  shows "x = y \<and> xs = ys"
proof -
  have "Some (x, xs) = dec (enc y @ ys)"
    using dec_enc [OF assms(1), of xs] assms(3) by (simp only:)
  also have "\<dots> = Some (y, ys)" by (rule dec_enc [OF assms(2)])
  finally show ?thesis by simp
qed

lemma enc_inject: "ok x \<Longrightarrow> ok y \<Longrightarrow> enc x = enc y \<Longrightarrow> x = y"
  using enc_append_inject [of x y "[]" "[]"] by simp

end

text \<open>A reader applied \<open>n\<close> times, each time to what the previous call left.\<close>

fun read_many :: "(byte list \<Rightarrow> ('a \<times> byte list) option) \<Rightarrow> nat \<Rightarrow> byte list
    \<Rightarrow> ('a list \<times> byte list) option" where
  "read_many dec 0 bs = Some ([], bs)"
| "read_many dec (Suc n) bs =
     (case dec bs of None \<Rightarrow> None
      | Some (x, bs') \<Rightarrow>
          (case read_many dec n bs' of None \<Rightarrow> None
           | Some (xs, rest) \<Rightarrow> Some (x # xs, rest)))"

context field_codec begin

lemma read_many_enc:
  "list_all ok xs \<Longrightarrow> read_many dec (length xs) (concat (map enc xs) @ rest) = Some (xs, rest)"
proof (induction xs)
  case (Cons x xs)
  then have "dec (enc x @ concat (map enc xs) @ rest) = Some (x, concat (map enc xs) @ rest)"
    by (intro dec_enc) simp
  with Cons show ?case by simp
qed simp

end

section \<open>Transition systems with an invariant\<close>

text \<open>
  A component whose operations are events: \<open>start\<close> holds of its initial states, \<open>step s e\<close> is
  the state after event \<open>e\<close>, \<open>allowed\<close> is the caller's side of the contract, \<open>inv\<close> the
  invariant every allowed event keeps.
\<close>

fun run_events :: "('s \<Rightarrow> 'e \<Rightarrow> 's) \<Rightarrow> 's \<Rightarrow> 'e list \<Rightarrow> 's" where
  "run_events step s [] = s"
| "run_events step s (e # es) = run_events step (step s e) es"

fun allowed_events :: "('s \<Rightarrow> 'e \<Rightarrow> 's) \<Rightarrow> ('s \<Rightarrow> 'e \<Rightarrow> bool) \<Rightarrow> 's \<Rightarrow> 'e list \<Rightarrow> bool" where
  "allowed_events step allowed s [] = True"
| "allowed_events step allowed s (e # es) =
     (allowed s e \<and> allowed_events step allowed (step s e) es)"

locale invariant_system =
  fixes start :: "'s \<Rightarrow> bool"
    and step :: "'s \<Rightarrow> 'e \<Rightarrow> 's"
    and allowed :: "'s \<Rightarrow> 'e \<Rightarrow> bool"
    and inv :: "'s \<Rightarrow> bool"
  assumes inv_start: "start s \<Longrightarrow> inv s"
    and inv_step: "inv s \<Longrightarrow> allowed s e \<Longrightarrow> inv (step s e)"
begin

lemma inv_run: "inv s \<Longrightarrow> allowed_events step allowed s es \<Longrightarrow> inv (run_events step s es)"
  by (induction es arbitrary: s) (auto intro: inv_step)

lemma inv_reachable:
  "start s \<Longrightarrow> allowed_events step allowed s es \<Longrightarrow> inv (run_events step s es)"
  by (blast intro: inv_run inv_start)

end

lemma run_events_append: "run_events step s (es @ fs) = run_events step (run_events step s es) fs"
  by (induction es arbitrary: s) auto

end
