(* ===== verification/Utf8.thy ===== *)
theory Utf8
  imports FC_Prelude
begin

unbundle bit_operations_syntax

text \<open>
  Feature identifiers (\<open>valid_feature_id\<close> of \<open>runtime/src/message_protocol.cpp\<close>). The loop over the
  bytes is \<open>valid_utf8\<close>, one turn of it \<open>utf8_step\<close>: the leading byte selects the sequence length and
  the smallest code point it may carry, the continuation bytes are folded in, and overlong
  sequences, surrogates and values above 0x10ffff are refused. The specification is the encoder
  \<open>utf8_encode\<close> of Unicode scalar values; \<open>valid_utf8_iff\<close> says that the loop accepts exactly the
  concatenations of encoded scalar values.
\<close>

section \<open>The loop of the code\<close>

text \<open>Code point bits, smallest code point and number of continuation bytes of a leading byte.\<close>

definition utf8_lead :: "byte \<Rightarrow> (u32 \<times> u32 \<times> nat) option" where
  "utf8_lead lead =
    (if 0xc2 \<le> lead \<and> lead \<le> 0xdf then Some (ucast (lead AND 0x1f), 0x80, 1)
     else if 0xe0 \<le> lead \<and> lead \<le> 0xef then Some (ucast (lead AND 0x0f), 0x800, 2)
     else if 0xf0 \<le> lead \<and> lead \<le> 0xf4 then Some (ucast (lead AND 0x07), 0x10000, 3)
     else None)"

fun continuation :: "nat \<Rightarrow> u32 \<Rightarrow> byte list \<Rightarrow> (u32 \<times> byte list) option" where
  "continuation 0 code_point bs = Some (code_point, bs)"
| "continuation (Suc n) code_point [] = None"
| "continuation (Suc n) code_point (b # bs) =
     (if b AND 0xc0 \<noteq> 0x80 then None
      else continuation n (push_bit 6 code_point OR ucast (b AND 0x3f)) bs)"

fun utf8_step :: "byte list \<Rightarrow> (u32 \<times> byte list) option" where
  "utf8_step [] = None"
| "utf8_step (lead # bs) =
     (if lead < 0x80 then Some (ucast lead, bs)
      else
        (case utf8_lead lead of None \<Rightarrow> None
         | Some (code_point, minimum, continuation_count) \<Rightarrow>
             if continuation_count > length bs then None
             else
               (case continuation continuation_count code_point bs of None \<Rightarrow> None
                | Some (code_point', rest) \<Rightarrow>
                    if code_point' < minimum \<or> (0xd800 \<le> code_point' \<and> code_point' \<le> 0xdfff) \<or>
                       code_point' > 0x10ffff
                    then None else Some (code_point', rest))))"

lemma continuation_shrinks:
  "continuation n code_point bs = Some (c, rest) \<Longrightarrow> length rest = length bs - n \<and> n \<le> length bs"
  by (induction n code_point bs rule: continuation.induct) (auto split: if_splits)

lemma utf8_step_shrinks: "utf8_step bs = Some (c, rest) \<Longrightarrow> length rest < length bs"
  by (cases bs) (auto split: if_splits option.splits dest!: continuation_shrinks)

function valid_utf8 :: "byte list \<Rightarrow> bool" where
  "valid_utf8 bs =
     (if bs = [] then True
      else (case utf8_step bs of None \<Rightarrow> False | Some (_, rest) \<Rightarrow> valid_utf8 rest))"
  by pat_completeness auto
termination
  by (relation "measure length") (auto dest: utf8_step_shrinks)

declare valid_utf8.simps [simp del]

lemma valid_utf8_Nil [simp]: "valid_utf8 [] = True"
  by (simp add: valid_utf8.simps)

lemma valid_utf8_nonempty:
  "bs \<noteq> [] \<Longrightarrow>
   valid_utf8 bs = (case utf8_step bs of None \<Rightarrow> False | Some (_, rest) \<Rightarrow> valid_utf8 rest)"
  by (simp add: valid_utf8.simps [of bs])

definition valid_feature_id :: "byte list \<Rightarrow> bool" where
  "valid_feature_id fid = (if fid = [] then False else valid_utf8 fid)"

lemma valid_feature_id_nonempty: "valid_feature_id fid \<Longrightarrow> fid \<noteq> []"
  by (auto simp: valid_feature_id_def)

section \<open>Unicode scalar values and their encoding\<close>

definition scalar_value :: "nat \<Rightarrow> bool" where
  "scalar_value cp \<longleftrightarrow> cp \<le> 0x10ffff \<and> \<not> (0xd800 \<le> cp \<and> cp \<le> 0xdfff)"

definition utf8_encode :: "nat \<Rightarrow> byte list" where
  "utf8_encode cp =
    (if cp \<le> 0x7f then [of_nat cp]
     else if cp \<le> 0x7ff then [of_nat (0xc0 + cp div 64), of_nat (0x80 + cp mod 64)]
     else if cp \<le> 0xffff
     then [of_nat (0xe0 + cp div 4096), of_nat (0x80 + cp div 64 mod 64), of_nat (0x80 + cp mod 64)]
     else [of_nat (0xf0 + cp div 262144), of_nat (0x80 + cp div 4096 mod 64),
           of_nat (0x80 + cp div 64 mod 64), of_nat (0x80 + cp mod 64)])"

section \<open>Bytes of a sequence as numbers\<close>

lemma continuation_byte_iff: "b AND 0xc0 = (0x80 :: byte) \<longleftrightarrow> 0x80 \<le> unat b \<and> unat b < 0xc0"
proof -
  have mask: "(0xc0 :: byte) = push_bit 6 (mask 2)" by (simp add: mask_eq_exp_minus_1 push_bit_eq_mult)
  have "b AND 0xc0 = push_bit 6 (drop_bit 6 b)"
    unfolding mask by (rule bit_word_eqI) (auto simp: bit_simps)
  moreover have "unat (push_bit 6 (drop_bit 6 b)) = unat b div 64 * 64"
  proof -
    have "unat b div 64 * 64 < 256" using unat_byte_less [of b] by linarith
    then show ?thesis unfolding unsigned_push_bit_eq unsigned_drop_bit_eq
      by (simp add: drop_bit_eq_div push_bit_eq_mult take_bit_eq_mod)
  qed
  ultimately have "b AND 0xc0 = 0x80 \<longleftrightarrow> unat b div 64 * 64 = 128"
    by (simp add: word_unat_eq_iff)
  also have "\<dots> \<longleftrightarrow> 0x80 \<le> unat b \<and> unat b < 0xc0" by auto
  finally show ?thesis .
qed

lemma unat_and_mask: "unat (b AND mask n :: byte) = unat b mod 2 ^ n"
  unfolding take_bit_eq_mask [symmetric] unsigned_take_bit_eq by (simp add: take_bit_eq_mod)

lemma unat_ucast_byte: "unat (ucast (b :: byte) :: u32) = unat b"
proof -
  have "unat b < 4294967296" using unat_byte_less [of b] by linarith
  then have "unat b < 2 ^ 32" by simp
  then have "take_bit 32 (unat b) = unat b" by (rule take_bit_nat_eq_self)
  then show ?thesis by (simp only: unsigned_ucast_eq len_bit0 len_num1) simp
qed

lemma ucast_byte_eq_iff: "ucast (b :: byte) = (c :: u32) \<longleftrightarrow> unat c = unat b"
  by (auto simp: word_unat_eq_iff unat_ucast_byte)

lemma unat_low_bits:
  "unat (b AND 0x1f :: byte) = unat b mod 32" "unat (b AND 0x0f :: byte) = unat b mod 16"
  "unat (b AND 0x07 :: byte) = unat b mod 8" "unat (b AND 0x3f :: byte) = unat b mod 64"
  using unat_and_mask [of b 5] unat_and_mask [of b 4] unat_and_mask [of b 3] unat_and_mask [of b 6]
  by (simp_all add: mask_eq_exp_minus_1)

lemma unat_fold_in:
  assumes "unat (code_point :: u32) < 2 ^ 26"
  shows "unat (push_bit 6 code_point OR ucast (b AND 0x3f :: byte)) = unat code_point * 64 + unat b mod 64"
proof -
  have "unat (ucast (b AND 0x3f) :: u32) = unat b mod 64"
    by (simp only: unat_ucast_byte unat_low_bits)
  with assms show ?thesis by (subst unat_shift_fill) auto
qed

definition is_continuation :: "byte \<Rightarrow> bool" where
  "is_continuation b \<longleftrightarrow> 0x80 \<le> unat b \<and> unat b < 0xc0"

definition fold_code :: "nat \<Rightarrow> byte list \<Rightarrow> nat" where
  "fold_code = foldl (\<lambda>acc b. acc * 64 + (unat b - 0x80))"

lemma fold_code_simps [simp]:
  "fold_code acc [] = acc"
  "fold_code acc (b # bs) = fold_code (acc * 64 + (unat b - 0x80)) bs"
  by (simp_all add: fold_code_def)

lemma is_continuation_mod: "is_continuation b \<Longrightarrow> unat b mod 64 = unat b - 0x80"
  by (auto simp: is_continuation_def mod_if)

text \<open>The continuation loop reads exactly \<open>n\<close> continuation bytes and shifts six bits in for each.\<close>

lemma continuation_iff:
  assumes "(unat code_point + 1) * 64 ^ n \<le> 2 ^ 32"
  shows "continuation n code_point bs = Some (c, rest) \<longleftrightarrow>
    (\<exists>cs. bs = cs @ rest \<and> length cs = n \<and> list_all is_continuation cs \<and>
          unat c = fold_code (unat code_point) cs)"
  using assms
proof (induction n code_point bs rule: continuation.induct)
  case (1 code_point bs)
  then show ?case by (auto simp: word_unat_eq_iff)
next
  case (2 n code_point)
  then show ?case by auto
next
  case (3 n code_point b bs)
  let ?next = "push_bit 6 code_point OR ucast (b AND 0x3f)"
  have bound: "(unat code_point + 1) * 64 * 64 ^ n \<le> 2 ^ 32"
    using "3.prems" by (simp add: algebra_simps)
  have "(unat code_point + 1) * 64 * 1 \<le> (unat code_point + 1) * 64 * 64 ^ n"
    by (rule mult_le_mono2) simp
  with bound have "(unat code_point + 1) * 64 \<le> 2 ^ 32" by linarith
  then have small: "unat code_point < 2 ^ 26" by simp
  show ?case
  proof (cases "b AND 0xc0 = 0x80")
    case False
    then have "\<not> is_continuation b" by (simp add: is_continuation_def continuation_byte_iff)
    with False show ?thesis by (auto simp: Cons_eq_append_conv length_Suc_conv)
  next
    case True
    then have b: "is_continuation b" by (simp add: is_continuation_def continuation_byte_iff)
    then have next_eq: "unat ?next = unat code_point * 64 + (unat b - 0x80)"
      by (simp add: unat_fold_in [OF small] is_continuation_mod)
    have "unat b - 0x80 < 64" using b by (auto simp: is_continuation_def)
    then have "unat ?next + 1 \<le> (unat code_point + 1) * 64" unfolding next_eq by simp
    then have "(unat ?next + 1) * 64 ^ n \<le> (unat code_point + 1) * 64 * 64 ^ n"
      by (rule mult_le_mono1)
    with bound have "(unat ?next + 1) * 64 ^ n \<le> 2 ^ 32" by linarith
    from "3.IH" [OF _ this] True have IH:
      "continuation n ?next bs = Some (c, rest) \<longleftrightarrow>
       (\<exists>cs. bs = cs @ rest \<and> length cs = n \<and> list_all is_continuation cs \<and>
             unat c = fold_code (unat ?next) cs)"
      by simp
    have "continuation (Suc n) code_point (b # bs) = continuation n ?next bs" using True by simp
    with IH b next_eq show ?thesis
      by (force simp: Cons_eq_append_conv length_Suc_conv)
  qed
qed


section \<open>One turn of the loop\<close>

text \<open>The code point a leading byte starts from, as a number.\<close>

lemma utf8_lead_bits:
  "0xc2 \<le> unat lead \<Longrightarrow> unat lead \<le> 0xdf \<Longrightarrow>
   (ucast (lead AND 0x1f :: byte) = (c :: u32)) = (unat c = unat lead - 0xc0)"
  "0xe0 \<le> unat lead \<Longrightarrow> unat lead \<le> 0xef \<Longrightarrow>
   (ucast (lead AND 0x0f :: byte) = (c :: u32)) = (unat c = unat lead - 0xe0)"
  "0xf0 \<le> unat lead \<Longrightarrow> unat lead \<le> 0xf4 \<Longrightarrow>
   (ucast (lead AND 0x07 :: byte) = (c :: u32)) = (unat c = unat lead - 0xf0)"
proof -
  have mod_eq: "l mod d = l - q * d" if "q * d \<le> l" "l < q * d + d" for l d q :: nat
    using that by (auto simp: le_iff_add)
  have mods:
    "0xc2 \<le> l \<Longrightarrow> l \<le> 0xdf \<Longrightarrow> l mod 32 = l - 0xc0"
    "0xe0 \<le> l \<Longrightarrow> l \<le> 0xef \<Longrightarrow> l mod 16 = l - 0xe0"
    "0xf0 \<le> l \<Longrightarrow> l \<le> 0xf4 \<Longrightarrow> l mod 8 = l - 0xf0" for l :: nat
    using mod_eq [of 6 32 l] mod_eq [of 14 16 l] mod_eq [of 30 8 l] by simp_all
  show "0xc2 \<le> unat lead \<Longrightarrow> unat lead \<le> 0xdf \<Longrightarrow>
      (ucast (lead AND 0x1f :: byte) = (c :: u32)) = (unat c = unat lead - 0xc0)"
    unfolding ucast_byte_eq_iff unat_low_bits by (simp only: mods(1))
  show "0xe0 \<le> unat lead \<Longrightarrow> unat lead \<le> 0xef \<Longrightarrow>
      (ucast (lead AND 0x0f :: byte) = (c :: u32)) = (unat c = unat lead - 0xe0)"
    unfolding ucast_byte_eq_iff unat_low_bits by (simp only: mods(2))
  show "0xf0 \<le> unat lead \<Longrightarrow> unat lead \<le> 0xf4 \<Longrightarrow>
      (ucast (lead AND 0x07 :: byte) = (c :: u32)) = (unat c = unat lead - 0xf0)"
    unfolding ucast_byte_eq_iff unat_low_bits by (simp only: mods(3))
qed

lemma utf8_lead_iff:
  "utf8_lead lead = Some (c, m, n) \<longleftrightarrow>
    (0xc2 \<le> unat lead \<and> unat lead \<le> 0xdf \<and> unat c = unat lead - 0xc0 \<and> m = 0x80 \<and> n = 1) \<or>
    (0xe0 \<le> unat lead \<and> unat lead \<le> 0xef \<and> unat c = unat lead - 0xe0 \<and> m = 0x800 \<and> n = 2) \<or>
    (0xf0 \<le> unat lead \<and> unat lead \<le> 0xf4 \<and> unat c = unat lead - 0xf0 \<and> m = 0x10000 \<and> n = 3)"
proof -
  have le: "(0xc2 \<le> lead) = (0xc2 \<le> unat lead)" "(lead \<le> 0xdf) = (unat lead \<le> 0xdf)"
    "(0xe0 \<le> lead) = (0xe0 \<le> unat lead)" "(lead \<le> 0xef) = (unat lead \<le> 0xef)"
    "(0xf0 \<le> lead) = (0xf0 \<le> unat lead)" "(lead \<le> 0xf4) = (unat lead \<le> 0xf4)"
    by (simp_all add: word_le_nat_alt)
  consider (two) "0xc2 \<le> unat lead" "unat lead \<le> 0xdf" | (three) "0xe0 \<le> unat lead" "unat lead \<le> 0xef"
    | (four) "0xf0 \<le> unat lead" "unat lead \<le> 0xf4"
    | (none) "\<not> (0xc2 \<le> unat lead \<and> unat lead \<le> 0xdf)" "\<not> (0xe0 \<le> unat lead \<and> unat lead \<le> 0xef)"
        "\<not> (0xf0 \<le> unat lead \<and> unat lead \<le> 0xf4)" by blast
  then show ?thesis
  proof cases
    case two
    then have "utf8_lead lead = Some (ucast (lead AND 0x1f), 0x80, 1)"
      by (simp only: utf8_lead_def le simp_thms if_True)
    with two utf8_lead_bits(1) [OF two, of c] show ?thesis by auto
  next
    case three
    then have "utf8_lead lead = Some (ucast (lead AND 0x0f), 0x800, 2)"
      by (simp add: utf8_lead_def le)
    with three utf8_lead_bits(2) [OF three, of c] show ?thesis by auto
  next
    case four
    then have "utf8_lead lead = Some (ucast (lead AND 0x07), 0x10000, 3)"
      by (simp add: utf8_lead_def le)
    with four utf8_lead_bits(3) [OF four, of c] show ?thesis by auto
  next
    case none
    then have "utf8_lead lead = None" by (simp only: utf8_lead_def le if_False)
    with none show ?thesis by auto
  qed
qed

lemma utf8_step_iff:
  "utf8_step bs = Some (c, rest) \<longleftrightarrow>
    (\<exists>lead. bs = lead # rest \<and> unat lead < 0x80 \<and> unat c = unat lead) \<or>
    (\<exists>lead c0 m n cs. bs = lead # cs @ rest \<and> utf8_lead lead = Some (c0, m, n) \<and>
       length cs = n \<and> list_all is_continuation cs \<and> unat c = fold_code (unat c0) cs \<and>
       m \<le> c \<and> scalar_value (unat c))"
proof (cases bs)
  case (Cons lead tl)
  have checks: "(c < m \<or> (0xd800 \<le> c \<and> c \<le> 0xdfff) \<or> c > 0x10ffff) \<longleftrightarrow> \<not> (m \<le> c \<and> scalar_value (unat c))"
    for m by (auto simp: scalar_value_def word_le_nat_alt word_less_nat_alt)
  show ?thesis
  proof (cases "unat lead < 0x80")
    case True
    then have "utf8_lead lead = None" by (simp add: utf8_lead_def word_le_nat_alt)
    with True Cons show ?thesis
      by (auto simp: word_less_nat_alt ucast_byte_eq_iff)
  next
    case False
    show ?thesis
    proof (cases "utf8_lead lead")
      case None
      with False Cons show ?thesis by (auto simp: word_less_nat_alt)
    next
      case (Some t)
      then obtain c0 m n where t: "utf8_lead lead = Some (c0, m, n)" by (cases t) auto
      then have "(unat c0 + 1) * 64 ^ n \<le> 2 ^ 32" by (auto simp: utf8_lead_iff)
      note cont = continuation_iff [OF this, of tl c rest]
      have "utf8_step bs = Some (c, rest) \<longleftrightarrow>
        n \<le> length tl \<and> continuation n c0 tl = Some (c, rest) \<and> m \<le> c \<and> scalar_value (unat c)"
        using False Cons t checks [of m] by (auto simp: word_less_nat_alt split: option.splits)
      also have "\<dots> \<longleftrightarrow> continuation n c0 tl = Some (c, rest) \<and> m \<le> c \<and> scalar_value (unat c)"
        by (auto dest: continuation_shrinks)
      finally show ?thesis using False Cons t unfolding cont by auto
    qed
  qed
qed simp


section \<open>The loop against the encoder\<close>

lemma byte_of_nat_unat: "n < 256 \<Longrightarrow> unat (of_nat n :: byte) = n"
  by (simp add: unat_of_nat)

lemma u32_of_nat_unat: "n < 2 ^ 32 \<Longrightarrow> unat (of_nat n :: u32) = n"
  by (simp add: unat_of_nat)

lemma base64_digits:
  "z < 64 \<Longrightarrow> (q * 64 + z) div 64 = (q :: nat)"
  "z < 64 \<Longrightarrow> (q * 64 + z) mod 64 = (z :: nat)"
  "(n :: nat) div 4096 = n div 64 div 64"
  "(n :: nat) div 262144 = n div 64 div 64 div 64"
  by (simp_all flip: div_mult2_eq)

lemma base64_three: "(n :: nat) = (n div 4096 * 64 + n div 64 mod 64) * 64 + n mod 64"
  unfolding base64_digits(3) by (metis div_mult_mod_eq)

lemma base64_four:
  "(n :: nat) = ((n div 262144 * 64 + n div 4096 mod 64) * 64 + n div 64 mod 64) * 64 + n mod 64"
  unfolding base64_digits(3,4) by (metis div_mult_mod_eq)

lemma length_cs_cases:
  "length cs = (1::nat) \<longleftrightarrow> (\<exists>a. cs = [a])"
  "length cs = (2::nat) \<longleftrightarrow> (\<exists>a b. cs = [a, b])"
  "length cs = (3::nat) \<longleftrightarrow> (\<exists>a b d. cs = [a, b, d])"
  by (auto simp: numeral_2_eq_2 numeral_3_eq_3 length_Suc_conv)

text \<open>A sequence the loop accepts is the encoding of the code point it reads.\<close>

lemma utf8_step_sound:
  assumes "utf8_step bs = Some (c, rest)"
  shows "scalar_value (unat c) \<and> bs = utf8_encode (unat c) @ rest"
  using assms unfolding utf8_step_iff
proof (elim disjE exE conjE)
  fix lead assume "bs = lead # rest" and "unat lead < 0x80" and "unat c = unat lead"
  then show ?thesis by (simp add: scalar_value_def utf8_encode_def)
next
  fix lead c0 m n cs
  assume bs: "bs = lead # cs @ rest" and lead: "utf8_lead lead = Some (c0, m, n)"
    and len: "length cs = n" and cont: "list_all is_continuation cs"
    and c: "unat c = fold_code (unat c0) cs" and m: "m \<le> c" and scalar: "scalar_value (unat c)"
  from lead consider
      (two) "0xc2 \<le> unat lead" "unat lead \<le> 0xdf" "unat c0 = unat lead - 0xc0" "m = 0x80" "n = 1"
    | (three) "0xe0 \<le> unat lead" "unat lead \<le> 0xef" "unat c0 = unat lead - 0xe0" "m = 0x800" "n = 2"
    | (four) "0xf0 \<le> unat lead" "unat lead \<le> 0xf4" "unat c0 = unat lead - 0xf0" "m = 0x10000" "n = 3"
    unfolding utf8_lead_iff by blast
  then have "lead # cs = utf8_encode (unat c)"
  proof cases
    case two
    with len have "length cs = 1" by simp
    then obtain a where cs: "cs = [a]" unfolding length_cs_cases by blast
    define x where "x = unat a - 0x80"
    have x: "x < 64" "unat a = 0x80 + x" using cont cs by (auto simp: is_continuation_def x_def)
    define y where "y = unat lead - 0xc0"
    have y: "2 \<le> y" "y < 32" "unat lead = 0xc0 + y" using two by (auto simp: y_def)
    have cv: "unat c = y * 64 + x" using c cs two x by (simp add: y_def)
    have "\<not> unat c \<le> 0x7f" "unat c \<le> 0x7ff" "unat c div 64 = y" "unat c mod 64 = x"
      using x y unfolding cv by auto
    then have "utf8_encode (unat c) = [of_nat (unat lead), of_nat (unat a)]"
      unfolding utf8_encode_def x(2) y(3) by simp
    then show ?thesis by (simp add: cs)
  next
    case three
    with len obtain a b where cs: "cs = [a, b]" by (auto simp: length_cs_cases)
    define x z where "x = unat a - 0x80" and "z = unat b - 0x80"
    have x: "x < 64" "unat a = 0x80 + x" "z < 64" "unat b = 0x80 + z"
      using cont cs by (auto simp: is_continuation_def x_def z_def)
    define y where "y = unat lead - 0xe0"
    have y: "y < 16" "unat lead = 0xe0 + y" using three by (auto simp: y_def)
    have cv: "unat c = (y * 64 + x) * 64 + z" using c cs three x by (simp add: y_def)
    have "0x800 \<le> unat c" using m three by (simp add: word_le_nat_alt)
    moreover have "unat c \<le> 0xffff" using x y unfolding cv by simp
    moreover have low: "unat c mod 64 = z" and "unat c div 64 = y * 64 + x"
      unfolding cv by (simp_all only: base64_digits(1,2) x)
    moreover from this have "unat c div 64 mod 64 = x" "unat c div 4096 = y"
      by (simp_all only: base64_digits x)
    ultimately have "utf8_encode (unat c) = [of_nat (unat lead), of_nat (unat a), of_nat (unat b)]"
      unfolding utf8_encode_def x(2,4) y(2) by simp
    then show ?thesis by (simp add: cs)
  next
    case four
    with len obtain a b d where cs: "cs = [a, b, d]" by (auto simp: length_cs_cases)
    define x z w where "x = unat a - 0x80" and "z = unat b - 0x80" and "w = unat d - 0x80"
    have x: "x < 64" "unat a = 0x80 + x" "z < 64" "unat b = 0x80 + z" "w < 64" "unat d = 0x80 + w"
      using cont cs by (auto simp: is_continuation_def x_def z_def w_def)
    define y where "y = unat lead - 0xf0"
    have y: "y < 5" "unat lead = 0xf0 + y" using four by (auto simp: y_def)
    have cv: "unat c = ((y * 64 + x) * 64 + z) * 64 + w" using c cs four x by (simp add: y_def)
    have "0x10000 \<le> unat c" using m four by (simp add: word_le_nat_alt)
    moreover have "unat c mod 64 = w" and "unat c div 64 = (y * 64 + x) * 64 + z"
      unfolding cv by (simp_all only: base64_digits(1,2) x)
    moreover from this have "unat c div 64 mod 64 = z" "unat c div 4096 mod 64 = x" "unat c div 262144 = y"
      by (simp_all only: base64_digits x)
    ultimately have "utf8_encode (unat c) =
        [of_nat (unat lead), of_nat (unat a), of_nat (unat b), of_nat (unat d)]"
      unfolding utf8_encode_def x(2,4,6) y(2) by simp
    then show ?thesis by (simp add: cs)
  qed
  with bs scalar show ?thesis by (metis append_Cons)
qed


text \<open>The loop reads every encoded scalar value back, whatever follows.\<close>

lemma utf8_step_encode:
  assumes "scalar_value cp"
  shows "utf8_step (utf8_encode cp @ rest) = Some (of_nat cp, rest)"
proof -
  define c :: u32 where "c = of_nat cp"
  have small: "cp < 0x110000" using assms by (simp add: scalar_value_def)
  then have c: "unat c = cp" by (simp add: c_def unat_of_nat)
  have scalar: "scalar_value (unat c)" using assms c by simp
  have cont: "is_continuation (of_nat (0x80 + x mod 64))"
    and cont_val: "unat (of_nat (0x80 + x mod 64) :: byte) = 0x80 + x mod 64" for x
    by (simp_all add: is_continuation_def byte_of_nat_unat del: of_nat_add)
  have step: "utf8_step (lead # cs @ rest) = Some (c, rest)"
    if "utf8_lead lead = Some (c0, m, length cs)" "list_all is_continuation cs"
      "cp = fold_code (unat c0) cs" "m \<le> c" for lead c0 m cs
    unfolding utf8_step_iff using that c scalar by blast
  consider "cp \<le> 0x7f" | (two) "0x7f < cp" "cp \<le> 0x7ff" | (three) "0x7ff < cp" "cp \<le> 0xffff"
    | (four) "0xffff < cp" by linarith
  then have "utf8_step (utf8_encode cp @ rest) = Some (c, rest)"
  proof cases
    case 1
    then show ?thesis unfolding utf8_step_iff by (simp add: utf8_encode_def byte_of_nat_unat c)
  next
    case two
    let ?q = "cp div 64"
    have q: "2 \<le> ?q" "?q < 32" using two by auto
    have "utf8_lead (of_nat (0xc0 + ?q)) = Some (of_nat ?q, 0x80, 1)"
      unfolding utf8_lead_iff using q by (simp add: byte_of_nat_unat u32_of_nat_unat del: of_nat_add)
    moreover have "unat (of_nat ?q :: u32) = ?q" using q by (simp add: u32_of_nat_unat)
    moreover have "0x80 \<le> c" using two by (simp add: word_le_nat_alt c)
    ultimately show ?thesis
      using step [of "of_nat (0xc0 + ?q)" "of_nat ?q" "0x80" "[of_nat (0x80 + cp mod 64)]"] two cont [of cp]
      by (simp add: utf8_encode_def cont_val del: of_nat_add)
  next
    case three
    let ?q = "cp div 4096"
    have q: "?q < 16" using three by auto
    have "utf8_lead (of_nat (0xe0 + ?q)) = Some (of_nat ?q, 0x800, 2)"
      unfolding utf8_lead_iff using q by (simp add: byte_of_nat_unat u32_of_nat_unat del: of_nat_add)
    moreover have "unat (of_nat ?q :: u32) = ?q" using q by (simp add: u32_of_nat_unat)
    moreover have "0x800 \<le> c" using three by (simp add: word_le_nat_alt c)
    moreover have "cp = (?q * 64 + cp div 64 mod 64) * 64 + cp mod 64" by (rule base64_three)
    ultimately show ?thesis
      using step [of "of_nat (0xe0 + ?q)" "of_nat ?q" "0x800"
          "[of_nat (0x80 + cp div 64 mod 64), of_nat (0x80 + cp mod 64)]"]
        three cont [of cp] cont [of "cp div 64"]
      by (simp add: utf8_encode_def cont_val del: of_nat_add)
  next
    case four
    let ?q = "cp div 262144"
    have q: "?q < 5" using small by auto
    have "utf8_lead (of_nat (0xf0 + ?q)) = Some (of_nat ?q, 0x10000, 3)"
      unfolding utf8_lead_iff using q by (simp add: byte_of_nat_unat u32_of_nat_unat del: of_nat_add)
    moreover have "unat (of_nat ?q :: u32) = ?q" using q by (simp add: u32_of_nat_unat)
    moreover have "0x10000 \<le> c" using four by (simp add: word_le_nat_alt c)
    moreover have "cp = ((?q * 64 + cp div 4096 mod 64) * 64 + cp div 64 mod 64) * 64 + cp mod 64"
      by (rule base64_four)
    ultimately show ?thesis
      using step [of "of_nat (0xf0 + ?q)" "of_nat ?q" "0x10000"
          "[of_nat (0x80 + cp div 4096 mod 64), of_nat (0x80 + cp div 64 mod 64), of_nat (0x80 + cp mod 64)]"]
        four cont [of cp] cont [of "cp div 64"] cont [of "cp div 4096"]
      by (simp add: utf8_encode_def cont_val del: of_nat_add)
  qed
  then show ?thesis by (simp add: c_def)
qed

lemma utf8_encode_nonempty [simp]: "utf8_encode cp \<noteq> []"
  by (simp add: utf8_encode_def)

text \<open>One turn of the loop, read as a number, is the reader of a self-delimiting field.\<close>

definition utf8_read :: "byte list \<Rightarrow> (nat \<times> byte list) option" where
  "utf8_read bs = map_option (map_prod unat id) (utf8_step bs)"

interpretation utf8: field_codec utf8_encode utf8_read scalar_value
proof
  fix x rest assume "scalar_value x"
  moreover from this have "unat (of_nat x :: u32) = x"
    by (intro u32_of_nat_unat) (simp add: scalar_value_def)
  ultimately show "utf8_read (utf8_encode x @ rest) = Some (x, rest)"
    by (simp add: utf8_read_def utf8_step_encode)
qed

lemma valid_utf8_encoded: "list_all scalar_value cps \<Longrightarrow> valid_utf8 (concat (map utf8_encode cps))"
  by (induction cps) (simp_all add: valid_utf8_nonempty utf8_step_encode)

lemma valid_utf8_decodes:
  "valid_utf8 bs \<Longrightarrow> \<exists>cps. list_all scalar_value cps \<and> bs = concat (map utf8_encode cps)"
proof (induction bs rule: valid_utf8.induct)
  case (1 bs)
  show ?case
  proof (cases "bs = []")
    case True
    then show ?thesis by (intro exI [of _ "[]"]) simp
  next
    case False
    with "1.prems" obtain c rest where s: "utf8_step bs = Some (c, rest)" and v: "valid_utf8 rest"
      by (auto simp: valid_utf8_nonempty split: option.splits)
    from "1.IH" [OF False s refl v] obtain cps
      where "list_all scalar_value cps" "rest = concat (map utf8_encode cps)" by blast
    with utf8_step_sound [OF s] show ?thesis by (intro exI [of _ "unat c # cps"]) simp
  qed
qed

lemma valid_utf8_spec:
  "valid_utf8 bs \<longleftrightarrow> (\<exists>cps. list_all scalar_value cps \<and> bs = concat (map utf8_encode cps))"
  using valid_utf8_encoded valid_utf8_decodes by blast

lemma valid_utf8_append: "valid_utf8 xs \<Longrightarrow> valid_utf8 ys \<Longrightarrow> valid_utf8 (xs @ ys)"
  unfolding valid_utf8_spec by (metis concat_append list_all_append map_append)

section \<open>Properties\<close>

text \<open>A feature identifier is valid exactly when it is a nonempty concatenation of the UTF-8
  encodings of Unicode scalar values: overlong forms, surrogates, stray continuation bytes and code
  points above 0x10ffff are refused, and everything else is accepted.\<close>

theorem valid_feature_id_exact:
  "valid_feature_id fid \<longleftrightarrow>
    fid \<noteq> [] \<and> (\<exists>cps. list_all scalar_value cps \<and> fid = concat (map utf8_encode cps))"
  by (auto simp: valid_feature_id_def valid_utf8_spec)

end
