(* ===== verification/Message_Protocol.thy ===== *)
theory Message_Protocol
  imports FC_Prelude Utf8
begin

unbundle bit_operations_syntax

text \<open>
  The multiplayer frame format (\<open>runtime/src/message_protocol.cpp\<close>): the parser, the four encoders
  and the payload budget. A reader is a function from the remaining bytes to a value and what is
  left. A writer acts on a \<open>cursor\<close>, the bytes written so far and the span still available; writing
  past the span is the outcome \<open>None\<close>, so that \<open>encode_manifest_writes\<close> and its companions prove that
  the encoders stay inside the destination they are given.
\<close>

section \<open>Constants and data\<close>

definition kFrameBytes :: nat where "kFrameBytes = 2048"
definition kHeaderBytes :: nat where "kHeaderBytes = 21"
definition kDataFieldsBytes :: nat where "kDataFieldsBytes = 4"
definition kMagic :: "byte list" where "kMagic = [0x46, 0x43, 0x4d, 0x31]"

lemmas protocol_constants = kFrameBytes_def kHeaderBytes_def kDataFieldsBytes_def

datatype Kind = Hello | Welcome | Data | Failed | Ready

fun byte_of_kind :: "Kind \<Rightarrow> byte" where
  "byte_of_kind Hello = 1"
| "byte_of_kind Welcome = 2"
| "byte_of_kind Data = 3"
| "byte_of_kind Failed = 4"
| "byte_of_kind Ready = 5"

text \<open>A byte that is none of the five kinds is refused by \<open>valid_tokens\<close> in the code: \<open>None\<close> here.\<close>

definition kind_of_byte :: "byte \<Rightarrow> Kind option" where
  "kind_of_byte b =
    (if b = 1 then Some Hello else if b = 2 then Some Welcome else if b = 3 then Some Data
     else if b = 4 then Some Failed else if b = 5 then Some Ready else None)"

lemma kind_of_byte_of_kind [simp]: "kind_of_byte (byte_of_kind k) = Some k"
  by (cases k) (simp_all add: kind_of_byte_def)

lemma kind_of_byte_Some: "kind_of_byte b = Some k \<Longrightarrow> b = byte_of_kind k"
  by (auto simp: kind_of_byte_def split: if_splits)

record Tokens =
  tok_client :: u64
  tok_host :: u64

record ParsedFrame =
  pf_kind :: Kind
  pf_tokens :: Tokens
  pf_manifest :: "byte list list"
  pf_feature :: "byte list"
  pf_payload :: "byte list"

fun valid_tokens :: "Kind \<Rightarrow> Tokens \<Rightarrow> bool" where
  "valid_tokens kind tokens =
    (if tok_client tokens = 0 then False
     else (case kind of
             Hello \<Rightarrow> tok_host tokens = 0
           | Welcome \<Rightarrow> tok_host tokens \<noteq> 0
           | Data \<Rightarrow> tok_host tokens \<noteq> 0
           | Failed \<Rightarrow> tok_host tokens \<noteq> 0
           | Ready \<Rightarrow> tok_host tokens \<noteq> 0))"

declare valid_tokens.simps [simp del]

section \<open>Readers\<close>

definition read_u64 :: "byte list \<Rightarrow> u64" where
  "read_u64 bs = foldl (\<lambda>value index. value OR push_bit (index * 8) (ucast (bs ! index))) 0 [0..<8]"

definition read_u16 :: "byte list \<Rightarrow> (u16 \<times> byte list) option" where
  "read_u16 bs =
    (if length bs < 2 then None
     else Some (ucast (bs ! 0) OR push_bit 8 (ucast (bs ! 1)), drop 2 bs))"

definition read_id :: "byte list \<Rightarrow> nat \<Rightarrow> (byte list \<times> byte list) option" where
  "read_id bs len = (if len > length bs then None else Some (take len bs, drop len bs))"

text \<open>The loop over the advertised identifiers; each must be valid and above the previous one.\<close>

fun parse_ids :: "nat \<Rightarrow> byte list list \<Rightarrow> byte list \<Rightarrow> (byte list list \<times> byte list) option" where
  "parse_ids 0 manifest body = Some (manifest, body)"
| "parse_ids (Suc n) manifest body =
     (case read_u16 body of None \<Rightarrow> None
      | Some (len, body1) \<Rightarrow>
          (case read_id body1 (unat len) of None \<Rightarrow> None
           | Some (fid, body2) \<Rightarrow>
               if \<not> valid_feature_id fid \<or> (manifest \<noteq> [] \<and> last manifest \<ge> fid) then None
               else parse_ids n (manifest @ [fid]) body2))"

definition parse_manifest :: "byte list \<Rightarrow> (byte list list \<times> byte list) option" where
  "parse_manifest body =
    (case read_u16 body of None \<Rightarrow> None
     | Some (count, body1) \<Rightarrow>
         if unat count > length body1 div 3 then None else parse_ids (unat count) [] body1)"

definition parse_data :: "byte list \<Rightarrow> (byte list \<times> byte list) option" where
  "parse_data body =
    (case read_u16 body of None \<Rightarrow> None
     | Some (id_length, body1) \<Rightarrow>
         (case read_u16 body1 of None \<Rightarrow> None
          | Some (payload_length, body2) \<Rightarrow>
              (case read_id body2 (unat id_length) of None \<Rightarrow> None
               | Some (fid, body3) \<Rightarrow>
                   if \<not> valid_feature_id fid \<or> unat payload_length \<noteq> length body3 then None
                   else Some (fid, body3))))"

definition parse_failed :: "byte list \<Rightarrow> (byte list \<times> byte list) option" where
  "parse_failed body =
    (case read_u16 body of None \<Rightarrow> None
     | Some (len, body1) \<Rightarrow>
         (case read_id body1 (unat len) of None \<Rightarrow> None
          | Some (fid, body2) \<Rightarrow>
              if fid \<noteq> [] \<and> \<not> valid_feature_id fid then None else Some (fid, body2)))"

definition parse :: "byte list \<Rightarrow> ParsedFrame option" where
  "parse frame =
    (if length frame < kHeaderBytes \<or> length frame > kFrameBytes \<or> take 4 frame \<noteq> kMagic then None
     else
       (case kind_of_byte (frame ! 4) of None \<Rightarrow> None
        | Some kind \<Rightarrow>
            let tokens = \<lparr>tok_client = read_u64 (take 8 (drop 5 frame)),
                          tok_host = read_u64 (take 8 (drop 13 frame))\<rparr>;
                parsed = \<lparr>pf_kind = kind, pf_tokens = tokens, pf_manifest = [], pf_feature = [],
                          pf_payload = []\<rparr>;
                body = drop kHeaderBytes frame
            in if \<not> valid_tokens kind tokens then None
               else
                 (case (case kind of
                          Hello \<Rightarrow> map_option (map_prod (\<lambda>m. parsed\<lparr>pf_manifest := m\<rparr>) id) (parse_manifest body)
                        | Welcome \<Rightarrow> map_option (map_prod (\<lambda>m. parsed\<lparr>pf_manifest := m\<rparr>) id) (parse_manifest body)
                        | Data \<Rightarrow> map_option (\<lambda>(fid, payload). (parsed\<lparr>pf_feature := fid, pf_payload := payload\<rparr>, []))
                                    (parse_data body)
                        | Failed \<Rightarrow> map_option (map_prod (\<lambda>fid. parsed\<lparr>pf_feature := fid\<rparr>) id) (parse_failed body)
                        | Ready \<Rightarrow> Some (parsed, body)) of
                    None \<Rightarrow> None
                  | Some (result, rest) \<Rightarrow> if rest \<noteq> [] then None else Some result)))"

section \<open>Writers\<close>

type_synonym cursor = "byte list \<times> byte list"

fun put :: "byte list \<Rightarrow> cursor \<Rightarrow> cursor option" where
  "put bs (written, out) =
    (if length bs \<le> length out then Some (written @ bs, drop (length bs) out) else None)"

declare put.simps [simp del]

definition u64_bytes :: "u64 \<Rightarrow> byte list" where
  "u64_bytes value = map (\<lambda>index. ucast (drop_bit (index * 8) value AND 0xff)) [0..<8]"

definition u16_bytes :: "nat \<Rightarrow> byte list" where
  "u16_bytes value = [of_nat (value AND 0xff), of_nat (drop_bit 8 value AND 0xff)]"

definition write_u64 :: "u64 \<Rightarrow> cursor \<Rightarrow> cursor option" where
  "write_u64 value out = put (u64_bytes value) out"

definition write_u16 :: "nat \<Rightarrow> cursor \<Rightarrow> cursor option" where
  "write_u16 value out = put (u16_bytes value) out"

definition write_header :: "Kind \<Rightarrow> Tokens \<Rightarrow> cursor \<Rightarrow> cursor option" where
  "write_header kind tokens out =
    do { out1 \<leftarrow> put (kMagic @ [byte_of_kind kind]) out;
         out2 \<leftarrow> write_u64 (tok_client tokens) out1;
         write_u64 (tok_host tokens) out2 }"

definition write_id :: "byte list \<Rightarrow> cursor \<Rightarrow> cursor option" where
  "write_id fid out = put fid out"

fun write_ids :: "byte list list \<Rightarrow> cursor \<Rightarrow> cursor option" where
  "write_ids [] out = Some out"
| "write_ids (fid # ids) out =
     do { out1 \<leftarrow> write_u16 (length fid) out; out2 \<leftarrow> write_id fid out1; write_ids ids out2 }"

text \<open>
  An encoder returns the number of bytes it reports and the destination afterwards; a refusal is
  size zero with the destination untouched, an out-of-bounds write is \<open>None\<close>.
\<close>

definition finish :: "nat \<Rightarrow> cursor option \<Rightarrow> (nat \<times> byte list) option" where
  "finish used out = map_option (\<lambda>(written, rest). (used, written @ rest)) out"

fun manifest_size :: "nat \<Rightarrow> byte list \<Rightarrow> byte list list \<Rightarrow> nat option" where
  "manifest_size used previous [] = Some used"
| "manifest_size used previous (fid # ids) =
     (if kFrameBytes - used < 2 \<or> length fid > kFrameBytes - used - 2 \<or> \<not> valid_feature_id fid \<or>
         (previous \<noteq> [] \<and> previous \<ge> fid)
      then None else manifest_size (used + (2 + length fid)) fid ids)"

definition encode_manifest :: "Kind \<Rightarrow> Tokens \<Rightarrow> byte list list \<Rightarrow> byte list \<Rightarrow> (nat \<times> byte list) option" where
  "encode_manifest kind tokens manifest out =
    (if (kind \<noteq> Hello \<and> kind \<noteq> Welcome) \<or> \<not> valid_tokens kind tokens then Some (0, out)
     else if length manifest > (kFrameBytes - (kHeaderBytes + 2)) div 3 then Some (0, out)
     else
       (case manifest_size (kHeaderBytes + 2) [] manifest of None \<Rightarrow> Some (0, out)
        | Some used \<Rightarrow>
            if used > length out then Some (0, out)
            else finish used
              (do { out1 \<leftarrow> write_header kind tokens ([], out);
                    out2 \<leftarrow> write_u16 (length manifest) out1;
                    write_ids manifest out2 })))"

definition encode_ready :: "Tokens \<Rightarrow> byte list \<Rightarrow> (nat \<times> byte list) option" where
  "encode_ready tokens out =
    (if \<not> valid_tokens Ready tokens \<or> length out < kHeaderBytes then Some (0, out)
     else finish kHeaderBytes (write_header Ready tokens ([], out)))"

definition encode_data :: "Tokens \<Rightarrow> byte list \<Rightarrow> byte list \<Rightarrow> byte list \<Rightarrow> (nat \<times> byte list) option" where
  "encode_data tokens fid payload out =
    (if \<not> valid_tokens Data tokens \<or> length fid > kFrameBytes - kHeaderBytes - kDataFieldsBytes \<or>
        \<not> valid_feature_id fid
     then Some (0, out)
     else
       (let prefix_size = kHeaderBytes + kDataFieldsBytes + length fid
        in if length payload > kFrameBytes - prefix_size \<or> prefix_size + length payload > length out
           then Some (0, out)
           else finish (prefix_size + length payload)
             (do { out1 \<leftarrow> write_header Data tokens ([], out);
                   out2 \<leftarrow> write_u16 (length fid) out1;
                   out3 \<leftarrow> write_u16 (length payload) out2;
                   out4 \<leftarrow> write_id fid out3;
                   put payload out4 })))"

definition encode_failed :: "Tokens \<Rightarrow> byte list \<Rightarrow> byte list \<Rightarrow> (nat \<times> byte list) option" where
  "encode_failed tokens fid out =
    (if \<not> valid_tokens Failed tokens \<or> length fid > kFrameBytes - kHeaderBytes - 2 \<or>
        (fid \<noteq> [] \<and> \<not> valid_feature_id fid)
     then Some (0, out)
     else
       (let used = kHeaderBytes + 2 + length fid
        in if used > length out then Some (0, out)
           else finish used
             (do { out1 \<leftarrow> write_header Failed tokens ([], out);
                   out2 \<leftarrow> write_u16 (length fid) out1;
                   write_id fid out2 })))"

definition payload_capacity :: "byte list \<Rightarrow> nat" where
  "payload_capacity fid =
    (if length fid > kFrameBytes - kHeaderBytes - kDataFieldsBytes \<or> \<not> valid_feature_id fid then 0
     else kFrameBytes - kHeaderBytes - kDataFieldsBytes - length fid)"

section \<open>Fixed-width fields\<close>

lemma length_u64_bytes [simp]: "length (u64_bytes v) = 8"
  by (simp add: u64_bytes_def)

lemma length_u16_bytes [simp]: "length (u16_bytes v) = 2"
  by (simp add: u16_bytes_def)

lemma bit_read_u64_upto:
  "k \<le> 8 \<Longrightarrow>
   bit (foldl (\<lambda>value index. value OR push_bit (index * 8) (ucast (bs ! index))) (0 :: u64) [0..<k]) n
   \<longleftrightarrow> n < 8 * k \<and> bit (bs ! (n div 8) :: byte) (n mod 8)"
proof (induction k)
  case (Suc k)
  have "bit (push_bit (k * 8) (ucast (bs ! k)) :: u64) n \<longleftrightarrow> n div 8 = k \<and> bit (bs ! k) (n mod 8)"
  proof (cases "k * 8 \<le> n \<and> n < k * 8 + 8")
    case True
    then have "n div 8 = k" "n < 64" using Suc.prems by auto
    moreover from this have "n mod 8 = n - k * 8" by (simp flip: minus_div_mult_eq_mod)
    ultimately show ?thesis using True by (auto simp: bit_simps)
  next
    case False
    then show ?thesis by (auto simp: bit_simps dest: bit_imp_le_length)
  qed
  moreover have "n < 8 * Suc k \<longleftrightarrow> n < 8 * k \<or> n div 8 = k" by auto
  moreover have "n < 8 * k \<Longrightarrow> n div 8 \<noteq> k" by auto
  ultimately show ?case using Suc by (auto simp: bit_or_iff)
qed simp

lemma bit_read_u64: "bit (read_u64 bs) n \<longleftrightarrow> n < 64 \<and> bit (bs ! (n div 8)) (n mod 8)"
  unfolding read_u64_def using bit_read_u64_upto [of 8 bs n] by simp

lemma bit_u64_bytes: "i < 8 \<Longrightarrow> bit (u64_bytes v ! i) n \<longleftrightarrow> n < 8 \<and> bit v (i * 8 + n)"
proof -
  assume "i < 8"
  then have nth: "u64_bytes v ! i = ucast (drop_bit (i * 8) v AND 0xff)" by (simp add: u64_bytes_def)
  have low: "(0xff :: u64) = mask 8" by (simp add: mask_eq_exp_minus_1)
  show ?thesis unfolding nth low by (auto simp: bit_simps dest: bit_imp_le_length)
qed

lemma read_u64_bytes [codec_laws]: "read_u64 (u64_bytes v) = v"
  by (rule bit_word_eqI) (simp add: bit_read_u64 bit_u64_bytes mult.commute)

lemma u64_bytes_read: "length bs = 8 \<Longrightarrow> u64_bytes (read_u64 bs) = bs"
proof (rule nth_equalityI)
  assume "length bs = 8"
  then show "length (u64_bytes (read_u64 bs)) = length bs" by simp
next
  fix i assume len: "length bs = 8" and "i < length (u64_bytes (read_u64 bs))"
  then have i: "i < 8" by simp
  show "u64_bytes (read_u64 bs) ! i = bs ! i"
  proof (rule bit_word_eqI)
    fix n assume "n < LENGTH(8)"
    then have "n < 8" by simp
    then show "bit (u64_bytes (read_u64 bs) ! i) n = bit (bs ! i) n"
      using i by (simp add: bit_u64_bytes bit_read_u64)
  qed
qed

lemma low_byte_nat: "v AND 0xff = v mod (256 :: nat)"
  using take_bit_eq_mask [of 8 v] by (simp add: take_bit_eq_mod mask_eq_exp_minus_1)

lemma unat_ucast_u16: "unat (ucast (b :: byte) :: u16) = unat b"
proof -
  have "unat b < 65536" using unat_byte_less [of b] by linarith
  then have "take_bit 16 (unat b) = unat b" by (intro take_bit_nat_eq_self) simp
  then show ?thesis by (simp only: unsigned_ucast_eq len_bit0 len_num1) simp
qed

lemma unat_u16_of_bytes:
  "unat (ucast b0 OR push_bit 8 (ucast b1) :: u16) = unat (b1 :: byte) * 256 + unat (b0 :: byte)"
proof -
  have "unat (push_bit 8 (ucast b1) OR ucast b0 :: u16) = unat b1 * 2 ^ 8 + unat b0"
    using unat_byte_less [of b0] unat_byte_less [of b1]
    by (subst unat_shift_fill) (simp_all add: unat_ucast_u16)
  then show ?thesis by (simp add: or.commute)
qed

lemma unat_u16_less: "unat (v :: u16) < 65536"
  using unsigned_less [of v, where 'a = nat] by simp

lemma unat_of_nat_u16: "v < 65536 \<Longrightarrow> unat (of_nat v :: u16) = v"
  by (simp add: unat_of_nat)

lemma read_u16_bytes [codec_laws]:
  assumes "v < 65536"
  shows "read_u16 (u16_bytes v @ rest) = Some (of_nat v, rest)"
proof -
  have "v div 256 < 256" using assms by auto
  then have "(ucast (of_nat (v AND 0xff) :: byte) OR push_bit 8 (ucast (of_nat (drop_bit 8 v AND 0xff) :: byte)) :: u16)
      = of_nat v"
    unfolding word_unat_eq_iff unat_u16_of_bytes low_byte_nat drop_bit_eq_div
    using assms by (simp add: unat_of_nat)
  then show ?thesis by (simp add: read_u16_def u16_bytes_def)
qed

lemma read_u16_SomeD:
  assumes "read_u16 bs = Some (v, rest)"
  shows "bs = u16_bytes (unat v) @ rest"
proof -
  from assms obtain b0 b1 where bs: "bs = b0 # b1 # rest"
    and v: "v = ucast b0 OR push_bit 8 (ucast b1)"
    by (cases bs; cases "tl bs") (auto simp: read_u16_def split: if_splits)
  have "u16_bytes (unat v) = [b0, b1]"
    unfolding u16_bytes_def low_byte_nat drop_bit_eq_div v unat_u16_of_bytes
    using unat_byte_less [of b0] unat_byte_less [of b1] by simp
  with bs show ?thesis by simp
qed

section \<open>Identifier fields\<close>

text \<open>The bytes of one length-prefixed identifier, and the frame header as a byte list.\<close>

definition id_field :: "byte list \<Rightarrow> byte list" where
  "id_field fid = u16_bytes (length fid) @ fid"

definition header_bytes :: "Kind \<Rightarrow> Tokens \<Rightarrow> byte list" where
  "header_bytes kind tokens =
     kMagic @ [byte_of_kind kind] @ u64_bytes (tok_client tokens) @ u64_bytes (tok_host tokens)"

lemma length_header_bytes [simp]: "length (header_bytes kind tokens) = 21"
  by (simp add: header_bytes_def kMagic_def)

lemma length_id_field [simp]: "length (id_field fid) = 2 + length fid"
  by (simp add: id_field_def)

definition read_id_field :: "byte list \<Rightarrow> (byte list \<times> byte list) option" where
  "read_id_field bs =
    (case read_u16 bs of None \<Rightarrow> None | Some (len, rest) \<Rightarrow> read_id rest (unat len))"

lemma read_id_append [codec_laws]: "read_id (fid @ rest) (length fid) = Some (fid, rest)"
  by (simp add: read_id_def)

lemma read_id_SomeD: "read_id bs n = Some (fid, rest) \<Longrightarrow> bs = fid @ rest \<and> length fid = n"
  by (auto simp: read_id_def split: if_splits)

text \<open>Both fixed-width and length-prefixed fields are self-delimiting.\<close>

interpretation u16_field: field_codec u16_bytes "\<lambda>bs. map_option (map_prod unat id) (read_u16 bs)"
    "\<lambda>v. v < 65536"
  by unfold_locales (simp add: codec_laws unat_of_nat_u16)

interpretation id_codec: field_codec id_field read_id_field "\<lambda>fid. length fid < 65536"
  by unfold_locales (simp add: read_id_field_def id_field_def codec_laws unat_of_nat_u16)

lemma read_id_field_SomeD:
  "read_id_field bs = Some (fid, rest) \<Longrightarrow> bs = id_field fid @ rest \<and> length fid < 65536"
  by (auto simp: read_id_field_def id_field_def unat_u16_less dest!: read_u16_SomeD read_id_SomeD
      split: option.splits)

text \<open>Strictly increasing along the list: what each comparison with the previous element ensures.\<close>

definition increasing_after :: "byte list list \<Rightarrow> byte list list \<Rightarrow> bool" where
  "increasing_after before ids \<longleftrightarrow>
    sorted_wrt (<) ids \<and> (before \<noteq> [] \<longrightarrow> (\<forall>fid \<in> set ids. last before < fid))"

lemma increasing_after_Cons:
  "increasing_after before (fid # ids) \<longleftrightarrow>
    (before \<noteq> [] \<longrightarrow> last before < fid) \<and> increasing_after (before @ [fid]) ids"
  by (auto simp: increasing_after_def)

lemma increasing_after_Nil [simp]: "increasing_after before []"
  by (simp add: increasing_after_def)

lemma increasing_after_start [simp]: "increasing_after [] ids \<longleftrightarrow> sorted_wrt (<) ids"
  by (simp add: increasing_after_def)

lemma parse_ids_Suc:
  "parse_ids (Suc n) manifest body =
    (case read_id_field body of None \<Rightarrow> None
     | Some (fid, rest) \<Rightarrow>
         if \<not> valid_feature_id fid \<or> (manifest \<noteq> [] \<and> last manifest \<ge> fid) then None
         else parse_ids n (manifest @ [fid]) rest)"
  by (auto simp: read_id_field_def split: option.splits)

declare parse_ids.simps(2) [simp del]

lemma parse_ids_fields:
  "list_all valid_feature_id ids \<Longrightarrow> list_all (\<lambda>fid. length fid < 65536) ids \<Longrightarrow>
   increasing_after manifest ids \<Longrightarrow>
   parse_ids (length ids) manifest (concat (map id_field ids) @ rest) = Some (manifest @ ids, rest)"
proof (induction ids arbitrary: manifest)
  case (Cons fid ids)
  then have "read_id_field (id_field fid @ concat (map id_field ids) @ rest)
      = Some (fid, concat (map id_field ids) @ rest)"
    by (intro id_codec.dec_enc) simp
  with Cons show ?case
    by (auto simp: parse_ids_Suc increasing_after_Cons not_le)
qed simp

lemma parse_ids_SomeD:
  "parse_ids n manifest body = Some (result, rest) \<Longrightarrow>
   \<exists>ids. result = manifest @ ids \<and> length ids = n \<and> body = concat (map id_field ids) @ rest \<and>
     list_all valid_feature_id ids \<and> list_all (\<lambda>fid. length fid < 65536) ids \<and>
     increasing_after manifest ids"
proof (induction n arbitrary: manifest body)
  case (Suc n)
  from Suc.prems obtain fid body' where f: "read_id_field body = Some (fid, body')"
    and v: "valid_feature_id fid" "manifest \<noteq> [] \<longrightarrow> last manifest < fid"
    and p: "parse_ids n (manifest @ [fid]) body' = Some (result, rest)"
    by (auto simp: parse_ids_Suc not_le split: option.splits if_splits)
  from Suc.IH [OF p] obtain ids where "result = (manifest @ [fid]) @ ids" "length ids = n"
    "body' = concat (map id_field ids) @ rest" "list_all valid_feature_id ids"
    "list_all (\<lambda>fid. length fid < 65536) ids" "increasing_after (manifest @ [fid]) ids" by blast
  with read_id_field_SomeD [OF f] v show ?case
    by (intro exI [of _ "fid # ids"]) (simp add: increasing_after_Cons)
qed auto

section \<open>Frames\<close>

text \<open>The bytes of a decoded frame, and which decoded frames exist.\<close>

definition frame_bytes :: "ParsedFrame \<Rightarrow> byte list" where
  "frame_bytes p = header_bytes (pf_kind p) (pf_tokens p) @
    (case pf_kind p of
       Hello \<Rightarrow> u16_bytes (length (pf_manifest p)) @ concat (map id_field (pf_manifest p))
     | Welcome \<Rightarrow> u16_bytes (length (pf_manifest p)) @ concat (map id_field (pf_manifest p))
     | Data \<Rightarrow> u16_bytes (length (pf_feature p)) @ u16_bytes (length (pf_payload p)) @
              pf_feature p @ pf_payload p
     | Failed \<Rightarrow> id_field (pf_feature p)
     | Ready \<Rightarrow> [])"

definition well_formed_frame :: "ParsedFrame \<Rightarrow> bool" where
  "well_formed_frame p =
    (valid_tokens (pf_kind p) (pf_tokens p) \<and> length (frame_bytes p) \<le> kFrameBytes \<and>
     (case pf_kind p of
        Hello \<Rightarrow> list_all valid_feature_id (pf_manifest p) \<and> sorted_wrt (<) (pf_manifest p) \<and>
                 pf_feature p = [] \<and> pf_payload p = []
      | Welcome \<Rightarrow> list_all valid_feature_id (pf_manifest p) \<and> sorted_wrt (<) (pf_manifest p) \<and>
                 pf_feature p = [] \<and> pf_payload p = []
      | Data \<Rightarrow> valid_feature_id (pf_feature p) \<and> pf_manifest p = []
      | Failed \<Rightarrow> (pf_feature p = [] \<or> valid_feature_id (pf_feature p)) \<and>
                 pf_manifest p = [] \<and> pf_payload p = []
      | Ready \<Rightarrow> pf_manifest p = [] \<and> pf_feature p = [] \<and> pf_payload p = []))"

lemma length_id_fields_ge:
  "list_all valid_feature_id ids \<Longrightarrow> 3 * length ids \<le> length (concat (map id_field ids))"
proof (induction ids)
  case (Cons fid ids)
  then have "fid \<noteq> []" by (auto dest: valid_feature_id_nonempty)
  then have "Suc 0 \<le> length fid" by (cases fid) auto
  with Cons show ?case by simp
qed simp

lemma id_lengths_small:
  "length (concat (map id_field ids)) < 65536 \<Longrightarrow> list_all (\<lambda>fid. length fid < 65536) ids"
  by (induction ids) auto

lemma parse_manifest_fields:
  assumes "list_all valid_feature_id ids" and "sorted_wrt (<) ids"
    and "length (concat (map id_field ids)) < 65536"
  shows "parse_manifest (u16_bytes (length ids) @ concat (map id_field ids)) = Some (ids, [])"
proof -
  have "3 * length ids \<le> length (concat (map id_field ids))" using assms(1) by (rule length_id_fields_ge)
  then have count: "length ids < 65536" "\<not> length ids > length (concat (map id_field ids)) div 3"
    using assms(3) by linarith+
  have "parse_ids (length ids) [] (concat (map id_field ids) @ []) = Some ([] @ ids, [])"
    using assms id_lengths_small by (intro parse_ids_fields) auto
  with count show ?thesis by (simp add: parse_manifest_def read_u16_bytes unat_of_nat_u16)
qed

lemma parse_manifest_SomeD:
  assumes "parse_manifest body = Some (ids, rest)"
  shows "body = u16_bytes (length ids) @ concat (map id_field ids) @ rest \<and>
    list_all valid_feature_id ids \<and> sorted_wrt (<) ids"
proof -
  from assms obtain count body1 where c: "read_u16 body = Some (count, body1)"
    and p: "parse_ids (unat count) [] body1 = Some (ids, rest)"
    by (auto simp: parse_manifest_def split: option.splits if_splits)
  from parse_ids_SomeD [OF p] read_u16_SomeD [OF c] show ?thesis by auto
qed

lemma parse_data_fields:
  assumes "valid_feature_id fid" and "length fid < 65536" and "length payload < 65536"
  shows "parse_data (u16_bytes (length fid) @ u16_bytes (length payload) @ fid @ payload)
    = Some (fid, payload)"
  using assms by (simp add: parse_data_def read_u16_bytes unat_of_nat_u16 read_id_append)

lemma parse_data_SomeD:
  "parse_data body = Some (fid, payload) \<Longrightarrow>
   body = u16_bytes (length fid) @ u16_bytes (length payload) @ fid @ payload \<and> valid_feature_id fid"
  by (auto simp: parse_data_def dest!: read_u16_SomeD read_id_SomeD split: option.splits if_splits)

lemma parse_failed_fields:
  assumes "fid = [] \<or> valid_feature_id fid" and "length fid < 65536"
  shows "parse_failed (id_field fid) = Some (fid, [])"
  using assms read_id_append [of fid "[]"]
  by (auto simp: parse_failed_def id_field_def read_u16_bytes unat_of_nat_u16)

lemma parse_failed_SomeD:
  "parse_failed body = Some (fid, rest) \<Longrightarrow>
   body = id_field fid @ rest \<and> (fid = [] \<or> valid_feature_id fid)"
  by (auto simp: parse_failed_def id_field_def dest!: read_u16_SomeD read_id_SomeD
      split: option.splits if_splits)

text \<open>Reading the header back.\<close>

lemma header_fields:
  "take 4 (header_bytes kind tokens @ body) = kMagic"
  "(header_bytes kind tokens @ body) ! 4 = byte_of_kind kind"
  "read_u64 (take 8 (drop 5 (header_bytes kind tokens @ body))) = tok_client tokens"
  "read_u64 (take 8 (drop 13 (header_bytes kind tokens @ body))) = tok_host tokens"
  "drop kHeaderBytes (header_bytes kind tokens @ body) = body"
  by (simp_all add: header_bytes_def kMagic_def kHeaderBytes_def nth_append read_u64_bytes)

lemma header_of_frame:
  assumes "kHeaderBytes \<le> length frame" and "take 4 frame = kMagic"
    and "kind_of_byte (frame ! 4) = Some kind"
  shows "frame = header_bytes kind \<lparr>tok_client = read_u64 (take 8 (drop 5 frame)),
      tok_host = read_u64 (take 8 (drop 13 frame))\<rparr> @ drop kHeaderBytes frame"
proof -
  have len: "21 \<le> length frame" using assms(1) by (simp add: kHeaderBytes_def)
  have "frame = take 4 frame @ [frame ! 4] @ drop 5 frame"
    using len id_take_nth_drop [of 4 frame] by simp
  moreover have "drop 5 frame = take 8 (drop 5 frame) @ take 8 (drop 13 frame) @ drop 21 frame"
  proof -
    have "drop 13 frame = drop 8 (drop 5 frame)" "drop 21 frame = drop 8 (drop 13 frame)" by simp_all
    then show ?thesis by (simp only: append_take_drop_id)
  qed
  ultimately show ?thesis
    unfolding header_bytes_def kHeaderBytes_def
    using assms(2) kind_of_byte_Some [OF assms(3)] len by (simp add: u64_bytes_read)
qed

text \<open>The parser accepts exactly the encodings of well-formed frames.\<close>

lemma parse_frame_bytes:
  assumes "well_formed_frame p"
  shows "parse (frame_bytes p) = Some p"
proof -
  let ?head = "header_bytes (pf_kind p) (pf_tokens p)"
  obtain body where fb: "frame_bytes p = ?head @ body"
    by (auto simp: frame_bytes_def)
  have tokens: "\<lparr>tok_client = tok_client (pf_tokens p), tok_host = tok_host (pf_tokens p)\<rparr> = pf_tokens p"
    by simp
  have len: "length (frame_bytes p) \<le> kFrameBytes" and vt: "valid_tokens (pf_kind p) (pf_tokens p)"
    using assms by (auto simp: well_formed_frame_def)
  then have small: "length (frame_bytes p) < 65536" by (simp add: kFrameBytes_def)
  have long: "\<not> length (frame_bytes p) < kHeaderBytes" by (simp add: fb kHeaderBytes_def)
  have unfolded: "parse (frame_bytes p) =
    (let parsed = \<lparr>pf_kind = pf_kind p, pf_tokens = pf_tokens p, pf_manifest = [], pf_feature = [],
                    pf_payload = []\<rparr>
     in case (case pf_kind p of
                Hello \<Rightarrow> map_option (map_prod (\<lambda>m. parsed\<lparr>pf_manifest := m\<rparr>) id) (parse_manifest body)
              | Welcome \<Rightarrow> map_option (map_prod (\<lambda>m. parsed\<lparr>pf_manifest := m\<rparr>) id) (parse_manifest body)
              | Data \<Rightarrow> map_option (\<lambda>(fid, payload). (parsed\<lparr>pf_feature := fid, pf_payload := payload\<rparr>, []))
                          (parse_data body)
              | Failed \<Rightarrow> map_option (map_prod (\<lambda>fid. parsed\<lparr>pf_feature := fid\<rparr>) id) (parse_failed body)
              | Ready \<Rightarrow> Some (parsed, body)) of
          None \<Rightarrow> None | Some (result, rest) \<Rightarrow> if rest \<noteq> [] then None else Some result)"
    using len long vt unfolding parse_def fb header_fields Let_def kind_of_byte_of_kind tokens by simp
  show ?thesis
  proof (cases "pf_kind p")
    case Hello
    then have "parse_manifest body = Some (pf_manifest p, [])"
      using assms small fb parse_manifest_fields [of "pf_manifest p"]
      by (simp add: frame_bytes_def well_formed_frame_def)
    with Hello assms show ?thesis unfolding unfolded well_formed_frame_def
      by (simp add: Let_def)
  next
    case Welcome
    then have "parse_manifest body = Some (pf_manifest p, [])"
      using assms small fb parse_manifest_fields [of "pf_manifest p"]
      by (simp add: frame_bytes_def well_formed_frame_def)
    with Welcome assms show ?thesis unfolding unfolded well_formed_frame_def
      by (simp add: Let_def)
  next
    case Data
    then have "parse_data body = Some (pf_feature p, pf_payload p)"
      using assms small fb parse_data_fields [of "pf_feature p" "pf_payload p"]
      by (simp add: frame_bytes_def well_formed_frame_def)
    with Data assms show ?thesis unfolding unfolded well_formed_frame_def
      by (simp add: Let_def)
  next
    case Failed
    then have "parse_failed body = Some (pf_feature p, [])"
      using assms small fb parse_failed_fields [of "pf_feature p"]
      by (simp add: frame_bytes_def well_formed_frame_def)
    with Failed assms show ?thesis unfolding unfolded well_formed_frame_def
      by (simp add: Let_def)
  next
    case Ready
    with assms fb show ?thesis unfolding unfolded well_formed_frame_def
      by (simp add: Let_def frame_bytes_def)
  qed
qed

lemma parse_SomeD:
  assumes "parse frame = Some p"
  shows "well_formed_frame p \<and> frame = frame_bytes p"
proof -
  define body where "body = drop kHeaderBytes frame"
  define tokens where "tokens = \<lparr>tok_client = read_u64 (take 8 (drop 5 frame)),
      tok_host = read_u64 (take 8 (drop 13 frame))\<rparr>"
  from assms obtain kind where k: "kind_of_byte (frame ! 4) = Some kind"
    and bounds: "kHeaderBytes \<le> length frame" "length frame \<le> kFrameBytes" "take 4 frame = kMagic"
    and vt: "valid_tokens kind tokens"
    unfolding parse_def Let_def tokens_def [symmetric]
    by (auto split: if_splits option.splits)
  have frame: "frame = header_bytes kind tokens @ body"
    unfolding tokens_def body_def by (rule header_of_frame [OF bounds(1,3) k])
  let ?parsed = "\<lparr>pf_kind = kind, pf_tokens = tokens, pf_manifest = [], pf_feature = [], pf_payload = []\<rparr>"
  from assms k vt bounds have cases:
    "(case kind of
        Hello \<Rightarrow> map_option (map_prod (\<lambda>m. ?parsed\<lparr>pf_manifest := m\<rparr>) id) (parse_manifest body)
      | Welcome \<Rightarrow> map_option (map_prod (\<lambda>m. ?parsed\<lparr>pf_manifest := m\<rparr>) id) (parse_manifest body)
      | Data \<Rightarrow> map_option (\<lambda>(fid, payload). (?parsed\<lparr>pf_feature := fid, pf_payload := payload\<rparr>, []))
                  (parse_data body)
      | Failed \<Rightarrow> map_option (map_prod (\<lambda>fid. ?parsed\<lparr>pf_feature := fid\<rparr>) id) (parse_failed body)
      | Ready \<Rightarrow> Some (?parsed, body)) = Some (p, [])"
    unfolding parse_def Let_def tokens_def [symmetric] body_def [symmetric]
    by (auto split: if_splits option.splits)
  show ?thesis
    using cases frame vt bounds(2)
    by (cases kind)
      (auto simp: well_formed_frame_def frame_bytes_def
        dest!: parse_manifest_SomeD parse_data_SomeD parse_failed_SomeD)
qed

section \<open>Encoders\<close>

lemma put_Nil [simp]: "put [] c = Some c"
  by (cases c) (simp add: put.simps)

lemma put_put [simp]: "Option.bind (put a c) (put b) = put (a @ b) c"
  by (cases c) (auto simp: put.simps add.commute)

lemma put_put_cont [simp]: "Option.bind (put a c) (\<lambda>c'. Option.bind (put b c') f) = Option.bind (put (a @ b) c) f"
  by (simp flip: put_put)

lemma write_header_eq: "write_header kind tokens = put (header_bytes kind tokens)"
  by (simp add: fun_eq_iff write_header_def write_u64_def header_bytes_def)

lemma write_ids_eq: "write_ids ids = put (concat (map id_field ids))"
proof (induction ids)
  case (Cons fid ids)
  show ?case
    by (simp add: fun_eq_iff Cons.IH write_u16_def write_id_def id_field_def)
qed (simp add: fun_eq_iff)

lemma finish_put:
  "length bs \<le> length out \<Longrightarrow> finish n (put bs ([], out)) = Some (n, bs @ drop (length bs) out)"
  by (simp add: finish_def put.simps)

lemma manifest_size_iff:
  "used \<le> kFrameBytes \<Longrightarrow>
   manifest_size used previous ids = Some s \<longleftrightarrow>
     list_all valid_feature_id ids \<and>
     increasing_after (if previous = [] then [] else [previous]) ids \<and>
     s = used + length (concat (map id_field ids)) \<and> s \<le> kFrameBytes"
proof (induction used previous ids rule: manifest_size.induct)
  case (2 used previous fid ids)
  let ?before = "if previous = [] then [] else [previous]"
  show ?case
  proof (cases "kFrameBytes - used < 2 \<or> length fid > kFrameBytes - used - 2 \<or> \<not> valid_feature_id fid \<or>
      (previous \<noteq> [] \<and> previous \<ge> fid)")
    case True
    then show ?thesis by (auto simp: increasing_after_Cons not_le)
  next
    case False
    then have v: "valid_feature_id fid" and fits: "used + (2 + length fid) \<le> kFrameBytes"
      and order: "previous \<noteq> [] \<longrightarrow> previous < fid"
      using "2.prems" by auto
    then have "fid \<noteq> []" by (auto dest: valid_feature_id_nonempty)
    have "manifest_size used previous (fid # ids) = manifest_size (used + (2 + length fid)) fid ids"
      using False by (simp only: manifest_size.simps if_False)
    moreover have "increasing_after ?before (fid # ids) \<longleftrightarrow> increasing_after [fid] ids"
      using order by (auto simp: increasing_after_def)
    ultimately show ?thesis
      using "2.IH" [OF False fits] v \<open>fid \<noteq> []\<close> by (simp add: add.assoc)
  qed
qed auto

text \<open>
  Each encoder in closed form: it refuses exactly the inputs that have no well-formed frame or do
  not fit, and otherwise writes that frame at the front of the destination.
\<close>

definition encoded :: "ParsedFrame \<Rightarrow> byte list \<Rightarrow> (nat \<times> byte list) option" where
  "encoded p out =
    (let frame = frame_bytes p
     in if well_formed_frame p \<and> length frame \<le> length out
        then Some (length frame, frame @ drop (length frame) out) else Some (0, out))"

lemma encode_manifest_eq:
  assumes "kind = Hello \<or> kind = Welcome"
  shows "encode_manifest kind tokens ids out =
    encoded \<lparr>pf_kind = kind, pf_tokens = tokens, pf_manifest = ids, pf_feature = [], pf_payload = []\<rparr> out"
proof -
  let ?p = "\<lparr>pf_kind = kind, pf_tokens = tokens, pf_manifest = ids, pf_feature = [], pf_payload = []\<rparr>"
  let ?s = "kHeaderBytes + 2 + length (concat (map id_field ids))"
  have frame: "frame_bytes ?p = header_bytes kind tokens @ u16_bytes (length ids) @ concat (map id_field ids)"
    using assms by (auto simp: frame_bytes_def)
  then have len: "length (frame_bytes ?p) = ?s" by (simp add: kHeaderBytes_def)
  have wf: "well_formed_frame ?p \<longleftrightarrow> valid_tokens kind tokens \<and> ?s \<le> kFrameBytes \<and>
      list_all valid_feature_id ids \<and> sorted_wrt (<) ids"
    unfolding well_formed_frame_def len using assms by auto
  have ms: "manifest_size (kHeaderBytes + 2) [] ids = Some s \<longleftrightarrow>
      list_all valid_feature_id ids \<and> sorted_wrt (<) ids \<and> s = ?s \<and> s \<le> kFrameBytes" for s
    by (subst manifest_size_iff) (simp_all add: protocol_constants)
  have many: "\<not> well_formed_frame ?p" if "length ids > (kFrameBytes - (kHeaderBytes + 2)) div 3"
  proof
    assume "well_formed_frame ?p"
    then have "3 * length ids \<le> length (concat (map id_field ids))" and "?s \<le> kFrameBytes"
      unfolding wf by (auto intro: length_id_fields_ge)
    with that show False by (simp add: protocol_constants)
  qed
  have written: "(do { out1 \<leftarrow> write_header kind tokens ([], out);
        out2 \<leftarrow> write_u16 (length ids) out1; write_ids ids out2 })
      = put (frame_bytes ?p) ([], out)"
    by (simp add: write_header_eq write_u16_def write_ids_eq write_id_def frame)
  have result: "finish ?s (do { out1 \<leftarrow> write_header kind tokens ([], out);
        out2 \<leftarrow> write_u16 (length ids) out1; write_ids ids out2 })
      = Some (?s, frame_bytes ?p @ drop ?s out)" if "?s \<le> length out"
    using finish_put [of "frame_bytes ?p" out ?s] that unfolding len
    by (simp only: written)
  consider "\<not> valid_tokens kind tokens" | "length ids > (kFrameBytes - (kHeaderBytes + 2)) div 3"
    | "manifest_size (kHeaderBytes + 2) [] ids = None"
    | "valid_tokens kind tokens" "\<not> length ids > (kFrameBytes - (kHeaderBytes + 2)) div 3"
      "manifest_size (kHeaderBytes + 2) [] ids \<noteq> None" by blast
  then show ?thesis
  proof cases
    case 1
    then show ?thesis using wf by (simp add: encode_manifest_def encoded_def)
  next
    case 2
    then show ?thesis using many by (simp add: encode_manifest_def encoded_def)
  next
    case 3
    then have "\<not> well_formed_frame ?p" using wf ms [of ?s] by auto
    with 3 show ?thesis by (simp add: encode_manifest_def encoded_def)
  next
    case 4
    then have s: "manifest_size (kHeaderBytes + 2) [] ids = Some ?s" and "well_formed_frame ?p"
      using ms wf by auto
    with 4 assms show ?thesis
      unfolding encode_manifest_def encoded_def Let_def len using result by auto
  qed
qed

lemma encode_manifest_other: "kind \<noteq> Hello \<Longrightarrow> kind \<noteq> Welcome \<Longrightarrow> encode_manifest kind tokens ids out = Some (0, out)"
  by (simp add: encode_manifest_def)

lemma encode_ready_eq:
  "encode_ready tokens out =
    encoded \<lparr>pf_kind = Ready, pf_tokens = tokens, pf_manifest = [], pf_feature = [], pf_payload = []\<rparr> out"
  using finish_put [of "header_bytes Ready tokens" out 21]
  by (auto simp: encode_ready_def encoded_def well_formed_frame_def frame_bytes_def protocol_constants
      write_header_eq)

lemma encode_data_eq:
  "encode_data tokens fid payload out =
    encoded \<lparr>pf_kind = Data, pf_tokens = tokens, pf_manifest = [], pf_feature = fid, pf_payload = payload\<rparr> out"
proof -
  let ?p = "\<lparr>pf_kind = Data, pf_tokens = tokens, pf_manifest = [], pf_feature = fid, pf_payload = payload\<rparr>"
  let ?s = "kHeaderBytes + kDataFieldsBytes + length fid + length payload"
  have frame: "frame_bytes ?p = header_bytes Data tokens @ u16_bytes (length fid) @
      u16_bytes (length payload) @ fid @ payload"
    by (simp add: frame_bytes_def)
  then have len: "length (frame_bytes ?p) = ?s" by (simp add: protocol_constants)
  have wf: "well_formed_frame ?p \<longleftrightarrow> valid_tokens Data tokens \<and> ?s \<le> kFrameBytes \<and> valid_feature_id fid"
    unfolding well_formed_frame_def len by auto
  have written: "(do { out1 \<leftarrow> write_header Data tokens ([], out); out2 \<leftarrow> write_u16 (length fid) out1;
        out3 \<leftarrow> write_u16 (length payload) out2; out4 \<leftarrow> write_id fid out3; put payload out4 })
      = put (frame_bytes ?p) ([], out)"
    by (simp add: write_header_eq write_u16_def write_ids_eq write_id_def frame)
  have result: "finish ?s (do { out1 \<leftarrow> write_header Data tokens ([], out); out2 \<leftarrow> write_u16 (length fid) out1;
        out3 \<leftarrow> write_u16 (length payload) out2; out4 \<leftarrow> write_id fid out3; put payload out4 })
      = Some (?s, frame_bytes ?p @ drop ?s out)" if "?s \<le> length out"
    using finish_put [of "frame_bytes ?p" out ?s] that unfolding len
    by (simp only: written)
  show ?thesis
  proof (cases "well_formed_frame ?p \<and> ?s \<le> length out")
    case True
    then show ?thesis
      using wf result by (simp add: encode_data_def encoded_def len Let_def) (auto simp: protocol_constants)
  next
    case False
    then have "encode_data tokens fid payload out = Some (0, out)"
      using wf by (auto simp: encode_data_def Let_def protocol_constants)
    with False show ?thesis by (auto simp: encoded_def len Let_def)
  qed
qed

lemma encode_failed_eq:
  "encode_failed tokens fid out =
    encoded \<lparr>pf_kind = Failed, pf_tokens = tokens, pf_manifest = [], pf_feature = fid, pf_payload = []\<rparr> out"
proof -
  let ?p = "\<lparr>pf_kind = Failed, pf_tokens = tokens, pf_manifest = [], pf_feature = fid, pf_payload = []\<rparr>"
  let ?s = "kHeaderBytes + 2 + length fid"
  have frame: "frame_bytes ?p = header_bytes Failed tokens @ u16_bytes (length fid) @ fid"
    by (simp add: frame_bytes_def id_field_def)
  then have len: "length (frame_bytes ?p) = ?s" by (simp add: protocol_constants)
  have wf: "well_formed_frame ?p \<longleftrightarrow> valid_tokens Failed tokens \<and> ?s \<le> kFrameBytes \<and>
      (fid = [] \<or> valid_feature_id fid)"
    unfolding well_formed_frame_def len by auto
  have written: "(do { out1 \<leftarrow> write_header Failed tokens ([], out);
        out2 \<leftarrow> write_u16 (length fid) out1; write_id fid out2 })
      = put (frame_bytes ?p) ([], out)"
    by (simp add: write_header_eq write_u16_def write_ids_eq write_id_def frame)
  have result: "finish ?s (do { out1 \<leftarrow> write_header Failed tokens ([], out);
        out2 \<leftarrow> write_u16 (length fid) out1; write_id fid out2 })
      = Some (?s, frame_bytes ?p @ drop ?s out)" if "?s \<le> length out"
    using finish_put [of "frame_bytes ?p" out ?s] that unfolding len
    by (simp only: written)
  show ?thesis
  proof (cases "well_formed_frame ?p \<and> ?s \<le> length out")
    case True
    then show ?thesis
      using wf result by (simp add: encode_failed_def encoded_def len Let_def) (simp add: protocol_constants)
  next
    case False
    then have "encode_failed tokens fid out = Some (0, out)"
      using wf by (auto simp: encode_failed_def Let_def protocol_constants)
    with False show ?thesis by (auto simp: encoded_def len Let_def)
  qed
qed

lemmas encoders = encode_manifest_eq encode_ready_eq encode_data_eq encode_failed_eq

text \<open>What the parser makes of an encoder's output.\<close>

lemma parse_encoded:
  assumes "encoded p out = Some (n, out')" and "n \<noteq> 0"
  shows "parse (take n out') = Some p"
  using assms by (auto simp: encoded_def Let_def parse_frame_bytes split: if_splits)

lemma encoded_in_bounds:
  "encoded p out = Some (n, out') \<Longrightarrow>
   length out' = length out \<and> n \<le> length out \<and> n \<le> kFrameBytes \<and> drop n out' = drop n out"
  by (auto simp: encoded_def Let_def well_formed_frame_def split: if_splits)

lemma encoded_total: "\<exists>n out'. encoded p out = Some (n, out')"
  by (simp add: encoded_def Let_def)

lemma frame_bytes_nonempty [simp]: "frame_bytes p \<noteq> []"
  by (simp add: frame_bytes_def header_bytes_def)

lemma encoded_zero_iff:
  "encoded p out = Some (0, out) \<longleftrightarrow> \<not> (well_formed_frame p \<and> length (frame_bytes p) \<le> length out)"
  by (auto simp: encoded_def Let_def)

lemma well_formed_data_iff:
  "well_formed_frame \<lparr>pf_kind = Data, pf_tokens = tokens, pf_manifest = [], pf_feature = fid, pf_payload = payload\<rparr>
   \<longleftrightarrow> valid_tokens Data tokens \<and> valid_feature_id fid \<and> 25 + length fid + length payload \<le> kFrameBytes"
  by (auto simp: well_formed_frame_def frame_bytes_def)

section \<open>Properties\<close>

text \<open>C24: The parser accepts a byte string as a frame exactly when it is the encoding of a
  well-formed frame, and then returns that frame: no malformed, truncated, padded or unsorted frame
  gets through, and no well-formed one is refused.\<close>

theorem parse_exact: "parse frame = Some p \<longleftrightarrow> well_formed_frame p \<and> frame = frame_bytes p"
  using parse_frame_bytes parse_SomeD by blast

text \<open>Every encoder writes the encoding of its arguments' frame at the front of the destination
  when that frame is well formed and fits, leaving the rest of the destination alone, and otherwise
  reports zero and writes nothing. It never writes outside the destination.\<close>

theorem encoders_exact:
  "encode_manifest Hello tokens ids out =
     encoded \<lparr>pf_kind = Hello, pf_tokens = tokens, pf_manifest = ids, pf_feature = [], pf_payload = []\<rparr> out \<and>
   encode_manifest Welcome tokens ids out =
     encoded \<lparr>pf_kind = Welcome, pf_tokens = tokens, pf_manifest = ids, pf_feature = [], pf_payload = []\<rparr> out \<and>
   encode_ready tokens out =
     encoded \<lparr>pf_kind = Ready, pf_tokens = tokens, pf_manifest = [], pf_feature = [], pf_payload = []\<rparr> out \<and>
   encode_data tokens fid payload out =
     encoded \<lparr>pf_kind = Data, pf_tokens = tokens, pf_manifest = [], pf_feature = fid, pf_payload = payload\<rparr> out \<and>
   encode_failed tokens fid out =
     encoded \<lparr>pf_kind = Failed, pf_tokens = tokens, pf_manifest = [], pf_feature = fid, pf_payload = []\<rparr> out"
  by (simp add: encoders)

text \<open>A feature payload that was encoded is parsed back with its tokens, identifier and bytes.\<close>

theorem encode_data_roundtrip:
  assumes "encode_data tokens fid payload out = Some (n, out')" and "n \<noteq> 0"
  shows "parse (take n out') = Some \<lparr>pf_kind = Data, pf_tokens = tokens, pf_manifest = [],
    pf_feature = fid, pf_payload = payload\<rparr>"
  using parse_encoded assms unfolding encoders by blast

theorem encode_data_roundtrip_witness:
  "\<exists>n out'. encode_data \<lparr>tok_client = 7, tok_host = 9\<rparr> [0x61] [1, 2] (replicate 28 0) = Some (n, out') \<and>
    n \<noteq> 0 \<and> parse (take n out') = Some \<lparr>pf_kind = Data, pf_tokens = \<lparr>tok_client = 7, tok_host = 9\<rparr>,
      pf_manifest = [], pf_feature = [0x61], pf_payload = [1, 2]\<rparr>"
proof -
  have "valid_feature_id [0x61]"
    by (simp add: valid_feature_id_def valid_utf8_nonempty)
  then have "encode_data \<lparr>tok_client = 7, tok_host = 9\<rparr> [0x61] [1, 2] (replicate 28 0) =
      Some (28, frame_bytes \<lparr>pf_kind = Data, pf_tokens = \<lparr>tok_client = 7, tok_host = 9\<rparr>,
        pf_manifest = [], pf_feature = [0x61], pf_payload = [1, 2]\<rparr>)"
    by (simp add: encode_data_eq encoded_def well_formed_frame_def frame_bytes_def kFrameBytes_def
        valid_tokens.simps Let_def)
  moreover from encode_data_roundtrip [OF this] have "parse (take 28 (frame_bytes
      \<lparr>pf_kind = Data, pf_tokens = \<lparr>tok_client = 7, tok_host = 9\<rparr>, pf_manifest = [], pf_feature = [0x61],
        pf_payload = [1, 2]\<rparr>)) = Some \<lparr>pf_kind = Data, pf_tokens = \<lparr>tok_client = 7, tok_host = 9\<rparr>,
      pf_manifest = [], pf_feature = [0x61], pf_payload = [1, 2]\<rparr>" by simp
  ultimately show ?thesis by (intro exI conjI) (assumption, simp, assumption)
qed

text \<open>The advertised payload capacity is exact: a payload is encoded for a valid identifier and
  tokens, given enough room, exactly when it is no longer than the capacity.\<close>

theorem payload_capacity_exact:
  "(\<exists>n out'. encode_data tokens fid payload out = Some (n, out') \<and> n \<noteq> 0) \<longleftrightarrow>
    valid_tokens Data tokens \<and> valid_feature_id fid \<and> length fid \<le> 2023 \<and>
    length payload \<le> payload_capacity fid \<and> 25 + length fid + length payload \<le> length out"
proof -
  have "length (frame_bytes \<lparr>pf_kind = Data, pf_tokens = tokens, pf_manifest = [], pf_feature = fid,
      pf_payload = payload\<rparr>) = 25 + length fid + length payload"
    by (simp add: frame_bytes_def)
  then show ?thesis
    unfolding encode_data_eq encoded_def Let_def well_formed_data_iff
    by (auto simp: payload_capacity_def protocol_constants)
qed

end
