(* ===== verification/Text_Base.thy ===== *)
theory Text_Base
  imports FC_Prelude
begin

text \<open>
  The text and table helpers of the SDK (\<open>sdk/include/fc/base.hpp\<close>) that every component of the
  runtime uses: ASCII case folding, case-insensitive identifiers, counted views of the C interface
  and the check of an extensible table. A \<open>string\<close> is a sequence of C++ \<open>char\<close>s; a C view is a
  pointer, here the characters behind it when it is not null, and a 32-bit count.
\<close>

section \<open>Errors and results\<close>

record Error =
  err_message :: string
  err_windows :: u32

text \<open>\<open>fc::Result<T>\<close>: the left summand is the error.\<close>

type_synonym 'a Result = "Error + 'a"

definition error_message :: "string \<Rightarrow> Error" where
  "error_message text = \<lparr>err_message = text, err_windows = 0\<rparr>"

section \<open>Views\<close>

record FC_Text =
  ft_data :: "string option"
  ft_size :: nat

definition view :: "FC_Text \<Rightarrow> string" where
  "view value = (case ft_data value of None \<Rightarrow> [] | Some data \<Rightarrow> take (ft_size value) data)"

definition count :: "nat \<Rightarrow> u32 option" where
  "count value = (if value > 2 ^ 32 - 1 then None else Some (of_nat value))"

lemma count_exact: "count value = Some n \<longleftrightarrow> value < 2 ^ 32 \<and> n = of_nat value"
  by (auto simp: count_def)

text \<open>
  \<open>table_available\<close>: a table is its published size in bytes when the pointer is not null. The
  subtraction is guarded by the first comparison, so it never wraps.
\<close>

definition table_available :: "nat option \<Rightarrow> nat \<Rightarrow> nat \<Rightarrow> bool" where
  "table_available table offset used =
    (case table of None \<Rightarrow> False
     | Some byte_size \<Rightarrow> offset \<le> byte_size \<and> used \<le> byte_size - offset)"

lemma table_available_iff:
  "table_available table offset used \<longleftrightarrow> (\<exists>n. table = Some n \<and> offset + used \<le> n)"
  by (auto simp: table_available_def split: option.splits)

section \<open>ASCII case\<close>

definition is_upper :: "char \<Rightarrow> bool" where
  "is_upper c \<longleftrightarrow> 65 \<le> (of_char c :: nat) \<and> (of_char c :: nat) \<le> 90"

definition fold_ascii :: "char \<Rightarrow> char" where
  "fold_ascii c = (if is_upper c then char_of (of_char c + (32 :: nat)) else c)"

definition folded_id :: "string \<Rightarrow> string" where
  "folded_id value = map fold_ascii value"

text \<open>The loop of \<open>equal_id\<close> over the indices of two texts of the same length.\<close>

fun equal_from :: "string \<Rightarrow> string \<Rightarrow> bool" where
  "equal_from (a # as) (b # bs) = (if fold_ascii a \<noteq> fold_ascii b then False else equal_from as bs)"
| "equal_from _ _ = True"

definition equal_id :: "string \<Rightarrow> string \<Rightarrow> bool" where
  "equal_id a b = (if length a \<noteq> length b then False else equal_from a b)"

lemma fold_ascii_not_upper [simp]: "\<not> is_upper (fold_ascii c)"
proof (cases "is_upper c")
  case True
  then have "(of_char c :: nat) + 32 < 256" by (simp add: is_upper_def)
  then have "(of_char (char_of (of_char c + (32 :: nat))) :: nat) = of_char c + 32" by simp
  with True show ?thesis by (simp add: fold_ascii_def is_upper_def)
qed (simp add: fold_ascii_def)

lemma fold_ascii_idem [simp]: "fold_ascii (fold_ascii c) = fold_ascii c"
  using fold_ascii_not_upper [of c] by (simp add: fold_ascii_def [of "fold_ascii c"])

lemma folded_id_idem [simp]: "folded_id (folded_id s) = folded_id s"
  by (simp add: folded_id_def comp_def)

lemma length_folded_id [simp]: "length (folded_id s) = length s"
  by (simp add: folded_id_def)

lemma folded_id_Nil_iff [simp]: "folded_id s = [] \<longleftrightarrow> s = []"
  by (simp add: folded_id_def)

lemma equal_from_iff: "length a = length b \<Longrightarrow> equal_from a b \<longleftrightarrow> folded_id a = folded_id b"
  by (induction a b rule: equal_from.induct) (auto simp: folded_id_def)

text \<open>Two identifiers are equal exactly when their lookup keys are.\<close>

lemma equal_id_iff: "equal_id a b \<longleftrightarrow> folded_id a = folded_id b"
  by (cases "length a = length b") (auto simp: equal_id_def equal_from_iff dest: arg_cong [where f = length])

lemma equal_id_refl [simp]: "equal_id a a"
  by (simp add: equal_id_iff)

lemma equal_id_sym: "equal_id a b \<longleftrightarrow> equal_id b a"
  by (auto simp: equal_id_iff)

lemma equal_id_trans: "equal_id a b \<Longrightarrow> equal_id b c \<Longrightarrow> equal_id a c"
  by (simp add: equal_id_iff)

lemma equal_id_folded [simp]: "equal_id (folded_id a) b \<longleftrightarrow> equal_id a b"
  by (simp add: equal_id_iff)

section \<open>Characters\<close>

text \<open>Line feed, carriage return and tab have no literal in a quoted text.\<close>

abbreviation LF :: char where "LF \<equiv> CHR 0x0A"
abbreviation CR :: char where "CR \<equiv> CHR 0x0D"
abbreviation TAB :: char where "TAB \<equiv> CHR 0x09"

text \<open>\<open>find_first_of\<close> and its remainder: the text before the first character of a set, and what
  follows from it on.\<close>

definition before_any :: "char set \<Rightarrow> string \<Rightarrow> string" where
  "before_any cs s = takeWhile (\<lambda>c. c \<notin> cs) s"

definition from_any :: "char set \<Rightarrow> string \<Rightarrow> string" where
  "from_any cs s = dropWhile (\<lambda>c. c \<notin> cs) s"

lemma before_from_any [simp]: "before_any cs s @ from_any cs s = s"
  by (simp add: before_any_def from_any_def)

lemma from_any_length: "length (from_any cs s) \<le> length s"
  by (simp add: from_any_def length_dropWhile_le)

lemma before_any_free: "c \<in> cs \<Longrightarrow> c \<notin> set (before_any cs s)"
  by (auto simp: before_any_def dest: set_takeWhileD)

end
