(* ===== verification/Bounded_Text.thy ===== *)
theory Bounded_Text
  imports Utf8 Text_Base
begin

unbundle bit_operations_syntax

text \<open>
  Bounded copies of text (\<open>runtime/src/reporting/bounded_text.hpp\<close>): the cut that never splits a
  UTF-8 sequence, and the copy that replaces ASCII controls by spaces.
\<close>

section \<open>The operations\<close>

definition continuation_char :: "char \<Rightarrow> bool" where
  "continuation_char c \<longleftrightarrow> byte_of_char c AND 0xc0 = 0x80"

fun utf8_back :: "string \<Rightarrow> nat \<Rightarrow> nat" where
  "utf8_back v 0 = 0"
| "utf8_back v (Suc r) =
     (if Suc r < length v \<and> continuation_char (v ! Suc r) then utf8_back v r else Suc r)"

definition utf8_prefix :: "string \<Rightarrow> nat \<Rightarrow> nat" where
  "utf8_prefix v limit = utf8_back v (min limit (length v))"

definition structured_char :: "char \<Rightarrow> char" where
  "structured_char c =
    (if byte_of_char c \<le> 0x1f \<or> byte_of_char c = 0x7f then CHR '' '' else c)"

text \<open>The destination keeps what lies behind the copied prefix; the result is its content and the
  number of bytes copied.\<close>

definition copy_structured_bytes :: "string \<Rightarrow> string \<Rightarrow> string \<times> nat" where
  "copy_structured_bytes destination source =
    (let copied = utf8_prefix source (length destination)
     in (map structured_char (take copied source) @ drop copied destination, copied))"

section \<open>Cuts\<close>

text \<open>A position of a text where it may be cut: its ends, and in front of any byte that does not
  continue a sequence.\<close>

definition boundary :: "string \<Rightarrow> nat \<Rightarrow> bool" where
  "boundary v n \<longleftrightarrow> n = 0 \<or> n = length v \<or> n < length v \<and> \<not> continuation_char (v ! n)"

lemma utf8_back_le: "utf8_back v r \<le> r"
  by (induction r) auto

lemma utf8_prefix_le [simp]: "utf8_prefix v limit \<le> limit" "utf8_prefix v limit \<le> length v"
  using utf8_back_le [of v "min limit (length v)"] by (auto simp: utf8_prefix_def)

lemma utf8_back_boundary: "r \<le> length v \<Longrightarrow> boundary v (utf8_back v r)"
  by (induction r) (auto simp: boundary_def)

lemma utf8_prefix_boundary: "boundary v (utf8_prefix v limit)"
  by (simp add: utf8_prefix_def utf8_back_boundary)

lemma utf8_back_greatest: "boundary v n \<Longrightarrow> n \<le> r \<Longrightarrow> n \<le> utf8_back v r"
  by (induction r) (auto simp: boundary_def le_Suc_eq)

lemma utf8_prefix_greatest:
  "boundary v n \<Longrightarrow> n \<le> limit \<Longrightarrow> n \<le> utf8_prefix v limit"
  unfolding utf8_prefix_def by (rule utf8_back_greatest) (auto simp: boundary_def)

lemma utf8_prefix_all [simp]: "length v \<le> limit \<Longrightarrow> utf8_prefix v limit = length v"
proof -
  assume "length v \<le> limit"
  moreover have "boundary v (length v)" by (simp add: boundary_def)
  ultimately show ?thesis using utf8_prefix_greatest [of v "length v" limit] utf8_prefix_le [of v limit]
    by linarith
qed

text \<open>A copy whose destination has the length of the source copies all of it.\<close>

lemma copy_structured_exact:
  "length destination = length source \<Longrightarrow>
   copy_structured_bytes destination source = (map structured_char source, length source)"
  by (simp add: copy_structured_bytes_def Let_def)

lemma length_copy_structured [simp]:
  "length (fst (copy_structured_bytes destination source)) = length destination"
  by (simp add: copy_structured_bytes_def Let_def)

section \<open>Validity\<close>

definition utf8_text :: "string \<Rightarrow> bool" where
  "utf8_text s \<longleftrightarrow> valid_utf8 (bytes_of_text s)"

lemma utf8_text_Nil [simp]: "utf8_text []"
  by (simp add: utf8_text_def bytes_of_text_def)

lemma utf8_text_append: "utf8_text s \<Longrightarrow> utf8_text t \<Longrightarrow> utf8_text (s @ t)"
  by (simp add: utf8_text_def valid_utf8_append)

lemma continuation_char_iff: "continuation_char c \<longleftrightarrow> is_continuation (byte_of_char c)"
  by (simp add: continuation_char_def continuation_byte_iff is_continuation_def)

lemma continuation_of_mod: "is_continuation (of_nat (0x80 + x mod 64))"
  by (simp add: is_continuation_def byte_of_nat_unat del: of_nat_add)

lemma utf8_encode_tail: "list_all is_continuation (tl (utf8_encode cp))"
  using continuation_of_mod [of cp] continuation_of_mod [of "cp div 64"]
    continuation_of_mod [of "cp div 4096"]
  by (simp add: utf8_encode_def del: of_nat_add)

lemma utf8_encode_inner: "0 < k \<Longrightarrow> k < length (utf8_encode cp) \<Longrightarrow> is_continuation (utf8_encode cp ! k)"
  using utf8_encode_tail [of cp] by (cases "utf8_encode cp"; cases k) (auto simp: list_all_length)

lemma valid_utf8_take:
  assumes "valid_utf8 bs" and "n < length bs" and "\<not> is_continuation (bs ! n)"
  shows "valid_utf8 (take n bs)"
proof -
  from assms(1) obtain cps where cps: "list_all scalar_value cps" "bs = concat (map utf8_encode cps)"
    unfolding valid_utf8_spec by blast
  have "list_all scalar_value cps \<Longrightarrow> n < length (concat (map utf8_encode cps)) \<Longrightarrow>
      \<not> is_continuation (concat (map utf8_encode cps) ! n) \<Longrightarrow> valid_utf8 (take n (concat (map utf8_encode cps)))" for cps
  proof (induction cps arbitrary: n)
    case (Cons c cps)
    show ?case
    proof (cases "n < length (utf8_encode c)")
      case True
      with Cons.prems have "\<not> is_continuation (utf8_encode c ! n)" by (simp add: nth_append)
      with True have "n = 0" using utf8_encode_inner [of n c] by blast
      then show ?thesis by simp
    next
      case False
      with Cons.prems have "valid_utf8 (take (n - length (utf8_encode c)) (concat (map utf8_encode cps)))"
        by (intro Cons.IH) (auto simp: nth_append)
      moreover have "valid_utf8 (utf8_encode c)"
        using valid_utf8_encoded [of "[c]"] Cons.prems by simp
      ultimately show ?thesis using False by (simp add: valid_utf8_append)
    qed
  qed simp
  with assms cps show ?thesis by blast
qed

lemma utf8_text_take:
  assumes "utf8_text v" and "boundary v n"
  shows "utf8_text (take n v)"
proof -
  consider "n = 0" | "n = length v" | "n < length v" "\<not> continuation_char (v ! n)"
    using assms(2) by (auto simp: boundary_def)
  then show ?thesis
  proof cases
    case 3
    then have "\<not> is_continuation (bytes_of_text v ! n)"
      by (simp add: continuation_char_iff bytes_of_text_def)
    with 3 assms(1) have "valid_utf8 (take n (bytes_of_text v))"
      unfolding utf8_text_def by (intro valid_utf8_take) auto
    then show ?thesis by (simp add: utf8_text_def bytes_of_text_def take_map)
  qed (use assms in auto)
qed

lemma utf8_text_ascii:
  assumes "list_all (\<lambda>c. (of_char c :: nat) < 0x80) s" shows "utf8_text s"
proof -
  have "utf8_encode (of_char c) = [byte_of_char c]" if "(of_char c :: nat) < 0x80" for c
    using that by (simp add: utf8_encode_def byte_of_char_def)
  with assms have "concat (map utf8_encode (map of_char s)) = bytes_of_text s"
    by (induction s) (auto simp: bytes_of_text_def)
  moreover have "list_all scalar_value (map of_char s)"
    using assms by (auto simp: list_all_iff scalar_value_def)
  ultimately show ?thesis unfolding utf8_text_def by (metis valid_utf8_encoded)
qed

text \<open>Replacing controls keeps a valid text valid: controls are one-byte sequences.\<close>

definition structured_byte :: "byte \<Rightarrow> byte" where
  "structured_byte b = byte_of_char (structured_char (char_of_byte b))"

lemma structured_byte_cases: "structured_byte b = (if b \<le> 0x1f \<or> b = 0x7f then 0x20 else b)"
  by (simp add: structured_byte_def structured_char_def byte_of_char_def [of "CHR '' ''"])

lemma structured_encode:
  assumes "scalar_value cp"
  shows "\<exists>cp'. scalar_value cp' \<and> map structured_byte (utf8_encode cp) = utf8_encode cp'"
proof (cases "cp \<le> 0x7f")
  case True
  then have u: "unat (of_nat cp :: byte) = cp" by (intro byte_of_nat_unat) simp
  show ?thesis
  proof (cases "cp \<le> 0x1f \<or> cp = 0x7f")
    case True
    then have "structured_byte (of_nat cp) = 0x20"
      using u by (auto simp: structured_byte_cases word_le_nat_alt word_unat_eq_iff)
    with \<open>cp \<le> 0x7f\<close> show ?thesis
      by (intro exI [of _ "0x20"]) (simp add: scalar_value_def utf8_encode_def)
  next
    case False
    then have "structured_byte (of_nat cp) = of_nat cp"
      using u by (auto simp: structured_byte_cases word_le_nat_alt word_unat_eq_iff)
    with \<open>cp \<le> 0x7f\<close> show ?thesis
      by (intro exI [of _ cp]) (simp add: scalar_value_def utf8_encode_def)
  qed
next
  case False
  have big: "structured_byte b = b" if "0x80 \<le> unat b" for b
    using that by (auto simp: structured_byte_cases word_le_nat_alt)
  have "0x80 \<le> unat b" if b: "b \<in> set (utf8_encode cp)" for b
  proof -
    have "0x80 \<le> unat (of_nat (k + r) :: byte)" if "0x80 \<le> k" "k + r < 256" for k r
      using that byte_of_nat_unat [of "k + r"] by linarith
    note lead = this [of "0xc0" "cp div 64"] this [of "0xe0" "cp div 4096"] this [of "0xf0" "cp div 262144"]
    have tail: "0x80 \<le> unat (of_nat (0x80 + x mod 64) :: byte)" for x
      using continuation_of_mod [of x] by (simp add: is_continuation_def del: of_nat_add)
    have "cp < 0x110000" using assms by (simp add: scalar_value_def)
    then have bounds: "cp \<le> 0x7ff \<Longrightarrow> cp div 64 < 32" "cp \<le> 0xffff \<Longrightarrow> cp div 4096 < 16"
      "cp div 262144 < 16" by auto
    show ?thesis using b False lead tail [of cp] tail [of "cp div 64"] tail [of "cp div 4096"] bounds
      by (auto simp: utf8_encode_def simp del: of_nat_add split: if_splits)
  qed
  then have "map structured_byte (utf8_encode cp) = utf8_encode cp"
    by (intro map_idI big)
  with assms show ?thesis by blast
qed

lemma valid_utf8_structured: "valid_utf8 bs \<Longrightarrow> valid_utf8 (map structured_byte bs)"
proof -
  have "list_all scalar_value cps \<Longrightarrow> valid_utf8 (map structured_byte (concat (map utf8_encode cps)))" for cps
  proof (induction cps)
    case (Cons c cps)
    then obtain c' where "scalar_value c'" "map structured_byte (utf8_encode c) = utf8_encode c'"
      using structured_encode [of c] by auto
    moreover from this have "valid_utf8 (utf8_encode c')" using valid_utf8_encoded [of "[c']"] by simp
    ultimately show ?case using Cons by (simp add: valid_utf8_append)
  qed simp
  then show "valid_utf8 bs \<Longrightarrow> ?thesis" unfolding valid_utf8_spec [of bs] by blast
qed

lemma utf8_text_structured: "utf8_text s \<Longrightarrow> utf8_text (map structured_char s)"
  using valid_utf8_structured [of "bytes_of_text s"]
  by (simp add: utf8_text_def bytes_of_text_def structured_byte_def comp_def)

lemma structured_char_idem [simp]: "structured_char (structured_char c) = structured_char c"
  by (simp add: structured_char_def byte_of_char_def [of "CHR '' ''"])

definition printable :: "char \<Rightarrow> bool" where
  "printable c \<longleftrightarrow> structured_char c = c"

lemma printable_structured [simp]: "printable (structured_char c)"
  by (simp add: printable_def)

end
