(* ===== verification/Status_Text.thy ===== *)
theory Status_Text
  imports Bounded_Text
begin

text \<open>
  The status report (\<open>runtime/src/reporting/status.cpp\<close>): the collector \<open>StatusText\<close> with its byte
  limit and truncation marker, the line-splitting callback owners write through, and the publisher
  that writes changed reports to a file. The file calls and the clock are the arguments of
  \<open>publish\<close>; running out of memory is not modelled.
\<close>

section \<open>The collector\<close>

definition kMaximumStatusBytes :: nat where "kMaximumStatusBytes = 128 * 1024"

definition kTruncation :: string where
  "kTruncation = LF # ''[Status report truncated]'' @ [LF]"

record StatusText =
  st_text :: string
  st_truncated :: bool

definition empty_status :: StatusText where
  "empty_status = \<lparr>st_text = [], st_truncated = False\<rparr>"

text \<open>\<open>resize\<close> fills with null characters, which the copy then overwrites.\<close>

definition append_copy :: "string \<Rightarrow> string \<Rightarrow> string" where
  "append_copy text value = text @ fst (copy_structured_bytes (replicate (length value) CHR 0x00) value)"

definition status_append :: "StatusText \<Rightarrow> string \<Rightarrow> bool \<times> StatusText" where
  "status_append status value =
    (if st_truncated status then (False, status)
     else if length value \<le> kMaximumStatusBytes - length (st_text status)
     then (True, status\<lparr>st_text := append_copy (st_text status) value\<rparr>)
     else
       (let limit = kMaximumStatusBytes - length kTruncation;
            kept = (if length (st_text status) > limit
                    then take (utf8_prefix (st_text status) limit) (st_text status)
                    else st_text status);
            used = utf8_prefix value (limit - length kept)
        in (False, \<lparr>st_text = append_copy kept (take used value) @ kTruncation, st_truncated = True\<rparr>)))"

definition status_line :: "StatusText \<Rightarrow> string \<Rightarrow> bool \<times> StatusText" where
  "status_line status value =
    (case status_append status value of
       (False, status') \<Rightarrow> (False, status')
     | (True, status') \<Rightarrow>
         if length (st_text status') < kMaximumStatusBytes
         then (True, status'\<lparr>st_text := st_text status' @ [LF]\<rparr>)
         else status_append status' [LF])"

text \<open>The loop of \<open>write_line\<close>: one turn per submitted line.\<close>

function write_lines :: "StatusText \<Rightarrow> string \<Rightarrow> bool \<times> StatusText" where
  "write_lines status remaining =
    (case status_line status (before_any {CR, LF} remaining) of
       (False, status') \<Rightarrow> (False, status')
     | (True, status') \<Rightarrow>
         (case from_any {CR, LF} remaining of
            [] \<Rightarrow> (True, status')
          | c # rest \<Rightarrow>
              (let remaining' = (if c = CR \<and> rest \<noteq> [] \<and> hd rest = LF then tl rest else rest)
               in if remaining' = [] then (True, status') else write_lines status' remaining')))"
  by pat_completeness auto
termination
proof (relation "measure (\<lambda>(status, remaining). length remaining)")
  fix status status' :: StatusText and remaining c rest x
  assume "from_any {CR, LF} remaining = c # rest"
  then have "length rest < length remaining" using from_any_length [of "{CR, LF}" remaining] by simp
  moreover assume "x = (if c = CR \<and> rest \<noteq> [] \<and> hd rest = LF then tl rest else rest)"
  then have "length x \<le> length rest" by simp
  ultimately show "((status', x), status, remaining) \<in> measure (\<lambda>(status, remaining). length remaining)"
    by simp
qed simp

declare write_lines.simps [simp del]

definition status_write_line :: "StatusText \<Rightarrow> FC_Text \<Rightarrow> u32 \<times> StatusText" where
  "status_write_line status value =
    (if ft_data value = None \<and> ft_size value \<noteq> 0 then (0, status)
     else (case write_lines status (view value) of (ok, status') \<Rightarrow> (if ok then 1 else 0, status')))"

section \<open>The unbounded report\<close>

text \<open>
  What a report says when nothing is cut: a written line is its normalised text and a line feed;
  an owner's text is split at CR, LF and CR LF, a final separator opening no further line.
\<close>

definition normal_line :: "string \<Rightarrow> string" where
  "normal_line value = map structured_char value @ [LF]"

function split_lines :: "string \<Rightarrow> string list" where
  "split_lines s =
    before_any {CR, LF} s #
      (case from_any {CR, LF} s of
         [] \<Rightarrow> []
       | c # rest \<Rightarrow>
           (let s' = (if c = CR \<and> rest \<noteq> [] \<and> hd rest = LF then tl rest else rest)
            in if s' = [] then [] else split_lines s'))"
  by pat_completeness auto
termination
proof (relation "measure length")
  fix s c rest and s' :: string
  assume "from_any {CR, LF} s = c # rest"
  then have "length rest < length s" using from_any_length [of "{CR, LF}" s] by simp
  moreover assume "s' = (if c = CR \<and> rest \<noteq> [] \<and> hd rest = LF then tl rest else rest)"
  then have "length s' \<le> length rest" by simp
  ultimately show "(s', s) \<in> measure length" by simp
qed simp

declare split_lines.simps [simp del]

definition full_lines :: "string \<Rightarrow> string" where
  "full_lines value = concat (map normal_line (split_lines value))"

section \<open>One append\<close>

lemma length_kTruncation [simp]: "length kTruncation = 27"
  by (simp add: kTruncation_def)

lemma append_copy_eq: "append_copy text value = text @ map structured_char value"
  by (simp add: append_copy_def copy_structured_exact)

lemma structured_LF_is_space: "structured_char LF = CHR '' ''"
  by (simp add: structured_char_def byte_of_char_def)

text \<open>A report holds complete lines of printable characters, within its byte limit; once truncated
  it ends with the marker.\<close>

definition status_ok :: "StatusText \<Rightarrow> bool" where
  "status_ok status \<longleftrightarrow>
    length (st_text status) \<le> kMaximumStatusBytes \<and> utf8_text (st_text status) \<and>
    list_all (\<lambda>c. c = LF \<or> printable c) (st_text status) \<and>
    (st_truncated status \<longrightarrow> (\<exists>body. st_text status = body @ kTruncation))"

lemma status_ok_empty: "status_ok empty_status"
  by (simp add: status_ok_def empty_status_def)

lemma utf8_LF [simp]: "utf8_text [LF]"
  by (rule utf8_text_ascii) simp

lemma utf8_kTruncation: "utf8_text kTruncation"
  by (rule utf8_text_ascii) (simp add: kTruncation_def)

lemma printable_kTruncation: "list_all (\<lambda>c. c = LF \<or> printable c) kTruncation"
  by (simp add: kTruncation_def printable_def structured_char_def byte_of_char_def word_le_nat_alt)

lemma printable_structured_all: "list_all (\<lambda>c. c = LF \<or> printable c) (map structured_char s)"
  by (simp add: list_all_iff)

lemma list_all_take: "list_all P xs \<Longrightarrow> list_all P (take n xs)"
  by (auto simp: list_all_iff dest: in_set_takeD)

lemma status_append_ok:
  assumes "status_ok status" and "utf8_text value"
  shows "status_ok (snd (status_append status value))"
proof -
  let ?text = "st_text status"
  let ?limit = "kMaximumStatusBytes - length kTruncation"
  define kept where "kept = (if length ?text > ?limit then take (utf8_prefix ?text ?limit) ?text else ?text)"
  let ?kept = kept
  let ?used = "utf8_prefix value (?limit - length ?kept)"
  have kept: "length ?kept \<le> ?limit"
    using utf8_prefix_le(1) [of ?text ?limit] by (simp add: kept_def)
  have kept_ok: "utf8_text ?kept" "list_all (\<lambda>c. c = LF \<or> printable c) ?kept"
    using assms(1) utf8_text_take [OF _ utf8_prefix_boundary] list_all_take
    by (auto simp: status_ok_def kept_def)
  have used: "utf8_text (take ?used value)"
    by (rule utf8_text_take [OF assms(2) utf8_prefix_boundary])
  have "?used \<le> ?limit - length kept" by (rule utf8_prefix_le)
  with kept have "length ?kept + length (take ?used value) + 27 \<le> kMaximumStatusBytes"
    unfolding length_take length_kTruncation kMaximumStatusBytes_def by linarith
  with kept_ok used have "status_ok \<lparr>st_text = append_copy ?kept (take ?used value) @ kTruncation, st_truncated = True\<rparr>"
    using utf8_kTruncation printable_kTruncation printable_structured_all
    by (simp add: status_ok_def append_copy_eq utf8_text_append utf8_text_structured)
  moreover have "status_ok (status\<lparr>st_text := append_copy ?text value\<rparr>)"
    if "length value \<le> kMaximumStatusBytes - length ?text" "\<not> st_truncated status"
    using that assms printable_structured_all
    by (auto simp: status_ok_def append_copy_eq utf8_text_append utf8_text_structured)
  moreover have "status_append status value =
      (if st_truncated status then (False, status)
       else if length value \<le> kMaximumStatusBytes - length ?text
       then (True, status\<lparr>st_text := append_copy ?text value\<rparr>)
       else (False, \<lparr>st_text = append_copy kept (take ?used value) @ kTruncation, st_truncated = True\<rparr>))"
    unfolding status_append_def Let_def kept_def by (rule refl)
  ultimately show ?thesis using assms(1) by simp
qed

lemma status_append_fits:
  assumes "\<not> st_truncated status" and "length (st_text status) + length value \<le> kMaximumStatusBytes"
  shows "status_append status value = (True, status\<lparr>st_text := st_text status @ map structured_char value\<rparr>)"
  using assms by (auto simp: status_append_def append_copy_eq)

lemma status_append_refuses: "st_truncated status \<Longrightarrow> status_append status value = (False, status)"
  by (simp add: status_append_def)

lemma status_append_cuts:
  assumes "\<not> st_truncated status" and "status_ok status"
    and "length (st_text status) + length value > kMaximumStatusBytes"
  shows "\<not> fst (status_append status value)" "st_truncated (snd (status_append status value))"
proof -
  have "\<not> length value \<le> kMaximumStatusBytes - length (st_text status)"
    using assms(2,3) by (auto simp: status_ok_def)
  with assms(1) show "\<not> fst (status_append status value)" "st_truncated (snd (status_append status value))"
    by (simp_all add: status_append_def Let_def)
qed

section \<open>Lines\<close>

lemma status_line_ok:
  assumes "status_ok status" and "utf8_text value"
  shows "status_ok (snd (status_line status value))"
proof -
  obtain ok status' where a: "status_append status value = (ok, status')" by fastforce
  from status_append_ok [OF assms] have s: "status_ok status'" by (simp add: a)
  have t: "\<not> st_truncated status'" if ok
    using a that by (auto simp: status_append_def Let_def split: if_splits)
  show ?thesis
  proof (cases ok)
    case True
    with s t have "status_ok (status'\<lparr>st_text := st_text status' @ [LF]\<rparr>)"
      if "length (st_text status') < kMaximumStatusBytes"
      using that by (auto simp: status_ok_def utf8_text_append)
    with True s status_append_ok [OF s utf8_LF] show ?thesis by (simp add: status_line_def a)
  qed (use s in \<open>simp add: status_line_def a\<close>)
qed

lemma status_line_fits:
  assumes "\<not> st_truncated status" and "length (st_text status) + length value < kMaximumStatusBytes"
  shows "status_line status value = (True, status\<lparr>st_text := st_text status @ normal_line value\<rparr>)"
  using assms by (simp add: status_line_def status_append_fits normal_line_def)

lemma status_line_cuts:
  assumes "status_ok status" and "utf8_text value"
    and "st_truncated status \<or> length (st_text status) + length value \<ge> kMaximumStatusBytes"
  shows "\<not> fst (status_line status value) \<and> st_truncated (snd (status_line status value))"
proof (cases "st_truncated status")
  case True
  then show ?thesis by (simp add: status_line_def status_append_refuses)
next
  case False
  show ?thesis
  proof (cases "length (st_text status) + length value = kMaximumStatusBytes")
    case True
    let ?status' = "status\<lparr>st_text := st_text status @ map structured_char value\<rparr>"
    have a: "status_append status value = (True, ?status')" using False True by (simp add: status_append_fits)
    then have "status_ok ?status'" using status_append_ok [OF assms(1,2)] by simp
    from status_append_cuts [OF _ this, of "[LF]"] False True a show ?thesis by (simp add: status_line_def)
  next
    case neq: False
    with assms(3) False have "length (st_text status) + length value > kMaximumStatusBytes" by simp
    from status_append_cuts [OF False assms(1) this] show ?thesis
      by (cases "status_append status value") (auto simp: status_line_def)
  qed
qed

lemma utf8_char_split:
  assumes "utf8_text s" and "s = a @ c # b" and "(of_char c :: nat) < 0x80"
  shows "utf8_text a \<and> utf8_text b"
proof -
  have c: "\<not> continuation_char c"
    using assms(3) by (simp add: continuation_char_iff is_continuation_def)
  have a: "utf8_text a"
    using utf8_text_take [OF assms(1), of "length a"] c assms(2) by (simp add: boundary_def)
  have "valid_utf8 (bytes_of_text a @ bytes_of_text (c # b))"
    using assms(1,2) by (simp add: utf8_text_def)
  then have "valid_utf8 (bytes_of_text (c # b))"
  proof -
    obtain cps where "list_all scalar_value cps" "bytes_of_text a = concat (map utf8_encode cps)"
      using a unfolding utf8_text_def valid_utf8_spec by blast
    moreover have "list_all scalar_value cps \<Longrightarrow> valid_utf8 (concat (map utf8_encode cps) @ t) \<Longrightarrow> valid_utf8 t" for t cps
      by (induction cps) (auto simp: valid_utf8_nonempty utf8_step_encode)
    ultimately show ?thesis
      using \<open>valid_utf8 (bytes_of_text a @ bytes_of_text (c # b))\<close> by metis
  qed
  moreover have "bytes_of_text (c # b) = byte_of_char c # bytes_of_text b" by (simp add: bytes_of_text_def)
  moreover have "byte_of_char c < 0x80" using assms(3) by (simp add: word_less_nat_alt)
  ultimately have "valid_utf8 (bytes_of_text b)" by (simp add: valid_utf8_nonempty)
  with a show ?thesis by (simp add: utf8_text_def)
qed

lemma from_any_hd: "from_any cs s = c # rest \<Longrightarrow> c \<in> cs"
  unfolding from_any_def by (induction s) (auto split: if_splits)

lemma utf8_text_lines:
  assumes "utf8_text s"
  shows "utf8_text (before_any {CR, LF} s)"
    and "from_any {CR, LF} s = c # rest \<Longrightarrow>
      utf8_text (if c = CR \<and> rest \<noteq> [] \<and> hd rest = LF then tl rest else rest)"
proof -
  have split: "s = before_any {CR, LF} s @ from_any {CR, LF} s" by simp
  show "utf8_text (before_any {CR, LF} s)"
  proof (cases "from_any {CR, LF} s")
    case Nil
    with split assms show ?thesis by simp
  next
    case (Cons c rest)
    from from_any_hd [OF Cons] have "(of_char c :: nat) < 0x80" by auto
    from utf8_char_split [OF assms, of _ c rest] this split Cons show ?thesis by metis
  qed
  assume Cons: "from_any {CR, LF} s = c # rest"
  from from_any_hd [OF Cons] have "(of_char c :: nat) < 0x80" by auto
  then have rest: "utf8_text rest" using utf8_char_split [OF assms, of _ c rest] split Cons by metis
  have "utf8_text (tl rest)" if "rest \<noteq> []" "hd rest = LF"
    using utf8_char_split [OF rest, of "[]" LF "tl rest"] that by (cases rest) auto
  with rest show "utf8_text (if c = CR \<and> rest \<noteq> [] \<and> hd rest = LF then tl rest else rest)" by simp
qed

lemma write_lines_ok:
  "status_ok status \<Longrightarrow> utf8_text s \<Longrightarrow> status_ok (snd (write_lines status s))"
proof (induction status s rule: write_lines.induct)
  case (1 status s)
  obtain ok status' where l: "status_line status (before_any {CR, LF} s) = (ok, status')" by fastforce
  have ok: "status_ok status'"
    using status_line_ok [OF "1.prems"(1) utf8_text_lines(1) [OF "1.prems"(2)]] l by simp
  show ?case
  proof (cases ok)
    case False
    with l ok show ?thesis by (simp add: write_lines.simps [of status s])
  next
    case True
    show ?thesis
    proof (cases "from_any {CR, LF} s")
      case Nil
      with l ok True show ?thesis by (simp add: write_lines.simps [of status s])
    next
      case (Cons c rest)
      let ?s' = "if c = CR \<and> rest \<noteq> [] \<and> hd rest = LF then tl rest else rest"
      have "status_ok (snd (write_lines status' ?s'))" if "?s' \<noteq> []"
        by (rule "1.IH" [OF l [symmetric] _ Cons refl]) (use True that ok utf8_text_lines(2) [OF "1.prems"(2) Cons] in simp_all)
      with l ok True Cons show ?thesis by (simp add: write_lines.simps [of status s] Let_def)
    qed
  qed
qed

text \<open>The collector against the unbounded report: a text whose lines fit is written in full, one
  that does not is reported as such and truncates the report.\<close>

lemma full_lines_rec:
  "full_lines s = normal_line (before_any {CR, LF} s) @
     (case from_any {CR, LF} s of [] \<Rightarrow> []
      | c # rest \<Rightarrow>
          (let s' = (if c = CR \<and> rest \<noteq> [] \<and> hd rest = LF then tl rest else rest)
           in if s' = [] then [] else full_lines s'))"
  by (simp add: full_lines_def split_lines.simps [of s] Let_def split: list.split)

lemma length_normal_line [simp]: "length (normal_line s) = Suc (length s)"
  by (simp add: normal_line_def)

lemma write_lines_exact:
  "status_ok status \<Longrightarrow> utf8_text s \<Longrightarrow> \<not> st_truncated status \<Longrightarrow>
   (if length (st_text status) + length (full_lines s) \<le> kMaximumStatusBytes
    then write_lines status s = (True, status\<lparr>st_text := st_text status @ full_lines s\<rparr>)
    else \<not> fst (write_lines status s) \<and> st_truncated (snd (write_lines status s)))"
proof (induction status s rule: write_lines.induct)
  case (1 status s)
  let ?l = "before_any {CR, LF} s"
  have ul: "utf8_text ?l" by (rule utf8_text_lines(1) [OF "1.prems"(2)])
  show ?case
  proof (cases "length (st_text status) + length ?l < kMaximumStatusBytes")
    case False
    with status_line_cuts [OF "1.prems"(1) ul] obtain status'
      where "status_line status ?l = (False, status')" "st_truncated status'"
      by (metis not_less prod.collapse)
    moreover have "length (full_lines s) \<ge> Suc (length ?l)" by (simp add: full_lines_rec)
    ultimately show ?thesis using False by (simp add: write_lines.simps [of status s])
  next
    case True
    let ?status' = "status\<lparr>st_text := st_text status @ normal_line ?l\<rparr>"
    have l: "status_line status ?l = (True, ?status')"
      using status_line_fits [OF "1.prems"(3) True] .
    have ok: "status_ok ?status'" using status_line_ok [OF "1.prems"(1) ul] l by simp
    show ?thesis
    proof (cases "from_any {CR, LF} s")
      case Nil
      with l True show ?thesis
        by (simp add: write_lines.simps [of status s] full_lines_rec [of s])
    next
      case (Cons c rest)
      let ?s' = "if c = CR \<and> rest \<noteq> [] \<and> hd rest = LF then tl rest else rest"
      have us: "utf8_text ?s'" by (rule utf8_text_lines(2) [OF "1.prems"(2) Cons])
      have w: "write_lines status s = (if ?s' = [] then (True, ?status') else write_lines ?status' ?s')"
        using l Cons by (simp add: write_lines.simps [of status s] Let_def)
      have f: "full_lines s = normal_line ?l @ (if ?s' = [] then [] else full_lines ?s')"
        using Cons by (simp add: full_lines_rec [of s] Let_def)
      show ?thesis
      proof (cases "?s' = []")
        case empty: True
        then show ?thesis unfolding w f using True by simp
      next
        case nonempty: False
        have ih: "if length (st_text ?status') + length (full_lines ?s') \<le> kMaximumStatusBytes
            then write_lines ?status' ?s' = (True, ?status'\<lparr>st_text := st_text ?status' @ full_lines ?s'\<rparr>)
            else \<not> fst (write_lines ?status' ?s') \<and> st_truncated (snd (write_lines ?status' ?s'))"
          using "1.prems"(3) by (intro "1.IH" [OF l [symmetric] refl Cons refl nonempty ok us]) simp
        then show ?thesis unfolding w f if_not_P [OF nonempty]
          by (simp add: add.assoc split: if_splits)
      qed
    qed
  qed
qed

section \<open>The collector as a system\<close>

datatype StatusEvent = StatusAppend string | StatusLine string | StatusWrite FC_Text

fun status_step :: "StatusText \<Rightarrow> StatusEvent \<Rightarrow> StatusText" where
  "status_step status (StatusAppend t) = snd (status_append status t)"
| "status_step status (StatusLine t) = snd (status_line status t)"
| "status_step status (StatusWrite t) = snd (status_write_line status t)"

fun status_text_valid :: "StatusText \<Rightarrow> StatusEvent \<Rightarrow> bool" where
  "status_text_valid status (StatusAppend t) = utf8_text t"
| "status_text_valid status (StatusLine t) = utf8_text t"
| "status_text_valid status (StatusWrite t) = utf8_text (view t)"

lemma status_write_line_ok:
  "status_ok status \<Longrightarrow> utf8_text (view t) \<Longrightarrow> status_ok (snd (status_write_line status t))"
  using write_lines_ok [of status "view t"] by (auto simp: status_write_line_def split: prod.splits)

interpretation status_system: invariant_system
  "\<lambda>s. s = empty_status" status_step status_text_valid status_ok
proof
  fix s e assume "status_ok s" "status_text_valid s e"
  then show "status_ok (status_step s e)"
    by (cases e) (auto intro: status_append_ok status_line_ok status_write_line_ok)
qed (simp add: status_ok_empty)

section \<open>The publisher\<close>

datatype StatusPublishOutcome = StatusUnchanged | StatusWritten | StatusFailed

record StatusPublishResult =
  pr_outcome :: StatusPublishOutcome
  pr_failure :: string
  pr_windows_error :: u32

record StatusPublisher =
  pub_successful :: "string option"

text \<open>
  What one publication meets outside the program: the formatted time line, and the results of
  \<open>CreateFileW\<close>, \<open>SetFilePointerEx\<close>, \<open>WriteFile\<close> (success and bytes written) and \<open>SetEndOfFile\<close>,
  with the error code reported by the call that failed.
\<close>

record publish_world =
  pw_updated :: string
  pw_open_error :: "u32 option"
  pw_seek :: bool
  pw_write :: "nat \<Rightarrow> bool \<times> nat"
  pw_truncate :: bool
  pw_error :: u32

definition ERROR_WRITE_FAULT :: u32 where "ERROR_WRITE_FAULT = 29"

fun find_text :: "string \<Rightarrow> string \<Rightarrow> nat option" where
  "find_text needle hay =
     (if take (length needle) hay = needle then Some 0
      else (case hay of [] \<Rightarrow> None | _ # rest \<Rightarrow> map_option Suc (find_text needle rest)))"

declare find_text.simps [simp del]

definition bounded_content :: "string \<Rightarrow> string \<Rightarrow> string" where
  "bounded_content updated content =
    (let limit = kMaximumStatusBytes - length updated
     in if length content \<le> limit then content
        else take (utf8_prefix content (limit - length kTruncation)) content @ kTruncation)"

text \<open>The position behind the header line that starts with \<open>Started: \<close>, or the front.\<close>

definition updated_position :: "string \<Rightarrow> nat" where
  "updated_position rendered =
    (case find_text ''Started: '' rendered of None \<Rightarrow> 0
     | Some started \<Rightarrow>
         (case find_text [LF] (drop started rendered) of None \<Rightarrow> 0
          | Some offset \<Rightarrow> started + offset + 1))"

definition rendered_status :: "string \<Rightarrow> string \<Rightarrow> string" where
  "rendered_status updated content =
    (let rendered = bounded_content updated content; at = updated_position rendered
     in take at rendered @ updated @ drop at rendered)"

definition publish :: "publish_world \<Rightarrow> StatusPublisher \<Rightarrow> string \<Rightarrow> string
    \<Rightarrow> StatusPublishResult \<times> StatusPublisher \<times> string" where
  "publish world publisher content file =
    (if pub_successful publisher = Some content
     then (\<lparr>pr_outcome = StatusUnchanged, pr_failure = [], pr_windows_error = 0\<rparr>, publisher, file)
     else
       (case pw_open_error world of
          Some code \<Rightarrow>
            (\<lparr>pr_outcome = StatusFailed, pr_failure = ''Could not open the FusionCutter.txt status report'',
              pr_windows_error = code\<rparr>, publisher, file)
        | None \<Rightarrow>
            (let rendered = rendered_status (pw_updated world) content;
                 (write_ok, written) = pw_write world (length rendered);
                 wrote = (if pw_seek world then take written rendered @ drop written file else file);
                 whole = (pw_seek world \<and> write_ok \<and> written = length rendered);
                 succeeded = (whole \<and> pw_truncate world);
                 file' = (if succeeded then take written wrote else wrote);
                 code = (if pw_error world \<noteq> 0 then pw_error world else ERROR_WRITE_FAULT)
             in if \<not> succeeded
                then (\<lparr>pr_outcome = StatusFailed, pr_failure = ''Could not write the FusionCutter.txt status report'',
                       pr_windows_error = code\<rparr>, publisher, file')
                else (\<lparr>pr_outcome = StatusWritten, pr_failure = [], pr_windows_error = 0\<rparr>,
                      publisher\<lparr>pub_successful := Some content\<rparr>, file'))))"

lemma bounded_content_length:
  "length updated + 27 \<le> kMaximumStatusBytes \<Longrightarrow>
   length (bounded_content updated content) + length updated \<le> kMaximumStatusBytes"
proof -
  let ?n = "utf8_prefix content (kMaximumStatusBytes - length updated - 27)"
  assume a: "length updated + 27 \<le> kMaximumStatusBytes"
  have "?n \<le> kMaximumStatusBytes - length updated - 27" by (rule utf8_prefix_le)
  with a have "?n + 27 + length updated \<le> kMaximumStatusBytes" by linarith
  then show ?thesis using a
    by (cases "length content \<le> kMaximumStatusBytes - length updated")
      (simp_all add: bounded_content_def Let_def min_def)
qed

lemma rendered_status_length:
  "length updated + 27 \<le> kMaximumStatusBytes \<Longrightarrow>
   length (rendered_status updated content) \<le> kMaximumStatusBytes"
proof -
  assume "length updated + 27 \<le> kMaximumStatusBytes"
  from bounded_content_length [OF this, of content]
  show ?thesis by (simp add: rendered_status_def Let_def min_def)
qed

lemma find_text_Some:
  "find_text needle hay = Some n \<Longrightarrow> take (length needle) (drop n hay) = needle \<and> n \<le> length hay"
proof (induction hay arbitrary: n)
  case Nil
  then show ?case by (simp add: find_text.simps [of needle "[]"] split: if_splits)
next
  case (Cons c hay)
  then show ?case by (auto simp: find_text.simps [of needle "c # hay"] split: if_splits)
qed

section \<open>Properties\<close>

text \<open>Whatever is appended to an empty report, as raw text, lines or owners' lines, in any order:
  as long as the submitted texts are valid UTF-8 the report never exceeds 128 KiB, is valid UTF-8
  (no cut splits a character), holds no control character but its own line feeds, and once truncated
  ends with the truncation marker.\<close>

theorem status_report_bounded:
  assumes "allowed_events status_step status_text_valid empty_status events"
  shows "status_ok (run_events status_step empty_status events)"
  using assms by (intro status_system.inv_reachable) simp_all

theorem status_report_bounded_witness:
  "status_ok (run_events status_step empty_status
     [StatusLine ''ready'', StatusWrite \<lparr>ft_data = Some [CHR 0xC3, CHR 0xA9, CR, LF, CHR ''b''], ft_size = 5\<rparr>])"
proof (rule status_report_bounded)
  have "utf8_text [CHR 0xC3, CHR 0xA9, CR, LF, CHR ''b'']"
    using valid_utf8_encoded [of "[0xe9, 13, 10, 98]"]
    by (simp add: utf8_text_def bytes_of_text_def byte_of_char_def utf8_encode_def scalar_value_def)
  moreover have "utf8_text ''ready''" by (rule utf8_text_ascii) simp
  ultimately show "allowed_events status_step status_text_valid empty_status
     [StatusLine ''ready'', StatusWrite \<lparr>ft_data = Some [CHR 0xC3, CHR 0xA9, CR, LF, CHR ''b''], ft_size = 5\<rparr>]"
    by (simp add: view_def)
qed

text \<open>An owner's text is written as its lines, each normalised and ended by a line feed, and the
  callback returns 1, exactly when the whole of it fits the report; otherwise it returns 0 and the
  report is truncated.\<close>

theorem write_line_exact:
  assumes "status_ok status" and "\<not> st_truncated status" and "utf8_text (view text)"
    and "ft_data text \<noteq> None"
  shows "if length (st_text status) + length (full_lines (view text)) \<le> kMaximumStatusBytes
    then status_write_line status text =
      (1, status\<lparr>st_text := st_text status @ full_lines (view text)\<rparr>)
    else fst (status_write_line status text) = 0 \<and> st_truncated (snd (status_write_line status text))"
  using write_lines_exact [OF assms(1,3,2)] assms(4)
  by (auto simp: status_write_line_def split: if_splits prod.splits)

theorem write_line_exact_witness:
  "status_write_line empty_status \<lparr>ft_data = Some (''a'' @ [CR, LF] @ ''b'' @ [LF]), ft_size = 5\<rparr> =
    (1, \<lparr>st_text = ''a'' @ [LF] @ ''b'' @ [LF], st_truncated = False\<rparr>)"
proof -
  let ?t = "\<lparr>ft_data = Some (''a'' @ [CR, LF] @ ''b'' @ [LF]), ft_size = 5\<rparr>"
  have v: "view ?t = ''a'' @ [CR, LF] @ ''b'' @ [LF]" by (simp add: view_def)
  have "utf8_text (view ?t)" unfolding v by (rule utf8_text_ascii) simp
  moreover have "full_lines (view ?t) = ''a'' @ [LF] @ ''b'' @ [LF]"
    unfolding v by (simp add: full_lines_rec before_any_def from_any_def normal_line_def
        structured_char_def byte_of_char_def word_le_nat_alt)
  ultimately show ?thesis
    using write_line_exact [of empty_status ?t] status_ok_empty
    by (simp add: empty_status_def kMaximumStatusBytes_def)
qed

text \<open>Publishing writes the file exactly when the content differs from the last one written
  successfully; the file then is the content with the time line inserted, cut to 128 KiB in all, and
  nothing of an earlier longer report is left behind. A failed publication, whatever failed, is not
  remembered, so that the same content is attempted again.\<close>

theorem publish_exact:
  assumes "length (pw_updated world) + length kTruncation \<le> kMaximumStatusBytes"
    and "publish world publisher content file = (result, publisher', file')"
  shows "(pr_outcome result = StatusUnchanged \<longleftrightarrow> pub_successful publisher = Some content) \<and>
    (pr_outcome result = StatusUnchanged \<longrightarrow> publisher' = publisher \<and> file' = file) \<and>
    (pr_outcome result = StatusFailed \<longrightarrow> publisher' = publisher) \<and>
    (pr_outcome result = StatusWritten \<longrightarrow> pub_successful publisher' = Some content \<and>
       file' = rendered_status (pw_updated world) content \<and> length file' \<le> kMaximumStatusBytes)"
  using assms rendered_status_length [of "pw_updated world" content]
  by (auto simp: publish_def Let_def split: if_splits option.splits prod.splits)

theorem publish_exact_witness:
  "\<exists>result publisher' file'.
    publish \<lparr>pw_updated = ''U'' @ [LF], pw_open_error = None, pw_seek = True, pw_write = (\<lambda>n. (True, n)),
        pw_truncate = True, pw_error = 0\<rparr> \<lparr>pub_successful = None\<rparr> ''report'' ''an old longer report'' =
      (result, publisher', file') \<and>
    pr_outcome result = StatusWritten \<and> pub_successful publisher' = Some ''report'' \<and>
    file' = ''U'' @ [LF] @ ''report'' \<and> length file' \<le> kMaximumStatusBytes"
proof -
  let ?w = "\<lparr>pw_updated = ''U'' @ [LF], pw_open_error = None, pw_seek = True, pw_write = (\<lambda>n. (True, n)),
        pw_truncate = True, pw_error = 0\<rparr> :: publish_world"
  obtain result publisher' file' where p: "publish ?w \<lparr>pub_successful = None\<rparr> ''report'' ''an old longer report'' =
      (result, publisher', file')" by (metis prod_cases3)
  have o: "pr_outcome result = StatusWritten"
    using p by (auto simp: publish_def Let_def)
  have r: "rendered_status (''U'' @ [LF]) ''report'' = ''U'' @ [LF] @ ''report''"
    by (simp add: rendered_status_def bounded_content_def updated_position_def kMaximumStatusBytes_def
        find_text.simps)
  show ?thesis
    using publish_exact [OF _ p] o r p by (auto simp: kMaximumStatusBytes_def)
qed

end
