(* ===== verification/Ini.thy ===== *)
theory Ini
  imports Bounded_Text
begin

unbundle bit_operations_syntax

text \<open>
  The INI reader and writer of scalar settings (\<open>runtime/src/configuration/ini.cpp\<close>): the JSON
  string decoder and its inverse, the line parser with its duplicate check and diagnostics, and the
  conversion of scalars from and to text. The UTF-8 check of Windows (\<open>MultiByteToWideChar\<close> with
  \<open>MB_ERR_INVALID_CHARS\<close>) and the decimal conversions of a \<open>double\<close> are arguments of the operations
  that use them; a \<open>double\<close> is its 64 bits.
\<close>

section \<open>Diagnostics\<close>

datatype FC_LogLevel = FC_LOG_OFF | FC_LOG_ERROR | FC_LOG_WARNING | FC_LOG_INFO | FC_LOG_DEBUG

record Diagnostic =
  dg_owner :: string
  dg_message :: string
  dg_windows_error :: u32
  dg_level :: FC_LogLevel

definition diagnostic :: "string \<Rightarrow> string \<Rightarrow> Diagnostic" where
  "diagnostic owner message =
    \<lparr>dg_owner = owner, dg_message = message, dg_windows_error = 0, dg_level = FC_LOG_ERROR\<rparr>"

lemma diagnostic_simps [simp]:
  "dg_owner (diagnostic owner message) = owner" "dg_message (diagnostic owner message) = message"
  by (simp_all add: diagnostic_def)

section \<open>Text pieces\<close>

definition blank :: "char \<Rightarrow> bool" where
  "blank c \<longleftrightarrow> c = CHR '' '' \<or> c = TAB \<or> c = CR"

definition trim :: "string \<Rightarrow> string" where
  "trim s =
    (let tail = dropWhile blank s
     in if tail = [] then [] else rev (dropWhile blank (rev tail)))"

definition identity :: "string \<Rightarrow> string \<Rightarrow> string" where
  "identity sec key = folded_id sec @ [LF] @ folded_id key"

text \<open>\<open>find(c)\<close> with the text in front of the character and the text behind it.\<close>

definition split_at :: "char \<Rightarrow> string \<Rightarrow> (string \<times> string) option" where
  "split_at c s = (if c \<in> set s then Some (takeWhile (\<lambda>x. x \<noteq> c) s, tl (dropWhile (\<lambda>x. x \<noteq> c) s)) else None)"

lemma split_at_Some: "split_at c s = Some (a, b) \<longleftrightarrow> s = a @ c # b \<and> c \<notin> set a"
proof
  assume "split_at c s = Some (a, b)"
  then have in_set: "c \<in> set s" and a: "a = takeWhile (\<lambda>x. x \<noteq> c) s"
    and b: "b = tl (dropWhile (\<lambda>x. x \<noteq> c) s)"
    by (simp_all add: split_at_def split: if_splits)
  from in_set have "dropWhile (\<lambda>x. x \<noteq> c) s \<noteq> []" by (simp add: dropWhile_eq_Nil_conv)
  then have "dropWhile (\<lambda>x. x \<noteq> c) s = c # b"
    using hd_dropWhile [of "\<lambda>x. x \<noteq> c" s] unfolding b by (cases "dropWhile (\<lambda>x. x \<noteq> c) s") auto
  then show "s = a @ c # b \<and> c \<notin> set a"
    unfolding a using takeWhile_dropWhile_id [of "\<lambda>x. x \<noteq> c" s] by (auto dest: set_takeWhileD)
next
  assume s: "s = a @ c # b \<and> c \<notin> set a"
  then have "takeWhile (\<lambda>x. x \<noteq> c) s = a" "dropWhile (\<lambda>x. x \<noteq> c) s = c # b"
    by (auto simp: takeWhile_append dropWhile_append)
  with s show "split_at c s = Some (a, b)" by (simp add: split_at_def)
qed

lemma split_at_None: "split_at c s = None \<longleftrightarrow> c \<notin> set s"
  by (simp add: split_at_def)

section \<open>Documents\<close>

record IniEntry =
  ie_section :: string
  ie_key :: string
  ie_value :: string

record IniDocument =
  doc_entries :: "IniEntry list"
  doc_sections :: "string list"
  doc_commented :: "string list"

definition empty_document :: IniDocument where
  "empty_document = \<lparr>doc_entries = [], doc_sections = [], doc_commented = []\<rparr>"

definition same_entry :: "string \<Rightarrow> string \<Rightarrow> IniEntry \<Rightarrow> bool" where
  "same_entry sec key entry \<longleftrightarrow> equal_id (ie_section entry) sec \<and> equal_id (ie_key entry) key"

definition ini_find :: "IniDocument \<Rightarrow> string \<Rightarrow> string \<Rightarrow> IniEntry option" where
  "ini_find document sec key = List.find (same_entry sec key) (doc_entries document)"

section \<open>UTF-8\<close>

text \<open>\<open>mb\<close> is \<open>MultiByteToWideChar\<close> with \<open>MB_ERR_INVALID_CHARS\<close> returning a nonzero count.\<close>

definition INT_MAX :: nat where "INT_MAX = 2 ^ 31 - 1"

definition utf8 :: "(string \<Rightarrow> bool) \<Rightarrow> string \<Rightarrow> bool \<Rightarrow> bool" where
  "utf8 mb s allow_null =
    (if (\<not> allow_null \<and> CHR 0x00 \<in> set s) \<or> length s > INT_MAX then False
     else s = [] \<or> mb s)"

section \<open>JSON strings\<close>

definition hex_digit :: "char \<Rightarrow> nat option" where
  "hex_digit c =
    (let n = of_char c :: nat
     in if 48 \<le> n \<and> n \<le> 57 then Some (n - 48)
        else if 97 \<le> n \<and> n \<le> 102 then Some (n - 97 + 10)
        else if 65 \<le> n \<and> n \<le> 70 then Some (n - 65 + 10)
        else None)"

fun hex_digits :: "nat \<Rightarrow> nat \<Rightarrow> string \<Rightarrow> (nat \<times> string) option" where
  "hex_digits 0 code s = Some (code, s)"
| "hex_digits (Suc n) code [] = None"
| "hex_digits (Suc n) code (c # s) =
     (case hex_digit c of None \<Rightarrow> None | Some d \<Rightarrow> hex_digits n (code * 16 + d) s)"

definition hex :: "string \<Rightarrow> (nat \<times> string) option" where
  "hex s = (if length s < 4 then None else hex_digits 4 0 s)"

text \<open>The code point behind \<open>\u\<close>: one escape, or two that form a surrogate pair.\<close>

definition decode_code :: "string \<Rightarrow> (nat \<times> string) option" where
  "decode_code s =
    (case hex s of None \<Rightarrow> None
     | Some (code, rest) \<Rightarrow>
         if 0xd800 \<le> code \<and> code \<le> 0xdbff then
           (if length rest < 6 \<or> take 2 rest \<noteq> [CHR 0x5C, CHR ''u''] then None
            else
              (case hex (drop 2 rest) of None \<Rightarrow> None
               | Some (low, rest') \<Rightarrow>
                   if low < 0xdc00 \<or> low > 0xdfff then None
                   else Some (0x10000 + push_bit 10 (code - 0xd800) + low - 0xdc00, rest')))
         else if 0xdc00 \<le> code \<and> code \<le> 0xdfff then None
         else Some (code, rest))"

definition encode_code :: "nat \<Rightarrow> string" where
  "encode_code code =
    (if code \<le> 0x7f then [char_of code]
     else if code \<le> 0x7ff
     then [char_of (0xc0 OR drop_bit 6 code), char_of (0x80 OR (code AND 63))]
     else if code \<le> 0xffff
     then [char_of (0xe0 OR drop_bit 12 code), char_of (0x80 OR (drop_bit 6 code AND 63)),
           char_of (0x80 OR (code AND 63))]
     else [char_of (0xf0 OR drop_bit 18 code), char_of (0x80 OR (drop_bit 12 code AND 63)),
           char_of (0x80 OR (drop_bit 6 code AND 63)), char_of (0x80 OR (code AND 63))])"

text \<open>One escape after its backslash: the bytes it stands for and what follows.\<close>

fun decode_escape :: "string \<Rightarrow> (string \<times> string) option" where
  "decode_escape [] = None"
| "decode_escape (c # rest) =
     (if c = CHR 0x22 then Some ([CHR 0x22], rest)
      else if c = CHR 0x5C then Some ([CHR 0x5C], rest)
      else if c = CHR ''/'' then Some (''/'', rest)
      else if c = CHR ''b'' then Some ([CHR 0x08], rest)
      else if c = CHR ''f'' then Some ([CHR 0x0C], rest)
      else if c = CHR ''n'' then Some ([LF], rest)
      else if c = CHR ''r'' then Some ([CR], rest)
      else if c = CHR ''t'' then Some ([TAB], rest)
      else if c = CHR ''u'' then
        (case decode_code rest of None \<Rightarrow> None | Some (code, rest') \<Rightarrow> Some (encode_code code, rest'))
      else None)"

lemma hex_digits_length: "hex_digits n code s = Some (c, rest) \<Longrightarrow> length rest + n = length s"
  by (induction n code s rule: hex_digits.induct) (auto split: option.splits)

lemma hex_length: "hex s = Some (c, rest) \<Longrightarrow> length rest < length s"
  by (auto simp: hex_def split: if_splits dest: hex_digits_length)

lemma decode_code_length: "decode_code s = Some (c, rest) \<Longrightarrow> length rest < length s"
  by (auto simp: decode_code_def split: option.splits if_splits dest!: hex_length)

lemma decode_escape_length: "decode_escape s = Some (r, rest) \<Longrightarrow> length rest < length s"
  by (cases s) (auto split: if_splits option.splits dest: decode_code_length)

text \<open>The loop over the characters behind the opening quote; \<open>None\<close> is \<open>fail\<close>.\<close>

function decode_chars :: "string \<Rightarrow> string \<Rightarrow> string option" where
  "decode_chars [] decoded = None"
| "decode_chars (c # rest) decoded =
     (if c = CHR 0x22 then (if rest \<noteq> [] then None else Some decoded)
      else if (of_char c :: nat) < 0x20 then None
      else if c \<noteq> CHR 0x5C then decode_chars rest (decoded @ [c])
      else (case decode_escape rest of None \<Rightarrow> None
            | Some (bytes, rest') \<Rightarrow> decode_chars rest' (decoded @ bytes)))"
  by pat_completeness auto
termination
  by (relation "measure (\<lambda>(s, decoded). length s)") (auto dest: decode_escape_length)

definition malformed_string :: string where "malformed_string = ''Malformed JSON string''"

definition decode_string :: "string \<Rightarrow> string \<Rightarrow> Diagnostic + string" where
  "decode_string s owner =
    (if take 1 s \<noteq> [CHR 0x22] then Inr s
     else (case decode_chars (tl s) [] of
             None \<Rightarrow> Inl (diagnostic owner malformed_string)
           | Some decoded \<Rightarrow> Inr decoded))"

definition hex_char :: "nat \<Rightarrow> char" where
  "hex_char n = ''0123456789abcdef'' ! n"

definition quote_char :: "char \<Rightarrow> string" where
  "quote_char c =
    (if c = CHR 0x22 \<or> c = CHR 0x5C then [CHR 0x5C, c]
     else if (of_char c :: nat) < 32
     then CHR 0x5C # ''u00'' @ [hex_char (drop_bit 4 (of_char c) AND 15), hex_char (of_char c AND 15)]
     else [c])"

definition quote :: "string \<Rightarrow> string" where
  "quote s = [CHR 0x22] @ concat (map quote_char s) @ [CHR 0x22]"

section \<open>Decimal numbers\<close>

fun decimal :: "nat \<Rightarrow> string" where
  "decimal n = (if n < 10 then [char_of (48 + n)] else decimal (n div 10) @ [char_of (48 + n mod 10)])"

declare decimal.simps [simp del]

definition decimal_int :: "int \<Rightarrow> string" where
  "decimal_int i = (if i < 0 then ''-'' @ decimal (nat (- i)) else decimal (nat i))"

definition is_digit :: "char \<Rightarrow> bool" where
  "is_digit c \<longleftrightarrow> 48 \<le> (of_char c :: nat) \<and> (of_char c :: nat) \<le> 57"

definition digits_value :: "string \<Rightarrow> nat" where
  "digits_value ds = foldl (\<lambda>n c. n * 10 + (of_char c - 48)) 0 ds"

text \<open>\<open>std::from_chars\<close> in base ten: the longest run of digits, refused when it is empty or out of
  range; the text it did not use is returned with the value.\<close>

definition from_chars_unsigned :: "string \<Rightarrow> (u64 \<times> string) option" where
  "from_chars_unsigned s =
    (let ds = takeWhile is_digit s; n = digits_value ds
     in if ds = [] \<or> n \<ge> 2 ^ 64 then None else Some (of_nat n, dropWhile is_digit s))"

definition from_chars_signed :: "string \<Rightarrow> (64 word \<times> string) option" where
  "from_chars_signed s =
    (let negative = take 1 s = ''-'';
         body = (if negative then tl s else s);
         ds = takeWhile is_digit body;
         n = (if negative then - int (digits_value ds) else int (digits_value ds))
     in if ds = [] \<or> n < - (2 ^ 63) \<or> n \<ge> 2 ^ 63 then None
        else Some (word_of_int n, dropWhile is_digit body))"

section \<open>Scalars\<close>

definition FC_SCALAR_BOOL :: u32 where "FC_SCALAR_BOOL = 0"
definition FC_SCALAR_SIGNED :: u32 where "FC_SCALAR_SIGNED = 1"
definition FC_SCALAR_UNSIGNED :: u32 where "FC_SCALAR_UNSIGNED = 2"
definition FC_SCALAR_REAL :: u32 where "FC_SCALAR_REAL = 3"
definition FC_SCALAR_TEXT :: u32 where "FC_SCALAR_TEXT = 4"

lemmas scalar_kinds = FC_SCALAR_BOOL_def FC_SCALAR_SIGNED_def FC_SCALAR_UNSIGNED_def
  FC_SCALAR_REAL_def FC_SCALAR_TEXT_def

text \<open>A \<open>double\<close> is its bits; it is finite unless all exponent bits are set.\<close>

type_synonym double_bits = u64

definition isfinite :: "double_bits \<Rightarrow> bool" where
  "isfinite d \<longleftrightarrow> drop_bit 52 d AND 0x7ff \<noteq> 0x7ff"

datatype ScalarValue =
    SV_Bool bool
  | SV_Signed "64 word"
  | SV_Unsigned u64
  | SV_Real double_bits
  | SV_Text string

text \<open>The tagged union of the C interface; its kind is read off the constructor.\<close>

datatype FC_Value =
    FV_Bool u32
  | FV_Signed "64 word"
  | FV_Unsigned u64
  | FV_Real double_bits
  | FV_Text FC_Text

fun value_kind :: "FC_Value \<Rightarrow> u32" where
  "value_kind (FV_Bool _) = FC_SCALAR_BOOL"
| "value_kind (FV_Signed _) = FC_SCALAR_SIGNED"
| "value_kind (FV_Unsigned _) = FC_SCALAR_UNSIGNED"
| "value_kind (FV_Real _) = FC_SCALAR_REAL"
| "value_kind (FV_Text _) = FC_SCALAR_TEXT"

definition text_view :: "string \<Rightarrow> FC_Text" where
  "text_view s = \<lparr>ft_data = Some s, ft_size = length s\<rparr>"

fun scalar_view :: "ScalarValue \<Rightarrow> FC_Value" where
  "scalar_view (SV_Bool b) = FV_Bool (if b then 1 else 0)"
| "scalar_view (SV_Signed i) = FV_Signed i"
| "scalar_view (SV_Unsigned u) = FV_Unsigned u"
| "scalar_view (SV_Real d) = FV_Real d"
| "scalar_view (SV_Text s) = FV_Text (text_view s)"

text \<open>What the conversions use of the platform: the UTF-8 check of Windows, \<open>from_chars\<close> for a
  \<open>double\<close> (its value and the text left) and a stream with seventeen significant digits.\<close>

record platform =
  plat_utf8 :: "string \<Rightarrow> bool"
  plat_parse_real :: "string \<Rightarrow> (double_bits \<times> string) option"
  plat_format_real :: "double_bits \<Rightarrow> string"

definition scalar_mismatch :: string where
  "scalar_mismatch = ''Value does not match the setting'' @ [CHR 0x27] @ ''s declared type''"

definition parse_scalar :: "platform \<Rightarrow> string \<Rightarrow> u32 \<Rightarrow> string \<Rightarrow> Diagnostic + ScalarValue" where
  "parse_scalar plat s kind owner =
    (let fail = Inl (diagnostic owner scalar_mismatch)
     in if kind = FC_SCALAR_TEXT then
          (if \<not> utf8 (plat_utf8 plat) s True then fail else Inr (SV_Text s))
        else if kind = FC_SCALAR_BOOL then
          (if equal_id s ''true'' then Inr (SV_Bool True)
           else if equal_id s ''false'' then Inr (SV_Bool False)
           else fail)
        else if kind = FC_SCALAR_SIGNED then
          (case from_chars_signed s of Some (n, []) \<Rightarrow> Inr (SV_Signed n) | _ \<Rightarrow> fail)
        else if kind = FC_SCALAR_UNSIGNED then
          (case from_chars_unsigned s of Some (n, []) \<Rightarrow> Inr (SV_Unsigned n) | _ \<Rightarrow> fail)
        else if kind = FC_SCALAR_REAL then
          (case plat_parse_real plat s of
             Some (d, []) \<Rightarrow> if isfinite d then Inr (SV_Real d) else fail | _ \<Rightarrow> fail)
        else fail)"

fun format_scalar :: "platform \<Rightarrow> FC_Value \<Rightarrow> string" where
  "format_scalar plat (FV_Bool b) = (if b \<noteq> 0 then ''true'' else ''false'')"
| "format_scalar plat (FV_Signed i) = decimal_int (sint i)"
| "format_scalar plat (FV_Unsigned u) = decimal (unat u)"
| "format_scalar plat (FV_Real d) = plat_format_real plat d"
| "format_scalar plat (FV_Text t) = quote (view t)"

section \<open>The line parser\<close>

record IniState =
  is_document :: IniDocument
  is_keys :: "string set"
  is_section :: string

definition start_state :: IniState where
  "start_state = \<lparr>is_document = empty_document, is_keys = {}, is_section = []\<rparr>"

text \<open>A commented assignment without a value records its identity.\<close>

definition comment_key :: "string \<Rightarrow> string \<Rightarrow> string option" where
  "comment_key sec line =
    (let comment = trim (tl line)
     in case split_at CHR ''='' comment of
          None \<Rightarrow> None
        | Some (left, right) \<Rightarrow>
            if sec \<noteq> [] \<and> trim right = [] \<and> trim left \<noteq> [] then Some (identity sec (trim left))
            else None)"

definition line_failure :: "string \<Rightarrow> nat \<Rightarrow> string \<Rightarrow> Diagnostic" where
  "line_failure owner line message = diagnostic owner (''Line '' @ decimal line @ '': '' @ message)"

definition has_bracket :: "string \<Rightarrow> bool" where
  "has_bracket s \<longleftrightarrow> CHR ''['' \<in> set s \<or> CHR '']'' \<in> set s"

text \<open>One line, after trimming, against the state; the left result is the message of the failure.\<close>

definition parse_line :: "string \<Rightarrow> string \<Rightarrow> IniState \<Rightarrow> string + IniState" where
  "parse_line line owner st =
    (if line = [] then Inr st
     else if hd line = CHR '';'' \<or> hd line = CHR ''#'' then
       Inr (case comment_key (is_section st) line of
              None \<Rightarrow> st
            | Some key \<Rightarrow>
                st\<lparr>is_document := (is_document st)\<lparr>doc_commented := doc_commented (is_document st) @ [key]\<rparr>\<rparr>)
     else if hd line = CHR ''['' then
       (if length line < 3 \<or> last line \<noteq> CHR '']'' \<or> has_bracket (butlast (tl line))
        then Inl ''Malformed section header''
        else
          (let sec = trim (butlast (tl line))
           in if sec = [] then Inl ''Section name is empty''
              else Inr (st\<lparr>is_section := sec,
                is_document := (is_document st)\<lparr>doc_sections := doc_sections (is_document st) @ [sec]\<rparr>\<rparr>)))
     else
       (case split_at CHR ''='' line of
          None \<Rightarrow> Inl ''Expected a section header and a key=value assignment''
        | Some (left, right) \<Rightarrow>
            if is_section st = [] \<or> trim left = []
            then Inl ''Expected a section header and a key=value assignment''
            else
              (let key = trim left; ident = identity (is_section st) key
               in if has_bracket key then Inl (''Key contains '' @ [CHR 0x27] @ ''['' @ [CHR 0x27] @ '' or '' @
                      [CHR 0x27] @ '']'' @ [CHR 0x27])
                  else if ident \<in> is_keys st
                  then Inl (''Duplicate key ['' @ is_section st @ ''].'' @ key)
                  else
                    (case decode_string (trim right) owner of
                       Inl failure \<Rightarrow> Inl (dg_message failure)
                     | Inr decoded \<Rightarrow>
                         Inr (st\<lparr>is_keys := insert ident (is_keys st),
                           is_document := (is_document st)\<lparr>doc_entries := doc_entries (is_document st) @
                             [\<lparr>ie_section = is_section st, ie_key = key, ie_value = decoded\<rparr>]\<rparr>\<rparr>)))))"

text \<open>Splitting the first line off: without a line feed the whole text is the line.\<close>

definition first_line :: "string \<Rightarrow> string \<times> string" where
  "first_line s = (case split_at LF s of None \<Rightarrow> (s, []) | Some (line, rest) \<Rightarrow> (line, rest))"

lemma first_line_shorter: "s \<noteq> [] \<Longrightarrow> first_line s = (line, rest) \<Longrightarrow> length rest < length s"
  by (auto simp: first_line_def split_at_Some split: option.splits)

function parse_lines :: "string \<Rightarrow> nat \<Rightarrow> IniState \<Rightarrow> string \<Rightarrow> Diagnostic + IniState" where
  "parse_lines owner line st remaining =
    (if remaining = [] then Inr st
     else
       (case first_line remaining of
          (text, remaining') \<Rightarrow>
            (case parse_line (trim text) owner st of
               Inl message \<Rightarrow> Inl (line_failure owner (line + 1) message)
             | Inr st' \<Rightarrow> parse_lines owner (line + 1) st' remaining')))"
  by pat_completeness auto
termination
  by (relation "measure (\<lambda>(owner, line, st, remaining). length remaining)") (auto dest: first_line_shorter [OF _ sym])

declare parse_lines.simps [simp del]

definition parse_ini :: "platform \<Rightarrow> string \<Rightarrow> string \<Rightarrow> Diagnostic + IniDocument" where
  "parse_ini plat content owner =
    (if \<not> utf8 (plat_utf8 plat) content False
     then Inl (diagnostic owner (''Configuration contains null bytes, is too large for Windows text '' @
                ''conversion, or could not be validated as UTF-8''))
     else map_sum id is_document (parse_lines owner 0 start_state content))"

end
