(* ===== verification/Ini_Laws.thy ===== *)
theory Ini_Laws
  imports Ini
begin

unbundle bit_operations_syntax

text \<open>
  What the INI operations guarantee: trimming, the round trip of quoted strings and of scalars, the
  decoding of JSON escapes into UTF-8, and the document a successful parse returns.
\<close>

section \<open>Trimming\<close>

definition trimmed :: "string \<Rightarrow> bool" where
  "trimmed s \<longleftrightarrow> s = [] \<or> \<not> blank (hd s) \<and> \<not> blank (last s)"

lemma dropWhile_blank_id: "s \<noteq> [] \<Longrightarrow> \<not> blank (hd s) \<Longrightarrow> dropWhile blank s = s"
  by (cases s) auto

lemma trim_surrounded:
  assumes "list_all blank a" and "list_all blank b" and "trimmed core"
  shows "trim (a @ core @ b) = core"
proof (cases "core = []")
  case True
  have "dropWhile blank (a @ b) = []"
    using assms(1,2) by (auto simp: list_all_iff dropWhile_eq_Nil_conv)
  with True show ?thesis by (simp add: trim_def)
next
  case False
  with assms(3) have h: "\<not> blank (hd core)" "\<not> blank (last core)" by (auto simp: trimmed_def)
  have "dropWhile blank (a @ core @ b) = dropWhile blank (core @ b)"
    using assms(1) by (intro dropWhile_append2) (simp add: list_all_iff)
  also have "\<dots> = core @ b" using False h by (intro dropWhile_blank_id) auto
  finally have front: "dropWhile blank (a @ core @ b) = core @ b" .
  have "dropWhile blank (rev b @ rev core) = dropWhile blank (rev core)"
    using assms(2) by (intro dropWhile_append2) (simp add: list_all_iff)
  also have "\<dots> = rev core" using False h by (intro dropWhile_blank_id) (auto simp: hd_rev)
  finally show ?thesis using False front by (simp add: trim_def Let_def)
qed

lemma trim_trimmed: "trimmed s \<Longrightarrow> trim s = s"
  using trim_surrounded [of "[]" "[]" s] by simp

lemma trim_parts: "\<exists>a b. s = a @ trim s @ b \<and> list_all blank a \<and> list_all blank b \<and> trimmed (trim s)"
proof -
  let ?t = "dropWhile blank s"
  let ?r = "dropWhile blank (rev ?t)"
  have s: "s = takeWhile blank s @ ?t" by simp
  have t: "?t = rev ?r @ rev (takeWhile blank (rev ?t))"
    by (metis rev_append rev_rev_ident takeWhile_dropWhile_id)
  have tr: "trim s = rev ?r"
    unfolding trim_def Let_def by (cases "?t = []") (simp_all only: rev.simps dropWhile.simps if_cancel simp_thms if_False)
  have all: "list_all blank (takeWhile blank xs)" for xs
    by (induction xs) auto
  have "trimmed (rev ?r)"
  proof (cases "?r = []")
    case False
    then have "\<not> blank (hd ?r)" by (rule hd_dropWhile)
    moreover have "?t \<noteq> []" using False by (metis dropWhile.simps(1) rev.simps(1))
    then have "\<not> blank (hd ?t)" by (rule hd_dropWhile)
    moreover have "hd (rev ?r) = hd ?t"
      using False t by (metis hd_append2 rev_is_Nil_conv)
    ultimately show ?thesis by (simp add: trimmed_def last_rev)
  qed (simp add: trimmed_def)
  moreover have "list_all blank (rev (takeWhile blank (rev ?t)))" using all by simp
  moreover have "s = takeWhile blank s @ rev ?r @ rev (takeWhile blank (rev ?t))"
    using s t by simp
  ultimately show ?thesis unfolding tr using all [of s] by (intro exI conjI) assumption+
qed

lemma trimmed_trim [simp]: "trimmed (trim s)"
  using trim_parts by blast

lemma trim_trim [simp]: "trim (trim s) = trim s"
  by (simp add: trim_trimmed)

lemma set_trim: "set (trim s) \<subseteq> set s"
  using trim_parts [of s] by (metis Un_iff set_append subsetI)

lemma trim_Nil [simp]: "trim [] = []"
  by (simp add: trim_def)

section \<open>Digits and code units\<close>

lemma nat_and_15: "(n :: nat) AND 15 = n mod 16"
  using take_bit_eq_mask [of 4 n] by (simp add: take_bit_eq_mod mask_eq_exp_minus_1)

lemma nat_and_63: "(n :: nat) AND 63 = n mod 64"
  using take_bit_eq_mask [of 6 n] by (simp add: take_bit_eq_mod mask_eq_exp_minus_1)

lemma nat_or_fill: "(y :: nat) < 2 ^ k \<Longrightarrow> (a * 2 ^ k) OR y = a * 2 ^ k + y"
proof -
  assume "y < 2 ^ k"
  then have y: "y = take_bit k y" by (simp add: take_bit_nat_eq_self)
  have "push_bit k a AND y = 0"
    by (subst y, rule bit_eqI) (auto simp: bit_simps)
  then have "push_bit k a + y = push_bit k a OR y" by (rule disjunctive_add_eq_or)
  then show ?thesis by (simp add: push_bit_eq_mult)
qed

lemma nat_or_leads:
  "(y :: nat) < 64 \<Longrightarrow> 0x80 OR y = 0x80 + y" "(y :: nat) < 32 \<Longrightarrow> 0xc0 OR y = 0xc0 + y"
  "(y :: nat) < 16 \<Longrightarrow> 0xe0 OR y = 0xe0 + y" "(y :: nat) < 8 \<Longrightarrow> 0xf0 OR y = 0xf0 + y"
  using nat_or_fill [of y 6 2] nat_or_fill [of y 5 6] nat_or_fill [of y 4 14] nat_or_fill [of y 3 30]
  by simp_all

lemma hex_digit_char: "n < 16 \<Longrightarrow> hex_digit (hex_char n) = Some n"
proof -
  assume "n < 16"
  then have "n \<in> set [0..<16]" by simp
  moreover have "list_all (\<lambda>n. hex_digit (hex_char n) = Some n) [0..<16]" by code_simp
  ultimately show ?thesis by (simp only: list_all_iff)
qed

lemma char_of_byte_of_nat: "n < 256 \<Longrightarrow> char_of_byte (of_nat n) = char_of n"
  by (simp add: char_of_byte_def byte_of_nat_unat)

lemma encode_code_utf8: "cp \<le> 0x10ffff \<Longrightarrow> encode_code cp = text_of_bytes (utf8_encode cp)"
proof -
  assume cp: "cp \<le> 0x10ffff"
  have m: "x mod 64 < 64" for x :: nat by simp
  have bounds: "cp \<le> 0x7ff \<Longrightarrow> cp div 64 < 32" "cp \<le> 0xffff \<Longrightarrow> cp div 4096 < 16" "cp div 262144 < 8"
    using cp by auto
  have tail: "char_of_byte (of_nat (128 + x mod 64)) = char_of (128 + x mod 64)" for x
    using m [of x] by (intro char_of_byte_of_nat) linarith
  have lead: "cp \<le> 0x7f \<Longrightarrow> char_of_byte (of_nat cp) = char_of cp"
    "cp \<le> 0x7ff \<Longrightarrow> char_of_byte (of_nat (192 + cp div 64)) = char_of (192 + cp div 64)"
    "cp \<le> 0xffff \<Longrightarrow> char_of_byte (of_nat (224 + cp div 4096)) = char_of (224 + cp div 4096)"
    "char_of_byte (of_nat (240 + cp div 262144)) = char_of (240 + cp div 262144)"
    using bounds by (intro char_of_byte_of_nat; linarith)+
  consider "cp \<le> 0x7f" | "\<not> cp \<le> 0x7f" "cp \<le> 0x7ff" | "\<not> cp \<le> 0x7ff" "cp \<le> 0xffff" | "\<not> cp \<le> 0xffff"
    by linarith
  then show ?thesis
    by cases (simp_all add: encode_code_def utf8_encode_def text_of_bytes_def nat_and_63 drop_bit_eq_div
        nat_or_leads m bounds tail lead del: of_nat_add)
qed

section \<open>Quoted strings\<close>

lemma hex_exact:
  "length ds = 4 \<Longrightarrow> hex (ds @ rest) = hex_digits 4 0 (ds @ rest)"
  by (simp add: hex_def)

text \<open>The four digits of a code unit, as every writer of JSON escapes prints them.\<close>

definition unit_digits :: "nat \<Rightarrow> string" where
  "unit_digits n = [hex_char (n div 4096 mod 16), hex_char (n div 256 mod 16), hex_char (n div 16 mod 16),
    hex_char (n mod 16)]"

lemma unit_value: "n < 65536 \<Longrightarrow>
    ((n div 4096 mod 16 * 16 + n div 256 mod 16) * 16 + n div 16 mod 16) * 16 + n mod 16 = (n :: nat)"
proof -
  assume "n < 65536"
  then have a: "n div 4096 mod 16 = n div 4096" by simp
  have b: "n div 4096 * 16 + n div 256 mod 16 = n div 256"
    using div_mult_mod_eq [of "n div 256" 16] by (simp add: div_mult2_eq [symmetric])
  have c: "n div 256 * 16 + n div 16 mod 16 = n div 16"
    using div_mult_mod_eq [of "n div 16" 16] by (simp add: div_mult2_eq [symmetric])
  have d: "n div 16 * 16 + n mod 16 = n" by simp
  show ?thesis unfolding a b c d ..
qed

lemma hex_unit: "n < 65536 \<Longrightarrow> hex (unit_digits n @ rest) = Some (n, rest)"
proof -
  assume n: "n < 65536"
  have four: "(4 :: nat) = Suc (Suc (Suc (Suc 0)))" by simp
  have digit: "hex_digit (hex_char (x mod 16)) = Some (x mod 16)" for x by (rule hex_digit_char) simp
  have "hex (unit_digits n @ rest) = hex_digits 4 0 (unit_digits n @ rest)"
    by (rule hex_exact) (simp add: unit_digits_def)
  also have "\<dots> = Some (((n div 4096 mod 16 * 16 + n div 256 mod 16) * 16 + n div 16 mod 16) * 16 + n mod 16, rest)"
    unfolding four unit_digits_def by (simp add: digit del: mod_mult_self1)
  finally show ?thesis unfolding unit_value [OF n] .
qed

definition json_escape :: "nat \<Rightarrow> string" where
  "json_escape cp =
    (if cp \<le> 0xffff then CHR 0x5C # ''u'' @ unit_digits cp
     else CHR 0x5C # ''u'' @ unit_digits (0xd800 + (cp - 0x10000) div 1024) @
          CHR 0x5C # ''u'' @ unit_digits (0xdc00 + (cp - 0x10000) mod 1024))"

lemma decode_code_escape:
  assumes "scalar_value cp"
  shows "decode_escape (tl (json_escape cp) @ rest) = Some (text_of_bytes (utf8_encode cp), rest)"
proof (cases "cp \<le> 0xffff")
  case True
  have "decode_code (unit_digits cp @ rest) = Some (cp, rest)"
    using True assms by (auto simp: decode_code_def hex_unit scalar_value_def)
  with True assms show ?thesis by (simp add: json_escape_def encode_code_utf8 scalar_value_def)
next
  case False
  let ?v = "cp - 0x10000"
  let ?low = "unit_digits (0xdc00 + ?v mod 1024) @ rest"
  have v: "?v < 1048576" using assms False unfolding scalar_value_def by linarith
  then have "?v div 1024 < 1024" by auto
  moreover have "?v mod 1024 < 1024" by simp
  ultimately have u: "0xd800 + ?v div 1024 < 0xdc00" "0xdc00 + ?v mod 1024 < 0xe000" by linarith+
  then have h: "hex (unit_digits (0xd800 + ?v div 1024) @ [CHR 0x5C, CHR ''u''] @ ?low) =
      Some (0xd800 + ?v div 1024, [CHR 0x5C, CHR ''u''] @ ?low)" "hex ?low = Some (0xdc00 + ?v mod 1024, rest)"
    by (intro hex_unit; linarith)+
  have m: "\<not> 1023 < ?v mod 1024" using \<open>?v mod 1024 < 1024\<close> by linarith
  have len: "length ?low \<ge> 4" by (simp add: unit_digits_def)
  have "0x10000 + push_bit 10 (?v div 1024) + (0xdc00 + ?v mod 1024) - 0xdc00 = cp"
    using False div_mult_mod_eq [of ?v 1024] by (simp add: push_bit_eq_mult)
  then have "decode_code (unit_digits (0xd800 + ?v div 1024) @ [CHR 0x5C, CHR ''u''] @ ?low) = Some (cp, rest)"
    unfolding decode_code_def h option.case prod.case using u len h(2) by (simp add: m)
  with False assms show ?thesis by (simp add: json_escape_def encode_code_utf8 scalar_value_def)
qed

lemma decode_quoted_char: "decode_chars (quote_char c @ rest) decoded = decode_chars rest (decoded @ [c])"
proof -
  consider "c = CHR 0x22 \<or> c = CHR 0x5C" | "c \<noteq> CHR 0x22" "c \<noteq> CHR 0x5C" "(of_char c :: nat) < 32"
    | "c \<noteq> CHR 0x22" "c \<noteq> CHR 0x5C" "\<not> (of_char c :: nat) < 32" by blast
  then show ?thesis
  proof cases
    case 2
    let ?n = "of_char c :: nat"
    have q: "quote_char c = CHR 0x5C # ''u'' @ unit_digits ?n"
      using 2 by (simp add: quote_char_def unit_digits_def nat_and_15 drop_bit_eq_div)
        (simp add: hex_char_def)
    have sv: "scalar_value ?n" using 2 by (simp add: scalar_value_def)
    have j: "json_escape ?n = quote_char c" using 2 q by (simp add: json_escape_def)
    have "text_of_bytes (utf8_encode ?n) = [c]"
      using 2 by (simp add: utf8_encode_def text_of_bytes_def char_of_byte_of_nat)
    with decode_code_escape [OF sv, of rest] show ?thesis unfolding j unfolding q by simp
  qed (auto simp: quote_char_def)
qed

lemma decode_quoted: "decode_chars (concat (map quote_char s) @ CHR 0x22 # []) decoded = Some (decoded @ s)"
  by (induction s arbitrary: decoded) (simp_all add: decode_quoted_char)

lemma decode_quote [codec_laws]: "decode_string (quote s) owner = Inr s"
  using decode_quoted [of s "[]"] by (simp add: decode_string_def quote_def)

section \<open>Numbers\<close>

lemma decimal_digits: "list_all is_digit (decimal n) \<and> decimal n \<noteq> []"
proof (induction n rule: less_induct)
  case (less n)
  have d: "is_digit (char_of (48 + k))" if "k < 10" for k :: nat using that by (simp add: is_digit_def)
  show ?case
  proof (cases "n < 10")
    case True
    then show ?thesis using d [of n] by (simp add: decimal.simps [of n])
  next
    case False
    with less [of "n div 10"] d [of "n mod 10"] show ?thesis by (simp add: decimal.simps [of n])
  qed
qed

lemma digits_value_snoc: "digits_value (ds @ [c]) = digits_value ds * 10 + (of_char c - 48)"
  by (simp add: digits_value_def)

lemma digits_value_decimal [simp]: "digits_value (decimal n) = n"
proof (induction n rule: less_induct)
  case (less n)
  show ?case
  proof (cases "n < 10")
    case True
    then show ?thesis by (simp add: decimal.simps [of n] digits_value_def)
  next
    case False
    then have "digits_value (decimal (n div 10)) = n div 10" by (intro less) simp
    moreover have "(of_char (char_of (48 + n mod 10)) :: nat) = 48 + n mod 10" by simp
    ultimately show ?thesis using False by (simp add: decimal.simps [of n] digits_value_snoc)
  qed
qed

lemma takeWhile_decimal [simp]: "takeWhile is_digit (decimal n) = decimal n"
  "dropWhile is_digit (decimal n) = []" "decimal n \<noteq> []"
  using decimal_digits [of n] by (auto simp: list_all_iff takeWhile_eq_all_conv dropWhile_eq_Nil_conv)

lemma decimal_hd: "is_digit (hd (decimal n))"
  using decimal_digits [of n] by (cases "decimal n") auto

lemma from_chars_unsigned_decimal: "from_chars_unsigned (decimal (unat u)) = Some (u, [])"
  using unsigned_less [of u, where 'a = nat] by (simp add: from_chars_unsigned_def Let_def)

lemma decimal_no_sign: "take 1 (decimal n) \<noteq> ''-''"
  using decimal_hd [of n] by (cases "decimal n") (auto simp: is_digit_def)

lemma from_chars_signed_decimal: "from_chars_signed (decimal_int (sint i)) = Some (i, [])"
proof -
  have r: "- (2 ^ 63) \<le> sint i" "sint i < 2 ^ 63" using sint_ge [of i] sint_lt [of i] by simp_all
  show ?thesis
  proof (cases "sint i < 0")
    case True
    with r have "- int (nat (- sint i)) = sint i" by simp
    with True r show ?thesis by (simp add: from_chars_signed_def decimal_int_def Let_def)
  next
    case False
    with r show ?thesis using decimal_no_sign [of "nat (sint i)"]
      by (simp add: from_chars_signed_def decimal_int_def Let_def)
  qed
qed

section \<open>Lines\<close>

function ini_lines :: "string \<Rightarrow> string list" where
  "ini_lines s = (if s = [] then [] else fst (first_line s) # ini_lines (snd (first_line s)))"
  by pat_completeness auto
termination
  by (relation "measure length") (auto intro: first_line_shorter prod.collapse [symmetric])

declare ini_lines.simps [simp del]

fun fold_lines :: "string \<Rightarrow> nat \<Rightarrow> IniState \<Rightarrow> string list \<Rightarrow> Diagnostic + IniState" where
  "fold_lines owner line st [] = Inr st"
| "fold_lines owner line st (l # ls) =
     (case parse_line (trim l) owner st of
        Inl message \<Rightarrow> Inl (line_failure owner (line + 1) message)
      | Inr st' \<Rightarrow> fold_lines owner (line + 1) st' ls)"

lemma parse_lines_fold: "parse_lines owner line st s = fold_lines owner line st (ini_lines s)"
proof (induction owner line st s rule: parse_lines.induct)
  case (1 owner line st s)
  show ?case
  proof (cases "s = []")
    case False
    obtain t rest where f: "first_line s = (t, rest)" by fastforce
    show ?thesis
      using False f "1.IH" [OF False f [symmetric]]
      by (simp add: parse_lines.simps [of owner line st s] ini_lines.simps [of s] split: sum.split)
  qed (simp add: parse_lines.simps [of owner line st] ini_lines.simps)
qed

lemma first_line_parts:
  "first_line s = (line, rest) \<Longrightarrow> LF \<notin> set line \<and> (s = line \<and> rest = [] \<or> s = line @ LF # rest)"
  by (auto simp: first_line_def split_at_Some split_at_None split: option.splits)

lemma ini_lines_free: "l \<in> set (ini_lines s) \<Longrightarrow> LF \<notin> set l"
proof (induction s rule: ini_lines.induct)
  case (1 s)
  then show ?case
    using first_line_parts [of s "fst (first_line s)" "snd (first_line s)"]
    by (auto simp: ini_lines.simps [of s] split: if_splits)
qed

lemma first_line_LF: "LF \<notin> set l \<Longrightarrow> first_line (l @ LF # rest) = (l, rest)"
  using split_at_Some [of LF "l @ LF # rest" l rest] by (simp add: first_line_def)

lemma first_line_last: "LF \<notin> set l \<Longrightarrow> first_line l = (l, [])"
  by (simp add: first_line_def split_at_None [THEN iffD2])

lemma ini_lines_step: "LF \<notin> set l \<Longrightarrow> ini_lines (l @ LF # rest) = l # ini_lines rest"
  by (subst ini_lines.simps) (simp add: first_line_LF)

lemma ini_lines_Nil [simp]: "ini_lines [] = []"
  by (simp add: ini_lines.simps)

lemma ini_lines_last: "LF \<notin> set l \<Longrightarrow> l \<noteq> [] \<Longrightarrow> ini_lines l = [l]"
  by (subst ini_lines.simps) (simp add: first_line_last)

text \<open>Complete lines in front of a text are parsed before it.\<close>

lemma ini_lines_append: "ini_lines (a @ LF # b) = ini_lines (a @ [LF]) @ ini_lines b"
proof (induction a rule: ini_lines.induct)
  case (1 a)
  obtain l rest where f: "first_line a = (l, rest)" by fastforce
  from first_line_parts [OF f] have l: "LF \<notin> set l" and a: "a = l \<and> rest = [] \<or> a = l @ LF # rest" by auto
  show ?case
  proof (cases "a = l @ LF # rest")
    case True
    then have "ini_lines (rest @ LF # b) = ini_lines (rest @ [LF]) @ ini_lines b"
      using 1 f by simp
    with True l show ?thesis by (simp add: ini_lines_step)
  next
    case False
    with a l show ?thesis by (simp add: ini_lines_step)
  qed
qed

lemma fold_lines_append:
  "fold_lines owner line st (as @ bs) =
    (case fold_lines owner line st as of Inl e \<Rightarrow> Inl e
     | Inr st' \<Rightarrow> fold_lines owner (line + length as) st' bs)"
  by (induction as arbitrary: line st) (auto split: sum.splits)

lemma fold_lines_failure:
  "fold_lines owner line st ls = Inl d \<longleftrightarrow>
   (\<exists>pre l post st' message. ls = pre @ l # post \<and> fold_lines owner line st pre = Inr st' \<and>
      parse_line (trim l) owner st' = Inl message \<and> d = line_failure owner (line + length pre + 1) message)"
  (is "?lhs ls line st \<longleftrightarrow> ?rhs ls line st")
proof
  show "?lhs ls line st \<Longrightarrow> ?rhs ls line st"
  proof (induction ls arbitrary: line st)
    case (Cons l ls)
    show ?case
    proof (cases "parse_line (trim l) owner st")
      case (Inl message)
      with Cons.prems show ?thesis
        by (intro exI [of _ "[]"] exI [of _ l] exI [of _ ls] exI [of _ st] exI [of _ message]) simp
    next
      case (Inr st1)
      with Cons obtain pre l' post st' message where "ls = pre @ l' # post"
        "fold_lines owner (line + 1) st1 pre = Inr st'" "parse_line (trim l') owner st' = Inl message"
        "d = line_failure owner (line + 1 + length pre + 1) message" by fastforce
      with Inr show ?thesis
        by (intro exI [of _ "l # pre"] exI [of _ l'] exI [of _ post] exI [of _ st'] exI [of _ message]) simp
    qed
  qed simp
  show "?rhs ls line st \<Longrightarrow> ?lhs ls line st" by (auto simp: fold_lines_append)
qed

section \<open>The document of a successful parse\<close>

definition entry_ident :: "IniEntry \<Rightarrow> string" where
  "entry_ident entry = identity (ie_section entry) (ie_key entry)"

definition section_name_ok :: "string \<Rightarrow> bool" where
  "section_name_ok sec \<longleftrightarrow> sec \<noteq> [] \<and> trimmed sec \<and> \<not> has_bracket sec \<and> LF \<notin> set sec"

definition key_ok :: "string \<Rightarrow> bool" where
  "key_ok key \<longleftrightarrow> key \<noteq> [] \<and> trimmed key \<and> \<not> has_bracket key \<and> CHR ''='' \<notin> set key \<and> LF \<notin> set key"

definition document_ok :: "IniDocument \<Rightarrow> bool" where
  "document_ok document \<longleftrightarrow>
    distinct (map entry_ident (doc_entries document)) \<and>
    list_all (\<lambda>e. ie_section e \<in> set (doc_sections document) \<and> key_ok (ie_key e)) (doc_entries document) \<and>
    list_all section_name_ok (doc_sections document)"

definition ini_state_ok :: "IniState \<Rightarrow> bool" where
  "ini_state_ok st \<longleftrightarrow> document_ok (is_document st) \<and>
    is_keys st = set (map entry_ident (doc_entries (is_document st))) \<and>
    (is_section st \<noteq> [] \<longrightarrow> is_section st \<in> set (doc_sections (is_document st)))"

lemma ini_state_ok_start: "ini_state_ok start_state"
  by (simp add: ini_state_ok_def start_state_def document_ok_def empty_document_def)

lemma has_bracket_subset: "set a \<subseteq> set b \<Longrightarrow> has_bracket a \<Longrightarrow> has_bracket b"
  by (auto simp: has_bracket_def)

lemma parse_line_ok:
  assumes "ini_state_ok st" and "parse_line line owner st = Inr st'" and "LF \<notin> set line"
  shows "ini_state_ok st'"
proof -
  consider "line = []" | "line \<noteq> []" "hd line = CHR '';'' \<or> hd line = CHR ''#''"
    | "line \<noteq> []" "hd line = CHR ''[''"
    | "line \<noteq> []" "hd line \<noteq> CHR '';''" "hd line \<noteq> CHR ''#''" "hd line \<noteq> CHR ''[''" by blast
  then show ?thesis
  proof cases
    case 3
    let ?inner = "butlast (tl line)"
    let ?sec = "trim ?inner"
    have s: "?sec \<noteq> []" "\<not> has_bracket ?inner"
      "st' = st\<lparr>is_section := ?sec,
         is_document := (is_document st)\<lparr>doc_sections := doc_sections (is_document st) @ [?sec]\<rparr>\<rparr>"
      using 3 assms(2) by (auto simp: parse_line_def Let_def split: if_splits)
    have "set ?inner \<subseteq> set line" using 3(1) by (cases line) (auto dest: in_set_butlastD)
    then have "LF \<notin> set ?sec" using set_trim [of ?inner] assms(3) by blast
    moreover have "\<not> has_bracket ?sec" using s(2) set_trim has_bracket_subset by blast
    ultimately have "section_name_ok ?sec" using s(1) by (simp add: section_name_ok_def)
    with assms(1) s show ?thesis by (auto simp: ini_state_ok_def document_ok_def list_all_iff)
  next
    case 4
    then obtain left right where sp: "split_at CHR ''='' line = Some (left, right)"
      using assms(2) by (auto simp: parse_line_def split: option.splits)
    from sp have line: "line = left @ CHR ''='' # right" "CHR ''='' \<notin> set left"
      by (simp_all add: split_at_Some)
    from sp 4 assms(2) obtain decoded where s: "is_section st \<noteq> []" "trim left \<noteq> []" "\<not> has_bracket (trim left)"
      "identity (is_section st) (trim left) \<notin> is_keys st"
      "st' = st\<lparr>is_keys := insert (identity (is_section st) (trim left)) (is_keys st),
         is_document := (is_document st)\<lparr>doc_entries := doc_entries (is_document st) @
           [\<lparr>ie_section = is_section st, ie_key = trim left, ie_value = decoded\<rparr>]\<rparr>\<rparr>"
      by (auto simp: parse_line_def Let_def split: if_splits sum.splits)
    have "key_ok (trim left)"
      using s(2,3) set_trim [of left] line assms(3) by (auto simp: key_ok_def)
    with assms(1) s show ?thesis
      by (auto simp: ini_state_ok_def document_ok_def entry_ident_def list_all_iff)
  qed (use assms in \<open>auto simp: parse_line_def ini_state_ok_def document_ok_def split: option.splits\<close>)
qed

lemma fold_lines_ok:
  "ini_state_ok st \<Longrightarrow> (\<forall>l \<in> set ls. LF \<notin> set l) \<Longrightarrow> fold_lines owner line st ls = Inr st' \<Longrightarrow>
   ini_state_ok st'"
proof (induction ls arbitrary: line st)
  case (Cons l ls)
  from Cons.prems obtain st1 where s: "parse_line (trim l) owner st = Inr st1"
    "fold_lines owner (line + 1) st1 ls = Inr st'" by (auto split: sum.splits)
  have "LF \<notin> set (trim l)" using Cons.prems(2) set_trim [of l] by auto
  with Cons s show ?case using parse_line_ok by (metis list.set_intros(2))
qed simp

lemma parse_ini_ok: "parse_ini plat content owner = Inr document \<Longrightarrow> document_ok document"
proof -
  assume "parse_ini plat content owner = Inr document"
  then obtain st where "parse_lines owner 0 start_state content = Inr st" "document = is_document st"
    by (cases "parse_lines owner 0 start_state content") (auto simp: parse_ini_def split: if_splits)
  then show ?thesis
    using fold_lines_ok [OF ini_state_ok_start] ini_lines_free
    unfolding parse_lines_fold by (metis ini_state_ok_def)
qed

text \<open>Without line feeds in section names an identity determines its section and key.\<close>

lemma fold_ascii_LF [simp]: "fold_ascii c = LF \<longleftrightarrow> c = LF"
proof
  assume eq: "fold_ascii c = LF"
  have "fold_ascii c \<noteq> LF" if "is_upper c"
  proof
    assume "fold_ascii c = LF"
    then have "char_of (of_char c + (32 :: nat)) = LF" using that by (simp add: fold_ascii_def)
    then have "(of_char (char_of (of_char c + (32 :: nat))) :: nat) = of_char LF" by simp
    moreover have "(of_char c + (32 :: nat)) < 256" using that by (simp add: is_upper_def)
    ultimately show False using that by (simp add: is_upper_def)
  qed
  then have "\<not> is_upper c" using eq by blast
  with eq show "c = LF" by (simp add: fold_ascii_def)
qed (simp add: fold_ascii_def is_upper_def)

lemma LF_folded_id [simp]: "LF \<in> set (folded_id s) \<longleftrightarrow> LF \<in> set s"
proof -
  have "LF = fold_ascii c \<longleftrightarrow> LF = c" for c using fold_ascii_LF [of c] by (simp only: eq_commute)
  then show ?thesis by (induction s) (simp_all add: folded_id_def)
qed

lemma identity_eq_iff:
  "LF \<notin> set s \<Longrightarrow> LF \<notin> set s' \<Longrightarrow>
   identity s k = identity s' k' \<longleftrightarrow> equal_id s s' \<and> equal_id k k'"
proof -
  assume "LF \<notin> set s" "LF \<notin> set s'"
  then have "split_at LF (identity s k) = Some (folded_id s, folded_id k)"
    "split_at LF (identity s' k') = Some (folded_id s', folded_id k')"
    by (simp_all add: split_at_Some identity_def)
  then have "identity s k = identity s' k' \<longrightarrow> folded_id s = folded_id s' \<and> folded_id k = folded_id k'"
    by (metis option.inject prod.inject)
  then show ?thesis unfolding equal_id_iff by (auto simp: identity_def)
qed

lemma same_entry_ident:
  "LF \<notin> set (ie_section e) \<Longrightarrow> LF \<notin> set sec \<Longrightarrow>
   same_entry sec key e \<longleftrightarrow> entry_ident e = identity sec key"
  by (simp add: same_entry_def entry_ident_def identity_eq_iff)

lemma distinct_map_eq: "distinct (map f xs) \<Longrightarrow> x \<in> set xs \<Longrightarrow> y \<in> set xs \<Longrightarrow> f x = f y \<Longrightarrow> x = y"
  by (meson distinct_map inj_onD)

lemma document_ok_find:
  assumes "document_ok document"
  shows "ini_find document sec key = Some e \<longleftrightarrow> e \<in> set (doc_entries document) \<and> same_entry sec key e"
proof
  assume "ini_find document sec key = Some e"
  then show "e \<in> set (doc_entries document) \<and> same_entry sec key e"
    unfolding ini_find_def by (rule find_SomeD)
next
  assume e: "e \<in> set (doc_entries document) \<and> same_entry sec key e"
  then obtain e' where f: "ini_find document sec key = Some e'"
    unfolding ini_find_def by (metis find_None_iff_all option.exhaust)
  then have e': "e' \<in> set (doc_entries document) \<and> same_entry sec key e'"
    unfolding ini_find_def by (rule find_SomeD)
  have "entry_ident e = entry_ident e'"
    using e e' by (auto simp: entry_ident_def identity_def same_entry_def equal_id_iff)
  moreover have "distinct (map entry_ident (doc_entries document))"
    using assms by (simp add: document_ok_def)
  ultimately have "e = e'" using e e' by (intro distinct_map_eq [of entry_ident]) auto
  with f show "ini_find document sec key = Some e" by simp
qed

section \<open>Scalars\<close>

text \<open>The documented behaviour of the decimal conversions of a \<open>double\<close>: seventeen significant digits
  read back as the value that was printed, and the text has neither blanks nor a quote around it.\<close>

definition real_conversions :: "platform \<Rightarrow> bool" where
  "real_conversions plat \<longleftrightarrow>
    (\<forall>d. isfinite d \<longrightarrow> plat_parse_real plat (plat_format_real plat d) = Some (d, []) \<and>
       trimmed (plat_format_real plat d) \<and> take 1 (plat_format_real plat d) \<noteq> [CHR 0x22])"

fun scalar_storable :: "platform \<Rightarrow> ScalarValue \<Rightarrow> bool" where
  "scalar_storable plat (SV_Text s) = utf8 (plat_utf8 plat) s True"
| "scalar_storable plat (SV_Real d) = isfinite d"
| "scalar_storable plat _ = True"

lemma trimmed_digits: "list_all is_digit ds \<Longrightarrow> trimmed ds"
proof -
  assume "list_all is_digit ds"
  then have "ds \<noteq> [] \<Longrightarrow> is_digit (hd ds) \<and> is_digit (last ds)" by (simp add: list_all_iff)
  then show ?thesis by (auto simp: trimmed_def blank_def is_digit_def)
qed

lemma decimal_plain: "trimmed (decimal n) \<and> take 1 (decimal n) \<noteq> [CHR 0x22]"
  using decimal_digits [of n] trimmed_digits by (cases "decimal n") (auto simp: is_digit_def)

lemma decimal_int_plain: "trimmed (decimal_int i) \<and> take 1 (decimal_int i) \<noteq> [CHR 0x22]"
proof (cases "i < 0")
  case True
  have "trimmed (CHR ''-'' # decimal n)" for n
    using decimal_plain [of n] by (auto simp: trimmed_def blank_def)
  with True show ?thesis by (simp add: decimal_int_def)
qed (use decimal_plain in \<open>simp add: decimal_int_def\<close>)

lemma quote_trimmed: "trimmed (quote s)"
  by (simp add: trimmed_def quote_def blank_def)

lemma format_scalar_trimmed:
  assumes "scalar_storable plat v" and "real_conversions plat"
  shows "trimmed (format_scalar plat (scalar_view v))"
  using assms decimal_plain decimal_int_plain quote_trimmed
  by (cases v) (auto simp: real_conversions_def trimmed_def [of "''true''"] trimmed_def [of "''false''"] blank_def)

lemma scalar_text_back:
  assumes "scalar_storable plat v" and "real_conversions plat"
  shows "\<exists>t. decode_string (format_scalar plat (scalar_view v)) owner = Inr t \<and>
    parse_scalar plat t (value_kind (scalar_view v)) owner = Inr v"
proof (cases v)
  case (SV_Bool b)
  show ?thesis
    by (rule exI [of _ "if b then ''true'' else ''false''"])
      (simp add: SV_Bool decode_string_def parse_scalar_def scalar_kinds Let_def equal_id_def fold_ascii_def is_upper_def)
next
  case (SV_Signed i)
  show ?thesis
    by (rule exI [of _ "decimal_int (sint i)"])
      (use decimal_int_plain [of "sint i"] in \<open>simp add: SV_Signed decode_string_def parse_scalar_def
        scalar_kinds Let_def from_chars_signed_decimal\<close>)
next
  case (SV_Unsigned u)
  show ?thesis
    by (rule exI [of _ "decimal (unat u)"])
      (use decimal_plain [of "unat u"] in \<open>simp add: SV_Unsigned decode_string_def parse_scalar_def
        scalar_kinds Let_def from_chars_unsigned_decimal\<close>)
next
  case (SV_Real d)
  with assms show ?thesis
    by (intro exI [of _ "plat_format_real plat d"])
      (simp add: decode_string_def parse_scalar_def scalar_kinds Let_def real_conversions_def)
next
  case (SV_Text s)
  with assms show ?thesis
    by (intro exI [of _ s]) (simp add: decode_quote view_def text_view_def parse_scalar_def Let_def)
qed

lemma decode_escapes:
  "list_all scalar_value cps \<Longrightarrow>
   decode_chars (concat (map json_escape cps) @ rest) decoded =
   decode_chars rest (decoded @ concat (map (\<lambda>cp. text_of_bytes (utf8_encode cp)) cps))"
proof (induction cps arbitrary: decoded)
  case (Cons cp cps)
  have j: "json_escape cp = CHR 0x5C # tl (json_escape cp)" by (simp add: json_escape_def)
  have "decode_chars (json_escape cp @ s) decoded = decode_chars s (decoded @ text_of_bytes (utf8_encode cp))" for s
    by (subst j) (use Cons.prems decode_code_escape [of cp s] in simp)
  with Cons show ?case by simp
qed simp

end
