(* ===== verification/Config_Storage.thy ===== *)
theory Config_Storage
  imports Ini_Laws "HOL-Library.Sublist"
begin

text \<open>
  The configuration file on disk (\<open>runtime/src/configuration/storage.cpp\<close>): the text of generated
  defaults, their insertion into an existing file, the load with its staged rewrite, and the
  warnings about unknown names. The file system is a map from paths to contents; what each Windows
  call reports is an argument, and an operation changes the map only where its call succeeded.
\<close>

section \<open>Generated entries\<close>

record GeneratedEntry =
  ge_section :: string
  ge_key :: string
  ge_description :: string
  ge_constraints :: string
  ge_value :: FC_Value
  ge_variant_default :: bool
  ge_rank :: "nat \<times> nat \<times> string"
  ge_key_id :: string

function comment_lines :: "string \<Rightarrow> string \<Rightarrow> string" where
  "comment_lines output text =
    (if text = [] then output
     else
       (case split_at LF text of
          None \<Rightarrow> output @ ''; '' @ trim text @ [LF]
        | Some (line, rest) \<Rightarrow> comment_lines (output @ ''; '' @ trim line @ [LF]) rest))"
  by pat_completeness auto
termination
  by (relation "measure (\<lambda>(output, text). length text)") (auto simp: split_at_Some dest: sym)

declare comment_lines.simps [simp del]

definition entry_addition :: "platform \<Rightarrow> GeneratedEntry \<Rightarrow> string \<Rightarrow> string" where
  "entry_addition plat entry text =
    (let described = comment_lines text (ge_description entry)
     in if ge_variant_default entry
        then described @ ''; Leave unset to use the default for the selected game build.'' @ [LF] @
             ''; '' @ ge_key entry @ '' ='' @ [LF]
        else comment_lines described (ge_constraints entry) @ ge_key entry @ '' = '' @
             format_scalar plat (ge_value entry) @ [LF])"

section \<open>Insertion into the existing text\<close>

record SectionAdditions =
  sa_section :: string
  sa_text :: string
  sa_inserted :: bool

definition entry_known :: "IniDocument \<Rightarrow> GeneratedEntry \<Rightarrow> bool" where
  "entry_known document entry \<longleftrightarrow>
    ini_find document (ge_section entry) (ge_key entry) \<noteq> None \<or>
    identity (ge_section entry) (ge_key entry) \<in> set (doc_commented document)"

definition add_entry :: "platform \<Rightarrow> IniDocument \<Rightarrow> GeneratedEntry \<Rightarrow> SectionAdditions list
    \<Rightarrow> SectionAdditions list" where
  "add_entry plat document entry sections =
    (if entry_known document entry then sections
     else
       (let matching = (\<lambda>s. equal_id (sa_section s) (ge_section entry));
            present = (case List.find matching sections of
                Some _ \<Rightarrow> sections
              | None \<Rightarrow> sections @ [\<lparr>sa_section = ge_section entry, sa_text = [], sa_inserted = False\<rparr>])
        in update_first matching (\<lambda>s. s\<lparr>sa_text := entry_addition plat entry (sa_text s)\<rparr>) present))"

fun add_entries :: "platform \<Rightarrow> IniDocument \<Rightarrow> GeneratedEntry list \<Rightarrow> SectionAdditions list
    \<Rightarrow> SectionAdditions list" where
  "add_entries plat document [] sections = sections"
| "add_entries plat document (entry # entries) sections =
     add_entries plat document entries (add_entry plat document entry sections)"

definition with_newline :: "string \<Rightarrow> string" where
  "with_newline text = (if text \<noteq> [] \<and> last text \<noteq> LF then text @ [LF] else text)"

text \<open>The lambda \<open>insert\<close>: the pending additions of a section go to the end of the output.\<close>

fun insert_section :: "string \<Rightarrow> string \<Rightarrow> SectionAdditions list \<Rightarrow> string \<times> SectionAdditions list" where
  "insert_section name output [] = (output, [])"
| "insert_section name output (s # ss) =
     (if \<not> sa_inserted s \<and> equal_id (sa_section s) name
      then (case insert_section name (with_newline output @ sa_text s) ss of
              (output', ss') \<Rightarrow> (output', s\<lparr>sa_inserted := True\<rparr> # ss'))
      else (case insert_section name output ss of (output', ss') \<Rightarrow> (output', s # ss')))"

text \<open>The loop over the lines of the input; a line keeps its line feed. The last line's section gets
  its additions behind the loop.\<close>

function merge_lines :: "string \<Rightarrow> string \<Rightarrow> string \<Rightarrow> SectionAdditions list
    \<Rightarrow> string \<times> SectionAdditions list" where
  "merge_lines contents current output sections =
    (if contents = [] then insert_section current output sections
     else
       (let (text, rest) = first_line contents;
            line = (if LF \<in> set contents then text @ [LF] else text);
            header = trim text;
            is_header = (take 1 header = ''['');
            (output', sections') = (if is_header then insert_section current output sections else (output, sections));
            current' = (if is_header then trim (butlast (tl header)) else current)
        in merge_lines rest current' (output' @ line) sections'))"
  by pat_completeness auto
termination
  by (relation "measure (\<lambda>(contents, current, output, sections). length contents)")
    (auto dest: first_line_shorter [OF _ sym])

declare merge_lines.simps [simp del]

text \<open>Sections the input does not have, in the order of the schema.\<close>

fun append_sections :: "string \<Rightarrow> SectionAdditions list \<Rightarrow> string" where
  "append_sections output [] = output"
| "append_sections output (s # ss) =
     (if sa_inserted s then append_sections output ss
      else
        (let ended = with_newline output;
             spaced = (if ended \<noteq> [] then ended @ [LF] else ended)
         in append_sections (spaced @ ''['' @ sa_section s @ '']'' @ [LF] @ sa_text s) ss))"

definition updated_contents :: "platform \<Rightarrow> IniDocument \<Rightarrow> string \<Rightarrow> GeneratedEntry list \<Rightarrow> string option" where
  "updated_contents plat document contents entries =
    (let sections = add_entries plat document entries []
     in if sections = [] then None
        else (case merge_lines contents [] [] sections of
                (output, sections') \<Rightarrow> Some (append_sections output sections')))"

section \<open>Loading\<close>

definition ERROR_FILE_NOT_FOUND :: u32 where "ERROR_FILE_NOT_FOUND = 2"
definition ERROR_PATH_NOT_FOUND :: u32 where "ERROR_PATH_NOT_FOUND = 3"
definition ERROR_HANDLE_EOF :: u32 where "ERROR_HANDLE_EOF = 38"
definition ERROR_UNABLE_TO_MOVE_REPLACEMENT :: u32 where "ERROR_UNABLE_TO_MOVE_REPLACEMENT = 1176"
definition ERROR_UNABLE_TO_MOVE_REPLACEMENT_2 :: u32 where "ERROR_UNABLE_TO_MOVE_REPLACEMENT_2 = 1177"
definition MAXDWORD :: nat where "MAXDWORD = 2 ^ 32 - 1"

lemmas windows_errors = ERROR_FILE_NOT_FOUND_def ERROR_PATH_NOT_FOUND_def ERROR_HANDLE_EOF_def
  ERROR_UNABLE_TO_MOVE_REPLACEMENT_def ERROR_UNABLE_TO_MOVE_REPLACEMENT_2_def

type_synonym files = "string \<Rightarrow> string option"

text \<open>
  What the calls of one load report: the error of the first \<open>CreateFileW\<close>, zero when the file was
  opened; the size (\<open>None\<close> when the call fails); success, byte count, bytes and error of \<open>ReadFile\<close>;
  the success of the second \<open>CreateFileW\<close> where no file is in the way; success and byte count of each
  \<open>WriteFile\<close>; the success of \<open>FlushFileBuffers\<close>, \<open>ReplaceFileW\<close> and \<open>DeleteFileW\<close>; the name under which
  a failed \<open>ReplaceFileW\<close> may leave the file it was to replace; and the error code read after a failed write.
\<close>

record load_world =
  lw_open_error :: u32
  lw_size :: "int option"
  lw_read :: "bool \<times> nat \<times> string"
  lw_read_error :: u32
  lw_create :: bool
  lw_write :: "nat \<Rightarrow> bool \<times> nat"
  lw_flush :: bool
  lw_replace :: bool
  lw_moved :: string
  lw_delete :: bool
  lw_error :: u32

text \<open>The loop of \<open>WriteFile\<close> calls from an offset on: whether all succeeded, and the bytes written.
  Every successful turn writes at least one byte, so the loop ends.\<close>

function write_loop :: "(nat \<Rightarrow> bool \<times> nat) \<Rightarrow> nat \<Rightarrow> string \<Rightarrow> string \<Rightarrow> bool \<times> string" where
  "write_loop calls index written remaining =
    (if remaining = [] then (True, written)
     else
       (case calls index of
          (ok, amount) \<Rightarrow>
            (let used = min amount (min (length remaining) MAXDWORD);
                 success = (ok \<and> used \<noteq> 0);
                 written' = written @ take used remaining
             in if success then write_loop calls (index + 1) written' (drop used remaining)
                else (False, written'))))"
  by pat_completeness auto
termination
  by (relation "measure (\<lambda>(calls, index, written, remaining). length remaining)") auto

declare write_loop.simps [simp del]

definition diagnostic_code :: "string \<Rightarrow> string \<Rightarrow> u32 \<Rightarrow> Diagnostic" where
  "diagnostic_code owner message code = (diagnostic owner message)\<lparr>dg_windows_error := code\<rparr>"

text \<open>The size check, the single read and the parse of an existing file.\<close>

definition read_document :: "platform \<Rightarrow> load_world \<Rightarrow> string \<Rightarrow> Diagnostic + string \<times> IniDocument" where
  "read_document plat world owner =
    (let unsupported = diagnostic owner
           ''Configuration file size could not be read or exceeds the supported text size''
     in case lw_size world of
          None \<Rightarrow> Inl unsupported
        | Some extent \<Rightarrow>
            if extent < 0 \<or> extent > int INT_MAX then Inl unsupported
            else
              (case (if extent = 0 then (True, 0, []) else lw_read world) of
                 (success, received, bytes) \<Rightarrow>
                   if extent \<noteq> 0 \<and> (\<not> success \<or> received \<noteq> nat extent)
                   then Inl (diagnostic_code owner ''Could not read the complete configuration file''
                          (if success then ERROR_HANDLE_EOF else lw_read_error world))
                   else map_sum id (\<lambda>document. (bytes, document)) (parse_ini plat bytes owner)))"

text \<open>
  \<open>ReplaceFileW\<close> without a name for a backup, as it is documented. Its failures leave both files alone, but for two:
  when the replacement could not be renamed the replaced file no longer exists, and when it could not be moved the
  replaced file has another name; the replacement keeps its name in both.
\<close>

definition replace_file :: "load_world \<Rightarrow> string \<Rightarrow> string \<Rightarrow> files \<Rightarrow> files" where
  "replace_file world path replacement files =
    (if lw_replace world then (files(path := files replacement))(replacement := None)
     else if lw_error world = ERROR_UNABLE_TO_MOVE_REPLACEMENT then files(path := None)
     else if lw_error world = ERROR_UNABLE_TO_MOVE_REPLACEMENT_2 then (files(lw_moved world := files path))(path := None)
     else files)"

text \<open>The staged write: into the missing file itself, or into a file beside the existing one that
  then replaces it. The result is success, the error code and the files.\<close>

definition write_updated :: "load_world \<Rightarrow> files \<Rightarrow> string \<Rightarrow> bool \<Rightarrow> string \<Rightarrow> bool \<times> u32 \<times> files" where
  "write_updated world files path missing updated =
    (let output_path = (if missing then path else path @ ''.tmp'');
         created = (files output_path = None \<and> lw_create world);
         (wrote, bytes) = (if created then write_loop (lw_write world) 0 [] updated else (False, []));
         files1 = (if created then files(output_path \<mapsto> bytes) else files);
         staged = (wrote \<and> lw_flush world);
         replaced = (staged \<and> (missing \<or> lw_replace world));
         files2 = (if staged \<and> \<not> missing then replace_file world path output_path files1 else files1);
         files3 = (if \<not> replaced \<and> created \<and> lw_delete world then files2(output_path := None) else files2)
     in (replaced, if replaced then 0 else lw_error world, files3))"

definition load_file :: "platform \<Rightarrow> load_world \<Rightarrow> files \<Rightarrow> string \<Rightarrow> GeneratedEntry list \<Rightarrow> bool
    \<Rightarrow> Diagnostic list \<Rightarrow> (Diagnostic + IniDocument) \<times> files \<times> Diagnostic list" where
  "load_file plat world files path entries write_defaults warnings =
    (let owner = path; code = lw_open_error world;
         missing = (code = ERROR_FILE_NOT_FOUND \<or> code = ERROR_PATH_NOT_FOUND)
     in if code \<noteq> 0 \<and> \<not> missing
        then (Inl (diagnostic_code owner ''Could not open the configuration file for reading'' code), files, warnings)
        else
          (case (if missing then Inr ([], empty_document) else read_document plat world owner) of
             Inl failure \<Rightarrow> (Inl failure, files, warnings)
           | Inr (contents, document) \<Rightarrow>
               (case (if write_defaults then updated_contents plat document contents entries else None) of
                  None \<Rightarrow> (Inr document, files, warnings)
                | Some updated \<Rightarrow>
                    (case write_updated world files path missing updated of
                       (success, failure_code, files') \<Rightarrow>
                         if success then (Inr document, files', warnings)
                         else if missing
                         then (Inl (diagnostic_code owner ''Could not create the missing configuration file''
                                failure_code), files', warnings)
                         else (Inr document, files', warnings @ [diagnostic_code owner
                                (''Could not add new entries to the configuration file; '' @
                                 ''using existing values and defaults'') failure_code])))))"

section \<open>Unknown names\<close>

fun warn_sections :: "string list \<Rightarrow> GeneratedEntry list \<Rightarrow> string set \<Rightarrow> string \<Rightarrow> Diagnostic list" where
  "warn_sections [] entries warned owner = []"
| "warn_sections (sec # secs) entries warned owner =
     (let ident = ''section:'' @ folded_id sec
      in if (\<forall>e \<in> set entries. \<not> equal_id (ge_section e) sec) \<and> ident \<notin> warned
         then diagnostic owner (''Unknown configuration section ['' @ sec @ ''] was preserved'') #
              warn_sections secs entries (insert ident warned) owner
         else warn_sections secs entries warned owner)"

definition entry_declared :: "GeneratedEntry list \<Rightarrow> IniEntry \<Rightarrow> bool" where
  "entry_declared entries entry \<longleftrightarrow>
    (\<exists>e \<in> set entries. equal_id (ge_section e) (ie_section entry) \<and> equal_id (ge_key e) (ie_key entry))"

definition warn_unknown :: "IniDocument \<Rightarrow> GeneratedEntry list \<Rightarrow> Diagnostic list \<Rightarrow> string
    \<Rightarrow> Diagnostic list" where
  "warn_unknown document entries warnings owner =
    warnings @ warn_sections (doc_sections document) entries {} owner @
    map (\<lambda>entry. diagnostic owner (''Unknown configuration key ['' @ ie_section entry @ ''].'' @
        ie_key entry @ '' was preserved''))
      (filter (\<lambda>entry. \<not> entry_declared entries entry) (doc_entries document))"

section \<open>Every byte of the input is kept\<close>

lemma subseq_append_right: "subseq a b \<Longrightarrow> subseq a (b @ c)"
  by (rule subseq_order.trans [of a b]) auto

lemma with_newline_subseq: "subseq a b \<Longrightarrow> subseq a (with_newline b)"
  by (simp add: with_newline_def subseq_append_right)

lemma insert_section_subseq:
  "insert_section name out ss = (out', ss') \<Longrightarrow> subseq a out \<Longrightarrow> subseq a out'"
  by (induction name out ss arbitrary: out' ss' rule: insert_section.induct)
    (fastforce split: if_splits prod.splits intro: subseq_append_right with_newline_subseq)+

lemma first_line_whole:
  "s \<noteq> [] \<Longrightarrow> first_line s = (text, rest) \<Longrightarrow> s = (if LF \<in> set s then text @ [LF] else text) @ rest"
  by (auto simp: first_line_def split_at_Some split_at_None split: option.splits)

lemma merge_lines_subseq:
  "merge_lines contents current out sections = (out', sections') \<Longrightarrow> subseq a out \<Longrightarrow>
   subseq (a @ contents) out'"
proof (induction contents current out sections arbitrary: a out' sections' rule: merge_lines.induct)
  case (1 contents current out sections)
  show ?case
  proof (cases "contents = []")
    case True
    with "1.prems" have "insert_section current out sections = (out', sections')"
      by (simp add: merge_lines.simps [of "[]"])
    from insert_section_subseq [OF this "1.prems"(2)] True show ?thesis by simp
  next
    case False
    obtain tx rest where f: "first_line contents = (tx, rest)" by fastforce
    let ?line = "if LF \<in> set contents then tx @ [LF] else tx"
    let ?is_header = "take 1 (trim tx) = ''[''"
    obtain output1 sections1 where o: "(if ?is_header then insert_section current out sections else (out, sections)) =
        (output1, sections1)" by fastforce
    let ?current = "if ?is_header then trim (butlast (tl (trim tx))) else current"
    have "subseq a output1"
      using o "1.prems"(2) insert_section_subseq by (auto split: if_splits)
    then have "subseq (a @ ?line) (output1 @ ?line)" by simp
    moreover have "merge_lines rest ?current (output1 @ ?line) sections1 = (out', sections')"
      using "1.prems"(1) False f o by (simp add: merge_lines.simps [of contents] Let_def)
    ultimately have "subseq ((a @ ?line) @ rest) out'"
      by (intro "1.IH" [OF False f [symmetric] refl refl refl refl o [symmetric] refl refl]) auto
    with first_line_whole [OF False f] show ?thesis by simp
  qed
qed

lemma append_sections_subseq: "subseq a out \<Longrightarrow> subseq a (append_sections out ss)"
proof (induction ss arbitrary: out)
  case (Cons s ss)
  then have "subseq a (with_newline out @ tail)" for tail
    by (intro subseq_append_right with_newline_subseq)
  from this [of "[LF] @ ''['' @ sa_section s @ '']'' @ [LF] @ sa_text s"]
    this [of "''['' @ sa_section s @ '']'' @ [LF] @ sa_text s"] Cons
  show ?case by (cases "with_newline out = []") (simp_all add: Let_def del: append_Cons)
qed simp

lemma updated_contents_subseq:
  "updated_contents plat document contents entries = Some updated \<Longrightarrow> subseq contents updated"
  using merge_lines_subseq [of contents "[]" "[]" _ _ _ "[]"]
  by (auto simp: updated_contents_def Let_def split: if_splits prod.splits intro: append_sections_subseq)

text \<open>A file is rewritten exactly when a declared entry is neither assigned nor commented out.\<close>

lemma update_first_Nil_iff [simp]: "update_first P f xs = [] \<longleftrightarrow> xs = []"
  by (cases xs) auto

lemma add_entry_nonempty: "sections \<noteq> [] \<Longrightarrow> add_entry plat document entry sections \<noteq> []"
  by (auto simp: add_entry_def Let_def split: option.splits)

lemma add_entries_nonempty: "sections \<noteq> [] \<Longrightarrow> add_entries plat document entries sections \<noteq> []"
  by (induction entries arbitrary: sections) (simp_all add: add_entry_nonempty)

lemma add_entries_Nil_iff:
  "add_entries plat document entries [] = [] \<longleftrightarrow> (\<forall>entry \<in> set entries. entry_known document entry)"
proof (induction entries)
  case (Cons entry entries)
  show ?case
  proof (cases "entry_known document entry")
    case True
    with Cons show ?thesis by (simp add: add_entry_def)
  next
    case False
    then have "add_entry plat document entry [] \<noteq> []" by (simp add: add_entry_def Let_def)
    with False add_entries_nonempty show ?thesis by simp
  qed
qed simp

lemma updated_contents_None:
  "updated_contents plat document contents entries = None \<longleftrightarrow>
   (\<forall>entry \<in> set entries. entry_known document entry)"
  by (simp add: updated_contents_def Let_def add_entries_Nil_iff split: prod.splits)

section \<open>The staged write\<close>

lemma write_loop_whole:
  "write_loop calls index written remaining = (ok, bytes) \<Longrightarrow> ok \<Longrightarrow> bytes = written @ remaining"
proof (induction calls index written remaining arbitrary: bytes rule: write_loop.induct)
  case (1 calls index written remaining)
  then show ?case
    by (auto simp: write_loop.simps [of calls index written remaining] Let_def split: if_splits prod.splits)
qed

lemma tmp_path_differs [simp]: "path @ ''.tmp'' \<noteq> path" "path \<noteq> path @ ''.tmp''"
  by simp_all

text \<open>The failures of \<open>ReplaceFileW\<close> that take the user's file away.\<close>

definition replace_loses :: "load_world \<Rightarrow> bool" where
  "replace_loses world \<longleftrightarrow> \<not> lw_replace world \<and>
    (lw_error world = ERROR_UNABLE_TO_MOVE_REPLACEMENT \<or> lw_error world = ERROR_UNABLE_TO_MOVE_REPLACEMENT_2)"

text \<open>After the staged write the user's path holds the whole new content, or the old one unless the replacement took it
  away; the path beside it holds what it held, or nothing, or a stage that could not be deleted.\<close>

lemma write_updated_existing:
  assumes "write_updated world files path False updated = (success, code, files')"
    and "lw_moved world \<noteq> path" "lw_moved world \<noteq> path @ ''.tmp''"
  shows "success \<Longrightarrow> files' path = Some updated"
    and "\<not> success \<Longrightarrow> code = lw_error world \<and> (files' path = files path \<or>
      files' path = None \<and> replace_loses world \<and>
        (lw_error world = ERROR_UNABLE_TO_MOVE_REPLACEMENT_2 \<longrightarrow> files' (lw_moved world) = files path))"
    and "q \<noteq> path \<Longrightarrow> q \<noteq> path @ ''.tmp'' \<Longrightarrow> files' q = files q \<or>
      q = lw_moved world \<and> files' path = None \<and> replace_loses world \<and> lw_error world = ERROR_UNABLE_TO_MOVE_REPLACEMENT_2"
    and "files (path @ ''.tmp'') \<noteq> None \<Longrightarrow> \<not> success \<and> files' = files"
proof -
  obtain wrote bytes where w: "(if files (path @ ''.tmp'') = None \<and> lw_create world
      then write_loop (lw_write world) 0 [] updated else (False, [])) = (wrote, bytes)" by fastforce
  have b: "wrote \<Longrightarrow> bytes = updated \<and> files (path @ ''.tmp'') = None"
    using w write_loop_whole [of _ _ "[]" updated wrote bytes] by (auto split: if_splits)
  note moved = assms(2,3)
  show "success \<Longrightarrow> files' path = Some updated"
    using assms(1) w b by (auto simp: write_updated_def replace_file_def Let_def split: if_splits)
  show "\<not> success \<Longrightarrow> code = lw_error world \<and> (files' path = files path \<or>
      files' path = None \<and> replace_loses world \<and>
        (lw_error world = ERROR_UNABLE_TO_MOVE_REPLACEMENT_2 \<longrightarrow> files' (lw_moved world) = files path))"
    using assms(1) w b moved by (auto simp: write_updated_def replace_file_def replace_loses_def windows_errors Let_def split: if_splits)
  show "q \<noteq> path \<Longrightarrow> q \<noteq> path @ ''.tmp'' \<Longrightarrow> files' q = files q \<or>
      q = lw_moved world \<and> files' path = None \<and> replace_loses world \<and> lw_error world = ERROR_UNABLE_TO_MOVE_REPLACEMENT_2"
    using assms(1) w b moved by (auto simp: write_updated_def replace_file_def replace_loses_def windows_errors Let_def split: if_splits)
  show "files (path @ ''.tmp'') \<noteq> None \<Longrightarrow> \<not> success \<and> files' = files"
    using assms(1) w b by (auto simp: write_updated_def replace_file_def Let_def split: if_splits)
qed

text \<open>
  The loss happens: when the stage is complete and \<open>ReplaceFileW\<close> reports that it could not rename it, the user's file is
  gone, and the stage, which by then is the only copy of the text, is deleted.
\<close>

lemma replace_failure_loses_text:
  assumes "files (path @ ''.tmp'') = None" and "lw_create world" and "fst (write_loop (lw_write world) 0 [] updated)"
    and "lw_flush world" and "\<not> lw_replace world" and "lw_error world = ERROR_UNABLE_TO_MOVE_REPLACEMENT" and "lw_delete world"
  shows "write_updated world files path False updated = (False, ERROR_UNABLE_TO_MOVE_REPLACEMENT, files(path := None))"
  using assms by (auto simp: write_updated_def replace_file_def Let_def fun_upd_def split: prod.splits)

lemma write_updated_missing:
  assumes "write_updated world files path True updated = (success, code, files')"
  shows "success \<Longrightarrow> files path = None \<and> files' path = Some updated"
    and "q \<noteq> path \<Longrightarrow> files' q = files q"
    and "files path \<noteq> None \<Longrightarrow> \<not> success \<and> files' = files"
proof -
  obtain wrote bytes where w: "(if files path = None \<and> lw_create world
      then write_loop (lw_write world) 0 [] updated else (False, [])) = (wrote, bytes)" by fastforce
  have b: "wrote \<Longrightarrow> bytes = updated \<and> files path = None"
    using w write_loop_whole [of _ _ "[]" updated wrote bytes] by (auto split: if_splits)
  show "success \<Longrightarrow> files path = None \<and> files' path = Some updated"
    "q \<noteq> path \<Longrightarrow> files' q = files q" "files path \<noteq> None \<Longrightarrow> \<not> success \<and> files' = files"
    using assms w b by (auto simp: write_updated_def Let_def split: if_splits)
qed

end
