(* ===== verification/Runtime_Settings.thy ===== *)
theory Runtime_Settings
  imports Config_Storage
begin

text \<open>
  The runtime's own settings (\<open>runtime/src/configuration/runtime_settings.cpp\<close>): where the
  configuration lives, and the log level and trace budget read from \<open>FusionCutter.ini\<close>.
\<close>

section \<open>Paths\<close>

record ConfigurationPaths =
  cp_directory :: string
  cp_write_defaults :: bool

definition is_separator :: "char \<Rightarrow> bool" where
  "is_separator c \<longleftrightarrow> c = CHR 0x5C \<or> c = CHR ''/''"

text \<open>\<open>operator/\<close> and \<open>parent_path\<close> of \<open>std::filesystem::path\<close>, on the names the code gives them.\<close>

definition path_join :: "string \<Rightarrow> string \<Rightarrow> string" where
  "path_join directory name =
    (if directory = [] \<or> is_separator (last directory) then directory @ name
     else directory @ [CHR 0x5C] @ name)"

definition parent_path :: "string \<Rightarrow> string" where
  "parent_path path = rev (drop 1 (dropWhile (\<lambda>c. \<not> is_separator c) (rev path)))"

text \<open>
  \<open>GetModuleFileNameW\<close>: zero when the call fails, the length of the path when it fits the buffer with
  its terminator, and the buffer's size when the path was cut.
\<close>

fun module_name_size :: "string option \<Rightarrow> nat \<Rightarrow> nat" where
  "module_name_size None capacity = 0"
| "module_name_size (Some path) capacity = min (length path) capacity"

function read_module_path :: "string option \<Rightarrow> u32 \<Rightarrow> nat \<Rightarrow> Diagnostic + ConfigurationPaths" where
  "read_module_path full code capacity =
    (let used = module_name_size full capacity
     in if used = 0
        then Inl (diagnostic_code ''runtime'' (''Could not read the runtime module'' @ [CHR 0x27] @ ''s path'') code)
        else if used < capacity
        then Inr \<lparr>cp_directory = parent_path (take used (the full)), cp_write_defaults = True\<rparr>
        else read_module_path full code (capacity * 2))"
  by pat_completeness auto
termination
proof (relation "measure (\<lambda>(full, code, capacity). (case full of None \<Rightarrow> 0 | Some path \<Rightarrow> Suc (length path) - capacity))")
  fix full :: "string option" and code :: u32 and capacity used
  assume "used = module_name_size full capacity" "used \<noteq> 0" "\<not> used < capacity"
  then show "((full, code, capacity * 2), full, code, capacity)
      \<in> measure (\<lambda>(full, code, capacity). (case full of None \<Rightarrow> 0 | Some path \<Rightarrow> Suc (length path) - capacity))"
    by (cases full) auto
qed simp

declare read_module_path.simps [simp del]

definition runtime_configuration_paths :: "u32 \<Rightarrow> string option \<Rightarrow> u32 \<Rightarrow> Diagnostic + ConfigurationPaths" where
  "runtime_configuration_paths module_error full name_error =
    (if module_error \<noteq> 0
     then Inl (diagnostic_code ''runtime'' ''Could not identify the module containing the runtime'' module_error)
     else read_module_path full name_error 256)"

lemma read_module_path_exact:
  "0 < capacity \<Longrightarrow> path \<noteq> [] \<Longrightarrow> read_module_path (Some path) code capacity =
     Inr \<lparr>cp_directory = parent_path path, cp_write_defaults = True\<rparr>"
proof (induction "Some path" code capacity rule: read_module_path.induct)
  case (1 code capacity)
  show ?case
  proof (cases "length path < capacity")
    case True
    with 1 show ?thesis by (simp add: read_module_path.simps [of "Some path"] Let_def)
  next
    case False
    then have "min (length path) capacity = capacity" by simp
    with 1 show ?thesis by (simp add: read_module_path.simps [of "Some path" code capacity] Let_def)
  qed
qed

section \<open>Settings\<close>

record RuntimeSettings =
  rs_log_level :: FC_LogLevel
  rs_trace_file_bytes :: u64
  rs_warnings :: "Diagnostic list"

definition default_settings :: RuntimeSettings where
  "default_settings =
    \<lparr>rs_log_level = FC_LOG_WARNING, rs_trace_file_bytes = 512 * 1024 * 1024, rs_warnings = []\<rparr>"

fun log_level_name :: "FC_LogLevel \<Rightarrow> string" where
  "log_level_name FC_LOG_OFF = ''Off''"
| "log_level_name FC_LOG_ERROR = ''Error''"
| "log_level_name FC_LOG_INFO = ''Info''"
| "log_level_name FC_LOG_DEBUG = ''Debug''"
| "log_level_name FC_LOG_WARNING = ''Warning''"

definition kBytesPerMb :: u64 where "kBytesPerMb = 1048576"

definition runtime_entries :: "RuntimeSettings \<Rightarrow> GeneratedEntry list" where
  "runtime_entries settings =
    [\<lparr>ge_section = ''FusionCutter'', ge_key = ''LogLevel'',
      ge_description = ''Log level: Off, Error, Warning, Info or Debug.'', ge_constraints = [],
      ge_value = FV_Text (text_view (log_level_name (rs_log_level settings))), ge_variant_default = False,
      ge_rank = (0, 0, []), ge_key_id = []\<rparr>,
     \<lparr>ge_section = ''FusionCutter'', ge_key = ''MaxTraceSizeMB'',
      ge_description = ''Maximum trace file size in MB (1 MB = 1,048,576 bytes).'' @ [LF] @
        ''Set to 0 to disable recording.'', ge_constraints = [],
      ge_value = FV_Unsigned (rs_trace_file_bytes settings div kBytesPerMb), ge_variant_default = False,
      ge_rank = (0, 0, []), ge_key_id = []\<rparr>]"

definition log_levels :: "FC_LogLevel list" where
  "log_levels = [FC_LOG_OFF, FC_LOG_ERROR, FC_LOG_WARNING, FC_LOG_INFO, FC_LOG_DEBUG]"

definition apply_log_level :: "string \<Rightarrow> IniDocument \<Rightarrow> RuntimeSettings \<Rightarrow> RuntimeSettings" where
  "apply_log_level owner document settings =
    (case ini_find document ''FusionCutter'' ''LogLevel'' of
       None \<Rightarrow> settings
     | Some entry \<Rightarrow>
         (case List.find (\<lambda>level. equal_id (ie_value entry) (log_level_name level)) log_levels of
            Some level \<Rightarrow> settings\<lparr>rs_log_level := level\<rparr>
          | None \<Rightarrow> settings\<lparr>rs_warnings := rs_warnings settings @
              [diagnostic owner ''Invalid LogLevel; using the default value Warning'']\<rparr>))"

definition apply_trace_size :: "platform \<Rightarrow> string \<Rightarrow> IniDocument \<Rightarrow> RuntimeSettings \<Rightarrow> RuntimeSettings" where
  "apply_trace_size plat owner document settings =
    (case ini_find document ''FusionCutter'' ''MaxTraceSizeMB'' of
       None \<Rightarrow> settings
     | Some entry \<Rightarrow>
         (let rejected = settings\<lparr>rs_warnings := rs_warnings settings @
                [diagnostic owner ''Invalid MaxTraceSizeMB; using the default value 512 MB'']\<rparr>
          in case parse_scalar plat (ie_value entry) FC_SCALAR_UNSIGNED owner of
               Inr (SV_Unsigned megabytes) \<Rightarrow>
                 if megabytes \<le> (- 1) div kBytesPerMb
                 then settings\<lparr>rs_trace_file_bytes := megabytes * kBytesPerMb\<rparr>
                 else rejected
             | _ \<Rightarrow> rejected))"

definition load_runtime_configuration :: "platform \<Rightarrow> load_world \<Rightarrow> files \<Rightarrow> ConfigurationPaths
    \<Rightarrow> (Diagnostic + RuntimeSettings) \<times> files" where
  "load_runtime_configuration plat world files paths =
    (let settings = default_settings; entries = runtime_entries settings;
         path = path_join (cp_directory paths) ''FusionCutter.ini''; owner = path
     in case load_file plat world files path entries (cp_write_defaults paths) [] of
          (Inl failure, files', _) \<Rightarrow> (Inl failure, files')
        | (Inr document, files', warnings) \<Rightarrow>
            (let settings1 = settings\<lparr>rs_warnings := warn_unknown document entries warnings owner\<rparr>
             in (Inr (apply_trace_size plat owner document (apply_log_level owner document settings1)), files')))"

section \<open>Level names\<close>

lemma log_levels_all: "level \<in> set log_levels"
  by (cases level) (simp_all add: log_levels_def)

lemma log_level_name_distinct: "equal_id (log_level_name a) (log_level_name b) \<longleftrightarrow> a = b"
  by (cases a; cases b) (simp_all add: equal_id_def fold_ascii_def is_upper_def)

lemma trace_bytes_exact:
  fixes megabytes :: u64
  assumes "megabytes \<le> (- 1) div kBytesPerMb"
  shows "unat (megabytes * kBytesPerMb) = unat megabytes * 1048576"
proof -
  have "unat megabytes \<le> unat ((- 1 :: u64) div kBytesPerMb)" using assms by (simp add: word_le_nat_alt)
  also have "\<dots> = 17592186044415"
  proof -
    have "unat (- 1 :: u64) = 18446744073709551615"
      by (simp add: unsigned_minus_1_eq_mask mask_eq_exp_minus_1)
    then show ?thesis by (simp add: unat_div_distrib kBytesPerMb_def)
  qed
  finally have "unat megabytes * 1048576 < 2 ^ 64" by simp
  then show ?thesis by (simp add: unat_word_ariths kBytesPerMb_def)
qed

end
