(* ===== verification/Config_Properties.thy ===== *)
theory Config_Properties
  imports Runtime_Settings
begin

text \<open>The properties of the INI reader, of the configuration file and of the runtime's settings.\<close>

section \<open>A concrete platform\<close>

text \<open>
  The hypotheses about the platform are met by the UTF-8 check of the specification and by any
  conversion of finite numbers that can be read back; the one below prints the bits in decimal.
\<close>

definition sample_platform :: platform where
  "sample_platform = \<lparr>plat_utf8 = utf8_text, plat_parse_real = from_chars_unsigned,
     plat_format_real = (\<lambda>d. decimal (unat d))\<rparr>"

lemma sample_real_conversions: "real_conversions sample_platform"
  using decimal_plain by (simp add: real_conversions_def sample_platform_def from_chars_unsigned_decimal)

section \<open>Properties\<close>

text \<open>C35: Every scalar a setting can hold is read back from the text written for it: booleans, signed
  and unsigned 64-bit numbers over their whole range, finite reals, and texts with quotes,
  backslashes, controls and null characters.\<close>

theorem scalar_roundtrip:
  assumes "scalar_storable plat v" and "real_conversions plat"
  shows "\<exists>stored. decode_string (trim (format_scalar plat (scalar_view v))) owner = Inr stored \<and>
    parse_scalar plat stored (value_kind (scalar_view v)) owner = Inr v"
  using scalar_text_back [OF assms] trim_trimmed [OF format_scalar_trimmed [OF assms]] by simp

theorem scalar_roundtrip_witness:
  "\<exists>stored. decode_string (trim (format_scalar sample_platform (scalar_view (SV_Text [CHR 0x22, CHR 0x00, CHR 0x5C, TAB])))) ''o'' =
      Inr stored \<and>
    parse_scalar sample_platform stored (value_kind (scalar_view (SV_Text [CHR 0x22, CHR 0x00, CHR 0x5C, TAB]))) ''o'' =
      Inr (SV_Text [CHR 0x22, CHR 0x00, CHR 0x5C, TAB])"
proof (rule scalar_roundtrip [OF _ sample_real_conversions])
  have "utf8_text [CHR 0x22, CHR 0x00, CHR 0x5C, TAB]" by (rule utf8_text_ascii) simp
  then show "scalar_storable sample_platform (SV_Text [CHR 0x22, CHR 0x00, CHR 0x5C, TAB])"
    by (simp add: utf8_def INT_MAX_def sample_platform_def)
qed

text \<open>A quoted value made of JSON escapes of Unicode scalar values, surrogate pairs for those above
  0xffff, decodes to the UTF-8 encoding of exactly those values.\<close>

theorem unicode_escapes_decode:
  assumes "list_all scalar_value cps"
  shows "decode_string (CHR 0x22 # concat (map json_escape cps) @ [CHR 0x22]) owner =
    Inr (text_of_bytes (concat (map utf8_encode cps)))"
proof -
  have "concat (map (\<lambda>cp. text_of_bytes (utf8_encode cp)) cps) = text_of_bytes (concat (map utf8_encode cps))"
    by (induction cps) (simp_all add: text_of_bytes_def)
  with decode_escapes [OF assms, of "[CHR 0x22]" "[]"] show ?thesis by (simp add: decode_string_def)
qed

theorem unicode_escapes_decode_witness:
  "decode_string (CHR 0x22 # concat (map json_escape [0xe9, 0x1f600]) @ [CHR 0x22]) ''o'' =
    Inr (text_of_bytes (concat (map utf8_encode [0xe9, 0x1f600])))"
  by (rule unicode_escapes_decode) (simp add: scalar_value_def)

text \<open>C34: A document that parses has pairwise distinct section and key identities, every assignment in
  a declared section and under a well-formed key; looking up a section and key, in any letter case,
  finds an entry exactly when it is an assignment of the document under that name.\<close>

theorem parsed_document_lookup:
  assumes "parse_ini plat content owner = Inr document"
  shows "document_ok document \<and>
    (ini_find document sec key = Some e \<longleftrightarrow>
      e \<in> set (doc_entries document) \<and> equal_id (ie_section e) sec \<and> equal_id (ie_key e) key)"
  using parse_ini_ok [OF assms] document_ok_find [of document sec key e]
  by (simp add: same_entry_def)

theorem parsed_document_lookup_witness:
  "\<exists>document. parse_ini sample_platform (''[Camera]'' @ [CR, LF] @ ''Fov = 90'' @ [LF]) ''o'' = Inr document \<and>
    document_ok document \<and>
    (ini_find document ''camera'' ''FOV'' = Some \<lparr>ie_section = ''Camera'', ie_key = ''Fov'', ie_value = ''90''\<rparr> \<longleftrightarrow>
      \<lparr>ie_section = ''Camera'', ie_key = ''Fov'', ie_value = ''90''\<rparr> \<in> set (doc_entries document) \<and>
      equal_id ''Camera'' ''camera'' \<and> equal_id ''Fov'' ''FOV'')"
proof -
  let ?content = "''[Camera]'' @ [CR, LF] @ ''Fov = 90'' @ [LF]"
  have "utf8_text ?content" by (rule utf8_text_ascii) simp
  then have u: "utf8 (plat_utf8 sample_platform) ?content False"
    by (simp add: utf8_def sample_platform_def INT_MAX_def)
  have lines: "ini_lines ?content = [''[Camera]'' @ [CR], ''Fov = 90'']"
    by (simp add: ini_lines.simps first_line_def split_at_def)
  have "\<exists>st. parse_lines ''o'' 0 start_state ?content = Inr st"
    unfolding parse_lines_fold lines
    by (simp add: parse_line_def start_state_def empty_document_def trim_def blank_def has_bracket_def
        split_at_def identity_def decode_string_def folded_id_def fold_ascii_def is_upper_def Let_def)
  then obtain document where p: "parse_ini sample_platform ?content ''o'' = Inr document"
    using u by (auto simp: parse_ini_def)
  from parsed_document_lookup [OF p, of "''camera''" "''FOV''"] p show ?thesis by auto
qed

text \<open>A content that is valid text is refused exactly when one of its lines cannot be parsed after
  the lines in front of it, and the diagnostic names the first such line by its number.\<close>

theorem parse_failure_names_line:
  "parse_ini plat content owner = Inl failure \<longleftrightarrow>
    \<not> utf8 (plat_utf8 plat) content False \<and>
      failure = diagnostic owner (''Configuration contains null bytes, is too large for Windows text '' @
        ''conversion, or could not be validated as UTF-8'') \<or>
    utf8 (plat_utf8 plat) content False \<and>
      (\<exists>before line after st message.
        ini_lines content = before @ line # after \<and>
        fold_lines owner 0 start_state before = Inr st \<and>
        parse_line (trim line) owner st = Inl message \<and>
        failure = line_failure owner (length before + 1) message)"
proof -
  have "parse_ini plat content owner = Inl failure \<longleftrightarrow> parse_lines owner 0 start_state content = Inl failure"
    if "utf8 (plat_utf8 plat) content False"
    using that by (cases "parse_lines owner 0 start_state content") (auto simp: parse_ini_def)
  then show ?thesis
    unfolding parse_lines_fold fold_lines_failure by (auto simp: parse_ini_def)
qed

text \<open>C33: Adding missing defaults to a configuration keeps every byte of the user's text, in order; the
  file is left alone exactly when every declared entry is already assigned or commented out.\<close>

theorem updated_contents_keeps_input:
  "(case updated_contents plat document contents entries of
      None \<Rightarrow> list_all (entry_known document) entries
    | Some updated \<Rightarrow> subseq contents updated \<and> \<not> list_all (entry_known document) entries)"
  using updated_contents_subseq [of plat document contents entries]
    updated_contents_None [of plat document contents entries]
  by (cases "updated_contents plat document contents entries") (simp_all add: list_all_iff)

text \<open>C32: Whichever file operation fails at whatever point while an existing configuration is loaded, afterwards the file holds
  what it held or, complete, the text with the added defaults, with one exception, which the documentation of
  \<open>ReplaceFileW\<close> admits because the call names no backup: its errors 1176 and 1177 leave no file at the path, and the
  loader goes on with a warning that carries the error; after 1177 the old text is still there under another name. No
  file but these and the stage beside the configuration is touched, a file that already has the stage's name is not
  overwritten, and the settings returned are those of the text that was read.\<close>

theorem load_file_existing_outcome:
  assumes "files path = Some contents" and "lw_open_error world \<noteq> ERROR_FILE_NOT_FOUND"
    and "lw_open_error world \<noteq> ERROR_PATH_NOT_FOUND"
    and "lw_moved world \<noteq> path" and "lw_moved world \<noteq> path @ ''.tmp''"
    and "load_file plat world files path entries write_defaults warnings = (result, files', warnings')"
  shows "(files' path = Some contents \<or>
      (\<exists>bytes document updated. read_document plat world path = Inr (bytes, document) \<and>
        updated_contents plat document bytes entries = Some updated \<and> files' path = Some updated) \<or>
      files' path = None \<and> replace_loses world \<and>
        (lw_error world = ERROR_UNABLE_TO_MOVE_REPLACEMENT_2 \<longrightarrow> files' (lw_moved world) = Some contents) \<and>
        warnings' = warnings @ [diagnostic_code path
          ''Could not add new entries to the configuration file; using existing values and defaults'' (lw_error world)]) \<and>
    (files' q = files q \<or> q = path \<or> q = path @ ''.tmp'' \<and> files q = None \<or>
      q = lw_moved world \<and> files' path = None \<and> replace_loses world) \<and>
    (result = Inr document' \<longrightarrow> (\<exists>bytes. read_document plat world path = Inr (bytes, document')))"
proof -
  have "files' = files \<and> (\<forall>d. result = Inr d \<longrightarrow> (\<exists>bytes. read_document plat world path = Inr (bytes, d))) \<or>
      (\<exists>bytes document updated success code. read_document plat world path = Inr (bytes, document) \<and>
        updated_contents plat document bytes entries = Some updated \<and>
        write_updated world files path False updated = (success, code, files') \<and> result = Inr document \<and>
        (\<not> success \<longrightarrow> warnings' = warnings @ [diagnostic_code path
          ''Could not add new entries to the configuration file; using existing values and defaults'' code]))"
    using assms(2,3,6) by (auto simp: load_file_def Let_def split: if_splits sum.splits option.splits prod.splits)
  then show ?thesis
  proof (elim disjE exE conjE)
    assume "files' = files" "\<forall>d. result = Inr d \<longrightarrow> (\<exists>bytes. read_document plat world path = Inr (bytes, d))"
    with assms(1) show ?thesis by simp
  next
    fix bytes document updated success code
    assume read: "read_document plat world path = Inr (bytes, document)" "updated_contents plat document bytes entries = Some updated"
      and written: "write_updated world files path False updated = (success, code, files')" and result: "result = Inr document"
      and warned: "\<not> success \<longrightarrow> warnings' = warnings @ [diagnostic_code path
          ''Could not add new entries to the configuration file; using existing values and defaults'' code]"
    note outcome = write_updated_existing [OF written assms(4,5)]
    have "files' q = files q \<or> q = path \<or> q = path @ ''.tmp'' \<and> files q = None \<or>
        q = lw_moved world \<and> files' path = None \<and> replace_loses world"
      using outcome(3) [of q] outcome(4)
      by (cases "q = path @ ''.tmp''"; cases "q = path"; cases "files (path @ ''.tmp'')") auto
    moreover have "files' path = Some updated \<or> files' path = Some contents \<or>
        files' path = None \<and> replace_loses world \<and>
          (lw_error world = ERROR_UNABLE_TO_MOVE_REPLACEMENT_2 \<longrightarrow> files' (lw_moved world) = Some contents) \<and>
          warnings' = warnings @ [diagnostic_code path
            ''Could not add new entries to the configuration file; using existing values and defaults'' (lw_error world)]"
    proof (cases success)
      case False
      then show ?thesis using outcome(2) [OF False] warned assms(1) by auto
    qed (simp add: outcome(1))
    ultimately show ?thesis using read result by blast
  qed
qed

definition sample_files :: files where
  "sample_files = (\<lambda>path. if path = ''FC.ini'' then Some [] else None)"

definition sample_load_world :: load_world where
  "sample_load_world = \<lparr>lw_open_error = 0, lw_size = Some 0, lw_read = (True, 0, []), lw_read_error = 0,
     lw_create = True, lw_write = (\<lambda>_. (True, 3)), lw_flush = True, lw_replace = False, lw_moved = ''FC~1.ini'', lw_delete = True,
     lw_error = 5\<rparr>"

theorem load_file_existing_outcome_witness:
  "\<exists>result files' warnings'.
    load_file sample_platform sample_load_world sample_files ''FC.ini'' (runtime_entries default_settings) True [] =
      (result, files', warnings') \<and>
    (files' ''FC.ini'' = Some [] \<or>
      (\<exists>bytes document updated. read_document sample_platform sample_load_world ''FC.ini'' = Inr (bytes, document) \<and>
        updated_contents sample_platform document bytes (runtime_entries default_settings) = Some updated \<and>
        files' ''FC.ini'' = Some updated)) \<and>
    files' ''other'' = None"
proof -
  obtain result files' warnings' where l:
    "load_file sample_platform sample_load_world sample_files ''FC.ini'' (runtime_entries default_settings) True [] =
      (result, files', warnings')" by (metis prod_cases3)
  have "\<not> replace_loses sample_load_world" by (simp add: replace_loses_def sample_load_world_def windows_errors)
  moreover have "sample_files ''FC.ini'' = Some []" "sample_files ''other'' = None" by (simp_all add: sample_files_def)
  ultimately show ?thesis
    using load_file_existing_outcome [OF _ _ _ _ _ l, of "[]" "''other''"] l
    by (intro exI [of _ result] exI [of _ files'] exI [of _ warnings'] conjI)
      (auto simp: sample_load_world_def windows_errors)
qed

text \<open>C36: The runtime's settings follow the document: a log level is taken in any letter case and an
  unknown one keeps the default with a warning; a trace budget in megabytes is the exact number of
  bytes when that fits 64 bits, and otherwise the default stays with a warning.\<close>

theorem runtime_settings_exact:
  "(case ini_find document ''FusionCutter'' ''LogLevel'' of
      None \<Rightarrow> apply_log_level owner document settings = settings
    | Some entry \<Rightarrow>
        (if \<exists>level. equal_id (ie_value entry) (log_level_name level)
         then \<exists>level. equal_id (ie_value entry) (log_level_name level) \<and>
           apply_log_level owner document settings = settings\<lparr>rs_log_level := level\<rparr>
         else apply_log_level owner document settings = settings\<lparr>rs_warnings := rs_warnings settings @
           [diagnostic owner ''Invalid LogLevel; using the default value Warning'']\<rparr>)) \<and>
   (case ini_find document ''FusionCutter'' ''MaxTraceSizeMB'' of
      None \<Rightarrow> apply_trace_size plat owner document settings = settings
    | Some entry \<Rightarrow>
        (case from_chars_unsigned (ie_value entry) of
           Some (megabytes, []) \<Rightarrow>
             (if unat megabytes * 1048576 < 2 ^ 64
              then \<exists>bytes. unat bytes = unat megabytes * 1048576 \<and>
                apply_trace_size plat owner document settings = settings\<lparr>rs_trace_file_bytes := bytes\<rparr>
              else apply_trace_size plat owner document settings = settings\<lparr>rs_warnings := rs_warnings settings @
                [diagnostic owner ''Invalid MaxTraceSizeMB; using the default value 512 MB'']\<rparr>)
         | _ \<Rightarrow> apply_trace_size plat owner document settings = settings\<lparr>rs_warnings := rs_warnings settings @
             [diagnostic owner ''Invalid MaxTraceSizeMB; using the default value 512 MB'']\<rparr>))"
proof -
  have fits: "megabytes \<le> (- 1) div kBytesPerMb \<longleftrightarrow> unat megabytes * 1048576 < 2 ^ 64" for megabytes :: u64
  proof -
    have "unat (- 1 :: u64) = 18446744073709551615"
      by (simp add: unsigned_minus_1_eq_mask mask_eq_exp_minus_1)
    then have "unat ((- 1 :: u64) div kBytesPerMb) = 17592186044415"
      by (simp add: unat_div_distrib kBytesPerMb_def)
    then show ?thesis by (simp add: word_le_nat_alt) linarith
  qed
  have level: "List.find (\<lambda>level. equal_id s (log_level_name level)) log_levels = Some level \<Longrightarrow>
      equal_id s (log_level_name level)" for s level by (drule find_SomeD) simp
  have none: "List.find (\<lambda>level. equal_id s (log_level_name level)) log_levels = None \<longleftrightarrow>
      \<not> (\<exists>level. equal_id s (log_level_name level))" for s
    using log_levels_all by (auto simp: find_None_iff_all)
  have "case ini_find document ''FusionCutter'' ''LogLevel'' of
      None \<Rightarrow> apply_log_level owner document settings = settings
    | Some entry \<Rightarrow>
        (if \<exists>level. equal_id (ie_value entry) (log_level_name level)
         then \<exists>level. equal_id (ie_value entry) (log_level_name level) \<and>
           apply_log_level owner document settings = settings\<lparr>rs_log_level := level\<rparr>
         else apply_log_level owner document settings = settings\<lparr>rs_warnings := rs_warnings settings @
           [diagnostic owner ''Invalid LogLevel; using the default value Warning'']\<rparr>)"
  proof (cases "ini_find document ''FusionCutter'' ''LogLevel''")
    case (Some entry)
    show ?thesis
    proof (cases "List.find (\<lambda>level. equal_id (ie_value entry) (log_level_name level)) log_levels")
      case None
      with Some none [of "ie_value entry"] show ?thesis by (simp add: apply_log_level_def)
    next
      case (Some level')
      with \<open>ini_find _ _ _ = Some entry\<close> level [OF Some] none [of "ie_value entry"]
      show ?thesis by (auto simp: apply_log_level_def)
    qed
  qed (simp add: apply_log_level_def)
  then show ?thesis using trace_bytes_exact
    by (auto simp: apply_trace_size_def parse_scalar_def scalar_kinds Let_def fits
        split: option.splits list.splits prod.splits)
qed

end
