(* ===== verification/Declarations.thy ===== *)
theory Declarations
  imports Ini
begin

text \<open>
  The declarations a plugin publishes (\<open>sdk/include/fc/abi/plugin.h\<close>) and the image catalog, as the
  runtime reads them: a counted array is a list, a text view the characters it shows. Pointers into a
  declaration or the catalog are positions in those lists.
\<close>

section \<open>Plugins\<close>

text \<open>A setting's validator returns its status and, where it reports one, an error text and code.\<close>

record FC_Setting =
  fs_key :: string
  fs_description :: string
  fs_section :: string
  fs_environment :: string
  fs_default_value :: FC_Value
  fs_constraints :: string
  fs_validate :: "FC_Value \<Rightarrow> u32 \<times> (FC_Text \<times> u32) option"

record FC_ImageRequirement =
  ir_name :: string
  ir_selectors :: "string list"

record FC_Variant =
  fv_images :: "FC_ImageRequirement list"
  fv_role :: u32
  fv_failure_policy :: u32
  fv_depends_on :: "string list"
  fv_settings :: "FC_Setting list"

record FC_Patch =
  fp_id :: string
  fp_description :: string
  fp_category :: string
  fp_enabled :: u32
  fp_configurable :: u32
  fp_failure_policy :: u32
  fp_update_interval_ms :: "64 word"
  fp_depends_on :: "string list"
  fp_variants :: "FC_Variant list"

record FC_Group =
  fg_id :: string
  fg_description :: string
  fg_category :: string
  fg_members :: "string list"
  fg_enabled :: u32
  fg_configurable :: u32

record FC_Category =
  fc_id :: string
  fc_has_order :: u32
  fc_order :: u32

record FC_Plugin =
  fl_id :: string
  fl_version :: string
  fl_categories :: "FC_Category list"
  fl_groups :: "FC_Group list"
  fl_patches :: "FC_Patch list"

definition FC_ROLE_CLIENT :: u32 where "FC_ROLE_CLIENT = 1"
definition FC_ROLE_SERVER :: u32 where "FC_ROLE_SERVER = 2"
definition FC_ROLE_ALL :: u32 where "FC_ROLE_ALL = 3"

definition FC_FAILURE_CONTINUE :: u32 where "FC_FAILURE_CONTINUE = 0"
definition FC_FAILURE_FATAL :: u32 where "FC_FAILURE_FATAL = 1"

record AdmittedPlugin =
  ap_owner :: string
  ap_definition :: FC_Plugin

section \<open>The image catalog\<close>

record SectionProfile =
  sp_name :: string
  sp_rva :: u32
  sp_size :: u32

record ImageProfile =
  ip_id :: string
  ip_filenames :: "string list"
  ip_image_size :: u32
  ip_sections :: "SectionProfile list"

type_synonym catalog = "ImageProfile list"

text \<open>A pointer to a profile is its position in the catalog.\<close>

type_synonym profile_ref = nat

section \<open>Diagnostic texts\<close>

definition quoted :: "string \<Rightarrow> string" where
  "quoted s = [CHR 0x27] @ s @ [CHR 0x27]"

text \<open>The texts joined by a separator, put in front of all but the first, as the loops that build
  diagnostics do.\<close>

fun joined :: "string \<Rightarrow> string list \<Rightarrow> string" where
  "joined separator [] = []"
| "joined separator [s] = s"
| "joined separator (s # t # ts) = s @ separator @ joined separator (t # ts)"

end
