(* ===== verification/Patch_Selection.thy ===== *)
theory Patch_Selection
  imports Declarations
begin

unbundle bit_operations_syntax

text \<open>
  The selection of a patch's variant (\<open>runtime/src/patches/selection.cpp\<close>): selectors are expanded
  against the catalog, variants that can match the same images in the same role are refused, and the
  observed images decide whether a variant is ready, waiting or unavailable.
\<close>

section \<open>Resolved declarations\<close>

record ResolvedImageRequirement =
  rr_definition :: FC_ImageRequirement
  rr_profiles :: "profile_ref list"

record ResolvedVariant =
  rv_definition :: FC_Variant
  rv_index :: nat
  rv_images :: "ResolvedImageRequirement list"

record ResolvedPatch =
  rp_owner :: string
  rp_plugin :: FC_Plugin
  rp_definition :: FC_Patch
  rp_variants :: "ResolvedVariant list"

definition selection_patch_id :: "ResolvedPatch \<Rightarrow> string" where
  "selection_patch_id patch = fl_id (rp_plugin patch) @ ''.'' @ fp_id (rp_definition patch)"

definition starts_with_ascii_case_insensitive :: "string \<Rightarrow> string \<Rightarrow> bool" where
  "starts_with_ascii_case_insensitive s prefix \<longleftrightarrow>
    length s \<ge> length prefix \<and> equal_id (take (length prefix) s) prefix"

definition declared_selectors :: "FC_ImageRequirement \<Rightarrow> string" where
  "declared_selectors requirement = joined '', '' (map quoted (ir_selectors requirement))"

definition role_matches :: "u32 \<Rightarrow> u32 \<Rightarrow> bool" where
  "role_matches declared current \<longleftrightarrow> declared AND current \<noteq> 0"

section \<open>Overlap of variants\<close>

text \<open>The builds and file names a requirement may choose, in the order the search tries them.\<close>

definition choices :: "catalog \<Rightarrow> profile_ref list \<Rightarrow> (string \<times> profile_ref) list" where
  "choices catalog profiles =
    concat (map (\<lambda>profile. map (\<lambda>filename. (filename, profile)) (ip_filenames (catalog ! profile))) profiles)"

text \<open>The backtracking search; a tentative assignment is gone when the next choice is tried.\<close>

fun has_compatible_assignment :: "catalog \<Rightarrow> profile_ref list list \<Rightarrow> (string \<times> profile_ref) list \<Rightarrow> bool" where
  "has_compatible_assignment catalog [] assignments = True"
| "has_compatible_assignment catalog (profiles # requirements) assignments =
     list_ex (\<lambda>(filename, profile).
       case List.find (\<lambda>assignment. equal_id (fst assignment) filename) assignments of
         Some existing \<Rightarrow> snd existing = profile \<and> has_compatible_assignment catalog requirements assignments
       | None \<Rightarrow> has_compatible_assignment catalog requirements (assignments @ [(filename, profile)]))
     (choices catalog profiles)"

definition variants_overlap :: "catalog \<Rightarrow> ResolvedVariant \<Rightarrow> ResolvedVariant \<Rightarrow> bool" where
  "variants_overlap catalog left right =
    (if fv_role (rv_definition left) AND fv_role (rv_definition right) = 0 then False
     else if list_ex (\<lambda>required. rr_profiles required = []) (rv_images left @ rv_images right) then False
     else has_compatible_assignment catalog (map rr_profiles (rv_images left @ rv_images right)) [])"

definition variant_can_match :: "catalog \<Rightarrow> ResolvedVariant \<Rightarrow> bool" where
  "variant_can_match catalog variant =
    (if list_ex (\<lambda>required. rr_profiles required = []) (rv_images variant) then False
     else has_compatible_assignment catalog (map rr_profiles (rv_images variant)) [])"

section \<open>Resolving a patch\<close>

definition selector_accepts :: "string \<Rightarrow> string \<Rightarrow> bool" where
  "selector_accepts selector profile_id =
    (if selector \<noteq> [] \<and> last selector = CHR ''*''
     then starts_with_ascii_case_insensitive profile_id (butlast selector)
     else equal_id profile_id selector)"

definition resolve_requirement :: "catalog \<Rightarrow> FC_ImageRequirement \<Rightarrow> ResolvedImageRequirement" where
  "resolve_requirement catalog required =
    \<lparr>rr_definition = required,
     rr_profiles = filter (\<lambda>profile. list_ex (\<lambda>selector. selector_accepts selector (ip_id (catalog ! profile)))
       (ir_selectors required)) [0..<length catalog]\<rparr>"

definition resolve_variants :: "catalog \<Rightarrow> FC_Patch \<Rightarrow> ResolvedVariant list" where
  "resolve_variants catalog patch =
    map (\<lambda>(index, definition). \<lparr>rv_definition = definition, rv_index = index,
           rv_images = map (resolve_requirement catalog) (fv_images definition)\<rparr>)
      (zip [0..<length (fp_variants patch)] (fp_variants patch))"

text \<open>The pairs of positions the overlap check visits, in its order.\<close>

definition variant_pairs :: "nat \<Rightarrow> (nat \<times> nat) list" where
  "variant_pairs n = concat (map (\<lambda>left. map (\<lambda>right. (left, right)) [left + 1..<n]) [0..<n])"

definition resolve_patch :: "AdmittedPlugin \<Rightarrow> nat \<Rightarrow> catalog \<Rightarrow> Diagnostic + ResolvedPatch" where
  "resolve_patch plugin patch_index catalog =
    (let definition = fl_patches (ap_definition plugin) ! patch_index;
         variants = resolve_variants catalog definition;
         result = \<lparr>rp_owner = ap_owner plugin, rp_plugin = ap_definition plugin, rp_definition = definition,
                   rp_variants = variants\<rparr>
     in case List.find (\<lambda>(left, right). variants_overlap catalog (variants ! left) (variants ! right))
               (variant_pairs (length variants)) of
          Some (left, right) \<Rightarrow>
            Inl (diagnostic (ap_owner plugin) (''patch '' @ quoted (selection_patch_id result) @ '' variants '' @
              decimal (left + 1) @ '' and '' @ decimal (right + 1) @
              '' can match the same image set in the same launch role''))
        | None \<Rightarrow> Inr result)"

section \<open>Observations\<close>

text \<open>An outcome is a failed inspection, an absent image (\<open>Inr None\<close>) or a recognised profile.\<close>

record ImageObservation =
  ob_filename :: string
  ob_outcome :: "Diagnostic + profile_ref option"
  ob_executable :: bool
  ob_base :: nat

datatype SelectionState = Ready | Waiting | Unavailable

record SelectedImageBinding =
  sb_label :: string
  sb_profile :: profile_ref
  sb_observation_index :: nat

record PatchSelection =
  ps_state :: SelectionState
  ps_variant :: "FC_Variant option"
  ps_variant_index :: nat
  ps_images :: "SelectedImageBinding list"
  ps_reasons :: "Diagnostic list"
  ps_not_applicable :: bool

definition no_selection :: PatchSelection where
  "no_selection = \<lparr>ps_state = Unavailable, ps_variant = None, ps_variant_index = 0, ps_images = [],
     ps_reasons = [], ps_not_applicable = False\<rparr>"

record RequirementEvaluation =
  re_state :: SelectionState
  re_binding :: "SelectedImageBinding option"
  re_reasons :: "Diagnostic list"
  re_build_excluded :: bool

definition is_exe_name :: "string \<Rightarrow> bool" where
  "is_exe_name filename \<longleftrightarrow> length filename \<ge> 4 \<and> equal_id (drop (length filename - 4) filename) ''.exe''"

text \<open>The map from file names to positions keeps the first observation of each name.\<close>

definition observation_indices :: "ImageObservation list \<Rightarrow> string \<Rightarrow> nat option" where
  "observation_indices observations =
    map_of (zip (map (\<lambda>observation. folded_id (ob_filename observation)) observations) [0..<length observations])"

section \<open>One requirement\<close>

definition already_matched :: "ImageObservation list \<Rightarrow> nat list \<Rightarrow> nat \<Rightarrow> bool" where
  "already_matched observations matching index =
    list_ex (\<lambda>previous. previous = index \<or>
      ob_base (observations ! index) \<noteq> 0 \<and> ob_base (observations ! previous) = ob_base (observations ! index)) matching"

text \<open>The loop over the observations for one candidate: whether it matched, and the matching positions.\<close>

fun match_candidate :: "ImageObservation list \<Rightarrow> profile_ref \<Rightarrow> nat list \<Rightarrow> bool \<Rightarrow> nat list \<Rightarrow> bool \<times> nat list" where
  "match_candidate observations candidate [] matched matching = (matched, matching)"
| "match_candidate observations candidate (index # indices) matched matching =
     (if ob_outcome (observations ! index) \<noteq> Inr (Some candidate)
      then match_candidate observations candidate indices matched matching
      else match_candidate observations candidate indices True
        (if already_matched observations matching index then matching else matching @ [index]))"

text \<open>What a file name of an unmatched candidate says: whether it defeats the candidate, the reasons,
  and whether only builds outside the catalog are to blame so far.\<close>

record name_result =
  nr_failed :: bool
  nr_reasons :: "Diagnostic list"
  nr_only_mismatch :: bool

definition examine_name :: "catalog \<Rightarrow> string \<Rightarrow> string \<Rightarrow> profile_ref \<Rightarrow> ImageObservation list
    \<Rightarrow> string \<Rightarrow> name_result \<Rightarrow> name_result" where
  "examine_name catalog owner label candidate observations filename r =
    (let candidate_id = ip_id (catalog ! candidate);
         fail = (\<lambda>reason only. \<lparr>nr_failed = True, nr_reasons = nr_reasons r @ [reason], nr_only_mismatch = only\<rparr>);
         intro = ''image '' @ quoted label
     in case observation_indices observations (folded_id filename) of
          None \<Rightarrow>
            (if is_exe_name filename
             then fail (diagnostic owner (intro @ '' candidate '' @ quoted candidate_id @
                    '' executable is unavailable'')) (nr_only_mismatch r)
             else r)
        | Some found \<Rightarrow>
            (let observation = observations ! found
             in case ob_outcome observation of
                  Inl failure \<Rightarrow>
                    fail (failure\<lparr>dg_message := intro @ '' candidate '' @ quoted candidate_id @ '' at '' @
                      quoted (ob_filename observation) @ '' failed inspection: '' @ dg_message failure\<rparr>) False
                | Inr None \<Rightarrow>
                    (if is_exe_name filename
                     then fail (diagnostic owner (intro @ '' candidate '' @ quoted candidate_id @ '' executable '' @
                            quoted (ob_filename observation) @ '' is absent'')) (nr_only_mismatch r)
                     else r)
                | Inr (Some observed) \<Rightarrow>
                    fail (diagnostic owner (intro @ '' expected profile '' @ quoted candidate_id @ '' at '' @
                      quoted (ob_filename observation) @ '' but observed '' @ quoted (ip_id (catalog ! observed))))
                      (nr_only_mismatch r \<and> ob_executable observation)))"

fun examine_names :: "catalog \<Rightarrow> string \<Rightarrow> string \<Rightarrow> profile_ref \<Rightarrow> ImageObservation list
    \<Rightarrow> string list \<Rightarrow> name_result \<Rightarrow> name_result" where
  "examine_names catalog owner label candidate observations [] r = r"
| "examine_names catalog owner label candidate observations (filename # filenames) r =
     examine_names catalog owner label candidate observations filenames
       (examine_name catalog owner label candidate observations filename r)"

record candidate_state =
  cs_pending :: "profile_ref list"
  cs_matching :: "nat list"
  cs_unavailable :: "Diagnostic list"
  cs_only_mismatch :: bool

definition examine_candidate :: "catalog \<Rightarrow> string \<Rightarrow> string \<Rightarrow> ImageObservation list \<Rightarrow> profile_ref
    \<Rightarrow> candidate_state \<Rightarrow> candidate_state" where
  "examine_candidate catalog owner label observations candidate st =
    (let (matched, matching) = match_candidate observations candidate [0..<length observations] False (cs_matching st);
         candidate_id = ip_id (catalog ! candidate)
     in if matched then st\<lparr>cs_matching := matching\<rparr>
        else
          (case (if list_ex is_exe_name (ip_filenames (catalog ! candidate))
                 then List.find ob_executable observations else None) of
             Some main \<Rightarrow>
               (case ob_outcome main of
                  Inl failure \<Rightarrow>
                    st\<lparr>cs_only_mismatch := False, cs_unavailable := cs_unavailable st @
                      [failure\<lparr>dg_message := ''image '' @ quoted label @ '' executable '' @ quoted (ob_filename main) @
                         '' failed inspection: '' @ dg_message failure\<rparr>]\<rparr>
                | Inr observed \<Rightarrow>
                    st\<lparr>cs_unavailable := cs_unavailable st @ [diagnostic owner (''image '' @ quoted label @
                       '' expected profile '' @ quoted candidate_id @ '' for executable '' @ quoted (ob_filename main) @
                       '' but observed '' @
                       (case observed of Some profile \<Rightarrow> quoted (ip_id (catalog ! profile))
                        | None \<Rightarrow> ''no recognized image''))]\<rparr>)
           | None \<Rightarrow>
               (let r = examine_names catalog owner label candidate observations
                      (ip_filenames (catalog ! candidate))
                      \<lparr>nr_failed = False, nr_reasons = [], nr_only_mismatch = cs_only_mismatch st\<rparr>;
                    st' = st\<lparr>cs_only_mismatch := nr_only_mismatch r\<rparr>
                in if nr_failed r then st'\<lparr>cs_unavailable := cs_unavailable st' @ nr_reasons r\<rparr>
                   else st'\<lparr>cs_pending := cs_pending st' @ [candidate]\<rparr>)))"

fun examine_candidates :: "catalog \<Rightarrow> string \<Rightarrow> string \<Rightarrow> ImageObservation list \<Rightarrow> profile_ref list
    \<Rightarrow> candidate_state \<Rightarrow> candidate_state" where
  "examine_candidates catalog owner label observations [] st = st"
| "examine_candidates catalog owner label observations (candidate # candidates) st =
     examine_candidates catalog owner label observations candidates
       (examine_candidate catalog owner label observations candidate st)"

definition pending_text :: "catalog \<Rightarrow> profile_ref list \<Rightarrow> string" where
  "pending_text catalog pending =
    joined ''; '' (map (\<lambda>profile. ''profile '' @ quoted (ip_id (catalog ! profile)) @ '' at '' @
      joined '', '' (map quoted (ip_filenames (catalog ! profile)))) pending)"

definition observed_profile :: "ImageObservation \<Rightarrow> profile_ref" where
  "observed_profile observation =
    (case ob_outcome observation of Inr (Some profile) \<Rightarrow> profile | _ \<Rightarrow> 0)"

definition ambiguous_names :: "string list \<Rightarrow> string" where
  "ambiguous_names filenames =
    foldl (\<lambda>names filename. (if names \<noteq> [] then names @ '', '' else names) @ filename) [] filenames"

definition evaluate_requirement :: "catalog \<Rightarrow> ResolvedPatch \<Rightarrow> ResolvedImageRequirement
    \<Rightarrow> ImageObservation list \<Rightarrow> RequirementEvaluation" where
  "evaluate_requirement catalog patch requirement observations =
    (let label = ir_name (rr_definition requirement); owner = selection_patch_id patch;
         result = \<lparr>re_state = Unavailable, re_binding = None, re_reasons = [], re_build_excluded = False\<rparr>;
         st = examine_candidates catalog owner label observations (rr_profiles requirement)
           \<lparr>cs_pending = [], cs_matching = [], cs_unavailable = [], cs_only_mismatch = True\<rparr>
     in case cs_matching st of
          [index] \<Rightarrow> result\<lparr>re_state := Ready, re_binding := Some \<lparr>sb_label = label,
              sb_profile = observed_profile (observations ! index), sb_observation_index = index\<rparr>\<rparr>
        | _ # _ # _ \<Rightarrow>
            result\<lparr>re_reasons := [diagnostic owner (''image '' @ quoted label @
              '' is ambiguous across observed images: '' @
              ambiguous_names (map (\<lambda>index. ob_filename (observations ! index)) (cs_matching st)))]\<rparr>
        | [] \<Rightarrow>
            (if cs_pending st \<noteq> []
             then result\<lparr>re_state := Waiting, re_reasons := [diagnostic owner (''image '' @ quoted label @
                    '' is waiting for '' @ pending_text catalog (cs_pending st))]\<rparr>
             else result\<lparr>re_reasons := cs_unavailable st, re_build_excluded := cs_only_mismatch st\<rparr>))"

section \<open>One variant and the patch\<close>

record variant_candidate =
  vc_state :: SelectionState
  vc_images :: "SelectedImageBinding list"
  vc_reasons :: "Diagnostic list"
  vc_has_failure :: bool

definition add_requirement :: "RequirementEvaluation \<Rightarrow> variant_candidate \<Rightarrow> variant_candidate" where
  "add_requirement required c =
    (let c' = (case re_state required of
           Unavailable \<Rightarrow> c\<lparr>vc_state := Unavailable, vc_has_failure := vc_has_failure c \<or> \<not> re_build_excluded required\<rparr>
         | Waiting \<Rightarrow> (if vc_state c = Ready then c\<lparr>vc_state := Waiting\<rparr> else c)
         | Ready \<Rightarrow> (case re_binding required of None \<Rightarrow> c | Some binding \<Rightarrow> c\<lparr>vc_images := vc_images c @ [binding]\<rparr>))
     in c'\<lparr>vc_reasons := vc_reasons c' @ re_reasons required\<rparr>)"

definition evaluate_variant :: "catalog \<Rightarrow> ResolvedPatch \<Rightarrow> ResolvedVariant \<Rightarrow> ImageObservation list
    \<Rightarrow> variant_candidate" where
  "evaluate_variant catalog patch variant observations =
    fold (\<lambda>requirement. add_requirement (evaluate_requirement catalog patch requirement observations))
      (rv_images variant) \<lparr>vc_state = Ready, vc_images = [], vc_reasons = [], vc_has_failure = False\<rparr>"

record evaluation =
  ev_waiting :: "Diagnostic list"
  ev_unavailable :: "Diagnostic list"
  ev_has_applicable :: bool
  ev_only_exclusions :: bool
  ev_ready :: "PatchSelection option"

text \<open>One turn of the loop over the variants; the left result is the early return for two variants
  that both match.\<close>

definition evaluate_one :: "catalog \<Rightarrow> ResolvedPatch \<Rightarrow> u32 \<Rightarrow> ImageObservation list \<Rightarrow> ResolvedVariant
    \<Rightarrow> evaluation \<Rightarrow> PatchSelection + evaluation" where
  "evaluate_one catalog patch role observations variant ev =
    (let owner = selection_patch_id patch
     in if \<not> role_matches (fv_role (rv_definition variant)) role then Inr ev
        else
          (let ev1 = ev\<lparr>ev_has_applicable := True\<rparr>
           in if \<not> variant_can_match catalog variant
              then Inr (case List.find (\<lambda>required. rr_profiles required = []) (rv_images variant) of
                     Some required \<Rightarrow>
                       ev1\<lparr>ev_unavailable := ev_unavailable ev1 @ [diagnostic owner (''image '' @
                         quoted (ir_name (rr_definition required)) @ '' selectors '' @
                         declared_selectors (rr_definition required) @ '' match no profiles in this runtime catalog'')]\<rparr>
                   | None \<Rightarrow>
                       ev1\<lparr>ev_only_exclusions := False, ev_unavailable := ev_unavailable ev1 @
                         [diagnostic owner (''variant '' @ decimal (rv_index variant + 1) @
                          '' requires image profiles that cannot be selected together using their declared filenames'')]\<rparr>)
              else
                (let c = evaluate_variant catalog patch variant observations
                 in case vc_state c of
                      Unavailable \<Rightarrow>
                        Inr (ev1\<lparr>ev_only_exclusions := ev_only_exclusions ev1 \<and> \<not> vc_has_failure c,
                          ev_unavailable := ev_unavailable ev1 @ vc_reasons c\<rparr>)
                    | Waiting \<Rightarrow> Inr (ev1\<lparr>ev_waiting := ev_waiting ev1 @ vc_reasons c\<rparr>)
                    | Ready \<Rightarrow>
                        (case ev_ready ev1 of
                           Some first \<Rightarrow>
                             Inl (no_selection\<lparr>ps_reasons := [diagnostic owner (''variants '' @
                               decimal (ps_variant_index first + 1) @ '' and '' @ decimal (rv_index variant + 1) @
                               '' both match the observed images in this launch role'')]\<rparr>)
                         | None \<Rightarrow>
                             Inr (ev1\<lparr>ev_ready := Some \<lparr>ps_state = Ready, ps_variant = Some (rv_definition variant),
                               ps_variant_index = rv_index variant, ps_images = vc_images c, ps_reasons = vc_reasons c,
                               ps_not_applicable = False\<rparr>\<rparr>)))))"

fun evaluate_variants :: "catalog \<Rightarrow> ResolvedPatch \<Rightarrow> u32 \<Rightarrow> ImageObservation list \<Rightarrow> ResolvedVariant list
    \<Rightarrow> evaluation \<Rightarrow> PatchSelection + evaluation" where
  "evaluate_variants catalog patch role observations [] ev = Inr ev"
| "evaluate_variants catalog patch role observations (variant # variants) ev =
     (case evaluate_one catalog patch role observations variant ev of
        Inl ambiguous \<Rightarrow> Inl ambiguous
      | Inr ev' \<Rightarrow> evaluate_variants catalog patch role observations variants ev')"

definition evaluate_patch :: "catalog \<Rightarrow> ResolvedPatch \<Rightarrow> u32 \<Rightarrow> ImageObservation list
    \<Rightarrow> ResolvedVariant list \<Rightarrow> PatchSelection" where
  "evaluate_patch catalog patch role observations variants =
    (case evaluate_variants catalog patch role observations variants
            \<lparr>ev_waiting = [], ev_unavailable = [], ev_has_applicable = False, ev_only_exclusions = True,
             ev_ready = None\<rparr> of
       Inl ambiguous \<Rightarrow> ambiguous
     | Inr ev \<Rightarrow>
         (case ev_ready ev of
            Some selection \<Rightarrow> selection
          | None \<Rightarrow>
              (if ev_waiting ev \<noteq> []
               then no_selection\<lparr>ps_state := Waiting, ps_reasons := ev_waiting ev\<rparr>
               else no_selection\<lparr>ps_state := Unavailable,
                 ps_not_applicable := (\<not> ev_has_applicable ev \<or> ev_only_exclusions ev),
                 ps_reasons := ev_unavailable ev @
                   (if ev_has_applicable ev then []
                    else [diagnostic (selection_patch_id patch)
                            ''patch has no variant for the current launch role''])\<rparr>)))"

end
