(* ===== verification/Selection_Laws.thy ===== *)
theory Selection_Laws
  imports Patch_Selection
begin

unbundle bit_operations_syntax

text \<open>
  What selection guarantees: the overlap search is exact, a requirement is ready exactly when the
  matching observations are one physical image, and a patch is ready exactly when one of its variants
  is, with a binding for every label of it.
\<close>

section \<open>The overlap search\<close>

text \<open>No file name stands for two builds.\<close>

definition consistent :: "(string \<times> profile_ref) list \<Rightarrow> bool" where
  "consistent assignments \<longleftrightarrow>
    (\<forall>a \<in> set assignments. \<forall>b \<in> set assignments. equal_id (fst a) (fst b) \<longrightarrow> snd a = snd b)"

lemma consistent_insert:
  "consistent (assignments @ x # cs) \<longleftrightarrow> consistent (assignments @ cs) \<and>
   (\<forall>a \<in> set (assignments @ cs). equal_id (fst a) (fst x) \<longrightarrow> snd a = snd x)"
proof
  assume "consistent (assignments @ x # cs)"
  then show "consistent (assignments @ cs) \<and>
    (\<forall>a \<in> set (assignments @ cs). equal_id (fst a) (fst x) \<longrightarrow> snd a = snd x)"
    unfolding consistent_def set_append list.set(2) by blast
next
  assume r: "consistent (assignments @ cs) \<and>
    (\<forall>a \<in> set (assignments @ cs). equal_id (fst a) (fst x) \<longrightarrow> snd a = snd x)"
  show "consistent (assignments @ x # cs)" unfolding consistent_def
  proof (intro ballI impI)
    fix a b assume "a \<in> set (assignments @ x # cs)" "b \<in> set (assignments @ x # cs)" "equal_id (fst a) (fst b)"
    then consider "a = x" "b = x" | "a = x" "b \<in> set (assignments @ cs)" | "b = x" "a \<in> set (assignments @ cs)"
      | "a \<in> set (assignments @ cs)" "b \<in> set (assignments @ cs)" by auto
    then show "snd a = snd b"
    proof cases
      case 2
      with r \<open>equal_id (fst a) (fst b)\<close> equal_id_sym show ?thesis by metis
    next
      case 3
      with r \<open>equal_id (fst a) (fst b)\<close> show ?thesis by metis
    next
      case 4
      with r \<open>equal_id (fst a) (fst b)\<close> show ?thesis unfolding consistent_def by blast
    qed simp
  qed
qed

lemma consistent_known:
  assumes "e \<in> set assignments" and "equal_id (fst e) filename" and "snd e = profile"
  shows "consistent (assignments @ (filename, profile) # cs) \<longleftrightarrow> consistent (assignments @ cs)"
proof -
  have "snd a = profile" if "consistent (assignments @ cs)" "a \<in> set (assignments @ cs)" "equal_id (fst a) filename" for a
  proof -
    have "equal_id (fst a) (fst e)" using that(3) assms(2) by (simp add: equal_id_iff)
    with that(1,2) assms(1) have "snd a = snd e" unfolding consistent_def set_append by blast
    with assms(3) show ?thesis by simp
  qed
  then show ?thesis unfolding consistent_insert fst_conv snd_conv by blast
qed

lemma consistent_clash:
  assumes "e \<in> set assignments" and "equal_id (fst e) filename" and "snd e \<noteq> profile"
  shows "\<not> consistent (assignments @ (filename, profile) # cs)"
  using assms unfolding consistent_insert fst_conv snd_conv set_append by blast

definition choice_of :: "catalog \<Rightarrow> string \<times> profile_ref \<Rightarrow> profile_ref list \<Rightarrow> bool" where
  "choice_of catalog choice profiles \<longleftrightarrow> choice \<in> set (choices catalog profiles)"

lemma has_compatible_assignment_iff:
  "has_compatible_assignment catalog requirements assignments \<and> consistent assignments \<longleftrightarrow>
   (\<exists>cs. list_all2 (choice_of catalog) cs requirements \<and> consistent (assignments @ cs))"
proof (induction requirements arbitrary: assignments)
  case Nil
  then show ?case by simp
next
  case (Cons profiles requirements)
  have sub: "consistent (assignments @ cs) \<Longrightarrow> consistent assignments" for cs
    by (simp add: consistent_def)
  have turn: "(case List.find (\<lambda>a. equal_id (fst a) f) assignments of
         Some e \<Rightarrow> snd e = p \<and> has_compatible_assignment catalog requirements assignments
       | None \<Rightarrow> has_compatible_assignment catalog requirements (assignments @ [(f, p)])) \<and> consistent assignments \<longleftrightarrow>
     (\<exists>cs. list_all2 (choice_of catalog) cs requirements \<and> consistent (assignments @ (f, p) # cs))" for f p
  proof (cases "List.find (\<lambda>a. equal_id (fst a) f) assignments")
    case None
    then have "consistent (assignments @ [(f, p)])" if "consistent assignments"
      using that by (simp add: consistent_insert [of assignments _ "[]", simplified] find_None_iff_all)
    with Cons.IH [of "assignments @ [(f, p)]"] sub None show ?thesis by auto
  next
    case (Some e)
    then have e: "e \<in> set assignments" "equal_id (fst e) f" by (auto dest: find_SomeD)
    show ?thesis
    proof (cases "snd e = p")
      case True
      with Cons.IH [of assignments] consistent_known [OF e True] Some show ?thesis by simp
    next
      case False
      with consistent_clash [OF e False] Some show ?thesis by simp
    qed
  qed
  have "has_compatible_assignment catalog (profiles # requirements) assignments \<and> consistent assignments \<longleftrightarrow>
      (\<exists>c \<in> set (choices catalog profiles). \<exists>cs. list_all2 (choice_of catalog) cs requirements \<and>
        consistent (assignments @ c # cs))"
  proof -
    have pair: "(case x of (f, p) \<Rightarrow> case List.find (\<lambda>a. equal_id (fst a) f) assignments of
         Some e \<Rightarrow> snd e = p \<and> has_compatible_assignment catalog requirements assignments
       | None \<Rightarrow> has_compatible_assignment catalog requirements (assignments @ [(f, p)])) \<and> consistent assignments \<longleftrightarrow>
      (\<exists>cs. list_all2 (choice_of catalog) cs requirements \<and> consistent (assignments @ x # cs))" for x
      using turn [of "fst x" "snd x"] by (simp add: split_beta)
    show ?thesis unfolding has_compatible_assignment.simps list_ex_iff pair [symmetric] by blast
  qed
  also have "\<dots> \<longleftrightarrow> (\<exists>cs. list_all2 (choice_of catalog) cs (profiles # requirements) \<and> consistent (assignments @ cs))"
    by (auto simp: list_all2_Cons2 choice_of_def)
  finally show ?case .
qed

lemma choices_Nil: "choices catalog [] = []"
  by (simp add: choices_def)

lemma compatible_search:
  "\<not> list_ex (\<lambda>image. rr_profiles image = []) images \<and> has_compatible_assignment catalog (map rr_profiles images) [] \<longleftrightarrow>
   (\<exists>cs. list_all2 (choice_of catalog) cs (map rr_profiles images) \<and> consistent cs)"
proof -
  have "\<not> list_ex (\<lambda>image. rr_profiles image = []) images"
    if "list_all2 (choice_of catalog) cs (map rr_profiles images)" for cs
    using that
  proof (induction images arbitrary: cs)
    case (Cons r images)
    then show ?case by (auto simp: list_all2_Cons2 choice_of_def choices_Nil)
  qed simp
  moreover have "consistent []" by (simp add: consistent_def)
  ultimately show ?thesis
    using has_compatible_assignment_iff [of catalog "map rr_profiles images" "[]"] by auto
qed

section \<open>Matching observations\<close>

definition matches :: "ImageObservation list \<Rightarrow> profile_ref list \<Rightarrow> nat set" where
  "matches observations profiles =
    {index. index < length observations \<and> (\<exists>profile \<in> set profiles. ob_outcome (observations ! index) = Inr (Some profile))}"

text \<open>Two observations show the same physical image: one observation, or two of one mapping.\<close>

definition same_image :: "ImageObservation list \<Rightarrow> nat \<Rightarrow> nat \<Rightarrow> bool" where
  "same_image observations i j \<longleftrightarrow> i = j \<or>
    ob_base (observations ! i) \<noteq> 0 \<and> ob_base (observations ! i) = ob_base (observations ! j)"

lemma same_image_refl [simp]: "same_image observations i i"
  by (simp add: same_image_def)

lemma same_image_sym: "same_image observations i j \<Longrightarrow> same_image observations j i"
  by (auto simp: same_image_def)

lemma same_image_trans: "same_image observations i j \<Longrightarrow> same_image observations j k \<Longrightarrow> same_image observations i k"
  by (auto simp: same_image_def)

lemma same_image_base:
  "same_image observations i j \<longleftrightarrow> i = j \<or>
   ob_base (observations ! j) \<noteq> 0 \<and> ob_base (observations ! i) = ob_base (observations ! j)"
  by (auto simp: same_image_def)

lemma already_matched_iff:
  "already_matched observations matching index \<longleftrightarrow> (\<exists>previous \<in> set matching. same_image observations previous index)"
  by (simp add: already_matched_def same_image_base list_ex_iff)

definition representatives :: "ImageObservation list \<Rightarrow> nat set \<Rightarrow> nat list \<Rightarrow> bool" where
  "representatives observations found matching \<longleftrightarrow>
    set matching \<subseteq> found \<and>
    (\<forall>i \<in> found. \<exists>j \<in> set matching. same_image observations j i) \<and>
    sorted_wrt (\<lambda>i j. \<not> same_image observations i j) matching"

lemma representatives_add:
  assumes "representatives observations found matching"
  shows "representatives observations (insert index found)
    (if already_matched observations matching index then matching else matching @ [index])"
  using assms by (auto simp: representatives_def already_matched_iff sorted_wrt_append)

lemma match_candidate_spec:
  assumes "representatives observations found matching"
    and "match_candidate observations candidate indices matched matching = (matched', matching')"
  shows "representatives observations
      (found \<union> {i \<in> set indices. ob_outcome (observations ! i) = Inr (Some candidate)}) matching' \<and>
    (matched' \<longleftrightarrow> matched \<or> (\<exists>i \<in> set indices. ob_outcome (observations ! i) = Inr (Some candidate)))"
  using assms
proof (induction observations candidate indices matched matching arbitrary: found rule: match_candidate.induct)
  case (2 observations candidate index indices matched matching)
  show ?case
  proof (cases "ob_outcome (observations ! index) = Inr (Some candidate)")
    case True
    let ?m = "if already_matched observations matching index then matching else matching @ [index]"
    have "match_candidate observations candidate indices True ?m = (matched', matching')"
      using True "2.prems"(2) by simp
    from "2.IH"(2) [OF _ representatives_add [OF "2.prems"(1)] this] True
    have "representatives observations
        (insert index found \<union> {i \<in> set indices. ob_outcome (observations ! i) = Inr (Some candidate)}) matching' \<and> matched'"
      by simp
    moreover have "insert index found \<union> {i \<in> set indices. ob_outcome (observations ! i) = Inr (Some candidate)} =
        found \<union> {i \<in> set (index # indices). ob_outcome (observations ! i) = Inr (Some candidate)}"
      using True by auto
    ultimately show ?thesis using True by auto
  next
    case False
    then have "{i \<in> set (index # indices). ob_outcome (observations ! i) = Inr (Some candidate)} =
        {i \<in> set indices. ob_outcome (observations ! i) = Inr (Some candidate)}" by auto
    with False 2 show ?thesis by auto
  qed
qed (auto simp: representatives_def)

lemma examine_candidate_matching:
  "cs_matching (examine_candidate catalog owner label observations candidate st) =
   (case match_candidate observations candidate [0..<length observations] False (cs_matching st) of
      (matched, matching) \<Rightarrow> if matched then matching else cs_matching st)"
  by (auto simp: examine_candidate_def Let_def split: prod.splits option.splits sum.splits)

lemma examine_candidates_matching:
  assumes "representatives observations found (cs_matching st)"
  shows "representatives observations (found \<union> matches observations candidates)
    (cs_matching (examine_candidates catalog owner label observations candidates st))"
  using assms
proof (induction candidates arbitrary: found st)
  case Nil
  then show ?case by (simp add: matches_def)
next
  case (Cons candidate candidates)
  let ?hits = "{i \<in> set [0..<length observations]. ob_outcome (observations ! i) = Inr (Some candidate)}"
  obtain matched matching where m:
    "match_candidate observations candidate [0..<length observations] False (cs_matching st) = (matched, matching)"
    by fastforce
  from match_candidate_spec [OF Cons.prems m]
  have r: "representatives observations (found \<union> ?hits) matching" and matched: "matched \<longleftrightarrow> ?hits \<noteq> {}" by auto
  have "representatives observations (found \<union> ?hits)
      (cs_matching (examine_candidate catalog owner label observations candidate st))"
  proof (cases "?hits = {}")
    case True
    with matched m have "cs_matching (examine_candidate catalog owner label observations candidate st) = cs_matching st"
      by (simp only: examine_candidate_matching prod.case) simp
    with True Cons.prems show ?thesis by (simp only: Un_empty_right)
  next
    case False
    with matched m have "cs_matching (examine_candidate catalog owner label observations candidate st) = matching"
      by (simp only: examine_candidate_matching prod.case) simp
    with r show ?thesis by (simp only:)
  qed
  from Cons.IH [OF this] have "representatives observations (found \<union> ?hits \<union> matches observations candidates)
      (cs_matching (examine_candidates catalog owner label observations candidates
        (examine_candidate catalog owner label observations candidate st)))" .
  moreover have "?hits \<union> matches observations candidates = matches observations (candidate # candidates)"
    by (auto simp: matches_def)
  ultimately show ?case by (simp add: Un_assoc)
qed

lemma requirement_representatives:
  "representatives observations (matches observations candidates)
     (cs_matching (examine_candidates catalog owner label observations candidates
       \<lparr>cs_pending = [], cs_matching = [], cs_unavailable = [], cs_only_mismatch = True\<rparr>))"
  using examine_candidates_matching [of observations "{}" "\<lparr>cs_pending = [], cs_matching = [], cs_unavailable = [], cs_only_mismatch = True\<rparr>"]
  by (simp add: representatives_def)

text \<open>The matching observations are one physical image, represented by \<open>index\<close>.\<close>

definition unique_image :: "ImageObservation list \<Rightarrow> nat set \<Rightarrow> nat \<Rightarrow> bool" where
  "unique_image observations found index \<longleftrightarrow> index \<in> found \<and> found \<subseteq> {i. same_image observations index i}"

lemma representatives_single:
  assumes "representatives observations found matching"
  shows "(\<exists>index. matching = [index]) \<longleftrightarrow> (\<exists>index. unique_image observations found index)"
    and "matching = [index] \<Longrightarrow> unique_image observations found index"
proof -
  show one: "unique_image observations found index" if "matching = [index]" for index
    using assms that by (auto simp: representatives_def unique_image_def)
  show "(\<exists>index. matching = [index]) \<longleftrightarrow> (\<exists>index. unique_image observations found index)"
  proof
    assume "\<exists>index. unique_image observations found index"
    then obtain index where u: "index \<in> found" "found \<subseteq> {i. same_image observations index i}"
      by (auto simp: unique_image_def)
    show "\<exists>index. matching = [index]"
    proof (cases matching)
      case Nil
      with assms u show ?thesis by (auto simp: representatives_def)
    next
      case (Cons i rest)
      show ?thesis
      proof (cases rest)
        case (Cons j rest')
        with \<open>matching = i # rest\<close> assms have "i \<in> found" "j \<in> found" "\<not> same_image observations i j"
          by (auto simp: representatives_def)
        with u same_image_sym same_image_trans show ?thesis by blast
      qed (use Cons in simp)
    qed
  qed (use one in blast)
qed

definition requirement_matching :: "catalog \<Rightarrow> ResolvedPatch \<Rightarrow> ResolvedImageRequirement
    \<Rightarrow> ImageObservation list \<Rightarrow> nat list" where
  "requirement_matching catalog patch requirement observations =
    cs_matching (examine_candidates catalog (selection_patch_id patch) (ir_name (rr_definition requirement))
      observations (rr_profiles requirement)
      \<lparr>cs_pending = [], cs_matching = [], cs_unavailable = [], cs_only_mismatch = True\<rparr>)"

lemma evaluate_requirement_ready:
  "re_state (evaluate_requirement catalog patch requirement observations) = Ready \<longleftrightarrow>
   (\<exists>index. requirement_matching catalog patch requirement observations = [index])"
  by (auto simp: evaluate_requirement_def requirement_matching_def Let_def split: list.splits)

lemma evaluate_requirement_binding:
  "requirement_matching catalog patch requirement observations = [index] \<Longrightarrow>
   re_binding (evaluate_requirement catalog patch requirement observations) =
     Some \<lparr>sb_label = ir_name (rr_definition requirement), sb_profile = observed_profile (observations ! index),
       sb_observation_index = index\<rparr>"
  by (simp add: evaluate_requirement_def requirement_matching_def Let_def)

lemma evaluate_requirement_reasons:
  "re_state (evaluate_requirement catalog patch requirement observations) = Ready \<Longrightarrow>
   re_reasons (evaluate_requirement catalog patch requirement observations) = []"
  "re_state (evaluate_requirement catalog patch requirement observations) = Waiting \<Longrightarrow>
   re_reasons (evaluate_requirement catalog patch requirement observations) \<noteq> []"
  by (auto simp: evaluate_requirement_def Let_def split: list.splits if_splits)

text \<open>A binding a requirement accepts: its label, an observed image of an accepted build, and no other
  physical image that would do.\<close>

definition binding_ok :: "ImageObservation list \<Rightarrow> ResolvedImageRequirement \<Rightarrow> SelectedImageBinding \<Rightarrow> bool" where
  "binding_ok observations requirement binding \<longleftrightarrow>
    sb_label binding = ir_name (rr_definition requirement) \<and>
    sb_profile binding \<in> set (rr_profiles requirement) \<and>
    ob_outcome (observations ! sb_observation_index binding) = Inr (Some (sb_profile binding)) \<and>
    unique_image observations (matches observations (rr_profiles requirement)) (sb_observation_index binding)"

lemma requirement_ready_binding:
  assumes "re_state (evaluate_requirement catalog patch requirement observations) = Ready"
  shows "\<exists>binding. re_binding (evaluate_requirement catalog patch requirement observations) = Some binding \<and>
    binding_ok observations requirement binding"
proof -
  from assms obtain index where i: "requirement_matching catalog patch requirement observations = [index]"
    unfolding evaluate_requirement_ready by blast
  have u: "unique_image observations (matches observations (rr_profiles requirement)) index"
    using representatives_single(2) [OF requirement_representatives] i unfolding requirement_matching_def by blast
  then show ?thesis
    unfolding evaluate_requirement_binding [OF i]
    by (auto simp: binding_ok_def unique_image_def matches_def observed_profile_def)
qed

lemma requirement_ready_iff:
  "re_state (evaluate_requirement catalog patch requirement observations) = Ready \<longleftrightarrow>
   (\<exists>index. unique_image observations (matches observations (rr_profiles requirement)) index)"
  unfolding evaluate_requirement_ready requirement_matching_def
  by (rule representatives_single(1) [OF requirement_representatives])

section \<open>Variants\<close>

definition requirement_state :: "catalog \<Rightarrow> ResolvedPatch \<Rightarrow> ImageObservation list
    \<Rightarrow> ResolvedImageRequirement \<Rightarrow> SelectionState" where
  "requirement_state catalog patch observations requirement =
    re_state (evaluate_requirement catalog patch requirement observations)"

lemma add_requirement_state:
  "vc_state (add_requirement e c) =
    (case re_state e of Unavailable \<Rightarrow> Unavailable
     | Waiting \<Rightarrow> (if vc_state c = Ready then Waiting else vc_state c) | Ready \<Rightarrow> vc_state c)"
  by (auto simp: add_requirement_def Let_def split: SelectionState.splits option.splits)

lemma fold_requirements_state:
  "vc_state (fold (\<lambda>requirement. add_requirement (evaluate_requirement catalog patch requirement observations)) rs c) =
    (if vc_state c = Unavailable \<or> Unavailable \<in> set (map (requirement_state catalog patch observations) rs) then Unavailable
     else if vc_state c = Waiting \<or> Waiting \<in> set (map (requirement_state catalog patch observations) rs) then Waiting
     else Ready)"
proof (induction rs arbitrary: c)
  case Nil
  then show ?case by (cases "vc_state c") auto
next
  case (Cons r rs)
  then show ?case
    by (cases "vc_state c"; cases "re_state (evaluate_requirement catalog patch r observations)")
      (simp_all add: add_requirement_state requirement_state_def)
qed

lemma evaluate_variant_state:
  "vc_state (evaluate_variant catalog patch variant observations) =
    (if Unavailable \<in> set (map (requirement_state catalog patch observations) (rv_images variant)) then Unavailable
     else if Waiting \<in> set (map (requirement_state catalog patch observations) (rv_images variant)) then Waiting
     else Ready)"
  unfolding evaluate_variant_def fold_requirements_state by simp

lemma fold_requirements_ready:
  "list_all (\<lambda>r. requirement_state catalog patch observations r = Ready) rs \<Longrightarrow>
   list_all2 (binding_ok observations) rs0 (vc_images c) \<Longrightarrow> vc_reasons c = [] \<Longrightarrow>
   list_all2 (binding_ok observations) (rs0 @ rs)
     (vc_images (fold (\<lambda>requirement. add_requirement (evaluate_requirement catalog patch requirement observations)) rs c)) \<and>
   vc_reasons (fold (\<lambda>requirement. add_requirement (evaluate_requirement catalog patch requirement observations)) rs c) = []"
proof (induction rs arbitrary: c rs0)
  case (Cons r rs)
  let ?e = "evaluate_requirement catalog patch r observations"
  from Cons.prems(1) have ready: "re_state ?e = Ready" by (simp add: requirement_state_def)
  from requirement_ready_binding [OF ready] obtain b where b: "re_binding ?e = Some b" "binding_ok observations r b" by blast
  let ?c = "add_requirement ?e c"
  have c: "vc_images ?c = vc_images c @ [b]" "vc_reasons ?c = []"
    using ready b(1) evaluate_requirement_reasons(1) [OF ready] Cons.prems(3)
    by (simp_all add: add_requirement_def Let_def)
  have "list_all2 (binding_ok observations) (rs0 @ [r]) (vc_images ?c)"
    using Cons.prems(2) b(2) unfolding c by (simp add: list_all2_appendI)
  from Cons.IH [OF _ this c(2)] Cons.prems(1) show ?case by simp
qed simp

lemma evaluate_variant_ready:
  assumes "vc_state (evaluate_variant catalog patch variant observations) = Ready"
  shows "list_all2 (binding_ok observations) (rv_images variant) (vc_images (evaluate_variant catalog patch variant observations)) \<and>
    vc_reasons (evaluate_variant catalog patch variant observations) = []"
proof -
  have "list_all (\<lambda>r. requirement_state catalog patch observations r = Ready) (rv_images variant)"
  proof -
    have "requirement_state catalog patch observations r = Ready" if "r \<in> set (rv_images variant)" for r
      using assms that unfolding evaluate_variant_state
      by (cases "requirement_state catalog patch observations r") (force split: if_splits)+
    then show ?thesis by (simp add: list_all_iff)
  qed
  from fold_requirements_ready [OF this, of "[]"] show ?thesis unfolding evaluate_variant_def by simp
qed

lemma add_requirement_reasons: "vc_reasons (add_requirement e c) = vc_reasons c @ re_reasons e"
  by (simp add: add_requirement_def Let_def split: SelectionState.split option.split)

lemma evaluate_variant_waiting:
  assumes "vc_state (evaluate_variant catalog patch variant observations) = Waiting"
  shows "vc_reasons (evaluate_variant catalog patch variant observations) \<noteq> []"
proof -
  have mono: "vc_reasons c \<noteq> [] \<Longrightarrow>
      vc_reasons (fold (\<lambda>requirement. add_requirement (evaluate_requirement catalog patch requirement observations)) rs c) \<noteq> []"
    for rs c
    by (induction rs arbitrary: c) (simp_all add: add_requirement_reasons)
  have "\<exists>r \<in> set rs. requirement_state catalog patch observations r = Waiting \<Longrightarrow>
      vc_reasons (fold (\<lambda>requirement. add_requirement (evaluate_requirement catalog patch requirement observations)) rs c) \<noteq> []"
    for rs c
  proof (induction rs arbitrary: c)
    case (Cons r rs)
    show ?case
    proof (cases "requirement_state catalog patch observations r = Waiting")
      case True
      then have "vc_reasons (add_requirement (evaluate_requirement catalog patch r observations) c) \<noteq> []"
        using evaluate_requirement_reasons(2) by (simp add: requirement_state_def add_requirement_reasons)
      with mono show ?thesis by simp
    next
      case False
      with Cons show ?thesis by simp
    qed
  qed simp
  moreover have "\<exists>r \<in> set (rv_images variant). requirement_state catalog patch observations r = Waiting"
    using assms unfolding evaluate_variant_state by (simp split: if_splits) (metis imageE)
  ultimately show ?thesis unfolding evaluate_variant_def by blast
qed

section \<open>Patches\<close>

text \<open>The state of one variant for a launch role: \<open>None\<close> when the role excludes it.\<close>

definition variant_state :: "catalog \<Rightarrow> ResolvedPatch \<Rightarrow> u32 \<Rightarrow> ImageObservation list \<Rightarrow> ResolvedVariant
    \<Rightarrow> SelectionState option" where
  "variant_state catalog patch role observations variant =
    (if \<not> role_matches (fv_role (rv_definition variant)) role then None
     else if \<not> variant_can_match catalog variant then Some Unavailable
     else Some (vc_state (evaluate_variant catalog patch variant observations)))"

definition variants_in :: "catalog \<Rightarrow> ResolvedPatch \<Rightarrow> u32 \<Rightarrow> ImageObservation list \<Rightarrow> SelectionState
    \<Rightarrow> ResolvedVariant list \<Rightarrow> ResolvedVariant list" where
  "variants_in catalog patch role observations state variants =
    filter (\<lambda>variant. variant_state catalog patch role observations variant = Some state) variants"

definition ready_selection :: "catalog \<Rightarrow> ResolvedPatch \<Rightarrow> ImageObservation list \<Rightarrow> ResolvedVariant \<Rightarrow> PatchSelection" where
  "ready_selection catalog patch observations variant =
    \<lparr>ps_state = Ready, ps_variant = Some (rv_definition variant), ps_variant_index = rv_index variant,
     ps_images = vc_images (evaluate_variant catalog patch variant observations), ps_reasons = [], ps_not_applicable = False\<rparr>"

lemma evaluate_one_cases:
  "evaluate_one catalog patch role observations variant ev =
    (case variant_state catalog patch role observations variant of
       None \<Rightarrow> Inr ev
     | Some Ready \<Rightarrow>
         (case ev_ready ev of
            Some first \<Rightarrow> evaluate_one catalog patch role observations variant ev
          | None \<Rightarrow> Inr (ev\<lparr>ev_has_applicable := True, ev_ready := Some (ready_selection catalog patch observations variant)\<rparr>))
     | Some Waiting \<Rightarrow> Inr (ev\<lparr>ev_has_applicable := True,
         ev_waiting := ev_waiting ev @ vc_reasons (evaluate_variant catalog patch variant observations)\<rparr>)
     | Some Unavailable \<Rightarrow> evaluate_one catalog patch role observations variant ev)"
  using evaluate_variant_ready [of catalog patch variant observations]
  by (auto simp: evaluate_one_def variant_state_def ready_selection_def Let_def
      split: SelectionState.splits option.splits)

lemma evaluate_one_ambiguous:
  "evaluate_one catalog patch role observations variant ev = Inl s \<longleftrightarrow>
    variant_state catalog patch role observations variant = Some Ready \<and> ev_ready ev \<noteq> None \<and>
    evaluate_one catalog patch role observations variant ev = Inl s"
  by (auto simp: evaluate_one_def variant_state_def Let_def split: SelectionState.splits option.splits)

lemma evaluate_one_ambiguous_state:
  "evaluate_one catalog patch role observations variant ev = Inl s \<Longrightarrow> ps_state s = Unavailable"
  by (auto simp: evaluate_one_def no_selection_def Let_def split: SelectionState.splits option.splits if_splits)

lemma evaluate_one_ready:
  "variant_state catalog patch role observations variant = Some Ready \<Longrightarrow> ev_ready ev = None \<Longrightarrow>
   evaluate_one catalog patch role observations variant ev =
     Inr (ev\<lparr>ev_has_applicable := True, ev_ready := Some (ready_selection catalog patch observations variant)\<rparr>)"
  by (subst evaluate_one_cases) simp

lemma evaluate_one_second:
  "variant_state catalog patch role observations variant = Some Ready \<Longrightarrow> ev_ready ev = Some first \<Longrightarrow>
   \<exists>s. evaluate_one catalog patch role observations variant ev = Inl s"
  by (auto simp: evaluate_one_def variant_state_def Let_def split: SelectionState.splits option.splits if_splits)

lemma evaluate_one_other:
  "variant_state catalog patch role observations variant \<noteq> Some Ready \<Longrightarrow>
   \<exists>ev'. evaluate_one catalog patch role observations variant ev = Inr ev' \<and> ev_ready ev' = ev_ready ev \<and>
     (ev_waiting ev' \<noteq> [] \<longleftrightarrow> ev_waiting ev \<noteq> [] \<or>
       variant_state catalog patch role observations variant = Some Waiting)"
  using evaluate_variant_waiting [of catalog patch variant observations]
  by (auto simp: evaluate_one_def variant_state_def Let_def split: SelectionState.splits option.splits if_splits)

lemma evaluate_variants_none_ready:
  "variants_in catalog patch role observations Ready variants = [] \<Longrightarrow>
   \<exists>ev'. evaluate_variants catalog patch role observations variants ev = Inr ev' \<and> ev_ready ev' = ev_ready ev \<and>
     (ev_waiting ev' \<noteq> [] \<longleftrightarrow> ev_waiting ev \<noteq> [] \<or>
       variants_in catalog patch role observations Waiting variants \<noteq> [])"
proof (induction variants arbitrary: ev)
  case (Cons variant variants)
  then have "variant_state catalog patch role observations variant \<noteq> Some Ready"
    by (auto simp: variants_in_def split: if_splits)
  from evaluate_one_other [OF this, of ev] obtain ev1 where e: "evaluate_one catalog patch role observations variant ev = Inr ev1"
    "ev_ready ev1 = ev_ready ev"
    "ev_waiting ev1 \<noteq> [] \<longleftrightarrow> ev_waiting ev \<noteq> [] \<or> variant_state catalog patch role observations variant = Some Waiting" by blast
  from Cons have "variants_in catalog patch role observations Ready variants = []"
    by (auto simp: variants_in_def split: if_splits)
  from Cons.IH [OF this, of ev1] e show ?case by (auto simp: variants_in_def)
qed (simp add: variants_in_def)

lemma evaluate_variants_first_ready:
  assumes "variants_in catalog patch role observations Ready before = []"
    and "variant_state catalog patch role observations variant = Some Ready" and "ev_ready ev = None"
  shows "\<exists>ev'. evaluate_variants catalog patch role observations (before @ variant # after) ev =
      evaluate_variants catalog patch role observations after ev' \<and>
    ev_ready ev' = Some (ready_selection catalog patch observations variant)"
  using assms(1,3)
proof (induction before arbitrary: ev)
  case Nil
  show ?case
    by (intro exI [of _ "ev\<lparr>ev_has_applicable := True, ev_ready := Some (ready_selection catalog patch observations variant)\<rparr>"])
      (simp add: evaluate_one_ready [OF assms(2) Nil(2)])
next
  case (Cons v before)
  then have "variant_state catalog patch role observations v \<noteq> Some Ready"
    by (auto simp: variants_in_def split: if_splits)
  from evaluate_one_other [OF this, of ev] obtain ev1 where e: "evaluate_one catalog patch role observations v ev = Inr ev1"
    "ev_ready ev1 = ev_ready ev" by blast
  from Cons have "variants_in catalog patch role observations Ready before = []"
    by (auto simp: variants_in_def split: if_splits)
  from Cons.IH [OF this] e Cons.prems(2) show ?case by auto
qed

lemma evaluate_variants_second_ready:
  "ev_ready ev = Some first \<Longrightarrow> variants_in catalog patch role observations Ready variants \<noteq> [] \<Longrightarrow>
   \<exists>s. evaluate_variants catalog patch role observations variants ev = Inl s \<and> ps_state s = Unavailable"
proof (induction variants arbitrary: ev)
  case (Cons v variants)
  show ?case
  proof (cases "variant_state catalog patch role observations v = Some Ready")
    case True
    from evaluate_one_second [OF this Cons.prems(1)] evaluate_one_ambiguous_state show ?thesis by fastforce
  next
    case False
    from evaluate_one_other [OF False, of ev] obtain ev1 where e: "evaluate_one catalog patch role observations v ev = Inr ev1"
      "ev_ready ev1 = Some first" using Cons.prems(1) by auto
    from Cons.prems(2) False have "variants_in catalog patch role observations Ready variants \<noteq> []"
      by (simp add: variants_in_def)
    from Cons.IH [OF e(2) this] e(1) show ?thesis by simp
  qed
qed (simp add: variants_in_def)

lemma evaluate_patch_state:
  "(case variants_in catalog patch role observations Ready variants of
      [variant] \<Rightarrow> evaluate_patch catalog patch role observations variants = ready_selection catalog patch observations variant
    | [] \<Rightarrow> ps_state (evaluate_patch catalog patch role observations variants) =
        (if variants_in catalog patch role observations Waiting variants \<noteq> [] then Waiting else Unavailable)
    | _ # _ # _ \<Rightarrow> ps_state (evaluate_patch catalog patch role observations variants) = Unavailable)"
proof -
  let ?ev = "\<lparr>ev_waiting = [], ev_unavailable = [], ev_has_applicable = False, ev_only_exclusions = True, ev_ready = None\<rparr> :: evaluation"
  show ?thesis
  proof (cases "variants_in catalog patch role observations Ready variants")
    case Nil
    from evaluate_variants_none_ready [OF this, of ?ev] Nil show ?thesis
      by (auto simp: evaluate_patch_def no_selection_def)
  next
    case (Cons variant others)
    then obtain before after where split: "variants = before @ variant # after"
      "variants_in catalog patch role observations Ready before = []"
      "variant_state catalog patch role observations variant = Some Ready"
      "variants_in catalog patch role observations Ready after = others"
      unfolding variants_in_def by (auto simp: filter_eq_Cons_iff)
    from evaluate_variants_first_ready [OF split(2,3), of ?ev after] obtain ev' where
      e: "evaluate_variants catalog patch role observations variants ?ev =
          evaluate_variants catalog patch role observations after ev'"
        "ev_ready ev' = Some (ready_selection catalog patch observations variant)" unfolding split(1) by auto
    show ?thesis
    proof (cases others)
      case Nil
      with evaluate_variants_none_ready [of catalog patch role observations after ev'] split(4) e Cons
      show ?thesis by (auto simp: evaluate_patch_def)
    next
      case (Cons second rest)
      with evaluate_variants_second_ready [OF e(2), of catalog patch role observations after] split(4) e
        \<open>variants_in _ _ _ _ _ variants = _\<close>
      show ?thesis by (auto simp: evaluate_patch_def)
    qed
  qed
qed

section \<open>Properties\<close>

text \<open>C27: The declaration check is exact: two variants overlap precisely when they share a launch role
  and every image requirement of both can be given a build it accepts under one of that build's file
  names, with no file name standing for two builds. Backtracking misses no such choice and reports
  none that does not exist.\<close>

theorem variants_overlap_exact:
  "variants_overlap catalog left right \<longleftrightarrow>
    fv_role (rv_definition left) AND fv_role (rv_definition right) \<noteq> 0 \<and>
    (\<exists>names. list_all2 (choice_of catalog) names (map rr_profiles (rv_images left @ rv_images right)) \<and>
      consistent names)"
  unfolding compatible_search [of "rv_images left @ rv_images right" catalog, symmetric]
  by (auto simp: variants_overlap_def)

text \<open>An image label is ready exactly when some observation shows a build it accepts and all such
  observations are the same physical image, aliases of one mapping counted once; absent hints and
  failed inspections elsewhere do not matter then.\<close>

theorem requirement_ready_exact:
  "re_state (evaluate_requirement catalog patch requirement observations) = Ready \<longleftrightarrow>
    (\<exists>index. unique_image observations (matches observations (rr_profiles requirement)) index)"
  by (rule requirement_ready_iff)

text \<open>C26: A patch is ready exactly when exactly one of its variants is, and the selection is then that
  variant with one accepted binding for each of its labels, in declaration order, and no reasons;
  with no ready variant it waits exactly when some variant waits, and two ready variants, or none of
  either kind, leave it unavailable.\<close>

theorem patch_selection_exact:
  "(case variants_in catalog patch role observations Ready variants of
      [variant] \<Rightarrow>
        (\<exists>bindings. evaluate_patch catalog patch role observations variants =
           \<lparr>ps_state = Ready, ps_variant = Some (rv_definition variant), ps_variant_index = rv_index variant,
            ps_images = bindings, ps_reasons = [], ps_not_applicable = False\<rparr> \<and>
          list_all2 (binding_ok observations) (rv_images variant) bindings)
    | [] \<Rightarrow> ps_state (evaluate_patch catalog patch role observations variants) =
        (if variants_in catalog patch role observations Waiting variants \<noteq> [] then Waiting else Unavailable)
    | _ # _ # _ \<Rightarrow> ps_state (evaluate_patch catalog patch role observations variants) = Unavailable)"
proof -
  have "list_all2 (binding_ok observations) (rv_images variant) (vc_images (evaluate_variant catalog patch variant observations))"
    if "variants_in catalog patch role observations Ready variants = [variant]" for variant
  proof -
    have "variant \<in> set (variants_in catalog patch role observations Ready variants)" using that by simp
    then have "variant_state catalog patch role observations variant = Some Ready" by (simp add: variants_in_def)
    then have "vc_state (evaluate_variant catalog patch variant observations) = Ready"
      by (simp add: variant_state_def split: if_splits)
    from evaluate_variant_ready [OF this] show ?thesis by blast
  qed
  then show ?thesis
    using evaluate_patch_state [of catalog patch role observations variants]
    by (auto simp: ready_selection_def split: list.splits)
qed

end
