(* ===== verification/Patch_Records.thy ===== *)
theory Patch_Records
  imports Patch_Selection Runtime_Settings
begin

unbundle bit_operations_syntax

text \<open>
  Patch records and their dependencies (\<open>runtime/src/patches/patch_record.hpp\<close>, \<open>dependency.cpp\<close>): the
  effective controls of a plugin's patches, the resolution of references to providers, and the depth
  first pass that fails cycles and hands waiting and failed states on to consumers. A record is
  identified by its position in the session, as its address identifies it in the code.
\<close>

section \<open>Records\<close>

datatype PatchState = PDisabled | PWaiting | PPlanning | PPreparing | PInstalled | PFailed

fun state_name :: "PatchState \<Rightarrow> string" where
  "state_name PDisabled = ''Disabled''"
| "state_name PWaiting = ''Waiting''"
| "state_name PPlanning = ''Planning''"
| "state_name PPreparing = ''Preparing''"
| "state_name PInstalled = ''Installed''"
| "state_name PFailed = ''Failed''"

datatype ControlSource = SourceDefault | SourcePatch | SourceGroup

fun control_source_name :: "ControlSource \<Rightarrow> string" where
  "control_source_name SourceDefault = ''patch default''"
| "control_source_name SourcePatch = ''patch INI''"
| "control_source_name SourceGroup = ''group''"

record ControlOverride =
  co_local_id :: string
  co_enabled :: bool

record PatchControl =
  pc_enabled :: bool
  pc_source :: ControlSource

text \<open>A captured variant is the position of its patch in the plugin and of the variant in the patch.\<close>

record CapturedVariantSettings =
  cv_patch :: nat
  cv_variant :: nat
  cv_values :: "ScalarValue list"

record PluginConfiguration =
  pg_controls :: "PatchControl list"
  pg_variants :: "CapturedVariantSettings list"
  pg_warnings :: "Diagnostic list"

record PluginRecord =
  pl_admitted :: AdmittedPlugin
  pl_configuration :: "PluginConfiguration option"
  pl_failure :: "Diagnostic option"

text \<open>\<open>pr_internal\<close> holds the name of a runtime integration, which has no definition; \<open>pr_index\<close> is the position of the patch in
  its plugin's declaration, from which the code computes the same index by pointer subtraction.\<close>

record PatchRecord =
  pr_plugin :: nat
  pr_index :: nat
  pr_definition :: FC_Patch
  pr_internal :: "string option"
  pr_resolved :: "ResolvedPatch option"
  pr_selection :: PatchSelection
  pr_enabled :: bool
  pr_selected_for_startup :: bool
  pr_state :: PatchState
  pr_reason :: string
  pr_providers :: "nat list"

record SelectionSession =
  ss_catalog :: catalog
  ss_role :: u32
  ss_plugins :: "PluginRecord list"
  ss_patches :: "PatchRecord list"
  ss_diagnostics :: "Diagnostic list"
  ss_fatal :: bool

definition session_plugin :: "SelectionSession \<Rightarrow> nat \<Rightarrow> FC_Plugin" where
  "session_plugin session plugin = ap_definition (pl_admitted (ss_plugins session ! plugin))"

definition qualified_patch_id :: "SelectionSession \<Rightarrow> PatchRecord \<Rightarrow> string" where
  "qualified_patch_id session patch =
    (case pr_internal patch of
       Some name \<Rightarrow> name
     | None \<Rightarrow> fl_id (session_plugin session (pr_plugin patch)) @ ''.'' @ fp_id (pr_definition patch))"

definition failure_policy :: "PatchRecord \<Rightarrow> u32" where
  "failure_policy patch =
    (case ps_variant (pr_selection patch) of
       Some variant \<Rightarrow> fv_failure_policy variant
     | None \<Rightarrow> if pr_internal patch = None then fp_failure_policy (pr_definition patch) else FC_FAILURE_CONTINUE)"

section \<open>Controls\<close>

definition find_override :: "ControlOverride list \<Rightarrow> string \<Rightarrow> ControlOverride option" where
  "find_override overrides ident = List.find (\<lambda>entry. equal_id (co_local_id entry) ident) overrides"

definition has_member :: "FC_Group \<Rightarrow> string \<Rightarrow> bool" where
  "has_member grp ident \<longleftrightarrow> list_ex (\<lambda>member. equal_id member ident) (fg_members grp)"

definition resolve_control :: "FC_Plugin \<Rightarrow> ControlOverride list \<Rightarrow> FC_Patch \<Rightarrow> PatchControl" where
  "resolve_control declaration overrides patch =
    (let enabled = fp_enabled patch \<noteq> 0
     in if fp_configurable patch \<noteq> 0 then
          (case find_override overrides (fp_id patch) of
             Some entry \<Rightarrow> \<lparr>pc_enabled = co_enabled entry, pc_source = SourcePatch\<rparr>
           | None \<Rightarrow> \<lparr>pc_enabled = enabled, pc_source = SourceDefault\<rparr>)
        else
          (case List.find (\<lambda>grp. fg_configurable grp \<noteq> 0 \<and> has_member grp (fp_id patch))
                  (fl_groups declaration) of
             None \<Rightarrow> \<lparr>pc_enabled = enabled, pc_source = SourceDefault\<rparr>
           | Some grp \<Rightarrow>
               \<lparr>pc_enabled = (case find_override overrides (fg_id grp) of
                    Some entry \<Rightarrow> co_enabled entry | None \<Rightarrow> fg_enabled grp \<noteq> 0),
                pc_source = SourceGroup\<rparr>))"

definition resolve_controls :: "FC_Plugin \<Rightarrow> ControlOverride list \<Rightarrow> PatchControl list" where
  "resolve_controls declaration overrides = map (resolve_control declaration overrides) (fl_patches declaration)"

section \<open>References\<close>

definition split_reference :: "FC_Plugin \<Rightarrow> string \<Rightarrow> string \<times> string" where
  "split_reference own reference =
    (case split_at CHR ''.'' reference of
       None \<Rightarrow> (fl_id own, reference)
     | Some (plugin_id, local_id) \<Rightarrow> (plugin_id, local_id))"

text \<open>The position of the first record that satisfies a predicate.\<close>

definition find_index :: "('a \<Rightarrow> bool) \<Rightarrow> 'a list \<Rightarrow> nat option" where
  "find_index P xs = (let n = length (takeWhile (\<lambda>x. \<not> P x) xs) in if n < length xs then Some n else None)"

definition add_provider :: "SelectionSession \<Rightarrow> nat \<Rightarrow> string \<Rightarrow> PatchRecord \<Rightarrow> bool \<times> PatchRecord" where
  "add_provider session plugin ident consumer =
    (case find_index (\<lambda>patch. pr_plugin patch = plugin \<and> equal_id (fp_id (pr_definition patch)) ident)
            (ss_patches session) of
       None \<Rightarrow> (False, consumer)
     | Some provider \<Rightarrow>
         (True, if provider \<in> set (pr_providers consumer) then consumer
                else consumer\<lparr>pr_providers := pr_providers consumer @ [provider]\<rparr>))"

fun add_members :: "SelectionSession \<Rightarrow> nat \<Rightarrow> string list \<Rightarrow> PatchRecord \<Rightarrow> PatchRecord" where
  "add_members session plugin [] consumer = consumer"
| "add_members session plugin (member # members) consumer =
     add_members session plugin members (snd (add_provider session plugin member consumer))"

definition fail_reference :: "string \<Rightarrow> string \<Rightarrow> PatchRecord \<Rightarrow> PatchRecord" where
  "fail_reference reference detail consumer =
    (if pr_state consumer \<noteq> PFailed
     then consumer\<lparr>pr_state := PFailed, pr_reason := ''dependency '' @ quoted reference @ '' '' @ detail\<rparr>
     else consumer)"

definition add_reference :: "SelectionSession \<Rightarrow> string \<Rightarrow> PatchRecord \<Rightarrow> PatchRecord" where
  "add_reference session reference consumer =
    (case split_reference (session_plugin session (pr_plugin consumer)) reference of
       (plugin_id, local_id) \<Rightarrow>
         (case find_index (\<lambda>plugin. equal_id (fl_id (ap_definition (pl_admitted plugin))) plugin_id) (ss_plugins session) of
            None \<Rightarrow> fail_reference reference ''refers to a missing plugin'' consumer
          | Some plugin \<Rightarrow>
              (case add_provider session plugin local_id consumer of
                 (True, consumer') \<Rightarrow> consumer'
               | (False, _) \<Rightarrow>
                   (case List.find (\<lambda>grp. equal_id (fg_id grp) local_id) (fl_groups (session_plugin session plugin)) of
                      None \<Rightarrow> fail_reference reference ''does not match a patch or group'' consumer
                    | Some grp \<Rightarrow> add_members session plugin (fg_members grp) consumer))))"

fun add_references :: "SelectionSession \<Rightarrow> string list \<Rightarrow> PatchRecord \<Rightarrow> PatchRecord" where
  "add_references session [] consumer = consumer"
| "add_references session (reference # references) consumer =
     add_references session references (add_reference session reference consumer)"

definition variant_references :: "PatchRecord \<Rightarrow> string list" where
  "variant_references patch =
    (if ps_state (pr_selection patch) = Ready
     then (case ps_variant (pr_selection patch) of Some variant \<Rightarrow> fv_depends_on variant | None \<Rightarrow> [])
     else [])"

definition rebuild_providers :: "SelectionSession \<Rightarrow> PatchRecord \<Rightarrow> PatchRecord" where
  "rebuild_providers session patch =
    (if \<not> pr_enabled patch \<or> pr_state patch = PInstalled \<or> pr_state patch = PFailed then patch
     else add_references session (fp_depends_on (pr_definition patch) @ variant_references patch)
            (patch\<lparr>pr_providers := []\<rparr>))"

text \<open>The loop over the records: references are looked up by plugin and identifier only, which no turn
  changes, so every record sees the session as it was.\<close>

definition rebuild_session :: "SelectionSession \<Rightarrow> SelectionSession" where
  "rebuild_session session = session\<lparr>ss_patches := map (rebuild_providers session) (ss_patches session)\<rparr>"

section \<open>The depth first pass\<close>

definition terminal_state :: "PatchState \<Rightarrow> bool" where
  "terminal_state state \<longleftrightarrow> state = PDisabled \<or> state = PInstalled \<or> state = PFailed"

record visit_state =
  vs_patches :: "PatchRecord list"
  vs_visited :: "nat list"

text \<open>The part of the current chain from the first occurrence of a record on.\<close>

definition chain_from :: "nat \<Rightarrow> nat list \<Rightarrow> nat list" where
  "chain_from patch active = dropWhile (\<lambda>other. other \<noteq> patch) active"

definition cycle_text :: "(nat \<Rightarrow> string) \<Rightarrow> nat list \<Rightarrow> nat \<Rightarrow> string" where
  "cycle_text name cycle patch = concat (map (\<lambda>current. name current @ '' -> '') cycle) @ name patch"

fun fail_cycle :: "string \<Rightarrow> nat list \<Rightarrow> PatchRecord list \<Rightarrow> PatchRecord list" where
  "fail_cycle chain [] patches = patches"
| "fail_cycle chain (current # cycle) patches =
     fail_cycle chain cycle
       (patches[current := (patches ! current)\<lparr>pr_state := PFailed, pr_reason := ''dependency cycle: '' @ chain\<rparr>])"

text \<open>What one visited provider does to its consumer, and the provider the consumer waits for.\<close>

definition apply_provider :: "(nat \<Rightarrow> string) \<Rightarrow> nat \<Rightarrow> nat \<Rightarrow> nat option \<Rightarrow> PatchRecord list
    \<Rightarrow> nat option \<times> PatchRecord list" where
  "apply_provider name patch provider waiting patches =
    (if pr_state (patches ! patch) = PFailed then (waiting, patches)
     else if pr_state (patches ! provider) = PDisabled \<or> pr_state (patches ! provider) = PFailed
     then (waiting, patches[patch := (patches ! patch)\<lparr>pr_state := PFailed,
             pr_reason := ''dependency '' @ [CHR 0x27] @ name provider @
               (if pr_state (patches ! provider) = PDisabled then [CHR 0x27] @ '' is disabled''
                else [CHR 0x27] @ '' failed'')\<rparr>])
     else if pr_state (patches ! provider) = PWaiting \<and> waiting = None then (Some provider, patches)
     else (waiting, patches))"

definition apply_waiting :: "(nat \<Rightarrow> string) \<Rightarrow> nat \<Rightarrow> nat option \<Rightarrow> PatchRecord list \<Rightarrow> PatchRecord list" where
  "apply_waiting name patch waiting patches =
    (case waiting of
       None \<Rightarrow> patches
     | Some provider \<Rightarrow>
         (if pr_state (patches ! patch) \<noteq> PFailed
          then patches[patch := (patches ! patch)\<lparr>pr_state := PWaiting,
                 pr_reason := ''dependency '' @ quoted (name provider) @ '' is waiting: '' @
                   pr_reason (patches ! provider)\<rparr>]
          else patches))"

text \<open>
  \<open>visit\<close> and its loop over the providers. The chain \<open>active\<close> grows by one record with each nested
  call and no record is in it twice, so the number of records outside it decreases: the recursion is
  bounded by the number of records \<open>n\<close>. Positions outside the session do not occur in the code, whose
  provider pointers always point at records.
\<close>

definition outside :: "nat \<Rightarrow> nat list \<Rightarrow> nat" where
  "outside n active = card ({..<n} - set active)"

lemma outside_decreases:
  assumes "patch < n" and "patch \<notin> set active"
  shows "outside n (active @ [patch]) < outside n active"
proof -
  have "{..<n} - set (active @ [patch]) \<subset> {..<n} - set active" using assms by auto
  then show ?thesis unfolding outside_def by (intro psubset_card_mono) auto
qed

function (sequential) visit :: "(nat \<Rightarrow> string) \<Rightarrow> nat \<Rightarrow> nat list \<Rightarrow> nat \<Rightarrow> visit_state \<Rightarrow> visit_state"
  and visit_providers :: "(nat \<Rightarrow> string) \<Rightarrow> nat \<Rightarrow> nat list \<Rightarrow> nat \<Rightarrow> nat list \<Rightarrow> nat option
    \<Rightarrow> visit_state \<Rightarrow> nat option \<times> visit_state" where
  "visit name n active patch st =
    (if patch \<ge> n \<or> terminal_state (pr_state (vs_patches st ! patch)) \<or> patch \<in> set (vs_visited st) then st
     else if patch \<in> set active
     then st\<lparr>vs_patches := fail_cycle (cycle_text name (chain_from patch active) patch) (chain_from patch active)
               (vs_patches st)\<rparr>
     else
       (case visit_providers name n (active @ [patch]) patch (pr_providers (vs_patches st ! patch)) None st of
          (waiting, st') \<Rightarrow>
            st'\<lparr>vs_patches := apply_waiting name patch waiting (vs_patches st'),
                vs_visited := vs_visited st' @ [patch]\<rparr>))"
| "visit_providers name n active patch [] waiting st = (waiting, st)"
| "visit_providers name n active patch (provider # providers) waiting st =
     (let st1 = visit name n active provider st;
          (waiting', patches) = apply_provider name patch provider waiting (vs_patches st1)
      in visit_providers name n active patch providers waiting' (st1\<lparr>vs_patches := patches\<rparr>))"
  by pat_completeness auto

termination
proof (relation "measures [\<lambda>call. case call of Inl (name, n, active, patch, st) \<Rightarrow> outside n active
      | Inr (name, n, active, patch, providers, waiting, st) \<Rightarrow> outside n active,
    \<lambda>call. case call of Inl _ \<Rightarrow> 0 | Inr (name, n, active, patch, providers, waiting, st) \<Rightarrow> Suc (length providers)]",
    goal_cases)
  case (2 name n active patch st)
  then show ?case using outside_decreases [of patch n active] by auto
qed auto

declare visit.simps [simp del] visit_providers.simps [simp del]

fun visit_all :: "(nat \<Rightarrow> string) \<Rightarrow> nat \<Rightarrow> nat list \<Rightarrow> visit_state \<Rightarrow> visit_state" where
  "visit_all name n [] st = st"
| "visit_all name n (patch # patches) st = visit_all name n patches (visit name n [] patch st)"

definition fatal_failure :: "PatchRecord \<Rightarrow> bool" where
  "fatal_failure patch \<longleftrightarrow> pr_state patch = PFailed \<and> pr_selected_for_startup patch \<and>
    failure_policy patch = FC_FAILURE_FATAL"

definition visit_session :: "SelectionSession \<Rightarrow> visit_state" where
  "visit_session session =
    visit_all (\<lambda>patch. qualified_patch_id session (ss_patches session ! patch)) (length (ss_patches session))
      [0..<length (ss_patches session)] \<lparr>vs_patches = ss_patches session, vs_visited = []\<rparr>"

definition resolve_dependencies :: "SelectionSession \<Rightarrow> SelectionSession" where
  "resolve_dependencies session =
    (let rebuilt = rebuild_session session; patches = vs_patches (visit_session rebuilt)
     in rebuilt\<lparr>ss_patches := patches, ss_fatal := (ss_fatal rebuilt \<or> list_ex fatal_failure patches)\<rparr>)"

end
