(* ===== verification/Dependency_Laws.thy ===== *)
theory Dependency_Laws
  imports Patch_Records
begin

text \<open>
  What the depth first pass guarantees. Each call keeps the invariant \<open>good\<close>: the records on the
  current chain are unfinished, and every finished record that has not failed has only providers that
  are installed or finished before it, none of them disabled or failed, and waits when one of them
  waits. A record fails only for a reason: a disabled or failed provider, or a cycle it is on.
\<close>

section \<open>States and frames\<close>

abbreviation state_of :: "visit_state \<Rightarrow> nat \<Rightarrow> PatchState" where
  "state_of st patch \<equiv> pr_state (vs_patches st ! patch)"

abbreviation providers_of :: "visit_state \<Rightarrow> nat \<Rightarrow> nat list" where
  "providers_of st patch \<equiv> pr_providers (vs_patches st ! patch)"

definition fixed_state :: "PatchState \<Rightarrow> bool" where
  "fixed_state state \<longleftrightarrow> state = PDisabled \<or> state = PInstalled"

text \<open>All that a pass may change of a record is its state and its reason.\<close>

definition same_records :: "visit_state \<Rightarrow> visit_state \<Rightarrow> bool" where
  "same_records st st' \<longleftrightarrow>
    map (\<lambda>p. p\<lparr>pr_state := PFailed, pr_reason := []\<rparr>) (vs_patches st') =
    map (\<lambda>p. p\<lparr>pr_state := PFailed, pr_reason := []\<rparr>) (vs_patches st)"

lemma same_records_length: "same_records st st' \<Longrightarrow> length (vs_patches st') = length (vs_patches st)"
  unfolding same_records_def by (metis length_map)

lemma same_records_nth:
  assumes "same_records st st'" and "p < length (vs_patches st)"
  shows "(vs_patches st' ! p)\<lparr>pr_state := PFailed, pr_reason := []\<rparr> = (vs_patches st ! p)\<lparr>pr_state := PFailed, pr_reason := []\<rparr>"
proof -
  have "map (\<lambda>p. p\<lparr>pr_state := PFailed, pr_reason := []\<rparr>) (vs_patches st') ! p =
      map (\<lambda>p. p\<lparr>pr_state := PFailed, pr_reason := []\<rparr>) (vs_patches st) ! p"
    using assms(1) by (simp add: same_records_def)
  then show ?thesis using assms same_records_length [OF assms(1)] by simp
qed

lemma same_records_providers:
  assumes "same_records st st'" and "p < length (vs_patches st)"
  shows "providers_of st' p = providers_of st p"
proof -
  have "pr_providers ((vs_patches st' ! p)\<lparr>pr_state := PFailed, pr_reason := []\<rparr>) =
      pr_providers ((vs_patches st ! p)\<lparr>pr_state := PFailed, pr_reason := []\<rparr>)"
    using same_records_nth [OF assms] by simp
  then show ?thesis by simp
qed

lemma same_records_refl [simp]: "same_records st st"
  by (simp add: same_records_def)

lemma same_records_trans: "same_records st st' \<Longrightarrow> same_records st' st'' \<Longrightarrow> same_records st st''"
  by (simp add: same_records_def)

definition earlier :: "nat list \<Rightarrow> nat \<Rightarrow> nat set" where
  "earlier order patch = set (takeWhile (\<lambda>p. p \<noteq> patch) order)"

lemma earlier_append: "patch \<in> set order \<Longrightarrow> earlier (order @ rest) patch = earlier order patch"
  by (simp add: earlier_def takeWhile_append1 [of patch])

lemma earlier_last: "patch \<notin> set order \<Longrightarrow> earlier (order @ [patch]) patch = set order"
proof -
  assume "patch \<notin> set order"
  then have "takeWhile (\<lambda>p. p \<noteq> patch) (order @ [patch]) = order"
    by (subst takeWhile_append2) auto
  then show ?thesis by (simp add: earlier_def)
qed

section \<open>The invariant\<close>

definition settled :: "visit_state \<Rightarrow> nat \<Rightarrow> bool" where
  "settled st patch \<longleftrightarrow> state_of st patch = PFailed \<or>
    (\<forall>q \<in> set (providers_of st patch).
       state_of st q \<noteq> PDisabled \<and> state_of st q \<noteq> PFailed \<and>
       (state_of st q = PWaiting \<longrightarrow> state_of st patch = PWaiting) \<and>
       (state_of st q = PInstalled \<or> q \<in> earlier (vs_visited st) patch))"

definition good :: "nat \<Rightarrow> nat list \<Rightarrow> visit_state \<Rightarrow> bool" where
  "good n active st \<longleftrightarrow>
    length (vs_patches st) = n \<and> distinct (vs_visited st) \<and> distinct active \<and>
    set (vs_visited st) \<union> set active \<subseteq> {..<n} \<and> set (vs_visited st) \<inter> set active = {} \<and>
    (\<forall>p < n. set (providers_of st p) \<subseteq> {..<n}) \<and>
    (\<forall>p \<in> set (vs_visited st). settled st p \<and> \<not> fixed_state (state_of st p)) \<and>
    (\<forall>p \<in> set active. \<not> fixed_state (state_of st p))"

definition grows :: "nat list \<Rightarrow> visit_state \<Rightarrow> visit_state \<Rightarrow> bool" where
  "grows active st st' \<longleftrightarrow> same_records st st' \<and>
    (\<exists>new. vs_visited st' = vs_visited st @ new \<and>
       (\<forall>p. p \<notin> set new \<and> p \<notin> set active \<longrightarrow> state_of st' p = state_of st p)) \<and>
    (\<forall>p \<in> set active. state_of st' p = state_of st p \<or> state_of st' p = PFailed) \<and>
    (\<forall>p. fixed_state (state_of st p) \<or> state_of st p = PFailed \<longrightarrow> state_of st' p = state_of st p) \<and>
    (\<forall>p. fixed_state (state_of st' p) \<longrightarrow> state_of st p = state_of st' p)"

lemma growsI:
  assumes "same_records st st'" and "vs_visited st' = vs_visited st @ new"
    and "\<And>p. p \<notin> set new \<Longrightarrow> p \<notin> set active \<Longrightarrow> state_of st' p = state_of st p"
    and "\<And>p. p \<in> set active \<Longrightarrow> state_of st' p = state_of st p \<or> state_of st' p = PFailed"
    and "\<And>p. fixed_state (state_of st p) \<or> state_of st p = PFailed \<Longrightarrow> state_of st' p = state_of st p"
    and "\<And>p. fixed_state (state_of st' p) \<Longrightarrow> state_of st p = state_of st' p"
  shows "grows active st st'"
  unfolding grows_def using assms by blast

lemma growsE:
  assumes "grows active st st'"
  obtains new where "same_records st st'" "vs_visited st' = vs_visited st @ new"
    "\<And>p. p \<notin> set new \<Longrightarrow> p \<notin> set active \<Longrightarrow> state_of st' p = state_of st p"
    "\<And>p. p \<in> set active \<Longrightarrow> state_of st' p = state_of st p \<or> state_of st' p = PFailed"
    "\<And>p. fixed_state (state_of st p) \<or> state_of st p = PFailed \<Longrightarrow> state_of st' p = state_of st p"
    "\<And>p. fixed_state (state_of st' p) \<Longrightarrow> state_of st p = state_of st' p"
  using assms unfolding grows_def by blast

lemma grows_refl [simp]: "grows active st st"
  by (rule growsI [of _ _ "[]"]) simp_all

lemma grows_trans:
  assumes "grows active st st'" and "grows active st' st''"
  shows "grows active st st''"
proof -
  obtain new where a: "same_records st st'" "vs_visited st' = vs_visited st @ new"
    "\<And>p. p \<notin> set new \<Longrightarrow> p \<notin> set active \<Longrightarrow> state_of st' p = state_of st p"
    "\<And>p. p \<in> set active \<Longrightarrow> state_of st' p = state_of st p \<or> state_of st' p = PFailed"
    "\<And>p. fixed_state (state_of st p) \<or> state_of st p = PFailed \<Longrightarrow> state_of st' p = state_of st p"
    "\<And>p. fixed_state (state_of st' p) \<Longrightarrow> state_of st p = state_of st' p"
    using growsE [OF assms(1)] by blast
  obtain new' where b: "same_records st' st''" "vs_visited st'' = vs_visited st' @ new'"
    "\<And>p. p \<notin> set new' \<Longrightarrow> p \<notin> set active \<Longrightarrow> state_of st'' p = state_of st' p"
    "\<And>p. p \<in> set active \<Longrightarrow> state_of st'' p = state_of st' p \<or> state_of st'' p = PFailed"
    "\<And>p. fixed_state (state_of st' p) \<or> state_of st' p = PFailed \<Longrightarrow> state_of st'' p = state_of st' p"
    "\<And>p. fixed_state (state_of st'' p) \<Longrightarrow> state_of st' p = state_of st'' p"
    using growsE [OF assms(2)] by blast
  show ?thesis
  proof (rule growsI [of _ _ "new @ new'"])
    show "same_records st st''" using a(1) b(1) by (rule same_records_trans)
    show "vs_visited st'' = vs_visited st @ new @ new'" using a(2) b(2) by (simp only: append_assoc)
    show "state_of st'' p = state_of st p" if "p \<notin> set (new @ new')" "p \<notin> set active" for p
      using a(3) [of p] b(3) [of p] that by (metis Un_iff set_append)
    show "state_of st'' p = state_of st p \<or> state_of st'' p = PFailed" if "p \<in> set active" for p
      using a(4) [OF that] b(4) [OF that] by metis
    show "state_of st'' p = state_of st p" if "fixed_state (state_of st p) \<or> state_of st p = PFailed" for p
      using a(5) [OF that] b(5) [of p] that by metis
    show "state_of st p = state_of st'' p" if "fixed_state (state_of st'' p)" for p
      using b(6) [OF that] a(6) [of p] that by metis
  qed
qed

lemma grows_visited: "grows active st st' \<Longrightarrow> set (vs_visited st) \<subseteq> set (vs_visited st')"
proof -
  assume "grows active st st'"
  then obtain new where "vs_visited st' = vs_visited st @ new" unfolding grows_def by blast
  then show ?thesis by simp
qed

lemma grows_state_visited:
  assumes "grows active st st'" and "good n active st'" and "p \<in> set (vs_visited st)"
  shows "state_of st' p = state_of st p"
proof -
  from assms(1) obtain new where new: "vs_visited st' = vs_visited st @ new"
    "\<forall>p. p \<notin> set new \<and> p \<notin> set active \<longrightarrow> state_of st' p = state_of st p" unfolding grows_def by blast
  have "p \<notin> set new" "p \<notin> set active" using assms(2,3) new(1) by (auto simp: good_def)
  with new(2) show ?thesis by blast
qed

text \<open>Changing only records of the chain, to states that are not fixed, keeps the invariant.\<close>

lemma good_change_active:
  assumes "good n active st" and "same_records st st'" and "vs_visited st' = vs_visited st"
    and "\<And>p. p \<notin> set active \<Longrightarrow> state_of st' p = state_of st p"
    and "\<And>p. p \<in> set active \<Longrightarrow> \<not> fixed_state (state_of st' p)"
  shows "good n active st'"
proof -
  have n: "length (vs_patches st) = n" using assms(1) by (simp add: good_def)
  have prov: "p < n \<Longrightarrow> providers_of st' p = providers_of st p" for p
    using same_records_providers [OF assms(2)] n by simp
  have "settled st' p" if p: "p \<in> set (vs_visited st)" for p
  proof -
    have pn: "p < n" "p \<notin> set active" and s: "settled st p" using assms(1) p by (auto simp: good_def)
    have state: "state_of st' p = state_of st p" by (rule assms(4) [OF pn(2)])
    show ?thesis
    proof (cases "state_of st p = PFailed")
      case True
      with state show ?thesis by (simp add: settled_def)
    next
      case False
      have "state_of st' q = state_of st q" if q: "q \<in> set (providers_of st p)" for q
      proof -
        have "state_of st q = PInstalled \<or> q \<in> earlier (vs_visited st) p"
          using s False q by (auto simp: settled_def)
        then have "q \<notin> set active"
        proof
          assume "state_of st q = PInstalled"
          then show ?thesis using assms(1) by (auto simp: good_def fixed_state_def)
        next
          assume "q \<in> earlier (vs_visited st) p"
          then have "q \<in> set (vs_visited st)" by (auto simp: earlier_def dest: set_takeWhileD)
          then show ?thesis using assms(1) by (auto simp: good_def)
        qed
        then show ?thesis by (rule assms(4))
      qed
      with s False state prov [OF pn(1)] assms(3) show ?thesis by (simp add: settled_def)
    qed
  qed
  moreover have "\<not> fixed_state (state_of st' p)" if "p \<in> set (vs_visited st)" for p
  proof -
    have "p \<notin> set active" "\<not> fixed_state (state_of st p)" using assms(1) that by (auto simp: good_def)
    with assms(4) [of p] show ?thesis by simp
  qed
  ultimately show ?thesis
    using assms(1,3,5) prov same_records_length [OF assms(2)] by (simp add: good_def)
qed

section \<open>Failing a cycle\<close>

lemma fail_cycle_effect:
  "set cycle \<subseteq> {..<length patches} \<Longrightarrow>
   length (fail_cycle chain cycle patches) = length patches \<and>
   map (\<lambda>p. p\<lparr>pr_state := PFailed, pr_reason := []\<rparr>) (fail_cycle chain cycle patches) =
     map (\<lambda>p. p\<lparr>pr_state := PFailed, pr_reason := []\<rparr>) patches \<and>
   (\<forall>p. pr_state (fail_cycle chain cycle patches ! p) = (if p \<in> set cycle then PFailed else pr_state (patches ! p)))"
proof (induction chain cycle patches rule: fail_cycle.induct)
  case (2 chain current cycle patches)
  let ?u = "patches[current := (patches ! current)\<lparr>pr_state := PFailed, pr_reason := ''dependency cycle: '' @ chain\<rparr>]"
  have c: "current < length patches" using 2(2) by simp
  have m: "map (\<lambda>p. p\<lparr>pr_state := PFailed, pr_reason := []\<rparr>) ?u = map (\<lambda>p. p\<lparr>pr_state := PFailed, pr_reason := []\<rparr>) patches"
    using c by (intro nth_equalityI) (auto simp: nth_list_update)
  have "pr_state (?u ! p) = (if p = current then PFailed else pr_state (patches ! p))" for p
    using c by (simp add: nth_list_update)
  with 2 m show ?case by simp
qed simp

lemma chain_from_subset: "set (chain_from patch active) \<subseteq> set active"
  unfolding chain_from_def by (rule set_dropWhileD [THEN subsetI])

lemma chain_from_hd: "patch \<in> set active \<Longrightarrow> \<exists>rest. chain_from patch active = patch # rest"
  unfolding chain_from_def by (induction active) auto

section \<open>One provider\<close>

lemma apply_provider_frame:
  assumes "patch < length patches" and "apply_provider name patch provider waiting patches = (waiting', patches')"
  shows "map (\<lambda>p. p\<lparr>pr_state := PFailed, pr_reason := []\<rparr>) patches' = map (\<lambda>p. p\<lparr>pr_state := PFailed, pr_reason := []\<rparr>) patches"
    and "\<And>p. p \<noteq> patch \<Longrightarrow> patches' ! p = patches ! p"
    and "pr_state (patches' ! patch) = pr_state (patches ! patch) \<or> pr_state (patches' ! patch) = PFailed"
  using assms
  by (auto simp: apply_provider_def nth_list_update map_update intro!: nth_equalityI split: if_splits)

lemma apply_provider_result:
  assumes "patch < length patches" and "patch \<noteq> provider \<or> pr_state (patches ! patch) = PFailed"
    and "apply_provider name patch provider waiting patches = (waiting', patches')"
    and "pr_state (patches' ! patch) \<noteq> PFailed"
  shows "patches' = patches \<and> pr_state (patches ! provider) \<noteq> PDisabled \<and> pr_state (patches ! provider) \<noteq> PFailed \<and>
    (pr_state (patches ! provider) = PWaiting \<longrightarrow> waiting' \<noteq> None) \<and> (waiting \<noteq> None \<longrightarrow> waiting' \<noteq> None)"
  using assms by (auto simp: apply_provider_def split: if_splits)

lemma apply_waiting_frame:
  assumes "patch < length patches"
  shows "map (\<lambda>p. p\<lparr>pr_state := PFailed, pr_reason := []\<rparr>) (apply_waiting name patch waiting patches) =
      map (\<lambda>p. p\<lparr>pr_state := PFailed, pr_reason := []\<rparr>) patches"
    and "\<And>p. p \<noteq> patch \<Longrightarrow> apply_waiting name patch waiting patches ! p = patches ! p"
    and "pr_state (apply_waiting name patch waiting patches ! patch) =
      (if pr_state (patches ! patch) = PFailed then PFailed else if waiting \<noteq> None then PWaiting
       else pr_state (patches ! patch))"
  using assms
  by (auto simp: apply_waiting_def nth_list_update map_update intro!: nth_equalityI split: option.splits)

section \<open>The recursion\<close>

text \<open>The providers the consumer has examined so far, while it has not failed.\<close>

definition examined :: "nat \<Rightarrow> nat set \<Rightarrow> nat option \<Rightarrow> visit_state \<Rightarrow> bool" where
  "examined patch seen waiting st \<longleftrightarrow> state_of st patch = PFailed \<or>
    (\<forall>q \<in> seen. state_of st q \<noteq> PDisabled \<and> state_of st q \<noteq> PFailed \<and>
       (state_of st q = PInstalled \<or> q \<in> set (vs_visited st)) \<and>
       (state_of st q = PWaiting \<longrightarrow> waiting \<noteq> None))"

lemma examined_grows:
  assumes "examined patch seen waiting st" and "grows active st st'" and "good n active st'"
  shows "examined patch seen waiting st'"
proof (cases "state_of st patch = PFailed")
  case True
  with growsE [OF assms(2)] have "state_of st' patch = PFailed" by metis
  then show ?thesis by (simp add: examined_def)
next
  case False
  have "state_of st' q = state_of st q" if "q \<in> seen" for q
  proof -
    have "state_of st q = PInstalled \<or> q \<in> set (vs_visited st)"
      using assms(1) False that by (auto simp: examined_def)
    then show ?thesis
    proof
      assume "state_of st q = PInstalled"
      then have "fixed_state (state_of st q)" by (simp add: fixed_state_def)
      then show ?thesis using growsE [OF assms(2)] by blast
    next
      assume "q \<in> set (vs_visited st)"
      then show ?thesis using grows_state_visited [OF assms(2,3)] by blast
    qed
  qed
  with assms(1) False grows_visited [OF assms(2)] show ?thesis by (auto simp: examined_def)
qed

lemma visit_cycle:
  assumes "good n active st" and "patch \<in> set active"
    and "st' = st\<lparr>vs_patches := fail_cycle chain (chain_from patch active) (vs_patches st)\<rparr>"
  shows "good n active st'" and "grows active st st'" and "state_of st' patch = PFailed"
proof -
  have cyc: "set (chain_from patch active) \<subseteq> set active" by (rule chain_from_subset)
  moreover have "set active \<subseteq> {..<length (vs_patches st)}" using assms(1) by (simp add: good_def)
  ultimately have eff: "same_records st st'"
    "\<And>p. state_of st' p = (if p \<in> set (chain_from patch active) then PFailed else state_of st p)"
    using fail_cycle_effect [of "chain_from patch active" "vs_patches st" chain]
    unfolding assms(3) same_records_def by auto
  have act: "\<not> fixed_state (state_of st p)" if "p \<in> set active" for p using assms(1) that by (simp add: good_def)
  show "good n active st'"
    by (rule good_change_active [OF assms(1) eff(1)])
      (use assms(3) eff(2) cyc act in \<open>auto simp: fixed_state_def\<close>)
  show "grows active st st'"
  proof (rule growsI [of _ _ "[]"])
    show "same_records st st'" by (rule eff(1))
    show "state_of st p = state_of st' p" if "fixed_state (state_of st' p)" for p
      using eff(2) [of p] that by (auto simp: fixed_state_def split: if_splits)
    show "state_of st' p = state_of st p" if "fixed_state (state_of st p) \<or> state_of st p = PFailed" for p
      using eff(2) [of p] that cyc act by auto
  qed (use assms(3) eff(2) cyc in auto)
  show "state_of st' patch = PFailed"
    using chain_from_hd [OF assms(2)] eff(2) by auto
qed

lemma good_push:
  assumes "good n active st" and "patch < n" and "\<not> terminal_state (state_of st patch)"
    and "patch \<notin> set (vs_visited st)" and "patch \<notin> set active"
  shows "good n (active @ [patch]) st"
  using assms by (auto simp: good_def terminal_state_def fixed_state_def)

lemma visit_done:
  assumes "good n active st" and "good n (active @ [patch]) st1" and "grows (active @ [patch]) st st1"
    and "\<not> terminal_state (state_of st patch)"
    and "examined patch (set (providers_of st patch)) waiting st1"
    and "st' = st1\<lparr>vs_patches := apply_waiting name patch waiting (vs_patches st1), vs_visited := vs_visited st1 @ [patch]\<rparr>"
  shows "good n active st'" and "grows active st st'" and "patch \<in> set (vs_visited st')"
proof -
  have pn: "patch < n" "patch \<notin> set (vs_visited st1)" "patch \<notin> set active" "length (vs_patches st1) = n"
    "\<not> fixed_state (state_of st1 patch)" using assms(2) by (auto simp: good_def)
  note w = apply_waiting_frame [where patch = patch and patches = "vs_patches st1" and name = name and
      waiting = waiting, unfolded pn(4), OF pn(1)]
  have rec: "same_records st1 st'" unfolding assms(6) same_records_def by (simp add: w(1))
  have other: "p \<noteq> patch \<Longrightarrow> state_of st' p = state_of st1 p" for p unfolding assms(6) by (simp add: w(2))
  have own: "state_of st' patch = (if state_of st1 patch = PFailed then PFailed else if waiting \<noteq> None then PWaiting
      else state_of st1 patch)" unfolding assms(6) by (simp add: w(3))
  have vis: "vs_visited st' = vs_visited st1 @ [patch]" by (simp add: assms(6))
  have n0: "length (vs_patches st) = n" using assms(1) by (simp add: good_def)
  have rec0: "same_records st st1" using assms(3) by (simp add: grows_def)
  have prov: "p < n \<Longrightarrow> providers_of st' p = providers_of st1 p" "p < n \<Longrightarrow> providers_of st1 p = providers_of st p" for p
    using same_records_providers [OF rec, of p] same_records_providers [OF rec0, of p] n0 pn(4) by simp_all
  have set_old: "settled st' p" if p: "p \<in> set (vs_visited st1)" for p
  proof -
    have s: "settled st1 p" and p_n: "p < n" "p \<noteq> patch" using assms(2) p pn(2) by (auto simp: good_def)
    show ?thesis
    proof (cases "state_of st1 p = PFailed")
      case True
      with other [OF p_n(2)] show ?thesis by (simp add: settled_def)
    next
      case False
      have "q \<noteq> patch" if q: "q \<in> set (providers_of st1 p)" for q
      proof
        assume "q = patch"
        with s False q have "state_of st1 patch = PInstalled \<or> patch \<in> earlier (vs_visited st1) p"
          by (auto simp: settled_def)
        with pn(2,5) show False by (auto simp: fixed_state_def earlier_def dest: set_takeWhileD)
      qed
      with s False other [OF p_n(2)] other prov(1) [OF p_n(1)] vis earlier_append [OF p] show ?thesis
        by (auto simp: settled_def)
    qed
  qed
  have set_new: "settled st' patch"
  proof (cases "state_of st1 patch = PFailed")
    case True
    with own show ?thesis by (simp add: settled_def)
  next
    case False
    have "q \<noteq> patch" if "q \<in> set (providers_of st patch)" for q
      using assms(5) False that pn(2,5) by (auto simp: examined_def fixed_state_def)
    with assms(5) False own other prov [OF pn(1)] vis earlier_last [OF pn(2)] show ?thesis
      by (auto simp: settled_def examined_def)
  qed
  have own_fixed: "\<not> fixed_state (state_of st' patch)"
    using own pn(5) by (auto simp: fixed_state_def split: if_splits)
  have old_fixed: "\<not> fixed_state (state_of st' p)" if "p \<in> set (vs_visited st1) \<union> set active" for p
  proof -
    have "p \<noteq> patch" "\<not> fixed_state (state_of st1 p)" using assms(2) that pn(2,3) by (auto simp: good_def)
    with other show ?thesis by simp
  qed
  show "good n active st'"
    using assms(2) vis set_old set_new own_fixed old_fixed prov(1) same_records_length [OF rec] pn
    unfolding good_def by auto
  show "patch \<in> set (vs_visited st')" by (simp add: vis)
  obtain new where rec0': "same_records st st1" and a: "vs_visited st1 = vs_visited st @ new"
    "\<And>p. p \<notin> set new \<Longrightarrow> p \<notin> set (active @ [patch]) \<Longrightarrow> state_of st1 p = state_of st p"
    "\<And>p. p \<in> set (active @ [patch]) \<Longrightarrow> state_of st1 p = state_of st p \<or> state_of st1 p = PFailed"
    "\<And>p. fixed_state (state_of st p) \<or> state_of st p = PFailed \<Longrightarrow> state_of st1 p = state_of st p"
    "\<And>p. fixed_state (state_of st1 p) \<Longrightarrow> state_of st p = state_of st1 p"
    by (rule growsE [OF assms(3)]) (rule that; assumption)
  show "grows active st st'"
  proof (rule growsI [of _ _ "new @ [patch]"])
    show "same_records st st'" using rec0 rec by (rule same_records_trans)
    show "vs_visited st' = vs_visited st @ new @ [patch]" using vis a(1) by simp
    show "state_of st' p = state_of st p" if "p \<notin> set (new @ [patch])" "p \<notin> set active" for p
      using a(2) [of p] other [of p] that by auto
    show "state_of st' p = state_of st p \<or> state_of st' p = PFailed" if "p \<in> set active" for p
    proof -
      have "p \<noteq> patch" using that pn(3) by blast
      with a(3) [of p] other [of p] that show ?thesis by simp
    qed
    show "state_of st' p = state_of st p" if "fixed_state (state_of st p) \<or> state_of st p = PFailed" for p
    proof -
      have "p \<noteq> patch" using that assms(4) by (auto simp: terminal_state_def fixed_state_def)
      with a(4) [OF that] other show ?thesis by simp
    qed
    show "state_of st p = state_of st' p" if "fixed_state (state_of st' p)" for p
    proof -
      have p: "p \<noteq> patch" using that own_fixed by blast
      with that other have "fixed_state (state_of st1 p)" by simp
      from a(5) [OF this] p other show ?thesis by simp
    qed
  qed
qed

lemma provider_step:
  assumes "good n active st" and "patch \<in> set active" and "provider < n"
    and "good n active st1" and "grows active st st1"
    and "terminal_state (state_of st1 provider) \<or> provider \<in> set (vs_visited st1)"
    and "provider \<in> set active \<Longrightarrow> state_of st1 provider = PFailed"
    and "examined patch seen waiting st"
    and "apply_provider name patch provider waiting (vs_patches st1) = (waiting', patches)"
    and "st2 = st1\<lparr>vs_patches := patches\<rparr>"
  shows "good n active st2" and "grows active st st2" and "examined patch (insert provider seen) waiting' st2"
proof -
  have pn: "patch < length (vs_patches st1)" "\<not> fixed_state (state_of st1 patch)"
    using assms(2,4) by (auto simp: good_def)
  note frame = apply_provider_frame [OF pn(1) assms(9)]
  have rec: "same_records st1 st2" unfolding assms(10) same_records_def by (simp add: frame(1))
  have other: "p \<noteq> patch \<Longrightarrow> state_of st2 p = state_of st1 p" for p unfolding assms(10) by (simp add: frame(2))
  have own: "state_of st2 patch = state_of st1 patch \<or> state_of st2 patch = PFailed"
    unfolding assms(10) by (simp add: frame(3))
  have fixed2: "\<not> fixed_state (state_of st2 p)" if "p \<in> set active" for p
    using own other [of p] pn(2) assms(4) that by (cases "p = patch") (auto simp: good_def fixed_state_def)
  show good2: "good n active st2"
  proof (rule good_change_active [OF assms(4) rec])
    show "vs_visited st2 = vs_visited st1" by (simp add: assms(10))
    show "state_of st2 p = state_of st1 p" if "p \<notin> set active" for p
      using other [of p] assms(2) that by blast
  qed (rule fixed2)
  have "grows active st1 st2"
  proof (rule growsI [of _ _ "[]"])
    show "same_records st1 st2" by (rule rec)
    show "vs_visited st2 = vs_visited st1 @ []" by (simp add: assms(10))
    show "state_of st2 p = state_of st1 p" if "p \<notin> set active" for p using other [of p] assms(2) that by blast
    show "state_of st2 p = state_of st1 p \<or> state_of st2 p = PFailed" for p
      using own other [of p] by (cases "p = patch") auto
    show "state_of st2 p = state_of st1 p" if "fixed_state (state_of st1 p) \<or> state_of st1 p = PFailed" for p
      using own other [of p] pn(2) that by (cases "p = patch") auto
    show "state_of st1 p = state_of st2 p" if "fixed_state (state_of st2 p)" for p
      using other [of p] fixed2 assms(2) that by (cases "p = patch") auto
  qed
  with assms(5) show "grows active st st2" by (rule grows_trans)
  have ex1: "examined patch seen waiting st1" by (rule examined_grows [OF assms(8,5,4)])
  show "examined patch (insert provider seen) waiting' st2"
  proof (cases "state_of st2 patch = PFailed")
    case False
    have "patch \<noteq> provider \<or> state_of st1 patch = PFailed" using assms(2,7) by auto
    from apply_provider_result [OF pn(1) this assms(9)] False
    have r: "patches = vs_patches st1" "state_of st1 provider \<noteq> PDisabled" "state_of st1 provider \<noteq> PFailed"
      "state_of st1 provider = PWaiting \<longrightarrow> waiting' \<noteq> None" "waiting \<noteq> None \<longrightarrow> waiting' \<noteq> None"
      unfolding assms(10) by simp_all
    have st2: "st2 = st1" unfolding assms(10) r(1) by simp
    have "state_of st1 provider = PInstalled \<or> provider \<in> set (vs_visited st1)"
      using assms(6) r(2,3) by (auto simp: terminal_state_def)
    with ex1 r False show ?thesis unfolding st2 by (auto simp: examined_def)
  qed (simp add: examined_def)
qed

lemma visit_correct:
  shows "good n active st \<Longrightarrow> patch < n \<Longrightarrow>
      good n active (visit name n active patch st) \<and> grows active st (visit name n active patch st) \<and>
      (terminal_state (state_of (visit name n active patch st) patch) \<or>
        patch \<in> set (vs_visited (visit name n active patch st))) \<and>
      (patch \<in> set active \<longrightarrow> state_of (visit name n active patch st) patch = PFailed)"
    and "good n active st \<Longrightarrow> patch \<in> set active \<Longrightarrow> set providers \<subseteq> {..<n} \<Longrightarrow>
      good n active (snd (visit_providers name n active patch providers waiting st)) \<and>
      grows active st (snd (visit_providers name n active patch providers waiting st)) \<and>
      (\<forall>seen. examined patch seen waiting st \<longrightarrow>
        examined patch (seen \<union> set providers) (fst (visit_providers name n active patch providers waiting st))
          (snd (visit_providers name n active patch providers waiting st)))"
proof (induction name n active patch st and name n active patch providers waiting st
    rule: visit_visit_providers.induct)
  case (1 name n active patch st)
  note IH = "1.IH" and prems = "1.prems"
  consider (stop) "terminal_state (state_of st patch) \<or> patch \<in> set (vs_visited st)"
    | (cycle) "\<not> terminal_state (state_of st patch)" "patch \<notin> set (vs_visited st)" "patch \<in> set active"
    | (fresh) "\<not> terminal_state (state_of st patch)" "patch \<notin> set (vs_visited st)" "patch \<notin> set active" by blast
  then show ?case
  proof cases
    case stop
    then have v: "visit name n active patch st = st" by (auto simp: visit.simps)
    have "state_of st patch = PFailed" if "patch \<in> set active"
      using stop prems(1) that by (auto simp: good_def terminal_state_def fixed_state_def)
    with stop prems(1) show ?thesis by (simp add: v)
  next
    case cycle
    then have "visit name n active patch st =
        st\<lparr>vs_patches := fail_cycle (cycle_text name (chain_from patch active) patch) (chain_from patch active) (vs_patches st)\<rparr>"
      using prems(2) by (simp add: visit.simps)
    from visit_cycle [OF prems(1) cycle(3) this] show ?thesis by (simp add: terminal_state_def)
  next
    case fresh
    obtain waiting st1 where r: "visit_providers name n (active @ [patch]) patch (providers_of st patch) None st = (waiting, st1)"
      by fastforce
    have cond: "\<not> (n \<le> patch \<or> terminal_state (state_of st patch) \<or> patch \<in> set (vs_visited st))"
      using fresh prems(2) by simp
    have ranges: "set (providers_of st patch) \<subseteq> {..<n}" using prems by (simp add: good_def)
    from IH [OF cond fresh(3) good_push [OF prems fresh] _ ranges] r
    have "good n (active @ [patch]) st1" "grows (active @ [patch]) st st1"
      and seen: "\<forall>seen. examined patch seen None st \<longrightarrow> examined patch (seen \<union> set (providers_of st patch)) waiting st1"
      by simp_all
    note inner = this(1,2)
    have "examined patch {} None st" by (simp add: examined_def)
    with seen have "examined patch (set (providers_of st patch)) waiting st1" by (metis sup_bot_left)
    from visit_done [OF prems(1) inner fresh(1) this refl, of name]
    show ?thesis using r fresh prems(2) by (simp add: visit.simps)
  qed
next
  case (2 name n active patch waiting st)
  then show ?case by (simp add: visit_providers.simps)
next
  case (3 name n active patch provider providers waiting st)
  let ?st1 = "visit name n active provider st"
  obtain waiting' patches where a: "apply_provider name patch provider waiting (vs_patches ?st1) = (waiting', patches)" by fastforce
  let ?st2 = "?st1\<lparr>vs_patches := patches\<rparr>"
  have pn: "provider < n" "set providers \<subseteq> {..<n}" using "3.prems"(3) by auto
  note first = "3.IH"(1) [OF "3.prems"(1) pn(1)]
  have f: "good n active ?st1" "grows active st ?st1"
    "terminal_state (state_of ?st1 provider) \<or> provider \<in> set (vs_visited ?st1)"
    "provider \<in> set active \<Longrightarrow> state_of ?st1 provider = PFailed" using first by auto
  have step: "good n active ?st2" "grows active st ?st2" "examined patch {} waiting' ?st2"
    "examined patch seen waiting st \<Longrightarrow> examined patch (insert provider seen) waiting' ?st2" for seen
  proof -
    have "examined patch {} waiting st" by (simp add: examined_def)
    from provider_step [OF "3.prems"(1,2) pn(1) f this a refl] show "good n active ?st2" "grows active st ?st2" by auto
    show "examined patch {} waiting' ?st2" by (simp add: examined_def)
    assume "examined patch seen waiting st"
    from provider_step(3) [OF "3.prems"(1,2) pn(1) f this a refl]
    show "examined patch (insert provider seen) waiting' ?st2" .
  qed
  have e: "visit_providers name n active patch (provider # providers) waiting st =
      visit_providers name n active patch providers waiting' ?st2"
    using a by (simp add: visit_providers.simps Let_def)
  note rest = "3.IH"(2) [OF refl a [symmetric] refl step(1) "3.prems"(2) pn(2)]
  show ?case unfolding e
  proof (intro conjI allI impI)
    show "good n active (snd (visit_providers name n active patch providers waiting' ?st2))" using rest by blast
    show "grows active st (snd (visit_providers name n active patch providers waiting' ?st2))"
      using rest step(2) grows_trans by blast
    fix seen assume "examined patch seen waiting st"
    from step(4) [OF this] rest
    have "examined patch (insert provider seen \<union> set providers)
        (fst (visit_providers name n active patch providers waiting' ?st2))
        (snd (visit_providers name n active patch providers waiting' ?st2))" by blast
    then show "examined patch (seen \<union> set (provider # providers))
        (fst (visit_providers name n active patch providers waiting' ?st2))
        (snd (visit_providers name n active patch providers waiting' ?st2))" by (simp add: Un_insert_left)
  qed
qed

section \<open>Causes of failures\<close>

definition provider_edges :: "PatchRecord list \<Rightarrow> (nat \<times> nat) set" where
  "provider_edges patches = {(p, q). p < length patches \<and> q \<in> set (pr_providers (patches ! p))}"

definition caused :: "visit_state \<Rightarrow> visit_state \<Rightarrow> nat \<Rightarrow> bool" where
  "caused st0 st patch \<longleftrightarrow>
    (state_of st patch = PFailed \<longrightarrow> state_of st0 patch = PFailed \<or>
      (\<exists>q \<in> set (providers_of st patch). state_of st q = PDisabled \<or> state_of st q = PFailed) \<or>
      (patch, patch) \<in> (provider_edges (vs_patches st))\<^sup>+)"

definition linked :: "visit_state \<Rightarrow> nat list \<Rightarrow> bool" where
  "linked st active \<longleftrightarrow> successively (\<lambda>a b. b \<in> set (providers_of st a)) active"

lemma same_records_edges: "same_records st st' \<Longrightarrow> provider_edges (vs_patches st') = provider_edges (vs_patches st)"
  unfolding provider_edges_def using same_records_length same_records_providers by fastforce

lemma same_records_linked:
  "same_records st st' \<Longrightarrow> set active \<subseteq> {..<length (vs_patches st)} \<Longrightarrow> linked st' active \<longleftrightarrow> linked st active"
  unfolding linked_def using same_records_providers [of st st']
  by (intro successively_cong) auto

lemma caused_mono:
  assumes "caused st0 st p" and "same_records st st'" and "p < length (vs_patches st)"
    and "\<And>q. state_of st q = PDisabled \<or> state_of st q = PFailed \<Longrightarrow> state_of st' q = state_of st q"
    and "state_of st' p = PFailed \<Longrightarrow> state_of st p = PFailed"
  shows "caused st0 st' p"
  using assms same_records_edges [OF assms(2)] same_records_providers [OF assms(2,3)]
  unfolding caused_def by metis

lemma chain_cycle:
  assumes "successively (\<lambda>a b. (a, b) \<in> E) chain" and "chain \<noteq> []" and "(last chain, hd chain) \<in> E"
    and "x \<in> set chain"
  shows "(x, x) \<in> E\<^sup>+"
proof -
  from assms(4) obtain ys zs where c: "chain = ys @ x # zs" by (meson split_list)
  have up: "(a, last (a # bs)) \<in> E\<^sup>*" if "successively (\<lambda>a b. (a, b) \<in> E) (a # bs)" for a bs
    using that
  proof (induction bs arbitrary: a)
    case (Cons b bs)
    then have "(a, b) \<in> E" "(b, last (b # bs)) \<in> E\<^sup>*" by auto
    then show ?case by (simp add: converse_rtrancl_into_rtrancl)
  qed simp
  have "successively (\<lambda>a b. (a, b) \<in> E) (x # zs)" using assms(1) c by (simp add: successively_append_iff)
  then have "(x, last chain) \<in> E\<^sup>*" using up [of x zs] c by simp
  then have last: "(x, hd chain) \<in> E\<^sup>+" using assms(3) by (rule rtrancl_into_trancl1)
  have "(hd chain, x) \<in> E\<^sup>*"
  proof (cases ys)
    case (Cons y ys')
    have "successively (\<lambda>a b. (a, b) \<in> E) (y # ys' @ [x])"
    proof -
      have "chain = (y # ys' @ [x]) @ zs" using c Cons by simp
      from assms(1) [unfolded this successively_append_iff] show ?thesis by blast
    qed
    with up [of y "ys' @ [x]"] c Cons show ?thesis by simp
  qed (simp add: c)
  with last show ?thesis by (rule trancl_rtrancl_trancl)
qed

lemma linked_cycle:
  assumes "linked st active" and "set active \<subseteq> {..<length (vs_patches st)}" and "patch \<in> set active"
    and "patch \<in> set (providers_of st (last active))" and "x \<in> set (chain_from patch active)"
  shows "(x, x) \<in> (provider_edges (vs_patches st))\<^sup>+"
proof (rule chain_cycle [OF _ _ _ assms(5)])
  obtain rest where c: "chain_from patch active = patch # rest" using chain_from_hd [OF assms(3)] by blast
  have split: "active = takeWhile (\<lambda>other. other \<noteq> patch) active @ chain_from patch active"
    by (simp add: chain_from_def)
  then have "successively (\<lambda>a b. b \<in> set (providers_of st a)) (chain_from patch active)"
    using assms(1) unfolding linked_def by (metis successively_append_iff)
  then show "successively (\<lambda>a b. (a, b) \<in> provider_edges (vs_patches st)) (chain_from patch active)"
    by (rule successively_mono) (use assms(2) chain_from_subset [of patch active] in \<open>auto simp: provider_edges_def\<close>)
  show "chain_from patch active \<noteq> []" by (simp add: c)
  have "last active = last (chain_from patch active)" using split c by (metis last_appendR list.distinct(1))
  moreover have "last active \<in> set active" using assms(3) by (cases active) auto
  ultimately show "(last (chain_from patch active), hd (chain_from patch active)) \<in> provider_edges (vs_patches st)"
    using assms(2,4) c by (auto simp: provider_edges_def)
qed

definition all_caused :: "visit_state \<Rightarrow> visit_state \<Rightarrow> bool" where
  "all_caused st0 st \<longleftrightarrow> (\<forall>p < length (vs_patches st). caused st0 st p)"

lemma visit_cycle_caused:
  assumes "good n active st" and "patch \<in> set active" and "linked st active"
    and "patch \<in> set (providers_of st (last active))" and "all_caused st0 st"
    and "st' = st\<lparr>vs_patches := fail_cycle chain (chain_from patch active) (vs_patches st)\<rparr>"
  shows "all_caused st0 st'"
  unfolding all_caused_def
proof (intro allI impI)
  fix p assume "p < length (vs_patches st')"
  have act: "set active \<subseteq> {..<length (vs_patches st)}" using assms(1) by (simp add: good_def)
  then have eff: "same_records st st'"
    "\<And>p. state_of st' p = (if p \<in> set (chain_from patch active) then PFailed else state_of st p)"
    using fail_cycle_effect [of "chain_from patch active" "vs_patches st" chain] chain_from_subset [of patch active]
    unfolding assms(6) same_records_def by auto
  have p: "p < length (vs_patches st)"
    using \<open>p < length (vs_patches st')\<close> same_records_length [OF eff(1)] by simp
  show "caused st0 st' p"
  proof (cases "p \<in> set (chain_from patch active)")
    case True
    from linked_cycle [OF assms(3) act assms(2,4) True] show ?thesis
      using same_records_edges [OF eff(1)] by (simp add: caused_def)
  next
    case False
    have fixed: "\<not> fixed_state (state_of st q)" if "q \<in> set (chain_from patch active)" for q
      using assms(1) that chain_from_subset [of patch active] by (auto simp: good_def)
    show ?thesis
    proof (rule caused_mono [OF _ eff(1) p])
      show "caused st0 st p" using assms(5) p by (simp add: all_caused_def)
      show "state_of st' q = state_of st q" if "state_of st q = PDisabled \<or> state_of st q = PFailed" for q
        using eff(2) [of q] fixed [of q] that by (auto simp: fixed_state_def)
      show "state_of st' p = PFailed \<Longrightarrow> state_of st p = PFailed" using eff(2) [of p] False by simp
    qed
  qed
qed

lemma apply_provider_caused:
  assumes "patch < length (vs_patches st)" and "provider \<in> set (providers_of st patch)" and "all_caused st0 st"
    and "\<not> fixed_state (state_of st patch)"
    and "apply_provider name patch provider waiting (vs_patches st) = (waiting', patches)"
    and "st' = st\<lparr>vs_patches := patches\<rparr>"
  shows "all_caused st0 st'"
  unfolding all_caused_def
proof (intro allI impI)
  fix p assume "p < length (vs_patches st')"
  note frame = apply_provider_frame [OF assms(1,5)]
  have rec: "same_records st st'" unfolding assms(6) same_records_def by (simp add: frame(1))
  have other: "q \<noteq> patch \<Longrightarrow> state_of st' q = state_of st q" for q unfolding assms(6) by (simp add: frame(2))
  have own: "state_of st' patch = state_of st patch \<or> state_of st' patch = PFailed"
    unfolding assms(6) by (simp add: frame(3))
  have p: "p < length (vs_patches st)" using \<open>p < length (vs_patches st')\<close> same_records_length [OF rec] by simp
  have keep: "state_of st' q = state_of st q" if "state_of st q = PDisabled \<or> state_of st q = PFailed" for q
    using other [of q] own that assms(4) by (cases "q = patch") (auto simp: fixed_state_def)
  have old: "caused st0 st p" using assms(3) p by (simp add: all_caused_def)
  show "caused st0 st' p"
  proof (cases "state_of st' p = PFailed \<and> state_of st p \<noteq> PFailed")
    case True
    then have "p = patch" using other by metis
    moreover have "state_of st provider = PDisabled \<or> state_of st provider = PFailed"
      using True assms(5) unfolding assms(6) \<open>p = patch\<close> by (auto simp: apply_provider_def split: if_splits)
    ultimately show ?thesis
      using assms(2) keep [of provider] same_records_providers [OF rec assms(1)] by (auto simp: caused_def)
  qed (use caused_mono [OF old rec p keep] in blast)
qed

lemma apply_waiting_caused:
  assumes "patch < length (vs_patches st)" and "all_caused st0 st" and "\<not> fixed_state (state_of st patch)"
    and "st' = st\<lparr>vs_patches := apply_waiting name patch waiting (vs_patches st), vs_visited := visited\<rparr>"
  shows "all_caused st0 st'"
  unfolding all_caused_def
proof (intro allI impI)
  fix p assume "p < length (vs_patches st')"
  note frame = apply_waiting_frame [where patch = patch and patches = "vs_patches st" and name = name and
      waiting = waiting, OF assms(1)]
  have rec: "same_records st st'" unfolding assms(4) same_records_def by (simp add: frame(1))
  have other: "q \<noteq> patch \<Longrightarrow> state_of st' q = state_of st q" for q unfolding assms(4) by (simp add: frame(2))
  have own: "state_of st' patch = PFailed \<longleftrightarrow> state_of st patch = PFailed"
    "state_of st patch = PFailed \<Longrightarrow> state_of st' patch = PFailed"
    unfolding assms(4) by (simp_all add: frame(3))
  have p: "p < length (vs_patches st)" using \<open>p < length (vs_patches st')\<close> same_records_length [OF rec] by simp
  show "caused st0 st' p"
  proof (rule caused_mono [OF _ rec p])
    show "caused st0 st p" using assms(2) p by (simp add: all_caused_def)
    show "state_of st' q = state_of st q" if "state_of st q = PDisabled \<or> state_of st q = PFailed" for q
      using other [of q] own that assms(3) by (cases "q = patch") (auto simp: fixed_state_def)
    show "state_of st' p = PFailed \<Longrightarrow> state_of st p = PFailed" using own other [of p] by (cases "p = patch") auto
  qed
qed

lemma linked_snoc:
  "linked st active \<Longrightarrow> (active \<noteq> [] \<Longrightarrow> patch \<in> set (providers_of st (last active))) \<Longrightarrow> linked st (active @ [patch])"
  by (cases "active = []") (simp_all add: linked_def successively_append_iff)

lemma visit_caused:
  shows "good n active st \<Longrightarrow> patch < n \<Longrightarrow> linked st active \<Longrightarrow>
      (active \<noteq> [] \<longrightarrow> patch \<in> set (providers_of st (last active))) \<Longrightarrow> all_caused st0 st \<Longrightarrow>
      all_caused st0 (visit name n active patch st)"
    and "good n active st \<Longrightarrow> active \<noteq> [] \<Longrightarrow> last active = patch \<Longrightarrow> linked st active \<Longrightarrow>
      set providers \<subseteq> set (providers_of st patch) \<Longrightarrow> all_caused st0 st \<Longrightarrow>
      all_caused st0 (snd (visit_providers name n active patch providers waiting st))"
proof (induction name n active patch st and name n active patch providers waiting st
    rule: visit_visit_providers.induct)
  case (1 name n active patch st)
  note IH = "1.IH" and prems = "1.prems"
  consider (stop) "terminal_state (state_of st patch) \<or> patch \<in> set (vs_visited st)"
    | (cycle) "\<not> terminal_state (state_of st patch)" "patch \<notin> set (vs_visited st)" "patch \<in> set active"
    | (fresh) "\<not> terminal_state (state_of st patch)" "patch \<notin> set (vs_visited st)" "patch \<notin> set active" by blast
  then show ?case
  proof cases
    case stop
    then have "visit name n active patch st = st" by (auto simp: visit.simps)
    with prems show ?thesis by simp
  next
    case cycle
    then have v: "visit name n active patch st =
        st\<lparr>vs_patches := fail_cycle (cycle_text name (chain_from patch active) patch) (chain_from patch active) (vs_patches st)\<rparr>"
      using prems(2) by (simp add: visit.simps)
    have "patch \<in> set (providers_of st (last active))" using prems(4) cycle(3) by auto
    from visit_cycle_caused [OF prems(1) cycle(3) prems(3) this prems(5) v] show ?thesis .
  next
    case fresh
    obtain waiting st1 where r: "visit_providers name n (active @ [patch]) patch (providers_of st patch) None st = (waiting, st1)"
      by fastforce
    have cond: "\<not> (n \<le> patch \<or> terminal_state (state_of st patch) \<or> patch \<in> set (vs_visited st))"
      using fresh prems(2) by simp
    note push = good_push [OF prems(1,2) fresh]
    have link: "linked st (active @ [patch])" using linked_snoc [OF prems(3)] prems(4) by blast
    have c1: "all_caused st0 st1"
      using IH [OF cond fresh(3) push _ _ link _ prems(5)] r by simp
    have "set (providers_of st patch) \<subseteq> {..<n}" using prems(1,2) by (simp add: good_def)
    then have "good n (active @ [patch])
        (snd (visit_providers name n (active @ [patch]) patch (providers_of st patch) None st))"
      using visit_correct(2) push by simp
    with r have "good n (active @ [patch]) st1" by simp
    then have "patch < length (vs_patches st1)" "\<not> fixed_state (state_of st1 patch)" by (auto simp: good_def)
    from apply_waiting_caused [OF this(1) c1 this(2) refl, where name = name and waiting = waiting] show ?thesis
      using r fresh prems(2) by (simp add: visit.simps)
  qed
next
  case (2 name n active patch waiting st)
  then show ?case by (simp add: visit_providers.simps)
next
  case (3 name n active patch provider providers waiting st)
  note prems = "3.prems"
  let ?st1 = "visit name n active provider st"
  obtain waiting' patches where a: "apply_provider name patch provider waiting (vs_patches ?st1) = (waiting', patches)" by fastforce
  let ?st2 = "?st1\<lparr>vs_patches := patches\<rparr>"
  have patch: "patch \<in> set active" using prems(2,3) by auto
  then have pn: "patch < n" "length (vs_patches st) = n" "set active \<subseteq> {..<n}" using prems(1) by (auto simp: good_def)
  have prov: "provider < n" using prems(1,5) pn(1) by (auto simp: good_def)
  note first = visit_correct(1) [OF prems(1) prov, of name]
  have c1: "all_caused st0 ?st1" using "3.IH"(1) [OF prems(1) prov prems(4) _ prems(6)] prems(3,5) by simp
  have rec1: "same_records st ?st1" using first growsE by blast
  have p1: "patch < length (vs_patches ?st1)" "\<not> fixed_state (state_of ?st1 patch)"
    "provider \<in> set (providers_of ?st1 patch)"
    using first patch prems(5) same_records_providers [OF rec1, of patch] pn by (auto simp: good_def)
  have c2: "all_caused st0 ?st2" by (rule apply_provider_caused [OF p1(1,3) c1 p1(2) a refl])
  have "examined patch {} waiting st" by (simp add: examined_def)
  from provider_step [OF prems(1) patch prov _ _ _ _ this a refl] first
  have g2: "good n active ?st2" "grows active st ?st2" by auto
  then have rec2: "same_records st ?st2" using growsE by blast
  have link2: "linked ?st2 active" using same_records_linked [OF rec2] pn prems(4) by simp
  have prov2: "set providers \<subseteq> set (providers_of ?st2 patch)"
    using same_records_providers [OF rec2, of patch] pn prems(5) by simp
  have e: "visit_providers name n active patch (provider # providers) waiting st =
      visit_providers name n active patch providers waiting' ?st2"
    using a by (simp add: visit_providers.simps Let_def)
  show ?case unfolding e
    by (rule "3.IH"(2) [OF refl a [symmetric] refl g2(1) prems(2,3) link2 prov2 c2])
qed

section \<open>The whole pass\<close>

lemma visit_all_correct:
  "good n [] st \<Longrightarrow> set patches \<subseteq> {..<n} \<Longrightarrow> all_caused st0 st \<Longrightarrow>
   good n [] (visit_all name n patches st) \<and> grows [] st (visit_all name n patches st) \<and>
   all_caused st0 (visit_all name n patches st) \<and>
   (\<forall>p \<in> set patches. terminal_state (state_of (visit_all name n patches st) p) \<or>
      p \<in> set (vs_visited (visit_all name n patches st)))"
proof (induction patches arbitrary: st)
  case (Cons patch patches)
  let ?st1 = "visit name n [] patch st"
  have p: "patch < n" using Cons.prems(2) by simp
  from visit_correct(1) [OF Cons.prems(1) p, of name]
  have one: "good n [] ?st1" "grows [] st ?st1"
    "terminal_state (state_of ?st1 patch) \<or> patch \<in> set (vs_visited ?st1)" by auto
  have c: "all_caused st0 ?st1"
    by (rule visit_caused(1) [OF Cons.prems(1) p _ _ Cons.prems(3)]) (simp_all add: linked_def)
  from Cons.IH [OF one(1) _ c] Cons.prems(2)
  have ih: "good n [] (visit_all name n patches ?st1)" "grows [] ?st1 (visit_all name n patches ?st1)"
    "all_caused st0 (visit_all name n patches ?st1)"
    "\<forall>p \<in> set patches. terminal_state (state_of (visit_all name n patches ?st1) p) \<or>
      p \<in> set (vs_visited (visit_all name n patches ?st1))" by auto
  have "terminal_state (state_of (visit_all name n patches ?st1) patch) \<or>
      patch \<in> set (vs_visited (visit_all name n patches ?st1))"
    using one(3)
  proof
    assume "terminal_state (state_of ?st1 patch)"
    then have "fixed_state (state_of ?st1 patch) \<or> state_of ?st1 patch = PFailed"
      by (auto simp: terminal_state_def fixed_state_def)
    then have "state_of (visit_all name n patches ?st1) patch = state_of ?st1 patch"
      using growsE [OF ih(2)] by blast
    with \<open>terminal_state (state_of ?st1 patch)\<close> show ?thesis by simp
  next
    assume "patch \<in> set (vs_visited ?st1)"
    with grows_visited [OF ih(2)] show ?thesis by blast
  qed
  with ih one(2) grows_trans show ?case by auto
qed simp

text \<open>Every provider pointer of a record points at a record of the session.\<close>

definition providers_valid :: "SelectionSession \<Rightarrow> bool" where
  "providers_valid session \<longleftrightarrow>
    list_all (\<lambda>patch. list_all (\<lambda>q. q < length (ss_patches session)) (pr_providers patch)) (ss_patches session)"

lemma find_index_less: "find_index P xs = Some n \<Longrightarrow> n < length xs"
  by (auto simp: find_index_def Let_def split: if_splits)

lemma add_provider_valid:
  "list_all (\<lambda>q. q < length (ss_patches session)) (pr_providers consumer) \<Longrightarrow>
   list_all (\<lambda>q. q < length (ss_patches session)) (pr_providers (snd (add_provider session plugin ident consumer)))"
  by (auto simp: add_provider_def dest: find_index_less split: option.splits)

lemma add_members_valid:
  "list_all (\<lambda>q. q < length (ss_patches session)) (pr_providers consumer) \<Longrightarrow>
   list_all (\<lambda>q. q < length (ss_patches session)) (pr_providers (add_members session plugin members consumer))"
  by (induction members arbitrary: consumer) (simp_all add: add_provider_valid)

lemma fail_reference_providers [simp]: "pr_providers (fail_reference reference detail consumer) = pr_providers consumer"
  by (simp add: fail_reference_def)

lemma add_reference_valid:
  assumes "list_all (\<lambda>q. q < length (ss_patches session)) (pr_providers consumer)"
  shows "list_all (\<lambda>q. q < length (ss_patches session)) (pr_providers (add_reference session reference consumer))"
proof -
  have "list_all (\<lambda>q. q < length (ss_patches session)) (pr_providers consumer')"
    if "add_provider session plugin ident consumer = (found, consumer')" for plugin ident found consumer'
    using add_provider_valid [OF assms, of plugin ident] that by simp
  then show ?thesis
    using assms add_members_valid [OF assms]
    by (auto simp: add_reference_def split: prod.splits option.splits bool.splits)
qed

lemma add_references_valid:
  "list_all (\<lambda>q. q < length (ss_patches session)) (pr_providers consumer) \<Longrightarrow>
   list_all (\<lambda>q. q < length (ss_patches session)) (pr_providers (add_references session references consumer))"
  by (induction references arbitrary: consumer) (simp_all add: add_reference_valid)

lemma rebuild_valid: "providers_valid session \<Longrightarrow> providers_valid (rebuild_session session)"
proof -
  assume valid: "providers_valid session"
  have "list_all (\<lambda>q. q < length (ss_patches session)) (pr_providers (rebuild_providers session patch))"
    if "patch \<in> set (ss_patches session)" for patch
  proof (cases "\<not> pr_enabled patch \<or> pr_state patch = PInstalled \<or> pr_state patch = PFailed")
    case True
    with that valid show ?thesis by (simp add: rebuild_providers_def providers_valid_def list_all_iff)
  next
    case False
    have "list_all (\<lambda>q. q < length (ss_patches session)) (pr_providers (patch\<lparr>pr_providers := []\<rparr>))" by simp
    from add_references_valid [OF this] False show ?thesis by (simp add: rebuild_providers_def)
  qed
  then show ?thesis by (simp add: providers_valid_def rebuild_session_def list_all_iff)
qed

subsection \<open>What the references of a patch name\<close>

text \<open>
  A reference names the first patch of its plugin with its identifier, or else those members of a group of the plugin
  that are patches; \<open>None\<close> when there is no such plugin, or neither a patch nor a group.
\<close>

definition named_patch :: "SelectionSession \<Rightarrow> nat \<Rightarrow> string \<Rightarrow> nat option" where
  "named_patch session plugin ident =
    find_index (\<lambda>patch. pr_plugin patch = plugin \<and> equal_id (fp_id (pr_definition patch)) ident) (ss_patches session)"

definition reference_patches :: "SelectionSession \<Rightarrow> PatchRecord \<Rightarrow> string \<Rightarrow> nat list option" where
  "reference_patches session patch reference =
    (let (plugin_id, local_id) = split_reference (session_plugin session (pr_plugin patch)) reference
     in case find_index (\<lambda>plugin. equal_id (fl_id (ap_definition (pl_admitted plugin))) plugin_id) (ss_plugins session) of
          None \<Rightarrow> None
        | Some plugin \<Rightarrow>
            (case named_patch session plugin local_id of
               Some provider \<Rightarrow> Some [provider]
             | None \<Rightarrow> map_option (\<lambda>grp. List.map_filter (named_patch session plugin) (fg_members grp))
                 (List.find (\<lambda>grp. equal_id (fg_id grp) local_id) (fl_groups (session_plugin session plugin)))))"

text \<open>The references are read again until the patch is installed or failed.\<close>

definition pending_patch :: "PatchRecord \<Rightarrow> bool" where
  "pending_patch patch \<longleftrightarrow> pr_enabled patch \<and> pr_state patch \<noteq> PInstalled \<and> pr_state patch \<noteq> PFailed"

definition patch_references :: "PatchRecord \<Rightarrow> string list" where
  "patch_references patch = fp_depends_on (pr_definition patch) @ variant_references patch"

definition unresolved :: "SelectionSession \<Rightarrow> PatchRecord \<Rightarrow> bool" where
  "unresolved session patch \<longleftrightarrow>
    pending_patch patch \<and> list_ex (\<lambda>reference. reference_patches session patch reference = None) (patch_references patch)"

definition required_patches :: "SelectionSession \<Rightarrow> PatchRecord \<Rightarrow> nat list" where
  "required_patches session patch =
    (if pending_patch patch then concat (List.map_filter (reference_patches session patch) (patch_references patch))
     else pr_providers patch)"

lemma add_provider_named:
  "add_provider session plugin ident consumer =
    (case named_patch session plugin ident of None \<Rightarrow> (False, consumer)
     | Some provider \<Rightarrow> (True, consumer
           \<lparr>pr_providers := if provider \<in> set (pr_providers consumer) then pr_providers consumer
            else pr_providers consumer @ [provider]\<rparr>))"
  by (simp add: add_provider_def named_patch_def split: option.split)

lemma add_members_named:
  "set (pr_providers (add_members session plugin members consumer)) =
     set (pr_providers consumer) \<union> set (List.map_filter (named_patch session plugin) members)"
  "pr_state (add_members session plugin members consumer) = pr_state consumer"
  "pr_plugin (add_members session plugin members consumer) = pr_plugin consumer"
  by (induction members arbitrary: consumer)
    (auto simp: add_provider_named map_filter_simps split: option.split)

lemma add_reference_named:
  "set (pr_providers (add_reference session reference consumer)) =
     set (pr_providers consumer) \<union> set (case reference_patches session consumer reference of None \<Rightarrow> [] | Some found \<Rightarrow> found)"
  "pr_state (add_reference session reference consumer) =
     (if reference_patches session consumer reference = None then PFailed else pr_state consumer)"
  "pr_plugin (add_reference session reference consumer) = pr_plugin consumer"
  by (auto simp: add_reference_def reference_patches_def add_provider_named fail_reference_def add_members_named
      split: option.splits prod.splits bool.splits)

lemma reference_patches_plugin:
  "pr_plugin patch = pr_plugin patch' \<Longrightarrow> reference_patches session patch = reference_patches session patch'"
  by (rule ext) (simp add: reference_patches_def)

lemma add_references_named:
  "set (pr_providers (add_references session references consumer)) =
     set (pr_providers consumer) \<union> set (concat (List.map_filter (reference_patches session consumer) references))"
  "pr_state (add_references session references consumer) =
     (if list_ex (\<lambda>reference. reference_patches session consumer reference = None) references then PFailed else pr_state consumer)"
proof (induction references arbitrary: consumer)
  case (Cons reference references)
  have same: "reference_patches session (add_reference session reference consumer) = reference_patches session consumer" for consumer
    by (rule reference_patches_plugin) (rule add_reference_named(3))
  {
    case (1 consumer)
    show ?case using Cons.IH(1) [of "add_reference session reference consumer"] unfolding same
      by (cases "reference_patches session consumer reference") (simp_all add: add_reference_named map_filter_simps Un_assoc)
  next
    case (2 consumer)
    show ?case using Cons.IH(2) [of "add_reference session reference consumer"] unfolding same by (simp add: add_reference_named)
  }
qed (simp_all add: map_filter_simps)

lemma rebuild_named:
  "set (pr_providers (rebuild_providers session patch)) = set (required_patches session patch)"
  "pr_state (rebuild_providers session patch) = (if unresolved session patch then PFailed else pr_state patch)"
proof -
  have same: "reference_patches session (patch\<lparr>pr_providers := []\<rparr>) = reference_patches session patch"
    by (rule reference_patches_plugin) simp
  have read: "rebuild_providers session patch =
      (if pending_patch patch then add_references session (patch_references patch) (patch\<lparr>pr_providers := []\<rparr>) else patch)"
    by (auto simp: rebuild_providers_def pending_patch_def patch_references_def)
  show "set (pr_providers (rebuild_providers session patch)) = set (required_patches session patch)"
    by (simp add: read required_patches_def add_references_named same)
  show "pr_state (rebuild_providers session patch) = (if unresolved session patch then PFailed else pr_state patch)"
    by (simp add: read unresolved_def add_references_named same)
qed

text \<open>An order in which the unfinished patches may be installed.\<close>

definition dependency_order :: "PatchRecord list \<Rightarrow> nat list \<Rightarrow> bool" where
  "dependency_order patches order \<longleftrightarrow> distinct order \<and> set order \<subseteq> {..<length patches} \<and>
    (\<forall>p < length patches. terminal_state (pr_state (patches ! p)) \<or> p \<in> set order) \<and>
    (\<forall>p \<in> set order. pr_state (patches ! p) = PFailed \<or>
      (\<forall>q \<in> set (pr_providers (patches ! p)).
         pr_state (patches ! q) \<noteq> PDisabled \<and> pr_state (patches ! q) \<noteq> PFailed \<and>
         (pr_state (patches ! q) = PWaiting \<longrightarrow> pr_state (patches ! p) = PWaiting) \<and>
         (pr_state (patches ! q) = PInstalled \<or> q \<in> earlier order p)))"

lemma visit_session_correct:
  assumes "providers_valid session"
  shows "dependency_order (vs_patches (visit_session session)) (vs_visited (visit_session session))"
    and "same_records \<lparr>vs_patches = ss_patches session, vs_visited = []\<rparr> (visit_session session)"
    and "all_caused \<lparr>vs_patches = ss_patches session, vs_visited = []\<rparr> (visit_session session)"
    and "p < length (ss_patches session) \<Longrightarrow> terminal_state (pr_state (ss_patches session ! p)) \<Longrightarrow>
      pr_state (vs_patches (visit_session session) ! p) = pr_state (ss_patches session ! p)"
proof -
  let ?st = "\<lparr>vs_patches = ss_patches session, vs_visited = []\<rparr>"
  let ?n = "length (ss_patches session)"
  have g: "good ?n [] ?st"
    using assms by (auto simp: good_def providers_valid_def list_all_iff subset_iff)
  have c: "all_caused ?st ?st" by (simp add: all_caused_def caused_def)
  from visit_all_correct [OF g _ c, of "[0..<?n]" "\<lambda>patch. qualified_patch_id session (ss_patches session ! patch)"]
  have r: "good ?n [] (visit_session session)" "grows [] ?st (visit_session session)"
    "all_caused ?st (visit_session session)"
    "\<forall>p < ?n. terminal_state (state_of (visit_session session) p) \<or> p \<in> set (vs_visited (visit_session session))"
    by (simp_all add: visit_session_def atLeast0LessThan)
  show "dependency_order (vs_patches (visit_session session)) (vs_visited (visit_session session))"
    using r(1,4) by (auto simp: dependency_order_def good_def settled_def)
  show "same_records ?st (visit_session session)" using growsE [OF r(2)] by blast
  show "all_caused ?st (visit_session session)" by (rule r(3))
  show "pr_state (vs_patches (visit_session session) ! p) = pr_state (ss_patches session ! p)"
    if "p < ?n" "terminal_state (pr_state (ss_patches session ! p))"
  proof -
    have "fixed_state (state_of ?st p) \<or> state_of ?st p = PFailed"
      using that(2) by (auto simp: terminal_state_def fixed_state_def)
    then have "state_of (visit_session session) p = state_of ?st p" using growsE [OF r(2)] by blast
    then show ?thesis by simp
  qed
qed

text \<open>The whole pass, told of the session before it.\<close>

lemma pass_results:
  assumes "providers_valid session"
  shows "p < length (ss_patches session) \<Longrightarrow>
      set (pr_providers (ss_patches (resolve_dependencies session) ! p)) = set (required_patches session (ss_patches session ! p))"
    and "p < length (ss_patches session) \<Longrightarrow> pr_state (ss_patches (resolve_dependencies session) ! p) = PFailed \<Longrightarrow>
      pr_state (ss_patches session ! p) = PFailed \<or> unresolved session (ss_patches session ! p) \<or>
      (\<exists>q \<in> set (required_patches session (ss_patches session ! p)).
         pr_state (ss_patches (resolve_dependencies session) ! q) = PDisabled \<or>
         pr_state (ss_patches (resolve_dependencies session) ! q) = PFailed) \<or>
      (p, p) \<in> {(a, b). a < length (ss_patches session) \<and> b \<in> set (required_patches session (ss_patches session ! a))}\<^sup>+"
    and "p < length (ss_patches session) \<Longrightarrow>
      terminal_state (if unresolved session (ss_patches session ! p) then PFailed else pr_state (ss_patches session ! p)) \<Longrightarrow>
      pr_state (ss_patches (resolve_dependencies session) ! p) =
        (if unresolved session (ss_patches session ! p) then PFailed else pr_state (ss_patches session ! p))"
proof -
  let ?s = "rebuild_session session"
  have l: "length (ss_patches ?s) = length (ss_patches session)" by (simp add: rebuild_session_def)
  note v = visit_session_correct [OF rebuild_valid [OF assms]]
  have after: "ss_patches (resolve_dependencies session) = vs_patches (visit_session ?s)"
    by (simp add: resolve_dependencies_def Let_def)
  have size: "length (vs_patches (visit_session ?s)) = length (ss_patches session)"
    using same_records_length [OF v(2)] l by simp
  have rebuilt: "set (pr_providers (ss_patches ?s ! a)) = set (required_patches session (ss_patches session ! a))"
    "pr_state (ss_patches ?s ! a) = (if unresolved session (ss_patches session ! a) then PFailed else pr_state (ss_patches session ! a))"
    if "a < length (ss_patches session)" for a
    using that by (simp_all add: rebuild_session_def rebuild_named)
  have providers: "set (pr_providers (ss_patches (resolve_dependencies session) ! a)) = set (required_patches session (ss_patches session ! a))"
    if "a < length (ss_patches session)" for a
    using same_records_providers [OF v(2), of a] that by (simp add: after rebuilt l)
  then have edges: "provider_edges (vs_patches (visit_session ?s)) =
      {(a, b). a < length (ss_patches session) \<and> b \<in> set (required_patches session (ss_patches session ! a))}"
    by (auto simp: provider_edges_def after size)
  show "p < length (ss_patches session) \<Longrightarrow>
      set (pr_providers (ss_patches (resolve_dependencies session) ! p)) = set (required_patches session (ss_patches session ! p))"
    by (rule providers)
  show "p < length (ss_patches session) \<Longrightarrow>
      terminal_state (if unresolved session (ss_patches session ! p) then PFailed else pr_state (ss_patches session ! p)) \<Longrightarrow>
      pr_state (ss_patches (resolve_dependencies session) ! p) =
        (if unresolved session (ss_patches session ! p) then PFailed else pr_state (ss_patches session ! p))"
    using v(4) [of p] l by (simp add: after rebuilt)
  assume p: "p < length (ss_patches session)"
  have "caused \<lparr>vs_patches = ss_patches ?s, vs_visited = []\<rparr> (visit_session ?s) p"
    using v(3) p size by (simp add: all_caused_def)
  then show "pr_state (ss_patches (resolve_dependencies session) ! p) = PFailed \<Longrightarrow>
      pr_state (ss_patches session ! p) = PFailed \<or> unresolved session (ss_patches session ! p) \<or>
      (\<exists>q \<in> set (required_patches session (ss_patches session ! p)).
         pr_state (ss_patches (resolve_dependencies session) ! q) = PDisabled \<or>
         pr_state (ss_patches (resolve_dependencies session) ! q) = PFailed) \<or>
      (p, p) \<in> {(a, b). a < length (ss_patches session) \<and> b \<in> set (required_patches session (ss_patches session ! a))}\<^sup>+"
    using providers [OF p] rebuilt(2) [OF p] unfolding caused_def edges by (auto simp: after split: if_splits)
qed

section \<open>Properties\<close>

text \<open>C4: After dependencies are resolved there is an order of the unfinished patches in which each
  patch that has not failed comes after all its providers, except those already installed: no cycle
  is left among them. None of its providers is disabled or failed, and it waits when one of them
  waits; so a patch left in planning has only installed or planned providers, all the way down.\<close>

theorem dependencies_settle:
  assumes "providers_valid session"
  shows "\<exists>order. dependency_order (ss_patches (resolve_dependencies session)) order"
  using visit_session_correct(1) [OF rebuild_valid [OF assms]]
  by (auto simp: resolve_dependencies_def Let_def)

text \<open>A session of two patches of one plugin that name each other.\<close>

definition example_patch :: "string \<Rightarrow> string \<Rightarrow> FC_Patch" where
  "example_patch ident reference =
    \<lparr>fp_id = ident, fp_description = [], fp_category = [], fp_enabled = 1, fp_configurable = 0,
     fp_failure_policy = FC_FAILURE_CONTINUE, fp_update_interval_ms = 0, fp_depends_on = [reference],
     fp_variants = []\<rparr>"

definition example_record :: "nat \<Rightarrow> string \<Rightarrow> string \<Rightarrow> PatchRecord" where
  "example_record index ident reference =
    \<lparr>pr_plugin = 0, pr_index = index, pr_definition = example_patch ident reference, pr_internal = None,
     pr_resolved = None,
     pr_selection = no_selection,
     pr_enabled = True, pr_selected_for_startup = True, pr_state = PPlanning, pr_reason = [],
     pr_providers = []\<rparr>"

definition example_session :: SelectionSession where
  "example_session =
    \<lparr>ss_catalog = [], ss_role = FC_ROLE_CLIENT,
     ss_plugins = [\<lparr>pl_admitted = \<lparr>ap_owner = ''p'', ap_definition =
         \<lparr>fl_id = ''p'', fl_version = [], fl_categories = [], fl_groups = [],
          fl_patches = [example_patch ''a'' ''b'', example_patch ''b'' ''a'']\<rparr>\<rparr>,
       pl_configuration = None, pl_failure = None\<rparr>],
     ss_patches = [example_record 0 ''a'' ''b'', example_record 1 ''b'' ''a''],
     ss_diagnostics = [], ss_fatal = False\<rparr>"

lemma example_valid: "providers_valid example_session"
  by (simp add: providers_valid_def example_session_def example_record_def)

theorem dependencies_settle_witness:
  "providers_valid example_session \<and>
   (\<exists>order. dependency_order (ss_patches (resolve_dependencies example_session)) order)"
  using dependencies_settle [OF example_valid] example_valid by simp

text \<open>C28: The providers of a patch after the pass are those its references name before it. A patch is failed by the
  pass only for a cause: it waits to be installed and one of its references names no plugin, or neither a patch nor a
  group of it; or one of its providers is disabled or failed; or it lies on a cycle of providers. A reference that names
  nothing always fails it. Otherwise a patch that was disabled, installed or failed before the pass keeps its state; for
  an installed or failed one this is so whatever its references name.\<close>

theorem dependency_failures_caused:
  assumes "providers_valid session" and "p < length (ss_patches session)"
  shows "set (pr_providers (ss_patches (resolve_dependencies session) ! p)) = set (required_patches session (ss_patches session ! p)) \<and>
    (pr_state (ss_patches (resolve_dependencies session) ! p) \<noteq> PFailed \<or>
      pr_state (ss_patches session ! p) = PFailed \<or>
      unresolved session (ss_patches session ! p) \<or>
      (\<exists>q \<in> set (required_patches session (ss_patches session ! p)).
         pr_state (ss_patches (resolve_dependencies session) ! q) = PDisabled \<or>
         pr_state (ss_patches (resolve_dependencies session) ! q) = PFailed) \<or>
      (p, p) \<in> {(a, b). a < length (ss_patches session) \<and> b \<in> set (required_patches session (ss_patches session ! a))}\<^sup>+) \<and>
    (unresolved session (ss_patches session ! p) \<longrightarrow> pr_state (ss_patches (resolve_dependencies session) ! p) = PFailed) \<and>
    (\<not> unresolved session (ss_patches session ! p) \<and> terminal_state (pr_state (ss_patches session ! p)) \<longrightarrow>
      pr_state (ss_patches (resolve_dependencies session) ! p) = pr_state (ss_patches session ! p)) \<and>
    (pr_state (ss_patches session ! p) = PInstalled \<or> pr_state (ss_patches session ! p) = PFailed \<longrightarrow>
      pr_state (ss_patches (resolve_dependencies session) ! p) = pr_state (ss_patches session ! p))"
proof -
  note passed = pass_results [OF assms(1)]
  have "unresolved session (ss_patches session ! p) \<Longrightarrow>
      \<not> (pr_state (ss_patches session ! p) = PInstalled \<or> pr_state (ss_patches session ! p) = PFailed)"
    by (auto simp: unresolved_def pending_patch_def)
  then show ?thesis using passed(1,2,3) [OF assms(2)] by (auto simp: terminal_state_def)
qed

text \<open>Two patches, of which the first names a patch that does not exist and the second names the first.\<close>

definition missing_session :: SelectionSession where
  "missing_session = example_session\<lparr>ss_patches := [example_record 0 ''a'' ''missing'', example_record 1 ''b'' ''a'']\<rparr>"

lemma missing_valid: "providers_valid missing_session" "length (ss_patches missing_session) = 2"
  by (simp_all add: providers_valid_def missing_session_def example_record_def)

lemma missing_references:
  "unresolved missing_session (ss_patches missing_session ! 0) \<and> required_patches missing_session (ss_patches missing_session ! 1) = [0]"
  by code_simp

theorem dependency_failures_caused_witness:
  "pr_state (ss_patches (resolve_dependencies missing_session) ! 0) = PFailed \<and>
   set (pr_providers (ss_patches (resolve_dependencies missing_session) ! 1)) = {0}"
  using dependency_failures_caused [OF missing_valid(1), of 0] dependency_failures_caused [OF missing_valid(1), of 1]
    missing_references missing_valid(2) by simp

end
