(* ===== verification/Multiplayer_Base.thy ===== *)
theory Multiplayer_Base
  imports Message_Protocol Status_Text Patch_Records
begin

unbundle bit_operations_syntax

text \<open>
  The state of the multiplayer service (\<open>runtime/src/multiplayer.hpp\<close>) and the helpers its operations
  share: diagnostics, rejection, timeouts, and the release of queued messages with their byte charges.
  The lock is taken for a whole operation, so an operation is one function on the state. Features are
  named by their address, patches by their number; a peer ID is the number it wraps, zero for none.
  Time is counted in nanoseconds of the steady clock.
\<close>

section \<open>Data\<close>

datatype GameMode = GameLocal | GameHost | GameClient | GameDedicated | GameNone

record GameState =
  gs_session :: u64
  gs_mode :: GameMode

record PeerInfo =
  pi_slot :: "u32 option"
  pi_galaxy_id :: "u64 option"

definition no_info :: PeerInfo where
  "no_info = \<lparr>pi_slot = None, pi_galaxy_id = None\<rparr>"

datatype Agreement = Unavailable | Pending | Compatible | Incompatible | Failed

datatype SendResult = SendAccepted | SendUnavailable | SendPending | SendIncompatible | SendFull
  | SendTooLarge | SendFailed

datatype CarrierResult = CarrierAccepted | CarrierRetry | CarrierFailed

definition FC_FEATURE_CLIENT :: u32 where "FC_FEATURE_CLIENT = 1"
definition FC_FEATURE_HOST :: u32 where "FC_FEATURE_HOST = 2"
definition FC_FEATURE_BOTH :: u32 where "FC_FEATURE_BOTH = 3"

type_synonym peer_id = nat

text \<open>A registered callback is known by a number for its capture and function. The agreements of the
  last pass are ordered by peer, as the map that holds them.\<close>

record FC_Feature =
  ft_address :: nat
  ft_owner :: nat
  ft_id :: "byte list"
  ft_role :: u32
  ft_frozen :: u32
  ft_payload_capacity :: u32
  ft_peers :: "nat list"
  ft_last :: "(peer_id \<times> Agreement) list"
  ft_messages :: "nat list"

datatype Phase = AwaitHello | PhaseHello | AwaitWelcome | PhaseWelcome | AwaitReady | PhaseReady
  | Established | Expired | PhaseFailed

datatype Rejection = InvalidPacket | WrongRole | WrongStage | RepeatedHello | ClientToken | HostToken

fun rejection_flag :: "Rejection \<Rightarrow> byte" where
  "rejection_flag InvalidPacket = 1"
| "rejection_flag WrongRole = 2"
| "rejection_flag WrongStage = 4"
| "rejection_flag RepeatedHello = 8"
| "rejection_flag ClientToken = 16"
| "rejection_flag HostToken = 32"

definition kQueueBytes :: nat where "kQueueBytes = 64 * 1024"

record OutgoingMessage =
  om_feature :: nat
  om_peer :: peer_id
  om_bytes :: "byte list"

record IncomingMessage =
  im_feature :: nat
  im_peer :: peer_id
  im_connection :: peer_id
  im_bytes :: "byte list"

record PendingHello =
  ph_sender :: u64
  ph_deadline :: nat
  ph_bytes :: "byte list"

text \<open>The sizes of the three queue records depend on the build.\<close>

record layout =
  sizeof_outgoing :: nat
  sizeof_incoming :: nat
  sizeof_hello :: nat

definition outgoing_charge :: "layout \<Rightarrow> OutgoingMessage \<Rightarrow> nat" where
  "outgoing_charge lay message = sizeof_outgoing lay + length (om_bytes message)"

definition incoming_charge :: "layout \<Rightarrow> IncomingMessage \<Rightarrow> nat" where
  "incoming_charge lay message = sizeof_incoming lay + length (im_bytes message)"

definition hello_charge :: "layout \<Rightarrow> PendingHello \<Rightarrow> nat" where
  "hello_charge lay hello = sizeof_hello lay + length (ph_bytes hello)"

record FeaturePath =
  fa_id :: "byte list"
  fa_remote_supported :: bool
  fa_failed :: bool
  fa_notice_pending :: bool
  fa_reason :: string

definition new_path :: "byte list \<Rightarrow> FeaturePath" where
  "new_path ident = \<lparr>fa_id = ident, fa_remote_supported = False, fa_failed = False,
     fa_notice_pending = False, fa_reason = []\<rparr>"

record Connection =
  cn_id :: peer_id
  cn_native_slot :: u32
  cn_raw :: u64
  cn_info :: PeerInfo
  cn_local :: bool
  cn_phase :: Phase
  cn_deadline :: nat
  cn_client_token :: u64
  cn_host_token :: u64
  cn_paths :: "FeaturePath list"
  cn_whole_notice :: bool
  cn_rejected :: byte
  cn_failure_reason :: string
  cn_outgoing :: "OutgoingMessage list"

definition empty_connection :: Connection where
  "empty_connection = \<lparr>cn_id = 0, cn_native_slot = 0, cn_raw = 0, cn_info = no_info, cn_local = False,
     cn_phase = AwaitHello, cn_deadline = 0, cn_client_token = 0, cn_host_token = 0, cn_paths = [],
     cn_whole_notice = False, cn_rejected = 0, cn_failure_reason = [], cn_outgoing = []\<rparr>"

text \<open>What the service reads of a patch: its name, its state, and whether it has a runtime to report to.\<close>

record patch_owner =
  ow_name :: string
  ow_state :: PatchState
  ow_runtime :: bool

text \<open>A reported line: the patch it is attributed to, if any, its level and its text.\<close>

type_synonym report_line = "nat option \<times> FC_LogLevel \<times> string"

text \<open>Beside the members of the class, the state holds the process-wide peer counter, the owners and
  the lines reported so far, the latest last.\<close>

record MultiplayerService =
  ms_features :: "FC_Feature list"
  ms_connections :: "Connection list"
  ms_host :: peer_id
  ms_local :: peer_id
  ms_host_info :: PeerInfo
  ms_local_info :: PeerInfo
  ms_mode :: GameMode
  ms_client_manifest :: "byte list list"
  ms_host_manifest :: "byte list list"
  ms_feature_ids :: "byte list list"
  ms_selected :: bool
  ms_remote_available :: bool
  ms_pumping :: bool
  ms_unknown_sender_logged :: bool
  ms_incoming :: "IncomingMessage list"
  ms_pending_hellos :: "PendingHello list"
  ms_outgoing_bytes :: nat
  ms_incoming_bytes :: nat
  ms_next_peer :: nat
  ms_next_feature :: nat
  ms_owners :: "nat \<Rightarrow> patch_owner"
  ms_reports :: "report_line list"

definition initial_service :: "(nat \<Rightarrow> patch_owner) \<Rightarrow> MultiplayerService" where
  "initial_service owners =
    \<lparr>ms_features = [], ms_connections = [], ms_host = 0, ms_local = 0, ms_host_info = no_info,
     ms_local_info = no_info, ms_mode = GameLocal, ms_client_manifest = [], ms_host_manifest = [],
     ms_feature_ids = [], ms_selected = False, ms_remote_available = False, ms_pumping = False,
     ms_unknown_sender_logged = False, ms_incoming = [], ms_pending_hellos = [], ms_outgoing_bytes = 0,
     ms_incoming_bytes = 0, ms_next_peer = 0, ms_next_feature = 0, ms_owners = owners, ms_reports = []\<rparr>"

definition owner_state :: "MultiplayerService \<Rightarrow> FC_Feature \<Rightarrow> PatchState" where
  "owner_state st feature = ow_state (ms_owners st (ft_owner feature))"

definition owner_runtime :: "MultiplayerService \<Rightarrow> FC_Feature \<Rightarrow> bool" where
  "owner_runtime st feature = ow_runtime (ms_owners st (ft_owner feature))"

definition feature_at :: "MultiplayerService \<Rightarrow> nat \<Rightarrow> FC_Feature option" where
  "feature_at st address = List.find (\<lambda>feature. ft_address feature = address) (ms_features st)"

text \<open>The counter starts at zero and its value plus one is the new ID; the code asserts that it does not
  run out.\<close>

definition next_peer :: "MultiplayerService \<Rightarrow> peer_id \<times> MultiplayerService" where
  "next_peer st = (ms_next_peer st + 1, st\<lparr>ms_next_peer := ms_next_peer st + 1\<rparr>)"

section \<open>Diagnostics\<close>

fun agreement_name :: "Agreement \<Rightarrow> string" where
  "agreement_name Unavailable = ''Unavailable''"
| "agreement_name Pending = ''Pending''"
| "agreement_name Compatible = ''Compatible''"
| "agreement_name Incompatible = ''Incompatible''"
| "agreement_name Failed = ''Failed''"

fun pending_step :: "Phase \<Rightarrow> string" where
  "pending_step AwaitHello = ''waiting for Hello''"
| "pending_step PhaseHello = ''submitting Hello''"
| "pending_step AwaitWelcome = ''waiting for Welcome''"
| "pending_step PhaseWelcome = ''submitting Welcome''"
| "pending_step AwaitReady = ''waiting for Ready''"
| "pending_step PhaseReady = ''submitting Ready''"
| "pending_step Established = ''negotiation completed''"
| "pending_step Expired = ''negotiation expired''"
| "pending_step PhaseFailed = ''connection failed''"

definition report :: "nat option \<Rightarrow> FC_LogLevel \<Rightarrow> string \<Rightarrow> MultiplayerService \<Rightarrow> MultiplayerService" where
  "report owner level message st = st\<lparr>ms_reports := ms_reports st @ [(owner, level, message)]\<rparr>"

definition log :: "FC_LogLevel \<Rightarrow> string \<Rightarrow> MultiplayerService \<Rightarrow> MultiplayerService" where
  "log level message st =
    (if list_ex (\<lambda>feature. ft_frozen feature \<noteq> 0 \<and> owner_runtime st feature) (ms_features st)
     then report None level message st else st)"

text \<open>The start most diagnostics of a connection share.\<close>

definition peer_text :: "Connection \<Rightarrow> string" where
  "peer_text c = decimal (cn_id c) @ '' at native slot '' @ decimal (unat (cn_native_slot c)) @
     '' destination '' @ decimal (unat (cn_raw c))"

section \<open>Connections\<close>

definition conn :: "MultiplayerService \<Rightarrow> nat \<Rightarrow> Connection" where
  "conn st k = ms_connections st ! k"

definition set_conn :: "nat \<Rightarrow> Connection \<Rightarrow> MultiplayerService \<Rightarrow> MultiplayerService" where
  "set_conn k c st = st\<lparr>ms_connections := (ms_connections st)[k := c]\<rparr>"

definition timeout :: "nat \<Rightarrow> nat \<Rightarrow> MultiplayerService \<Rightarrow> MultiplayerService" where
  "timeout k now st =
    (let c = conn st k
     in if cn_local c \<or> cn_phase c = Established \<or> cn_phase c = PhaseFailed \<or> cn_phase c = Expired \<or>
           now < cn_deadline c then st
        else set_conn k (c\<lparr>cn_phase := Expired\<rparr>)
          (log FC_LOG_DEBUG (''Multiplayer peer '' @ peer_text c @
             '': negotiation timed out after 3 seconds while '' @ pending_step (cn_phase c)) st))"

definition reject :: "nat \<Rightarrow> Rejection \<Rightarrow> string \<Rightarrow> MultiplayerService \<Rightarrow> MultiplayerService" where
  "reject k cause reason st =
    (let c = conn st k; flag = rejection_flag cause
     in if cn_phase c = Established \<or> cn_phase c = Expired \<or> cn_phase c = PhaseFailed \<or>
           cn_rejected c AND flag \<noteq> 0 then st
        else log FC_LOG_DEBUG (''Multiplayer peer '' @ peer_text c @ '': rejected packet: '' @ reason @
               '' while '' @ pending_step (cn_phase c))
             (set_conn k (c\<lparr>cn_rejected := cn_rejected c OR flag\<rparr>) st))"

definition discard_messages :: "layout \<Rightarrow> nat \<Rightarrow> MultiplayerService \<Rightarrow> MultiplayerService" where
  "discard_messages lay k st =
    (let c = conn st k;
         removed = filter (\<lambda>message. im_connection message = cn_id c) (ms_incoming st)
     in st\<lparr>ms_outgoing_bytes := ms_outgoing_bytes st - sum_list (map (outgoing_charge lay) (cn_outgoing c)),
           ms_connections := (ms_connections st)[k := c\<lparr>cn_outgoing := []\<rparr>],
           ms_incoming := filter (\<lambda>message. im_connection message \<noteq> cn_id c) (ms_incoming st),
           ms_incoming_bytes := ms_incoming_bytes st - sum_list (map (incoming_charge lay) removed)\<rparr>)"

definition expire :: "layout \<Rightarrow> nat \<Rightarrow> MultiplayerService \<Rightarrow> MultiplayerService" where
  "expire lay k st = set_conn k empty_connection (discard_messages lay k st)"

text \<open>The loops that expire every connection, or all but the one at \<open>keep\<close>.\<close>

fun expire_list :: "layout \<Rightarrow> nat list \<Rightarrow> MultiplayerService \<Rightarrow> MultiplayerService" where
  "expire_list lay [] st = st"
| "expire_list lay (k # ks) st = expire_list lay ks (expire lay k st)"

definition expire_all :: "layout \<Rightarrow> MultiplayerService \<Rightarrow> MultiplayerService" where
  "expire_all lay st = expire_list lay [0..<length (ms_connections st)] st"

definition expire_others :: "layout \<Rightarrow> nat \<Rightarrow> MultiplayerService \<Rightarrow> MultiplayerService" where
  "expire_others lay keep st =
    expire_list lay (filter (\<lambda>k. k \<noteq> keep) [0..<length (ms_connections st)]) st"

text \<open>\<open>None\<close> is the greatest time point, which no deadline exceeds.\<close>

definition hello_expired :: "nat option \<Rightarrow> PendingHello \<Rightarrow> bool" where
  "hello_expired now hello = (case now of None \<Rightarrow> True | Some time \<Rightarrow> \<not> time < ph_deadline hello)"

definition expire_hellos :: "layout \<Rightarrow> nat option \<Rightarrow> MultiplayerService \<Rightarrow> MultiplayerService" where
  "expire_hellos lay now st =
    st\<lparr>ms_pending_hellos := filter (\<lambda>hello. \<not> hello_expired now hello) (ms_pending_hellos st),
       ms_incoming_bytes := ms_incoming_bytes st -
         sum_list (map (hello_charge lay) (filter (hello_expired now) (ms_pending_hellos st)))\<rparr>"

definition fail_connection :: "layout \<Rightarrow> nat \<Rightarrow> string \<Rightarrow> MultiplayerService \<Rightarrow> MultiplayerService" where
  "fail_connection lay k reason st =
    (let c = conn st k;
         st1 = discard_messages lay k
           (set_conn k (c\<lparr>cn_phase := PhaseFailed, cn_whole_notice := \<not> cn_local c\<rparr>) st);
         st2 = set_conn k ((conn st1 k)\<lparr>cn_failure_reason := reason\<rparr>) st1
     in if cn_phase c \<noteq> PhaseFailed
        then log FC_LOG_ERROR (''Multiplayer connection failed for peer '' @ peer_text c @ '': '' @ reason) st2
        else st2)"

section \<open>Tokens\<close>

text \<open>The system's random source gives a value or fails; zero is drawn again.\<close>

partial_function (option) token :: "(nat \<Rightarrow> u64 option) \<Rightarrow> nat \<Rightarrow> u64 option option" where
  "token draw n =
    (case draw n of
       None \<Rightarrow> Some None
     | Some value \<Rightarrow> if value = 0 then token draw (n + 1) else Some (Some value))"

lemma token_nonzero: "token draw n = Some random \<Longrightarrow> random \<noteq> Some 0"
  apply (rule token.raw_induct [where P = "\<lambda>draw n random. random \<noteq> Some 0" and draw = draw and n = n])
   apply (erule_tac [2] asm_rl)
  apply (auto split: option.splits if_splits)
  done

lemma token_returns:
  "\<forall>k < m. draw (n + k) = Some 0 \<Longrightarrow> draw (n + m) = Some v \<Longrightarrow> v \<noteq> 0 \<Longrightarrow>
   token draw n = Some (Some v)"
proof (induction m arbitrary: n)
  case 0
  then show ?case by (subst token.simps) simp
next
  case (Suc m)
  then have "draw (n + 0) = Some 0" by blast
  moreover have "\<forall>k < m. draw (n + 1 + k) = Some 0" using Suc.prems(1) by auto
  from Suc.IH [OF this] Suc.prems(2,3) have "token draw (n + 1) = Some (Some v)" by simp
  ultimately show ?case by (subst token.simps) simp
qed

section \<open>Accepting a Hello\<close>

definition support_paths :: "byte list list \<Rightarrow> FeaturePath list \<Rightarrow> FeaturePath list" where
  "support_paths manifest paths =
    map (\<lambda>path. path\<lparr>fa_remote_supported := fa_id path \<in> set manifest\<rparr>) paths"

text \<open>\<open>random\<close> is what \<open>token\<close> returns. The manifest of a parsed frame is sorted, so the binary search
  finds exactly its members.\<close>

definition accept_hello :: "layout \<Rightarrow> u64 option \<Rightarrow> nat \<Rightarrow> u64 \<Rightarrow> byte list list
    \<Rightarrow> MultiplayerService \<Rightarrow> MultiplayerService" where
  "accept_hello lay random k client_token manifest st =
    (let c = conn st k
     in if cn_phase c \<noteq> AwaitHello \<and> cn_phase c \<noteq> PhaseWelcome \<and> cn_phase c \<noteq> AwaitReady
        then reject k WrongStage ''Hello arrived at the wrong negotiation stage'' st
        else if cn_client_token c = client_token
        then reject k RepeatedHello ''Hello repeats the current connection token'' st
        else
          (case random of
             None \<Rightarrow> fail_connection lay k ''Could not generate a multiplayer connection token'' st
           | Some fresh \<Rightarrow>
               log FC_LOG_DEBUG (''Multiplayer peer '' @ peer_text c @ '': Hello received; submitting Welcome'')
                 (set_conn k (c\<lparr>cn_client_token := client_token, cn_host_token := fresh,
                    cn_paths := support_paths manifest (cn_paths c), cn_phase := PhaseWelcome\<rparr>) st)))"

end
