(* ===== verification/Multiplayer_Service.thy ===== *)
theory Multiplayer_Service
  imports Multiplayer_Base
begin

unbundle bit_operations_syntax

text \<open>
  The operations of the multiplayer service (\<open>runtime/src/multiplayer.cpp\<close>): sessions, native
  connections, registrations, agreement, and the sending and failing of features.
\<close>

section \<open>Sessions\<close>

fun set_union :: "byte list list \<Rightarrow> byte list list \<Rightarrow> byte list list" where
  "set_union [] bs = bs"
| "set_union (a # as) [] = a # as"
| "set_union (a # as) (b # bs) =
     (if a < b then a # set_union as (b # bs)
      else if b < a then b # set_union (a # as) bs
      else a # set_union as bs)"

definition frame_size :: "(nat \<times> byte list) option \<Rightarrow> nat" where
  "frame_size written = (case written of Some (used, _) \<Rightarrow> used | None \<Rightarrow> 0)"

definition applicable_roles :: "GameMode \<Rightarrow> u32" where
  "applicable_roles mode =
    (case mode of GameHost \<Rightarrow> FC_FEATURE_BOTH | GameClient \<Rightarrow> FC_FEATURE_CLIENT | _ \<Rightarrow> FC_FEATURE_HOST)"

definition freeze :: "MultiplayerService \<Rightarrow> bool \<Rightarrow> u32 \<Rightarrow> FC_Feature \<Rightarrow> FC_Feature" where
  "freeze st selected applicable feature =
    feature\<lparr>ft_frozen := (if selected \<and> owner_state st feature = PInstalled
                            then ft_role feature AND applicable else 0)\<rparr>"

definition role_manifest :: "u32 \<Rightarrow> FC_Feature list \<Rightarrow> byte list list" where
  "role_manifest role features =
    sort (map ft_id (filter (\<lambda>feature. ft_frozen feature AND role \<noteq> 0) features))"

definition manifests_encode :: "u32 \<Rightarrow> byte list list \<Rightarrow> byte list list \<Rightarrow> bool" where
  "manifests_encode applicable client_manifest host_manifest =
    (let frame = replicate kFrameBytes 0
     in (applicable AND FC_FEATURE_CLIENT = 0 \<or>
           frame_size (encode_manifest Hello \<lparr>tok_client = 1, tok_host = 0\<rparr> client_manifest frame) \<noteq> 0) \<and>
        (applicable AND FC_FEATURE_HOST = 0 \<or>
           frame_size (encode_manifest Welcome \<lparr>tok_client = 1, tok_host = 1\<rparr> host_manifest frame) \<noteq> 0))"

text \<open>The loops over the features use the owners' states as they are while the lock is held.\<close>

definition begin_session :: "layout \<Rightarrow> GameState \<Rightarrow> bool \<Rightarrow> MultiplayerService \<Rightarrow> MultiplayerService" where
  "begin_session lay state galaxy_selected st =
    (let st1 = expire_all lay (expire_hellos lay None st);
         mode = gs_mode state;
         selected = (galaxy_selected \<and> gs_session state \<noteq> 0 \<and>
                     (mode = GameHost \<or> mode = GameClient \<or> mode = GameDedicated));
         applicable = applicable_roles mode;
         features = map (freeze st1 selected applicable) (ms_features st1);
         client_manifest = role_manifest FC_FEATURE_CLIENT features;
         host_manifest = role_manifest FC_FEATURE_HOST features;
         remote = (selected \<and> manifests_encode applicable client_manifest host_manifest);
         st2 = st1\<lparr>ms_host := 0, ms_local := 0, ms_host_info := no_info, ms_local_info := no_info,
           ms_mode := mode, ms_unknown_sender_logged := False, ms_selected := selected,
           ms_features := features, ms_client_manifest := client_manifest,
           ms_host_manifest := host_manifest, ms_feature_ids := set_union client_manifest host_manifest,
           ms_remote_available := remote\<rparr>
     in if selected \<and> \<not> remote
        then log FC_LOG_ERROR
               ''Multiplayer remote messaging is unavailable: the feature manifest exceeds 2048 bytes'' st2
        else st2)"

definition end_session :: "layout \<Rightarrow> MultiplayerService \<Rightarrow> MultiplayerService" where
  "end_session lay st =
    (let st1 = expire_all lay (expire_hellos lay None st)
     in st1\<lparr>ms_host := 0, ms_local := 0, ms_host_info := no_info, ms_local_info := no_info,
          ms_mode := GameLocal, ms_client_manifest := [], ms_host_manifest := [], ms_feature_ids := [],
          ms_selected := False, ms_remote_available := False,
          ms_features := map (\<lambda>feature. feature\<lparr>ft_frozen := 0\<rparr>) (ms_features st1)\<rparr>)"

section \<open>Native connections\<close>

definition slot_index :: "MultiplayerService \<Rightarrow> u32 \<Rightarrow> nat option" where
  "slot_index st slot = find_index (\<lambda>c. cn_id c \<noteq> 0 \<and> cn_native_slot c = slot) (ms_connections st)"

text \<open>The record of the slot, else a free one, else a new one at the end.\<close>

definition claim_slot :: "u32 \<Rightarrow> MultiplayerService \<Rightarrow> nat \<times> MultiplayerService" where
  "claim_slot slot st =
    (case slot_index st slot of
       Some k \<Rightarrow> (k, st)
     | None \<Rightarrow>
         (case find_index (\<lambda>c. cn_id c = 0) (ms_connections st) of
            Some k \<Rightarrow> (k, st)
          | None \<Rightarrow> (length (ms_connections st),
                     st\<lparr>ms_connections := ms_connections st @ [empty_connection]\<rparr>)))"

definition refresh_connection :: "nat \<Rightarrow> u64 option \<Rightarrow> MultiplayerService \<Rightarrow> MultiplayerService" where
  "refresh_connection k user_id st =
    (let c = conn st k; st1 = set_conn k (c\<lparr>cn_info := (cn_info c)\<lparr>pi_galaxy_id := user_id\<rparr>\<rparr>) st
     in if cn_local c
        then st1\<lparr>ms_local_info := (ms_local_info st1)\<lparr>pi_galaxy_id := user_id\<rparr>,
                 ms_host_info := (ms_host_info st1)\<lparr>pi_galaxy_id := user_id\<rparr>\<rparr>
        else st1)"

definition open_connection :: "nat \<Rightarrow> nat \<Rightarrow> u32 \<Rightarrow> u64 \<Rightarrow> u64 option \<Rightarrow> bool
    \<Rightarrow> MultiplayerService \<Rightarrow> MultiplayerService" where
  "open_connection k now slot raw_address user_id is_local st =
    (case next_peer st of (ident, st1) \<Rightarrow>
       set_conn k (empty_connection\<lparr>cn_id := ident, cn_native_slot := slot, cn_raw := raw_address,
         cn_info := \<lparr>pi_slot = Some slot, pi_galaxy_id = user_id\<rparr>,
         cn_local := (is_local \<and> ms_mode st1 = GameHost), cn_deadline := now + 3 * 10 ^ 9,
         cn_paths := map new_path (ms_feature_ids st1)\<rparr>) st1)"

definition join_host :: "layout \<Rightarrow> nat \<Rightarrow> u64 option \<Rightarrow> MultiplayerService \<Rightarrow> MultiplayerService" where
  "join_host lay k random st =
    (let st1 = expire_others lay k st;
         st2 = st1\<lparr>ms_host := cn_id (conn st1 k)\<rparr>;
         st3 = (if ms_local st2 = 0
                then case next_peer st2 of (ident, st') \<Rightarrow> st'\<lparr>ms_local := ident\<rparr> else st2);
         st4 = set_conn k ((conn st3 k)\<lparr>cn_client_token := (case random of Some v \<Rightarrow> v | None \<Rightarrow> 0),
                 cn_phase := PhaseHello\<rparr>) st3
     in if random = None then fail_connection lay k ''Could not generate a multiplayer connection token'' st4
        else st4)"

definition accept_client :: "nat \<Rightarrow> u64 option \<Rightarrow> MultiplayerService \<Rightarrow> MultiplayerService" where
  "accept_client k user_id st =
    (let st1 = (if ms_host st = 0
                then case next_peer st of (ident, st') \<Rightarrow> st'\<lparr>ms_host := ident\<rparr> else st);
         c = conn st1 k
     in if cn_local c
        then set_conn k (c\<lparr>cn_phase := Established\<rparr>)
               (st1\<lparr>ms_local := cn_id c, ms_local_info := cn_info c,
                    ms_host_info := (ms_host_info st1)\<lparr>pi_galaxy_id := user_id\<rparr>\<rparr>)
        else st1)"

definition take_hello :: "layout \<Rightarrow> nat \<Rightarrow> u64 \<Rightarrow> u64 option \<Rightarrow> MultiplayerService \<Rightarrow> MultiplayerService" where
  "take_hello lay k raw_address random st =
    (case find_index (\<lambda>hello. ph_sender hello = raw_address) (ms_pending_hellos st) of
       None \<Rightarrow> st
     | Some n \<Rightarrow>
         (let hello = ms_pending_hellos st ! n; c = conn st k;
              st1 = (if \<not> cn_local c \<and> ms_mode st \<noteq> GameClient
                     then (case parse (ph_bytes hello) of
                             Some frame \<Rightarrow>
                               accept_hello lay random k (tok_client (pf_tokens frame)) (pf_manifest frame)
                                 (set_conn k (c\<lparr>cn_deadline := ph_deadline hello\<rparr>) st)
                           | None \<Rightarrow> st)
                     else st)
          in st1\<lparr>ms_incoming_bytes := ms_incoming_bytes st1 - hello_charge lay hello,
                 ms_pending_hellos := take n (ms_pending_hellos st1) @ drop (n + 1) (ms_pending_hellos st1)\<rparr>))"

text \<open>The endpoint of the record about to be replaced is gone, and a client joins anew.\<close>

definition forget_local :: "Connection \<Rightarrow> MultiplayerService \<Rightarrow> MultiplayerService" where
  "forget_local c st =
    (if cn_id c = ms_local st \<or> ms_mode st = GameClient \<and> ms_host st \<noteq> 0 then st\<lparr>ms_local := 0\<rparr> else st)"

definition establish_endpoints :: "layout \<Rightarrow> nat \<Rightarrow> u64 option \<Rightarrow> u64 option \<Rightarrow> MultiplayerService
    \<Rightarrow> MultiplayerService" where
  "establish_endpoints lay k random user_id st =
    (if ms_mode st = GameClient then join_host lay k random st else accept_client k user_id st)"

definition log_started :: "nat \<Rightarrow> MultiplayerService \<Rightarrow> MultiplayerService" where
  "log_started k st =
    (let c = conn st k
     in if cn_local c then st
        else log FC_LOG_DEBUG (''Multiplayer peer '' @ peer_text c @ '': negotiation started; '' @
               pending_step (cn_phase c)) st)"

text \<open>\<open>random\<close> is the one token the call draws: a client's own, or the answer to a retained Hello.\<close>

definition connect :: "layout \<Rightarrow> nat \<Rightarrow> u64 option \<Rightarrow> u32 \<Rightarrow> u64 \<Rightarrow> u64 option \<Rightarrow> bool
    \<Rightarrow> MultiplayerService \<Rightarrow> MultiplayerService" where
  "connect lay now random slot raw_address user_id is_local st =
    (if \<not> ms_selected st then st
     else
       (case claim_slot slot (expire_hellos lay (Some now) st) of (k, st1) \<Rightarrow>
          (let c = conn st1 k
           in if cn_id c \<noteq> 0 \<and> cn_raw c = raw_address then refresh_connection k user_id st1
              else take_hello lay k raw_address random
                     (log_started k
                       (establish_endpoints lay k random user_id
                         (open_connection k now slot raw_address user_id is_local
                           (expire lay k (forget_local c st1))))))))"

definition disconnect :: "layout \<Rightarrow> u32 \<Rightarrow> MultiplayerService \<Rightarrow> MultiplayerService" where
  "disconnect lay slot st =
    (case slot_index st slot of
       None \<Rightarrow> st
     | Some k \<Rightarrow>
         (let ident = cn_id (conn st k);
              st1 = (if ident = ms_local st then st\<lparr>ms_local := 0, ms_local_info := no_info\<rparr> else st);
              st2 = (if ident = ms_host st1
                     then st1\<lparr>ms_host := 0, ms_local := 0, ms_local_info := no_info\<rparr> else st1)
          in expire lay k st2))"

definition reset_connections :: "layout \<Rightarrow> MultiplayerService \<Rightarrow> MultiplayerService" where
  "reset_connections lay st =
    (expire_all lay (expire_hellos lay None st))
      \<lparr>ms_host := 0, ms_local := 0, ms_host_info := no_info, ms_local_info := no_info\<rparr>"

definition observe_local :: "PeerInfo \<Rightarrow> MultiplayerService \<Rightarrow> MultiplayerService" where
  "observe_local info st =
    (if \<not> ms_selected st then st
     else
       (let st1 = st\<lparr>ms_local_info := info\<rparr>;
            st2 = (if ms_mode st1 = GameHost \<or> ms_mode st1 = GameDedicated
                   then (let st' = (if ms_host st1 = 0
                                    then case next_peer st1 of (ident, s) \<Rightarrow> s\<lparr>ms_host := ident\<rparr> else st1)
                         in st'\<lparr>ms_host_info := (ms_host_info st')\<lparr>pi_galaxy_id := pi_galaxy_id info\<rparr>\<rparr>)
                   else if ms_mode st1 = GameClient \<and> ms_local st1 = 0
                   then (case next_peer st1 of (ident, s) \<Rightarrow> s\<lparr>ms_local := ident\<rparr>)
                   else st1)
        in if ms_mode st2 = GameHost \<and> ms_local st2 \<noteq> 0
           then st2\<lparr>ms_connections := map (\<lambda>c. if cn_id c = ms_local st2 then c\<lparr>cn_info := info\<rparr> else c)
                      (ms_connections st2)\<rparr>
           else st2))"

section \<open>Observations\<close>

definition clients :: "MultiplayerService \<Rightarrow> peer_id list" where
  "clients st =
    (if ms_mode st = GameHost \<or> ms_mode st = GameDedicated
     then map cn_id (filter (\<lambda>c. cn_id c \<noteq> 0) (ms_connections st)) else [])"

definition peer_info :: "MultiplayerService \<Rightarrow> peer_id \<Rightarrow> PeerInfo option" where
  "peer_info st peer =
    (if peer = 0 then None
     else
       (case List.find (\<lambda>c. cn_id c = peer) (ms_connections st) of
          Some c \<Rightarrow> Some (cn_info c)
        | None \<Rightarrow>
            (if peer = ms_host st then Some (ms_host_info st)
             else if peer = ms_local st then Some (ms_local_info st) else None)))"

section \<open>Registrations\<close>

definition register_feature :: "nat \<Rightarrow> byte list \<Rightarrow> u32 \<Rightarrow> MultiplayerService
    \<Rightarrow> (Diagnostic + nat) \<times> MultiplayerService" where
  "register_feature owner ident role st =
    (let name = ow_name (ms_owners st owner)
     in if ow_state (ms_owners st owner) \<noteq> PPreparing
        then (Inl (diagnostic name ''Register multiplayer features during prepare()''), st)
        else if \<not> valid_feature_id ident \<or> role < FC_FEATURE_CLIENT \<or> role > FC_FEATURE_BOTH
        then (Inl (diagnostic name ''Multiplayer feature ID or role is invalid''), st)
        else if list_ex (\<lambda>feature. ft_id feature = ident \<and> ft_role feature AND role \<noteq> 0) (ms_features st)
        then (Inl (diagnostic name
               ''A requested role is already registered for this multiplayer feature ID''), st)
        else
          (Inr (ms_next_feature st),
           st\<lparr>ms_features := ms_features st @ [\<lparr>ft_address = ms_next_feature st, ft_owner = owner,
                ft_id = ident, ft_role = role, ft_frozen = 0,
                ft_payload_capacity = of_nat (payload_capacity ident), ft_peers = [], ft_last = [],
                ft_messages = []\<rparr>],
              ms_next_feature := ms_next_feature st + 1\<rparr>))"

definition set_feature :: "nat \<Rightarrow> (FC_Feature \<Rightarrow> FC_Feature) \<Rightarrow> MultiplayerService \<Rightarrow> MultiplayerService" where
  "set_feature address change st =
    st\<lparr>ms_features := update_first (\<lambda>feature. ft_address feature = address) change (ms_features st)\<rparr>"

text \<open>A callback that is not callable is \<open>None\<close>.\<close>

definition on_peer :: "FC_Feature \<Rightarrow> nat option \<Rightarrow> MultiplayerService
    \<Rightarrow> (Diagnostic + unit) \<times> MultiplayerService" where
  "on_peer feature callback st =
    (case callback of
       Some f \<Rightarrow>
         (if owner_state st feature = PPreparing
          then (Inr (), set_feature (ft_address feature) (\<lambda>r. r\<lparr>ft_peers := ft_peers r @ [f]\<rparr>) st)
          else (Inl (diagnostic (ow_name (ms_owners st (ft_owner feature)))
                 ''Register a callable multiplayer peer callback during prepare()''), st))
     | None \<Rightarrow> (Inl (diagnostic (ow_name (ms_owners st (ft_owner feature)))
                 ''Register a callable multiplayer peer callback during prepare()''), st))"

definition on_message :: "FC_Feature \<Rightarrow> nat option \<Rightarrow> MultiplayerService
    \<Rightarrow> (Diagnostic + unit) \<times> MultiplayerService" where
  "on_message feature callback st =
    (case callback of
       Some f \<Rightarrow>
         (if owner_state st feature = PPreparing
          then (Inr (), set_feature (ft_address feature) (\<lambda>r. r\<lparr>ft_messages := ft_messages r @ [f]\<rparr>) st)
          else (Inl (diagnostic (ow_name (ms_owners st (ft_owner feature)))
                 ''Register a callable multiplayer message callback during prepare()''), st))
     | None \<Rightarrow> (Inl (diagnostic (ow_name (ms_owners st (ft_owner feature)))
                 ''Register a callable multiplayer message callback during prepare()''), st))"

definition discard_owner :: "nat \<Rightarrow> MultiplayerService \<Rightarrow> MultiplayerService" where
  "discard_owner owner st = st\<lparr>ms_features := filter (\<lambda>feature. ft_owner feature \<noteq> owner) (ms_features st)\<rparr>"

section \<open>Agreement\<close>

definition implementation :: "MultiplayerService \<Rightarrow> byte list \<Rightarrow> u32 \<Rightarrow> FC_Feature option" where
  "implementation st ident role =
    List.find (\<lambda>feature. ft_id feature = ident \<and> ft_frozen feature AND role \<noteq> 0) (ms_features st)"

definition connection_index :: "MultiplayerService \<Rightarrow> peer_id \<Rightarrow> nat option" where
  "connection_index st peer = find_index (\<lambda>c. cn_id c = peer) (ms_connections st)"

definition host_route :: "MultiplayerService \<Rightarrow> FC_Feature \<Rightarrow> peer_id \<Rightarrow> nat option" where
  "host_route st feature peer =
    (if ft_frozen feature AND FC_FEATURE_HOST \<noteq> 0 then connection_index st peer else None)"

definition route :: "MultiplayerService \<Rightarrow> FC_Feature \<Rightarrow> peer_id \<Rightarrow> nat option" where
  "route st feature peer =
    (if peer = 0 \<or> ft_frozen feature = 0 then None
     else if ft_frozen feature AND FC_FEATURE_CLIENT \<noteq> 0 \<and> peer = ms_host st
     then (if ms_mode st = GameClient then connection_index st (ms_host st)
           else (case (if ms_local st \<noteq> 0 then connection_index st (ms_local st) else None) of
                   Some k \<Rightarrow> Some k
                 | None \<Rightarrow> host_route st feature peer))
     else host_route st feature peer)"

definition find_path :: "byte list \<Rightarrow> Connection \<Rightarrow> FeaturePath option" where
  "find_path ident c = List.find (\<lambda>path. fa_id path = ident) (cn_paths c)"

definition agreement_locked :: "MultiplayerService \<Rightarrow> FC_Feature \<Rightarrow> peer_id \<Rightarrow> Agreement" where
  "agreement_locked st feature peer =
    (if owner_state st feature \<noteq> PInstalled then Unavailable
     else
       (case route st feature peer of
          None \<Rightarrow> Unavailable
        | Some k \<Rightarrow>
            (let c = conn st k; path = find_path (ft_id feature) c
             in if \<not> cn_local c \<and> \<not> ms_remote_available st then Unavailable
                else if cn_phase c = PhaseFailed \<or> (case path of Some p \<Rightarrow> fa_failed p | None \<Rightarrow> False)
                then Failed
                else if cn_phase c = Expired then Incompatible
                else if cn_phase c \<noteq> Established then Pending
                else if (if cn_local c
                         then implementation st (ft_id feature)
                                (if peer = ms_host st then FC_FEATURE_HOST else FC_FEATURE_CLIENT) \<noteq> None
                         else (case path of Some p \<Rightarrow> fa_remote_supported p | None \<Rightarrow> False))
                then Compatible else Incompatible)))"

definition max_payload :: "FC_Feature \<Rightarrow> u32" where
  "max_payload feature = ft_payload_capacity feature"

section \<open>Sending and failing\<close>

text \<open>\<open>locked\<close> is the outcome of trying the lock, \<open>memory\<close> whether the copy can be allocated.\<close>

definition send :: "layout \<Rightarrow> bool \<Rightarrow> bool \<Rightarrow> FC_Feature \<Rightarrow> peer_id \<Rightarrow> byte list \<Rightarrow> MultiplayerService
    \<Rightarrow> SendResult \<times> MultiplayerService" where
  "send lay locked memory feature peer bytes st =
    (if \<not> locked then (SendFull, st)
     else
       (case agreement_locked st feature peer of
          Unavailable \<Rightarrow> (SendUnavailable, st)
        | Pending \<Rightarrow> (SendPending, st)
        | Incompatible \<Rightarrow> (SendIncompatible, st)
        | Failed \<Rightarrow> (SendFailed, st)
        | Compatible \<Rightarrow>
            (if length bytes > unat (max_payload feature) then (SendTooLarge, st)
             else
               (let message = \<lparr>om_feature = ft_address feature, om_peer = peer, om_bytes = bytes\<rparr>;
                    charge = outgoing_charge lay message
                in if charge > kQueueBytes - ms_outgoing_bytes st then (SendFull, st)
                   else
                     (case route st feature peer of
                        Some k \<Rightarrow>
                          (if memory
                           then (SendAccepted,
                                 (set_conn k ((conn st k)\<lparr>cn_outgoing := cn_outgoing (conn st k) @ [message]\<rparr>) st)
                                   \<lparr>ms_outgoing_bytes := ms_outgoing_bytes st + charge\<rparr>)
                           else (SendFull, st))
                      | None \<Rightarrow> (SendFull, st))))))"

definition message_id :: "MultiplayerService \<Rightarrow> OutgoingMessage \<Rightarrow> byte list option" where
  "message_id st message = map_option ft_id (feature_at st (om_feature message))"

definition delivery_failure :: "peer_id \<Rightarrow> byte list \<Rightarrow> string \<Rightarrow> string" where
  "delivery_failure peer ident reason =
    ''Multiplayer delivery failed for peer '' @ decimal peer @ '' feature '' @ quoted (text_of_bytes ident) @
    '': '' @ reason"

definition fail_feature :: "layout \<Rightarrow> FC_Feature \<Rightarrow> peer_id \<Rightarrow> string \<Rightarrow> MultiplayerService \<Rightarrow> MultiplayerService" where
  "fail_feature lay feature peer reason st =
    (case route st feature peer of
       None \<Rightarrow> st
     | Some k \<Rightarrow>
         (let c = conn st k
          in case find_path (ft_id feature) c of
               None \<Rightarrow> st
             | Some path \<Rightarrow>
                 (if fa_failed path then st
                  else
                    (let paths = update_first (\<lambda>p. fa_id p = ft_id feature)
                           (\<lambda>p. p\<lparr>fa_failed := True, fa_notice_pending := \<not> cn_local c, fa_reason := reason\<rparr>)
                           (cn_paths c);
                         same = (\<lambda>message. message_id st message = Some (ft_id feature));
                         removed = filter same (cn_outgoing c);
                         st1 = (if owner_runtime st feature
                                then report (Some (ft_owner feature)) FC_LOG_ERROR
                                       (delivery_failure peer (ft_id feature) reason) st
                                else st)
                     in (set_conn k (c\<lparr>cn_paths := paths,
                           cn_outgoing := filter (\<lambda>message. \<not> same message) (cn_outgoing c)\<rparr>) st1)
                        \<lparr>ms_outgoing_bytes := ms_outgoing_bytes st1 - sum_list (map (outgoing_charge lay) removed)\<rparr>))))"

definition carrier_failed :: "layout \<Rightarrow> string \<Rightarrow> MultiplayerService \<Rightarrow> MultiplayerService" where
  "carrier_failed lay reason st =
    fold (\<lambda>k s. if cn_id (conn s k) \<noteq> 0 \<and> \<not> cn_local (conn s k) then fail_connection lay k reason s else s)
      [0..<length (ms_connections st)] (expire_hellos lay None st)"

section \<open>The report\<close>

text \<open>A separating blank line goes in front of an entry unless the report is still empty.\<close>

definition issue_entry :: "bool \<Rightarrow> string \<Rightarrow> string \<Rightarrow> string list \<Rightarrow> string list" where
  "issue_entry started title detail lines =
    lines @ (if lines \<noteq> [] \<or> started then [[]] else []) @ [title, ''  '' @ detail]"

definition connection_issues :: "bool \<Rightarrow> Connection \<Rightarrow> string list \<Rightarrow> string list" where
  "connection_issues started c lines =
    (if cn_id c = 0 then lines
     else if cn_phase c = PhaseFailed
     then issue_entry started
            (''Multiplayer connection at slot '' @ decimal (unat (cn_native_slot c)) @ '': Failed'')
            (if cn_failure_reason c = [] then ''Reliable delivery failed'' else cn_failure_reason c) lines
     else fold (\<lambda>path. if fa_failed path
            then issue_entry started
                   (''Multiplayer feature '' @ text_of_bytes (fa_id path) @ '' at slot '' @
                    decimal (unat (cn_native_slot c)) @ '': Failed'')
                   (if fa_reason path = [] then ''Communication failed'' else fa_reason path)
            else id) (cn_paths c) lines)"

definition issue_lines :: "bool \<Rightarrow> MultiplayerService \<Rightarrow> string list" where
  "issue_lines started st =
    fold (connection_issues started) (ms_connections st)
      (if ms_selected st \<and> \<not> ms_remote_available st
       then issue_entry started ''Multiplayer remote messaging: Unavailable''
              ''The feature manifest at Game Start exceeds 2048 bytes'' []
       else [])"

fun status_lines :: "string list \<Rightarrow> StatusText \<Rightarrow> StatusText" where
  "status_lines [] status = status"
| "status_lines (line # lines) status =
     (case status_line status line of
        (True, status') \<Rightarrow> status_lines lines status'
      | (False, status') \<Rightarrow> status')"

definition issues :: "MultiplayerService \<Rightarrow> StatusText \<Rightarrow> StatusText" where
  "issues st status = status_lines (issue_lines (st_text status \<noteq> []) st) status"

end
