(* ===== verification/Multiplayer_Transport.thy ===== *)
theory Multiplayer_Transport
  imports Multiplayer_Service
begin

unbundle bit_operations_syntax

text \<open>
  Frames of the multiplayer service (\<open>runtime/src/multiplayer_messages.cpp\<close>): what a received frame does,
  and the pump that submits frames. The pump gives the lock back while the carrier has a frame, so it is
  two functions: up to the first submission, and on from a submission's result; between them the state
  may change in any way the other operations allow.
\<close>

section \<open>Receiving\<close>

definition sender_index :: "u64 \<Rightarrow> MultiplayerService \<Rightarrow> nat option" where
  "sender_index sender st =
    find_index (\<lambda>c. cn_id c \<noteq> 0 \<and> \<not> cn_local c \<and>
      (cn_raw c = sender \<or> ms_mode st = GameClient \<and> pi_galaxy_id (cn_info c) = Some sender))
      (ms_connections st)"

definition log_unknown_sender :: "u64 \<Rightarrow> ParsedFrame option \<Rightarrow> MultiplayerService \<Rightarrow> MultiplayerService" where
  "log_unknown_sender sender frame st =
    (case frame of
       None \<Rightarrow> st
     | Some f \<Rightarrow>
         (if \<not> ms_unknown_sender_logged st \<and>
             (pf_kind f = Message_Protocol.Hello \<or> pf_kind f = Message_Protocol.Welcome \<or>
              pf_kind f = Message_Protocol.Ready)
          then log FC_LOG_DEBUG (''Multiplayer negotiation rejected packet from native sender '' @
                 decimal (unat sender) @ '': unknown sender'') (st\<lparr>ms_unknown_sender_logged := True\<rparr>)
          else st))"

text \<open>A frame whose sender has no connection: a host keeps a Hello until its sender connects.\<close>

definition receive_unknown :: "layout \<Rightarrow> bool \<Rightarrow> u64 \<Rightarrow> byte list \<Rightarrow> nat \<Rightarrow> bool \<Rightarrow> ParsedFrame option
    \<Rightarrow> MultiplayerService \<Rightarrow> MultiplayerService" where
  "receive_unknown lay server sender bytes now memory frame st =
    (if server \<and> ms_mode st \<noteq> GameClient \<and>
        (case frame of Some f \<Rightarrow> pf_kind f = Message_Protocol.Hello | None \<Rightarrow> False)
     then
       (let index = find_index (\<lambda>hello. ph_sender hello = sender) (ms_pending_hellos st);
            old_charge = (case index of None \<Rightarrow> 0 | Some n \<Rightarrow> hello_charge lay (ms_pending_hellos st ! n));
            charge = sizeof_hello lay + length bytes
        in if charge \<le> kQueueBytes - (ms_incoming_bytes st - old_charge)
           then
             (if \<not> memory then st
              else
                (let hellos = (case index of
                       Some n \<Rightarrow> (ms_pending_hellos st)[n := (ms_pending_hellos st ! n)\<lparr>ph_bytes := bytes\<rparr>]
                     | None \<Rightarrow> ms_pending_hellos st @
                         [\<lparr>ph_sender = sender, ph_deadline = now + 3 * 10 ^ 9, ph_bytes = bytes\<rparr>]);
                     st1 = st\<lparr>ms_pending_hellos := hellos,
                              ms_incoming_bytes := ms_incoming_bytes st - old_charge + charge\<rparr>
                 in if index = None
                    then log FC_LOG_DEBUG (''Multiplayer retained Hello from native sender '' @
                           decimal (unat sender) @ ''; waiting for native connection registration'') st1
                    else st1))
           else log_unknown_sender sender frame st)
     else log_unknown_sender sender frame st)"

text \<open>The features of one identifier that report a failed path to the connection at \<open>k\<close>.\<close>

fun report_failed_path :: "nat \<Rightarrow> byte list \<Rightarrow> string \<Rightarrow> FC_Feature list \<Rightarrow> MultiplayerService
    \<Rightarrow> MultiplayerService" where
  "report_failed_path k ident reason [] st = st"
| "report_failed_path k ident reason (feature # features) st =
     report_failed_path k ident reason features
       (if ft_id feature = ident \<and> ft_frozen feature \<noteq> 0 \<and> owner_runtime st feature
        then
          (let peer = (if route st feature (cn_id (conn st k)) = Some k then cn_id (conn st k) else ms_host st)
           in if route st feature peer = Some k
              then report (Some (ft_owner feature)) FC_LOG_ERROR (delivery_failure peer ident reason) st
              else st)
        else st)"

definition receive_failed :: "layout \<Rightarrow> nat \<Rightarrow> byte list \<Rightarrow> MultiplayerService \<Rightarrow> MultiplayerService" where
  "receive_failed lay k ident st =
    (if ident = []
     then (let st1 = fail_connection lay k ''Peer reported a failed multiplayer connection'' st
           in set_conn k ((conn st1 k)\<lparr>cn_whole_notice := False\<rparr>) st1)
     else
       (let c = conn st k; reason = ''Peer reported failed feature communication''
        in case find_path ident c of
             None \<Rightarrow> st
           | Some path \<Rightarrow>
               (let st1 = (if fa_failed path then st
                           else report_failed_path k ident reason (ms_features st) st)
                in set_conn k (c\<lparr>cn_paths := update_first (\<lambda>p. fa_id p = ident)
                     (\<lambda>p. p\<lparr>fa_failed := True, fa_notice_pending := False,
                            fa_reason := (if fa_failed p then fa_reason p else reason)\<rparr>) (cn_paths c)\<rparr>) st1)))"

definition receive_data :: "layout \<Rightarrow> bool \<Rightarrow> bool \<Rightarrow> nat \<Rightarrow> ParsedFrame \<Rightarrow> MultiplayerService
    \<Rightarrow> MultiplayerService" where
  "receive_data lay server memory k frame st =
    (let c = conn st k; peer = (if server then cn_id c else ms_host st)
     in case implementation st (pf_feature frame) (if server then FC_FEATURE_HOST else FC_FEATURE_CLIENT) of
          None \<Rightarrow> st
        | Some feature \<Rightarrow>
            (case find_path (pf_feature frame) c of
               None \<Rightarrow> st
             | Some path \<Rightarrow>
                 (if fa_failed path \<or> \<not> fa_remote_supported path then st
                  else
                    (let message = \<lparr>im_feature = ft_address feature, im_peer = peer,
                           im_connection = cn_id c, im_bytes = pf_payload frame\<rparr>;
                         charge = incoming_charge lay message
                     in if charge > kQueueBytes - ms_incoming_bytes st
                        then fail_connection lay k ''Multiplayer incoming queue is full'' st
                        else if memory
                        then st\<lparr>ms_incoming := ms_incoming st @ [message],
                                ms_incoming_bytes := ms_incoming_bytes st + charge\<rparr>
                        else fail_connection lay k ''Could not queue an incoming multiplayer message'' st))))"

text \<open>A frame from a known connection, after the timeout check.\<close>

definition receive_frame :: "layout \<Rightarrow> bool \<Rightarrow> bool \<Rightarrow> u64 option \<Rightarrow> nat \<Rightarrow> ParsedFrame
    \<Rightarrow> MultiplayerService \<Rightarrow> MultiplayerService" where
  "receive_frame lay server memory random k frame st =
    (let c = conn st k; kind = pf_kind frame; tokens = pf_tokens frame
     in if kind = Message_Protocol.Hello \<and> server
        then accept_hello lay random k (tok_client tokens) (pf_manifest frame) st
        else if tok_client tokens \<noteq> cn_client_token c
        then reject k ClientToken ''mismatched client connection token'' st
        else if kind = Message_Protocol.Welcome \<and> \<not> server \<and>
                (cn_phase c = PhaseHello \<or> cn_phase c = AwaitWelcome)
        then log FC_LOG_DEBUG (''Multiplayer peer '' @ peer_text c @ '': Welcome received; submitting Ready'')
               (set_conn k (c\<lparr>cn_host_token := tok_host tokens,
                  cn_paths := support_paths (pf_manifest frame) (cn_paths c), cn_phase := PhaseReady\<rparr>) st)
        else if tok_host tokens \<noteq> cn_host_token c
        then reject k HostToken ''mismatched host connection token'' st
        else if kind = Message_Protocol.Ready \<and> server \<and>
                (cn_phase c = AwaitReady \<or> cn_phase c = PhaseWelcome)
        then log FC_LOG_DEBUG (''Multiplayer peer '' @ peer_text c @ '': Ready received; negotiation completed'')
               (set_conn k (c\<lparr>cn_phase := Established\<rparr>) st)
        else if kind = Message_Protocol.Failed \<and> cn_phase c = Established
        then receive_failed lay k (pf_feature frame) st
        else if kind \<noteq> Message_Protocol.Data \<or> cn_phase c \<noteq> Established \<and> cn_phase c \<noteq> PhaseReady
        then reject k WrongStage ''packet arrived at the wrong role or negotiation stage'' st
        else receive_data lay server memory k frame st)"

definition receive :: "layout \<Rightarrow> bool \<Rightarrow> u64 option \<Rightarrow> bool \<Rightarrow> u64 \<Rightarrow> byte list \<Rightarrow> nat
    \<Rightarrow> MultiplayerService \<Rightarrow> MultiplayerService" where
  "receive lay memory random server sender bytes now st =
    (if \<not> ms_remote_available st then st
     else
       (let frame = parse bytes; st1 = expire_hellos lay (Some now) st
        in case sender_index sender st1 of
             None \<Rightarrow> receive_unknown lay server sender bytes now memory frame st1
           | Some k \<Rightarrow>
               (case frame of
                  None \<Rightarrow> reject k InvalidPacket ''invalid packet'' st1
                | Some f \<Rightarrow>
                    (if server \<noteq> (ms_mode st1 \<noteq> GameClient)
                     then reject k WrongRole ''wrong receive role'' st1
                     else
                       (let st2 = timeout k now st1; c = conn st2 k
                        in if cn_phase c \<noteq> Established \<and> now \<ge> cn_deadline c then st2
                           else receive_frame lay server memory random k f st2)))))"

section \<open>Preparing a frame\<close>

text \<open>What the pump finds for a remote connection: a frame, with the notice or message it carries, a
  message no longer wanted, or nothing.\<close>

datatype prepared =
    Nothing
  | DropFront
  | Frame "byte list" "byte list" bool "nat option"

definition framed :: "(nat \<times> byte list) option \<Rightarrow> byte list \<Rightarrow> bool \<Rightarrow> nat option \<Rightarrow> prepared" where
  "framed written notice whole message =
    (case written of
       Some (used, bytes) \<Rightarrow> if used = 0 then Nothing else Frame (take used bytes) notice whole message
     | None \<Rightarrow> Nothing)"

definition prepare_data :: "MultiplayerService \<Rightarrow> Tokens \<Rightarrow> OutgoingMessage \<Rightarrow> prepared" where
  "prepare_data st tokens message =
    (case feature_at st (om_feature message) of
       None \<Rightarrow> DropFront
     | Some feature \<Rightarrow>
         (if agreement_locked st feature (om_peer message) \<noteq> Compatible then DropFront
          else framed (encode_data tokens (ft_id feature) (om_bytes message) (replicate kFrameBytes 0))
                 [] False (Some (om_feature message))))"

definition prepare :: "MultiplayerService \<Rightarrow> Connection \<Rightarrow> prepared" where
  "prepare st c =
    (let tokens = \<lparr>tok_client = cn_client_token c, tok_host = cn_host_token c\<rparr>;
         frame = replicate kFrameBytes 0; phase = cn_phase c
     in if phase = PhaseHello
        then framed (encode_manifest Message_Protocol.Hello tokens (ms_client_manifest st) frame) [] False None
        else if phase = PhaseWelcome
        then framed (encode_manifest Message_Protocol.Welcome tokens (ms_host_manifest st) frame) [] False None
        else if phase = PhaseReady then framed (encode_ready tokens frame) [] False None
        else if phase = Established \<or> phase = PhaseFailed
        then
          (if cn_whole_notice c then framed (encode_failed tokens [] frame) [] True None
           else
             (case List.find fa_notice_pending (cn_paths c) of
                Some notice \<Rightarrow> framed (encode_failed tokens (fa_id notice) frame) (fa_id notice) False None
              | None \<Rightarrow>
                  (case cn_outgoing c of
                     message # _ \<Rightarrow> if phase = Established then prepare_data st tokens message else Nothing
                   | [] \<Rightarrow> Nothing)))
        else Nothing)"

lemma prepare_drop:
  assumes "prepare st c = DropFront"
  shows "cn_outgoing c \<noteq> []"
proof -
  have "framed written notice whole message \<noteq> DropFront" for written notice whole message
    by (simp add: framed_def split: option.splits)
  with assms show ?thesis by (auto simp: prepare_def Let_def split: if_splits option.splits list.splits)
qed

section \<open>The pump\<close>

text \<open>One queued message between the two endpoints of this process.\<close>

definition pump_local :: "layout \<Rightarrow> bool \<Rightarrow> nat \<Rightarrow> MultiplayerService \<Rightarrow> MultiplayerService" where
  "pump_local lay memory k st =
    (let c = conn st k; message = hd (cn_outgoing c);
         st1 = (set_conn k (c\<lparr>cn_outgoing := tl (cn_outgoing c)\<rparr>) st)
           \<lparr>ms_outgoing_bytes := ms_outgoing_bytes st - outgoing_charge lay message\<rparr>;
         to_host = (om_peer message = ms_host st1)
     in case feature_at st1 (om_feature message) of
          None \<Rightarrow> st1
        | Some feature \<Rightarrow>
            (case implementation st1 (ft_id feature) (if to_host then FC_FEATURE_HOST else FC_FEATURE_CLIENT) of
               None \<Rightarrow> st1
             | Some recipient \<Rightarrow>
                 (if agreement_locked st1 feature (om_peer message) \<noteq> Compatible then st1
                  else
                    (let copy = \<lparr>im_feature = ft_address recipient,
                           im_peer = (if to_host then ms_local st1 else ms_host st1),
                           im_connection = cn_id c, im_bytes = om_bytes message\<rparr>;
                         charge = incoming_charge lay copy
                     in if charge > kQueueBytes - ms_incoming_bytes st1
                        then fail_connection lay k ''Multiplayer incoming queue is full'' st1
                        else if memory
                        then st1\<lparr>ms_incoming := ms_incoming st1 @ [copy],
                                 ms_incoming_bytes := ms_incoming_bytes st1 + charge\<rparr>
                        else fail_connection lay k ''Could not queue a local multiplayer message'' st1))))"

definition drop_front :: "layout \<Rightarrow> nat \<Rightarrow> MultiplayerService \<Rightarrow> MultiplayerService" where
  "drop_front lay k st =
    (let c = conn st k
     in (set_conn k (c\<lparr>cn_outgoing := tl (cn_outgoing c)\<rparr>) st)
          \<lparr>ms_outgoing_bytes := ms_outgoing_bytes st - outgoing_charge lay (hd (cn_outgoing c))\<rparr>)"

text \<open>A frame in the carrier's hands, and where the pump goes on afterwards.\<close>

record submission =
  sm_peer :: peer_id
  sm_tokens :: Tokens
  sm_phase :: Phase
  sm_notice :: "byte list"
  sm_whole :: bool
  sm_data :: "nat option"
  sm_frame :: "byte list"
  sm_raw :: u64
  sm_server :: bool
  sm_peers :: "peer_id list"
  sm_submitted :: nat

definition submission_for :: "MultiplayerService \<Rightarrow> Connection \<Rightarrow> byte list \<Rightarrow> byte list \<Rightarrow> bool
    \<Rightarrow> nat option \<Rightarrow> peer_id list \<Rightarrow> nat \<Rightarrow> submission" where
  "submission_for st c frame notice whole message peers submitted =
    \<lparr>sm_peer = cn_id c, sm_tokens = \<lparr>tok_client = cn_client_token c, tok_host = cn_host_token c\<rparr>,
     sm_phase = cn_phase c, sm_notice = notice, sm_whole = whole, sm_data = message, sm_frame = frame,
     sm_raw = cn_raw c, sm_server = (ms_mode st \<noteq> GameClient), sm_peers = peers,
     sm_submitted = submitted + 1\<rparr>"

definition queued :: "MultiplayerService \<Rightarrow> nat" where
  "queued st = sum_list (map (\<lambda>c. length (cn_outgoing c)) (ms_connections st))"

lemma drop_front_queued:
  assumes "connection_index st peer = Some k" and "cn_outgoing (conn st k) \<noteq> []"
  shows "queued (drop_front lay k st) < queued st"
proof -
  have k: "k < length (ms_connections st)"
    using assms(1) by (auto simp: connection_index_def find_index_def Let_def split: if_splits)
  have "length (cn_outgoing (conn st k)) \<le> queued st"
    using k by (auto simp: queued_def conn_def intro!: member_le_sum_list)
  moreover obtain message rest where "cn_outgoing (conn st k) = message # rest"
    using assms(2) by (cases "cn_outgoing (conn st k)") auto
  ultimately show ?thesis
    using k by (simp add: queued_def drop_front_def set_conn_def conn_def Let_def map_update sum_list_update)
qed

text \<open>\<open>memory n\<close> tells whether the copy made for the nth submission can be allocated.\<close>

function pump_run :: "layout \<Rightarrow> (nat \<Rightarrow> bool) \<Rightarrow> bool \<Rightarrow> peer_id list \<Rightarrow> nat \<Rightarrow> MultiplayerService
    \<Rightarrow> submission option \<times> MultiplayerService" where
  "pump_run lay memory carrier [] submitted st = (None, st)"
| "pump_run lay memory carrier (peer # peers) submitted st =
     (if \<not> submitted < 16 then pump_run lay memory carrier peers submitted st
      else
        (case connection_index st peer of
           None \<Rightarrow> pump_run lay memory carrier peers submitted st
         | Some k \<Rightarrow>
             (if cn_local (conn st k)
              then (if cn_outgoing (conn st k) = [] then pump_run lay memory carrier peers submitted st
                    else pump_run lay memory carrier (peer # peers) (submitted + 1)
                           (pump_local lay (memory submitted) k st))
              else if \<not> ms_remote_available st \<or> \<not> carrier \<or> cn_phase (conn st k) = Expired
              then pump_run lay memory carrier peers submitted st
              else
                (case prepare st (conn st k) of
                   Nothing \<Rightarrow> pump_run lay memory carrier peers submitted st
                 | DropFront \<Rightarrow> pump_run lay memory carrier (peer # peers) submitted (drop_front lay k st)
                 | Frame frame notice whole message \<Rightarrow>
                     (Some (submission_for st (conn st k) frame notice whole message peers submitted), st)))))"
  by pat_completeness auto

termination
  by (relation "measures [\<lambda>(lay, memory, carrier, peers, submitted, st). length peers,
        \<lambda>(lay, memory, carrier, peers, submitted, st). 16 - submitted,
        \<lambda>(lay, memory, carrier, peers, submitted, st). queued st]")
    (auto simp: drop_front_queued dest: prepare_drop)

declare pump_run.simps [simp del]

text \<open>The pump ends when nothing is submitted: the release of the flag.\<close>

definition pump_leave :: "submission option \<times> MultiplayerService \<Rightarrow> submission option \<times> MultiplayerService" where
  "pump_leave result =
    (case result of
       (None, st) \<Rightarrow> (None, st\<lparr>ms_pumping := False\<rparr>)
     | (Some submission, st) \<Rightarrow> (Some submission, st))"

fun pump_timeouts :: "nat \<Rightarrow> nat list \<Rightarrow> MultiplayerService \<Rightarrow> MultiplayerService" where
  "pump_timeouts now [] st = st"
| "pump_timeouts now (k # ks) st =
     pump_timeouts now ks (if cn_id (conn st k) = 0 then st else timeout k now st)"

definition pump_start :: "layout \<Rightarrow> (nat \<Rightarrow> bool) \<Rightarrow> bool \<Rightarrow> nat \<Rightarrow> MultiplayerService
    \<Rightarrow> submission option \<times> MultiplayerService" where
  "pump_start lay memory carrier now st =
    (let st1 = expire_hellos lay (Some now) st
     in if ms_pumping st1 then (None, st1)
        else
          (let st2 = pump_timeouts now [0..<length (ms_connections st1)] (st1\<lparr>ms_pumping := True\<rparr>);
               peers = filter (\<lambda>peer. peer \<noteq> 0) (map cn_id (ms_connections st2))
           in pump_leave (pump_run lay memory carrier peers 0 st2)))"

definition log_accepted :: "submission \<Rightarrow> Connection \<Rightarrow> MultiplayerService \<Rightarrow> MultiplayerService" where
  "log_accepted sm current st =
    (let phase = sm_phase sm;
         tokens_match = (cn_host_token current = tok_host (sm_tokens sm));
         reentrant_hello = (phase = PhaseHello \<and> tok_host (sm_tokens sm) = 0 \<and> cn_host_token current \<noteq> 0 \<and>
           cn_phase current = PhaseReady);
         handshake = (phase = PhaseHello \<or> phase = PhaseWelcome \<or> phase = PhaseReady)
     in if handshake \<and> cn_phase current \<noteq> PhaseFailed \<and> cn_phase current \<noteq> Expired \<and>
           (tokens_match \<or> reentrant_hello)
        then log FC_LOG_DEBUG (''Multiplayer peer '' @ peer_text current @ '': '' @
               (if phase = PhaseHello then ''Hello'' else if phase = PhaseWelcome then ''Welcome'' else ''Ready'') @
               '' submission accepted'' @
               (if phase = PhaseReady \<and> cn_phase current = phase then ''; negotiation completed'' else [])) st
        else st)"

text \<open>What an accepted frame changes on its connection.\<close>

definition accept_submission :: "layout \<Rightarrow> submission \<Rightarrow> nat \<Rightarrow> MultiplayerService \<Rightarrow> MultiplayerService" where
  "accept_submission lay sm k st =
    (let c = conn st k; phase = sm_phase sm
     in if phase = PhaseHello \<and> cn_phase c = phase then set_conn k (c\<lparr>cn_phase := AwaitWelcome\<rparr>) st
        else if phase = PhaseWelcome \<and> cn_phase c = phase then set_conn k (c\<lparr>cn_phase := AwaitReady\<rparr>) st
        else if phase = PhaseReady \<and> cn_phase c = phase then set_conn k (c\<lparr>cn_phase := Established\<rparr>) st
        else if sm_whole sm then set_conn k (c\<lparr>cn_whole_notice := False\<rparr>) st
        else if sm_notice sm \<noteq> []
        then set_conn k (c\<lparr>cn_paths := map (\<lambda>path. if fa_id path = sm_notice sm
               then path\<lparr>fa_notice_pending := False\<rparr> else path) (cn_paths c)\<rparr>) st
        else
          (case (sm_data sm, cn_outgoing c) of
             (Some feature, message # _) \<Rightarrow> if om_feature message = feature then drop_front lay k st else st
           | _ \<Rightarrow> st))"

definition pump_resume :: "layout \<Rightarrow> (nat \<Rightarrow> bool) \<Rightarrow> bool \<Rightarrow> CarrierResult \<Rightarrow> submission
    \<Rightarrow> MultiplayerService \<Rightarrow> submission option \<times> MultiplayerService" where
  "pump_resume lay memory carrier result sm st =
    pump_leave
      (let next_peers = (\<lambda>s. pump_run lay memory carrier (sm_peers sm) (sm_submitted sm) s)
       in case connection_index st (sm_peer sm) of
            None \<Rightarrow> next_peers st
          | Some k \<Rightarrow>
              (if cn_client_token (conn st k) \<noteq> tok_client (sm_tokens sm) then next_peers st
               else
                 (let st1 = (if result = CarrierAccepted then log_accepted sm (conn st k) st else st)
                  in if cn_host_token (conn st1 k) \<noteq> tok_host (sm_tokens sm) then next_peers st1
                     else
                       (case result of
                          CarrierRetry \<Rightarrow> next_peers st1
                        | CarrierFailed \<Rightarrow>
                            (let st2 = fail_connection lay k ''Multiplayer transport rejected a packet'' st1
                             in next_peers (set_conn k ((conn st2 k)\<lparr>cn_whole_notice := False\<rparr>) st2))
                        | CarrierAccepted \<Rightarrow>
                            pump_run lay memory carrier (sm_peer sm # sm_peers sm) (sm_submitted sm)
                              (accept_submission lay sm k st1)))))"

end
