(* ===== verification/Multiplayer_System.thy ===== *)
theory Multiplayer_System
  imports Multiplayer_Transport
begin

unbundle bit_operations_syntax

text \<open>
  Delivery to patches (\<open>MultiplayerService::deliver\<close>) and the service as a system of events: every
  operation another thread can run while the pump or the delivery has given the lock back.
\<close>

section \<open>Collecting agreement changes\<close>

text \<open>The ordered map of a pass: \<open>emplace\<close> keeps what is there.\<close>

fun map_emplace :: "peer_id \<Rightarrow> Agreement \<Rightarrow> (peer_id \<times> Agreement) list \<Rightarrow> (peer_id \<times> Agreement) list" where
  "map_emplace peer state [] = [(peer, state)]"
| "map_emplace peer state ((p, s) # rest) =
     (if p < peer then (p, s) # map_emplace peer state rest
      else if p = peer then (p, s) # rest
      else (peer, state) # (p, s) # rest)"

definition current_agreements :: "MultiplayerService \<Rightarrow> FC_Feature \<Rightarrow> (peer_id \<times> Agreement) list" where
  "current_agreements st feature =
    (let with_host = (if ft_role feature AND FC_FEATURE_CLIENT \<noteq> 0 \<and> ms_host st \<noteq> 0
           then [(ms_host st, agreement_locked st feature (ms_host st))] else [])
     in if ft_role feature AND FC_FEATURE_HOST \<noteq> 0 \<and> ms_mode st \<noteq> GameClient
        then fold (\<lambda>c. map_emplace (cn_id c) (agreement_locked st feature (cn_id c)))
               (filter (\<lambda>c. cn_id c \<noteq> 0) (ms_connections st)) with_host
        else with_host)"

definition agreement_changes :: "(peer_id \<times> Agreement) list \<Rightarrow> (peer_id \<times> Agreement) list
    \<Rightarrow> (peer_id \<times> Agreement) list" where
  "agreement_changes last_pass current =
    filter (\<lambda>(peer, state). map_of last_pass peer \<noteq> Some state) current @
    map (\<lambda>(peer, _). (peer, Unavailable))
      (filter (\<lambda>(peer, _). map_of current peer = None) last_pass)"

definition change_text :: "MultiplayerService \<Rightarrow> FC_Feature \<Rightarrow> peer_id \<Rightarrow> Agreement \<Rightarrow> string" where
  "change_text st feature peer state =
    (let absent = (case route st feature peer of
           Some k \<Rightarrow> state = Incompatible \<and> \<not> cn_local (conn st k) \<and> cn_phase (conn st k) = Established
         | None \<Rightarrow> False)
     in ''Multiplayer peer '' @ decimal peer @ '' feature '' @ quoted (text_of_bytes (ft_id feature)) @ '': '' @
        agreement_name state @
        (if absent then '' (remote feature is absent from the advertised list)'' else []))"

text \<open>A notice names the owner, the callback, the peer and its agreement.\<close>

type_synonym notice = "nat \<times> nat \<times> peer_id \<times> Agreement"

definition feature_notices :: "FC_Feature \<Rightarrow> (peer_id \<times> Agreement) list \<Rightarrow> notice list" where
  "feature_notices feature changes =
    concat (map (\<lambda>callback. map (\<lambda>(peer, state). (ft_owner feature, callback, peer, state)) changes)
      (ft_peers feature))"

text \<open>The turn of one feature; \<open>debug\<close> tells whether its owner's reporting shows debug lines.\<close>

definition collect_feature :: "bool \<Rightarrow> FC_Feature \<Rightarrow> notice list \<times> MultiplayerService
    \<Rightarrow> notice list \<times> MultiplayerService" where
  "collect_feature debug feature result =
    (case result of (notices, st) \<Rightarrow>
       (if owner_state st feature \<noteq> PInstalled then (notices, st)
        else
          (let current = current_agreements st feature;
               changes = agreement_changes (ft_last feature) current;
               st1 = (if owner_runtime st feature \<and> debug
                      then fold (\<lambda>(peer, state). report (Some (ft_owner feature)) FC_LOG_DEBUG
                                   (change_text st feature peer state)) changes st
                      else st)
           in (notices @ feature_notices feature changes,
               set_feature (ft_address feature) (\<lambda>r. r\<lparr>ft_last := current\<rparr>) st1))))"

definition collect_notices :: "bool \<Rightarrow> MultiplayerService \<Rightarrow> notice list \<times> MultiplayerService" where
  "collect_notices debug st = fold (collect_feature debug) (ms_features st) ([], st)"

section \<open>The delivery, region by region\<close>

text \<open>Where the delivery is between two regions that hold the lock. The number is how many of the
  sampled messages are left.\<close>

datatype delivery =
    DeliverNotices "notice list" nat
  | DeliverNext nat
  | DeliverCallbacks "nat list" IncomingMessage nat

datatype callback_call =
    PeerCall nat nat peer_id Agreement
  | MessageCall nat peer_id "byte list"

definition deliver_start :: "bool \<Rightarrow> MultiplayerService \<Rightarrow> delivery \<times> MultiplayerService" where
  "deliver_start debug st =
    (case collect_notices debug st of (notices, st') \<Rightarrow>
       (DeliverNotices notices (length (ms_incoming st')), st'))"

text \<open>Whether a message's route still leads to the connection it came from.\<close>

definition message_current :: "MultiplayerService \<Rightarrow> IncomingMessage \<Rightarrow> bool" where
  "message_current st message =
    (case feature_at st (im_feature message) of
       None \<Rightarrow> False
     | Some feature \<Rightarrow>
         (case route st feature (im_peer message) of
            None \<Rightarrow> False
          | Some k \<Rightarrow> cn_id (conn st k) = im_connection message \<and>
              agreement_locked st feature (im_peer message) = Compatible))"

fun deliver_step :: "layout \<Rightarrow> delivery \<Rightarrow> MultiplayerService
    \<Rightarrow> callback_call option \<times> delivery option \<times> MultiplayerService" where
  "deliver_step lay (DeliverNotices [] n) st = (None, Some (DeliverNext n), st)"
| "deliver_step lay (DeliverNotices ((owner, callback, peer, state) # notices) n) st =
     ((if ow_state (ms_owners st owner) = PInstalled then Some (PeerCall owner callback peer state) else None),
      Some (DeliverNotices notices n), st)"
| "deliver_step lay (DeliverNext 0) st = (None, None, st)"
| "deliver_step lay (DeliverNext (Suc n)) st =
     (case ms_incoming st of
        [] \<Rightarrow> (None, None, st)
      | message # rest \<Rightarrow>
          (case feature_at st (im_feature message) of
             None \<Rightarrow> (None, None, st)
           | Some feature \<Rightarrow>
               (if agreement_locked st feature (im_peer message) = Pending then (None, None, st)
                else (None, Some (DeliverCallbacks (ft_messages feature) message n),
                      st\<lparr>ms_incoming := rest\<rparr>))))"
| "deliver_step lay (DeliverCallbacks [] message n) st =
     (None, Some (DeliverNext n), st\<lparr>ms_incoming_bytes := ms_incoming_bytes st - incoming_charge lay message\<rparr>)"
| "deliver_step lay (DeliverCallbacks (callback # callbacks) message n) st =
     (if message_current st message
      then (Some (MessageCall callback (im_peer message) (im_bytes message)),
            Some (DeliverCallbacks callbacks message n), st)
      else (None, Some (DeliverCallbacks [] message n), st))"

text \<open>The charge of the message a delivery holds.\<close>

fun delivery_charge :: "layout \<Rightarrow> delivery option \<Rightarrow> nat" where
  "delivery_charge lay (Some (DeliverCallbacks callbacks message n)) = incoming_charge lay message"
| "delivery_charge lay _ = 0"

section \<open>Events\<close>

text \<open>
  The service with its one pump and its one delivery; \<open>sy_calls\<close> lists the callbacks called, the latest
  last.
\<close>

record mp_system =
  sy_service :: MultiplayerService
  sy_pump :: "submission option"
  sy_delivery :: "delivery option"
  sy_calls :: "callback_call list"

definition initial_system :: "(nat \<Rightarrow> patch_owner) \<Rightarrow> mp_system" where
  "initial_system owners =
    \<lparr>sy_service = initial_service owners, sy_pump = None, sy_delivery = None, sy_calls = []\<rparr>"

datatype mp_event =
    EvOwner nat patch_owner
  | EvBegin GameState bool
  | EvEnd
  | EvConnect nat "u64 option" u32 u64 "u64 option" bool
  | EvDisconnect u32
  | EvReset
  | EvObserve PeerInfo
  | EvFeature nat "byte list" u32
  | EvOnPeer nat "nat option"
  | EvOnMessage nat "nat option"
  | EvDiscard nat
  | EvSend bool bool nat peer_id "byte list"
  | EvFail nat peer_id string
  | EvCarrierFailed string
  | EvReceive bool "u64 option" bool u64 "byte list" nat
  | EvPump "nat \<Rightarrow> bool" bool nat
  | EvSubmitted "nat \<Rightarrow> bool" bool CarrierResult
  | EvDeliver bool
  | EvDeliverStep

definition change_owner :: "nat \<Rightarrow> patch_owner \<Rightarrow> MultiplayerService \<Rightarrow> MultiplayerService" where
  "change_owner n owner st = st\<lparr>ms_owners := (ms_owners st)(n := owner)\<rparr>"

definition with_feature :: "MultiplayerService \<Rightarrow> nat \<Rightarrow> (FC_Feature \<Rightarrow> MultiplayerService) \<Rightarrow> MultiplayerService" where
  "with_feature st address operation =
    (case feature_at st address of Some feature \<Rightarrow> operation feature | None \<Rightarrow> st)"

text \<open>The operations that keep the lock to their end.\<close>

fun service_step :: "layout \<Rightarrow> MultiplayerService \<Rightarrow> mp_event \<Rightarrow> MultiplayerService" where
  "service_step lay st (EvOwner n owner) = change_owner n owner st"
| "service_step lay st (EvBegin state galaxy_selected) = begin_session lay state galaxy_selected st"
| "service_step lay st EvEnd = end_session lay st"
| "service_step lay st (EvConnect now random slot raw_address user_id is_local) =
     connect lay now random slot raw_address user_id is_local st"
| "service_step lay st (EvDisconnect slot) = disconnect lay slot st"
| "service_step lay st EvReset = reset_connections lay st"
| "service_step lay st (EvObserve info) = observe_local info st"
| "service_step lay st (EvFeature owner ident role) = snd (register_feature owner ident role st)"
| "service_step lay st (EvOnPeer address callback) =
     with_feature st address (\<lambda>feature. snd (on_peer feature callback st))"
| "service_step lay st (EvOnMessage address callback) =
     with_feature st address (\<lambda>feature. snd (on_message feature callback st))"
| "service_step lay st (EvDiscard owner) = discard_owner owner st"
| "service_step lay st (EvSend locked memory address peer bytes) =
     with_feature st address (\<lambda>feature. snd (send lay locked memory feature peer bytes st))"
| "service_step lay st (EvFail address peer reason) =
     with_feature st address (\<lambda>feature. fail_feature lay feature peer reason st)"
| "service_step lay st (EvCarrierFailed reason) = carrier_failed lay reason st"
| "service_step lay st (EvReceive memory random server sender bytes now) =
     receive lay memory random server sender bytes now st"
| "service_step lay st _ = st"

text \<open>A pump that finds another one at work leaves it alone; deliveries are serial.\<close>

fun mp_step :: "layout \<Rightarrow> mp_system \<Rightarrow> mp_event \<Rightarrow> mp_system" where
  "mp_step lay sy (EvPump memory carrier now) =
     (case pump_start lay memory carrier now (sy_service sy) of (result, st) \<Rightarrow>
        sy\<lparr>sy_service := st,
           sy_pump := (if ms_pumping (sy_service sy) then sy_pump sy else result)\<rparr>)"
| "mp_step lay sy (EvSubmitted memory carrier result) =
     (case sy_pump sy of
        None \<Rightarrow> sy
      | Some submission \<Rightarrow>
          (case pump_resume lay memory carrier result submission (sy_service sy) of (next, st) \<Rightarrow>
             sy\<lparr>sy_service := st, sy_pump := next\<rparr>))"
| "mp_step lay sy (EvDeliver debug) =
     (case sy_delivery sy of
        Some _ \<Rightarrow> sy
      | None \<Rightarrow>
          (case deliver_start debug (sy_service sy) of (delivery, st) \<Rightarrow>
             sy\<lparr>sy_service := st, sy_delivery := Some delivery\<rparr>))"
| "mp_step lay sy EvDeliverStep =
     (case sy_delivery sy of
        None \<Rightarrow> sy
      | Some delivery \<Rightarrow>
          (case deliver_step lay delivery (sy_service sy) of (call, next, st) \<Rightarrow>
             sy\<lparr>sy_service := st, sy_delivery := next,
                sy_calls := sy_calls sy @ (case call of Some c \<Rightarrow> [c] | None \<Rightarrow> [])\<rparr>))"
| "mp_step lay sy event = sy\<lparr>sy_service := service_step lay (sy_service sy) event\<rparr>"

text \<open>
  What the callers keep: an installed patch stays installed and its registrations are not discarded,
  and a token is what the generator returns, which is never zero.
\<close>

fun mp_allowed :: "mp_system \<Rightarrow> mp_event \<Rightarrow> bool" where
  "mp_allowed sy (EvOwner n owner) \<longleftrightarrow>
     (ow_state (ms_owners (sy_service sy) n) = PInstalled \<longrightarrow> ow_state owner = PInstalled)"
| "mp_allowed sy (EvDiscard owner) \<longleftrightarrow> ow_state (ms_owners (sy_service sy) owner) \<noteq> PInstalled"
| "mp_allowed sy (EvConnect now random slot raw_address user_id is_local) \<longleftrightarrow> random \<noteq> Some 0"
| "mp_allowed sy (EvReceive memory random server sender bytes now) \<longleftrightarrow> random \<noteq> Some 0"
| "mp_allowed sy _ \<longleftrightarrow> True"

end
