(* ===== verification/Multiplayer_Queues.thy ===== *)
theory Multiplayer_Queues
  imports Multiplayer_System
begin

text \<open>
  The byte budgets of the multiplayer queues: both counters always equal the charges of what is queued,
  and neither passes the limit, whatever the other threads do between two regions that hold the lock.
\<close>

section \<open>What reports and connection updates leave alone\<close>

lemma report_fields [simp]:
  "ms_features (report owner level message st) = ms_features st"
  "ms_connections (report owner level message st) = ms_connections st"
  "ms_host (report owner level message st) = ms_host st"
  "ms_local (report owner level message st) = ms_local st"
  "ms_mode (report owner level message st) = ms_mode st"
  "ms_client_manifest (report owner level message st) = ms_client_manifest st"
  "ms_host_manifest (report owner level message st) = ms_host_manifest st"
  "ms_feature_ids (report owner level message st) = ms_feature_ids st"
  "ms_selected (report owner level message st) = ms_selected st"
  "ms_remote_available (report owner level message st) = ms_remote_available st"
  "ms_pumping (report owner level message st) = ms_pumping st"
  "ms_incoming (report owner level message st) = ms_incoming st"
  "ms_pending_hellos (report owner level message st) = ms_pending_hellos st"
  "ms_outgoing_bytes (report owner level message st) = ms_outgoing_bytes st"
  "ms_incoming_bytes (report owner level message st) = ms_incoming_bytes st"
  "ms_next_peer (report owner level message st) = ms_next_peer st"
  "ms_next_feature (report owner level message st) = ms_next_feature st"
  "ms_owners (report owner level message st) = ms_owners st"
  "conn (report owner level message st) = conn st"
  "set_conn k c (report owner level message st) = report owner level message (set_conn k c st)"
  by (simp_all add: report_def conn_def set_conn_def fun_eq_iff)

lemma log_fields [simp]:
  "ms_features (log level message st) = ms_features st"
  "ms_connections (log level message st) = ms_connections st"
  "ms_host (log level message st) = ms_host st"
  "ms_local (log level message st) = ms_local st"
  "ms_mode (log level message st) = ms_mode st"
  "ms_client_manifest (log level message st) = ms_client_manifest st"
  "ms_host_manifest (log level message st) = ms_host_manifest st"
  "ms_feature_ids (log level message st) = ms_feature_ids st"
  "ms_selected (log level message st) = ms_selected st"
  "ms_remote_available (log level message st) = ms_remote_available st"
  "ms_pumping (log level message st) = ms_pumping st"
  "ms_incoming (log level message st) = ms_incoming st"
  "ms_pending_hellos (log level message st) = ms_pending_hellos st"
  "ms_outgoing_bytes (log level message st) = ms_outgoing_bytes st"
  "ms_incoming_bytes (log level message st) = ms_incoming_bytes st"
  "ms_next_peer (log level message st) = ms_next_peer st"
  "ms_next_feature (log level message st) = ms_next_feature st"
  "ms_owners (log level message st) = ms_owners st"
  "conn (log level message st) = conn st"
  by (simp_all add: log_def)

lemma set_conn_fields [simp]:
  "ms_features (set_conn k c st) = ms_features st"
  "ms_connections (set_conn k c st) = (ms_connections st)[k := c]"
  "ms_host (set_conn k c st) = ms_host st"
  "ms_local (set_conn k c st) = ms_local st"
  "ms_mode (set_conn k c st) = ms_mode st"
  "ms_client_manifest (set_conn k c st) = ms_client_manifest st"
  "ms_host_manifest (set_conn k c st) = ms_host_manifest st"
  "ms_feature_ids (set_conn k c st) = ms_feature_ids st"
  "ms_selected (set_conn k c st) = ms_selected st"
  "ms_remote_available (set_conn k c st) = ms_remote_available st"
  "ms_pumping (set_conn k c st) = ms_pumping st"
  "ms_incoming (set_conn k c st) = ms_incoming st"
  "ms_pending_hellos (set_conn k c st) = ms_pending_hellos st"
  "ms_outgoing_bytes (set_conn k c st) = ms_outgoing_bytes st"
  "ms_incoming_bytes (set_conn k c st) = ms_incoming_bytes st"
  "ms_next_peer (set_conn k c st) = ms_next_peer st"
  "ms_next_feature (set_conn k c st) = ms_next_feature st"
  "ms_owners (set_conn k c st) = ms_owners st"
  by (simp_all add: set_conn_def)

lemma conn_set_conn [simp]: "k < length (ms_connections st) \<Longrightarrow> conn (set_conn k c st) k = c"
  by (simp add: conn_def)

lemma find_index_SomeD:
  "find_index P xs = Some k \<Longrightarrow> k < length xs \<and> P (xs ! k)"
  using nth_length_takeWhile [of "\<lambda>x. \<not> P x" xs] by (auto simp: find_index_def Let_def split: if_splits)

section \<open>The budgets\<close>

definition connection_charge :: "layout \<Rightarrow> Connection \<Rightarrow> nat" where
  "connection_charge lay c = sum_list (map (outgoing_charge lay) (cn_outgoing c))"

definition outgoing_total :: "layout \<Rightarrow> MultiplayerService \<Rightarrow> nat" where
  "outgoing_total lay st = sum_list (map (connection_charge lay) (ms_connections st))"

definition incoming_total :: "layout \<Rightarrow> MultiplayerService \<Rightarrow> nat" where
  "incoming_total lay st = sum_list (map (incoming_charge lay) (ms_incoming st)) +
     sum_list (map (hello_charge lay) (ms_pending_hellos st))"

definition budgets :: "layout \<Rightarrow> nat \<Rightarrow> MultiplayerService \<Rightarrow> bool" where
  "budgets lay held st \<longleftrightarrow>
    ms_outgoing_bytes st = outgoing_total lay st \<and> outgoing_total lay st \<le> kQueueBytes \<and>
    ms_incoming_bytes st = incoming_total lay st + held \<and> incoming_total lay st + held \<le> kQueueBytes"

lemma budgetsI:
  assumes "ms_outgoing_bytes st = outgoing_total lay st" and "outgoing_total lay st \<le> kQueueBytes"
    and "ms_incoming_bytes st = incoming_total lay st + held" and "incoming_total lay st + held \<le> kQueueBytes"
  shows "budgets lay held st"
  using assms by (simp add: budgets_def)

lemma connection_charge_le:
  "k < length (ms_connections st) \<Longrightarrow> connection_charge lay (conn st k) \<le> outgoing_total lay st"
  by (auto simp: outgoing_total_def conn_def intro!: member_le_sum_list)

lemma sum_list_filter_split:
  fixes f :: "'a \<Rightarrow> nat"
  shows "sum_list (map f (filter P xs)) + sum_list (map f (filter (\<lambda>x. \<not> P x) xs)) = sum_list (map f xs)"
  by (induction xs) auto

lemma outgoing_total_update:
  assumes "k < length (ms_connections st)" and "ms_connections st' = (ms_connections st)[k := c]"
  shows "outgoing_total lay st' + connection_charge lay (conn st k) =
    outgoing_total lay st + connection_charge lay c"
  using assms connection_charge_le [OF assms(1), of lay]
  by (simp add: outgoing_total_def map_update sum_list_update conn_def)

text \<open>States with the same queues have the same budgets.\<close>

definition same_queues :: "MultiplayerService \<Rightarrow> MultiplayerService \<Rightarrow> bool" where
  "same_queues st st' \<longleftrightarrow>
    map cn_outgoing (ms_connections st') = map cn_outgoing (ms_connections st) \<and>
    ms_incoming st' = ms_incoming st \<and> ms_pending_hellos st' = ms_pending_hellos st \<and>
    ms_outgoing_bytes st' = ms_outgoing_bytes st \<and> ms_incoming_bytes st' = ms_incoming_bytes st"

lemma outgoing_total_outgoing:
  "outgoing_total lay st =
    sum_list (map (\<lambda>ms. sum_list (map (outgoing_charge lay) ms)) (map cn_outgoing (ms_connections st)))"
  by (simp add: outgoing_total_def connection_charge_def [abs_def] comp_def)

lemma budgets_same: "same_queues st st' \<Longrightarrow> budgets lay held st \<Longrightarrow> budgets lay held st'"
  unfolding same_queues_def budgets_def incoming_total_def outgoing_total_outgoing by metis

lemma same_queues_refl [simp]: "same_queues st st"
  by (simp add: same_queues_def)

lemma same_queues_trans: "same_queues st st' \<Longrightarrow> same_queues st' st'' \<Longrightarrow> same_queues st st''"
  by (simp add: same_queues_def)

lemma same_queues_length: "same_queues st st' \<Longrightarrow> length (ms_connections st') = length (ms_connections st)"
  unfolding same_queues_def by (metis length_map)

lemma map_outgoing_update:
  "cn_outgoing c = cn_outgoing (conn st k) \<Longrightarrow>
   map cn_outgoing ((ms_connections st)[k := c]) = map cn_outgoing (ms_connections st)"
  by (cases "k < length (ms_connections st)") (simp_all add: conn_def map_update list_update_same_conv list_update_beyond)

lemma same_queues_set_conn:
  "same_queues st st1 \<Longrightarrow> cn_outgoing c = cn_outgoing (conn st1 k) \<Longrightarrow> same_queues st (set_conn k c st1)"
  by (simp add: same_queues_def map_outgoing_update)

lemma same_queues_report: "same_queues st st1 \<Longrightarrow> same_queues st (report owner level message st1)"
  by (simp add: same_queues_def)

lemma same_queues_log: "same_queues st st1 \<Longrightarrow> same_queues st (log level message st1)"
  by (simp add: same_queues_def)

lemmas same_queues_intros = same_queues_set_conn same_queues_report same_queues_log

lemma timeout_queues: "same_queues st (timeout k now st)"
  by (auto simp: timeout_def Let_def intro!: same_queues_intros)

lemma reject_queues: "same_queues st (reject k cause reason st)"
  by (auto simp: reject_def Let_def intro!: same_queues_intros)

section \<open>Releasing messages\<close>

lemma discard_messages_budgets:
  assumes "budgets lay held st" and "k < length (ms_connections st)"
  shows "budgets lay held (discard_messages lay k st)"
proof (rule budgetsI)
  let ?st' = "discard_messages lay k st" and ?c = "conn st k"
  have o: "outgoing_total lay ?st' + connection_charge lay ?c = outgoing_total lay st"
    using outgoing_total_update [OF assms(2), of ?st' "?c\<lparr>cn_outgoing := []\<rparr>" lay]
    by (simp add: discard_messages_def Let_def connection_charge_def)
  then show "ms_outgoing_bytes ?st' = outgoing_total lay ?st'"
    using assms(1) by (simp add: budgets_def discard_messages_def Let_def connection_charge_def)
  show "outgoing_total lay ?st' \<le> kQueueBytes" using o assms(1) by (simp add: budgets_def)
  have i: "incoming_total lay ?st' +
      sum_list (map (incoming_charge lay) (filter (\<lambda>m. im_connection m = cn_id ?c) (ms_incoming st))) =
      incoming_total lay st"
    using sum_list_filter_split [of "incoming_charge lay" "\<lambda>m. im_connection m = cn_id ?c" "ms_incoming st"]
    by (simp add: discard_messages_def Let_def incoming_total_def)
  then show "ms_incoming_bytes ?st' = incoming_total lay ?st' + held"
    using assms(1) by (simp add: budgets_def discard_messages_def Let_def)
  show "incoming_total lay ?st' + held \<le> kQueueBytes" using i assms(1) by (simp add: budgets_def)
qed

lemma discard_messages_length [simp]:
  "length (ms_connections (discard_messages lay k st)) = length (ms_connections st)"
  by (simp add: discard_messages_def Let_def)

lemma expire_length [simp]: "length (ms_connections (expire lay k st)) = length (ms_connections st)"
  by (simp add: expire_def)

lemma discard_messages_empty:
  "k < length (ms_connections st) \<Longrightarrow> cn_outgoing (conn (discard_messages lay k st) k) = []"
  by (simp add: discard_messages_def Let_def conn_def)

lemma expire_budgets:
  assumes "budgets lay held st" and "k < length (ms_connections st)"
  shows "budgets lay held (expire lay k st)"
  unfolding expire_def
  by (rule budgets_same [OF same_queues_set_conn [OF same_queues_refl] discard_messages_budgets [OF assms]])
    (simp add: discard_messages_empty assms(2) empty_connection_def)

lemma expire_list_length [simp]:
  "length (ms_connections (expire_list lay ks st)) = length (ms_connections st)"
  by (induction ks arbitrary: st) auto

lemma expire_list_budgets:
  "budgets lay held st \<Longrightarrow> set ks \<subseteq> {..<length (ms_connections st)} \<Longrightarrow>
   budgets lay held (expire_list lay ks st)"
  by (induction ks arbitrary: st) (simp_all add: expire_budgets)

lemma expire_all_budgets: "budgets lay held st \<Longrightarrow> budgets lay held (expire_all lay st)"
  by (auto simp: expire_all_def intro: expire_list_budgets)

lemma expire_others_budgets: "budgets lay held st \<Longrightarrow> budgets lay held (expire_others lay k st)"
  by (auto simp: expire_others_def intro: expire_list_budgets)

lemma expire_hellos_budgets:
  assumes "budgets lay held st"
  shows "budgets lay held (expire_hellos lay now st)"
proof -
  have "incoming_total lay (expire_hellos lay now st) +
      sum_list (map (hello_charge lay) (filter (hello_expired now) (ms_pending_hellos st))) = incoming_total lay st"
    using sum_list_filter_split [of "hello_charge lay" "hello_expired now" "ms_pending_hellos st"]
    by (simp add: expire_hellos_def incoming_total_def)
  then show ?thesis
    using assms by (simp add: budgets_def expire_hellos_def outgoing_total_def)
qed

lemma expire_hellos_connections [simp]:
  "ms_connections (expire_hellos lay now st) = ms_connections st"
  by (simp add: expire_hellos_def)

lemma fail_connection_budgets:
  assumes "budgets lay held st" and k: "k < length (ms_connections st)"
  shows "budgets lay held (fail_connection lay k reason st)"
proof -
  let ?c = "(conn st k)\<lparr>cn_phase := PhaseFailed, cn_whole_notice := \<not> cn_local (conn st k)\<rparr>"
  let ?st1 = "discard_messages lay k (set_conn k ?c st)"
  have "budgets lay held (set_conn k ?c st)"
    by (rule budgets_same [OF _ assms(1)]) (auto intro: same_queues_intros)
  then have b: "budgets lay held ?st1" using k by (intro discard_messages_budgets) simp_all
  have "same_queues ?st1 (fail_connection lay k reason st)"
    by (auto simp: fail_connection_def Let_def intro!: same_queues_intros)
  from budgets_same [OF this b] show ?thesis .
qed

lemma fail_connection_length [simp]:
  "length (ms_connections (fail_connection lay k reason st)) = length (ms_connections st)"
  by (simp add: fail_connection_def Let_def)

lemma accept_hello_budgets:
  assumes "budgets lay held st" and "k < length (ms_connections st)"
  shows "budgets lay held (accept_hello lay random k client_token manifest st)"
  using assms
  by (auto simp: accept_hello_def Let_def intro!: fail_connection_budgets budgets_same [OF reject_queues]
      budgets_same [OF same_queues_log [OF same_queues_set_conn [OF same_queues_refl]]] split: option.split)

lemma reject_length [simp]: "length (ms_connections (reject k cause reason st)) = length (ms_connections st)"
  by (simp add: reject_def Let_def)

lemma timeout_length [simp]: "length (ms_connections (timeout k now st)) = length (ms_connections st)"
  by (simp add: timeout_def Let_def)

lemma accept_hello_length [simp]:
  "length (ms_connections (accept_hello lay random k client_token manifest st)) = length (ms_connections st)"
  by (simp add: accept_hello_def Let_def split: option.split)

section \<open>Sessions and connections\<close>

lemma budgets_fields:
  assumes "budgets lay held st" and "ms_connections st' = ms_connections st"
    and "ms_incoming st' = ms_incoming st" and "ms_pending_hellos st' = ms_pending_hellos st"
    and "ms_outgoing_bytes st' = ms_outgoing_bytes st" and "ms_incoming_bytes st' = ms_incoming_bytes st"
  shows "budgets lay held st'"
  by (rule budgets_same [OF _ assms(1)]) (simp add: same_queues_def assms)

lemma boundary_budgets:
  "budgets lay held st \<Longrightarrow> budgets lay held (expire_all lay (expire_hellos lay None st))"
  by (intro expire_all_budgets expire_hellos_budgets)

lemma begin_session_budgets: "budgets lay held st \<Longrightarrow> budgets lay held (begin_session lay state galaxy st)"
  by (rule budgets_fields [OF boundary_budgets]) (auto simp: begin_session_def Let_def)

lemma end_session_budgets: "budgets lay held st \<Longrightarrow> budgets lay held (end_session lay st)"
  by (rule budgets_fields [OF boundary_budgets]) (auto simp: end_session_def Let_def)

lemma reset_connections_budgets: "budgets lay held st \<Longrightarrow> budgets lay held (reset_connections lay st)"
  by (rule budgets_fields [OF boundary_budgets]) (auto simp: reset_connections_def)

lemma claim_slot_budgets:
  assumes "claim_slot slot st = (k, st')" and "budgets lay held st"
  shows "budgets lay held st'" and "k < length (ms_connections st')"
proof -
  have new: "budgets lay held (st\<lparr>ms_connections := ms_connections st @ [empty_connection]\<rparr>)"
    using assms(2)
    by (simp add: budgets_def outgoing_total_def incoming_total_def connection_charge_def empty_connection_def)
  show "budgets lay held st'" "k < length (ms_connections st')"
    using assms new by (auto simp: claim_slot_def slot_index_def dest: find_index_SomeD split: option.splits)
qed

lemma refresh_connection_budgets:
  "budgets lay held st \<Longrightarrow> budgets lay held (refresh_connection k user_id st)"
  by (erule budgets_same [rotated])
    (auto simp: refresh_connection_def Let_def same_queues_def map_outgoing_update)

lemma expire_slot:
  "k < length (ms_connections st) \<Longrightarrow> conn (expire lay k st) k = empty_connection"
  by (simp add: expire_def)

lemma next_peer_eq: "next_peer st = (ms_next_peer st + 1, st\<lparr>ms_next_peer := ms_next_peer st + 1\<rparr>)"
  by (simp add: next_peer_def)

lemma open_connection_queues:
  assumes "cn_outgoing (conn st k) = []"
  shows "same_queues st (open_connection k now slot raw_address user_id is_local st)"
proof -
  have "map cn_outgoing ((ms_connections st)[k := c]) = map cn_outgoing (ms_connections st)"
    if "cn_outgoing c = []" for c
    using that assms by (intro map_outgoing_update) simp
  then show ?thesis by (simp add: open_connection_def next_peer_eq same_queues_def empty_connection_def)
qed

lemma open_connection_length [simp]:
  "length (ms_connections (open_connection k now slot raw_address user_id is_local st)) = length (ms_connections st)"
  by (simp add: open_connection_def next_peer_eq)

lemma join_host_budgets:
  assumes "budgets lay held st" and "k < length (ms_connections st)"
  shows "budgets lay held (join_host lay k random st)"
    and "length (ms_connections (join_host lay k random st)) = length (ms_connections st)"
proof -
  have l: "length (ms_connections (expire_others lay k st)) = length (ms_connections st)"
    by (simp add: expire_others_def)
  have same: "same_queues (expire_others lay k st) (set_conn k (c\<lparr>cn_client_token := t, cn_phase := p\<rparr>) st')"
    if "ms_connections st' = ms_connections (expire_others lay k st)"
      "same_queues (expire_others lay k st) st'" "c = conn (expire_others lay k st) k" for st' c t p
    using that by (intro same_queues_set_conn) (simp_all add: conn_def)
  have "budgets lay held (set_conn k (c\<lparr>cn_client_token := t, cn_phase := p\<rparr>) st')"
    if "ms_connections st' = ms_connections (expire_others lay k st)"
      "same_queues (expire_others lay k st) st'" "c = conn (expire_others lay k st) k" for st' c t p
    by (rule budgets_same [OF same [OF that] expire_others_budgets [OF assms(1)]])
  then show "budgets lay held (join_host lay k random st)"
    using assms(2) l
    by (auto simp: join_host_def Let_def next_peer_eq conn_def same_queues_def intro!: fail_connection_budgets)
  show "length (ms_connections (join_host lay k random st)) = length (ms_connections st)"
    by (simp add: join_host_def Let_def next_peer_eq l)
qed

lemma accept_client_queues: "same_queues st (accept_client k user_id st)"
  by (auto simp: accept_client_def Let_def next_peer_eq same_queues_def map_outgoing_update conn_def
      intro!: map_outgoing_update)

lemma take_hello_budgets:
  assumes b: "budgets lay held st" and k: "k < length (ms_connections st)"
  shows "budgets lay held (take_hello lay k raw_address random st)"
proof (cases "find_index (\<lambda>hello. ph_sender hello = raw_address) (ms_pending_hellos st)")
  case None
  with b show ?thesis by (simp add: take_hello_def)
next
  case (Some n)
  then have n: "n < length (ms_pending_hellos st)" by (blast dest: find_index_SomeD)
  let ?hello = "ms_pending_hellos st ! n"
  have "\<exists>st1. budgets lay held st1 \<and> ms_pending_hellos st1 = ms_pending_hellos st \<and>
      take_hello lay k raw_address random st = st1\<lparr>ms_incoming_bytes := ms_incoming_bytes st1 - hello_charge lay ?hello,
        ms_pending_hellos := take n (ms_pending_hellos st1) @ drop (n + 1) (ms_pending_hellos st1)\<rparr>"
  proof -
    have a: "budgets lay held (accept_hello lay random k t m (set_conn k ((conn st k)\<lparr>cn_deadline := d\<rparr>) st))" for t m d
      by (intro accept_hello_budgets budgets_same [OF same_queues_set_conn [OF same_queues_refl]] b) (simp_all add: k)
    have p: "ms_pending_hellos (accept_hello lay random k t m st') = ms_pending_hellos st'" for t m st'
      by (simp add: accept_hello_def reject_def fail_connection_def discard_messages_def Let_def split: option.split)
    show ?thesis
      unfolding take_hello_def Some option.case Let_def
      by (rule exI, rule conjI [rotated], rule conjI [rotated], rule refl)
        (auto simp: a b p split: option.split)
  qed
  then obtain st1 where s: "budgets lay held st1" "ms_pending_hellos st1 = ms_pending_hellos st"
    "take_hello lay k raw_address random st = st1\<lparr>ms_incoming_bytes := ms_incoming_bytes st1 - hello_charge lay ?hello,
        ms_pending_hellos := take n (ms_pending_hellos st1) @ drop (n + 1) (ms_pending_hellos st1)\<rparr>" by blast
  have "sum_list (map (hello_charge lay) (ms_pending_hellos st)) =
      hello_charge lay ?hello + sum_list (map (hello_charge lay) (take n (ms_pending_hellos st) @ drop (n + 1) (ms_pending_hellos st)))"
    by (subst id_take_nth_drop [OF n]) simp
  then show ?thesis using s(1,2) unfolding s(3) budgets_def incoming_total_def outgoing_total_def by simp
qed

lemma forget_local_fields [simp]:
  "ms_connections (forget_local c st) = ms_connections st" "conn (forget_local c st) = conn st"
  by (simp_all add: forget_local_def conn_def fun_eq_iff)

lemma forget_local_queues: "same_queues st (forget_local c st)"
  by (simp add: forget_local_def same_queues_def)

lemma log_started_queues: "same_queues st (log_started k st)"
  by (simp add: log_started_def Let_def same_queues_log)

lemma establish_endpoints_budgets:
  assumes "budgets lay held st" and "k < length (ms_connections st)"
  shows "budgets lay held (establish_endpoints lay k random user_id st)"
    and "length (ms_connections (establish_endpoints lay k random user_id st)) = length (ms_connections st)"
  using join_host_budgets [OF assms] budgets_same [OF accept_client_queues assms(1)]
    same_queues_length [OF accept_client_queues]
  by (simp_all add: establish_endpoints_def)

lemma connect_budgets:
  assumes "budgets lay held st"
  shows "budgets lay held (connect lay now random slot raw_address user_id is_local st)"
proof -
  obtain k st1 where claim: "claim_slot slot (expire_hellos lay (Some now) st) = (k, st1)" by fastforce
  note st1 = claim_slot_budgets [OF claim expire_hellos_budgets [OF assms]]
  let ?st2 = "expire lay k (forget_local (conn st1 k) st1)"
  let ?st3 = "open_connection k now slot raw_address user_id is_local ?st2"
  let ?st4 = "establish_endpoints lay k random user_id ?st3"
  have st2: "budgets lay held ?st2" "k < length (ms_connections ?st2)"
    using budgets_same [OF forget_local_queues st1(1)] st1(2) by (auto intro!: expire_budgets)
  have st3: "budgets lay held ?st3" "k < length (ms_connections ?st3)"
    using budgets_same [OF open_connection_queues st2(1)] st1(2) st2(2) by (simp_all add: expire_slot empty_connection_def)
  note st4 = establish_endpoints_budgets [OF st3]
  have "budgets lay held (log_started k ?st4)" "k < length (ms_connections (log_started k ?st4))"
    using budgets_same [OF log_started_queues st4(1)] same_queues_length [OF log_started_queues] st4(2) st3(2)
    by simp_all
  then show ?thesis
    using assms refresh_connection_budgets [OF st1(1)] unfolding connect_def claim
    by (simp add: Let_def take_hello_budgets)
qed

lemma disconnect_budgets: "budgets lay held st \<Longrightarrow> budgets lay held (disconnect lay slot st)"
proof (cases "slot_index st slot")
  case (Some k)
  assume b: "budgets lay held st"
  have k: "k < length (ms_connections st)" using Some by (auto simp: slot_index_def dest: find_index_SomeD)
  have "budgets lay held st'" if "ms_connections st' = ms_connections st" "same_queues st st'" for st'
    by (rule budgets_same [OF that(2) b])
  then show ?thesis
    using k Some by (auto simp: disconnect_def Let_def same_queues_def intro!: expire_budgets)
qed (simp add: disconnect_def)

lemma observe_local_queues: "same_queues st (observe_local info st)"
  by (auto simp: observe_local_def Let_def next_peer_eq same_queues_def)

end
