(* ===== verification/Multiplayer_Budgets.thy ===== *)
theory Multiplayer_Budgets
  imports Multiplayer_Queues
begin

text \<open>
  The budgets over sending, receiving, the pump and the delivery, and over every run of events.
\<close>

section \<open>Sending and failing\<close>

lemma budgets_set_outgoing:
  assumes "budgets lay held st" and k: "k < length (ms_connections st)"
    and "ms_connections st' = (ms_connections st)[k := c]"
    and "ms_incoming st' = ms_incoming st" and "ms_pending_hellos st' = ms_pending_hellos st"
    and "ms_incoming_bytes st' = ms_incoming_bytes st"
    and "ms_outgoing_bytes st' + connection_charge lay (conn st k) = ms_outgoing_bytes st + connection_charge lay c"
    and "ms_outgoing_bytes st' \<le> kQueueBytes"
  shows "budgets lay held st'"
  using outgoing_total_update [OF k assms(3), of lay] assms
  by (simp add: budgets_def incoming_total_def)

lemma connection_index_less: "connection_index st peer = Some k \<Longrightarrow> k < length (ms_connections st) \<and> cn_id (conn st k) = peer"
  by (auto simp: connection_index_def conn_def dest: find_index_SomeD)

lemma route_less: "route st feature peer = Some k \<Longrightarrow> k < length (ms_connections st)"
  by (auto simp: route_def host_route_def dest: connection_index_less split: if_splits option.splits)

lemma send_budgets:
  assumes "budgets lay held st"
  shows "budgets lay held (snd (send lay locked memory feature peer bytes st))"
proof (cases "fst (send lay locked memory feature peer bytes st) = SendAccepted")
  case True
  let ?m = "\<lparr>om_feature = ft_address feature, om_peer = peer, om_bytes = bytes\<rparr>"
  from True obtain k where k: "route st feature peer = Some k"
    and c: "outgoing_charge lay ?m \<le> kQueueBytes - ms_outgoing_bytes st"
    and e: "snd (send lay locked memory feature peer bytes st) =
      (set_conn k ((conn st k)\<lparr>cn_outgoing := cn_outgoing (conn st k) @ [?m]\<rparr>) st)
        \<lparr>ms_outgoing_bytes := ms_outgoing_bytes st + outgoing_charge lay ?m\<rparr>"
    by (auto simp: send_def Let_def not_less split: if_splits Agreement.splits option.splits)
  show ?thesis unfolding e
    by (rule budgets_set_outgoing [OF assms route_less [OF k],
          where c = "(conn st k)\<lparr>cn_outgoing := cn_outgoing (conn st k) @ [?m]\<rparr>"])
      (use assms c in \<open>auto simp: budgets_def connection_charge_def\<close>)
next
  case False
  then have "snd (send lay locked memory feature peer bytes st) = st"
    by (auto simp: send_def Let_def split: if_splits Agreement.splits option.splits)
  with assms show ?thesis by simp
qed

lemma connection_charge_filter:
  "connection_charge lay (c\<lparr>cn_paths := paths, cn_outgoing := filter (\<lambda>m. \<not> P m) (cn_outgoing c)\<rparr>) +
   sum_list (map (outgoing_charge lay) (filter P (cn_outgoing c))) = connection_charge lay c"
  using sum_list_filter_split [of "outgoing_charge lay" P "cn_outgoing c"]
  by (simp add: connection_charge_def)

lemma fail_feature_budgets:
  assumes "budgets lay held st"
  shows "budgets lay held (fail_feature lay feature peer reason st)"
proof (cases "route st feature peer")
  case (Some k)
  note k = route_less [OF Some]
  have charge: "connection_charge lay (conn st k) \<le> ms_outgoing_bytes st"
    using connection_charge_le [OF k] assms by (simp add: budgets_def)
  have upd: "budgets lay held ((set_conn k ((conn st k)\<lparr>cn_paths := paths,
      cn_outgoing := filter (\<lambda>m. \<not> P m) (cn_outgoing (conn st k))\<rparr>) st1)\<lparr>ms_outgoing_bytes :=
      ms_outgoing_bytes st - sum_list (map (outgoing_charge lay) (filter P (cn_outgoing (conn st k))))\<rparr>)"
    if "st1 = st \<or> (\<exists>owner level message. st1 = report owner level message st)" for P paths st1
  proof (rule budgets_set_outgoing [OF assms k])
    show "ms_outgoing_bytes ((set_conn k ((conn st k)\<lparr>cn_paths := paths,
        cn_outgoing := filter (\<lambda>m. \<not> P m) (cn_outgoing (conn st k))\<rparr>) st1)\<lparr>ms_outgoing_bytes :=
        ms_outgoing_bytes st - sum_list (map (outgoing_charge lay) (filter P (cn_outgoing (conn st k))))\<rparr>) +
        connection_charge lay (conn st k) = ms_outgoing_bytes st + connection_charge lay ((conn st k)\<lparr>cn_paths := paths,
        cn_outgoing := filter (\<lambda>m. \<not> P m) (cn_outgoing (conn st k))\<rparr>)"
      using that charge connection_charge_filter [where lay = lay and c = "conn st k" and paths = paths and P = P] by auto
  qed (use that assms in \<open>auto simp: budgets_def\<close>)
  show ?thesis
    using Some assms
    by (auto simp: fail_feature_def Let_def simp del: report_fields(20) intro!: upd split: option.split)
qed (simp add: fail_feature_def assms)

lemma fold_connections_budgets:
  assumes "\<And>k s. budgets lay held s \<Longrightarrow> k < length (ms_connections s) \<Longrightarrow>
      budgets lay held (f k s) \<and> length (ms_connections (f k s)) = length (ms_connections s)"
  shows "budgets lay held st \<Longrightarrow> set ks \<subseteq> {..<length (ms_connections st)} \<Longrightarrow> budgets lay held (fold f ks st)"
proof (induction ks arbitrary: st)
  case (Cons k ks)
  then have "budgets lay held (f k st)" "length (ms_connections (f k st)) = length (ms_connections st)"
    using assms [of st k] by simp_all
  with Cons show ?case by simp
qed simp

lemma carrier_failed_budgets:
  assumes "budgets lay held st"
  shows "budgets lay held (carrier_failed lay reason st)"
  unfolding carrier_failed_def
  by (rule fold_connections_budgets)
    (use assms in \<open>auto intro: fail_connection_budgets expire_hellos_budgets\<close>)

section \<open>Receiving\<close>

lemma budgets_incoming:
  assumes "budgets lay held st" and "ms_connections st' = ms_connections st"
    and "ms_outgoing_bytes st' = ms_outgoing_bytes st"
    and "ms_incoming_bytes st' = incoming_total lay st' + held" and "ms_incoming_bytes st' \<le> kQueueBytes"
  shows "budgets lay held st'"
  using assms by (simp add: budgets_def outgoing_total_def)

lemma hello_charge_in:
  "n < length (ms_pending_hellos st) \<Longrightarrow> hello_charge lay (ms_pending_hellos st ! n) \<le> incoming_total lay st"
  by (force simp: incoming_total_def intro: trans_le_add2 member_le_sum_list)

lemma hello_update_total:
  assumes "n < length hellos"
  shows "sum_list (map (hello_charge lay) (hellos[n := h])) + hello_charge lay (hellos ! n) =
    sum_list (map (hello_charge lay) hellos) + hello_charge lay h"
proof -
  have "hello_charge lay (hellos ! n) \<le> sum_list (map (hello_charge lay) hellos)"
    using assms by (auto intro!: member_le_sum_list)
  with assms show ?thesis by (simp add: map_update sum_list_update)
qed

lemma log_unknown_sender_queues: "same_queues st (log_unknown_sender sender frame st)"
  by (auto simp: log_unknown_sender_def same_queues_def split: option.split)

lemma receive_unknown_budgets:
  assumes b: "budgets lay held st"
  shows "budgets lay held (receive_unknown lay server sender bytes now memory frame st)"
proof -
  let ?charge = "sizeof_hello lay + length bytes"
  have unknown: "budgets lay held (log_unknown_sender sender frame st)"
    by (rule budgets_same [OF log_unknown_sender_queues b])
  have replace: "budgets lay held (st\<lparr>ms_pending_hellos :=
        (ms_pending_hellos st)[n := (ms_pending_hellos st ! n)\<lparr>ph_bytes := bytes\<rparr>],
      ms_incoming_bytes := ms_incoming_bytes st - hello_charge lay (ms_pending_hellos st ! n) + ?charge\<rparr>)"
    if n: "n < length (ms_pending_hellos st)"
      and fits: "?charge \<le> kQueueBytes - (ms_incoming_bytes st - hello_charge lay (ms_pending_hellos st ! n))" for n
  proof (rule budgets_incoming [OF b])
    have "hello_charge lay ((ms_pending_hellos st ! n)\<lparr>ph_bytes := bytes\<rparr>) = ?charge" by (simp add: hello_charge_def)
    then show "ms_incoming_bytes (st\<lparr>ms_pending_hellos :=
          (ms_pending_hellos st)[n := (ms_pending_hellos st ! n)\<lparr>ph_bytes := bytes\<rparr>],
        ms_incoming_bytes := ms_incoming_bytes st - hello_charge lay (ms_pending_hellos st ! n) + ?charge\<rparr>) =
      incoming_total lay (st\<lparr>ms_pending_hellos :=
          (ms_pending_hellos st)[n := (ms_pending_hellos st ! n)\<lparr>ph_bytes := bytes\<rparr>],
        ms_incoming_bytes := ms_incoming_bytes st - hello_charge lay (ms_pending_hellos st ! n) + ?charge\<rparr>) + held"
      using hello_update_total [OF n, of lay "(ms_pending_hellos st ! n)\<lparr>ph_bytes := bytes\<rparr>"]
        hello_charge_in [OF n, of lay] b
      by (simp add: budgets_def incoming_total_def)
  qed (use fits b hello_charge_in [OF n, of lay] in \<open>auto simp: budgets_def\<close>)
  have push: "budgets lay held (st\<lparr>ms_pending_hellos := ms_pending_hellos st @ [\<lparr>ph_sender = sender, ph_deadline = d, ph_bytes = bytes\<rparr>],
      ms_incoming_bytes := ms_incoming_bytes st + ?charge\<rparr>)"
    if "?charge \<le> kQueueBytes - ms_incoming_bytes st" for d
    using that b by (auto simp: budgets_def incoming_total_def outgoing_total_def hello_charge_def)
  have logged: "budgets lay held (log level message s)" if "budgets lay held s" for level message s
    by (rule budgets_same [OF same_queues_log [OF same_queues_refl] that])
  show ?thesis
  proof (cases "find_index (\<lambda>hello. ph_sender hello = sender) (ms_pending_hellos st)")
    case None
    then show ?thesis using b unknown by (auto simp: receive_unknown_def Let_def intro!: logged push)
  next
    case (Some n)
    then have "n < length (ms_pending_hellos st)" by (blast dest: find_index_SomeD)
    with Some show ?thesis using b unknown by (auto simp: receive_unknown_def Let_def intro!: replace)
  qed
qed

lemma report_failed_path_queues: "same_queues st (report_failed_path k ident reason features st)"
proof (induction features arbitrary: st)
  case (Cons feature features)
  let ?st1 = "report (Some (ft_owner feature)) FC_LOG_ERROR"
  show ?case
    using Cons.IH [of st] same_queues_trans [OF same_queues_report [OF same_queues_refl] Cons.IH]
    by (simp add: Let_def)
qed simp

lemma report_failed_path_connections [simp]:
  "ms_connections (report_failed_path k ident reason features st) = ms_connections st"
  "conn (report_failed_path k ident reason features st) = conn st"
  by (induction features arbitrary: st) (simp_all add: Let_def)

lemma receive_failed_budgets:
  assumes "budgets lay held st" and "k < length (ms_connections st)"
  shows "budgets lay held (receive_failed lay k ident st)"
proof -
  have "budgets lay held (set_conn k ((conn st1 k)\<lparr>cn_whole_notice := False\<rparr>) st1)"
    if "budgets lay held st1" for st1
    by (rule budgets_same [OF same_queues_set_conn [OF same_queues_refl] that]) simp
  moreover have "budgets lay held (set_conn k ((conn st k)\<lparr>cn_paths := paths\<rparr>) st1)"
    if "st1 = st \<or> st1 = report_failed_path k ident reason (ms_features st) st" for paths st1 reason
    by (rule budgets_same [OF same_queues_set_conn assms(1)])
      (use that report_failed_path_queues in auto)
  ultimately show ?thesis
    using fail_connection_budgets [OF assms] assms(1)
    by (auto simp: receive_failed_def Let_def split: option.split)
qed

lemma push_incoming_budgets:
  "budgets lay held st \<Longrightarrow> incoming_charge lay message \<le> kQueueBytes - ms_incoming_bytes st \<Longrightarrow>
   budgets lay held (st\<lparr>ms_incoming := ms_incoming st @ [message],
     ms_incoming_bytes := ms_incoming_bytes st + incoming_charge lay message\<rparr>)"
  by (auto simp: budgets_def incoming_total_def outgoing_total_def)

lemma receive_data_budgets:
  assumes "budgets lay held st" and "k < length (ms_connections st)"
  shows "budgets lay held (receive_data lay server memory k frame st)"
  using assms fail_connection_budgets [OF assms]
  by (auto simp: receive_data_def Let_def not_less intro!: push_incoming_budgets split: option.split)

lemma receive_frame_budgets:
  assumes "budgets lay held st" and "k < length (ms_connections st)"
  shows "budgets lay held (receive_frame lay server memory random k frame st)"
proof -
  have "budgets lay held (log level message (set_conn k c st))"
    if "cn_outgoing c = cn_outgoing (conn st k)" for level message c
    by (rule budgets_same [OF same_queues_log [OF same_queues_set_conn [OF same_queues_refl that]] assms(1)])
  then show ?thesis
    using accept_hello_budgets [OF assms] receive_failed_budgets [OF assms] receive_data_budgets [OF assms]
      budgets_same [OF reject_queues assms(1)]
    by (simp add: receive_frame_def Let_def)
qed

lemma sender_index_less: "sender_index sender st = Some k \<Longrightarrow> k < length (ms_connections st)"
  by (auto simp: sender_index_def dest: find_index_SomeD)

lemma receive_budgets:
  assumes "budgets lay held st"
  shows "budgets lay held (receive lay memory random server sender bytes now st)"
proof -
  let ?st1 = "expire_hellos lay (Some now) st"
  note b1 = expire_hellos_budgets [OF assms, of "Some now"]
  have "budgets lay held (receive_frame lay server memory random k f (timeout k now ?st1))"
    if "sender_index sender ?st1 = Some k" for k f
    using budgets_same [OF timeout_queues b1] sender_index_less [OF that] by (simp add: receive_frame_budgets)
  then show ?thesis
    using assms receive_unknown_budgets [OF b1] budgets_same [OF reject_queues b1] budgets_same [OF timeout_queues b1]
    by (auto simp: receive_def Let_def split: option.split)
qed

section \<open>The pump\<close>

lemma connection_charge_tl:
  "cn_outgoing c \<noteq> [] \<Longrightarrow>
   connection_charge lay (c\<lparr>cn_outgoing := tl (cn_outgoing c)\<rparr>) + outgoing_charge lay (hd (cn_outgoing c)) =
   connection_charge lay c"
  by (cases "cn_outgoing c") (simp_all add: connection_charge_def)

lemma drop_front_budgets:
  assumes "budgets lay held st" and k: "k < length (ms_connections st)" and "cn_outgoing (conn st k) \<noteq> []"
  shows "budgets lay held (drop_front lay k st)"
  unfolding drop_front_def Let_def
  by (rule budgets_set_outgoing [OF assms(1) k, where c = "(conn st k)\<lparr>cn_outgoing := tl (cn_outgoing (conn st k))\<rparr>"])
    (use assms connection_charge_le [OF k, of lay] connection_charge_tl [OF assms(3), of lay]
      in \<open>auto simp: budgets_def\<close>)

lemma drop_front_length [simp]: "length (ms_connections (drop_front lay k st)) = length (ms_connections st)"
  by (simp add: drop_front_def Let_def)

lemma pump_local_eq:
  "pump_local lay memory k st =
    (let c = conn st k; message = hd (cn_outgoing c); st1 = drop_front lay k st;
         to_host = (om_peer message = ms_host st1)
     in case feature_at st1 (om_feature message) of
          None \<Rightarrow> st1
        | Some feature \<Rightarrow>
            (case implementation st1 (ft_id feature) (if to_host then FC_FEATURE_HOST else FC_FEATURE_CLIENT) of
               None \<Rightarrow> st1
             | Some recipient \<Rightarrow>
                 (if agreement_locked st1 feature (om_peer message) \<noteq> Compatible then st1
                  else
                    (let copy = \<lparr>im_feature = ft_address recipient,
                           im_peer = (if to_host then ms_local st1 else ms_host st1),
                           im_connection = cn_id c, im_bytes = om_bytes message\<rparr>
                     in if incoming_charge lay copy > kQueueBytes - ms_incoming_bytes st1
                        then fail_connection lay k ''Multiplayer incoming queue is full'' st1
                        else if memory
                        then st1\<lparr>ms_incoming := ms_incoming st1 @ [copy],
                                 ms_incoming_bytes := ms_incoming_bytes st1 + incoming_charge lay copy\<rparr>
                        else fail_connection lay k ''Could not queue a local multiplayer message'' st1))))"
  unfolding pump_local_def drop_front_def Let_def by (rule refl)

lemma pump_local_budgets:
  assumes "budgets lay held st" and "k < length (ms_connections st)" and "cn_outgoing (conn st k) \<noteq> []"
  shows "budgets lay held (pump_local lay memory k st)"
proof -
  note b = drop_front_budgets [OF assms]
  have k: "k < length (ms_connections (drop_front lay k st))" using assms(2) by simp
  show ?thesis
    unfolding pump_local_eq Let_def
    using b fail_connection_budgets [OF b k] by (auto simp: not_less intro!: push_incoming_budgets split: option.split)
qed

text \<open>What every step of the pump keeps holds of its result, and of the frame it stops at.\<close>

lemma pump_run_rule:
  assumes "kept st" and "set peers \<subseteq> S"
    and local: "\<And>st k copied. kept st \<Longrightarrow> k < length (ms_connections st) \<Longrightarrow> cn_outgoing (conn st k) \<noteq> [] \<Longrightarrow>
      kept (pump_local lay copied k st)"
    and drop: "\<And>st k. kept st \<Longrightarrow> k < length (ms_connections st) \<Longrightarrow> cn_outgoing (conn st k) \<noteq> [] \<Longrightarrow>
      kept (drop_front lay k st)"
    and finished: "\<And>st. kept st \<Longrightarrow> post (None, st)"
    and submitted: "\<And>st peer k frame notice whole message peers n. kept st \<Longrightarrow> peer \<in> S \<Longrightarrow>
      connection_index st peer = Some k \<Longrightarrow> prepare st (conn st k) = Frame frame notice whole message \<Longrightarrow>
      set peers \<subseteq> S \<Longrightarrow> n < 16 \<Longrightarrow> post (Some (submission_for st (conn st k) frame notice whole message peers n), st)"
  shows "post (pump_run lay memory carrier peers n st)"
  using assms(1,2) local drop
proof (induction lay memory carrier peers n st rule: pump_run.induct)
  case (1 lay memory carrier n st)
  then show ?case by (simp add: pump_run.simps finished)
next
  case (2 lay memory carrier peer peers n st)
  note IH = "2.IH" and rest = "2.prems"
  have peers: "peer \<in> S" "set peers \<subseteq> S" using rest(2) by simp_all
  show ?case
  proof (cases "n < 16")
    case True
    show ?thesis
    proof (cases "connection_index st peer")
      case None
      with IH(2) True rest peers show ?thesis by (simp add: pump_run.simps)
    next
      case (Some k)
      then have k: "k < length (ms_connections st)" by (blast dest: connection_index_less)
      consider (idle) "cn_local (conn st k)" "cn_outgoing (conn st k) = []"
        | (local) "cn_local (conn st k)" "cn_outgoing (conn st k) \<noteq> []"
        | (off) "\<not> cn_local (conn st k)" "\<not> ms_remote_available st \<or> \<not> carrier \<or> cn_phase (conn st k) = Expired"
        | (remote) "\<not> cn_local (conn st k)" "\<not> (\<not> ms_remote_available st \<or> \<not> carrier \<or> cn_phase (conn st k) = Expired)"
        by blast
      then show ?thesis
      proof cases
        case idle
        with IH(3) True Some rest peers show ?thesis by (simp add: pump_run.simps)
      next
        case local
        with IH(4) True Some rest(3) [OF rest(1) k local(2)] rest show ?thesis by (simp add: pump_run.simps)
      next
        case off
        with IH(5) True Some rest peers show ?thesis by (simp add: pump_run.simps)
      next
        case remote
        show ?thesis
        proof (cases "prepare st (conn st k)")
          case Nothing
          with IH(6) True Some remote rest peers show ?thesis by (simp add: pump_run.simps)
        next
          case DropFront
          with IH(7) True Some remote rest(4) [OF rest(1) k prepare_drop [OF DropFront]] rest
          show ?thesis by (simp add: pump_run.simps)
        next
          case Frame
          with True Some remote submitted [OF rest(1) peers(1) Some Frame peers(2) True] show ?thesis
            by (simp add: pump_run.simps)
        qed
      qed
    qed
  next
    case False
    with IH(1) rest peers show ?thesis by (simp add: pump_run.simps)
  qed
qed

lemma pump_run_budgets:
  assumes "budgets lay held st"
  shows "budgets lay held (snd (pump_run lay memory carrier peers submitted st))"
  by (rule pump_run_rule [where kept = "budgets lay held" and S = UNIV, OF assms])
    (simp_all add: pump_local_budgets drop_front_budgets)

lemma pump_leave_budgets: "budgets lay held (snd result) \<Longrightarrow> budgets lay held (snd (pump_leave result))"
  by (auto simp: pump_leave_def budgets_def incoming_total_def outgoing_total_def split: prod.split option.split)

lemma pump_timeouts_queues: "same_queues st (pump_timeouts now ks st)"
  by (induction ks arbitrary: st) (auto intro: same_queues_trans timeout_queues)

lemma pump_start_budgets:
  assumes "budgets lay held st"
  shows "budgets lay held (snd (pump_start lay memory carrier now st))"
proof -
  have b: "budgets lay held ((expire_hellos lay (Some now) st)\<lparr>ms_pumping := True\<rparr>)"
    using expire_hellos_budgets [OF assms, of "Some now"] by (simp add: budgets_def incoming_total_def outgoing_total_def)
  show ?thesis
    using expire_hellos_budgets [OF assms] budgets_same [OF pump_timeouts_queues b]
    by (simp add: pump_start_def Let_def pump_leave_budgets pump_run_budgets)
qed

lemma log_accepted_queues: "same_queues st (log_accepted sm current st)"
  by (simp add: log_accepted_def Let_def same_queues_log)

lemma accept_submission_budgets:
  assumes "budgets lay held st" and "k < length (ms_connections st)"
  shows "budgets lay held (accept_submission lay sm k st)"
proof -
  have "budgets lay held (set_conn k c st)" if "cn_outgoing c = cn_outgoing (conn st k)" for c
    by (rule budgets_same [OF same_queues_set_conn [OF same_queues_refl that] assms(1)])
  then show ?thesis
    using assms drop_front_budgets [OF assms]
    by (auto simp: accept_submission_def Let_def split: option.split list.split)
qed

lemma pump_resume_budgets:
  assumes b: "budgets lay held st"
  shows "budgets lay held (snd (pump_resume lay memory carrier result sm st))"
proof (cases "connection_index st (sm_peer sm)")
  case None
  then show ?thesis using b by (simp add: pump_resume_def pump_leave_budgets pump_run_budgets)
next
  case (Some k)
  then have k: "k < length (ms_connections st)" by (blast dest: connection_index_less)
  let ?st1 = "if result = CarrierAccepted then log_accepted sm (conn st k) st else st"
  have b1: "budgets lay held ?st1" using b budgets_same [OF log_accepted_queues b] by simp
  have k1: "k < length (ms_connections ?st1)"
    using k same_queues_length [OF log_accepted_queues, of sm "conn st k" st] by simp
  have failed: "budgets lay held (set_conn k ((conn s k)\<lparr>cn_whole_notice := False\<rparr>) s)" if "budgets lay held s" for s
    by (rule budgets_same [OF same_queues_set_conn [OF same_queues_refl] that]) simp
  show ?thesis
    unfolding pump_resume_def Some option.case Let_def
    using b b1 accept_submission_budgets [OF b1 k1] failed [OF fail_connection_budgets [OF b1 k1]]
    by (intro pump_leave_budgets) (auto intro!: pump_run_budgets split: CarrierResult.split)
qed

section \<open>The delivery\<close>

lemma same_queues_fold: "(\<And>x st. same_queues st (f x st)) \<Longrightarrow> same_queues st (fold f xs st)"
  by (induction xs arbitrary: st) (auto intro: same_queues_trans)

lemma collect_feature_queues: "same_queues (snd result) (snd (collect_feature debug feature result))"
proof (cases result)
  case (Pair notices st)
  have "same_queues st (fold (\<lambda>(peer, state). report owner level (line peer state)) changes st)"
    for owner level line changes
    by (rule same_queues_fold) (auto intro: same_queues_report)
  then show ?thesis
    by (auto simp: Pair collect_feature_def set_feature_def same_queues_def Let_def)
qed

lemma collect_notices_queues: "same_queues st (snd (collect_notices debug st))"
proof -
  have "same_queues (snd result) (snd (fold (collect_feature debug) features result))" for features result
    by (induction features arbitrary: result) (simp, metis fold_Cons comp_apply same_queues_trans collect_feature_queues)
  from this [of "([], st)"] show ?thesis by (simp add: collect_notices_def)
qed

lemma deliver_step_budgets:
  assumes "budgets lay (delivery_charge lay (Some delivery)) st"
    and "deliver_step lay delivery st = (call, next, st')"
  shows "budgets lay (delivery_charge lay next) st'"
  using assms
  by (induction lay delivery st rule: deliver_step.induct)
    (auto simp: budgets_def incoming_total_def outgoing_total_def split: list.splits option.splits if_splits)

section \<open>Every run of events\<close>

definition system_budgets :: "layout \<Rightarrow> mp_system \<Rightarrow> bool" where
  "system_budgets lay sy = budgets lay (delivery_charge lay (sy_delivery sy)) (sy_service sy)"

lemma service_step_budgets:
  assumes b: "budgets lay held st"
  shows "budgets lay held (service_step lay st event)"
proof -
  have features: "budgets lay held (set_feature address change st)" "budgets lay held (discard_owner owner st)"
    "budgets lay held (change_owner owner o' st)" for address change owner o'
    using b by (simp_all add: set_feature_def discard_owner_def change_owner_def budgets_def incoming_total_def outgoing_total_def)
  have reg: "budgets lay held (snd (register_feature owner ident role st))" for owner ident role
    using b by (simp add: register_feature_def Let_def budgets_def incoming_total_def outgoing_total_def)
  have callbacks: "budgets lay held (snd (on_peer feature callback st))"
    "budgets lay held (snd (on_message feature callback st))" for feature callback
    using b features(1) by (simp_all add: on_peer_def on_message_def split: option.split)
  show ?thesis
    by (cases event)
      (auto simp: b features reg callbacks begin_session_budgets end_session_budgets connect_budgets disconnect_budgets
        reset_connections_budgets send_budgets fail_feature_budgets carrier_failed_budgets receive_budgets
        with_feature_def budgets_same [OF observe_local_queues] split: option.split)
qed

lemma mp_step_budgets:
  assumes b: "system_budgets lay sy"
  shows "system_budgets lay (mp_step lay sy event)"
proof -
  let ?b = "budgets lay (delivery_charge lay (sy_delivery sy))"
  have s: "?b (sy_service sy)" using b by (simp add: system_budgets_def)
  show ?thesis
  proof (cases event)
    case (EvPump memory carrier now)
    then show ?thesis
      using pump_start_budgets [OF s, of memory carrier now] by (auto simp: system_budgets_def split: prod.split)
  next
    case (EvSubmitted memory carrier result)
    then show ?thesis
      using b snd_conv pump_resume_budgets [OF s, of memory carrier result]
      by (auto simp: system_budgets_def split: prod.split option.split) (metis snd_conv)
  next
    case (EvDeliver debug)
    then show ?thesis
      using b budgets_same [OF collect_notices_queues s, of debug]
      by (auto simp: system_budgets_def deliver_start_def split: prod.split option.split)
  next
    case EvDeliverStep
    then show ?thesis
      using b deliver_step_budgets
      by (auto simp: system_budgets_def split: prod.split option.split)
  qed (use service_step_budgets [OF s, of event] in \<open>simp_all add: system_budgets_def\<close>)
qed

interpretation budget_system: invariant_system
  "\<lambda>sy. \<exists>owners. sy = initial_system owners" "mp_step lay" mp_allowed "system_budgets lay" for lay
proof
  fix sy assume "\<exists>owners. sy = initial_system owners"
  then show "system_budgets lay sy"
    by (auto simp: system_budgets_def initial_system_def initial_service_def budgets_def outgoing_total_def
        incoming_total_def)
next
  fix sy event assume "system_budgets lay sy"
  then show "system_budgets lay (mp_step lay sy event)" by (rule mp_step_budgets)
qed

end
