(* ===== verification/Multiplayer_Connections.thy ===== *)
theory Multiplayer_Connections
  imports Multiplayer_Budgets
begin

text \<open>
  What holds of the connections and registrations of the multiplayer service at any time, and how a
  live connection may change while another thread has the lock: its identity stays, failures stay, and
  the message at the front of its queue stays there unless its feature has failed.
\<close>

section \<open>Registrations\<close>

definition feature_ok :: "MultiplayerService \<Rightarrow> FC_Feature \<Rightarrow> bool" where
  "feature_ok st f \<longleftrightarrow>
    ft_address f < ms_next_feature st \<and> valid_feature_id (ft_id f) \<and>
    ft_payload_capacity f = of_nat (payload_capacity (ft_id f)) \<and>
    (ft_frozen f \<noteq> 0 \<longrightarrow> owner_state st f = PInstalled \<and> ft_id f \<in> set (ms_feature_ids st) \<and>
      (ms_remote_available st \<longrightarrow> length (ft_id f) \<le> 2023))"

definition features_ok :: "MultiplayerService \<Rightarrow> bool" where
  "features_ok st \<longleftrightarrow> distinct (map ft_address (ms_features st)) \<and> list_all (feature_ok st) (ms_features st)"

lemma find_distinct:
  assumes "distinct (map f xs)" and "x \<in> set xs"
  shows "List.find (\<lambda>y. f y = f x) xs = Some x"
  using assms by (induction xs) auto

lemma feature_at_member: "feature_at st address = Some f \<Longrightarrow> f \<in> set (ms_features st) \<and> ft_address f = address"
  by (auto simp: feature_at_def dest: find_SomeD)

lemma feature_at_known:
  "features_ok st \<Longrightarrow> f \<in> set (ms_features st) \<Longrightarrow> feature_at st (ft_address f) = Some f"
  unfolding feature_at_def features_ok_def by (blast intro: find_distinct)

lemma feature_at_ok: "features_ok st \<Longrightarrow> feature_at st address = Some f \<Longrightarrow> feature_ok st f"
  by (auto simp: features_ok_def list_all_iff dest: feature_at_member)

lemma unat_capacity: "unat (of_nat (payload_capacity ident) :: u32) = payload_capacity ident"
proof -
  have "payload_capacity ident \<le> 2048" by (simp add: payload_capacity_def kFrameBytes_def)
  then show ?thesis by (simp add: unat_of_nat take_bit_nat_eq_self)
qed

section \<open>Connections\<close>

definition message_ok :: "MultiplayerService \<Rightarrow> OutgoingMessage \<Rightarrow> bool" where
  "message_ok st m \<longleftrightarrow>
    (\<exists>f. feature_at st (om_feature m) = Some f \<and> ft_frozen f \<noteq> 0 \<and>
      length (om_bytes m) \<le> payload_capacity (ft_id f))"

text \<open>Once a host or client has its peer's answer, both tokens are set.\<close>

definition tokens_ok :: "Connection \<Rightarrow> bool" where
  "tokens_ok c \<longleftrightarrow>
    (cn_phase c = PhaseWelcome \<or> cn_phase c = AwaitReady \<or> cn_phase c = PhaseReady \<or> cn_phase c = Established \<longrightarrow>
      cn_client_token c \<noteq> 0 \<and> cn_host_token c \<noteq> 0)"

definition conn_ok :: "MultiplayerService \<Rightarrow> Connection \<Rightarrow> bool" where
  "conn_ok st c \<longleftrightarrow>
    (if cn_id c = 0 then c = empty_connection
     else cn_id c \<le> ms_next_peer st \<and> map fa_id (cn_paths c) = ms_feature_ids st \<and>
       (cn_outgoing c \<noteq> [] \<longrightarrow> cn_phase c = Established) \<and> (\<not> cn_local c \<longrightarrow> tokens_ok c) \<and>
       list_all (message_ok st) (cn_outgoing c))"

definition live_ids :: "MultiplayerService \<Rightarrow> peer_id list" where
  "live_ids st = filter (\<lambda>p. p \<noteq> 0) (map cn_id (ms_connections st))"

definition conns_ok :: "MultiplayerService \<Rightarrow> bool" where
  "conns_ok st \<longleftrightarrow> list_all (conn_ok st) (ms_connections st) \<and> distinct (live_ids st) \<and>
    ms_host st \<le> ms_next_peer st \<and> ms_local st \<le> ms_next_peer st"

definition same_session :: "MultiplayerService \<Rightarrow> MultiplayerService \<Rightarrow> bool" where
  "same_session st st' \<longleftrightarrow> ms_features st' = ms_features st \<and> ms_owners st' = ms_owners st \<and>
    ms_next_feature st' = ms_next_feature st \<and> ms_feature_ids st' = ms_feature_ids st \<and>
    ms_selected st' = ms_selected st \<and> ms_remote_available st' = ms_remote_available st \<and>
    ms_mode st' = ms_mode st \<and> ms_client_manifest st' = ms_client_manifest st \<and>
    ms_host_manifest st' = ms_host_manifest st \<and> ms_next_peer st \<le> ms_next_peer st'"

lemma same_session_refl [simp]: "same_session st st"
  by (simp add: same_session_def)

lemma same_session_trans: "same_session st st' \<Longrightarrow> same_session st' st'' \<Longrightarrow> same_session st st''"
  by (auto simp: same_session_def)

lemma same_session_feature_at: "same_session st st' \<Longrightarrow> feature_at st' = feature_at st"
  by (simp add: same_session_def feature_at_def fun_eq_iff)

lemma same_session_features_ok: "same_session st st' \<Longrightarrow> features_ok st \<Longrightarrow> features_ok st'"
  by (simp add: same_session_def features_ok_def feature_ok_def [abs_def] owner_state_def)

lemma same_session_message_ok: "same_session st st' \<Longrightarrow> message_ok st' = message_ok st"
  by (auto simp: same_session_feature_at message_ok_def fun_eq_iff)

lemma same_session_conn_ok: "same_session st st' \<Longrightarrow> conn_ok st c \<Longrightarrow> conn_ok st' c"
  by (auto simp: conn_ok_def same_session_message_ok) (auto simp: same_session_def)

section \<open>How a live connection changes\<close>

definition failed_for :: "Connection \<Rightarrow> byte list \<Rightarrow> bool" where
  "failed_for c ident \<longleftrightarrow> cn_phase c = PhaseFailed \<or>
    (case find_path ident c of Some path \<Rightarrow> fa_failed path | None \<Rightarrow> False)"

text \<open>Paths that are the same but for failures that were added and other flags.\<close>

definition paths_later :: "FeaturePath list \<Rightarrow> FeaturePath list \<Rightarrow> bool" where
  "paths_later = list_all2 (\<lambda>p p'. fa_id p' = fa_id p \<and> (fa_failed p \<longrightarrow> fa_failed p'))"

lemma paths_later_ids: "paths_later ps ps' \<Longrightarrow> map fa_id ps' = map fa_id ps"
  unfolding paths_later_def by (induction ps ps' rule: list_all2_induct) auto

lemma paths_later_refl [simp]: "paths_later ps ps"
  by (simp add: paths_later_def list.rel_refl)

lemma paths_later_map:
  "(\<And>p. fa_id (f p) = fa_id p \<and> (fa_failed p \<longrightarrow> fa_failed (f p))) \<Longrightarrow> paths_later ps (map f ps)"
  by (simp add: paths_later_def list_all2_map2 list.rel_refl)

lemma paths_later_update:
  "(\<And>p. fa_id (f p) = fa_id p \<and> (fa_failed p \<longrightarrow> fa_failed (f p))) \<Longrightarrow> paths_later ps (update_first P f ps)"
  by (induction ps) (simp_all add: paths_later_def list.rel_refl)

lemma paths_later_find:
  "paths_later ps ps' \<Longrightarrow>
   (case List.find (\<lambda>p. fa_id p = ident) ps of Some p \<Rightarrow> fa_failed p | None \<Rightarrow> False) \<Longrightarrow>
   (case List.find (\<lambda>p. fa_id p = ident) ps' of Some p \<Rightarrow> fa_failed p | None \<Rightarrow> False)"
  unfolding paths_later_def by (induction ps ps' rule: list_all2_induct) auto

lemma failed_for_later:
  assumes "failed_for c ident" and "paths_later (cn_paths c) (cn_paths c')"
    and "cn_phase c = PhaseFailed \<Longrightarrow> cn_phase c' = PhaseFailed"
  shows "failed_for c' ident"
  using assms(1,3) paths_later_find [OF assms(2), of ident] by (auto simp: failed_for_def find_path_def)

definition conn_later :: "MultiplayerService \<Rightarrow> Connection \<Rightarrow> Connection \<Rightarrow> bool" where
  "conn_later st c c' \<longleftrightarrow> cn_id c' = cn_id c \<and>
    (\<forall>ident. failed_for c ident \<longrightarrow> failed_for c' ident) \<and>
    (\<forall>m \<in> set (cn_outgoing c'). m \<in> set (cn_outgoing c) \<or>
       (\<exists>ident. message_id st m = Some ident \<and> \<not> failed_for c ident)) \<and>
    (\<forall>m rest. cn_outgoing c = m # rest \<longrightarrow>
       (\<exists>rest'. cn_outgoing c' = m # rest') \<or>
       (\<forall>m' \<in> set (cn_outgoing c'). message_id st m' \<noteq> message_id st m) \<and>
       (\<forall>ident. message_id st m = Some ident \<longrightarrow> failed_for c' ident))"

lemma conn_later_refl [simp]: "conn_later st c c"
  by (simp add: conn_later_def)

lemma conn_later_front:
  assumes "conn_later st c c'" and "cn_outgoing c = m # rest"
  shows "(\<exists>rest'. cn_outgoing c' = m # rest') \<or>
    (\<forall>m' \<in> set (cn_outgoing c'). message_id st m' \<noteq> message_id st m) \<and>
    (\<forall>ident. message_id st m = Some ident \<longrightarrow> failed_for c' ident)"
  using assms unfolding conn_later_def by blast

lemma conn_later_failed: "conn_later st c c' \<Longrightarrow> failed_for c ident \<Longrightarrow> failed_for c' ident"
  unfolding conn_later_def by blast

lemma conn_later_new:
  "conn_later st c c' \<Longrightarrow> m \<in> set (cn_outgoing c') \<Longrightarrow>
   m \<in> set (cn_outgoing c) \<or> (\<exists>ident. message_id st m = Some ident \<and> \<not> failed_for c ident)"
  unfolding conn_later_def by blast

text \<open>A feature that failed on a connection, and has nothing queued there, keeps it so.\<close>

lemma conn_later_absent:
  assumes "conn_later st c c'" and "\<forall>m' \<in> set (cn_outgoing c). message_id st m' \<noteq> message_id st m"
    and "\<forall>ident. message_id st m = Some ident \<longrightarrow> failed_for c ident" and "message_id st m \<noteq> None"
  shows "(\<forall>m' \<in> set (cn_outgoing c'). message_id st m' \<noteq> message_id st m) \<and>
    (\<forall>ident. message_id st m = Some ident \<longrightarrow> failed_for c' ident)"
proof -
  from assms(4) obtain i where i: "message_id st m = Some i" by auto
  then have f: "failed_for c i" using assms(3) by blast
  have "message_id st m' \<noteq> Some i" if "m' \<in> set (cn_outgoing c')" for m'
    using conn_later_new [OF assms(1) that] assms(2) f i by auto
  then show ?thesis using i conn_later_failed [OF assms(1) f] by simp
qed

lemma conn_later_trans:
  assumes "conn_later st c c'" and "conn_later st c' c''"
    and "\<And>m. m \<in> set (cn_outgoing c) \<Longrightarrow> message_id st m \<noteq> None"
  shows "conn_later st c c''"
proof -
  have "cn_id c'' = cn_id c" using assms unfolding conn_later_def by simp
  moreover have "failed_for c'' ident" if "failed_for c ident" for ident
    using that assms(1,2) conn_later_failed by blast
  moreover have "m \<in> set (cn_outgoing c) \<or> (\<exists>ident. message_id st m = Some ident \<and> \<not> failed_for c ident)"
    if "m \<in> set (cn_outgoing c'')" for m
    using conn_later_new [OF assms(2) that] conn_later_new [OF assms(1)] conn_later_failed [OF assms(1)] by blast
  moreover have "(\<exists>rest'. cn_outgoing c'' = m # rest') \<or>
       (\<forall>m' \<in> set (cn_outgoing c''). message_id st m' \<noteq> message_id st m) \<and>
       (\<forall>ident. message_id st m = Some ident \<longrightarrow> failed_for c'' ident)"
    if "cn_outgoing c = m # rest" for m rest
    using conn_later_front [OF assms(1) that]
  proof
    assume "\<exists>rest'. cn_outgoing c' = m # rest'"
    then show ?thesis using conn_later_front [OF assms(2)] by blast
  next
    assume "(\<forall>m' \<in> set (cn_outgoing c'). message_id st m' \<noteq> message_id st m) \<and>
       (\<forall>ident. message_id st m = Some ident \<longrightarrow> failed_for c' ident)"
    moreover have "message_id st m \<noteq> None" using assms(3) that by simp
    ultimately show ?thesis using conn_later_absent [OF assms(2)] by blast
  qed
  ultimately show ?thesis unfolding conn_later_def by blast
qed

definition evolves :: "MultiplayerService \<Rightarrow> MultiplayerService \<Rightarrow> bool" where
  "evolves st st' \<longleftrightarrow>
    (\<forall>c' \<in> set (ms_connections st'). cn_id c' \<noteq> 0 \<longrightarrow>
       ms_next_peer st < cn_id c' \<or> (\<exists>c \<in> set (ms_connections st). conn_later st c c'))"

definition moves :: "MultiplayerService \<Rightarrow> MultiplayerService \<Rightarrow> bool" where
  "moves st st' \<longleftrightarrow> same_session st st' \<and> conns_ok st' \<and> evolves st st'"

lemma moves_refl: "conns_ok st \<Longrightarrow> moves st st"
  by (auto simp: moves_def evolves_def intro: conn_later_refl)

lemma conns_ok_message_id:
  assumes "conns_ok st" and "c \<in> set (ms_connections st)" and "m \<in> set (cn_outgoing c)"
  shows "message_id st m \<noteq> None"
proof -
  have "conn_ok st c" using assms by (auto simp: conns_ok_def list_all_iff)
  moreover have "cn_id c \<noteq> 0"
  proof
    assume "cn_id c = 0"
    with calculation have "c = empty_connection" by (simp add: conn_ok_def)
    with assms(3) show False by (simp add: empty_connection_def)
  qed
  ultimately have "message_ok st m" using assms(3) by (auto simp: conn_ok_def list_all_iff)
  then show ?thesis by (auto simp: message_ok_def message_id_def)
qed

lemma moves_trans:
  assumes "conns_ok st" and "moves st st'" and "moves st' st''"
  shows "moves st st''"
proof -
  have s: "same_session st st'" "same_session st' st''" using assms(2,3) by (simp_all add: moves_def)
  have ids: "message_id st' = message_id st"
    by (simp add: message_id_def same_session_feature_at [OF s(1)] fun_eq_iff)
  have later: "conn_later st' = conn_later st" by (simp add: conn_later_def ids fun_eq_iff)
  have "ms_next_peer st < cn_id c'' \<or> (\<exists>c \<in> set (ms_connections st). conn_later st c c'')"
    if "c'' \<in> set (ms_connections st'')" "cn_id c'' \<noteq> 0" for c''
  proof -
    have "ms_next_peer st' < cn_id c'' \<or> (\<exists>c' \<in> set (ms_connections st'). conn_later st c' c'')"
      using assms(3) that unfolding moves_def evolves_def later by blast
    then show ?thesis
    proof
      assume "ms_next_peer st' < cn_id c''"
      then show ?thesis using s(1) by (simp add: same_session_def)
    next
      assume "\<exists>c' \<in> set (ms_connections st'). conn_later st c' c''"
      then obtain c' where c': "c' \<in> set (ms_connections st')" "conn_later st c' c''" by blast
      then have id: "cn_id c' = cn_id c''" by (simp add: conn_later_def)
      then have "ms_next_peer st < cn_id c' \<or> (\<exists>c \<in> set (ms_connections st). conn_later st c c')"
        using assms(2) c'(1) that(2) unfolding moves_def evolves_def by metis
      then show ?thesis
        using id conn_later_trans [OF _ c'(2)] conns_ok_message_id [OF assms(1)] by auto
    qed
  qed
  then show ?thesis
    using same_session_trans [OF s] assms(3) by (simp add: moves_def evolves_def)
qed

lemma moves_ok: "moves st st' \<Longrightarrow> conns_ok st'"
  by (simp add: moves_def)

section \<open>Elementary moves\<close>

text \<open>A change of anything but the connections and the session.\<close>

lemma moves_fields:
  assumes "conns_ok st" and "same_session st st'" and "ms_connections st' = ms_connections st"
    and "ms_host st' \<le> ms_next_peer st'" and "ms_local st' \<le> ms_next_peer st'"
  shows "moves st st'"
proof -
  have "conns_ok st'"
    using assms same_session_conn_ok [OF assms(2)] by (auto simp: conns_ok_def list_all_iff live_ids_def)
  then show ?thesis
    using assms(2,3) by (auto simp: moves_def evolves_def intro: conn_later_refl)
qed

lemma moves_report: "conns_ok st \<Longrightarrow> moves st (report owner level message st)"
  by (rule moves_fields) (auto simp: same_session_def conns_ok_def)

lemma moves_log: "conns_ok st \<Longrightarrow> moves st (log level message st)"
  by (rule moves_fields) (auto simp: same_session_def conns_ok_def)

lemma live_ids_update:
  "k < length (ms_connections st) \<Longrightarrow> cn_id c = cn_id (conn st k) \<Longrightarrow>
   map cn_id ((ms_connections st)[k := c]) = map cn_id (ms_connections st)"
  by (simp add: map_update conn_def list_update_same_conv)

lemma distinct_filter_update:
  "distinct (filter P xs) \<Longrightarrow> \<not> P x \<Longrightarrow> distinct (filter P (xs[k := x]))"
proof (induction xs arbitrary: k)
  case (Cons y ys)
  then show ?case by (cases k) (auto dest: set_update_subset_insert [THEN subsetD] split: if_splits)
qed simp

lemma moves_connection:
  assumes ok: "conns_ok st" and k: "k < length (ms_connections st)"
    and "ms_connections st' = (ms_connections st)[k := c]" and s: "same_session st st'"
    and "ms_host st' = ms_host st" and "ms_local st' = ms_local st"
    and c: "conn_ok st c" and later: "conn_later st (conn st k) c"
  shows "moves st st'"
proof -
  have "map cn_id (ms_connections st') = map cn_id (ms_connections st)"
    using live_ids_update [OF k] later assms(3) by (simp add: conn_later_def)
  then have "live_ids st' = live_ids st" by (simp add: live_ids_def)
  moreover have "list_all (conn_ok st') (ms_connections st')"
    using ok c assms(3) same_session_conn_ok [OF s]
    by (auto simp: conns_ok_def list_all_iff dest: set_update_subset_insert [THEN subsetD])
  moreover have "ms_next_peer st \<le> ms_next_peer st'" using s by (simp add: same_session_def)
  ultimately have "conns_ok st'" using ok assms(5,6) by (simp add: conns_ok_def)
  moreover have "evolves st st'"
    using assms(3) later k
    by (auto simp: evolves_def conn_def dest!: set_update_subset_insert [THEN subsetD] intro: conn_later_refl)
  ultimately show ?thesis using s by (simp add: moves_def)
qed

lemma conn_ok_at: "conns_ok st \<Longrightarrow> k < length (ms_connections st) \<Longrightarrow> conn_ok st (conn st k)"
  by (simp add: conns_ok_def list_all_length conn_def)

lemma moves_set_conn:
  assumes "conns_ok st" and "k < length (ms_connections st)" and "conn_ok st c" and "conn_later st (conn st k) c"
  shows "moves st (set_conn k c st)"
  by (rule moves_connection [OF assms(1,2), where c = c]) (simp_all add: same_session_def assms)

text \<open>The record of a connection that keeps its queue and does not forget a failure.\<close>

lemma conn_later_keep:
  assumes "cn_id c' = cn_id c" and "cn_outgoing c' = cn_outgoing c"
    and "paths_later (cn_paths c) (cn_paths c')" and "cn_phase c = PhaseFailed \<Longrightarrow> cn_phase c' = PhaseFailed"
  shows "conn_later st c c'"
  using assms(1,2) failed_for_later [OF _ assms(3,4)] by (auto simp: conn_later_def)

lemma moves_expire:
  assumes ok: "conns_ok st" and k: "k < length (ms_connections st)"
  shows "moves st (expire lay k st)"
proof -
  have m: "ms_connections (expire lay k st) = (ms_connections st)[k := empty_connection]"
    by (simp add: expire_def discard_messages_def Let_def)
  have s: "same_session st (expire lay k st)"
    by (simp add: expire_def discard_messages_def Let_def same_session_def)
  have "list_all (conn_ok (expire lay k st)) (ms_connections (expire lay k st))"
    unfolding list_all_iff m
  proof
    fix c assume "c \<in> set ((ms_connections st)[k := empty_connection])"
    then have "conn_ok st c"
      using ok by (auto simp: conns_ok_def list_all_iff conn_ok_def empty_connection_def
          dest!: set_update_subset_insert [THEN subsetD])
    then show "conn_ok (expire lay k st) c" by (rule same_session_conn_ok [OF s])
  qed
  moreover have "distinct (live_ids (expire lay k st))"
    using ok distinct_filter_update [of "\<lambda>p. p \<noteq> 0" "map cn_id (ms_connections st)" 0 k]
    by (simp add: live_ids_def m map_update conns_ok_def empty_connection_def)
  moreover have "ms_host (expire lay k st) = ms_host st" "ms_local (expire lay k st) = ms_local st"
    "ms_next_peer (expire lay k st) = ms_next_peer st"
    by (simp_all add: expire_def discard_messages_def Let_def)
  ultimately have "conns_ok (expire lay k st)" using ok by (simp add: conns_ok_def)
  moreover have "evolves st (expire lay k st)"
    by (auto simp: evolves_def m empty_connection_def dest!: set_update_subset_insert [THEN subsetD] intro: conn_later_refl)
  ultimately show ?thesis using s by (simp add: moves_def)
qed

lemma moves_expire_list:
  "conns_ok st \<Longrightarrow> set ks \<subseteq> {..<length (ms_connections st)} \<Longrightarrow> moves st (expire_list lay ks st)"
proof (induction ks arbitrary: st)
  case (Cons k ks)
  then have m: "moves st (expire lay k st)" by (simp add: moves_expire)
  have "moves (expire lay k st) (expire_list lay ks (expire lay k st))"
    using Cons.IH [OF moves_ok [OF m]] Cons.prems(2) by simp
  from moves_trans [OF Cons.prems(1) m this] show ?case by simp
qed (simp add: moves_refl)

definition failed_conn :: "Connection \<Rightarrow> string \<Rightarrow> Connection" where
  "failed_conn c reason = c\<lparr>cn_phase := PhaseFailed, cn_whole_notice := \<not> cn_local c, cn_outgoing := [],
     cn_failure_reason := reason\<rparr>"

lemma fail_connection_effect:
  assumes k: "k < length (ms_connections st)"
  shows "ms_connections (fail_connection lay k reason st) = (ms_connections st)[k := failed_conn (conn st k) reason]"
    and "same_session st (fail_connection lay k reason st)"
    and "ms_host (fail_connection lay k reason st) = ms_host st"
    and "ms_local (fail_connection lay k reason st) = ms_local st"
proof -
  let ?st1 = "discard_messages lay k
    (set_conn k ((conn st k)\<lparr>cn_phase := PhaseFailed, cn_whole_notice := \<not> cn_local (conn st k)\<rparr>) st)"
  have c: "(conn ?st1 k)\<lparr>cn_failure_reason := reason\<rparr> = failed_conn (conn st k) reason"
    using k by (simp add: discard_messages_def Let_def conn_def failed_conn_def)
  show "ms_connections (fail_connection lay k reason st) = (ms_connections st)[k := failed_conn (conn st k) reason]"
    unfolding fail_connection_def Let_def c by (simp add: discard_messages_def Let_def)
  show "same_session st (fail_connection lay k reason st)"
    unfolding fail_connection_def Let_def c by (simp add: discard_messages_def Let_def same_session_def)
  show "ms_host (fail_connection lay k reason st) = ms_host st"
    "ms_local (fail_connection lay k reason st) = ms_local st"
    unfolding fail_connection_def Let_def c by (simp_all add: discard_messages_def Let_def)
qed

lemma moves_fail_connection:
  assumes ok: "conns_ok st" and k: "k < length (ms_connections st)" and live: "cn_id (conn st k) \<noteq> 0"
  shows "moves st (fail_connection lay k reason st)"
proof (rule moves_connection [OF ok k])
  show "conn_ok st (failed_conn (conn st k) reason)"
    using conn_ok_at [OF ok k] live by (auto simp: conn_ok_def tokens_ok_def failed_conn_def)
  show "conn_later st (conn st k) (failed_conn (conn st k) reason)"
    by (auto simp: conn_later_def failed_for_def failed_conn_def)
qed (rule fail_connection_effect [OF k])+

end
