(* ===== verification/Multiplayer_Moves.thy ===== *)
theory Multiplayer_Moves
  imports Multiplayer_Connections
begin

unbundle bit_operations_syntax

text \<open>
  Every operation that keeps the lock to its end moves the connections as \<open>moves\<close> says, or, at a
  session boundary, leaves none alive.
\<close>

section \<open>Diagnostics and negotiation\<close>

lemma live_conn:
  "conns_ok st \<Longrightarrow> k < length (ms_connections st) \<Longrightarrow> cn_id (conn st k) \<noteq> 0 \<Longrightarrow>
   cn_id (conn st k) \<le> ms_next_peer st \<and> map fa_id (cn_paths (conn st k)) = ms_feature_ids st \<and>
   (cn_outgoing (conn st k) \<noteq> [] \<longrightarrow> cn_phase (conn st k) = Established) \<and>
   (\<not> cn_local (conn st k) \<longrightarrow> tokens_ok (conn st k)) \<and> list_all (message_ok st) (cn_outgoing (conn st k))"
  using conn_ok_at [of st k] by (simp add: conn_ok_def)

text \<open>The usual update: the queue and the identity stay, the phase and the tokens may not.\<close>

lemma moves_keep:
  assumes "conns_ok st" and "k < length (ms_connections st)" and "cn_id (conn st k) \<noteq> 0"
    and "cn_id c = cn_id (conn st k)" and "cn_outgoing c = cn_outgoing (conn st k)"
    and "cn_local c = cn_local (conn st k)" and "paths_later (cn_paths (conn st k)) (cn_paths c)"
    and "cn_phase c \<noteq> Established \<Longrightarrow> cn_outgoing (conn st k) = []"
    and "cn_phase (conn st k) = PhaseFailed \<Longrightarrow> cn_phase c = PhaseFailed"
    and "\<not> cn_local c \<Longrightarrow> tokens_ok c"
  shows "moves st (set_conn k c st)"
proof (rule moves_set_conn [OF assms(1,2)])
  show "conn_ok st c"
    using live_conn [OF assms(1-3)] assms(3-6,8,10) paths_later_ids [OF assms(7)] by (auto simp: conn_ok_def)
  show "conn_later st (conn st k) c" by (rule conn_later_keep) (use assms in auto)
qed

lemma moves_timeout:
  assumes "conns_ok st" and "k < length (ms_connections st)" and "cn_id (conn st k) \<noteq> 0"
  shows "moves st (timeout k now st)"
proof (cases "cn_local (conn st k) \<or> cn_phase (conn st k) = Established \<or> cn_phase (conn st k) = PhaseFailed \<or>
    cn_phase (conn st k) = Expired \<or> now < cn_deadline (conn st k)")
  case True
  then show ?thesis using moves_refl [OF assms(1)] by (simp add: timeout_def Let_def)
next
  case False
  have "moves (log level message st) (set_conn k ((conn st k)\<lparr>cn_phase := Expired\<rparr>) (log level message st))" for level message
    by (rule moves_keep [OF moves_ok [OF moves_log [OF assms(1)]]])
      (use assms live_conn [OF assms] False in \<open>auto simp: tokens_ok_def\<close>)
  then have "moves st (set_conn k ((conn st k)\<lparr>cn_phase := Expired\<rparr>) (log level message st))" for level message
    by (rule moves_trans [OF assms(1) moves_log [OF assms(1)]])
  then show ?thesis using False by (simp add: timeout_def Let_def)
qed

lemma moves_log_set:
  assumes "conns_ok st" and "moves st (set_conn k c st)"
  shows "moves st (log level message (set_conn k c st))"
  by (rule moves_trans [OF assms moves_log [OF moves_ok [OF assms(2)]]])

lemma moves_reject:
  assumes "conns_ok st" and "k < length (ms_connections st)" and "cn_id (conn st k) \<noteq> 0"
  shows "moves st (reject k cause reason st)"
proof -
  have "moves st (set_conn k ((conn st k)\<lparr>cn_rejected := r\<rparr>) st)" for r
    by (rule moves_keep [OF assms]) (use live_conn [OF assms] in \<open>auto simp: tokens_ok_def\<close>)
  then show ?thesis
    using moves_refl [OF assms(1)] moves_log_set [OF assms(1)] by (simp add: reject_def Let_def)
qed

lemma support_paths_later: "paths_later paths (support_paths manifest paths)"
  unfolding support_paths_def by (rule paths_later_map) simp

lemma moves_accept_hello:
  assumes "conns_ok st" and "k < length (ms_connections st)" and "cn_id (conn st k) \<noteq> 0"
    and "random \<noteq> Some 0" and "client_token \<noteq> 0"
  shows "moves st (accept_hello lay random k client_token manifest st)"
proof -
  have "moves st (set_conn k ((conn st k)\<lparr>cn_client_token := client_token, cn_host_token := fresh,
      cn_paths := support_paths manifest (cn_paths (conn st k)), cn_phase := PhaseWelcome\<rparr>) st)"
    if "fresh \<noteq> 0" "cn_phase (conn st k) = AwaitHello \<or> cn_phase (conn st k) = PhaseWelcome \<or> cn_phase (conn st k) = AwaitReady"
    for fresh
    by (rule moves_keep [OF assms(1-3)])
      (use that assms(5) live_conn [OF assms(1-3)] in \<open>auto simp: tokens_ok_def support_paths_later\<close>)
  then show ?thesis
    using moves_reject [OF assms(1-3)] moves_fail_connection [OF assms(1-3)] assms(4)
    by (auto simp: accept_hello_def Let_def intro!: moves_log_set [OF assms(1)] split: option.split)
qed

section \<open>Native connections\<close>

lemma moves_expire_hellos: "conns_ok st \<Longrightarrow> moves st (expire_hellos lay now st)"
  by (rule moves_fields) (auto simp: same_session_def conns_ok_def expire_hellos_def)

lemma moves_claim:
  assumes "claim_slot slot st = (k, st')" and ok: "conns_ok st"
  shows "moves st st'" and "k < length (ms_connections st')"
proof -
  let ?st1 = "st\<lparr>ms_connections := ms_connections st @ [empty_connection]\<rparr>"
  have s: "same_session st ?st1" by (simp add: same_session_def)
  have "conns_ok ?st1"
    using ok same_session_conn_ok [OF s]
    by (auto simp: conns_ok_def list_all_iff live_ids_def) (simp_all add: conn_ok_def empty_connection_def)
  moreover have "evolves st ?st1" by (auto simp: evolves_def empty_connection_def intro: conn_later_refl)
  ultimately have "moves st ?st1" using s by (simp add: moves_def)
  with assms show "moves st st'" "k < length (ms_connections st')"
    by (auto simp: claim_slot_def slot_index_def moves_refl dest: find_index_SomeD split: option.splits)
qed

lemma moves_refresh:
  assumes "conns_ok st" and "k < length (ms_connections st)" and "cn_id (conn st k) \<noteq> 0"
  shows "moves st (refresh_connection k user_id st)"
proof -
  let ?st1 = "set_conn k ((conn st k)\<lparr>cn_info := (cn_info (conn st k))\<lparr>pi_galaxy_id := user_id\<rparr>\<rparr>) st"
  have m: "moves st ?st1"
    by (rule moves_keep [OF assms]) (use live_conn [OF assms] in \<open>auto simp: tokens_ok_def\<close>)
  have "moves ?st1 (refresh_connection k user_id st)"
    by (rule moves_fields [OF moves_ok [OF m]])
      (use moves_ok [OF m] in \<open>auto simp: refresh_connection_def Let_def same_session_def conns_ok_def\<close>)
  then show ?thesis by (rule moves_trans [OF assms(1) m])
qed

lemma moves_forget: "conns_ok st \<Longrightarrow> moves st (forget_local c st)"
  by (rule moves_fields) (auto simp: same_session_def conns_ok_def forget_local_def)

text \<open>A new connection takes a free record and an ID no connection had before.\<close>

lemma moves_open:
  assumes ok: "conns_ok st" and k: "k < length (ms_connections st)" and free: "cn_id (conn st k) = 0"
  shows "moves st (open_connection k now slot raw_address user_id is_local st)"
    and "cn_id (conn (open_connection k now slot raw_address user_id is_local st) k) \<noteq> 0"
    and "cn_phase (conn (open_connection k now slot raw_address user_id is_local st) k) = AwaitHello"
    and "cn_outgoing (conn (open_connection k now slot raw_address user_id is_local st) k) = []"
proof -
  let ?st' = "open_connection k now slot raw_address user_id is_local st"
  let ?c = "empty_connection\<lparr>cn_id := ms_next_peer st + 1, cn_native_slot := slot, cn_raw := raw_address,
      cn_info := \<lparr>pi_slot = Some slot, pi_galaxy_id = user_id\<rparr>,
      cn_local := (is_local \<and> ms_mode st = GameHost), cn_deadline := now + 3 * 10 ^ 9,
      cn_paths := map new_path (ms_feature_ids st)\<rparr>"
  have cs: "ms_connections ?st' = (ms_connections st)[k := ?c]"
    by (simp add: open_connection_def next_peer_eq)
  then show "cn_id (conn ?st' k) \<noteq> 0" "cn_phase (conn ?st' k) = AwaitHello" "cn_outgoing (conn ?st' k) = []"
    using k by (simp_all add: conn_def empty_connection_def)
  have s: "same_session st ?st'" by (simp add: same_session_def open_connection_def next_peer_eq)
  have n: "ms_next_peer ?st' = ms_next_peer st + 1" "ms_host ?st' = ms_host st" "ms_local ?st' = ms_local st"
    by (simp_all add: open_connection_def next_peer_eq)
  have "conn_ok ?st' c" if "c \<in> set (ms_connections ?st')" for c
  proof -
    from that consider "c = ?c" | "c \<in> set (ms_connections st)"
      unfolding cs by (blast dest: set_update_subset_insert [THEN subsetD])
    then show ?thesis
    proof cases
      case 1
      then show ?thesis using s n
        by (simp add: conn_ok_def same_session_def empty_connection_def tokens_ok_def new_path_def comp_def)
    next
      case 2
      then show ?thesis using ok same_session_conn_ok [OF s] by (simp add: conns_ok_def list_all_iff)
    qed
  qed
  moreover have "distinct (live_ids ?st')"
  proof -
    have below: "p \<le> ms_next_peer st" if "p \<in> set (live_ids st)" for p
      using that ok by (auto simp: live_ids_def conns_ok_def list_all_iff conn_ok_def split: if_splits)
    obtain as b bs where l: "ms_connections st = as @ b # bs" "length as = k" using k by (metis id_take_nth_drop length_take min.absorb4)
    then have "cn_id b = 0" using free by (simp add: conn_def nth_append)
    then have "live_ids st = filter (\<lambda>p. p \<noteq> 0) (map cn_id as) @ filter (\<lambda>p. p \<noteq> 0) (map cn_id bs)"
      "live_ids ?st' = filter (\<lambda>p. p \<noteq> 0) (map cn_id as) @ (ms_next_peer st + 1) # filter (\<lambda>p. p \<noteq> 0) (map cn_id bs)"
      unfolding live_ids_def cs using l by (simp_all add: list_update_append)
    then show ?thesis using ok below by (fastforce simp: conns_ok_def)
  qed
  ultimately have "conns_ok ?st'" using ok n by (simp add: conns_ok_def list_all_iff)
  moreover have "evolves st ?st'"
    using cs by (auto simp: evolves_def dest!: set_update_subset_insert [THEN subsetD] intro: conn_later_refl)
  ultimately show "moves st ?st'" using s by (simp add: moves_def)
qed

lemma moves_length:
  "ms_connections st' = (ms_connections st)[k := c] \<Longrightarrow> length (ms_connections st') = length (ms_connections st)"
  by simp

lemma expire_others_slot:
  "k < length (ms_connections st) \<Longrightarrow> conn (expire_others lay k st) k = conn st k"
proof -
  have "conn (expire_list lay ks st) k = conn st k" if "k \<notin> set ks" for ks st
    using that
    by (induction ks arbitrary: st) (simp_all add: expire_def discard_messages_def Let_def conn_def)
  then show ?thesis by (simp add: expire_others_def)
qed

lemma moves_join_host:
  assumes ok: "conns_ok st" and k: "k < length (ms_connections st)" and live: "cn_id (conn st k) \<noteq> 0"
    and phase: "cn_phase (conn st k) = AwaitHello" and none: "cn_outgoing (conn st k) = []"
  shows "moves st (join_host lay k random st)"
proof -
  let ?st1 = "expire_others lay k st"
  have m1: "moves st ?st1" unfolding expire_others_def by (rule moves_expire_list [OF ok]) auto
  note ok1 = moves_ok [OF m1]
  have c1: "conn ?st1 k = conn st k" by (rule expire_others_slot [OF k])
  have k1: "k < length (ms_connections ?st1)" using k by (simp add: expire_others_def)
  define st2 where "st2 = ?st1\<lparr>ms_host := cn_id (conn ?st1 k)\<rparr>"
  define st3 where "st3 = (if ms_local st2 = 0 then case next_peer st2 of (ident, st') \<Rightarrow> st'\<lparr>ms_local := ident\<rparr> else st2)"
  have cs3: "ms_connections st3 = ms_connections ?st1" by (simp add: st3_def st2_def next_peer_eq)
  have m3: "moves ?st1 st3"
    by (rule moves_fields [OF ok1])
      (use ok1 live_conn [OF ok1 k1] live c1 in \<open>auto simp: st3_def st2_def next_peer_eq same_session_def conns_ok_def\<close>)
  note ok3 = moves_ok [OF m3]
  have c3: "conn st3 k = conn st k" using c1 cs3 by (simp add: conn_def)
  have k3: "k < length (ms_connections st3)" using k1 cs3 by simp
  let ?c = "(conn st3 k)\<lparr>cn_client_token := (case random of Some v \<Rightarrow> v | None \<Rightarrow> 0), cn_phase := PhaseHello\<rparr>"
  have m4: "moves st3 (set_conn k ?c st3)"
    by (rule moves_keep [OF ok3 k3]) (use live phase none c3 in \<open>auto simp: tokens_ok_def\<close>)
  have "moves (set_conn k ?c st3) (fail_connection lay k reason (set_conn k ?c st3))" for reason
    by (rule moves_fail_connection [OF moves_ok [OF m4]]) (use k3 live c3 in auto)
  then have "moves (set_conn k ?c st3) (join_host lay k random st)"
    using moves_refl [OF moves_ok [OF m4]]
    unfolding join_host_def Let_def st2_def [symmetric] st3_def [symmetric] by (cases random) simp_all
  then show ?thesis using moves_trans [OF ok m1 moves_trans [OF ok1 m3 moves_trans [OF ok3 m4]]] by blast
qed

lemma moves_accept_client:
  assumes ok: "conns_ok st" and k: "k < length (ms_connections st)" and live: "cn_id (conn st k) \<noteq> 0"
    and phase: "cn_phase (conn st k) = AwaitHello" and none: "cn_outgoing (conn st k) = []"
  shows "moves st (accept_client k user_id st)"
proof -
  define st1 where "st1 = (if ms_host st = 0 then case next_peer st of (ident, st') \<Rightarrow> st'\<lparr>ms_host := ident\<rparr> else st)"
  have cs: "ms_connections st1 = ms_connections st" by (simp add: st1_def next_peer_eq)
  then have c: "conn st1 k = conn st k" by (simp add: conn_def)
  have m1: "moves st st1"
    by (rule moves_fields [OF ok])
      (use ok in \<open>auto simp: st1_def next_peer_eq same_session_def conns_ok_def\<close>)
  note ok1 = moves_ok [OF m1]
  let ?st2 = "st1\<lparr>ms_local := cn_id (conn st1 k), ms_local_info := cn_info (conn st1 k),
      ms_host_info := (ms_host_info st1)\<lparr>pi_galaxy_id := user_id\<rparr>\<rparr>"
  have "cn_id (conn st1 k) \<le> ms_next_peer st1"
    using live_conn [OF ok1, of k] k live c cs by simp
  then have m2: "moves st1 ?st2"
    by (intro moves_fields [OF ok1]) (use ok1 in \<open>auto simp: same_session_def conns_ok_def\<close>)
  have c2: "conn ?st2 k = conn st k" using c by (simp add: conn_def)
  have "moves ?st2 (set_conn k ((conn st1 k)\<lparr>cn_phase := Established\<rparr>) ?st2)" if "cn_local (conn st k)"
    by (rule moves_keep [OF moves_ok [OF m2]]) (use that k live phase none c c2 cs in auto)
  then have "moves st1 (accept_client k user_id st)"
    using moves_refl [OF ok1] moves_trans [OF ok1 m2] c
    by (simp add: accept_client_def Let_def st1_def [symmetric])
  then show ?thesis by (rule moves_trans [OF ok m1])
qed

lemma establish_endpoints_id:
  assumes k: "k < length (ms_connections st)"
  shows "cn_id (conn (establish_endpoints lay k random user_id st) k) = cn_id (conn st k)"
proof -
  have f: "cn_id (conn (fail_connection lay k reason s) k) = cn_id (conn s k)"
    if "k < length (ms_connections s)" for reason s
    using fail_connection_effect(1) [OF that] that by (simp add: conn_def failed_conn_def)
  have o: "conn (expire_others lay k st) k = conn st k" "k < length (ms_connections (expire_others lay k st))"
    using k by (simp_all add: expire_others_slot) (simp add: expire_others_def)
  have "cn_id (conn (join_host lay k random st) k) = cn_id (conn st k)"
    using o by (auto simp: join_host_def Let_def next_peer_eq f) (simp_all add: conn_def)
  moreover have "cn_id (conn (accept_client k user_id st) k) = cn_id (conn st k)"
    using k by (auto simp: accept_client_def Let_def next_peer_eq conn_def)
  ultimately show ?thesis by (simp add: establish_endpoints_def)
qed

lemma join_host_length: "length (ms_connections (join_host lay k random st)) = length (ms_connections st)"
  by (simp add: join_host_def Let_def next_peer_eq expire_others_def)

lemma parse_tokens: "parse bytes = Some f \<Longrightarrow> tok_client (pf_tokens f) \<noteq> 0"
  using parse_SomeD [of bytes f] by (auto simp: well_formed_frame_def valid_tokens.simps)

lemma moves_take_hello:
  assumes ok: "conns_ok st" and k: "k < length (ms_connections st)" and live: "cn_id (conn st k) \<noteq> 0"
    and random: "random \<noteq> Some 0"
  shows "moves st (take_hello lay k raw_address random st)"
proof (cases "find_index (\<lambda>hello. ph_sender hello = raw_address) (ms_pending_hellos st)")
  case None
  then show ?thesis using moves_refl [OF ok] by (simp add: take_hello_def)
next
  case (Some n)
  let ?hello = "ms_pending_hellos st ! n"
  let ?st1 = "if \<not> cn_local (conn st k) \<and> ms_mode st \<noteq> GameClient
     then (case parse (ph_bytes ?hello) of
             Some frame \<Rightarrow> accept_hello lay random k (tok_client (pf_tokens frame)) (pf_manifest frame)
               (set_conn k ((conn st k)\<lparr>cn_deadline := ph_deadline ?hello\<rparr>) st)
           | None \<Rightarrow> st)
     else st"
  have d: "moves st (set_conn k ((conn st k)\<lparr>cn_deadline := ph_deadline ?hello\<rparr>) st)"
    by (rule moves_keep [OF ok k live]) (use live_conn [OF ok k live] in \<open>auto simp: tokens_ok_def\<close>)
  have m: "moves st ?st1"
    using moves_refl [OF ok] random k live
    by (auto intro!: moves_trans [OF ok d] moves_accept_hello moves_ok [OF d] parse_tokens split: option.split)
  have "moves ?st1 (take_hello lay k raw_address random st)"
    by (rule moves_fields [OF moves_ok [OF m]])
      (use Some moves_ok [OF m] in \<open>simp_all add: take_hello_def Let_def same_session_def conns_ok_def del: if_split\<close>)
  then show ?thesis by (rule moves_trans [OF ok m])
qed

lemma moves_connect:
  assumes ok: "conns_ok st" and random: "random \<noteq> Some 0"
  shows "moves st (connect lay now random slot raw_address user_id is_local st)"
proof (cases "ms_selected st")
  case True
  let ?st0 = "expire_hellos lay (Some now) st"
  obtain k st1 where claim: "claim_slot slot ?st0 = (k, st1)" by fastforce
  note m0 = moves_expire_hellos [OF ok, of lay "Some now"]
  note m1 = moves_claim [OF claim moves_ok [OF m0]]
  have m01: "moves st st1" by (rule moves_trans [OF ok m0 m1(1)])
  note ok1 = moves_ok [OF m01]
  show ?thesis
  proof (cases "cn_id (conn st1 k) \<noteq> 0 \<and> cn_raw (conn st1 k) = raw_address")
    case True
    then show ?thesis
      using \<open>ms_selected st\<close> claim moves_trans [OF ok m01] moves_refresh [OF ok1 m1(2)]
      by (simp add: connect_def Let_def)
  next
    case False
    let ?st2 = "forget_local (conn st1 k) st1"
    let ?st3 = "expire lay k ?st2"
    let ?st4 = "open_connection k now slot raw_address user_id is_local ?st3"
    let ?st5 = "establish_endpoints lay k random user_id ?st4"
    note m2 = moves_forget [OF ok1, of "conn st1 k"]
    have k2: "k < length (ms_connections ?st2)" using m1(2) by simp
    note m3 = moves_expire [OF moves_ok [OF m2] k2, of lay]
    have k3: "k < length (ms_connections ?st3)" using k2 by simp
    have free: "cn_id (conn ?st3 k) = 0" using k2 by (simp add: expire_slot empty_connection_def)
    note m4 = moves_open [OF moves_ok [OF m3] k3 free, of now slot raw_address user_id is_local]
    have k4: "k < length (ms_connections ?st4)" using k3 by simp
    have m5: "moves ?st4 ?st5"
      using moves_join_host [OF moves_ok [OF m4(1)] k4 m4(2-4)] moves_accept_client [OF moves_ok [OF m4(1)] k4 m4(2-4)]
      by (simp add: establish_endpoints_def)
    have k5: "k < length (ms_connections ?st5)"
      using k4 same_queues_length [OF accept_client_queues]
      by (simp add: establish_endpoints_def join_host_length del: open_connection_length)
    have live: "cn_id (conn ?st5 k) \<noteq> 0" using establish_endpoints_id [OF k4] m4(2) by simp
    have m6: "moves ?st5 (log_started k ?st5)"
      using moves_log [OF moves_ok [OF m5]] moves_refl [OF moves_ok [OF m5]] by (simp add: log_started_def Let_def)
    have same: "ms_connections (log_started k ?st5) = ms_connections ?st5" "conn (log_started k ?st5) = conn ?st5"
      by (simp_all add: log_started_def Let_def)
    have m7: "moves (log_started k ?st5) (take_hello lay k raw_address random (log_started k ?st5))"
      by (rule moves_take_hello [OF moves_ok [OF m6]]) (use k5 live random same in auto)
    have "moves st1 (take_hello lay k raw_address random (log_started k ?st5))"
      using moves_trans [OF ok1 m2 moves_trans [OF moves_ok [OF m2] m3 moves_trans [OF moves_ok [OF m3] m4(1)
        moves_trans [OF moves_ok [OF m4(1)] m5 moves_trans [OF moves_ok [OF m5] m6 m7]]]]] .
    then show ?thesis
      using moves_trans [OF ok m01] claim False \<open>ms_selected st\<close> by (auto simp: connect_def Let_def)
  qed
next
  case False
  then show ?thesis using moves_refl [OF ok] by (simp add: connect_def)
qed

lemma moves_disconnect: "conns_ok st \<Longrightarrow> moves st (disconnect lay slot st)"
proof (cases "slot_index st slot")
  case (Some k)
  assume ok: "conns_ok st"
  have k: "k < length (ms_connections st)" using Some by (auto simp: slot_index_def dest: find_index_SomeD)
  define st1 where "st1 = (if cn_id (conn st k) = ms_local st then st\<lparr>ms_local := 0, ms_local_info := no_info\<rparr> else st)"
  define st2 where "st2 = (if cn_id (conn st k) = ms_host st1
     then st1\<lparr>ms_host := 0, ms_local := 0, ms_local_info := no_info\<rparr> else st1)"
  have m: "moves st st2"
    by (rule moves_fields [OF ok]) (use ok in \<open>auto simp: st1_def st2_def same_session_def conns_ok_def\<close>)
  have "k < length (ms_connections st2)" using k by (simp add: st1_def st2_def)
  from moves_trans [OF ok m moves_expire [OF moves_ok [OF m] this]] show ?thesis
    unfolding disconnect_def Some option.case Let_def st1_def [symmetric] st2_def [symmetric] .
qed (simp add: disconnect_def moves_refl)

lemma moves_reset: "conns_ok st \<Longrightarrow> moves st (reset_connections lay st)"
proof -
  assume ok: "conns_ok st"
  let ?st1 = "expire_all lay (expire_hellos lay None st)"
  note m0 = moves_expire_hellos [OF ok, of lay None]
  have "moves (expire_hellos lay None st) ?st1"
    unfolding expire_all_def by (rule moves_expire_list [OF moves_ok [OF m0]]) auto
  then have m1: "moves st ?st1" by (rule moves_trans [OF ok m0])
  have "moves ?st1 (reset_connections lay st)"
    by (rule moves_fields [OF moves_ok [OF m1]]) (auto simp: reset_connections_def same_session_def)
  then show ?thesis by (rule moves_trans [OF ok m1])
qed

text \<open>An update of what the connections are known by natively.\<close>

lemma moves_map_connections:
  assumes ok: "conns_ok st" and cs: "ms_connections st' = map f (ms_connections st)"
    and s: "same_session st st'" and "ms_host st' = ms_host st" and "ms_local st' = ms_local st"
    and f: "\<And>c. f c = c \<or> cn_id c \<noteq> 0 \<and> (\<exists>info. f c = c\<lparr>cn_info := info\<rparr>)"
  shows "moves st st'"
proof -
  have ids: "cn_id (f c) = cn_id c" for c using f [of c] by auto
  then have "live_ids st' = live_ids st" by (simp add: live_ids_def cs comp_def)
  moreover have "conn_ok st (f c)" if "conn_ok st c" for c
    using f [of c] that by (auto simp: conn_ok_def tokens_ok_def)
  then have "list_all (conn_ok st') (ms_connections st')"
    using ok same_session_conn_ok [OF s] by (auto simp: conns_ok_def list_all_iff cs)
  moreover have "ms_next_peer st \<le> ms_next_peer st'" using s by (simp add: same_session_def)
  ultimately have "conns_ok st'" using ok assms(4,5) by (simp add: conns_ok_def)
  moreover have "conn_later st c (f c)" for c
    using f [of c] by (auto intro: conn_later_keep)
  then have "evolves st st'" using ids by (fastforce simp: evolves_def cs)
  ultimately show ?thesis using s by (simp add: moves_def)
qed

lemma moves_observe: "conns_ok st \<Longrightarrow> moves st (observe_local info st)"
proof (cases "ms_selected st")
  case True
  assume ok: "conns_ok st"
  define st2 where "st2 = (let st1 = st\<lparr>ms_local_info := info\<rparr>
     in if ms_mode st1 = GameHost \<or> ms_mode st1 = GameDedicated
        then (let st' = (if ms_host st1 = 0
                         then case next_peer st1 of (ident, s) \<Rightarrow> s\<lparr>ms_host := ident\<rparr> else st1)
              in st'\<lparr>ms_host_info := (ms_host_info st')\<lparr>pi_galaxy_id := pi_galaxy_id info\<rparr>\<rparr>)
        else if ms_mode st1 = GameClient \<and> ms_local st1 = 0
        then (case next_peer st1 of (ident, s) \<Rightarrow> s\<lparr>ms_local := ident\<rparr>)
        else st1)"
  have m: "moves st st2"
    by (rule moves_fields [OF ok])
      (use ok in \<open>auto simp: st2_def Let_def next_peer_eq same_session_def conns_ok_def\<close>)
  have e: "observe_local info st =
      (if ms_mode st2 = GameHost \<and> ms_local st2 \<noteq> 0
       then st2\<lparr>ms_connections := map (\<lambda>c. if cn_id c = ms_local st2 then c\<lparr>cn_info := info\<rparr> else c) (ms_connections st2)\<rparr>
       else st2)"
    using True unfolding observe_local_def st2_def Let_def by simp
  have "moves st2 (st2\<lparr>ms_connections := map (\<lambda>c. if cn_id c = ms_local st2 then c\<lparr>cn_info := info\<rparr> else c) (ms_connections st2)\<rparr>)"
    if "ms_local st2 \<noteq> 0"
    by (rule moves_map_connections [OF moves_ok [OF m], where f = "\<lambda>c. if cn_id c = ms_local st2 then c\<lparr>cn_info := info\<rparr> else c"])
      (use that in \<open>auto simp: same_session_def\<close>)
  then have "moves st2 (observe_local info st)" using moves_refl [OF moves_ok [OF m]] by (simp add: e)
  then show ?thesis by (rule moves_trans [OF ok m])
qed (simp add: observe_local_def moves_refl)

section \<open>Sending and failing\<close>

lemma route_live:
  assumes "route st feature peer = Some k"
  shows "k < length (ms_connections st)" and "cn_id (conn st k) \<noteq> 0" and "ft_frozen feature \<noteq> 0"
  using assms by (auto simp: route_def host_route_def dest: connection_index_less split: if_splits option.splits)

lemma agreement_compatible:
  assumes "agreement_locked st feature peer = Compatible" and "route st feature peer = Some k"
  shows "owner_state st feature = PInstalled" and "cn_phase (conn st k) = Established"
    and "\<not> failed_for (conn st k) (ft_id feature)" and "cn_local (conn st k) \<or> ms_remote_available st"
  using assms
  by (auto simp: agreement_locked_def failed_for_def Let_def split: if_splits option.splits)

lemma moves_send:
  assumes ok: "conns_ok st" and features: "features_ok st" and f: "feature_at st address = Some feature"
  shows "moves st (snd (send lay locked memory feature peer bytes st))"
proof (cases "fst (send lay locked memory feature peer bytes st) = SendAccepted")
  case True
  let ?m = "\<lparr>om_feature = ft_address feature, om_peer = peer, om_bytes = bytes\<rparr>"
  from True obtain k where k: "route st feature peer = Some k" "agreement_locked st feature peer = Compatible"
    and fits: "length bytes \<le> unat (ft_payload_capacity feature)"
    and e: "snd (send lay locked memory feature peer bytes st) =
      (set_conn k ((conn st k)\<lparr>cn_outgoing := cn_outgoing (conn st k) @ [?m]\<rparr>) st)
        \<lparr>ms_outgoing_bytes := ms_outgoing_bytes st + outgoing_charge lay ?m\<rparr>"
    by (auto simp: send_def Let_def not_less max_payload_def split: if_splits Agreement.splits option.splits)
  note live = route_live [OF k(1)] and compat = agreement_compatible [OF k(2,1)]
  have at: "feature_at st (ft_address feature) = Some feature" using f feature_at_member by fastforce
  have "length bytes \<le> payload_capacity (ft_id feature)"
    using fits feature_at_ok [OF features f] by (simp add: feature_ok_def unat_capacity)
  then have new: "message_ok st ?m" using at live(3) by (simp add: message_ok_def)
  show ?thesis
    unfolding e
  proof (rule moves_connection [OF ok live(1)])
    show "conn_ok st ((conn st k)\<lparr>cn_outgoing := cn_outgoing (conn st k) @ [?m]\<rparr>)"
      using live_conn [OF ok live(1,2)] live(2) compat(2) new by (simp add: conn_ok_def tokens_ok_def)
    have "message_id st ?m = Some (ft_id feature)" using at by (simp add: message_id_def)
    then show "conn_later st (conn st k) ((conn st k)\<lparr>cn_outgoing := cn_outgoing (conn st k) @ [?m]\<rparr>)"
      using compat(3) by (auto simp: conn_later_def failed_for_def find_path_def)
  qed (auto simp: same_session_def)
next
  case False
  then have "snd (send lay locked memory feature peer bytes st) = st"
    by (auto simp: send_def Let_def split: if_splits Agreement.splits option.splits)
  with moves_refl [OF ok] show ?thesis by simp
qed

lemma find_update_first:
  "List.find P xs = Some x \<Longrightarrow> (\<And>y. P (f y) = P y) \<Longrightarrow> List.find P (update_first P f xs) = Some (f x)"
  by (induction xs) (auto split: if_splits)

lemma filter_front:
  "xs = x # rest \<Longrightarrow> (\<exists>rest'. filter P xs = x # rest') \<or> \<not> P x"
  by auto

lemma moves_fail_feature:
  assumes ok: "conns_ok st"
  shows "moves st (fail_feature lay feature peer reason st)"
proof (cases "route st feature peer")
  case (Some k)
  note live = route_live [OF Some]
  let ?paths = "update_first (\<lambda>p. fa_id p = ft_id feature)
      (\<lambda>p. p\<lparr>fa_failed := True, fa_notice_pending := \<not> cn_local (conn st k), fa_reason := reason\<rparr>) (cn_paths (conn st k))"
  let ?c = "(conn st k)\<lparr>cn_paths := ?paths,
      cn_outgoing := filter (\<lambda>m. message_id st m \<noteq> Some (ft_id feature)) (cn_outgoing (conn st k))\<rparr>"
  have paths: "paths_later (cn_paths (conn st k)) ?paths" by (rule paths_later_update) simp
  have upd: "moves st st'"
    if "find_path (ft_id feature) (conn st k) = Some path" "ms_connections st' = (ms_connections st)[k := ?c]"
      "same_session st st'" "ms_host st' = ms_host st" "ms_local st' = ms_local st" for st' path
  proof (rule moves_connection [OF ok live(1) that(2-5)])
    show "conn_ok st ?c"
      using live_conn [OF ok live(1,2)] live(2) paths_later_ids [OF paths]
      by (auto simp: conn_ok_def tokens_ok_def list_all_iff)
    have now: "failed_for ?c (ft_id feature)"
      using find_update_first [OF that(1) [unfolded find_path_def]] by (simp add: failed_for_def find_path_def)
    have later: "failed_for ?c ident" if "failed_for (conn st k) ident" for ident
      by (rule failed_for_later [OF that]) (simp_all add: paths)
    show "conn_later st (conn st k) ?c"
      unfolding conn_later_def
    proof (intro conjI allI impI ballI)
      fix m rest assume front: "cn_outgoing (conn st k) = m # rest"
      show "(\<exists>rest'. cn_outgoing ?c = m # rest') \<or>
          (\<forall>m' \<in> set (cn_outgoing ?c). message_id st m' \<noteq> message_id st m) \<and>
          (\<forall>ident. message_id st m = Some ident \<longrightarrow> failed_for ?c ident)"
        using front now by auto
    qed (use later in auto)
  qed
  show ?thesis
    using Some moves_refl [OF ok]
    by (auto simp: fail_feature_def Let_def same_session_def intro!: upd split: option.split)
qed (simp add: fail_feature_def moves_refl ok)

lemma moves_fold:
  assumes "\<And>k s. conns_ok s \<Longrightarrow> k < length (ms_connections s) \<Longrightarrow>
      moves s (f k s) \<and> length (ms_connections (f k s)) = length (ms_connections s)"
  shows "conns_ok st \<Longrightarrow> set ks \<subseteq> {..<length (ms_connections st)} \<Longrightarrow> moves st (fold f ks st)"
proof (induction ks arbitrary: st)
  case (Cons k ks)
  then have m: "moves st (f k st)" "length (ms_connections (f k st)) = length (ms_connections st)"
    using assms [of st k] by simp_all
  have "moves (f k st) (fold f ks (f k st))" using Cons m moves_ok by simp
  then show ?case using moves_trans [OF Cons.prems(1) m(1)] by simp
qed (simp add: moves_refl)

lemma moves_carrier_failed:
  assumes ok: "conns_ok st"
  shows "moves st (carrier_failed lay reason st)"
proof -
  note m = moves_expire_hellos [OF ok, of lay None]
  have "moves (expire_hellos lay None st) (carrier_failed lay reason st)"
    unfolding carrier_failed_def
    by (rule moves_fold [OF _ moves_ok [OF m]]) (auto intro: moves_refl moves_fail_connection)
  then show ?thesis by (rule moves_trans [OF ok m])
qed

section \<open>Receiving\<close>

lemma moves_receive_unknown:
  "conns_ok st \<Longrightarrow> moves st (receive_unknown lay server sender bytes now memory frame st)"
  by (rule moves_fields)
    (auto simp: receive_unknown_def log_unknown_sender_def Let_def same_session_def conns_ok_def split: option.split)

lemma report_failed_path_session: "same_session st (report_failed_path k ident reason features st)"
proof (induction features arbitrary: st)
  case (Cons feature features)
  have "same_session st (report owner level message st)" for owner level message by (simp add: same_session_def)
  then show ?case using Cons.IH same_session_trans by (fastforce simp: Let_def)
qed simp

lemma report_failed_path_endpoints [simp]:
  "ms_host (report_failed_path k ident reason features st) = ms_host st"
  "ms_local (report_failed_path k ident reason features st) = ms_local st"
  by (induction features arbitrary: st) (simp_all add: Let_def)

lemma moves_receive_failed:
  assumes ok: "conns_ok st" and k: "k < length (ms_connections st)" and live: "cn_id (conn st k) \<noteq> 0"
  shows "moves st (receive_failed lay k ident st)"
proof (cases "ident = []")
  case True
  let ?st1 = "fail_connection lay k ''Peer reported a failed multiplayer connection'' st"
  note m = moves_fail_connection [OF ok k live]
  have k1: "k < length (ms_connections ?st1)" using k by simp
  have live1: "cn_id (conn ?st1 k) \<noteq> 0"
    using fail_connection_effect(1) [OF k] k live by (simp add: conn_def failed_conn_def)
  have "moves ?st1 (set_conn k ((conn ?st1 k)\<lparr>cn_whole_notice := False\<rparr>) ?st1)"
    by (rule moves_keep [OF moves_ok [OF m] k1 live1])
      (use live_conn [OF moves_ok [OF m] k1 live1] in \<open>auto simp: tokens_ok_def\<close>)
  then show ?thesis using True moves_trans [OF ok m] by (simp add: receive_failed_def Let_def)
next
  case False
  let ?c = "\<lambda>reason. (conn st k)\<lparr>cn_paths := update_first (\<lambda>p. fa_id p = ident)
      (\<lambda>p. p\<lparr>fa_failed := True, fa_notice_pending := False,
             fa_reason := (if fa_failed p then fa_reason p else reason)\<rparr>) (cn_paths (conn st k))\<rparr>"
  have paths: "paths_later (cn_paths (conn st k)) (cn_paths (?c reason))" for reason
    by (simp add: paths_later_update)
  have upd: "moves st (set_conn k (?c reason) st1)"
    if "st1 = st \<or> st1 = report_failed_path k ident reason (ms_features st) st" for st1 reason
  proof (rule moves_connection [OF ok k, where c = "?c reason"])
    show "conn_ok st (?c reason)"
      using live_conn [OF ok k live] live paths_later_ids [OF paths] by (auto simp: conn_ok_def tokens_ok_def)
    show "conn_later st (conn st k) (?c reason)" by (rule conn_later_keep) (simp_all add: paths_later_update)
    have "same_session st st1" using that report_failed_path_session by auto
    then show "same_session st (set_conn k (?c reason) st1)" by (simp add: same_session_def)
  qed (use that in auto)
  then show ?thesis using False moves_refl [OF ok] by (auto simp: receive_failed_def Let_def split: option.split)
qed

lemma moves_receive_data:
  assumes ok: "conns_ok st" and k: "k < length (ms_connections st)" and live: "cn_id (conn st k) \<noteq> 0"
  shows "moves st (receive_data lay server memory k frame st)"
proof -
  have "moves st (st\<lparr>ms_incoming := i, ms_incoming_bytes := b\<rparr>)" for i b
    by (rule moves_fields [OF ok]) (use ok in \<open>auto simp: same_session_def conns_ok_def\<close>)
  then show ?thesis
    using moves_refl [OF ok] moves_fail_connection [OF ok k live]
    by (auto simp: receive_data_def Let_def split: option.split)
qed

lemma moves_receive_frame:
  assumes ok: "conns_ok st" and k: "k < length (ms_connections st)" and live: "cn_id (conn st k) \<noteq> 0"
    and remote: "\<not> cn_local (conn st k)" and random: "random \<noteq> Some 0" and frame: "parse bytes = Some f"
  shows "moves st (receive_frame lay server memory random k f st)"
proof -
  have host: "tok_host (pf_tokens f) \<noteq> 0" if "pf_kind f = Message_Protocol.Welcome"
    using parse_SomeD [OF frame] that by (auto simp: well_formed_frame_def valid_tokens.simps split: if_splits)
  note client = parse_tokens [OF frame]
  have answered: "moves st (set_conn k ((conn st k)\<lparr>cn_host_token := tok_host (pf_tokens f),
      cn_paths := support_paths (pf_manifest f) (cn_paths (conn st k)), cn_phase := PhaseReady\<rparr>) st)"
    if "pf_kind f = Message_Protocol.Welcome" "tok_client (pf_tokens f) = cn_client_token (conn st k)"
      "cn_phase (conn st k) = PhaseHello \<or> cn_phase (conn st k) = AwaitWelcome"
    by (rule moves_keep [OF ok k live])
      (use that host client live_conn [OF ok k live] in \<open>auto simp: tokens_ok_def support_paths_later\<close>)
  have ready: "moves st (set_conn k ((conn st k)\<lparr>cn_phase := Established\<rparr>) st)"
    if "cn_phase (conn st k) = AwaitReady \<or> cn_phase (conn st k) = PhaseWelcome"
    by (rule moves_keep [OF ok k live])
      (use that remote live_conn [OF ok k live] in \<open>auto simp: tokens_ok_def\<close>)
  show ?thesis
    using moves_accept_hello [OF ok k live random client] moves_reject [OF ok k live]
      moves_receive_failed [OF ok k live] moves_receive_data [OF ok k live]
      moves_log_set [OF ok answered] moves_log_set [OF ok ready]
    by (auto simp: receive_frame_def Let_def)
qed

lemma sender_index_SomeD:
  "sender_index sender st = Some k \<Longrightarrow>
   k < length (ms_connections st) \<and> cn_id (conn st k) \<noteq> 0 \<and> \<not> cn_local (conn st k)"
  by (auto simp: sender_index_def conn_def dest: find_index_SomeD)

lemma timeout_keeps:
  "k < length (ms_connections st) \<Longrightarrow>
   cn_id (conn (timeout k now st) k) = cn_id (conn st k) \<and> cn_local (conn (timeout k now st) k) = cn_local (conn st k)"
  by (simp add: timeout_def Let_def)

lemma moves_receive:
  assumes ok: "conns_ok st" and random: "random \<noteq> Some 0"
  shows "moves st (receive lay memory random server sender bytes now st)"
proof -
  let ?st1 = "expire_hellos lay (Some now) st"
  note m1 = moves_expire_hellos [OF ok, of lay "Some now"]
  note ok1 = moves_ok [OF m1]
  have known: "moves ?st1 (reject k cause reason ?st1)" "moves ?st1 (timeout k now ?st1)"
    "parse bytes = Some f \<Longrightarrow> moves ?st1 (receive_frame lay server memory random k f (timeout k now ?st1))"
    if "sender_index sender ?st1 = Some k" for k cause reason f
  proof -
    note s = sender_index_SomeD [OF that]
    show "moves ?st1 (reject k cause reason ?st1)" using moves_reject [OF ok1] s by blast
    show t: "moves ?st1 (timeout k now ?st1)" using moves_timeout [OF ok1] s by blast
    show "moves ?st1 (receive_frame lay server memory random k f (timeout k now ?st1))" if "parse bytes = Some f"
      by (rule moves_trans [OF ok1 t moves_receive_frame [OF moves_ok [OF t] _ _ _ random that]])
        (use s timeout_keeps [of k ?st1 now] in simp_all)
  qed
  have "moves st st'" if "moves ?st1 st'" for st' by (rule moves_trans [OF ok m1 that])
  then show ?thesis
    using moves_refl [OF ok] moves_receive_unknown [OF ok1] known
    by (auto simp: receive_def Let_def split: option.split)
qed

section \<open>Session boundaries\<close>

definition no_connections :: "MultiplayerService \<Rightarrow> bool" where
  "no_connections st \<longleftrightarrow> list_all (\<lambda>c. c = empty_connection) (ms_connections st) \<and> ms_host st = 0 \<and> ms_local st = 0"

lemma expire_list_connections:
  "set ks \<subseteq> {..<length (ms_connections st)} \<Longrightarrow>
   ms_connections (expire_list lay ks st) = fold (\<lambda>k cs. cs[k := empty_connection]) ks (ms_connections st)"
  by (induction ks arbitrary: st) (simp_all add: expire_def discard_messages_def Let_def)

lemma fold_update_nth:
  "j < length xs \<Longrightarrow> fold (\<lambda>k cs. cs[k := x]) ks xs ! j = (if j \<in> set ks then x else xs ! j)"
  by (induction ks arbitrary: xs) (auto simp: nth_list_update)

lemma length_fold_update: "length (fold (\<lambda>k cs. cs[k := x]) ks xs) = length xs"
  by (induction ks arbitrary: xs) auto

lemma boundary_connections:
  "list_all (\<lambda>c. c = empty_connection) (ms_connections (expire_all lay (expire_hellos lay None st)))"
proof -
  have "ms_connections (expire_all lay (expire_hellos lay None st)) =
      fold (\<lambda>k cs. cs[k := empty_connection]) [0..<length (ms_connections st)] (ms_connections st)"
    unfolding expire_all_def by (subst expire_list_connections) auto
  then show ?thesis by (simp add: list_all_length fold_update_nth length_fold_update)
qed

lemma begin_session_connections: "no_connections (begin_session lay state galaxy st)"
  using boundary_connections [of lay st] by (auto simp: begin_session_def Let_def no_connections_def)

lemma end_session_connections: "no_connections (end_session lay st)"
  using boundary_connections [of lay st] by (auto simp: end_session_def Let_def no_connections_def)

lemma no_connections_ok:
  assumes "no_connections st"
  shows "conns_ok st"
proof -
  have c: "c = empty_connection" if "c \<in> set (ms_connections st)" for c
    using assms that by (simp add: no_connections_def list_all_iff)
  have "cn_id c = 0" if "c \<in> set (ms_connections st)" for c
    using c [OF that] by (simp add: empty_connection_def)
  then have "live_ids st = []" by (auto simp: live_ids_def filter_empty_conv)
  moreover have "conn_ok st empty_connection" by (simp add: conn_ok_def empty_connection_def)
  then have "list_all (conn_ok st) (ms_connections st)" unfolding list_all_iff using c by blast
  ultimately show ?thesis using assms by (simp add: conns_ok_def no_connections_def)
qed

end
