(* ===== verification/Multiplayer_Invariant.thy ===== *)
theory Multiplayer_Invariant
  imports Multiplayer_Moves
begin

unbundle bit_operations_syntax

text \<open>
  The invariant of the whole system: registrations, connections and the frame in the carrier's hands.
\<close>

section \<open>Registrations over session boundaries\<close>

lemma set_set_union: "set (set_union as bs) = set as \<union> set bs"
  by (induction as bs rule: set_union.induct) auto

lemma set_role_manifest:
  "set (role_manifest role features) = ft_id ` {f \<in> set features. ft_frozen f AND role \<noteq> 0}"
  by (auto simp: role_manifest_def)

lemma both_roles: "(x :: u32) AND 3 \<noteq> 0 \<Longrightarrow> x AND 1 \<noteq> 0 \<or> x AND 2 \<noteq> 0"
proof -
  have "x AND 3 = (x AND 1) OR (x AND 2)" by (simp flip: bit.conj_disj_distrib)
  then show "x AND 3 \<noteq> 0 \<Longrightarrow> x AND 1 \<noteq> 0 \<or> x AND 2 \<noteq> 0" by auto
qed

lemma applicable_role:
  assumes "role AND applicable_roles mode \<noteq> 0"
  shows "(role AND applicable_roles mode) AND FC_FEATURE_CLIENT \<noteq> 0 \<and> applicable_roles mode AND FC_FEATURE_CLIENT \<noteq> 0 \<or>
    (role AND applicable_roles mode) AND FC_FEATURE_HOST \<noteq> 0 \<and> applicable_roles mode AND FC_FEATURE_HOST \<noteq> 0"
  using assms both_roles [of role]
  by (cases mode) (simp_all add: applicable_roles_def FC_FEATURE_CLIENT_def FC_FEATURE_HOST_def FC_FEATURE_BOTH_def and.assoc)

lemma manifest_ids_short:
  assumes "frame_size (encode_manifest kind tokens ids (replicate kFrameBytes 0)) \<noteq> 0" and "ident \<in> set ids"
    and "kind = Message_Protocol.Hello \<or> kind = Message_Protocol.Welcome"
  shows "length ident \<le> 2023"
proof -
  let ?p = "\<lparr>pf_kind = kind, pf_tokens = tokens, pf_manifest = ids, pf_feature = [], pf_payload = []\<rparr>"
  have "well_formed_frame ?p"
    using assms(1) unfolding encode_manifest_eq [OF assms(3)]
    by (auto simp: frame_size_def encoded_def Let_def split: if_splits)
  then have "length (frame_bytes ?p) \<le> 2048" by (simp add: well_formed_frame_def kFrameBytes_def)
  moreover have "length (id_field ident) \<le> length (concat (map id_field ids))"
    using assms(2) by (auto simp: length_concat comp_def intro!: member_le_sum_list)
  ultimately show ?thesis using assms(3) by (auto simp: frame_bytes_def)
qed

lemma find_map_same:
  "(\<And>x. P (f x) = P x) \<Longrightarrow> List.find P (map f xs) = map_option f (List.find P xs)"
  by (induction xs) auto

lemma boundary_features [simp]:
  "ms_features (expire_all lay (expire_hellos lay now st)) = ms_features st"
  "ms_owners (expire_all lay (expire_hellos lay now st)) = ms_owners st"
  "ms_next_feature (expire_all lay (expire_hellos lay now st)) = ms_next_feature st"
  "ms_next_peer (expire_all lay (expire_hellos lay now st)) = ms_next_peer st"
proof -
  have "ms_features (expire_list lay ks s) = ms_features s \<and> ms_owners (expire_list lay ks s) = ms_owners s \<and>
      ms_next_feature (expire_list lay ks s) = ms_next_feature s \<and> ms_next_peer (expire_list lay ks s) = ms_next_peer s" for ks s
    by (induction ks arbitrary: s) (simp_all add: expire_def discard_messages_def Let_def)
  then show "ms_features (expire_all lay (expire_hellos lay now st)) = ms_features st"
    "ms_owners (expire_all lay (expire_hellos lay now st)) = ms_owners st"
    "ms_next_feature (expire_all lay (expire_hellos lay now st)) = ms_next_feature st"
    "ms_next_peer (expire_all lay (expire_hellos lay now st)) = ms_next_peer st"
    by (simp_all add: expire_all_def expire_hellos_def)
qed

lemma begin_session_fields:
  "ms_features (begin_session lay state galaxy st) =
    map (freeze st (ms_selected (begin_session lay state galaxy st)) (applicable_roles (gs_mode state))) (ms_features st)"
  "ms_owners (begin_session lay state galaxy st) = ms_owners st"
  "ms_next_feature (begin_session lay state galaxy st) = ms_next_feature st"
  "ms_next_peer (begin_session lay state galaxy st) = ms_next_peer st"
  "set (ms_feature_ids (begin_session lay state galaxy st)) =
    set (role_manifest FC_FEATURE_CLIENT (ms_features (begin_session lay state galaxy st))) \<union>
    set (role_manifest FC_FEATURE_HOST (ms_features (begin_session lay state galaxy st)))"
  "ms_remote_available (begin_session lay state galaxy st) \<longleftrightarrow>
    ms_selected (begin_session lay state galaxy st) \<and>
    manifests_encode (applicable_roles (gs_mode state))
      (role_manifest FC_FEATURE_CLIENT (ms_features (begin_session lay state galaxy st)))
      (role_manifest FC_FEATURE_HOST (ms_features (begin_session lay state galaxy st)))"
proof -
  let ?st1 = "expire_all lay (expire_hellos lay None st)"
  have f: "freeze ?st1 = freeze st" by (simp add: freeze_def owner_state_def fun_eq_iff)
  note d = begin_session_def Let_def f if_distrib [of ms_features] if_distrib [of ms_owners]
    if_distrib [of ms_next_feature] if_distrib [of ms_next_peer] if_distrib [of ms_feature_ids]
    if_distrib [of ms_remote_available] if_distrib [of ms_selected]
  show "ms_features (begin_session lay state galaxy st) =
      map (freeze st (ms_selected (begin_session lay state galaxy st)) (applicable_roles (gs_mode state))) (ms_features st)"
    "ms_owners (begin_session lay state galaxy st) = ms_owners st"
    "ms_next_feature (begin_session lay state galaxy st) = ms_next_feature st"
    "ms_next_peer (begin_session lay state galaxy st) = ms_next_peer st"
    by (simp_all add: d cong: if_cong)
  show "set (ms_feature_ids (begin_session lay state galaxy st)) =
      set (role_manifest FC_FEATURE_CLIENT (ms_features (begin_session lay state galaxy st))) \<union>
      set (role_manifest FC_FEATURE_HOST (ms_features (begin_session lay state galaxy st)))"
    by (simp add: d set_set_union)
  show "ms_remote_available (begin_session lay state galaxy st) \<longleftrightarrow>
      ms_selected (begin_session lay state galaxy st) \<and>
      manifests_encode (applicable_roles (gs_mode state))
        (role_manifest FC_FEATURE_CLIENT (ms_features (begin_session lay state galaxy st)))
        (role_manifest FC_FEATURE_HOST (ms_features (begin_session lay state galaxy st)))"
    by (simp add: d)
qed

lemma begin_session_features:
  assumes "features_ok st"
  shows "features_ok (begin_session lay state galaxy st)"
proof -
  let ?st' = "begin_session lay state galaxy st" and ?roles = "applicable_roles (gs_mode state)"
  note f = begin_session_fields [of lay state galaxy st]
  have "feature_ok ?st' f'" if member: "f' \<in> set (ms_features ?st')" for f'
  proof -
    from member obtain g where g: "g \<in> set (ms_features st)" "f' = freeze st (ms_selected ?st') ?roles g"
      unfolding f(1) by auto
    have ok: "feature_ok st g" using assms g(1) by (simp add: features_ok_def list_all_iff)
    have frozen: "owner_state ?st' f' = PInstalled \<and> ft_id f' \<in> set (ms_feature_ids ?st') \<and>
        (ms_remote_available ?st' \<longrightarrow> length (ft_id f') \<le> 2023)" if "ft_frozen f' \<noteq> 0"
    proof -
      have sel: "owner_state st g = PInstalled" "ft_frozen f' = ft_role g AND ?roles"
        using that g(2) by (auto simp: freeze_def split: if_splits)
      with that have "ft_frozen f' AND FC_FEATURE_CLIENT \<noteq> 0 \<and> ?roles AND FC_FEATURE_CLIENT \<noteq> 0 \<or>
          ft_frozen f' AND FC_FEATURE_HOST \<noteq> 0 \<and> ?roles AND FC_FEATURE_HOST \<noteq> 0"
        using applicable_role [of "ft_role g" "gs_mode state"] by simp
      then have "ft_id f' \<in> set (role_manifest FC_FEATURE_CLIENT (ms_features ?st')) \<and> ?roles AND FC_FEATURE_CLIENT \<noteq> 0 \<or>
          ft_id f' \<in> set (role_manifest FC_FEATURE_HOST (ms_features ?st')) \<and> ?roles AND FC_FEATURE_HOST \<noteq> 0"
        using member by (auto simp: set_role_manifest)
      then show ?thesis
        using f(6) manifest_ids_short sel(1) g(2) unfolding f(5)
        by (auto simp: manifests_encode_def Let_def owner_state_def f(2) freeze_def)
    qed
    show ?thesis using ok g(2) frozen by (simp add: feature_ok_def f(3) freeze_def)
  qed
  moreover have "map ft_address (ms_features ?st') = map ft_address (ms_features st)"
    by (simp add: f(1) freeze_def comp_def)
  ultimately show ?thesis using assms by (simp add: features_ok_def list_all_iff)
qed

lemma end_session_features:
  assumes "features_ok st"
  shows "features_ok (end_session lay st)"
  using assms by (auto simp: end_session_def features_ok_def list_all_iff feature_ok_def comp_def)

lemma end_session_peer: "ms_next_peer (end_session lay st) = ms_next_peer st"
  by (simp add: end_session_def Let_def)

section \<open>Operations on the registrations\<close>

text \<open>Registrations of installed patches stay, with their identifier and their frozen roles.\<close>

definition keeps_features :: "MultiplayerService \<Rightarrow> MultiplayerService \<Rightarrow> bool" where
  "keeps_features st st' \<longleftrightarrow>
    (\<forall>address f. feature_at st address = Some f \<longrightarrow> owner_state st f = PInstalled \<longrightarrow>
      (\<exists>f'. feature_at st' address = Some f' \<and> ft_id f' = ft_id f \<and> owner_state st' f' = PInstalled))"

definition keeps_frozen :: "MultiplayerService \<Rightarrow> MultiplayerService \<Rightarrow> bool" where
  "keeps_frozen st st' \<longleftrightarrow>
    (\<forall>address f. feature_at st address = Some f \<longrightarrow> ft_frozen f \<noteq> 0 \<longrightarrow>
      (\<exists>f'. feature_at st' address = Some f' \<and> ft_id f' = ft_id f \<and> ft_frozen f' = ft_frozen f))"

lemma same_features_keep:
  "ms_features st' = ms_features st \<Longrightarrow> ms_owners st' = ms_owners st \<Longrightarrow> keeps_features st st'"
  by (simp add: keeps_features_def feature_at_def owner_state_def)

lemma map_features_keep:
  assumes "ms_features st' = map f (ms_features st)" and "ms_owners st' = ms_owners st"
    and "\<And>g. ft_address (f g) = ft_address g \<and> ft_id (f g) = ft_id g \<and> ft_owner (f g) = ft_owner g"
  shows "keeps_features st st'"
  using assms by (auto simp: keeps_features_def feature_at_def owner_state_def find_map_same)

lemma begin_session_keeps: "keeps_features st (begin_session lay state galaxy st)"
  by (rule map_features_keep [OF begin_session_fields(1,2)]) (simp add: freeze_def)

lemma end_session_keeps: "keeps_features st (end_session lay st)"
  by (rule map_features_keep [where f = "\<lambda>f. f\<lparr>ft_frozen := 0\<rparr>"]) (simp_all add: end_session_def Let_def)

text \<open>An operation that changes registrations and leaves the connections alone.\<close>

lemma registration_conns_ok:
  assumes ok: "conns_ok st" and k: "keeps_frozen st st'" and "ms_connections st' = ms_connections st"
    and "ms_next_peer st' = ms_next_peer st" and "ms_feature_ids st' = ms_feature_ids st"
    and "ms_host st' = ms_host st" and "ms_local st' = ms_local st"
  shows "conns_ok st'"
proof -
  have "message_ok st' m" if "message_ok st m" for m
    using that k unfolding message_ok_def keeps_frozen_def by metis
  then have "conn_ok st' c" if "conn_ok st c" for c
    using that assms by (auto simp: conn_ok_def list_all_iff)
  then show ?thesis using assms by (auto simp: conns_ok_def list_all_iff live_ids_def)
qed

lemma find_update_first_other:
  "(\<And>x. P (f x) = P x) \<Longrightarrow>
   List.find P (update_first Q f xs) = List.find P xs \<or>
   (\<exists>x. List.find P xs = Some x \<and> List.find P (update_first Q f xs) = Some (f x))"
  by (induction xs) auto

lemma set_feature_ok:
  assumes "features_ok st" and "\<And>f. change f = f\<lparr>ft_peers := p f, ft_last := l f, ft_messages := m f\<rparr>"
  shows "features_ok (set_feature address change st)"
    and "keeps_features st (set_feature address change st)" and "keeps_frozen st (set_feature address change st)"
proof -
  let ?st' = "set_feature address change st"
  have addresses: "map ft_address (ms_features ?st') = map ft_address (ms_features st)"
    using assms(2) by (simp add: set_feature_def map_update_first)
  have "feature_ok ?st' f" if "f \<in> set (ms_features ?st')" for f
  proof -
    have "f \<in> set (ms_features st) \<union> change ` set (ms_features st)"
      using that set_update_first_subset unfolding set_feature_def by fastforce
    then have "feature_ok st f \<or> (\<exists>g. feature_ok st g \<and> f = change g)"
      using assms(1) by (auto simp: features_ok_def list_all_iff)
    then show ?thesis using assms(2) by (auto simp: feature_ok_def owner_state_def set_feature_def)
  qed
  then show "features_ok ?st'" using assms(1) addresses by (simp add: features_ok_def list_all_iff)
  have at: "feature_at ?st' a = feature_at st a \<or> (\<exists>f. feature_at st a = Some f \<and> feature_at ?st' a = Some (change f))" for a
    unfolding feature_at_def set_feature_def
    using find_update_first_other [of "\<lambda>f. ft_address f = a" change "\<lambda>f. ft_address f = address" "ms_features st"] assms(2)
    by simp
  have o: "owner_state ?st' f = owner_state st f" for f by (simp add: owner_state_def set_feature_def)
  have c: "ft_id (change f) = ft_id f" "ft_frozen (change f) = ft_frozen f" "owner_state st (change f) = owner_state st f" for f
    using assms(2) [of f] by (simp_all add: owner_state_def)
  show "keeps_features st ?st'" unfolding keeps_features_def o using at c by (metis option.inject)
  show "keeps_frozen st ?st'" unfolding keeps_frozen_def using at c by (metis option.inject)
qed

lemma find_append: "List.find P (xs @ ys) = (case List.find P xs of Some x \<Rightarrow> Some x | None \<Rightarrow> List.find P ys)"
  by (induction xs) auto

lemma register_feature_ok:
  assumes "features_ok st"
  shows "features_ok (snd (register_feature owner ident role st))"
    and "keeps_features st (snd (register_feature owner ident role st))"
    and "keeps_frozen st (snd (register_feature owner ident role st))"
proof -
  let ?st' = "snd (register_feature owner ident role st)"
  have below: "ft_address f \<noteq> ms_next_feature st" if "f \<in> set (ms_features st)" for f
    using assms that by (auto simp: features_ok_def list_all_iff feature_ok_def)
  show "features_ok ?st'"
    using assms below
    by (auto simp: register_feature_def Let_def features_ok_def list_all_iff feature_ok_def owner_state_def)
  show "keeps_features st ?st'" "keeps_frozen st ?st'"
    by (auto simp: register_feature_def Let_def keeps_features_def keeps_frozen_def feature_at_def find_append
        owner_state_def split: option.split)
qed

lemma find_filter_other:
  "List.find P xs = Some x \<Longrightarrow> Q x \<Longrightarrow> distinct (map g xs) \<Longrightarrow> (\<And>y. P y \<longleftrightarrow> g y = a) \<Longrightarrow>
   List.find P (filter Q xs) = Some x"
  by (induction xs) (auto split: if_splits)

lemma discard_owner_ok:
  assumes "features_ok st" and "ow_state (ms_owners st owner) \<noteq> PInstalled"
  shows "features_ok (discard_owner owner st)"
    and "keeps_features st (discard_owner owner st)" and "keeps_frozen st (discard_owner owner st)"
proof -
  show "features_ok (discard_owner owner st)"
    using assms(1)
    by (auto simp: features_ok_def list_all_iff feature_ok_def discard_owner_def owner_state_def distinct_map inj_on_def)
  have keep: "feature_at (discard_owner owner st) address = Some f"
    if "feature_at st address = Some f" "owner_state st f = PInstalled" for address f
    unfolding feature_at_def discard_owner_def
    using that assms
    by (auto simp: feature_at_def owner_state_def features_ok_def
        intro!: find_filter_other [where g = ft_address and a = address])
  then show "keeps_features st (discard_owner owner st)"
    by (auto simp: keeps_features_def owner_state_def discard_owner_def)
  have "owner_state st f = PInstalled" if "feature_at st address = Some f" "ft_frozen f \<noteq> 0" for address f
    using feature_at_ok [OF assms(1) that(1)] that(2) by (simp add: feature_ok_def)
  then show "keeps_frozen st (discard_owner owner st)" using keep by (auto simp: keeps_frozen_def)
qed

lemma change_owner_ok:
  assumes "features_ok st" and "ow_state (ms_owners st n) = PInstalled \<longrightarrow> ow_state owner = PInstalled"
  shows "features_ok (change_owner n owner st)"
    and "keeps_features st (change_owner n owner st)" and "keeps_frozen st (change_owner n owner st)"
  using assms
  by (auto simp: change_owner_def features_ok_def list_all_iff feature_ok_def keeps_features_def keeps_frozen_def
      feature_at_def owner_state_def)

section \<open>The service invariant\<close>

definition service_ok :: "MultiplayerService \<Rightarrow> bool" where
  "service_ok st \<longleftrightarrow> features_ok st \<and> conns_ok st"

lemma moves_service_ok: "moves st st' \<Longrightarrow> features_ok st \<Longrightarrow> service_ok st'"
  by (auto simp: moves_def service_ok_def intro: same_session_features_ok)

lemma moves_keeps: "moves st st' \<Longrightarrow> keeps_features st st'"
  by (auto simp: moves_def same_session_def intro: same_features_keep)

text \<open>How an event that keeps the lock to its end changes the service: the connections move, or they
  stay while registrations change, or there are none left.\<close>

definition service_change :: "MultiplayerService \<Rightarrow> MultiplayerService \<Rightarrow> bool" where
  "service_change st st' \<longleftrightarrow> service_ok st' \<and> keeps_features st st' \<and> ms_next_peer st \<le> ms_next_peer st' \<and>
    (moves st st' \<or> ms_connections st' = ms_connections st \<or> no_connections st')"

lemma moves_change: "moves st st' \<Longrightarrow> features_ok st \<Longrightarrow> service_change st st'"
  using moves_service_ok moves_keeps by (auto simp: service_change_def moves_def same_session_def)

lemma service_change_refl: "service_ok st \<Longrightarrow> service_change st st"
  by (auto simp: service_change_def service_ok_def intro: moves_refl same_features_keep)

lemma registration_change:
  assumes "service_ok st" and "features_ok st'" and "keeps_features st st'" and "keeps_frozen st st'"
    and "ms_connections st' = ms_connections st" and "ms_next_peer st' = ms_next_peer st"
    and "ms_feature_ids st' = ms_feature_ids st" and "ms_host st' = ms_host st" and "ms_local st' = ms_local st"
  shows "service_change st st'"
  using assms registration_conns_ok [of st st'] by (simp add: service_change_def service_ok_def)

lemma boundary_change:
  "features_ok st' \<Longrightarrow> no_connections st' \<Longrightarrow> keeps_features st st' \<Longrightarrow> ms_next_peer st' = ms_next_peer st \<Longrightarrow>
   service_change st st'"
  by (simp add: service_change_def service_ok_def no_connections_ok)

fun token_event :: "mp_event \<Rightarrow> bool" where
  "token_event (EvConnect now random slot raw_address user_id is_local) \<longleftrightarrow> random \<noteq> Some 0"
| "token_event (EvReceive memory random server sender bytes now) \<longleftrightarrow> random \<noteq> Some 0"
| "token_event _ \<longleftrightarrow> True"

lemma service_step_change:
  assumes ok: "service_ok st" and allowed: "mp_allowed sy event" and sy: "sy_service sy = st"
  shows "service_change st (service_step lay st event)"
proof -
  have f: "features_ok st" and c: "conns_ok st" using ok by (simp_all add: service_ok_def)
  have callback: "service_change st (set_feature address change st)"
    if "\<And>r. change r = r\<lparr>ft_peers := p r, ft_last := l r, ft_messages := m r\<rparr>" for address change p l m
    by (rule registration_change [OF ok set_feature_ok [OF f that]]) (simp_all add: set_feature_def)
  have on: "service_change st (snd (on_peer feature callback st))" "service_change st (snd (on_message feature callback st))"
    for feature callback
    using service_change_refl [OF ok]
      callback [where p = "\<lambda>r. ft_peers r @ [the callback]" and l = ft_last and m = ft_messages]
      callback [where p = ft_peers and l = ft_last and m = "\<lambda>r. ft_messages r @ [the callback]"]
    by (auto simp: on_peer_def on_message_def split: option.split)
  have reg: "service_change st (snd (register_feature owner ident role st))" for owner ident role
    by (rule registration_change [OF ok register_feature_ok [OF f]]) (auto simp: register_feature_def Let_def)
  show ?thesis
  proof (cases event)
    case (EvOwner n owner)
    then have "ow_state (ms_owners st n) = PInstalled \<longrightarrow> ow_state owner = PInstalled" using allowed sy by simp
    from registration_change [OF ok change_owner_ok [OF f this]] show ?thesis
      by (simp add: EvOwner change_owner_def)
  next
    case (EvDiscard owner)
    then have "ow_state (ms_owners st owner) \<noteq> PInstalled" using allowed sy by simp
    from registration_change [OF ok discard_owner_ok [OF f this]] show ?thesis
      by (simp add: EvDiscard discard_owner_def)
  next
    case (EvBegin state galaxy)
    then show ?thesis
      by (simp add: boundary_change begin_session_features f begin_session_connections begin_session_keeps begin_session_fields)
  next
    case EvEnd
    then show ?thesis
      by (simp add: boundary_change end_session_features f end_session_connections end_session_keeps end_session_peer)
  next
    case (EvConnect now random slot raw_address user_id is_local)
    then show ?thesis using allowed moves_change [OF moves_connect [OF c] f] by simp
  next
    case (EvReceive memory random server sender bytes now)
    then show ?thesis using allowed moves_change [OF moves_receive [OF c] f] by simp
  next
    case (EvSend locked memory address peer bytes)
    then show ?thesis
      using service_change_refl [OF ok] moves_change [OF moves_send [OF c f] f]
      by (auto simp: with_feature_def split: option.split)
  qed (use on reg service_change_refl [OF ok] moves_change [OF moves_disconnect [OF c] f] moves_change [OF moves_reset [OF c] f]
      moves_change [OF moves_observe [OF c] f] moves_change [OF moves_fail_feature [OF c] f]
      moves_change [OF moves_carrier_failed [OF c] f] in \<open>simp_all add: with_feature_def split: option.split\<close>)
qed

end
