(* ===== verification/Multiplayer_Pump.thy ===== *)
theory Multiplayer_Pump
  imports Multiplayer_Invariant
begin

unbundle bit_operations_syntax

text \<open>
  The pump under the service's invariant: what the frame in the carrier's hands says of the connection
  it was made for, while every other thread goes on.
\<close>

section \<open>Steps of the pump\<close>

text \<open>The IDs of live connections are old ones or fresh ones.\<close>

definition ids_fresh :: "MultiplayerService \<Rightarrow> MultiplayerService \<Rightarrow> bool" where
  "ids_fresh st st' \<longleftrightarrow> set (live_ids st') \<subseteq> set (live_ids st) \<union> {ms_next_peer st<..}"

lemma ids_fresh_refl [simp]: "ids_fresh st st"
  by (simp add: ids_fresh_def)

lemma ids_fresh_trans:
  "ids_fresh st st' \<Longrightarrow> ids_fresh st' st'' \<Longrightarrow> ms_next_peer st \<le> ms_next_peer st' \<Longrightarrow> ids_fresh st st''"
  by (fastforce simp: ids_fresh_def)

lemma evolves_ids: "evolves st st' \<Longrightarrow> ids_fresh st st'"
  by (fastforce simp: evolves_def ids_fresh_def live_ids_def conn_later_def)

definition session_ok :: "MultiplayerService \<Rightarrow> MultiplayerService \<Rightarrow> bool" where
  "session_ok st st' \<longleftrightarrow> same_session st st' \<and> conns_ok st' \<and> ids_fresh st st'"

lemma moves_session_ok: "moves st st' \<Longrightarrow> session_ok st st'"
  by (simp add: moves_def session_ok_def evolves_ids)

lemma session_ok_trans: "session_ok st st' \<Longrightarrow> session_ok st' st'' \<Longrightarrow> session_ok st st''"
  using same_session_trans ids_fresh_trans unfolding session_ok_def same_session_def by blast

lemma session_ok_refl: "conns_ok st \<Longrightarrow> session_ok st st"
  by (simp add: session_ok_def)

lemma conn_field_ok:
  assumes ok: "conns_ok st" and k: "k < length (ms_connections st)" and c: "conn_ok st c"
    and "cn_id c = cn_id (conn st k)" and "ms_connections st' = (ms_connections st)[k := c]"
    and s: "same_session st st'" and "ms_host st' = ms_host st" and "ms_local st' = ms_local st"
  shows "session_ok st st'"
proof -
  have "map cn_id (ms_connections st') = map cn_id (ms_connections st)"
    using live_ids_update [OF k assms(4)] assms(5) by simp
  moreover have "list_all (conn_ok st') (ms_connections st')"
    using ok c assms(5) same_session_conn_ok [OF s]
    by (auto simp: conns_ok_def list_all_iff dest: set_update_subset_insert [THEN subsetD])
  moreover have "ms_next_peer st \<le> ms_next_peer st'" using s by (simp add: same_session_def)
  ultimately show ?thesis using ok assms(7,8) s by (simp add: session_ok_def conns_ok_def live_ids_def ids_fresh_def)
qed

lemma pumping_session: "session_ok st (st'\<lparr>ms_pumping := b\<rparr>) \<longleftrightarrow> session_ok st st'"
proof -
  have "message_ok (st'\<lparr>ms_pumping := b\<rparr>) = message_ok st'"
    by (rule ext) (simp add: message_ok_def feature_at_def)
  then have "conn_ok (st'\<lparr>ms_pumping := b\<rparr>) = conn_ok st'" by (intro ext) (simp add: conn_ok_def)
  then show ?thesis by (simp add: session_ok_def same_session_def conns_ok_def live_ids_def ids_fresh_def)
qed

lemma drop_front_session:
  assumes ok: "conns_ok st" and k: "k < length (ms_connections st)" and front: "cn_outgoing (conn st k) \<noteq> []"
  shows "session_ok st (drop_front lay k st)"
proof (rule conn_field_ok [OF ok k, where c = "(conn st k)\<lparr>cn_outgoing := tl (cn_outgoing (conn st k))\<rparr>"])
  show "conn_ok st ((conn st k)\<lparr>cn_outgoing := tl (cn_outgoing (conn st k))\<rparr>)"
    using conn_ok_at [OF ok k] front
    by (cases "cn_outgoing (conn st k)") (auto simp: conn_ok_def tokens_ok_def empty_connection_def split: if_splits)
qed (simp_all add: drop_front_def Let_def same_session_def)

lemma drop_front_id: "k < length (ms_connections st) \<Longrightarrow> cn_id (conn (drop_front lay k st) k) = cn_id (conn st k)"
  by (simp add: drop_front_def Let_def set_conn_def conn_def)

lemma outgoing_live: "conns_ok st \<Longrightarrow> k < length (ms_connections st) \<Longrightarrow> cn_outgoing (conn st k) \<noteq> [] \<Longrightarrow> cn_id (conn st k) \<noteq> 0"
  using conn_ok_at [of st k] by (intro notI) (simp add: conn_ok_def empty_connection_def)

lemma pump_local_session:
  assumes ok: "conns_ok st" and k: "k < length (ms_connections st)" and front: "cn_outgoing (conn st k) \<noteq> []"
  shows "session_ok st (pump_local lay memory k st)"
proof -
  let ?st1 = "drop_front lay k st"
  note s1 = drop_front_session [OF ok k front, of lay]
  then have ok1: "conns_ok ?st1" by (simp add: session_ok_def)
  have k1: "k < length (ms_connections ?st1)" using k by simp
  have live: "cn_id (conn ?st1 k) \<noteq> 0" using outgoing_live [OF ok k front] drop_front_id [OF k] by simp
  have fail: "session_ok st (fail_connection lay k reason ?st1)" for reason
    by (rule session_ok_trans [OF s1 moves_session_ok [OF moves_fail_connection [OF ok1 k1 live]]])
  have push: "session_ok st (?st1\<lparr>ms_incoming := i, ms_incoming_bytes := b\<rparr>)" for i b
    by (rule session_ok_trans [OF s1 moves_session_ok [OF moves_fields [OF ok1]]])
      (use ok1 in \<open>simp_all add: same_session_def conns_ok_def\<close>)
  show ?thesis
    unfolding pump_local_eq Let_def using s1 fail push by (auto split: option.split)
qed

lemma moves_pump_timeouts:
  assumes "conns_ok st" and "set ks \<subseteq> {..<length (ms_connections st)}"
  shows "moves st (pump_timeouts now ks st)"
  using assms
proof (induction ks arbitrary: st)
  case (Cons k ks)
  let ?st1 = "if cn_id (conn st k) = 0 then st else timeout k now st"
  have m: "moves st ?st1" using Cons.prems by (auto intro: moves_refl moves_timeout)
  have "moves ?st1 (pump_timeouts now ks ?st1)" using Cons.IH [OF moves_ok [OF m]] Cons.prems(2) by auto
  from moves_trans [OF Cons.prems(1) m this] show ?case by simp
qed (simp add: moves_refl)

lemma live_ids_inject:
  assumes "distinct (live_ids st)" and "i < length (ms_connections st)" and "j < length (ms_connections st)"
    and "cn_id (conn st i) = cn_id (conn st j)" and "cn_id (conn st i) \<noteq> 0"
  shows "i = j"
proof (rule ccontr)
  assume "i \<noteq> j"
  have "distinct (filter P xs) \<Longrightarrow> i < length xs \<Longrightarrow> j < length xs \<Longrightarrow> i < j \<Longrightarrow> P (xs ! i) \<Longrightarrow> xs ! i \<noteq> xs ! j"
    for P and xs :: "nat list" and i j
    by (induction xs arbitrary: i j) (auto simp: nth_Cons' split: if_splits)
  from this [of "\<lambda>p. p \<noteq> 0" "map cn_id (ms_connections st)" i j] this [of "\<lambda>p. p \<noteq> 0" "map cn_id (ms_connections st)" j i]
  show False using assms \<open>i \<noteq> j\<close> by (cases i j rule: linorder_cases) (auto simp: live_ids_def conn_def)
qed

section \<open>The frame in flight\<close>

definition data_frame :: "Tokens \<Rightarrow> byte list \<Rightarrow> byte list \<Rightarrow> ParsedFrame" where
  "data_frame tokens ident bytes =
    \<lparr>pf_kind = Data, pf_tokens = tokens, pf_manifest = [], pf_feature = ident, pf_payload = bytes\<rparr>"

text \<open>A message \<open>m\<close> submitted for a connection is at the front of its queue, unless its feature has
  failed there.\<close>

definition still_front :: "MultiplayerService \<Rightarrow> OutgoingMessage \<Rightarrow> byte list \<Rightarrow> Connection \<Rightarrow> bool" where
  "still_front st m ident c \<longleftrightarrow> (\<exists>rest. cn_outgoing c = m # rest) \<or>
    (\<forall>m' \<in> set (cn_outgoing c). message_id st m' \<noteq> Some ident) \<and> failed_for c ident"

definition flight_ok :: "MultiplayerService \<Rightarrow> submission \<Rightarrow> bool" where
  "flight_ok st sm \<longleftrightarrow>
    (case sm_data sm of
       None \<Rightarrow> True
     | Some address \<Rightarrow>
         (\<exists>f m. feature_at st address = Some f \<and> owner_state st f = PInstalled \<and> om_feature m = address \<and>
            sm_frame sm = frame_bytes (data_frame (sm_tokens sm) (ft_id f) (om_bytes m)) \<and>
            well_formed_frame (data_frame (sm_tokens sm) (ft_id f) (om_bytes m)) \<and>
            sm_phase sm = Established \<and> sm_notice sm = [] \<and> \<not> sm_whole sm \<and>
            sm_peer sm \<noteq> 0 \<and> sm_peer sm \<le> ms_next_peer st \<and>
            (\<forall>c \<in> set (ms_connections st). cn_id c = sm_peer sm \<longrightarrow> still_front st m (ft_id f) c)))"

lemma queued_id_kept:
  assumes "service_ok st" and "keeps_features st st'" and "c \<in> set (ms_connections st)" and "m \<in> set (cn_outgoing c)"
  shows "message_id st' m = message_id st m"
proof -
  have f: "features_ok st" and c: "conn_ok st c"
    using assms by (auto simp: service_ok_def conns_ok_def list_all_iff)
  have "message_ok st m"
    using c assms(4) by (auto simp: conn_ok_def list_all_iff empty_connection_def split: if_splits)
  then obtain g where g: "feature_at st (om_feature m) = Some g" "ft_frozen g \<noteq> 0" by (auto simp: message_ok_def)
  then have "owner_state st g = PInstalled" using feature_at_ok [OF f g(1)] by (simp add: feature_ok_def)
  then show ?thesis using assms(2) g(1) by (auto simp: keeps_features_def message_id_def)
qed

lemma still_front_moves:
  assumes ok: "conns_ok st" and later: "conn_later st c c'" and front: "still_front st m ident c"
    and "message_id st m = Some ident"
  shows "still_front st m ident c'"
  using front unfolding still_front_def
proof
  assume "\<exists>rest. cn_outgoing c = m # rest"
  then show "(\<exists>rest. cn_outgoing c' = m # rest) \<or>
      (\<forall>m' \<in> set (cn_outgoing c'). message_id st m' \<noteq> Some ident) \<and> failed_for c' ident"
    using conn_later_front [OF later] assms(4) by auto
next
  assume "(\<forall>m' \<in> set (cn_outgoing c). message_id st m' \<noteq> Some ident) \<and> failed_for c ident"
  then show "(\<exists>rest. cn_outgoing c' = m # rest) \<or>
      (\<forall>m' \<in> set (cn_outgoing c'). message_id st m' \<noteq> Some ident) \<and> failed_for c' ident"
    using conn_later_absent [OF later, of m] assms(4) by auto
qed

lemma flight_change:
  assumes ok: "service_ok st" and change: "service_change st st'" and flight: "flight_ok st sm"
  shows "flight_ok st' sm"
proof (cases "sm_data sm")
  case (Some address)
  with flight obtain f m where fm: "feature_at st address = Some f" "owner_state st f = PInstalled" "om_feature m = address"
      "sm_frame sm = frame_bytes (data_frame (sm_tokens sm) (ft_id f) (om_bytes m))"
      "sm_phase sm = Established" "sm_notice sm = []" "\<not> sm_whole sm" "sm_peer sm \<noteq> 0" "sm_peer sm \<le> ms_next_peer st"
      "well_formed_frame (data_frame (sm_tokens sm) (ft_id f) (om_bytes m))"
    and front: "\<forall>c \<in> set (ms_connections st). cn_id c = sm_peer sm \<longrightarrow> still_front st m (ft_id f) c"
    by (auto simp: flight_ok_def)
  have keep: "keeps_features st st'" and next_peer: "ms_next_peer st \<le> ms_next_peer st'"
    using change by (simp_all add: service_change_def)
  obtain f' where f': "feature_at st' address = Some f'" "ft_id f' = ft_id f" "owner_state st' f' = PInstalled"
    using keep fm(1,2) by (auto simp: keeps_features_def)
  have id: "message_id st m = Some (ft_id f)" using fm(1,3) by (simp add: message_id_def)
  have "still_front st' m (ft_id f) c'" if c': "c' \<in> set (ms_connections st')" "cn_id c' = sm_peer sm" for c'
  proof -
    consider "moves st st'" | "ms_connections st' = ms_connections st" | "no_connections st'"
      using change by (auto simp: service_change_def)
    then show ?thesis
    proof cases
      case 1
      then have "ms_next_peer st < cn_id c' \<or> (\<exists>c \<in> set (ms_connections st). conn_later st c c')"
        using c' fm(8) unfolding moves_def evolves_def by metis
      then obtain c where c: "c \<in> set (ms_connections st)" "conn_later st c c'" using c'(2) fm(9) by auto
      moreover have "message_id st' = message_id st"
        using 1 same_session_feature_at by (auto simp: moves_def message_id_def fun_eq_iff)
      ultimately show ?thesis
        using still_front_moves [OF _ c(2) _ id] front c' ok
        by (auto simp: still_front_def service_ok_def conn_later_def)
    next
      case 2
      then show ?thesis
        using front c' queued_id_kept [OF ok keep, of c'] by (auto simp: still_front_def)
    next
      case 3
      then show ?thesis using c' fm(8) by (auto simp: no_connections_def list_all_iff empty_connection_def)
    qed
  qed
  then show ?thesis using Some fm f' next_peer by (auto simp: flight_ok_def)
qed (simp add: flight_ok_def)

section \<open>The frames the pump makes\<close>

lemma encoded_framed:
  "framed (encoded p (replicate kFrameBytes 0)) notice whole message =
    (if well_formed_frame p then Frame (frame_bytes p) notice whole message else Nothing)"
  by (auto simp: framed_def encoded_def Let_def well_formed_frame_def)

lemma prepare_data_frame:
  assumes "prepare_data st tokens m = Frame frame notice whole message"
  shows "\<exists>f. feature_at st (om_feature m) = Some f \<and> owner_state st f = PInstalled \<and> message = Some (om_feature m) \<and>
    notice = [] \<and> \<not> whole \<and> frame = frame_bytes (data_frame tokens (ft_id f) (om_bytes m)) \<and>
    well_formed_frame (data_frame tokens (ft_id f) (om_bytes m))"
proof -
  obtain f where f: "feature_at st (om_feature m) = Some f" "agreement_locked st f (om_peer m) = Compatible"
    using assms by (auto simp: prepare_data_def split: option.splits if_splits)
  then have "owner_state st f = PInstalled" by (auto simp: agreement_locked_def split: if_splits)
  then show ?thesis
    using assms f by (auto simp: prepare_data_def encode_data_eq encoded_framed data_frame_def split: if_splits)
qed

lemma prepare_message:
  assumes "prepare st c = Frame frame notice whole (Some address)"
  shows "\<exists>m rest f. cn_outgoing c = m # rest \<and> cn_phase c = Established \<and> om_feature m = address \<and>
    feature_at st address = Some f \<and> owner_state st f = PInstalled \<and> notice = [] \<and> \<not> whole \<and>
    frame = frame_bytes (data_frame \<lparr>tok_client = cn_client_token c, tok_host = cn_host_token c\<rparr> (ft_id f) (om_bytes m)) \<and>
    well_formed_frame (data_frame \<lparr>tok_client = cn_client_token c, tok_host = cn_host_token c\<rparr> (ft_id f) (om_bytes m))"
proof -
  have none: "framed written n w None \<noteq> Frame frame notice whole (Some address)" for written n w
    by (auto simp: framed_def split: option.splits)
  obtain m rest where m: "cn_outgoing c = m # rest" "cn_phase c = Established"
      "prepare_data st \<lparr>tok_client = cn_client_token c, tok_host = cn_host_token c\<rparr> m = Frame frame notice whole (Some address)"
    using assms by (auto simp: prepare_def Let_def none split: if_splits option.splits list.splits)
  then show ?thesis using prepare_data_frame [OF m(3)] by auto
qed

lemma submission_flight:
  assumes ok: "service_ok st" and k: "connection_index st peer = Some k" and "peer \<noteq> 0"
    and frame: "prepare st (conn st k) = Frame frame notice whole message"
  shows "flight_ok st (submission_for st (conn st k) frame notice whole message peers n)"
proof (cases message)
  case (Some address)
  let ?c = "conn st k"
  have k': "k < length (ms_connections st)" "cn_id ?c = peer" using connection_index_less [OF k] by simp_all
  have c: "conn_ok st ?c" and unique: "distinct (live_ids st)"
    using ok conn_ok_at k' by (auto simp: service_ok_def conns_ok_def list_all_length conn_def)
  obtain m rest f where m: "cn_outgoing ?c = m # rest" "cn_phase ?c = Established" "om_feature m = address"
      "feature_at st address = Some f" "owner_state st f = PInstalled" "notice = []" "\<not> whole"
      "frame = frame_bytes (data_frame \<lparr>tok_client = cn_client_token ?c, tok_host = cn_host_token ?c\<rparr> (ft_id f) (om_bytes m))"
      "well_formed_frame (data_frame \<lparr>tok_client = cn_client_token ?c, tok_host = cn_host_token ?c\<rparr> (ft_id f) (om_bytes m))"
    using prepare_message frame Some by metis
  have "c' = ?c" if c': "c' \<in> set (ms_connections st)" "cn_id c' = peer" for c'
  proof -
    obtain k2 where k2: "k2 < length (ms_connections st)" "c' = conn st k2" using c'(1) unfolding in_set_conv_nth conn_def by blast
    have "k2 = k" using unique k2 k' c'(2) \<open>peer \<noteq> 0\<close> live_ids_inject by (metis)
    then show ?thesis using k2 by simp
  qed
  then show ?thesis
    using m c k' \<open>peer \<noteq> 0\<close> Some by (auto simp: flight_ok_def submission_for_def still_front_def conn_ok_def)
qed (simp add: flight_ok_def submission_for_def)

section \<open>The pump as a whole\<close>

definition pump_ok :: "MultiplayerService \<Rightarrow> submission option \<times> MultiplayerService \<Rightarrow> bool" where
  "pump_ok st result \<longleftrightarrow> session_ok st (snd result) \<and>
    (case fst result of
       Some sm \<Rightarrow> flight_ok (snd result) sm \<and> sm_peer sm \<noteq> 0 \<and> 0 \<notin> set (sm_peers sm)
     | None \<Rightarrow> True)"

lemma session_service_ok: "service_ok st \<Longrightarrow> session_ok st st' \<Longrightarrow> service_ok st'"
  by (auto simp: service_ok_def session_ok_def intro: same_session_features_ok)

lemma pump_ok_after: "session_ok st st1 \<Longrightarrow> pump_ok st1 result \<Longrightarrow> pump_ok st result"
  by (auto simp: pump_ok_def intro: session_ok_trans)

lemma pump_run_ok:
  assumes "service_ok st" and "0 \<notin> set peers"
  shows "pump_ok st (pump_run lay memory carrier peers submitted st)"
proof (rule pump_run_rule [where kept = "\<lambda>s. service_ok s \<and> session_ok st s" and S = "- {0}"])
  show "service_ok st \<and> session_ok st st" using assms by (simp add: session_ok_refl service_ok_def)
  show "service_ok (pump_local lay copied k s) \<and> session_ok st (pump_local lay copied k s)"
    if "service_ok s \<and> session_ok st s" "k < length (ms_connections s)" "cn_outgoing (conn s k) \<noteq> []" for s k copied
    using that pump_local_session [of s k lay copied] session_service_ok session_ok_trans unfolding service_ok_def by blast
  show "service_ok (drop_front lay k s) \<and> session_ok st (drop_front lay k s)"
    if "service_ok s \<and> session_ok st s" "k < length (ms_connections s)" "cn_outgoing (conn s k) \<noteq> []" for s k
    using that drop_front_session [of s k lay] session_service_ok session_ok_trans unfolding service_ok_def by blast
next
  show "pump_ok st (Some (submission_for s (conn s k) frame notice whole message peers n), s)"
    if "service_ok s \<and> session_ok st s" "peer \<in> - {0}" "connection_index s peer = Some k"
      "prepare s (conn s k) = Frame frame notice whole message" "set peers \<subseteq> - {0}" for s peer k frame notice whole message peers n
    using that submission_flight connection_index_less [of s peer k]
    by (auto simp: pump_ok_def submission_for_def)
qed (use assms in \<open>auto simp: pump_ok_def\<close>)

lemma pump_leave_ok: "pump_ok st result \<Longrightarrow> pump_ok st (pump_leave result)"
  by (cases result; cases "fst result") (auto simp: pump_ok_def pump_leave_def pumping_session)

lemma pump_leave_flag:
  "ms_pumping (snd result) \<Longrightarrow> ms_pumping (snd (pump_leave result)) \<longleftrightarrow> fst (pump_leave result) \<noteq> None"
  by (cases result; cases "fst result") (auto simp: pump_leave_def)

lemma live_peers: "0 \<notin> set (filter (\<lambda>peer. peer \<noteq> 0) xs)" for xs :: "nat list"
  by auto

lemma pump_start_ok:
  assumes ok: "service_ok st" and idle: "\<not> ms_pumping st"
  shows "pump_ok st (pump_start lay memory carrier now st)"
proof -
  let ?st1 = "expire_hellos lay (Some now) st"
  let ?st2 = "pump_timeouts now [0..<length (ms_connections ?st1)] (?st1\<lparr>ms_pumping := True\<rparr>)"
  have s1: "session_ok st (?st1\<lparr>ms_pumping := True\<rparr>)"
    using ok moves_session_ok [OF moves_expire_hellos] by (simp add: service_ok_def pumping_session)
  then have "conns_ok (?st1\<lparr>ms_pumping := True\<rparr>)" by (simp add: session_ok_def)
  then have "session_ok (?st1\<lparr>ms_pumping := True\<rparr>) ?st2" by (intro moves_session_ok moves_pump_timeouts) auto
  from session_ok_trans [OF s1 this] have s2: "session_ok st ?st2" .
  moreover have "\<not> ms_pumping ?st1" using idle by (simp add: expire_hellos_def)
  ultimately show ?thesis
    unfolding pump_start_def Let_def
    using pump_ok_after [OF s2 pump_leave_ok [OF pump_run_ok [OF session_service_ok [OF ok s2] live_peers]]] by simp
qed

lemma pump_start_busy: "ms_pumping st \<Longrightarrow> pump_start lay memory carrier now st = (None, expire_hellos lay (Some now) st)"
  by (simp add: pump_start_def Let_def expire_hellos_def)

lemma accept_submission_session:
  assumes ok: "conns_ok st" and k: "k < length (ms_connections st)" and live: "cn_id (conn st k) \<noteq> 0"
  shows "session_ok st (accept_submission lay sm k st)"
proof -
  let ?c = "conn st k"
  have c: "conn_ok st ?c" by (rule conn_ok_at [OF ok k])
  have set: "session_ok st (set_conn k c' st)" if "conn_ok st c'" "cn_id c' = cn_id ?c" for c'
    by (rule conn_field_ok [OF ok k that]) (simp_all add: same_session_def)
  have phase: "session_ok st (set_conn k (?c\<lparr>cn_phase := p\<rparr>) st)"
    if "cn_phase ?c = p' \<and> (p', p) \<in> {(PhaseHello, AwaitWelcome), (PhaseWelcome, AwaitReady), (PhaseReady, Established)}" for p p'
    using c live that by (intro set) (auto simp: conn_ok_def tokens_ok_def)
  have whole: "session_ok st (set_conn k (?c\<lparr>cn_whole_notice := False\<rparr>) st)"
    using c live by (intro set) (auto simp: conn_ok_def tokens_ok_def)
  have notice: "session_ok st (set_conn k (?c\<lparr>cn_paths := map (\<lambda>path. if fa_id path = notice
      then path\<lparr>fa_notice_pending := False\<rparr> else path) (cn_paths ?c)\<rparr>) st)" for notice
  proof (rule set)
    have "map fa_id (map (\<lambda>path. if fa_id path = notice then path\<lparr>fa_notice_pending := False\<rparr> else path) (cn_paths ?c)) =
        map fa_id (cn_paths ?c)" by simp
    then show "conn_ok st (?c\<lparr>cn_paths := map (\<lambda>path. if fa_id path = notice
        then path\<lparr>fa_notice_pending := False\<rparr> else path) (cn_paths ?c)\<rparr>)"
      using c live unfolding conn_ok_def tokens_ok_def by simp
  qed simp
  show ?thesis
    using phase [of PhaseHello AwaitWelcome] phase [of PhaseWelcome AwaitReady] phase [of PhaseReady Established]
      whole notice drop_front_session [OF ok k] session_ok_refl [OF ok]
    by (auto simp: accept_submission_def Let_def split: option.split list.split)
qed

lemma log_accepted_session: "conns_ok st \<Longrightarrow> session_ok st (log_accepted sm c st)"
  by (simp add: log_accepted_def Let_def session_ok_refl moves_session_ok moves_log)

lemma pump_resume_ok:
  assumes ok: "service_ok st" and sm: "sm_peer sm \<noteq> 0" "0 \<notin> set (sm_peers sm)"
  shows "pump_ok st (pump_resume lay memory carrier result sm st)"
proof -
  have conns: "conns_ok st" using ok by (simp add: service_ok_def)
  have run: "pump_ok st (pump_run lay memory carrier (sm_peers sm) (sm_submitted sm) s)"
    "pump_ok st (pump_run lay memory carrier (sm_peer sm # sm_peers sm) (sm_submitted sm) s)" if "session_ok st s" for s
    using pump_ok_after [OF that pump_run_ok [OF session_service_ok [OF ok that]]] sm by simp_all
  show ?thesis
  proof (cases "connection_index st (sm_peer sm)")
    case None
    then show ?thesis using run session_ok_refl [OF conns] by (simp add: pump_resume_def pump_leave_ok)
  next
    case (Some k)
    then have k: "k < length (ms_connections st)" "cn_id (conn st k) = sm_peer sm" using connection_index_less by auto
    let ?st1 = "if result = CarrierAccepted then log_accepted sm (conn st k) st else st"
    have s1: "session_ok st ?st1" using log_accepted_session [OF conns] session_ok_refl [OF conns] by simp
    then have ok1: "conns_ok ?st1" by (simp add: session_ok_def)
    have c1: "k < length (ms_connections ?st1)" "cn_id (conn ?st1 k) \<noteq> 0"
      using k sm(1) by (simp_all add: log_accepted_def Let_def conn_def)
    have a: "session_ok st (accept_submission lay sm k ?st1)"
      by (rule session_ok_trans [OF s1 accept_submission_session [OF ok1 c1]])
    note m = moves_session_ok [OF moves_fail_connection [OF ok1 c1, of lay "''Multiplayer transport rejected a packet''"]]
    let ?st2 = "fail_connection lay k ''Multiplayer transport rejected a packet'' ?st1"
    have k2: "k < length (ms_connections ?st2)" and ok2: "conns_ok ?st2" using c1 m by (simp_all add: session_ok_def)
    have "session_ok ?st2 (set_conn k ((conn ?st2 k)\<lparr>cn_whole_notice := False\<rparr>) ?st2)"
      using conn_ok_at [OF ok2 k2]
      by (intro conn_field_ok [OF ok2 k2, where c = "(conn ?st2 k)\<lparr>cn_whole_notice := False\<rparr>"])
        (auto simp: conn_ok_def tokens_ok_def same_session_def empty_connection_def split: if_splits)
    then have f: "session_ok st (set_conn k ((conn ?st2 k)\<lparr>cn_whole_notice := False\<rparr>) ?st2)"
      using session_ok_trans [OF s1 session_ok_trans [OF m]] by blast
    show ?thesis
      unfolding pump_resume_def Some option.case Let_def
      using s1 a f by (intro pump_leave_ok) (cases result; auto intro!: run session_ok_refl [OF conns])
  qed
qed

end
