(* ===== verification/Multiplayer_Runs.thy ===== *)
theory Multiplayer_Runs
  imports Multiplayer_Pump
begin

unbundle bit_operations_syntax

text \<open>
  The multiplayer service under every sequence of events: the flag of the pump, the number of frames of
  one pump, and the invariant of the system.
\<close>

section \<open>The flag of the pump\<close>

lemma pumping_expire [simp]:
  "ms_pumping (discard_messages lay k st) = ms_pumping st"
  "ms_pumping (expire lay k st) = ms_pumping st"
  "ms_pumping (expire_hellos lay now st) = ms_pumping st"
  by (simp_all add: discard_messages_def expire_def expire_hellos_def Let_def)

lemma pumping_expire_list [simp]: "ms_pumping (expire_list lay ks st) = ms_pumping st"
  by (induction ks arbitrary: st) simp_all

lemma pumping_connections [simp]:
  "ms_pumping (expire_all lay st) = ms_pumping st"
  "ms_pumping (expire_others lay k st) = ms_pumping st"
  "ms_pumping (fail_connection lay k reason st) = ms_pumping st"
  "ms_pumping (timeout k now st) = ms_pumping st"
  "ms_pumping (reject k cause reason st) = ms_pumping st"
  by (simp_all add: expire_all_def expire_others_def fail_connection_def timeout_def reject_def Let_def)

lemma pumping_hello [simp]: "ms_pumping (accept_hello lay random k client_token manifest st) = ms_pumping st"
  by (simp add: accept_hello_def Let_def split: option.split)

lemma pumping_boundaries [simp]:
  "ms_pumping (begin_session lay state galaxy st) = ms_pumping st"
  "ms_pumping (end_session lay st) = ms_pumping st"
  "ms_pumping (reset_connections lay st) = ms_pumping st"
  by (simp_all add: begin_session_def end_session_def reset_connections_def Let_def)

lemma pumping_connect [simp]: "ms_pumping (connect lay now random slot raw_address user_id is_local st) = ms_pumping st"
proof -
  have take_hello: "ms_pumping (take_hello lay k raw random s) = ms_pumping s" for k raw s
    by (simp add: take_hello_def Let_def split: option.split)
  have started: "ms_pumping (log_started k s) = ms_pumping s" for k s
    by (simp add: log_started_def Let_def)
  have endpoints: "ms_pumping (establish_endpoints lay k random user_id s) = ms_pumping s" for k s
    by (simp add: establish_endpoints_def join_host_def accept_client_def next_peer_def Let_def)
  have claimed: "ms_pumping (snd (claim_slot slot s)) = ms_pumping s" for s
    by (simp add: claim_slot_def split: option.split)
  have rest: "ms_pumping (refresh_connection k user_id s) = ms_pumping s"
    "ms_pumping (open_connection k now slot raw_address user_id is_local s) = ms_pumping s"
    "ms_pumping (forget_local c s) = ms_pumping s" for k s c
    by (simp_all add: refresh_connection_def open_connection_def next_peer_def forget_local_def Let_def)
  show ?thesis
    using claimed [of "expire_hellos lay (Some now) st"]
    by (auto simp: connect_def Let_def take_hello started endpoints rest split: prod.split)
qed

lemma pumping_other [simp]:
  "ms_pumping (disconnect lay slot st) = ms_pumping st"
  "ms_pumping (observe_local info st) = ms_pumping st"
  "ms_pumping (set_feature address change st) = ms_pumping st"
  "ms_pumping (snd (register_feature owner ident role st)) = ms_pumping st"
  "ms_pumping (snd (on_peer feature callback st)) = ms_pumping st"
  "ms_pumping (snd (on_message feature callback st)) = ms_pumping st"
  "ms_pumping (discard_owner owner st) = ms_pumping st"
  by (simp_all add: disconnect_def observe_local_def next_peer_def set_feature_def register_feature_def on_peer_def
      on_message_def discard_owner_def Let_def split: option.split)

lemma pumping_send [simp]:
  "ms_pumping (snd (send lay locked memory feature peer bytes st)) = ms_pumping st"
  "ms_pumping (fail_feature lay feature peer reason st) = ms_pumping st"
  by (simp_all add: send_def fail_feature_def Let_def split: Agreement.split option.split)

lemma pumping_carrier_failed [simp]: "ms_pumping (carrier_failed lay reason st) = ms_pumping st"
proof -
  have "ms_pumping (fold (\<lambda>k s. if cn_id (conn s k) \<noteq> 0 \<and> \<not> cn_local (conn s k) then fail_connection lay k reason s else s) ks s) =
      ms_pumping s" for ks s
    by (induction ks arbitrary: s) simp_all
  then show ?thesis by (simp add: carrier_failed_def)
qed

lemma pumping_report_failed [simp]: "ms_pumping (report_failed_path k ident reason features st) = ms_pumping st"
  by (induction k ident reason features st rule: report_failed_path.induct) (simp_all add: Let_def)

lemma pumping_receive [simp]: "ms_pumping (receive lay memory random server sender bytes now st) = ms_pumping st"
proof -
  have unknown: "ms_pumping (receive_unknown lay server sender bytes now memory frame s) = ms_pumping s" for server frame s
    by (simp add: receive_unknown_def log_unknown_sender_def Let_def split: option.split)
  have failed: "ms_pumping (receive_failed lay k ident s) = ms_pumping s" for k ident s
    by (simp add: receive_failed_def Let_def split: option.split)
  have data: "ms_pumping (receive_data lay server memory k frame s) = ms_pumping s" for server k frame s
    by (simp add: receive_data_def Let_def split: option.split)
  have frame: "ms_pumping (receive_frame lay server memory random k frame s) = ms_pumping s" for server k frame s
    by (simp add: receive_frame_def Let_def failed data)
  show ?thesis by (simp add: receive_def Let_def unknown frame split: option.split)
qed

lemma pumping_service_step: "ms_pumping (service_step lay st event) = ms_pumping st"
  by (cases event) (simp_all add: with_feature_def change_owner_def split: option.split)

lemma pumping_collect: "ms_pumping (snd (collect_notices debug st)) = ms_pumping st"
proof -
  have report: "ms_pumping (fold (\<lambda>(peer, state). report owner level (line peer state)) changes s) = ms_pumping s"
    for owner level line changes s
    by (induction changes arbitrary: s) (simp_all add: case_prod_beta)
  have "ms_pumping (snd (fold (collect_feature debug) features result)) = ms_pumping (snd result)" for features result
    by (induction features arbitrary: result)
      (auto simp: collect_feature_def Let_def report split: prod.split)
  then show ?thesis by (simp add: collect_notices_def)
qed

lemma pumping_deliver_step: "ms_pumping (snd (snd (deliver_step lay delivery st))) = ms_pumping st"
  by (induction lay delivery st rule: deliver_step.induct) (simp_all split: list.split option.split)

lemma pump_run_flag: "ms_pumping st \<Longrightarrow> ms_pumping (snd (pump_run lay memory carrier peers n st))"
  by (rule pump_run_rule [where kept = ms_pumping and S = UNIV])
    (simp_all add: pump_local_eq drop_front_def Let_def split: option.split)

lemma pump_timeouts_flag: "ms_pumping (pump_timeouts now ks st) = ms_pumping st"
  by (induction ks arbitrary: st) simp_all

lemma pump_start_flag:
  assumes "\<not> ms_pumping st"
  shows "ms_pumping (snd (pump_start lay memory carrier now st)) \<longleftrightarrow> fst (pump_start lay memory carrier now st) \<noteq> None"
proof -
  let ?st1 = "expire_hellos lay (Some now) st"
  let ?st2 = "pump_timeouts now [0..<length (ms_connections ?st1)] (?st1\<lparr>ms_pumping := True\<rparr>)"
  have "pump_start lay memory carrier now st =
      pump_leave (pump_run lay memory carrier (filter (\<lambda>peer. peer \<noteq> 0) (map cn_id (ms_connections ?st2))) 0 ?st2)"
    using assms by (simp add: pump_start_def Let_def)
  then show ?thesis by (simp only:) (rule pump_leave_flag, rule pump_run_flag, simp add: pump_timeouts_flag)
qed

lemma pump_resume_flag:
  assumes "ms_pumping st"
  shows "ms_pumping (snd (pump_resume lay memory carrier result sm st)) \<longleftrightarrow> fst (pump_resume lay memory carrier result sm st) \<noteq> None"
proof -
  have "ms_pumping (accept_submission lay sm k s) = ms_pumping s" for k s
    by (simp add: accept_submission_def drop_front_def Let_def split: option.split list.split)
  moreover have "ms_pumping (log_accepted sm c s) = ms_pumping s" for c s by (simp add: log_accepted_def Let_def)
  ultimately show ?thesis
    unfolding pump_resume_def Let_def using assms
    by (intro pump_leave_flag) (auto intro!: pump_run_flag split: option.split CarrierResult.split)
qed

section \<open>The number of frames\<close>

lemma pump_run_count:
  "fst (pump_run lay memory carrier peers n st) = Some sm \<Longrightarrow> n < sm_submitted sm \<and> sm_submitted sm \<le> 16"
proof (induction lay memory carrier peers n st rule: pump_run.induct)
  case (1 lay memory carrier n st)
  then show ?case by (simp add: pump_run.simps)
next
  case (2 lay memory carrier peer peers n st)
  then show ?case
    by (subst (asm) (2) pump_run.simps) (auto simp: submission_for_def split: if_splits option.splits prepared.splits)
qed

lemma pump_leave_fst: "fst (pump_leave result) = fst result"
  by (cases result; cases "fst result") (auto simp: pump_leave_def)

lemma pump_start_count: "fst (pump_start lay memory carrier now st) = Some sm \<Longrightarrow> 0 < sm_submitted sm \<and> sm_submitted sm \<le> 16"
  unfolding pump_start_def Let_def by (auto simp: pump_leave_fst split: if_splits dest: pump_run_count)

lemma pump_resume_count:
  "fst (pump_resume lay memory carrier result sm st) = Some sm' \<Longrightarrow> sm_submitted sm < sm_submitted sm' \<and> sm_submitted sm' \<le> 16"
  unfolding pump_resume_def Let_def pump_leave_fst
  by (auto split: if_splits option.splits CarrierResult.splits dest: pump_run_count)

lemma pump_resume_positive:
  "fst (pump_resume lay memory carrier result sm st) = Some sm' \<Longrightarrow> 0 < sm_submitted sm' \<and> sm_submitted sm' \<le> 16"
  using pump_resume_count by fastforce

section \<open>The system\<close>

text \<open>What an event may do to the service while a frame is with the carrier.\<close>

definition kept :: "MultiplayerService \<Rightarrow> MultiplayerService \<Rightarrow> bool" where
  "kept st st' \<longleftrightarrow> service_ok st' \<and> ids_fresh st st' \<and> ms_next_peer st \<le> ms_next_peer st' \<and>
    (\<forall>sm. flight_ok st sm \<longrightarrow> flight_ok st' sm)"

lemma kept_trans: "kept st st' \<Longrightarrow> kept st' st'' \<Longrightarrow> kept st st''"
  by (auto simp: kept_def intro: ids_fresh_trans)

lemma kept_refl: "service_ok st \<Longrightarrow> kept st st"
  by (simp add: kept_def)

lemma change_kept:
  assumes "service_ok st" and change: "service_change st st'"
  shows "kept st st'"
proof -
  have "ids_fresh st st'"
  proof -
    consider "moves st st'" | "ms_connections st' = ms_connections st" | "no_connections st'"
      using change by (auto simp: service_change_def)
    then show ?thesis
    proof cases
      case 1
      then show ?thesis by (simp add: moves_def evolves_ids)
    qed (auto simp: ids_fresh_def live_ids_def no_connections_def list_all_iff empty_connection_def)
  qed
  then show ?thesis using assms flight_change by (auto simp: kept_def service_change_def)
qed

lemma moves_kept: "service_ok st \<Longrightarrow> moves st st' \<Longrightarrow> kept st st'"
  by (simp add: change_kept moves_change service_ok_def)

lemma report_fold_kept:
  "service_ok st \<Longrightarrow> kept st (fold (\<lambda>(peer, state). report owner level (line peer state)) changes st)"
proof (induction changes arbitrary: st)
  case (Cons change changes)
  obtain peer state where c: "change = (peer, state)" by fastforce
  have "kept st (report owner level (line peer state) st)"
    using Cons.prems by (simp add: moves_kept moves_report service_ok_def)
  moreover from this have "service_ok (report owner level (line peer state) st)" by (simp add: kept_def)
  ultimately show ?case using Cons.IH kept_trans by (fastforce simp: c)
qed (simp add: kept_refl)

lemma collect_feature_kept:
  assumes "service_ok (snd result)"
  shows "kept (snd result) (snd (collect_feature debug feature result))"
proof -
  have last: "kept st (set_feature address (\<lambda>r. r\<lparr>ft_last := current\<rparr>) st)" if "service_ok st" for address current st
  proof -
    have f: "features_ok st" using that by (simp add: service_ok_def)
    have "r\<lparr>ft_last := current\<rparr> = r\<lparr>ft_peers := ft_peers r, ft_last := current, ft_messages := ft_messages r\<rparr>" for r :: FC_Feature
      by simp
    from set_feature_ok [OF f this] have "service_change st (set_feature address (\<lambda>r. r\<lparr>ft_last := current\<rparr>) st)"
      by (intro registration_change [OF that]) (simp_all add: set_feature_def)
    then show ?thesis using that by (rule change_kept [rotated])
  qed
  obtain notices st where result: "result = (notices, st)" by fastforce
  have "kept st st1 \<Longrightarrow> kept st (set_feature address (\<lambda>r. r\<lparr>ft_last := current\<rparr>) st1)" for st1 address current
    using last [of st1] kept_trans [of st st1] kept_def by blast
  then show ?thesis
    using assms kept_refl [of st] report_fold_kept [of st "Some (ft_owner feature)" FC_LOG_DEBUG "change_text st feature"]
    by (simp add: result collect_feature_def Let_def)
qed

lemma collect_notices_kept:
  assumes "service_ok st"
  shows "kept st (snd (collect_notices debug st))"
proof -
  have "service_ok (snd result) \<Longrightarrow> kept (snd result) (snd (fold (collect_feature debug) features result))" for features result
  proof (induction features arbitrary: result)
    case (Cons feature features)
    note k = collect_feature_kept [OF Cons.prems, of debug feature]
    then have "service_ok (snd (collect_feature debug feature result))" by (simp add: kept_def)
    from kept_trans [OF k Cons.IH [OF this]] show ?case by simp
  qed (simp add: kept_refl)
  from this [of "([], st)"] assms show ?thesis by (simp add: collect_notices_def)
qed

lemma deliver_step_kept:
  assumes "service_ok st"
  shows "kept st (snd (snd (deliver_step lay delivery st)))"
proof -
  have c: "conns_ok st" using assms by (simp add: service_ok_def)
  have "kept st (st\<lparr>ms_incoming := rest\<rparr>)" "kept st (st\<lparr>ms_incoming_bytes := n\<rparr>)" for rest n
    using c by (auto intro!: moves_kept [OF assms] moves_fields simp: same_session_def conns_ok_def)
  then show ?thesis
    using assms kept_refl
    by (induction lay delivery st rule: deliver_step.induct) (simp_all split: list.split option.split)
qed

definition mp_ok :: "mp_system \<Rightarrow> bool" where
  "mp_ok sy \<longleftrightarrow> service_ok (sy_service sy) \<and> (ms_pumping (sy_service sy) \<longleftrightarrow> sy_pump sy \<noteq> None) \<and>
    (case sy_pump sy of
       Some sm \<Rightarrow> flight_ok (sy_service sy) sm \<and> sm_peer sm \<noteq> 0 \<and> 0 \<notin> set (sm_peers sm) \<and>
         0 < sm_submitted sm \<and> sm_submitted sm \<le> 16
     | None \<Rightarrow> True)"

lemma session_keeps: "session_ok st st' \<Longrightarrow> ms_next_peer st \<le> ms_next_peer st' \<and> ids_fresh st st'"
  by (simp add: session_ok_def same_session_def)

text \<open>What an event keeps of the system, and the fresh IDs it gives out.\<close>

definition mp_keeps :: "mp_system \<Rightarrow> mp_system \<Rightarrow> bool" where
  "mp_keeps sy sy' \<longleftrightarrow> mp_ok sy' \<and> ms_next_peer (sy_service sy) \<le> ms_next_peer (sy_service sy') \<and>
    ids_fresh (sy_service sy) (sy_service sy')"

lemma pump_result_keeps:
  assumes "pump_ok (sy_service sy) result" and "ms_pumping (snd result) \<longleftrightarrow> fst result \<noteq> None"
    and "\<And>sm. fst result = Some sm \<Longrightarrow> 0 < sm_submitted sm \<and> sm_submitted sm \<le> 16" and "service_ok (sy_service sy)"
  shows "mp_keeps sy (sy\<lparr>sy_service := snd result, sy_pump := fst result\<rparr>)"
  using assms session_service_ok session_keeps
  by (auto simp: mp_keeps_def mp_ok_def pump_ok_def split: option.splits)

lemma kept_keeps:
  assumes "mp_ok sy" and "kept (sy_service sy) (sy_service sy')" and "sy_pump sy' = sy_pump sy"
    and "ms_pumping (sy_service sy') = ms_pumping (sy_service sy)"
  shows "mp_keeps sy sy'"
  using assms by (auto simp: mp_keeps_def mp_ok_def kept_def split: option.splits)

lemma mp_step_keeps:
  assumes ok: "mp_ok sy" and allowed: "mp_allowed sy event"
  shows "mp_keeps sy (mp_step lay sy event)"
proof -
  let ?st = "sy_service sy"
  have s: "service_ok ?st" using ok by (simp add: mp_ok_def)
  show ?thesis
  proof (cases event)
    case (EvPump memory carrier now)
    show ?thesis
    proof (cases "ms_pumping ?st")
      case True
      have "kept ?st (expire_hellos lay (Some now) ?st)"
        using s by (simp add: moves_kept moves_expire_hellos service_ok_def)
      then show ?thesis
        using kept_keeps [OF ok] True by (simp add: EvPump pump_start_busy)
    next
      case False
      have "mp_step lay sy event = sy\<lparr>sy_service := snd (pump_start lay memory carrier now ?st),
          sy_pump := fst (pump_start lay memory carrier now ?st)\<rparr>"
        using False by (simp add: EvPump case_prod_beta)
      then show ?thesis
        using pump_result_keeps [OF pump_start_ok [OF s False] pump_start_flag [OF False] pump_start_count s] by simp
    qed
  next
    case (EvSubmitted memory carrier result)
    show ?thesis
    proof (cases "sy_pump sy")
      case None
      then show ?thesis using kept_keeps [OF ok] kept_refl [OF s] by (simp add: EvSubmitted)
    next
      case (Some sm)
      have p: "ms_pumping ?st" "sm_peer sm \<noteq> 0" "0 \<notin> set (sm_peers sm)" using ok Some by (simp_all add: mp_ok_def)
      have "mp_step lay sy event = sy\<lparr>sy_service := snd (pump_resume lay memory carrier result sm ?st),
          sy_pump := fst (pump_resume lay memory carrier result sm ?st)\<rparr>"
        using Some by (simp add: EvSubmitted case_prod_beta)
      then show ?thesis
        using pump_result_keeps [OF pump_resume_ok [OF s p(2,3)] pump_resume_flag [OF p(1)] pump_resume_positive s]
        by simp
    qed
  next
    case (EvDeliver debug)
    then show ?thesis
      using kept_keeps [OF ok] kept_refl [OF s] collect_notices_kept [OF s, of debug]
        pumping_collect [of debug ?st]
      by (simp add: deliver_start_def case_prod_beta split: option.split)
  next
    case EvDeliverStep
    then show ?thesis
      using kept_keeps [OF ok] kept_refl [OF s] deliver_step_kept [OF s]
      by (simp add: case_prod_beta pumping_deliver_step split: option.split)
  qed (use kept_keeps [OF ok] change_kept [OF s service_step_change [OF s allowed refl], of lay]
      pumping_service_step [of lay ?st event] in simp_all)
qed

interpretation mp_runs: invariant_system
  "\<lambda>sy. \<exists>owners. sy = initial_system owners" "mp_step lay" mp_allowed mp_ok for lay
proof
  fix sy assume "\<exists>owners. sy = initial_system owners"
  then show "mp_ok sy"
    by (auto simp: mp_ok_def initial_system_def initial_service_def service_ok_def features_ok_def conns_ok_def live_ids_def)
next
  fix sy event assume "mp_ok sy" "mp_allowed sy event"
  then show "mp_ok (mp_step lay sy event)" using mp_step_keeps by (simp add: mp_keeps_def)
qed

definition mp_reachable :: "layout \<Rightarrow> mp_system \<Rightarrow> bool" where
  "mp_reachable lay sy \<longleftrightarrow>
    (\<exists>owners es. allowed_events (mp_step lay) mp_allowed (initial_system owners) es \<and>
       sy = run_events (mp_step lay) (initial_system owners) es)"

lemma reachable_ok: "mp_reachable lay sy \<Longrightarrow> mp_ok sy"
  using mp_runs.inv_reachable unfolding mp_reachable_def by blast

lemma reachable_budgets: "mp_reachable lay sy \<Longrightarrow> system_budgets lay sy"
  using budget_system.inv_reachable unfolding mp_reachable_def by blast

section \<open>A pump ends\<close>

definition submissions_left :: "mp_system \<Rightarrow> nat" where
  "submissions_left sy = (case sy_pump sy of None \<Rightarrow> 0 | Some sm \<Rightarrow> 17 - sm_submitted sm)"

fun is_submitted :: "mp_event \<Rightarrow> bool" where
  "is_submitted (EvSubmitted memory carrier result) = True"
| "is_submitted _ = False"

fun is_pump :: "mp_event \<Rightarrow> bool" where
  "is_pump (EvPump memory carrier now) = True"
| "is_pump _ = False"

lemma pump_unchanged: "\<not> is_submitted event \<Longrightarrow> \<not> is_pump event \<Longrightarrow> sy_pump (mp_step lay sy event) = sy_pump sy"
  by (cases event) (simp_all add: case_prod_beta split: option.split)

lemma submissions_left_step:
  assumes "mp_ok sy" and "\<not> is_pump event"
  shows "submissions_left (mp_step lay sy event) \<le> submissions_left sy - (if is_submitted event then 1 else 0)"
proof (cases "is_submitted event")
  case True
  then obtain memory carrier result where e: "event = EvSubmitted memory carrier result" by (cases event) auto
  show ?thesis
    using assms pump_resume_count [of lay memory carrier result "the (sy_pump sy)" "sy_service sy"]
    by (auto simp: e submissions_left_def mp_ok_def case_prod_beta split: option.split)
next
  case False
  then show ?thesis using pump_unchanged assms(2) by (simp add: submissions_left_def)
qed

lemma submissions_left_run:
  "mp_ok sy \<Longrightarrow> allowed_events (mp_step lay) mp_allowed sy es \<Longrightarrow> list_all (\<lambda>e. \<not> is_pump e) es \<Longrightarrow>
   submissions_left (run_events (mp_step lay) sy es) \<le> submissions_left sy - length (filter is_submitted es)"
proof (induction es arbitrary: sy)
  case (Cons event es)
  have "mp_ok (mp_step lay sy event)" using Cons.prems(1,2) mp_step_keeps by (simp add: mp_keeps_def)
  from Cons.IH [OF this] Cons.prems submissions_left_step [OF Cons.prems(1), of event lay]
  show ?case by (auto split: if_splits)
qed simp

lemma submissions_left_bounds: "mp_ok sy \<Longrightarrow> submissions_left sy \<le> 16 \<and> (submissions_left sy = 0 \<longleftrightarrow> sy_pump sy = None)"
  by (auto simp: mp_ok_def submissions_left_def split: option.splits)

end
