(* ===== verification/Multiplayer_Sample.thy ===== *)
theory Multiplayer_Sample
  imports Multiplayer_Runs
begin

unbundle bit_operations_syntax

text \<open>
  One run of the multiplayer service, evaluated: a host registers a feature, negotiates with a client,
  and submits a message. The run is an input at which the properties of the service apply.
\<close>

section \<open>The events\<close>

definition sample_layout :: layout where
  "sample_layout = \<lparr>sizeof_outgoing = 40, sizeof_incoming = 48, sizeof_hello = 40\<rparr>"

definition sample_owner :: "PatchState \<Rightarrow> patch_owner" where
  "sample_owner state = \<lparr>ow_name = ''Patch'', ow_state = state, ow_runtime = False\<rparr>"

definition sample_frame :: "Kind \<Rightarrow> u64 \<Rightarrow> byte list list \<Rightarrow> ParsedFrame" where
  "sample_frame kind host manifest = \<lparr>pf_kind = kind, pf_tokens = \<lparr>tok_client = 5, tok_host = host\<rparr>,
     pf_manifest = manifest, pf_feature = [], pf_payload = []\<rparr>"

definition sample_begin :: "mp_event list" where
  "sample_begin = [EvOwner 0 (sample_owner PPreparing), EvFeature 0 [0x61] 3, EvOwner 0 (sample_owner PInstalled),
     EvBegin \<lparr>gs_session = 1, gs_mode = GameHost\<rparr> True]"

definition sample_connect :: "mp_event list" where
  "sample_connect = [EvConnect 0 None 2 99 None False,
     EvReceive True (Some 7) True 99 (frame_bytes (sample_frame Message_Protocol.Hello 0 [[0x61]])) 1,
     EvPump (\<lambda>n. True) True 1]"

definition sample_ready :: "mp_event list" where
  "sample_ready = [EvSubmitted (\<lambda>n. True) True CarrierAccepted,
     EvReceive True None True 99 (frame_bytes (sample_frame Message_Protocol.Ready 7 [])) 2]"

definition sample_send :: "mp_event list" where
  "sample_send = [EvSend True True 0 1 [1, 2, 3], EvPump (\<lambda>n. True) True 3]"

definition sample_start :: mp_system where
  "sample_start = initial_system (\<lambda>n. sample_owner PDisabled)"

section \<open>The states\<close>

definition sample_feature :: FC_Feature where
  "sample_feature = \<lparr>ft_address = 0, ft_owner = 0, ft_id = [0x61], ft_role = 3, ft_frozen = 3,
     ft_payload_capacity = of_nat (payload_capacity [0x61]), ft_peers = [], ft_last = [], ft_messages = []\<rparr>"

definition sample_service :: "Connection list \<Rightarrow> nat \<Rightarrow> bool \<Rightarrow> MultiplayerService" where
  "sample_service conns bytes pumping = (initial_service ((\<lambda>n. sample_owner PDisabled)(0 := sample_owner PInstalled)))
     \<lparr>ms_features := [sample_feature], ms_connections := conns, ms_host := (if conns = [] then 0 else 2),
      ms_mode := GameHost, ms_client_manifest := [[0x61]], ms_host_manifest := [[0x61]], ms_feature_ids := [[0x61]],
      ms_selected := True, ms_remote_available := True, ms_pumping := pumping, ms_outgoing_bytes := bytes,
      ms_next_peer := (if conns = [] then 0 else 2), ms_next_feature := 1\<rparr>"

definition sample_conn :: "Phase \<Rightarrow> u64 \<Rightarrow> u64 \<Rightarrow> OutgoingMessage list \<Rightarrow> Connection" where
  "sample_conn phase client host out = \<lparr>cn_id = 1, cn_native_slot = 2, cn_raw = 99,
     cn_info = \<lparr>pi_slot = Some 2, pi_galaxy_id = None\<rparr>, cn_local = False, cn_phase = phase,
     cn_deadline = 3000000000, cn_client_token = client, cn_host_token = host,
     cn_paths = [(new_path [0x61])\<lparr>fa_remote_supported := phase \<noteq> AwaitHello\<rparr>], cn_whole_notice = False, cn_rejected = 0,
     cn_failure_reason = [], cn_outgoing = out\<rparr>"

definition sample_system :: "Connection list \<Rightarrow> nat \<Rightarrow> submission option \<Rightarrow> mp_system" where
  "sample_system conns bytes pump = \<lparr>sy_service = sample_service conns bytes (pump \<noteq> None), sy_pump = pump,
     sy_delivery = None, sy_calls = []\<rparr>"

lemmas sample_defs = sample_system_def sample_layout_def sample_owner_def sample_feature_def sample_service_def sample_conn_def
  initial_service_def initial_system_def sample_start_def

lemma sample_id: "valid_feature_id [0x61]"
  by code_simp

lemma sample_manifest:
  assumes "kind = Message_Protocol.Hello \<or> kind = Message_Protocol.Welcome" and "valid_tokens kind tokens"
  shows "well_formed_frame \<lparr>pf_kind = kind, pf_tokens = tokens, pf_manifest = [[0x61]], pf_feature = [], pf_payload = []\<rparr>"
  using assms sample_id by (auto simp: well_formed_frame_def frame_bytes_def kFrameBytes_def)

lemma sample_manifests: "manifests_encode 3 [[0x61]] [[0x61]]"
  by (simp add: manifests_encode_def encode_manifest_eq encoded_def sample_manifest valid_tokens.simps frame_size_def Let_def
      frame_bytes_def kFrameBytes_def FC_FEATURE_CLIENT_def FC_FEATURE_HOST_def)

lemma sample_begun:
  "run_events (mp_step sample_layout) sample_start sample_begin =
    (sample_system [] 0 None)"
  by (simp add: sample_begin_def sample_defs register_feature_def Let_def change_owner_def sample_id
      begin_session_def expire_all_def expire_hellos_def applicable_roles_def role_manifest_def freeze_def owner_state_def
      FC_FEATURE_CLIENT_def FC_FEATURE_HOST_def FC_FEATURE_BOTH_def sample_manifests no_info_def)

lemma sample_parse_hello:
  "parse (frame_bytes (sample_frame Message_Protocol.Hello 0 [[0x61]])) = Some (sample_frame Message_Protocol.Hello 0 [[0x61]])"
  by (rule parse_frame_bytes) (simp add: sample_frame_def sample_manifest valid_tokens.simps)

lemma sample_parse_ready:
  "parse (frame_bytes (sample_frame Message_Protocol.Ready 7 [])) = Some (sample_frame Message_Protocol.Ready 7 [])"
  by (rule parse_frame_bytes) (simp add: sample_frame_def well_formed_frame_def frame_bytes_def kFrameBytes_def valid_tokens.simps)

lemma sample_connected:
  "mp_step sample_layout (sample_system [] 0 None)
     (EvConnect 0 None 2 99 None False) =
   (sample_system [sample_conn AwaitHello 0 0 []] 0 None)"
  by (simp add: sample_defs connect_def claim_slot_def slot_index_def find_index_def expire_hellos_def Let_def conn_def
      empty_connection_def forget_local_def expire_def discard_messages_def set_conn_def open_connection_def next_peer_def
      establish_endpoints_def accept_client_def log_started_def log_def take_hello_def owner_runtime_def no_info_def new_path_def)

lemma sample_received:
  "mp_step sample_layout (sample_system [sample_conn AwaitHello 0 0 []] 0 None)
     (EvReceive True (Some 7) True 99 (frame_bytes (sample_frame Message_Protocol.Hello 0 [[0x61]])) 1) =
   (sample_system [sample_conn PhaseWelcome 5 7 []] 0 None)"
  by (simp add: sample_system_def receive_def sample_parse_hello Let_def)
   (simp add: sample_defs expire_hellos_def sender_index_def find_index_def sample_frame_def receive_frame_def timeout_def
      conn_def accept_hello_def set_conn_def log_def owner_runtime_def support_paths_def new_path_def Let_def)

definition sample_welcome :: submission where
  "sample_welcome = \<lparr>sm_peer = 1, sm_tokens = \<lparr>tok_client = 5, tok_host = 7\<rparr>, sm_phase = PhaseWelcome, sm_notice = [],
     sm_whole = False, sm_data = None, sm_frame = frame_bytes (sample_frame Message_Protocol.Welcome 7 [[0x61]]),
     sm_raw = 99, sm_server = True, sm_peers = [], sm_submitted = 1\<rparr>"

definition sample_message :: OutgoingMessage where
  "sample_message = \<lparr>om_feature = 0, om_peer = 1, om_bytes = [1, 2, 3]\<rparr>"

definition sample_data :: submission where
  "sample_data = \<lparr>sm_peer = 1, sm_tokens = \<lparr>tok_client = 5, tok_host = 7\<rparr>, sm_phase = Established, sm_notice = [],
     sm_whole = False, sm_data = Some 0,
     sm_frame = frame_bytes (data_frame \<lparr>tok_client = 5, tok_host = 7\<rparr> [0x61] [1, 2, 3]),
     sm_raw = 99, sm_server = True, sm_peers = [], sm_submitted = 1\<rparr>"

lemma framed_encoded: "well_formed_frame p \<Longrightarrow> framed (encoded p (replicate kFrameBytes 0)) notice whole message = Frame (frame_bytes p) notice whole message"
  by (simp add: encoded_framed)

lemma sample_fields [simp]:
  "ms_connections (sample_service cs bytes pumping) = cs"
  "ms_features (sample_service cs bytes pumping) = [sample_feature]"
  "ms_pumping (sample_service cs bytes pumping) = pumping"
  "ms_remote_available (sample_service cs bytes pumping)"
  "ms_mode (sample_service cs bytes pumping) = GameHost"
  "ms_outgoing_bytes (sample_service cs bytes pumping) = bytes"
  "ms_host_manifest (sample_service cs bytes pumping) = [[0x61]]"
  "ms_host (sample_service [c] bytes pumping) = 2"
  "ms_local (sample_service cs bytes pumping) = 0"
  "ms_owners (sample_service cs bytes pumping) 0 = sample_owner PInstalled"
  "(sample_service cs bytes pumping)\<lparr>ms_pumping := b\<rparr> = sample_service cs bytes b"
  "conn (sample_service [c] bytes pumping) 0 = c"
  "expire_hellos sample_layout now (sample_service cs bytes pumping) = sample_service cs bytes pumping"
  by (simp_all add: sample_service_def initial_service_def conn_def expire_hellos_def)

lemma sample_conn_fields [simp]:
  "cn_id (sample_conn phase client host out) = Suc 0"
  "cn_local (sample_conn phase client host out) = False"
  "cn_phase (sample_conn phase client host out) = phase"
  "cn_deadline (sample_conn phase client host out) = 3000000000"
  "cn_client_token (sample_conn phase client host out) = client"
  "cn_host_token (sample_conn phase client host out) = host"
  "cn_outgoing (sample_conn phase client host out) = out"
  "cn_whole_notice (sample_conn phase client host out) = False"
  "cn_raw (sample_conn phase client host out) = 99"
  "cn_paths (sample_conn phase client host out) = [(new_path [0x61])\<lparr>fa_remote_supported := phase \<noteq> AwaitHello\<rparr>]"
  by (simp_all add: sample_conn_def)

lemma sample_index [simp]:
  "cn_id c = Suc 0 \<Longrightarrow> connection_index (sample_service [c] bytes pumping) (Suc 0) = Some 0"
  by (simp add: connection_index_def find_index_def Let_def)

lemma sample_quiet [simp]:
  "log level line (sample_service cs bytes pumping) = sample_service cs bytes pumping"
  by (simp add: log_def sample_feature_def owner_runtime_def sample_owner_def)

lemma sample_pumped:
  "mp_step sample_layout (sample_system [sample_conn PhaseWelcome 5 7 []] 0 None) (EvPump (\<lambda>n. True) True 1) =
   sample_system [sample_conn PhaseWelcome 5 7 []] 0 (Some sample_welcome)"
proof -
  let ?c = "sample_conn PhaseWelcome 5 7 []"
  let ?st = "sample_service [?c] 0 True"
  have "prepare ?st ?c = Frame (sm_frame sample_welcome) [] False None"
    by (simp add: prepare_def sample_welcome_def sample_frame_def Let_def
        encode_manifest_eq framed_encoded sample_manifest valid_tokens.simps)
  then have "pump_run sample_layout (\<lambda>n. True) True [Suc 0] 0 ?st = (Some sample_welcome, ?st)"
    by (subst pump_run.simps) (simp add: submission_for_def sample_welcome_def)
  then show ?thesis
    by (simp add: sample_system_def pump_start_def timeout_def pump_leave_def Let_def)
qed

lemma sample_set [simp]: "set_conn 0 c' (sample_service [c] bytes pumping) = sample_service [c'] bytes pumping"
  by (simp add: set_conn_def sample_service_def)

lemma sample_conn_update [simp]:
  "(sample_conn phase client host out)\<lparr>cn_outgoing := out'\<rparr> = sample_conn phase client host out'"
  "phase \<noteq> AwaitHello \<Longrightarrow> phase' \<noteq> AwaitHello \<Longrightarrow> (sample_conn phase client host out)\<lparr>cn_phase := phase'\<rparr> = sample_conn phase' client host out"
  by (simp_all add: sample_conn_def)

lemma sample_accepted:
  "mp_step sample_layout (sample_system [sample_conn PhaseWelcome 5 7 []] 0 (Some sample_welcome))
     (EvSubmitted (\<lambda>n. True) True CarrierAccepted) = sample_system [sample_conn AwaitReady 5 7 []] 0 None"
proof -
  let ?st = "sample_service [sample_conn AwaitReady 5 7 []] 0 True"
  have "pump_run sample_layout (\<lambda>n. True) True [Suc 0] (Suc 0) ?st = (None, ?st)"
    by (subst pump_run.simps) (simp add: prepare_def Let_def pump_run.simps(1))
  then show ?thesis
    by (simp add: sample_system_def pump_resume_def sample_welcome_def log_accepted_def accept_submission_def pump_leave_def Let_def)
qed

lemma sample_readied:
  "mp_step sample_layout (sample_system [sample_conn AwaitReady 5 7 []] 0 None)
     (EvReceive True None True 99 (frame_bytes (sample_frame Message_Protocol.Ready 7 [])) 2) =
   sample_system [sample_conn Established 5 7 []] 0 None"
  by (simp add: sample_system_def receive_def sample_parse_ready sender_index_def find_index_def timeout_def Let_def)
    (simp add: sample_frame_def receive_frame_def Let_def)

lemma sample_route: "route (sample_service [sample_conn phase 5 7 out] bytes pumping) sample_feature (Suc 0) = Some 0"
  by (simp add: route_def host_route_def sample_feature_def FC_FEATURE_CLIENT_def FC_FEATURE_HOST_def)

lemma sample_agreement:
  "agreement_locked (sample_service [sample_conn Established 5 7 out] bytes pumping) sample_feature (Suc 0) = Compatible"
  unfolding agreement_locked_def sample_route
  by (simp add: owner_state_def sample_feature_def sample_owner_def find_path_def new_path_def Let_def)

lemma sample_at [simp]: "feature_at (sample_service cs bytes pumping) 0 = Some sample_feature"
  by (simp add: feature_at_def sample_feature_def)

lemma sample_sent:
  "mp_step sample_layout (sample_system [sample_conn Established 5 7 []] 0 None) (EvSend True True 0 1 [1, 2, 3]) =
   sample_system [sample_conn Established 5 7 [sample_message]] 43 None"
  by (simp add: sample_system_def with_feature_def send_def sample_agreement sample_route Let_def)
   (simp add: sample_message_def sample_feature_def max_payload_def unat_capacity payload_capacity_def kFrameBytes_def
      outgoing_charge_def sample_layout_def kQueueBytes_def sample_service_def protocol_constants sample_id)

lemma sample_submitted:
  "mp_step sample_layout (sample_system [sample_conn Established 5 7 [sample_message]] 43 None) (EvPump (\<lambda>n. True) True 3) =
   sample_system [sample_conn Established 5 7 [sample_message]] 43 (Some sample_data)"
proof -
  let ?c = "sample_conn Established 5 7 [sample_message]"
  let ?st = "sample_service [?c] 43 True"
  have "well_formed_frame (data_frame \<lparr>tok_client = 5, tok_host = 7\<rparr> [0x61] [1, 2, 3])"
    by (simp add: data_frame_def well_formed_data_iff sample_id valid_tokens.simps kFrameBytes_def)
  then have "prepare ?st ?c = Frame (sm_frame sample_data) [] False (Some 0)"
    using sample_agreement
    by (simp add: prepare_def Let_def new_path_def prepare_data_def sample_message_def)
      (simp add: encode_data_eq data_frame_def [symmetric] framed_encoded sample_data_def sample_feature_def)
  then have "pump_run sample_layout (\<lambda>n. True) True [Suc 0] 0 ?st = (Some sample_data, ?st)"
    by (subst pump_run.simps) (simp add: submission_for_def sample_data_def)
  then show ?thesis
    by (simp add: sample_system_def pump_start_def timeout_def pump_leave_def Let_def)
qed

definition sample_events :: "mp_event list" where
  "sample_events = sample_begin @ sample_connect @ sample_ready @ sample_send"

lemma sample_run:
  "run_events (mp_step sample_layout) sample_start sample_events =
    sample_system [sample_conn Established 5 7 [sample_message]] 43 (Some sample_data)"
  by (simp del: mp_step.simps One_nat_def add: sample_events_def run_events_append sample_begun sample_connect_def sample_connected
      sample_received sample_pumped sample_ready_def sample_accepted sample_readied sample_send_def sample_sent sample_submitted)

lemma sample_allowed: "allowed_events (mp_step sample_layout) mp_allowed sample_start sample_events"
  by (simp del: mp_step.simps add: sample_events_def sample_begin_def sample_connect_def sample_ready_def sample_send_def
      sample_owner_def sample_start_def initial_system_def initial_service_def)

lemma sample_reachable:
  "mp_reachable sample_layout (sample_system [sample_conn Established 5 7 [sample_message]] 43 (Some sample_data))"
  using sample_run sample_allowed unfolding mp_reachable_def sample_start_def by metis

end
