(* ===== verification/Multiplayer_Establishment.thy ===== *)
theory Multiplayer_Establishment
  imports Multiplayer_Runs
begin

unbundle bit_operations_syntax

text \<open>
  How a connection becomes established. Every operation is calm, that is, it establishes no connection, but for three: a host
  receives a Ready frame, a client's Ready frame is accepted by the carrier, a host opens the connection of its own endpoint.
\<close>

section \<open>Single connections\<close>

lemma conn_of [simp]:
  "conn (report owner level line st) k = conn st k"
  "conn (log level line st) k = conn st k"
  "conn (expire_hellos lay now st) k = conn st k"
  by (simp_all add: conn_def)

lemma conn_set: "k < length (ms_connections st) \<Longrightarrow> conn (set_conn k' c st) k = (if k = k' then c else conn st k)"
  by (simp add: conn_def set_conn_def)

lemma ready_frame:
  "parse bytes = Some f \<Longrightarrow> pf_kind f = Message_Protocol.Ready \<Longrightarrow>
   pf_manifest f = [] \<and> pf_feature f = [] \<and> pf_payload f = []"
  using parse_SomeD [of bytes f] by (simp add: well_formed_frame_def)

section \<open>Calm operations\<close>

definition same_peer :: "Connection \<Rightarrow> Connection \<Rightarrow> bool" where
  "same_peer c c' \<longleftrightarrow> cn_id c' = cn_id c \<and> cn_local c' = cn_local c \<and> cn_native_slot c' = cn_native_slot c \<and> cn_raw c' = cn_raw c"

definition established :: "Connection \<Rightarrow> bool" where
  "established c \<longleftrightarrow> cn_id c \<noteq> 0 \<and> cn_phase c = Established"

text \<open>A connection that is established afterwards was established before, under the same number and to the same peer.\<close>

definition was_established :: "MultiplayerService \<Rightarrow> nat \<Rightarrow> Connection \<Rightarrow> bool" where
  "was_established st k c \<longleftrightarrow> k < length (ms_connections st) \<and> same_peer (conn st k) c \<and> cn_phase (conn st k) = Established"

definition calm :: "MultiplayerService \<Rightarrow> MultiplayerService \<Rightarrow> bool" where
  "calm st st' \<longleftrightarrow> (\<forall>k < length (ms_connections st'). established (conn st' k) \<longrightarrow> was_established st k (conn st' k))"

named_theorems calm_laws \<open>operations that establish no connection\<close>

lemma same_peer_refl [simp]: "same_peer c c"
  by (simp add: same_peer_def)

lemma calm_trans: "calm a b \<Longrightarrow> calm b c \<Longrightarrow> calm a c"
  unfolding calm_def was_established_def established_def same_peer_def by metis

lemma calm_same: "ms_connections st' = ms_connections st \<Longrightarrow> calm st st'"
  by (auto simp: calm_def was_established_def established_def conn_def)

lemma calm_update:
  assumes "ms_connections st' = (ms_connections st)[k := c]"
    and "established c \<Longrightarrow> same_peer (conn st k) c \<and> cn_phase (conn st k) = Established"
  shows "calm st st'"
proof (cases "k < length (ms_connections st)")
  case True
  then show ?thesis using assms by (auto simp: calm_def was_established_def established_def conn_def nth_list_update)
qed (use assms(1) in \<open>simp add: calm_same list_update_beyond\<close>)

lemma calm_set:
  assumes "established c \<Longrightarrow> same_peer (conn st k) c \<and> cn_phase (conn st k) = Established"
  shows "calm st (set_conn k c st)"
  by (rule calm_update [OF _ assms]) (simp_all add: set_conn_def)

lemma calm_refl [simp]: "calm st st"
  by (rule calm_same) simp

lemma calm_frame [simp]:
  "calm st (log level line st') = calm st st'" "calm st (report owner level line st') = calm st st'"
  "calm st (expire_hellos lay now st') = calm st st'"
  "calm (log level line st) st' = calm st st'" "calm (expire_hellos lay now st) st' = calm st st'"
  by (simp_all add: calm_def was_established_def log_def report_def expire_hellos_def conn_def)

lemma calm_expire [calm_laws]: "calm st (expire lay k st)"
  by (rule calm_update [of _ _ k empty_connection])
    (simp_all add: expire_def discard_messages_def set_conn_def Let_def established_def empty_connection_def)

lemma calm_expire_list [calm_laws]: "calm st (expire_list lay ks st)"
  by (induction ks arbitrary: st) (auto intro: calm_trans [OF calm_expire])

lemma calm_expire_all [calm_laws]: "calm st (expire_all lay st)" "calm st (expire_others lay keep st)"
  by (simp_all add: expire_all_def expire_others_def calm_laws)

lemma calm_fail [calm_laws]: "calm st (fail_connection lay k reason st)"
proof (cases "k < length (ms_connections st)")
  case True
  show ?thesis by (rule calm_update [OF fail_connection_effect(1) [OF True]]) (simp add: established_def failed_conn_def)
next
  case False
  then show ?thesis
    by (intro calm_same) (simp add: fail_connection_def discard_messages_def set_conn_def log_def report_def Let_def list_update_beyond)
qed

lemma calm_timeout [calm_laws]: "calm st (timeout k now st)"
proof -
  have "calm st (set_conn k c (log level line st))" if "cn_phase c = Expired" for c level line
    using calm_set [of c "log level line st" k] that by (simp add: established_def)
  then show ?thesis by (simp add: timeout_def Let_def)
qed

lemma calm_reject [calm_laws]: "calm st (reject k cause reason st)"
proof -
  have "calm st (set_conn k ((conn st k)\<lparr>cn_rejected := r\<rparr>) st)" for r
    by (rule calm_set) (simp add: established_def same_peer_def)
  then show ?thesis by (simp add: reject_def Let_def)
qed

lemma calm_accept_hello [calm_laws]: "calm st (accept_hello lay random k client_token manifest st)"
proof -
  have "calm st (set_conn k c st)" if "cn_phase c = PhaseWelcome" for c
    by (rule calm_set) (simp add: established_def that)
  then show ?thesis by (simp add: accept_hello_def Let_def calm_laws split: option.split)
qed

section \<open>Sessions and registrations\<close>

lemma calm_boundary [calm_laws]: "calm st (begin_session lay state galaxy_selected st)" "calm st (end_session lay st)"
  "calm st (reset_connections lay st)" "calm st (disconnect lay slot st)" "calm st (observe_local info st)"
proof -
  have cleared: "calm st st'" if "ms_connections st' = ms_connections (expire_all lay (expire_hellos lay None st))" for st'
    by (rule calm_trans [OF _ calm_same [OF that]]) (use calm_expire_all(1) [of "expire_hellos lay None st" lay] in simp)
  show "calm st (begin_session lay state galaxy_selected st)" by (rule cleared) (simp add: begin_session_def Let_def log_def report_def)
  show "calm st (end_session lay st)" by (rule cleared) (simp add: end_session_def Let_def)
  show "calm st (reset_connections lay st)" by (rule cleared) (simp add: reset_connections_def)
  have "calm st (expire lay k st')" if "ms_connections st' = ms_connections st" for k st'
    by (rule calm_trans [OF calm_same [OF that] calm_expire])
  then show "calm st (disconnect lay slot st)" by (simp add: disconnect_def Let_def split: option.split)
  have infos: "calm st st'" if "ms_connections st' = map (\<lambda>c. if cn_id c = ident then c\<lparr>cn_info := info\<rparr> else c) (ms_connections st)" for st' ident
    using that by (auto simp: calm_def was_established_def established_def same_peer_def conn_def)
  have "ms_connections (observe_local info st) = ms_connections st \<or>
      (\<exists>ident. ms_connections (observe_local info st) = map (\<lambda>c. if cn_id c = ident then c\<lparr>cn_info := info\<rparr> else c) (ms_connections st))"
    by (auto simp: observe_local_def Let_def next_peer_def)
  then show "calm st (observe_local info st)" using infos calm_same by blast
qed

lemma calm_registrations [calm_laws]:
  "calm st (change_owner n owner st)" "calm st (snd (register_feature n ident role st))"
  "calm st (snd (on_peer feature callback st))" "calm st (snd (on_message feature callback st))" "calm st (discard_owner n st)"
  by (rule calm_same;
      simp add: change_owner_def register_feature_def on_peer_def on_message_def discard_owner_def set_feature_def Let_def split: option.split)+

lemma calm_send [calm_laws]: "calm st (snd (send lay locked memory feature peer bytes st))"
proof -
  have "calm st (set_conn k ((conn st k)\<lparr>cn_outgoing := out\<rparr>) st\<lparr>ms_outgoing_bytes := n\<rparr>)" for k out n
  proof (rule calm_trans [OF _ calm_same])
    show "calm st (set_conn k ((conn st k)\<lparr>cn_outgoing := out\<rparr>) st)" by (rule calm_set) (simp add: established_def same_peer_def)
  qed simp
  then show ?thesis by (auto simp: send_def Let_def split: Agreement.split option.split)
qed

lemma calm_fail_feature [calm_laws]: "calm st (fail_feature lay feature peer reason st)"
proof -
  have "calm st (set_conn k ((conn st k)\<lparr>cn_paths := paths, cn_outgoing := out\<rparr>) st'\<lparr>ms_outgoing_bytes := n\<rparr>)"
    if "ms_connections st' = ms_connections st" for k paths out n st'
  proof (rule calm_trans [OF _ calm_same])
    have "conn st' k = conn st k" using that by (simp add: conn_def)
    then have "calm st' (set_conn k ((conn st k)\<lparr>cn_paths := paths, cn_outgoing := out\<rparr>) st')"
      by (intro calm_set) (simp add: established_def same_peer_def)
    then show "calm st (set_conn k ((conn st k)\<lparr>cn_paths := paths, cn_outgoing := out\<rparr>) st')" by (rule calm_trans [OF calm_same [OF that]])
  qed simp
  note updated = this
  show ?thesis by (auto simp: fail_feature_def Let_def report_def intro!: updated split: option.split)
qed

lemma calm_carrier_failed [calm_laws]: "calm st (carrier_failed lay reason st)"
proof -
  have "calm s (fold (\<lambda>k s. if cn_id (conn s k) \<noteq> 0 \<and> \<not> cn_local (conn s k) then fail_connection lay k reason s else s) ks s)" for ks s
    by (induction ks arbitrary: s) (auto intro: calm_trans [OF calm_fail])
  from this [of "expire_hellos lay None st"] show ?thesis by (simp add: carrier_failed_def)
qed

section \<open>Native connections\<close>

lemma calm_claim:
  assumes "claim_slot slot st = (k, st')"
  shows "calm st st'" and "k < length (ms_connections st')" and "ms_mode st' = ms_mode st" and "ms_next_peer st' = ms_next_peer st"
    and "ms_selected st' = ms_selected st"
proof -
  have "calm st (st\<lparr>ms_connections := ms_connections st @ [empty_connection]\<rparr>)"
    by (auto simp: calm_def was_established_def established_def conn_def nth_append empty_connection_def)
  then show "calm st st'" using assms by (auto simp: claim_slot_def split: option.splits)
  show "k < length (ms_connections st')" "ms_mode st' = ms_mode st" "ms_next_peer st' = ms_next_peer st" "ms_selected st' = ms_selected st"
    using assms by (auto simp: claim_slot_def slot_index_def dest: find_index_SomeD split: option.splits)
qed

lemma calm_refresh [calm_laws]: "calm st (refresh_connection k user_id st)"
  by (rule calm_update [of _ _ k "(conn st k)\<lparr>cn_info := (cn_info (conn st k))\<lparr>pi_galaxy_id := user_id\<rparr>\<rparr>"])
    (simp_all add: refresh_connection_def set_conn_def Let_def established_def same_peer_def)

lemma calm_forget: "calm st (forget_local c st)"
  by (rule calm_same) (simp add: forget_local_def)

lemma expired_fields [simp]:
  "ms_mode (expire lay k (forget_local c st)) = ms_mode st" "ms_next_peer (expire lay k (forget_local c st)) = ms_next_peer st"
  "length (ms_connections (expire lay k (forget_local c st))) = length (ms_connections st)"
  by (simp_all add: expire_def discard_messages_def set_conn_def forget_local_def Let_def)

lemma opened:
  assumes "k < length (ms_connections st)"
  shows "calm st (open_connection k now slot raw_address user_id is_local st)"
    and "cn_local (conn (open_connection k now slot raw_address user_id is_local st) k) \<longleftrightarrow> is_local \<and> ms_mode st = GameHost"
    and "cn_native_slot (conn (open_connection k now slot raw_address user_id is_local st) k) = slot"
    and "cn_raw (conn (open_connection k now slot raw_address user_id is_local st) k) = raw_address"
    and "cn_id (conn (open_connection k now slot raw_address user_id is_local st) k) = ms_next_peer st + 1"
    and "ms_mode (open_connection k now slot raw_address user_id is_local st) = ms_mode st"
    and "length (ms_connections (open_connection k now slot raw_address user_id is_local st)) = length (ms_connections st)"
  using assms
  by (auto simp: open_connection_def next_peer_def set_conn_def conn_def empty_connection_def established_def intro: calm_update)

lemma calm_join [calm_laws]: "calm st (join_host lay k random st)"
proof -
  let ?st1 = "expire_others lay k st"
  define st2 where "st2 = ?st1\<lparr>ms_host := cn_id (conn ?st1 k)\<rparr>"
  define st3 where "st3 = (if ms_local st2 = 0 then case next_peer st2 of (ident, st') \<Rightarrow> st'\<lparr>ms_local := ident\<rparr> else st2)"
  define c where "c = (conn st3 k)\<lparr>cn_client_token := (case random of Some v \<Rightarrow> v | None \<Rightarrow> 0), cn_phase := PhaseHello\<rparr>"
  have joined: "join_host lay k random st = (if random = None
      then fail_connection lay k ''Could not generate a multiplayer connection token'' (set_conn k c st3) else set_conn k c st3)"
    by (simp add: join_host_def Let_def c_def st3_def st2_def)
  have "calm st st3"
    by (rule calm_trans [OF calm_expire_all(2) [of st lay k] calm_same]) (simp add: st3_def st2_def next_peer_def)
  moreover have "calm st3 (set_conn k c st3)" by (rule calm_set) (simp add: established_def c_def)
  ultimately have "calm st (set_conn k c st3)" by (rule calm_trans)
  then show ?thesis using calm_trans [OF _ calm_fail] by (simp add: joined)
qed

lemma accepted_client:
  "ms_connections (accept_client k user_id st) =
    (if cn_local (conn st k) then (ms_connections st)[k := (conn st k)\<lparr>cn_phase := Established\<rparr>] else ms_connections st)"
  by (simp add: accept_client_def next_peer_def set_conn_def conn_def Let_def)

lemma calm_log_started [calm_laws]: "calm st (log_started k st)"
  by (simp add: log_started_def Let_def)

lemma calm_take_hello [calm_laws]: "calm st (take_hello lay k raw_address random st)"
proof -
  have "calm st (set_conn k ((conn st k)\<lparr>cn_deadline := d\<rparr>) st)" for d
    by (rule calm_set) (simp add: established_def same_peer_def)
  then have greeted: "calm st (accept_hello lay random k token manifest (set_conn k ((conn st k)\<lparr>cn_deadline := d\<rparr>) st))" for token manifest d
    by (rule calm_trans [OF _ calm_accept_hello])
  have freed: "calm st (st'\<lparr>ms_incoming_bytes := n, ms_pending_hellos := hellos\<rparr>)" if "calm st st'" for st' n hellos
    by (rule calm_trans [OF that calm_same]) simp
  show ?thesis by (auto simp: take_hello_def Let_def greeted intro!: freed split: option.split)
qed

text \<open>A connection opens established only as the endpoint of the host itself.\<close>

lemma connect_establishes:
  assumes "j < length (ms_connections (connect lay now random slot raw_address user_id is_local st))"
    and "established (conn (connect lay now random slot raw_address user_id is_local st) j)"
    and "\<not> was_established st j (conn (connect lay now random slot raw_address user_id is_local st) j)"
  shows "is_local \<and> ms_selected st \<and> ms_mode st = GameHost \<and>
    cn_local (conn (connect lay now random slot raw_address user_id is_local st) j) \<and>
    cn_native_slot (conn (connect lay now random slot raw_address user_id is_local st) j) = slot \<and>
    cn_raw (conn (connect lay now random slot raw_address user_id is_local st) j) = raw_address \<and>
    cn_id (conn (connect lay now random slot raw_address user_id is_local st) j) = ms_next_peer st + 1"
proof -
  let ?final = "connect lay now random slot raw_address user_id is_local st"
  have restless: "\<not> calm st ?final" using assms by (auto simp: calm_def)
  obtain k st1 where claim: "claim_slot slot (expire_hellos lay (Some now) st) = (k, st1)" by fastforce
  have first: "calm st st1" "k < length (ms_connections st1)" "ms_mode st1 = ms_mode st" "ms_next_peer st1 = ms_next_peer st"
    using calm_claim [OF claim] calm_trans [OF calm_same [of "expire_hellos lay (Some now) st" st]] by (simp_all add: expire_hellos_def)
  let ?st2 = "expire lay k (forget_local (conn st1 k) st1)"
  let ?st3 = "open_connection k now slot raw_address user_id is_local ?st2"
  let ?st4 = "establish_endpoints lay k random user_id ?st3"
  have selected: "ms_selected st" using restless by (cases "ms_selected st") (simp_all add: connect_def)
  have final: "?final = take_hello lay k raw_address random (log_started k ?st4)"
    using restless selected claim calm_trans [OF first(1) calm_refresh]
    by (auto simp: connect_def Let_def split: if_splits)
  have k: "k < length (ms_connections ?st2)" using first(2) by simp
  note open3 = opened [OF k, of now slot raw_address user_id is_local]
  have before: "calm st ?st3" by (rule calm_trans [OF calm_trans [OF calm_trans [OF first(1) calm_forget] calm_expire] open3(1)])
  have after: "calm ?st4 ?final" unfolding final by (rule calm_trans [OF calm_log_started calm_take_hello])
  have moving: "\<not> calm ?st3 ?st4" using restless calm_trans [OF calm_trans [OF before] after] by blast
  then have client: "?st4 = accept_client k user_id ?st3" using calm_join by (simp add: establish_endpoints_def split: if_splits)
  have own: "cn_local (conn ?st3 k)"
    using moving calm_same [of ?st4 ?st3] accepted_client [of k user_id ?st3] client by (cases "cn_local (conn ?st3 k)") simp_all
  then have conns: "ms_connections ?st4 = (ms_connections ?st3)[k := (conn ?st3 k)\<lparr>cn_phase := Established\<rparr>]"
    using accepted_client [of k user_id ?st3] client by simp
  have live4: "was_established ?st4 j (conn ?final j)" using after assms(1,2) by (simp add: calm_def)
  have "j = k"
  proof (rule ccontr)
    assume other: "j \<noteq> k"
    then have "conn ?st4 j = conn ?st3 j" "j < length (ms_connections ?st3)" using live4 conns by (simp_all add: conn_def was_established_def)
    then have "was_established ?st3 j (conn ?final j)" using live4 by (simp add: was_established_def)
    then have "was_established st j (conn ?final j)"
      using before assms(2) by (auto simp: calm_def was_established_def established_def same_peer_def)
    then show False using assms(3) by simp
  qed
  moreover have "conn ?st4 k = (conn ?st3 k)\<lparr>cn_phase := Established\<rparr>" using conns k open3(7) by (simp add: conn_def)
  ultimately show ?thesis using live4 own open3(2-5) selected first(3,4) by (simp add: was_established_def same_peer_def)
qed

section \<open>Received frames\<close>

lemma calm_receive_failed [calm_laws]: "calm st (receive_failed lay k ident st)"
proof -
  have notice: "calm s (set_conn k ((conn s k)\<lparr>cn_whole_notice := False\<rparr>) s)" for s
    by (rule calm_set) (simp add: established_def same_peer_def)
  have paths: "calm st (set_conn k ((conn st k)\<lparr>cn_paths := paths\<rparr>) st')" if "ms_connections st' = ms_connections st" for st' paths
  proof (rule calm_trans [OF calm_same [OF that] calm_set])
    show "established ((conn st k)\<lparr>cn_paths := paths\<rparr>) \<Longrightarrow>
        same_peer (conn st' k) ((conn st k)\<lparr>cn_paths := paths\<rparr>) \<and> cn_phase (conn st' k) = Established"
      using that by (simp add: established_def same_peer_def conn_def)
  qed
  show ?thesis
    by (auto simp: receive_failed_def Let_def intro!: paths calm_trans [OF calm_fail notice] split: option.split)
qed

lemma calm_receive_data [calm_laws]: "calm st (receive_data lay server memory k frame st)"
  by (auto simp: receive_data_def Let_def calm_laws intro: calm_same split: option.split)

lemma calm_receive_unknown [calm_laws]: "calm st (receive_unknown lay server sender bytes now memory frame st)"
  by (rule calm_same) (simp add: receive_unknown_def log_unknown_sender_def Let_def split: option.split)

text \<open>The frame that completes a negotiation.\<close>

definition completes :: "ParsedFrame \<Rightarrow> Connection \<Rightarrow> bool" where
  "completes frame c \<longleftrightarrow> pf_kind frame = Message_Protocol.Ready \<and> (cn_phase c = AwaitReady \<or> cn_phase c = PhaseWelcome) \<and>
    tok_client (pf_tokens frame) = cn_client_token c \<and> tok_host (pf_tokens frame) = cn_host_token c"

lemma receive_frame_calm:
  "calm st (receive_frame lay server memory random k frame st) \<or>
    server \<and> completes frame (conn st k) \<and>
    ms_connections (receive_frame lay server memory random k frame st) = (ms_connections st)[k := (conn st k)\<lparr>cn_phase := Established\<rparr>]"
proof -
  have "calm st (set_conn k c st)" if "cn_phase c = PhaseReady" for c
    by (rule calm_set) (simp add: established_def that)
  then show ?thesis
    by (auto simp: receive_frame_def completes_def set_conn_def Let_def calm_laws)
qed

lemma receive_calm:
  "calm st (receive lay memory random server sender bytes now st) \<or>
    (\<exists>k frame. parse bytes = Some frame \<and> server \<and> ms_mode st \<noteq> GameClient \<and> completes frame (conn st k) \<and> k < length (ms_connections st) \<and>
      \<not> cn_local (conn st k) \<and> cn_raw (conn st k) = sender \<and> now < cn_deadline (conn st k) \<and>
      ms_connections (receive lay memory random server sender bytes now st) = (ms_connections st)[k := (conn st k)\<lparr>cn_phase := Established\<rparr>])"
proof -
  let ?st1 = "expire_hellos lay (Some now) st" and ?final = "receive lay memory random server sender bytes now st"
  have same1: "ms_connections ?st1 = ms_connections st" "ms_mode ?st1 = ms_mode st" by (simp_all add: expire_hellos_def)
  have unknown: "calm st (receive_unknown lay server sender bytes now memory frame ?st1)" for frame
    using calm_receive_unknown [of ?st1 lay server sender bytes now memory frame] by simp
  have rejected: "calm st (reject k cause reason ?st1)" for k cause reason using calm_reject [of ?st1 k cause reason] by simp
  have timed: "calm st (timeout k now ?st1)" for k using calm_timeout [of ?st1 k now] by simp
  show ?thesis
  proof (cases "calm st ?final")
    case False
    then obtain k where k: "sender_index sender ?st1 = Some k"
      using unknown by (auto simp: receive_def Let_def split: if_splits option.splits)
    then obtain frame where frame: "parse bytes = Some frame"
      using False rejected by (auto simp: receive_def Let_def split: if_splits option.splits)
    let ?st2 = "timeout k now ?st1"
    have role: "server = (ms_mode st \<noteq> GameClient)" and final: "?final = receive_frame lay server memory random k frame ?st2"
      and time: "cn_phase (conn ?st2 k) = Established \<or> now < cn_deadline (conn ?st2 k)"
      using False k frame rejected timed by (auto simp: receive_def Let_def same1(2) not_le split: if_splits option.splits)
    have "\<not> calm ?st2 ?final" using False calm_trans [OF timed] by blast
    then have ready: "server" "completes frame (conn ?st2 k)"
      "ms_connections ?final = (ms_connections ?st2)[k := (conn ?st2 k)\<lparr>cn_phase := Established\<rparr>]"
      using receive_frame_calm [of ?st2 lay server memory random k frame] unfolding final by blast+
    have sender: "k < length (ms_connections st)" "\<not> cn_local (conn st k)" "cn_raw (conn st k) = sender"
      using k role ready(1) by (auto simp: sender_index_def same1 conn_def dest!: find_index_SomeD)
    have "ms_connections ?st2 = ms_connections st"
    proof (rule ccontr)
      assume "ms_connections ?st2 \<noteq> ms_connections st"
      then have "cn_phase (conn ?st2 k) = Expired"
        using sender(1) by (auto simp: timeout_def Let_def set_conn_def conn_def same1 split: if_splits)
      then show False using ready(2) by (simp add: completes_def)
    qed
    then have "conn ?st2 k = conn st k" "ms_connections ?st2 = ms_connections st" by (simp_all add: conn_def)
    then show ?thesis using frame ready role sender time by (auto simp: completes_def)
  qed simp
qed

section \<open>The pump\<close>

lemma calm_fields:
  "calm st st' \<Longrightarrow> calm st (st'\<lparr>ms_outgoing_bytes := n\<rparr>)" "calm st st' \<Longrightarrow> calm st (st'\<lparr>ms_pumping := b\<rparr>)"
  "calm st st' \<Longrightarrow> calm st (st'\<lparr>ms_incoming := incoming, ms_incoming_bytes := n\<rparr>)"
  by (erule calm_trans [OF _ calm_same], simp)+

lemma calm_queue: "calm st (set_conn k ((conn st k)\<lparr>cn_outgoing := out\<rparr>) st)"
  by (rule calm_set) (simp add: established_def same_peer_def)

lemma calm_drop_front [calm_laws]: "calm st (drop_front lay k st)"
  by (simp add: drop_front_def Let_def calm_fields calm_queue)

lemma calm_pump_local [calm_laws]: "calm st (pump_local lay memory k st)"
proof -
  define st1 where "st1 = (set_conn k ((conn st k)\<lparr>cn_outgoing := tl (cn_outgoing (conn st k))\<rparr>) st)
    \<lparr>ms_outgoing_bytes := ms_outgoing_bytes st - outgoing_charge lay (hd (cn_outgoing (conn st k)))\<rparr>"
  have first: "calm st st1" by (simp add: st1_def calm_fields calm_queue)
  then show ?thesis unfolding pump_local_def Let_def st1_def [symmetric]
    by (auto intro: calm_trans [OF first calm_fail] calm_fields split: option.split)
qed

lemma calm_pump_run [calm_laws]: "calm st (snd (pump_run lay memory carrier peers submitted st))"
proof (induction lay memory carrier peers submitted st rule: pump_run.induct)
  case (1 lay memory carrier submitted st)
  show ?case by (simp add: pump_run.simps)
next
  case (2 lay memory carrier peer peers submitted st)
  then show ?case
    by (subst pump_run.simps(2)) (auto intro: calm_trans [OF calm_drop_front] calm_trans [OF calm_pump_local] split: option.split prepared.split)
qed

lemma calm_leave: "calm st (snd result) \<Longrightarrow> calm st (snd (pump_leave result))"
  by (auto simp: pump_leave_def calm_fields split: prod.split option.split)

lemma calm_timeouts: "calm st (pump_timeouts now ks st)"
  by (induction ks arbitrary: st) (auto intro: calm_trans [OF calm_timeout])

lemma calm_pump_start [calm_laws]: "calm st (snd (pump_start lay memory carrier now st))"
proof -
  let ?st1 = "(expire_hellos lay (Some now) st)\<lparr>ms_pumping := True\<rparr>"
  have "calm st ?st1" by (simp add: calm_fields)
  then have "calm st (pump_timeouts now ks ?st1)" for ks by (rule calm_trans [OF _ calm_timeouts])
  then show ?thesis by (auto simp: pump_start_def Let_def intro!: calm_leave intro: calm_trans [OF _ calm_pump_run])
qed

text \<open>Accepting a frame establishes a connection when the frame was its Ready frame.\<close>

lemma accept_submission_calm:
  "calm st (accept_submission lay sm k st) \<or>
    sm_phase sm = PhaseReady \<and> cn_phase (conn st k) = PhaseReady \<and>
    ms_connections (accept_submission lay sm k st) = (ms_connections st)[k := (conn st k)\<lparr>cn_phase := Established\<rparr>]"
proof -
  have other: "calm st (set_conn k c st)" if "cn_phase c = AwaitWelcome \<or> cn_phase c = AwaitReady" for c
    by (rule calm_set) (use that in \<open>auto simp: established_def\<close>)
  have notices: "calm st (set_conn k ((conn st k)\<lparr>cn_whole_notice := b\<rparr>) st)" "calm st (set_conn k ((conn st k)\<lparr>cn_paths := paths\<rparr>) st)" for b paths
    by (rule calm_set; simp add: established_def same_peer_def)+
  show ?thesis
    by (auto simp: accept_submission_def Let_def set_conn_def [of _ "_\<lparr>cn_phase := Established\<rparr>"] other notices calm_laws
        split: option.split list.split)
qed

lemma log_accepted_same [simp]: "ms_connections (log_accepted sm c st) = ms_connections st" "conn (log_accepted sm c st) k = conn st k"
  by (simp_all add: log_accepted_def Let_def conn_def)

lemma pump_resume_calm:
  "calm st (snd (pump_resume lay memory carrier result sm st)) \<or>
    (\<exists>k st1. result = CarrierAccepted \<and> k < length (ms_connections st) \<and> cn_id (conn st k) = sm_peer sm \<and> sm_phase sm = PhaseReady \<and>
      cn_phase (conn st k) = PhaseReady \<and>
      sm_tokens sm = \<lparr>tok_client = cn_client_token (conn st k), tok_host = cn_host_token (conn st k)\<rparr> \<and>
      ms_connections st1 = (ms_connections st)[k := (conn st k)\<lparr>cn_phase := Established\<rparr>] \<and>
      calm st1 (snd (pump_resume lay memory carrier result sm st)))"
proof (cases "connection_index st (sm_peer sm)")
  case None
  then show ?thesis by (simp add: pump_resume_def Let_def calm_leave calm_laws)
next
  case (Some k)
  let ?final = "snd (pump_resume lay memory carrier result sm st)"
  have k: "k < length (ms_connections st)" "cn_id (conn st k) = sm_peer sm"
    using Some by (auto simp: connection_index_def conn_def dest: find_index_SomeD)
  have run: "calm s (snd (pump_leave (pump_run lay memory carrier peers n s')))" if "calm s s'" for s s' peers n
    by (rule calm_leave [OF calm_trans [OF that calm_pump_run]])
  show ?thesis
  proof (cases "cn_client_token (conn st k) = tok_client (sm_tokens sm) \<and> cn_host_token (conn st k) = tok_host (sm_tokens sm)")
    case False
    have "calm st (log_accepted sm (conn st k) st)" by (rule calm_same) simp
    then show ?thesis using False Some run by (auto simp: pump_resume_def Let_def)
  next
    case True
    then have tokens: "sm_tokens sm = \<lparr>tok_client = cn_client_token (conn st k), tok_host = cn_host_token (conn st k)\<rparr>" by simp
    show ?thesis
    proof (cases result)
      case CarrierAccepted
      let ?st1 = "log_accepted sm (conn st k) st"
      let ?st2 = "accept_submission lay sm k ?st1"
      have final: "?final = snd (pump_leave (pump_run lay memory carrier (sm_peer sm # sm_peers sm) (sm_submitted sm) ?st2))"
        using True Some CarrierAccepted by (simp add: pump_resume_def Let_def)
      have after: "calm ?st2 ?final" unfolding final by (rule run) simp
      from accept_submission_calm [of ?st1 lay sm k] show ?thesis
      proof
        assume "calm ?st1 ?st2"
        then have "calm st ?final" using after calm_trans [OF calm_trans [OF calm_same [of ?st1 st]]] by simp
        then show ?thesis ..
      next
        assume "sm_phase sm = PhaseReady \<and> cn_phase (conn ?st1 k) = PhaseReady \<and>
          ms_connections ?st2 = (ms_connections ?st1)[k := (conn ?st1 k)\<lparr>cn_phase := Established\<rparr>]"
        then show ?thesis using CarrierAccepted k tokens after by (intro disjI2 exI [of _ k] exI [of _ ?st2]) simp
      qed
    next
      case CarrierRetry
      then show ?thesis using True Some run [of st st] by (simp add: pump_resume_def Let_def)
    next
      case CarrierFailed
      have "calm s (set_conn k ((conn s k)\<lparr>cn_whole_notice := False\<rparr>) s)" for s
        by (rule calm_set) (simp add: established_def same_peer_def)
      note ended = run [OF calm_trans [OF calm_fail this]]
      then show ?thesis using True Some CarrierFailed by (simp add: pump_resume_def Let_def)
    qed
  qed
qed

subsection \<open>The Ready frame\<close>

definition ready_bytes :: "Tokens \<Rightarrow> byte list" where
  "ready_bytes tokens = frame_bytes \<lparr>pf_kind = Message_Protocol.Ready, pf_tokens = tokens, pf_manifest = [], pf_feature = [], pf_payload = []\<rparr>"

definition ready_sent :: "submission \<Rightarrow> bool" where
  "ready_sent sm \<longleftrightarrow> (sm_phase sm = PhaseReady \<longrightarrow> sm_frame sm = ready_bytes (sm_tokens sm))"

lemma prepare_ready:
  "prepare st c = Frame frame notice whole message \<Longrightarrow> cn_phase c = PhaseReady \<Longrightarrow>
    frame = ready_bytes \<lparr>tok_client = cn_client_token c, tok_host = cn_host_token c\<rparr>"
  by (auto simp: prepare_def Let_def encode_ready_eq encoded_framed ready_bytes_def split: if_splits)

lemma submission_ready:
  "prepare st c = Frame frame notice whole message \<Longrightarrow> ready_sent (submission_for st c frame notice whole message peers submitted)"
  by (simp add: ready_sent_def submission_for_def prepare_ready)

lemma pump_run_sent: "pred_option ready_sent (fst (pump_run lay memory carrier peers submitted st))"
proof (induction lay memory carrier peers submitted st rule: pump_run.induct)
  case (1 lay memory carrier submitted st)
  show ?case by (simp add: pump_run.simps)
next
  case (2 lay memory carrier peer peers submitted st)
  then show ?case
    by (subst pump_run.simps(2)) (auto intro: submission_ready split: option.split prepared.split)
qed

lemma pump_run_ready: "fst (pump_run lay memory carrier peers submitted st) = Some sm \<Longrightarrow> ready_sent sm"
  using pump_run_sent [of lay memory carrier peers submitted st] by simp

lemma pump_leave_sent: "fst (pump_leave result) = fst result"
  by (simp add: pump_leave_def split: prod.split option.split)

lemma step_sent:
  assumes "\<And>sm. sy_pump sy = Some sm \<Longrightarrow> ready_sent sm" and "sy_pump (mp_step lay sy event) = Some sm"
  shows "ready_sent sm"
proof (cases event)
  case (EvPump memory carrier now)
  have "ready_sent sm" if "fst (pump_start lay memory carrier now (sy_service sy)) = Some sm"
    using that pump_run_ready by (auto simp: pump_start_def Let_def pump_leave_sent split: if_splits)
  then show ?thesis using assms EvPump by (auto split: prod.splits if_splits)
next
  case (EvSubmitted memory carrier result)
  have "ready_sent sm" if "fst (pump_resume lay memory carrier result sm0 (sy_service sy)) = Some sm" for sm0
    using that pump_run_ready
    by (auto simp: pump_resume_def Let_def pump_leave_sent split: if_splits option.splits CarrierResult.splits)
  note resumed = this
  show ?thesis
  proof (cases "sy_pump sy")
    case (Some sm0)
    obtain next' st' where next': "pump_resume lay memory carrier result sm0 (sy_service sy) = (next', st')" by fastforce
    then have "next' = Some sm" using assms(2) EvSubmitted Some by simp
    then show ?thesis using resumed [of sm0] next' by simp
  qed (use assms EvSubmitted in simp)
qed (use assms in \<open>auto split: option.splits prod.splits\<close>)

lemma reachable_sent: "mp_reachable lay sy \<Longrightarrow> sy_pump sy = Some sm \<Longrightarrow> ready_sent sm"
proof -
  have "\<forall>sm. sy_pump sy = Some sm \<longrightarrow> ready_sent sm \<Longrightarrow> \<forall>sm. sy_pump (run_events (mp_step lay) sy es) = Some sm \<longrightarrow> ready_sent sm" for sy es
  proof (induction es arbitrary: sy)
    case (Cons event es)
    have "\<forall>sm. sy_pump (mp_step lay sy event) = Some sm \<longrightarrow> ready_sent sm" using step_sent [of sy lay event] Cons.prems by blast
    from Cons.IH [OF this] show ?case by (simp del: mp_step.simps)
  qed simp
  from this [of "initial_system _"] show "mp_reachable lay sy \<Longrightarrow> sy_pump sy = Some sm \<Longrightarrow> ready_sent sm"
    unfolding mp_reachable_def by (auto simp: initial_system_def)
qed

section \<open>Events\<close>

lemma calm_deliver [calm_laws]: "calm st (snd (deliver_start debug st))" "calm st (snd (snd (deliver_step lay delivery st)))"
proof -
  have line: "ms_connections (fold (\<lambda>(peer, state). report owner level (line peer state)) changes s) = ms_connections s" for owner level line changes s
    by (induction changes arbitrary: s) (auto simp: report_def)
  have feature: "ms_connections (snd (collect_feature debug feature result)) = ms_connections (snd result)" for feature result
    by (auto simp: collect_feature_def set_feature_def Let_def line split: prod.split)
  have "ms_connections (snd (fold (collect_feature debug) features result)) = ms_connections (snd result)" for features result
    by (induction features arbitrary: result) (simp_all add: feature)
  then show "calm st (snd (deliver_start debug st))"
    by (intro calm_same) (simp add: deliver_start_def collect_notices_def case_prod_beta)
  show "calm st (snd (snd (deliver_step lay delivery st)))"
    by (rule calm_same, induction lay delivery st rule: deliver_step.induct) (auto split: list.split option.split)
qed

lemma calm_feature [calm_laws]:
  "(\<And>feature. calm st (operation feature)) \<Longrightarrow> calm st (with_feature st address operation)"
  by (simp add: with_feature_def split: option.split)

lemma calm_step:
  assumes "\<And>memory random server sender bytes now. event \<noteq> EvReceive memory random server sender bytes now"
    and "\<And>now random slot raw_address user_id is_local. event \<noteq> EvConnect now random slot raw_address user_id is_local"
    and "\<And>memory carrier result. event \<noteq> EvSubmitted memory carrier result"
  shows "calm (sy_service sy) (sy_service (mp_step lay sy event))"
proof (cases event)
  case (EvPump memory carrier now)
  then show ?thesis using calm_pump_start [of "sy_service sy" lay memory carrier now] by (simp add: case_prod_beta)
next
  case (EvDeliver debug)
  then show ?thesis using calm_deliver(1) [of "sy_service sy" debug] by (simp add: case_prod_beta split: option.split)
next
  case EvDeliverStep
  then show ?thesis using calm_deliver(2) [of "sy_service sy" lay] by (simp add: case_prod_beta split: option.split)
qed (use assms in \<open>simp_all add: calm_laws\<close>)

text \<open>Where one connection is established, no other is.\<close>

lemma established_at:
  assumes "ms_connections st1 = (ms_connections st)[k := (conn st k)\<lparr>cn_phase := Established\<rparr>]" and "calm st1 st'"
    and "j < length (ms_connections st')" and "established (conn st' j)" and "\<not> was_established st j (conn st' j)"
  shows "j = k" and "k < length (ms_connections st)" and "same_peer (conn st k) (conn st' k)"
proof -
  have was: "was_established st1 j (conn st' j)" using assms(2-4) by (simp add: calm_def)
  then have j: "j < length (ms_connections st)" using assms(1) by (simp add: was_established_def)
  show "j = k"
  proof (rule ccontr)
    assume "j \<noteq> k"
    then have "conn st1 j = conn st j" by (simp add: conn_def assms(1))
    then show False using was j assms(5) by (simp add: was_established_def)
  qed
  then show "k < length (ms_connections st)" using j by simp
  have "conn st1 k = (conn st k)\<lparr>cn_phase := Established\<rparr>" using j \<open>j = k\<close> by (simp add: conn_def assms(1))
  then show "same_peer (conn st k) (conn st' k)" using was \<open>j = k\<close> by (simp add: was_established_def same_peer_def)
qed

end
