(* ===== verification/Multiplayer_Properties.thy ===== *)
theory Multiplayer_Properties
  imports Multiplayer_Sample Multiplayer_Establishment
begin

unbundle bit_operations_syntax

text \<open>
  What the multiplayer service promises, over every run of its events: the byte budgets of the queues,
  peer identities, the frame with the carrier, the front of a queue, the end of a pump, and the
  evidence behind an established connection.
\<close>

section \<open>Properties\<close>

text \<open>C13: In every run the byte counts of the two queues are exactly the charges of what they hold,
  a delivery in progress included, and neither ever exceeds 64 KiB.\<close>

theorem queue_budgets:
  assumes "mp_reachable lay sy"
  shows "ms_outgoing_bytes (sy_service sy) = outgoing_total lay (sy_service sy) \<and>
    ms_outgoing_bytes (sy_service sy) \<le> 65536 \<and>
    ms_incoming_bytes (sy_service sy) = incoming_total lay (sy_service sy) + delivery_charge lay (sy_delivery sy) \<and>
    ms_incoming_bytes (sy_service sy) \<le> 65536"
  using reachable_budgets [OF assms] by (simp_all add: system_budgets_def budgets_def kQueueBytes_def)

theorem queue_budgets_witness:
  "outgoing_total sample_layout (sample_service [sample_conn Established 5 7 [sample_message]] 43 True) = 43"
  using queue_budgets [OF sample_reachable] by (simp add: sample_system_def)

text \<open>Live connections have distinct IDs, none above the process-wide counter, and an event gives a
  connection either an ID that was live already or one above every ID handed out before: no ID is used
  twice.\<close>

theorem peer_ids_unique:
  assumes "mp_reachable lay sy" and "mp_allowed sy event"
  shows "distinct (live_ids (sy_service sy)) \<and>
    set (live_ids (sy_service sy)) \<subseteq> {..ms_next_peer (sy_service sy)} \<and>
    set (live_ids (sy_service (mp_step lay sy event))) \<subseteq>
      set (live_ids (sy_service sy)) \<union> {ms_next_peer (sy_service sy)<..ms_next_peer (sy_service (mp_step lay sy event))}"
proof -
  have ids: "distinct (live_ids st) \<and> set (live_ids st) \<subseteq> {..ms_next_peer st}" if "service_ok st" for st
    using that by (auto simp: service_ok_def conns_ok_def live_ids_def list_all_iff conn_ok_def split: if_splits)
  have ok: "mp_ok sy" by (rule reachable_ok [OF assms(1)])
  note keeps = mp_step_keeps [OF ok assms(2), of lay]
  have "distinct (live_ids (sy_service sy)) \<and> set (live_ids (sy_service sy)) \<subseteq> {..ms_next_peer (sy_service sy)}"
    using ids ok by (simp add: mp_ok_def)
  moreover have "service_ok (sy_service (mp_step lay sy event))" using keeps by (simp add: mp_keeps_def mp_ok_def)
  then have "set (live_ids (sy_service (mp_step lay sy event))) \<subseteq>
      set (live_ids (sy_service sy)) \<union> {ms_next_peer (sy_service sy)<..ms_next_peer (sy_service (mp_step lay sy event))}"
    using ids keeps unfolding mp_keeps_def ids_fresh_def by fastforce
  ultimately show ?thesis by blast
qed

theorem peer_ids_unique_witness:
  "set (live_ids (sy_service (mp_step sample_layout (sample_system [sample_conn Established 5 7 [sample_message]] 43 (Some sample_data))
      (EvConnect 4 None 3 98 None False)))) \<subseteq>
    {1} \<union> {2<..ms_next_peer (sy_service (mp_step sample_layout
      (sample_system [sample_conn Established 5 7 [sample_message]] 43 (Some sample_data)) (EvConnect 4 None 3 98 None False)))}"
  using peer_ids_unique [OF sample_reachable, of "EvConnect 4 None 3 98 None False"]
  by (simp del: mp_step.simps add: sample_system_def live_ids_def sample_service_def)

text \<open>C14: While a Data frame is with the carrier, whatever other threads do, the message it carries stays
  at the front of its connection unless its feature has failed there: when the carrier accepts the frame,
  exactly that message is removed, and nothing when it has been discarded already.\<close>

theorem accepted_message_removed:
  assumes "mp_reachable lay sy" and "sy_pump sy = Some sm" and "sm_data sm = Some address"
    and "connection_index (sy_service sy) (sm_peer sm) = Some k"
  shows "\<exists>f m rest. feature_at (sy_service sy) address = Some f \<and> om_feature m = address \<and>
    parse (sm_frame sm) = Some (data_frame (sm_tokens sm) (ft_id f) (om_bytes m)) \<and>
    (cn_outgoing (conn (sy_service sy) k) = m # rest \<and>
       ms_connections (accept_submission lay sm k (sy_service sy)) =
         (ms_connections (sy_service sy))[k := (conn (sy_service sy) k)\<lparr>cn_outgoing := rest\<rparr>] \<or>
     failed_for (conn (sy_service sy) k) (ft_id f) \<and> accept_submission lay sm k (sy_service sy) = sy_service sy)"
proof -
  let ?st = "sy_service sy" and ?c = "conn (sy_service sy) k"
  have k: "k < length (ms_connections ?st)" "cn_id ?c = sm_peer sm" using connection_index_less [OF assms(4)] by simp_all
  have "flight_ok ?st sm" using reachable_ok [OF assms(1)] assms(2) by (simp add: mp_ok_def)
  then obtain f m where fm: "feature_at ?st address = Some f" "om_feature m = address"
      "sm_frame sm = frame_bytes (data_frame (sm_tokens sm) (ft_id f) (om_bytes m))"
      "well_formed_frame (data_frame (sm_tokens sm) (ft_id f) (om_bytes m))"
      "sm_phase sm = Established" "sm_notice sm = []" "\<not> sm_whole sm" and "still_front ?st m (ft_id f) ?c"
    using assms(3) k by (auto simp: flight_ok_def conn_def)
  then have p: "parse (sm_frame sm) = Some (data_frame (sm_tokens sm) (ft_id f) (om_bytes m))"
    by (simp add: parse_frame_bytes)
  from \<open>still_front ?st m (ft_id f) ?c\<close> show ?thesis
    unfolding still_front_def
  proof
    assume "\<exists>rest. cn_outgoing ?c = m # rest"
    then obtain rest where "cn_outgoing ?c = m # rest" by blast
    with fm p show ?thesis
      by (intro exI [of _ f] exI [of _ m] exI [of _ rest])
        (simp add: accept_submission_def drop_front_def Let_def assms(3))
  next
    assume gone: "(\<forall>m' \<in> set (cn_outgoing ?c). message_id ?st m' \<noteq> Some (ft_id f)) \<and> failed_for ?c (ft_id f)"
    then have "\<forall>m' \<in> set (cn_outgoing ?c). om_feature m' \<noteq> address" using fm(1) by (auto simp: message_id_def)
    then have "accept_submission lay sm k ?st = ?st"
      using fm assms(3) by (auto simp: accept_submission_def Let_def split: list.split)
    with gone fm p show ?thesis by blast
  qed
qed

theorem accepted_message_removed_witness:
  "\<exists>f m rest. feature_at (sample_service [sample_conn Established 5 7 [sample_message]] 43 True) 0 = Some f \<and> om_feature m = 0 \<and>
    parse (sm_frame sample_data) = Some (data_frame (sm_tokens sample_data) (ft_id f) (om_bytes m)) \<and>
    (cn_outgoing (sample_conn Established 5 7 [sample_message]) = m # rest \<and>
       ms_connections (accept_submission sample_layout sample_data 0 (sample_service [sample_conn Established 5 7 [sample_message]] 43 True)) =
         [sample_conn Established 5 7 rest] \<or>
     failed_for (sample_conn Established 5 7 [sample_message]) (ft_id f) \<and>
       accept_submission sample_layout sample_data 0 (sample_service [sample_conn Established 5 7 [sample_message]] 43 True) =
       sample_service [sample_conn Established 5 7 [sample_message]] 43 True)"
  using accepted_message_removed [OF sample_reachable, of sample_data 0 0] by (simp add: sample_system_def sample_data_def)

text \<open>C16: The queue of an established remote connection never blocks: with no failure to tell, the pump
  either sends the message at the front, in a well-formed frame with its exact identifier and bytes, or
  drops it because its feature is no longer agreed.\<close>

theorem front_always_handled:
  assumes "mp_reachable lay sy" and "ms_remote_available (sy_service sy)" and "k < length (ms_connections (sy_service sy))"
    and "\<not> cn_local (conn (sy_service sy) k)" and "cn_outgoing (conn (sy_service sy) k) = m # rest"
    and "\<not> cn_whole_notice (conn (sy_service sy) k)" and "List.find fa_notice_pending (cn_paths (conn (sy_service sy) k)) = None"
  shows "\<exists>f. feature_at (sy_service sy) (om_feature m) = Some f \<and>
    prepare (sy_service sy) (conn (sy_service sy) k) =
      (if agreement_locked (sy_service sy) f (om_peer m) = Compatible
       then Frame (frame_bytes (data_frame \<lparr>tok_client = cn_client_token (conn (sy_service sy) k),
              tok_host = cn_host_token (conn (sy_service sy) k)\<rparr> (ft_id f) (om_bytes m))) [] False (Some (om_feature m))
       else DropFront) \<and>
    well_formed_frame (data_frame \<lparr>tok_client = cn_client_token (conn (sy_service sy) k),
      tok_host = cn_host_token (conn (sy_service sy) k)\<rparr> (ft_id f) (om_bytes m))"
proof -
  let ?st = "sy_service sy" and ?c = "conn (sy_service sy) k"
  have ok: "features_ok ?st" "conns_ok ?st" using reachable_ok [OF assms(1)] by (simp_all add: mp_ok_def service_ok_def)
  have c: "conn_ok ?st ?c" by (rule conn_ok_at [OF ok(2) assms(3)])
  have live: "cn_id ?c \<noteq> 0" using outgoing_live [OF ok(2) assms(3)] assms(5) by simp
  have phase: "cn_phase ?c = Established" and tokens: "cn_client_token ?c \<noteq> 0" "cn_host_token ?c \<noteq> 0"
    and m: "message_ok ?st m"
    using c live assms(4,5) by (auto simp: conn_ok_def tokens_ok_def)
  from m obtain f where f: "feature_at ?st (om_feature m) = Some f" "ft_frozen f \<noteq> 0"
      "length (om_bytes m) \<le> payload_capacity (ft_id f)" by (auto simp: message_ok_def)
  then have id: "valid_feature_id (ft_id f)" "length (ft_id f) \<le> 2023"
    using feature_at_ok [OF ok(1) f(1)] assms(2) by (simp_all add: feature_ok_def)
  then have wf: "well_formed_frame (data_frame \<lparr>tok_client = cn_client_token ?c, tok_host = cn_host_token ?c\<rparr> (ft_id f) (om_bytes m))"
    using f(3) tokens by (auto simp: data_frame_def well_formed_data_iff valid_tokens.simps payload_capacity_def protocol_constants)
  then show ?thesis
    using f(1) phase assms(5-7)
    by (intro exI [of _ f]) (simp add: prepare_def Let_def prepare_data_def encode_data_eq encoded_framed data_frame_def)
qed

theorem front_always_handled_witness:
  "\<exists>f. feature_at (sample_service [sample_conn Established 5 7 [sample_message]] 43 True) 0 = Some f \<and>
    prepare (sample_service [sample_conn Established 5 7 [sample_message]] 43 True) (sample_conn Established 5 7 [sample_message]) =
      (if agreement_locked (sample_service [sample_conn Established 5 7 [sample_message]] 43 True) f 1 = Compatible
       then Frame (frame_bytes (data_frame \<lparr>tok_client = 5, tok_host = 7\<rparr> (ft_id f) [1, 2, 3])) [] False (Some 0)
       else DropFront) \<and>
    well_formed_frame (data_frame \<lparr>tok_client = 5, tok_host = 7\<rparr> (ft_id f) [1, 2, 3])"
  using front_always_handled [OF sample_reachable, of 0 sample_message "[]"]
  by (simp add: sample_system_def sample_message_def new_path_def)

text \<open>C15: A pump ends: after at most sixteen answers of the carrier, with any other events in between, no
  frame is with it and the flag that keeps other pumps away is clear again.\<close>

theorem pump_finishes:
  assumes "mp_reachable lay sy" and "allowed_events (mp_step lay) mp_allowed sy es"
    and "list_all (\<lambda>e. \<not> is_pump e) es" and "16 \<le> length (filter is_submitted es)"
  shows "sy_pump (run_events (mp_step lay) sy es) = None \<and> \<not> ms_pumping (sy_service (run_events (mp_step lay) sy es))"
proof -
  have ok: "mp_ok sy" by (rule reachable_ok [OF assms(1)])
  then have ok': "mp_ok (run_events (mp_step lay) sy es)" using assms(2) by (rule mp_runs.inv_run)
  have "submissions_left (run_events (mp_step lay) sy es) = 0"
    using submissions_left_run [OF ok assms(2,3)] submissions_left_bounds [OF ok] assms(4) by linarith
  then show ?thesis using ok' submissions_left_bounds [OF ok'] by (simp add: mp_ok_def)
qed

theorem pump_finishes_witness:
  "sy_pump (run_events (mp_step sample_layout) (sample_system [sample_conn Established 5 7 [sample_message]] 43 (Some sample_data))
     (replicate 16 (EvSubmitted (\<lambda>n. True) True CarrierAccepted))) = None"
proof -
  have "allowed_events (mp_step lay) mp_allowed sy (replicate n (EvSubmitted f True CarrierAccepted))" for lay sy n f
    by (induction n arbitrary: sy) (simp_all del: mp_step.simps)
  then show ?thesis
    using pump_finishes [OF sample_reachable, of "replicate 16 (EvSubmitted (\<lambda>n. True) True CarrierAccepted)"]
    by (simp del: run_events.simps add: list_all_iff)
qed

text \<open>C17: A connection becomes established in exactly three ways, whatever event comes in whatever reachable state. A host
  receives, from the connection's own peer and before its deadline, a Ready frame with exactly the two tokens of this connection,
  while it submits its Welcome or waits for the Ready. Or the carrier accepts the Ready frame that the pump submitted for this
  connection with its two tokens while it is still submitting it, which is how a client ends its side. Or a host opens the connection of its own endpoint.
  A connection that is established afterwards in any other way was established before.\<close>

theorem established_by_ready:
  assumes "mp_reachable lay sy" and "st = sy_service sy" and "st' = sy_service (mp_step lay sy event)"
    and "k < length (ms_connections st')" and "established (conn st' k)" and "\<not> was_established st k (conn st' k)"
  shows "(\<exists>memory random bytes now. event = EvReceive memory random True (cn_raw (conn st k)) bytes now \<and>
      ms_mode st \<noteq> GameClient \<and> k < length (ms_connections st) \<and> same_peer (conn st k) (conn st' k) \<and> \<not> cn_local (conn st k) \<and>
      (cn_phase (conn st k) = PhaseWelcome \<or> cn_phase (conn st k) = AwaitReady) \<and> now < cn_deadline (conn st k) \<and>
      parse bytes = Some \<lparr>pf_kind = Message_Protocol.Ready,
        pf_tokens = \<lparr>tok_client = cn_client_token (conn st k), tok_host = cn_host_token (conn st k)\<rparr>,
        pf_manifest = [], pf_feature = [], pf_payload = []\<rparr>) \<or>
    (\<exists>memory carrier sm. event = EvSubmitted memory carrier CarrierAccepted \<and> sy_pump sy = Some sm \<and>
      k < length (ms_connections st) \<and> same_peer (conn st k) (conn st' k) \<and> cn_phase (conn st k) = PhaseReady \<and>
      sm_peer sm = cn_id (conn st k) \<and> sm_frame sm = frame_bytes \<lparr>pf_kind = Message_Protocol.Ready,
        pf_tokens = \<lparr>tok_client = cn_client_token (conn st k), tok_host = cn_host_token (conn st k)\<rparr>,
        pf_manifest = [], pf_feature = [], pf_payload = []\<rparr>) \<or>
    (\<exists>now random user_id. event = EvConnect now random (cn_native_slot (conn st' k)) (cn_raw (conn st' k)) user_id True \<and>
      ms_selected st \<and> ms_mode st = GameHost \<and> cn_local (conn st' k) \<and> cn_id (conn st' k) = ms_next_peer st + 1)"
proof -
  have moving: "\<not> calm st st'" using assms(4-6) by (auto simp: calm_def)
  then consider (received) memory random server sender bytes now where "event = EvReceive memory random server sender bytes now"
    | (connected) now random slot raw_address user_id is_local where "event = EvConnect now random slot raw_address user_id is_local"
    | (submitted) memory carrier result where "event = EvSubmitted memory carrier result"
    using calm_step [of event sy lay] unfolding assms(2,3) by blast
  then show ?thesis
  proof cases
    case received
    then have st': "st' = receive lay memory random server sender bytes now st" by (simp add: assms(2,3))
    obtain j frame where j: "parse bytes = Some frame" "server" "ms_mode st \<noteq> GameClient" "completes frame (conn st j)"
      "\<not> cn_local (conn st j)" "cn_raw (conn st j) = sender" "now < cn_deadline (conn st j)"
      "ms_connections st' = (ms_connections st)[j := (conn st j)\<lparr>cn_phase := Established\<rparr>]"
      using receive_calm [of st lay memory random server sender bytes now] moving unfolding st' by blast
    note here = established_at [OF j(8) calm_refl assms(4-6)]
    have "frame = \<lparr>pf_kind = Message_Protocol.Ready,
        pf_tokens = \<lparr>tok_client = cn_client_token (conn st j), tok_host = cn_host_token (conn st j)\<rparr>,
        pf_manifest = [], pf_feature = [], pf_payload = []\<rparr>"
      using j(4) ready_frame [OF j(1)] by (cases frame) (simp add: completes_def)
    then show ?thesis using received j here by (auto simp: completes_def)
  next
    case connected
    then have st': "st' = connect lay now random slot raw_address user_id is_local st" by (simp add: assms(2,3))
    show ?thesis using connect_establishes [of k lay now random slot raw_address user_id is_local st] assms(4-6) connected
      unfolding st' by auto
  next
    case submitted
    obtain sm where sm: "sy_pump sy = Some sm" using moving submitted by (cases "sy_pump sy") (auto simp: assms(2,3))
    then have st': "st' = snd (pump_resume lay memory carrier result sm st)" using submitted by (simp add: assms(2,3) case_prod_beta)
    obtain j st1 where j: "result = CarrierAccepted" "cn_id (conn st j) = sm_peer sm" "sm_phase sm = PhaseReady" "cn_phase (conn st j) = PhaseReady"
      "sm_tokens sm = \<lparr>tok_client = cn_client_token (conn st j), tok_host = cn_host_token (conn st j)\<rparr>"
      "ms_connections st1 = (ms_connections st)[j := (conn st j)\<lparr>cn_phase := Established\<rparr>]" "calm st1 st'"
      using pump_resume_calm [of st lay memory carrier result sm] moving unfolding st' by blast
    note here = established_at [OF j(6,7) assms(4-6)]
    show ?thesis using submitted sm j here reachable_sent [OF assms(1) sm] by (auto simp: ready_sent_def ready_bytes_def)
  qed
qed

text \<open>The sample run up to the client's Ready frame.\<close>

lemma sample_waiting: "mp_reachable sample_layout (sample_system [sample_conn AwaitReady 5 7 []] 0 None)"
proof -
  let ?events = "sample_begin @ sample_connect @ [EvSubmitted (\<lambda>n. True) True CarrierAccepted]"
  have "run_events (mp_step sample_layout) sample_start ?events = sample_system [sample_conn AwaitReady 5 7 []] 0 None"
    by (simp del: mp_step.simps One_nat_def add: run_events_append sample_begun sample_connect_def sample_connected
      sample_received sample_pumped sample_accepted)
  moreover have "allowed_events (mp_step sample_layout) mp_allowed sample_start ?events"
    by (simp del: mp_step.simps add: sample_begin_def sample_connect_def sample_owner_def sample_start_def initial_system_def initial_service_def)
  ultimately show ?thesis unfolding mp_reachable_def sample_start_def by metis
qed

theorem established_by_ready_witness:
  "\<not> established (conn (sy_service (sample_system [sample_conn AwaitReady 5 7 []] 0 None)) 0) \<and>
   established (conn (sy_service (mp_step sample_layout (sample_system [sample_conn AwaitReady 5 7 []] 0 None)
     (EvReceive True None True 99 (frame_bytes (sample_frame Message_Protocol.Ready 7 [])) 2))) 0) \<and>
   parse (frame_bytes (sample_frame Message_Protocol.Ready 7 [])) = Some \<lparr>pf_kind = Message_Protocol.Ready,
     pf_tokens = \<lparr>tok_client = 5, tok_host = 7\<rparr>, pf_manifest = [], pf_feature = [], pf_payload = []\<rparr>"
proof -
  let ?sy = "sample_system [sample_conn AwaitReady 5 7 []] 0 None"
  let ?event = "EvReceive True None True 99 (frame_bytes (sample_frame Message_Protocol.Ready 7 [])) 2"
  have before: "sy_service ?sy = sample_service [sample_conn AwaitReady 5 7 []] 0 False"
    and after: "sy_service (mp_step sample_layout ?sy ?event) = sample_service [sample_conn Established 5 7 []] 0 False"
    unfolding sample_readied by (simp_all add: sample_system_def)
  have now: "established (sample_conn Established 5 7 [])" "\<not> established (sample_conn AwaitReady 5 7 [])"
    "\<not> was_established (sample_service [sample_conn AwaitReady 5 7 []] 0 False) 0 c" for c
    by (simp_all add: established_def was_established_def conn_def)
  then show ?thesis
    using established_by_ready [OF sample_waiting before [symmetric] after [symmetric], of 0]
    unfolding before after by (auto simp: conn_def)
qed

end
