(* ===== verification/Native_Address.thy ===== *)
theory Native_Address
  imports Ini
begin

text \<open>
  Addresses of native code (\<open>runtime/src/native/native_address.cpp\<close>), the encoding of operand and
  address fields (\<open>encode_field\<close> of \<open>native/validation.cpp\<close>), and the search for memory near an address
  (\<open>native/native_allocation.cpp\<close>). An address is a natural number up to the greatest \<open>uintptr_t\<close>, a
  displacement the integer of its \<open>int32_t\<close>, and an unsigned 64-bit value a natural number below
  \<open>2 ^ 64\<close>; what wraps in the code is written with \<open>mod\<close>.
\<close>

section \<open>Relative addresses\<close>

datatype FC_Architecture = FC_ARCH_X86 | FC_ARCH_X64

definition address_max :: "FC_Architecture \<Rightarrow> nat" where
  "address_max arch = (case arch of FC_ARCH_X86 \<Rightarrow> 2 ^ 32 - 1 | FC_ARCH_X64 \<Rightarrow> 2 ^ 64 - 1)"

text \<open>The \<open>bits\<close>-wide two's complement number with the bit pattern of an integer.\<close>

definition signed_bits :: "nat \<Rightarrow> int \<Rightarrow> int" where
  "signed_bits bits i = (let v = i mod 2 ^ bits in if v < 2 ^ (bits - 1) then v else v - 2 ^ bits)"

definition decode_rel32_target :: "nat \<Rightarrow> int \<Rightarrow> FC_Architecture \<Rightarrow> nat option" where
  "decode_rel32_target next_address displacement arch =
    (if arch = FC_ARCH_X86 then Some (nat ((int next_address + displacement) mod 2 ^ 32))
     else if displacement \<ge> 0
     then (let distance = nat displacement
           in if next_address > address_max FC_ARCH_X64 - distance then None else Some (next_address + distance))
     else (let distance = nat (- displacement)
           in if next_address < distance then None else Some (next_address - distance)))"

definition encode_rel32 :: "nat \<Rightarrow> nat \<Rightarrow> FC_Architecture \<Rightarrow> int option" where
  "encode_rel32 next_address target arch =
    (if arch = FC_ARCH_X86 then Some (signed_bits 32 (int target - int next_address))
     else if target \<ge> next_address
     then (let distance = target - next_address in if distance > 2 ^ 31 - 1 then None else Some (int distance))
     else (let distance = next_address - target in if distance > (2 ^ 31 - 1) + 1 then None else Some (- int distance)))"

lemma signed_bits_half:
  assumes "0 < bits"
  shows "signed_bits bits i =
    (if i mod (2 * 2 ^ (bits - 1)) < 2 ^ (bits - 1) then i mod (2 * 2 ^ (bits - 1))
     else i mod (2 * 2 ^ (bits - 1)) - 2 * 2 ^ (bits - 1))"
  using assms by (cases bits) (simp_all add: signed_bits_def Let_def)

lemma signed_bits_range:
  assumes "0 < bits"
  shows "- (2 ^ (bits - 1)) \<le> signed_bits bits i \<and> signed_bits bits i < 2 ^ (bits - 1)"
proof -
  define h :: int where "h = 2 ^ (bits - 1)"
  have "0 < h" by (simp add: h_def)
  then have "0 \<le> i mod (2 * h)" "i mod (2 * h) < 2 * h" by simp_all
  then show ?thesis unfolding signed_bits_half [OF assms] h_def [symmetric] by auto
qed

lemma signed_bits_mod: "signed_bits bits i mod 2 ^ bits = i mod 2 ^ bits"
  by (simp add: signed_bits_def Let_def)

lemma signed_bits_id:
  assumes "0 < bits" and "- (2 ^ (bits - 1)) \<le> i" and "i < 2 ^ (bits - 1)"
  shows "signed_bits bits i = i"
proof -
  define h :: int where "h = 2 ^ (bits - 1)"
  have h: "- h \<le> i" "i < h" using assms by (simp_all add: h_def)
  show ?thesis
  proof (cases "0 \<le> i")
    case True
    then have "i mod (2 * h) = i" using h by simp
    then show ?thesis using h unfolding signed_bits_half [OF assms(1)] h_def [symmetric] by simp
  next
    case False
    have "(i + 2 * h) mod (2 * h) = i + 2 * h" using h False by (intro mod_pos_pos_trivial) auto
    then have "i mod (2 * h) = i + 2 * h" by simp
    then show ?thesis using h False unfolding signed_bits_half [OF assms(1)] h_def [symmetric] by simp
  qed
qed

lemma mod_sum_difference:
  fixes d a v m :: int
  assumes "d mod m = (v - a) mod m"
  shows "(a + d) mod m = v mod m"
proof -
  have "(a + d) mod m = (a + d mod m) mod m" by (simp only: mod_add_right_eq)
  also have "\<dots> = (a + (v - a)) mod m" unfolding assms by (simp only: mod_add_right_eq)
  finally show ?thesis by simp
qed

text \<open>The encoder and the decoder are inverse to each other, on both architectures.\<close>

lemma rel32_x64:
  assumes "next_address \<le> address_max FC_ARCH_X64" and "target \<le> address_max FC_ARCH_X64"
    and "- (2 ^ 31) \<le> displacement" and "displacement < 2 ^ 31"
  shows "decode_rel32_target next_address displacement FC_ARCH_X64 = Some target \<longleftrightarrow>
    encode_rel32 next_address target FC_ARCH_X64 = Some displacement"
  using assms
  by (auto simp: decode_rel32_target_def encode_rel32_def Let_def address_max_def)

lemma rel32_x86:
  assumes "next_address \<le> address_max FC_ARCH_X86" and "target \<le> address_max FC_ARCH_X86"
    and "- (2 ^ 31) \<le> displacement" and "displacement < 2 ^ 31"
  shows "decode_rel32_target next_address displacement FC_ARCH_X86 = Some target \<longleftrightarrow>
    encode_rel32 next_address target FC_ARCH_X86 = Some displacement"
proof
  assume "decode_rel32_target next_address displacement FC_ARCH_X86 = Some target"
  then have t: "int target = (int next_address + displacement) mod 2 ^ 32"
    by (auto simp: decode_rel32_target_def)
  have "signed_bits 32 (int target - int next_address) = signed_bits 32 displacement"
    unfolding signed_bits_def Let_def t by (simp add: mod_diff_left_eq)
  also have "\<dots> = displacement" by (rule signed_bits_id) (use assms in simp_all)
  finally show "encode_rel32 next_address target FC_ARCH_X86 = Some displacement" by (simp add: encode_rel32_def)
next
  assume "encode_rel32 next_address target FC_ARCH_X86 = Some displacement"
  then have "displacement mod 2 ^ 32 = (int target - int next_address) mod 2 ^ 32"
    using signed_bits_mod [of 32] by (auto simp: encode_rel32_def)
  then have "(int next_address + displacement) mod 2 ^ 32 = int target mod 2 ^ 32"
    by (rule mod_sum_difference)
  also have "\<dots> = int target" using assms(2) by (simp add: address_max_def)
  finally show "decode_rel32_target next_address displacement FC_ARCH_X86 = Some target"
    by (simp add: decode_rel32_target_def)
qed

section \<open>Fields\<close>

text \<open>
  The value of a field of \<open>width\<close> bytes: a scalar read as an \<open>int64_t\<close> when its author says so, or an
  address, absolute or measured from the end of the field or instruction.
\<close>

definition signed_fit :: "string" where
  "signed_fit = ''Native operand value does not fit its signed encoding''"

definition unsigned_fit :: "string" where
  "unsigned_fit = ''Native operand value does not fit its unsigned encoding''"

definition encode_field :: "nat \<Rightarrow> bool \<Rightarrow> nat \<Rightarrow> bool \<Rightarrow> bool \<Rightarrow> bool \<Rightarrow> nat \<Rightarrow> FC_Architecture \<Rightarrow> string + nat" where
  "encode_field width encoded_signed v signed_value address_value relative end_address arch =
    (let bits = width * 8
     in if address_value \<and> relative
        then
          (if width = 4
           then (case encode_rel32 end_address v arch of
                   Some displacement \<Rightarrow> Inr (nat (displacement mod 2 ^ 32))
                 | None \<Rightarrow> Inl ''Native displacement is outside its encoding range'')
           else
             (let distance = (if v \<ge> end_address then v - end_address else end_address - v);
                  maximum = (if bits = 64 then 2 ^ 63 - 1 else 2 ^ (bits - 1) - 1)
              in if distance > maximum + (if v < end_address then 1 else 0)
                 then Inl ''Native address displacement does not fit its signed encoding''
                 else Inr (if v \<ge> end_address then distance else 2 ^ 64 - distance)))
        else
          (let number = signed_bits 64 (int v)
           in if encoded_signed
              then
                (let maximum = (if bits = 64 then 2 ^ 63 - 1 else 2 ^ (bits - 1) - 1);
                     minimum = (if bits = 64 then - (2 ^ 63) else - (2 ^ (bits - 1)))
                 in if (\<not> signed_value \<and> int v > maximum) \<or> (signed_value \<and> (number < minimum \<or> number > maximum))
                    then Inl signed_fit else Inr v)
              else if (signed_value \<and> number < 0) \<or> (bits < 64 \<and> v > 2 ^ bits - 1)
              then Inl unsigned_fit else Inr v))"

text \<open>What the processor reads back from the field's bytes.\<close>

definition field_number :: "nat \<Rightarrow> bool \<Rightarrow> nat \<Rightarrow> int" where
  "field_number width encoded_signed v =
    (if encoded_signed then signed_bits (width * 8) (int v) else int v mod 2 ^ (width * 8))"

definition scalar_number :: "bool \<Rightarrow> nat \<Rightarrow> int" where
  "scalar_number signed_value v = (if signed_value then signed_bits 64 (int v) else int v)"

lemma signed_bits_cong: "i mod 2 ^ bits = j mod 2 ^ bits \<Longrightarrow> signed_bits bits i = signed_bits bits j"
  by (simp add: signed_bits_def)

lemma signed_bits_narrow:
  assumes "bits \<le> 64"
  shows "signed_bits bits (int v) = signed_bits bits (signed_bits 64 (int v))"
proof (rule signed_bits_cong)
  have d: "(2 :: int) ^ bits dvd 2 ^ 64" using assms by (rule le_imp_power_dvd)
  have "signed_bits 64 (int v) mod 2 ^ bits = (signed_bits 64 (int v) mod 2 ^ 64) mod 2 ^ bits"
    by (rule mod_mod_cancel [OF d, symmetric])
  also have "\<dots> = (int v mod 2 ^ 64) mod 2 ^ bits" unfolding signed_bits_mod ..
  also have "\<dots> = int v mod 2 ^ bits" by (rule mod_mod_cancel [OF d])
  finally show "int v mod 2 ^ bits = signed_bits 64 (int v) mod 2 ^ bits" by simp
qed

lemma field_signed_reaches:
  assumes "width \<in> {1, 2, 4, 8}"
  shows "(\<exists>f. field_number width True f = i) \<longleftrightarrow> - (2 ^ (width * 8 - 1)) \<le> i \<and> i < 2 ^ (width * 8 - 1)"
proof
  assume "\<exists>f. field_number width True f = i"
  then show "- (2 ^ (width * 8 - 1)) \<le> i \<and> i < 2 ^ (width * 8 - 1)"
    using signed_bits_range [of "width * 8"] assms by (auto simp: field_number_def)
next
  assume i: "- (2 ^ (width * 8 - 1)) \<le> i \<and> i < 2 ^ (width * 8 - 1)"
  have "field_number width True (nat (i mod 2 ^ (width * 8))) = signed_bits (width * 8) i"
    by (auto simp: field_number_def intro: signed_bits_cong)
  also have "\<dots> = i" using i assms by (intro signed_bits_id) auto
  finally show "\<exists>f. field_number width True f = i" by blast
qed

lemma field_unsigned_reaches: "(\<exists>f. field_number width False f = i) \<longleftrightarrow> 0 \<le> i \<and> i < 2 ^ (width * 8)"
proof
  assume "0 \<le> i \<and> i < 2 ^ (width * 8)"
  then have "field_number width False (nat i) = i" by (simp add: field_number_def)
  then show "\<exists>f. field_number width False f = i" by blast
qed (auto simp: field_number_def)

text \<open>A scalar is refused exactly when no field reads back as its number, and accepted as the field that does.\<close>

lemma scalar_signed:
  assumes "width \<in> {1, 2, 4, 8}"
  shows "encode_field width True v signed_value False relative end_address arch =
    (if - (2 ^ (width * 8 - 1)) \<le> scalar_number signed_value v \<and> scalar_number signed_value v < 2 ^ (width * 8 - 1)
     then Inr v else Inl signed_fit)"
  using assms by (auto simp: encode_field_def Let_def scalar_number_def)

lemma scalar_unsigned:
  assumes "width \<in> {1, 2, 4, 8}" and "v < 2 ^ 64"
  shows "encode_field width False v signed_value False relative end_address arch =
    (if 0 \<le> scalar_number signed_value v \<and> scalar_number signed_value v < 2 ^ (width * 8)
     then Inr v else Inl unsigned_fit)"
proof -
  have "signed_bits 64 (int v) = (if v < 2 ^ 63 then int v else int v - 2 ^ 64)"
    using assms(2) by (simp add: signed_bits_def Let_def)
  then show ?thesis using assms by (auto simp: encode_field_def Let_def scalar_number_def)
qed

lemma scalar_reads_back:
  assumes "width \<in> {1, 2, 4, 8}" and "v < 2 ^ 64"
    and "encode_field width encoded_signed v signed_value False relative end_address arch = Inr e"
  shows "field_number width encoded_signed e = scalar_number signed_value v"
proof (cases encoded_signed)
  case True
  then have e: "e = v" and r: "- (2 ^ (width * 8 - 1)) \<le> scalar_number signed_value v"
      "scalar_number signed_value v < 2 ^ (width * 8 - 1)"
    using assms(3) scalar_signed [OF assms(1)] by (auto split: if_splits)
  have "signed_bits (width * 8) (int v) = signed_bits (width * 8) (scalar_number signed_value v)"
    using signed_bits_narrow [of "width * 8" v] assms(1) by (auto simp: scalar_number_def)
  also have "\<dots> = scalar_number signed_value v" using assms(1) r by (intro signed_bits_id) auto
  finally show ?thesis using True e by (simp add: field_number_def)
next
  case False
  then have e: "e = v" and r: "0 \<le> scalar_number signed_value v" "scalar_number signed_value v < 2 ^ (width * 8)"
    using assms(3) scalar_unsigned [OF assms(1,2)] by (auto split: if_splits)
  have "scalar_number signed_value v = int v"
    using r(1) assms(2) by (auto simp: scalar_number_def signed_bits_def Let_def split: if_splits)
  then show ?thesis using False e r by (simp add: field_number_def)
qed

lemma scalar_refused:
  assumes "width \<in> {1, 2, 4, 8}" and "v < 2 ^ 64"
    and "encode_field width encoded_signed v signed_value False relative end_address arch = Inl message"
  shows "field_number width encoded_signed f \<noteq> scalar_number signed_value v"
proof
  assume f: "field_number width encoded_signed f = scalar_number signed_value v"
  show False
  proof (cases encoded_signed)
    case True
    then have "- (2 ^ (width * 8 - 1)) \<le> scalar_number signed_value v \<and> scalar_number signed_value v < 2 ^ (width * 8 - 1)"
      using f field_signed_reaches [OF assms(1), of "scalar_number signed_value v"] by auto
    then show False using assms(3) True scalar_signed [OF assms(1)] by simp
  next
    case False
    then have "0 \<le> scalar_number signed_value v \<and> scalar_number signed_value v < 2 ^ (width * 8)"
      using f field_unsigned_reaches [of width "scalar_number signed_value v"] by auto
    then show False using assms(3) False scalar_unsigned [OF assms(1,2)] by simp
  qed
qed

text \<open>A relative address is measured from the end of the field, and lands on its target.\<close>

lemma relative_short:
  assumes "v \<le> address_max arch" and "end_address \<le> address_max arch"
    and "encode_field 4 encoded_signed v signed_value True True end_address arch = Inr e"
  shows "(int end_address + field_number 4 True e) mod (int (address_max arch) + 1) = int v"
proof -
  obtain d where d: "encode_rel32 end_address v arch = Some d" and e: "e = nat (d mod 2 ^ 32)"
    using assms(3) by (auto simp: encode_field_def split: option.splits)
  have f: "field_number 4 True e = signed_bits 32 d"
    by (auto simp: field_number_def e intro: signed_bits_cong)
  show ?thesis
  proof (cases arch)
    case FC_ARCH_X86
    have "d mod 2 ^ 32 = (int v - int end_address) mod 2 ^ 32"
      using d signed_bits_mod [of 32] by (auto simp: encode_rel32_def FC_ARCH_X86)
    then have "signed_bits 32 d mod 2 ^ 32 = (int v - int end_address) mod 2 ^ 32" by (simp only: signed_bits_mod)
    then have "(int end_address + signed_bits 32 d) mod 2 ^ 32 = int v mod 2 ^ 32"
      by (rule mod_sum_difference)
    then show ?thesis using assms(1) by (simp add: f FC_ARCH_X86 address_max_def)
  next
    case FC_ARCH_X64
    have r: "- (2 ^ 31) \<le> d" "d < 2 ^ 31" "d = int v - int end_address"
      using d by (auto simp: encode_rel32_def FC_ARCH_X64 Let_def split: if_splits)
    then have "signed_bits 32 d = d" by (intro signed_bits_id) simp_all
    then show ?thesis using r assms(1) by (simp add: f FC_ARCH_X64 address_max_def)
  qed
qed

lemma relative_wide:
  assumes "width \<in> {1, 2, 8}" and "v < 2 ^ 64" and "end_address < 2 ^ 64"
  shows "encode_field width encoded_signed v signed_value True True end_address arch = Inr e \<Longrightarrow>
      int end_address + field_number width True e = int v"
    and "encode_field width encoded_signed v signed_value True True end_address arch = Inl message \<Longrightarrow>
      int end_address + field_number width True f \<noteq> int v"
proof -
  let ?i = "int v - int end_address" and ?bits = "width * 8"
  let ?e = "if v \<ge> end_address then v - end_address else 2 ^ 64 - (end_address - v)"
  have fits: "encode_field width encoded_signed v signed_value True True end_address arch =
      (if - (2 ^ (?bits - 1)) \<le> ?i \<and> ?i < 2 ^ (?bits - 1) then Inr ?e
       else Inl ''Native address displacement does not fit its signed encoding'')"
    using assms(1) by (auto simp: encode_field_def Let_def)
  show "int end_address + field_number width True e = int v"
    if enc: "encode_field width encoded_signed v signed_value True True end_address arch = Inr e"
  proof -
    have r: "- (2 ^ (?bits - 1)) \<le> ?i" "?i < 2 ^ (?bits - 1)" "e = ?e"
      using enc unfolding fits by (auto split: if_splits)
    have "int ?e mod 2 ^ 64 = ?i mod 2 ^ 64"
    proof (cases "v \<ge> end_address")
      case False
      then have "int ?e = ?i + 2 ^ 64" using assms(3) by simp
      then show ?thesis by simp
    qed simp
    then have "(int ?e mod 2 ^ 64) mod 2 ^ ?bits = (?i mod 2 ^ 64) mod 2 ^ ?bits" by (rule arg_cong)
    moreover have d: "(2 :: int) ^ ?bits dvd 2 ^ 64" using assms(1) by (intro le_imp_power_dvd) auto
    ultimately have "int ?e mod 2 ^ ?bits = ?i mod 2 ^ ?bits" by (simp only: mod_mod_cancel [OF d])
    then have "signed_bits ?bits (int ?e) = signed_bits ?bits ?i" by (rule signed_bits_cong)
    also have "\<dots> = ?i" using r assms(1) by (intro signed_bits_id) auto
    finally show ?thesis using r(3) by (simp add: field_number_def)
  qed
  show "int end_address + field_number width True f \<noteq> int v"
    if enc: "encode_field width encoded_signed v signed_value True True end_address arch = Inl message"
  proof -
    have "\<not> (- (2 ^ (?bits - 1)) \<le> ?i \<and> ?i < 2 ^ (?bits - 1))" using enc unfolding fits by (auto split: if_splits)
    moreover have "width \<in> {1, 2, 4, 8}" using assms(1) by auto
    ultimately have "\<not> (\<exists>f. field_number width True f = ?i)" using field_signed_reaches by blast
    then have "field_number width True f \<noteq> ?i" by blast
    then show ?thesis by linarith
  qed
qed

section \<open>Memory near an address\<close>

definition align_down :: "nat \<Rightarrow> nat \<Rightarrow> nat" where
  "align_down v alignment = v - v mod alignment"

definition align_up :: "nat \<Rightarrow> nat \<Rightarrow> nat \<Rightarrow> nat option" where
  "align_up greatest v alignment =
    (let remainder = v mod alignment
     in if remainder = 0 then Some v
        else (let adjustment = alignment - remainder
              in if v \<le> greatest - adjustment then Some (v + adjustment) else None))"

definition within_distance :: "nat \<Rightarrow> nat \<Rightarrow> nat \<Rightarrow> bool" where
  "within_distance left right maximum = (if left \<ge> right then left - right \<le> maximum else right - left \<le> maximum)"

record NearConstraint =
  nc_reference :: nat
  nc_maximum_distance :: nat

text \<open>What the system tells: the step of its allocations and the range of user addresses; and
  \<open>VirtualAlloc\<close>, which gives the base of a reservation for a wanted address, or nothing.\<close>

record system_info =
  si_granularity :: nat
  si_minimum :: nat
  si_maximum :: nat

type_synonym virtual_alloc = "nat \<Rightarrow> nat \<Rightarrow> nat option"

definition try_allocate_at :: "nat \<Rightarrow> virtual_alloc \<Rightarrow> nat \<Rightarrow> nat \<Rightarrow> nat \<Rightarrow> NearConstraint \<Rightarrow> nat option" where
  "try_allocate_at greatest valloc candidate reservation_size alignment constraint =
    (case valloc candidate reservation_size of
       None \<Rightarrow> None
     | Some reservation \<Rightarrow>
         (case align_up greatest reservation alignment of
            None \<Rightarrow> None
          | Some aligned \<Rightarrow>
              if within_distance aligned (nc_reference constraint) (nc_maximum_distance constraint)
              then Some reservation else None))"

definition clamp :: "nat \<Rightarrow> nat \<Rightarrow> nat \<Rightarrow> nat" where
  "clamp v low high = (if v < low then low else if high < v then high else v)"

text \<open>The loop probes on both sides of the first address; \<open>try\<close> is the attempt at one candidate.\<close>

partial_function (option) probe_near :: "nat \<Rightarrow> (nat \<Rightarrow> nat option) \<Rightarrow> nat \<Rightarrow> nat \<Rightarrow> nat \<Rightarrow> nat \<Rightarrow> nat \<Rightarrow> nat option option" where
  "probe_near greatest attempt granularity first lower upper distance =
    (let below = (first \<ge> lower \<and> distance \<le> first - lower);
         above = (first \<le> upper \<and> distance \<le> upper - first)
     in case (if below then attempt (first - distance) else None) of
          Some result \<Rightarrow> Some (Some result)
        | None \<Rightarrow>
            (case (if distance \<noteq> 0 \<and> above then attempt (first + distance) else None) of
               Some result \<Rightarrow> Some (Some result)
             | None \<Rightarrow>
                 if (\<not> below \<and> \<not> above) \<or> distance > greatest - granularity then Some None
                 else probe_near greatest attempt granularity first lower upper (distance + granularity)))"

definition allocate_near :: "nat \<Rightarrow> system_info \<Rightarrow> virtual_alloc \<Rightarrow> nat \<Rightarrow> nat \<Rightarrow> NearConstraint \<Rightarrow> nat option option" where
  "allocate_near greatest info valloc reservation_size alignment wanted =
    (let granularity = si_granularity info; minimum = si_minimum info; maximum = si_maximum info;
         constraint = wanted\<lparr>nc_reference := clamp (nc_reference wanted) minimum maximum\<rparr>;
         reference = nc_reference constraint; reach = nc_maximum_distance constraint;
         first = align_down reference granularity;
         lower = (if reference > reach then max minimum (reference - reach) else minimum);
         upper = (if maximum - reference > reach then reference + reach else maximum)
     in probe_near greatest (\<lambda>candidate. try_allocate_at greatest valloc candidate reservation_size alignment constraint)
          granularity first lower upper 0)"

text \<open>The loop stops for every step above zero, and no candidate in reach is left out.\<close>

lemma probe_near_spec:
  assumes g: "0 < granularity"
  shows "\<exists>r. probe_near greatest attempt granularity first lower upper distance = Some r \<and>
    (case r of
       Some result \<Rightarrow> \<exists>candidate. attempt candidate = Some result
     | None \<Rightarrow> \<forall>n candidate. first \<le> greatest \<longrightarrow> upper \<le> greatest \<longrightarrow> lower \<le> candidate \<longrightarrow> candidate \<le> upper \<longrightarrow>
         first = candidate + (distance + n * granularity) \<or> candidate = first + (distance + n * granularity) \<longrightarrow>
         attempt candidate = None)"
proof (induction "greatest + 1 - distance" arbitrary: distance rule: less_induct)
  case less
  let ?below = "first \<ge> lower \<and> distance \<le> first - lower" and ?above = "first \<le> upper \<and> distance \<le> upper - first"
  let ?down = "if ?below then attempt (first - distance) else None"
  let ?up = "if distance \<noteq> 0 \<and> ?above then attempt (first + distance) else None"
  let ?rest = "if (\<not> ?below \<and> \<not> ?above) \<or> distance > greatest - granularity then Some None
    else probe_near greatest attempt granularity first lower upper (distance + granularity)"
  have step: "probe_near greatest attempt granularity first lower upper distance =
      (case ?down of Some result \<Rightarrow> Some (Some result)
       | None \<Rightarrow> (case ?up of Some result \<Rightarrow> Some (Some result) | None \<Rightarrow> ?rest))"
    by (subst probe_near.simps) (simp only: Let_def)
  consider (down) result where "?down = Some result" | (up) result where "?down = None" "?up = Some result"
    | (none) "?down = None" "?up = None" by (cases ?down; cases ?up) auto
  then show ?case
  proof cases
    case down
    then have "attempt (first - distance) = Some result" by (auto split: if_splits)
    then show ?thesis unfolding step down by auto
  next
    case up
    then have "attempt (first + distance) = Some result" by (auto split: if_splits)
    then show ?thesis unfolding step up by auto
  next
    case none
    have here: "attempt candidate = None"
      if "lower \<le> candidate" "candidate \<le> upper" "first = candidate + distance \<or> candidate = first + distance" for candidate
      using none that by (cases "distance = 0") (auto split: if_splits)
    show ?thesis
    proof (cases "(\<not> ?below \<and> \<not> ?above) \<or> distance > greatest - granularity")
      case stop: True
      have "attempt candidate = None"
        if "first \<le> greatest" "upper \<le> greatest" "lower \<le> candidate" "candidate \<le> upper"
          and at: "first = candidate + (distance + n * granularity) \<or> candidate = first + (distance + n * granularity)"
        for n candidate
      proof (cases n)
        case 0
        then show ?thesis using here that by simp
      next
        case (Suc m)
        have far: "distance + granularity \<le> distance + n * granularity" unfolding Suc by simp
        show ?thesis
        proof (cases "greatest - granularity < distance")
          case True
          then have "greatest < distance + n * granularity" using far by linarith
          then show ?thesis using that by auto
        next
          case False
          then have "\<not> ?below \<and> \<not> ?above" using stop by blast
          moreover have "distance \<le> distance + n * granularity" by simp
          ultimately show ?thesis using that by linarith
        qed
      qed
      then show ?thesis using stop unfolding step none by auto
    next
      case go: False
      have "greatest + 1 - (distance + granularity) < greatest + 1 - distance" using go g by auto
      from less [OF this] obtain r where
        r: "probe_near greatest attempt granularity first lower upper (distance + granularity) = Some r"
        and later: "case r of Some result \<Rightarrow> \<exists>candidate. attempt candidate = Some result
          | None \<Rightarrow> \<forall>n candidate. first \<le> greatest \<longrightarrow> upper \<le> greatest \<longrightarrow> lower \<le> candidate \<longrightarrow> candidate \<le> upper \<longrightarrow>
             first = candidate + (distance + granularity + n * granularity) \<or>
             candidate = first + (distance + granularity + n * granularity) \<longrightarrow> attempt candidate = None"
        by blast
      have start: "probe_near greatest attempt granularity first lower upper distance = Some r"
        unfolding step none using go by (simp only: r if_False option.case simp_thms)
      have none_case: "attempt candidate = None"
        if none_later: "r = None" and "first \<le> greatest" "upper \<le> greatest" "lower \<le> candidate" "candidate \<le> upper"
          and at: "first = candidate + (distance + n * granularity) \<or> candidate = first + (distance + n * granularity)"
        for n candidate
      proof (cases n)
        case 0
        then show ?thesis using here that by simp
      next
        case (Suc m)
        then have "distance + n * granularity = distance + granularity + m * granularity" by simp
        then have shifted: "first = candidate + (distance + granularity + m * granularity) \<or>
            candidate = first + (distance + granularity + m * granularity)" using at by (simp add: add.assoc)
        have none: "\<forall>n candidate. first \<le> greatest \<longrightarrow> upper \<le> greatest \<longrightarrow> lower \<le> candidate \<longrightarrow> candidate \<le> upper \<longrightarrow>
             first = candidate + (distance + granularity + n * granularity) \<or>
             candidate = first + (distance + granularity + n * granularity) \<longrightarrow> attempt candidate = None"
          using later unfolding none_later by (simp only: option.case)
        show ?thesis by (rule none [rule_format, OF that(2-5) shifted])
      qed
      show ?thesis
      proof (cases r)
        case None
        show ?thesis unfolding start None
          by (intro exI [of _ None] conjI refl, unfold option.case, intro allI impI, rule none_case [OF None])
      next
        case (Some result)
        then have "\<exists>candidate. attempt candidate = Some result" using later by (simp only: option.case)
        then show ?thesis unfolding start Some by simp
      qed
    qed
  qed
qed

lemma probe_near_found:
  assumes "0 < granularity" and "probe_near greatest attempt granularity first lower upper distance = Some (Some result)"
  obtains candidate where "attempt candidate = Some result"
  using probe_near_spec [OF assms(1), of greatest attempt first lower upper distance] assms(2) by auto

lemma probe_near_none:
  assumes "0 < granularity" and "probe_near greatest attempt granularity first lower upper 0 = Some None"
    and "first \<le> greatest" and "upper \<le> greatest" and "lower \<le> candidate" and "candidate \<le> upper"
    and "first = candidate + (0 + n * granularity) \<or> candidate = first + (0 + n * granularity)"
  shows "attempt candidate = None"
  using probe_near_spec [OF assms(1), of greatest attempt first lower upper 0] assms(2-) by auto

lemma aligned_steps:
  fixes first candidate granularity :: nat
  assumes "first mod granularity = 0" and "candidate mod granularity = 0"
  shows "\<exists>n. first = candidate + (0 + n * granularity) \<or> candidate = first + (0 + n * granularity)"
proof -
  obtain a b where "first = granularity * a" "candidate = granularity * b" using assms by (auto elim!: dvdE)
  then have "first = candidate + (0 + (a - b) * granularity) \<or> candidate = first + (0 + (b - a) * granularity)"
    by (cases "a \<le> b") (auto simp: mult.commute [of granularity] simp flip: distrib_right)
  then show ?thesis by blast
qed

lemma align_down_le: "align_down v alignment \<le> v"
  by (simp add: align_down_def)

lemma align_down_mod: "align_down v alignment mod alignment = 0"
  by (simp add: align_down_def minus_mod_eq_mult_div)

lemma align_up_some:
  assumes "align_up greatest v alignment = Some a" and "0 < alignment"
  shows "a mod alignment = 0" and "v \<le> a" and "a < v + alignment"
proof -
  have r: "v mod alignment < alignment" using assms(2) by simp
  have "(v + (alignment - v mod alignment)) mod alignment = 0" if "v mod alignment \<noteq> 0"
  proof -
    have "v + (alignment - v mod alignment) = v div alignment * alignment + alignment"
      using div_mult_mod_eq [of v alignment] r by linarith
    then show ?thesis by simp
  qed
  then show "a mod alignment = 0" and "v \<le> a" and "a < v + alignment"
    using assms r by (auto simp: align_up_def Let_def split: if_splits)
qed

definition clamped :: "system_info \<Rightarrow> NearConstraint \<Rightarrow> NearConstraint" where
  "clamped info constraint =
    constraint\<lparr>nc_reference := clamp (nc_reference constraint) (si_minimum info) (si_maximum info)\<rparr>"

lemma allocate_near_found:
  assumes "0 < si_granularity info"
    and "allocate_near greatest info valloc reservation_size alignment constraint = Some (Some reservation)"
  obtains candidate aligned where "valloc candidate reservation_size = Some reservation"
    and "align_up greatest reservation alignment = Some aligned"
    and "within_distance aligned (nc_reference (clamped info constraint)) (nc_maximum_distance constraint)"
proof -
  obtain candidate where
      "try_allocate_at greatest valloc candidate reservation_size alignment (clamped info constraint) = Some reservation"
    using assms(2) unfolding allocate_near_def Let_def clamped_def [symmetric] by (rule probe_near_found [OF assms(1)])
  then obtain aligned where "valloc candidate reservation_size = Some reservation"
    "align_up greatest reservation alignment = Some aligned"
    "within_distance aligned (nc_reference (clamped info constraint)) (nc_maximum_distance constraint)"
    by (auto simp: clamped_def try_allocate_at_def split: option.splits if_splits)
  then show ?thesis by (rule that)
qed

lemma allocate_near_none:
  assumes "0 < si_granularity info" and "si_minimum info \<le> si_maximum info" and "si_maximum info \<le> greatest"
    and "allocate_near greatest info valloc reservation_size alignment constraint = Some None"
    and "candidate mod si_granularity info = 0"
    and "si_minimum info \<le> candidate" and "candidate \<le> si_maximum info"
    and "within_distance candidate (nc_reference (clamped info constraint)) (nc_maximum_distance constraint)"
  shows "try_allocate_at greatest valloc candidate reservation_size alignment (clamped info constraint) = None"
proof -
  let ?r = "nc_reference (clamped info constraint)" and ?d = "nc_maximum_distance (clamped info constraint)"
  have r: "si_minimum info \<le> ?r" "?r \<le> si_maximum info" using assms(2) by (auto simp: clamped_def clamp_def)
  have d: "?d = nc_maximum_distance constraint" by (simp add: clamped_def)
  obtain n where n: "align_down ?r (si_granularity info) = candidate + (0 + n * si_granularity info) \<or>
      candidate = align_down ?r (si_granularity info) + (0 + n * si_granularity info)"
    using aligned_steps [OF align_down_mod assms(5)] by blast
  show ?thesis
  proof (rule probe_near_none [OF assms(1) _ _ _ _ _ n])
    show "probe_near greatest (\<lambda>c. try_allocate_at greatest valloc c reservation_size alignment (clamped info constraint))
        (si_granularity info) (align_down ?r (si_granularity info))
        (if ?r > ?d then max (si_minimum info) (?r - ?d) else si_minimum info)
        (if si_maximum info - ?r > ?d then ?r + ?d else si_maximum info) 0 = Some None"
      using assms(4) unfolding allocate_near_def Let_def clamped_def [symmetric] .
    show "align_down ?r (si_granularity info) \<le> greatest"
      using align_down_le [of ?r "si_granularity info"] r assms(3) by linarith
    show "(if si_maximum info - ?r > ?d then ?r + ?d else si_maximum info) \<le> greatest" using r assms(3) by auto
    show "(if ?r > ?d then max (si_minimum info) (?r - ?d) else si_minimum info) \<le> candidate"
      using assms(6,8) r unfolding d within_distance_def by (auto split: if_splits)
    show "candidate \<le> (if si_maximum info - ?r > ?d then ?r + ?d else si_maximum info)"
      using assms(7,8) r unfolding d within_distance_def by (auto split: if_splits)
  qed
qed

section \<open>Allocations\<close>

text \<open>
  An allocation is a reservation and the aligned range inside it. The number of the last Windows error is an
  argument of the operations that report it; its text is the message of the system, a parameter.
\<close>

record NativeAllocation =
  na_reservation :: "nat option"
  na_reservation_size :: nat
  na_address :: nat
  na_size :: nat

definition windows_error :: "(nat \<Rightarrow> string) \<Rightarrow> nat \<Rightarrow> string \<Rightarrow> string" where
  "windows_error system_message error operation =
    operation @ '' failed (Windows error '' @ decimal error @ '': '' @ system_message error @ '')''"

fun has_single_bit :: "nat \<Rightarrow> bool" where
  "has_single_bit n = (if n \<le> 1 then n = 1 else if n mod 2 = 0 then has_single_bit (n div 2) else False)"

declare has_single_bit.simps [simp del]

text \<open>\<open>anywhere\<close> is the reservation that \<open>VirtualAlloc\<close> makes where it likes.\<close>

definition allocation_create ::
    "nat \<Rightarrow> system_info \<Rightarrow> virtual_alloc \<Rightarrow> (nat \<Rightarrow> nat option) \<Rightarrow> (nat \<Rightarrow> string) \<Rightarrow> nat \<Rightarrow>
     nat \<Rightarrow> nat \<Rightarrow> NearConstraint option \<Rightarrow> (string + NativeAllocation) option" where
  "allocation_create greatest info valloc anywhere system_message error byte_size alignment constraint =
    (if byte_size = 0 \<or> alignment = 0 \<or> \<not> has_single_bit alignment \<or> byte_size > greatest - (alignment - 1)
     then Some (Inl ''Native allocation has an invalid size or alignment'')
     else
       let reservation_size = byte_size + alignment - 1
       in case (case constraint of
                  Some wanted \<Rightarrow> allocate_near greatest info valloc reservation_size alignment wanted
                | None \<Rightarrow> Some (anywhere reservation_size)) of
            None \<Rightarrow> None
          | Some None \<Rightarrow>
              Some (Inl (windows_error system_message error
                (if constraint \<noteq> None then ''VirtualAlloc near native target'' else ''VirtualAlloc'')))
          | Some (Some reservation) \<Rightarrow>
              (case align_up greatest reservation alignment of
                 None \<Rightarrow> Some (Inl ''Native allocation alignment overflows the address space'')
               | Some aligned \<Rightarrow>
                   Some (Inr \<lparr>na_reservation = Some reservation, na_reservation_size = reservation_size,
                              na_address = aligned, na_size = byte_size\<rparr>)))"

lemma allocation_created:
  assumes "0 < si_granularity info"
    and "allocation_create greatest info valloc anywhere system_message error byte_size alignment constraint = Some (Inr a)"
  obtains reservation where "na_reservation a = Some reservation" and "na_size a = byte_size"
    and "na_address a mod alignment = 0" and "reservation \<le> na_address a"
    and "na_address a + byte_size \<le> reservation + na_reservation_size a"
    and "case constraint of None \<Rightarrow> True
      | Some wanted \<Rightarrow> within_distance (na_address a) (nc_reference (clamped info wanted)) (nc_maximum_distance wanted)"
proof -
  have ok: "\<not> (byte_size = 0 \<or> alignment = 0 \<or> \<not> has_single_bit alignment \<or> byte_size > greatest - (alignment - 1))"
    using assms(2) by (auto simp: allocation_create_def split: if_splits)
  then obtain reservation aligned where r: "(case constraint of
        Some wanted \<Rightarrow> allocate_near greatest info valloc (byte_size + alignment - 1) alignment wanted
      | None \<Rightarrow> Some (anywhere (byte_size + alignment - 1))) = Some (Some reservation)"
      and al: "align_up greatest reservation alignment = Some aligned"
      and a: "a = \<lparr>na_reservation = Some reservation, na_reservation_size = byte_size + alignment - 1,
        na_address = aligned, na_size = byte_size\<rparr>"
    using assms(2) unfolding allocation_create_def Let_def
    by (auto split: option.splits)
  have pos: "0 < alignment" using ok by simp
  note up = align_up_some [OF al pos]
  show ?thesis
  proof (rule that [of reservation])
    show "na_address a + byte_size \<le> reservation + na_reservation_size a" using up(3) pos by (simp add: a)
    show "case constraint of None \<Rightarrow> True
      | Some wanted \<Rightarrow> within_distance (na_address a) (nc_reference (clamped info wanted)) (nc_maximum_distance wanted)"
    proof (cases constraint)
      case (Some wanted)
      then have near: "allocate_near greatest info valloc (byte_size + alignment - 1) alignment wanted = Some (Some reservation)"
        using r by simp
      show ?thesis
        by (rule allocate_near_found [OF assms(1) near]) (simp add: Some a al)
    qed simp
  qed (use up in \<open>simp_all add: a\<close>)
qed

section \<open>Properties\<close>

lemma relative_exact:
  assumes "width \<in> {1, 2, 4, 8}" and "v \<le> address_max arch" and "end_address \<le> address_max arch"
  shows "case encode_field width encoded_signed v signed_value True True end_address arch of
      Inr e \<Rightarrow> (int end_address + field_number width True e) mod (int (address_max arch) + 1) = int v
    | Inl message \<Rightarrow> \<not> (\<exists>f. int end_address + field_number width True f = int v)"
proof (cases "width = 4")
  case True
  show ?thesis
  proof (cases "encode_field width encoded_signed v signed_value True True end_address arch")
    case (Inr e)
    then show ?thesis using relative_short [OF assms(2,3)] True by simp
  next
    case (Inl message)
    then have "arch = FC_ARCH_X64" "\<not> (- (2 ^ 31) \<le> int v - int end_address \<and> int v - int end_address < 2 ^ 31)"
      using True by (cases arch; auto simp: encode_field_def encode_rel32_def Let_def split: if_splits option.splits)+
    then have "\<not> (\<exists>f. field_number 4 True f = int v - int end_address)"
      using field_signed_reaches [of 4 "int v - int end_address"] by simp
    moreover have "field_number 4 True f = int v - int end_address" if "int end_address + field_number 4 True f = int v" for f
      using that by linarith
    ultimately show ?thesis using Inl True by auto
  qed
next
  case False
  have m: "address_max arch < 2 ^ 64" by (cases arch) (simp_all add: address_max_def)
  have w: "width \<in> {1, 2, 8}" "v < 2 ^ 64" "end_address < 2 ^ 64" using assms False m by auto
  note wide = relative_wide [OF w]
  show ?thesis
  proof (cases "encode_field width encoded_signed v signed_value True True end_address arch")
    case (Inr e)
    then have "int end_address + field_number width True e = int v" by (rule wide(1))
    then show ?thesis using assms(2) unfolding Inr by simp
  next
    case (Inl message)
    then show ?thesis using wide(2) by auto
  qed
qed

text \<open>An operand or address field is encoded exactly when its value fits, and reads back as that value. A scalar is
  accepted when the field, read with its own signedness, gives the number its author meant, and refused only
  when no content of the field gives that number; a relative field added to the address it is measured from
  lands on its target, and is refused only when no displacement of its width reaches the target.
\<close>
theorem encode_field_exact:
  assumes "width \<in> {1, 2, 4, 8}" and "v \<le> address_max arch" and "end_address \<le> address_max arch"
  shows "(case encode_field width encoded_signed v signed_value False relative end_address arch of
            Inr e \<Rightarrow> field_number width encoded_signed e = scalar_number signed_value v
          | Inl message \<Rightarrow> \<not> (\<exists>f. field_number width encoded_signed f = scalar_number signed_value v)) \<and>
         (case encode_field width encoded_signed v signed_value True True end_address arch of
            Inr e \<Rightarrow> (int end_address + field_number width True e) mod (int (address_max arch) + 1) = int v
          | Inl message \<Rightarrow> \<not> (\<exists>f. int end_address + field_number width True f = int v))"
proof -
  have "address_max arch < 2 ^ 64" by (cases arch) (simp_all add: address_max_def)
  then have v: "v < 2 ^ 64" using assms(2) by simp
  show ?thesis
    using scalar_reads_back [OF assms(1) v] scalar_refused [OF assms(1) v] relative_exact [OF assms]
    by (auto split: sum.split)
qed

text \<open>A field of one byte: -128 fits, 200 does not; 0x1010 is 5 before 0x1015.\<close>

lemma encode_field_exact_witness:
  "field_number 1 True 0xFFFFFFFFFFFFFF80 = - 128 \<and> \<not> (\<exists>f. field_number 1 True f = 200) \<and>
   (0x1015 + field_number 1 True 0xFFFFFFFFFFFFFFFB) mod (2 ^ 64) = 0x1010"
  using encode_field_exact [where width = 1 and v = "0xFFFFFFFFFFFFFF80" and arch = FC_ARCH_X64 and end_address = "0x1015" and
      encoded_signed = True and signed_value = True and relative = False]
    encode_field_exact [where width = 1 and v = 200 and arch = FC_ARCH_X64 and end_address = "0x1015" and
      encoded_signed = True and signed_value = False and relative = False]
    encode_field_exact [where width = 1 and v = "0x1010" and arch = FC_ARCH_X64 and end_address = "0x1015" and
      encoded_signed = True and signed_value = False and relative = False]
  by (simp add: address_max_def encode_field_def scalar_number_def signed_bits_def Let_def)

text \<open>The displacement of a rel32 branch and its target determine each other: the decoder finds the target from the
  displacement exactly when the encoder finds the displacement from the target, for every pair of addresses
  and every 32-bit displacement, on both architectures.
\<close>
theorem rel32_inverse:
  assumes "next_address \<le> address_max arch" and "target \<le> address_max arch"
    and "- (2 ^ 31) \<le> displacement" and "displacement < 2 ^ 31"
  shows "decode_rel32_target next_address displacement arch = Some target \<longleftrightarrow>
    encode_rel32 next_address target arch = Some displacement"
  by (cases arch) (use assms rel32_x86 rel32_x64 in simp_all)

lemma rel32_inverse_witness:
  "decode_rel32_target 0x400010 (- 32) FC_ARCH_X86 = Some 0x3FFFF0 \<longleftrightarrow>
    encode_rel32 0x400010 0x3FFFF0 FC_ARCH_X86 = Some (- 32)"
  by (rule rel32_inverse) (simp_all add: address_max_def)

text \<open>The search for memory near an address ends for every system that reports a granularity above zero, whatever
  its allocations answer.
\<close>
theorem near_search_ends:
  assumes "0 < si_granularity info"
  shows "\<exists>found. allocate_near greatest info valloc reservation_size alignment constraint = Some found"
  unfolding allocate_near_def Let_def using probe_near_spec [OF assms] by blast

definition sample_system :: system_info where
  "sample_system = \<lparr>si_granularity = 0x10000, si_minimum = 0x10000, si_maximum = 0x7FFEFFFF\<rparr>"

lemma near_search_ends_witness:
  "\<exists>found. allocate_near (2 ^ 32 - 1) sample_system (\<lambda>candidate size. None) 14 1
    \<lparr>nc_reference = 0x400000, nc_maximum_distance = 2 ^ 31 - 1\<rparr> = Some found"
  by (rule near_search_ends) (simp add: sample_system_def)

text \<open>What an allocation near an address gives: an aligned range of the size asked for, inside its reservation and
  within the distance asked for of the reference (taken into the range of user addresses). It reports that no
  memory was found only when the attempt at every multiple of the granularity in reach has failed.
\<close>
theorem near_allocation_exact:
  assumes "0 < si_granularity info" and "si_minimum info \<le> si_maximum info" and "si_maximum info \<le> greatest"
    and "0 < byte_size" and "has_single_bit alignment" and "byte_size \<le> greatest - (alignment - 1)"
  shows "\<exists>outcome. allocation_create greatest info valloc anywhere message error byte_size alignment (Some wanted) = Some outcome \<and>
    (case outcome of
       Inr a \<Rightarrow> na_size a = byte_size \<and> na_address a mod alignment = 0 \<and>
         (\<exists>reservation. na_reservation a = Some reservation \<and> reservation \<le> na_address a \<and>
            na_address a + byte_size \<le> reservation + na_reservation_size a) \<and>
         within_distance (na_address a) (nc_reference (clamped info wanted)) (nc_maximum_distance wanted)
     | Inl failure \<Rightarrow>
         {candidate. candidate mod si_granularity info = 0 \<and> si_minimum info \<le> candidate \<and> candidate \<le> si_maximum info \<and>
            within_distance candidate (nc_reference (clamped info wanted)) (nc_maximum_distance wanted)} \<subseteq>
         {candidate. try_allocate_at greatest valloc candidate (byte_size + alignment - 1) alignment (clamped info wanted) = None})"
proof -
  have ok: "\<not> (byte_size = 0 \<or> alignment = 0 \<or> \<not> has_single_bit alignment \<or> byte_size > greatest - (alignment - 1))"
    using assms(4-6) has_single_bit.simps [of 0] by (cases "alignment = 0") auto
  obtain found where near: "allocate_near greatest info valloc (byte_size + alignment - 1) alignment wanted = Some found"
    unfolding allocate_near_def Let_def using probe_near_spec [OF assms(1)] by blast
  show ?thesis
  proof (cases found)
    case None
    have "allocation_create greatest info valloc anywhere message error byte_size alignment (Some wanted) =
        Some (Inl (windows_error message error ''VirtualAlloc near native target''))"
      unfolding allocation_create_def if_not_P [OF ok] Let_def using near None by simp
    moreover note allocate_near_none [OF assms(1-3) near [unfolded None]]
    ultimately show ?thesis by auto
  next
    case (Some reservation)
    obtain candidate aligned where "align_up greatest reservation alignment = Some aligned"
      using near unfolding Some by (rule allocate_near_found [OF assms(1)])
    then obtain a where a: "allocation_create greatest info valloc anywhere message error byte_size alignment (Some wanted) = Some (Inr a)"
      unfolding allocation_create_def if_not_P [OF ok] Let_def using near Some by simp
    show ?thesis by (rule allocation_created [OF assms(1) a]) (use a in simp)
  qed
qed

lemma near_allocation_exact_witness:
  "\<exists>outcome. allocation_create (2 ^ 32 - 1) sample_system (\<lambda>candidate size. if candidate = 0x3F0000 then Some candidate else None)
      (\<lambda>size. None) (\<lambda>error. []) 0 14 1 (Some \<lparr>nc_reference = 0x400123, nc_maximum_distance = 0x20000\<rparr>) = Some outcome \<and>
    (case outcome of
       Inr a \<Rightarrow> na_size a = 14 \<and> within_distance (na_address a) 0x400123 0x20000
     | Inl failure \<Rightarrow> False)"
proof -
  let ?valloc = "\<lambda>candidate size :: nat. if candidate = (0x3F0000 :: nat) then Some candidate else None"
  let ?wanted = "\<lparr>nc_reference = 0x400123, nc_maximum_distance = 0x20000\<rparr>"
  have c: "clamped sample_system ?wanted = ?wanted" by (simp add: clamped_def clamp_def sample_system_def)
  have tried: "try_allocate_at (2 ^ 32 - 1) ?valloc 0x3F0000 (14 + 1 - 1) 1 ?wanted \<noteq> None"
    by (simp add: try_allocate_at_def align_up_def within_distance_def)
  have reach: "within_distance 0x3F0000 (nc_reference ?wanted) (nc_maximum_distance ?wanted)"
    by (simp add: within_distance_def)
  have system: "0x3F0000 mod si_granularity sample_system = 0" "si_minimum sample_system \<le> 0x3F0000"
      "0x3F0000 \<le> si_maximum sample_system" by (simp_all add: sample_system_def)
  have "0 < si_granularity sample_system" "si_minimum sample_system \<le> si_maximum sample_system"
      "si_maximum sample_system \<le> 2 ^ 32 - 1" by (simp_all add: sample_system_def)
  moreover have "(0 :: nat) < 14" "has_single_bit 1" "(14 :: nat) \<le> 2 ^ 32 - 1 - (1 - 1)"
    using has_single_bit.simps [of 1] by simp_all
  ultimately obtain outcome where run: "allocation_create (2 ^ 32 - 1) sample_system ?valloc (\<lambda>size. None) (\<lambda>error. []) 0 14 1
      (Some ?wanted) = Some outcome"
    and result: "case outcome of
       Inr a \<Rightarrow> na_size a = 14 \<and> na_address a mod 1 = 0 \<and>
         (\<exists>reservation. na_reservation a = Some reservation \<and> reservation \<le> na_address a \<and>
            na_address a + 14 \<le> reservation + na_reservation_size a) \<and>
         within_distance (na_address a) (nc_reference ?wanted) (nc_maximum_distance ?wanted)
     | Inl failure \<Rightarrow>
         {candidate. candidate mod si_granularity sample_system = 0 \<and> si_minimum sample_system \<le> candidate \<and>
            candidate \<le> si_maximum sample_system \<and>
            within_distance candidate (nc_reference ?wanted) (nc_maximum_distance ?wanted)} \<subseteq>
         {candidate. try_allocate_at (2 ^ 32 - 1) ?valloc candidate (14 + 1 - 1) 1 ?wanted = None}"
    using near_allocation_exact [where info = sample_system and greatest = "2 ^ 32 - 1" and byte_size = 14 and alignment = 1 and
      valloc = ?valloc and anywhere = "\<lambda>size. None" and message = "\<lambda>error. []" and error = 0 and wanted = ?wanted]
    unfolding c by blast
  show ?thesis
  proof (cases outcome)
    case (Inl failure)
    from subsetD [OF result [unfolded Inl sum.case], where c = "0x3F0000"] tried reach system
    have False by (simp only: mem_Collect_eq simp_thms True_implies_equals)
    then show ?thesis ..
  next
    case (Inr a)
    then show ?thesis using run result by simp
  qed
qed

end
