(* ===== verification/Native_Memory.thy ===== *)
theory Native_Memory
  imports Native_Address
begin

text \<open>
  Writing and reading the memory of the process (\<open>runtime/src/native/native_memory.cpp\<close>) and the storage of
  native allocations. The world is a parameter with the Windows calls over it: what a call returns and the
  world after it. Two observations of a world are what the results are about: the byte at an address and the
  protection flags of the page it lies in.
\<close>

section \<open>The calls of the system\<close>

record memory_region =
  region_begin :: nat
  region_size :: nat
  region_state :: nat
  region_protect :: nat

text \<open>A call that fails gives the number of the last error. \<open>copy_bytes\<close> is \<open>memcpy\<close> into writable memory, \<open>virtual_allocate\<close> the base of a new reservation, at the address asked for or anywhere, and
  \<open>reserved_memory\<close> the world in which that reservation has been made. A reservation that is released again
  leaves the world as it was, so the attempts of one search are all made in the same world.\<close>

record 'w windows =
  virtual_query :: "nat \<Rightarrow> 'w \<Rightarrow> nat + memory_region"
  virtual_protect :: "nat \<Rightarrow> nat \<Rightarrow> nat \<Rightarrow> 'w \<Rightarrow> 'w \<times> (nat + nat)"
  write_process_memory :: "nat \<Rightarrow> byte list \<Rightarrow> 'w \<Rightarrow> 'w \<times> nat option \<times> nat"
  flush_instruction_cache :: "nat \<Rightarrow> nat \<Rightarrow> 'w \<Rightarrow> 'w \<times> nat option"
  read_process_memory :: "nat \<Rightarrow> nat \<Rightarrow> 'w \<Rightarrow> nat + byte list"
  copy_bytes :: "nat \<Rightarrow> byte list \<Rightarrow> 'w \<Rightarrow> 'w"
  virtual_allocate :: "'w \<Rightarrow> nat option \<Rightarrow> nat \<Rightarrow> nat option"
  reserved_memory :: "nat \<Rightarrow> nat \<Rightarrow> 'w \<Rightarrow> 'w"
  system_information :: system_info
  system_message :: "nat \<Rightarrow> string"
  last_error :: "'w \<Rightarrow> nat"
  greatest_address :: nat

abbreviation last_error_text :: "'w windows \<Rightarrow> string \<Rightarrow> nat \<Rightarrow> string" where
  "last_error_text os operation error \<equiv> windows_error (system_message os) error operation"

definition MEM_COMMIT :: nat where "MEM_COMMIT = 0x1000"
definition PAGE_NOACCESS :: nat where "PAGE_NOACCESS = 0x01"
definition PAGE_READONLY :: nat where "PAGE_READONLY = 0x02"
definition PAGE_READWRITE :: nat where "PAGE_READWRITE = 0x04"
definition PAGE_WRITECOPY :: nat where "PAGE_WRITECOPY = 0x08"
definition PAGE_EXECUTE :: nat where "PAGE_EXECUTE = 0x10"
definition PAGE_EXECUTE_READ :: nat where "PAGE_EXECUTE_READ = 0x20"
definition PAGE_EXECUTE_READWRITE :: nat where "PAGE_EXECUTE_READWRITE = 0x40"
definition PAGE_EXECUTE_WRITECOPY :: nat where "PAGE_EXECUTE_WRITECOPY = 0x80"
definition PAGE_GUARD :: nat where "PAGE_GUARD = 0x100"

definition guarded :: "nat \<Rightarrow> bool" where
  "guarded protection = (protection div PAGE_GUARD mod 2 = 1)"

definition executable :: "nat \<Rightarrow> bool" where
  "executable protection =
    (let base = protection mod 0x100
     in base = PAGE_EXECUTE \<or> base = PAGE_EXECUTE_READ \<or> base = PAGE_EXECUTE_READWRITE \<or> base = PAGE_EXECUTE_WRITECOPY)"

section \<open>Native writes\<close>

record ProtectionSlice =
  slice_address :: nat
  slice_size :: nat
  slice_original :: nat
  slice_changed :: bool

record NativeWriteFailure =
  nw_message :: string
  nw_unsafe :: bool

text \<open>The loop ends when the query reports regions that reach past their address; it is a partial function.\<close>

partial_function (option) query_slices_from ::
    "'w windows \<Rightarrow> 'w \<Rightarrow> nat \<Rightarrow> nat \<Rightarrow> (NativeWriteFailure + ProtectionSlice list) option" where
  "query_slices_from os w current finish =
    (if current < finish then
       (case virtual_query os current w of
          Inl error \<Rightarrow> Some (Inl \<lparr>nw_message = last_error_text os ''VirtualQuery for native write'' error, nw_unsafe = False\<rparr>)
        | Inr memory \<Rightarrow>
            if region_state memory \<noteq> MEM_COMMIT \<or> region_protect memory = PAGE_NOACCESS \<or> guarded (region_protect memory)
            then Some (Inl \<lparr>nw_message = ''Native write target is not accessible committed memory'', nw_unsafe = False\<rparr>)
            else
              let region_end = region_begin memory + region_size memory; slice_end = min finish region_end
              in Option.bind (query_slices_from os w slice_end finish)
                   (\<lambda>rest. Some (case rest of
                      Inl failure \<Rightarrow> Inl failure
                    | Inr parts \<Rightarrow>
                        Inr (\<lparr>slice_address = current, slice_size = slice_end - current,
                             slice_original = region_protect memory, slice_changed = False\<rparr> # parts))))
     else Some (Inr []))"

definition query_slices :: "'w windows \<Rightarrow> 'w \<Rightarrow> nat \<Rightarrow> nat \<Rightarrow> (NativeWriteFailure + ProtectionSlice list) option" where
  "query_slices os w address byte_size = query_slices_from os w address (address + byte_size)"

text \<open>The parts are restored from the last to the first; the first failure is the one reported.\<close>

fun restore_reversed :: "'w windows \<Rightarrow> ProtectionSlice list \<Rightarrow> 'w \<Rightarrow> nat \<Rightarrow> 'w \<times> nat" where
  "restore_reversed os [] w error = (w, error)"
| "restore_reversed os (part # parts) w error =
    (if \<not> slice_changed part then restore_reversed os parts w error
     else case virtual_protect os (slice_address part) (slice_size part) (slice_original part) w of
            (w, Inl failure) \<Rightarrow> restore_reversed os parts w (if error = 0 then failure else error)
          | (w, Inr _) \<Rightarrow> restore_reversed os parts w error)"

definition restore_protection :: "'w windows \<Rightarrow> ProtectionSlice list \<Rightarrow> 'w \<Rightarrow> 'w \<times> nat" where
  "restore_protection os parts w = restore_reversed os (rev parts) w 0"

text \<open>The loop that makes the parts writable: the parts already changed, and those to go.\<close>

fun make_writable :: "'w windows \<Rightarrow> ProtectionSlice list \<Rightarrow> ProtectionSlice list \<Rightarrow> 'w \<Rightarrow>
    'w \<times> (NativeWriteFailure + ProtectionSlice list)" where
  "make_writable os changed [] w = (w, Inr changed)"
| "make_writable os changed (part # parts) w =
    (case virtual_protect os (slice_address part) (slice_size part)
            (if executable (slice_original part) then PAGE_EXECUTE_READWRITE else PAGE_READWRITE) w of
       (w, Inl error) \<Rightarrow>
         (let message = last_error_text os ''VirtualProtect for native write'' error;
              (w, restore_error) = restore_protection os (changed @ part # parts) w
          in (w, Inl \<lparr>nw_message =
                 (if restore_error \<noteq> 0
                  then message @ ''; '' @
                    last_error_text os ''VirtualProtect to restore native write protection'' restore_error
                  else message),
               nw_unsafe = restore_error \<noteq> 0\<rparr>))
     | (w, Inr previous) \<Rightarrow>
         make_writable os (changed @ [part\<lparr>slice_original := previous, slice_changed := True\<rparr>]) parts w)"

definition write_native_memory :: "'w windows \<Rightarrow> nat \<Rightarrow> byte list \<Rightarrow> 'w \<Rightarrow> ('w \<times> (NativeWriteFailure + unit)) option" where
  "write_native_memory os address bytes w =
    (if address = 0 \<or> bytes = [] \<or> address > greatest_address os - length bytes
     then Some (w, Inl \<lparr>nw_message = ''Native write range is invalid'', nw_unsafe = False\<rparr>)
     else Option.bind (query_slices os w address (length bytes)) (\<lambda>queried. Some (
       case queried of
         Inl failure \<Rightarrow> (w, Inl failure)
       | Inr parts \<Rightarrow>
           (case make_writable os [] parts w of
              (w, Inl failure) \<Rightarrow> (w, Inl failure)
            | (w, Inr parts) \<Rightarrow>
                (let (w, write_result, written) = write_process_memory os address bytes w;
                     write_succeeded = (write_result = None \<and> written = length bytes);
                     (w, flush_result) =
                       (if \<not> list_ex (\<lambda>part. executable (slice_original part)) parts then (w, None)
                        else flush_instruction_cache os address (length bytes) w);
                     flush_succeeded = (flush_result = None);
                     (w, protection_error) = restore_protection os parts w;
                     protection_succeeded = (protection_error = 0)
                 in if write_succeeded \<and> flush_succeeded \<and> protection_succeeded then (w, Inr ())
                    else
                      let message =
                        (if \<not> write_succeeded
                         then (case write_result of
                                 Some write_error \<Rightarrow> last_error_text os ''WriteProcessMemory'' write_error
                               | None \<Rightarrow> ''WriteProcessMemory wrote '' @ decimal written @ '' of '' @
                                   decimal (length bytes) @ '' native bytes'')
                         else if \<not> flush_succeeded
                         then last_error_text os ''FlushInstructionCache'' (the flush_result)
                         else if \<not> protection_succeeded
                         then last_error_text os ''VirtualProtect to restore native write protection'' protection_error
                         else []);
                        message =
                          (if \<not> protection_succeeded \<and> (\<not> write_succeeded \<or> \<not> flush_succeeded)
                           then message @ ''; '' @
                             last_error_text os ''VirtualProtect to restore native write protection'' protection_error
                           else message)
                      in (w, Inl \<lparr>nw_message = message, nw_unsafe = written \<noteq> 0 \<or> \<not> protection_succeeded\<rparr>))))))"

section \<open>Native reads\<close>

definition readable_page :: "nat \<Rightarrow> bool" where
  "readable_page protect =
    (let protection = protect mod 0x100
     in protection = PAGE_READONLY \<or> protection = PAGE_READWRITE \<or> protection = PAGE_WRITECOPY \<or>
        protection = PAGE_EXECUTE_READ \<or> protection = PAGE_EXECUTE_READWRITE \<or> protection = PAGE_EXECUTE_WRITECOPY)"

definition writable_page :: "nat \<Rightarrow> bool" where
  "writable_page protect =
    (let protection = protect mod 0x100
     in protection = PAGE_READWRITE \<or> protection = PAGE_WRITECOPY \<or> protection = PAGE_EXECUTE_READWRITE \<or>
        protection = PAGE_EXECUTE_WRITECOPY)"

partial_function (option) check_access_from ::
    "'w windows \<Rightarrow> 'w \<Rightarrow> bool \<Rightarrow> bool \<Rightarrow> nat \<Rightarrow> nat \<Rightarrow> (string + unit) option" where
  "check_access_from os w writable code current finish =
    (if current < finish then
       (case virtual_query os current w of
          Inl error \<Rightarrow> Some (Inl (last_error_text os ''VirtualQuery for native access'' error))
        | Inr memory \<Rightarrow>
            if region_state memory \<noteq> MEM_COMMIT \<or> guarded (region_protect memory) \<or>
               \<not> readable_page (region_protect memory) \<or> (writable \<and> \<not> writable_page (region_protect memory)) \<or>
               (code \<and> \<not> executable (region_protect memory))
            then Some (Inl ''Native range does not have the required current permissions'')
            else check_access_from os w writable code (min finish (region_begin memory + region_size memory)) finish)
     else Some (Inr ()))"

definition check_native_access :: "'w windows \<Rightarrow> 'w \<Rightarrow> nat \<Rightarrow> nat \<Rightarrow> bool \<Rightarrow> bool \<Rightarrow> (string + unit) option" where
  "check_native_access os w address byte_size writable code =
    (if address = 0 \<or> byte_size = 0 \<or> byte_size > greatest_address os - address
     then Some (Inl ''Native access range is invalid'')
     else check_access_from os w writable code address (address + byte_size))"

definition read_native_memory :: "'w windows \<Rightarrow> nat \<Rightarrow> nat \<Rightarrow> 'w \<Rightarrow> string + byte list" where
  "read_native_memory os address byte_size w =
    (if address = 0 \<or> byte_size = 0 \<or> address > greatest_address os - byte_size
     then Inl ''Native read range is invalid''
     else case read_process_memory os address byte_size w of
            Inl error \<Rightarrow> Inl (last_error_text os ''ReadProcessMemory'' error)
          | Inr bytes \<Rightarrow>
              if length bytes \<noteq> byte_size
              then Inl (''ReadProcessMemory read '' @ decimal (length bytes) @ '' of '' @ decimal byte_size @ '' native bytes'')
              else Inr bytes)"

section \<open>The storage of an allocation\<close>

definition INT32_MAX :: nat where "INT32_MAX = 2 ^ 31 - 1"

definition create_allocation ::
    "'w windows \<Rightarrow> nat \<Rightarrow> nat \<Rightarrow> NearConstraint option \<Rightarrow> 'w \<Rightarrow> ('w \<times> (string + NativeAllocation)) option" where
  "create_allocation os byte_size alignment constraint w =
    map_option (\<lambda>created. case created of
        Inl error \<Rightarrow> (w, Inl error)
      | Inr allocation \<Rightarrow>
          (reserved_memory os (the (na_reservation allocation)) (na_reservation_size allocation) w, Inr allocation))
      (allocation_create (greatest_address os) (system_information os) (\<lambda>candidate. virtual_allocate os w (Some candidate))
        (virtual_allocate os w None) (system_message os) (last_error os w) byte_size alignment constraint)"

definition allocation_initialize :: "'w windows \<Rightarrow> NativeAllocation \<Rightarrow> byte list \<Rightarrow> 'w \<Rightarrow> 'w \<times> (string + unit)" where
  "allocation_initialize os allocation bytes w =
    (if na_reservation allocation = None \<or> length bytes > na_size allocation
     then (w, Inl ''Native allocation is empty or initialization exceeds its usable storage'')
     else (if bytes \<noteq> [] then copy_bytes os (na_address allocation) bytes w else w, Inr ()))"

definition make_executable :: "'w windows \<Rightarrow> NativeAllocation \<Rightarrow> 'w \<Rightarrow> 'w \<times> (string + unit)" where
  "make_executable os allocation w =
    (case na_reservation allocation of
       None \<Rightarrow> (w, Inl ''Native allocation is empty'')
     | Some reservation \<Rightarrow>
         (case virtual_protect os reservation (na_reservation_size allocation) PAGE_EXECUTE_READ w of
            (w, Inl error) \<Rightarrow> (w, Inl (last_error_text os ''VirtualProtect for executable allocation'' error))
          | (w, Inr previous) \<Rightarrow>
              (case flush_instruction_cache os (na_address allocation) (na_size allocation) w of
                 (w, Some error) \<Rightarrow> (w, Inl (last_error_text os ''FlushInstructionCache for executable allocation'' error))
               | (w, None) \<Rightarrow> (w, Inr ()))))"

text \<open>The bytes of a number, least significant first.\<close>

fun le_bytes :: "nat \<Rightarrow> nat \<Rightarrow> byte list" where
  "le_bytes 0 v = []"
| "le_bytes (Suc n) v = of_nat (v mod 256) # le_bytes n (v div 256)"

fun le_number :: "byte list \<Rightarrow> nat" where
  "le_number [] = 0"
| "le_number (b # bs) = unat b + 256 * le_number bs"

lemma length_le_bytes [simp]: "length (le_bytes n v) = n"
  by (induction n arbitrary: v) simp_all

lemma le_number_le_bytes [simp]: "le_number (le_bytes n v) = v mod 256 ^ n"
proof (induction n arbitrary: v)
  case (Suc n)
  have "v mod (256 * 256 ^ n) = 256 * (v div 256 mod 256 ^ n) + v mod 256" by (rule mod_mult2_eq)
  then show ?case using Suc by (simp add: unat_of_nat)
qed simp

definition create_jump_relay :: "'w windows \<Rightarrow> nat \<Rightarrow> nat \<Rightarrow> 'w \<Rightarrow> ('w \<times> (string + NativeAllocation)) option" where
  "create_jump_relay os target reference w =
    map_option (\<lambda>created. case created of
        (w, Inl error) \<Rightarrow> (w, Inl error)
      | (w, Inr relay) \<Rightarrow>
          (let bytes = [0xff, 0x25] @ replicate 4 0 @ le_bytes 8 target
           in case allocation_initialize os relay bytes w of
                (w, Inl error) \<Rightarrow> (w, Inl error)
              | (w, Inr _) \<Rightarrow>
                  (case make_executable os relay w of
                     (w, Inl error) \<Rightarrow> (w, Inl error)
                   | (w, Inr _) \<Rightarrow> (w, Inr relay))))
      (create_allocation os 14 1 (Some \<lparr>nc_reference = reference, nc_maximum_distance = INT32_MAX\<rparr>) w)"

section \<open>What the calls promise\<close>

text \<open>
  The documented behaviour the writes rely on. Memory is protected by the page: a queried region is a run of
  whole pages of one protection around the address asked for, and changing the protection of a range changes
  every page the range touches, tells the former protection of the first and touches no byte. A call that fails
  has a nonzero error and changes nothing, a write transfers the bytes it counts, and only those.
\<close>

definition touches :: "nat \<Rightarrow> nat \<Rightarrow> nat \<Rightarrow> nat \<Rightarrow> bool" where
  "touches page a n x = (x div page * page < a + n \<and> a < x div page * page + page)"

definition query_law :: "nat \<Rightarrow> ('w \<Rightarrow> nat \<Rightarrow> nat) \<Rightarrow> nat \<Rightarrow> 'w \<Rightarrow> nat + memory_region \<Rightarrow> bool" where
  "query_law page protection a w result = (case result of Inl _ \<Rightarrow> True | Inr r \<Rightarrow>
     page dvd region_begin r \<and> page dvd region_size r \<and>
     region_begin r \<le> a \<and> a < region_begin r + region_size r \<and>
     (\<forall>x. region_begin r \<le> x \<and> x < region_begin r + region_size r \<longrightarrow> protection w x = region_protect r))"

definition protect_law :: "nat \<Rightarrow> ('w \<Rightarrow> nat \<Rightarrow> byte) \<Rightarrow> ('w \<Rightarrow> nat \<Rightarrow> nat) \<Rightarrow> nat \<Rightarrow> nat \<Rightarrow> nat \<Rightarrow> 'w \<Rightarrow>
    'w \<times> (nat + nat) \<Rightarrow> bool" where
  "protect_law page memory protection a n flags w outcome = (case outcome of
     (w', Inl error) \<Rightarrow> error \<noteq> 0 \<and> memory w' = memory w \<and> protection w' = protection w
   | (w', Inr previous) \<Rightarrow> memory w' = memory w \<and> previous = protection w a \<and>
       protection w' = (\<lambda>x. if touches page a n x then flags else protection w x))"

definition write_law :: "('w \<Rightarrow> nat \<Rightarrow> byte) \<Rightarrow> ('w \<Rightarrow> nat \<Rightarrow> nat) \<Rightarrow> nat \<Rightarrow> byte list \<Rightarrow> 'w \<Rightarrow>
    'w \<times> nat option \<times> nat \<Rightarrow> bool" where
  "write_law memory protection a bytes w outcome = (case outcome of (w', result, written) \<Rightarrow>
     written \<le> length bytes \<and> protection w' = protection w \<and>
     memory w' = (\<lambda>x. if a \<le> x \<and> x < a + written then bytes ! (x - a) else memory w x))"

definition flush_law :: "('w \<Rightarrow> nat \<Rightarrow> byte) \<Rightarrow> ('w \<Rightarrow> nat \<Rightarrow> nat) \<Rightarrow> 'w \<Rightarrow> 'w \<times> nat option \<Rightarrow> bool" where
  "flush_law memory protection w outcome =
    (memory (fst outcome) = memory w \<and> protection (fst outcome) = protection w)"

definition windows_laws :: "nat \<Rightarrow> ('w \<Rightarrow> nat \<Rightarrow> byte) \<Rightarrow> ('w \<Rightarrow> nat \<Rightarrow> nat) \<Rightarrow> 'w windows \<Rightarrow> bool" where
  "windows_laws page memory protection os = (0 < page \<and>
    (\<forall>a w. query_law page protection a w (virtual_query os a w)) \<and>
    (\<forall>a n flags w. 0 < n \<longrightarrow> protect_law page memory protection a n flags w (virtual_protect os a n flags w)) \<and>
    (\<forall>a bytes w. write_law memory protection a bytes w (write_process_memory os a bytes w)) \<and>
    (\<forall>a n w. flush_law memory protection w (flush_instruction_cache os a n w)))"

lemma windows_page: "windows_laws page memory protection os \<Longrightarrow> 0 < page"
  by (simp add: windows_laws_def)

lemma windows_query:
  assumes "windows_laws page memory protection os" and "virtual_query os a w = Inr r"
  shows "page dvd region_begin r" and "page dvd region_size r" and "region_begin r \<le> a"
    and "a < region_begin r + region_size r"
    and "region_begin r \<le> x \<Longrightarrow> x < region_begin r + region_size r \<Longrightarrow> protection w x = region_protect r"
proof -
  have "query_law page protection a w (virtual_query os a w)" using assms(1) by (simp add: windows_laws_def)
  then show "page dvd region_begin r" and "page dvd region_size r" and "region_begin r \<le> a"
    and "a < region_begin r + region_size r"
    and "region_begin r \<le> x \<Longrightarrow> x < region_begin r + region_size r \<Longrightarrow> protection w x = region_protect r"
    by (simp_all add: query_law_def assms(2))
qed

lemma windows_protect:
  assumes "windows_laws page memory protection os" and "0 < n"
  shows "protect_law page memory protection a n flags w (virtual_protect os a n flags w)"
  using assms by (simp add: windows_laws_def)

lemma windows_write:
  assumes "windows_laws page memory protection os"
  shows "write_law memory protection a bytes w (write_process_memory os a bytes w)"
  using assms by (simp add: windows_laws_def)

lemma windows_flush:
  assumes "windows_laws page memory protection os"
  shows "flush_law memory protection w (flush_instruction_cache os a n w)"
  using assms by (simp add: windows_laws_def)

text \<open>A page that a range inside a run of whole pages touches lies in the run.\<close>

lemma touches_inside:
  assumes "touches page a n x" and "0 < page" and "page dvd low" and "page dvd high" and "low \<le> a" and "a + n \<le> high"
  shows "low \<le> x" and "x < high"
proof -
  obtain l h where l: "low = l * page" and h: "high = h * page"
    using assms(3,4) unfolding dvd_def by (metis mult.commute)
  define q where "q = x div page"
  have x: "q * page \<le> x" "x < q * page + page"
    using assms(2) by (simp_all add: q_def dividend_less_div_times div_times_less_eq_dividend add.commute)
  have "q * page < h * page" using assms(1,6) unfolding touches_def q_def [symmetric] h by linarith
  then have "q + 1 \<le> h" by simp
  then have "(q + 1) * page \<le> h * page" by (rule mult_le_mono1)
  then show "x < high" using x unfolding h by simp
  have "l * page < (q + 1) * page" using assms(1,5) unfolding touches_def q_def [symmetric] l by simp
  then have "l \<le> q" by (simp only: mult_less_cancel2) simp
  then have "l * page \<le> q * page" by (rule mult_le_mono1)
  then show "low \<le> x" using x(1) unfolding l by (rule order_trans)
qed

section \<open>What a write leaves\<close>

text \<open>Slices cut from the memory in order, each in pages of one protection that no later slice touches.\<close>

fun cut_parts :: "nat \<Rightarrow> (nat \<Rightarrow> nat) \<Rightarrow> nat \<Rightarrow> ProtectionSlice list \<Rightarrow> bool" where
  "cut_parts page before current [] = True"
| "cut_parts page before current (part # parts) =
    (\<not> slice_changed part \<and> 0 < slice_size part \<and> slice_address part = current \<and>
     (\<forall>x. touches page current (slice_size part) x \<longrightarrow> before x = before current) \<and>
     (parts \<noteq> [] \<longrightarrow> (\<forall>x. touches page current (slice_size part) x \<longrightarrow> x < current + slice_size part)) \<and>
     cut_parts page before (current + slice_size part) parts)"

lemma query_slices_cut:
  assumes laws: "windows_laws page memory protection os"
  shows "\<exists>r. query_slices_from os w current finish = Some r \<and>
    (case r of Inl failure \<Rightarrow> \<not> nw_unsafe failure | Inr parts \<Rightarrow> cut_parts page (protection w) current parts \<and>
      (finish \<le> current \<longrightarrow> parts = []))"
proof (induction "finish - current" arbitrary: current rule: less_induct)
  case less
  show ?case
  proof (cases "current < finish")
    case False
    then show ?thesis by (subst query_slices_from.simps) simp
  next
    case True
    show ?thesis
    proof (cases "virtual_query os current w")
      case (Inl error)
      then show ?thesis using True by (subst query_slices_from.simps) simp
    next
      case (Inr region)
      note q = windows_query [OF laws Inr]
      let ?bound = "region_begin region + region_size region"
      let ?stop = "min finish ?bound"
      show ?thesis
      proof (cases "region_state region \<noteq> MEM_COMMIT \<or> region_protect region = PAGE_NOACCESS \<or> guarded (region_protect region)")
        case refused: True
        then show ?thesis using True Inr by (subst query_slices_from.simps) simp
      next
        case ok: False
        have less_stop: "current < ?stop" using True q(4) by simp
        then have "finish - ?stop < finish - current" using True by simp
        from less [OF this] obtain r where r: "query_slices_from os w ?stop finish = Some r"
          and rest: "case r of Inl failure \<Rightarrow> \<not> nw_unsafe failure | Inr parts \<Rightarrow> cut_parts page (protection w) ?stop parts \<and>
            (finish \<le> ?stop \<longrightarrow> parts = [])" by blast
        have touched: "protection w x = protection w current \<and> x < ?bound"
          if "touches page current (?stop - current) x" for x
        proof -
          have "region_begin region \<le> x" "x < ?bound"
            using touches_inside [OF that windows_page [OF laws] q(1) _ q(3), of ?bound] q(1,2) less_stop by simp_all
          then show ?thesis using q(5) q(3,4) by simp
        qed
        let ?part = "\<lparr>slice_address = current, slice_size = ?stop - current, slice_original = region_protect region,
          slice_changed = False\<rparr>"
        have step: "query_slices_from os w current finish =
            Some (case r of Inl failure \<Rightarrow> Inl failure | Inr parts \<Rightarrow> Inr (?part # parts))"
          using True ok Inr r by (subst query_slices_from.simps) (simp add: Let_def)
        show ?thesis
        proof (cases r)
          case (Inl failure)
          then show ?thesis using step rest by simp
        next
          case (Inr parts)
          have end_parts: "x < current + (?stop - current)" if "parts \<noteq> []" "touches page current (?stop - current) x" for x
          proof -
            have "\<not> finish \<le> ?stop" using rest that(1) unfolding Inr by auto
            then have "?stop = ?bound" by linarith
            then show ?thesis using touched [OF that(2)] q(4) by simp
          qed
          have "cut_parts page (protection w) current (?part # parts)"
            unfolding cut_parts.simps ProtectionSlice.simps
          proof (intro conjI allI impI)
            show "cut_parts page (protection w) (current + (?stop - current)) parts"
              using rest less_stop unfolding Inr by simp
            show "protection w x = protection w current" if "touches page current (?stop - current) x" for x
              using touched [OF that] by (rule conjunct1)
            show "x < current + (?stop - current)" if "parts \<noteq> []" "touches page current (?stop - current) x" for x
              using that by (rule end_parts)
          qed (use less_stop in simp_all)
          then show ?thesis unfolding step Inr sum.case using True by (intro exI [of _ "Inr (?part # parts)"]) (simp only: sum.case, simp only: not_le [symmetric] simp_thms list.distinct)
        qed
      qed
    qed
  qed
qed

lemma restore_reversed_cons:
  "restore_reversed os (part # parts) w error =
    (if slice_changed part
     then restore_reversed os parts (fst (virtual_protect os (slice_address part) (slice_size part) (slice_original part) w))
       (case snd (virtual_protect os (slice_address part) (slice_size part) (slice_original part) w) of
          Inl failure \<Rightarrow> if error = 0 then failure else error | Inr _ \<Rightarrow> error)
     else restore_reversed os parts w error)"
  by (simp split: prod.split sum.split)

lemma restore_reversed_outcome:
  assumes laws: "windows_laws page memory protection os"
    and "list_all (\<lambda>part. 0 < slice_size part) parts"
    and "\<And>part x. part \<in> set parts \<Longrightarrow> slice_changed part \<Longrightarrow> touches page (slice_address part) (slice_size part) x \<Longrightarrow>
      slice_original part = before x"
    and "restore_reversed os parts w error = (w', failed)"
  shows "memory w' = memory w \<and> (error \<noteq> 0 \<longrightarrow> failed \<noteq> 0) \<and>
    (failed = 0 \<longrightarrow> protection w' = (\<lambda>x. if \<exists>part \<in> set parts. slice_changed part \<and> touches page (slice_address part) (slice_size part) x
       then before x else protection w x))"
  using assms(2-)
proof (induction parts arbitrary: w error)
  case Nil
  then show ?case by simp
next
  case (Cons part parts)
  have sizes: "0 < slice_size part" "list_all (\<lambda>part. 0 < slice_size part) parts" using Cons.prems(1) by simp_all
  have IH: "memory w' = memory v \<and> (e \<noteq> 0 \<longrightarrow> failed \<noteq> 0) \<and>
      (failed = 0 \<longrightarrow> protection w' = (\<lambda>x. if \<exists>part \<in> set parts. slice_changed part \<and> touches page (slice_address part) (slice_size part) x
         then before x else protection v x))"
    if "restore_reversed os parts v e = (w', failed)" for v e
    by (rule Cons.IH [OF sizes(2) _ that]) (use Cons.prems(2) in auto)
  show ?case
  proof (cases "slice_changed part")
    case False
    then have "restore_reversed os parts w error = (w', failed)" using Cons.prems(3) by simp
    from IH [OF this] show ?thesis using False by simp
  next
    case True
    obtain w1 result where r: "virtual_protect os (slice_address part) (slice_size part) (slice_original part) w = (w1, result)"
      by (cases "virtual_protect os (slice_address part) (slice_size part) (slice_original part) w") auto
    have law: "protect_law page memory protection (slice_address part) (slice_size part) (slice_original part) w (w1, result)"
      using windows_protect [OF laws sizes(1)] r by metis
    have orig: "slice_original part = before x" if "touches page (slice_address part) (slice_size part) x" for x
      using Cons.prems(2) [of part x] True that by simp
    show ?thesis
    proof (cases result)
      case (Inl failure)
      have run: "restore_reversed os parts w1 (if error = 0 then failure else error) = (w', failed)"
        using Cons.prems(3) True unfolding restore_reversed_cons r Inl by simp
      have same: "failure \<noteq> 0" "memory w1 = memory w" using law unfolding Inl by (simp_all add: protect_law_def)
      have "memory w' = memory w1" "failed \<noteq> 0" using IH [OF run] same(1) by (simp_all split: if_splits)
      then show ?thesis using same(2) by simp
    next
      case (Inr previous)
      have "restore_reversed os parts w1 error = (w', failed)"
        using Cons.prems(3) True unfolding restore_reversed_cons r Inr by simp
      then have rest: "memory w' = memory w1" "error \<noteq> 0 \<longrightarrow> failed \<noteq> 0"
        "failed = 0 \<longrightarrow> protection w' = (\<lambda>x. if \<exists>part \<in> set parts. slice_changed part \<and> touches page (slice_address part) (slice_size part) x
           then before x else protection w1 x)"
        using IH [of w1 error] by simp_all
      moreover have "memory w1 = memory w"
        "protection w1 = (\<lambda>x. if touches page (slice_address part) (slice_size part) x then slice_original part else protection w x)"
        using law unfolding Inr by (simp_all add: protect_law_def)
      ultimately show ?thesis using orig True by (auto simp: fun_eq_iff)
    qed
  qed
qed

text \<open>While the slices are made writable, restoring the changed ones would give every page its protection back.\<close>

definition restorable :: "nat \<Rightarrow> (nat \<Rightarrow> nat) \<Rightarrow> (nat \<Rightarrow> nat) \<Rightarrow> ProtectionSlice list \<Rightarrow> bool" where
  "restorable page before now parts =
    (list_all (\<lambda>part. 0 < slice_size part) parts \<and>
     (\<forall>part x. part \<in> set parts \<longrightarrow> slice_changed part \<longrightarrow> touches page (slice_address part) (slice_size part) x \<longrightarrow>
        slice_original part = before x) \<and>
     (\<forall>x. (\<exists>part \<in> set parts. slice_changed part \<and> touches page (slice_address part) (slice_size part) x) \<or> now x = before x))"

lemma restore_restorable:
  assumes "windows_laws page memory protection os" and "restorable page before (protection w) parts"
    and "restore_protection os parts w = (w', failed)"
  shows "memory w' = memory w" and "failed = 0 \<Longrightarrow> protection w' = before"
proof -
  have "memory w' = memory w \<and> ((0::nat) \<noteq> 0 \<longrightarrow> failed \<noteq> 0) \<and>
    (failed = 0 \<longrightarrow> protection w' = (\<lambda>x. if \<exists>part \<in> set (rev parts). slice_changed part \<and> touches page (slice_address part) (slice_size part) x
       then before x else protection w x))"
  proof (rule restore_reversed_outcome [OF assms(1)])
    show "restore_reversed os (rev parts) w 0 = (w', failed)" using assms(3) by (simp add: restore_protection_def)
    show "list_all (\<lambda>part. 0 < slice_size part) (rev parts)" using assms(2) by (simp add: restorable_def)
  qed (use assms(2) in \<open>auto simp: restorable_def\<close>)
  then show "memory w' = memory w" and "failed = 0 \<Longrightarrow> protection w' = before"
    using assms(2) by (auto simp: restorable_def fun_eq_iff)
qed

lemma cut_parts_unchanged:
  "cut_parts page before current parts \<Longrightarrow> list_all (\<lambda>part. 0 < slice_size part \<and> \<not> slice_changed part) parts"
  by (induction parts arbitrary: current) auto

lemma make_writable_outcome:
  assumes laws: "windows_laws page memory protection os"
    and "cut_parts page before current parts"
    and "list_all (\<lambda>part. 0 < slice_size part \<and> slice_changed part) changed"
    and "restorable page before (protection w) changed"
    and "\<And>part x. part \<in> set changed \<Longrightarrow> touches page (slice_address part) (slice_size part) x \<Longrightarrow> parts \<noteq> [] \<Longrightarrow> x < current"
    and "make_writable os changed parts w = (w', result)"
  shows "memory w' = memory w \<and>
    (case result of
       Inl failure \<Rightarrow> nw_unsafe failure \<or> protection w' = before
     | Inr done \<Rightarrow> restorable page before (protection w') done)"
  using assms(2-)
proof (induction parts arbitrary: changed w current)
  case Nil
  then have "w' = w" "result = Inr changed" by simp_all
  then show ?case using Nil.prems(3) by simp
next
  case (Cons part parts)
  have cut: "\<not> slice_changed part" "0 < slice_size part" "slice_address part = current"
      "cut_parts page before (current + slice_size part) parts"
    using Cons.prems(1) by simp_all
  have alike: "before x = before current" if "touches page current (slice_size part) x" for x
    using Cons.prems(1) that unfolding cut_parts.simps by blast
  have inside: "x < current + slice_size part" if "parts \<noteq> []" "touches page current (slice_size part) x" for x
    using Cons.prems(1) that unfolding cut_parts.simps by blast
  have below: "x < current" if "c \<in> set changed" "touches page (slice_address c) (slice_size c) x" for c x
    using Cons.prems(4) that by blast
  let ?flags = "if executable (slice_original part) then PAGE_EXECUTE_READWRITE else PAGE_READWRITE"
  obtain w1 outcome where r: "virtual_protect os (slice_address part) (slice_size part) ?flags w = (w1, outcome)"
    by (cases "virtual_protect os (slice_address part) (slice_size part) ?flags w") auto
  have law: "protect_law page memory protection current (slice_size part) ?flags w (w1, outcome)"
    using windows_protect [OF laws cut(2), of current ?flags w] r cut(3) by simp
  show ?case
  proof (cases outcome)
    case (Inl error)
    obtain w2 failed where undo: "restore_protection os (changed @ part # parts) w1 = (w2, failed)"
      by (cases "restore_protection os (changed @ part # parts) w1") auto
    have same: "memory w1 = memory w" "protection w1 = protection w" using law unfolding Inl by (simp_all add: protect_law_def)
    have "restorable page before (protection w1) (changed @ part # parts)"
      using Cons.prems(3) cut_parts_unchanged [OF Cons.prems(1)] unfolding same
      by (auto simp: restorable_def list_all_iff)
    note left = restore_restorable [OF laws this undo]
    have "w' = w2" "result = Inl failure \<Longrightarrow> nw_unsafe failure = (failed \<noteq> 0)" "\<exists>failure. result = Inl failure" for failure
      using Cons.prems(5) r undo unfolding Inl by (auto simp: Let_def)
    then show ?thesis using left same by fastforce
  next
    case (Inr previous)
    let ?part = "part\<lparr>slice_original := previous, slice_changed := True\<rparr>"
    have now: "memory w1 = memory w" "previous = protection w current"
        "protection w1 = (\<lambda>x. if touches page current (slice_size part) x then ?flags else protection w x)"
      using law unfolding Inr by (simp_all add: protect_law_def)
    have "protection w current = before current"
      using Cons.prems(3) below unfolding restorable_def by (metis less_irrefl)
    then have orig: "previous = before x" if "touches page current (slice_size part) x" for x
      using alike [OF that] now(2) by simp
    have run: "make_writable os (changed @ [?part]) parts w1 = (w', result)" using Cons.prems(5) r unfolding Inr by simp
    have restore: "restorable page before (protection w1) (changed @ [?part])"
      using Cons.prems(3) cut(2,3) orig unfolding restorable_def now(3) by auto
    have sized: "list_all (\<lambda>part. 0 < slice_size part \<and> slice_changed part) (changed @ [?part])"
      using Cons.prems(2) cut(2) by simp
    have bound: "x < current + slice_size part"
      if "c \<in> set (changed @ [?part])" "touches page (slice_address c) (slice_size c) x" "parts \<noteq> []" for c x
      using that below inside cut(3) by fastforce
    show ?thesis using Cons.IH [OF cut(4) sized restore bound run] unfolding now(1) .
  qed
qed

lemma bind_some: "Option.bind a (\<lambda>x. Some (f x)) = map_option f a"
  by (cases a) simp_all

lemma native_write_result:
  assumes laws: "windows_laws page memory protection os"
  shows "\<exists>w' result. write_native_memory os address bytes w = Some (w', result) \<and>
    (case result of
       Inl failure \<Rightarrow> nw_unsafe failure \<or> (memory w' = memory w \<and> protection w' = protection w)
     | Inr _ \<Rightarrow> protection w' = protection w \<and>
         memory w' = (\<lambda>x. if address \<le> x \<and> x < address + length bytes then bytes ! (x - address) else memory w x))"
proof (cases "address = 0 \<or> bytes = [] \<or> address > greatest_address os - length bytes")
  case True
  then show ?thesis by (simp add: write_native_memory_def)
next
  case range: False
  obtain queried where q: "query_slices os w address (length bytes) = Some queried"
    and found: "case queried of Inl failure \<Rightarrow> \<not> nw_unsafe failure
      | Inr parts \<Rightarrow> cut_parts page (protection w) address parts \<and> (address + length bytes \<le> address \<longrightarrow> parts = [])"
    using query_slices_cut [OF laws, of w address "address + length bytes"] unfolding query_slices_def by blast
  then have cut: "case queried of Inl failure \<Rightarrow> \<not> nw_unsafe failure | Inr parts \<Rightarrow> cut_parts page (protection w) address parts"
    by (simp split: sum.splits)
  note unfold = write_native_memory_def if_not_P [OF range] q bind_some option.map
  show ?thesis
  proof (cases queried)
    case (Inl failure)
    then show ?thesis unfolding unfold by simp
  next
    case (Inr parts)
    obtain w1 opened where mw: "make_writable os [] parts w = (w1, opened)" by (cases "make_writable os [] parts w") auto
    have start: "restorable page (protection w) (protection w) []" by (simp add: restorable_def)
    have opened: "memory w1 = memory w \<and> (case opened of Inl failure \<Rightarrow> nw_unsafe failure \<or> protection w1 = protection w
        | Inr done \<Rightarrow> restorable page (protection w) (protection w1) done)"
      by (rule make_writable_outcome [OF laws _ _ start _ mw, where current = address]) (use cut Inr in simp_all)
    show ?thesis
    proof (cases opened)
      case inl: (Inl failure)
      then show ?thesis unfolding unfold Inr sum.case mw prod.case using opened by simp
    next
      case inr: (Inr changed)
      obtain w2 write_result written where wr: "write_process_memory os address bytes w1 = (w2, write_result, written)"
        by (cases "write_process_memory os address bytes w1") auto
      obtain w3 flush_result where fl: "(if \<not> list_ex (\<lambda>part. executable (slice_original part)) changed then (w2, None)
          else flush_instruction_cache os address (length bytes) w2) = (w3, flush_result)"
        by (cases "if \<not> list_ex (\<lambda>part. executable (slice_original part)) changed then (w2, None)
          else flush_instruction_cache os address (length bytes) w2") auto
      obtain w4 failed where re: "restore_protection os changed w3 = (w4, failed)"
        by (cases "restore_protection os changed w3") auto
      have w2: "written \<le> length bytes" "protection w2 = protection w1"
          "memory w2 = (\<lambda>x. if address \<le> x \<and> x < address + written then bytes ! (x - address) else memory w x)"
        using windows_write [OF laws, of address bytes w1] unfolding wr conjunct1 [OF opened, symmetric]
        by (simp_all add: write_law_def)
      have w3: "memory w3 = memory w2" "protection w3 = protection w1"
        using windows_flush [OF laws, of w2 address "length bytes"] fl w2(2) by (auto simp: flush_law_def split: if_splits)
      have "restorable page (protection w) (protection w3) changed" using opened unfolding inr w3 by simp
      note w4 = restore_restorable [OF laws this re]
      let ?run = "write_native_memory os address bytes w"
      have "\<exists>result. ?run = Some (w4, result) \<and> (result = Inr () \<longrightarrow> written = length bytes \<and> failed = 0) \<and>
          (\<forall>failure. result = Inl failure \<longrightarrow> nw_unsafe failure \<or> (written = 0 \<and> failed = 0))"
        unfolding unfold Inr inr sum.case mw prod.case wr Let_def fl re
        by (cases "write_result = None \<and> written = length bytes \<and> flush_result = None \<and> failed = 0") auto
      then obtain result where run: "?run = Some (w4, result)"
        and ok: "result = Inr () \<Longrightarrow> written = length bytes \<and> failed = 0"
        and fail: "\<And>failure. result = Inl failure \<Longrightarrow> nw_unsafe failure \<or> (written = 0 \<and> failed = 0)" by blast
      show ?thesis
      proof (cases result)
        case (Inl failure)
        then show ?thesis using run fail [OF Inl] w4 w3(1) w2(3) by (auto simp: fun_eq_iff)
      next
        case (Inr u)
        then show ?thesis using run ok w4 w3(1) w2(3) by simp
      qed
    qed
  qed
qed

text \<open>C10: A write to native memory ends, and is all or nothing unless it says otherwise. After success exactly the bytes of
  the range are the new ones and every page has its protection back; a failure that is not marked unsafe has
  changed neither a byte nor a protection, however many pages had been made writable before it.
\<close>
theorem native_write_outcome:
  assumes "windows_laws page memory protection os"
  shows "\<exists>w' result. write_native_memory os address bytes w = Some (w', result) \<and>
    (case result of
       Inl failure \<Rightarrow> nw_unsafe failure \<or> (memory w' = memory w \<and> protection w' = protection w)
     | Inr _ \<Rightarrow> protection w' = protection w \<and>
         memory w' = (\<lambda>x. if address \<le> x \<and> x < address + length bytes then bytes ! (x - address) else memory w x))"
  by (rule native_write_result [OF assms])

text \<open>A process of pages of 4096 bytes, all committed, whose calls succeed.\<close>

definition sample_windows :: "((nat \<Rightarrow> byte) \<times> (nat \<Rightarrow> nat)) windows" where
  "sample_windows =
    \<lparr>virtual_query = (\<lambda>a w. Inr \<lparr>region_begin = a div 4096 * 4096, region_size = 4096, region_state = MEM_COMMIT,
       region_protect = snd w (a div 4096)\<rparr>),
     virtual_protect = (\<lambda>a n flags w. ((fst w, \<lambda>p. if p * 4096 < a + n \<and> a < p * 4096 + 4096 then flags else snd w p),
       Inr (snd w (a div 4096)))),
     write_process_memory = (\<lambda>a bytes w. ((\<lambda>x. if a \<le> x \<and> x < a + length bytes then bytes ! (x - a) else fst w x, snd w),
       None, length bytes)),
     flush_instruction_cache = (\<lambda>a n w. (w, None)),
     read_process_memory = (\<lambda>a n w. Inr (map (fst w) [a..<a + n])),
     copy_bytes = (\<lambda>a bytes w. (\<lambda>x. if a \<le> x \<and> x < a + length bytes then bytes ! (x - a) else fst w x, snd w)),
     virtual_allocate = (\<lambda>w wanted size. wanted), reserved_memory = (\<lambda>a n w. w),
     system_information = sample_system, system_message = (\<lambda>error. []), last_error = (\<lambda>w. 0),
     greatest_address = 2 ^ 32 - 1\<rparr>"

lemma sample_windows_laws: "windows_laws 4096 fst (\<lambda>w x. snd w (x div 4096)) sample_windows"
proof -
  have page: "x div 4096 = a div 4096" if "a div 4096 * 4096 \<le> x" "x < a div 4096 * 4096 + 4096" for a x :: nat
    using that by simp
  show ?thesis
    unfolding windows_laws_def
  proof (intro conjI allI impI)
    show "query_law 4096 (\<lambda>w x. snd w (x div 4096)) a w (virtual_query sample_windows a w)" for a w
      unfolding query_law_def sample_windows_def windows.simps sum.case memory_region.simps
    proof (intro conjI allI impI)
      show "a < a div 4096 * 4096 + 4096" using mod_less_divisor [of 4096 a] div_mult_mod_eq [of a 4096] by linarith
      show "snd w (x div 4096) = snd w (a div 4096)"
        if "a div 4096 * 4096 \<le> x \<and> x < a div 4096 * 4096 + 4096" for x using page [of a x] that by simp
    qed simp_all
    show "protect_law 4096 fst (\<lambda>w x. snd w (x div 4096)) a n flags w (virtual_protect sample_windows a n flags w)" for a n flags w
      by (simp add: protect_law_def sample_windows_def touches_def)
    show "write_law fst (\<lambda>w x. snd w (x div 4096)) a bytes w (write_process_memory sample_windows a bytes w)" for a bytes w
      by (simp add: write_law_def sample_windows_def)
    show "flush_law fst (\<lambda>w x. snd w (x div 4096)) w (flush_instruction_cache sample_windows a n w)" for a n w
      by (simp add: flush_law_def sample_windows_def)
  qed simp
qed

lemma native_write_outcome_witness:
  "\<exists>w' result. write_native_memory sample_windows 0x1FFE [1, 2, 3, 4] (\<lambda>x. 0, \<lambda>p. PAGE_EXECUTE_READ) = Some (w', result) \<and>
    (case result of
       Inl failure \<Rightarrow> nw_unsafe failure \<or> (fst w' = (\<lambda>x. 0) \<and> (\<lambda>x. snd w' (x div 4096)) = (\<lambda>x. PAGE_EXECUTE_READ))
     | Inr _ \<Rightarrow> (\<lambda>x. snd w' (x div 4096)) = (\<lambda>x. PAGE_EXECUTE_READ) \<and>
         fst w' = (\<lambda>x. if 0x1FFE \<le> x \<and> x < 0x1FFE + length [1, 2, 3, 4 :: byte] then [1, 2, 3, 4] ! (x - 0x1FFE) else 0))"
  using native_write_outcome [OF sample_windows_laws, of "0x1FFE" "[1, 2, 3, 4]" "(\<lambda>x. 0, \<lambda>p. PAGE_EXECUTE_READ)"]
  unfolding fst_conv snd_conv .

end
