(* ===== verification/Native_Call.thy ===== *)
theory Native_Call
  imports Native_Memory
begin

text \<open>
  Descriptions of native calls: their validation (\<open>runtime/src/native/native_call.cpp\<close>), the storage a
  generated bridge supports and the frame it lays out (\<open>native/bridge_layout.cpp\<close>). The \<open>uint32_t\<close> fields
  of the interface (\<open>sdk/include/fc/abi/native.h\<close>) are natural numbers, its enumerations their constants; the
  architecture the code is compiled for is an argument.
\<close>

section \<open>The interface\<close>

abbreviation (input) FC_NATIVE_VOID :: nat where "FC_NATIVE_VOID \<equiv> 0"
abbreviation (input) FC_NATIVE_INTEGER :: nat where "FC_NATIVE_INTEGER \<equiv> 1"
abbreviation (input) FC_NATIVE_POINTER :: nat where "FC_NATIVE_POINTER \<equiv> 2"
abbreviation (input) FC_NATIVE_FLOAT_32 :: nat where "FC_NATIVE_FLOAT_32 \<equiv> 3"
abbreviation (input) FC_NATIVE_FLOAT_64 :: nat where "FC_NATIVE_FLOAT_64 \<equiv> 4"
abbreviation (input) FC_NATIVE_RECORD :: nat where "FC_NATIVE_RECORD \<equiv> 5"

abbreviation (input) FC_NATIVE_STORAGE_NONE :: nat where "FC_NATIVE_STORAGE_NONE \<equiv> 0"
abbreviation (input) FC_NATIVE_STORAGE_REGISTER :: nat where "FC_NATIVE_STORAGE_REGISTER \<equiv> 1"
abbreviation (input) FC_NATIVE_STORAGE_STACK :: nat where "FC_NATIVE_STORAGE_STACK \<equiv> 2"

abbreviation (input) FC_REGISTER_NONE :: nat where "FC_REGISTER_NONE \<equiv> 0"
abbreviation (input) FC_REGISTER_EAX :: nat where "FC_REGISTER_EAX \<equiv> 1"
abbreviation (input) FC_REGISTER_EBP :: nat where "FC_REGISTER_EBP \<equiv> 7"
abbreviation (input) FC_REGISTER_ST0 :: nat where "FC_REGISTER_ST0 \<equiv> 8"
abbreviation (input) FC_REGISTER_RAX :: nat where "FC_REGISTER_RAX \<equiv> 16"
abbreviation (input) FC_REGISTER_RCX :: nat where "FC_REGISTER_RCX \<equiv> 18"
abbreviation (input) FC_REGISTER_R15 :: nat where "FC_REGISTER_R15 \<equiv> 30"
abbreviation (input) FC_REGISTER_XMM0 :: nat where "FC_REGISTER_XMM0 \<equiv> 32"

abbreviation (input) FC_STACK_CLEANUP_NONE :: nat where "FC_STACK_CLEANUP_NONE \<equiv> 0"
abbreviation (input) FC_STACK_CLEANUP_CALLER :: nat where "FC_STACK_CLEANUP_CALLER \<equiv> 1"
abbreviation (input) FC_STACK_CLEANUP_CALLEE :: nat where "FC_STACK_CLEANUP_CALLEE \<equiv> 2"

record FC_NativeValue =
  nv_kind :: nat
  nv_size :: nat
  nv_alignment :: nat

record FC_NativeStorage =
  ns_kind :: nat
  ns_register :: nat
  ns_stack_offset :: nat

record FC_NativeArgument =
  na_value :: FC_NativeValue
  na_storage :: FC_NativeStorage

text \<open>The flags are one \<open>uint32_t\<close>; a null argument view is \<open>None\<close>, its length the declared count.\<close>

record FC_NativeCall =
  nc_architecture :: nat
  nc_flags :: nat
  nc_result :: FC_NativeValue
  nc_return_storage :: FC_NativeStorage
  nc_arguments :: "FC_NativeArgument list option"
  nc_argument_count :: nat
  nc_cleanup :: nat
  nc_stack_size :: nat

definition architecture_id :: "FC_Architecture \<Rightarrow> nat" where
  "architecture_id arch = (case arch of FC_ARCH_X86 \<Rightarrow> 1 | FC_ARCH_X64 \<Rightarrow> 2)"

definition flag_set :: "nat \<Rightarrow> nat \<Rightarrow> bool" where
  "flag_set flags bit_number = (flags div 2 ^ bit_number mod 2 = 1)"

abbreviation compiler_call :: "FC_NativeCall \<Rightarrow> bool" where
  "compiler_call call \<equiv> flag_set (nc_flags call) 0"

abbreviation variadic_call :: "FC_NativeCall \<Rightarrow> bool" where
  "variadic_call call \<equiv> flag_set (nc_flags call) 1"

definition hidden_result :: "FC_NativeCall \<Rightarrow> bool" where
  "hidden_result call = flag_set (nc_flags call) 2"

definition call_arguments :: "FC_NativeCall \<Rightarrow> FC_NativeArgument list" where
  "call_arguments call = (case nc_arguments call of None \<Rightarrow> [] | Some arguments \<Rightarrow> take (nc_argument_count call) arguments)"

section \<open>The words of an architecture\<close>

definition kWord :: "FC_Architecture \<Rightarrow> nat" where
  "kWord arch = (case arch of FC_ARCH_X86 \<Rightarrow> 4 | FC_ARCH_X64 \<Rightarrow> 8)"

definition kGeneral :: "FC_Architecture \<Rightarrow> nat list" where
  "kGeneral arch = (case arch of
     FC_ARCH_X86 \<Rightarrow> [0, 1, 2, 3, 5, 6, 7] | FC_ARCH_X64 \<Rightarrow> [0, 1, 2, 3, 5, 6, 7, 8, 9, 10, 11, 12, 13, 14, 15])"

definition kSimdCount :: "FC_Architecture \<Rightarrow> nat" where
  "kSimdCount arch = (case arch of FC_ARCH_X86 \<Rightarrow> 8 | FC_ARCH_X64 \<Rightarrow> 16)"

definition kHome :: "FC_Architecture \<Rightarrow> nat" where
  "kHome arch = (case arch of FC_ARCH_X86 \<Rightarrow> 0 | FC_ARCH_X64 \<Rightarrow> 32)"

definition kSaved :: "FC_Architecture \<Rightarrow> nat" where
  "kSaved arch = (length (kGeneral arch) + 1) * kWord arch"

definition general :: "FC_Architecture \<Rightarrow> nat \<Rightarrow> nat option" where
  "general arch ident = (case arch of
     FC_ARCH_X86 \<Rightarrow>
       if FC_REGISTER_EAX \<le> ident \<and> ident \<le> FC_REGISTER_EBP
       then Some ([0, 3, 1, 2, 6, 7, 5] ! (ident - FC_REGISTER_EAX)) else None
   | FC_ARCH_X64 \<Rightarrow>
       if FC_REGISTER_RAX \<le> ident \<and> ident \<le> FC_REGISTER_R15
       then Some ([0, 3, 1, 2, 6, 7, 5, 8, 9, 10, 11, 12, 13, 14, 15] ! (ident - FC_REGISTER_RAX)) else None)"

definition simd :: "FC_Architecture \<Rightarrow> nat \<Rightarrow> nat option" where
  "simd arch ident =
    (if FC_REGISTER_XMM0 \<le> ident \<and> ident < FC_REGISTER_XMM0 + kSimdCount arch
     then Some (ident - FC_REGISTER_XMM0) else None)"

section \<open>Valid and equivalent calls\<close>

definition valid_value :: "FC_NativeValue \<Rightarrow> FC_Architecture \<Rightarrow> bool \<Rightarrow> bool" where
  "valid_value v arch allow_void =
    (if nv_kind v = FC_NATIVE_VOID then allow_void \<and> nv_size v = 0 \<and> nv_alignment v = 0
     else if nv_kind v = FC_NATIVE_INTEGER
     then nv_size v \<in> {1, 2, 4, 8} \<and> has_single_bit (nv_alignment v) \<and> nv_alignment v \<le> nv_size v
     else if nv_kind v = FC_NATIVE_POINTER
     then nv_size v = (if arch = FC_ARCH_X86 then 4 else 8) \<and> nv_alignment v = nv_size v
     else if nv_kind v = FC_NATIVE_FLOAT_32 then nv_size v = 4 \<and> nv_alignment v = 4
     else if nv_kind v = FC_NATIVE_FLOAT_64 then nv_size v = 8 \<and> nv_alignment v = 8
     else if nv_kind v = FC_NATIVE_RECORD
     then nv_size v \<noteq> 0 \<and> has_single_bit (nv_alignment v) \<and> nv_alignment v \<le> nv_size v \<and>
       nv_size v mod nv_alignment v = 0
     else False)"

definition equal_value :: "FC_NativeValue \<Rightarrow> FC_NativeValue \<Rightarrow> bool" where
  "equal_value left right =
    (nv_kind left = nv_kind right \<and> nv_size left = nv_size right \<and> nv_alignment left = nv_alignment right)"

definition equal_storage :: "FC_NativeStorage \<Rightarrow> FC_NativeStorage \<Rightarrow> bool" where
  "equal_storage left right =
    (ns_kind left = ns_kind right \<and> ns_register left = ns_register right \<and> ns_stack_offset left = ns_stack_offset right)"

text \<open>An owned description holds the call without its view, and the arguments themselves.\<close>

record CallDescription =
  cd_value :: FC_NativeCall
  cd_arguments :: "FC_NativeArgument list"

definition call_view :: "CallDescription \<Rightarrow> FC_NativeCall" where
  "call_view description =
    (cd_value description)\<lparr>nc_arguments := if cd_arguments description = [] then None else Some (cd_arguments description),
                           nc_argument_count := length (cd_arguments description)\<rparr>"

fun equal_arguments :: "FC_NativeArgument list \<Rightarrow> FC_NativeArgument list \<Rightarrow> bool" where
  "equal_arguments (left # lefts) (right # rights) =
    (if \<not> equal_value (na_value left) (na_value right) \<or> \<not> equal_storage (na_storage left) (na_storage right)
     then False else equal_arguments lefts rights)"
| "equal_arguments _ _ = True"

definition equivalent_call :: "CallDescription \<Rightarrow> CallDescription \<Rightarrow> bool" where
  "equivalent_call a b =
    (let left = call_view a; right = call_view b
     in if nc_architecture left \<noteq> nc_architecture right \<or> nc_flags left \<noteq> nc_flags right then False
        else if \<not> equal_value (nc_result left) (nc_result right) \<or>
          \<not> equal_storage (nc_return_storage left) (nc_return_storage right) \<or> nc_cleanup left \<noteq> nc_cleanup right \<or>
          nc_stack_size left \<noteq> nc_stack_size right \<or> nc_argument_count left \<noteq> nc_argument_count right then False
        else equal_arguments (call_arguments left) (call_arguments right))"

section \<open>Storage a bridge supports\<close>

definition valid_storage :: "FC_Architecture \<Rightarrow> FC_NativeCall \<Rightarrow> FC_NativeStorage \<Rightarrow> FC_NativeValue \<Rightarrow> bool \<Rightarrow> bool \<Rightarrow> bool" where
  "valid_storage arch call storage v result hidden =
    (let byte_size = (if hidden then kWord arch else nv_size v)
     in if ns_kind storage = FC_NATIVE_STORAGE_STACK
        then (\<not> result \<or> hidden) \<and> ns_register storage = FC_REGISTER_NONE \<and>
          ns_stack_offset storage \<le> nc_stack_size call \<and>
          byte_size \<le> nc_stack_size call - ns_stack_offset storage \<and>
          ns_stack_offset storage mod min (nv_alignment v) (kWord arch) = 0
        else if ns_kind storage \<noteq> FC_NATIVE_STORAGE_REGISTER \<or> ns_stack_offset storage \<noteq> 0 then False
        else if hidden then general arch (ns_register storage) \<noteq> None
        else if nv_kind v = FC_NATIVE_FLOAT_32 \<or> nv_kind v = FC_NATIVE_FLOAT_64
        then simd arch (ns_register storage) \<noteq> None \<or>
          (result \<and> kWord arch = 4 \<and> ns_register storage = FC_REGISTER_ST0)
        else general arch (ns_register storage) \<noteq> None \<and>
          (byte_size \<le> kWord arch \<or>
           (result \<and> kWord arch = 4 \<and> byte_size = 8 \<and> ns_register storage = FC_REGISTER_EAX \<and>
            (nv_kind v = FC_NATIVE_INTEGER \<or> nv_kind v = FC_NATIVE_RECORD))))"

definition storage_overlap :: "FC_NativeStorage \<Rightarrow> nat \<Rightarrow> FC_NativeStorage \<Rightarrow> nat \<Rightarrow> bool" where
  "storage_overlap left left_size right right_size =
    (if ns_kind left \<noteq> ns_kind right then False
     else if ns_kind left = FC_NATIVE_STORAGE_REGISTER then ns_register left = ns_register right
     else ns_stack_offset left < ns_stack_offset right + right_size \<and>
       ns_stack_offset right < ns_stack_offset left + left_size)"

text \<open>The loop over the arguments: those before the current one are what it is compared with.\<close>

fun bridge_arguments :: "FC_Architecture \<Rightarrow> FC_NativeCall \<Rightarrow> FC_NativeArgument list \<Rightarrow> FC_NativeArgument list \<Rightarrow> string + unit" where
  "bridge_arguments arch call prior [] = Inr ()"
| "bridge_arguments arch call prior (argument # arguments) =
    (if \<not> valid_storage arch call (na_storage argument) (na_value argument) False False
     then Inl ''Native bridge argument value or storage is unsupported''
     else if hidden_result call \<and>
       storage_overlap (na_storage argument) (nv_size (na_value argument)) (nc_return_storage call) (kWord arch)
     then Inl ''The native bridge's hidden result pointer shares storage with an argument''
     else if list_ex (\<lambda>other. storage_overlap (na_storage argument) (nv_size (na_value argument))
                 (na_storage other) (nv_size (na_value other))) prior
     then Inl ''Native bridge arguments use overlapping register or stack locations''
     else bridge_arguments arch call (prior @ [argument]) arguments)"

definition UINT16_MAX :: nat where "UINT16_MAX = 2 ^ 16 - 1"

definition validate_bridge_layout :: "FC_Architecture \<Rightarrow> FC_NativeCall \<Rightarrow> string + unit" where
  "validate_bridge_layout arch call =
    (if variadic_call call \<or> (hidden_result call \<and> nv_kind (nc_result call) \<noteq> FC_NATIVE_RECORD)
     then Inl ''Native bridges do not support variadic calls; hidden results must be records''
     else if compiler_call call \<and>
       (nv_kind (nc_result call) = FC_NATIVE_RECORD \<or>
        list_ex (\<lambda>argument. nv_kind (na_value argument) = FC_NATIVE_RECORD) (call_arguments call))
     then Inl ''Native bridge records require an explicit custom call description''
     else if nc_argument_count call > INT32_MAX div kWord arch \<or> nc_stack_size call > INT32_MAX - kSaved arch - 64 \<or>
       nc_stack_size call mod kWord arch \<noteq> 0 \<or> (kWord arch = 8 \<and> nc_cleanup call \<noteq> FC_STACK_CLEANUP_NONE) \<or>
       (kWord arch = 4 \<and>
         ((nc_stack_size call = 0 \<and> nc_cleanup call \<noteq> FC_STACK_CLEANUP_NONE) \<or>
          (nc_stack_size call \<noteq> 0 \<and> nc_cleanup call \<noteq> FC_STACK_CLEANUP_CALLER \<and>
           nc_cleanup call \<noteq> FC_STACK_CLEANUP_CALLEE))) \<or>
       (nc_cleanup call = FC_STACK_CLEANUP_CALLEE \<and> nc_stack_size call > UINT16_MAX)
     then Inl ''Native bridge argument count, stack size or stack cleanup is unsupported''
     else if nv_kind (nc_result call) = FC_NATIVE_VOID \<and>
       (ns_kind (nc_return_storage call) \<noteq> FC_NATIVE_STORAGE_NONE \<or>
        ns_register (nc_return_storage call) \<noteq> FC_REGISTER_NONE \<or> ns_stack_offset (nc_return_storage call) \<noteq> 0)
     then Inl ''Void native bridge results require empty storage''
     else if nv_kind (nc_result call) \<noteq> FC_NATIVE_VOID \<and>
       \<not> valid_storage arch call (nc_return_storage call) (nc_result call) True (hidden_result call)
     then Inl ''Native bridge result storage is unsupported''
     else bridge_arguments arch call [] (call_arguments call))"

definition validate_call :: "FC_Architecture \<Rightarrow> FC_NativeCall \<Rightarrow> bool \<Rightarrow> string + CallDescription" where
  "validate_call arch call bridge =
    (if nc_architecture call \<noteq> architecture_id arch \<or> \<not> valid_value (nc_result call) arch True \<or>
       (nc_argument_count call \<noteq> 0 \<and> nc_arguments call = None) \<or> nc_flags call > 7
     then Inl ''Native call has an invalid architecture, result description, argument view or flags''
     else if list_ex (\<lambda>argument. \<not> valid_value (na_value argument) arch False) (call_arguments call)
     then Inl ''Native call argument has an invalid kind, size or alignment''
     else case (if bridge then validate_bridge_layout arch call else Inr ()) of
            Inl unsupported \<Rightarrow> Inl unsupported
          | Inr _ \<Rightarrow>
              Inr \<lparr>cd_value = call\<lparr>nc_arguments := None\<rparr>, cd_arguments = call_arguments call\<rparr>)"

section \<open>The frame of a bridge\<close>

text \<open>
  Rounding up to a power of two is the mask of the code. A region that ends too far for a signed 32-bit offset
  is a \<open>std::length_error\<close>.
\<close>

definition reserve :: "FC_Architecture \<Rightarrow> nat \<Rightarrow> nat \<Rightarrow> nat \<Rightarrow> string + nat \<times> nat" where
  "reserve arch extent byte_size alignment =
    (let aligned = (extent + alignment - 1) div alignment * alignment; finish = aligned + byte_size
     in if finish > INT32_MAX - kSaved arch - 64
        then Inl ''Native bridge stack storage is too large for the required signed 32-bit offsets''
        else Inr (aligned, finish))"

record FrameLayout =
  fl_size :: nat
  fl_anchor :: nat
  fl_target :: nat
  fl_result_pointer :: nat
  fl_flags :: nat
  fl_flag_pointer :: nat
  fl_result :: nat
  fl_values :: nat
  fl_frame :: nat
  fl_xmm :: nat
  fl_buffers :: "nat list"

definition then_reserved :: "string + 'b \<times> nat \<Rightarrow> ('b \<Rightarrow> nat \<Rightarrow> string + 'a) \<Rightarrow> string + 'a" where
  "then_reserved reserved rest = (case reserved of Inl error \<Rightarrow> Inl error | Inr (start, extent) \<Rightarrow> rest start extent)"

fun reserve_buffers :: "FC_Architecture \<Rightarrow> nat \<Rightarrow> FC_NativeArgument list \<Rightarrow> string + nat list \<times> nat" where
  "reserve_buffers arch extent [] = Inr ([], extent)"
| "reserve_buffers arch extent (argument # arguments) =
    then_reserved (reserve arch extent (nv_size (na_value argument) + nv_alignment (na_value argument) - 1) (kWord arch))
      (\<lambda>start extent. then_reserved (reserve_buffers arch extent arguments) (\<lambda>starts extent. Inr (start # starts, extent)))"

text \<open>A region that is not laid out leaves its offset zero. \<open>FC_NativeFrame\<close> is three words.\<close>

definition frame_start :: "FC_Architecture \<Rightarrow> FC_NativeCall \<Rightarrow> bool \<Rightarrow> nat" where
  "frame_start arch call entry =
    (if entry then if kWord arch = 4 then 16 else kHome arch else (kHome arch + nc_stack_size call) mod 2 ^ 32)"

definition result_bytes :: "FC_Architecture \<Rightarrow> FC_NativeCall \<Rightarrow> bool \<Rightarrow> nat" where
  "result_bytes arch call entry =
    max (nv_size (nc_result call)) (kWord arch) + (if entry then nv_alignment (nc_result call) - 1 else 0)"

definition layout :: "FC_Architecture \<Rightarrow> FC_NativeCall \<Rightarrow> bool \<Rightarrow> string + FrameLayout" where
  "layout arch call entry =
    (let word = kWord arch in
     then_reserved (if word = 4 then reserve arch (frame_start arch call entry) word word else Inr (0, frame_start arch call entry))
       (\<lambda>anchor extent.
     then_reserved (if \<not> entry then reserve arch extent word word else Inr (0, extent)) (\<lambda>target extent.
     then_reserved (if \<not> entry then reserve arch extent word word else Inr (0, extent)) (\<lambda>flag_pointer extent.
     then_reserved (reserve arch extent word word) (\<lambda>result_pointer extent.
     then_reserved (reserve arch extent word word) (\<lambda>flags extent.
     then_reserved
       (if nv_kind (nc_result call) \<noteq> FC_NATIVE_VOID \<and> \<not> hidden_result call
        then reserve arch extent (result_bytes arch call entry) word else Inr (0, extent)) (\<lambda>result extent.
     then_reserved (reserve arch extent (if entry then 3 * word else word) word) (\<lambda>frame extent.
     then_reserved (reserve arch extent (kSimdCount arch * 16) 16) (\<lambda>xmm extent.
     then_reserved (if entry then reserve arch extent (nc_argument_count call * word mod 2 ^ 32) word else Inr (0, extent))
       (\<lambda>values extent.
     then_reserved
       (if entry then reserve_buffers arch extent (call_arguments call) else Inr ([], extent))
       (\<lambda>buffers extent.
     then_reserved (reserve arch extent 0 16) (\<lambda>bytes extent.
       Inr \<lparr>fl_size = bytes + (if arch = FC_ARCH_X64 then 8 else 0), fl_anchor = anchor, fl_target = target,
                fl_result_pointer = result_pointer, fl_flags = flags, fl_flag_pointer = flag_pointer, fl_result = result,
                fl_values = values, fl_frame = frame, fl_xmm = xmm, fl_buffers = buffers\<rparr>))))))))))))"

section \<open>The regions of a frame\<close>

text \<open>The regions in the order they are laid out, each with its extent; the first is the callee's.\<close>

definition frame_regions :: "FC_Architecture \<Rightarrow> FC_NativeCall \<Rightarrow> bool \<Rightarrow> FrameLayout \<Rightarrow> (nat \<times> nat) list" where
  "frame_regions arch call entry l =
    (let word = kWord arch
     in [(0, frame_start arch call entry)] @
        (if word = 4 then [(fl_anchor l, word)] else []) @
        (if \<not> entry then [(fl_target l, word)] else []) @
        (if \<not> entry then [(fl_flag_pointer l, word)] else []) @
        [(fl_result_pointer l, word)] @ [(fl_flags l, word)] @
        (if nv_kind (nc_result call) \<noteq> FC_NATIVE_VOID \<and> \<not> hidden_result call
         then [(fl_result l, result_bytes arch call entry)] else []) @
        [(fl_frame l, if entry then 3 * word else word)] @ [(fl_xmm l, kSimdCount arch * 16)] @
        (if entry then [(fl_values l, nc_argument_count call * word mod 2 ^ 32)] else []) @
        (if entry
         then zip (fl_buffers l) (map (\<lambda>argument. nv_size (na_value argument) + nv_alignment (na_value argument) - 1)
           (call_arguments call))
         else []))"

fun in_order :: "nat \<Rightarrow> (nat \<times> nat) list \<Rightarrow> nat \<Rightarrow> bool" where
  "in_order before [] after = (before \<le> after)"
| "in_order before ((start, bytes) # regions) after = (before \<le> start \<and> in_order (start + bytes) regions after)"

lemma in_order_append: "in_order a xs b \<Longrightarrow> in_order b ys c \<Longrightarrow> in_order a (xs @ ys) c"
proof (induction a xs b rule: in_order.induct)
  case (1 a b)
  then show ?case by (cases ys) auto
qed auto

lemma in_order_le: "in_order before regions after \<Longrightarrow> before \<le> after"
  by (induction before regions after rule: in_order.induct) auto

lemma in_order_start: "in_order before regions after \<Longrightarrow> r \<in> set regions \<Longrightarrow> before \<le> fst r \<and> fst r + snd r \<le> after"
proof (induction before regions after rule: in_order.induct)
  case (2 before start bytes regions after)
  then show ?case using in_order_le [of "start + bytes" regions after] by fastforce
qed simp

lemma in_order_apart:
  "in_order before regions after \<Longrightarrow> sorted_wrt (\<lambda>r s. fst r + snd r \<le> fst s) regions"
  by (induction before regions after rule: in_order.induct) (auto dest: in_order_start)

lemma reserved:
  assumes "reserve arch extent bytes alignment = Inr (start, extent')" and "0 < alignment"
  shows "in_order extent [(start, bytes)] extent'" and "start mod alignment = 0" and "extent' \<le> INT32_MAX - kSaved arch - 64"
proof -
  have "extent \<le> (extent + alignment - 1) div alignment * alignment"
    using assms(2) div_mult_mod_eq [of "extent + alignment - 1" alignment] mod_less_divisor [OF assms(2), of "extent + alignment - 1"]
    by linarith
  then show "in_order extent [(start, bytes)] extent'" and "start mod alignment = 0" and "extent' \<le> INT32_MAX - kSaved arch - 64"
    using assms by (auto simp: reserve_def Let_def split: if_splits)
qed

lemma then_reserved_ok:
  assumes "then_reserved reserved rest = Inr l"
  obtains start extent where "reserved = Inr (start, extent)" and "rest start extent = Inr l"
  using assms by (auto simp: then_reserved_def split: sum.splits)

lemma kWord_pos [simp]: "0 < kWord arch"
  by (cases arch) (simp_all add: kWord_def)

lemma reserve_buffers_ok:
  "reserve_buffers arch extent arguments = Inr (starts, extent') \<Longrightarrow>
   in_order extent (zip starts (map (\<lambda>argument. nv_size (na_value argument) + nv_alignment (na_value argument) - 1) arguments)) extent'
   \<and> length starts = length arguments"
proof (induction arguments arbitrary: extent starts)
  case (Cons argument arguments)
  from Cons.prems obtain start e rest where
    r: "reserve arch extent (nv_size (na_value argument) + nv_alignment (na_value argument) - 1) (kWord arch) = Inr (start, e)"
    and rest: "reserve_buffers arch e arguments = Inr (rest, extent')" and starts: "starts = start # rest"
    by (auto elim!: then_reserved_ok)
  note IH = Cons.IH [OF rest]
  show ?case
    using in_order_append [OF reserved(1) [OF r kWord_pos] conjunct1 [OF IH]] conjunct2 [OF IH] unfolding starts by simp
qed simp

lemma reserved_optional:
  assumes "(if b then reserve arch extent bytes alignment else Inr (0, extent)) = Inr (start, extent')" and "0 < alignment"
  shows "in_order extent (if b then [(start, bytes)] else []) extent'"
  using assms reserved(1) by (auto split: if_splits)

lemma layout_in_order:
  assumes "layout arch call entry = Inr l"
  shows "in_order 0 (frame_regions arch call entry l) (fl_size l) \<and> fl_xmm l mod 16 = 0 \<and>
    fl_size l mod 16 = (if arch = FC_ARCH_X64 then 8 else 0) \<and> fl_size l < INT32_MAX - kSaved arch"
proof -
  let ?w = "kWord arch"
  let ?arguments = "call_arguments call"
  let ?direct = "nv_kind (nc_result call) \<noteq> FC_NATIVE_VOID \<and> \<not> hidden_result call"
  from assms obtain anchor e1 target e2 flag_pointer e3 pointer e4 flags e5 result e6 frame e7 xmm e8 vals e9 buffers e10 bytes e11
    where 1: "(if ?w = 4 then reserve arch (frame_start arch call entry) ?w ?w else Inr (0, frame_start arch call entry)) = Inr (anchor, e1)"
      and 2: "(if \<not> entry then reserve arch e1 ?w ?w else Inr (0, e1)) = Inr (target, e2)"
      and 3: "(if \<not> entry then reserve arch e2 ?w ?w else Inr (0, e2)) = Inr (flag_pointer, e3)"
      and 4: "reserve arch e3 ?w ?w = Inr (pointer, e4)" and 5: "reserve arch e4 ?w ?w = Inr (flags, e5)"
      and 6: "(if ?direct then reserve arch e5 (result_bytes arch call entry) ?w else Inr (0, e5)) = Inr (result, e6)"
      and 7: "reserve arch e6 (if entry then 3 * ?w else ?w) ?w = Inr (frame, e7)"
      and 8: "reserve arch e7 (kSimdCount arch * 16) 16 = Inr (xmm, e8)"
      and 9: "(if entry then reserve arch e8 (nc_argument_count call * ?w mod 2 ^ 32) ?w else Inr (0, e8)) = Inr (vals, e9)"
      and 10: "(if entry then reserve_buffers arch e9 ?arguments else Inr ([], e9)) = Inr (buffers, e10)"
      and 11: "reserve arch e10 0 16 = Inr (bytes, e11)"
      and l: "l = \<lparr>fl_size = bytes + (if arch = FC_ARCH_X64 then 8 else 0), fl_anchor = anchor, fl_target = target,
                fl_result_pointer = pointer, fl_flags = flags, fl_flag_pointer = flag_pointer, fl_result = result,
                fl_values = vals, fl_frame = frame, fl_xmm = xmm, fl_buffers = buffers\<rparr>"
    unfolding layout_def Let_def by (elim then_reserved_ok) (simp only: sum.inject)
  have buffers: "in_order e9 (if entry then zip buffers
      (map (\<lambda>argument. nv_size (na_value argument) + nv_alignment (na_value argument) - 1) ?arguments) else []) e10"
    using 10 reserve_buffers_ok by (auto split: if_splits)
  have "in_order 0 [(0, frame_start arch call entry)] (frame_start arch call entry)" by simp
  note regions = this reserved_optional [OF 1 kWord_pos] reserved_optional [OF 2 kWord_pos] reserved_optional [OF 3 kWord_pos]
    reserved(1) [OF 4 kWord_pos] reserved(1) [OF 5 kWord_pos] reserved_optional [OF 6 kWord_pos] reserved(1) [OF 7 kWord_pos]
    reserved(1) [OF 8] reserved_optional [OF 9 kWord_pos] buffers
  have "in_order e10 [] (fl_size l)" using reserved(1) [OF 11] by (simp add: l)
  then have order: "in_order 0 (frame_regions arch call entry l) (fl_size l)"
    unfolding frame_regions_def Let_def l FrameLayout.simps
    by (intro in_order_append [OF regions(1)] in_order_append [OF regions(2)] in_order_append [OF regions(3)]
        in_order_append [OF regions(4)] in_order_append [OF regions(5)] in_order_append [OF regions(6)]
        in_order_append [OF regions(7)] in_order_append [OF regions(8)] in_order_append [OF regions(9)]
        in_order_append [OF regions(10)]) (use regions(11) in_order_append in \<open>fastforce+\<close>)
  moreover have "bytes \<le> INT32_MAX - kSaved arch - 64" using reserved(1,3) [OF 11] by simp
  moreover have "64 \<le> INT32_MAX - kSaved arch" by (cases arch) (simp_all add: INT32_MAX_def kSaved_def kGeneral_def kWord_def)
  ultimately have "fl_size l < INT32_MAX - kSaved arch" by (auto simp: l)
  moreover have "fl_size l mod 16 = (if arch = FC_ARCH_X64 then 8 else 0)"
    using reserved(2) [OF 11] by (simp add: l mod_add_left_eq [symmetric])
  ultimately show ?thesis using reserved(2) [OF 8] order by (simp add: l)
qed

section \<open>Exclusive storage\<close>

text \<open>The cells of a location: a register, or the bytes of the stack it covers.\<close>

datatype storage_cell = Register_Cell nat | Stack_Cell nat

definition storage_cells :: "FC_NativeStorage \<Rightarrow> nat \<Rightarrow> storage_cell set" where
  "storage_cells storage byte_size =
    (if ns_kind storage = FC_NATIVE_STORAGE_REGISTER then {Register_Cell (ns_register storage)}
     else Stack_Cell ` {ns_stack_offset storage..<ns_stack_offset storage + byte_size})"

definition argument_cells :: "FC_NativeArgument \<Rightarrow> storage_cell set" where
  "argument_cells argument = storage_cells (na_storage argument) (nv_size (na_value argument))"

lemma storage_apart:
  assumes "\<not> storage_overlap left left_size right right_size"
    and "ns_kind left \<in> {1, 2}" and "ns_kind right \<in> {1, 2}"
  shows "storage_cells left left_size \<inter> storage_cells right right_size = {}"
  using assms by (auto simp: storage_overlap_def storage_cells_def split: if_splits)

lemma valid_storage_kind: "valid_storage arch call storage v result hidden \<Longrightarrow> ns_kind storage \<in> {1, 2}"
  by (auto simp: valid_storage_def Let_def split: if_splits)

lemma valid_storage_inside:
  assumes "valid_storage arch call storage v False False"
  shows "storage_cells storage (nv_size v) \<subseteq>
    Stack_Cell ` {0..<nc_stack_size call} \<union> Register_Cell ` {r. general arch r \<noteq> None \<or> simd arch r \<noteq> None}"
  using assms by (auto simp: valid_storage_def storage_cells_def Let_def split: if_splits)

lemma bridge_arguments_ok:
  assumes "bridge_arguments arch call prior arguments = Inr ()"
    and "list_all (\<lambda>a. valid_storage arch call (na_storage a) (na_value a) False False) prior"
    and "sorted_wrt (\<lambda>a b. argument_cells a \<inter> argument_cells b = {}) prior"
  shows "list_all (\<lambda>a. valid_storage arch call (na_storage a) (na_value a) False False) (prior @ arguments) \<and>
    sorted_wrt (\<lambda>a b. argument_cells a \<inter> argument_cells b = {}) (prior @ arguments) \<and>
    (hidden_result call \<longrightarrow> list_all (\<lambda>a. \<not> storage_overlap (na_storage a) (nv_size (na_value a)) (nc_return_storage call) (kWord arch)) arguments)"
  using assms
proof (induction arch call prior arguments rule: bridge_arguments.induct)
  case (2 arch call prior argument arguments)
  from 2(2) have ok: "valid_storage arch call (na_storage argument) (na_value argument) False False"
    and hidden: "hidden_result call \<Longrightarrow>
       \<not> storage_overlap (na_storage argument) (nv_size (na_value argument)) (nc_return_storage call) (kWord arch)"
    and apart: "\<not> list_ex (\<lambda>other. storage_overlap (na_storage argument) (nv_size (na_value argument))
                 (na_storage other) (nv_size (na_value other))) prior"
    and rest: "bridge_arguments arch call (prior @ [argument]) arguments = Inr ()"
    by (auto split: if_splits)
  have "argument_cells other \<inter> argument_cells argument = {}" if "other \<in> set prior" for other
  proof -
    have earlier: "valid_storage arch call (na_storage other) (na_value other) False False"
      using 2(3) that by (simp add: list_all_iff)
    have "\<not> storage_overlap (na_storage argument) (nv_size (na_value argument)) (na_storage other) (nv_size (na_value other))"
      using apart that by (auto simp: list_ex_iff)
    then have "storage_cells (na_storage argument) (nv_size (na_value argument)) \<inter>
        storage_cells (na_storage other) (nv_size (na_value other)) = {}"
      by (rule storage_apart) (use valid_storage_kind [OF ok] valid_storage_kind [OF earlier] in simp_all)
    then show ?thesis by (auto simp: argument_cells_def)
  qed
  then have "sorted_wrt (\<lambda>a b. argument_cells a \<inter> argument_cells b = {}) (prior @ [argument])"
    using 2(4) by (simp add: sorted_wrt_append)
  moreover have "list_all (\<lambda>a. valid_storage arch call (na_storage a) (na_value a) False False) (prior @ [argument])"
    using 2(3) ok by simp
  moreover note 2(1) [OF _ _ _ rest]
  ultimately show ?case using ok hidden apart by simp
qed simp

lemma equal_arguments_iff:
  "length lefts = length rights \<Longrightarrow> equal_arguments lefts rights \<longleftrightarrow> lefts = rights"
proof (induction lefts rights rule: list_induct2)
  case (Cons left lefts right rights)
  have "equal_value (na_value left) (na_value right) \<and> equal_storage (na_storage left) (na_storage right) \<longleftrightarrow> left = right"
    by (auto simp: equal_value_def equal_storage_def intro!: FC_NativeArgument.equality FC_NativeValue.equality FC_NativeStorage.equality)
  then show ?case using Cons by auto
qed simp

text \<open>Two calls are equivalent when nothing about them differs: a hook site may be shared whatever the order.\<close>

lemma call_view_arguments [simp]: "call_arguments (call_view d) = cd_arguments d"
  by (simp add: call_view_def call_arguments_def)

lemma equivalent_call_iff: "equivalent_call a b \<longleftrightarrow> call_view a = call_view b"
proof
  assume eq: "equivalent_call a b"
  then have "length (cd_arguments a) = length (cd_arguments b)"
    by (auto simp: equivalent_call_def Let_def call_view_def split: if_splits)
  moreover have "equal_arguments (cd_arguments a) (cd_arguments b)"
    using eq by (auto simp: equivalent_call_def Let_def split: if_splits)
  ultimately have args: "cd_arguments a = cd_arguments b" by (simp add: equal_arguments_iff)
  show "call_view a = call_view b"
    using eq args
    by (intro FC_NativeCall.equality)
      (auto simp: equivalent_call_def Let_def call_view_def equal_value_def equal_storage_def split: if_splits
        intro!: FC_NativeValue.equality FC_NativeStorage.equality)
next
  assume eq: "call_view a = call_view b"
  then have "call_arguments (call_view a) = call_arguments (call_view b)" by simp
  then show "equivalent_call a b" using eq
    by (simp add: equivalent_call_def Let_def equal_value_def equal_storage_def equal_arguments_iff)
qed

section \<open>Properties\<close>

text \<open>C39: A call accepted for a bridge gives each argument storage of its own: no register and no byte of the stack belongs
  to two arguments, every stack byte lies inside the declared argument area, every register exists on the
  architecture, and a hidden result pointer shares nothing with an argument.
\<close>
theorem bridge_storage_exclusive:
  assumes "validate_call arch call True = Inr description"
  shows "sorted_wrt (\<lambda>a b. argument_cells a \<inter> argument_cells b = {}) (cd_arguments description) \<and>
    list_all (\<lambda>a. argument_cells a \<subseteq> Stack_Cell ` {0..<nc_stack_size call} \<union>
       Register_Cell ` {r. general arch r \<noteq> None \<or> simd arch r \<noteq> None}) (cd_arguments description) \<and>
    (if hidden_result call
     then list_all (\<lambda>a. argument_cells a \<inter> storage_cells (nc_return_storage call) (kWord arch) = {}) (cd_arguments description)
     else True)"
proof -
  have d: "cd_arguments description = call_arguments call" and v: "validate_bridge_layout arch call = Inr ()"
    using assms by (auto simp: validate_call_def split: if_splits sum.splits)
  have run: "bridge_arguments arch call [] (call_arguments call) = Inr ()"
    and hidden: "hidden_result call \<Longrightarrow> nv_kind (nc_result call) = FC_NATIVE_RECORD"
    using v by (auto simp: validate_bridge_layout_def split: if_splits)
  have return: "ns_kind (nc_return_storage call) \<in> {1, 2}" if "hidden_result call"
    using v hidden [OF that] valid_storage_kind by (fastforce simp: validate_bridge_layout_def split: if_splits)
  note ok = bridge_arguments_ok [OF run list.pred_inject(1) sorted_wrt.simps(1) [THEN iffD2, OF TrueI], simplified]
  have inside: "list_all (\<lambda>a. valid_storage arch call (na_storage a) (na_value a) False False) (call_arguments call)"
    using ok by simp
  have "argument_cells a \<inter> storage_cells (nc_return_storage call) (kWord arch) = {}"
    if h: "hidden_result call" and a: "a \<in> set (call_arguments call)" for a
    unfolding argument_cells_def
  proof (rule storage_apart)
    show "\<not> storage_overlap (na_storage a) (nv_size (na_value a)) (nc_return_storage call) (kWord arch)"
      using ok h a by (simp add: list_all_iff)
    show "ns_kind (na_storage a) \<in> {1, 2}" using inside a valid_storage_kind by (fastforce simp: list_all_iff)
  qed (rule return [OF h])
  moreover have "argument_cells a \<subseteq> Stack_Cell ` {0..<nc_stack_size call} \<union>
       Register_Cell ` {r. general arch r \<noteq> None \<or> simd arch r \<noteq> None}" if "a \<in> set (call_arguments call)" for a
    using inside that valid_storage_inside unfolding argument_cells_def by (auto simp: list_all_iff)
  ultimately show ?thesis using ok unfolding d by (simp add: list_all_iff)
qed

definition sample_call :: FC_NativeCall where
  "sample_call =
    \<lparr>nc_architecture = 2, nc_flags = 0, nc_result = \<lparr>nv_kind = FC_NATIVE_INTEGER, nv_size = 4, nv_alignment = 4\<rparr>,
     nc_return_storage = \<lparr>ns_kind = 1, ns_register = FC_REGISTER_RAX, ns_stack_offset = 0\<rparr>,
     nc_arguments = Some
       [\<lparr>na_value = \<lparr>nv_kind = FC_NATIVE_POINTER, nv_size = 8, nv_alignment = 8\<rparr>,
         na_storage = \<lparr>ns_kind = 1, ns_register = FC_REGISTER_RCX, ns_stack_offset = 0\<rparr>\<rparr>,
        \<lparr>na_value = \<lparr>nv_kind = FC_NATIVE_FLOAT_32, nv_size = 4, nv_alignment = 4\<rparr>,
         na_storage = \<lparr>ns_kind = 2, ns_register = 0, ns_stack_offset = 8\<rparr>\<rparr>],
     nc_argument_count = 2, nc_cleanup = 0, nc_stack_size = 16\<rparr>"

lemma sample_call_valid: "validate_call FC_ARCH_X64 sample_call True = Inr
    \<lparr>cd_value = sample_call\<lparr>nc_arguments := None\<rparr>, cd_arguments = the (nc_arguments sample_call)\<rparr>"
  by (simp add: validate_call_def sample_call_def architecture_id_def valid_value_def validate_bridge_layout_def
      call_arguments_def flag_set_def hidden_result_def kWord_def kSaved_def kGeneral_def INT32_MAX_def UINT16_MAX_def
      valid_storage_def general_def storage_overlap_def has_single_bit.simps)

lemma bridge_storage_exclusive_witness:
  "sorted_wrt (\<lambda>a b. argument_cells a \<inter> argument_cells b = {}) (the (nc_arguments sample_call))"
  using bridge_storage_exclusive [OF sample_call_valid] by simp

text \<open>C40: The frame of a bridge is laid out without overlap: the callee's area, the saved values, the result, the vector
  registers and the argument buffers follow each other in the order of their offsets, each ends before the next
  begins and all lie inside the frame; vector registers are aligned to 16 bytes, the frame keeps the stack
  aligned after the return address, and every offset fits a signed 32-bit displacement.
\<close>
theorem frame_layout_regions:
  assumes "layout arch call entry = Inr l"
  shows "sorted_wrt (\<lambda>r s. fst r + snd r \<le> fst s) (frame_regions arch call entry l) \<and>
    list_all (\<lambda>r. fst r + snd r \<le> fl_size l) (frame_regions arch call entry l) \<and>
    fl_xmm l mod 16 = 0 \<and> fl_size l mod 16 = (if arch = FC_ARCH_X64 then 8 else 0) \<and> fl_size l < INT32_MAX - kSaved arch"
  using layout_in_order [OF assms] in_order_apart in_order_start by (fastforce simp: list_all_iff)

lemma frame_layout_regions_witness:
  "sorted_wrt (\<lambda>r s. fst r + snd r \<le> fst s)
    [(0, 32), (32 :: nat, 8), (40, 8), (48, 7 + 4), (64, 24), (96, 256), (352, 16), (368, 15), (384, 7)]"
proof -
  have l: "layout FC_ARCH_X64 sample_call True = Inr \<lparr>fl_size = 408, fl_anchor = 0, fl_target = 0, fl_result_pointer = 32,
      fl_flags = 40, fl_flag_pointer = 0, fl_result = 48, fl_values = 352, fl_frame = 64, fl_xmm = 96, fl_buffers = [368, 384]\<rparr>"
    by (simp add: layout_def Let_def then_reserved_def reserve_def frame_start_def result_bytes_def sample_call_def
        call_arguments_def hidden_result_def flag_set_def kWord_def kSaved_def kGeneral_def kHome_def kSimdCount_def INT32_MAX_def)
  show ?thesis
    using frame_layout_regions [OF l]
    by (simp add: frame_regions_def frame_start_def result_bytes_def sample_call_def call_arguments_def hidden_result_def
        flag_set_def kWord_def kHome_def kSimdCount_def)
qed

end
