(* ===== verification/Native_Plan.thy ===== *)
theory Native_Plan
  imports Native_Call Text_Base
begin

text \<open>
  The data of a native plan (\<open>runtime/src/native/plan.hpp\<close>) and the checks its requests rest on: locations,
  permissions, bytes, evidence and addresses (\<open>native/validation.cpp\<close>). A failure is its message. A plan keeps its
  resources in a list, and an opaque handle is an index into it.
\<close>

section \<open>Views and formats\<close>

record FC_Bytes =
  fb_data :: "byte list option"
  fb_size :: nat

definition copy_text :: "FC_Text \<Rightarrow> string + string" where
  "copy_text input =
    (if ft_size input \<noteq> 0 \<and> ft_data input = None then Inl ''Nonempty native text view has a null data pointer''
     else Inr (view input))"

definition copy_view :: "FC_Bytes \<Rightarrow> string + byte list" where
  "copy_view bytes =
    (if fb_size bytes \<noteq> 0 \<and> fb_data bytes = None then Inl ''Nonempty native byte view has a null data pointer''
     else Inr (case fb_data bytes of None \<Rightarrow> [] | Some data \<Rightarrow> take (fb_size bytes) data))"

definition hex_digit :: "nat \<Rightarrow> char" where
  "hex_digit d = char_of (if d < 10 then 48 + d else 87 + d)"

fun hex :: "nat \<Rightarrow> string" where
  "hex n = (if n < 16 then [hex_digit n] else hex (n div 16) @ [hex_digit (n mod 16)])"

declare hex.simps [simp del]

text \<open>The formats \<open>{:#x}\<close> and \<open>{:#04x}\<close>.\<close>

definition alt_hex :: "nat \<Rightarrow> string" where
  "alt_hex n = ''0x'' @ hex n"

definition alt_hex_04 :: "nat \<Rightarrow> string" where
  "alt_hex_04 n = ''0x'' @ replicate (2 - length (hex n)) CHR ''0'' @ hex n"

text \<open>A failure ends the operation; \<open>take\<close> of the code.\<close>

definition take_value :: "string + 'a \<Rightarrow> ('a \<Rightarrow> string + 'b) \<Rightarrow> string + 'b" where
  "take_value checked rest = (case checked of Inl error \<Rightarrow> Inl error | Inr v \<Rightarrow> rest v)"

lemma take_value_simps [simp]:
  "take_value (Inl e) rest = Inl e"
  "take_value (Inr v) rest = rest v"
  by (simp_all add: take_value_def)

lemma take_value_ok: "take_value checked rest = Inr r \<longleftrightarrow> (\<exists>v. checked = Inr v \<and> rest v = Inr r)"
  by (cases checked) simp_all

section \<open>Records\<close>

record LoadedSection =
  ls_begin :: nat
  ls_size :: nat
  ls_characteristics :: nat

text \<open>The storage of a mapped file is its bytes and the address it has; a live image has none.\<close>

record PlanImage =
  pi_name :: string
  pi_profile :: string
  pi_base :: nat
  pi_size :: nat
  pi_sections :: "LoadedSection list"
  pi_mapped :: "byte list"
  pi_storage :: nat

record LocationRecord =
  loc_image :: nat
  loc_rva :: nat
  loc_name :: string

abbreviation (input) FC_EVIDENCE_NONE :: nat where "FC_EVIDENCE_NONE \<equiv> 0"
abbreviation (input) FC_EVIDENCE_EXACT_BYTES :: nat where "FC_EVIDENCE_EXACT_BYTES \<equiv> 1"
abbreviation (input) FC_EVIDENCE_MASKED_BYTES :: nat where "FC_EVIDENCE_MASKED_BYTES \<equiv> 2"
abbreviation (input) FC_EVIDENCE_POINTS_TO :: nat where "FC_EVIDENCE_POINTS_TO \<equiv> 3"
abbreviation (input) FC_EVIDENCE_DIRECT_CALL_TO :: nat where "FC_EVIDENCE_DIRECT_CALL_TO \<equiv> 4"
abbreviation (input) FC_EVIDENCE_DIRECT_JUMP_TO :: nat where "FC_EVIDENCE_DIRECT_JUMP_TO \<equiv> 5"

record EvidenceRecord =
  ev_kind :: nat
  ev_bytes :: "byte list"
  ev_mask :: "byte list"
  ev_target :: "LocationRecord option"

datatype ResourceKind = RK_Data | RK_Memory | RK_Call | RK_Fault

text \<open>The generated invoker of a call is the call it was generated for.\<close>

record NativeResource =
  nr_kind :: ResourceKind
  nr_address :: nat
  nr_size :: nat
  nr_count :: nat
  nr_fault_kind :: nat
  nr_writable :: bool
  nr_ready :: bool
  nr_allocation :: "nat option"
  nr_storage :: "NativeAllocation option"
  nr_invoker :: "FC_NativeCall option"
  nr_borrowed_invoker :: "nat option"

abbreviation (input) FC_ADDRESS_IMAGE :: nat where "FC_ADDRESS_IMAGE \<equiv> 0"
abbreviation (input) FC_ADDRESS_ALLOCATION :: nat where "FC_ADDRESS_ALLOCATION \<equiv> 1"
abbreviation (input) FC_ADDRESS_FUNCTION :: nat where "FC_ADDRESS_FUNCTION \<equiv> 2"

record AddressRecord =
  ar_kind :: nat
  ar_location :: "LocationRecord option"
  ar_evidence :: EvidenceRecord
  ar_allocation :: "nat option"
  ar_offset :: nat
  ar_function :: nat

definition empty_evidence :: EvidenceRecord where
  "empty_evidence = \<lparr>ev_kind = 0, ev_bytes = [], ev_mask = [], ev_target = None\<rparr>"

definition empty_address :: AddressRecord where
  "empty_address = \<lparr>ar_kind = 0, ar_location = None, ar_evidence = empty_evidence, ar_allocation = None, ar_offset = 0,
    ar_function = 0\<rparr>"

text \<open>An operation's payload; its location and evidence are fields of its own.\<close>

record ReadClaim =
  rc_size :: nat
  rc_mode :: nat
  rc_writable :: bool
  rc_resource :: "nat option"

record ByteWrite =
  bw_bytes :: "byte list"
  bw_original :: "byte list"
  bw_instructions :: bool

record OperandEdit =
  oe_address_value :: bool
  oe_address :: AddressRecord
  oe_encoded :: "nat option"
  oe_original :: "byte list"
  oe_field_offset :: nat
  oe_field_size :: nat
  oe_encoded_signed :: bool
  oe_relative :: bool

record Allocation =
  al_resource :: nat
  al_alignment :: nat
  al_near_image :: "nat option"
  al_initial :: "byte list"

record AddressFixup =
  fx_target :: AddressRecord
  fx_relative :: bool
  fx_encoded :: "nat option"

record BranchEdit =
  be_target :: AddressRecord
  be_kind :: nat
  be_original :: "byte list"
  be_original_target :: nat
  be_resource :: "nat option"
  be_call :: "CallDescription option"

text \<open>The callbacks of a participant are addresses, zero for none.\<close>

record HookParticipant =
  hp_scope :: nat
  hp_context :: nat
  hp_modifier :: nat
  hp_before :: nat
  hp_after :: nat
  hp_initialize :: nat
  hp_state_size :: nat
  hp_state_alignment :: nat
  hp_call :: "CallDescription option"
  hp_original :: "byte list"
  hp_resource :: "nat option"

record NativeCallOperation =
  co_call :: CallDescription
  co_resource :: nat

datatype Operation =
    Op_Read LocationRecord EvidenceRecord ReadClaim
  | Op_Write LocationRecord EvidenceRecord ByteWrite
  | Op_Operand LocationRecord EvidenceRecord OperandEdit
  | Op_Allocate Allocation
  | Op_Fixup LocationRecord EvidenceRecord AddressFixup
  | Op_Branch LocationRecord EvidenceRecord BranchEdit
  | Op_Hook LocationRecord EvidenceRecord HookParticipant
  | Op_Call LocationRecord EvidenceRecord NativeCallOperation

datatype ClaimKind = CK_Read | CK_ContinuingRead | CK_ContinuingWrite | CK_Write | CK_Callable | CK_Hook

record MemoryClaim =
  mc_plan :: nat
  mc_begin :: nat
  mc_end :: nat
  mc_kind :: ClaimKind
  mc_operation :: nat
  mc_offline_image :: nat

record PreparedWrite =
  pw_address :: nat
  pw_bytes :: "byte list"
  pw_location :: LocationRecord

text \<open>A plan; its number stands for its address. The owner is its qualified patch id.\<close>

record SubmittedPlan =
  sp_plan :: nat
  sp_owner_id :: string
  sp_plugin_module :: "nat option"
  sp_images :: "PlanImage list"
  sp_operations :: "Operation list"
  sp_resources :: "NativeResource list"
  sp_claims :: "MemoryClaim list"
  sp_writes :: "PreparedWrite list"
  sp_relays :: "NativeAllocation list"
  sp_error :: "string option"
  sp_preparing :: bool
  sp_exposed :: bool

section \<open>What a plan asks of the process\<close>

text \<open>
  The current permissions and bytes of native memory (\<open>Native_Memory\<close> gives both for a world), the module an
  address belongs to, the hooks already installed, and the instruction decoder. A decoded instruction has at
  least one byte: \<open>dc_rest\<close> counts the others.
\<close>

datatype decoded_operand = Immediate_Operand | Memory_Operand bool bool | Other_Operand

record raw_immediate =
  ri_offset :: nat
  ri_bits :: nat
  ri_is_signed :: bool
  ri_is_relative :: bool

record Decoded =
  dc_rest :: nat
  dc_visible :: nat
  dc_operands :: "decoded_operand list"
  dc_raw_imm :: "raw_immediate list"
  dc_disp_offset :: nat
  dc_disp_bits :: nat

definition dc_length :: "Decoded \<Rightarrow> nat" where
  "dc_length decoded = Suc (dc_rest decoded)"

record hook_view =
  hv_original_view :: "nat \<Rightarrow> byte list \<Rightarrow> string + byte list"
  hv_original_bytes :: "nat \<Rightarrow> byte list"

record native_env =
  ne_architecture :: FC_Architecture
  ne_check_access :: "nat \<Rightarrow> nat \<Rightarrow> bool \<Rightarrow> bool \<Rightarrow> string + unit"
  ne_read :: "nat \<Rightarrow> nat \<Rightarrow> string + byte list"
  ne_module_of :: "nat \<Rightarrow> nat option"
  ne_decode :: "byte list \<Rightarrow> Decoded option"
  ne_hooks :: "hook_view option"

definition kMaximum :: "native_env \<Rightarrow> nat" where
  "kMaximum env = address_max (ne_architecture env)"

definition pointer_size :: "native_env \<Rightarrow> nat" where
  "pointer_size env = kWord (ne_architecture env)"

section \<open>Checks\<close>

definition native_range :: "native_env \<Rightarrow> nat \<Rightarrow> nat \<Rightarrow> nat \<Rightarrow> string + unit" where
  "native_range env byte_size alignment address =
    (if byte_size = 0 \<or> byte_size > kMaximum env \<or> \<not> has_single_bit alignment \<or> address mod alignment \<noteq> 0 \<or>
       byte_size > kMaximum env - address
     then Inl ''Native range size, end address or alignment is invalid'' else Inr ())"

definition extent :: "native_env \<Rightarrow> EvidenceRecord \<Rightarrow> nat" where
  "extent env evidence =
    (if ev_kind evidence = FC_EVIDENCE_POINTS_TO then pointer_size env
     else if ev_kind evidence = FC_EVIDENCE_DIRECT_CALL_TO \<or> ev_kind evidence = FC_EVIDENCE_DIRECT_JUMP_TO then 5
     else length (ev_bytes evidence))"

record FC_Location =
  lo_image :: FC_Text
  lo_rva :: nat
  lo_name :: FC_Text
  lo_invalid :: nat

record FC_Evidence =
  fe_kind :: nat
  fe_bytes :: FC_Bytes
  fe_mask :: FC_Bytes
  fe_target :: FC_Location

record FC_Address =
  fa_kind :: nat
  fa_location :: FC_Location
  fa_evidence :: FC_Evidence
  fa_allocation :: "nat option"
  fa_offset :: nat
  fa_function :: nat
  fa_invalid :: nat

fun first_image :: "string \<Rightarrow> PlanImage list \<Rightarrow> nat option" where
  "first_image profile [] = None"
| "first_image profile (img # images) =
    (if equal_id profile (pi_profile img) then Some 0 else map_option Suc (first_image profile images))"

definition plan_location :: "native_env \<Rightarrow> SubmittedPlan \<Rightarrow> FC_Location \<Rightarrow> string + LocationRecord" where
  "plan_location env plan input =
    (if lo_invalid input \<noteq> 0 then Inl ''Native location has an invalid derivation''
     else take_value (copy_text (lo_image input)) (\<lambda>profile.
       case first_image profile (sp_images plan) of
         None \<Rightarrow> Inl ''Native location does not name a selected image''
       | Some index \<Rightarrow>
           let found = sp_images plan ! index
           in if lo_rva input \<ge> pi_size found then Inl ''Native location is outside its selected image''
              else if lo_rva input > kMaximum env - pi_base found
              then Inl ''Native location exceeds this architecture's address range''
              else take_value (copy_text (lo_name input)) (\<lambda>name.
                Inr \<lparr>loc_image = index, loc_rva = lo_rva input, loc_name = name\<rparr>)))"

text \<open>\<open>images_.at\<close> of an index outside the images is an \<open>std::out_of_range\<close>, which no check of the plan catches.\<close>

definition location_image :: "SubmittedPlan \<Rightarrow> LocationRecord \<Rightarrow> PlanImage" where
  "location_image plan location = sp_images plan ! loc_image location"

definition location_address :: "SubmittedPlan \<Rightarrow> LocationRecord \<Rightarrow> nat" where
  "location_address plan location = pi_base (location_image plan location) + loc_rva location"

definition section_readable :: "nat \<Rightarrow> bool" where
  "section_readable characteristics = (characteristics div 2 ^ 30 mod 2 = 1)"

definition section_executable :: "nat \<Rightarrow> bool" where
  "section_executable characteristics = (characteristics div 2 ^ 29 mod 2 = 1)"

definition plan_access :: "native_env \<Rightarrow> SubmittedPlan \<Rightarrow> LocationRecord \<Rightarrow> nat \<Rightarrow> bool \<Rightarrow> string + unit" where
  "plan_access env plan location byte_size code =
    (let img = location_image plan location
     in if byte_size = 0 \<or> loc_rva location > pi_size img \<or> byte_size > pi_size img - loc_rva location
        then Inl ''Native range is empty or exceeds the selected image''
        else if pi_mapped img \<noteq> []
        then
          (if \<not> list_ex (\<lambda>part. let start = pi_base img + loc_rva location
                 in section_readable (ls_characteristics part) \<and> (\<not> code \<or> section_executable (ls_characteristics part)) \<and>
                    start \<ge> ls_begin part \<and> start - ls_begin part \<le> ls_size part \<and>
                    byte_size \<le> ls_size part - (start - ls_begin part)) (pi_sections img)
           then Inl ''Offline native range is not contained in a section with the required permissions'' else Inr ())
        else ne_check_access env (pi_base img + loc_rva location) byte_size False code)"

definition plan_bytes :: "native_env \<Rightarrow> SubmittedPlan \<Rightarrow> LocationRecord \<Rightarrow> nat \<Rightarrow> bool \<Rightarrow> string + byte list" where
  "plan_bytes env plan location byte_size code =
    take_value (plan_access env plan location byte_size code) (\<lambda>_.
      let img = location_image plan location
      in take_value
           (if pi_mapped img = [] then ne_read env (pi_base img + loc_rva location) byte_size
            else Inr (take byte_size (drop (loc_rva location) (pi_mapped img)))) (\<lambda>result.
         case ne_hooks env of
           Some hooks \<Rightarrow> hv_original_view hooks (pi_base img + loc_rva location) result
         | None \<Rightarrow> Inr result))"

definition copy_evidence :: "native_env \<Rightarrow> SubmittedPlan \<Rightarrow> FC_Evidence \<Rightarrow> string + EvidenceRecord" where
  "copy_evidence env plan input =
    (if fe_kind input > FC_EVIDENCE_DIRECT_JUMP_TO then Inl ''Native evidence kind is unknown''
     else take_value (copy_view (fe_bytes input)) (\<lambda>bytes.
       take_value (copy_view (fe_mask input)) (\<lambda>mask.
         if fe_kind input = FC_EVIDENCE_MASKED_BYTES \<and> length bytes \<noteq> length mask
         then Inl ''Masked evidence bytes and mask differ in size''
         else if (fe_kind input = FC_EVIDENCE_EXACT_BYTES \<or> fe_kind input = FC_EVIDENCE_MASKED_BYTES) \<and> bytes = []
         then Inl ''Native byte evidence is empty''
         else take_value
           (if fe_kind input \<ge> FC_EVIDENCE_POINTS_TO
            then map_sum id Some (plan_location env plan (fe_target input)) else Inr None) (\<lambda>target.
           Inr \<lparr>ev_kind = fe_kind input, ev_bytes = bytes, ev_mask = mask, ev_target = target\<rparr>))))"

text \<open>The first byte that differs under its mask: its index, what was expected, observed, and the mask.\<close>

fun first_difference :: "nat \<Rightarrow> byte list \<Rightarrow> byte list \<Rightarrow> byte list \<Rightarrow> (nat \<times> byte \<times> byte \<times> byte) option" where
  "first_difference i (expected # es) (m # ms) (observed # os) =
    (if observed AND m \<noteq> expected AND m then Some (i, expected, observed, m)
     else first_difference (Suc i) es ms os)"
| "first_difference i _ _ _ = None"

definition branch_target :: "native_env \<Rightarrow> byte list \<Rightarrow> nat \<Rightarrow> nat \<Rightarrow> string + nat" where
  "branch_target env bytes address kind =
    (let opcode = (if kind = 0 then 0xe8 else 0xe9)
     in if length bytes \<noteq> 5 \<or> bytes ! 0 \<noteq> opcode
        then Inl ''Native redirection requires one five-byte direct CALL or unconditional JMP''
        else case decode_rel32_target (address + 5) (signed_bits 32 (int (le_number (drop 1 bytes)))) (ne_architecture env) of
               None \<Rightarrow> Inl ''Native branch target is outside this architecture's address range''
             | Some target \<Rightarrow> Inr target)"

definition at_location :: "SubmittedPlan \<Rightarrow> LocationRecord \<Rightarrow> nat \<Rightarrow> string" where
  "at_location plan location i =
    pi_profile (location_image plan location) @ ''+'' @ alt_hex (loc_rva location + i)"

definition plan_evidence :: "native_env \<Rightarrow> SubmittedPlan \<Rightarrow> LocationRecord \<Rightarrow> EvidenceRecord \<Rightarrow> byte list \<Rightarrow> string + unit" where
  "plan_evidence env plan location evidence observed =
    (if ev_kind evidence = FC_EVIDENCE_NONE then Inr ()
     else
       let wanted = extent env evidence in
       take_value
         (if length observed < wanted
          then take_value
            (plan_bytes env plan (location\<lparr>loc_rva := (loc_rva location + length observed) mod 2 ^ 32\<rparr>)
               (wanted - length observed) False)
            (\<lambda>extra. Inr (observed @ extra))
          else Inr observed) (\<lambda>observed.
       take_value
         (if ev_kind evidence = FC_EVIDENCE_EXACT_BYTES \<or> ev_kind evidence = FC_EVIDENCE_MASKED_BYTES
          then (case first_difference 0 (ev_bytes evidence)
              (if ev_kind evidence = FC_EVIDENCE_MASKED_BYTES then ev_mask evidence
               else replicate (length (ev_bytes evidence)) 0xff) observed of
                None \<Rightarrow> Inr ()
              | Some (i, expected, seen, m) \<Rightarrow>
                  Inl (''Native evidence at '' @ at_location plan location i @ '' ('' @ loc_name location @
                    '') differs: expected '' @ alt_hex_04 (unat expected) @ '', observed '' @ alt_hex_04 (unat seen) @
                    '', mask '' @ alt_hex_04 (unat m)))
          else Inr ()) (\<lambda>_.
       if ev_kind evidence \<ge> FC_EVIDENCE_POINTS_TO
       then
         let expected = location_address plan (the (ev_target evidence))
         in take_value
              (if ev_kind evidence = FC_EVIDENCE_POINTS_TO
               then Inr (le_number (take (pointer_size env) observed))
               else
                 let opcode = (if ev_kind evidence = FC_EVIDENCE_DIRECT_CALL_TO then 0xe8 else 0xe9)
                 in if hd observed \<noteq> opcode
                    then Inl (''Native branch evidence at '' @ at_location plan location 0 @ '' ('' @ loc_name location @
                      '') differs: expected opcode '' @ alt_hex_04 (unat opcode) @ '', observed '' @ alt_hex_04 (unat (hd observed)))
                    else branch_target env (take (extent env evidence) observed) (location_address plan location)
                      (if ev_kind evidence = FC_EVIDENCE_DIRECT_CALL_TO then 0 else 1)) (\<lambda>actual.
            if actual \<noteq> expected
            then Inl (''Native target evidence at '' @ at_location plan location 0 @ '' ('' @ loc_name location @
              '') differs: expected '' @ alt_hex expected @ '', observed '' @ alt_hex actual)
            else Inr ())
       else Inr ())))"

definition copy_address :: "native_env \<Rightarrow> SubmittedPlan \<Rightarrow> FC_Address \<Rightarrow> string + AddressRecord" where
  "copy_address env plan input =
    (if fa_invalid input \<noteq> 0 \<or> fa_kind input > FC_ADDRESS_FUNCTION
     then Inl ''Native address has an invalid derivation or kind''
     else
       let result = empty_address\<lparr>ar_kind := fa_kind input, ar_offset := fa_offset input, ar_function := fa_function input\<rparr>
       in if fa_kind input = FC_ADDRESS_IMAGE
          then take_value (plan_location env plan (fa_location input)) (\<lambda>location.
            take_value (copy_evidence env plan (fa_evidence input)) (\<lambda>evidence.
              take_value (plan_evidence env plan location evidence []) (\<lambda>_.
                Inr (result\<lparr>ar_location := Some location, ar_evidence := evidence\<rparr>))))
          else if fa_kind input = FC_ADDRESS_ALLOCATION
          then (case fa_allocation input of
                  Some index \<Rightarrow>
                    if index < length (sp_resources plan) \<and> nr_kind (sp_resources plan ! index) = RK_Data \<and>
                      fa_offset input \<le> nr_size (sp_resources plan ! index)
                    then Inr (result\<lparr>ar_allocation := Some index\<rparr>)
                    else Inl ''Native address must refer to data allocated by this plan with an offset no greater than its size''
                | None \<Rightarrow> Inl ''Native address must refer to data allocated by this plan with an offset no greater than its size'')
          else take_value (ne_check_access env (fa_function input) 1 False True) (\<lambda>_.
            if sp_plugin_module plan = None \<or> ne_module_of env (fa_function input) = None \<or>
              ne_module_of env (fa_function input) \<noteq> sp_plugin_module plan
            then Inl ''Could not confirm that the native function target belongs to the submitting plugin''
            else Inr result))"

definition plan_address :: "native_env \<Rightarrow> SubmittedPlan \<Rightarrow> AddressRecord \<Rightarrow> bool \<Rightarrow> string + nat" where
  "plan_address env plan target code =
    (if ar_kind target = FC_ADDRESS_IMAGE
     then
       let location = the (ar_location target)
       in take_value (plan_access env plan location 1 code) (\<lambda>_.
          take_value (plan_evidence env plan location (ar_evidence target) []) (\<lambda>_.
            Inr (location_address plan location)))
     else if ar_kind target = FC_ADDRESS_FUNCTION
     then take_value (ne_check_access env (ar_function target) 1 False True) (\<lambda>_. Inr (ar_function target))
     else if code then Inl ''Replacement data cannot be used as an executable branch target''
     else
       let allocation = sp_resources plan ! the (ar_allocation target)
       in if \<not> nr_ready allocation \<or> ar_offset target > nr_size allocation \<or>
            ar_offset target > kMaximum env - nr_address allocation
          then Inl ''Native allocation is not prepared, its offset exceeds its size, or its address overflows''
          else Inr (nr_address allocation + ar_offset target))"

text \<open>Whole instructions from a location, decoded until they cover the bytes asked for.\<close>

function covered_from :: "native_env \<Rightarrow> byte list \<Rightarrow> nat \<Rightarrow> nat \<Rightarrow> nat \<Rightarrow> string + nat" where
  "covered_from env bytes requested minimum covered =
    (if covered < minimum
     then (case ne_decode env (drop covered bytes) of
             None \<Rightarrow> Inl ''Native instruction cannot be decoded''
           | Some decoded \<Rightarrow>
               if covered + dc_length decoded > requested
               then Inl ''Decoded instructions exceed the requested byte range''
               else covered_from env bytes requested minimum (covered + dc_length decoded))
     else Inr covered)"
  by auto
termination by (relation "measure (\<lambda>(env, bytes, requested, minimum, covered). minimum - covered)") (auto simp: dc_length_def)

declare covered_from.simps [simp del]

definition ZYDIS_MAX_INSTRUCTION_LENGTH :: nat where "ZYDIS_MAX_INSTRUCTION_LENGTH = 15"

text \<open>\<open>std::vector::resize\<close>: cut, or filled with zeros.\<close>

definition resize :: "nat \<Rightarrow> byte list \<Rightarrow> byte list" where
  "resize n bytes = take n bytes @ replicate (n - length bytes) 0"

lemma length_resize [simp]: "length (resize n bytes) = n"
  by (simp add: resize_def)

definition plan_instructions :: "native_env \<Rightarrow> SubmittedPlan \<Rightarrow> LocationRecord \<Rightarrow> nat \<Rightarrow> bool \<Rightarrow> string + byte list" where
  "plan_instructions env plan location minimum exact =
    (let available = pi_size (location_image plan location) - loc_rva location;
         requested = (if exact then minimum else min available (minimum + ZYDIS_MAX_INSTRUCTION_LENGTH))
     in take_value (plan_bytes env plan location requested False) (\<lambda>bytes.
        take_value (covered_from env bytes requested minimum 0) (\<lambda>covered.
          if exact \<and> covered \<noteq> minimum then Inl ''Native edit ends inside an instruction''
          else take_value (plan_access env plan location covered True) (\<lambda>_. Inr (resize covered bytes)))))"

lemma plan_instructions_exact:
  "plan_instructions env plan location minimum True = Inr bytes \<Longrightarrow> length bytes = minimum"
  by (auto simp: plan_instructions_def Let_def take_value_ok split: if_splits)

end
