(* ===== verification/Native_Submit.thy ===== *)
theory Native_Submit
  imports Native_Plan
begin

text \<open>
  Submitting native requests to a plan (\<open>SubmittedPlan::submit\<close> and \<open>read\<close> of
  \<open>runtime/src/native/operations.cpp\<close>). A request works on the plan step by step and keeps what it has done when a
  later step fails, so a step takes the plan and gives it back with its outcome.
\<close>

section \<open>Requests\<close>

record FC_ReadClaim =
  fr_location :: FC_Location
  fr_evidence :: FC_Evidence
  fr_size :: nat
  fr_alignment :: nat
  fr_writable :: nat
  fr_mode :: nat
  fr_fault_kind :: nat
  fr_allocation :: "nat option"
  fr_failure :: FC_Text

abbreviation (input) FC_READ_SNAPSHOT :: nat where "FC_READ_SNAPSHOT \<equiv> 0"
abbreviation (input) FC_READ_MEMORY :: nat where "FC_READ_MEMORY \<equiv> 1"
abbreviation (input) FC_READ_FAULT :: nat where "FC_READ_FAULT \<equiv> 2"
abbreviation (input) FC_READ_FAILURE :: nat where "FC_READ_FAILURE \<equiv> 3"

record FC_ByteWrite =
  fw_location :: FC_Location
  fw_evidence :: FC_Evidence
  fw_bytes :: FC_Bytes
  fw_alignment :: nat
  fw_instructions :: nat
  fw_nop :: nat
  fw_instruction_bytes :: nat

record FC_OperandEdit =
  fo_location :: FC_Location
  fo_evidence :: FC_Evidence
  fo_operand :: nat
  fo_signed_value :: nat
  fo_address_value :: nat
  fo_value :: nat
  fo_address :: FC_Address

record FC_Allocation =
  fl_count :: nat
  fl_element_size :: nat
  fl_alignment :: nat
  fl_near_image :: FC_Text
  fl_initial :: FC_Bytes

record FC_AddressFixup =
  ff_location :: FC_Location
  ff_evidence :: FC_Evidence
  ff_target :: FC_Address
  ff_relative :: nat
  ff_width :: nat

abbreviation (input) FC_BRANCH_CALL :: nat where "FC_BRANCH_CALL \<equiv> 0"
abbreviation (input) FC_BRANCH_JUMP :: nat where "FC_BRANCH_JUMP \<equiv> 1"

record FC_BranchEdit =
  fb_location :: FC_Location
  fb_evidence :: FC_Evidence
  fb_target :: FC_Address
  fb_kind :: nat
  fb_insert :: nat
  fb_instruction_bytes :: nat
  fb_original_call :: "FC_NativeCall option"

abbreviation (input) FC_HOOK_FUNCTION :: nat where "FC_HOOK_FUNCTION \<equiv> 0"
abbreviation (input) FC_HOOK_CALL :: nat where "FC_HOOK_CALL \<equiv> 1"
abbreviation (input) FC_HOOK_INSTRUCTION :: nat where "FC_HOOK_INSTRUCTION \<equiv> 2"

record FC_HookParticipant =
  fh_location :: FC_Location
  fh_evidence :: FC_Evidence
  fh_scope :: nat
  fh_call :: "FC_NativeCall option"
  fh_context :: nat
  fh_modifier :: nat
  fh_before :: nat
  fh_after :: nat
  fh_initialize :: nat
  fh_state_size :: nat
  fh_state_alignment :: nat

record FC_CallOperation =
  fc_location :: FC_Location
  fc_evidence :: FC_Evidence
  fc_call :: FC_NativeCall

datatype FC_Operation =
    FC_OPERATION_READ FC_ReadClaim
  | FC_OPERATION_WRITE FC_ByteWrite
  | FC_OPERATION_OPERAND FC_OperandEdit
  | FC_OPERATION_ALLOCATE FC_Allocation
  | FC_OPERATION_FIXUP FC_AddressFixup
  | FC_OPERATION_BRANCH FC_BranchEdit
  | FC_OPERATION_HOOK FC_HookParticipant
  | FC_OPERATION_CALL FC_CallOperation
  | FC_OPERATION_OTHER nat

section \<open>Steps over a plan\<close>

type_synonym 'a planning = "SubmittedPlan \<Rightarrow> SubmittedPlan \<times> (string + 'a)"

definition then_plan :: "'a planning \<Rightarrow> ('a \<Rightarrow> 'b planning) \<Rightarrow> 'b planning" where
  "then_plan step rest plan =
    (case step plan of (plan, Inl error) \<Rightarrow> (plan, Inl error) | (plan, Inr v) \<Rightarrow> rest v plan)"

definition check :: "(SubmittedPlan \<Rightarrow> string + 'a) \<Rightarrow> 'a planning" where
  "check test plan = (plan, test plan)"

definition give :: "'a \<Rightarrow> 'a planning" where
  "give v plan = (plan, Inr v)"

definition refuse :: "string \<Rightarrow> 'a planning" where
  "refuse error plan = (plan, Inl error)"

definition add_claim :: "native_env \<Rightarrow> LocationRecord \<Rightarrow> nat \<Rightarrow> ClaimKind \<Rightarrow> unit planning" where
  "add_claim env location byte_size kind plan =
    (let address = location_address plan location
     in case native_range env byte_size 1 address of
          Inl error \<Rightarrow> (plan, Inl error)
        | Inr _ \<Rightarrow>
            if byte_size > pi_size (location_image plan location) - loc_rva location
            then (plan, Inl ''Native claim exceeds its selected image'')
            else (plan\<lparr>sp_claims := sp_claims plan @
                   [\<lparr>mc_plan = sp_plan plan, mc_begin = address, mc_end = address + byte_size, mc_kind = kind,
                     mc_operation = length (sp_operations plan),
                     mc_offline_image = pi_storage (location_image plan location)\<rparr>]\<rparr>, Inr ()))"

definition evidence_claim :: "native_env \<Rightarrow> LocationRecord \<Rightarrow> EvidenceRecord \<Rightarrow> nat \<Rightarrow> ClaimKind \<Rightarrow> unit planning" where
  "evidence_claim env location evidence byte_size kind =
    (if extent env evidence > byte_size
     then
       let offset = (if kind = CK_Callable then 0 else byte_size)
       in add_claim env (location\<lparr>loc_rva := (loc_rva location + offset) mod 2 ^ 32\<rparr>) (extent env evidence - offset) CK_Read
     else give ())"

definition checked_site :: "native_env \<Rightarrow> FC_Location \<Rightarrow> FC_Evidence \<Rightarrow> nat \<Rightarrow> nat \<Rightarrow> ClaimKind \<Rightarrow> bool \<Rightarrow> byte list \<Rightarrow>
    (LocationRecord \<times> EvidenceRecord) planning" where
  "checked_site env raw raw_evidence byte_size alignment kind code observed =
    then_plan (check (\<lambda>plan. plan_location env plan raw)) (\<lambda>location.
    then_plan (check (\<lambda>plan. native_range env byte_size alignment (location_address plan location))) (\<lambda>_.
    then_plan (if observed = [] then check (\<lambda>plan. plan_access env plan location byte_size code) else give ()) (\<lambda>_.
    then_plan (check (\<lambda>plan. copy_evidence env plan raw_evidence)) (\<lambda>evidence.
    then_plan (check (\<lambda>plan. plan_evidence env plan location evidence observed)) (\<lambda>_.
    then_plan (add_claim env location byte_size kind) (\<lambda>_.
    then_plan (evidence_claim env location evidence byte_size kind) (\<lambda>_.
      give (location, evidence))))))))"

definition claimed_address :: "native_env \<Rightarrow> FC_Address \<Rightarrow> AddressRecord planning" where
  "claimed_address env raw =
    then_plan (check (\<lambda>plan. copy_address env plan raw)) (\<lambda>result.
    then_plan
      (case ar_location result of
         Some location \<Rightarrow>
           if extent env (ar_evidence result) \<noteq> 0
           then add_claim env location (extent env (ar_evidence result)) CK_Read else give ()
       | None \<Rightarrow> give ()) (\<lambda>_. give result))"

definition new_resource :: "ResourceKind \<Rightarrow> nat planning" where
  "new_resource kind plan =
    (plan\<lparr>sp_resources := sp_resources plan @
       [\<lparr>nr_kind = kind, nr_address = 0, nr_size = 0, nr_count = 0, nr_fault_kind = 0, nr_writable = False, nr_ready = False,
         nr_allocation = None, nr_storage = None, nr_invoker = None, nr_borrowed_invoker = None\<rparr>]\<rparr>,
     Inr (length (sp_resources plan)))"

definition edit_resource :: "nat \<Rightarrow> (NativeResource \<Rightarrow> NativeResource) \<Rightarrow> unit planning" where
  "edit_resource index f plan =
    (plan\<lparr>sp_resources := (sp_resources plan)[index := f (sp_resources plan ! index)]\<rparr>, Inr ())"

definition push_operation :: "Operation \<Rightarrow> unit planning" where
  "push_operation operation plan = (plan\<lparr>sp_operations := sp_operations plan @ [operation]\<rparr>, Inr ())"

section \<open>The requests\<close>

text \<open>The size of a range as a \<open>size_t\<close>.\<close>

definition to_size :: "native_env \<Rightarrow> nat \<Rightarrow> nat" where
  "to_size env n = n mod (kMaximum env + 1)"

definition submit_read :: "native_env \<Rightarrow> FC_ReadClaim \<Rightarrow> nat option planning" where
  "submit_read env r =
    (if fr_mode r = FC_READ_FAILURE
     then then_plan (check (\<lambda>_. copy_text (fr_failure r))) refuse
     else if (fr_mode r \<noteq> FC_READ_MEMORY \<and> fr_mode r \<noteq> FC_READ_FAULT) \<or> fr_writable r > 1
     then refuse ''Native read claim has an invalid mode or write permission''
     else case fr_allocation r of
       Some index \<Rightarrow>
         then_plan (check (\<lambda>plan.
           if fr_mode r \<noteq> FC_READ_MEMORY \<or> \<not> index < length (sp_resources plan) \<or>
             nr_kind (sp_resources plan ! index) \<noteq> RK_Data
           then Inl ''Continuing allocation access requires memory mode and an allocation owned by this plan''
           else Inr (nr_size (sp_resources plan ! index)))) (\<lambda>allocated.
         then_plan (new_resource RK_Memory) (\<lambda>produced.
         then_plan (edit_resource produced (\<lambda>resource. resource\<lparr>nr_allocation := Some index, nr_size := allocated,
             nr_writable := fr_writable r \<noteq> 0\<rparr>)) (\<lambda>_.
         then_plan (push_operation (Op_Read \<lparr>loc_image = 0, loc_rva = 0, loc_name = []\<rparr> empty_evidence
             \<lparr>rc_size = allocated, rc_mode = fr_mode r, rc_writable = fr_writable r \<noteq> 0, rc_resource = Some produced\<rparr>)) (\<lambda>_.
           give (Some produced)))))
     | None \<Rightarrow>
         (let fault = (fr_mode r = FC_READ_FAULT);
              kind = (if fault then CK_Read else if fr_writable r \<noteq> 0 then CK_ContinuingWrite else CK_ContinuingRead)
          in then_plan (checked_site env (fr_location r) (fr_evidence r) (fr_size r) (fr_alignment r) kind fault []) (\<lambda>(location, evidence).
             then_plan (check (\<lambda>plan.
               if fr_writable r \<noteq> 0 \<and> pi_mapped (location_image plan location) = []
               then ne_check_access env (location_address plan location) (to_size env (fr_size r)) True False else Inr ())) (\<lambda>_.
             then_plan
               (if fault
                then
                  if fr_fault_kind r < 1 \<or> fr_fault_kind r > 3
                  then refuse ''Expected native fault has an invalid access kind''
                  else then_plan (check (\<lambda>plan. plan_instructions env plan location 1 False)) (\<lambda>original.
                    then_plan (add_claim env location (length original) CK_Read) (\<lambda>_.
                    then_plan (new_resource RK_Fault) (\<lambda>produced.
                    then_plan (edit_resource produced (\<lambda>resource. resource\<lparr>nr_fault_kind := fr_fault_kind r\<rparr>)) (\<lambda>_.
                      give produced))))
                else new_resource RK_Memory) (\<lambda>produced.
             then_plan (\<lambda>plan. edit_resource produced (\<lambda>resource. resource\<lparr>nr_address := location_address plan location,
                 nr_size := fr_size r, nr_writable := fr_writable r \<noteq> 0\<rparr>) plan) (\<lambda>_.
             then_plan (push_operation (Op_Read location evidence
                 \<lparr>rc_size = fr_size r, rc_mode = fr_mode r, rc_writable = fr_writable r \<noteq> 0, rc_resource = Some produced\<rparr>)) (\<lambda>_.
               give (Some produced))))))))"

definition submit_write :: "native_env \<Rightarrow> FC_ByteWrite \<Rightarrow> nat option planning" where
  "submit_write env write =
    then_plan (check (\<lambda>_. copy_view (fw_bytes write))) (\<lambda>replacement.
      let byte_size = (if fw_nop write \<noteq> 0 then fw_instruction_bytes write else length replacement);
          decoded = (fw_instructions write \<noteq> 0 \<or> fw_nop write \<noteq> 0)
      in then_plan
           (if decoded
            then then_plan (check (\<lambda>plan. plan_location env plan (fw_location write))) (\<lambda>location.
              check (\<lambda>plan. plan_instructions env plan location (to_size env byte_size) True))
            else give []) (\<lambda>original.
         then_plan (checked_site env (fw_location write) (fw_evidence write) byte_size (fw_alignment write) CK_Write decoded original)
           (\<lambda>(location, evidence).
         then_plan (push_operation (Op_Write location evidence
             \<lparr>bw_bytes = (if fw_nop write \<noteq> 0 then replicate (to_size env byte_size) 0x90 else replacement),
              bw_original = original, bw_instructions = decoded\<rparr>)) (\<lambda>_.
           give None))))"

text \<open>The field of a decoded operand: its offset and width in bytes, its signedness, and whether it is relative.\<close>

definition operand_field :: "Decoded \<Rightarrow> nat \<Rightarrow> string + nat \<times> nat \<times> bool \<times> bool" where
  "operand_field decoded index =
    (case dc_operands decoded ! index of
       Immediate_Operand \<Rightarrow>
         (let immediate = length (filter (\<lambda>operand. operand = Immediate_Operand) (take index (dc_operands decoded)))
          in if immediate \<ge> 2 then Inl ''Native immediate encoding is unsupported''
             else let raw = dc_raw_imm decoded ! immediate
                  in Inr (ri_offset raw, ri_bits raw div 8, ri_is_signed raw, ri_is_relative raw))
     | Memory_Operand has_displacement ip_base \<Rightarrow>
         if has_displacement then Inr (dc_disp_offset decoded, dc_disp_bits decoded div 8, True, ip_base)
         else Inl ''Selected native operand has no supported immediate or displacement field''
     | Other_Operand \<Rightarrow> Inl ''Selected native operand has no supported immediate or displacement field'')"

definition location_end :: "SubmittedPlan \<Rightarrow> LocationRecord \<Rightarrow> nat \<Rightarrow> nat" where
  "location_end plan location byte_size = location_address plan location + byte_size"

definition encode_address :: "native_env \<Rightarrow> SubmittedPlan \<Rightarrow> LocationRecord \<Rightarrow> nat \<Rightarrow> nat \<Rightarrow> bool \<Rightarrow> nat \<Rightarrow> bool \<Rightarrow> bool \<Rightarrow> bool \<Rightarrow>
    string + nat" where
  "encode_address env plan location byte_size width encoded_signed v signed_value address_value relative =
    encode_field width encoded_signed v signed_value address_value relative (location_end plan location byte_size)
      (ne_architecture env)"

definition submit_operand :: "native_env \<Rightarrow> FC_OperandEdit \<Rightarrow> nat option planning" where
  "submit_operand env edit =
    then_plan (check (\<lambda>plan. plan_location env plan (fo_location edit))) (\<lambda>location.
    then_plan (check (\<lambda>plan. plan_bytes env plan location
        (min ZYDIS_MAX_INSTRUCTION_LENGTH (pi_size (location_image plan location) - loc_rva location)) False)) (\<lambda>bytes.
    then_plan (check (\<lambda>_. case ne_decode env bytes of
        None \<Rightarrow> Inl ''Native instruction cannot be decoded'' | Some decoded \<Rightarrow> Inr decoded)) (\<lambda>decoded.
      let original = resize (dc_length decoded) bytes
      in then_plan (check (\<lambda>plan. plan_access env plan location (length original) True)) (\<lambda>_.
         if fo_operand edit \<ge> dc_visible decoded
         then refuse ''Selected explicit operand index is outside the decoded instruction''
         else then_plan (check (\<lambda>_. operand_field decoded (fo_operand edit))) (\<lambda>(offset, width, encoded_signed, relative).
           if width = 0 \<or> width > 8 \<or> offset + width > length original
           then refuse ''Native operand field must contain 1 to 8 bytes within the instruction''
           else then_plan (check (\<lambda>plan. copy_evidence env plan (fo_evidence edit))) (\<lambda>evidence.
             then_plan (check (\<lambda>plan. plan_evidence env plan location evidence original)) (\<lambda>_.
             then_plan (add_claim env location (length original) CK_Write) (\<lambda>_.
             then_plan (evidence_claim env location evidence (length original) CK_Write) (\<lambda>_.
             then_plan (if fo_address_value edit \<noteq> 0 then claimed_address env (fo_address edit) else give empty_address) (\<lambda>address.
             then_plan
               (if fo_address_value edit = 0 \<or> ar_kind address \<noteq> FC_ADDRESS_ALLOCATION
                then then_plan (check (\<lambda>plan.
                    if fo_address_value edit \<noteq> 0 then plan_address env plan address False else Inr (fo_value edit))) (\<lambda>v.
                  check (\<lambda>plan. map_sum id Some (encode_address env plan location (length original) width encoded_signed v
                    (fo_signed_value edit \<noteq> 0) (fo_address_value edit \<noteq> 0) relative)))
                else give None) (\<lambda>encoded.
             then_plan (push_operation (Op_Operand location evidence
                 \<lparr>oe_address_value = (fo_address_value edit \<noteq> 0), oe_address = address, oe_encoded = encoded,
                  oe_original = original, oe_field_offset = offset, oe_field_size = width,
                  oe_encoded_signed = encoded_signed, oe_relative = relative\<rparr>)) (\<lambda>_.
               give None))))))))))))"

definition submit_allocate :: "native_env \<Rightarrow> FC_Allocation \<Rightarrow> nat option planning" where
  "submit_allocate env allocation =
    (if fl_count allocation = 0 \<or> fl_element_size allocation = 0 \<or>
       fl_count allocation > kMaximum env div fl_element_size allocation \<or> \<not> has_single_bit (fl_alignment allocation)
     then refuse ''Native allocation size or alignment is invalid''
     else
       let byte_size = fl_count allocation * fl_element_size allocation
       in then_plan (check (\<lambda>_. copy_view (fl_initial allocation))) (\<lambda>initial.
          if initial \<noteq> [] \<and> length initial \<noteq> byte_size
          then refuse ''Native allocation initialization must match the allocation's size in bytes''
          else then_plan (check (\<lambda>_. copy_text (fl_near_image allocation))) (\<lambda>near_id.
            then_plan
              (if near_id \<noteq> []
               then check (\<lambda>plan. case first_image near_id (sp_images plan) of
                      None \<Rightarrow> Inl ''Near allocation does not name a selected image'' | Some index \<Rightarrow> Inr (Some index))
               else give None) (\<lambda>near_index.
            then_plan (new_resource RK_Data) (\<lambda>produced.
            then_plan (edit_resource produced (\<lambda>resource. resource\<lparr>nr_size := byte_size, nr_count := fl_count allocation,
                nr_writable := True\<rparr>)) (\<lambda>_.
            then_plan (push_operation (Op_Allocate \<lparr>al_resource = produced, al_alignment = fl_alignment allocation,
                al_near_image = near_index, al_initial = initial\<rparr>)) (\<lambda>_.
              give (Some produced))))))))"

definition submit_fixup :: "native_env \<Rightarrow> FC_AddressFixup \<Rightarrow> nat option planning" where
  "submit_fixup env fixup =
    (if (ff_relative fixup \<noteq> 0 \<and> ff_width fixup \<noteq> 4) \<or> (ff_relative fixup = 0 \<and> ff_width fixup \<noteq> pointer_size env)
     then refuse ''Native address field has an incompatible width''
     else
       let relative = (ff_relative fixup \<noteq> 0); width = (if relative then 4 else pointer_size env)
       in then_plan (checked_site env (ff_location fixup) (ff_evidence fixup) width 1 CK_Write False []) (\<lambda>(location, evidence).
          then_plan (claimed_address env (ff_target fixup)) (\<lambda>target.
          then_plan
            (if ar_kind target \<noteq> FC_ADDRESS_ALLOCATION
             then then_plan (check (\<lambda>plan. plan_address env plan target False)) (\<lambda>v.
               check (\<lambda>plan. map_sum id Some (encode_address env plan location width width relative v False True relative)))
             else give None) (\<lambda>encoded.
          then_plan (push_operation (Op_Fixup location evidence
              \<lparr>fx_target = target, fx_relative = relative, fx_encoded = encoded\<rparr>)) (\<lambda>_.
            give None)))))"

definition submit_branch :: "native_env \<Rightarrow> FC_BranchEdit \<Rightarrow> nat option planning" where
  "submit_branch env branch =
    (if fb_kind branch > FC_BRANCH_JUMP \<or> fb_insert branch > 1 \<or>
       (fb_insert branch \<noteq> 0 \<and> (fb_instruction_bytes branch < 5 \<or> fb_original_call branch \<noteq> None))
     then refuse ''Native branch kind, insertion flag, instruction range or requested original call is invalid''
     else
       let byte_size = (if fb_insert branch \<noteq> 0 then fb_instruction_bytes branch else 5)
       in then_plan (check (\<lambda>plan. plan_location env plan (fb_location branch))) (\<lambda>site.
          then_plan (check (\<lambda>plan. plan_instructions env plan site (to_size env byte_size) True)) (\<lambda>original.
          then_plan (checked_site env (fb_location branch) (fb_evidence branch) byte_size 1 CK_Write True original) (\<lambda>(location, evidence).
          then_plan (claimed_address env (fb_target branch)) (\<lambda>target.
          if ar_kind target = FC_ADDRESS_ALLOCATION
          then refuse ''Replacement data cannot be used as an executable branch target''
          else then_plan (check (\<lambda>plan. plan_address env plan target True)) (\<lambda>_.
            then_plan
              (if fb_insert branch \<noteq> 0 then give 0
               else check (\<lambda>plan. branch_target env original (location_address plan location) (fb_kind branch))) (\<lambda>previous.
            then_plan
              (case fb_original_call branch of
                 None \<Rightarrow> give (None, None)
               | Some original_call \<Rightarrow>
                   then_plan (check (\<lambda>_. validate_call (ne_architecture env) original_call (\<not> compiler_call original_call))) (\<lambda>call.
                   then_plan (check (\<lambda>plan. if pi_mapped (location_image plan location) = []
                       then ne_check_access env previous 1 False True else Inr ())) (\<lambda>_.
                   then_plan (new_resource RK_Call) (\<lambda>produced.
                   then_plan (edit_resource produced (\<lambda>resource. resource\<lparr>nr_address := previous\<rparr>)) (\<lambda>_.
                     give (Some produced, Some call)))))) (\<lambda>(produced, call).
            then_plan (push_operation (Op_Branch location evidence
                \<lparr>be_target = target, be_kind = fb_kind branch, be_original = original, be_original_target = previous,
                 be_resource = produced, be_call = call\<rparr>)) (\<lambda>_.
              give produced)))))))))"

definition submit_callback :: "native_env \<Rightarrow> nat \<Rightarrow> unit planning" where
  "submit_callback env function =
    (if function = 0 then give ()
     else then_plan (check (\<lambda>_. ne_check_access env function 1 False True)) (\<lambda>_.
       check (\<lambda>plan. if sp_plugin_module plan \<noteq> None \<and>
           (ne_module_of env function = None \<or> ne_module_of env function \<noteq> sp_plugin_module plan)
         then Inl ''Could not verify that the native hook callback belongs to the submitting plugin'' else Inr ())))"

definition submit_hook :: "native_env \<Rightarrow> FC_HookParticipant \<Rightarrow> nat option planning" where
  "submit_hook env hook =
    (if fh_scope hook > FC_HOOK_INSTRUCTION \<or> (fh_modifier hook = 0 \<and> fh_before hook = 0 \<and> fh_after hook = 0) \<or>
       (fh_modifier hook \<noteq> 0 \<and> (fh_before hook \<noteq> 0 \<or> fh_after hook \<noteq> 0)) \<or>
       (fh_state_size hook \<noteq> 0 \<and> (fh_initialize hook = 0 \<or> \<not> has_single_bit (fh_state_alignment hook))) \<or>
       fh_state_size hook > kMaximum env
     then refuse ''Native hook scope, callbacks or state layout are invalid''
     else
       then_plan (submit_callback env (fh_modifier hook)) (\<lambda>_.
       then_plan (submit_callback env (fh_before hook)) (\<lambda>_.
       then_plan (submit_callback env (fh_after hook)) (\<lambda>_.
       then_plan (submit_callback env (fh_initialize hook)) (\<lambda>_.
       then_plan (check (\<lambda>plan. plan_location env plan (fh_location hook))) (\<lambda>location.
       then_plan (check (\<lambda>plan.
         let saved = (case ne_hooks env of Some hooks \<Rightarrow> hv_original_bytes hooks (location_address plan location) | None \<Rightarrow> [])
         in if saved \<noteq> [] then plan_bytes env plan location (length saved) True else Inr [])) (\<lambda>saved.
       then_plan
         (if saved = [] then check (\<lambda>plan. plan_instructions env plan location 5 (fh_scope hook = FC_HOOK_CALL)) else give saved)
         (\<lambda>original.
       then_plan (check (\<lambda>plan.
         if fh_scope hook = FC_HOOK_CALL then branch_target env original (location_address plan location) FC_BRANCH_CALL
         else Inr 0)) (\<lambda>_.
       then_plan (check (\<lambda>plan. copy_evidence env plan (fh_evidence hook))) (\<lambda>evidence.
       then_plan (check (\<lambda>plan. plan_evidence env plan location evidence original)) (\<lambda>_.
       then_plan
         (if fh_scope hook \<noteq> FC_HOOK_INSTRUCTION
          then
            (case fh_call hook of
               None \<Rightarrow> refuse ''Typed native hook has no call description''
             | Some call \<Rightarrow>
                 then_plan (check (\<lambda>_. validate_call (ne_architecture env) call True)) (\<lambda>description.
                   if fh_modifier hook \<noteq> 0
                   then then_plan (new_resource RK_Call) (\<lambda>produced. give (Some description, Some produced))
                   else give (Some description, None)))
          else if fh_call hook \<noteq> None then refuse ''Instruction hook cannot have a typed call description''
          else give (None, None)) (\<lambda>(call, produced).
       then_plan (add_claim env location (length original) CK_Hook) (\<lambda>_.
       then_plan
         (if extent env evidence > length original
          then add_claim env (location\<lparr>loc_rva := (loc_rva location + length original) mod 2 ^ 32\<rparr>)
            (extent env evidence - length original) CK_Read
          else give ()) (\<lambda>_.
       then_plan (push_operation (Op_Hook location evidence
           \<lparr>hp_scope = fh_scope hook, hp_context = fh_context hook, hp_modifier = fh_modifier hook, hp_before = fh_before hook,
            hp_after = fh_after hook, hp_initialize = fh_initialize hook, hp_state_size = fh_state_size hook,
            hp_state_alignment = fh_state_alignment hook, hp_call = call, hp_original = original, hp_resource = produced\<rparr>)) (\<lambda>_.
         give produced)))))))))))))))"

definition submit_call :: "native_env \<Rightarrow> FC_CallOperation \<Rightarrow> nat option planning" where
  "submit_call env call =
    then_plan (checked_site env (fc_location call) (fc_evidence call) 1 1 CK_Callable True []) (\<lambda>(location, evidence).
    then_plan (new_resource RK_Call) (\<lambda>produced.
    then_plan (\<lambda>plan. edit_resource produced (\<lambda>resource. resource\<lparr>nr_address := location_address plan location\<rparr>) plan) (\<lambda>_.
    then_plan (check (\<lambda>_. validate_call (ne_architecture env) (fc_call call) (\<not> compiler_call (fc_call call)))) (\<lambda>description.
    then_plan (push_operation (Op_Call location evidence \<lparr>co_call = description, co_resource = produced\<rparr>)) (\<lambda>_.
      give (Some produced))))))"

definition submit_operation :: "native_env \<Rightarrow> FC_Operation \<Rightarrow> nat option planning" where
  "submit_operation env input = (case input of
     FC_OPERATION_READ r \<Rightarrow> submit_read env r
   | FC_OPERATION_WRITE write \<Rightarrow> submit_write env write
   | FC_OPERATION_OPERAND edit \<Rightarrow> submit_operand env edit
   | FC_OPERATION_ALLOCATE allocation \<Rightarrow> submit_allocate env allocation
   | FC_OPERATION_FIXUP fixup \<Rightarrow> submit_fixup env fixup
   | FC_OPERATION_BRANCH branch \<Rightarrow> submit_branch env branch
   | FC_OPERATION_HOOK hook \<Rightarrow> submit_hook env hook
   | FC_OPERATION_CALL call \<Rightarrow> submit_call env call
   | FC_OPERATION_OTHER _ \<Rightarrow> refuse ''Native operation tag is unknown'')"

text \<open>The first failure is kept, and ends every later request.\<close>

definition fail :: "string \<Rightarrow> SubmittedPlan \<Rightarrow> SubmittedPlan" where
  "fail error plan = (if sp_error plan = None then plan\<lparr>sp_error := Some error\<rparr> else plan)"

definition failing :: "'a planning \<Rightarrow> 'a planning" where
  "failing step plan =
    (case step plan of
       (plan, Inr v) \<Rightarrow> (plan, Inr v)
     | (plan, Inl error) \<Rightarrow> (let plan = fail error plan in (plan, Inl (the (sp_error plan)))))"

definition submit :: "native_env \<Rightarrow> FC_Operation \<Rightarrow> nat option planning" where
  "submit env input plan =
    (case sp_error plan of
       Some error \<Rightarrow> (plan, Inl error)
     | None \<Rightarrow> failing
         (if sp_preparing plan then refuse ''Native requests must be submitted during Plan'' else submit_operation env input) plan)"

definition snapshot_request :: "native_env \<Rightarrow> FC_ReadClaim \<Rightarrow> byte list planning" where
  "snapshot_request env claim =
    then_plan (check (\<lambda>plan. plan_location env plan (fr_location claim))) (\<lambda>location.
    then_plan (check (\<lambda>plan. native_range env (fr_size claim) (fr_alignment claim) (location_address plan location))) (\<lambda>_.
    then_plan (check (\<lambda>plan. copy_evidence env plan (fr_evidence claim))) (\<lambda>evidence.
      let byte_size = max (to_size env (fr_size claim)) (extent env evidence)
      in then_plan (check (\<lambda>plan. plan_bytes env plan location byte_size False)) (\<lambda>snapshot.
         then_plan (check (\<lambda>plan. plan_evidence env plan location evidence snapshot)) (\<lambda>_.
         then_plan (\<lambda>plan. (plan\<lparr>sp_claims := sp_claims plan @
             [\<lparr>mc_plan = sp_plan plan, mc_begin = location_address plan location,
               mc_end = location_address plan location + byte_size, mc_kind = CK_Read,
               mc_operation = length (sp_operations plan), mc_offline_image = pi_storage (location_image plan location)\<rparr>]\<rparr>,
             Inr ())) (\<lambda>_.
         then_plan (push_operation (Op_Read location evidence
             \<lparr>rc_size = fr_size claim, rc_mode = FC_READ_SNAPSHOT, rc_writable = False, rc_resource = None\<rparr>)) (\<lambda>_.
           give (take (fr_size claim) snapshot))))))))"

definition submit_snapshot :: "native_env \<Rightarrow> FC_ReadClaim \<Rightarrow> bool \<Rightarrow> byte list planning" where
  "submit_snapshot env claim has_output plan =
    (case sp_error plan of
       Some error \<Rightarrow> (plan, Inl error)
     | None \<Rightarrow> failing
         (if \<not> has_output \<or> sp_preparing plan
          then refuse ''Native snapshot requires output storage and submission during Plan''
          else snapshot_request env claim)
         plan)"

end
