(* ===== verification/Native_Claims.thy ===== *)
theory Native_Claims
  imports Native_Submit
begin

text \<open>
  Conflicts between the ranges plans reserve, and the plans that may be installed together
  (\<open>claims_conflict\<close>, \<open>SubmittedPlan::validate\<close> and \<open>validate_plans\<close> of
  \<open>runtime/src/native/validation.cpp\<close>). \<open>plans\<close> gives the plan a claim points to.
\<close>

section \<open>Conflicts\<close>

definition claim_operation :: "(nat \<Rightarrow> SubmittedPlan) \<Rightarrow> MemoryClaim \<Rightarrow> Operation" where
  "claim_operation plans claim = sp_operations (plans (mc_plan claim)) ! mc_operation claim"

definition read_only :: "MemoryClaim \<Rightarrow> bool" where
  "read_only claim = (mc_kind claim = CK_Read \<or> mc_kind claim = CK_ContinuingRead \<or> mc_kind claim = CK_Callable)"

definition hooks_conflict :: "MemoryClaim \<Rightarrow> MemoryClaim \<Rightarrow> HookParticipant \<Rightarrow> HookParticipant \<Rightarrow> bool" where
  "hooks_conflict a b left right =
    (mc_begin a \<noteq> mc_begin b \<or> mc_end a \<noteq> mc_end b \<or> hp_scope left \<noteq> hp_scope right \<or>
     (hp_modifier left \<noteq> 0 \<and> hp_modifier right \<noteq> 0) \<or> (hp_call left \<noteq> None) \<noteq> (hp_call right \<noteq> None) \<or>
     (case (hp_call left, hp_call right) of
        (Some left_call, Some right_call) \<Rightarrow> \<not> equivalent_call left_call right_call
      | _ \<Rightarrow> False))"

definition call_hook_conflict :: "MemoryClaim \<Rightarrow> MemoryClaim \<Rightarrow> NativeCallOperation \<Rightarrow> HookParticipant \<Rightarrow> bool" where
  "call_hook_conflict a b call hook =
    (mc_begin a \<noteq> mc_begin b \<or> hp_scope hook \<noteq> FC_HOOK_FUNCTION \<or>
     (case hp_call hook of None \<Rightarrow> True | Some hook_call \<Rightarrow> \<not> equivalent_call (co_call call) hook_call))"

definition shares_own :: "MemoryClaim \<Rightarrow> bool" where
  "shares_own claim =
    (mc_kind claim = CK_Read \<or> mc_kind claim = CK_ContinuingRead \<or> mc_kind claim = CK_ContinuingWrite)"

definition claims_conflict :: "(nat \<Rightarrow> SubmittedPlan) \<Rightarrow> MemoryClaim \<Rightarrow> MemoryClaim \<Rightarrow> bool" where
  "claims_conflict plans a b =
    (if mc_offline_image a \<noteq> mc_offline_image b \<or> mc_begin a \<ge> mc_end b \<or> mc_begin b \<ge> mc_end a then False
     else
       let own = (mc_plan a = mc_plan b)
       in if own \<and> mc_operation a = mc_operation b then False
          else if read_only a \<and> read_only b then False
          else if (mc_kind a = CK_ContinuingRead \<and> mc_kind b = CK_ContinuingWrite) \<or>
            (mc_kind b = CK_ContinuingRead \<and> mc_kind a = CK_ContinuingWrite) then False
          else case (claim_operation plans a, claim_operation plans b) of
            (Op_Hook _ _ left_hook, Op_Hook _ _ right_hook) \<Rightarrow> hooks_conflict a b left_hook right_hook
          | (Op_Call _ _ call, Op_Hook _ _ hook) \<Rightarrow> call_hook_conflict a b call hook
          | (Op_Hook _ _ hook, Op_Call _ _ call) \<Rightarrow> call_hook_conflict a b call hook
          | _ \<Rightarrow> if own \<and> (shares_own a \<or> shares_own b) then False else True)"

definition claim_conflict :: "(nat \<Rightarrow> SubmittedPlan) \<Rightarrow> MemoryClaim \<Rightarrow> MemoryClaim \<Rightarrow> string" where
  "claim_conflict plans a b =
    ''Native ranges for '' @ [CHR 0x27] @ sp_owner_id (plans (mc_plan a)) @ [CHR 0x27] @ '' and '' @ [CHR 0x27] @
    sp_owner_id (plans (mc_plan b)) @ [CHR 0x27] @ '' overlap at ['' @ alt_hex (max (mc_begin a) (mc_begin b)) @ '', '' @
    alt_hex (min (mc_end a) (mc_end b)) @ '')''"

text \<open>Whether two requirements can coexist does not depend on which comes first.\<close>

lemma claims_conflict_sym: "claims_conflict plans a b = claims_conflict plans b a"
proof -
  have hooks: "hooks_conflict a b l r = hooks_conflict b a r l" for l r
    by (auto simp: hooks_conflict_def equivalent_call_iff split: option.splits)
  have call: "call_hook_conflict a b c h = call_hook_conflict b a c h" for c h
    by (auto simp: call_hook_conflict_def)
  show ?thesis
    unfolding claims_conflict_def Let_def
    by (cases "claim_operation plans a"; cases "claim_operation plans b")
      (auto simp: hooks call eq_commute [of "mc_plan a"] eq_commute [of "mc_operation a"] eq_commute [of "mc_offline_image a"])
qed

section \<open>One plan\<close>

text \<open>The first conflict of a claim with later ones, and of a list with itself, in the order of the loops.\<close>

fun first_conflict :: "(nat \<Rightarrow> SubmittedPlan) \<Rightarrow> MemoryClaim list \<Rightarrow> (MemoryClaim \<times> MemoryClaim) option" where
  "first_conflict plans [] = None"
| "first_conflict plans (a # claims) =
    (case List.find (\<lambda>b. claims_conflict plans a b) claims of
       Some b \<Rightarrow> Some (a, b)
     | None \<Rightarrow> first_conflict plans claims)"

definition validate :: "(nat \<Rightarrow> SubmittedPlan) \<Rightarrow> SubmittedPlan \<Rightarrow> string + unit" where
  "validate plans plan =
    (case sp_error plan of
       Some error \<Rightarrow> Inl error
     | None \<Rightarrow>
         (case first_conflict plans (sp_claims plan) of
            Some (a, b) \<Rightarrow> Inl (claim_conflict plans a b)
          | None \<Rightarrow> Inr ()))"

section \<open>Plans in order\<close>

text \<open>The first claim of a plan that conflicts with an accepted one.\<close>

fun first_overlap :: "(nat \<Rightarrow> SubmittedPlan) \<Rightarrow> MemoryClaim list \<Rightarrow> MemoryClaim list \<Rightarrow> (MemoryClaim \<times> MemoryClaim) option" where
  "first_overlap plans accepted [] = None"
| "first_overlap plans accepted (claim # claims) =
    (case List.find (\<lambda>prior. claims_conflict plans claim prior) accepted of
       Some prior \<Rightarrow> Some (claim, prior)
     | None \<Rightarrow> first_overlap plans accepted claims)"

fun validate_from :: "(nat \<Rightarrow> SubmittedPlan) \<Rightarrow> nat list \<Rightarrow> MemoryClaim list \<Rightarrow> (nat \<times> string) list \<Rightarrow> (nat \<times> string) list" where
  "validate_from plans [] accepted failures = failures"
| "validate_from plans (p # ready) accepted failures =
    (case validate plans (plans p) of
       Inl error \<Rightarrow> validate_from plans ready accepted (failures @ [(p, error)])
     | Inr _ \<Rightarrow>
         (case first_overlap plans accepted (sp_claims (plans p)) of
            Some (claim, prior) \<Rightarrow>
              validate_from plans ready accepted (failures @ [(p, claim_conflict plans claim prior)])
          | None \<Rightarrow> validate_from plans ready (accepted @ sp_claims (plans p)) failures))"

definition validate_plans :: "(nat \<Rightarrow> SubmittedPlan) \<Rightarrow> nat list \<Rightarrow> MemoryClaim list \<Rightarrow> (nat \<times> string) list" where
  "validate_plans plans ready installed = validate_from plans ready installed []"

section \<open>Compatible claims\<close>

abbreviation compatible :: "(nat \<Rightarrow> SubmittedPlan) \<Rightarrow> MemoryClaim list \<Rightarrow> bool" where
  "compatible plans \<equiv> sorted_wrt (\<lambda>a b. \<not> claims_conflict plans a b)"

lemma first_conflict_None: "first_conflict plans claims = None \<longleftrightarrow> compatible plans claims"
  by (induction claims) (auto simp: find_None_iff_all dest!: find_SomeD split: option.splits)

lemma first_overlap_None:
  "first_overlap plans accepted claims = None \<longleftrightarrow>
   (\<forall>claim \<in> set claims. \<forall>prior \<in> set accepted. \<not> claims_conflict plans claim prior)"
  by (induction claims) (auto simp: find_None_iff_all dest!: find_SomeD split: option.splits)

lemma first_overlap_Some:
  "first_overlap plans accepted claims = Some (claim, prior) \<Longrightarrow>
   claim \<in> set claims \<and> prior \<in> set accepted \<and> claims_conflict plans claim prior"
  by (induction claims) (auto dest!: find_SomeD split: option.splits)

text \<open>The plans the loop accepts, as a specification of its own: each plan that is valid and disturbs nothing before it.\<close>

definition acceptable :: "(nat \<Rightarrow> SubmittedPlan) \<Rightarrow> MemoryClaim list \<Rightarrow> nat \<Rightarrow> bool" where
  "acceptable plans accepted p =
    (sp_error (plans p) = None \<and> compatible plans (accepted @ sp_claims (plans p)))"

fun accepted_plans :: "(nat \<Rightarrow> SubmittedPlan) \<Rightarrow> MemoryClaim list \<Rightarrow> nat list \<Rightarrow> nat list" where
  "accepted_plans plans accepted [] = []"
| "accepted_plans plans accepted (p # ready) =
    (if acceptable plans accepted p
     then p # accepted_plans plans (accepted @ sp_claims (plans p)) ready
     else accepted_plans plans accepted ready)"

lemma acceptable_iff:
  assumes "compatible plans accepted"
  shows "acceptable plans accepted p \<longleftrightarrow>
    validate plans (plans p) = Inr () \<and> first_overlap plans accepted (sp_claims (plans p)) = None"
proof -
  have "compatible plans (accepted @ sp_claims (plans p)) \<longleftrightarrow>
      compatible plans (sp_claims (plans p)) \<and> first_overlap plans accepted (sp_claims (plans p)) = None"
    using assms claims_conflict_sym [of plans] unfolding sorted_wrt_append first_overlap_None by blast
  then show ?thesis
    by (auto simp: acceptable_def validate_def first_conflict_None [symmetric] split: option.splits)
qed

lemma accepted_subset: "set (accepted_plans plans accepted ready) \<subseteq> set ready"
  by (induction ready arbitrary: accepted) auto

lemma accepted_compatible:
  "compatible plans accepted \<Longrightarrow>
   compatible plans (accepted @ concat (map (\<lambda>p. sp_claims (plans p)) (accepted_plans plans accepted ready)))"
proof (induction ready arbitrary: accepted)
  case (Cons p ready)
  show ?case
  proof (cases "acceptable plans accepted p")
    case True
    then have "compatible plans (accepted @ sp_claims (plans p))" by (simp add: acceptable_def)
    from Cons.IH [OF this] show ?thesis using True by simp
  qed (use Cons in simp)
qed simp

lemma validate_from_failures:
  assumes "compatible plans accepted" and "distinct ready"
  shows "map fst (validate_from plans ready accepted failures) =
    map fst failures @ filter (\<lambda>p. p \<notin> set (accepted_plans plans accepted ready)) ready"
  using assms
proof (induction ready arbitrary: accepted failures)
  case (Cons p ready)
  note ok = acceptable_iff [OF Cons.prems(1), of p]
  have new: "p \<notin> set (accepted_plans plans others ready)" for others
    using Cons.prems(2) accepted_subset by fastforce
  show ?case
  proof (cases "acceptable plans accepted p")
    case True
    then have "compatible plans (accepted @ sp_claims (plans p))" by (simp add: acceptable_def)
    from Cons.IH [OF this] True ok Cons.prems(2)
    have "map fst (validate_from plans (p # ready) accepted failures) =
        map fst failures @ filter (\<lambda>q. q \<notin> set (accepted_plans plans (accepted @ sp_claims (plans p)) ready)) ready"
      by simp
    also have "filter (\<lambda>q. q \<notin> set (accepted_plans plans (accepted @ sp_claims (plans p)) ready)) ready =
        filter (\<lambda>q. q \<notin> set (accepted_plans plans accepted (p # ready))) (p # ready)"
      using True Cons.prems(2) by (auto intro!: filter_cong)
    finally show ?thesis .
  next
    case False
    have "\<exists>error. validate_from plans (p # ready) accepted failures = validate_from plans ready accepted (failures @ [(p, error)])"
    proof (cases "validate plans (plans p)")
      case (Inr u)
      then obtain c where "first_overlap plans accepted (sp_claims (plans p)) = Some c"
        using False ok by (cases "first_overlap plans accepted (sp_claims (plans p))") auto
      then show ?thesis using Inr by (cases c) auto
    qed auto
    then obtain error where
      step: "validate_from plans (p # ready) accepted failures = validate_from plans ready accepted (failures @ [(p, error)])" ..
    show ?thesis
      using Cons.IH [OF Cons.prems(1), of "failures @ [(p, error)]"] Cons.prems(2) False new
      unfolding step by simp
  qed
qed simp

text \<open>C7: The plans that may be installed together are chosen as specified: in the caller's order, a plan is refused exactly
  when it has failed, conflicts within itself or conflicts with an installed claim or a plan accepted before it, and
  the claims installed and accepted at the end are free of conflict, whichever way round they are compared.
\<close>
theorem validate_plans_exact:
  assumes "compatible plans installed" and "distinct ready"
  shows "map fst (validate_plans plans ready installed) =
      filter (\<lambda>p. p \<notin> set (accepted_plans plans installed ready)) ready \<and>
    compatible plans (installed @ concat (map (\<lambda>p. sp_claims (plans p)) (accepted_plans plans installed ready))) \<and>
    (\<forall>a b. claims_conflict plans a b = claims_conflict plans b a)"
  using validate_from_failures [OF assms, of "[]"] accepted_compatible [OF assms(1)] claims_conflict_sym
  by (simp add: validate_plans_def)

definition sample_plan :: "nat \<Rightarrow> Operation list \<Rightarrow> MemoryClaim list \<Rightarrow> SubmittedPlan" where
  "sample_plan p operations claims =
    \<lparr>sp_plan = p, sp_owner_id = ''sample'', sp_plugin_module = None, sp_images = [], sp_operations = operations,
     sp_resources = [], sp_claims = claims, sp_writes = [], sp_relays = [], sp_error = None, sp_preparing = False,
     sp_exposed = False\<rparr>"

definition sample_write_claim :: "nat \<Rightarrow> nat \<Rightarrow> nat \<Rightarrow> MemoryClaim" where
  "sample_write_claim p first last_byte =
    \<lparr>mc_plan = p, mc_begin = first, mc_end = last_byte, mc_kind = CK_Write, mc_operation = 0, mc_offline_image = 0\<rparr>"

definition sample_plans :: "nat \<Rightarrow> SubmittedPlan" where
  "sample_plans p =
    (let write = Op_Write \<lparr>loc_image = 0, loc_rva = 0, loc_name = []\<rparr> empty_evidence
           \<lparr>bw_bytes = [1, 2], bw_original = [], bw_instructions = False\<rparr>
     in if p = 0 then sample_plan 0 [write] [sample_write_claim 0 0x1000 0x1002]
        else if p = 1 then sample_plan 1 [write] [sample_write_claim 1 0x1001 0x1003]
        else sample_plan 2 [write] [sample_write_claim 2 0x1002 0x1004])"

text \<open>Of three plans that write two bytes each, the second overlaps the first and the third fits.\<close>

lemma validate_plans_exact_witness:
  "map fst (validate_plans sample_plans [0, 1, 2] []) = [1]"
proof -
  have "accepted_plans sample_plans [] [0, 1, 2] = [0, 2]"
    by (simp add: acceptable_def sample_plans_def sample_plan_def sample_write_claim_def claims_conflict_def read_only_def
        claim_operation_def shares_own_def)
  then show ?thesis using validate_plans_exact [of sample_plans "[]" "[0, 1, 2]"] by simp
qed

end
