(* ===== verification/Native_Submit_Laws.thy ===== *)
theory Native_Submit_Laws
  imports Native_Claims
begin

text \<open>
  What submission keeps: a request that fails leaves the operations alone, a request that succeeds adds one, and
  an operation that will write reserves exactly the bytes it writes. The steps of a request are gathered by
  rules of the shape of the steps.
\<close>

section \<open>Growing plans\<close>

text \<open>A step before the operation is recorded appends claims for it and changes resources, nothing else.\<close>

definition grown :: "SubmittedPlan \<Rightarrow> SubmittedPlan \<Rightarrow> bool" where
  "grown p q \<longleftrightarrow> (\<exists>new resources. q = p\<lparr>sp_claims := sp_claims p @ new, sp_resources := resources\<rparr> \<and>
     (\<forall>c \<in> set new. mc_plan c = sp_plan p \<and> mc_operation c = length (sp_operations p)))"

lemma grown_refl [simp]: "grown p p"
  unfolding grown_def by (intro exI [of _ "[]"] exI [of _ "sp_resources p"]) simp

lemma grown_trans: "grown p q \<Longrightarrow> grown q r \<Longrightarrow> grown p r"
  unfolding grown_def by (elim exE conjE) (auto intro!: exI)

lemma grown_same:
  assumes "grown p q"
  shows "sp_plan q = sp_plan p" and "sp_images q = sp_images p" and "sp_operations q = sp_operations p"
    and "sp_error q = sp_error p" and "sp_preparing q = sp_preparing p" and "sp_exposed q = sp_exposed p"
    and "sp_writes q = sp_writes p" and "set (sp_claims p) \<subseteq> set (sp_claims q)"
    and "location_address q l = location_address p l" and "location_image q l = location_image p l"
  using assms by (auto simp: grown_def location_address_def location_image_def)

lemma grown_resources: "grown p (p\<lparr>sp_resources := resources\<rparr>)"
  unfolding grown_def by (intro exI [of _ "[]"] exI [of _ resources]) simp

lemma grown_claim:
  assumes "mc_plan c = sp_plan p" and "mc_operation c = length (sp_operations p)"
  shows "grown p (p\<lparr>sp_claims := sp_claims p @ [c]\<rparr>)"
  unfolding grown_def using assms by (intro exI [of _ "[c]"] exI [of _ "sp_resources p"]) simp

definition quiet :: "'a planning \<Rightarrow> bool" where
  "quiet step \<longleftrightarrow> (\<forall>p. grown p (fst (step p)))"

named_theorems quiet_steps \<open>steps that only append claims and change resources\<close>

lemma quiet_then [quiet_steps]:
  assumes "quiet step" and "\<And>v. quiet (rest v)"
  shows "quiet (then_plan step rest)"
  unfolding quiet_def
proof
  fix p
  have "grown p (fst (step p))" using assms(1) by (simp add: quiet_def)
  moreover have "grown q (fst (rest v q))" for v q using assms(2) by (simp add: quiet_def)
  ultimately show "grown p (fst (then_plan step rest p))"
    by (auto simp: then_plan_def split: prod.split sum.split intro: grown_trans)
qed

lemma quiet_check [quiet_steps]: "quiet (check test)" and quiet_give [quiet_steps]: "quiet (give v)"
  and quiet_refuse [quiet_steps]: "quiet (refuse error)"
  by (simp_all add: quiet_def check_def give_def refuse_def)

lemma quiet_resource [quiet_steps]: "quiet (new_resource kind)" "quiet (edit_resource i f)"
  "quiet (\<lambda>plan. edit_resource i (g plan) plan)"
  by (simp_all add: quiet_def new_resource_def edit_resource_def grown_resources)

lemma quiet_claim [quiet_steps]: "quiet (add_claim env location n kind)"
  unfolding quiet_def add_claim_def Let_def
  by (simp add: grown_claim split: sum.split)

lemma quiet_if [quiet_steps]: "quiet a \<Longrightarrow> quiet b \<Longrightarrow> quiet (if c then a else b)"
  by simp

lemma quiet_option [quiet_steps]: "quiet a \<Longrightarrow> (\<And>x. quiet (f x)) \<Longrightarrow> quiet (case x of None \<Rightarrow> a | Some x \<Rightarrow> f x)"
  by (simp split: option.split)

lemma quiet_prod [quiet_steps]: "(\<And>x y. quiet (f x y)) \<Longrightarrow> quiet (case p of (x, y) \<Rightarrow> f x y)"
  by (simp split: prod.split)

lemma quiet_evidence_claim [quiet_steps]: "quiet (evidence_claim env location evidence n kind)"
  unfolding evidence_claim_def Let_def by (intro quiet_steps)

lemma quiet_checked_site [quiet_steps]: "quiet (checked_site env raw evidence n alignment kind code observed)"
  unfolding checked_site_def by (intro quiet_steps)

lemma quiet_claimed_address [quiet_steps]: "quiet (claimed_address env raw)"
  unfolding claimed_address_def by (intro quiet_steps)

lemma quiet_callback [quiet_steps]: "quiet (submit_callback env f)"
  unfolding submit_callback_def by (intro quiet_steps)

lemma then_plan_ok:
  "then_plan step rest p = (p', Inr r) \<longleftrightarrow> (\<exists>q v. step p = (q, Inr v) \<and> rest v q = (p', Inr r))"
  by (auto simp: then_plan_def split: prod.splits sum.splits)

lemma check_ok: "check test p = (p', Inr v) \<longleftrightarrow> p' = p \<and> test p = Inr v"
  by (auto simp: check_def)

lemma give_ok: "give v p = (p', Inr r) \<longleftrightarrow> p' = p \<and> r = v"
  by (auto simp: give_def)

lemma refuse_ok [simp]: "refuse error p = (p', Inr v) \<longleftrightarrow> False"
  by (simp add: refuse_def)

lemmas step_ok = then_plan_ok check_ok give_ok

section \<open>Reserved writes\<close>

text \<open>Where an operation writes, and how many bytes.\<close>

definition written_range :: "FC_Architecture \<Rightarrow> Operation \<Rightarrow> (LocationRecord \<times> nat) option" where
  "written_range arch operation = (case operation of
     Op_Write location _ write \<Rightarrow> Some (location, length (bw_bytes write))
   | Op_Operand location _ edit \<Rightarrow> Some (location, length (oe_original edit))
   | Op_Fixup location _ fixup \<Rightarrow> Some (location, if fx_relative fixup then 4 else kWord arch)
   | Op_Branch location _ branch \<Rightarrow> Some (location, length (be_original branch))
   | _ \<Rightarrow> None)"

definition write_claim :: "SubmittedPlan \<Rightarrow> nat \<Rightarrow> LocationRecord \<Rightarrow> nat \<Rightarrow> ClaimKind \<Rightarrow> MemoryClaim" where
  "write_claim plan i location n kind =
    \<lparr>mc_plan = sp_plan plan, mc_begin = location_address plan location, mc_end = location_address plan location + n,
     mc_kind = kind, mc_operation = i, mc_offline_image = pi_storage (location_image plan location)\<rparr>"

text \<open>The field of an operand lies in its instruction, and a branch has room for its five bytes.\<close>

definition operation_fits :: "Operation \<Rightarrow> bool" where
  "operation_fits operation = (case operation of
     Op_Operand _ _ edit \<Rightarrow> oe_field_offset edit + oe_field_size edit \<le> length (oe_original edit)
   | Op_Branch _ _ branch \<Rightarrow> 5 \<le> length (be_original branch)
   | _ \<Rightarrow> True)"

definition reserved_operation :: "FC_Architecture \<Rightarrow> SubmittedPlan \<Rightarrow> nat \<Rightarrow> Operation \<Rightarrow> bool" where
  "reserved_operation arch plan i operation =
    (operation_fits operation \<and>
     (case written_range arch operation of
        None \<Rightarrow> True
      | Some (location, n) \<Rightarrow> 0 < n \<and> write_claim plan i location n CK_Write \<in> set (sp_claims plan)))"

text \<open>A request run from a plan that has grown from \<open>p\<close>: it fails, or records one operation, reserved.\<close>

definition records :: "FC_Architecture \<Rightarrow> SubmittedPlan \<Rightarrow> 'a planning \<Rightarrow> SubmittedPlan \<Rightarrow> bool" where
  "records arch p step q = (case step q of
     (p', Inl error) \<Rightarrow> grown p p'
   | (p', Inr v) \<Rightarrow> \<exists>r operation. grown p r \<and> p' = r\<lparr>sp_operations := sp_operations r @ [operation]\<rparr> \<and>
       reserved_operation arch r (length (sp_operations p)) operation)"

lemma records_then:
  assumes "grown p q" and "quiet step"
    and "\<And>v r. step q = (r, Inr v) \<Longrightarrow> grown q r \<Longrightarrow> grown p r \<Longrightarrow> records arch p (rest v) r"
  shows "records arch p (then_plan step rest) q"
proof -
  obtain r outcome where r: "step q = (r, outcome)" by (cases "step q") auto
  have qr: "grown q r" using assms(2) r unfolding quiet_def by (metis fst_conv)
  then have g: "grown p r" using assms(1) grown_trans by blast
  show ?thesis
  proof (cases outcome)
    case (Inl error)
    then show ?thesis using r g by (simp add: records_def then_plan_def)
  next
    case (Inr v)
    then have "then_plan step rest q = rest v r" using r by (simp add: then_plan_def)
    moreover have "records arch p (rest v) r" using assms(3) r Inr g qr by simp
    ultimately show ?thesis unfolding records_def by simp
  qed
qed

lemma records_refuse: "grown p q \<Longrightarrow> records arch p (refuse error) q"
  by (simp add: records_def refuse_def)

lemma records_push:
  assumes "grown p q" and "reserved_operation arch q (length (sp_operations p)) operation"
  shows "records arch p (then_plan (push_operation operation) (\<lambda>_. give v)) q"
  using assms by (auto simp: records_def then_plan_def push_operation_def give_def)

lemma records_if: "(c \<Longrightarrow> records arch p a q) \<Longrightarrow> (\<not> c \<Longrightarrow> records arch p b q) \<Longrightarrow> records arch p (if c then a else b) q"
  by simp

lemma records_prod: "(\<And>x y. v = (x, y) \<Longrightarrow> records arch p (f x y) q) \<Longrightarrow> records arch p (case v of (x, y) \<Rightarrow> f x y) q"
  by (simp split: prod.split)

lemma add_claim_ok:
  assumes "add_claim env location n kind p = (q, Inr u)"
  shows "0 < n" and "n \<le> kMaximum env" and "write_claim q (length (sp_operations p)) location n kind \<in> set (sp_claims q)"
  using assms
  by (auto simp: add_claim_def native_range_def Let_def write_claim_def location_address_def location_image_def
      split: sum.splits if_splits)

lemma claim_stays:
  assumes "grown q r" and "write_claim q i location n kind \<in> set (sp_claims q)"
  shows "write_claim r i location n kind \<in> set (sp_claims r)"
proof -
  have "write_claim r i location n kind = write_claim q i location n kind"
    using grown_same [OF assms(1)] by (simp add: write_claim_def)
  then show ?thesis using assms(2) grown_same(8) [OF assms(1)] by auto
qed

lemma quiet_grown: "quiet step \<Longrightarrow> step p = (q, r) \<Longrightarrow> grown p q"
  unfolding quiet_def by (metis fst_conv)

lemma checked_site_ok:
  assumes "checked_site env raw evidence n alignment kind code observed p = (q, Inr (location, ev))"
  shows "plan_location env p raw = Inr location" and "0 < n" and "n \<le> kMaximum env"
    and "write_claim q (length (sp_operations p)) location n kind \<in> set (sp_claims q)"
proof -
  from assms obtain r where found: "plan_location env p raw = Inr location"
    and added: "add_claim env location n kind p = (r, Inr ())"
    and ev: "evidence_claim env location ev n kind r = (q, Inr ())"
    unfolding checked_site_def by (auto simp: step_ok split: if_splits)
  have "grown r q" by (rule quiet_grown [OF quiet_evidence_claim ev])
  then show "plan_location env p raw = Inr location" and "0 < n" and "n \<le> kMaximum env"
    and "write_claim q (length (sp_operations p)) location n kind \<in> set (sp_claims q)"
    using found add_claim_ok [OF added] claim_stays by blast+
qed

lemma to_size_id [simp]: "n \<le> kMaximum env \<Longrightarrow> to_size env n = n"
  by (simp add: to_size_def)

section \<open>The requests, one by one\<close>

lemma unreserved: "written_range arch operation = None \<Longrightarrow> operation_fits operation \<Longrightarrow> reserved_operation arch plan i operation"
  by (simp add: reserved_operation_def)

lemmas request_rules = records_push records_then records_refuse records_prod records_if quiet_steps

lemma reserved_site:
  assumes "checked_site env raw raw_evidence n alignment CK_Write code observed q = (r, Inr v)"
    and "v = (location, evidence)" and "grown p q" and "grown r s"
    and "n \<le> kMaximum env \<Longrightarrow> written_range arch operation = Some (location, n)" and "n \<le> kMaximum env \<Longrightarrow> operation_fits operation"
  shows "reserved_operation arch s (length (sp_operations p)) operation"
  using checked_site_ok [OF assms(1) [unfolded assms(2)]] claim_stays [OF assms(4)] assms(5,6) grown_same(3) [OF assms(3)]
  by (simp add: reserved_operation_def)

lemma reserved_claim:
  assumes "add_claim env location n CK_Write q = (r, Inr u)"
    and "grown p q" and "grown r s"
    and "n \<le> kMaximum env \<Longrightarrow> written_range arch operation = Some (location, n)" and "operation_fits operation"
  shows "reserved_operation arch s (length (sp_operations p)) operation"
  using add_claim_ok [OF assms(1)] claim_stays [OF assms(3)] assms(4,5) grown_same(3) [OF assms(2)]
  by (simp add: reserved_operation_def)

lemma records_read: "records arch p (submit_read env r) p"
proof (cases "fr_allocation r")
  case None
  show ?thesis
    unfolding submit_read_def Let_def None option.case
    by (intro request_rules unreserved grown_refl; (assumption)?; (simp add: written_range_def operation_fits_def)?)
next
  case (Some index)
  show ?thesis
    unfolding submit_read_def Let_def Some option.case
    by (intro request_rules unreserved grown_refl; (assumption)?; (simp add: written_range_def operation_fits_def)?)
qed

lemma records_write: "records arch p (submit_write env write) p"
  unfolding submit_write_def Let_def
  by (intro request_rules grown_refl; (assumption)?; (rule reserved_site, assumption, assumption, assumption, rule grown_refl)?)
    (auto simp: written_range_def operation_fits_def)

lemma records_operand: "records arch p (submit_operand env edit) p"
  unfolding submit_operand_def Let_def
  by (intro request_rules grown_refl; (assumption)?; (rule reserved_claim, assumption, assumption, (meson grown_trans grown_refl))?)
    (simp_all add: written_range_def operation_fits_def)

lemma records_allocate: "records arch p (submit_allocate env allocation) p"
  unfolding submit_allocate_def Let_def
  by (intro request_rules unreserved grown_refl; (assumption)?; (simp add: written_range_def operation_fits_def)?)

lemma records_fixup: "records (ne_architecture env) p (submit_fixup env fixup) p"
  unfolding submit_fixup_def Let_def
  by (intro request_rules grown_refl; (assumption)?; (rule reserved_site, assumption, assumption, (assumption | rule grown_refl), (meson grown_trans grown_refl))?)
    (auto simp: written_range_def operation_fits_def pointer_size_def)

lemma records_branch: "records arch p (submit_branch env branch) p"
  unfolding submit_branch_def Let_def
  by (intro request_rules grown_refl; (assumption)?; (rule reserved_site, assumption, assumption, (assumption | rule grown_refl), (meson grown_trans grown_refl))?)
    (auto simp: written_range_def operation_fits_def check_ok dest!: plan_instructions_exact)

lemma records_hook: "records arch p (submit_hook env hook) p"
  unfolding submit_hook_def Let_def
  by (intro request_rules unreserved grown_refl; (assumption)?; (simp add: written_range_def operation_fits_def)?)

lemma records_call: "records arch p (submit_call env call) p"
  unfolding submit_call_def Let_def
  by (intro request_rules unreserved grown_refl; (assumption)?; (simp add: written_range_def operation_fits_def)?)

lemma records_operation: "records (ne_architecture env) p (submit_operation env input) p"
  by (cases input)
    (simp_all add: submit_operation_def records_read records_write records_operand records_allocate records_fixup
      records_branch records_hook records_call records_refuse)

lemma quiet_append_claim:
  assumes "\<And>plan. mc_plan (c plan) = sp_plan plan" and "\<And>plan. mc_operation (c plan) = length (sp_operations plan)"
  shows "quiet (\<lambda>plan. (plan\<lparr>sp_claims := sp_claims plan @ [c plan]\<rparr>, Inr ()))"
  using assms by (simp add: quiet_def grown_claim)

lemma records_snapshot:
  "records arch p (if \<not> has_output \<or> sp_preparing p
     then refuse ''Native snapshot requires output storage and submission during Plan''
     else snapshot_request env claim) p"
  unfolding snapshot_request_def Let_def
  by (intro request_rules unreserved grown_refl; (assumption)?; (rule quiet_append_claim)?;
      (simp add: written_range_def operation_fits_def)?)

section \<open>The plans that requests make\<close>

text \<open>A plan without a failure has reserved every byte its operations will write, under the operation's number.\<close>

definition plan_reserved :: "FC_Architecture \<Rightarrow> SubmittedPlan \<Rightarrow> bool" where
  "plan_reserved arch plan \<longleftrightarrow>
    (\<forall>c \<in> set (sp_claims plan). mc_plan c = sp_plan plan) \<and>
    (sp_error plan = None \<longrightarrow>
      (\<forall>c \<in> set (sp_claims plan). mc_operation c < length (sp_operations plan)) \<and>
      (\<forall>i < length (sp_operations plan). reserved_operation arch plan i (sp_operations plan ! i)))"

definition new_plan :: "nat \<Rightarrow> string \<Rightarrow> nat option \<Rightarrow> PlanImage list \<Rightarrow> SubmittedPlan" where
  "new_plan p owner_id plugin_module images =
    \<lparr>sp_plan = p, sp_owner_id = owner_id, sp_plugin_module = plugin_module, sp_images = images, sp_operations = [],
     sp_resources = [], sp_claims = [], sp_writes = [], sp_relays = [], sp_error = None, sp_preparing = False,
     sp_exposed = False\<rparr>"

lemma new_plan_reserved: "plan_reserved arch (new_plan p owner_id plugin_module images)"
  by (simp add: plan_reserved_def new_plan_def)

lemma grown_reserved: "grown p q \<Longrightarrow> plan_reserved arch p \<Longrightarrow> sp_error q \<noteq> None \<Longrightarrow> plan_reserved arch q"
  by (auto simp: plan_reserved_def grown_def)

lemma failed_reserved: "plan_reserved arch p \<Longrightarrow> plan_reserved arch (fail error p)"
  by (simp add: plan_reserved_def fail_def)

lemma pushed_reserved:
  assumes "plan_reserved arch p" and "sp_error p = None" and "grown p r"
    and "reserved_operation arch r (length (sp_operations p)) operation"
  shows "plan_reserved arch (r\<lparr>sp_operations := sp_operations r @ [operation]\<rparr>)"
proof -
  let ?q = "r\<lparr>sp_operations := sp_operations r @ [operation]\<rparr>"
  have ops: "sp_operations r = sp_operations p" using grown_same(3) [OF assms(3)] .
  have claims: "mc_plan c = sp_plan r \<and> mc_operation c < length (sp_operations ?q)" if "c \<in> set (sp_claims r)" for c
    using that assms(1-3) by (auto simp: plan_reserved_def grown_def less_Suc_eq)
  have keep: "reserved_operation arch ?q i ((sp_operations p) ! i)" if "i < length (sp_operations p)" for i
    using that assms(1,2) claim_stays [OF assms(3)]
    by (auto simp: plan_reserved_def reserved_operation_def write_claim_def location_address_def location_image_def split: option.splits)
  have new: "reserved_operation arch ?q (length (sp_operations p)) operation"
    using assms(4) by (auto simp: reserved_operation_def write_claim_def location_address_def location_image_def split: option.splits)
  show ?thesis
    unfolding plan_reserved_def
  proof (intro conjI impI allI ballI)
    fix i assume "i < length (sp_operations ?q)"
    then have "i < length (sp_operations p) \<or> i = length (sp_operations p)" using ops by auto
    then show "reserved_operation arch ?q i (sp_operations ?q ! i)" using keep new ops by (auto simp: nth_append)
  qed (use claims in auto)
qed

lemma records_reserved:
  assumes "records arch p step p" and "plan_reserved arch p" and "sp_error p = None"
  shows "plan_reserved arch (fst (failing step p))"
proof (cases "step p")
  case (Pair q outcome)
  show ?thesis
  proof (cases outcome)
    case (Inl error)
    then have g: "grown p q" using assms(1) Pair by (simp add: records_def)
    have "plan_reserved arch (q\<lparr>sp_error := Some error\<rparr>)" using g assms(2) by (auto simp: plan_reserved_def grown_def)
    moreover have "sp_error q = None" using g assms(3) by (simp add: grown_same)
    ultimately show ?thesis using Pair Inl by (simp add: failing_def fail_def Let_def)
  next
    case (Inr v)
    then obtain r operation where "grown p r" and "q = r\<lparr>sp_operations := sp_operations r @ [operation]\<rparr>"
      and "reserved_operation arch r (length (sp_operations p)) operation"
      using assms(1) Pair by (auto simp: records_def)
    then show ?thesis using pushed_reserved [OF assms(2,3)] Pair Inr by (simp add: failing_def)
  qed
qed

lemma submit_reserved:
  assumes "plan_reserved (ne_architecture env) p"
  shows "plan_reserved (ne_architecture env) (fst (submit env input p))"
proof (cases "sp_error p")
  case None
  have "records (ne_architecture env) p
      (if sp_preparing p then refuse ''Native requests must be submitted during Plan'' else submit_operation env input) p"
    by (intro records_if records_refuse grown_refl records_operation)
  from records_reserved [OF this assms None] show ?thesis using None by (simp add: submit_def)
qed (use assms in \<open>simp add: submit_def\<close>)

lemma snapshot_reserved:
  assumes "plan_reserved arch p"
  shows "plan_reserved arch (fst (submit_snapshot env claim has_output p))"
proof (cases "sp_error p")
  case None
  from records_reserved [OF records_snapshot assms None] show ?thesis using None by (simp add: submit_snapshot_def)
qed (use assms in \<open>simp add: submit_snapshot_def\<close>)

text \<open>The memory and the hooks may change between requests; the machine does not.\<close>

inductive planned :: "FC_Architecture \<Rightarrow> SubmittedPlan \<Rightarrow> bool" for arch where
  planned_new: "planned arch (new_plan p owner_id plugin_module images)"
| planned_submit: "planned arch plan \<Longrightarrow> ne_architecture env = arch \<Longrightarrow> planned arch (fst (submit env input plan))"
| planned_snapshot: "planned arch plan \<Longrightarrow> ne_architecture env = arch \<Longrightarrow>
    planned arch (fst (submit_snapshot env claim has_output plan))"

lemma planned_reserved: "planned arch plan \<Longrightarrow> plan_reserved arch plan"
  by (induction rule: planned.induct) (auto intro: new_plan_reserved submit_reserved snapshot_reserved)

end
