(* ===== verification/Plugin_Configuration.thy ===== *)
theory Plugin_Configuration
  imports Patch_Records Config_Storage "HOL-Library.Product_Lexorder" "HOL-Library.Char_ord"
begin

text \<open>
  The startup configuration of one plugin (\<open>configuration.cpp\<close>): the entries its applicable variants declare, the
  file they are read from and written to, the toggles, and the captured value of every setting.
\<close>

section \<open>Defaults and the environment\<close>

fun copy_value :: "FC_Value \<Rightarrow> ScalarValue" where
  "copy_value (FV_Bool b) = SV_Bool (b \<noteq> 0)"
| "copy_value (FV_Signed i) = SV_Signed i"
| "copy_value (FV_Unsigned u) = SV_Unsigned u"
| "copy_value (FV_Real d) = SV_Real d"
| "copy_value (FV_Text t) = SV_Text (view t)"

text \<open>
  The calls of \<open>environment\<close>: the name as UTF-16; the size of the variable with its terminator and the error when it
  is zero; the units received into a buffer of that size, and their number; and UTF-8, \<open>None\<close> when the conversion
  fails. The variable may change between the calls.
\<close>

record environment_os =
  en_wide :: "string \<Rightarrow> nat list"
  en_size :: "nat list \<Rightarrow> nat \<times> u32"
  en_value :: "nat list \<Rightarrow> nat \<Rightarrow> nat \<times> nat list"
  en_utf8 :: "nat list \<Rightarrow> string option"

definition ERROR_ENVVAR_NOT_FOUND :: u32 where "ERROR_ENVVAR_NOT_FOUND = 203"

definition environment :: "environment_os \<Rightarrow> string \<Rightarrow> string option" where
  "environment en name =
    (if name = [] then None
     else
       let wide = en_wide en name
       in case en_size en wide of (units, error) \<Rightarrow>
         if units = 0 then if error = ERROR_ENVVAR_NOT_FOUND then None else Some []
         else case en_value en wide units of (received, input) \<Rightarrow>
           if received \<ge> units then Some [CHR 0xff]
           else case en_utf8 en (take received input) of
             None \<Rightarrow> if received \<noteq> 0 then Some [CHR 0xff] else Some []
           | Some bytes \<Rightarrow> Some bytes)"

section \<open>Generated entries\<close>

definition generated :: "string \<Rightarrow> string \<Rightarrow> string \<Rightarrow> string \<Rightarrow> FC_Value \<Rightarrow> GeneratedEntry" where
  "generated sec key description constraints v =
    \<lparr>ge_section = sec, ge_key = key, ge_description = description, ge_constraints = constraints, ge_value = v,
     ge_variant_default = False, ge_rank = (0, 0, []), ge_key_id = []\<rparr>"

text \<open>The key map gives the first entry of an identity.\<close>

definition add_generated :: "platform \<Rightarrow> GeneratedEntry \<Rightarrow> GeneratedEntry list \<Rightarrow> GeneratedEntry list" where
  "add_generated plat entry entries =
    (case find_index (\<lambda>e. identity (ge_section e) (ge_key e) = identity (ge_section entry) (ge_key entry)) entries of
       None \<Rightarrow> entries @ [entry]
     | Some i \<Rightarrow>
         let existing = entries ! i
         in entries[i := existing\<lparr>ge_variant_default := ge_variant_default existing \<or>
              value_kind (ge_value existing) \<noteq> value_kind (ge_value entry) \<or>
              format_scalar plat (ge_value existing) \<noteq> format_scalar plat (ge_value entry)\<rparr>])"

fun declared_category :: "FC_Category list \<Rightarrow> string \<Rightarrow> string" where
  "declared_category [] sec = sec"
| "declared_category (category # categories) sec =
    declared_category categories (if equal_id (fc_id category) sec then fc_id category else sec)"

definition toggle_entry :: "FC_Plugin \<Rightarrow> string \<Rightarrow> string \<Rightarrow> string \<Rightarrow> u32 \<Rightarrow> GeneratedEntry" where
  "toggle_entry plugin ident category description enabled =
    (let sec = (if category = [] then [] else declared_category (fl_categories plugin) category)
     in generated (if sec = [] then ident else sec) (if sec = [] then ''Enabled'' else ident) description [] (FV_Bool enabled))"

text \<open>Where the settings of a patch live.\<close>

definition setting_section :: "FC_Patch \<Rightarrow> FC_Setting \<Rightarrow> string" where
  "setting_section patch setting = (if fs_section setting \<noteq> [] then fp_id patch @ ''.'' @ fs_section setting else fp_id patch)"

definition setting_entry :: "FC_Patch \<Rightarrow> FC_Setting \<Rightarrow> GeneratedEntry" where
  "setting_entry patch setting =
    generated (setting_section patch setting) (fs_key setting) (fs_description setting) (fs_constraints setting) (fs_default_value setting)"

fun add_settings :: "platform \<Rightarrow> FC_Patch \<Rightarrow> FC_Setting list \<Rightarrow> GeneratedEntry list \<Rightarrow> GeneratedEntry list" where
  "add_settings plat patch [] entries = entries"
| "add_settings plat patch (setting # settings) entries =
    add_settings plat patch settings (add_generated plat (setting_entry patch setting) entries)"

text \<open>
  What the loop over the variants collects: the entries, the applicable variants (the positions of the patch in its
  plugin and of the variant in the patch) and the eligible patches.
\<close>

record collected =
  cl_entries :: "GeneratedEntry list"
  cl_applicable :: "(nat \<times> nat) list"
  cl_eligible :: "nat list"

fun collect_variants :: "platform \<Rightarrow> catalog \<Rightarrow> u32 \<Rightarrow> ImageObservation list \<Rightarrow> nat \<Rightarrow> ResolvedPatch \<Rightarrow> nat \<Rightarrow>
    ResolvedVariant list \<Rightarrow> collected \<Rightarrow> collected" where
  "collect_variants plat catalog role observations index patch v [] cl = cl"
| "collect_variants plat catalog role observations index patch v (variant # variants) cl =
    collect_variants plat catalog role observations index patch (Suc v) variants
      (if ps_state (evaluate_patch catalog patch role observations [variant]) = Unavailable then cl
       else \<lparr>cl_entries = add_settings plat (rp_definition patch) (fv_settings (rv_definition variant)) (cl_entries cl),
             cl_applicable = cl_applicable cl @ [(index, v)],
             cl_eligible = (if index \<in> set (cl_eligible cl) then cl_eligible cl else cl_eligible cl @ [index])\<rparr>)"

definition collect_patch :: "platform \<Rightarrow> catalog \<Rightarrow> u32 \<Rightarrow> ImageObservation list \<Rightarrow> FC_Plugin \<Rightarrow> nat \<times> ResolvedPatch \<Rightarrow>
    collected \<Rightarrow> collected" where
  "collect_patch plat catalog role observations plugin entry cl = (case entry of (index, patch) \<Rightarrow>
    let cl = collect_variants plat catalog role observations index patch 0 (rp_variants patch) cl;
        definition' = rp_definition patch
    in if index \<in> set (cl_eligible cl) \<and> fp_configurable definition' \<noteq> 0
       then cl\<lparr>cl_entries := add_generated plat
         (toggle_entry plugin (fp_id definition') (fp_category definition') (fp_description definition') (fp_enabled definition'))
         (cl_entries cl)\<rparr>
       else cl)"

definition group_relevant :: "FC_Plugin \<Rightarrow> nat list \<Rightarrow> FC_Group \<Rightarrow> bool" where
  "group_relevant plugin eligible grp =
    list_ex (\<lambda>member. list_ex (\<lambda>index. equal_id (fp_id (fl_patches plugin ! index)) member) eligible) (fg_members grp)"

definition collect_group :: "platform \<Rightarrow> FC_Plugin \<Rightarrow> FC_Group \<Rightarrow> collected \<Rightarrow> collected" where
  "collect_group plat plugin grp cl =
    (if fg_configurable grp \<noteq> 0 \<and> group_relevant plugin (cl_eligible cl) grp
     then cl\<lparr>cl_entries := add_generated plat
       (toggle_entry plugin (fg_id grp) (fg_category grp) (fg_description grp) (fg_enabled grp)) (cl_entries cl)\<rparr>
     else cl)"

definition collect :: "platform \<Rightarrow> catalog \<Rightarrow> u32 \<Rightarrow> ImageObservation list \<Rightarrow> FC_Plugin \<Rightarrow> (nat \<times> ResolvedPatch) list \<Rightarrow> collected" where
  "collect plat catalog role observations plugin patches =
    fold (collect_group plat plugin) (fl_groups plugin)
      (fold (collect_patch plat catalog role observations plugin) patches \<lparr>cl_entries = [], cl_applicable = [], cl_eligible = []\<rparr>)"

section \<open>The order of the generated file\<close>

definition section_rank :: "FC_Plugin \<Rightarrow> string \<Rightarrow> nat \<times> nat \<times> string" where
  "section_rank plugin sec =
    (case List.find (\<lambda>category. equal_id (fc_id category) sec) (fl_categories plugin) of
       Some category \<Rightarrow> (if fc_has_order category \<noteq> 0 then 0 else 1, unat (fc_order category), folded_id sec)
     | None \<Rightarrow> (2, 0, folded_id sec))"

definition ranked :: "FC_Plugin \<Rightarrow> GeneratedEntry \<Rightarrow> GeneratedEntry" where
  "ranked plugin entry =
    entry\<lparr>ge_rank := section_rank plugin (ge_section entry), ge_key_id := folded_id (ge_key entry)\<rparr>"

text \<open>
  The comparison of the stable sort orders by rank, and by key within a category; entries it does not order keep
  their places, as under a key that is empty outside the categories.
\<close>

definition entry_key :: "GeneratedEntry \<Rightarrow> (nat \<times> nat \<times> string) \<times> string" where
  "entry_key entry = (ge_rank entry, if fst (ge_rank entry) < 2 then ge_key_id entry else [])"

definition entry_before :: "GeneratedEntry \<Rightarrow> GeneratedEntry \<Rightarrow> bool" where
  "entry_before a b =
    (if ge_rank a \<noteq> ge_rank b then ge_rank a < ge_rank b else fst (ge_rank a) < 2 \<and> ge_key_id a < ge_key_id b)"

lemma entry_before_key: "entry_before a b \<longleftrightarrow> entry_key a < entry_key b"
  by (cases "ge_rank a = ge_rank b") (auto simp: entry_before_def entry_key_def less_prod_def' order.strict_iff_order)

definition sorted_entries :: "FC_Plugin \<Rightarrow> GeneratedEntry list \<Rightarrow> GeneratedEntry list" where
  "sorted_entries plugin entries = sort_key entry_key (map (ranked plugin) entries)"

section \<open>Toggles\<close>

definition read_control :: "platform \<Rightarrow> IniDocument \<Rightarrow> string \<Rightarrow> string \<Rightarrow> string \<Rightarrow> u32 \<Rightarrow>
    ControlOverride list \<times> Diagnostic list \<Rightarrow> ControlOverride list \<times> Diagnostic list" where
  "read_control plat document owner ident category configurable state = (case state of (overrides, warnings) \<Rightarrow>
    if configurable = 0 then (overrides, warnings)
    else
      let sec = (if category \<noteq> [] then category else ident); key = (if category \<noteq> [] then ident else ''Enabled'')
      in case ini_find document sec key of
           None \<Rightarrow> (overrides, warnings)
         | Some entry \<Rightarrow>
             (case parse_scalar plat (ie_value entry) FC_SCALAR_BOOL owner of
                Inr (SV_Bool enabled) \<Rightarrow> (overrides @ [\<lparr>co_local_id = ident, co_enabled = enabled\<rparr>], warnings)
              | _ \<Rightarrow> (overrides, warnings @ [diagnostic owner (''Invalid toggle '' @ quoted ident @ ''; its default is used'')])))"

definition read_controls :: "platform \<Rightarrow> IniDocument \<Rightarrow> string \<Rightarrow> FC_Plugin \<Rightarrow> Diagnostic list \<Rightarrow>
    ControlOverride list \<times> Diagnostic list" where
  "read_controls plat document owner plugin warnings =
    fold (\<lambda>grp. read_control plat document owner (fg_id grp) (fg_category grp) (fg_configurable grp)) (fl_groups plugin)
      (fold (\<lambda>patch. read_control plat document owner (fp_id patch) (fp_category patch) (fp_configurable patch)) (fl_patches plugin)
        ([], warnings))"

section \<open>Captured settings\<close>

text \<open>The environment is read once for each name; \<open>reads\<close> gives the answers of the system by the number of the call.\<close>

type_synonym captured_environment = "(string \<times> string option) list"

definition capture_environment :: "(nat \<Rightarrow> environment_os) \<Rightarrow> string \<Rightarrow> captured_environment \<Rightarrow>
    captured_environment \<times> string option" where
  "capture_environment reads name captured =
    (case map_of captured (folded_id name) of
       Some answer \<Rightarrow> (captured, answer)
     | None \<Rightarrow> let answer = environment (reads (length captured)) name in (captured @ [(folded_id name, answer)], answer))"

text \<open>A rejection carries the text and the code the validator reported.\<close>

definition rejected_setting :: "string \<Rightarrow> (FC_Text \<times> u32) option \<Rightarrow> Diagnostic" where
  "rejected_setting owner reported =
    (let rejected = diagnostic owner ''Setting validation failed''
     in case reported of
          None \<Rightarrow> rejected
        | Some (message, code) \<Rightarrow>
            (if ft_size message \<noteq> 0 \<and> ft_data message \<noteq> None then rejected\<lparr>dg_message := view message\<rparr> else rejected)
              \<lparr>dg_windows_error := code\<rparr>)"

definition accept_setting :: "platform \<Rightarrow> string \<Rightarrow> FC_Setting \<Rightarrow> string \<Rightarrow> Diagnostic + ScalarValue" where
  "accept_setting plat owner setting input =
    (case parse_scalar plat input (value_kind (fs_default_value setting)) owner of
       Inl rejected \<Rightarrow> Inl rejected
     | Inr parsed \<Rightarrow>
         (case fs_validate setting (scalar_view parsed) of
            (status, reported) \<Rightarrow> if status = 1 then Inr parsed else Inl (rejected_setting owner reported)))"

definition resolve_setting :: "platform \<Rightarrow> string \<Rightarrow> FC_Patch \<Rightarrow> IniDocument \<Rightarrow> string option \<Rightarrow> FC_Setting \<Rightarrow>
    ScalarValue \<times> Diagnostic list" where
  "resolve_setting plat owner patch document env setting =
    (let sec = setting_section patch setting;
         ini = ini_find document sec (fs_key setting);
         fallback = copy_value (fs_default_value setting)
     in case (env, ini) of
          (None, None) \<Rightarrow> (fallback, [])
        | _ \<Rightarrow>
            (case accept_setting plat owner setting (case env of Some input \<Rightarrow> input | None \<Rightarrow> ie_value (the ini)) of
               Inr v \<Rightarrow> (v, [])
             | Inl rejected \<Rightarrow>
                 (fallback, [rejected\<lparr>dg_message := ''Invalid setting ['' @ sec @ ''].'' @ fs_key setting @ '': '' @
                    dg_message rejected @ ''; its default is used''\<rparr>])))"

fun capture_settings :: "platform \<Rightarrow> (nat \<Rightarrow> environment_os) \<Rightarrow> string \<Rightarrow> FC_Patch \<Rightarrow> IniDocument \<Rightarrow>
    FC_Setting list \<Rightarrow> captured_environment \<Rightarrow> captured_environment \<times> ScalarValue list \<times> Diagnostic list" where
  "capture_settings plat reads owner patch document [] captured = (captured, [], [])"
| "capture_settings plat reads owner patch document (setting # settings) captured =
    (case capture_environment reads (fs_environment setting) captured of (captured, env) \<Rightarrow>
     case resolve_setting plat owner patch document env setting of (v, warnings) \<Rightarrow>
     case capture_settings plat reads owner patch document settings captured of (captured, vs, more_warnings) \<Rightarrow>
       (captured, v # vs, warnings @ more_warnings))"

fun capture_variants :: "platform \<Rightarrow> (nat \<Rightarrow> environment_os) \<Rightarrow> string \<Rightarrow> FC_Plugin \<Rightarrow> IniDocument \<Rightarrow>
    (nat \<times> nat) list \<Rightarrow> captured_environment \<Rightarrow> CapturedVariantSettings list \<times> Diagnostic list" where
  "capture_variants plat reads owner plugin document [] captured = ([], [])"
| "capture_variants plat reads owner plugin document ((index, v) # applicable) captured =
    (let patch = fl_patches plugin ! index
     in case capture_settings plat reads owner patch document (fv_settings (fp_variants patch ! v)) captured of (captured, vs, warnings) \<Rightarrow>
        case capture_variants plat reads owner plugin document applicable captured of (variants, more_warnings) \<Rightarrow>
          (\<lparr>cv_patch = index, cv_variant = v, cv_values = vs\<rparr> # variants, warnings @ more_warnings))"

section \<open>Loading\<close>

text \<open>The caller passes the resolved patches of this plugin, with their positions in it.\<close>

definition configuration_file :: "ConfigurationPaths \<Rightarrow> FC_Plugin \<Rightarrow> string" where
  "configuration_file paths plugin = path_join (cp_directory paths) (''FC.'' @ fl_id plugin @ ''.ini'')"

definition load_configuration :: "platform \<Rightarrow> load_world \<Rightarrow> (nat \<Rightarrow> environment_os) \<Rightarrow> catalog \<Rightarrow> files \<Rightarrow> AdmittedPlugin \<Rightarrow>
    (nat \<times> ResolvedPatch) list \<Rightarrow> u32 \<Rightarrow> ImageObservation list \<Rightarrow> ConfigurationPaths \<Rightarrow>
    (Diagnostic + PluginConfiguration) \<times> files" where
  "load_configuration plat world reads catalog files admitted patches role observations paths =
    (let plugin = ap_definition admitted;
         owner = configuration_file paths plugin;
         cl = collect plat catalog role observations plugin patches;
         entries = (if cp_write_defaults paths then sorted_entries plugin (cl_entries cl) else cl_entries cl)
     in case (if cp_directory paths = [] \<and> \<not> cp_write_defaults paths then (Inr empty_document, files, [])
              else load_file plat world files owner entries (cp_write_defaults paths) []) of
          (Inl failure, files, warnings) \<Rightarrow> (Inl failure, files)
        | (Inr document, files, warnings) \<Rightarrow>
            let warnings = warn_unknown document entries warnings owner
            in case read_controls plat document owner plugin warnings of (overrides, warnings) \<Rightarrow>
               case capture_variants plat reads owner plugin document (cl_applicable cl) [] of (variants, more_warnings) \<Rightarrow>
                 (Inr \<lparr>pg_controls = resolve_controls plugin overrides, pg_variants = variants,
                       pg_warnings = warnings @ more_warnings\<rparr>, files))"

section \<open>What a plugin receives\<close>

text \<open>A value of the declared kind: the declared default, or input the validator accepted.\<close>

definition setting_value :: "FC_Setting \<Rightarrow> ScalarValue \<Rightarrow> bool" where
  "setting_value setting v \<longleftrightarrow>
    value_kind (scalar_view v) = value_kind (fs_default_value setting) \<and>
    (v = copy_value (fs_default_value setting) \<or> fst (fs_validate setting (scalar_view v)) = 1)"

lemma copy_value_kind [simp]: "value_kind (scalar_view (copy_value v)) = value_kind v"
  by (cases v) (simp_all add: scalar_kinds)

lemma parse_scalar_kind: "parse_scalar plat s kind owner = Inr v \<Longrightarrow> value_kind (scalar_view v) = kind"
  by (auto simp: parse_scalar_def Let_def split: if_splits option.splits prod.splits list.splits)

lemma accept_setting_value:
  assumes "accept_setting plat owner setting input = Inr v" shows "setting_value setting v"
  using assms by (auto simp: accept_setting_def setting_value_def dest: parse_scalar_kind split: sum.splits prod.splits if_splits)

lemma resolve_setting_value: "setting_value setting (fst (resolve_setting plat owner patch document env setting))"
proof -
  have fallback: "setting_value setting (copy_value (fs_default_value setting))" by (simp add: setting_value_def)
  show ?thesis
    by (auto simp: resolve_setting_def Let_def fallback dest: accept_setting_value split: option.splits sum.splits)
qed

lemma capture_settings_values:
  "capture_settings plat reads owner patch document settings captured = (captured', vs, warnings) \<Longrightarrow>
     list_all2 setting_value settings vs"
proof (induction settings arbitrary: captured captured' vs warnings)
  case (Cons setting settings)
  obtain c1 env where env: "capture_environment reads (fs_environment setting) captured = (c1, env)" by fastforce
  obtain v w where v: "resolve_setting plat owner patch document env setting = (v, w)" by fastforce
  obtain c2 us ws where rest: "capture_settings plat reads owner patch document settings c1 = (c2, us, ws)"
    by (cases "capture_settings plat reads owner patch document settings c1") auto
  have "setting_value setting v" using resolve_setting_value [of setting plat owner patch document env] v by simp
  with Cons.IH [OF rest] Cons.prems env v rest show ?case by auto
qed simp

definition captured_ok :: "FC_Plugin \<Rightarrow> CapturedVariantSettings \<Rightarrow> bool" where
  "captured_ok plugin cv \<longleftrightarrow>
    list_all2 setting_value (fv_settings (fp_variants (fl_patches plugin ! cv_patch cv) ! cv_variant cv)) (cv_values cv)"

lemma capture_variants_ok:
  "capture_variants plat reads owner plugin document applicable captured = (variants, warnings) \<Longrightarrow>
     map (\<lambda>cv. (cv_patch cv, cv_variant cv)) variants = applicable \<and> list_all (captured_ok plugin) variants"
proof (induction applicable arbitrary: captured variants warnings)
  case (Cons entry applicable)
  obtain index v where entry: "entry = (index, v)" by fastforce
  let ?patch = "fl_patches plugin ! index"
  obtain c1 vs w where settings: "capture_settings plat reads owner ?patch document (fv_settings (fp_variants ?patch ! v)) captured = (c1, vs, w)"
    by (cases "capture_settings plat reads owner ?patch document (fv_settings (fp_variants ?patch ! v)) captured") auto
  obtain us ws where rest: "capture_variants plat reads owner plugin document applicable c1 = (us, ws)" by fastforce
  from Cons.IH [OF rest] Cons.prems capture_settings_values [OF settings] settings rest entry
  show ?case by (auto simp: Let_def captured_ok_def)
qed simp

lemma load_configuration_success:
  assumes "load_configuration plat world reads catalog files admitted patches role observations paths = (Inr configuration, files')"
  defines "plugin \<equiv> ap_definition admitted"
  shows "\<exists>owner document overrides. pg_controls configuration = resolve_controls plugin overrides \<and>
    pg_variants configuration = fst (capture_variants plat reads owner plugin document
      (cl_applicable (collect plat catalog role observations plugin patches)) [])"
proof -
  let ?owner = "configuration_file paths plugin" and ?cl = "collect plat catalog role observations plugin patches"
  let ?entries = "if cp_write_defaults paths then sorted_entries plugin (cl_entries ?cl) else cl_entries ?cl"
  obtain result after warnings where loaded: "(if cp_directory paths = [] \<and> \<not> cp_write_defaults paths then (Inr empty_document, files, [])
      else load_file plat world files ?owner ?entries (cp_write_defaults paths) []) = (result, after, warnings)"
    by (meson prod_cases3)
  note result = assms(1) [unfolded load_configuration_def Let_def, folded plugin_def, unfolded loaded]
  from result obtain document where document: "result = Inr document" by (cases result) auto
  obtain overrides more where controls:
    "read_controls plat document ?owner plugin (warn_unknown document ?entries warnings ?owner) = (overrides, more)" by fastforce
  obtain variants others where variants:
    "capture_variants plat reads ?owner plugin document (cl_applicable ?cl) [] = (variants, others)" by fastforce
  show ?thesis using result by (intro exI [of _ ?owner] exI [of _ document] exI [of _ overrides])
    (auto simp: document controls variants)
qed

text \<open>C29: A loaded configuration holds one effective control for every patch of the plugin and, for exactly the
  variants that may still apply to the images, one value for every setting in the order of the declaration. Each has
  the kind its setting declares, and is the declared default or input that the setting's validator accepted: a
  rejected environment variable or INI value never reaches the plugin.\<close>

theorem captured_settings_typed:
  assumes "load_configuration plat world reads catalog files admitted patches role observations paths = (Inr configuration, files')"
  shows "length (pg_controls configuration) = length (fl_patches (ap_definition admitted)) \<and>
    map (\<lambda>cv. (cv_patch cv, cv_variant cv)) (pg_variants configuration) =
      cl_applicable (collect plat catalog role observations (ap_definition admitted) patches) \<and>
    list_all (\<lambda>cv. list_all2 setting_value
      (fv_settings (fp_variants (fl_patches (ap_definition admitted) ! cv_patch cv) ! cv_variant cv)) (cv_values cv))
      (pg_variants configuration)"
proof -
  obtain owner document overrides where controls: "pg_controls configuration = resolve_controls (ap_definition admitted) overrides"
    and variants: "pg_variants configuration = fst (capture_variants plat reads owner (ap_definition admitted) document
      (cl_applicable (collect plat catalog role observations (ap_definition admitted) patches)) [])"
    using load_configuration_success [OF assms] by metis
  have "map (\<lambda>cv. (cv_patch cv, cv_variant cv)) (pg_variants configuration) =
      cl_applicable (collect plat catalog role observations (ap_definition admitted) patches) \<and>
    list_all (captured_ok (ap_definition admitted)) (pg_variants configuration)"
    by (simp only: variants capture_variants_ok [OF surjective_pairing])
  then show ?thesis by (simp add: controls resolve_controls_def captured_ok_def [abs_def])
qed

text \<open>A patch with one setting, read offline: the environment gives a value the validator accepts.\<close>

definition limit_setting :: FC_Setting where
  "limit_setting = \<lparr>fs_key = ''Limit'', fs_description = [], fs_section = [], fs_environment = ''FC_LIMIT'',
     fs_default_value = FV_Unsigned 3, fs_constraints = [],
     fs_validate = (\<lambda>v. (if v = FV_Unsigned 0 then 0 else 1, None))\<rparr>"

definition limit_patch :: FC_Patch where
  "limit_patch = \<lparr>fp_id = ''P'', fp_description = [], fp_category = [], fp_enabled = 1, fp_configurable = 1,
     fp_failure_policy = 0, fp_update_interval_ms = 0, fp_depends_on = [],
     fp_variants = [\<lparr>fv_images = [], fv_role = 3, fv_failure_policy = 0, fv_depends_on = [], fv_settings = [limit_setting]\<rparr>]\<rparr>"

definition limit_plugin :: AdmittedPlugin where
  "limit_plugin = \<lparr>ap_owner = ''Q'', ap_definition = \<lparr>fl_id = ''Q'', fl_version = ''1'', fl_categories = [], fl_groups = [],
     fl_patches = [limit_patch]\<rparr>\<rparr>"

definition limit_environment :: environment_os where
  "limit_environment = \<lparr>en_wide = map of_char, en_size = (\<lambda>_. (2, 0)), en_value = (\<lambda>_ _. (1, [55, 0])),
     en_utf8 = (\<lambda>units. Some (map char_of units))\<rparr>"

definition limit_resolved :: ResolvedPatch where
  "limit_resolved = \<lparr>rp_owner = ''Q'', rp_plugin = ap_definition limit_plugin, rp_definition = limit_patch,
     rp_variants = resolve_variants [] limit_patch\<rparr>"

definition offline :: ConfigurationPaths where
  "offline = \<lparr>cp_directory = [], cp_write_defaults = False\<rparr>"

lemma limit_selected: "ps_state (evaluate_patch [] limit_resolved 1 [] (rp_variants limit_resolved)) = Ready"
  by code_simp

definition limit_entries :: "GeneratedEntry list" where
  "limit_entries = [setting_entry limit_patch limit_setting, toggle_entry (ap_definition limit_plugin) ''P'' [] [] 1]"

lemma limit_collected: "collect plat [] 1 [] (ap_definition limit_plugin) [(0, limit_resolved)] =
    \<lparr>cl_entries = limit_entries, cl_applicable = [(0, 0)], cl_eligible = [0]\<rparr>"
proof -
  have variants: "\<exists>variant. rp_variants limit_resolved = [variant] \<and> fv_settings (rv_definition variant) = [limit_setting]"
    by (simp add: limit_resolved_def resolve_variants_def limit_patch_def)
  have "rp_definition limit_resolved = limit_patch" by (simp add: limit_resolved_def)
  then show ?thesis using variants limit_selected
    by (auto simp: collect_def collect_patch_def limit_entries_def add_generated_def find_index_def limit_plugin_def limit_patch_def
      setting_entry_def setting_section_def toggle_entry_def generated_def limit_setting_def identity_def folded_id_def)
qed

lemma limit_read: "environment limit_environment ''FC_LIMIT'' = Some ''7''"
  by (simp add: environment_def limit_environment_def char_of_def bit_0)

lemma limit_accepted: "accept_setting plat owner limit_setting ''7'' = Inr (SV_Unsigned 7)"
proof -
  have "from_chars_unsigned ''7'' = Some (7, [])" by (simp add: from_chars_unsigned_def is_digit_def digits_value_def Let_def)
  then show ?thesis by (simp add: accept_setting_def parse_scalar_def limit_setting_def scalar_kinds)
qed

lemma limit_captured: "capture_settings plat (\<lambda>_. limit_environment) owner limit_patch document [limit_setting] [] =
    ([(folded_id ''FC_LIMIT'', Some ''7'')], [SV_Unsigned 7], [])"
proof -
  have name: "fs_environment limit_setting = ''FC_LIMIT''" by (simp add: limit_setting_def)
  show ?thesis by (simp add: capture_environment_def name limit_read resolve_setting_def Let_def limit_accepted split: option.split)
qed

lemma limit_loaded:
  "fst (load_configuration plat world (\<lambda>_. limit_environment) [] files limit_plugin [(0, limit_resolved)] 1 [] offline) =
    Inr \<lparr>pg_controls = [\<lparr>pc_enabled = True, pc_source = SourceDefault\<rparr>],
          pg_variants = [\<lparr>cv_patch = 0, cv_variant = 0, cv_values = [SV_Unsigned 7]\<rparr>], pg_warnings = []\<rparr>"
proof -
  have controls: "read_controls plat empty_document owner (ap_definition limit_plugin) warnings = ([], warnings)" for owner warnings
    by (simp add: read_controls_def limit_plugin_def limit_patch_def read_control_def Let_def ini_find_def empty_document_def)
  have unknown: "warn_unknown empty_document limit_entries [] owner = []" for owner
    by (simp add: warn_unknown_def empty_document_def)
  have "fl_patches (ap_definition limit_plugin) = [limit_patch]"
    and "fv_settings (fp_variants limit_patch ! 0) = [limit_setting]" and "fp_enabled limit_patch = 1" and "fp_configurable limit_patch = 1"
    by (simp_all add: limit_plugin_def limit_patch_def)
  then show ?thesis
    by (simp add: load_configuration_def Let_def limit_collected offline_def controls unknown limit_captured resolve_controls_def
      resolve_control_def find_override_def del: capture_settings.simps)
qed

theorem captured_settings_typed_witness:
  "list_all2 setting_value [limit_setting] [SV_Unsigned 7]"
proof -
  have "load_configuration plat world (\<lambda>_. limit_environment) [] Map.empty limit_plugin [(0, limit_resolved)] 1 [] offline =
      (Inr \<lparr>pg_controls = [\<lparr>pc_enabled = True, pc_source = SourceDefault\<rparr>],
          pg_variants = [\<lparr>cv_patch = 0, cv_variant = 0, cv_values = [SV_Unsigned 7]\<rparr>], pg_warnings = []\<rparr>,
       snd (load_configuration plat world (\<lambda>_. limit_environment) [] Map.empty limit_plugin [(0, limit_resolved)] 1 [] offline))" for plat world
    by (rule prod_eqI) (simp_all add: limit_loaded)
  from captured_settings_typed [OF this] show ?thesis by (simp add: limit_plugin_def limit_patch_def)
qed

end
