(* ===== verification/Patch_Api.thy ===== *)
theory Patch_Api
  imports Patch_Records Native_Plan
begin

unbundle bit_operations_syntax

text \<open>
  The interface tables patches offer each other (\<open>runtime/src/patches/patch_api.cpp\<close>): what a patch publishes while
  it prepares, what a consumer may retrieve, the optional subscriptions delivered once both are installed, and the
  table of C functions in front of them. A patch is its position in the session; an operation reads the states of the
  session and the reservations of the patches.
\<close>

section \<open>Contracts\<close>

record PatchApiContract =
  ac_id :: string
  ac_table_size :: u32
  ac_table_alignment :: u32
  ac_description :: "byte list"
  ac_required_functions :: "u32 list"

text \<open>\<open>pointer\<close> is the size of a function pointer.\<close>

definition function_beyond :: "nat \<Rightarrow> u32 \<Rightarrow> u32 \<Rightarrow> bool" where
  "function_beyond pointer bound offset \<longleftrightarrow> offset > bound \<or> pointer > unat (bound - offset)"

definition invalid_contract :: "nat \<Rightarrow> PatchApiContract \<Rightarrow> string option" where
  "invalid_contract pointer contract =
    (let alignment = ac_table_alignment contract
     in if ac_id contract = [] then Some ''API contract ID is empty''
        else if ac_table_size contract = 0 \<or> alignment = 0 \<or> alignment AND (alignment - 1) \<noteq> 0 \<or>
            ac_table_size contract mod alignment \<noteq> 0
        then Some (''API '' @ quoted (ac_id contract) @ '' has an invalid table size or alignment'')
        else if ac_description contract = []
        then Some (''API '' @ quoted (ac_id contract) @ '' has no table layout and function signature description'')
        else if list_ex (function_beyond pointer (ac_table_size contract)) (ac_required_functions contract)
        then Some (''API '' @ quoted (ac_id contract) @ '' has a required function pointer that extends beyond its table'')
        else None)"

section \<open>Reservations\<close>

record Publication =
  pb_contract :: PatchApiContract
  pb_table :: "byte list"

text \<open>A pending subscription names its provider; \<open>sb_callback\<close> is the code behind the consumer's callback.\<close>

record Subscription =
  sn_provider :: "nat option"
  sn_contract :: PatchApiContract
  sn_context :: nat
  sn_callback :: nat

record PatchApiReservations =
  ra_publications :: "Publication list"
  ra_subscriptions :: "Subscription list"
  ra_error :: "Diagnostic option"

definition no_reservations :: PatchApiReservations where
  "no_reservations = \<lparr>ra_publications = [], ra_subscriptions = [], ra_error = None\<rparr>"

definition fail_api :: "Diagnostic \<Rightarrow> PatchApiReservations \<Rightarrow> PatchApiReservations" where
  "fail_api failed api = (if ra_error api = None then api\<lparr>ra_error := Some failed\<rparr> else api)"

definition discard_api :: "PatchApiReservations \<Rightarrow> PatchApiReservations" where
  "discard_api api = api\<lparr>ra_subscriptions := [], ra_publications := []\<rparr>"

text \<open>A failure is attributed to the patch that asked.\<close>

definition failure :: "SelectionSession \<Rightarrow> nat \<Rightarrow> string \<Rightarrow> Diagnostic" where
  "failure session owner message = diagnostic (qualified_patch_id session (ss_patches session ! owner)) message"

definition record_state :: "SelectionSession \<Rightarrow> nat \<Rightarrow> PatchState" where
  "record_state session patch = pr_state (ss_patches session ! patch)"

text \<open>The two identifiers of a provider: \<open>plugin.patch\<close>, or \<open>patch\<close> for a patch of the consumer's own plugin.\<close>

definition reference :: "SelectionSession \<Rightarrow> nat \<Rightarrow> string \<Rightarrow> (string \<times> string) option" where
  "reference session consumer value' =
    (case split_reference (session_plugin session (pr_plugin (ss_patches session ! consumer))) value' of
       (plugin, patch) \<Rightarrow> if plugin = [] \<or> patch = [] \<or> CHR ''.'' \<in> set patch then None else Some (plugin, patch))"

definition record_matches :: "SelectionSession \<Rightarrow> string \<times> string \<Rightarrow> PatchRecord \<Rightarrow> bool" where
  "record_matches session provider record \<longleftrightarrow>
    equal_id (fl_id (session_plugin session (pr_plugin record))) (fst provider) \<and> equal_id (fp_id (pr_definition record)) (snd provider)"

section \<open>Publication\<close>

text \<open>\<open>table\<close> holds the readable bytes at the provider's table.\<close>

definition publish :: "nat \<Rightarrow> SelectionSession \<Rightarrow> nat \<Rightarrow> PatchApiContract \<Rightarrow> byte list \<Rightarrow> PatchApiReservations
    \<Rightarrow> Diagnostic + PatchApiReservations" where
  "publish pointer session owner contract table api =
    (if record_state session owner \<noteq> PPreparing
     then Inl (failure session owner (''Cannot publish API '' @ quoted (ac_id contract) @ '' while the patch is '' @
            state_name (record_state session owner) @ ''; publish during prepare()''))
     else case invalid_contract pointer contract of
       Some invalid \<Rightarrow> Inl (failure session owner invalid)
     | None \<Rightarrow>
         if list_ex (\<lambda>item. ac_id (pb_contract item) = ac_id contract) (ra_publications api)
         then Inl (failure session owner (''API '' @ quoted (ac_id contract) @ '' was already published by this patch''))
         else Inr (api\<lparr>ra_publications := ra_publications api @
                [\<lparr>pb_contract = contract, pb_table = take (unat (ac_table_size contract)) table\<rparr>]\<rparr>))"

section \<open>Retrieval\<close>

definition null_function :: "nat \<Rightarrow> byte list \<Rightarrow> u32 \<Rightarrow> bool" where
  "null_function pointer table offset \<longleftrightarrow> list_all (\<lambda>b. b = 0) (take pointer (drop (unat offset) table))"

definition api_label :: "SelectionSession \<Rightarrow> nat \<Rightarrow> string \<Rightarrow> string" where
  "api_label session provider ident =
    ''API '' @ quoted ident @ '' from provider '' @ quoted (qualified_patch_id session (ss_patches session ! provider))"

definition connect :: "nat \<Rightarrow> SelectionSession \<Rightarrow> nat \<Rightarrow> nat \<Rightarrow> PatchApiReservations \<Rightarrow> PatchApiContract
    \<Rightarrow> Diagnostic + byte list" where
  "connect pointer session owner provider reservations contract =
    (let label = api_label session provider (ac_id contract)
     in case List.find (\<lambda>item. ac_id (pb_contract item) = ac_id contract) (ra_publications reservations) of
          None \<Rightarrow> Inl (failure session owner (label @ '' is not published''))
        | Some found \<Rightarrow>
            let published = pb_contract found
            in if ac_table_size published \<noteq> ac_table_size contract \<or> ac_table_alignment published \<noteq> ac_table_alignment contract \<or>
                  ac_description published \<noteq> ac_description contract \<or>
                  ac_required_functions published \<noteq> ac_required_functions contract
               then Inl (failure session owner (label @ '' has an incompatible contract''))
               else case List.find (null_function pointer (pb_table found)) (ac_required_functions published) of
                 Some offset \<Rightarrow> Inl (failure session owner (label @ '' has a null required function at byte offset '' @ decimal (unat offset)))
               | None \<Rightarrow> Inr (pb_table found))"

text \<open>\<open>apis\<close> gives the reservations of every patch that has been installed.\<close>

definition get_api :: "nat \<Rightarrow> SelectionSession \<Rightarrow> (nat \<Rightarrow> PatchApiReservations) \<Rightarrow> nat \<Rightarrow> string \<Rightarrow> PatchApiContract
    \<Rightarrow> Diagnostic + byte list" where
  "get_api pointer session apis owner provider contract =
    (if record_state session owner \<noteq> PPreparing
     then Inl (failure session owner (''Cannot retrieve API '' @ quoted (ac_id contract) @ '' from provider '' @ quoted provider @
            '' while the patch is '' @ state_name (record_state session owner) @ ''; retrieve during prepare()''))
     else case reference session owner provider of
       None \<Rightarrow> Inl (failure session owner (''API provider reference '' @ quoted provider @ '' is invalid''))
     | Some parsed \<Rightarrow>
         case List.find (\<lambda>item. record_matches session parsed (ss_patches session ! item)) (pr_providers (ss_patches session ! owner)) of
           None \<Rightarrow> Inl (failure session owner (''Cannot retrieve API '' @ quoted (ac_id contract) @ '': provider '' @ quoted provider @
                     '' is not covered by a declared dependency''))
         | Some dependency \<Rightarrow>
             if record_state session dependency \<noteq> PInstalled
             then Inl (failure session owner (''Cannot retrieve API '' @ quoted (ac_id contract) @ '': provider '' @ quoted provider @
                    '' is '' @ state_name (record_state session dependency) @ ''; the provider must be installed and activated''))
             else connect pointer session owner dependency (apis dependency) contract)"

section \<open>Subscriptions\<close>

definition subscribe :: "nat \<Rightarrow> SelectionSession \<Rightarrow> nat \<Rightarrow> string \<Rightarrow> PatchApiContract \<Rightarrow> nat \<Rightarrow> nat option \<Rightarrow> PatchApiReservations
    \<Rightarrow> Diagnostic + PatchApiReservations" where
  "subscribe pointer session owner provider contract context' callback api =
    (if record_state session owner \<noteq> PPreparing
     then Inl (failure session owner (''Cannot register a callback for optional API '' @ quoted (ac_id contract) @ '' from provider '' @
            quoted provider @ '' while the patch is '' @ state_name (record_state session owner) @ ''; register during prepare()''))
     else case invalid_contract pointer contract of
       Some invalid \<Rightarrow> Inl (failure session owner invalid)
     | None \<Rightarrow>
         (case (reference session owner provider, callback) of
            (Some parsed, Some code) \<Rightarrow>
              (case find_index (record_matches session parsed) (ss_patches session) of
                 Some found \<Rightarrow> Inr (api\<lparr>ra_subscriptions := ra_subscriptions api @
                   [\<lparr>sn_provider = Some found, sn_contract = contract, sn_context = context', sn_callback = code\<rparr>]\<rparr>)
               | None \<Rightarrow> Inr api)
          | _ \<Rightarrow> Inl (failure session owner (''Optional API '' @ quoted (ac_id contract) @ '' requires a valid provider and callback''))))"

text \<open>
  One turn of the delivery loop: the subscription afterwards, the warning and the call it makes. The callbacks run in
  the order of the subscriptions; neither they nor later turns can add or change a subscription, since only a patch
  that prepares may, and a turn clears its provider before the call.
\<close>

record delivery =
  dl_callback :: nat
  dl_context :: nat
  dl_table :: "byte list"

definition deliver_one :: "nat \<Rightarrow> SelectionSession \<Rightarrow> (nat \<Rightarrow> PatchApiReservations) \<Rightarrow> nat \<Rightarrow> Subscription
    \<Rightarrow> Subscription \<times> Diagnostic list \<times> delivery list" where
  "deliver_one pointer session apis owner subscription =
    (case sn_provider subscription of
       None \<Rightarrow> (subscription, [], [])
     | Some provider \<Rightarrow>
         if record_state session provider \<noteq> PInstalled then (subscription, [], [])
         else
           (case connect pointer session owner provider (apis provider) (sn_contract subscription) of
              Inl rejected \<Rightarrow> (subscription\<lparr>sn_provider := None\<rparr>,
                [rejected\<lparr>dg_level := FC_LOG_WARNING, dg_message := dg_message rejected @ ''; the optional API callback will not run''\<rparr>], [])
            | Inr table \<Rightarrow> (subscription\<lparr>sn_provider := None\<rparr>, [],
                [\<lparr>dl_callback = sn_callback subscription, dl_context = sn_context subscription, dl_table = table\<rparr>])))"

fun deliver_each :: "nat \<Rightarrow> SelectionSession \<Rightarrow> (nat \<Rightarrow> PatchApiReservations) \<Rightarrow> nat \<Rightarrow> Subscription list
    \<Rightarrow> Subscription list \<times> Diagnostic list \<times> delivery list" where
  "deliver_each pointer session apis owner [] = ([], [], [])"
| "deliver_each pointer session apis owner (subscription # subscriptions) =
    (case deliver_one pointer session apis owner subscription of (s, warnings, calls) \<Rightarrow>
     case deliver_each pointer session apis owner subscriptions of (ss, more_warnings, more_calls) \<Rightarrow>
       (s # ss, warnings @ more_warnings, calls @ more_calls))"

definition deliver_available :: "nat \<Rightarrow> SelectionSession \<Rightarrow> (nat \<Rightarrow> PatchApiReservations) \<Rightarrow> nat
    \<Rightarrow> PatchApiReservations \<times> Diagnostic list \<times> delivery list" where
  "deliver_available pointer session apis owner =
    (if record_state session owner \<noteq> PInstalled then (apis owner, [], [])
     else case deliver_each pointer session apis owner (ra_subscriptions (apis owner)) of
       (subscriptions, warnings, calls) \<Rightarrow> ((apis owner)\<lparr>ra_subscriptions := subscriptions\<rparr>, warnings, calls))"

section \<open>Attribution\<close>

text \<open>The thread's originating consumer: the owner of the outermost callback.\<close>

definition enter_patch_callback :: "nat option \<Rightarrow> nat option \<Rightarrow> nat option \<times> nat option" where
  "enter_patch_callback originating owner = (if originating = None then owner else originating, originating)"

definition leave_patch_callback :: "nat option \<Rightarrow> nat option" where
  "leave_patch_callback previous = previous"

definition current_consumer :: "nat option \<Rightarrow> nat option" where
  "current_consumer originating = originating"

text \<open>A callback in its scope: what it returns, run with the consumer it is attributed to, and the consumer afterwards.\<close>

definition in_callback_scope :: "nat option \<Rightarrow> nat option \<Rightarrow> (nat option \<Rightarrow> 'a) \<Rightarrow> 'a \<times> nat option" where
  "in_callback_scope originating owner callback =
    (case enter_patch_callback originating owner of (inside, previous) \<Rightarrow> (callback inside, leave_patch_callback previous))"

section \<open>The C table\<close>

record FC_ApiContract =
  fa_id :: FC_Text
  fa_table_size :: u32
  fa_table_alignment :: u32
  fa_description :: FC_Bytes
  fa_required_functions :: "u32 list option"
  fa_function_count :: u32

definition contract_view :: "FC_ApiContract \<Rightarrow> string + PatchApiContract" where
  "contract_view contract =
    (if (ft_size (fa_id contract) \<noteq> 0 \<and> ft_data (fa_id contract) = None) \<or>
        (fb_size (fa_description contract) \<noteq> 0 \<and> fb_data (fa_description contract) = None) \<or>
        (fa_function_count contract \<noteq> 0 \<and> fa_required_functions contract = None)
     then Inl ''Patch API contract has a null data pointer for a nonempty field''
     else Inr \<lparr>ac_id = view (fa_id contract), ac_table_size = fa_table_size contract, ac_table_alignment = fa_table_alignment contract,
            ac_description = (case fb_data (fa_description contract) of None \<Rightarrow> [] | Some bytes \<Rightarrow> take (fb_size (fa_description contract)) bytes),
            ac_required_functions = (case fa_required_functions contract of None \<Rightarrow> []
              | Some offsets \<Rightarrow> take (unat (fa_function_count contract)) offsets)\<rparr>)"

text \<open>
  \<open>api_operation\<close> around one operation of a patch: the status, the reservations of all patches, and what the sink
  receives when one is given. An operation yields its value or an exception text or a failure; \<open>owner\<close> is absent where
  the record has no reservations or no runtime.
\<close>

type_synonym apis = "nat \<Rightarrow> PatchApiReservations"

definition report_api_error :: "apis \<Rightarrow> nat \<Rightarrow> Diagnostic \<Rightarrow> bool \<Rightarrow> apis \<times> (string \<times> u32) option" where
  "report_api_error apis owner failed sink =
    (let apis = apis(owner := fail_api failed (apis owner)); retained = the (ra_error (apis owner))
     in (apis, if sink then Some (dg_message retained, dg_windows_error retained) else None))"

definition api_operation :: "SelectionSession \<Rightarrow> apis \<Rightarrow> nat option \<Rightarrow> bool \<Rightarrow> (nat \<Rightarrow> string + (Diagnostic + apis \<times> 'a)) \<Rightarrow>
    apis \<times> 'a option \<times> (string \<times> u32) option" where
  "api_operation session apis caller sink operation =
    (case caller of
       None \<Rightarrow> (apis, None, if sink then Some (''Patch API owner is unavailable'', 0) else None)
     | Some owner \<Rightarrow>
         (case operation owner of
            Inr (Inr (apis, result)) \<Rightarrow> (apis, Some result, None)
          | Inr (Inl failed) \<Rightarrow> (case report_api_error apis owner failed sink of (apis, reported) \<Rightarrow> (apis, None, reported))
          | Inl exception \<Rightarrow>
              (case report_api_error apis owner (failure session owner exception) sink of (apis, reported) \<Rightarrow> (apis, None, reported))))"

definition publish_api :: "nat \<Rightarrow> SelectionSession \<Rightarrow> apis \<Rightarrow> nat option \<Rightarrow> FC_ApiContract option \<Rightarrow> byte list option \<Rightarrow> bool \<Rightarrow>
    apis \<times> unit option \<times> (string \<times> u32) option" where
  "publish_api pointer session apis caller contract table sink =
    api_operation session apis caller sink (\<lambda>owner.
      case (contract, table) of
        (Some contract, Some table) \<Rightarrow>
          map_sum id (\<lambda>seen. map_sum id (\<lambda>api. (apis(owner := api), ())) (publish pointer session owner seen table (apis owner)))
            (contract_view contract)
      | _ \<Rightarrow> Inr (Inl (failure session owner ''Patch API publication request has a null contract or table'')))"

text \<open>A successful retrieval copies the table to the caller's storage: the bytes are the result.\<close>

definition retrieve_api :: "nat \<Rightarrow> SelectionSession \<Rightarrow> apis \<Rightarrow> nat option \<Rightarrow> FC_Text \<Rightarrow> FC_ApiContract option \<Rightarrow> bool \<Rightarrow> bool \<Rightarrow>
    apis \<times> byte list option \<times> (string \<times> u32) option" where
  "retrieve_api pointer session apis caller provider contract out sink =
    api_operation session apis caller sink (\<lambda>owner.
      if contract = None \<or> \<not> out \<or> (ft_size provider \<noteq> 0 \<and> ft_data provider = None)
      then Inr (Inl (failure session owner ''Required patch API request has a null contract, output or provider data pointer''))
      else map_sum id (\<lambda>seen. map_sum id (\<lambda>table. (apis, table)) (get_api pointer session apis owner (view provider) seen))
        (contract_view (the contract)))"

definition on_available :: "nat \<Rightarrow> SelectionSession \<Rightarrow> apis \<Rightarrow> nat option \<Rightarrow> FC_Text \<Rightarrow> FC_ApiContract option \<Rightarrow> nat \<Rightarrow> nat option \<Rightarrow>
    bool \<Rightarrow> apis \<times> unit option \<times> (string \<times> u32) option" where
  "on_available pointer session apis caller provider contract context' callback sink =
    api_operation session apis caller sink (\<lambda>owner.
      if contract = None \<or> (ft_size provider \<noteq> 0 \<and> ft_data provider = None)
      then Inr (Inl (failure session owner ''Optional patch API notification request has a null contract or provider data pointer''))
      else map_sum id (\<lambda>seen. map_sum id (\<lambda>api. (apis(owner := api), ()))
          (subscribe pointer session owner (view provider) seen context' callback (apis owner)))
        (contract_view (the contract)))"

text \<open>\<open>invoke\<close>: the callback runs, attributed to the consumer, only while the consumer is installed.\<close>

definition invoke_consumer :: "SelectionSession \<Rightarrow> nat option \<Rightarrow> nat option \<Rightarrow> (nat option \<Rightarrow> 'a) option \<Rightarrow> ('a \<times> nat option) option" where
  "invoke_consumer session originating caller callback =
    (case (caller, callback) of
       (Some owner, Some code) \<Rightarrow>
         if record_state session owner \<noteq> PInstalled then None else Some (in_callback_scope originating (Some owner) code)
     | _ \<Rightarrow> None)"

end
