(* ===== verification/Patch_Api_Laws.thy ===== *)
theory Patch_Api_Laws
  imports Patch_Api Dependency_Laws "HOL-Library.Multiset"
begin

text \<open>
  What patches may rely on between each other: a retrieved table is what an installed, declared provider published
  under exactly the requested contract, and a subscription is settled once.
\<close>

section \<open>Reservations\<close>

definition publication_ok :: "nat \<Rightarrow> Publication \<Rightarrow> bool" where
  "publication_ok pointer item \<longleftrightarrow> invalid_contract pointer (pb_contract item) = None \<and>
    length (pb_table item) = unat (ac_table_size (pb_contract item))"

definition reservations_ok :: "nat \<Rightarrow> PatchApiReservations \<Rightarrow> bool" where
  "reservations_ok pointer api \<longleftrightarrow> list_all (publication_ok pointer) (ra_publications api) \<and>
    distinct (map (ac_id \<circ> pb_contract) (ra_publications api))"

lemma no_reservations_ok: "reservations_ok pointer no_reservations"
  by (simp add: reservations_ok_def no_reservations_def)

lemma fail_api_ok [simp]: "reservations_ok pointer (fail_api failed api) = reservations_ok pointer api"
  by (simp add: reservations_ok_def fail_api_def)

lemma discard_api_ok: "reservations_ok pointer (discard_api api)"
  by (simp add: reservations_ok_def discard_api_def)

lemma publish_Inr:
  "publish pointer session owner contract table api = Inr api' \<longleftrightarrow>
    record_state session owner = PPreparing \<and> invalid_contract pointer contract = None \<and>
    ac_id contract \<notin> (ac_id \<circ> pb_contract) ` set (ra_publications api) \<and>
    api' = api\<lparr>ra_publications := ra_publications api @ [\<lparr>pb_contract = contract, pb_table = take (unat (ac_table_size contract)) table\<rparr>]\<rparr>"
proof (cases "invalid_contract pointer contract")
  case None
  then show ?thesis by (auto simp: publish_def list_ex_iff image_iff dest: sym)
qed (auto simp: publish_def)

lemma publish_ok:
  assumes "publish pointer session owner contract table api = Inr api'" and "reservations_ok pointer api"
    and "unat (ac_table_size contract) \<le> length table"
  shows "reservations_ok pointer api'"
  using assms by (auto simp: publish_Inr reservations_ok_def publication_ok_def)

lemma subscribe_publications:
  "subscribe pointer session owner provider contract context' callback api = Inr api' \<Longrightarrow> ra_publications api' = ra_publications api"
  by (auto simp: subscribe_def split: if_splits option.splits)

lemma deliver_publications: "ra_publications (fst (deliver_available pointer session apis owner)) = ra_publications (apis owner)"
  by (simp add: deliver_available_def split: prod.split)

lemma first_error_kept: "ra_error api = Some e \<Longrightarrow> fail_api failed api = api"
  by (simp add: fail_api_def)

text \<open>With distinct identifiers the search for a contract finds the published one.\<close>

lemma find_publication:
  assumes "distinct (map f xs)"
  shows "List.find (\<lambda>x. f x = k) xs = Some x \<longleftrightarrow> x \<in> set xs \<and> f x = k"
  using assms by (induction xs) (auto simp: image_iff)

section \<open>Retrieval\<close>

definition callable :: "nat \<Rightarrow> byte list \<Rightarrow> u32 \<Rightarrow> bool" where
  "callable pointer table offset \<longleftrightarrow> unat offset + pointer \<le> length table \<and>
    (\<exists>i < pointer. table ! (unat offset + i) \<noteq> 0)"

lemma null_function_iff:
  assumes "unat offset + pointer \<le> length table"
  shows "null_function pointer table offset \<longleftrightarrow> \<not> callable pointer table offset"
  using assms by (auto simp: null_function_def callable_def list_all_length)

lemma function_within:
  assumes "invalid_contract pointer contract = None" and "offset \<in> set (ac_required_functions contract)"
  shows "unat offset + pointer \<le> unat (ac_table_size contract)"
proof -
  have "\<not> function_beyond pointer (ac_table_size contract) offset"
    using assms by (auto simp: invalid_contract_def Let_def list_ex_iff split: if_splits)
  then have "offset \<le> ac_table_size contract" and "pointer \<le> unat (ac_table_size contract - offset)"
    by (simp_all add: function_beyond_def not_less)
  then show ?thesis by (simp add: unat_sub word_le_nat_alt)
qed

lemma connect_exact:
  assumes "reservations_ok pointer reservations"
  shows "connect pointer session owner provider reservations contract = Inr table \<longleftrightarrow>
    \<lparr>pb_contract = contract, pb_table = table\<rparr> \<in> set (ra_publications reservations) \<and>
    list_all (callable pointer table) (ac_required_functions contract)"
proof -
  have found: "List.find (\<lambda>item. ac_id (pb_contract item) = ac_id contract) (ra_publications reservations) = Some item \<longleftrightarrow>
      item \<in> set (ra_publications reservations) \<and> ac_id (pb_contract item) = ac_id contract" for item
    using assms find_publication [of "ac_id \<circ> pb_contract" "ra_publications reservations" "ac_id contract" item]
    by (simp add: reservations_ok_def)
  have slots: "List.find (null_function pointer (pb_table item)) (ac_required_functions (pb_contract item)) = None \<longleftrightarrow>
      list_all (callable pointer (pb_table item)) (ac_required_functions (pb_contract item))"
    if "item \<in> set (ra_publications reservations)" for item
  proof -
    have "publication_ok pointer item" using assms that by (simp add: reservations_ok_def list_all_iff)
    then have "null_function pointer (pb_table item) offset \<longleftrightarrow> \<not> callable pointer (pb_table item) offset"
      if "offset \<in> set (ac_required_functions (pb_contract item))" for offset
      using function_within [OF _ that] by (simp add: publication_ok_def null_function_iff)
    then show ?thesis by (auto simp: find_None_iff list_all_iff)
  qed
  have same: "pb_contract item = contract \<longleftrightarrow> ac_id (pb_contract item) = ac_id contract \<and>
      ac_table_size (pb_contract item) = ac_table_size contract \<and> ac_table_alignment (pb_contract item) = ac_table_alignment contract \<and>
      ac_description (pb_contract item) = ac_description contract \<and>
      ac_required_functions (pb_contract item) = ac_required_functions contract" for item
    by (cases "pb_contract item"; cases contract) auto
  have item: "item = \<lparr>pb_contract = contract, pb_table = table\<rparr> \<longleftrightarrow> pb_contract item = contract \<and> pb_table item = table" for item :: Publication
    by (cases item) auto
  show ?thesis
  proof
    assume "connect pointer session owner provider reservations contract = Inr table"
    then obtain item where "item \<in> set (ra_publications reservations)" "pb_contract item = contract" "pb_table item = table"
      "List.find (null_function pointer (pb_table item)) (ac_required_functions (pb_contract item)) = None"
      by (auto simp: connect_def Let_def found same split: option.splits if_splits)
    then show "\<lparr>pb_contract = contract, pb_table = table\<rparr> \<in> set (ra_publications reservations) \<and>
        list_all (callable pointer table) (ac_required_functions contract)"
      using item slots by metis
  next
    assume published: "\<lparr>pb_contract = contract, pb_table = table\<rparr> \<in> set (ra_publications reservations) \<and>
        list_all (callable pointer table) (ac_required_functions contract)"
    then have "List.find (\<lambda>item. ac_id (pb_contract item) = ac_id contract) (ra_publications reservations) =
        Some \<lparr>pb_contract = contract, pb_table = table\<rparr>"
      by (simp add: found)
    with published slots [of "\<lparr>pb_contract = contract, pb_table = table\<rparr>"] show "connect pointer session owner provider reservations contract = Inr table"
      by (simp add: connect_def)
  qed
qed

section \<open>Delivery\<close>

definition pending :: "PatchApiReservations \<Rightarrow> Subscription list" where
  "pending api = filter (\<lambda>s. sn_provider s \<noteq> None) (ra_subscriptions api)"

definition subscriber :: "Subscription \<Rightarrow> nat \<times> nat" where
  "subscriber s = (sn_callback s, sn_context s)"

definition called :: "delivery \<Rightarrow> nat \<times> nat" where
  "called d = (dl_callback d, dl_context d)"

definition waits :: "SelectionSession \<Rightarrow> Subscription \<Rightarrow> bool" where
  "waits session s \<longleftrightarrow> (\<exists>provider. sn_provider s = Some provider \<and> record_state session provider \<noteq> PInstalled)"

lemma deliver_one_accounts:
  assumes "deliver_one pointer session apis owner s = (s', warnings, calls)"
  shows "(sn_provider s' = None \<or> waits session s') \<and> subscriber s' = subscriber s \<and>
    (\<exists>rejected. size rejected = length warnings \<and>
      (if sn_provider s = None then {#} else {#subscriber s#}) =
      (if sn_provider s' = None then {#} else {#subscriber s'#}) + mset (map called calls) + rejected)"
  using assms
  by (auto simp: deliver_one_def waits_def subscriber_def called_def split: option.splits if_splits sum.splits intro: exI [of _ "{#_#}"])

definition pending_keys :: "Subscription list \<Rightarrow> (nat \<times> nat) multiset" where
  "pending_keys ss = mset (map subscriber (filter (\<lambda>s. sn_provider s \<noteq> None) ss))"

lemma pending_keys_simps [simp]:
  "pending_keys [] = {#}"
  "pending_keys (s # ss) = (if sn_provider s = None then {#} else {#subscriber s#}) + pending_keys ss"
  by (auto simp: pending_keys_def)

lemma deliver_each_accounts:
  "deliver_each pointer session apis owner ss = (ss', warnings, calls) \<Longrightarrow>
    list_all (\<lambda>s. sn_provider s = None \<or> waits session s) ss' \<and>
    (\<exists>rejected. size rejected = length warnings \<and> pending_keys ss = pending_keys ss' + mset (map called calls) + rejected)"
proof (induction ss arbitrary: ss' warnings calls)
  case (Cons s ss)
  obtain s1 w1 c1 where one: "deliver_one pointer session apis owner s = (s1, w1, c1)" by (metis prod_cases3)
  obtain s2 w2 c2 where rest: "deliver_each pointer session apis owner ss = (s2, w2, c2)" by (metis prod_cases3)
  from deliver_one_accounts [OF one] obtain r1 where r1: "size r1 = length w1"
    "(if sn_provider s = None then {#} else {#subscriber s#}) =
      (if sn_provider s1 = None then {#} else {#subscriber s1#}) + mset (map called c1) + r1"
    and s1: "sn_provider s1 = None \<or> waits session s1" by blast
  from Cons.IH [OF rest] obtain r2 where r2: "size r2 = length w2" "pending_keys ss = pending_keys s2 + mset (map called c2) + r2"
    and s2: "list_all (\<lambda>s. sn_provider s = None \<or> waits session s) s2" by blast
  have "ss' = s1 # s2" "warnings = w1 @ w2" "calls = c1 @ c2" using Cons.prems one rest by auto
  moreover have "pending_keys (s # ss) = pending_keys (s1 # s2) + mset (map called (c1 @ c2)) + (r1 + r2)"
    unfolding pending_keys_simps r1(2) r2(2) by simp
  ultimately show ?case using r1(1) r2(1) s1 s2 by (auto intro!: exI [of _ "r1 + r2"])
qed simp

text \<open>The deliveries of one consumer over the states its control callback meets.\<close>

fun deliver_run :: "nat \<Rightarrow> nat \<Rightarrow> (SelectionSession \<times> apis) list \<Rightarrow> PatchApiReservations
    \<Rightarrow> PatchApiReservations \<times> Diagnostic list \<times> delivery list" where
  "deliver_run pointer owner [] api = (api, [], [])"
| "deliver_run pointer owner ((session, apis) # rest) api =
    (case deliver_available pointer session (apis(owner := api)) owner of (api1, warnings, calls) \<Rightarrow>
     case deliver_run pointer owner rest api1 of (api2, more_warnings, more_calls) \<Rightarrow>
       (api2, warnings @ more_warnings, calls @ more_calls))"

lemma deliver_available_accounts:
  assumes "deliver_available pointer session apis owner = (api', warnings, calls)"
  shows "(record_state session owner = PInstalled \<longrightarrow> list_all (waits session) (pending api')) \<and>
    (\<exists>rejected. size rejected = length warnings \<and>
      mset (map subscriber (pending (apis owner))) = mset (map subscriber (pending api')) + mset (map called calls) + rejected)"
proof (cases "record_state session owner = PInstalled")
  case True
  obtain ss w c where each: "deliver_each pointer session apis owner (ra_subscriptions (apis owner)) = (ss, w, c)" by (metis prod_cases3)
  have out: "api' = (apis owner)\<lparr>ra_subscriptions := ss\<rparr>" "warnings = w" "calls = c"
    using assms True each by (auto simp: deliver_available_def)
  show ?thesis using deliver_each_accounts [OF each] out by (auto simp: pending_def pending_keys_def list_all_iff)
next
  case False
  then show ?thesis using assms by (auto simp: deliver_available_def)
qed

lemma deliver_run_accounts:
  "deliver_run pointer owner snapshots api = (api', warnings, calls) \<Longrightarrow>
    \<exists>rejected. size rejected = length warnings \<and>
      mset (map subscriber (pending api)) = mset (map subscriber (pending api')) + mset (map called calls) + rejected"
proof (induction snapshots arbitrary: api api' warnings calls)
  case (Cons snapshot rest)
  obtain session apis where snapshot: "snapshot = (session, apis)" by fastforce
  obtain a1 w1 c1 where one: "deliver_available pointer session (apis(owner := api)) owner = (a1, w1, c1)" by (metis prod_cases3)
  obtain a2 w2 c2 where run: "deliver_run pointer owner rest a1 = (a2, w2, c2)" by (metis prod_cases3)
  from deliver_available_accounts [OF one] obtain r1 where r1: "size r1 = length w1"
    "mset (map subscriber (pending api)) = mset (map subscriber (pending a1)) + mset (map called c1) + r1" by auto
  from Cons.IH [OF run] obtain r2 where r2: "size r2 = length w2"
    "mset (map subscriber (pending a1)) = mset (map subscriber (pending a2)) + mset (map called c2) + r2" by blast
  have "api' = a2" "warnings = w1 @ w2" "calls = c1 @ c2" using Cons.prems one run snapshot by auto
  then show ?case using r1 r2 by (auto intro!: exI [of _ "r1 + r2"])
qed simp

lemma deliver_run_last:
  "deliver_run pointer owner (snapshots @ [(session, apis)]) api = (api', warnings, calls) \<Longrightarrow>
    record_state session owner = PInstalled \<Longrightarrow> list_all (waits session) (pending api')"
proof (induction snapshots arbitrary: api warnings calls)
  case Nil
  then show ?case by (auto dest: deliver_available_accounts split: prod.splits)
next
  case (Cons snapshot rest)
  obtain s a where "snapshot = (s, a)" by fastforce
  with Cons show ?case by (auto split: prod.splits)
qed

section \<open>Claims\<close>

text \<open>C30: A consumer that prepares receives a table exactly when the provider it names is the first of its resolved
  providers with that name, is installed, and has published that very table under a contract equal to the requested
  one in every part, and every required function slot of the table lies inside it and holds a pointer that is not null.\<close>

theorem api_retrieval_exact:
  assumes "\<And>patch. reservations_ok pointer (apis patch)"
  shows "get_api pointer session apis owner provider contract = Inr table \<longleftrightarrow>
    record_state session owner = PPreparing \<and>
    (\<exists>parsed dependency. reference session owner provider = Some parsed \<and>
      List.find (\<lambda>item. record_matches session parsed (ss_patches session ! item)) (pr_providers (ss_patches session ! owner)) =
        Some dependency \<and>
      record_state session dependency = PInstalled \<and>
      \<lparr>pb_contract = contract, pb_table = table\<rparr> \<in> set (ra_publications (apis dependency)) \<and>
      list_all (callable pointer table) (ac_required_functions contract))"
  by (auto simp: get_api_def connect_exact [OF assms] split: option.splits)

text \<open>The first example patch is preparing and has the installed second as its provider, which published one function.\<close>

definition api_session :: SelectionSession where
  "api_session = example_session\<lparr>ss_patches :=
    [(example_record 0 ''a'' ''b'')\<lparr>pr_state := PPreparing, pr_providers := [1]\<rparr>,
     (example_record 1 ''b'' ''a'')\<lparr>pr_state := PInstalled\<rparr>]\<rparr>"

definition api_contract :: PatchApiContract where
  "api_contract = \<lparr>ac_id = ''counter.v1'', ac_table_size = 4, ac_table_alignment = 4, ac_description = [7],
     ac_required_functions = [0]\<rparr>"

definition api_published :: apis where
  "api_published = (\<lambda>patch. if patch = 1
     then no_reservations\<lparr>ra_publications := [\<lparr>pb_contract = api_contract, pb_table = [1, 2, 3, 4]\<rparr>]\<rparr>
     else no_reservations)"

lemma api_published_ok: "reservations_ok 4 (api_published patch)"
proof -
  have "invalid_contract 4 api_contract = None" by code_simp
  then show ?thesis
    by (simp add: api_published_def reservations_ok_def publication_ok_def no_reservations_def api_contract_def)
qed

theorem api_retrieval_exact_witness:
  "get_api 4 api_session api_published 0 ''B'' api_contract = Inr [1, 2, 3, 4]"
proof -
  have named: "reference api_session 0 ''B'' = Some (''p'', ''B'')" by code_simp
  have found: "List.find (\<lambda>item. record_matches api_session (''p'', ''B'') (ss_patches api_session ! item))
      (pr_providers (ss_patches api_session ! 0)) = Some 1" by code_simp
  have states: "record_state api_session 0 = PPreparing" "record_state api_session 1 = PInstalled" by code_simp+
  have slots: "list_all (callable 4 [1, 2, 3, 4]) (ac_required_functions api_contract)"
    by (auto simp: api_contract_def callable_def intro: exI [of _ 0])
  have "\<lparr>pb_contract = api_contract, pb_table = [1, 2, 3, 4]\<rparr> \<in> set (ra_publications (api_published 1))"
    by (simp add: api_published_def)
  with api_retrieval_exact [where pointer = 4 and apis = api_published and session = api_session and owner = 0
      and provider = "''B''" and contract = api_contract and table = "[1, 2, 3, 4]", OF api_published_ok]
  show ?thesis using named found states slots by blast
qed

text \<open>C31: Over any sequence of deliveries, whatever the states of the patches do in between, every pending subscription is
  settled at most once, by one call of its callback with its context or by one warning; and after the last delivery
  a subscription is pending only if the consumer or its provider was not installed then.\<close>

theorem subscriptions_settled_once:
  assumes "deliver_run pointer owner (snapshots @ [(session, apis)]) api = (api', warnings, calls)"
  shows "(\<exists>rejected. size rejected = length warnings \<and>
      mset (map subscriber (pending api)) = mset (map subscriber (pending api')) + mset (map called calls) + rejected) \<and>
    (record_state session owner \<noteq> PInstalled \<or> list_all (waits session) (pending api'))"
  using deliver_run_accounts [OF assms] deliver_run_last [OF assms] by blast

text \<open>The second patch subscribes to the first, which installs between two deliveries.\<close>

definition late_subscription :: Subscription where
  "late_subscription = \<lparr>sn_provider = Some 1, sn_contract = api_contract, sn_context = 9, sn_callback = 5\<rparr>"

definition installed_session :: SelectionSession where
  "installed_session = api_session\<lparr>ss_patches := map (pr_state_update (\<lambda>_. PInstalled)) (ss_patches api_session)\<rparr>"

lemma late_delivery:
  "deliver_run 4 0 ([(api_session, api_published)] @ [(installed_session, api_published)])
      (no_reservations\<lparr>ra_subscriptions := [late_subscription]\<rparr>) =
    (no_reservations\<lparr>ra_subscriptions := [late_subscription\<lparr>sn_provider := None\<rparr>]\<rparr>, [],
      [\<lparr>dl_callback = 5, dl_context = 9, dl_table = [1, 2, 3, 4]\<rparr>])"
  by code_simp

theorem subscriptions_settled_once_witness:
  "\<exists>rejected. size rejected = 0 \<and>
    {#(5, 9)#} = mset (map subscriber (pending (no_reservations\<lparr>ra_subscriptions := [late_subscription\<lparr>sn_provider := None\<rparr>]\<rparr>))) +
      {#(5, 9)#} + rejected"
  using subscriptions_settled_once [OF late_delivery]
  by (simp add: pending_def subscriber_def called_def late_subscription_def no_reservations_def)

end
