(* ===== verification/Images.thy ===== *)
theory Images
  imports Patch_Selection Runtime_Settings Native_Plan
begin

text \<open>
  Executable images (\<open>runtime/src/images/image.cpp\<close>): parsing of PE headers from a file or a loaded module, the
  recognition of a supported build, and the probes of the modules loaded in the process. Reading a field outside the
  input is undefined in the code; here it is \<open>None\<close>, and the laws show that it does not happen.
\<close>

section \<open>Layouts\<close>

record ImageSection =
  im_name :: string
  im_rva :: nat
  im_virtual_size :: nat
  im_mapped_size :: nat
  im_raw_offset :: nat
  im_raw_size :: nat
  im_characteristics :: nat

record ImageLayout =
  il_image_size :: nat
  il_sections :: "ImageSection list"
  il_preferred_base :: nat

record FileImage =
  fi_profile :: profile_ref
  fi_filename :: string
  fi_layout :: ImageLayout

record LoadedImageSection =
  ld_name :: string
  ld_begin :: nat
  ld_size :: nat
  ld_characteristics :: nat

record LoadedImage =
  li_profile :: profile_ref
  li_filename :: string
  li_base :: nat
  li_image_size :: nat
  li_sections :: "LoadedImageSection list"

section \<open>Fields\<close>

definition kDosSignature :: nat where "kDosSignature = 0x5a4d"
definition kPeSignature :: nat where "kPeSignature = 0x4550"
definition kPe32Magic :: nat where "kPe32Magic = 0x10b"
definition kPe32PlusMagic :: nat where "kPe32PlusMagic = 0x20b"

fun kExpectedMachine :: "FC_Architecture \<Rightarrow> nat" where
  "kExpectedMachine FC_ARCH_X86 = 0x14c"
| "kExpectedMachine FC_ARCH_X64 = 0x8664"

fun kExpectedMagic :: "FC_Architecture \<Rightarrow> nat" where
  "kExpectedMagic FC_ARCH_X86 = kPe32Magic"
| "kExpectedMagic FC_ARCH_X64 = kPe32PlusMagic"

definition has_range :: "nat \<Rightarrow> nat \<Rightarrow> nat \<Rightarrow> bool" where
  "has_range bound offset n \<longleftrightarrow> offset \<le> bound \<and> n \<le> bound - offset"

lemma has_range_iff: "has_range bound offset n \<longleftrightarrow> offset + n \<le> bound"
  by (auto simp: has_range_def)

definition read_bytes :: "byte list \<Rightarrow> nat \<Rightarrow> nat \<Rightarrow> byte list option" where
  "read_bytes bytes offset n = (if has_range (length bytes) offset n then Some (take n (drop offset bytes)) else None)"

definition read_value :: "byte list \<Rightarrow> nat \<Rightarrow> nat \<Rightarrow> nat option" where
  "read_value bytes offset n = map_option le_number (read_bytes bytes offset n)"

section \<open>Headers\<close>

text \<open>A parse ends with a diagnostic or a value; reading outside the input has no result.\<close>

type_synonym 'a parse = "(Diagnostic + 'a) option"

definition reject :: "string \<Rightarrow> string \<Rightarrow> 'a parse" where
  "reject owner message = Some (Inl (diagnostic owner message))"

definition then_parse :: "'a parse \<Rightarrow> ('a \<Rightarrow> 'b parse) \<Rightarrow> 'b parse" where
  "then_parse step rest = (case step of None \<Rightarrow> None | Some (Inl failed) \<Rightarrow> Some (Inl failed) | Some (Inr v) \<Rightarrow> rest v)"

text \<open>The DOS and the PE file header: where the optional header is, its size, and the number of sections.\<close>

definition parse_file_header :: "FC_Architecture \<Rightarrow> byte list \<Rightarrow> string \<Rightarrow> (nat \<times> nat \<times> nat) parse" where
  "parse_file_header arch bytes owner =
    (if \<not> has_range (length bytes) 0 64 then reject owner ''truncated DOS header''
     else do {
       signature \<leftarrow> read_value bytes 0 2;
       if signature \<noteq> kDosSignature then reject owner ''invalid DOS signature''
       else do {
         pe_offset \<leftarrow> read_value bytes 0x3c 4;
         if \<not> has_range (length bytes) pe_offset (4 + 20) then reject owner ''truncated PE file header''
         else do {
           pe \<leftarrow> read_value bytes pe_offset 4;
           if pe \<noteq> kPeSignature then reject owner ''invalid PE signature''
           else do {
             let file_header = pe_offset + 4;
             machine \<leftarrow> read_value bytes file_header 2;
             if machine \<noteq> kExpectedMachine arch then reject owner (''PE machine does not match this runtime'' @ [CHR 0x27] @ ''s architecture'')
             else do {
               section_count \<leftarrow> read_value bytes (file_header + 2) 2;
               optional_size \<leftarrow> read_value bytes (file_header + 16) 2;
               if \<not> has_range (length bytes) (file_header + 20) optional_size \<or> optional_size < 2
               then reject owner ''truncated PE optional header''
               else Some (Inr (file_header + 20, optional_size, section_count)) } } } } })"

record OptionalHeader =
  oh_image_size :: nat
  oh_section_table :: nat
  oh_preferred_base :: nat

definition parse_optional_header :: "FC_Architecture \<Rightarrow> byte list \<Rightarrow> string \<Rightarrow> bool \<Rightarrow> nat \<times> nat \<times> nat \<Rightarrow> OptionalHeader parse" where
  "parse_optional_header arch bytes owner file_layout header = (case header of (optional_offset, optional_size, section_count) \<Rightarrow> do {
     magic \<leftarrow> read_value bytes optional_offset 2;
     if magic \<noteq> kExpectedMagic arch
     then reject owner (''PE optional header magic does not match this runtime'' @ [CHR 0x27] @ ''s architecture'')
     else if optional_size < (if magic = kPe32Magic then 96 else 112) then reject owner ''truncated fixed PE optional header''
     else do {
       image_size \<leftarrow> read_value bytes (optional_offset + 56) 4;
       headers_size \<leftarrow> read_value bytes (optional_offset + 60) 4;
       if image_size = 0 then reject owner ''PE SizeOfImage is zero''
       else if headers_size > image_size then reject owner ''PE SizeOfHeaders exceeds SizeOfImage''
       else if \<not> file_layout \<and> image_size > length bytes then reject owner ''mapped PE bytes are shorter than SizeOfImage''
       else do {
         let section_table = optional_offset + optional_size;
         let section_bytes = section_count * 40;
         if \<not> has_range (length bytes) section_table section_bytes then reject owner ''truncated PE section table''
         else if section_table > headers_size \<or> section_bytes > headers_size - section_table
         then reject owner ''PE section table exceeds SizeOfHeaders''
         else do {
           preferred_base \<leftarrow> (if magic = kPe32Magic then read_value bytes (optional_offset + 28) 4
                              else read_value bytes (optional_offset + 24) 8);
           Some (Inr \<lparr>oh_image_size = image_size, oh_section_table = section_table, oh_preferred_base = preferred_base\<rparr>) } } } })"

section \<open>Sections\<close>

definition read_section :: "byte list \<Rightarrow> nat \<Rightarrow> ImageSection option" where
  "read_section bytes offset = do {
     name \<leftarrow> read_bytes bytes offset 8;
     virtual_size \<leftarrow> read_value bytes (offset + 8) 4;
     rva \<leftarrow> read_value bytes (offset + 12) 4;
     raw_size \<leftarrow> read_value bytes (offset + 16) 4;
     raw_offset \<leftarrow> read_value bytes (offset + 20) 4;
     characteristics \<leftarrow> read_value bytes (offset + 36) 4;
     Some \<lparr>im_name = text_of_bytes (takeWhile (\<lambda>b. b \<noteq> 0) name), im_rva = rva, im_virtual_size = virtual_size,
       im_mapped_size = (if virtual_size = 0 then raw_size else virtual_size), im_raw_offset = raw_offset,
       im_raw_size = raw_size, im_characteristics = characteristics\<rparr> }"

text \<open>
  The overlap test adds in 32 bits in the code. Both sections have passed the range test, so the sums are at most
  the size of the image and do not wrap.
\<close>

definition sections_overlap :: "ImageSection \<Rightarrow> ImageSection \<Rightarrow> bool" where
  "sections_overlap sec existing \<longleftrightarrow> im_mapped_size existing \<noteq> 0 \<and>
    im_rva sec < (im_rva existing + im_mapped_size existing) mod 2 ^ 32 \<and>
    im_rva existing < (im_rva sec + im_mapped_size sec) mod 2 ^ 32"

definition check_section :: "nat \<Rightarrow> string \<Rightarrow> bool \<Rightarrow> nat \<Rightarrow> ImageSection list \<Rightarrow> ImageSection \<Rightarrow> Diagnostic option" where
  "check_section bound owner file_layout image_size sections sec =
    (let refused = (\<lambda>detail. Some (diagnostic owner (''section '' @ quoted (im_name sec) @ detail)))
     in if im_mapped_size sec > image_size \<or> im_rva sec > image_size - im_mapped_size sec
        then refused '' mapped range is outside SizeOfImage''
        else if file_layout \<and> im_raw_size sec \<noteq> 0 \<and> (im_raw_offset sec > bound \<or> im_raw_size sec > bound - im_raw_offset sec)
        then refused '' range of file data is outside the file''
        else if im_mapped_size sec \<noteq> 0 \<and> list_ex (sections_overlap sec) sections
        then refused '' has an overlapping mapped range''
        else None)"

fun parse_sections :: "byte list \<Rightarrow> string \<Rightarrow> bool \<Rightarrow> nat \<Rightarrow> nat \<Rightarrow> nat \<Rightarrow> ImageSection list \<Rightarrow> ImageSection list parse" where
  "parse_sections bytes owner file_layout image_size offset 0 sections = Some (Inr sections)"
| "parse_sections bytes owner file_layout image_size offset (Suc n) sections =
    (case read_section bytes offset of
       None \<Rightarrow> None
     | Some sec \<Rightarrow>
         (case check_section (length bytes) owner file_layout image_size sections sec of
            Some refused \<Rightarrow> Some (Inl refused)
          | None \<Rightarrow> parse_sections bytes owner file_layout image_size (offset + 40) n (sections @ [sec])))"

definition parse_image :: "FC_Architecture \<Rightarrow> byte list \<Rightarrow> string \<Rightarrow> bool \<Rightarrow> ImageLayout parse" where
  "parse_image arch bytes owner file_layout =
    then_parse (parse_file_header arch bytes owner) (\<lambda>header.
    then_parse (parse_optional_header arch bytes owner file_layout header) (\<lambda>optional.
    then_parse (parse_sections bytes owner file_layout (oh_image_size optional) (oh_section_table optional) (snd (snd header)) [])
      (\<lambda>sections. Some (Inr \<lparr>il_image_size = oh_image_size optional, il_sections = sections,
                            il_preferred_base = oh_preferred_base optional\<rparr>))))"

definition parse_file_image :: "FC_Architecture \<Rightarrow> byte list \<Rightarrow> string \<Rightarrow> ImageLayout parse" where
  "parse_file_image arch bytes owner = parse_image arch bytes owner True"

section \<open>The catalog\<close>

fun duplicate_profile :: "string set \<Rightarrow> catalog \<Rightarrow> Diagnostic option" where
  "duplicate_profile ids [] = None"
| "duplicate_profile ids (profile # catalog) =
    (if folded_id (ip_id profile) \<in> ids
     then Some (diagnostic ''image catalog'' (''duplicate profile ID '' @ quoted (ip_id profile) @ '' under ASCII case-insensitive comparison''))
     else duplicate_profile (insert (folded_id (ip_id profile)) ids) catalog)"

definition validate_image_catalog :: "catalog \<Rightarrow> Diagnostic option" where
  "validate_image_catalog catalog = duplicate_profile {} catalog"

definition section_matches :: "SectionProfile \<Rightarrow> ImageSection \<Rightarrow> bool" where
  "section_matches expected actual \<longleftrightarrow> im_name actual = sp_name expected \<and> im_rva actual = unat (sp_rva expected) \<and>
    im_virtual_size actual = unat (sp_size expected)"

definition profile_matches :: "ImageLayout \<Rightarrow> ImageProfile \<Rightarrow> bool" where
  "profile_matches lay profile \<longleftrightarrow> \<not> il_image_size lay < unat (ip_image_size profile) \<and>
    list_all (\<lambda>expected. length (filter (section_matches expected) (il_sections lay)) = 1) (ip_sections profile)"

fun recognize_from :: "string \<Rightarrow> ImageLayout \<Rightarrow> catalog \<Rightarrow> nat \<Rightarrow> profile_ref option \<Rightarrow> Diagnostic + profile_ref" where
  "recognize_from filename lay [] index match =
    (case match of
       None \<Rightarrow> Inl (diagnostic filename ''profile catalog has no matching entry for this image'')
     | Some profile \<Rightarrow> Inr profile)"
| "recognize_from filename lay (profile # catalog) index match =
    (if profile_matches lay profile
     then if match \<noteq> None then Inl (diagnostic filename ''image recognition is ambiguous across multiple profiles'')
          else recognize_from filename lay catalog (Suc index) (Some index)
     else recognize_from filename lay catalog (Suc index) match)"

definition recognize_image :: "string \<Rightarrow> ImageLayout \<Rightarrow> catalog \<Rightarrow> Diagnostic + profile_ref" where
  "recognize_image filename lay catalog = recognize_from filename lay catalog 0 None"

definition find_image_profile :: "string \<Rightarrow> catalog \<Rightarrow> Diagnostic + ImageProfile" where
  "find_image_profile ident catalog =
    (case List.find (\<lambda>profile. equal_id (ip_id profile) ident) catalog of
       Some profile \<Rightarrow> Inr profile
     | None \<Rightarrow> Inl (diagnostic ''image catalog'' (''unknown image profile ID '' @ quoted ident)))"

section \<open>Loaded modules\<close>

text \<open>
  The calls of the probes: the bytes needed for the list of modules; the list itself by the number of the call and
  the room offered, with the bytes it needs; a reference to a module; its path as UTF-16 units and the error when it
  has none; the base and size of a module; its memory; the handle a pin at a base gives; the process executable; the
  last error after a failed pin; and the conversion to UTF-8. An error is a code on the left.
\<close>

record module_os =
  mo_handle_bytes :: nat
  mo_needed :: "u32 + nat"
  mo_enumerate :: "nat \<Rightarrow> nat \<Rightarrow> u32 + nat \<times> nat list"
  mo_reference :: "nat \<Rightarrow> u32 + nat"
  mo_path :: "nat \<Rightarrow> nat list option"
  mo_path_error :: "nat \<Rightarrow> u32"
  mo_information :: "nat \<Rightarrow> u32 + nat \<times> nat"
  mo_memory :: "nat \<Rightarrow> nat \<Rightarrow> byte list"
  mo_pin :: "nat \<Rightarrow> nat option"
  mo_pin_error :: u32
  mo_main :: "u32 + nat"
  mo_utf8 :: "nat list \<Rightarrow> string"

definition MAX_PATH :: nat where "MAX_PATH = 260"
definition ERROR_MOD_NOT_FOUND :: u32 where "ERROR_MOD_NOT_FOUND = 126"

function read_path :: "module_os \<Rightarrow> nat \<Rightarrow> string \<Rightarrow> nat \<Rightarrow> Diagnostic + nat list" where
  "read_path mo module owner capacity =
    (let used = (case mo_path mo module of None \<Rightarrow> 0 | Some path \<Rightarrow> min (length path) capacity)
     in if used = 0 then Inl (diagnostic_code owner ''could not read loaded module path'' (mo_path_error mo module))
        else if used < capacity then Inr (take used (the (mo_path mo module)))
        else if capacity > MAXDWORD div 2 then Inl (diagnostic owner ''loaded module path is too long to read'')
        else read_path mo module owner (capacity * 2))"
  by pat_completeness auto
termination
  by (relation "measure (\<lambda>(mo, module, owner, capacity). if capacity = 0 then 0 else MAXDWORD - capacity)")
    (auto simp: MAXDWORD_def split: option.splits)

declare read_path.simps [simp del]

definition module_path :: "module_os \<Rightarrow> nat \<Rightarrow> string \<Rightarrow> Diagnostic + nat list" where
  "module_path mo module owner = read_path mo module owner MAX_PATH"

definition narrow_utf8 :: "module_os \<Rightarrow> nat list \<Rightarrow> string" where
  "narrow_utf8 mo wide = (if wide = [] then [] else mo_utf8 mo wide)"

text \<open>\<open>filename()\<close> of a path: what follows its last separator.\<close>

definition wide_filename :: "nat list \<Rightarrow> nat list" where
  "wide_filename path = rev (takeWhile (\<lambda>c. c \<noteq> 0x5c \<and> c \<noteq> 0x2f) (rev path))"

definition module_count :: "module_os \<Rightarrow> nat \<Rightarrow> nat" where
  "module_count mo needed = (needed + mo_handle_bytes mo - 1) div mo_handle_bytes mo"

text \<open>The list is read again while it outgrows the room; nothing bounds how often, so no result is \<open>None\<close>.\<close>

partial_function (option) enumerate_loop :: "module_os \<Rightarrow> string \<Rightarrow> nat \<Rightarrow> nat \<Rightarrow> nat list parse" where
  "enumerate_loop mo owner call room =
    (case mo_enumerate mo call (room * mo_handle_bytes mo) of
       Inl error \<Rightarrow> Some (Inl (diagnostic_code owner ''could not enumerate loaded modules'' error))
     | Inr (needed, modules) \<Rightarrow>
         if needed \<le> room * mo_handle_bytes mo then Some (Inr (take (needed div mo_handle_bytes mo) modules))
         else enumerate_loop mo owner (Suc call) (module_count mo needed))"

definition enumerate_modules :: "module_os \<Rightarrow> string \<Rightarrow> nat list parse" where
  "enumerate_modules mo owner =
    (case mo_needed mo of
       Inl error \<Rightarrow> Some (Inl (diagnostic_code owner ''could not enumerate loaded modules'' error))
     | Inr needed \<Rightarrow> enumerate_loop mo owner 0 (module_count mo needed))"

definition loaded_section :: "nat \<Rightarrow> ImageSection \<Rightarrow> LoadedImageSection" where
  "loaded_section base sec = \<lparr>ld_name = im_name sec, ld_begin = base + im_rva sec, ld_size = im_mapped_size sec,
     ld_characteristics = im_characteristics sec\<rparr>"

definition inspect_module :: "module_os \<Rightarrow> FC_Architecture \<Rightarrow> nat \<Rightarrow> string \<Rightarrow> catalog \<Rightarrow> LoadedImage parse" where
  "inspect_module mo arch held actual catalog =
    (case mo_information mo held of
       Inl error \<Rightarrow> Some (Inl (diagnostic_code actual ''could not read loaded module information'' error))
     | Inr (base, bound) \<Rightarrow>
         then_parse (parse_image arch (mo_memory mo base bound) actual False) (\<lambda>lay.
           case recognize_image actual lay catalog of
             Inl failed \<Rightarrow> Some (Inl failed)
           | Inr profile \<Rightarrow>
               if mo_pin mo base \<noteq> Some held
               then Some (Inl (diagnostic_code actual ''could not pin recognized module until process exit'' (mo_pin_error mo)))
               else Some (Inr \<lparr>li_profile = profile, li_filename = actual, li_base = base, li_image_size = il_image_size lay,
                      li_sections = map (loaded_section base) (il_sections lay)\<rparr>)))"

text \<open>The modules of the process that have the requested basename; a second one is ambiguous.\<close>

fun match_module :: "module_os \<Rightarrow> string \<Rightarrow> nat list \<Rightarrow> (nat \<times> string) option \<Rightarrow> Diagnostic + (nat \<times> string) option" where
  "match_module mo filename [] match = Inr match"
| "match_module mo filename (candidate # modules) match =
    (case mo_reference mo candidate of
       Inl error \<Rightarrow>
         if error = ERROR_MOD_NOT_FOUND then match_module mo filename modules match
         else Inl (diagnostic_code filename ''could not acquire a loaded module reference'' error)
     | Inr held \<Rightarrow>
         (case module_path mo held filename of
            Inl failed \<Rightarrow> Inl failed
          | Inr path \<Rightarrow>
              let basename = narrow_utf8 mo (wide_filename path)
              in if equal_id basename filename
                 then if match \<noteq> None then Inl (diagnostic filename ''more than one loaded module has the requested basename'')
                      else match_module mo filename modules (Some (held, basename))
                 else match_module mo filename modules match))"

definition accepted_filename :: "catalog \<Rightarrow> string \<Rightarrow> bool" where
  "accepted_filename catalog filename \<longleftrightarrow> list_ex (\<lambda>profile. list_ex (\<lambda>accepted. equal_id accepted filename) (ip_filenames profile)) catalog"

definition probe_loaded_image :: "module_os \<Rightarrow> FC_Architecture \<Rightarrow> string \<Rightarrow> catalog \<Rightarrow> LoadedImage option parse" where
  "probe_loaded_image mo arch filename catalog =
    (if filename = [] then reject ''loaded module'' ''module filename is empty''
     else if \<not> accepted_filename catalog filename then reject filename ''profile catalog has no entry for this module filename''
     else then_parse (enumerate_modules mo filename) (\<lambda>modules.
       case match_module mo filename modules None of
         Inl failed \<Rightarrow> Some (Inl failed)
       | Inr None \<Rightarrow> Some (Inr None)
       | Inr (Some (held, actual)) \<Rightarrow> then_parse (inspect_module mo arch held actual catalog) (\<lambda>image. Some (Inr (Some image)))))"

definition probe_main_image :: "module_os \<Rightarrow> FC_Architecture \<Rightarrow> catalog \<Rightarrow> LoadedImage parse" where
  "probe_main_image mo arch catalog =
    (case mo_main mo of
       Inl error \<Rightarrow> Some (Inl (diagnostic_code ''main executable'' ''could not retrieve the process executable'' error))
     | Inr module \<Rightarrow>
         (case module_path mo module ''main executable'' of
            Inl failed \<Rightarrow> Some (Inl failed)
          | Inr path \<Rightarrow> inspect_module mo arch module (narrow_utf8 mo (wide_filename path)) catalog))"

end
