(* ===== verification/Image_Laws.thy ===== *)
theory Image_Laws
  imports Images
begin

text \<open>
  What a parsed image satisfies: the parser reads only inside its input, and the sections it accepts lie inside the
  image and the file and do not overlap.
\<close>

section \<open>Reads\<close>

lemma le_number_bound: "le_number bs < 256 ^ length bs"
proof (induction bs)
  case (Cons b bs)
  have "unat b + 256 * le_number bs < 256 + 256 * le_number bs" by simp
  also have "\<dots> = 256 * Suc (le_number bs)" by simp
  also have "\<dots> \<le> 256 * 256 ^ length bs" using Cons by (intro mult_le_mono) simp_all
  finally show ?case by simp
qed simp

lemma read_value_within:
  assumes "has_range (length bytes) offset n"
  shows "\<exists>v < 256 ^ n. read_value bytes offset n = Some v"
proof -
  have "length (take n (drop offset bytes)) = n" using assms by (auto simp: has_range_iff)
  then have "le_number (take n (drop offset bytes)) < 256 ^ n" by (metis le_number_bound)
  then show ?thesis using assms by (simp add: read_value_def read_bytes_def)
qed

lemma read_value_inside:
  assumes "offset + n \<le> length bytes"
  obtains v where "read_value bytes offset n = Some v" and "v < 256 ^ n"
  using read_value_within [of bytes offset n] assms by (auto simp: has_range_iff)

lemma file_header_parsed:
  "\<exists>r. parse_file_header arch bytes owner = Some r \<and>
    (\<forall>at n m. r = Inr (at, n, m) \<longrightarrow> at + n \<le> length bytes \<and> 2 \<le> n)"
proof -
  consider "\<not> has_range (length bytes) 0 64" | "64 \<le> length bytes" by (auto simp: has_range_iff)
  then show ?thesis
  proof cases
    case 2
    obtain signature where signature: "read_value bytes 0 2 = Some signature" using read_value_inside [of 0 2 bytes] 2 by auto
    obtain pe where pe: "read_value bytes 0x3c 4 = Some pe" using read_value_inside [of "0x3c" 4 bytes] 2 by auto
    show ?thesis
    proof (cases "pe + 24 \<le> length bytes")
      case True
      obtain s where s: "read_value bytes pe 4 = Some s" using read_value_inside [of pe 4 bytes] True by auto
      obtain k where k: "read_value bytes (pe + 4) 2 = Some k" using read_value_inside [of "pe + 4" 2 bytes] True by auto
      obtain c where c: "read_value bytes (pe + 4 + 2) 2 = Some c" using read_value_inside [of "pe + 4 + 2" 2 bytes] True by auto
      obtain z where z: "read_value bytes (pe + 4 + 16) 2 = Some z" using read_value_inside [of "pe + 4 + 16" 2 bytes] True by auto
      show ?thesis using 2 True signature pe s k c z
        by (auto simp: parse_file_header_def reject_def has_range_iff Let_def)
    qed (use 2 signature pe in \<open>auto simp: parse_file_header_def reject_def has_range_iff\<close>)
  qed (simp add: parse_file_header_def reject_def)
qed

lemma optional_header_parsed:
  assumes "at + n \<le> length bytes" and "2 \<le> n"
  shows "\<exists>r. parse_optional_header arch bytes owner file_layout (at, n, m) = Some r \<and>
    (\<forall>optional. r = Inr optional \<longrightarrow> 0 < oh_image_size optional \<and> oh_image_size optional < 2 ^ 32 \<and>
      oh_section_table optional + m * 40 \<le> length bytes)"
proof -
  obtain magic where magic: "read_value bytes at 2 = Some magic" using read_value_inside [where offset = at and n = 2 and bytes = bytes] assms by auto
  show ?thesis
  proof (cases "magic \<noteq> kExpectedMagic arch \<or> n < (if magic = kPe32Magic then 96 else 112)")
    case False
    then have room: "at + 96 \<le> length bytes" and fields: "magic = kExpectedMagic arch" "\<not> n < (if magic = kPe32Magic then 96 else 112)"
      using assms by (auto split: if_splits)
    obtain i where i: "read_value bytes (at + 56) 4 = Some i" "i < 256 ^ 4" using read_value_inside [where offset = "at + 56" and n = 4 and bytes = bytes] room by auto
    obtain h where h: "read_value bytes (at + 60) 4 = Some h" using read_value_inside [where offset = "at + 60" and n = 4 and bytes = bytes] room by auto
    obtain b where b: "(if magic = kPe32Magic then read_value bytes (at + 28) 4 else read_value bytes (at + 24) 8) = Some b"
      using read_value_within [of bytes "at + 28" 4] read_value_within [of bytes "at + 24" 8] room
      by (cases "magic = kPe32Magic") (auto simp: has_range_iff)
    show ?thesis using magic fields i h b
      by (auto simp: parse_optional_header_def reject_def has_range_iff Let_def split: if_splits)
  qed (use magic in \<open>auto simp: parse_optional_header_def reject_def split: if_splits\<close>)
qed

section \<open>Sections\<close>

definition section_ok :: "bool \<Rightarrow> nat \<Rightarrow> nat \<Rightarrow> ImageSection \<Rightarrow> bool" where
  "section_ok file_layout bound image_size sec \<longleftrightarrow> im_rva sec + im_mapped_size sec \<le> image_size \<and>
    (file_layout \<longrightarrow> im_raw_size sec = 0 \<or> im_raw_offset sec + im_raw_size sec \<le> bound)"

definition mapped_range :: "ImageSection \<Rightarrow> nat set" where
  "mapped_range sec = {im_rva sec..<im_rva sec + im_mapped_size sec}"

definition sections_ok :: "bool \<Rightarrow> nat \<Rightarrow> nat \<Rightarrow> ImageSection list \<Rightarrow> bool" where
  "sections_ok file_layout bound image_size sections \<longleftrightarrow> list_all (section_ok file_layout bound image_size) sections \<and>
    sorted_wrt (\<lambda>a b. mapped_range a \<inter> mapped_range b = {}) sections"

lemma read_section_within:
  assumes "offset + 40 \<le> length bytes"
  shows "\<exists>sec. read_section bytes offset = Some sec"
proof -
  have name: "\<exists>v. read_bytes bytes offset 8 = Some v" using assms by (simp add: read_bytes_def has_range_iff)
  have field: "\<exists>v. read_value bytes (offset + k) 4 = Some v" if "k \<le> 36" for k
    using read_value_inside [of "offset + k" 4 bytes] assms that by auto
  show ?thesis using name field [of 8] field [of 12] field [of 16] field [of 20] field [of 36] by (auto simp: read_section_def)
qed

lemma check_section_None:
  assumes "check_section bound owner file_layout image_size sections sec = None" and "image_size < 2 ^ 32"
    and "sections_ok file_layout bound image_size sections"
  shows "sections_ok file_layout bound image_size (sections @ [sec])"
proof -
  have sec: "section_ok file_layout bound image_size sec" and fits: "im_rva sec + im_mapped_size sec \<le> image_size"
    and clear: "im_mapped_size sec = 0 \<or> list_all (\<lambda>e. \<not> sections_overlap sec e) sections"
    using assms(1) by (auto simp: check_section_def section_ok_def Let_def list_ex_iff list_all_iff split: if_splits)
  have "mapped_range e \<inter> mapped_range sec = {}" if "e \<in> set sections" for e
  proof -
    have "im_rva e + im_mapped_size e \<le> image_size"
      using assms(3) that by (auto simp: sections_ok_def section_ok_def list_all_iff)
    then have "(im_rva e + im_mapped_size e) mod 2 ^ 32 = im_rva e + im_mapped_size e"
      and "(im_rva sec + im_mapped_size sec) mod 2 ^ 32 = im_rva sec + im_mapped_size sec"
      using fits assms(2) by simp_all
    then show ?thesis using clear that by (auto simp: mapped_range_def sections_overlap_def list_all_iff)
  qed
  then show ?thesis using assms(3) sec by (simp add: sections_ok_def sorted_wrt_append)
qed

lemma sections_parsed:
  "offset + n * 40 \<le> length bytes \<Longrightarrow> image_size < 2 ^ 32 \<Longrightarrow> sections_ok file_layout (length bytes) image_size sections \<Longrightarrow>
    \<exists>r. parse_sections bytes owner file_layout image_size offset n sections = Some r \<and>
      (\<forall>result. r = Inr result \<longrightarrow> sections_ok file_layout (length bytes) image_size result)"
proof (induction n arbitrary: offset sections)
  case (Suc n)
  obtain sec where sec: "read_section bytes offset = Some sec" using read_section_within [of offset bytes] Suc.prems(1) by auto
  show ?case
  proof (cases "check_section (length bytes) owner file_layout image_size sections sec")
    case None
    have "offset + 40 + n * 40 \<le> length bytes" using Suc.prems(1) by simp
    from Suc.IH [OF this Suc.prems(2) check_section_None [OF None Suc.prems(2,3)]] show ?thesis by (simp add: sec None)
  qed (simp add: sec)
qed simp

section \<open>Layouts\<close>

definition layout_ok :: "bool \<Rightarrow> nat \<Rightarrow> ImageLayout \<Rightarrow> bool" where
  "layout_ok file_layout bound lay \<longleftrightarrow> 0 < il_image_size lay \<and> il_image_size lay < 2 ^ 32 \<and>
    sections_ok file_layout bound (il_image_size lay) (il_sections lay)"

lemma image_parsed:
  "\<exists>r. parse_image arch bytes owner file_layout = Some r \<and> (\<forall>lay. r = Inr lay \<longrightarrow> layout_ok file_layout (length bytes) lay)"
proof -
  obtain r where r: "parse_file_header arch bytes owner = Some r"
    and header: "\<forall>at n m. r = Inr (at, n, m) \<longrightarrow> at + n \<le> length bytes \<and> 2 \<le> n"
    using file_header_parsed by blast
  show ?thesis
  proof (cases r)
    case (Inr header_fields)
    obtain at n m where fields: "header_fields = (at, n, m)" by (metis prod_cases3)
    with header Inr have "at + n \<le> length bytes" "2 \<le> n" by auto
    from optional_header_parsed [OF this] obtain q where q: "parse_optional_header arch bytes owner file_layout (at, n, m) = Some q"
      and optional: "\<forall>optional. q = Inr optional \<longrightarrow> 0 < oh_image_size optional \<and> oh_image_size optional < 2 ^ 32 \<and>
        oh_section_table optional + m * 40 \<le> length bytes" by blast
    show ?thesis
    proof (cases q)
      case (Inr oh)
      with optional have oh: "0 < oh_image_size oh" "oh_image_size oh < 2 ^ 32" "oh_section_table oh + m * 40 \<le> length bytes" by auto
      have "sections_ok file_layout (length bytes) (oh_image_size oh) []" by (simp add: sections_ok_def)
      from sections_parsed [OF oh(3,2) this] obtain s where "parse_sections bytes owner file_layout (oh_image_size oh) (oh_section_table oh) m [] = Some s"
        "\<forall>result. s = Inr result \<longrightarrow> sections_ok file_layout (length bytes) (oh_image_size oh) result" by blast
      then show ?thesis using r \<open>r = Inr header_fields\<close> fields q Inr oh
        by (cases s) (auto simp: parse_image_def then_parse_def layout_ok_def)
    qed (use r Inr fields q in \<open>auto simp: parse_image_def then_parse_def\<close>)
  qed (use r in \<open>auto simp: parse_image_def then_parse_def\<close>)
qed

end
