(* ===== verification/Native_Prepare.thy ===== *)
theory Native_Prepare
  imports Native_Submit_Laws
begin

text \<open>
  Preparing a plan and installing it (\<open>SubmittedPlan::prepare\<close> and \<open>install\<close> of
  \<open>runtime/src/native/installation.cpp\<close>, \<open>revalidate\<close> of \<open>native/validation.cpp\<close>). Preparation allocates, so its
  steps take the world and the plan; a step that never returns is \<open>None\<close>. What a plan asks of the process is
  asked of the world at that moment: \<open>env\<close> gives it.
\<close>

section \<open>The live process\<close>

text \<open>
  Under the documented behaviour of \<open>VirtualQuery\<close> the walk over the regions of a range ends, so the check of a
  live world has a result.
\<close>

lemma check_access_ends:
  assumes "windows_laws page memory protection os"
  shows "\<exists>r. check_access_from os w writable code current finish = Some r"
proof (induction "finish - current" arbitrary: current rule: less_induct)
  case less
  show ?case
  proof (cases "current < finish")
    case True
    show ?thesis
    proof (cases "virtual_query os current w")
      case (Inr region)
      let ?next = "min finish (region_begin region + region_size region)"
      have "finish - ?next < finish - current" using windows_query(4) [OF assms Inr] True by simp
      from less [OF this] obtain r where r: "check_access_from os w writable code ?next finish = Some r" ..
      then show ?thesis using True Inr by (subst check_access_from.simps) simp
    qed (use True in \<open>subst check_access_from.simps, simp\<close>)
  qed (subst check_access_from.simps, simp)
qed

lemma native_access_ends:
  assumes "windows_laws page memory protection os"
  shows "\<exists>r. check_native_access os w address n writable code = Some r"
  unfolding check_native_access_def using check_access_ends [OF assms] by simp

definition live_env ::
    "'w windows \<Rightarrow> FC_Architecture \<Rightarrow> (nat \<Rightarrow> nat option) \<Rightarrow> (byte list \<Rightarrow> Decoded option) \<Rightarrow> ('w \<Rightarrow> hook_view option) \<Rightarrow>
     'w \<Rightarrow> native_env" where
  "live_env os arch module_of decoder hooks w =
    \<lparr>ne_architecture = arch,
     ne_check_access = (\<lambda>address n writable code. the (check_native_access os w address n writable code)),
     ne_read = (\<lambda>address n. read_native_memory os address n w),
     ne_module_of = module_of, ne_decode = decoder, ne_hooks = hooks w\<rparr>"

section \<open>Preparation\<close>

type_synonym ('w, 'a) preparing = "'w \<times> SubmittedPlan \<Rightarrow> (('w \<times> SubmittedPlan) \<times> (string + 'a)) option"

definition then_prepare :: "('w, 'a) preparing \<Rightarrow> ('a \<Rightarrow> ('w, 'b) preparing) \<Rightarrow> ('w, 'b) preparing" where
  "then_prepare step rest state =
    (case step state of
       None \<Rightarrow> None
     | Some (state, Inl error) \<Rightarrow> Some (state, Inl error)
     | Some (state, Inr v) \<Rightarrow> rest v state)"

definition ask :: "('w \<Rightarrow> SubmittedPlan \<Rightarrow> string + 'a) \<Rightarrow> ('w, 'a) preparing" where
  "ask test state = (case state of (w, plan) \<Rightarrow> Some ((w, plan), test w plan))"

definition change :: "(SubmittedPlan \<Rightarrow> SubmittedPlan) \<Rightarrow> ('w, unit) preparing" where
  "change f state = (case state of (w, plan) \<Rightarrow> Some ((w, f plan), Inr ()))"

definition prepared :: "'a \<Rightarrow> ('w, 'a) preparing" where
  "prepared v state = Some (state, Inr v)"

definition set_resource :: "nat \<Rightarrow> (NativeResource \<Rightarrow> NativeResource) \<Rightarrow> SubmittedPlan \<Rightarrow> SubmittedPlan" where
  "set_resource i f plan = plan\<lparr>sp_resources := (sp_resources plan)[i := f (sp_resources plan ! i)]\<rparr>"

text \<open>A call that changes the world.\<close>

definition perform :: "('w \<Rightarrow> ('w \<times> (string + 'a)) option) \<Rightarrow> ('w, 'a) preparing" where
  "perform call state = (case state of (w, plan) \<Rightarrow> map_option (\<lambda>(w, outcome). ((w, plan), outcome)) (call w))"

definition prepare_allocation :: "'w windows \<Rightarrow> Operation \<Rightarrow> ('w, unit) preparing" where
  "prepare_allocation os operation = (case operation of
     Op_Allocate allocation \<Rightarrow>
       then_prepare (ask (\<lambda>w plan. Inr (sp_resources plan ! al_resource allocation,
           map_option (\<lambda>i. \<lparr>nc_reference = pi_base (sp_images plan ! i), nc_maximum_distance = INT32_MAX\<rparr>)
             (al_near_image allocation)))) (\<lambda>(resource, constraint).
       then_prepare (perform (create_allocation os (nr_size resource) (al_alignment allocation) constraint)) (\<lambda>storage.
       then_prepare (change (set_resource (al_resource allocation) (\<lambda>resource. resource\<lparr>nr_storage := Some storage\<rparr>))) (\<lambda>_.
       then_prepare (perform (\<lambda>w. Some (allocation_initialize os storage (al_initial allocation) w))) (\<lambda>_.
         change (set_resource (al_resource allocation)
           (\<lambda>resource. resource\<lparr>nr_address := na_address storage, nr_ready := True\<rparr>))))))
   | _ \<Rightarrow> prepared ())"

definition push_write :: "LocationRecord \<Rightarrow> byte list \<Rightarrow> ('w, unit) preparing" where
  "push_write location bytes =
    change (\<lambda>plan. plan\<lparr>sp_writes := sp_writes plan @
      [\<lparr>pw_address = location_address plan location, pw_bytes = bytes, pw_location = location\<rparr>]\<rparr>)"

definition prepare_call :: "(FC_NativeCall \<Rightarrow> string + unit) \<Rightarrow> nat \<Rightarrow> CallDescription \<Rightarrow> nat \<Rightarrow> ('w, unit) preparing" where
  "prepare_call invoker resource description target =
    then_prepare (change (set_resource resource (\<lambda>r. r\<lparr>nr_address := target\<rparr>))) (\<lambda>_.
    then_prepare
      (if \<not> compiler_call (cd_value description)
       then then_prepare (ask (\<lambda>w plan. invoker (call_view description))) (\<lambda>_.
         change (set_resource resource (\<lambda>r. r\<lparr>nr_invoker := Some (call_view description)\<rparr>)))
       else prepared ()) (\<lambda>_.
      change (set_resource resource (\<lambda>r. r\<lparr>nr_ready := True\<rparr>))))"

text \<open>\<open>memcpy\<close> into a buffer.\<close>

definition overwrite :: "nat \<Rightarrow> byte list \<Rightarrow> byte list \<Rightarrow> byte list" where
  "overwrite offset new bytes = take offset bytes @ new @ drop (offset + length new) bytes"

lemma length_overwrite [simp]: "offset + length new \<le> length bytes \<Longrightarrow> length (overwrite offset new bytes) = length bytes"
  by (simp add: overwrite_def)

definition prepare_operation ::
    "'w windows \<Rightarrow> ('w \<Rightarrow> native_env) \<Rightarrow> (FC_NativeCall \<Rightarrow> string + unit) \<Rightarrow> Operation \<Rightarrow> ('w, unit) preparing" where
  "prepare_operation os env invoker operation = (case operation of
     Op_Read _ _ claim \<Rightarrow>
       (case rc_resource claim of
          None \<Rightarrow> prepared ()
        | Some i \<Rightarrow>
            change (\<lambda>plan. set_resource i (\<lambda>resource.
              (case nr_allocation resource of
                 Some allocation \<Rightarrow> resource\<lparr>nr_address := nr_address (sp_resources plan ! allocation)\<rparr>
               | None \<Rightarrow> resource)\<lparr>nr_ready := True\<rparr>) plan))
   | Op_Write location _ write \<Rightarrow> push_write location (bw_bytes write)
   | Op_Fixup location _ fixup \<Rightarrow>
       then_prepare (ask (\<lambda>w plan.
         let width = (if fx_relative fixup then 4 else pointer_size (env w))
         in take_value
              (case fx_encoded fixup of
                 Some encoded \<Rightarrow> Inr encoded
               | None \<Rightarrow> take_value (plan_address (env w) plan (fx_target fixup) False) (\<lambda>v.
                   encode_address (env w) plan location width width (fx_relative fixup) v False True (fx_relative fixup)))
              (\<lambda>encoded. Inr (le_bytes width encoded)))) (push_write location)
   | Op_Operand location _ edit \<Rightarrow>
       then_prepare (ask (\<lambda>w plan.
         take_value
           (case oe_encoded edit of
              Some encoded \<Rightarrow> Inr encoded
            | None \<Rightarrow> take_value (plan_address (env w) plan (oe_address edit) False) (\<lambda>v.
                encode_address (env w) plan location (length (oe_original edit)) (oe_field_size edit) (oe_encoded_signed edit) v
                  False True (oe_relative edit)))
           (\<lambda>encoded. Inr (overwrite (oe_field_offset edit) (le_bytes (oe_field_size edit) encoded) (oe_original edit)))))
         (push_write location)
   | Op_Branch location _ branch \<Rightarrow>
       then_prepare (ask (\<lambda>w plan. take_value (plan_address (env w) plan (be_target branch) True) (\<lambda>target.
         Inr (target, location_address plan location, ne_architecture (env w))))) (\<lambda>(target, site, arch).
       then_prepare
         (case encode_rel32 (site + 5) target arch of
            Some displacement \<Rightarrow> prepared displacement
          | None \<Rightarrow>
              then_prepare (perform (create_jump_relay os target (site + 5))) (\<lambda>relay.
              then_prepare (change (\<lambda>plan. plan\<lparr>sp_relays := sp_relays plan @ [relay]\<rparr>)) (\<lambda>_.
                ask (\<lambda>w plan. case encode_rel32 (site + 5) (na_address relay) arch of
                    Some displacement \<Rightarrow> Inr displacement
                  | None \<Rightarrow> Inl ''Native displacement is outside its encoding range'')))) (\<lambda>displacement.
       then_prepare
         (push_write location (overwrite 1 (le_bytes 4 (nat (displacement mod 2 ^ 32)))
            ((replicate (length (be_original branch)) 0x90)[0 := if be_kind branch = FC_BRANCH_CALL then 0xe8 else 0xe9]))) (\<lambda>_.
         case (be_resource branch, be_call branch) of
           (Some resource, Some call) \<Rightarrow> prepare_call invoker resource call (be_original_target branch)
         | _ \<Rightarrow> prepared ())))
   | Op_Call _ _ call \<Rightarrow>
       then_prepare (ask (\<lambda>w plan. Inr (nr_address (sp_resources plan ! co_resource call))))
         (prepare_call invoker (co_resource call) (co_call call))
   | _ \<Rightarrow> prepared ())"

fun prepare_all :: "(Operation \<Rightarrow> ('w, unit) preparing) \<Rightarrow> Operation list \<Rightarrow> ('w, unit) preparing" where
  "prepare_all step [] = prepared ()"
| "prepare_all step (operation # operations) = then_prepare (step operation) (\<lambda>_. prepare_all step operations)"

definition is_hook :: "Operation \<Rightarrow> bool" where
  "is_hook operation = (case operation of Op_Hook _ _ _ \<Rightarrow> True | _ \<Rightarrow> False)"

text \<open>
  \<open>hooks\<close> is the registry's preparation, when the plan has a registry: it gives the resources of the original
  calls. The preparation it returns is kept by the registry's theory.
\<close>

definition prepare_hook_sites ::
    "('w \<Rightarrow> SubmittedPlan \<Rightarrow> ('w \<times> (string + NativeResource list)) option) option \<Rightarrow> Operation list \<Rightarrow> ('w, unit) preparing" where
  "prepare_hook_sites hooks operations = (case hooks of
     Some prepare_hooks \<Rightarrow>
       then_prepare (\<lambda>(w, plan). map_option (\<lambda>(w, outcome). ((w, plan), outcome)) (prepare_hooks w plan)) (\<lambda>resources.
         change (\<lambda>plan. plan\<lparr>sp_resources := resources\<rparr>))
   | None \<Rightarrow>
       if list_ex is_hook operations then ask (\<lambda>w plan. Inl ''Native hook registry is unavailable'') else prepared ())"

definition prepare_steps ::
    "'w windows \<Rightarrow> ('w \<Rightarrow> native_env) \<Rightarrow> (FC_NativeCall \<Rightarrow> string + unit) \<Rightarrow>
     ('w \<Rightarrow> SubmittedPlan \<Rightarrow> ('w \<times> (string + NativeResource list)) option) option \<Rightarrow> Operation list \<Rightarrow> ('w, unit) preparing" where
  "prepare_steps os env invoker hooks operations =
    then_prepare (change (\<lambda>plan. plan\<lparr>sp_preparing := True\<rparr>)) (\<lambda>_.
    then_prepare (prepare_all (prepare_allocation os) operations) (\<lambda>_.
    then_prepare (prepare_all (prepare_operation os env invoker) operations) (\<lambda>_.
      prepare_hook_sites hooks operations)))"

definition prepare ::
    "'w windows \<Rightarrow> ('w \<Rightarrow> native_env) \<Rightarrow> (FC_NativeCall \<Rightarrow> string + unit) \<Rightarrow>
     ('w \<Rightarrow> SubmittedPlan \<Rightarrow> ('w \<times> (string + NativeResource list)) option) option \<Rightarrow> ('w, unit) preparing" where
  "prepare os env invoker hooks state = (case state of (w, plan) \<Rightarrow>
    if sp_preparing plan
    then Some ((w, plan), case sp_error plan of Some error \<Rightarrow> Inl error | None \<Rightarrow> Inr ())
    else case sp_error plan of
      Some error \<Rightarrow> Some ((w, plan), Inl error)
    | None \<Rightarrow>
        (case prepare_steps os env invoker hooks (sp_operations plan) (w, plan) of
           None \<Rightarrow> None
         | Some (state, Inr _) \<Rightarrow> Some (state, Inr ())
         | Some ((w, plan), Inl error) \<Rightarrow> Some ((w, fail error plan), Inl (the (sp_error (fail error plan))))))"

section \<open>Revalidation\<close>

fun first_mismatch :: "nat \<Rightarrow> byte list \<Rightarrow> byte list \<Rightarrow> (nat \<times> byte \<times> byte) option" where
  "first_mismatch i (expected # es) (observed # os) =
    (if expected \<noteq> observed then Some (i, expected, observed) else first_mismatch (Suc i) es os)"
| "first_mismatch i _ _ = None"

definition location_label :: "LocationRecord \<Rightarrow> string" where
  "location_label location = (if loc_name location = [] then [] else '' ('' @ loc_name location @ '')'')"

definition verify_original :: "native_env \<Rightarrow> SubmittedPlan \<Rightarrow> LocationRecord \<Rightarrow> byte list \<Rightarrow> string \<Rightarrow> string + unit" where
  "verify_original env plan location original subject =
    take_value (plan_bytes env plan location (length original) True) (\<lambda>observed.
      case first_mismatch 0 original observed of
        None \<Rightarrow> Inr ()
      | Some (offset, expected, seen) \<Rightarrow>
          Inl (subject @ '' changed before installation at '' @ at_location plan location offset @ location_label location @
            '': expected '' @ alt_hex_04 (unat expected) @ '', observed '' @ alt_hex_04 (unat seen)))"

definition revalidate_operation :: "native_env \<Rightarrow> SubmittedPlan \<Rightarrow> Operation \<Rightarrow> string + unit" where
  "revalidate_operation env plan operation = (case operation of
     Op_Allocate _ \<Rightarrow> Inr ()
   | Op_Hook location evidence hook \<Rightarrow>
       take_value (plan_evidence env plan location evidence []) (\<lambda>_.
         verify_original env plan location (hp_original hook) ''The original hook bytes'')
   | Op_Call location evidence _ \<Rightarrow>
       take_value (plan_evidence env plan location evidence []) (\<lambda>_. plan_access env plan location 1 True)
   | Op_Write location evidence write \<Rightarrow>
       take_value (plan_evidence env plan location evidence []) (\<lambda>_.
         if bw_instructions write then verify_original env plan location (bw_original write) ''The original write instructions''
         else plan_access env plan location (length (bw_bytes write)) False)
   | Op_Read location evidence claim \<Rightarrow>
       take_value (plan_evidence env plan location evidence []) (\<lambda>_.
         case rc_resource claim of
           Some i \<Rightarrow>
             if nr_allocation (sp_resources plan ! i) \<noteq> None
             then ne_check_access env (nr_address (sp_resources plan ! i)) (to_size env (rc_size claim)) (rc_writable claim) False
             else take_value (plan_access env plan location (to_size env (rc_size claim)) (rc_mode claim = FC_READ_FAULT)) (\<lambda>_.
               if rc_writable claim \<and> pi_mapped (location_image plan location) = []
               then ne_check_access env (location_address plan location) (to_size env (rc_size claim)) True False else Inr ())
         | None \<Rightarrow>
             take_value (plan_access env plan location (to_size env (rc_size claim)) (rc_mode claim = FC_READ_FAULT)) (\<lambda>_.
               if rc_writable claim \<and> pi_mapped (location_image plan location) = []
               then ne_check_access env (location_address plan location) (to_size env (rc_size claim)) True False else Inr ()))
   | Op_Branch location evidence branch \<Rightarrow>
       take_value (plan_evidence env plan location evidence []) (\<lambda>_.
       take_value (verify_original env plan location (be_original branch) ''The original branch instructions'') (\<lambda>_.
       take_value (plan_address env plan (be_target branch) True) (\<lambda>_. Inr ())))
   | Op_Fixup location evidence fixup \<Rightarrow>
       take_value (plan_evidence env plan location evidence []) (\<lambda>_.
       take_value (plan_access env plan location (if fx_relative fixup then 4 else pointer_size env) False) (\<lambda>_.
       take_value (plan_address env plan (fx_target fixup) False) (\<lambda>_. Inr ())))
   | Op_Operand location evidence edit \<Rightarrow>
       take_value (plan_evidence env plan location evidence []) (\<lambda>_.
       take_value (verify_original env plan location (oe_original edit) ''The original operand instruction'') (\<lambda>_.
         if oe_address_value edit
         then take_value (plan_address env plan (oe_address edit) False) (\<lambda>_. Inr ()) else Inr ())))"

fun revalidate_all :: "native_env \<Rightarrow> SubmittedPlan \<Rightarrow> Operation list \<Rightarrow> string + unit" where
  "revalidate_all env plan [] = Inr ()"
| "revalidate_all env plan (operation # operations) =
    take_value (revalidate_operation env plan operation) (\<lambda>_. revalidate_all env plan operations)"

definition revalidate :: "native_env \<Rightarrow> SubmittedPlan \<Rightarrow> string + unit" where
  "revalidate env plan =
    (case sp_error plan of Some error \<Rightarrow> Inl error | None \<Rightarrow> revalidate_all env plan (sp_operations plan))"

section \<open>Installation\<close>

fun install_writes :: "'w windows \<Rightarrow> SubmittedPlan \<Rightarrow> PreparedWrite list \<Rightarrow> 'w \<Rightarrow>
    (('w \<times> SubmittedPlan) \<times> (NativeWriteFailure + unit)) option" where
  "install_writes os plan [] w = Some ((w, plan), Inr ())"
| "install_writes os plan (operation # writes) w =
    (case write_native_memory os (pw_address operation) (pw_bytes operation) w of
       None \<Rightarrow> None
     | Some (w, Inl failure) \<Rightarrow>
         (let plan = (if nw_unsafe failure then plan\<lparr>sp_exposed := True\<rparr> else plan)
          in Some ((w, plan), Inl \<lparr>nw_message = ''Could not write '' @ at_location plan (pw_location operation) 0 @
                 location_label (pw_location operation) @ '': '' @ nw_message failure,
               nw_unsafe = sp_exposed plan \<or> nw_unsafe failure\<rparr>))
     | Some (w, Inr _) \<Rightarrow> install_writes os (plan\<lparr>sp_exposed := True\<rparr>) writes w)"

text \<open>
  \<open>hook_install\<close> is the registry's installation of the hooks this plan has prepared, when it has a registry, and
  \<open>r\<close> the registry itself.
\<close>

definition install ::
    "'w windows \<Rightarrow> ('w \<Rightarrow> native_env) \<Rightarrow>
     ('r \<Rightarrow> 'w \<Rightarrow> SubmittedPlan \<Rightarrow> (('r \<times> 'w \<times> SubmittedPlan) \<times> (NativeWriteFailure + unit)) option) option \<Rightarrow>
     'r \<times> 'w \<times> SubmittedPlan \<Rightarrow> (('r \<times> 'w \<times> SubmittedPlan) \<times> (NativeWriteFailure + unit)) option" where
  "install os env hooks state = (case state of (r, w, plan) \<Rightarrow>
    if list_ex (\<lambda>img. pi_mapped img \<noteq> []) (sp_images plan)
    then Some ((r, w, plan), Inl \<lparr>nw_message = ''Offline native plans cannot be installed'', nw_unsafe = False\<rparr>)
    else case revalidate (env w) plan of
      Inl error \<Rightarrow> Some ((r, w, plan), Inl \<lparr>nw_message = error, nw_unsafe = False\<rparr>)
    | Inr _ \<Rightarrow>
        (case install_writes os plan (sp_writes plan) w of
           None \<Rightarrow> None
         | Some ((w, plan), Inl failure) \<Rightarrow> Some ((r, w, plan), Inl failure)
         | Some ((w, plan), Inr _) \<Rightarrow>
             (case hooks of
                None \<Rightarrow> Some ((r, w, plan\<lparr>sp_exposed := True\<rparr>), Inr ())
              | Some hook_install \<Rightarrow>
                  (case hook_install r w plan of
                     None \<Rightarrow> None
                   | Some (state, Inl failure) \<Rightarrow> Some (state, Inl failure)
                   | Some ((r, w, plan), Inr _) \<Rightarrow> Some ((r, w, plan\<lparr>sp_exposed := True\<rparr>), Inr ())))))"

end
