(* ===== verification/Native_Install_Laws.thy ===== *)
theory Native_Install_Laws
  imports Native_Prepare
begin

text \<open>
  What preparation and installation do: preparation makes one write for each operation that writes, of the range
  the operation reserved; installation applies those writes, or fails in a way that says whether anything may
  have changed. The registry of hooks is an interface here.
\<close>

section \<open>The writes a plan prepares\<close>

lemma then_prepare_ok:
  "then_prepare step rest s = Some (s', Inr v) \<longleftrightarrow> (\<exists>t u. step s = Some (t, Inr u) \<and> rest u t = Some (s', Inr v))"
  by (auto simp: then_prepare_def split: option.splits prod.splits sum.splits)

lemma ask_ok: "ask test (w, plan) = Some (s', Inr v) \<longleftrightarrow> s' = (w, plan) \<and> test w plan = Inr v"
  by (auto simp: ask_def)

lemma change_ok: "change f (w, plan) = Some (s', Inr v) \<longleftrightarrow> s' = (w, f plan)"
  by (auto simp: change_def)

lemma prepared_ok: "prepared v s = Some (s', Inr u) \<longleftrightarrow> s' = s \<and> u = v"
  by (auto simp: prepared_def)

lemma perform_ok: "perform call (w, plan) = Some (s', Inr v) \<longleftrightarrow> (\<exists>w'. s' = (w', plan) \<and> call w = Some (w', Inr v))"
  by (auto simp: perform_def)

lemmas prepare_ok = then_prepare_ok ask_ok change_ok prepared_ok perform_ok

text \<open>What preparation never changes.\<close>

definition same_requests :: "SubmittedPlan \<Rightarrow> SubmittedPlan \<Rightarrow> bool" where
  "same_requests p q \<longleftrightarrow> sp_images q = sp_images p \<and> sp_operations q = sp_operations p \<and> sp_claims q = sp_claims p \<and>
     sp_plan q = sp_plan p \<and> sp_error q = sp_error p \<and> sp_exposed q = sp_exposed p"

lemma same_requests_refl [simp]: "same_requests p p"
  by (simp add: same_requests_def)

lemma same_requests_trans: "same_requests p q \<Longrightarrow> same_requests q r \<Longrightarrow> same_requests p r"
  by (simp add: same_requests_def)

lemma set_resource_same [simp]: "same_requests p (set_resource i f q) = same_requests p q"
  "sp_writes (set_resource i f q) = sp_writes q"
  by (simp_all add: same_requests_def set_resource_def)

definition write_range :: "PreparedWrite \<Rightarrow> nat \<times> nat" where
  "write_range write = (pw_address write, length (pw_bytes write))"

definition operation_ranges :: "FC_Architecture \<Rightarrow> SubmittedPlan \<Rightarrow> Operation \<Rightarrow> (nat \<times> nat) list" where
  "operation_ranges arch plan operation = (case written_range arch operation of
     None \<Rightarrow> [] | Some (location, n) \<Rightarrow> [(location_address plan location, n)])"

text \<open>A step adds writes of these ranges, and keeps the requests.\<close>

definition adds :: "(nat \<times> nat) list \<Rightarrow> SubmittedPlan \<Rightarrow> SubmittedPlan \<Rightarrow> bool" where
  "adds ranges p q \<longleftrightarrow> same_requests p q \<and> map write_range (sp_writes q) = map write_range (sp_writes p) @ ranges"

lemma adds_none [simp]: "adds [] p p"
  by (simp add: adds_def)

lemma adds_trans: "adds xs p q \<Longrightarrow> adds ys q r \<Longrightarrow> adds (xs @ ys) p r"
  using same_requests_trans by (auto simp: adds_def)

lemma prepare_allocation_adds:
  assumes "prepare_allocation os operation (w, p) = Some ((w', q), Inr u)"
  shows "adds [] p q"
  using assms
  by (cases operation) (auto simp: prepare_allocation_def prepare_ok adds_def split: prod.splits)

lemma push_write_adds:
  assumes "push_write location bytes (w, p) = Some ((w', q), Inr u)"
  shows "adds [(location_address p location, length bytes)] p q"
  using assms by (auto simp: push_write_def change_ok adds_def same_requests_def write_range_def)

lemma prepare_call_adds:
  assumes "prepare_call invoker resource description target (w, p) = Some ((w', q), Inr u)"
  shows "adds [] p q"
  using assms by (auto simp: prepare_call_def prepare_ok adds_def split: if_splits)

lemma adds_address: "adds xs p q \<Longrightarrow> location_address q l = location_address p l"
  by (simp add: adds_def same_requests_def location_address_def location_image_def)

lemma prepare_operation_adds:
  assumes "prepare_operation os env invoker operation (w, p) = Some ((w', q), Inr u)"
    and "operation_fits operation" and "\<And>w. ne_architecture (env w) = arch"
  shows "adds (operation_ranges arch p operation) p q"
proof (cases operation)
  case (Op_Read location evidence claim)
  then show ?thesis using assms(1)
    by (auto simp: prepare_operation_def prepare_ok operation_ranges_def written_range_def adds_def split: option.splits)
next
  case (Op_Write location evidence bw)
  then show ?thesis using assms(1) push_write_adds
    by (fastforce simp: prepare_operation_def operation_ranges_def written_range_def)
next
  case (Op_Operand location evidence edit)
  then obtain encoded where
    "push_write location (overwrite (oe_field_offset edit) (le_bytes (oe_field_size edit) encoded) (oe_original edit)) (w, p) =
      Some ((w', q), Inr u)"
    using assms(1) by (auto simp: prepare_operation_def prepare_ok take_value_ok)
  from push_write_adds [OF this] show ?thesis
    using assms(2) Op_Operand by (simp add: operation_ranges_def written_range_def operation_fits_def)
next
  case (Op_Allocate allocation)
  then show ?thesis using assms(1) by (auto simp: prepare_operation_def prepare_ok operation_ranges_def written_range_def)
next
  case (Op_Fixup location evidence fixup)
  then obtain encoded where
    "push_write location (le_bytes (if fx_relative fixup then 4 else pointer_size (env w)) encoded) (w, p) =
      Some ((w', q), Inr u)"
    using assms(1) by (auto simp: prepare_operation_def prepare_ok take_value_ok Let_def)
  from push_write_adds [OF this] show ?thesis
    using assms(3) Op_Fixup by (auto simp: operation_ranges_def written_range_def pointer_size_def)
next
  case (Op_Branch location evidence branch)
  let ?site = "location_address p location"
  from assms(1) Op_Branch obtain target w1 p1 d w2 p2 v where
    jump: "(case encode_rel32 (?site + 5) target (ne_architecture (env w)) of
            Some displacement \<Rightarrow> prepared displacement
          | None \<Rightarrow>
              then_prepare (perform (create_jump_relay os target (?site + 5))) (\<lambda>relay.
              then_prepare (change (\<lambda>plan. plan\<lparr>sp_relays := sp_relays plan @ [relay]\<rparr>)) (\<lambda>_.
                ask (\<lambda>w plan. case encode_rel32 (?site + 5) (na_address relay) (ne_architecture (env w)) of
                    Some displacement \<Rightarrow> Inr displacement
                  | None \<Rightarrow> Inl ''Native displacement is outside its encoding range'')))) (w, p) = Some ((w1, p1), Inr d)"
    and push: "push_write location (overwrite 1 (le_bytes 4 (nat (d mod 2 ^ 32)))
            ((replicate (length (be_original branch)) 0x90)[0 := if be_kind branch = FC_BRANCH_CALL then 0xe8 else 0xe9]))
      (w1, p1) = Some ((w2, p2), Inr v)"
    and rest: "(case (be_resource branch, be_call branch) of
           (Some resource, Some call) \<Rightarrow> prepare_call invoker resource call (be_original_target branch)
         | _ \<Rightarrow> prepared ()) (w2, p2) = Some ((w', q), Inr u)"
    unfolding prepare_operation_def Op_Branch Operation.case assms(3)
    by (auto simp: then_prepare_ok ask_ok take_value_ok)
  have relay: "adds [] p p1"
    using jump by (auto simp: prepare_ok adds_def same_requests_def split: option.splits)
  have "5 \<le> length (be_original branch)" using assms(2) Op_Branch by (simp add: operation_fits_def)
  then have "adds [(location_address p location, length (be_original branch))] p1 p2"
    using push_write_adds [OF push] adds_address [OF relay] by simp
  moreover have "adds [] p2 q" using rest prepare_call_adds by (auto simp: prepared_ok split: option.splits)
  ultimately show ?thesis
    using adds_trans [OF adds_trans [OF relay]] Op_Branch by (fastforce simp: operation_ranges_def written_range_def)
next
  case (Op_Hook location evidence hook)
  then show ?thesis using assms(1) by (auto simp: prepare_operation_def prepare_ok operation_ranges_def written_range_def)
next
  case (Op_Call location evidence call)
  then show ?thesis using assms(1) prepare_call_adds
    by (auto simp: prepare_operation_def prepare_ok operation_ranges_def written_range_def)
qed

lemma prepare_all_adds:
  assumes "\<And>operation w p w' q u. operation \<in> set operations \<Longrightarrow> step operation (w, p) = Some ((w', q), Inr u) \<Longrightarrow>
      adds (f p operation) p q"
    and "\<And>p q operation. same_requests p q \<Longrightarrow> f q operation = f p operation"
    and "prepare_all step operations (w, p) = Some ((w', q), Inr u)"
  shows "adds (concat (map (f p) operations)) p q"
  using assms(1,3)
proof (induction operations arbitrary: w p)
  case Nil
  then show ?case by (simp add: prepared_ok)
next
  case (Cons operation operations)
  from Cons.prems(2) obtain w1 p1 u1 where first: "step operation (w, p) = Some ((w1, p1), Inr u1)"
    and rest: "prepare_all step operations (w1, p1) = Some ((w', q), Inr u)"
    by (auto simp: then_prepare_ok)
  have a: "adds (f p operation) p p1" using Cons.prems(1) first by simp
  have "adds (concat (map (f p1) operations)) p1 q" by (rule Cons.IH [OF _ rest]) (use Cons.prems(1) in auto)
  moreover have "map (f p1) operations = map (f p) operations" using a assms(2) by (simp add: adds_def)
  ultimately show ?case using adds_trans [OF a] by simp
qed

lemma operation_ranges_same: "same_requests p q \<Longrightarrow> operation_ranges arch q operation = operation_ranges arch p operation"
  by (cases "written_range arch operation") (auto simp: operation_ranges_def same_requests_def location_address_def location_image_def)

lemma prepare_run:
  assumes "prepare os env invoker hooks (w, plan) = Some ((w', q), Inr u)" and "\<not> sp_preparing plan"
  shows "prepare_steps os env invoker hooks (sp_operations plan) (w, plan) = Some ((w', q), Inr ())"
proof -
  have "sp_error plan = None" using assms by (auto simp: prepare_def split: option.splits)
  then show ?thesis
    using assms
    by (cases "prepare_steps os env invoker hooks (sp_operations plan) (w, plan)")
      (auto simp: prepare_def split: sum.splits)
qed

lemma prepare_writes:
  assumes "prepare os env invoker hooks (w, plan) = Some ((w', q), Inr u)" and "\<not> sp_preparing plan"
    and "list_all operation_fits (sp_operations plan)" and "\<And>w. ne_architecture (env w) = arch"
  shows "adds (concat (map (operation_ranges arch plan) (sp_operations plan))) plan q"
proof -
  let ?start = "plan\<lparr>sp_preparing := True\<rparr>"
  from assms(1,2) obtain w1 p1 u1 w2 p2 u2 where
    allocations: "prepare_all (prepare_allocation os) (sp_operations plan) (w, ?start) = Some ((w1, p1), Inr u1)"
    and operations: "prepare_all (prepare_operation os env invoker) (sp_operations plan) (w1, p1) = Some ((w2, p2), Inr u2)"
    and hooks: "prepare_hook_sites hooks (sp_operations plan) (w2, p2) = Some ((w', q), Inr u)"
    using prepare_run [OF assms(1,2)] unfolding prepare_steps_def by (auto simp: then_prepare_ok change_ok)
  have 0: "adds [] plan ?start" by (simp add: adds_def same_requests_def)
  have "adds (concat (map (\<lambda>operation. []) (sp_operations plan))) ?start p1"
    by (rule prepare_all_adds [OF _ _ allocations]) (auto intro: prepare_allocation_adds)
  moreover have "concat (map (\<lambda>operation. []) (sp_operations plan)) = []" by simp
  ultimately have 1: "adds [] ?start p1" by metis
  have 2: "adds (concat (map (operation_ranges arch p1) (sp_operations plan))) p1 p2"
  proof (rule prepare_all_adds [OF _ _ operations])
    show "adds (operation_ranges arch p operation) p q"
      if "operation \<in> set (sp_operations plan)" "prepare_operation os env invoker operation (w, p) = Some ((w', q), Inr u)"
      for operation w p w' q u
      using prepare_operation_adds [OF that(2) _ assms(4)] that(1) assms(3) by (auto simp: list_all_iff)
  qed (rule operation_ranges_same)
  have same: "map (operation_ranges arch p1) (sp_operations plan) = map (operation_ranges arch plan) (sp_operations plan)"
    using adds_trans [OF 0 1] by (auto simp: adds_def intro!: operation_ranges_same)
  have last_step: "adds [] p2 q" using hooks
    by (auto simp: prepare_hook_sites_def prepare_ok adds_def same_requests_def split: option.splits if_splits)
  show ?thesis using adds_trans [OF adds_trans [OF adds_trans [OF 0 1] 2] last_step] unfolding same by simp
qed

section \<open>Writes of accepted plans\<close>

definition apart :: "nat \<times> nat \<Rightarrow> nat \<times> nat \<Rightarrow> bool" where
  "apart r s \<longleftrightarrow> fst r + snd r \<le> fst s \<or> fst s + snd s \<le> fst r"

lemma sorted_wrt_pair: "sorted_wrt P xs \<Longrightarrow> x \<in> set xs \<Longrightarrow> y \<in> set xs \<Longrightarrow> x \<noteq> y \<Longrightarrow> P x y \<or> P y x"
  by (induction xs) auto

lemma sorted_wrt_concat_map:
  assumes "distinct tags" and "\<And>a. a \<in> set tags \<Longrightarrow> length (f a) \<le> 1"
    and "\<And>a b x y. a \<in> set tags \<Longrightarrow> b \<in> set tags \<Longrightarrow> a \<noteq> b \<Longrightarrow> x \<in> set (f a) \<Longrightarrow> y \<in> set (f b) \<Longrightarrow> P x y"
  shows "sorted_wrt P (concat (map f tags))"
  using assms
proof (induction tags)
  case (Cons a tags)
  have "sorted_wrt P (f a)" using Cons.prems(2) [of a] by (cases "f a") auto
  moreover have "sorted_wrt P (concat (map f tags))" 
  proof (rule Cons.IH)
    show "P x y" if "b \<in> set tags" "c \<in> set tags" "b \<noteq> c" "x \<in> set (f b)" "y \<in> set (f c)" for b c x y
      using Cons.prems(3) [of b c x y] that by simp
  qed (use Cons.prems(1,2) in simp_all)
  moreover have "P x y" if "x \<in> set (f a)" "b \<in> set tags" "y \<in> set (f b)" for x b y
    using Cons.prems(3) [of a b x y] Cons.prems(1) that by auto
  ultimately show ?case by (auto simp: sorted_wrt_append)
qed simp

text \<open>Two write claims that do not conflict are disjoint, unless they are of one operation or of different mappings.\<close>

lemma write_claims_apart:
  assumes "\<not> claims_conflict plans a b" and "mc_kind a = CK_Write" and "mc_kind b = CK_Write"
    and "mc_offline_image a = mc_offline_image b" and "(mc_plan a, mc_operation a) \<noteq> (mc_plan b, mc_operation b)"
    and "written_range arch (claim_operation plans a) \<noteq> None" and "written_range arch (claim_operation plans b) \<noteq> None"
  shows "mc_end a \<le> mc_begin b \<or> mc_end b \<le> mc_begin a"
  using assms
  by (cases "claim_operation plans a"; cases "claim_operation plans b")
    (auto simp: claims_conflict_def Let_def read_only_def shares_own_def written_range_def split: if_splits)

definition plan_ranges :: "FC_Architecture \<Rightarrow> SubmittedPlan \<Rightarrow> (nat \<times> nat) list" where
  "plan_ranges arch plan = concat (map (operation_ranges arch plan) (sp_operations plan))"

text \<open>A plan of live images: none of its claims is of an offline buffer.\<close>

definition live_plan :: "SubmittedPlan \<Rightarrow> bool" where
  "live_plan plan \<longleftrightarrow> (\<forall>c \<in> set (sp_claims plan). mc_offline_image c = 0)"

text \<open>A plan that requests have made and nobody has prepared has no writes yet.\<close>

lemma records_keeps:
  assumes "records arch p step p" and "sp_writes p = [] \<and> \<not> sp_preparing p"
  shows "sp_writes (fst (failing step p)) = [] \<and> \<not> sp_preparing (fst (failing step p))"
  using assms by (auto simp: records_def failing_def fail_def Let_def grown_def split: prod.splits sum.splits)

lemma planned_fresh: "planned arch plan \<Longrightarrow> sp_writes plan = [] \<and> \<not> sp_preparing plan"
proof (induction rule: planned.induct)
  case (planned_submit plan env input)
  have "records (ne_architecture env) plan
      (if sp_preparing plan then refuse ''Native requests must be submitted during Plan'' else submit_operation env input) plan"
    by (intro records_if records_refuse grown_refl records_operation)
  from records_keeps [OF this planned_submit.IH] show ?case
    using planned_submit.IH by (simp add: submit_def split: option.split)
next
  case (planned_snapshot plan env claim has_output)
  show ?case
  proof (cases "sp_error plan")
    case None
    then show ?thesis using records_keeps [OF records_snapshot [of "ne_architecture env" plan has_output env claim] planned_snapshot.IH]
      by (simp only: submit_snapshot_def option.case simp_thms)
  qed (use planned_snapshot.IH in \<open>simp add: submit_snapshot_def\<close>)
qed (simp add: new_plan_def)

lemma planned_prepared_writes:
  assumes "planned arch plan" and "prepare os env invoker hooks (w, plan) = Some ((w', q), Inr u)"
    and "\<And>w. ne_architecture (env w) = arch"
  shows "map write_range (sp_writes q) = plan_ranges arch plan" and "sp_error plan = None"
proof -
  note fresh = planned_fresh [OF assms(1)]
  show no_error: "sp_error plan = None" using assms(2) fresh by (auto simp: prepare_def split: option.splits)
  have "list_all operation_fits (sp_operations plan)"
    using planned_reserved [OF assms(1)] no_error
    by (auto simp: plan_reserved_def reserved_operation_def list_all_length)
  from prepare_writes [OF assms(2) _ this assms(3)] show "map write_range (sp_writes q) = plan_ranges arch plan"
    using fresh by (simp add: adds_def plan_ranges_def)
qed

text \<open>Every write of plans whose claims are compatible is apart from every other.\<close>

lemma operation_claim:
  assumes "plan_reserved arch (plans p) \<and> sp_error (plans p) = None \<and> sp_plan (plans p) = p \<and> live_plan (plans p)"
    and "i < length (sp_operations (plans p))"
    and "x \<in> set (operation_ranges arch (plans p) (sp_operations (plans p) ! i))"
  shows "\<exists>c \<in> set (sp_claims (plans p)). mc_plan c = p \<and> mc_operation c = i \<and> mc_kind c = CK_Write \<and>
    mc_begin c = fst x \<and> mc_end c = fst x + snd x \<and> mc_offline_image c = 0 \<and>
    written_range arch (claim_operation plans c) \<noteq> None"
proof -
  let ?operation = "sp_operations (plans p) ! i"
  obtain location n where w: "written_range arch ?operation = Some (location, n)" and x: "x = (location_address (plans p) location, n)"
    using assms(3) unfolding operation_ranges_def by (cases "written_range arch ?operation") auto
  let ?c = "write_claim (plans p) i location n CK_Write"
  have "reserved_operation arch (plans p) i ?operation" using assms(1,2) by (simp add: plan_reserved_def)
  then have c: "?c \<in> set (sp_claims (plans p))" using w by (simp add: reserved_operation_def)
  show ?thesis
    by (rule bexI [OF _ c]) (use c assms(1) w x in \<open>auto simp: write_claim_def claim_operation_def live_plan_def\<close>)
qed

lemma compatible_writes_apart:
  assumes "compatible plans (concat (map (\<lambda>p. sp_claims (plans p)) accepted))" and "distinct accepted"
    and "\<And>p. p \<in> set accepted \<Longrightarrow> plan_reserved arch (plans p) \<and> sp_error (plans p) = None \<and> sp_plan (plans p) = p \<and>
      live_plan (plans p)"
  shows "sorted_wrt apart (concat (map (\<lambda>p. plan_ranges arch (plans p)) accepted))"
proof -
  let ?f = "\<lambda>(p, i). operation_ranges arch (plans p) (sp_operations (plans p) ! i)"
  let ?tags = "concat (map (\<lambda>p. map (Pair p) [0..<length (sp_operations (plans p))]) accepted)"
  have tags: "(p, i) \<in> set ?tags \<longleftrightarrow> p \<in> set accepted \<and> i < length (sp_operations (plans p))" for p i
    by (auto simp: image_iff)
  have "plan_ranges arch (plans p) = concat (map ?f (map (Pair p) [0..<length (sp_operations (plans p))]))" for p
  proof -
    have "map (operation_ranges arch (plans p)) (sp_operations (plans p)) =
        map (?f \<circ> Pair p) [0..<length (sp_operations (plans p))]"
      by (rule nth_equalityI) simp_all
    then show ?thesis by (simp add: plan_ranges_def)
  qed
  then have "concat (map (\<lambda>p. plan_ranges arch (plans p)) accepted) = concat (map ?f ?tags)"
    by (induction accepted) simp_all
  moreover have "sorted_wrt apart (concat (map ?f ?tags))"
  proof (rule sorted_wrt_concat_map)
    show "distinct ?tags" using assms(2)
      by (induction accepted) (auto simp: distinct_map inj_on_def)
    show "length (?f a) \<le> 1" for a by (auto simp: operation_ranges_def split: prod.split option.split)
    show "apart x y"
      if "a \<in> set ?tags" "b \<in> set ?tags" "a \<noteq> b" "x \<in> set (?f a)" "y \<in> set (?f b)" for a b x y
    proof -
      obtain p i where a: "a = (p, i)" by (cases a)
      obtain q j where b: "b = (q, j)" by (cases b)
      have in_p: "p \<in> set accepted" "i < length (sp_operations (plans p))"
        and in_q: "q \<in> set accepted" "j < length (sp_operations (plans q))"
        using that(1,2) tags unfolding a b by blast+
      note 1 = operation_claim [where plans = plans and p = p and i = i and x = x, OF assms(3) [OF in_p(1)] in_p(2)]
      note 2 = operation_claim [where plans = plans and p = q and i = j and x = y, OF assms(3) [OF in_q(1)] in_q(2)]
      from 1 that(4) a obtain c where c: "c \<in> set (sp_claims (plans p))" "mc_plan c = p" "mc_operation c = i" "mc_kind c = CK_Write"
        "mc_begin c = fst x" "mc_end c = fst x + snd x" "mc_offline_image c = 0" "written_range arch (claim_operation plans c) \<noteq> None"
        by auto
      from 2 that(5) b obtain d where d: "d \<in> set (sp_claims (plans q))" "mc_plan d = q" "mc_operation d = j" "mc_kind d = CK_Write"
        "mc_begin d = fst y" "mc_end d = fst y + snd y" "mc_offline_image d = 0" "written_range arch (claim_operation plans d) \<noteq> None"
        by auto
      have ne: "(mc_plan c, mc_operation c) \<noteq> (mc_plan d, mc_operation d)" using that(3) a b c(2,3) d(2,3) by auto
      have "\<not> claims_conflict plans c d"
        using sorted_wrt_pair [OF assms(1), of c d] c(1) d(1) in_p in_q ne claims_conflict_sym [of plans c d] by auto
      from write_claims_apart [OF this c(4) d(4) _ ne c(8) d(8)] show ?thesis
        using c(5-7) d(5-7) by (auto simp: apart_def)
    qed
  qed
  ultimately show ?thesis by simp
qed

lemma accepted_not_refused:
  assumes "compatible plans installed" and "distinct ready"
  shows "filter (\<lambda>p. p \<notin> fst ` set (validate_plans plans ready installed)) ready = accepted_plans plans installed ready"
proof -
  have "fst ` set (validate_plans plans ready installed) = set ready - set (accepted_plans plans installed ready)"
    using arg_cong [OF validate_from_failures [OF assms, of "[]"], of set] by (auto simp: validate_plans_def)
  then have "filter (\<lambda>p. p \<notin> fst ` set (validate_plans plans ready installed)) ready =
      filter (\<lambda>p. p \<in> set (accepted_plans plans installed ready)) ready"
    by (auto intro!: filter_cong)
  also have "\<dots> = accepted_plans plans installed ready"
    using assms(2)
  proof (induction ready arbitrary: installed)
    case (Cons p ready)
    have new: "p \<notin> set (accepted_plans plans others ready)" for others
      using Cons.prems accepted_subset by fastforce
    have "filter (\<lambda>q. q = p \<or> q \<in> set (accepted_plans plans others ready)) ready =
        filter (\<lambda>q. q \<in> set (accepted_plans plans others ready)) ready" for others
      using Cons.prems by (auto intro!: filter_cong)
    then show ?case using Cons new by simp
  qed simp
  finally show ?thesis .
qed

text \<open>C3: Accepted plans never write the same byte. Take the plans installed so far, whose claims are compatible, and a
  batch of plans built by requests: once the plans that are refused by the validation are left out, and the others are
  prepared, all the writes the plans will perform have ranges that are pairwise disjoint, within a plan as well as
  between plans.
\<close>
theorem accepted_writes_apart:
  assumes "distinct (earlier @ ready)"
    and "compatible plans (concat (map (\<lambda>p. sp_claims (plans p)) earlier))"
    and "list_all (\<lambda>p. planned arch (plans p) \<and> sp_plan (plans p) = p \<and> live_plan (plans p)) (earlier @ ready)"
    and "accepted = earlier @ filter (\<lambda>p. p \<notin> fst ` set (validate_plans plans ready (concat (map (\<lambda>p. sp_claims (plans p)) earlier)))) ready"
    and "list_all (\<lambda>p. \<exists>w w'. prepare os env invoker hooks (w, plans p) = Some ((w', q p), Inr ())) accepted"
    and "\<And>w. ne_architecture (env w) = arch"
  shows "sorted_wrt apart (map write_range (concat (map (\<lambda>p. sp_writes (q p)) accepted)))"
proof -
  let ?claims = "\<lambda>ps. concat (map (\<lambda>p. sp_claims (plans p)) ps)"
  have acc: "accepted = earlier @ accepted_plans plans (?claims earlier) ready"
    using accepted_not_refused [OF assms(2), of ready] assms(1,4) by simp
  have inside: "set accepted \<subseteq> set (earlier @ ready)" using assms(4) by auto
  have prep: "map write_range (sp_writes (q p)) = plan_ranges arch (plans p) \<and> sp_error (plans p) = None \<and>
      plan_reserved arch (plans p) \<and> sp_plan (plans p) = p \<and> live_plan (plans p)" if p: "p \<in> set accepted" for p
  proof -
    obtain w w' where "prepare os env invoker hooks (w, plans p) = Some ((w', q p), Inr ())"
      using assms(5) p by (auto simp: list_all_iff)
    note run = this
    have planned: "planned arch (plans p)" and rest: "sp_plan (plans p) = p" "live_plan (plans p)"
      using assms(3) inside p by (auto simp: list_all_iff)
    show ?thesis
      using planned_prepared_writes [OF planned run assms(6)] planned_reserved [OF planned] rest by simp
  qed
  have "sorted_wrt apart (concat (map (\<lambda>p. plan_ranges arch (plans p)) accepted))"
  proof (rule compatible_writes_apart)
    show "compatible plans (?claims accepted)"
      using accepted_compatible [OF assms(2)] unfolding acc by simp
    show "distinct accepted" using assms(1,4) by auto
  qed (use prep in blast)
  moreover have "map write_range (concat (map (\<lambda>p. sp_writes (q p)) accepted)) =
      concat (map (\<lambda>p. plan_ranges arch (plans p)) accepted)"
    using prep by (induction accepted) (auto simp: map_concat)
  ultimately show ?thesis by simp
qed

section \<open>Two plans that write\<close>

definition sample_env :: native_env where
  "sample_env = \<lparr>ne_architecture = FC_ARCH_X86, ne_check_access = (\<lambda>address n writable code. Inr ()),
     ne_read = (\<lambda>address n. Inr (replicate n 0)), ne_module_of = (\<lambda>address. None), ne_decode = (\<lambda>bytes. None),
     ne_hooks = None\<rparr>"

definition sample_image :: PlanImage where
  "sample_image = \<lparr>pi_name = ''game'', pi_profile = ''p'', pi_base = 0x400000, pi_size = 0x1000, pi_sections = [],
     pi_mapped = [], pi_storage = 0\<rparr>"

definition sample_request :: "nat \<Rightarrow> FC_Operation" where
  "sample_request rva =
    (let none = \<lparr>ft_data = None, ft_size = 0\<rparr>; site = \<lparr>lo_image = \<lparr>ft_data = Some ''p'', ft_size = 1\<rparr>, lo_rva = rva, lo_name = none, lo_invalid = 0\<rparr>
     in FC_OPERATION_WRITE \<lparr>fw_location = site,
          fw_evidence = \<lparr>fe_kind = 0, fe_bytes = \<lparr>fb_data = None, fb_size = 0\<rparr>, fe_mask = \<lparr>fb_data = None, fb_size = 0\<rparr>, fe_target = site\<rparr>,
          fw_bytes = \<lparr>fb_data = Some [1, 2, 3, 4], fb_size = 4\<rparr>, fw_alignment = 1, fw_instructions = 0, fw_nop = 0,
          fw_instruction_bytes = 0\<rparr>)"

definition sample_submitted :: "nat \<Rightarrow> SubmittedPlan" where
  "sample_submitted p = fst (submit sample_env (sample_request (16 + 4 * p)) (new_plan p ''sample'' None [sample_image]))"

lemma sample_submitted_planned: "planned FC_ARCH_X86 (sample_submitted p)"
  unfolding sample_submitted_def by (intro planned_submit planned_new) (simp add: sample_env_def)

lemma sample_submitted_value:
  assumes "p < 100"
  shows "sample_submitted p = (new_plan p ''sample'' None [sample_image])\<lparr>
    sp_claims := [\<lparr>mc_plan = p, mc_begin = 0x400010 + 4 * p, mc_end = 0x400014 + 4 * p, mc_kind = CK_Write, mc_operation = 0,
      mc_offline_image = 0\<rparr>],
    sp_operations := [Op_Write \<lparr>loc_image = 0, loc_rva = 16 + 4 * p, loc_name = []\<rparr>
      \<lparr>ev_kind = 0, ev_bytes = [], ev_mask = [], ev_target = None\<rparr> \<lparr>bw_bytes = [1, 2, 3, 4], bw_original = [], bw_instructions = False\<rparr>]\<rparr>"
proof -
  have "has_single_bit (Suc 0)" by code_simp
  moreover have "\<not> 4080 - 4 * p < Suc (Suc (Suc (Suc 0)))" "\<not> 4290772975 - 4 * p < Suc (Suc (Suc (Suc 0)))"
    using assms by simp_all
  moreover have "equal_id ''p'' ''p''" by (simp add: equal_id_def)
  ultimately show ?thesis
    using assms
    by (simp add: sample_submitted_def submit_def failing_def submit_operation_def sample_request_def submit_write_def then_plan_def
        check_def give_def checked_site_def plan_location_def copy_text_def view_def copy_view_def new_plan_def sample_image_def
        native_range_def kMaximum_def sample_env_def address_max_def plan_access_def location_image_def location_address_def
        copy_evidence_def plan_evidence_def add_claim_def evidence_claim_def extent_def push_operation_def Let_def)
qed

lemma sample_prepared:
  assumes "p < 100"
  shows "\<exists>w w'. prepare sample_windows (\<lambda>w. sample_env) (\<lambda>call. Inr ()) None (w, sample_submitted p) =
    Some ((w', (sample_submitted p)\<lparr>sp_preparing := True, sp_writes := [\<lparr>pw_address = 0x400010 + 4 * p, pw_bytes = [1, 2, 3, 4],
      pw_location = \<lparr>loc_image = 0, loc_rva = 16 + 4 * p, loc_name = []\<rparr>\<rparr>]\<rparr>), Inr ())"
  unfolding sample_submitted_value [OF assms]
  by (simp add: prepare_def prepare_steps_def then_prepare_def change_def new_plan_def prepare_allocation_def prepared_def
      prepare_operation_def push_write_def location_address_def location_image_def sample_image_def prepare_hook_sites_def is_hook_def)

lemma accepted_writes_apart_witness:
  "sorted_wrt apart (map write_range (concat (map (\<lambda>p. sp_writes ((sample_submitted p)\<lparr>sp_preparing := True,
     sp_writes := [\<lparr>pw_address = 0x400010 + 4 * p, pw_bytes = [1, 2, 3, 4],
       pw_location = \<lparr>loc_image = 0, loc_rva = 16 + 4 * p, loc_name = []\<rparr>\<rparr>]\<rparr>)) [0, 1])))"
proof (rule accepted_writes_apart [of "[0]" "[1]" sample_submitted FC_ARCH_X86 "[0, 1]" sample_windows "\<lambda>w. sample_env" "\<lambda>call. Inr ()" None])
  show "compatible sample_submitted (concat (map (\<lambda>p. sp_claims (sample_submitted p)) [0]))"
    by (simp add: sample_submitted_value)
  show "list_all (\<lambda>p. planned FC_ARCH_X86 (sample_submitted p) \<and> sp_plan (sample_submitted p) = p \<and> live_plan (sample_submitted p)) ([0] @ [1])"
    using sample_submitted_planned by (simp add: sample_submitted_value live_plan_def new_plan_def)
  show "[0, 1] = [0] @ filter (\<lambda>p. p \<notin> fst ` set (validate_plans sample_submitted [1]
      (concat (map (\<lambda>p. sp_claims (sample_submitted p)) [0])))) [1]"
    by (simp add: validate_plans_def validate_def sample_submitted_value new_plan_def claims_conflict_def)
  show "list_all (\<lambda>p. \<exists>w w'. prepare sample_windows (\<lambda>w. sample_env) (\<lambda>call. Inr ()) None (w, sample_submitted p) =
      Some ((w', (sample_submitted p)\<lparr>sp_preparing := True, sp_writes := [\<lparr>pw_address = 0x400010 + 4 * p, pw_bytes = [1, 2, 3, 4],
        pw_location = \<lparr>loc_image = 0, loc_rva = 16 + 4 * p, loc_name = []\<rparr>\<rparr>]\<rparr>), Inr ())) [0, 1]"
    using sample_prepared [of 0] sample_prepared [of 1] by simp
qed (simp_all add: sample_env_def)

end
