(* ===== verification/Native_Hooks.thy ===== *)
theory Native_Hooks
  imports Native_Install_Laws "HOL-Library.Char_ord"
begin

text \<open>
  The registry of hooks (\<open>hook_registry.cpp\<close>, \<open>hook_site.hpp\<close>): the original bytes behind the installed detours,
  the preparation of disabled detours with their ordered participants and state layouts, and installation.
  SafetyHook and the generated bridges are arguments.
\<close>

section \<open>Sites\<close>

text \<open>
  A participant refers to one declaration of a plan; the declaration and the owner read through the plan are
  kept with it. A list's modifier is an index into its values.
\<close>

record Participant =
  pt_plan :: nat
  pt_owner_id :: string
  pt_operation :: HookParticipant
  pt_state_offset :: nat

record Participants =
  ps_values :: "Participant list"
  ps_modifier :: "nat option"
  ps_state_size :: nat
  ps_state_alignment :: nat

text \<open>Bridges are their addresses, zero when there is none; the backend's detours are handles.\<close>

record HookSite =
  hs_address :: nat
  hs_original_target :: nat
  hs_scope :: nat
  hs_call :: "CallDescription option"
  hs_original :: "byte list"
  hs_installed :: "byte list"
  hs_entry :: nat
  hs_invoker :: nat
  hs_relay :: "NativeAllocation option"
  hs_current :: "Participants option"
  hs_lists :: "Participants list"
  hs_detour :: "nat option"

text \<open>An item of a preparation holds an existing site, by its index in the registry, or a new one.\<close>

record Item =
  it_site :: "nat + HookSite"
  it_list :: Participants

definition item_site :: "HookSite list \<Rightarrow> Item \<Rightarrow> HookSite" where
  "item_site sites item = (case it_site item of Inl i \<Rightarrow> sites ! i | Inr site \<Rightarrow> site)"

text \<open>
  What the registry asks of its bridge generator and of SafetyHook. A bridge carries its description, the address
  of its site and whether it enters at an instruction; creating a function detour gives its handle and its
  trampoline. \<open>ho_max_align\<close> is \<open>alignof(std::max_align_t)\<close>.
\<close>

record 'w hook_os =
  ho_max_align :: nat
  ho_entry :: "FC_NativeCall \<Rightarrow> nat \<Rightarrow> bool \<Rightarrow> 'w \<Rightarrow> 'w \<times> (string + nat)"
  ho_invoker :: "FC_NativeCall \<Rightarrow> 'w \<Rightarrow> 'w \<times> (string + nat)"
  ho_inline_create :: "nat \<Rightarrow> nat \<Rightarrow> 'w \<Rightarrow> 'w \<times> (nat \<times> nat) option"
  ho_mid_create :: "nat \<Rightarrow> nat \<Rightarrow> 'w \<Rightarrow> 'w \<times> nat option"
  ho_inline_enable :: "nat \<Rightarrow> 'w \<Rightarrow> 'w \<times> bool"
  ho_mid_enable :: "nat \<Rightarrow> 'w \<Rightarrow> 'w \<times> bool"
  ho_trap_threads :: "nat \<Rightarrow> nat \<Rightarrow> nat \<Rightarrow> ('w \<Rightarrow> ('w \<times> (NativeWriteFailure + unit)) option) \<Rightarrow>
    'w \<Rightarrow> ('w \<times> (NativeWriteFailure + unit)) option"

section \<open>Original bytes\<close>

fun original_bytes :: "HookSite list \<Rightarrow> nat \<Rightarrow> byte list" where
  "original_bytes [] address = []"
| "original_bytes (site # sites) address =
    (if hs_address site = address then hs_original site else original_bytes sites address)"

fun original_view :: "'w windows \<Rightarrow> 'w \<Rightarrow> HookSite list \<Rightarrow> nat \<Rightarrow> byte list \<Rightarrow> string + byte list" where
  "original_view os w [] address bytes = Inr bytes"
| "original_view os w (site # sites) address bytes =
    (if address \<ge> hs_address site + length (hs_original site) \<or> hs_address site \<ge> address + length bytes
     then original_view os w sites address bytes
     else if read_native_memory os (hs_address site) (length (hs_installed site)) w \<noteq> Inr (hs_installed site)
     then Inl ''Could not verify the installed native detour bytes''
     else
       let start = max address (hs_address site);
           finish = min (address + length bytes) (hs_address site + length (hs_original site))
       in original_view os w sites address
            (overwrite (start - address)
              (take (finish - start) (drop (start - hs_address site) (hs_original site))) bytes))"

definition registry_view :: "'w windows \<Rightarrow> 'w \<Rightarrow> HookSite list \<Rightarrow> hook_view" where
  "registry_view os w sites =
    \<lparr>hv_original_view = original_view os w sites, hv_original_bytes = original_bytes sites\<rparr>"

section \<open>Preparation\<close>

fun site_index :: "HookSite list \<Rightarrow> nat \<Rightarrow> nat option" where
  "site_index [] address = None"
| "site_index (site # sites) address =
    (if hs_address site = address then Some 0 else map_option Suc (site_index sites address))"

fun item_index :: "HookSite list \<Rightarrow> Item list \<Rightarrow> nat \<Rightarrow> nat option" where
  "item_index sites [] address = None"
| "item_index sites (item # items) address =
    (if hs_address (item_site sites item) = address then Some 0 else map_option Suc (item_index sites items address))"

definition hook_failure :: string where
  "hook_failure = ''Could not prepare the native hook''"

text \<open>\<open>require\<close>: a failure of the backend has one message.\<close>

definition require_some :: "('w \<Rightarrow> 'w \<times> 'a option) \<Rightarrow> ('w, 'a) preparing" where
  "require_some call =
    perform (\<lambda>w. Some (case call w of (w, None) \<Rightarrow> (w, Inl hook_failure) | (w, Some v) \<Rightarrow> (w, Inr v)))"

definition require_built :: "('w \<Rightarrow> 'w \<times> (string + 'a)) \<Rightarrow> ('w, 'a) preparing" where
  "require_built call =
    perform (\<lambda>w. Some (case call w of (w, Inl _) \<Rightarrow> (w, Inl hook_failure) | (w, Inr v) \<Rightarrow> (w, Inr v)))"

definition instruction_signature :: "FC_Architecture \<Rightarrow> FC_NativeCall" where
  "instruction_signature arch =
    \<lparr>nc_architecture = architecture_id arch, nc_flags = 1,
     nc_result = \<lparr>nv_kind = FC_NATIVE_VOID, nv_size = 0, nv_alignment = 0\<rparr>,
     nc_return_storage = \<lparr>ns_kind = FC_NATIVE_STORAGE_NONE, ns_register = 0, ns_stack_offset = 0\<rparr>,
     nc_arguments = Some [\<lparr>na_value = \<lparr>nv_kind = FC_NATIVE_POINTER, nv_size = kWord arch, nv_alignment = kWord arch\<rparr>,
       na_storage = (case arch of
          FC_ARCH_X64 \<Rightarrow> \<lparr>ns_kind = FC_NATIVE_STORAGE_REGISTER, ns_register = 18, ns_stack_offset = 0\<rparr>
        | FC_ARCH_X86 \<Rightarrow> \<lparr>ns_kind = FC_NATIVE_STORAGE_STACK, ns_register = 0, ns_stack_offset = 0\<rparr>)\<rparr>],
     nc_argument_count = 1,
     nc_cleanup = (case arch of FC_ARCH_X64 \<Rightarrow> FC_STACK_CLEANUP_NONE | FC_ARCH_X86 \<Rightarrow> FC_STACK_CLEANUP_CALLER),
     nc_stack_size = (case arch of FC_ARCH_X64 \<Rightarrow> 0 | FC_ARCH_X86 \<Rightarrow> 4)\<rparr>"

definition empty_participants :: "'w hook_os \<Rightarrow> Participants" where
  "empty_participants ho = \<lparr>ps_values = [], ps_modifier = None, ps_state_size = 0, ps_state_alignment = ho_max_align ho\<rparr>"

definition blank_site :: "nat \<Rightarrow> HookParticipant \<Rightarrow> HookSite" where
  "blank_site address hook =
    \<lparr>hs_address = address, hs_original_target = 0, hs_scope = hp_scope hook, hs_call = hp_call hook,
     hs_original = hp_original hook, hs_installed = [], hs_entry = 0, hs_invoker = 0, hs_relay = None,
     hs_current = None, hs_lists = [], hs_detour = None\<rparr>"

text \<open>The five bytes of a redirected CALL.\<close>

definition call_bytes :: "int \<Rightarrow> byte list" where
  "call_bytes displacement = 0xe8 # le_bytes 4 (nat (displacement mod 2 ^ 32))"

definition redirect_call :: "'w windows \<Rightarrow> FC_Architecture \<Rightarrow> HookSite \<Rightarrow> ('w, HookSite) preparing" where
  "redirect_call os arch site =
    (let address = hs_address site;
         relative = signed_bits 32 (int (le_number (take 4 (drop 1 (hs_original site)))));
         site = site\<lparr>hs_original_target := the (decode_rel32_target (address + 5) relative arch)\<rparr>
     in case encode_rel32 (address + 5) (hs_entry site) arch of
          Some displacement \<Rightarrow> prepared (site\<lparr>hs_installed := call_bytes displacement\<rparr>)
        | None \<Rightarrow>
            then_prepare (\<lambda>state. case perform (create_jump_relay os (hs_entry site) (address + 5)) state of
                None \<Rightarrow> None
              | Some (state, Inl _) \<Rightarrow> Some (state, Inl hook_failure)
              | Some (state, Inr relay) \<Rightarrow> Some (state, Inr relay)) (\<lambda>relay.
            prepared (site\<lparr>hs_relay := Some relay,
              hs_installed := call_bytes (the (encode_rel32 (address + 5) (na_address relay) arch))\<rparr>)))"

text \<open>A typed hook has a call description; \<open>submit\<close> has checked that.\<close>

definition new_site :: "'w windows \<Rightarrow> 'w hook_os \<Rightarrow> FC_Architecture \<Rightarrow> nat \<Rightarrow> HookParticipant \<Rightarrow> ('w, HookSite) preparing" where
  "new_site os ho arch address hook =
    (let site = blank_site address hook
     in if hs_scope site = FC_HOOK_INSTRUCTION
        then
          then_prepare (require_built (ho_entry ho (instruction_signature arch) address True)) (\<lambda>entry.
          then_prepare (require_some (ho_mid_create ho address entry)) (\<lambda>detour.
            prepared (site\<lparr>hs_entry := entry, hs_detour := Some detour\<rparr>)))
        else
          let call = call_view (the (hs_call site))
          in then_prepare (require_built (ho_entry ho call address False)) (\<lambda>entry.
             then_prepare (require_built (ho_invoker ho call)) (\<lambda>invoker.
               let site = site\<lparr>hs_entry := entry, hs_invoker := invoker\<rparr>
               in if hs_scope site = FC_HOOK_FUNCTION
                  then then_prepare (require_some (ho_inline_create ho address entry)) (\<lambda>(detour, trampoline).
                    prepared (site\<lparr>hs_detour := Some detour, hs_original_target := trampoline\<rparr>))
                  else redirect_call os arch site)))"

definition existing_values :: "HookSite \<Rightarrow> Participant list" where
  "existing_values site = (case hs_current site of None \<Rightarrow> [] | Some previous \<Rightarrow> ps_values previous)"

text \<open>The item of an address: a pending one, one for the installed site there, or one for a new site.\<close>

definition pending_item :: "'w windows \<Rightarrow> 'w hook_os \<Rightarrow> FC_Architecture \<Rightarrow> HookSite list \<Rightarrow> Item list \<Rightarrow> nat \<Rightarrow> HookParticipant \<Rightarrow>
    ('w, Item list \<times> nat) preparing" where
  "pending_item os ho arch sites items address hook =
    (case item_index sites items address of
       Some i \<Rightarrow> prepared (items, i)
     | None \<Rightarrow>
         then_prepare
           (case site_index sites address of
              Some i \<Rightarrow> prepared (Inl i)
            | None \<Rightarrow> then_prepare (new_site os ho arch address hook) (\<lambda>site. prepared (Inr site))) (\<lambda>site.
         let item = \<lparr>it_site = site, it_list = empty_participants ho\<rparr>
         in prepared (items @ [item\<lparr>it_list := (it_list item)\<lparr>ps_values := existing_values (item_site sites item)\<rparr>\<rparr>],
              length items)))"

definition participant :: "SubmittedPlan \<Rightarrow> HookParticipant \<Rightarrow> Participant" where
  "participant plan hook =
    \<lparr>pt_plan = sp_plan plan, pt_owner_id = sp_owner_id plan, pt_operation = hook, pt_state_offset = 0\<rparr>"

definition add_participant :: "Participant \<Rightarrow> Item \<Rightarrow> Item" where
  "add_participant p item = item\<lparr>it_list := (it_list item)\<lparr>ps_values := ps_values (it_list item) @ [p]\<rparr>\<rparr>"

text \<open>The original call's handle is ready before the detour is enabled.\<close>

definition original_call :: "HookSite \<Rightarrow> NativeResource \<Rightarrow> NativeResource" where
  "original_call site resource =
    resource\<lparr>nr_address := hs_original_target site,
             nr_borrowed_invoker :=
               (if \<not> compiler_call (cd_value (the (hs_call site))) then Some (hs_invoker site) else nr_borrowed_invoker resource),
             nr_ready := True\<rparr>"

definition prepare_hook :: "'w windows \<Rightarrow> 'w hook_os \<Rightarrow> FC_Architecture \<Rightarrow> HookSite list \<Rightarrow> Item list \<Rightarrow> Operation \<Rightarrow>
    ('w, Item list) preparing" where
  "prepare_hook os ho arch sites items operation = (case operation of
     Op_Hook location _ hook \<Rightarrow>
       then_prepare (ask (\<lambda>w plan. Inr (location_address plan location))) (\<lambda>address.
       then_prepare (pending_item os ho arch sites items address hook) (\<lambda>(items, i).
       then_prepare (ask (\<lambda>w plan. Inr (items[i := add_participant (participant plan hook) (items ! i)]))) (\<lambda>items.
       then_prepare
         (case hp_resource hook of
            Some resource \<Rightarrow> change (set_resource resource (original_call (item_site sites (items ! i))))
          | None \<Rightarrow> prepared ()) (\<lambda>_.
         prepared items))))
   | _ \<Rightarrow> prepared items)"

fun prepare_hook_list :: "'w windows \<Rightarrow> 'w hook_os \<Rightarrow> FC_Architecture \<Rightarrow> HookSite list \<Rightarrow> Item list \<Rightarrow> Operation list \<Rightarrow>
    ('w, Item list) preparing" where
  "prepare_hook_list os ho arch sites items [] = prepared items"
| "prepare_hook_list os ho arch sites items (operation # operations) =
    then_prepare (prepare_hook os ho arch sites items operation) (\<lambda>items.
      prepare_hook_list os ho arch sites items operations)"

subsection \<open>Order and state\<close>

definition ordered_values :: "Participant list \<Rightarrow> Participant list" where
  "ordered_values = sort_key (\<lambda>p. folded_id (pt_owner_id p))"

text \<open>
  The layout of the state of one invocation, participant by participant: the values laid out so far, the index of
  the modifier, the size and the alignment.
\<close>

definition note_modifier :: "Participant \<Rightarrow> Participants \<Rightarrow> Participants" where
  "note_modifier p packed =
    (if hp_modifier (pt_operation p) \<noteq> 0 then packed\<lparr>ps_modifier := Some (length (ps_values packed))\<rparr> else packed)"

definition place_state :: "nat \<Rightarrow> Participants \<Rightarrow> Participant \<Rightarrow> string + Participants" where
  "place_state greatest packed p =
    (let operation = pt_operation p; alignment = hp_state_alignment operation
     in if hp_state_size operation = 0 then Inr (packed\<lparr>ps_values := ps_values packed @ [p]\<rparr>)
        else if ps_state_size packed > greatest - (alignment - 1)
        then Inl ''Aligning the native hook's invocation state would overflow the size limit''
        else
          let offset = (ps_state_size packed + alignment - 1) div alignment * alignment
          in if hp_state_size operation > greatest - offset
             then Inl ''Adding native hook invocation state would overflow the size limit''
             else Inr (packed\<lparr>ps_values := ps_values packed @ [p\<lparr>pt_state_offset := offset\<rparr>],
                              ps_state_size := offset + hp_state_size operation,
                              ps_state_alignment := max (ps_state_alignment packed) alignment\<rparr>))"

fun pack_state :: "nat \<Rightarrow> Participants \<Rightarrow> Participant list \<Rightarrow> string + Participants" where
  "pack_state greatest packed [] = Inr packed"
| "pack_state greatest packed (p # ps) =
    take_value (place_state greatest (note_modifier p packed) p) (\<lambda>packed. pack_state greatest packed ps)"

definition finish_list :: "nat \<Rightarrow> Participants \<Rightarrow> string + Participants" where
  "finish_list greatest list = pack_state greatest (list\<lparr>ps_values := []\<rparr>) (ordered_values (ps_values list))"

text \<open>A new site has its list before a thread can enter it.\<close>

definition finish_item :: "nat \<Rightarrow> Item \<Rightarrow> string + Item" where
  "finish_item greatest item =
    take_value (finish_list greatest (it_list item)) (\<lambda>list.
      Inr (item\<lparr>it_list := list,
                it_site := map_sum id (\<lambda>site. site\<lparr>hs_current := Some list\<rparr>) (it_site item)\<rparr>))"

fun finish_items :: "nat \<Rightarrow> Item list \<Rightarrow> string + Item list" where
  "finish_items greatest [] = Inr []"
| "finish_items greatest (item # items) =
    take_value (finish_item greatest item) (\<lambda>item. take_value (finish_items greatest items) (\<lambda>items. Inr (item # items)))"

definition prepare_hooks :: "'w windows \<Rightarrow> 'w hook_os \<Rightarrow> FC_Architecture \<Rightarrow> HookSite list \<Rightarrow> ('w, Item list) preparing" where
  "prepare_hooks os ho arch sites = (\<lambda>(w, plan).
    then_prepare (prepare_hook_list os ho arch sites [] (sp_operations plan)) (\<lambda>items.
      ask (\<lambda>w plan. finish_items (address_max arch) items)) (w, plan))"

section \<open>Installation\<close>

definition mark_exposed :: "SubmittedPlan \<Rightarrow> SubmittedPlan" where
  "mark_exposed plan = plan\<lparr>sp_exposed := True\<rparr>"

text \<open>Enables a new detour; a redirected CALL is written with the threads around it trapped.\<close>

definition enable_site :: "'w windows \<Rightarrow> 'w hook_os \<Rightarrow> HookSite \<Rightarrow> 'w \<Rightarrow> ('w \<times> (NativeWriteFailure + bool)) option" where
  "enable_site os ho site w =
    (if hs_scope site = FC_HOOK_FUNCTION
     then Some (map_prod id Inr (ho_inline_enable ho (the (hs_detour site)) w))
     else if hs_scope site = FC_HOOK_INSTRUCTION
     then Some (map_prod id Inr (ho_mid_enable ho (the (hs_detour site)) w))
     else map_option (map_prod id (map_sum id (\<lambda>_. True)))
       (ho_trap_threads ho (hs_address site) (hs_original_target site) 5
         (write_native_memory os (hs_address site) (hs_installed site)) w))"

definition install_new_site :: "'w windows \<Rightarrow> 'w hook_os \<Rightarrow> HookSite \<Rightarrow> HookSite list \<times> 'w \<times> SubmittedPlan \<Rightarrow>
    ((HookSite list \<times> 'w \<times> SubmittedPlan) \<times> (NativeWriteFailure + unit)) option" where
  "install_new_site os ho site state = (case state of (sites, w, plan) \<Rightarrow>
    case enable_site os ho site w of
      None \<Rightarrow> None
    | Some (w, Inl failure) \<Rightarrow>
        (let plan = (if nw_unsafe failure then mark_exposed plan else plan)
         in Some ((sites, w, plan), Inl (failure\<lparr>nw_unsafe := nw_unsafe failure \<or> sp_exposed plan\<rparr>)))
    | Some (w, Inr enabled) \<Rightarrow>
        if \<not> enabled
        then Some ((sites, w, mark_exposed plan), Inl \<lparr>nw_message = ''Could not enable the native hook'', nw_unsafe = True\<rparr>)
        else if hs_installed site = []
        then (case read_native_memory os (hs_address site) (length (hs_original site)) w of
                Inl error \<Rightarrow> Some ((sites, w, mark_exposed plan), Inl \<lparr>nw_message = error, nw_unsafe = True\<rparr>)
              | Inr bytes \<Rightarrow> Some ((sites @ [site\<lparr>hs_installed := bytes\<rparr>], w, mark_exposed plan), Inr ()))
        else Some ((sites @ [site], w, mark_exposed plan), Inr ()))"

text \<open>The list is kept with the earlier ones, and published.\<close>

definition publish_list :: "Participants \<Rightarrow> HookSite \<Rightarrow> HookSite" where
  "publish_list list site = site\<lparr>hs_lists := hs_lists site @ [list], hs_current := Some list\<rparr>"

definition install_item :: "'w windows \<Rightarrow> 'w hook_os \<Rightarrow> Item \<Rightarrow> HookSite list \<times> 'w \<times> SubmittedPlan \<Rightarrow>
    ((HookSite list \<times> 'w \<times> SubmittedPlan) \<times> (NativeWriteFailure + unit)) option" where
  "install_item os ho item state = (case it_site item of
     Inl i \<Rightarrow>
       (case state of (sites, w, plan) \<Rightarrow>
         Some ((sites[i := publish_list (it_list item) (sites ! i)], w, mark_exposed plan), Inr ()))
   | Inr site \<Rightarrow>
       (case install_new_site os ho site state of
          None \<Rightarrow> None
        | Some (state, Inl failure) \<Rightarrow> Some (state, Inl failure)
        | Some ((sites, w, plan), Inr _) \<Rightarrow>
            Some ((sites[length sites - 1 := publish_list (it_list item) (sites ! (length sites - 1))], w, mark_exposed plan), Inr ())))"

fun install_hooks :: "'w windows \<Rightarrow> 'w hook_os \<Rightarrow> Item list \<Rightarrow> HookSite list \<times> 'w \<times> SubmittedPlan \<Rightarrow>
    ((HookSite list \<times> 'w \<times> SubmittedPlan) \<times> (NativeWriteFailure + unit)) option" where
  "install_hooks os ho [] state = Some (state, Inr ())"
| "install_hooks os ho (item # items) state =
    (case install_item os ho item state of
       None \<Rightarrow> None
     | Some (state, Inl failure) \<Rightarrow> Some (state, Inl failure)
     | Some (state, Inr _) \<Rightarrow> install_hooks os ho items state)"

end
