(* ===== verification/Native_Hook_Laws.thy ===== *)
theory Native_Hook_Laws
  imports Native_Hooks "HOL-Library.Multiset"
begin

text \<open>
  What the registry guarantees: the participants of a site in owner order with disjoint, aligned state; the program's
  own bytes behind every detour; and an installation that says whether anything may have changed.
\<close>

section \<open>Participants and their state\<close>

definition has_state :: "Participant \<Rightarrow> bool" where
  "has_state p \<longleftrightarrow> hp_state_size (pt_operation p) \<noteq> 0"

text \<open>The participant of a declaration, wherever its state lies.\<close>

definition declared :: "Participant \<Rightarrow> nat \<times> string \<times> HookParticipant" where
  "declared p = (pt_plan p, pt_owner_id p, pt_operation p)"

definition slice_ok :: "nat \<Rightarrow> Participant \<Rightarrow> bool" where
  "slice_ok alignment p \<longleftrightarrow> hp_state_alignment (pt_operation p) dvd pt_state_offset p \<and>
     hp_state_alignment (pt_operation p) dvd alignment"

abbreviation slice_end :: "Participant \<Rightarrow> nat" where
  "slice_end p \<equiv> pt_state_offset p + hp_state_size (pt_operation p)"

definition state_layout :: "Participants \<Rightarrow> bool" where
  "state_layout list \<longleftrightarrow>
     sorted_wrt (\<lambda>p q. slice_end p \<le> pt_state_offset q) (filter has_state (ps_values list)) \<and>
     list_all (\<lambda>p. slice_ok (ps_state_alignment list) p \<and> slice_end p \<le> ps_state_size list) (filter has_state (ps_values list))"

definition single_modifier :: "Participants \<Rightarrow> bool" where
  "single_modifier list \<longleftrightarrow> (case ps_modifier list of
     None \<Rightarrow> list_all (\<lambda>p. hp_modifier (pt_operation p) = 0) (ps_values list)
   | Some i \<Rightarrow> i < length (ps_values list) \<and> hp_modifier (pt_operation (ps_values list ! i)) \<noteq> 0)"

definition power_aligned :: "Participant \<Rightarrow> bool" where
  "power_aligned p \<longleftrightarrow> has_state p \<longrightarrow> (\<exists>k. hp_state_alignment (pt_operation p) = 2 ^ k)"

lemma power_dvd_max:
  assumes "a = 2 ^ i" and "b = (2::nat) ^ j"
  shows "a dvd max a b" and "b dvd max a b" and "\<exists>k. max a b = 2 ^ k"
proof -
  have le: "i \<le> j \<Longrightarrow> a \<le> b" "j \<le> i \<Longrightarrow> b \<le> a" using assms by (simp_all add: power_increasing)
  have dv: "i \<le> j \<Longrightarrow> a dvd b" "j \<le> i \<Longrightarrow> b dvd a" using assms by (simp_all add: le_imp_power_dvd)
  show "a dvd max a b" "b dvd max a b" using le dv by (cases "i \<le> j"; auto simp: max_def)+
  show "\<exists>k. max a b = 2 ^ k" using assms by (metis max_def)
qed

lemma round_up: "(0::nat) < a \<Longrightarrow> n \<le> (n + a - 1) div a * a"
proof -
  assume "0 < a"
  then have "n + a - 1 < (n + a - 1) div a * a + a" using div_mult_mod_eq [of "n + a - 1" a] mod_less_divisor [of a "n + a - 1"] by linarith
  then show "n \<le> (n + a - 1) div a * a" using \<open>0 < a\<close> by linarith
qed

text \<open>One participant is appended, with its state behind the others', or is refused.\<close>

lemma place_state_ok:
  assumes "place_state greatest packed p = Inr placed"
  obtains "\<not> has_state p" and "placed = packed\<lparr>ps_values := ps_values packed @ [p]\<rparr>"
  | offset where "has_state p" and "offset = (ps_state_size packed + hp_state_alignment (pt_operation p) - 1) div
      hp_state_alignment (pt_operation p) * hp_state_alignment (pt_operation p)"
    and "placed = packed\<lparr>ps_values := ps_values packed @ [p\<lparr>pt_state_offset := offset\<rparr>],
      ps_state_size := offset + hp_state_size (pt_operation p),
      ps_state_alignment := max (ps_state_alignment packed) (hp_state_alignment (pt_operation p))\<rparr>"
    and "offset + hp_state_size (pt_operation p) \<le> greatest"
  using assms by (auto simp: place_state_def has_state_def Let_def split: if_splits)

definition packing :: "nat \<Rightarrow> Participants \<Rightarrow> bool" where
  "packing greatest list \<longleftrightarrow> state_layout list \<and> (\<exists>k. ps_state_alignment list = 2 ^ k) \<and> ps_state_size list \<le> greatest"

lemma note_modifier_simps [simp]:
  "ps_values (note_modifier p packed) = ps_values packed"
  "ps_state_size (note_modifier p packed) = ps_state_size packed"
  "ps_state_alignment (note_modifier p packed) = ps_state_alignment packed"
  by (simp_all add: note_modifier_def)

lemma note_modifier_packing [simp]: "packing greatest (note_modifier p packed) = packing greatest packed"
  by (simp add: packing_def state_layout_def)

lemma place_state_packing:
  assumes "place_state greatest packed p = Inr placed" and "packing greatest packed" and "power_aligned p"
  shows "packing greatest placed"
  using assms(1)
proof (cases rule: place_state_ok)
  case 1
  then show ?thesis using assms(2) by (simp add: packing_def state_layout_def)
next
  case (2 offset)
  let ?a = "hp_state_alignment (pt_operation p)"
  obtain k where k: "?a = 2 ^ k" using assms(3) 2(1) by (auto simp: power_aligned_def)
  obtain j where j: "ps_state_alignment packed = 2 ^ j" using assms(2) by (auto simp: packing_def)
  note pow = power_dvd_max [OF j k]
  have "0 < ?a" using k by simp
  then have up: "ps_state_size packed \<le> offset" unfolding 2(2) by (rule round_up)
  have dvd: "?a dvd offset" unfolding 2(2) by simp
  have old: "slice_ok (ps_state_alignment packed) q \<and> slice_end q \<le> ps_state_size packed"
    if "q \<in> set (ps_values packed)" "has_state q" for q
    using assms(2) that by (auto simp: packing_def state_layout_def list_all_iff)
  have "state_layout placed"
    unfolding state_layout_def
  proof
    show "sorted_wrt (\<lambda>p q. slice_end p \<le> pt_state_offset q) (filter has_state (ps_values placed))"
      using assms(2) old up 2(1) unfolding 2(3)
      by (force simp: packing_def state_layout_def sorted_wrt_append has_state_def)
    show "list_all (\<lambda>p. slice_ok (ps_state_alignment placed) p \<and> slice_end p \<le> ps_state_size placed) (filter has_state (ps_values placed))"
      using old up pow(1,2) dvd 2(1) unfolding 2(3)
      by (force simp: list_all_iff slice_ok_def has_state_def intro: dvd_trans)
  qed
  then show ?thesis using pow(3) 2(3,4) by (simp add: packing_def)
qed

lemma pack_state_packing:
  assumes "pack_state greatest packed ps = Inr list" and "packing greatest packed" and "list_all power_aligned ps"
  shows "packing greatest list"
  using assms
proof (induction ps arbitrary: packed)
  case (Cons p ps)
  then obtain placed where "place_state greatest (note_modifier p packed) p = Inr placed" "pack_state greatest placed ps = Inr list"
    by (auto simp: take_value_ok)
  with Cons show ?case using place_state_packing [of greatest "note_modifier p packed" p placed] by auto
qed simp

lemma place_state_values:
  assumes "place_state greatest packed p = Inr placed"
  shows "map declared (ps_values placed) = map declared (ps_values packed) @ [declared p]"
  using assms by (cases rule: place_state_ok) (simp_all add: declared_def)

lemma pack_state_values:
  assumes "pack_state greatest packed ps = Inr list"
  shows "map declared (ps_values list) = map declared (ps_values packed) @ map declared ps"
  using assms
  by (induction ps arbitrary: packed) (auto simp: take_value_ok dest!: place_state_values)

lemma place_state_modifier:
  assumes "place_state greatest (note_modifier p packed) p = Inr placed" and "single_modifier packed"
  shows "single_modifier placed"
  using assms(1)
proof (cases rule: place_state_ok)
  case 1
  then show ?thesis using assms(2) by (auto simp: single_modifier_def note_modifier_def nth_append split: option.splits)
next
  case (2 offset)
  then show ?thesis using assms(2) by (auto simp: single_modifier_def note_modifier_def nth_append split: option.splits)
qed

lemma pack_state_modifier:
  assumes "pack_state greatest packed ps = Inr list" and "single_modifier packed"
  shows "single_modifier list"
  using assms by (induction ps arbitrary: packed) (auto simp: take_value_ok dest!: place_state_modifier)

text \<open>C37: The participants of a hook site are laid out as promised: the prepared list holds exactly the declarations it
  was given, those of one owner in their own order and the owners in the order of their folded ids; the state of
  each one starts at its alignment, which also divides the block's, no two share a byte and all lie within the
  block, whose size is representable; and the modifier is one that declared one, present whenever any did.
\<close>
theorem hook_list_layout:
  assumes "finish_list greatest list = Inr finished" and "list_all power_aligned (ps_values list)"
    and "ps_modifier list = None" and "ps_state_size list = 0" and "\<exists>k. ps_state_alignment list = 2 ^ k"
  shows "map declared (ps_values finished) = map declared (ordered_values (ps_values list)) \<and>
    mset (map declared (ps_values finished)) = mset (map declared (ps_values list)) \<and>
    sorted (map (\<lambda>p. folded_id (pt_owner_id p)) (ps_values finished)) \<and>
    (\<forall>owner. filter (\<lambda>(_, owner_id, _). folded_id owner_id = owner) (map declared (ps_values finished)) =
      filter (\<lambda>(_, owner_id, _). folded_id owner_id = owner) (map declared (ps_values list))) \<and>
    packing greatest finished \<and> single_modifier finished"
proof -
  let ?key = "\<lambda>p. folded_id (pt_owner_id p)"
  have run: "pack_state greatest (list\<lparr>ps_values := []\<rparr>) (ordered_values (ps_values list)) = Inr finished"
    using assms(1) by (simp add: finish_list_def)
  from pack_state_values [OF run] have declarations: "map declared (ps_values finished) = map declared (ordered_values (ps_values list))"
    by simp
  have "mset (map declared (ps_values finished)) = mset (map declared (ps_values list))"
    unfolding declarations ordered_values_def by (metis mset_map mset_sort)
  moreover have "sorted (map ?key (ps_values finished))"
  proof -
    have "map ?key ps = map (\<lambda>(_, owner_id, _). folded_id owner_id) (map declared ps)" for ps
      by (simp add: declared_def)
    then have "map ?key (ps_values finished) = map ?key (ordered_values (ps_values list))" by (metis declarations)
    then show ?thesis by (simp add: ordered_values_def)
  qed
  moreover have "filter (\<lambda>(_, owner_id, _). folded_id owner_id = owner) (map declared (ps_values finished)) =
      filter (\<lambda>(_, owner_id, _). folded_id owner_id = owner) (map declared (ps_values list))" for owner
  proof -
    have "filter (\<lambda>(_, owner_id, _). folded_id owner_id = owner) (map declared ps) = map declared (filter (\<lambda>p. ?key p = owner) ps)" for ps
      by (simp add: filter_map comp_def declared_def)
    then show ?thesis unfolding declarations ordered_values_def by (simp add: sort_key_stable)
  qed
  moreover have "packing greatest finished"
  proof (rule pack_state_packing [OF run])
    show "packing greatest (list\<lparr>ps_values := []\<rparr>)" using assms(4,5) by (simp add: packing_def state_layout_def)
    show "list_all power_aligned (ordered_values (ps_values list))" using assms(2) by (simp add: list_all_iff ordered_values_def)
  qed
  moreover have "single_modifier finished"
    by (rule pack_state_modifier [OF run]) (simp add: single_modifier_def assms(3))
  ultimately show ?thesis using declarations by blast
qed

definition sample_participant :: "string \<Rightarrow> nat \<Rightarrow> nat \<Rightarrow> nat \<Rightarrow> Participant" where
  "sample_participant owner modifier n alignment =
    \<lparr>pt_plan = 0, pt_owner_id = owner,
     pt_operation = \<lparr>hp_scope = 0, hp_context = 0, hp_modifier = modifier, hp_before = 1, hp_after = 0, hp_initialize = 1,
       hp_state_size = n, hp_state_alignment = alignment, hp_call = None, hp_original = [], hp_resource = None\<rparr>,
     pt_state_offset = 0\<rparr>"

definition sample_list :: Participants where
  "sample_list =
    \<lparr>ps_values = [sample_participant ''b'' 0 3 4, sample_participant ''A'' 0 1 1, sample_participant ''B'' 7 16 16, sample_participant ''a'' 0 0 0],
     ps_modifier = None, ps_state_size = 0, ps_state_alignment = 8\<rparr>"

text \<open>Of four participants of two owners, state at offsets 0, 4 and 16 of a block of 32 bytes.\<close>

lemma sample_order:
  "ordered_values (ps_values sample_list) =
    [sample_participant ''A'' 0 1 1, sample_participant ''a'' 0 0 0, sample_participant ''b'' 0 3 4, sample_participant ''B'' 7 16 16]"
  unfolding sample_list_def by code_simp

definition sample_finished :: Participants where
  "sample_finished =
    \<lparr>ps_values = [sample_participant ''A'' 0 1 1, sample_participant ''a'' 0 0 0,
       (sample_participant ''b'' 0 3 4)\<lparr>pt_state_offset := 4\<rparr>, (sample_participant ''B'' 7 16 16)\<lparr>pt_state_offset := 16\<rparr>],
     ps_modifier = Some 3, ps_state_size = 32, ps_state_alignment = 16\<rparr>"

lemma sample_finish: "finish_list (2 ^ 32 - 1) sample_list = Inr sample_finished"
  unfolding finish_list_def sample_order
  by (simp add: sample_list_def sample_finished_def note_modifier_def place_state_def sample_participant_def)

lemma hook_list_layout_witness:
  "finish_list (2 ^ 32 - 1) sample_list = Inr sample_finished \<and> packing (2 ^ 32 - 1) sample_finished \<and>
   single_modifier sample_finished"
proof -
  have power: "\<exists>k. 4 = (2::nat) ^ k" "\<exists>k. 1 = (2::nat) ^ k" "\<exists>k. 16 = (2::nat) ^ k" "\<exists>k. 8 = (2::nat) ^ k"
    by (rule exI [of _ 2], simp, rule exI [of _ 0], simp, rule exI [of _ 4], simp, rule exI [of _ 3], simp)
  then have "list_all power_aligned (ps_values sample_list)"
    by (simp add: sample_list_def sample_participant_def power_aligned_def has_state_def)
  moreover have "ps_modifier sample_list = None" "ps_state_size sample_list = 0" "\<exists>k. ps_state_alignment sample_list = 2 ^ k"
    using power(4) by (simp_all add: sample_list_def)
  ultimately show ?thesis using hook_list_layout [OF sample_finish] sample_finish by blast
qed

end
