(* ===== verification/Native_Install.thy ===== *)
theory Native_Install
  imports Native_Hook_Laws
begin

text \<open>
  Installation as a whole: a registry of hooks is an interface of the plan, the modelled registry provides it, and
  the detours it installs stay hidden from the plans that read the program.
\<close>

section \<open>Writing the plan\<close>

definition store_bytes :: "nat \<Rightarrow> byte list \<Rightarrow> (nat \<Rightarrow> byte) \<Rightarrow> nat \<Rightarrow> byte" where
  "store_bytes a bytes m x = (if a \<le> x \<and> x < a + length bytes then bytes ! (x - a) else m x)"

definition stored_writes :: "PreparedWrite list \<Rightarrow> (nat \<Rightarrow> byte) \<Rightarrow> nat \<Rightarrow> byte" where
  "stored_writes ws m = fold (\<lambda>w. store_bytes (pw_address w) (pw_bytes w)) ws m"

lemma native_write_cases:
  assumes "windows_laws page memory protection os"
  obtains w' failure where "write_native_memory os address bytes w = Some (w', Inl failure)"
      and "nw_unsafe failure \<or> (memory w' = memory w \<and> protection w' = protection w)"
  | w' where "write_native_memory os address bytes w = Some (w', Inr ())" and "protection w' = protection w"
      and "memory w' = store_bytes address bytes (memory w)"
proof -
  obtain w' result where run: "write_native_memory os address bytes w = Some (w', result)"
    and "case result of
       Inl failure \<Rightarrow> nw_unsafe failure \<or> (memory w' = memory w \<and> protection w' = protection w)
     | Inr _ \<Rightarrow> protection w' = protection w \<and>
         memory w' = (\<lambda>x. if address \<le> x \<and> x < address + length bytes then bytes ! (x - address) else memory w x)"
    using native_write_result [OF assms] by blast
  then show ?thesis using that by (cases result) (auto simp: store_bytes_def fun_eq_iff)
qed

lemma install_writes_result:
  assumes "windows_laws page memory protection os"
  shows "\<exists>w' plan' result. install_writes os plan ws w = Some ((w', plan'), result) \<and>
    (plan' = plan \<or> plan' = plan\<lparr>sp_exposed := True\<rparr>) \<and>
    (case result of
       Inl failure \<Rightarrow> nw_unsafe failure = sp_exposed plan' \<and>
         (sp_exposed plan' \<or> (memory w' = memory w \<and> protection w' = protection w))
     | Inr _ \<Rightarrow> sp_exposed plan' = (sp_exposed plan \<or> ws \<noteq> []) \<and> memory w' = stored_writes ws (memory w) \<and>
         protection w' = protection w)"
proof (induction ws arbitrary: plan w)
  case Nil
  then show ?case by (simp add: stored_writes_def)
next
  case (Cons wr ws)
  show ?case
  proof (rule native_write_cases [OF assms, of "pw_address wr" "pw_bytes wr" w])
    fix u failure
    assume "write_native_memory os (pw_address wr) (pw_bytes wr) w = Some (u, Inl failure)"
      and "nw_unsafe failure \<or> (memory u = memory w \<and> protection u = protection w)"
    then show ?thesis by (auto simp: Let_def)
  next
    fix u
    assume first: "write_native_memory os (pw_address wr) (pw_bytes wr) w = Some (u, Inr ())" "protection u = protection w"
      "memory u = store_bytes (pw_address wr) (pw_bytes wr) (memory w)"
    obtain w' plan' result where rest: "install_writes os (plan\<lparr>sp_exposed := True\<rparr>) ws u = Some ((w', plan'), result)"
      "plan' = plan\<lparr>sp_exposed := True\<rparr>"
      and cases: "case result of Inl failure \<Rightarrow> nw_unsafe failure = sp_exposed plan' \<and>
           (sp_exposed plan' \<or> (memory w' = memory u \<and> protection w' = protection u))
         | Inr _ \<Rightarrow> sp_exposed plan' = (sp_exposed (plan\<lparr>sp_exposed := True\<rparr>) \<or> ws \<noteq> []) \<and>
           memory w' = stored_writes ws (memory u) \<and> protection w' = protection u"
      using Cons.IH [of "plan\<lparr>sp_exposed := True\<rparr>" u] by (elim exE conjE disjE) simp_all
    then show ?thesis using first by (cases result) (auto simp: stored_writes_def)
  qed
qed

section \<open>A registry that installs hooks\<close>

text \<open>SafetyHook runs the given write while it traps the threads around the site.\<close>

definition trap_law :: "'w hook_os \<Rightarrow> bool" where
  "trap_law ho \<longleftrightarrow> (\<forall>from to n run w. ho_trap_threads ho from to n run w = run w)"

text \<open>
  What a plan's installation relies on: the registry ends, it marks the plan exposed exactly when its failure is
  unsafe, and until it has marked the plan it has changed nothing.
\<close>

locale hook_installer =
  fixes installer :: "'w windows \<Rightarrow> 'w hook_os \<Rightarrow> 'r \<Rightarrow> 'w \<Rightarrow> SubmittedPlan \<Rightarrow>
      (('r \<times> 'w \<times> SubmittedPlan) \<times> (NativeWriteFailure + unit)) option"
  assumes installer_ends: "windows_laws page memory protection os \<Longrightarrow> trap_law ho \<Longrightarrow> installer os ho r w plan \<noteq> None"
    and failure_exposes: "windows_laws page memory protection os \<Longrightarrow> trap_law ho \<Longrightarrow>
      installer os ho r w plan = Some ((r', w', plan'), Inl failure) \<Longrightarrow> nw_unsafe failure = sp_exposed plan'"
    and unexposed_unchanged: "windows_laws page memory protection os \<Longrightarrow> trap_law ho \<Longrightarrow>
      installer os ho r w plan = Some ((r', w', plan'), result) \<Longrightarrow> \<not> sp_exposed plan' \<Longrightarrow>
      r' = r \<and> memory w' = memory w \<and> protection w' = protection w"
    and exposure_stays: "windows_laws page memory protection os \<Longrightarrow> trap_law ho \<Longrightarrow>
      installer os ho r w plan = Some ((r', w', plan'), result) \<Longrightarrow> sp_exposed plan \<Longrightarrow> sp_exposed plan'"
begin

lemma plan_install:
  assumes laws: "windows_laws page memory protection os" "trap_law ho" and "\<not> sp_exposed plan"
  shows "\<exists>r' w' plan' result. install os env (Some (installer os ho)) (r, w, plan) = Some ((r', w', plan'), result) \<and>
    (case result of
       Inl failure \<Rightarrow> nw_unsafe failure = sp_exposed plan' \<and>
         (nw_unsafe failure \<or> (r' = r \<and> memory w' = memory w \<and> protection w' = protection w))
     | Inr _ \<Rightarrow> sp_exposed plan')"
proof (cases "list_ex (\<lambda>img. pi_mapped img \<noteq> []) (sp_images plan) \<or> (\<exists>error. revalidate (env w) plan = Inl error)")
  case True
  then show ?thesis using assms(3) by (auto simp: install_def)
next
  case False
  then obtain u where ok: "revalidate (env w) plan = Inr u" "\<not> list_ex (\<lambda>img. pi_mapped img \<noteq> []) (sp_images plan)"
    by (cases "revalidate (env w) plan") auto
  obtain w1 plan1 result where writes: "install_writes os plan (sp_writes plan) w = Some ((w1, plan1), result)"
    and r: "case result of
       Inl failure \<Rightarrow> nw_unsafe failure = sp_exposed plan1 \<and>
         (sp_exposed plan1 \<or> (memory w1 = memory w \<and> protection w1 = protection w))
     | Inr _ \<Rightarrow> sp_exposed plan1 = (sp_exposed plan \<or> sp_writes plan \<noteq> []) \<and> memory w1 = stored_writes (sp_writes plan) (memory w) \<and>
         protection w1 = protection w"
    using install_writes_result [OF laws(1)] by blast
  show ?thesis
  proof (cases result)
    case (Inl failure)
    then show ?thesis using ok writes r by (auto simp: install_def)
  next
    case (Inr v)
    have unwritten: "memory w1 = memory w \<and> protection w1 = protection w" if "\<not> sp_exposed plan1"
      using that r Inr assms(3) by (simp add: stored_writes_def)
    obtain r2 w2 plan2 outcome where hooks: "installer os ho r w1 plan1 = Some ((r2, w2, plan2), outcome)"
      using installer_ends [OF laws, of r w1 plan1] by (cases "installer os ho r w1 plan1") auto
    note stays = exposure_stays [OF laws hooks] and quiet = unexposed_unchanged [OF laws hooks]
    show ?thesis
    proof (cases outcome)
      case failed: (Inl failure)
      have unsafe: "nw_unsafe failure = sp_exposed plan2" using failure_exposes [OF laws] hooks failed by blast
      have "nw_unsafe failure \<or> (r2 = r \<and> memory w2 = memory w \<and> protection w2 = protection w)"
        using unsafe stays quiet unwritten by metis
      then show ?thesis using ok writes Inr hooks failed unsafe by (simp add: install_def)
    next
      case (Inr v)
      then show ?thesis using ok writes \<open>result = _\<close> hooks by (simp add: install_def)
    qed
  qed
qed

end

subsection \<open>The modelled registry\<close>

definition install_registry :: "Item list \<Rightarrow> 'w windows \<Rightarrow> 'w hook_os \<Rightarrow> HookSite list \<Rightarrow> 'w \<Rightarrow> SubmittedPlan \<Rightarrow>
    ((HookSite list \<times> 'w \<times> SubmittedPlan) \<times> (NativeWriteFailure + unit)) option" where
  "install_registry items os ho sites w plan = install_hooks os ho items (sites, w, plan)"

lemma mark_exposed_simps [simp]: "sp_exposed (mark_exposed plan)"
  by (simp add: mark_exposed_def)

text \<open>One item: it ends, exposes the plan with its first change, and says so.\<close>

lemma install_item_result:
  assumes "windows_laws page memory protection os" and "trap_law ho"
  shows "\<exists>sites' w' plan' result. install_item os ho item (sites, w, plan) = Some ((sites', w', plan'), result) \<and>
    (sp_exposed plan \<longrightarrow> sp_exposed plan') \<and>
    (sp_exposed plan' \<or> (sites' = sites \<and> memory w' = memory w \<and> protection w' = protection w)) \<and>
    (case result of Inl failure \<Rightarrow> nw_unsafe failure = sp_exposed plan' | Inr _ \<Rightarrow> sp_exposed plan')"
proof (cases "it_site item")
  case (Inl i)
  then show ?thesis by (simp add: install_item_def)
next
  case (Inr site)
  show ?thesis
  proof (cases "hs_scope site = FC_HOOK_FUNCTION \<or> hs_scope site = FC_HOOK_INSTRUCTION")
    case True
    then obtain u enabled where "enable_site os ho site w = Some (u, Inr enabled)"
      by (cases "ho_inline_enable ho (the (hs_detour site)) w"; cases "ho_mid_enable ho (the (hs_detour site)) w")
        (auto simp: enable_site_def)
    then show ?thesis using Inr by (auto simp: install_item_def install_new_site_def split: sum.split)
  next
    case False
    then have run: "enable_site os ho site w =
        map_option (map_prod id (map_sum id (\<lambda>_. True))) (write_native_memory os (hs_address site) (hs_installed site) w)"
      using assms(2) by (simp add: enable_site_def trap_law_def)
    show ?thesis
    proof (rule native_write_cases [OF assms(1), of "hs_address site" "hs_installed site" w])
      fix u failure
      assume "write_native_memory os (hs_address site) (hs_installed site) w = Some (u, Inl failure)"
        and "nw_unsafe failure \<or> (memory u = memory w \<and> protection u = protection w)"
      then show ?thesis using Inr run by (auto simp: install_item_def install_new_site_def Let_def)
    next
      fix u
      assume "write_native_memory os (hs_address site) (hs_installed site) w = Some (u, Inr ())"
      then show ?thesis using Inr run by (auto simp: install_item_def install_new_site_def split: sum.split)
    qed
  qed
qed

lemma install_hooks_result:
  assumes "windows_laws page memory protection os" and "trap_law ho"
  shows "\<exists>sites' w' plan' result. install_hooks os ho items (sites, w, plan) = Some ((sites', w', plan'), result) \<and>
    (sp_exposed plan \<longrightarrow> sp_exposed plan') \<and>
    (sp_exposed plan' \<or> (sites' = sites \<and> memory w' = memory w \<and> protection w' = protection w)) \<and>
    (case result of Inl failure \<Rightarrow> nw_unsafe failure = sp_exposed plan' | Inr _ \<Rightarrow> True)"
proof (induction items arbitrary: sites w plan)
  case (Cons item items)
  obtain s u p result where first: "install_item os ho item (sites, w, plan) = Some ((s, u, p), result)"
    "sp_exposed plan \<longrightarrow> sp_exposed p" "sp_exposed p \<or> (s = sites \<and> memory u = memory w \<and> protection u = protection w)"
    "case result of Inl failure \<Rightarrow> nw_unsafe failure = sp_exposed p | Inr _ \<Rightarrow> sp_exposed p"
    using install_item_result [OF assms, of item sites w plan] by blast
  then show ?case using Cons.IH [of s u p] by (cases result) auto
qed simp

interpretation registry: hook_installer "install_registry items" for items
proof
  fix page :: nat and memory :: "'w \<Rightarrow> nat \<Rightarrow> byte" and protection os ho r w plan r' w' plan'
  assume laws: "windows_laws page memory protection os" "trap_law (ho :: 'w hook_os)"
  note result = install_hooks_result [OF laws, of items r w plan, folded install_registry_def]
  show "install_registry items os ho r w plan \<noteq> None" using result by auto
  show "nw_unsafe failure = sp_exposed plan'"
    if "install_registry items os ho r w plan = Some ((r', w', plan'), Inl failure)" for failure
    using result that by auto
  show "r' = r \<and> memory w' = memory w \<and> protection w' = protection w"
    if "install_registry items os ho r w plan = Some ((r', w', plan'), result)" "\<not> sp_exposed plan'" for result
    using result that by auto
  show "sp_exposed plan'"
    if "install_registry items os ho r w plan = Some ((r', w', plan'), result)" "sp_exposed plan" for result
    using result that by auto
qed

text \<open>C8: Installing a plan with its hooks ends, and tells the truth about exposure. A plan that was not exposed before is
  either installed, and then exposed; or refused with a failure that is marked unsafe exactly when the plan is now
  exposed, and a failure that is not unsafe has changed no byte, no protection and no hook site, however many
  writes and hooks the plan had.
\<close>
theorem install_outcome:
  assumes "windows_laws page memory protection os" and "trap_law ho" and "\<not> sp_exposed plan"
  shows "\<exists>sites' w' plan' result.
    install os env (Some (install_registry items os ho)) (sites, w, plan) = Some ((sites', w', plan'), result) \<and>
    (case result of
       Inl failure \<Rightarrow> nw_unsafe failure = sp_exposed plan' \<and>
         (nw_unsafe failure \<or> (sites' = sites \<and> memory w' = memory w \<and> protection w' = protection w))
     | Inr _ \<Rightarrow> sp_exposed plan')"
  by (rule registry.plan_install [OF assms])

definition sample_hook_os :: "((nat \<Rightarrow> byte) \<times> (nat \<Rightarrow> nat)) hook_os" where
  "sample_hook_os =
    \<lparr>ho_max_align = 8, ho_entry = (\<lambda>call address instruction w. (w, Inr 0x500000)), ho_invoker = (\<lambda>call w. (w, Inr 0x600000)),
     ho_inline_create = (\<lambda>address entry w. (w, Some (address, 0x700000))), ho_mid_create = (\<lambda>address entry w. (w, Some address)),
     ho_inline_enable = (\<lambda>detour w. ((store_bytes detour [0xe9, 1, 2, 3, 4] (fst w), snd w), True)),
     ho_mid_enable = (\<lambda>detour w. ((store_bytes detour [0xe9, 5, 6, 7, 8] (fst w), snd w), True)),
     ho_trap_threads = (\<lambda>from to n run w. run w)\<rparr>"

lemma sample_trap_law: "trap_law sample_hook_os"
  by (simp add: trap_law_def sample_hook_os_def)

definition sample_call_site :: HookSite where
  "sample_call_site =
    \<lparr>hs_address = 0x400100, hs_original_target = 0x400200, hs_scope = FC_HOOK_CALL, hs_call = None,
     hs_original = [0, 0, 0, 0, 0], hs_installed = [0xe8, 1, 0, 0, 0], hs_entry = 0x500000, hs_invoker = 0x600000,
     hs_relay = None, hs_current = Some sample_finished, hs_lists = [], hs_detour = None\<rparr>"

definition sample_items :: "Item list" where
  "sample_items = [\<lparr>it_site = Inr sample_call_site, it_list = sample_finished\<rparr>]"

lemma install_outcome_witness:
  "\<exists>sites' w' plan' result.
    install sample_windows (\<lambda>w. sample_env) (Some (install_registry sample_items sample_windows sample_hook_os))
      ([], (\<lambda>x. 0, \<lambda>p. PAGE_EXECUTE_READ), sample_submitted 0) = Some ((sites', w', plan'), result) \<and>
    (case result of
       Inl failure \<Rightarrow> nw_unsafe failure = sp_exposed plan' \<and>
         (nw_unsafe failure \<or> (sites' = [] \<and> fst w' = (\<lambda>x. 0) \<and> (\<lambda>x. snd w' (x div 4096)) = (\<lambda>x. PAGE_EXECUTE_READ)))
     | Inr _ \<Rightarrow> sp_exposed plan')"
proof -
  have "\<not> sp_exposed (sample_submitted 0)" by (simp add: sample_submitted_value new_plan_def)
  from install_outcome [OF sample_windows_laws sample_trap_law this,
      of "\<lambda>w. sample_env" sample_items "[]" "(\<lambda>x. 0, \<lambda>p. PAGE_EXECUTE_READ)"]
  show ?thesis unfolding fst_conv snd_conv .
qed

section \<open>What the plans see\<close>

text \<open>The program as a plan sees it: the original bytes where a detour lies, and the memory elsewhere.\<close>

fun shown :: "HookSite list \<Rightarrow> (nat \<Rightarrow> byte) \<Rightarrow> nat \<Rightarrow> byte" where
  "shown [] m x = m x"
| "shown (site # sites) m x =
    (if hs_address site \<le> x \<and> x < hs_address site + length (hs_original site)
     then hs_original site ! (x - hs_address site) else shown sites m x)"

definition site_range :: "HookSite \<Rightarrow> nat \<times> nat" where
  "site_range site = (hs_address site, length (hs_original site))"

definition bytes_at :: "(nat \<Rightarrow> byte) \<Rightarrow> nat \<Rightarrow> nat \<Rightarrow> byte list" where
  "bytes_at m a n = map m [a..<a + n]"

text \<open>The sites of a registry are apart, and each one's live bytes are those it installed.\<close>

definition sites_ok :: "(nat \<Rightarrow> byte) \<Rightarrow> HookSite list \<Rightarrow> bool" where
  "sites_ok m sites \<longleftrightarrow> sorted_wrt apart (map site_range sites) \<and>
     (\<forall>site \<in> set sites. bytes_at m (hs_address site) (length (hs_original site)) = hs_installed site)"

definition in_range :: "nat \<times> nat \<Rightarrow> nat \<Rightarrow> bool" where
  "in_range r x \<longleftrightarrow> fst r \<le> x \<and> x < fst r + snd r"

lemma bytes_at_nth: "i < n \<Longrightarrow> bytes_at m a n ! i = m (a + i)"
  by (simp add: bytes_at_def)

lemma length_bytes_at [simp]: "length (bytes_at m a n) = n"
  by (simp add: bytes_at_def)

lemma bytes_at_store: "bytes_at (store_bytes a bytes m) a (length bytes) = bytes"
  by (rule nth_equalityI) (simp_all add: bytes_at_nth store_bytes_def)

lemma apart_in_range: "apart r s \<Longrightarrow> in_range r x \<Longrightarrow> \<not> in_range s x"
  by (auto simp: apart_def in_range_def)

lemma shown_outside: "list_all (\<lambda>site. \<not> in_range (site_range site) x) sites \<Longrightarrow> shown sites m x = m x"
  by (induction sites) (auto simp: in_range_def site_range_def)

lemma shown_inside: "\<not> list_all (\<lambda>site. \<not> in_range (site_range site) x) sites \<Longrightarrow> shown sites m x = shown sites m' x"
  by (induction sites) (auto simp: in_range_def site_range_def)

lemma shown_append:
  "shown (sites @ [site]) m x =
    (if list_all (\<lambda>s. \<not> in_range (site_range s) x) sites
     then if in_range (site_range site) x then hs_original site ! (x - hs_address site) else m x
     else shown sites m x)"
  by (induction sites) (auto simp: in_range_def site_range_def)

text \<open>A new detour is hidden when it keeps to its range and its original bytes are what the plans saw there.\<close>

lemma new_site_hidden:
  assumes ok: "sites_ok m sites" and apart: "\<forall>s \<in> set sites. apart (site_range s) (site_range site)"
    and original: "bytes_at (shown sites m) (hs_address site) (length (hs_original site)) = hs_original site"
    and outside: "\<And>x. \<not> in_range (site_range site) x \<Longrightarrow> m' x = m x"
    and installed: "bytes_at m' (hs_address site) (length (hs_original site)) = hs_installed site"
  shows "sites_ok m' (sites @ [site]) \<and> shown (sites @ [site]) m' = shown sites m"
proof
  have "bytes_at m' (hs_address s) (length (hs_original s)) = bytes_at m (hs_address s) (length (hs_original s))" if "s \<in> set sites" for s
  proof -
    have "m' x = m x" if "x \<in> set [hs_address s..<hs_address s + length (hs_original s)]" for x
      using apart_in_range [of "site_range s" "site_range site" x] apart \<open>s \<in> set sites\<close> that outside
      by (auto simp: in_range_def site_range_def)
    then show ?thesis by (simp add: bytes_at_def)
  qed
  then show "sites_ok m' (sites @ [site])"
    using ok apart installed by (auto simp: sites_ok_def sorted_wrt_append)
  show "shown (sites @ [site]) m' = shown sites m"
  proof
    fix x
    show "shown (sites @ [site]) m' x = shown sites m x"
    proof (cases "list_all (\<lambda>s. \<not> in_range (site_range s) x) sites")
      case True
      show ?thesis
      proof (cases "in_range (site_range site) x")
        case inside: True
        then have "x - hs_address site < length (hs_original site)" "hs_address site + (x - hs_address site) = x"
          by (auto simp: in_range_def site_range_def)
        then have "hs_original site ! (x - hs_address site) = shown sites m x"
          using arg_cong [OF original, of "\<lambda>bs. bs ! (x - hs_address site)"] by (simp add: bytes_at_nth)
        then show ?thesis using True inside by (simp add: shown_append)
      next
        case False
        then show ?thesis using True outside shown_outside by (simp add: shown_append)
      qed
    next
      case False
      then show ?thesis using shown_inside [of x sites] by (simp add: shown_append)
    qed
  qed
qed

text \<open>
  Reads give the memory, and the detours SafetyHook enables keep to the ranges they were created for; the items are
  those the registry prepares.
\<close>

definition read_law :: "('w \<Rightarrow> nat \<Rightarrow> byte) \<Rightarrow> 'w windows \<Rightarrow> bool" where
  "read_law memory os \<longleftrightarrow> (\<forall>a n w bytes. read_process_memory os a n w = Inr bytes \<longrightarrow> bytes = bytes_at (memory w) a (length bytes))"

definition detour_law :: "('w \<Rightarrow> nat \<Rightarrow> byte) \<Rightarrow> (nat \<Rightarrow> nat \<times> nat) \<Rightarrow> 'w hook_os \<Rightarrow> bool" where
  "detour_law memory detours ho \<longleftrightarrow>
    (\<forall>d w w' x. (ho_inline_enable ho d w = (w', True) \<or> ho_mid_enable ho d w = (w', True)) \<and> \<not> in_range (detours d) x \<longrightarrow>
       memory w' x = memory w x)"

fun new_sites :: "Item list \<Rightarrow> HookSite list" where
  "new_sites [] = []"
| "new_sites (item # items) = (case it_site item of Inl _ \<Rightarrow> new_sites items | Inr site \<Rightarrow> site # new_sites items)"

definition site_prepared :: "(nat \<Rightarrow> nat \<times> nat) \<Rightarrow> (nat \<Rightarrow> byte) \<Rightarrow> HookSite \<Rightarrow> bool" where
  "site_prepared detours seen site \<longleftrightarrow>
    bytes_at seen (hs_address site) (length (hs_original site)) = hs_original site \<and>
    (if hs_scope site = FC_HOOK_FUNCTION \<or> hs_scope site = FC_HOOK_INSTRUCTION
     then hs_installed site = [] \<and> detours (the (hs_detour site)) = site_range site
     else hs_installed site \<noteq> [] \<and> length (hs_installed site) = length (hs_original site))"

lemma site_range_update [simp]:
  "site_range (site\<lparr>hs_installed := bytes\<rparr>) = site_range site" "site_range (publish_list list site) = site_range site"
  by (simp_all add: site_range_def publish_list_def)

lemma publish_list_simps [simp]:
  "hs_address (publish_list list site) = hs_address site" "hs_original (publish_list list site) = hs_original site"
  "hs_installed (publish_list list site) = hs_installed site"
  by (simp_all add: publish_list_def)

text \<open>Publishing a list changes nothing that a plan sees.\<close>

lemma shown_publish: "i < length sites \<Longrightarrow> shown (sites[i := publish_list list (sites ! i)]) m x = shown sites m x"
  by (induction sites arbitrary: i) (auto split: nat.split)

lemma site_ranges_publish [simp]: "map site_range (sites[i := publish_list list (sites ! i)]) = map site_range sites"
  by (cases "i < length sites") (simp_all add: map_update list_update_same_conv list_update_beyond)

lemma sites_ok_publish: "i < length sites \<Longrightarrow> sites_ok m (sites[i := publish_list list (sites ! i)]) = sites_ok m sites"
proof -
  assume i: "i < length sites"
  have "map site_range (sites[i := publish_list list (sites ! i)]) = map site_range sites"
    by simp
  moreover have "(\<forall>site \<in> set (sites[i := publish_list list (sites ! i)]). P site) = (\<forall>site \<in> set sites. P site)"
    if "\<And>site. P (publish_list list site) = P site" for P
  proof -
    have "map P (sites[i := publish_list list (sites ! i)]) = map P sites"
      using i that by (simp add: map_update list_update_same_conv)
    then have "P ` set (sites[i := publish_list list (sites ! i)]) = P ` set sites" by (metis list.set_map)
    then show ?thesis by auto
  qed
  ultimately show ?thesis by (simp add: sites_ok_def)
qed

text \<open>The new site of an item, once it is installed.\<close>

lemma install_new_site_ok:
  assumes laws: "windows_laws page memory protection os" "trap_law ho" "read_law memory os" "detour_law memory detours ho"
    and ready: "site_prepared detours seen site"
    and run: "install_new_site os ho site (sites, w, plan) = Some ((sites', w', plan'), Inr ())"
  obtains bytes where "sites' = sites @ [site\<lparr>hs_installed := bytes\<rparr>]"
    and "bytes_at (memory w') (hs_address site) (length (hs_original site)) = bytes"
    and "\<And>x. \<not> in_range (site_range site) x \<Longrightarrow> memory w' x = memory w x"
proof (cases "hs_scope site = FC_HOOK_FUNCTION \<or> hs_scope site = FC_HOOK_INSTRUCTION")
  case True
  then have empty: "hs_installed site = []" and detours: "detours (the (hs_detour site)) = site_range site"
    using ready by (simp_all add: site_prepared_def)
  have "\<exists>u. (ho_inline_enable ho (the (hs_detour site)) w = (u, True) \<or> ho_mid_enable ho (the (hs_detour site)) w = (u, True)) \<and>
      (\<exists>bytes. read_native_memory os (hs_address site) (length (hs_original site)) u = Inr bytes \<and>
        sites' = sites @ [site\<lparr>hs_installed := bytes\<rparr>] \<and> w' = u)"
    using run True empty
    by (cases "ho_inline_enable ho (the (hs_detour site)) w"; cases "ho_mid_enable ho (the (hs_detour site)) w")
      (auto simp: install_new_site_def enable_site_def split: if_splits sum.splits)
  then obtain bytes where enabled: "ho_inline_enable ho (the (hs_detour site)) w = (w', True) \<or> ho_mid_enable ho (the (hs_detour site)) w = (w', True)"
    and seen: "read_native_memory os (hs_address site) (length (hs_original site)) w' = Inr bytes"
    and sites': "sites' = sites @ [site\<lparr>hs_installed := bytes\<rparr>]" by blast
  have "read_process_memory os (hs_address site) (length (hs_original site)) w' = Inr bytes \<and> length bytes = length (hs_original site)"
    using seen by (auto simp: read_native_memory_def split: if_splits sum.splits)
  then have "bytes = bytes_at (memory w') (hs_address site) (length (hs_original site))"
    using laws(3) unfolding read_law_def by metis
  moreover have "memory w' x = memory w x" if "\<not> in_range (site_range site) x" for x
    using laws(4) enabled that detours unfolding detour_law_def by metis
  ultimately show ?thesis using that sites' by metis
next
  case False
  then have some: "hs_installed site \<noteq> []" "length (hs_installed site) = length (hs_original site)"
    using ready by (simp_all add: site_prepared_def)
  have enable: "enable_site os ho site w =
      map_option (map_prod id (map_sum id (\<lambda>_. True))) (write_native_memory os (hs_address site) (hs_installed site) w)"
    using False laws(2) by (simp add: enable_site_def trap_law_def)
  show ?thesis
  proof (rule native_write_cases [OF laws(1), of "hs_address site" "hs_installed site" w])
    fix u failure
    assume "write_native_memory os (hs_address site) (hs_installed site) w = Some (u, Inl failure)"
    then show ?thesis using run enable by (simp add: install_new_site_def Let_def split: if_splits)
  next
    fix u
    assume "write_native_memory os (hs_address site) (hs_installed site) w = Some (u, Inr ())"
      and m: "memory u = store_bytes (hs_address site) (hs_installed site) (memory w)"
    then have "sites' = sites @ [site]" "w' = u" using run enable some by (simp_all add: install_new_site_def)
    moreover have "bytes_at (memory u) (hs_address site) (length (hs_original site)) = hs_installed site"
      unfolding m some(2) [symmetric] by (rule bytes_at_store)
    moreover have "memory u x = memory w x" if "\<not> in_range (site_range site) x" for x
      using that some(2) by (auto simp: m store_bytes_def in_range_def site_range_def)
    ultimately show ?thesis using that [of "hs_installed site"] by simp
  qed
qed

lemma install_item_hidden:
  assumes laws: "windows_laws page memory protection os" "trap_law ho" "read_law memory os" "detour_law memory detours ho"
    and ok: "sites_ok (memory w) sites"
    and item: "case it_site item of Inl i \<Rightarrow> i < length sites
      | Inr site \<Rightarrow> (\<forall>s \<in> set sites. apart (site_range s) (site_range site)) \<and> site_prepared detours (shown sites (memory w)) site"
    and run: "install_item os ho item (sites, w, plan) = Some ((sites', w', plan'), Inr ())"
  shows "sites_ok (memory w') sites' \<and> shown sites' (memory w') = shown sites (memory w) \<and>
    map site_range sites' = map site_range sites @ map site_range (new_sites [item])"
proof (cases "it_site item")
  case (Inl i)
  then have "sites' = sites[i := publish_list (it_list item) (sites ! i)]" "w' = w" "i < length sites"
    using run item by (simp_all add: install_item_def)
  then show ?thesis using ok Inl sites_ok_publish shown_publish by auto
next
  case (Inr site)
  then obtain u sites1 plan1 where new: "install_new_site os ho site (sites, w, plan) = Some ((sites1, u, plan1), Inr ())"
    and sites': "sites' = sites1[length sites1 - 1 := publish_list (it_list item) (sites1 ! (length sites1 - 1))]" and w': "w' = u"
    using run by (auto simp: install_item_def split: option.splits sum.splits prod.splits)
  from item Inr have site: "\<forall>s \<in> set sites. apart (site_range s) (site_range site)" "site_prepared detours (shown sites (memory w)) site"
    by simp_all
  obtain bytes where b: "sites1 = sites @ [site\<lparr>hs_installed := bytes\<rparr>]"
    "bytes_at (memory u) (hs_address site) (length (hs_original site)) = bytes"
    "\<And>x. \<not> in_range (site_range site) x \<Longrightarrow> memory u x = memory w x"
    using install_new_site_ok [OF laws site(2) new] by blast
  have "sites_ok (memory u) (sites @ [site\<lparr>hs_installed := bytes\<rparr>]) \<and>
      shown (sites @ [site\<lparr>hs_installed := bytes\<rparr>]) (memory u) = shown sites (memory w)"
    by (rule new_site_hidden [OF ok]) (use site b in \<open>simp_all add: site_prepared_def\<close>)
  then show ?thesis
    using sites_ok_publish [of "length sites" "sites @ [site\<lparr>hs_installed := bytes\<rparr>]"]
      shown_publish [of "length sites" "sites @ [site\<lparr>hs_installed := bytes\<rparr>]"]
    unfolding sites' w' b(1) by (auto simp: fun_eq_iff Inr)
qed

lemma install_hooks_hidden:
  assumes laws: "windows_laws page memory protection os" "trap_law ho" "read_law memory os" "detour_law memory detours ho"
    and "sites_ok (memory w) sites" and "sorted_wrt apart (map site_range (sites @ new_sites items))"
    and "list_all (site_prepared detours (shown sites (memory w))) (new_sites items)"
    and "list_all (\<lambda>item. case it_site item of Inl i \<Rightarrow> i < length sites | Inr _ \<Rightarrow> True) items"
    and "install_hooks os ho items (sites, w, plan) = Some ((sites', w', plan'), Inr ())"
  shows "sites_ok (memory w') sites' \<and> shown sites' (memory w') = shown sites (memory w)"
  using assms(5-9)
proof (induction items arbitrary: sites w plan)
  case (Cons item items)
  obtain sites1 u plan1 where first: "install_item os ho item (sites, w, plan) = Some ((sites1, u, plan1), Inr ())"
    and rest: "install_hooks os ho items (sites1, u, plan1) = Some ((sites', w', plan'), Inr ())"
    using Cons.prems(5) by (auto split: option.splits sum.splits prod.splits)
  have "case it_site item of Inl i \<Rightarrow> i < length sites
      | Inr site \<Rightarrow> (\<forall>s \<in> set sites. apart (site_range s) (site_range site)) \<and> site_prepared detours (shown sites (memory w)) site"
    using Cons.prems(2-4) by (auto simp: sorted_wrt_append split: sum.splits)
  from install_item_hidden [OF laws Cons.prems(1) this first]
  have step: "sites_ok (memory u) sites1" "shown sites1 (memory u) = shown sites (memory w)"
    "map site_range sites1 = map site_range sites @ map site_range (new_sites [item])" by blast+
  have longer: "length sites \<le> length sites1" using arg_cong [OF step(3), of length] by simp
  have "sites_ok (memory w') sites' \<and> shown sites' (memory w') = shown sites1 (memory u)"
  proof (rule Cons.IH [OF step(1) _ _ _ rest])
    show "sorted_wrt apart (map site_range (sites1 @ new_sites items))"
      using Cons.prems(2) step(3) by (cases "it_site item") simp_all
    show "list_all (site_prepared detours (shown sites1 (memory u))) (new_sites items)"
      using Cons.prems(3) unfolding step(2) by (cases "it_site item") simp_all
    show "list_all (\<lambda>item. case it_site item of Inl i \<Rightarrow> i < length sites1 | Inr _ \<Rightarrow> True) items"
      using Cons.prems(4) longer by (auto simp: list_all_iff split: sum.splits)
  qed
  then show ?case using step(2) by simp
qed simp

text \<open>The registry's view of a range is the program as shown.\<close>

lemma overwrite_nth:
  assumes "offset + length new \<le> length bytes" and "i < length bytes"
  shows "overwrite offset new bytes ! i = (if offset \<le> i \<and> i < offset + length new then new ! (i - offset) else bytes ! i)"
proof -
  have "i = offset + length new + (i - (offset + length new))" if "\<not> i < offset + length new" using that by simp
  then show ?thesis using assms by (auto simp: overwrite_def nth_append min_def)
qed

lemma shown_cong: "m x = m' x \<Longrightarrow> shown sites m x = shown sites m' x"
  by (induction sites) simp_all

lemma original_view_shown:
  assumes "sorted_wrt apart (map site_range sites)" and "original_view os w sites a bytes = Inr seen"
  shows "seen = map (shown sites (\<lambda>x. bytes ! (x - a))) [a..<a + length bytes]"
  using assms
proof (induction sites arbitrary: bytes)
  case Nil
  then show ?case by (auto intro!: nth_equalityI)
next
  case (Cons site sites)
  have rest: "sorted_wrt apart (map site_range sites)" and apart: "\<forall>s \<in> set sites. apart (site_range site) (site_range s)"
    using Cons.prems(1) by simp_all
  have outside: "shown sites m x = m x" if "in_range (site_range site) x" for m x
    by (rule shown_outside) (use apart apart_in_range [OF _ that] in \<open>auto simp: list_all_iff\<close>)
  show ?case
  proof (cases "a \<ge> hs_address site + length (hs_original site) \<or> hs_address site \<ge> a + length bytes")
    case True
    then have "seen = map (shown sites (\<lambda>x. bytes ! (x - a))) [a..<a + length bytes]"
      using Cons.IH [OF rest] Cons.prems(2) by simp
    then show ?thesis using True by auto
  next
    case False
    define start where "start = max a (hs_address site)"
    define finish where "finish = min (a + length bytes) (hs_address site + length (hs_original site))"
    define new where "new = overwrite (start - a) (take (finish - start) (drop (start - hs_address site) (hs_original site))) bytes"
    have view: "original_view os w sites a new = Inr seen"
      using Cons.prems(2) False by (auto simp: Let_def start_def finish_def new_def split: if_splits)
    have len: "length new = length bytes"
      using False by (auto simp: new_def start_def finish_def)
    have inside: "new ! (x - a) = hs_original site ! (x - hs_address site)"
      if x: "a \<le> x" "x < a + length bytes" "in_range (site_range site) x" for x
    proof -
      have "start \<le> x" "x < finish" using x by (auto simp: start_def finish_def in_range_def site_range_def)
      moreover have "a \<le> start" "hs_address site \<le> start" "finish \<le> a + length bytes"
        "finish - hs_address site \<le> length (hs_original site)" by (auto simp: start_def finish_def)
      ultimately show ?thesis unfolding new_def using x
        by (subst overwrite_nth) (auto simp: min_def)
    qed
    have kept: "new ! (x - a) = bytes ! (x - a)"
      if x: "a \<le> x" "x < a + length bytes" "\<not> in_range (site_range site) x" for x
    proof -
      have "\<not> (start \<le> x \<and> x < finish)" using x by (auto simp: start_def finish_def in_range_def site_range_def)
      moreover have "a \<le> start" "hs_address site \<le> start" "finish \<le> a + length bytes" "start \<le> finish"
        "finish - hs_address site \<le> length (hs_original site)" using False by (auto simp: start_def finish_def)
      ultimately show ?thesis unfolding new_def using x
        by (subst overwrite_nth) (auto simp: min_def)
    qed
    have "seen = map (shown sites (\<lambda>x. new ! (x - a))) [a..<a + length bytes]"
      using Cons.IH [OF rest view] len by simp
    also have "\<dots> = map (shown (site # sites) (\<lambda>x. bytes ! (x - a))) [a..<a + length bytes]"
    proof (rule map_cong [OF refl])
      fix x assume "x \<in> set [a..<a + length bytes]"
      then have x: "a \<le> x" "x < a + length bytes" by simp_all
      show "shown sites (\<lambda>x. new ! (x - a)) x = shown (site # sites) (\<lambda>x. bytes ! (x - a)) x"
      proof (cases "in_range (site_range site) x")
        case True
        then show ?thesis using inside [OF x True] outside [OF True] by (simp add: in_range_def site_range_def)
      next
        case out: False
        then show ?thesis using shown_cong [of "\<lambda>x. new ! (x - a)" x "\<lambda>x. bytes ! (x - a)" sites] kept [OF x out]
          by (auto simp: in_range_def site_range_def)
      qed
    qed
    finally show ?thesis .
  qed
qed

text \<open>C9: Detours stay hidden. After a plan's hooks are installed, in new sites apart from the old ones and each with the
  program's bytes as it was seen there, and in lists added to existing sites, every live detour is the one the
  registry has on record; the program that plans see, originals in place of detours, is the same as before; and the
  registry's view of the live bytes of any range is exactly that program, or fails because a detour's bytes could
  not be read.
\<close>
theorem hooks_hidden:
  assumes "windows_laws page memory protection os" and "trap_law ho" and "read_law memory os" and "detour_law memory detours ho"
    and "sites_ok (memory w) sites" and "sorted_wrt apart (map site_range (sites @ new_sites items))"
    and "list_all (site_prepared detours (shown sites (memory w))) (new_sites items)"
    and "list_all (\<lambda>item. case it_site item of Inl i \<Rightarrow> i < length sites | Inr _ \<Rightarrow> True) items"
    and "install_hooks os ho items (sites, w, plan) = Some ((sites', w', plan'), Inr ())"
  shows "sites_ok (memory w') sites' \<and> shown sites' (memory w') = shown sites (memory w) \<and>
    (\<forall>a n. case original_view os w' sites' a (bytes_at (memory w') a n) of
       Inr seen \<Rightarrow> seen = bytes_at (shown sites (memory w)) a n
     | Inl _ \<Rightarrow> list_ex (\<lambda>site. \<exists>error. read_native_memory os (hs_address site) (length (hs_installed site)) w' = Inl error) sites')"
proof -
  note hidden = install_hooks_hidden [OF assms]
  have readable: "list_ex (\<lambda>site. \<exists>error. read_native_memory os (hs_address site) (length (hs_installed site)) w' = Inl error) ss"
    if "\<forall>site \<in> set ss. bytes_at (memory w') (hs_address site) (length (hs_original site)) = hs_installed site"
      and "original_view os w' ss a bytes = Inl error" for ss a bytes error
    using that
  proof (induction ss arbitrary: bytes)
    case (Cons site ss)
    have "read_native_memory os (hs_address site) (length (hs_installed site)) w' = Inr (hs_installed site)"
      if readable: "\<nexists>error. read_native_memory os (hs_address site) (length (hs_installed site)) w' = Inl error"
    proof -
      obtain bs where bs: "read_native_memory os (hs_address site) (length (hs_installed site)) w' = Inr bs"
        using readable by (cases "read_native_memory os (hs_address site) (length (hs_installed site)) w'") auto
      then have "read_process_memory os (hs_address site) (length (hs_installed site)) w' = Inr bs" "length bs = length (hs_installed site)"
        by (auto simp: read_native_memory_def split: if_splits sum.splits)
      then have "bs = bytes_at (memory w') (hs_address site) (length (hs_installed site))"
        using assms(3) unfolding read_law_def by metis
      moreover have "length (hs_installed site) = length (hs_original site)" using Cons.prems(1) by (metis length_bytes_at list.set_intros(1))
      ultimately show ?thesis using bs Cons.prems(1) by simp
    qed
    then show ?case using Cons by (auto simp: Let_def split: if_splits)
  qed simp
  have "case original_view os w' sites' a (bytes_at (memory w') a n) of
       Inr seen \<Rightarrow> seen = bytes_at (shown sites (memory w)) a n
     | Inl _ \<Rightarrow> list_ex (\<lambda>site. \<exists>error. read_native_memory os (hs_address site) (length (hs_installed site)) w' = Inl error) sites'" for a n
  proof (cases "original_view os w' sites' a (bytes_at (memory w') a n)")
    case (Inl error)
    then show ?thesis using readable hidden by (auto simp: sites_ok_def)
  next
    case (Inr seen)
    have "seen = map (shown sites' (\<lambda>x. bytes_at (memory w') a n ! (x - a))) [a..<a + n]"
      using original_view_shown [OF _ Inr] hidden by (simp add: sites_ok_def)
    also have "\<dots> = bytes_at (shown sites' (memory w')) a n"
      unfolding bytes_at_def [of "shown sites' (memory w')"]
      by (rule map_cong [OF refl], rule shown_cong) (auto simp: bytes_at_nth dest!: le_Suc_ex)
    finally show ?thesis using Inr hidden by simp
  qed
  then show ?thesis using hidden by blast
qed

lemma sample_read_law: "read_law fst sample_windows"
  by (auto simp: read_law_def sample_windows_def bytes_at_def)

lemma sample_detour_law: "detour_law fst (\<lambda>d. (d, 5)) sample_hook_os"
  by (auto simp: detour_law_def sample_hook_os_def store_bytes_def in_range_def)

text \<open>A redirected CALL at 0x400100, installed in a program of zeros.\<close>

lemma hooks_hidden_witness:
  "\<exists>sites' w' plan'. install_hooks sample_windows sample_hook_os sample_items
      ([], (\<lambda>x. 0, \<lambda>p. PAGE_EXECUTE_READ), sample_submitted 0) = Some ((sites', w', plan'), Inr ()) \<and>
    sites_ok (fst w') sites' \<and> shown sites' (fst w') = (\<lambda>x. 0)"
proof -
  let ?w = "(\<lambda>x. 0, \<lambda>p. PAGE_EXECUTE_READ) :: (nat \<Rightarrow> byte) \<times> (nat \<Rightarrow> nat)"
  have success: "\<exists>sites' w' plan'. install_hooks sample_windows sample_hook_os sample_items ([], ?w, sample_submitted 0) =
      Some ((sites', w', plan'), Inr ())"
    by (simp add: sample_items_def sample_call_site_def install_item_def install_new_site_def enable_site_def sample_hook_os_def
        write_native_memory_def query_slices_def query_slices_from.simps [of _ _ 4194565] query_slices_from.simps [of _ _ 4194560]
        sample_windows_def PAGE_EXECUTE_READ_def MEM_COMMIT_def
        PAGE_NOACCESS_def guarded_def PAGE_GUARD_def executable_def PAGE_EXECUTE_def PAGE_EXECUTE_READWRITE_def
        PAGE_EXECUTE_WRITECOPY_def Let_def restore_protection_def)
  then obtain sites' w' plan' where run: "install_hooks sample_windows sample_hook_os sample_items ([], ?w, sample_submitted 0) =
      Some ((sites', w', plan'), Inr ())" by blast
  have ready: "sites_ok (fst ?w) []" "sorted_wrt apart (map site_range ([] @ new_sites sample_items))"
    "list_all (site_prepared (\<lambda>d. (d, 5)) (shown [] (fst ?w))) (new_sites sample_items)"
    "list_all (\<lambda>item. case it_site item of Inl i \<Rightarrow> i < length ([] :: HookSite list) | Inr _ \<Rightarrow> True) sample_items"
    by (simp_all add: sites_ok_def sample_items_def sample_call_site_def site_prepared_def bytes_at_def)
  from hooks_hidden [OF sample_windows_laws sample_trap_law sample_read_law sample_detour_law ready run]
  show ?thesis using run by (auto simp: fun_eq_iff)
qed

end
