(* ===== verification/Live_Images.thy ===== *)
theory Live_Images
  imports Image_Laws Native_Install
begin

text \<open>
  Images as the runtime and the offline validator hand them to selection and planning: the observation of loaded
  modules (\<open>patches/selection.cpp\<close>), the images of a plan, and the memory image a file would have
  (\<open>native/plan.cpp\<close>).
\<close>

section \<open>Observation\<close>

record LiveImageObservation =
  lo_filename :: string
  lo_outcome :: "Diagnostic + LoadedImage option"
  lo_executable :: bool

definition hinted_filenames :: "catalog \<Rightarrow> ResolvedPatch list \<Rightarrow> string list" where
  "hinted_filenames catalog patches =
    concat (map (\<lambda>profile. ip_filenames (catalog ! profile))
      (concat (map rr_profiles (concat (map rv_images (concat (map rp_variants patches)))))))"

text \<open>The names that are not executables, each folded name once, by its first spelling.\<close>

fun distinct_filenames :: "string set \<Rightarrow> string list \<Rightarrow> string list" where
  "distinct_filenames seen [] = []"
| "distinct_filenames seen (filename # filenames) =
    (if is_exe_name filename \<or> folded_id filename \<in> seen then distinct_filenames seen filenames
     else filename # distinct_filenames (insert (folded_id filename) seen) filenames)"

text \<open>\<open>probe\<close> and \<open>main\<close> stand for the two probes of \<open>Images\<close> at the moment of their calls.\<close>

definition observe_loaded_images :: "(string \<Rightarrow> Diagnostic + LoadedImage option) \<Rightarrow> Diagnostic + LoadedImage \<Rightarrow> catalog \<Rightarrow>
    ResolvedPatch list \<Rightarrow> LiveImageObservation list" where
  "observe_loaded_images probe main catalog patches =
    map (\<lambda>filename. \<lparr>lo_filename = filename, lo_outcome = probe filename, lo_executable = False\<rparr>)
      (distinct_filenames {} (hinted_filenames catalog patches)) @
    [case main of
       Inr img \<Rightarrow> \<lparr>lo_filename = li_filename img, lo_outcome = Inr (Some img), lo_executable = True\<rparr>
     | Inl failed \<Rightarrow> \<lparr>lo_filename = dg_owner failed, lo_outcome = Inl failed, lo_executable = True\<rparr>]"

definition image_observation :: "LiveImageObservation \<Rightarrow> ImageObservation" where
  "image_observation img =
    \<lparr>ob_filename = lo_filename img, ob_outcome = map_sum id (map_option li_profile) (lo_outcome img),
     ob_executable = lo_executable img, ob_base = (case lo_outcome img of Inr (Some loaded) \<Rightarrow> li_base loaded | _ \<Rightarrow> 0)\<rparr>"

definition image_observations :: "LiveImageObservation list \<Rightarrow> ImageObservation list" where
  "image_observations images = map image_observation images"

lemma distinct_filenames_distinct:
  "distinct (map folded_id (distinct_filenames seen filenames)) \<and>
   folded_id ` set (distinct_filenames seen filenames) = folded_id ` {f \<in> set filenames. \<not> is_exe_name f} - seen"
proof (induction filenames arbitrary: seen)
  case (Cons f fs)
  show ?case
  proof (cases "is_exe_name f \<or> folded_id f \<in> seen")
    case False
    have "folded_id f \<notin> folded_id ` set (distinct_filenames (insert (folded_id f) seen) fs)"
      using Cons [of "insert (folded_id f) seen"] by blast
    then show ?thesis using Cons [of "insert (folded_id f) seen"] False by auto
  qed (use Cons [of seen] in auto)
qed simp

section \<open>The images of a plan\<close>

definition selected_image :: "catalog \<Rightarrow> LiveImageObservation list \<Rightarrow> SelectedImageBinding \<Rightarrow> PlanImage option" where
  "selected_image catalog observed binding =
    (if sb_observation_index binding \<ge> length observed then None
     else case lo_outcome (observed ! sb_observation_index binding) of
       Inr (Some img) \<Rightarrow> Some \<lparr>pi_name = sb_label binding, pi_profile = ip_id (catalog ! sb_profile binding), pi_base = li_base img,
         pi_size = li_image_size img, pi_sections = [], pi_mapped = [], pi_storage = 0\<rparr>
     | _ \<Rightarrow> None)"

fun selected_images :: "catalog \<Rightarrow> string \<Rightarrow> LiveImageObservation list \<Rightarrow> SelectedImageBinding list \<Rightarrow> Diagnostic + PlanImage list" where
  "selected_images catalog owner observed [] = Inr []"
| "selected_images catalog owner observed (binding # bindings) =
    (case selected_image catalog observed binding of
       None \<Rightarrow> Inl (diagnostic owner ''Selected image has no pinned live mapping'')
     | Some img \<Rightarrow> map_sum id (\<lambda>images. img # images) (selected_images catalog owner observed bindings))"

definition selected_plan_images :: "catalog \<Rightarrow> string \<Rightarrow> PatchSelection \<Rightarrow> LiveImageObservation list \<Rightarrow> Diagnostic + PlanImage list" where
  "selected_plan_images catalog owner selection observed =
    (if ps_state selection \<noteq> Ready then Inl (diagnostic owner ''Native plan requires a ready image selection'')
     else selected_images catalog owner observed (ps_images selection))"

section \<open>The memory image of a file\<close>

text \<open>Copying to a place outside the image is undefined in the code; it has no result.\<close>

fun copy_sections :: "string \<Rightarrow> byte list \<Rightarrow> ImageSection list \<Rightarrow> byte list \<Rightarrow> byte list parse" where
  "copy_sections filename contents [] mapped = Some (Inr mapped)"
| "copy_sections filename contents (sec # sections) mapped =
    (if im_raw_size sec \<noteq> 0 \<and> (im_raw_offset sec > length contents \<or> im_raw_size sec > length contents - im_raw_offset sec)
     then reject filename ''Offline section bytes are outside the file''
     else
       let n = min (im_raw_size sec) (im_mapped_size sec)
       in if n = 0 then copy_sections filename contents sections mapped
          else if \<not> has_range (length mapped) (im_rva sec) n then None
          else copy_sections filename contents sections (overwrite (im_rva sec) (take n (drop (im_raw_offset sec) contents)) mapped))"

definition map_file_image :: "FC_Architecture \<Rightarrow> FileImage \<Rightarrow> byte list \<Rightarrow> byte list parse" where
  "map_file_image arch img contents =
    (let base = il_preferred_base (fi_layout img); bound = address_max arch
     in if base = 0 \<or> base > bound \<or> il_image_size (fi_layout img) > bound - base
        then reject (fi_filename img) ''Offline preferred image range has a null base or exceeds the native address space''
        else copy_sections (fi_filename img) contents (il_sections (fi_layout img)) (replicate (il_image_size (fi_layout img)) 0))"

definition mapped_plan_image :: "catalog \<Rightarrow> string \<Rightarrow> FileImage \<Rightarrow> byte list \<Rightarrow> nat \<Rightarrow> PlanImage" where
  "mapped_plan_image catalog name img mapped storage =
    (let base = il_preferred_base (fi_layout img)
     in \<lparr>pi_name = name, pi_profile = ip_id (catalog ! fi_profile img), pi_base = base, pi_size = il_image_size (fi_layout img),
         pi_sections = map (\<lambda>sec. \<lparr>ls_begin = base + im_rva sec, ls_size = im_mapped_size sec, ls_characteristics = im_characteristics sec\<rparr>)
           (il_sections (fi_layout img)),
         pi_mapped = mapped, pi_storage = storage\<rparr>)"

text \<open>The byte a section gives to an address inside it.\<close>

definition section_byte :: "byte list \<Rightarrow> ImageSection \<Rightarrow> nat \<Rightarrow> byte" where
  "section_byte contents sec i = (if i < im_raw_size sec then contents ! (im_raw_offset sec + i) else 0)"

lemma copy_sections_mapped:
  "sections_ok True (length contents) (length mapped) sections \<Longrightarrow>
   (\<And>sec i. sec \<in> set sections \<Longrightarrow> i < im_mapped_size sec \<Longrightarrow> mapped ! (im_rva sec + i) = 0) \<Longrightarrow>
    \<exists>result. copy_sections filename contents sections mapped = Some (Inr result) \<and> length result = length mapped \<and>
      (\<forall>sec \<in> set sections. \<forall>i < im_mapped_size sec. result ! (im_rva sec + i) = section_byte contents sec i) \<and>
      (\<forall>x < length mapped. (\<forall>sec \<in> set sections. x \<notin> mapped_range sec) \<longrightarrow> result ! x = mapped ! x)"
proof (induction sections arbitrary: mapped)
  case (Cons sec sections)
  let ?n = "min (im_raw_size sec) (im_mapped_size sec)" and ?source = "take (min (im_raw_size sec) (im_mapped_size sec)) (drop (im_raw_offset sec) contents)"
  let ?next = "if ?n = 0 then mapped else overwrite (im_rva sec) ?source mapped"
  have apart: "mapped_range sec \<inter> mapped_range other = {}" if "other \<in> set sections" for other
    using Cons.prems(1) that by (auto simp: sections_ok_def)
  have sec: "section_ok True (length contents) (length mapped) sec" and rest: "sections_ok True (length contents) (length mapped) sections"
    using Cons.prems(1) by (simp_all add: sections_ok_def)
  have fits: "im_rva sec + im_mapped_size sec \<le> length mapped" and inside: "im_raw_size sec = 0 \<or> im_raw_offset sec + im_raw_size sec \<le> length contents"
    using sec by (auto simp: section_ok_def)
  have source: "length ?source = ?n" if "?n \<noteq> 0" using inside that by auto
  have step: "copy_sections filename contents (sec # sections) mapped = copy_sections filename contents sections ?next"
    using inside fits by (auto simp: Let_def has_range_iff min_def)
  have length_next: "length ?next = length mapped" using source fits by (auto simp: min_def split: if_splits)
  have next_in: "?next ! (im_rva sec + i) = section_byte contents sec i" if "i < im_mapped_size sec" for i
  proof (cases "?n = 0")
    case True
    then have "im_raw_size sec = 0" using that by auto
    then show ?thesis using Cons.prems(2) [of sec i] that True by (simp add: section_byte_def)
  next
    case False
    then show ?thesis
      using that fits source overwrite_nth [of "im_rva sec" ?source mapped "im_rva sec + i"] Cons.prems(2) [of sec i] inside
      by (auto simp: section_byte_def)
  qed
  have next_out: "?next ! x = mapped ! x" if "x \<notin> mapped_range sec" "x < length mapped" for x
    using that fits source overwrite_nth [of "im_rva sec" ?source mapped x] by (auto simp: mapped_range_def)
  have "?next ! (im_rva other + i) = 0" if "other \<in> set sections" "i < im_mapped_size other" for other i
  proof -
    have "im_rva other + i \<in> mapped_range other" using that(2) by (simp add: mapped_range_def)
    then have "im_rva other + i \<notin> mapped_range sec" using apart [OF that(1)] by blast
    moreover have "im_rva other + i < length mapped"
      using rest that by (auto simp: sections_ok_def section_ok_def list_all_iff)
    ultimately show ?thesis using next_out Cons.prems(2) [of other i] that by simp
  qed
  with Cons.IH [of ?next] rest length_next obtain result where result: "copy_sections filename contents sections ?next = Some (Inr result)"
    "length result = length mapped" "\<forall>other \<in> set sections. \<forall>i < im_mapped_size other. result ! (im_rva other + i) = section_byte contents other i"
    and kept: "\<forall>x < length mapped. (\<forall>other \<in> set sections. x \<notin> mapped_range other) \<longrightarrow> result ! x = ?next ! x"
    by auto
  have "result ! (im_rva sec + i) = section_byte contents sec i" if "i < im_mapped_size sec" for i
  proof -
    have "im_rva sec + i \<in> mapped_range sec" using that by (simp add: mapped_range_def)
    then have "\<forall>other \<in> set sections. im_rva sec + i \<notin> mapped_range other" using apart by blast
    then show ?thesis using kept next_in [OF that] that fits by simp
  qed
  then show ?case using result kept next_out step by auto
qed simp

section \<open>Claims\<close>

text \<open>C25: Parsing an image always has a result, whatever the bytes: no field is read outside the input. The sections of an
  accepted layout lie inside the image, which is not empty, their data lies inside the file when a file is parsed, and
  no two of them share a byte of the image.\<close>

theorem image_layout_safe:
  "\<exists>result. parse_image arch bytes owner file_layout = Some result \<and>
    (case result of
       Inl failed \<Rightarrow> True
     | Inr lay \<Rightarrow> 0 < il_image_size lay \<and> il_image_size lay < 2 ^ 32 \<and>
         list_all (section_ok file_layout (length bytes) (il_image_size lay)) (il_sections lay) \<and>
         sorted_wrt (\<lambda>a b. mapped_range a \<inter> mapped_range b = {}) (il_sections lay))"
  using image_parsed [of arch bytes owner file_layout] by (auto simp: layout_ok_def sections_ok_def split: sum.splits)

text \<open>The memory image of a parsed file: when its preferred range is an address range of the process, mapping
  succeeds and gives exactly the declared size; every section holds its bytes of the file, followed by zeros, at its
  place, and every other byte is zero.\<close>

theorem file_image_mapped:
  assumes "parse_file_image arch contents owner = Some (Inr (fi_layout img))"
    and "0 < il_preferred_base (fi_layout img)" and "il_preferred_base (fi_layout img) + il_image_size (fi_layout img) \<le> address_max arch"
  shows "\<exists>mapped. map_file_image arch img contents = Some (Inr mapped) \<and> length mapped = il_image_size (fi_layout img) \<and>
    (\<forall>sec \<in> set (il_sections (fi_layout img)). \<forall>i < im_mapped_size sec.
      mapped ! (im_rva sec + i) = (if i < im_raw_size sec then contents ! (im_raw_offset sec + i) else 0)) \<and>
    (\<forall>x < il_image_size (fi_layout img). (\<forall>sec \<in> set (il_sections (fi_layout img)).
      \<not> (im_rva sec \<le> x \<and> x < im_rva sec + im_mapped_size sec)) \<longrightarrow> mapped ! x = 0)"
proof -
  let ?lay = "fi_layout img"
  have ok: "sections_ok True (length contents) (il_image_size ?lay) (il_sections ?lay)"
    using image_parsed [where arch = arch and bytes = contents and owner = owner and file_layout = True] assms(1) by (auto simp: parse_file_image_def layout_ok_def)
  then have inside: "im_rva sec + im_mapped_size sec \<le> il_image_size ?lay" if "sec \<in> set (il_sections ?lay)" for sec
    using that by (auto simp: sections_ok_def section_ok_def list_all_iff)
  let ?blank = "replicate (il_image_size ?lay) (0 :: byte)"
  have "sections_ok True (length contents) (length ?blank) (il_sections ?lay)" using ok by simp
  moreover have "?blank ! (im_rva sec + i) = 0" if "sec \<in> set (il_sections ?lay)" "i < im_mapped_size sec" for sec i
    using inside [OF that(1)] that(2) by simp
  ultimately obtain mapped where "copy_sections (fi_filename img) contents (il_sections ?lay) ?blank = Some (Inr mapped)"
    "length mapped = il_image_size ?lay"
    "\<forall>sec \<in> set (il_sections ?lay). \<forall>i < im_mapped_size sec. mapped ! (im_rva sec + i) = section_byte contents sec i"
    "\<forall>x < il_image_size ?lay. (\<forall>sec \<in> set (il_sections ?lay). x \<notin> mapped_range sec) \<longrightarrow> mapped ! x = 0"
    using copy_sections_mapped [of contents ?blank "il_sections ?lay" "fi_filename img"] by auto
  then show ?thesis using assms(2,3)
    by (auto simp: map_file_image_def Let_def section_byte_def mapped_range_def intro!: exI [of _ mapped])
qed

text \<open>A file of one section: four bytes of data, eight in memory.\<close>

definition tiny_file :: "byte list" where
  "tiny_file = [77, 90] @
    replicate 58 0 @
    [64, 0, 0, 0, 80, 69, 0, 0, 76, 1, 1] @
    replicate 13 0 @
    [96, 0, 0, 0, 11, 1] @
    replicate 28 0 @
    [64] @
    replicate 25 0 @
    [232, 0, 0, 0, 224] @
    replicate 35 0 @
    [46, 100] @
    replicate 6 0 @
    [8, 0, 0, 0, 224, 0, 0, 0, 4, 0, 0, 0, 224] @
    replicate 19 0 @
    [1, 2, 3, 4]"

definition tiny_layout :: ImageLayout where
  "tiny_layout = \<lparr>il_image_size = 232, il_sections = [\<lparr>im_name = ''.d'', im_rva = 224, im_virtual_size = 8, im_mapped_size = 8,
     im_raw_offset = 224, im_raw_size = 4, im_characteristics = 0\<rparr>], il_preferred_base = 0x400000\<rparr>"

lemma tiny_bytes: "tiny_file = [77, 90, 0, 0, 0, 0, 0, 0, 0, 0, 0, 0, 0, 0, 0, 0, 0, 0, 0, 0, 0, 0, 0, 0, 0, 0, 0, 0, 0, 0, 0, 0, 0, 0, 0, 0, 0, 0, 0, 0, 0, 0, 0, 0, 0, 0, 0, 0, 0, 0, 0, 0, 0, 0, 0, 0, 0, 0, 0, 0, 64, 0, 0, 0, 80, 69, 0, 0, 76, 1, 1, 0, 0, 0, 0, 0, 0, 0, 0, 0, 0, 0, 0, 0, 96, 0, 0, 0, 11, 1, 0, 0, 0, 0, 0, 0, 0, 0, 0, 0, 0, 0, 0, 0, 0, 0, 0, 0, 0, 0, 0, 0, 0, 0, 0, 0, 0, 0, 64, 0, 0, 0, 0, 0, 0, 0, 0, 0, 0, 0, 0, 0, 0, 0, 0, 0, 0, 0, 0, 0, 0, 0, 0, 0, 232, 0, 0, 0, 224, 0, 0, 0, 0, 0, 0, 0, 0, 0, 0, 0, 0, 0, 0, 0, 0, 0, 0, 0, 0, 0, 0, 0, 0, 0, 0, 0, 0, 0, 0, 0, 0, 0, 0, 0, 46, 100, 0, 0, 0, 0, 0, 0, 8, 0, 0, 0, 224, 0, 0, 0, 4, 0, 0, 0, 224, 0, 0, 0, 0, 0, 0, 0, 0, 0, 0, 0, 0, 0, 0, 0, 0, 0, 0, 0, 1, 2, 3, 4]"
  by code_simp

lemma tiny_length: "length tiny_file = 228"
  by (simp add: tiny_file_def)

lemma tiny_reads:
  "read_value tiny_file 0 2 = Some kDosSignature" "read_value tiny_file 0x3c 4 = Some 64"
  "read_value tiny_file 64 4 = Some kPeSignature" "read_value tiny_file 68 2 = Some 0x14c"
  "read_value tiny_file 70 2 = Some 1" "read_value tiny_file 84 2 = Some 96" "read_value tiny_file 88 2 = Some kPe32Magic"
  "read_value tiny_file 144 4 = Some 232" "read_value tiny_file 148 4 = Some 224" "read_value tiny_file 116 4 = Some 0x400000"
  "read_bytes tiny_file 184 8 = Some [0x2e, 0x64, 0, 0, 0, 0, 0, 0]" "read_value tiny_file 192 4 = Some 8"
  "read_value tiny_file 196 4 = Some 224" "read_value tiny_file 200 4 = Some 4" "read_value tiny_file 204 4 = Some 224"
  "read_value tiny_file 220 4 = Some 0"
  by (simp_all add: tiny_bytes read_value_def read_bytes_def has_range_def kDosSignature_def kPeSignature_def kPe32Magic_def)

lemma tiny_parsed: "parse_file_image FC_ARCH_X86 tiny_file ''f'' = Some (Inr tiny_layout)"
proof -
  have header: "parse_file_header FC_ARCH_X86 tiny_file ''f'' = Some (Inr (88, 96, Suc 0))"
    by (simp add: parse_file_header_def tiny_reads tiny_length has_range_def)
  have optional: "parse_optional_header FC_ARCH_X86 tiny_file ''f'' True (88, 96, Suc 0) =
      Some (Inr \<lparr>oh_image_size = 232, oh_section_table = 184, oh_preferred_base = 0x400000\<rparr>)"
    by (simp add: parse_optional_header_def tiny_reads tiny_length has_range_def)
  have name: "text_of_bytes [0x2e, 0x64] = ''.d''" by (simp add: text_of_bytes_def char_of_byte_def char_of_def bit_0)
  have sections: "parse_sections tiny_file ''f'' True 232 184 (Suc 0) [] = Some (Inr (il_sections tiny_layout))"
    by (simp add: read_section_def tiny_reads tiny_length check_section_def tiny_layout_def name)
  show ?thesis
    by (simp add: parse_file_image_def parse_image_def then_parse_def header optional sections del: parse_sections.simps) (simp add: tiny_layout_def)
qed

theorem file_image_mapped_witness:
  "\<exists>mapped. map_file_image FC_ARCH_X86 \<lparr>fi_profile = 0, fi_filename = ''f'', fi_layout = tiny_layout\<rparr> tiny_file = Some (Inr mapped) \<and>
    length mapped = 232 \<and> mapped ! 224 = tiny_file ! 224 \<and> mapped ! 231 = 0"
proof -
  let ?img = "\<lparr>fi_profile = 0, fi_filename = ''f'', fi_layout = tiny_layout\<rparr>"
  have img: "fi_layout ?img = tiny_layout" by simp
  have "0 < il_preferred_base tiny_layout" "il_preferred_base tiny_layout + il_image_size tiny_layout \<le> address_max FC_ARCH_X86"
    by (simp_all add: tiny_layout_def address_max_def)
  from file_image_mapped [where img = ?img, unfolded img, OF tiny_parsed this]
  obtain mapped where m: "map_file_image FC_ARCH_X86 ?img tiny_file = Some (Inr mapped)" "length mapped = il_image_size tiny_layout"
    "\<forall>sec \<in> set (il_sections tiny_layout). \<forall>i < im_mapped_size sec.
      mapped ! (im_rva sec + i) = (if i < im_raw_size sec then tiny_file ! (im_raw_offset sec + i) else 0)"
    by blast
  let ?sec = "\<lparr>im_name = ''.d'', im_rva = 224, im_virtual_size = 8, im_mapped_size = 8, im_raw_offset = 224, im_raw_size = 4,
      im_characteristics = 0\<rparr>"
  have "?sec \<in> set (il_sections tiny_layout)" by (simp add: tiny_layout_def)
  note byte = mp [OF spec [OF bspec [OF m(3) this]]]
  have "length mapped = 232" using m(2) by (simp add: tiny_layout_def)
  with byte [of 0] byte [of 7] m(1) show ?thesis by (intro exI [of _ mapped]) simp
qed

end
