(* ===== verification/Patch_Session.thy ===== *)
theory Patch_Session
  imports Plugin_Configuration Dependency_Laws Live_Images
begin

text \<open>
  The life of a session before installation (\<open>runtime/src/patches/patch_record.cpp\<close>, \<open>late_images.cpp\<close>): records
  for the admitted plugins, the configuration of every plugin, the selection of every patch as images appear, and the
  policy for startup failures.
\<close>

section \<open>Records\<close>

record AdmissionResult =
  ad_admitted :: "AdmittedPlugin list"
  ad_diagnostics :: "Diagnostic list"

text \<open>A group counts only when it is configurable and names the patch.\<close>

definition mandatory :: "FC_Plugin \<Rightarrow> FC_Patch \<Rightarrow> bool" where
  "mandatory plugin patch \<longleftrightarrow> fp_enabled patch \<noteq> 0 \<and> fp_configurable patch = 0 \<and>
    list_all (\<lambda>grp. fg_configurable grp = 0 \<or> \<not> has_member grp (fp_id patch)) (fl_groups plugin)"

definition new_record :: "nat \<Rightarrow> nat \<Rightarrow> FC_Patch \<Rightarrow> PatchRecord" where
  "new_record plugin index patch =
    \<lparr>pr_plugin = plugin, pr_index = index, pr_definition = patch, pr_internal = None, pr_resolved = None, pr_selection = no_selection,
     pr_enabled = False, pr_selected_for_startup = False, pr_state = PDisabled, pr_reason = [], pr_providers = []\<rparr>"

definition resolve_record :: "catalog \<Rightarrow> nat \<Rightarrow> AdmittedPlugin \<Rightarrow> nat \<Rightarrow> PatchRecord \<times> Diagnostic list" where
  "resolve_record catalog plugin admitted index =
    (let record' = new_record plugin index (fl_patches (ap_definition admitted) ! index)
     in case resolve_patch admitted index catalog of
          Inl failed \<Rightarrow> (record'\<lparr>pr_state := PFailed, pr_reason := dg_message failed\<rparr>, [failed])
        | Inr resolved \<Rightarrow> (record'\<lparr>pr_resolved := Some resolved\<rparr>, []))"

definition add_plugin :: "AdmittedPlugin \<Rightarrow> SelectionSession \<Rightarrow> SelectionSession" where
  "add_plugin admitted session =
    (let records = map (resolve_record (ss_catalog session) (length (ss_plugins session)) admitted)
           [0..<length (fl_patches (ap_definition admitted))]
     in session\<lparr>ss_plugins := ss_plugins session @ [\<lparr>pl_admitted = admitted, pl_configuration = None, pl_failure = None\<rparr>],
          ss_patches := ss_patches session @ map fst records,
          ss_diagnostics := ss_diagnostics session @ concat (map snd records)\<rparr>)"

definition resolve_patches :: "AdmissionResult \<Rightarrow> catalog \<Rightarrow> u32 \<Rightarrow> SelectionSession" where
  "resolve_patches admitted catalog role =
    fold add_plugin (ad_admitted admitted)
      \<lparr>ss_catalog = catalog, ss_role = role, ss_plugins = [], ss_patches = [], ss_diagnostics = ad_diagnostics admitted, ss_fatal = False\<rparr>"

section \<open>Selection\<close>

definition select_patch :: "SelectionSession \<Rightarrow> ImageObservation list \<Rightarrow> ResolvedPatch \<Rightarrow> PatchSelection" where
  "select_patch session observations patch =
    evaluate_patch (ss_catalog session) patch (ss_role session) observations (rp_variants patch)"

fun selected_state :: "SelectionState \<Rightarrow> PatchState" where
  "selected_state Ready = PPlanning"
| "selected_state Waiting = PWaiting"
| "selected_state Unavailable = PFailed"

definition refresh_record :: "SelectionSession \<Rightarrow> ImageObservation list \<Rightarrow> PatchRecord \<Rightarrow> PatchRecord" where
  "refresh_record session observations patch =
    (if pr_state patch = PInstalled \<or> pr_state patch = PFailed then patch
     else
       let plugin = ss_plugins session ! pr_plugin patch
       in case pl_configuration plugin of
            None \<Rightarrow> patch\<lparr>pr_state := PFailed,
              pr_reason := (case pl_failure plugin of Some failed \<Rightarrow> dg_message failed | None \<Rightarrow> ''Plugin configuration is unavailable'')\<rparr>
          | Some configuration \<Rightarrow>
              let enabled = pc_enabled (pg_controls configuration ! pr_index patch)
              in if \<not> enabled then patch\<lparr>pr_enabled := False, pr_state := PDisabled, pr_reason := []\<rparr>
                 else
                   let selection = select_patch session observations (the (pr_resolved patch))
                   in patch\<lparr>pr_enabled := True, pr_selection := selection,
                        pr_selected_for_startup := (pr_selected_for_startup patch \<or> ps_state selection \<noteq> Unavailable),
                        pr_reason := (case ps_reasons selection of [] \<Rightarrow> [] | reason # _ \<Rightarrow> dg_message reason),
                        pr_state := selected_state (ps_state selection)\<rparr>)"

definition refresh_selection :: "ImageObservation list \<Rightarrow> SelectionSession \<Rightarrow> SelectionSession" where
  "refresh_selection observations session =
    resolve_dependencies (session\<lparr>ss_patches := map (refresh_record session observations) (ss_patches session)\<rparr>)"

section \<open>Configuration\<close>

text \<open>The patches of one plugin that resolved: their selection is evaluated, and the configuration reads them.\<close>

definition evaluate_record :: "SelectionSession \<Rightarrow> ImageObservation list \<Rightarrow> nat \<Rightarrow> PatchRecord \<Rightarrow> PatchRecord" where
  "evaluate_record session observations plugin patch =
    (case pr_resolved patch of
       Some resolved \<Rightarrow> if pr_plugin patch = plugin then patch\<lparr>pr_selection := select_patch session observations resolved\<rparr> else patch
     | None \<Rightarrow> patch)"

definition resolved_of :: "SelectionSession \<Rightarrow> nat \<Rightarrow> (nat \<times> ResolvedPatch) list" where
  "resolved_of session plugin =
    concat (map (\<lambda>patch. case pr_resolved patch of
      Some resolved \<Rightarrow> if pr_plugin patch = plugin then [(pr_index patch, resolved)] else [] | None \<Rightarrow> []) (ss_patches session))"

definition broken_mandatory :: "SelectionSession \<Rightarrow> nat \<Rightarrow> PatchRecord \<Rightarrow> bool" where
  "broken_mandatory session plugin patch \<longleftrightarrow> pr_plugin patch = plugin \<and>
    mandatory (session_plugin session plugin) (pr_definition patch) \<and> pr_resolved patch \<noteq> None \<and>
    ps_state (pr_selection patch) \<noteq> Unavailable"

definition keep_configuration :: "nat \<Rightarrow> Diagnostic + PluginConfiguration \<Rightarrow> SelectionSession \<Rightarrow> SelectionSession" where
  "keep_configuration plugin loaded session =
    (let record' = ss_plugins session ! plugin
     in case loaded of
          Inr configuration \<Rightarrow> session\<lparr>ss_plugins := (ss_plugins session)[plugin := record'\<lparr>pl_configuration := Some configuration\<rparr>]\<rparr>
        | Inl failed \<Rightarrow>
            session\<lparr>ss_plugins := (ss_plugins session)[plugin := record'\<lparr>pl_failure := Some failed\<rparr>],
              ss_diagnostics := ss_diagnostics session @ [failed],
              ss_patches := map (\<lambda>patch. if broken_mandatory session plugin patch then patch\<lparr>pr_selected_for_startup := True\<rparr> else patch)
                (ss_patches session),
              ss_fatal := (ss_fatal session \<or>
                list_ex (\<lambda>patch. broken_mandatory session plugin patch \<and> failure_policy patch = FC_FAILURE_FATAL) (ss_patches session))\<rparr>)"

text \<open>\<open>worlds\<close> and \<open>reads\<close> answer the file and environment calls of each plugin's load.\<close>

definition configure_plugin :: "platform \<Rightarrow> (nat \<Rightarrow> load_world) \<Rightarrow> (nat \<Rightarrow> nat \<Rightarrow> environment_os) \<Rightarrow> ImageObservation list \<Rightarrow>
    ConfigurationPaths \<Rightarrow> nat \<Rightarrow> SelectionSession \<times> files \<Rightarrow> SelectionSession \<times> files" where
  "configure_plugin plat worlds reads observations paths plugin state = (case state of (session, files) \<Rightarrow>
    let session = session\<lparr>ss_patches := map (evaluate_record session observations plugin) (ss_patches session)\<rparr>
    in case load_configuration plat (worlds plugin) (reads plugin) (ss_catalog session) files
           (pl_admitted (ss_plugins session ! plugin)) (resolved_of session plugin) (ss_role session) observations paths of
         (loaded, files) \<Rightarrow> (keep_configuration plugin loaded session, files))"

definition configure_patches :: "platform \<Rightarrow> (nat \<Rightarrow> load_world) \<Rightarrow> (nat \<Rightarrow> nat \<Rightarrow> environment_os) \<Rightarrow> ImageObservation list \<Rightarrow>
    ConfigurationPaths \<Rightarrow> SelectionSession \<times> files \<Rightarrow> SelectionSession \<times> files" where
  "configure_patches plat worlds reads observations paths state =
    map_prod (refresh_selection observations) id
      (fold (configure_plugin plat worlds reads observations paths) [0..<length (ss_plugins (fst state))] state)"

section \<open>Startup failures\<close>

text \<open>The reason to terminate the process, if there is one.\<close>

definition enforce_startup_policy :: "SelectionSession \<Rightarrow> string option" where
  "enforce_startup_policy session =
    (if \<not> ss_fatal session then None
     else case List.find fatal_failure (ss_patches session) of
       Some patch \<Rightarrow> Some (''Patch '' @ quoted (qualified_patch_id session patch) @ '' failed during startup: '' @ pr_reason patch)
     | None \<Rightarrow> Some ''A required patch failed during startup'')"

section \<open>Images that arrive late\<close>

definition requires_filename :: "catalog \<Rightarrow> u32 \<Rightarrow> string \<Rightarrow> ResolvedVariant \<Rightarrow> bool" where
  "requires_filename catalog role filename variant \<longleftrightarrow> role_matches (fv_role (rv_definition variant)) role \<and>
    list_ex (\<lambda>requirement. list_ex (\<lambda>profile. list_ex (\<lambda>accepted. equal_id accepted filename) (ip_filenames (catalog ! profile)))
      (rr_profiles requirement)) (rv_images variant)"

definition required_filename :: "SelectionSession \<Rightarrow> string \<Rightarrow> bool" where
  "required_filename session filename \<longleftrightarrow>
    list_ex (\<lambda>patch. pr_state patch = PWaiting \<and>
      (case pr_resolved patch of None \<Rightarrow> False
       | Some resolved \<Rightarrow> list_ex (requires_filename (ss_catalog session) (ss_role session) filename) (rp_variants resolved)))
      (ss_patches session)"

text \<open>Only an image recorded as absent is probed again, and only while somebody needs it.\<close>

definition awaited :: "SelectionSession \<Rightarrow> string list \<Rightarrow> LiveImageObservation \<Rightarrow> bool" where
  "awaited session private_filenames observation \<longleftrightarrow> lo_outcome observation = Inr None \<and>
    (list_ex (\<lambda>filename. equal_id filename (lo_filename observation)) private_filenames \<or>
     required_filename session (lo_filename observation))"

fun probe_awaited :: "(nat \<Rightarrow> string \<Rightarrow> Diagnostic + LoadedImage option) \<Rightarrow> SelectionSession \<Rightarrow> string list \<Rightarrow> nat \<Rightarrow>
    LiveImageObservation list \<Rightarrow> LiveImageObservation list \<times> nat list" where
  "probe_awaited probe session private_filenames i [] = ([], [])"
| "probe_awaited probe session private_filenames i (observation # observations) =
    (let result = (if awaited session private_filenames observation then probe i (lo_filename observation) else Inr None)
     in case probe_awaited probe session private_filenames (Suc i) observations of (rest, changed) \<Rightarrow>
          if result \<noteq> Inr None then (observation\<lparr>lo_outcome := result\<rparr> # rest, i # changed)
          else (observation # rest, changed))"

definition process_awaited_images :: "(nat \<Rightarrow> string \<Rightarrow> Diagnostic + LoadedImage option) \<Rightarrow> SelectionSession \<Rightarrow> LiveImageObservation list \<Rightarrow>
    string list \<Rightarrow> SelectionSession \<times> LiveImageObservation list \<times> nat list" where
  "process_awaited_images probe session images private_filenames =
    (if private_filenames = [] \<and> list_all (\<lambda>patch. pr_state patch \<noteq> PWaiting) (ss_patches session) then (session, images, [])
     else case probe_awaited probe session private_filenames 0 images of (images, changed) \<Rightarrow>
       (if changed \<noteq> [] then refresh_selection (image_observations images) session else session, images, changed))"

end
