(* ===== verification/Plugin_Admission.thy ===== *)
theory Plugin_Admission
  imports Patch_Session
begin

text \<open>
  Admission of plugin declarations (\<open>runtime/src/plugins/validation.cpp\<close>): a declaration arrives through the C interface as
  pointers and counts, every field of it is checked before it is used, and of the valid declarations those with an
  identifier of their own are admitted. \<open>plugin_view\<close> is the declaration as the rest of the runtime reads it.
\<close>

section \<open>Declarations as they arrive\<close>

text \<open>A counted array: its pointer, null or to the records there, and its count.\<close>

type_synonym 'a counted = "'a list option \<times> u32"

definition elements :: "'a counted \<Rightarrow> 'a list" where
  "elements items = (case fst items of None \<Rightarrow> [] | Some xs \<Rightarrow> take (unat (snd items)) xs)"

text \<open>A value whose kind names no member of the union is \<open>None\<close>, a null callback too.\<close>

record Abi_Setting =
  as_key :: FC_Text
  as_description :: FC_Text
  as_section :: FC_Text
  as_environment :: FC_Text
  as_default_value :: "FC_Value option"
  as_constraints :: FC_Text
  as_validate :: "(FC_Value \<Rightarrow> u32 \<times> (FC_Text \<times> u32) option) option"

record Abi_Image =
  ai_name :: FC_Text
  ai_selectors :: "FC_Text counted"

record Abi_Variant =
  av_images :: "Abi_Image counted"
  av_role :: u32
  av_failure_policy :: u32
  av_depends_on :: "FC_Text counted"
  av_settings :: "Abi_Setting counted"
  av_has_factory :: bool

record Abi_Patch =
  at_id :: FC_Text
  at_description :: FC_Text
  at_category :: FC_Text
  at_enabled :: u32
  at_configurable :: u32
  at_failure_policy :: u32
  at_update_interval_ms :: "64 word"
  at_depends_on :: "FC_Text counted"
  at_variants :: "Abi_Variant counted"

record Abi_Group =
  ag_id :: FC_Text
  ag_description :: FC_Text
  ag_category :: FC_Text
  ag_members :: "FC_Text counted"
  ag_enabled :: u32
  ag_configurable :: u32

record Abi_Category =
  ay_id :: FC_Text
  ay_has_order :: u32
  ay_order :: u32

record Abi_Plugin =
  ab_byte_size :: nat
  ab_id :: FC_Text
  ab_version :: FC_Text
  ab_categories :: "Abi_Category counted"
  ab_groups :: "Abi_Group counted"
  ab_patches :: "Abi_Patch counted"

subsection \<open>The view of a declaration\<close>

definition setting_view :: "Abi_Setting \<Rightarrow> FC_Setting" where
  "setting_view setting =
    \<lparr>fs_key = view (as_key setting), fs_description = view (as_description setting), fs_section = view (as_section setting),
     fs_environment = view (as_environment setting), fs_default_value = the (as_default_value setting),
     fs_constraints = view (as_constraints setting), fs_validate = the (as_validate setting)\<rparr>"

definition variant_view :: "Abi_Variant \<Rightarrow> FC_Variant" where
  "variant_view variant =
    \<lparr>fv_images = map (\<lambda>img. \<lparr>ir_name = view (ai_name img), ir_selectors = map view (elements (ai_selectors img))\<rparr>)
       (elements (av_images variant)),
     fv_role = av_role variant, fv_failure_policy = av_failure_policy variant,
     fv_depends_on = map view (elements (av_depends_on variant)),
     fv_settings = map setting_view (elements (av_settings variant))\<rparr>"

definition patch_view :: "Abi_Patch \<Rightarrow> FC_Patch" where
  "patch_view patch =
    \<lparr>fp_id = view (at_id patch), fp_description = view (at_description patch), fp_category = view (at_category patch),
     fp_enabled = at_enabled patch, fp_configurable = at_configurable patch, fp_failure_policy = at_failure_policy patch,
     fp_update_interval_ms = at_update_interval_ms patch, fp_depends_on = map view (elements (at_depends_on patch)),
     fp_variants = map variant_view (elements (at_variants patch))\<rparr>"

definition group_view :: "Abi_Group \<Rightarrow> FC_Group" where
  "group_view grp =
    \<lparr>fg_id = view (ag_id grp), fg_description = view (ag_description grp), fg_category = view (ag_category grp),
     fg_members = map view (elements (ag_members grp)), fg_enabled = ag_enabled grp, fg_configurable = ag_configurable grp\<rparr>"

definition plugin_view :: "Abi_Plugin \<Rightarrow> FC_Plugin" where
  "plugin_view plugin =
    \<lparr>fl_id = view (ab_id plugin), fl_version = view (ab_version plugin),
     fl_categories = map (\<lambda>category. \<lparr>fc_id = view (ay_id category), fc_has_order = ay_has_order category,
       fc_order = ay_order category\<rparr>) (elements (ab_categories plugin)),
     fl_groups = map group_view (elements (ab_groups plugin)), fl_patches = map patch_view (elements (ab_patches plugin))\<rparr>"

text \<open>The bytes a record supplies must reach through its patch count.\<close>

fun kRequiredPluginPrefix :: "FC_Architecture \<Rightarrow> nat" where
  "kRequiredPluginPrefix FC_ARCH_X86 = 44"
| "kRequiredPluginPrefix FC_ARCH_X64 = 84"

section \<open>Names\<close>

definition is_ascii_whitespace :: "char \<Rightarrow> bool" where
  "is_ascii_whitespace c \<longleftrightarrow> c = CHR '' '' \<or> c = CHR 0x09 \<or> c = CHR 0x0d \<or> c = CHR 0x0a \<or> c = CHR 0x0c \<or> c = CHR 0x0b"

definition prohibited :: "char \<Rightarrow> bool \<Rightarrow> string option" where
  "prohibited c key =
    (let code = (of_char c :: nat)
     in if code < 0x20 \<or> code = 0x7f then Some (''contains prohibited control byte '' @ decimal code)
        else if c = CHR ''['' \<or> c = CHR '']'' \<or> (key \<and> c = CHR ''='') then Some (''contains prohibited character '' @ quoted [c])
        else None)"

text \<open>The first of several results that is one, and the first failure a loop meets.\<close>

fun first_some :: "'a option list \<Rightarrow> 'a option" where
  "first_some [] = None"
| "first_some (None # rest) = first_some rest"
| "first_some (Some x # rest) = Some x"

lemma first_some_None [simp]: "first_some results = None \<longleftrightarrow> (\<forall>r \<in> set results. r = None)"
  by (induction results rule: first_some.induct) auto

definition ini_name_failure :: "string \<Rightarrow> bool \<Rightarrow> string option" where
  "ini_name_failure value' key =
    (if value' = [] then Some ''must not be empty''
     else if is_ascii_whitespace (hd value') \<or> is_ascii_whitespace (List.last value')
     then Some ''must not begin or end with whitespace''
     else if key \<and> (hd value' = CHR '';'' \<or> hd value' = CHR ''#'')
     then Some (''must not begin with '' @ quoted '';'' @ '' or '' @ quoted ''#'')
     else first_some (map (\<lambda>c. prohibited c key) value'))"

definition filename_character :: "char \<Rightarrow> string option" where
  "filename_character c =
    (if c \<in> set ''<>:/|?*'' \<or> c = CHR 0x22 \<or> c = CHR 0x5c then Some (''contains prohibited Windows filename character '' @ quoted [c]) else None)"

definition plugin_id_failure :: "string \<Rightarrow> string option" where
  "plugin_id_failure value' =
    first_some (ini_name_failure value' False #
      (if CHR ''.'' \<in> set value' then Some (''must not contain '' @ quoted ''.'') else None) # map filename_character value')"

definition local_id_failure :: "string \<Rightarrow> string option" where
  "local_id_failure value' =
    first_some [ini_name_failure value' True, if CHR ''.'' \<in> set value' then Some (''must not contain '' @ quoted ''.'') else None]"

definition is_valid_dependency_reference :: "string \<Rightarrow> bool" where
  "is_valid_dependency_reference value' \<longleftrightarrow>
    (case split_at CHR ''.'' value' of
       None \<Rightarrow> local_id_failure value' = None
     | Some (plugin_id, local_id) \<Rightarrow>
         if plugin_id = [] \<or> local_id = [] \<or> CHR ''.'' \<in> set local_id then False
         else plugin_id_failure plugin_id = None \<and> local_id_failure local_id = None)"

definition is_valid_profile_selector :: "string \<Rightarrow> bool" where
  "is_valid_profile_selector selector \<longleftrightarrow> selector \<noteq> [] \<and>
    (case split_at CHR ''*'' selector of None \<Rightarrow> True | Some (stem, rest) \<Rightarrow> rest = [])"

section \<open>Fields\<close>

definition check_text :: "platform \<Rightarrow> string \<Rightarrow> bool \<Rightarrow> string \<times> FC_Text \<Rightarrow> Diagnostic option" where
  "check_text plat owner allow_null labelled = (case labelled of (field, text') \<Rightarrow>
    if ft_size text' \<noteq> 0 \<and> ft_data text' = None
    then Some (diagnostic owner (field @ '' declares '' @ decimal (ft_size text') @ '' bytes but its data pointer is null''))
    else if \<not> utf8 (plat_utf8 plat) (view text') allow_null
    then Some (diagnostic owner (field @ '' is too long, contains a prohibited null byte or could not be decoded as UTF-8''))
    else None)"

text \<open>Several texts in turn.\<close>

definition check_texts :: "platform \<Rightarrow> string \<Rightarrow> (string \<times> FC_Text) list \<Rightarrow> Diagnostic option" where
  "check_texts plat owner labelled = first_some (map (check_text plat owner False) labelled)"

definition check_array :: "string \<Rightarrow> string \<Rightarrow> 'a counted \<Rightarrow> Diagnostic option" where
  "check_array owner field items =
    (if snd items \<noteq> 0 \<and> Option.is_none (fst items)
     then Some (diagnostic owner (''The '' @ field @ '' array declares '' @ decimal (unat (snd items)) @ '' entries but its data pointer is null''))
     else None)"

text \<open>A condition that must not hold.\<close>

definition refuse :: "string \<Rightarrow> bool \<Rightarrow> string \<Rightarrow> Diagnostic option" where
  "refuse owner wrong message = (if wrong then Some (diagnostic owner message) else None)"

lemma refuse_None [simp]: "refuse owner wrong message = None \<longleftrightarrow> \<not> wrong"
  by (simp add: refuse_def)

definition refuse_name :: "string \<Rightarrow> string \<Rightarrow> string option \<Rightarrow> Diagnostic option" where
  "refuse_name owner subject problem = map_option (\<lambda>problem. diagnostic owner (subject @ '' '' @ problem)) problem"

lemma refuse_name_None [simp]: "refuse_name owner subject problem = None \<longleftrightarrow> problem = None"
  by (simp add: refuse_name_def)

text \<open>A check in front of what follows, and a loop that hands a state from one record to the next.\<close>

definition unless :: "'e option \<Rightarrow> 'e + 'a \<Rightarrow> 'e + 'a" where
  "unless problem rest = (case problem of Some e \<Rightarrow> Inl e | None \<Rightarrow> rest)"

lemma unless_Inr [simp]: "unless problem rest = Inr x \<longleftrightarrow> problem = None \<and> rest = Inr x"
  by (simp add: unless_def split: option.split)

fun check_each :: "('s \<Rightarrow> 'a \<Rightarrow> 'e + 's) \<Rightarrow> 's \<Rightarrow> 'a list \<Rightarrow> 'e + 's" where
  "check_each step state [] = Inr state"
| "check_each step state (x # xs) = (case step state x of Inl e \<Rightarrow> Inl e | Inr state \<Rightarrow> check_each step state xs)"

section \<open>Categories, settings and images\<close>

definition check_category :: "platform \<Rightarrow> string \<Rightarrow> string set \<Rightarrow> Abi_Category \<Rightarrow> Diagnostic + string set" where
  "check_category plat owner seen category =
    (let ident = view (ay_id category)
     in unless (check_text plat owner False (''category ID'', ay_id category))
       (unless (refuse_name owner (''category ID '' @ quoted ident) (ini_name_failure ident False))
       (unless (refuse owner (ay_has_order category > 1)
         (''category '' @ quoted ident @ '' has_order value is '' @ decimal (unat (ay_has_order category)) @ ''; expected 0 or 1''))
       (unless (refuse owner (folded_id ident \<in> seen) (''duplicate category ID '' @ quoted ident))
         (Inr (insert (folded_id ident) seen))))))"

definition no_reason :: string where
  "no_reason = ''No further reason was reported''"

text \<open>The default passes the declared domain and then the plugin's validator, whose report becomes the diagnostic.\<close>

definition check_default :: "string \<Rightarrow> string \<Rightarrow> FC_Value \<Rightarrow> (FC_Value \<Rightarrow> u32 \<times> (FC_Text \<times> u32) option) \<Rightarrow> Diagnostic option" where
  "check_default owner subject value' validate' =
    (let rejected = (\<lambda>reason code. Some ((diagnostic owner (subject @ '' default failed validation: '' @ reason))\<lparr>dg_windows_error := code\<rparr>))
     in if (case value' of FV_Bool b \<Rightarrow> b > 1 | FV_Real d \<Rightarrow> \<not> isfinite d | _ \<Rightarrow> False) then rejected no_reason 0
        else case validate' value' of (status, reported) \<Rightarrow>
          if status = 1 then None
          else case reported of
            None \<Rightarrow> rejected no_reason 0
          | Some (message, code) \<Rightarrow>
              rejected (if ft_size message \<noteq> 0 \<and> \<not> Option.is_none (ft_data message) then view message else no_reason) code)"

definition check_setting :: "platform \<Rightarrow> string \<Rightarrow> string set \<Rightarrow> Abi_Patch \<Rightarrow> string set \<Rightarrow> Abi_Setting \<Rightarrow> Diagnostic + string set" where
  "check_setting plat owner category_ids patch seen setting =
    (let ident = view (at_id patch); key = view (as_key setting); sec = view (as_section setting)
     in unless (check_texts plat owner [(''setting key'', as_key setting), (''setting subsection'', as_section setting),
          (''setting description'', as_description setting), (''setting environment'', as_environment setting),
          (''setting constraints'', as_constraints setting)])
       (unless (refuse owner (ini_name_failure key True \<noteq> None \<or> (sec \<noteq> [] \<and> ini_name_failure sec False \<noteq> None))
         (''Patch '' @ quoted ident @ '' has an invalid setting key or subsection''))
       (unless (refuse owner (sec \<noteq> [] \<and> folded_id (ident @ ''.'' @ sec) \<in> category_ids)
         ''Generated INI subsection for a patch conflicts with another declaration'')
       (unless (refuse owner (identity sec key \<in> seen) (''Patch '' @ quoted ident @ '' has a duplicate setting key''))
       (unless (refuse owner (at_configurable patch \<noteq> 0 \<and> view (at_category patch) = [] \<and> sec = [] \<and> folded_id key = ''enabled'')
         (''Patch '' @ quoted ident @ '' setting conflicts with its enabled control''))
       (unless (refuse owner (Option.is_none (as_default_value setting) \<or> Option.is_none (as_validate setting))
         (''Setting '' @ quoted key @ '' has an invalid default value type or no validation callback''))
       (unless (case the (as_default_value setting) of FV_Text text' \<Rightarrow> check_text plat owner True (''setting default'', text') | _ \<Rightarrow> None)
       (unless (check_default owner (''Patch '' @ quoted ident @ '' setting ['' @ ident @ (if sec = [] then [] else ''.'' @ sec) @ ''].'' @ key)
          (the (as_default_value setting)) (the (as_validate setting)))
         (Inr (insert (identity sec key) seen))))))))))"

definition check_selector :: "platform \<Rightarrow> string \<Rightarrow> string \<Rightarrow> FC_Text \<Rightarrow> Diagnostic option" where
  "check_selector plat owner name selector =
    first_some [check_text plat owner False (''image selector'', selector),
      refuse owner (\<not> is_valid_profile_selector (view selector))
        (''image '' @ quoted name @ '' selector '' @ quoted (view selector) @ '' must be an exact profile ID or end with one '' @ quoted ''*'' @ '' wildcard'')]"

definition check_image :: "platform \<Rightarrow> string \<Rightarrow> string \<Rightarrow> string set \<Rightarrow> Abi_Image \<Rightarrow> Diagnostic + string set" where
  "check_image plat owner ident seen img =
    (let name = view (ai_name img)
     in unless (check_text plat owner False (''image label'', ai_name img))
       (unless (refuse owner (name = []) (''patch '' @ quoted ident @ '' has an empty image label''))
       (unless (refuse owner (folded_id name \<in> seen) (''patch '' @ quoted ident @ '' has a duplicate image label''))
       (unless (check_array owner ''image selectors'' (ai_selectors img))
       (unless (refuse owner (snd (ai_selectors img) = 0) (''image '' @ quoted name @ '' must declare at least one profile selector''))
       (unless (first_some (map (check_selector plat owner name) (elements (ai_selectors img))))
         (Inr (insert (folded_id name) seen))))))))"

definition check_dependency :: "platform \<Rightarrow> string \<Rightarrow> string \<Rightarrow> string \<Rightarrow> FC_Text \<Rightarrow> Diagnostic option" where
  "check_dependency plat owner field subject reference =
    first_some [check_text plat owner False (field, reference),
      refuse owner (\<not> is_valid_dependency_reference (view reference))
        (subject @ '' dependency '' @ quoted (view reference) @ '' must name a patch or group in this plugin, or use exactly plugin.local_id'')]"

section \<open>Variants, patches and groups\<close>

definition valid_policy :: "u32 \<Rightarrow> bool" where
  "valid_policy policy \<longleftrightarrow> policy = FC_FAILURE_CONTINUE \<or> policy = FC_FAILURE_FATAL"

definition valid_role :: "u32 \<Rightarrow> bool" where
  "valid_role role \<longleftrightarrow> role = FC_ROLE_CLIENT \<or> role = FC_ROLE_SERVER \<or> role = FC_ROLE_ALL"

definition check_variant :: "platform \<Rightarrow> string \<Rightarrow> string set \<Rightarrow> Abi_Patch \<Rightarrow> Abi_Variant \<Rightarrow> Diagnostic + unit" where
  "check_variant plat owner category_ids patch variant =
    (let ident = view (at_id patch); subject = ''patch '' @ quoted ident @ '' variant''
     in unless (refuse owner (\<not> valid_role (av_role variant))
          (subject @ '' has role '' @ decimal (unat (av_role variant)) @ ''; expected 1 (Client), 2 (Server), or 3 (All)''))
       (unless (refuse owner (\<not> valid_policy (av_failure_policy variant))
         (subject @ '' has failure policy '' @ decimal (unat (av_failure_policy variant)) @ ''; expected 0 (Continue) or 1 (Fatal)''))
       (unless (refuse owner (\<not> av_has_factory variant) (subject @ '' must provide a handler factory''))
       (unless (first_some [check_array owner ''variant settings'' (av_settings variant), check_array owner ''variant images'' (av_images variant),
         check_array owner ''variant dependencies'' (av_depends_on variant)])
       (unless (refuse owner (snd (av_images variant) = 0) (subject @ '' must declare at least one required image''))
       (case check_each (check_setting plat owner category_ids patch) {} (elements (av_settings variant)) of
          Inl e \<Rightarrow> Inl e
        | Inr _ \<Rightarrow>
            (case check_each (check_image plat owner ident) {} (elements (av_images variant)) of
               Inl e \<Rightarrow> Inl e
             | Inr _ \<Rightarrow>
                 unless (first_some (map (check_dependency plat owner ''variant dependency'' subject) (elements (av_depends_on variant))))
                   (Inr ()))))))))"

text \<open>The identifiers of the patches so far, twice: the local identifiers go on to the groups.\<close>

definition check_patch :: "platform \<Rightarrow> string \<Rightarrow> string set \<Rightarrow> string set \<times> string set \<Rightarrow> Abi_Patch \<Rightarrow>
    Diagnostic + string set \<times> string set" where
  "check_patch plat owner category_ids state patch = (case state of (patch_ids, local_ids) \<Rightarrow>
    let ident = view (at_id patch); category = view (at_category patch); subject = ''patch '' @ quoted ident
    in unless (check_texts plat owner [(''patch ID'', at_id patch), (''patch description'', at_description patch),
         (''patch category'', at_category patch)])
      (unless (refuse_name owner (''patch ID '' @ quoted ident) (local_id_failure ident))
      (unless (refuse owner (folded_id ident \<in> local_ids)
        (''patch or group ID '' @ quoted ident @ '' duplicates another patch or group ID''))
      (unless (refuse owner (folded_id ident \<in> category_ids) (''Generated INI section ['' @ ident @ ''] conflicts with a category''))
      (unless (refuse owner (category \<noteq> [] \<and> folded_id category \<notin> category_ids)
        (subject @ '' references unknown category '' @ quoted category))
      (unless (refuse owner (at_enabled patch > 1)
        (subject @ '' has enabled value '' @ decimal (unat (at_enabled patch)) @ ''; expected 0 or 1''))
      (unless (refuse owner (at_configurable patch > 1)
        (subject @ '' has configurable value '' @ decimal (unat (at_configurable patch)) @ ''; expected 0 or 1''))
      (unless (refuse owner (\<not> valid_policy (at_failure_policy patch))
        (subject @ '' has failure policy '' @ decimal (unat (at_failure_policy patch)) @ ''; expected 0 (Continue) or 1 (Fatal)''))
      (unless (refuse owner (sint (at_update_interval_ms patch) \<le> 0) (subject @ '' update interval must be greater than 0 milliseconds''))
      (unless (first_some [check_array owner ''patch dependencies'' (at_depends_on patch), check_array owner ''patch variants'' (at_variants patch)])
      (unless (first_some (map (check_dependency plat owner ''patch dependency'' subject) (elements (at_depends_on patch))))
      (case check_each (\<lambda>_. check_variant plat owner category_ids patch) () (elements (at_variants patch)) of
         Inl e \<Rightarrow> Inl e
       | Inr _ \<Rightarrow> Inr (insert (folded_id ident) patch_ids, insert (folded_id ident) local_ids)))))))))))))"

definition check_member :: "platform \<Rightarrow> string \<Rightarrow> string set \<Rightarrow> string \<Rightarrow> (string \<times> string) list \<Rightarrow> FC_Text \<Rightarrow>
    Diagnostic + (string \<times> string) list" where
  "check_member plat owner patch_ids ident memberships text' =
    (let member = view text'
     in unless (check_text plat owner False (''group member'', text'))
       (unless (refuse owner (folded_id member \<notin> patch_ids)
         (''group '' @ quoted ident @ '' references unknown patch member '' @ quoted member))
       (case map_of memberships (folded_id member) of
          Some first \<Rightarrow> Inl (diagnostic owner (''patch '' @ quoted member @ '' belongs to more than one group ('' @ quoted first @ '' and '' @
            quoted ident @ '')''))
        | None \<Rightarrow> Inr (memberships @ [(folded_id member, ident)]))))"

definition check_group :: "platform \<Rightarrow> string \<Rightarrow> string set \<Rightarrow> string set \<Rightarrow> string set \<times> (string \<times> string) list \<Rightarrow> Abi_Group \<Rightarrow>
    Diagnostic + string set \<times> (string \<times> string) list" where
  "check_group plat owner category_ids patch_ids state grp = (case state of (local_ids, memberships) \<Rightarrow>
    let ident = view (ag_id grp); category = view (ag_category grp); subject = ''group '' @ quoted ident
    in unless (check_texts plat owner [(''group ID'', ag_id grp), (''group description'', ag_description grp),
         (''group category'', ag_category grp)])
      (unless (refuse_name owner (''group ID '' @ quoted ident) (local_id_failure ident))
      (unless (refuse owner (folded_id ident \<in> local_ids)
        (''patch or group ID '' @ quoted ident @ '' duplicates another patch or group ID''))
      (unless (refuse owner (category \<noteq> [] \<and> folded_id category \<notin> category_ids)
        (subject @ '' references unknown category '' @ quoted category))
      (unless (refuse owner (ag_enabled grp > 1)
        (subject @ '' has enabled value '' @ decimal (unat (ag_enabled grp)) @ ''; expected 0 or 1''))
      (unless (refuse owner (ag_configurable grp > 1)
        (subject @ '' has configurable value '' @ decimal (unat (ag_configurable grp)) @ ''; expected 0 or 1''))
      (unless (refuse owner (ag_configurable grp \<noteq> 0 \<and> category = [] \<and> folded_id ident \<in> category_ids)
        ''Generated INI section for a group conflicts with another declaration'')
      (unless (check_array owner ''group members'' (ag_members grp))
      (case check_each (check_member plat owner patch_ids ident) memberships (elements (ag_members grp)) of
         Inl e \<Rightarrow> Inl e
       | Inr memberships \<Rightarrow> Inr (insert (folded_id ident) local_ids, memberships))))))))))"

section \<open>Admission\<close>

definition validate_plugin_definition :: "FC_Architecture \<Rightarrow> platform \<Rightarrow> string \<Rightarrow> Abi_Plugin option \<Rightarrow> Diagnostic option" where
  "validate_plugin_definition arch plat owner definition' =
    (case definition' of
       None \<Rightarrow> Some (diagnostic owner ''plugin definition pointer is null'')
     | Some plugin \<Rightarrow>
         let ident = view (ab_id plugin);
             checked =
               unless (refuse owner (ab_byte_size plugin < kRequiredPluginPrefix arch)
                 (''FC_Plugin record supplies '' @ decimal (ab_byte_size plugin) @ '' bytes; at least '' @
                   decimal (kRequiredPluginPrefix arch) @ '' bytes are required''))
               (unless (check_texts plat owner [(''plugin ID'', ab_id plugin), (''plugin version'', ab_version plugin)])
               (unless (refuse_name owner (''plugin ID '' @ quoted ident) (plugin_id_failure ident))
               (unless (refuse owner (view (ab_version plugin) = []) ''plugin version is empty'')
               (unless (first_some [check_array owner ''categories'' (ab_categories plugin), check_array owner ''groups'' (ab_groups plugin),
                 check_array owner ''patches'' (ab_patches plugin)])
               (case check_each (check_category plat owner) {} (elements (ab_categories plugin)) of
                  Inl e \<Rightarrow> Inl e
                | Inr category_ids \<Rightarrow>
                    (case check_each (check_patch plat owner category_ids) ({}, {}) (elements (ab_patches plugin)) of
                       Inl e \<Rightarrow> Inl e
                     | Inr (patch_ids, local_ids) \<Rightarrow>
                         check_each (check_group plat owner category_ids patch_ids) (local_ids, []) (elements (ab_groups plugin))))))))
         in case checked of Inl error \<Rightarrow> Some error | Inr _ \<Rightarrow> None)"

type_synonym candidate = "string \<times> Abi_Plugin option"

definition candidate_id :: "candidate \<Rightarrow> string" where
  "candidate_id candidate = folded_id (view (ab_id (the (snd candidate))))"

definition valid_candidate :: "FC_Architecture \<Rightarrow> platform \<Rightarrow> candidate \<Rightarrow> bool" where
  "valid_candidate arch plat candidate \<longleftrightarrow> validate_plugin_definition arch plat (fst candidate) (snd candidate) = None"

text \<open>Why one of several candidates with an identifier is refused: the labels of the others. Candidates are told apart
  by their place.\<close>

definition other_owners :: "candidate list \<Rightarrow> nat \<Rightarrow> string" where
  "other_owners owners i =
    foldl (\<lambda>others j. (if others = [] then [] else others @ '', '') @ fst (owners ! j)) [] (filter (\<lambda>j. j \<noteq> i) [0..<length owners])"

definition conflict_diagnostics :: "string \<Rightarrow> candidate list \<Rightarrow> Diagnostic list" where
  "conflict_diagnostics ident owners =
    (if length owners < 2 then []
     else map (\<lambda>i. diagnostic (fst (owners ! i)) (''plugin ID conflicts with '' @
         other_owners owners i @
         '' (ASCII case-insensitive ID '' @ quoted ident @ '')'')) [0..<length owners])"

text \<open>\<open>buckets\<close> is the order in which the hash map visits the identifiers; it decides the order of the diagnostics only.\<close>

definition admit_definitions :: "FC_Architecture \<Rightarrow> platform \<Rightarrow> (string list \<Rightarrow> string list) \<Rightarrow> candidate list \<Rightarrow> AdmissionResult" where
  "admit_definitions arch plat buckets candidates =
    (let validated = filter (valid_candidate arch plat) candidates;
         owners = (\<lambda>ident. filter (\<lambda>candidate. candidate_id candidate = ident) validated)
     in \<lparr>ad_admitted = map (\<lambda>(owner, definition'). \<lparr>ap_owner = owner, ap_definition = plugin_view (the definition')\<rparr>)
           (filter (\<lambda>candidate. length (owners (candidate_id candidate)) = 1) validated),
         ad_diagnostics = concat (map (\<lambda>(owner, definition'). case validate_plugin_definition arch plat owner definition' of
             Some error \<Rightarrow> [error] | None \<Rightarrow> []) candidates) @
           concat (map (\<lambda>ident. conflict_diagnostics ident (owners ident)) (buckets (remdups (map candidate_id validated))))\<rparr>)"

end
