(* ===== verification/Plugin_Admission_Laws.thy ===== *)
theory Plugin_Admission_Laws
  imports Plugin_Admission
begin

text \<open>
  What admission guarantees: a declaration that passes has identifiers, groups and settings that cannot be confused, no two
  entries of its configuration file collide, and the admitted plugins are exactly the valid ones with an identifier
  of their own.
\<close>

section \<open>Loops that collect\<close>

lemma check_each_insert:
  assumes "check_each step s xs = Inr s'" and "I s"
    and "\<And>s x s'. I s \<Longrightarrow> step s x = Inr s' \<Longrightarrow> I s' \<and> g s' = insert (f x) (g s) \<and> f x \<notin> g s \<and> P x"
  shows "I s' \<and> g s' = g s \<union> f ` set xs \<and> distinct (map f xs) \<and> f ` set xs \<inter> g s = {} \<and> (\<forall>x \<in> set xs. P x)"
  using assms(1,2)
proof (induction xs arbitrary: s)
  case (Cons x xs)
  then obtain t where step: "step s x = Inr t" and rest: "check_each step t xs = Inr s'" by (auto split: sum.splits)
  note first = assms(3) [OF Cons.prems(2) step]
  have "I s' \<and> g s' = g t \<union> f ` set xs \<and> distinct (map f xs) \<and> f ` set xs \<inter> g t = {} \<and> (\<forall>x \<in> set xs. P x)"
    using Cons.IH [OF rest] first by blast
  then show ?case using first by auto
qed simp

lemma check_each_append:
  assumes "check_each step s xs = Inr s'" and "distinct (g s)"
    and "\<And>s x s'. distinct (g s) \<Longrightarrow> step s x = Inr s' \<Longrightarrow> g s' = g s @ f x \<and> distinct (g s')"
  shows "g s' = g s @ concat (map f xs) \<and> distinct (g s')"
  using assms(1,2)
proof (induction xs arbitrary: s)
  case (Cons x xs)
  then obtain t where step: "step s x = Inr t" and rest: "check_each step t xs = Inr s'" by (auto split: sum.splits)
  note first = assms(3) [OF Cons.prems(2) step]
  then have "g s' = g t @ concat (map f xs)" and "distinct (g s')" using Cons.IH [OF rest] by blast+
  moreover have "g t = g s @ f x" using first by blast
  ultimately show ?case unfolding list.map concat.simps by (metis append.assoc)
qed simp

lemma check_each_all:
  assumes "check_each (\<lambda>_. step) u xs = Inr v" and "x \<in> set xs"
  shows "\<exists>w. step x = Inr w"
  using assms by (induction xs arbitrary: u) (auto split: sum.splits)

section \<open>An accepted declaration\<close>

abbreviation category_ids :: "FC_Plugin \<Rightarrow> string set" where
  "category_ids plugin \<equiv> (\<lambda>category. folded_id (fc_id category)) ` set (fl_categories plugin)"

definition setting_ok :: "FC_Plugin \<Rightarrow> FC_Patch \<Rightarrow> FC_Setting \<Rightarrow> bool" where
  "setting_ok plugin patch setting \<longleftrightarrow>
    ini_name_failure (fs_key setting) True = None \<and>
    (fs_section setting \<noteq> [] \<longrightarrow> ini_name_failure (fs_section setting) False = None \<and>
      folded_id (fp_id patch @ ''.'' @ fs_section setting) \<notin> category_ids plugin) \<and>
    \<not> (fp_configurable patch \<noteq> 0 \<and> fp_category patch = [] \<and> fs_section setting = [] \<and> folded_id (fs_key setting) = ''enabled'') \<and>
    (\<exists>reported. fs_validate setting (fs_default_value setting) = (1, reported))"

definition variant_ok :: "FC_Plugin \<Rightarrow> FC_Patch \<Rightarrow> FC_Variant \<Rightarrow> bool" where
  "variant_ok plugin patch variant \<longleftrightarrow> valid_role (fv_role variant) \<and> valid_policy (fv_failure_policy variant) \<and>
    (\<forall>reference \<in> set (fv_depends_on variant). is_valid_dependency_reference reference) \<and>
    distinct (map (\<lambda>img. folded_id (ir_name img)) (fv_images variant)) \<and>
    (\<forall>img \<in> set (fv_images variant). ir_name img \<noteq> [] \<and> (\<forall>selector \<in> set (ir_selectors img). is_valid_profile_selector selector)) \<and>
    distinct (map (\<lambda>setting. identity (fs_section setting) (fs_key setting)) (fv_settings variant)) \<and>
    (\<forall>setting \<in> set (fv_settings variant). setting_ok plugin patch setting)"

definition patch_ok :: "FC_Plugin \<Rightarrow> FC_Patch \<Rightarrow> bool" where
  "patch_ok plugin patch \<longleftrightarrow> local_id_failure (fp_id patch) = None \<and> folded_id (fp_id patch) \<notin> category_ids plugin \<and>
    (fp_category patch = [] \<or> folded_id (fp_category patch) \<in> category_ids plugin) \<and>
    fp_enabled patch \<le> 1 \<and> fp_configurable patch \<le> 1 \<and> valid_policy (fp_failure_policy patch) \<and> 0 < sint (fp_update_interval_ms patch) \<and>
    (\<forall>reference \<in> set (fp_depends_on patch). is_valid_dependency_reference reference) \<and>
    (\<forall>variant \<in> set (fp_variants patch). variant_ok plugin patch variant)"

definition group_ok :: "FC_Plugin \<Rightarrow> FC_Group \<Rightarrow> bool" where
  "group_ok plugin grp \<longleftrightarrow> local_id_failure (fg_id grp) = None \<and>
    (fg_category grp = [] \<or> folded_id (fg_category grp) \<in> category_ids plugin) \<and> fg_enabled grp \<le> 1 \<and> fg_configurable grp \<le> 1 \<and>
    (fg_configurable grp \<noteq> 0 \<and> fg_category grp = [] \<longrightarrow> folded_id (fg_id grp) \<notin> category_ids plugin) \<and>
    (\<forall>member \<in> set (fg_members grp). folded_id member \<in> (\<lambda>patch. folded_id (fp_id patch)) ` set (fl_patches plugin))"

definition declaration_ok :: "FC_Plugin \<Rightarrow> bool" where
  "declaration_ok plugin \<longleftrightarrow> plugin_id_failure (fl_id plugin) = None \<and> fl_version plugin \<noteq> [] \<and>
    (\<forall>category \<in> set (fl_categories plugin). ini_name_failure (fc_id category) False = None) \<and>
    distinct (map (\<lambda>category. folded_id (fc_id category)) (fl_categories plugin)) \<and>
    distinct (map folded_id (map fp_id (fl_patches plugin) @ map fg_id (fl_groups plugin))) \<and>
    (\<forall>patch \<in> set (fl_patches plugin). patch_ok plugin patch) \<and> (\<forall>grp \<in> set (fl_groups plugin). group_ok plugin grp) \<and>
    distinct (map folded_id (concat (map fg_members (fl_groups plugin))))"

lemma check_default_accepts: "check_default owner subject v validate' = None \<Longrightarrow> \<exists>reported. validate' v = (1, reported)"
  by (cases "validate' v") (auto simp: check_default_def Let_def split: if_splits option.splits prod.splits)

lemma check_dependency_ok: "check_dependency plat owner field subject reference = None \<Longrightarrow> is_valid_dependency_reference (view reference)"
  by (simp add: check_dependency_def)

lemma check_selector_ok: "check_selector plat owner name selector = None \<Longrightarrow> is_valid_profile_selector (view selector)"
  by (simp add: check_selector_def)

lemma view_fields [simp]:
  "fs_key (setting_view setting) = view (as_key setting)" "fs_section (setting_view setting) = view (as_section setting)"
  "fs_validate (setting_view setting) = the (as_validate setting)" "fs_default_value (setting_view setting) = the (as_default_value setting)"
  "fp_id (patch_view patch) = view (at_id patch)" "fp_category (patch_view patch) = view (at_category patch)"
  "fp_configurable (patch_view patch) = at_configurable patch" "fp_enabled (patch_view patch) = at_enabled patch"
  "fp_failure_policy (patch_view patch) = at_failure_policy patch" "fp_update_interval_ms (patch_view patch) = at_update_interval_ms patch"
  "fp_depends_on (patch_view patch) = map view (elements (at_depends_on patch))"
  "fp_variants (patch_view patch) = map variant_view (elements (at_variants patch))"
  "fg_id (group_view grp) = view (ag_id grp)" "fg_category (group_view grp) = view (ag_category grp)"
  "fg_members (group_view grp) = map view (elements (ag_members grp))" "fg_enabled (group_view grp) = ag_enabled grp"
  "fg_configurable (group_view grp) = ag_configurable grp"
  "fv_role (variant_view variant) = av_role variant" "fv_failure_policy (variant_view variant) = av_failure_policy variant"
  "fv_depends_on (variant_view variant) = map view (elements (av_depends_on variant))"
  "fv_settings (variant_view variant) = map setting_view (elements (av_settings variant))"
  "fl_id (plugin_view plugin) = view (ab_id plugin)" "fl_version (plugin_view plugin) = view (ab_version plugin)"
  "fl_patches (plugin_view plugin) = map patch_view (elements (ab_patches plugin))"
  "fl_groups (plugin_view plugin) = map group_view (elements (ab_groups plugin))"
  by (simp_all add: setting_view_def patch_view_def group_view_def variant_view_def plugin_view_def)

lemma check_setting_ok:
  assumes "check_setting plat owner (category_ids plugin) patch seen setting = Inr seen'"
  shows "seen' = insert (identity (view (as_section setting)) (view (as_key setting))) seen \<and>
    identity (view (as_section setting)) (view (as_key setting)) \<notin> seen \<and> setting_ok plugin (patch_view patch) (setting_view setting)"
  using assms check_default_accepts unfolding check_setting_def Let_def setting_ok_def unless_Inr refuse_None by auto

lemma check_image_ok:
  assumes "check_image plat owner ident seen img = Inr seen'"
  shows "seen' = insert (folded_id (view (ai_name img))) seen \<and> folded_id (view (ai_name img)) \<notin> seen \<and>
    view (ai_name img) \<noteq> [] \<and> (\<forall>selector \<in> set (elements (ai_selectors img)). is_valid_profile_selector (view selector))"
  using assms check_selector_ok by (auto simp: check_image_def Let_def)

lemma check_variant_ok:
  assumes "check_variant plat owner (category_ids plugin) patch variant = Inr u"
  shows "variant_ok plugin (patch_view patch) (variant_view variant)"
proof -
  from assms obtain seen names where
    heads: "valid_role (av_role variant)" "valid_policy (av_failure_policy variant)" and
    settings: "check_each (check_setting plat owner (category_ids plugin) patch) {} (elements (av_settings variant)) = Inr seen" and
    images: "check_each (check_image plat owner (view (at_id patch))) {} (elements (av_images variant)) = Inr names" and
    checked: "\<forall>reference \<in> set (elements (av_depends_on variant)).
      check_dependency plat owner ''variant dependency'' (''patch '' @ quoted (view (at_id patch)) @ '' variant'') reference = None"
    by (auto simp: check_variant_def Let_def split: sum.splits)
  have references: "\<forall>reference \<in> set (elements (av_depends_on variant)). is_valid_dependency_reference (view reference)"
    using checked check_dependency_ok by blast
  note s = check_each_insert [OF settings, of "\<lambda>_. True" id "\<lambda>setting. identity (view (as_section setting)) (view (as_key setting))"
      "\<lambda>setting. setting_ok plugin (patch_view patch) (setting_view setting)"]
  note i = check_each_insert [OF images, of "\<lambda>_. True" id "\<lambda>img. folded_id (view (ai_name img))"
      "\<lambda>img. view (ai_name img) \<noteq> [] \<and> (\<forall>selector \<in> set (elements (ai_selectors img)). is_valid_profile_selector (view selector))"]
  have "distinct (map (\<lambda>setting. identity (view (as_section setting)) (view (as_key setting))) (elements (av_settings variant)))"
    "\<forall>setting \<in> set (elements (av_settings variant)). setting_ok plugin (patch_view patch) (setting_view setting)"
    using s check_setting_ok by fastforce+
  moreover have "distinct (map (\<lambda>img. folded_id (view (ai_name img))) (elements (av_images variant)))"
    "\<forall>img \<in> set (elements (av_images variant)). view (ai_name img) \<noteq> [] \<and>
      (\<forall>selector \<in> set (elements (ai_selectors img)). is_valid_profile_selector (view selector))"
    using i check_image_ok by fastforce+
  ultimately show ?thesis using heads references by (simp add: variant_ok_def variant_view_def comp_def)
qed

lemma check_patch_ok:
  assumes "check_patch plat owner (category_ids plugin) state patch = Inr state'" and "fst state = snd state"
  shows "fst state' = snd state' \<and> snd state' = insert (folded_id (view (at_id patch))) (snd state) \<and>
    folded_id (view (at_id patch)) \<notin> snd state \<and> patch_ok plugin (patch_view patch)"
proof -
  obtain patch_ids local_ids where state: "state = (patch_ids, local_ids)" by (cases state)
  from assms(1) obtain u where
    heads: "local_id_failure (view (at_id patch)) = None" "folded_id (view (at_id patch)) \<notin> local_ids"
      "folded_id (view (at_id patch)) \<notin> category_ids plugin"
      "view (at_category patch) = [] \<or> folded_id (view (at_category patch)) \<in> category_ids plugin"
      "at_enabled patch \<le> 1" "at_configurable patch \<le> 1" "valid_policy (at_failure_policy patch)"
      "0 < sint (at_update_interval_ms patch)" and
    checked: "\<forall>reference \<in> set (elements (at_depends_on patch)).
      check_dependency plat owner ''patch dependency'' (''patch '' @ quoted (view (at_id patch))) reference = None" and
    variants: "check_each (\<lambda>_. check_variant plat owner (category_ids plugin) patch) () (elements (at_variants patch)) = Inr u" and
    final: "state' = (insert (folded_id (view (at_id patch))) patch_ids, insert (folded_id (view (at_id patch))) local_ids)"
    unfolding state by (auto simp: check_patch_def Let_def not_less not_le split: sum.splits)
  have "\<forall>reference \<in> set (elements (at_depends_on patch)). is_valid_dependency_reference (view reference)"
    using checked check_dependency_ok by blast
  moreover have "\<forall>variant \<in> set (elements (at_variants patch)). variant_ok plugin (patch_view patch) (variant_view variant)"
    using check_each_all [OF variants] check_variant_ok by blast
  ultimately have "patch_ok plugin (patch_view patch)" using heads by (simp add: patch_ok_def)
  then show ?thesis using heads final assms(2) state by simp
qed

lemma check_member_ok:
  assumes "check_member plat owner patch_ids ident memberships text' = Inr memberships'" and "distinct (map fst memberships)"
  shows "map fst memberships' = map fst memberships @ [folded_id (view text')] \<and> distinct (map fst memberships') \<and>
    folded_id (view text') \<in> patch_ids"
  using assms by (auto simp: check_member_def Let_def map_of_eq_None_iff split: option.splits)

lemma check_member_known:
  assumes "check_each (check_member plat owner patch_ids ident) memberships texts = Inr memberships'"
    and "text' \<in> set texts"
  shows "folded_id (view text') \<in> patch_ids"
  using assms
proof (induction texts arbitrary: memberships)
  case (Cons t texts)
  then show ?case by (auto simp: check_member_def Let_def split: sum.splits option.splits)
qed simp

lemma check_group_ok:
  assumes "check_group plat owner (category_ids plugin) patch_ids state grp = Inr state'" and "distinct (map fst (snd state))"
    and ids: "patch_ids = (\<lambda>patch. folded_id (fp_id patch)) ` set (fl_patches plugin)"
  shows "fst state' = insert (folded_id (view (ag_id grp))) (fst state) \<and> folded_id (view (ag_id grp)) \<notin> fst state \<and>
    group_ok plugin (group_view grp) \<and>
    map fst (snd state') = map fst (snd state) @ map (\<lambda>m. folded_id (view m)) (elements (ag_members grp)) \<and>
    distinct (map fst (snd state'))"
proof -
  obtain local_ids memberships where state: "state = (local_ids, memberships)" by (cases state)
  from assms(1) obtain memberships' where
    heads: "local_id_failure (view (ag_id grp)) = None" "folded_id (view (ag_id grp)) \<notin> local_ids"
      "view (ag_category grp) = [] \<or> folded_id (view (ag_category grp)) \<in> category_ids plugin"
      "ag_enabled grp \<le> 1" "ag_configurable grp \<le> 1"
      "\<not> (ag_configurable grp \<noteq> 0 \<and> view (ag_category grp) = [] \<and> folded_id (view (ag_id grp)) \<in> category_ids plugin)" and
    members: "check_each (check_member plat owner patch_ids (view (ag_id grp))) memberships (elements (ag_members grp)) = Inr memberships'" and
    final: "state' = (insert (folded_id (view (ag_id grp))) local_ids, memberships')"
    unfolding state check_group_def Let_def prod.case unless_Inr refuse_None refuse_name_None
    by (auto simp: not_less split: sum.splits)
  have "map fst memberships' = map fst memberships @ concat (map (\<lambda>m. [folded_id (view m)]) (elements (ag_members grp))) \<and>
    distinct (map fst memberships')"
  proof (rule check_each_append [OF members, of "map fst"])
    show "distinct (map fst memberships)" using assms(2) state by simp
  next
    fix s x s'
    assume "distinct (map fst s)" "check_member plat owner patch_ids (view (ag_id grp)) s x = Inr s'"
    then show "map fst s' = map fst s @ [folded_id (view x)] \<and> distinct (map fst s')" using check_member_ok by blast
  qed
  moreover have "concat (map (\<lambda>m. [folded_id (view m)]) xs) = map (\<lambda>m. folded_id (view m)) xs" for xs by (induction xs) auto
  ultimately have names: "map fst memberships' = map fst memberships @ map (\<lambda>m. folded_id (view m)) (elements (ag_members grp))"
    "distinct (map fst memberships')" by metis+
  have "group_ok plugin (group_view grp)" using heads check_member_known [OF members] ids by (auto simp: group_ok_def)
  then show ?thesis unfolding final state fst_conv snd_conv using heads(2) names by blast
qed

lemma check_category_ok:
  assumes "check_category plat owner seen category = Inr seen'"
  shows "seen' = insert (folded_id (view (ay_id category))) seen \<and> folded_id (view (ay_id category)) \<notin> seen \<and>
    ini_name_failure (view (ay_id category)) False = None"
  using assms by (auto simp: check_category_def Let_def)

lemma validated:
  assumes "validate_plugin_definition arch plat owner (Some plugin) = None"
  shows "declaration_ok (plugin_view plugin)"
proof -
  let ?plugin = "plugin_view plugin"
  from assms obtain ids patch_ids local_ids state where
    heads: "plugin_id_failure (view (ab_id plugin)) = None" "view (ab_version plugin) \<noteq> []" and
    categories: "check_each (check_category plat owner) {} (elements (ab_categories plugin)) = Inr ids" and
    patches: "check_each (check_patch plat owner ids) ({}, {}) (elements (ab_patches plugin)) = Inr (patch_ids, local_ids)" and
    groups: "check_each (check_group plat owner ids patch_ids) (local_ids, []) (elements (ab_groups plugin)) = Inr state"
    unfolding validate_plugin_definition_def Let_def option.case by (auto split: sum.splits)
  have c: "True \<and> id ids = id {} \<union> (\<lambda>category. folded_id (view (ay_id category))) ` set (elements (ab_categories plugin)) \<and>
    distinct (map (\<lambda>category. folded_id (view (ay_id category))) (elements (ab_categories plugin))) \<and>
    (\<lambda>category. folded_id (view (ay_id category))) ` set (elements (ab_categories plugin)) \<inter> id {} = {} \<and>
    (\<forall>category \<in> set (elements (ab_categories plugin)). ini_name_failure (view (ay_id category)) False = None)"
    by (rule check_each_insert [OF categories]) (use check_category_ok in fastforce)+
  have known: "ids = category_ids ?plugin" using c by (simp add: plugin_view_def image_image)
  have p: "fst (patch_ids, local_ids) = snd (patch_ids, local_ids) \<and>
    snd (patch_ids, local_ids) = snd ({} :: string set, {}) \<union> (\<lambda>patch. folded_id (view (at_id patch))) ` set (elements (ab_patches plugin)) \<and>
    distinct (map (\<lambda>patch. folded_id (view (at_id patch))) (elements (ab_patches plugin))) \<and>
    (\<lambda>patch. folded_id (view (at_id patch))) ` set (elements (ab_patches plugin)) \<inter> snd ({} :: string set, {}) = {} \<and>
    (\<forall>patch \<in> set (elements (ab_patches plugin)). patch_ok ?plugin (patch_view patch))"
  proof (rule check_each_insert [OF patches [unfolded known], where I = "\<lambda>state. fst state = snd state" and g = snd
        and f = "\<lambda>patch. folded_id (view (at_id patch))" and P = "\<lambda>patch. patch_ok ?plugin (patch_view patch)"])
    fix s x s'
    assume "fst s = snd s" "check_patch plat owner (category_ids ?plugin) s x = Inr s'"
    then show "fst s' = snd s' \<and> snd s' = insert (folded_id (view (at_id x))) (snd s) \<and> folded_id (view (at_id x)) \<notin> snd s \<and>
      patch_ok ?plugin (patch_view x)" using check_patch_ok by blast
  qed simp
  have patch_ids: "patch_ids = (\<lambda>patch. folded_id (fp_id patch)) ` set (fl_patches ?plugin)" and same: "local_ids = patch_ids"
    using p by (simp_all add: image_image)
  note step = check_group_ok [of plat owner ?plugin patch_ids, OF _ _ patch_ids]
  have g: "distinct (map fst (snd state)) \<and>
    fst state = fst (local_ids, [] :: (string \<times> string) list) \<union> (\<lambda>grp. folded_id (view (ag_id grp))) ` set (elements (ab_groups plugin)) \<and>
    distinct (map (\<lambda>grp. folded_id (view (ag_id grp))) (elements (ab_groups plugin))) \<and>
    (\<lambda>grp. folded_id (view (ag_id grp))) ` set (elements (ab_groups plugin)) \<inter> fst (local_ids, [] :: (string \<times> string) list) = {} \<and>
    (\<forall>grp \<in> set (elements (ab_groups plugin)). group_ok ?plugin (group_view grp))"
  proof (rule check_each_insert [OF groups [unfolded known], where I = "\<lambda>state. distinct (map fst (snd state))" and g = fst
        and f = "\<lambda>grp. folded_id (view (ag_id grp))" and P = "\<lambda>grp. group_ok ?plugin (group_view grp)"])
    fix s x s'
    assume "distinct (map fst (snd s))" "check_group plat owner (category_ids ?plugin) patch_ids s x = Inr s'"
    then show "distinct (map fst (snd s')) \<and> fst s' = insert (folded_id (view (ag_id x))) (fst s) \<and>
      folded_id (view (ag_id x)) \<notin> fst s \<and> group_ok ?plugin (group_view x)" using step by blast
  qed simp
  have m: "map fst (snd state) = map fst (snd (local_ids, [] :: (string \<times> string) list)) @
      concat (map (\<lambda>grp. map (\<lambda>m. folded_id (view m)) (elements (ag_members grp))) (elements (ab_groups plugin))) \<and>
    distinct (map fst (snd state))"
  proof (rule check_each_append [OF groups [unfolded known], of "\<lambda>state. map fst (snd state)"])
    fix s x s'
    assume "distinct (map fst (snd s))" "check_group plat owner (category_ids ?plugin) patch_ids s x = Inr s'"
    then show "map fst (snd s') = map fst (snd s) @ map (\<lambda>m. folded_id (view m)) (elements (ag_members x)) \<and>
      distinct (map fst (snd s'))" using step by blast
  qed simp
  have "distinct (map folded_id (concat (map fg_members (fl_groups ?plugin))))"
  proof -
    have "map fst (snd (local_ids, [] :: (string \<times> string) list)) = []" by simp
    then have "distinct (concat (map (\<lambda>grp. map (\<lambda>m. folded_id (view m)) (elements (ag_members grp))) (elements (ab_groups plugin))))"
      using m by (metis append_Nil)
    then show ?thesis by (simp add: map_concat comp_def)
  qed
  moreover have "distinct (map folded_id (map fp_id (fl_patches ?plugin) @ map fg_id (fl_groups ?plugin)))"
    using p g patch_ids same by (auto simp: comp_def)
  moreover have "distinct (map (\<lambda>category. folded_id (fc_id category)) (fl_categories ?plugin))"
    "\<forall>category \<in> set (fl_categories ?plugin). ini_name_failure (fc_id category) False = None"
    using c by (auto simp: plugin_view_def comp_def)
  ultimately show ?thesis using heads p g by (simp add: declaration_ok_def)
qed

end
