(* ===== verification/Plugin_Admission_Properties.thy ===== *)
theory Plugin_Admission_Properties
  imports Plugin_Admission_Laws Config_Properties
begin

text \<open>
  The two properties of admission, with a declaration that runs through every check.
\<close>

section \<open>Names in a configuration file\<close>

lemma prohibited_LF: "prohibited LF key \<noteq> None"
  by (simp add: prohibited_def)

lemma ini_name_LF:
  assumes "ini_name_failure s key = None"
  shows "LF \<notin> set s \<and> s \<noteq> []"
proof -
  have "s \<noteq> []" using assms by (auto simp: ini_name_failure_def)
  moreover have "first_some (map (\<lambda>c. prohibited c key) s) = None"
    using assms unfolding ini_name_failure_def by (simp only: split: if_splits) simp_all
  then have "\<forall>c \<in> set s. prohibited c key = None" by simp
  then have "LF \<notin> set s" using prohibited_LF by blast
  ultimately show ?thesis by simp
qed

lemma local_id_name: "local_id_failure s = None \<Longrightarrow> LF \<notin> set s \<and> s \<noteq> [] \<and> CHR ''.'' \<notin> set s"
  using ini_name_LF by (auto simp: local_id_failure_def split: if_splits)

lemma folded_declared_category [simp]: "folded_id (declared_category categories sec) = folded_id sec"
  by (induction categories sec rule: declared_category.induct) (auto simp: equal_id_iff)

lemma declared_category_Nil [simp]: "declared_category categories sec = [] \<longleftrightarrow> sec = []"
  by (metis folded_declared_category folded_id_Nil_iff)

lemma fold_ascii_dot [simp]: "fold_ascii c = CHR ''.'' \<longleftrightarrow> c = CHR ''.''"
proof
  assume eq: "fold_ascii c = CHR ''.''"
  have "fold_ascii c \<noteq> CHR ''.''" if "is_upper c"
  proof
    assume "fold_ascii c = CHR ''.''"
    then have "char_of (of_char c + (32 :: nat)) = CHR ''.''" using that by (simp add: fold_ascii_def)
    then have "(of_char (char_of (of_char c + (32 :: nat))) :: nat) = of_char CHR ''.''" by simp
    moreover have "(of_char c + (32 :: nat)) < 256" using that by (simp add: is_upper_def)
    ultimately show False using that by (simp add: is_upper_def)
  qed
  then have "\<not> is_upper c" using eq by blast
  with eq show "c = CHR ''.''" by (simp add: fold_ascii_def)
qed (simp add: fold_ascii_def is_upper_def)

lemma dot_folded_id [simp]: "CHR ''.'' \<in> set (folded_id s) \<longleftrightarrow> CHR ''.'' \<in> set s"
proof -
  have "CHR ''.'' = fold_ascii c \<longleftrightarrow> CHR ''.'' = c" for c using fold_ascii_dot [of c] by (simp only: eq_commute)
  then show ?thesis by (induction s) (simp_all add: folded_id_def)
qed

lemma folded_id_append: "folded_id (a @ b) = folded_id a @ folded_id b"
  by (simp add: folded_id_def)

lemma folded_id_Cons: "folded_id (c # b) = fold_ascii c # folded_id b"
  by (simp add: folded_id_def)

text \<open>A section of the form id or id.sub, the identifier without a dot, determines the identifier.\<close>

definition subsection_of :: "string \<Rightarrow> string \<Rightarrow> string" where
  "subsection_of ident sub = (if sub \<noteq> [] then ident @ ''.'' @ sub else ident)"

lemma folded_subsection:
  "folded_id (subsection_of ident sub) = (if sub = [] then folded_id ident else folded_id ident @ CHR ''.'' # folded_id sub)"
  by (simp add: subsection_of_def folded_id_append folded_id_Cons)

lemma subsection_of_eq:
  assumes "CHR ''.'' \<notin> set a" and "CHR ''.'' \<notin> set b" and "folded_id (subsection_of a s) = folded_id (subsection_of b t)"
  shows "folded_id a = folded_id b \<and> folded_id s = folded_id t"
proof -
  have n: "CHR ''.'' \<notin> set (folded_id a)" "CHR ''.'' \<notin> set (folded_id b)" using assms by simp_all
  show ?thesis
  proof (cases "s = [] \<or> t = []")
    case True
    have apart: "folded_id a @ CHR ''.'' # x \<noteq> folded_id b" "folded_id a \<noteq> folded_id b @ CHR ''.'' # x" for x
      using n by (metis in_set_conv_decomp)+
    have "s = []"
    proof (rule ccontr)
      assume "s \<noteq> []"
      with True have "t = []" by blast
      with \<open>s \<noteq> []\<close> assms(3) have "folded_id a @ CHR ''.'' # folded_id s = folded_id b" by (simp add: folded_subsection)
      with apart(1) show False by blast
    qed
    moreover have "t = []"
    proof (rule ccontr)
      assume "t \<noteq> []"
      with True have "s = []" by blast
      with \<open>t \<noteq> []\<close> assms(3) have "folded_id a = folded_id b @ CHR ''.'' # folded_id t" by (simp add: folded_subsection)
      with apart(2) show False by blast
    qed
    ultimately show ?thesis using assms(3) by (simp only: folded_subsection if_True refl simp_thms)
  next
    case False
    then have "folded_id a @ CHR ''.'' # folded_id s = folded_id b @ CHR ''.'' # folded_id t"
      using assms(3) by (simp add: folded_subsection)
    moreover have "split_at CHR ''.'' (folded_id a @ CHR ''.'' # folded_id s) = Some (folded_id a, folded_id s)"
      using n(1) unfolding split_at_Some by blast
    moreover have "split_at CHR ''.'' (folded_id b @ CHR ''.'' # folded_id t) = Some (folded_id b, folded_id t)"
      using n(2) unfolding split_at_Some by blast
    ultimately have "(folded_id a, folded_id s) = (folded_id b, folded_id t)" by (metis option.inject)
    then show ?thesis by blast
  qed
qed

section \<open>The entries of an accepted plugin\<close>

definition place :: "GeneratedEntry \<Rightarrow> string" where
  "place entry = identity (ge_section entry) (ge_key entry)"

definition patch_toggle :: "FC_Plugin \<Rightarrow> FC_Patch \<Rightarrow> GeneratedEntry" where
  "patch_toggle plugin patch = toggle_entry plugin (fp_id patch) (fp_category patch) (fp_description patch) (fp_enabled patch)"

definition group_toggle :: "FC_Plugin \<Rightarrow> FC_Group \<Rightarrow> GeneratedEntry" where
  "group_toggle plugin grp = toggle_entry plugin (fg_id grp) (fg_category grp) (fg_description grp) (fg_enabled grp)"

definition toggles :: "FC_Plugin \<Rightarrow> GeneratedEntry list" where
  "toggles plugin = map (patch_toggle plugin) (filter (\<lambda>patch. fp_configurable patch \<noteq> 0) (fl_patches plugin)) @
    map (group_toggle plugin) (filter (\<lambda>grp. fg_configurable grp \<noteq> 0) (fl_groups plugin))"

text \<open>A control as its identifier and category.\<close>

definition control_ok :: "FC_Plugin \<Rightarrow> string \<times> string \<Rightarrow> bool" where
  "control_ok plugin c \<longleftrightarrow> local_id_failure (fst c) = None \<and>
    (if snd c = [] then folded_id (fst c) \<notin> category_ids plugin else folded_id (snd c) \<in> category_ids plugin)"

definition control_place :: "string \<times> string \<Rightarrow> string \<times> string" where
  "control_place c = (if snd c = [] then (folded_id (fst c), ''enabled'') else (folded_id (snd c), folded_id (fst c)))"

lemma fold_Enabled [simp]: "folded_id ''Enabled'' = ''enabled''"
  by code_simp

lemma category_LF:
  assumes "declaration_ok plugin" and "folded_id s \<in> category_ids plugin"
  shows "LF \<notin> set s"
proof -
  from assms(2) obtain category where c: "category \<in> set (fl_categories plugin)" "folded_id s = folded_id (fc_id category)" by blast
  then have "ini_name_failure (fc_id category) False = None" using assms(1) unfolding declaration_ok_def by blast
  from ini_name_LF [OF this] show ?thesis using c(2) by (metis LF_folded_id)
qed

lemma toggle_place:
  assumes "declaration_ok plugin" and "control_ok plugin (ident, category)"
  shows "place (toggle_entry plugin ident category description enabled) =
    fst (control_place (ident, category)) @ [LF] @ snd (control_place (ident, category)) \<and>
    LF \<notin> set (fst (control_place (ident, category)))"
proof (cases "category = []")
  case True
  then show ?thesis using assms(2) local_id_name [of ident]
    by (simp add: place_def toggle_entry_def generated_def identity_def control_place_def control_ok_def)
next
  case False
  then show ?thesis using assms(2) category_LF [OF assms(1), of category]
    by (simp add: place_def toggle_entry_def generated_def identity_def control_place_def control_ok_def)
qed

lemma control_place_eq:
  assumes "control_ok plugin c" and "control_ok plugin d" and "control_place c = control_place d"
  shows "folded_id (fst c) = folded_id (fst d)"
  using assms by (auto simp: control_ok_def control_place_def split: if_splits)

lemma same_line: "LF \<notin> set a \<Longrightarrow> LF \<notin> set b \<Longrightarrow> a @ [LF] @ x = b @ [LF] @ y \<longleftrightarrow> a = b \<and> x = y"
proof -
  assume a: "LF \<notin> set a" "LF \<notin> set b"
  then have "split_at LF (a @ [LF] @ x) = Some (a, x)" "split_at LF (b @ [LF] @ y) = Some (b, y)" by (simp_all add: split_at_Some)
  then show ?thesis by (metis option.inject prod.inject)
qed

lemma patch_control:
  assumes "declaration_ok plugin" and "patch \<in> set (fl_patches plugin)"
  shows "control_ok plugin (fp_id patch, fp_category patch)"
  using assms by (auto simp: declaration_ok_def patch_ok_def control_ok_def)

lemma group_control:
  assumes "declaration_ok plugin" and "grp \<in> set (fl_groups plugin)" and "fg_configurable grp \<noteq> 0"
  shows "control_ok plugin (fg_id grp, fg_category grp)"
  using assms by (auto simp: declaration_ok_def group_ok_def control_ok_def)

abbreviation controls :: "FC_Plugin \<Rightarrow> (string \<times> string) list" where
  "controls plugin \<equiv> map (\<lambda>patch. (fp_id patch, fp_category patch)) (filter (\<lambda>patch. fp_configurable patch \<noteq> 0) (fl_patches plugin)) @
    map (\<lambda>grp. (fg_id grp, fg_category grp)) (filter (\<lambda>grp. fg_configurable grp \<noteq> 0) (fl_groups plugin))"

lemma controls_ok: "declaration_ok plugin \<Longrightarrow> c \<in> set (controls plugin) \<Longrightarrow> control_ok plugin c"
  using patch_control group_control by auto

lemma distinct_map_filter_append:
  "distinct (map f xs @ map g ys) \<Longrightarrow> distinct (map f (filter p xs) @ map g (filter q ys))"
  by (induction xs) (auto simp: distinct_map_filter)

lemma toggle_places:
  assumes ok: "declaration_ok plugin"
  shows "map place (toggles plugin) = map (\<lambda>c. fst (control_place c) @ [LF] @ snd (control_place c)) (controls plugin)"
  using toggle_place [OF ok] patch_control [OF ok] group_control [OF ok]
  by (simp add: toggles_def patch_toggle_def group_toggle_def)

lemma toggles_apart:
  assumes ok: "declaration_ok plugin"
  shows "distinct (map place (toggles plugin))"
proof -
  have "distinct (map (\<lambda>patch. folded_id (fp_id patch)) (fl_patches plugin) @ map (\<lambda>grp. folded_id (fg_id grp)) (fl_groups plugin))"
    using ok by (simp add: declaration_ok_def comp_def)
  from distinct_map_filter_append [OF this, of "\<lambda>patch. fp_configurable patch \<noteq> 0" "\<lambda>grp. fg_configurable grp \<noteq> 0"]
  have ids: "distinct (map (\<lambda>c. folded_id (fst c)) (controls plugin))" by (simp add: comp_def)
  have LF: "LF \<notin> set (fst (control_place c))" if "c \<in> set (controls plugin)" for c
    using toggle_place [OF ok, of "fst c" "snd c"] controls_ok [OF ok that] by simp
  have "c = d" if "c \<in> set (controls plugin)" "d \<in> set (controls plugin)"
    "fst (control_place c) @ [LF] @ snd (control_place c) = fst (control_place d) @ [LF] @ snd (control_place d)" for c d
  proof -
    have "control_place c = control_place d"
      using same_line [OF LF [OF that(1)] LF [OF that(2)]] that(3) by (simp add: prod_eq_iff)
    then have "folded_id (fst c) = folded_id (fst d)"
      by (rule control_place_eq [OF controls_ok [OF ok that(1)] controls_ok [OF ok that(2)]])
    then show ?thesis using distinct_map_eq [OF ids that(1,2)] by blast
  qed
  moreover have "distinct (controls plugin)" using ids unfolding distinct_map by blast
  ultimately show ?thesis unfolding toggle_places [OF ok] distinct_map by (meson inj_onI)
qed

lemma setting_place:
  assumes "declaration_ok plugin" and "patch \<in> set (fl_patches plugin)" and "variant \<in> set (fp_variants patch)"
    and "setting \<in> set (fv_settings variant)"
  shows "place (setting_entry patch setting) = folded_id (subsection_of (fp_id patch) (fs_section setting)) @ [LF] @ folded_id (fs_key setting)"
    and "LF \<notin> set (subsection_of (fp_id patch) (fs_section setting))" and "setting_ok plugin patch setting"
proof -
  from assms show ok: "setting_ok plugin patch setting" by (auto simp: declaration_ok_def patch_ok_def variant_ok_def)
  show "place (setting_entry patch setting) = folded_id (subsection_of (fp_id patch) (fs_section setting)) @ [LF] @ folded_id (fs_key setting)"
    by (simp add: place_def setting_entry_def generated_def identity_def setting_section_def subsection_of_def)
  have "local_id_failure (fp_id patch) = None" using assms by (auto simp: declaration_ok_def patch_ok_def)
  then show "LF \<notin> set (subsection_of (fp_id patch) (fs_section setting))"
    using ok local_id_name [of "fp_id patch"] ini_name_LF [of "fs_section setting" False] by (auto simp: subsection_of_def setting_ok_def)
qed

lemma setting_sections:
  assumes "declaration_ok plugin" and "patch \<in> set (fl_patches plugin)" and "setting_ok plugin patch setting" and "control_ok plugin c"
    and "folded_id (subsection_of (fp_id patch) (fs_section setting)) = fst (control_place c)"
  shows "snd c = [] \<and> fs_section setting = [] \<and> folded_id (fst c) = folded_id (fp_id patch)"
proof -
  have p: "local_id_failure (fp_id patch) = None" "folded_id (fp_id patch) \<notin> category_ids plugin"
    using assms(1,2) by (auto simp: declaration_ok_def patch_ok_def)
  have "folded_id (subsection_of (fp_id patch) (fs_section setting)) \<notin> category_ids plugin"
    using p assms(3) unfolding setting_ok_def subsection_of_def by (cases "fs_section setting = []") simp_all
  then have c: "snd c = []" using assms(4,5) by (auto simp: control_ok_def control_place_def split: if_splits)
  have "CHR ''.'' \<notin> set (fst c)" using assms(4) local_id_name unfolding control_ok_def by blast
  moreover have "CHR ''.'' \<notin> set (fp_id patch)" using p local_id_name by blast
  moreover have "folded_id (subsection_of (fp_id patch) (fs_section setting)) = folded_id (subsection_of (fst c) [])"
    using assms(5) c by (simp add: control_place_def subsection_of_def)
  ultimately have "folded_id (fp_id patch) = folded_id (fst c) \<and> folded_id (fs_section setting) = folded_id []"
    by (rule_tac subsection_of_eq)
  then show ?thesis using c by (metis folded_id_Nil_iff)
qed

lemma setting_not_toggle:
  assumes ok: "declaration_ok plugin" and patch: "patch \<in> set (fl_patches plugin)" and variant: "variant \<in> set (fp_variants patch)"
    and setting: "setting \<in> set (fv_settings variant)"
  shows "place (setting_entry patch setting) \<notin> set (map place (toggles plugin))"
proof
  note s = setting_place [OF ok patch variant setting]
  assume "place (setting_entry patch setting) \<in> set (map place (toggles plugin))"
  then obtain c where c: "c \<in> set (controls plugin)" and
    eq: "place (setting_entry patch setting) = fst (control_place c) @ [LF] @ snd (control_place c)"
    unfolding toggle_places [OF ok] by auto
  note c_ok = controls_ok [OF ok c]
  have LF: "LF \<notin> set (fst (control_place c))" using toggle_place [OF ok, of "fst c" "snd c"] c_ok by simp
  have LF': "LF \<notin> set (folded_id (subsection_of (fp_id patch) (fs_section setting)))" using s(2) by simp
  have same: "folded_id (subsection_of (fp_id patch) (fs_section setting)) = fst (control_place c)"
    "folded_id (fs_key setting) = snd (control_place c)"
    using same_line [OF LF' LF] eq s(1) by simp_all
  from setting_sections [OF ok patch s(3) c_ok same(1)]
  have here: "snd c = []" "fs_section setting = []" "folded_id (fst c) = folded_id (fp_id patch)" by simp_all
  have ids: "distinct (map folded_id (map fp_id (fl_patches plugin) @ map fg_id (fl_groups plugin)))" using ok by (simp add: declaration_ok_def)
  from c consider q where "q \<in> set (fl_patches plugin)" "fp_configurable q \<noteq> 0" "c = (fp_id q, fp_category q)"
    | g where "g \<in> set (fl_groups plugin)" "c = (fg_id g, fg_category g)" by auto
  then show False
  proof cases
    case 1
    have "distinct (map (\<lambda>p. folded_id (fp_id p)) (fl_patches plugin))" using ids by (simp add: comp_def)
    from distinct_map_eq [OF this 1(1) patch] have "q = patch" using here(3) 1(3) by simp
    moreover have "folded_id (fs_key setting) = ''enabled''" using same(2) here(1) by (simp add: control_place_def)
    ultimately show False using s(3) here 1 unfolding setting_ok_def by simp
  next
    case 2
    have "folded_id (fp_id patch) \<noteq> folded_id (fg_id g)" using ids patch 2(1) by (auto simp: comp_def)
    then show False using here(3) 2(2) by simp
  qed
qed

lemma settings_apart:
  assumes ok: "declaration_ok plugin" and patch: "patch \<in> set (fl_patches plugin)" "patch' \<in> set (fl_patches plugin)"
    and variant: "variant \<in> set (fp_variants patch)" "variant' \<in> set (fp_variants patch')"
    and setting: "setting \<in> set (fv_settings variant)" "setting' \<in> set (fv_settings variant')"
    and eq: "place (setting_entry patch setting) = place (setting_entry patch' setting')"
  shows "patch = patch' \<and> identity (fs_section setting) (fs_key setting) = identity (fs_section setting') (fs_key setting')"
proof -
  note s = setting_place [OF ok patch(1) variant(1) setting(1)]
  note s' = setting_place [OF ok patch(2) variant(2) setting(2)]
  have LF: "LF \<notin> set (folded_id (subsection_of (fp_id patch) (fs_section setting)))"
    "LF \<notin> set (folded_id (subsection_of (fp_id patch') (fs_section setting')))" using s(2) s'(2) by simp_all
  have same: "folded_id (subsection_of (fp_id patch) (fs_section setting)) = folded_id (subsection_of (fp_id patch') (fs_section setting'))"
    "folded_id (fs_key setting) = folded_id (fs_key setting')"
    using same_line [OF LF] eq s(1) s'(1) by simp_all
  have dots: "CHR ''.'' \<notin> set (fp_id patch)" "CHR ''.'' \<notin> set (fp_id patch')"
    using ok patch local_id_name by (auto simp: declaration_ok_def patch_ok_def)
  have parts: "folded_id (fp_id patch) = folded_id (fp_id patch') \<and> folded_id (fs_section setting) = folded_id (fs_section setting')"
    by (rule subsection_of_eq [OF dots same(1)])
  have "distinct (map (\<lambda>p. folded_id (fp_id p)) (fl_patches plugin))" using ok by (simp add: declaration_ok_def comp_def)
  from distinct_map_eq [OF this patch] show ?thesis using parts same(2) by (simp add: identity_def)
qed

section \<open>Examples\<close>

definition literal :: "string \<Rightarrow> FC_Text" where
  "literal s = \<lparr>ft_data = Some s, ft_size = of_nat (length s)\<rparr>"

definition listed :: "'a list \<Rightarrow> 'a counted" where
  "listed xs = (Some xs, of_nat (length xs))"

text \<open>A plugin with a category, a patch whose settings have the same key in two sections, a patch under the category
  and a group.\<close>

definition admission_setting :: "string \<Rightarrow> string \<Rightarrow> Abi_Setting" where
  "admission_setting sec key =
    \<lparr>as_key = literal key, as_description = literal [], as_section = literal sec, as_environment = literal [],
     as_default_value = Some (FV_Bool 1), as_constraints = literal [], as_validate = Some (\<lambda>_. (1, None))\<rparr>"

definition admission_patch :: "string \<Rightarrow> string \<Rightarrow> Abi_Setting list \<Rightarrow> Abi_Patch" where
  "admission_patch ident category settings =
    \<lparr>at_id = literal ident, at_description = literal [], at_category = literal category, at_enabled = 1, at_configurable = 1,
     at_failure_policy = FC_FAILURE_CONTINUE, at_update_interval_ms = 100, at_depends_on = (None, 0),
     at_variants = listed [\<lparr>av_images = listed [\<lparr>ai_name = literal ''game'', ai_selectors = listed [literal ''*'']\<rparr>],
       av_role = FC_ROLE_ALL, av_failure_policy = FC_FAILURE_CONTINUE, av_depends_on = (None, 0),
       av_settings = listed settings, av_has_factory = True\<rparr>]\<rparr>"

definition admission_plugin :: "string \<Rightarrow> Abi_Plugin" where
  "admission_plugin ident =
    \<lparr>ab_byte_size = 100, ab_id = literal ident, ab_version = literal ''1'',
     ab_categories = listed [\<lparr>ay_id = literal ''Game'', ay_has_order = 0, ay_order = 0\<rparr>],
     ab_groups = listed [\<lparr>ag_id = literal ''All'', ag_description = literal [], ag_category = literal [],
       ag_members = listed [literal ''camera'', literal ''SPEED''], ag_enabled = 1, ag_configurable = 1\<rparr>],
     ab_patches = listed [admission_patch ''Camera'' [] [admission_setting [] ''Fov'', admission_setting ''Pad'' ''Fov''],
       admission_patch ''Speed'' ''game'' [admission_setting [] ''Enabled'']]\<rparr>"

lemma view_literal [simp]: "view (literal s) = s"
  by (simp add: view_def literal_def)

lemma check_text_literal [simp]:
  assumes "list_all (\<lambda>c. (of_char c :: nat) < 0x80 \<and> c \<noteq> CHR 0x00) s" and "length s < 1000"
  shows "check_text sample_platform owner allow_null (field, literal s) = None"
proof -
  have "list_all (\<lambda>c. (of_char c :: nat) < 0x80) s" using assms(1) by (simp add: list_all_iff)
  moreover have "CHR 0x00 \<notin> set s" using assms(1) by (auto simp: list_all_iff)
  ultimately show ?thesis using assms(2)
    by (simp add: check_text_def utf8_def INT_MAX_def sample_platform_def utf8_text_ascii) (simp add: literal_def)
qed

lemma elements_listed [simp]: "length xs < 1000 \<Longrightarrow> elements (listed xs) = xs"
  by (simp add: elements_def listed_def unat_of_nat take_bit_nat_eq_self)

lemma check_array_listed [simp]: "check_array owner field (listed xs) = None" "check_array owner field (None, 0) = None"
  by (simp_all add: check_array_def listed_def)

lemma elements_empty [simp]: "elements (None, n) = []"
  by (simp add: elements_def)

lemmas name_checks = ini_name_failure_def prohibited_def is_ascii_whitespace_def plugin_id_failure_def filename_character_def local_id_failure_def

lemma admission_setting_accepted:
  assumes "sec = [] \<or> sec = ''Pad''" and "key = ''Fov'' \<or> key = ''Enabled''" and "identity sec key \<notin> seen"
    and "sec = [] \<or> folded_id (view (at_id patch) @ ''.'' @ sec) \<notin> categories"
    and "view (at_category patch) \<noteq> [] \<or> key = ''Fov''"
  shows "check_setting sample_platform owner categories patch seen (admission_setting sec key) = Inr (insert (identity sec key) seen)"
proof -
  have "ini_name_failure ''Fov'' True = None" "ini_name_failure ''Enabled'' True = None" "ini_name_failure ''Pad'' False = None"
    by (simp_all add: name_checks)
  moreover have "folded_id ''Fov'' \<noteq> ''enabled''" by code_simp
  ultimately show ?thesis using assms
    by (auto simp: check_setting_def admission_setting_def unless_def check_texts_def check_default_def refuse_def Let_def)
qed

lemma admission_patch_accepted:
  assumes "ident = ''Camera'' \<and> category = [] \<and> settings = [admission_setting [] ''Fov'', admission_setting ''Pad'' ''Fov''] \<or>
      ident = ''Speed'' \<and> category = ''game'' \<and> settings = [admission_setting [] ''Enabled'']"
    and "folded_id ident \<notin> local_ids"
  shows "check_patch sample_platform owner {''game''} (patch_ids, local_ids) (admission_patch ident category settings) =
    Inr (insert (folded_id ident) patch_ids, insert (folded_id ident) local_ids)"
proof -
  let ?patch = "admission_patch ident category settings"
  have names: "local_id_failure ''Camera'' = None" "local_id_failure ''Speed'' = None" by (simp_all add: name_checks)
  have "folded_id ''Camera'' = ''camera''" "folded_id ''Speed'' = ''speed''" "folded_id ''Camera.Pad'' \<noteq> ''game''"
    "folded_id ''game'' = ''game''" "identity [] ''Fov'' \<noteq> identity ''Pad'' ''Fov''" by code_simp+
  note folds = this
  have fields: "view (at_id ?patch) = ident" "view (at_category ?patch) = category" by (simp_all add: admission_patch_def)
  have settings: "\<exists>seen. check_each (check_setting sample_platform owner {''game''} ?patch) {} settings = Inr seen"
    using assms(1) folds admission_setting_accepted [of _ _ _ ?patch "{''game''}" owner] fields by auto
  have selector: "is_valid_profile_selector ''*''" by code_simp
  have images: "check_each (check_image sample_platform owner ident) {} [\<lparr>ai_name = literal ''game'', ai_selectors = listed [literal ''*'']\<rparr>] = Inr {''game''}"
    using selector folds by (simp add: check_image_def unless_def check_selector_def refuse_def Let_def) (simp add: listed_def)
  have policies: "valid_policy FC_FAILURE_CONTINUE" "valid_role FC_ROLE_ALL" by (simp_all add: valid_policy_def valid_role_def)
  let ?variant = "\<lparr>av_images = listed [\<lparr>ai_name = literal ''game'', ai_selectors = listed [literal ''*'']\<rparr>],
    av_role = FC_ROLE_ALL, av_failure_policy = FC_FAILURE_CONTINUE, av_depends_on = (None, 0), av_settings = listed settings,
    av_has_factory = True\<rparr>"
  have short: "length settings < 1000" using assms(1) by auto
  have "snd (listed [\<lparr>ai_name = literal ''game'', ai_selectors = listed [literal ''*'']\<rparr>]) \<noteq> 0" by (simp add: listed_def)
  then have variant: "check_variant sample_platform owner {''game''} ?patch ?variant = Inr ()"
    using settings images policies short fields
    by (auto simp: check_variant_def unless_def refuse_def Let_def simp del: check_each.simps)
  have "check_each (\<lambda>_. check_variant sample_platform owner {''game''} ?patch) () (elements (at_variants ?patch)) = Inr ()"
    using variant by (simp add: admission_patch_def)
  moreover have "at_enabled ?patch = 1" "at_configurable ?patch = 1" "at_failure_policy ?patch = FC_FAILURE_CONTINUE"
    "at_update_interval_ms ?patch = 100" "at_depends_on ?patch = (None, 0)" "at_id ?patch = literal ident"
    "at_description ?patch = literal []" "at_category ?patch = literal category" "at_variants ?patch = listed [?variant]"
    by (simp_all add: admission_patch_def)
  ultimately show ?thesis using assms names folds policies
    by (auto simp: check_patch_def unless_def check_texts_def refuse_def refuse_name_def Let_def simp del: check_each.simps)
qed

lemma admission_plugin_accepted:
  assumes "ident \<in> {''First'', ''Second'', ''SECOND''}"
  shows "validate_plugin_definition FC_ARCH_X86 sample_platform owner (Some (admission_plugin ident)) = None"
proof -
  let ?plugin = "admission_plugin ident"
  have names: "plugin_id_failure ident = None" "ini_name_failure ''Game'' False = None" "local_id_failure ''All'' = None"
    using assms by (auto simp: name_checks)
  have folds: "folded_id ''Game'' = ''game''" "folded_id ''All'' = ''all''" "folded_id ''Camera'' = ''camera''" "folded_id ''camera'' = ''camera''"
    "folded_id ''Speed'' = ''speed''" "folded_id ''SPEED'' = ''speed''"
    by code_simp+
  have plain: "list_all (\<lambda>c. (of_char c :: nat) < 0x80 \<and> c \<noteq> CHR 0x00) ident" "length ident < 1000" using assms by auto
  have categories: "check_each (check_category sample_platform owner) {} [\<lparr>ay_id = literal ''Game'', ay_has_order = 0, ay_order = 0\<rparr>] = Inr {''game''}"
    using names folds by (simp add: check_category_def unless_def refuse_def refuse_name_def Let_def)
  have patches: "check_each (check_patch sample_platform owner {''game''}) ({}, {})
    [admission_patch ''Camera'' [] [admission_setting [] ''Fov'', admission_setting ''Pad'' ''Fov''],
     admission_patch ''Speed'' ''game'' [admission_setting [] ''Enabled'']] = Inr ({''speed'', ''camera''}, {''speed'', ''camera''})"
    using folds by (simp add: admission_patch_accepted)
  have group: "check_each (check_group sample_platform owner {''game''} {''speed'', ''camera''}) ({''speed'', ''camera''}, [])
    [\<lparr>ag_id = literal ''All'', ag_description = literal [], ag_category = literal [],
      ag_members = listed [literal ''camera'', literal ''SPEED''], ag_enabled = 1, ag_configurable = 1\<rparr>] =
    Inr ({''all'', ''speed'', ''camera''}, [(''camera'', ''All''), (''speed'', ''All'')])"
    using names folds by (simp add: check_group_def check_member_def unless_def check_texts_def refuse_def refuse_name_def Let_def)
  show ?thesis using names plain categories patches group assms
    by (auto simp: validate_plugin_definition_def admission_plugin_def unless_def check_texts_def refuse_def refuse_name_def Let_def
        simp del: check_each.simps)
qed

section \<open>Unique values\<close>

lemma card_one: "i \<in> A \<Longrightarrow> card A = 1 \<longleftrightarrow> A = {i}"
  by (metis card_1_singletonE is_singletonI is_singleton_altdef singletonD)

lemma unique_at:
  assumes "i < length xs" and "P (xs ! i)"
  shows "length (filter (\<lambda>y. f y = f (xs ! i)) (filter P xs)) = 1 \<longleftrightarrow>
    (\<forall>j < length xs. j \<noteq> i \<and> P (xs ! j) \<longrightarrow> f (xs ! j) \<noteq> f (xs ! i))"
proof -
  let ?hits = "{j. j < length xs \<and> (P (xs ! j) \<and> f (xs ! j) = f (xs ! i))}"
  have "length (filter (\<lambda>y. f y = f (xs ! i)) (filter P xs)) = card ?hits"
    unfolding filter_filter length_filter_conv_card ..
  moreover have "i \<in> ?hits" using assms by simp
  then have "card ?hits = 1 \<longleftrightarrow> ?hits = {i}" by (rule card_one)
  moreover have "?hits = {i} \<longleftrightarrow> (\<forall>j < length xs. j \<noteq> i \<and> P (xs ! j) \<longrightarrow> f (xs ! j) \<noteq> f (xs ! i))" using assms by auto
  ultimately show ?thesis by (simp only:)
qed

lemma filter_nth: "filter P xs = map ((!) xs) (filter (\<lambda>i. P (xs ! i)) [0..<length xs])"
proof -
  have "filter P xs = filter P (map ((!) xs) [0..<length xs])" by (simp only: map_nth)
  then show ?thesis by (simp only: filter_map comp_def)
qed

lemma filter_unique:
  "filter (\<lambda>x. length (filter (\<lambda>y. f y = f x) (filter P xs)) = 1) (filter P xs) =
   map ((!) xs) (filter (\<lambda>i. P (xs ! i) \<and> (\<forall>j < length xs. j \<noteq> i \<and> P (xs ! j) \<longrightarrow> f (xs ! j) \<noteq> f (xs ! i))) [0..<length xs])"
proof -
  have "filter (\<lambda>x. length (filter (\<lambda>y. f y = f x) (filter P xs)) = 1) (filter P xs) =
    filter (\<lambda>x. P x \<and> length (filter (\<lambda>y. f y = f x) (filter P xs)) = 1) xs" by simp
  also have "\<dots> = map ((!) xs) (filter (\<lambda>i. P (xs ! i) \<and> length (filter (\<lambda>y. f y = f (xs ! i)) (filter P xs)) = 1) [0..<length xs])"
    by (rule filter_nth)
  also have "\<dots> = map ((!) xs) (filter (\<lambda>i. P (xs ! i) \<and>
      (\<forall>j < length xs. j \<noteq> i \<and> P (xs ! j) \<longrightarrow> f (xs ! j) \<noteq> f (xs ! i))) [0..<length xs])"
  proof -
    have "P (xs ! i) \<and> length (filter (\<lambda>y. f y = f (xs ! i)) (filter P xs)) = 1 \<longleftrightarrow>
      P (xs ! i) \<and> (\<forall>j < length xs. j \<noteq> i \<and> P (xs ! j) \<longrightarrow> f (xs ! j) \<noteq> f (xs ! i))" if "i \<in> set [0..<length xs]" for i
      using unique_at [of i xs P f] that by auto
    then have "filter (\<lambda>i. P (xs ! i) \<and> length (filter (\<lambda>y. f y = f (xs ! i)) (filter P xs)) = 1) [0..<length xs] =
      filter (\<lambda>i. P (xs ! i) \<and> (\<forall>j < length xs. j \<noteq> i \<and> P (xs ! j) \<longrightarrow> f (xs ! j) \<noteq> f (xs ! i))) [0..<length xs]"
      by (rule filter_cong [OF refl])
    then show ?thesis by (rule arg_cong)
  qed
  finally show ?thesis .
qed

lemma distinct_unique:
  "distinct (map f (filter (\<lambda>x. length (filter (\<lambda>y. f y = f x) ys) = 1) ys))"
proof -
  have "distinct (map f (filter (\<lambda>x. length (filter (\<lambda>y. f y = f x) zs) = 1) xs))" if "\<forall>v. length (filter (\<lambda>y. f y = v) xs) \<le> length (filter (\<lambda>y. f y = v) zs)" for xs zs
    using that
  proof (induction xs)
    case (Cons x xs)
    have le: "\<forall>v. length (filter (\<lambda>y. f y = v) xs) \<le> length (filter (\<lambda>y. f y = v) zs)"
      using Cons.prems by (metis (no_types, lifting) filter.simps(2) le_SucI length_Cons Suc_leD)
    show ?case
    proof (cases "length (filter (\<lambda>y. f y = f x) zs) = 1")
      case True
      then have "length (filter (\<lambda>y. f y = f x) xs) = 0" using Cons.prems [rule_format, of "f x"] by simp
      then have "f x \<notin> f ` set xs" by (auto simp: filter_empty_conv)
      then show ?thesis using Cons.IH [OF le] True by auto
    next
      case False
      then show ?thesis using Cons.IH [OF le] by simp
    qed
  qed simp
  then show ?thesis by blast
qed

section \<open>Properties\<close>

text \<open>C12: Admission takes exactly the plugins that pass every check and whose identifier, without regard to case, no other valid
  plugin has, in the order in which they were found; what it takes is well formed throughout (unique identifiers of
  patches and groups, known categories and members, valid roles, policies and selectors, settings their own validators accept).\<close>

theorem admission_exact:
  assumes "ad_admitted (admit_definitions arch plat buckets candidates) = admitted"
  shows "map (\<lambda>plugin. (ap_owner plugin, ap_definition plugin)) admitted =
      map (\<lambda>i. (fst (candidates ! i), plugin_view (the (snd (candidates ! i)))))
        (filter (\<lambda>i. valid_candidate arch plat (candidates ! i) \<and>
          (\<forall>j < length candidates. j \<noteq> i \<and> valid_candidate arch plat (candidates ! j) \<longrightarrow>
            candidate_id (candidates ! j) \<noteq> candidate_id (candidates ! i))) [0..<length candidates]) \<and>
    distinct (map (\<lambda>plugin. folded_id (fl_id (ap_definition plugin))) admitted) \<and>
    list_all (\<lambda>plugin. declaration_ok (ap_definition plugin)) admitted"
proof -
  let ?taken = "filter (\<lambda>c. length (filter (\<lambda>d. candidate_id d = candidate_id c) (filter (valid_candidate arch plat) candidates)) = 1)
    (filter (valid_candidate arch plat) candidates)"
  have admitted: "admitted = map (\<lambda>(owner, definition'). \<lparr>ap_owner = owner, ap_definition = plugin_view (the definition')\<rparr>) ?taken"
    using assms by (simp add: admit_definitions_def Let_def)
  have "map (\<lambda>plugin. (ap_owner plugin, ap_definition plugin)) admitted = map (\<lambda>c. (fst c, plugin_view (the (snd c)))) ?taken"
    by (simp add: admitted comp_def case_prod_beta)
  note first = this [unfolded filter_unique map_map comp_def]
  have "map (\<lambda>plugin. folded_id (fl_id (ap_definition plugin))) admitted = map candidate_id ?taken"
    by (simp add: admitted comp_def case_prod_beta candidate_id_def)
  moreover have "list_all (\<lambda>plugin. declaration_ok (ap_definition plugin)) admitted"
  proof -
    have "declaration_ok (plugin_view (the (snd c)))" if valid: "valid_candidate arch plat c" for c
    proof (cases "snd c")
      case None
      then show ?thesis using valid by (simp add: valid_candidate_def validate_plugin_definition_def)
    next
      case (Some plugin)
      then show ?thesis using valid validated [of arch plat "fst c" plugin] by (simp add: valid_candidate_def)
    qed
    then show ?thesis by (auto simp: admitted list_all_iff case_prod_beta)
  qed
  ultimately show ?thesis
    using first distinct_unique [of candidate_id "filter (valid_candidate arch plat) candidates"] by metis
qed

theorem admission_exact_witness:
  "\<exists>admitted. ad_admitted (admit_definitions FC_ARCH_X86 sample_platform id
      [(''a.dll'', Some (admission_plugin ''First'')), (''b.dll'', Some (admission_plugin ''Second'')), (''n.dll'', None),
       (''c.dll'', Some (admission_plugin ''SECOND''))]) = admitted \<and>
    map ap_owner admitted = [''a.dll''] \<and> list_all (\<lambda>plugin. declaration_ok (ap_definition plugin)) admitted"
proof -
  let ?candidates = "[(''a.dll'', Some (admission_plugin ''First'')), (''b.dll'', Some (admission_plugin ''Second'')), (''n.dll'', None),
    (''c.dll'', Some (admission_plugin ''SECOND''))]"
  have valid: "valid_candidate FC_ARCH_X86 sample_platform (?candidates ! 0)" "valid_candidate FC_ARCH_X86 sample_platform (?candidates ! 1)"
    "\<not> valid_candidate FC_ARCH_X86 sample_platform (?candidates ! 2)" "valid_candidate FC_ARCH_X86 sample_platform (?candidates ! 3)"
    by (simp_all add: valid_candidate_def admission_plugin_accepted) (simp add: validate_plugin_definition_def)
  have folds: "folded_id ''First'' = ''first''" "folded_id ''Second'' = ''second''" "folded_id ''SECOND'' = ''second''" by code_simp+
  have ids: "candidate_id (?candidates ! 0) = ''first''" "candidate_id (?candidates ! 1) = ''second''" "candidate_id (?candidates ! 3) = ''second''"
    using folds by (simp_all add: candidate_id_def admission_plugin_def)
  have four: "j < length ?candidates \<longleftrightarrow> j = 0 \<or> j = 1 \<or> j = 2 \<or> j = 3" for j by auto
  have range: "[0..<length ?candidates] = [0, 1, 2, 3]" by (simp add: upt_rec)
  note exact = admission_exact [of FC_ARCH_X86 sample_platform id ?candidates _, OF refl]
  have owners: "map ap_owner admitted = map fst (map (\<lambda>plugin. (ap_owner plugin, ap_definition plugin)) admitted)" for admitted
    by (simp add: comp_def)
  show ?thesis
  proof (intro exI conjI)
    show "list_all (\<lambda>plugin. declaration_ok (ap_definition plugin)) (ad_admitted (admit_definitions FC_ARCH_X86 sample_platform id ?candidates))"
      using exact by blast
    show "map ap_owner (ad_admitted (admit_definitions FC_ARCH_X86 sample_platform id ?candidates)) = [''a.dll'']"
      unfolding owners exact [THEN conjunct1] four range filter.simps using valid ids by auto
  qed (rule refl)
qed

text \<open>C11: The entries that an accepted plugin contributes to its configuration file never collide: the controls of its configurable
  patches and groups have places of their own, no setting of a patch shares the place of a control, the settings of different
  patches have different places, and so have the settings of one variant.\<close>

theorem generated_entries_apart:
  assumes "validate_plugin_definition arch plat owner (Some arrived) = None" and "plugin = plugin_view arrived"
  shows "distinct (map place (toggles plugin)) \<and>
    (\<forall>patch \<in> set (fl_patches plugin). \<forall>variant \<in> set (fp_variants patch).
      distinct (map (\<lambda>setting. place (setting_entry patch setting)) (fv_settings variant)) \<and>
      (\<forall>setting \<in> set (fv_settings variant). place (setting_entry patch setting) \<notin> set (map place (toggles plugin)) \<and>
        (\<forall>patch' \<in> set (fl_patches plugin). \<forall>variant' \<in> set (fp_variants patch'). \<forall>setting' \<in> set (fv_settings variant').
          place (setting_entry patch setting) = place (setting_entry patch' setting') \<longrightarrow> patch = patch')))"
proof -
  have ok: "declaration_ok plugin" using validated assms by blast
  have "distinct (map (\<lambda>setting. place (setting_entry patch setting)) (fv_settings variant))"
    if patch: "patch \<in> set (fl_patches plugin)" and variant: "variant \<in> set (fp_variants patch)" for patch variant
  proof -
    have d: "distinct (map (\<lambda>setting. identity (fs_section setting) (fs_key setting)) (fv_settings variant))"
      using ok patch variant unfolding declaration_ok_def patch_ok_def variant_ok_def by blast
    have "inj_on (\<lambda>setting. place (setting_entry patch setting)) (set (fv_settings variant))"
    proof (rule inj_onI)
      fix s t
      assume s: "s \<in> set (fv_settings variant)" "t \<in> set (fv_settings variant)" "place (setting_entry patch s) = place (setting_entry patch t)"
      have "identity (fs_section s) (fs_key s) = identity (fs_section t) (fs_key t)"
        using settings_apart [OF ok patch patch variant variant s] by blast
      then show "s = t" using distinct_map_eq [OF d s(1,2)] by blast
    qed
    then show ?thesis using d unfolding distinct_map by blast
  qed
  then show ?thesis using toggles_apart [OF ok] setting_not_toggle [OF ok] settings_apart [OF ok] by blast
qed

theorem generated_entries_apart_witness:
  "distinct (map place (toggles (plugin_view (admission_plugin ''First'')))) \<and>
   length (toggles (plugin_view (admission_plugin ''First''))) = 3"
proof -
  have "length (toggles (plugin_view (admission_plugin ''First''))) = 3"
    by (simp add: toggles_def plugin_view_def admission_plugin_def admission_patch_def patch_view_def group_view_def)
  then show ?thesis using generated_entries_apart [OF admission_plugin_accepted [of "''First''"] refl] by simp
qed

end
