(* ===== verification/Lobby_Codec.thy ===== *)
theory Lobby_Codec
  imports Patch_Records
begin

text \<open>
  How a lobby item is written into the text value of a native lobby (\<open>runtime/src/lobby.cpp\<close>): a prefix, the version in
  decimal and the bytes in base64. The reader accepts one spelling of the bytes only.
\<close>

section \<open>Names\<close>

definition kKeyPrefix :: string where "kKeyPrefix = ''FC.''"

text \<open>The last test subtracts only when the name is not longer than the limit.\<close>

definition key_for :: "string \<Rightarrow> nat \<Rightarrow> string option" where
  "key_for name limit =
    (if name = [] \<or> CHR 0x00 \<in> set name \<or> length name > limit \<or> length kKeyPrefix > limit - length name then None
     else Some (kKeyPrefix @ name))"

definition public_name :: "string \<Rightarrow> string" where
  "public_name key = drop (length kKeyPrefix) key"

lemma key_for_Some: "key_for name limit = Some key \<longleftrightarrow>
  name \<noteq> [] \<and> CHR 0x00 \<notin> set name \<and> 3 + length name \<le> limit \<and> key = kKeyPrefix @ name"
  by (auto simp: key_for_def kKeyPrefix_def)

lemma public_name_key [simp]: "public_name (kKeyPrefix @ name) = name"
  by (simp add: public_name_def)

section \<open>Base64\<close>

definition kAlphabet :: string where
  "kAlphabet = ''ABCDEFGHIJKLMNOPQRSTUVWXYZabcdefghijklmnopqrstuvwxyz0123456789+/''"

abbreviation pad :: char where "pad \<equiv> CHR ''=''"

definition letter :: "u32 \<Rightarrow> char" where
  "letter digit = kAlphabet ! unat digit"

text \<open>Up to three bytes; a missing one counts as zero.\<close>

definition encode_quartet :: "byte list \<Rightarrow> string" where
  "encode_quartet bytes =
    (let first = ucast (bytes ! 0) :: u32;
         second = (if 1 < length bytes then ucast (bytes ! 1) else 0) :: u32;
         third = (if 2 < length bytes then ucast (bytes ! 2) else 0) :: u32
     in [letter (drop_bit 2 first),
         letter (push_bit 4 (first AND 3) OR drop_bit 4 second),
         if 1 < length bytes then letter (push_bit 2 (second AND 15) OR drop_bit 6 third) else pad,
         if 2 < length bytes then letter (third AND 63) else pad])"

function encode_payload :: "byte list \<Rightarrow> string" where
  "encode_payload bytes = (if bytes = [] then [] else encode_quartet (take 3 bytes) @ encode_payload (drop 3 bytes))"
  by auto
termination by (relation "measure length") auto

declare encode_payload.simps [simp del]

definition encode :: "u32 \<Rightarrow> byte list \<Rightarrow> string" where
  "encode version bytes = ''FC1:'' @ decimal (unat version) @ '':'' @ encode_payload bytes"

section \<open>The reader\<close>

datatype LobbyResult = LobbyValue | LobbyMissing | LobbyMalformed | LobbyUnsupported | LobbyUnavailable | LobbyFailed

text \<open>\<open>de_capacity\<close> is the storage of the bytes: the room reserved for them in an empty vector.\<close>

record Decoded =
  de_result :: LobbyResult
  de_version :: u32
  de_value :: "byte list"
  de_capacity :: nat

definition only_result :: "LobbyResult \<Rightarrow> Decoded" where
  "only_result result = \<lparr>de_result = result, de_version = 0, de_value = [], de_capacity = 0\<rparr>"

fun decode_digits :: "bool \<Rightarrow> nat \<Rightarrow> nat \<Rightarrow> string \<Rightarrow> (u32 list \<times> nat) option" where
  "decode_digits final j padding [] = Some ([], padding)"
| "decode_digits final j padding (c # cs) =
    (if c = pad then
       (if j < 2 \<or> \<not> final then None
        else map_option (\<lambda>(digits, padding). (0 # digits, padding)) (decode_digits final (Suc j) (Suc padding) cs))
     else case find_index (\<lambda>x. x = c) kAlphabet of
       None \<Rightarrow> None
     | Some index \<Rightarrow>
         if padding \<noteq> 0 then None
         else map_option (\<lambda>(digits, padding). (of_nat index # digits, padding)) (decode_digits final (Suc j) padding cs))"

definition quartet_bytes :: "u32 list \<Rightarrow> nat \<Rightarrow> byte list" where
  "quartet_bytes digits padding =
    [ucast (push_bit 2 (digits ! 0) OR drop_bit 4 (digits ! 1))] @
    (if padding < 2 then [ucast (push_bit 4 (digits ! 1) OR drop_bit 2 (digits ! 2))] else []) @
    (if padding = 0 then [ucast (push_bit 6 (digits ! 2) OR digits ! 3)] else [])"

definition decode_quartet :: "bool \<Rightarrow> string \<Rightarrow> byte list option" where
  "decode_quartet final chars =
    (case decode_digits final 0 0 chars of
       None \<Rightarrow> None
     | Some (digits, padding) \<Rightarrow>
         if padding = 2 \<and> digits ! 1 AND 15 \<noteq> 0 \<or> padding = 1 \<and> digits ! 2 AND 3 \<noteq> 0 then None
         else Some (quartet_bytes digits padding))"

function decode_payload :: "string \<Rightarrow> byte list option" where
  "decode_payload chars =
    (if chars = [] then Some []
     else case decode_quartet (length chars = 4) (take 4 chars) of
       None \<Rightarrow> None
     | Some bytes \<Rightarrow> map_option (append bytes) (decode_payload (drop 4 chars)))"
  by auto
termination by (relation "measure length") auto

declare decode_payload.simps [simp del]

text \<open>\<open>std::from_chars\<close> for 32 bits, which has to take the whole text.\<close>

definition from_chars_version :: "string \<Rightarrow> u32 option" where
  "from_chars_version s =
    (if s \<noteq> [] \<and> list_all is_digit s \<and> digits_value s < 2 ^ 32 then Some (of_nat (digits_value s)) else None)"

definition another_envelope :: "string \<Rightarrow> bool" where
  "another_envelope text = (take 2 text = ''FC'' \<and>
    (case split_at CHR '':'' text of None \<Rightarrow> False | Some (head, _) \<Rightarrow> length head > 2 \<and> list_all is_digit (drop 2 head)))"

definition decode :: "string \<Rightarrow> nat \<Rightarrow> Decoded" where
  "decode text value_limit =
    (if text = [] then only_result LobbyMissing
     else if length text > value_limit then only_result LobbyMalformed
     else if take 4 text \<noteq> ''FC1:'' then only_result (if another_envelope text then LobbyUnsupported else LobbyMalformed)
     else case split_at CHR '':'' (drop 4 text) of
       None \<Rightarrow> only_result LobbyMalformed
     | Some (version, payload) \<Rightarrow>
         (case from_chars_version version of
            None \<Rightarrow> only_result LobbyMalformed
          | Some number \<Rightarrow>
              if length payload mod 4 \<noteq> 0 then only_result LobbyMalformed
              else case decode_payload payload of
                None \<Rightarrow> only_result LobbyMalformed
              | Some bytes \<Rightarrow> \<lparr>de_result = LobbyValue, de_version = number, de_value = bytes,
                  de_capacity = length payload div 4 * 3\<rparr>))"

record LobbyRecord =
  lr_lobby :: u64
  lr_result :: LobbyResult
  lr_version :: u32
  lr_value :: "byte list"
  lr_observed :: int

definition record_for :: "u64 \<Rightarrow> LobbyResult \<Rightarrow> u32 \<Rightarrow> byte list \<Rightarrow> int \<Rightarrow> u32 \<Rightarrow> LobbyRecord" where
  "record_for lobby result observed_version value' observed requested_version =
    (if result = LobbyValue \<and> observed_version \<noteq> requested_version
     then \<lparr>lr_lobby = lobby, lr_result = LobbyUnsupported, lr_version = observed_version, lr_value = [], lr_observed = observed\<rparr>
     else \<lparr>lr_lobby = lobby, lr_result = result, lr_version = observed_version, lr_value = value', lr_observed = observed\<rparr>)"

section \<open>Letters\<close>

lemma length_kAlphabet [simp]: "length kAlphabet = 64"
  by (simp add: kAlphabet_def)

lemma kAlphabet_distinct: "distinct kAlphabet \<and> pad \<notin> set kAlphabet"
  by (simp add: kAlphabet_def)

lemma find_index_distinct:
  assumes "distinct xs" and "n < length xs"
  shows "find_index (\<lambda>x. x = xs ! n) xs = Some n"
proof -
  have "takeWhile (\<lambda>x. x \<noteq> xs ! n) (take n xs @ xs ! n # drop (Suc n) xs) = take n xs"
  proof -
    have "\<forall>x \<in> set (take n xs). x \<noteq> xs ! n"
      using assms by (auto simp: in_set_conv_nth nth_eq_iff_index_eq)
    then show ?thesis by (simp add: takeWhile_append2)
  qed
  then have "takeWhile (\<lambda>x. x \<noteq> xs ! n) xs = take n xs" using assms(2) by (simp add: id_take_nth_drop [symmetric])
  then show ?thesis using assms(2) by (simp add: find_index_def Let_def)
qed

lemma letter_index: "d < 64 \<Longrightarrow> find_index (\<lambda>x. x = letter d) kAlphabet = Some (unat d)"
  unfolding letter_def by (rule find_index_distinct) (simp_all add: kAlphabet_distinct word_less_nat_alt)

lemma index_letter:
  assumes "find_index (\<lambda>x. x = c) kAlphabet = Some n"
  shows "letter (of_nat n) = c \<and> (of_nat n :: u32) < 64"
proof -
  have "n < 64" "kAlphabet ! n = c"
    using assms nth_length_takeWhile [of "\<lambda>x. x \<noteq> c" kAlphabet] by (auto simp: find_index_def Let_def split: if_splits)
  then show ?thesis by (simp add: letter_def word_less_nat_alt unat_of_nat take_bit_nat_eq_self)
qed

lemma letter_not_pad [simp]:
  assumes "d < 64" shows "letter d \<noteq> pad"
proof -
  have "letter d \<in> set kAlphabet" using assms by (simp add: letter_def word_less_nat_alt)
  then show ?thesis using kAlphabet_distinct by auto
qed

section \<open>One quartet\<close>

text \<open>Bytes and digits as numbers.\<close>

lemma low_bits: "unat ((x :: u32) AND 3) = unat x mod 4" "unat ((x :: u32) AND 15) = unat x mod 16" "unat ((x :: u32) AND 63) = unat x mod 64"
proof -
  have masks: "x AND 3 = take_bit 2 x" "x AND 15 = take_bit 4 x" "x AND 63 = take_bit 6 x"
    by (simp_all add: take_bit_eq_mask mask_eq_exp_minus_1)
  have "unat (x AND 3) = take_bit 2 (unat x)" "unat (x AND 15) = take_bit 4 (unat x)" "unat (x AND 63) = take_bit 6 (unat x)"
    by (simp_all only: masks unsigned_take_bit_eq)
  then show "unat (x AND 3) = unat x mod 4" "unat (x AND 15) = unat x mod 16" "unat (x AND 63) = unat x mod 64"
    by (simp_all add: take_bit_eq_mod)
qed

lemma unat_drop_bit: "unat (drop_bit n (x :: u32)) = unat x div 2 ^ n"
proof -
  have "unat x < 2 ^ 32" using unsigned_less [of x, where 'a = nat] by simp
  moreover have "unat (drop_bit n x) = drop_bit n (take_bit LENGTH(32) (unat x))" by (rule unsigned_drop_bit_eq)
  ultimately show ?thesis by (simp add: take_bit_nat_eq_self drop_bit_eq_div)
qed

lemma unat_byte_u32 [simp]: "unat (ucast (a :: byte) :: u32) = unat a"
proof -
  have "unat (ucast a :: u32) = take_bit LENGTH(32) (unat a)" by (rule unsigned_ucast_eq)
  moreover have "unat a < 2 ^ LENGTH(32)" by (rule order.strict_trans2 [OF unat_byte_less]) simp
  ultimately show ?thesis by (simp only: take_bit_nat_eq_self)
qed

lemma unat_byte_ucast [simp]: "unat (ucast (x :: u32) :: byte) = unat x mod 256"
  by (simp add: unsigned_ucast_eq take_bit_eq_mod)

lemma fill:
  fixes x y :: u32
  assumes "unat x < 64" and "unat y < 2 ^ k" and "k \<le> 6"
  shows "unat (push_bit k x OR y) = unat x * 2 ^ k + unat y"
proof (rule unat_shift_fill)
  have "(2 :: nat) ^ k \<le> 2 ^ 6" by (rule power_increasing [OF assms(3)]) simp
  then have "unat x * 2 ^ k < 64 * 2 ^ 6" using assms(1) by (intro mult_less_le_imp_less) auto
  then show "unat x * 2 ^ k < 2 ^ LENGTH(32)" by simp
qed (use assms in auto)

lemma digits_numbers:
  fixes a b c :: byte
  shows "unat (drop_bit 2 (ucast a :: u32)) = unat a div 4"
    and "unat (push_bit 4 ((ucast a :: u32) AND 3) OR drop_bit 4 (ucast b)) = unat a mod 4 * 16 + unat b div 16"
    and "unat (push_bit 2 ((ucast b :: u32) AND 15) OR drop_bit 6 (ucast c)) = unat b mod 16 * 4 + unat c div 64"
    and "unat ((ucast c :: u32) AND 63) = unat c mod 64"
proof -
  have "unat b div 16 < 16" "unat c div 64 < 4" using unat_byte_less [of b] unat_byte_less [of c] by linarith+
  then show "unat (push_bit 4 ((ucast a :: u32) AND 3) OR drop_bit 4 (ucast b)) = unat a mod 4 * 16 + unat b div 16"
    "unat (push_bit 2 ((ucast b :: u32) AND 15) OR drop_bit 6 (ucast c)) = unat b mod 16 * 4 + unat c div 64"
    using fill [of "(ucast a :: u32) AND 3" "drop_bit 4 (ucast b)" 4] fill [of "(ucast b :: u32) AND 15" "drop_bit 6 (ucast c)" 2]
    by (simp_all add: low_bits unat_drop_bit)
qed (simp_all add: low_bits unat_drop_bit)

lemma bytes_numbers:
  fixes d0 d1 d2 d3 :: u32
  assumes "unat d0 < 64" "unat d1 < 64" "unat d2 < 64" "unat d3 < 64"
  shows "unat (ucast (push_bit 2 d0 OR drop_bit 4 d1) :: byte) = unat d0 * 4 + unat d1 div 16"
    and "unat (ucast (push_bit 4 d1 OR drop_bit 2 d2) :: byte) = unat d1 mod 16 * 16 + unat d2 div 4"
    and "unat (ucast (push_bit 6 d2 OR d3) :: byte) = unat d2 mod 4 * 64 + unat d3"
proof -
  have small: "unat d1 div 16 < 4" "unat d2 div 4 < 16" using assms by linarith+
  have "unat (push_bit 2 d0 OR drop_bit 4 d1) = unat d0 * 4 + unat d1 div 16"
    using fill [of d0 "drop_bit 4 d1" 2] assms small by (simp add: unat_drop_bit)
  moreover have "unat d0 * 4 + unat d1 div 16 < 256" using assms small by linarith
  ultimately show "unat (ucast (push_bit 2 d0 OR drop_bit 4 d1) :: byte) = unat d0 * 4 + unat d1 div 16"
    by (simp only: unat_byte_ucast mod_less)
  have "unat (push_bit 4 d1 OR drop_bit 2 d2) = unat d1 * 16 + unat d2 div 4"
    using fill [of d1 "drop_bit 2 d2" 4] assms small by (simp add: unat_drop_bit)
  moreover have "(x * 16 + y) mod 256 = x mod 16 * 16 + y" if "y < 16" for x y :: nat
    using mod_mult2_eq [of "x * 16 + y" 16 16] that by simp
  ultimately show "unat (ucast (push_bit 4 d1 OR drop_bit 2 d2) :: byte) = unat d1 mod 16 * 16 + unat d2 div 4"
    using small by (simp only: unat_byte_ucast)
  have "unat (push_bit 6 d2 OR d3) = unat d2 * 64 + unat d3" using fill [of d2 d3 6] assms by simp
  moreover have "(x * 64 + y) mod 256 = x mod 4 * 64 + y" if "y < 64" for x y :: nat
    using mod_mult2_eq [of "x * 64 + y" 64 4] that by simp
  ultimately show "unat (ucast (push_bit 6 d2 OR d3) :: byte) = unat d2 mod 4 * 64 + unat d3"
    using assms by (simp only: unat_byte_ucast)
qed

text \<open>The four digits of three bytes.\<close>

definition digit0 :: "byte \<Rightarrow> u32" where "digit0 a = drop_bit 2 (ucast a)"
definition digit1 :: "byte \<Rightarrow> byte \<Rightarrow> u32" where "digit1 a b = push_bit 4 (ucast a AND 3) OR drop_bit 4 (ucast b)"
definition digit2 :: "byte \<Rightarrow> byte \<Rightarrow> u32" where "digit2 b c = push_bit 2 (ucast b AND 15) OR drop_bit 6 (ucast c)"
definition digit3 :: "byte \<Rightarrow> u32" where "digit3 c = ucast c AND 63"

lemma digit_values:
  "unat (digit0 a) = unat a div 4" "unat (digit1 a b) = unat a mod 4 * 16 + unat b div 16"
  "unat (digit2 b c) = unat b mod 16 * 4 + unat c div 64" "unat (digit3 c) = unat c mod 64"
  unfolding digit0_def digit1_def digit2_def digit3_def by (rule digits_numbers)+

lemma digits_less:
  "unat (digit0 a) < 64" "unat (digit1 a b) < 64" "unat (digit2 a b) < 64" "unat (digit3 a) < 64"
  unfolding digit_values using unat_byte_less [of a] unat_byte_less [of b] by linarith+

lemma digit_index [simp]:
  "find_index (\<lambda>x. x = letter (digit0 a)) kAlphabet = Some (unat (digit0 a))"
  "find_index (\<lambda>x. x = letter (digit1 a b)) kAlphabet = Some (unat (digit1 a b))"
  "find_index (\<lambda>x. x = letter (digit2 a b)) kAlphabet = Some (unat (digit2 a b))"
  "find_index (\<lambda>x. x = letter (digit3 a)) kAlphabet = Some (unat (digit3 a))"
  using digits_less by (simp_all add: letter_index word_less_nat_alt)

lemma digit_not_pad [simp]: "letter (digit0 a) \<noteq> pad" "letter (digit1 a b) \<noteq> pad" "letter (digit2 a b) \<noteq> pad" "letter (digit3 a) \<noteq> pad"
  using digits_less by (simp_all add: word_less_nat_alt)

lemma encode_quartet_cases:
  "encode_quartet [a] = [letter (digit0 a), letter (digit1 a 0), pad, pad]"
  "encode_quartet [a, b] = [letter (digit0 a), letter (digit1 a b), letter (digit2 b 0), pad]"
  "encode_quartet [a, b, c] = [letter (digit0 a), letter (digit1 a b), letter (digit2 b c), letter (digit3 c)]"
  by (simp_all add: encode_quartet_def digit0_def digit1_def digit2_def digit3_def Let_def)

lemma bytes_again:
  "ucast (push_bit 2 (digit0 a) OR drop_bit 4 (digit1 a b)) = a"
  "ucast (push_bit 4 (digit1 a b) OR drop_bit 2 (digit2 b c)) = b"
  "ucast (push_bit 6 (digit2 b c) OR digit3 c) = c"
proof -
  have q: "unat b div 16 < 16" "unat c div 64 < 4" using unat_byte_less [of b] unat_byte_less [of c] by linarith+
  have high: "(r * 16 + unat b div 16) div 16 = r" "(r * 16 + unat b div 16) mod 16 = unat b div 16"
    "(r * 4 + unat c div 64) div 4 = r" "(r * 4 + unat c div 64) mod 4 = unat c div 64" for r
    using q by simp_all
  have "unat (ucast (push_bit 2 (digit0 a) OR drop_bit 4 (digit1 a b)) :: byte) = unat a div 4 * 4 + unat a mod 4"
    unfolding bytes_numbers(1) [OF digits_less(1) digits_less(2) digits_less(3) digits_less(4)] digit_values high ..
  moreover have "unat (ucast (push_bit 4 (digit1 a b) OR drop_bit 2 (digit2 b c)) :: byte) = unat b div 16 * 16 + unat b mod 16"
    unfolding bytes_numbers(2) [OF digits_less(1) digits_less(2) digits_less(3) digits_less(4)] digit_values high ..
  moreover have "unat (ucast (push_bit 6 (digit2 b c) OR digit3 c) :: byte) = unat c div 64 * 64 + unat c mod 64"
    unfolding bytes_numbers(3) [OF digits_less(1) digits_less(2) digits_less(3) digits_less(4)] digit_values high ..
  ultimately have "unat (ucast (push_bit 2 (digit0 a) OR drop_bit 4 (digit1 a b)) :: byte) = unat a"
    "unat (ucast (push_bit 4 (digit1 a b) OR drop_bit 2 (digit2 b c)) :: byte) = unat b"
    "unat (ucast (push_bit 6 (digit2 b c) OR digit3 c) :: byte) = unat c"
    by (simp_all only: div_mult_mod_eq)
  then show "ucast (push_bit 2 (digit0 a) OR drop_bit 4 (digit1 a b)) = a"
    "ucast (push_bit 4 (digit1 a b) OR drop_bit 2 (digit2 b c)) = b"
    "ucast (push_bit 6 (digit2 b c) OR digit3 c) = c"
    by (simp_all only: word_unat_eq_iff)
qed

lemma decode_encode_quartet:
  assumes "bytes \<noteq> []" and "length bytes \<le> 3" and "length bytes < 3 \<longrightarrow> final"
  shows "decode_quartet final (encode_quartet bytes) = Some bytes"
proof -
  consider a where "bytes = [a]" | a b where "bytes = [a, b]" | a b c where "bytes = [a, b, c]"
    using assms(1,2) by (cases bytes rule: remdups_adj.cases) (auto simp: le_Suc_eq length_Suc_conv)
  then show ?thesis
  proof cases
    case 1
    have "digit1 a 0 AND 15 = 0" by (simp add: word_unat_eq_iff low_bits digit_values)
    with 1 assms(3) show ?thesis
      by (simp add: encode_quartet_cases decode_quartet_def quartet_bytes_def bytes_again)
  next
    case 2
    have "digit2 b 0 AND 3 = 0" by (simp add: word_unat_eq_iff low_bits digit_values)
    with 2 assms(3) show ?thesis
      by (simp add: encode_quartet_cases decode_quartet_def quartet_bytes_def bytes_again)
  next
    case 3
    with assms(3) show ?thesis
      by (simp add: encode_quartet_cases decode_quartet_def quartet_bytes_def bytes_again)
  qed
qed

lemma length_encode_quartet [simp]: "length (encode_quartet bytes) = 4"
  by (simp add: encode_quartet_def Let_def)

lemma digits_again:
  fixes d0 d1 d2 d3 :: u32
  assumes "unat d0 < 64" "unat d1 < 64" "unat d2 < 64" "unat d3 < 64"
  defines "b0 \<equiv> ucast (push_bit 2 d0 OR drop_bit 4 d1) :: byte" and "b1 \<equiv> ucast (push_bit 4 d1 OR drop_bit 2 d2) :: byte"
    and "b2 \<equiv> ucast (push_bit 6 d2 OR d3) :: byte"
  shows "digit0 b0 = d0" and "digit1 b0 b1 = d1" and "digit2 b1 b2 = d2" and "digit3 b2 = d3"
    and "d1 AND 15 = 0 \<Longrightarrow> digit1 b0 0 = d1" and "d2 AND 3 = 0 \<Longrightarrow> digit2 b1 0 = d2"
proof -
  have q: "unat d1 div 16 < 4" "unat d2 div 4 < 16" using assms(1-4) by linarith+
  have b: "unat b0 = unat d0 * 4 + unat d1 div 16" "unat b1 = unat d1 mod 16 * 16 + unat d2 div 4" "unat b2 = unat d2 mod 4 * 64 + unat d3"
    unfolding b0_def b1_def b2_def by (rule bytes_numbers [OF assms(1-4)])+
  have parts: "unat b0 div 4 = unat d0" "unat b0 mod 4 = unat d1 div 16" "unat b1 div 16 = unat d1 mod 16" "unat b1 mod 16 = unat d2 div 4"
    "unat b2 div 64 = unat d2 mod 4" "unat b2 mod 64 = unat d3"
    unfolding b using q assms(4) by simp_all
  show "digit0 b0 = d0" "digit1 b0 b1 = d1" "digit2 b1 b2 = d2" "digit3 b2 = d3"
    by (simp_all only: word_unat_eq_iff digit_values parts div_mult_mod_eq)
  show "digit1 b0 0 = d1" if "d1 AND 15 = 0"
  proof -
    have "unat d1 mod 16 = 0" using that low_bits(2) [of d1] by simp
    then have "unat d1 div 16 * 16 = unat d1" using div_mult_mod_eq [of "unat d1" 16] by linarith
    then show ?thesis by (simp add: word_unat_eq_iff digit_values parts)
  qed
  show "digit2 b1 0 = d2" if "d2 AND 3 = 0"
  proof -
    have "unat d2 mod 4 = 0" using that low_bits(1) [of d2] by simp
    then have "unat d2 div 4 * 4 = unat d2" using div_mult_mod_eq [of "unat d2" 4] by linarith
    then show ?thesis by (simp add: word_unat_eq_iff digit_values parts)
  qed
qed

text \<open>What four characters decode to is what they encode.\<close>

lemma decode_digits_four:
  assumes "decode_digits final 0 0 [c0, c1, c2, c3] = Some (digits, padding)"
  shows "\<exists>d0 d1 d2 d3. digits = [d0, d1, d2, d3] \<and> unat d0 < 64 \<and> unat d1 < 64 \<and> unat d2 < 64 \<and> unat d3 < 64 \<and>
    c0 = letter d0 \<and> c1 = letter d1 \<and>
    (padding = 0 \<and> c2 = letter d2 \<and> c3 = letter d3 \<or> padding = 1 \<and> final \<and> c2 = letter d2 \<and> c3 = pad \<or>
     padding = 2 \<and> final \<and> c2 = pad \<and> c3 = pad)"
  using assms
proof -
  have index: "letter (of_nat n) = c \<and> unat (of_nat n :: u32) < 64" if "find_index (\<lambda>x. x = c) kAlphabet = Some n" for c n
    using index_letter [OF that] by (simp add: word_less_nat_alt)
  show ?thesis
    using assms by (auto simp: numeral_2_eq_2 split: if_splits option.splits dest!: index)
qed

lemma decode_quartet_canonical:
  assumes decoded: "decode_quartet final chars = Some bytes" and "length chars = 4"
  shows "chars = encode_quartet bytes \<and> bytes \<noteq> [] \<and> length bytes \<le> 3 \<and> (length bytes < 3 \<longrightarrow> final)"
proof -
  obtain c0 c1 c2 c3 where chars: "chars = [c0, c1, c2, c3]" using assms(2) by (auto simp: numeral_eq_Suc length_Suc_conv)
  obtain digits padding where digits: "decode_digits final 0 0 [c0, c1, c2, c3] = Some (digits, padding)" and
    ok: "\<not> (padding = 2 \<and> digits ! 1 AND 15 \<noteq> 0 \<or> padding = 1 \<and> digits ! 2 AND 3 \<noteq> 0)" and
    bytes: "bytes = quartet_bytes digits padding"
    using decoded unfolding chars decode_quartet_def by (simp split: option.splits prod.splits if_splits)
  from decode_digits_four [OF digits] obtain d0 d1 d2 d3 where d: "digits = [d0, d1, d2, d3]"
    "unat d0 < 64" "unat d1 < 64" "unat d2 < 64" "unat d3 < 64" "c0 = letter d0" "c1 = letter d1" and
    tails: "padding = 0 \<and> c2 = letter d2 \<and> c3 = letter d3 \<or> padding = 1 \<and> final \<and> c2 = letter d2 \<and> c3 = pad \<or>
      padding = 2 \<and> final \<and> c2 = pad \<and> c3 = pad" by blast
  note again = digits_again [OF d(2-5)]
  from tails show ?thesis
  proof (elim disjE conjE)
    assume p: "padding = 0" "c2 = letter d2" "c3 = letter d3"
    then show ?thesis using d again by (simp add: chars bytes quartet_bytes_def encode_quartet_cases)
  next
    assume p: "padding = 1" "final" "c2 = letter d2" "c3 = pad"
    then have "d2 AND 3 = 0" using ok d(1) by simp
    then show ?thesis using p d again by (simp add: chars bytes quartet_bytes_def encode_quartet_cases)
  next
    assume p: "padding = 2" "final" "c2 = pad" "c3 = pad"
    then have "d1 AND 15 = 0" using ok d(1) by simp
    then show ?thesis using p d again by (simp add: chars bytes quartet_bytes_def encode_quartet_cases)
  qed
qed

section \<open>The payload\<close>

lemma encode_payload_Nil_iff [simp]: "encode_payload bytes = [] \<longleftrightarrow> bytes = []"
proof (cases "bytes = []")
  case False
  have "length (encode_payload bytes) \<ge> length (encode_quartet (take 3 bytes))"
    using False by (subst encode_payload.simps) simp
  then show ?thesis using False by auto
qed (simp add: encode_payload.simps)

lemma length_encode_payload: "length (encode_payload bytes) = (length bytes + 2) div 3 * 4"
proof (induction bytes rule: encode_payload.induct)
  case (1 bytes)
  show ?case
  proof (cases "bytes = []")
    case True
    then show ?thesis by (simp add: encode_payload.simps)
  next
    case False
    have "(length bytes + 2) div 3 = Suc ((length bytes - 3 + 2) div 3)"
    proof (cases "length bytes \<ge> 3")
      case True
      then show ?thesis by (simp add: le_div_geq)
    next
      case small: False
      with False have "length bytes = 1 \<or> length bytes = 2" by (metis One_nat_def Suc_1 length_0_conv less_2_cases less_Suc_eq linorder_not_less numeral_3_eq_3)
      then show ?thesis by auto
    qed
    then show ?thesis using 1 [OF False] False by (subst encode_payload.simps) simp
  qed
qed

lemma decode_encode_payload: "decode_payload (encode_payload bytes) = Some bytes"
proof (induction bytes rule: encode_payload.induct)
  case (1 bytes)
  show ?case
  proof (cases "bytes = []")
    case True
    then show ?thesis by (simp add: encode_payload.simps decode_payload.simps)
  next
    case False
    have split: "encode_payload bytes = encode_quartet (take 3 bytes) @ encode_payload (drop 3 bytes)"
      using False by (subst encode_payload.simps) simp
    have "decode_quartet (length (encode_payload bytes) = 4) (encode_quartet (take 3 bytes)) = Some (take 3 bytes)"
    proof (rule decode_encode_quartet)
      show "take 3 bytes \<noteq> []" using False by simp
      show "length (take 3 bytes) < 3 \<longrightarrow> length (encode_payload bytes) = 4" by (auto simp: split)
    qed simp
    then have quartet: "decode_quartet (length (encode_payload bytes) = 4) (take 4 (encode_payload bytes)) = Some (take 3 bytes)"
      by (simp add: split)
    have rest: "decode_payload (drop 4 (encode_payload bytes)) = Some (drop 3 bytes)" using 1 [OF False] by (simp add: split)
    have "encode_payload bytes \<noteq> []" using False by simp
    then have "decode_payload (encode_payload bytes) = Some (take 3 bytes @ drop 3 bytes)"
      by (subst decode_payload.simps) (simp only: quartet rest if_False option.case option.map)
    then show ?thesis by simp
  qed
qed

lemma decode_payload_canonical:
  "decode_payload chars = Some bytes \<Longrightarrow> length chars mod 4 = 0 \<Longrightarrow>
   chars = encode_payload bytes \<and> length bytes \<le> length chars div 4 * 3"
proof (induction chars arbitrary: bytes rule: decode_payload.induct)
  case (1 chars)
  show ?case
  proof (cases "chars = []")
    case True
    then show ?thesis using 1(2) by (simp add: encode_payload.simps decode_payload.simps)
  next
    case False
    from 1(2) False obtain front rest where front: "decode_quartet (length chars = 4) (take 4 chars) = Some front" and
      rest: "decode_payload (drop 4 chars) = Some rest" and bytes: "bytes = front @ rest"
      by (subst (asm) decode_payload.simps) (auto split: option.splits)
    have "length chars \<ge> 4" using False 1(3) by (metis length_0_conv mod_less not_le_imp_less)
    then have four: "length (take 4 chars) = 4" and less: "length (drop 4 chars) mod 4 = 0" using 1(3) le_mod_geq [of 4 "length chars"] by simp_all
    have tail: "drop 4 chars = encode_payload rest \<and> length rest \<le> length (drop 4 chars) div 4 * 3"
      by (rule 1(1) [OF False front rest less])
    have head: "take 4 chars = encode_quartet front" "front \<noteq> []" "length front \<le> 3" "length front < 3 \<longrightarrow> length chars = 4"
      using decode_quartet_canonical [OF front four] by blast+
    have parts: "take 3 bytes = front \<and> drop 3 bytes = rest"
    proof (cases "length front = 3")
      case True
      then show ?thesis by (simp add: bytes)
    next
      case short: False
      then have "length chars = 4" using head by simp
      then have "rest = []" using tail by simp
      then show ?thesis using head(3) by (simp add: bytes)
    qed
    have "bytes \<noteq> []" using head(2) bytes by simp
    then have "encode_payload bytes = encode_quartet (take 3 bytes) @ encode_payload (drop 3 bytes)"
      by (subst encode_payload.simps) simp
    also have "\<dots> = take 4 chars @ drop 4 chars" using parts head(1) tail by simp
    finally have "chars = encode_payload bytes" by simp
    moreover have "length bytes \<le> length chars div 4 * 3"
      using \<open>length chars \<ge> 4\<close> head(3) tail by (simp add: bytes le_div_geq)
    ultimately show ?thesis by blast
  qed
qed

section \<open>Codes with one spelling\<close>

text \<open>The interface of a code whose reader undoes the writer and accepts nothing that the writer does not write.\<close>

locale canonical_code =
  fixes write_code :: "'a \<Rightarrow> 'b"
    and read_code :: "'b \<Rightarrow> 'a option"
    and spelled :: "'b \<Rightarrow> bool"
  assumes read_write: "read_code (write_code x) = Some x"
    and write_read: "spelled s \<Longrightarrow> read_code s = Some x \<Longrightarrow> s = write_code x"
begin

lemma write_inject: "write_code x = write_code y \<Longrightarrow> x = y"
  by (metis option.inject read_write)

lemma one_spelling: "spelled s \<Longrightarrow> spelled t \<Longrightarrow> read_code s = Some x \<Longrightarrow> read_code t = Some x \<Longrightarrow> s = t"
  by (metis write_read)

end

interpretation payload: canonical_code encode_payload decode_payload "\<lambda>s. length s mod 4 = 0"
  by unfold_locales (simp_all add: decode_encode_payload decode_payload_canonical)

section \<open>Whole values\<close>

lemma split_colon: "CHR '':'' \<notin> set v \<Longrightarrow> split_at CHR '':'' (v @ CHR '':'' # p) = Some (v, p)"
  by (simp add: split_at_Some)

lemma decimal_no_colon: "CHR '':'' \<notin> set (decimal n)"
  using decimal_digits [of n] by (auto simp: list_all_iff is_digit_def)

text \<open>Text that reads as a number is its decimal notation behind any number of zeros.\<close>

definition zero_padded :: "nat \<Rightarrow> nat \<Rightarrow> string" where
  "zero_padded k n = replicate k (CHR ''0'') @ decimal n"

lemma decimal_zero: "decimal 0 = ''0''"
  by code_simp

lemma digits_padded:
  assumes "list_all is_digit s" and "s \<noteq> []"
  shows "\<exists>k. s = zero_padded k (digits_value s)"
  using assms
proof (induction s rule: rev_induct)
  case (snoc c s)
  define d where "d = (of_char c :: nat) - 48"
  have code: "(of_char c :: nat) = 48 + d" and d: "d < 10" using snoc.prems(1) by (auto simp: d_def is_digit_def)
  have c: "c = char_of (48 + d)" using arg_cong [OF code, of char_of] by simp
  have whole: "digits_value (s @ [c]) = digits_value s * 10 + d" by (simp add: digits_value_snoc d_def)
  show ?case
  proof (cases "s = []")
    case True
    then have "s @ [c] = zero_padded 0 (digits_value (s @ [c]))"
      using whole d c by (simp add: zero_padded_def digits_value_def decimal.simps [of d])
    then show ?thesis ..
  next
    case False
    then obtain k where k: "s = zero_padded k (digits_value s)" using snoc.IH snoc.prems(1) by auto
    show ?thesis
    proof (cases "digits_value s = 0")
      case True
      then have "s = replicate (Suc k) (CHR ''0'')" using k
        by (simp add: zero_padded_def decimal_zero replicate_append_same)
      then have "s @ [c] = zero_padded (Suc k) (digits_value (s @ [c]))"
        using whole True d c by (simp add: zero_padded_def decimal.simps [of d])
      then show ?thesis ..
    next
      case False
      then have "decimal (digits_value s * 10 + d) = decimal (digits_value s) @ [c]"
        using d c by (simp add: decimal.simps [of "digits_value s * 10 + d"])
      then have "s @ [c] = zero_padded k (digits_value (s @ [c]))"
        using k whole by (simp add: zero_padded_def)
      then show ?thesis ..
    qed
  qed
qed simp

lemma zero_padded_laws [simp]:
  "list_all is_digit (zero_padded k n)" "zero_padded k n \<noteq> []" "digits_value (zero_padded k n) = n" "CHR '':'' \<notin> set (zero_padded k n)"
proof -
  have zeros: "foldl (\<lambda>n c. n * 10 + (of_char c - 48)) 0 (replicate k (CHR ''0'')) = (0 :: nat)" by (induction k) simp_all
  show "digits_value (zero_padded k n) = n"
    using digits_value_decimal [of n] zeros by (simp add: zero_padded_def digits_value_def)
  show "list_all is_digit (zero_padded k n)" "zero_padded k n \<noteq> []" "CHR '':'' \<notin> set (zero_padded k n)"
    using decimal_digits [of n] decimal_no_colon [of n] by (auto simp: zero_padded_def list_all_iff is_digit_def)
qed

lemma from_chars_version_exact: "from_chars_version s = Some v \<longleftrightarrow> (\<exists>k. s = zero_padded k (unat v))"
proof
  assume read: "from_chars_version s = Some v"
  then have "list_all is_digit s" "s \<noteq> []" "digits_value s < 2 ^ 32" and v: "v = of_nat (digits_value s)"
    by (auto simp: from_chars_version_def split: if_splits)
  then obtain k where "s = zero_padded k (digits_value s)" using digits_padded by blast
  moreover have "unat v = digits_value s" using v \<open>digits_value s < 2 ^ 32\<close> by (simp add: unat_of_nat)
  ultimately show "\<exists>k. s = zero_padded k (unat v)" by metis
next
  assume "\<exists>k. s = zero_padded k (unat v)"
  then show "from_chars_version s = Some v"
    using unsigned_less [of v, where 'a = nat] by (auto simp: from_chars_version_def)
qed

text \<open>The writer's text of a version and bytes, its version behind some zeros.\<close>

definition padded_text :: "nat \<Rightarrow> u32 \<Rightarrow> byte list \<Rightarrow> string" where
  "padded_text k version bytes = ''FC1:'' @ zero_padded k (unat version) @ '':'' @ encode_payload bytes"

lemma encode_padded: "encode version bytes = padded_text 0 version bytes"
  by (simp add: encode_def padded_text_def zero_padded_def)

lemma decode_padded:
  assumes "length (padded_text k version bytes) \<le> limit"
  shows "decode (padded_text k version bytes) limit =
    \<lparr>de_result = LobbyValue, de_version = version, de_value = bytes, de_capacity = (length bytes + 2) div 3 * 3\<rparr>"
proof -
  have "from_chars_version (zero_padded k (unat version)) = Some version" by (auto simp: from_chars_version_exact)
  then show ?thesis using assms
    by (simp add: decode_def padded_text_def split_colon payload.read_write length_encode_payload)
qed

lemma decode_encode:
  assumes "length (encode version bytes) \<le> limit"
  shows "decode (encode version bytes) limit =
    \<lparr>de_result = LobbyValue, de_version = version, de_value = bytes, de_capacity = (length bytes + 2) div 3 * 3\<rparr>"
  using decode_padded [of 0 version bytes limit] assms by (simp add: encode_padded)

text \<open>What reads as a value is such a text.\<close>

lemma decode_value:
  assumes "de_result (decode text limit) = LobbyValue"
  shows "\<exists>k. text = padded_text k (de_version (decode text limit)) (de_value (decode text limit)) \<and> length text \<le> limit \<and>
    length (de_value (decode text limit)) \<le> de_capacity (decode text limit) \<and>
    de_capacity (decode text limit) \<le> (limit - 6) div 4 * 3"
proof -
  from assms obtain version payload number bytes where parts: "length text \<le> limit" "take 4 text = ''FC1:''"
    "split_at CHR '':'' (drop 4 text) = Some (version, payload)" "from_chars_version version = Some number"
    "length payload mod 4 = 0" "decode_payload payload = Some bytes" and
    decoded: "decode text limit = \<lparr>de_result = LobbyValue, de_version = number, de_value = bytes, de_capacity = length payload div 4 * 3\<rparr>"
    by (auto simp: decode_def only_result_def split: if_splits option.splits prod.splits)
  have whole: "text = ''FC1:'' @ version @ '':'' @ payload"
    using append_take_drop_id [of 4 "text"] parts(2,3) unfolding split_at_Some by simp
  have "payload = encode_payload bytes" by (rule payload.write_read [OF parts(5,6)])
  moreover have "length bytes \<le> length payload div 4 * 3" using decode_payload_canonical [OF parts(6,5)] by blast
  moreover have "version \<noteq> []" using parts(4) by (auto simp: from_chars_version_def split: if_splits)
  then have "length payload \<le> limit - 6" using parts(1) whole by (cases version) auto
  then have "length payload div 4 * 3 \<le> (limit - 6) div 4 * 3" by (intro mult_le_mono1 div_le_mono)
  moreover obtain k where "version = zero_padded k (unat number)" using parts(4) by (auto simp: from_chars_version_exact)
  ultimately show ?thesis using whole parts(1) decoded by (auto simp: padded_text_def)
qed

lemma decode_capacity: "length (de_value (decode text limit)) \<le> de_capacity (decode text limit) \<and>
  de_capacity (decode text limit) \<le> (limit - 6) div 4 * 3"
proof (cases "de_result (decode text limit) = LobbyValue")
  case True
  from decode_value [OF this] show ?thesis by blast
next
  case False
  then show ?thesis by (auto simp: decode_def only_result_def split: option.splits prod.splits)
qed

lemma length_encode: "length (encode version bytes) = length (decimal (unat version)) + 5 + (length bytes + 2) div 3 * 4"
  by (simp add: encode_def length_encode_payload)

end
