(* ===== verification/Lobby.thy ===== *)
theory Lobby
  imports Lobby_Codec Status_Text Native_Address
begin

text \<open>
  The lobby service (\<open>runtime/src/lobby.cpp\<close>): items that patches publish into a lobby this process owns, reads of items
  of any lobby with a cache, and one budget for everything it stores. Pointers are addresses that are never handed out
  twice; an address the service does not know names nothing, where the code's callers may not use it any more. Patch code is a
  program of calls into the service (\<open>lobby_call\<close>), so that a callback may call back.
\<close>

section \<open>State\<close>

definition kStorageBytes :: nat where "kStorageBytes = 256 * 1024"

record Observation =
  ob_result :: LobbyResult
  ob_version :: u32
  ob_value :: "byte list"
  ob_capacity :: nat
  ob_observed :: int

record Cache =
  ch_address :: nat
  ch_lobby :: u64
  ch_key :: string
  ch_observation :: "Observation option"
  ch_readers :: nat
  ch_payload_charge :: nat
  ch_used :: nat

record LobbyItem =
  li_address :: nat
  li_owner :: nat
  li_key :: string
  li_version :: u32
  li_desired :: "string option"
  li_written :: "string option"
  li_written_charge :: nat
  li_written_lobby :: u64
  li_attempted :: "int option"
  li_withdraw :: bool
  li_failure :: "string option"

datatype RequestPhase = RequestPending | RequestReady | RequestDelivering | RequestDelivered

text \<open>What patch code does with the service: each call and how the code goes on with its result. A callback is a
  function of the record it receives, or null.\<close>

datatype lobby_call =
    Lobby_Return
  | Lobby_Register nat string u32 "Diagnostic + nat \<Rightarrow> lobby_call"
  | Lobby_Current "u64 \<Rightarrow> lobby_call"
  | Lobby_Cached u64 string u32 "(LobbyRecord \<Rightarrow> lobby_call) option" "bool \<Rightarrow> lobby_call"
  | Lobby_Refresh nat u64 string u32 "(LobbyRecord \<Rightarrow> lobby_call) option" "Diagnostic + nat \<Rightarrow> lobby_call"
  | Lobby_Publish nat "byte list" "Diagnostic option \<Rightarrow> lobby_call"
  | Lobby_Clear nat lobby_call
  | Lobby_Cancel nat lobby_call

record LobbyRequest =
  rq_address :: nat
  rq_owner :: nat
  rq_cache :: "nat option"
  rq_lobby :: u64
  rq_version :: u32
  rq_callback :: "(LobbyRecord \<Rightarrow> lobby_call) option"
  rq_failure :: LobbyResult
  rq_phase :: RequestPhase

record LobbyGroup =
  gr_submitted :: bool
  gr_invalidated :: bool
  gr_completion :: "bool option"
  gr_native_reason :: "u32 option"

definition new_group :: LobbyGroup where
  "new_group = \<lparr>gr_submitted = False, gr_invalidated = False, gr_completion = None, gr_native_reason = None\<rparr>"

record LobbyNativeState =
  ns_available :: bool
  ns_current :: u64
  ns_owned :: u64

record 'w LobbyBackend =
  bk_state :: "('w \<Rightarrow> LobbyNativeState) option"
  bk_request :: "('w \<Rightarrow> u64 \<Rightarrow> Diagnostic option \<times> 'w) option"
  bk_read :: "('w \<Rightarrow> u64 \<Rightarrow> string \<Rightarrow> (Diagnostic + string) \<times> 'w) option"
  bk_write :: "('w \<Rightarrow> u64 \<Rightarrow> string \<Rightarrow> string option \<Rightarrow> Diagnostic option \<times> 'w) option"

text \<open>
  What surrounds the service: the target with the sizes of its records, the patches, the text of a system error, and the
  completions that listener threads have posted when the control thread takes the lock the next time.
\<close>

record 'w lobby_env =
  en_arch :: FC_Architecture
  en_sizeof_item :: nat
  en_sizeof_cache :: nat
  en_sizeof_request :: nat
  en_sizeof_group :: nat
  en_sizeof_pointer :: nat
  en_state :: "nat \<Rightarrow> PatchState"
  en_name :: "nat \<Rightarrow> string"
  en_runtime :: "nat \<Rightarrow> bool"
  en_diagnostic_text :: "Diagnostic \<Rightarrow> string"
  en_arrivals :: "'w \<Rightarrow> (u64 \<times> bool \<times> u32 option) list \<times> 'w"

record 'w LobbyService =
  lb_backend :: "'w LobbyBackend"
  lb_world :: 'w
  lb_key_limit :: nat
  lb_value_limit :: nat
  lb_maximum_payload :: nat
  lb_used :: nat
  lb_cache_use :: nat
  lb_items :: "LobbyItem list"
  lb_cache :: "Cache list"
  lb_requests :: "LobbyRequest list"
  lb_groups :: "(u64 \<times> LobbyGroup) list"
  lb_fresh :: nat
  lb_log :: "(nat \<times> string) list"

definition no_backend :: "'w LobbyBackend" where
  "no_backend = \<lparr>bk_state = None, bk_request = None, bk_read = None, bk_write = None\<rparr>"

definition new_lobby :: "'w \<Rightarrow> 'w LobbyService" where
  "new_lobby world =
    \<lparr>lb_backend = no_backend, lb_world = world, lb_key_limit = 0, lb_value_limit = 0, lb_maximum_payload = 0, lb_used = 0,
     lb_cache_use = 0, lb_items = [], lb_cache = [], lb_requests = [], lb_groups = [], lb_fresh = 0, lb_log = []\<rparr>"

subsection \<open>Sizes\<close>

text \<open>Sums and differences of sizes wrap at the width of a pointer.\<close>

fun size_limit :: "FC_Architecture \<Rightarrow> nat" where
  "size_limit FC_ARCH_X86 = 2 ^ 32"
| "size_limit FC_ARCH_X64 = 2 ^ 64"

definition size_minus :: "'w lobby_env \<Rightarrow> nat \<Rightarrow> nat \<Rightarrow> nat" where
  "size_minus env a b = (a + (size_limit (en_arch env) - b mod size_limit (en_arch env))) mod size_limit (en_arch env)"

definition size_plus :: "'w lobby_env \<Rightarrow> nat \<Rightarrow> nat \<Rightarrow> nat" where
  "size_plus env a b = (a + b) mod size_limit (en_arch env)"

definition charge_used :: "'w lobby_env \<Rightarrow> nat \<Rightarrow> 'w LobbyService \<Rightarrow> 'w LobbyService" where
  "charge_used env amount st = st\<lparr>lb_used := size_plus env (lb_used st) amount\<rparr>"

definition release_used :: "'w lobby_env \<Rightarrow> nat \<Rightarrow> 'w LobbyService \<Rightarrow> 'w LobbyService" where
  "release_used env amount st = st\<lparr>lb_used := size_minus env (lb_used st) amount\<rparr>"

definition item_size :: "'w lobby_env \<Rightarrow> string \<Rightarrow> nat" where
  "item_size env key = en_sizeof_item env + en_sizeof_pointer env + length key"

definition cache_size :: "'w lobby_env \<Rightarrow> string \<Rightarrow> nat \<Rightarrow> nat" where
  "cache_size env key payload = en_sizeof_cache env + en_sizeof_pointer env + length key + payload"

definition request_size :: "'w lobby_env \<Rightarrow> nat" where
  "request_size env = en_sizeof_request env + en_sizeof_pointer env"

definition group_size :: "'w lobby_env \<Rightarrow> nat" where
  "group_size env = en_sizeof_group env + 4 * en_sizeof_pointer env"

definition optional_size :: "string option \<Rightarrow> nat" where
  "optional_size value' = (case value' of None \<Rightarrow> 0 | Some s \<Rightarrow> length s)"

section \<open>Limits and native state\<close>

definition configure :: "'w lobby_env \<Rightarrow> nat \<Rightarrow> nat \<Rightarrow> 'w LobbyService \<Rightarrow> 'w LobbyService" where
  "configure env key_limit value_limit st =
    charge_used env value_limit
      ((release_used env (lb_value_limit st) st)
        \<lparr>lb_key_limit := key_limit, lb_value_limit := value_limit,
         lb_maximum_payload := (if value_limit \<ge> 6 then (value_limit - 6) div 4 * 3 else 0)\<rparr>)"

definition attach :: "'w LobbyBackend \<Rightarrow> 'w LobbyService \<Rightarrow> 'w LobbyService" where
  "attach backend st = st\<lparr>lb_backend := backend\<rparr>"

definition native_state :: "'w LobbyService \<Rightarrow> LobbyNativeState" where
  "native_state st =
    (case bk_state (lb_backend st) of
       None \<Rightarrow> \<lparr>ns_available = False, ns_current = 0, ns_owned = 0\<rparr>
     | Some state \<Rightarrow> state (lb_world st))"

definition current :: "'w LobbyService \<Rightarrow> u64" where
  "current st = (if ns_available (native_state st) then ns_current (native_state st) else 0)"

section \<open>The cache\<close>

text \<open>The first of the entries without readers whose last use is oldest.\<close>

definition older :: "Cache option \<Rightarrow> Cache \<Rightarrow> Cache option" where
  "older oldest entry =
    (if ch_readers entry = 0 \<and> (case oldest of None \<Rightarrow> True | Some o' \<Rightarrow> ch_used entry < ch_used o') then Some entry else oldest)"

definition oldest_unread :: "Cache list \<Rightarrow> Cache option" where
  "oldest_unread entries = foldl older None entries"

definition evict :: "'w lobby_env \<Rightarrow> Cache \<Rightarrow> 'w LobbyService \<Rightarrow> 'w LobbyService" where
  "evict env entry st =
    (release_used env (cache_size env (ch_key entry) (ch_payload_charge entry)) st)
      \<lparr>lb_cache := filter (\<lambda>e. ch_address e \<noteq> ch_address entry) (lb_cache st)\<rparr>"

lemma oldest_unread_in: "oldest_unread entries = Some entry \<Longrightarrow> entry \<in> set entries \<and> ch_readers entry = 0"
proof -
  have "foldl older o' entries = Some entry \<Longrightarrow> o' = Some entry \<or> entry \<in> set entries \<and> ch_readers entry = 0" for o'
    by (induction entries arbitrary: o') (auto simp: older_def split: if_splits option.splits)
  then show "oldest_unread entries = Some entry \<Longrightarrow> entry \<in> set entries \<and> ch_readers entry = 0"
    unfolding oldest_unread_def by blast
qed

lemma cache_frame [simp]:
  "lb_cache (release_used env n st) = lb_cache st" "lb_cache (charge_used env n st) = lb_cache st"
  by (simp_all add: release_used_def charge_used_def)

function retain :: "'w lobby_env \<Rightarrow> nat \<Rightarrow> 'w LobbyService \<Rightarrow> bool \<times> 'w LobbyService" where
  "retain env additional st =
    (if additional \<le> size_minus env kStorageBytes (lb_used st) then (True, st)
     else case oldest_unread (lb_cache st) of
       None \<Rightarrow> (False, st)
     | Some entry \<Rightarrow> retain env additional (evict env entry st))"
  by auto
termination
proof (relation "measure (\<lambda>(env, additional, st). length (lb_cache st))")
  fix env :: "'w lobby_env" and additional and st :: "'w LobbyService" and entry
  assume "oldest_unread (lb_cache st) = Some entry"
  then have "entry \<in> set (lb_cache st)" by (simp add: oldest_unread_in)
  then show "((env, additional, evict env entry st), env, additional, st) \<in> measure (\<lambda>(env, additional, st). length (lb_cache st))"
    by (auto simp: evict_def intro: length_filter_less)
qed simp

declare retain.simps [simp del]

definition cache_at :: "'w LobbyService \<Rightarrow> nat \<Rightarrow> Cache option" where
  "cache_at st address = List.find (\<lambda>e. ch_address e = address) (lb_cache st)"

definition set_cache :: "nat \<Rightarrow> (Cache \<Rightarrow> Cache) \<Rightarrow> 'w LobbyService \<Rightarrow> 'w LobbyService" where
  "set_cache address f st = st\<lparr>lb_cache := map (\<lambda>e. if ch_address e = address then f e else e) (lb_cache st)\<rparr>"

definition find_cache :: "u64 \<Rightarrow> string \<Rightarrow> 'w LobbyService \<Rightarrow> Cache option" where
  "find_cache lobby name st = List.find (\<lambda>e. ch_lobby e = lobby \<and> public_name (ch_key e) = name) (lb_cache st)"

definition observed_bytes :: "Cache \<Rightarrow> nat" where
  "observed_bytes entry = (case ch_observation entry of None \<Rightarrow> 0 | Some observation \<Rightarrow> ob_capacity observation)"

definition drop_reader :: "'w lobby_env \<Rightarrow> Cache \<Rightarrow> 'w LobbyService \<Rightarrow> 'w LobbyService" where
  "drop_reader env entry st =
    (if ch_readers entry - 1 = 0
     then release_used env (size_minus env (ch_payload_charge entry) (observed_bytes entry))
       (set_cache (ch_address entry) (\<lambda>e. e\<lparr>ch_readers := 0, ch_payload_charge := observed_bytes entry\<rparr>) st)
     else set_cache (ch_address entry) (\<lambda>e. e\<lparr>ch_readers := ch_readers entry - 1\<rparr>) st)"

definition release_selection :: "'w lobby_env \<Rightarrow> nat option \<Rightarrow> 'w LobbyService \<Rightarrow> 'w LobbyService" where
  "release_selection env selection st =
    (case selection of None \<Rightarrow> st
     | Some address \<Rightarrow> (case cache_at st address of None \<Rightarrow> st | Some entry \<Rightarrow> drop_reader env entry st))"

section \<open>Items\<close>

definition lobby_item :: "'w lobby_env \<Rightarrow> nat \<Rightarrow> string \<Rightarrow> u32 \<Rightarrow> 'w LobbyService \<Rightarrow> (Diagnostic + nat) \<times> 'w LobbyService" where
  "lobby_item env owner name version st =
    (if en_state env owner \<noteq> PPreparing then (Inl (diagnostic (en_name env owner) ''Register Lobby items during prepare()''), st)
     else if lb_key_limit st = 0
     then (Inl (diagnostic (en_name env owner) ''Lobby item registration is unavailable: the native key limit is unknown''), st)
     else case key_for name (lb_key_limit st) of
       None \<Rightarrow> (Inl (diagnostic (en_name env owner)
         ''Lobby item name is empty, contains NUL, or exceeds the native key limit including the FC. prefix''), st)
     | Some key \<Rightarrow>
         if list_ex (\<lambda>item. public_name (li_key item) = name) (lb_items st)
         then (Inl (diagnostic (en_name env owner) (''A patch already owns Lobby item '' @ quoted name)), st)
         else case retain env (item_size env key) st of
           (False, st) \<Rightarrow> (Inl (diagnostic (en_name env owner) ''Lobby item storage exceeds the shared 256 KiB budget''), st)
         | (True, st) \<Rightarrow>
             (Inr (lb_fresh st), charge_used env (item_size env key)
               (st\<lparr>lb_fresh := Suc (lb_fresh st), lb_items := lb_items st @
                 [\<lparr>li_address = lb_fresh st, li_owner = owner, li_key = key, li_version = version, li_desired = None,
                   li_written = None, li_written_charge = 0, li_written_lobby = 0, li_attempted = None, li_withdraw = False,
                   li_failure = None\<rparr>]\<rparr>)))"

definition item_at :: "'w LobbyService \<Rightarrow> nat \<Rightarrow> LobbyItem option" where
  "item_at st address = List.find (\<lambda>item. li_address item = address) (lb_items st)"

definition set_item :: "nat \<Rightarrow> (LobbyItem \<Rightarrow> LobbyItem) \<Rightarrow> 'w LobbyService \<Rightarrow> 'w LobbyService" where
  "set_item address f st = st\<lparr>lb_items := map (\<lambda>item. if li_address item = address then f item else item) (lb_items st)\<rparr>"

definition publication_fits :: "LobbyItem \<Rightarrow> byte list \<Rightarrow> 'w LobbyService \<Rightarrow> bool" where
  "publication_fits item bytes st \<longleftrightarrow> lb_value_limit st \<noteq> 0 \<and> length bytes \<le> lb_maximum_payload st \<and>
    length (''FC1:'' @ decimal (unat (li_version item)) @ '':'') + (length bytes + 2) div 3 * 4 \<le> lb_value_limit st"

definition publish_item :: "'w lobby_env \<Rightarrow> LobbyItem \<Rightarrow> byte list \<Rightarrow> 'w LobbyService \<Rightarrow> Diagnostic option \<times> 'w LobbyService" where
  "publish_item env item bytes st =
    (if \<not> publication_fits item bytes st
     then (Some (diagnostic (en_name env (li_owner item)) (''Cannot publish Lobby key '' @ quoted (li_key item) @
         '': the value does not fit the native text limit with FC1 encoding'')), st)
     else
       let text = encode (li_version item) bytes;
           previous = optional_size (li_desired item);
           written_charge = max (optional_size (li_written item)) (length text);
           previous_total = previous + li_written_charge item;
           next_total = length text + written_charge;
           (kept, st) = (if next_total > previous_total then retain env (next_total - previous_total) st else (True, st))
       in if \<not> kept then (Some (diagnostic (en_name env (li_owner item)) ''Lobby publication exceeds the shared 256 KiB budget''), st)
          else (None, set_item (li_address item)
            (\<lambda>item. item\<lparr>li_written_charge := written_charge, li_desired := Some text, li_withdraw := False\<rparr>)
            (st\<lparr>lb_used := size_plus env (size_minus env (lb_used st) previous_total) next_total\<rparr>)))"

definition lobby_publish :: "'w lobby_env \<Rightarrow> nat \<Rightarrow> byte list \<Rightarrow> 'w LobbyService \<Rightarrow> Diagnostic option \<times> 'w LobbyService" where
  "lobby_publish env address bytes st =
    (case item_at st address of None \<Rightarrow> (None, st) | Some item \<Rightarrow> publish_item env item bytes st)"

definition clear_item :: "'w lobby_env \<Rightarrow> LobbyItem \<Rightarrow> 'w LobbyService \<Rightarrow> 'w LobbyService" where
  "clear_item env item st =
    (let st = (if li_desired item \<noteq> None then release_used env (optional_size (li_desired item)) st else st);
         written_charge = optional_size (li_written item)
     in set_item (li_address item) (\<lambda>item. item\<lparr>li_desired := None, li_withdraw := True, li_written_charge := written_charge\<rparr>)
          (release_used env (size_minus env (li_written_charge item) written_charge) st))"

definition lobby_clear :: "'w lobby_env \<Rightarrow> nat \<Rightarrow> 'w LobbyService \<Rightarrow> 'w LobbyService" where
  "lobby_clear env address st = (case item_at st address of None \<Rightarrow> st | Some item \<Rightarrow> clear_item env item st)"

end
