(* ===== verification/Lobby_Reads.thy ===== *)
theory Lobby_Reads
  imports Lobby
begin

text \<open>
  Reads of the lobby service (\<open>runtime/src/lobby.cpp\<close>): requests and the cache entries they hold, the native requests
  they share, the pass that completes and writes, and the delivery of results to patches.
\<close>

section \<open>Requests\<close>

definition observation_record :: "u64 \<Rightarrow> Observation \<Rightarrow> u32 \<Rightarrow> LobbyRecord" where
  "observation_record lobby observation version =
    record_for lobby (ob_result observation) (ob_version observation) (ob_value observation) (ob_observed observation) version"

text \<open>The part of a cached read before its callback: the entry it holds meanwhile and the record.\<close>

definition cached_begin :: "u64 \<Rightarrow> string \<Rightarrow> u32 \<Rightarrow> 'w LobbyService \<Rightarrow> (nat \<times> LobbyRecord \<times> 'w LobbyService) option" where
  "cached_begin lobby name version st =
    (case find_cache lobby name st of
       None \<Rightarrow> None
     | Some entry \<Rightarrow>
         (case ch_observation entry of
            None \<Rightarrow> None
          | Some observation \<Rightarrow>
              Some (ch_address entry, observation_record lobby observation version,
                (set_cache (ch_address entry) (\<lambda>e. e\<lparr>ch_used := Suc (lb_cache_use st), ch_readers := Suc (ch_readers e)\<rparr>) st)
                  \<lparr>lb_cache_use := Suc (lb_cache_use st)\<rparr>)))"

definition reads_available :: "'w LobbyService \<Rightarrow> bool" where
  "reads_available st \<longleftrightarrow> ns_available (native_state st) \<and> bk_request (lb_backend st) \<noteq> None \<and> bk_read (lb_backend st) \<noteq> None \<and>
    lb_key_limit st \<noteq> 0 \<and> lb_value_limit st \<noteq> 0"

text \<open>Room for the request: the entry it will read, or the rest of the payload of an existing one.\<close>

definition refresh_charge :: "'w lobby_env \<Rightarrow> bool \<Rightarrow> Cache option \<Rightarrow> string \<Rightarrow> 'w LobbyService \<Rightarrow> nat" where
  "refresh_charge env available selection key st =
    (if available
     then (case selection of
         Some entry \<Rightarrow> size_minus env (lb_maximum_payload st) (ch_payload_charge entry)
       | None \<Rightarrow> cache_size env key (lb_maximum_payload st))
     else 0)"

definition add_cache :: "'w lobby_env \<Rightarrow> u64 \<Rightarrow> string \<Rightarrow> 'w LobbyService \<Rightarrow> nat \<times> 'w LobbyService" where
  "add_cache env lobby key st =
    (lb_fresh st, charge_used env (cache_size env key (lb_maximum_payload st))
      (st\<lparr>lb_fresh := Suc (lb_fresh st), lb_cache_use := Suc (lb_cache_use st), lb_cache := lb_cache st @
        [\<lparr>ch_address = lb_fresh st, ch_lobby = lobby, ch_key = key, ch_observation = None, ch_readers = 1,
          ch_payload_charge = lb_maximum_payload st, ch_used = Suc (lb_cache_use st)\<rparr>]\<rparr>))"

definition add_group :: "'w lobby_env \<Rightarrow> u64 \<Rightarrow> 'w LobbyService \<Rightarrow> 'w LobbyService" where
  "add_group env lobby st = charge_used env (group_size env)
    (st\<lparr>lb_groups := insort_key fst (lobby, new_group) (lb_groups st)\<rparr>)"

definition add_request :: "'w lobby_env \<Rightarrow> nat \<Rightarrow> nat option \<Rightarrow> u64 \<Rightarrow> u32 \<Rightarrow> (LobbyRecord \<Rightarrow> lobby_call) \<Rightarrow> bool \<Rightarrow>
    'w LobbyService \<Rightarrow> nat \<times> 'w LobbyService" where
  "add_request env owner selection lobby version callback available st =
    (lb_fresh st, charge_used env (request_size env)
      (st\<lparr>lb_fresh := Suc (lb_fresh st), lb_requests := lb_requests st @
        [\<lparr>rq_address = lb_fresh st, rq_owner = owner, rq_cache = selection, rq_lobby = lobby, rq_version = version,
          rq_callback = Some callback, rq_failure = LobbyUnavailable,
          rq_phase = (if available then RequestPending else RequestReady)\<rparr>]\<rparr>))"

text \<open>An accepted request: its entry, new or with room for a payload again, its group and the request itself.\<close>

definition accept_refresh :: "'w lobby_env \<Rightarrow> nat \<Rightarrow> u64 \<Rightarrow> string \<Rightarrow> u32 \<Rightarrow> (LobbyRecord \<Rightarrow> lobby_call) \<Rightarrow> bool \<Rightarrow>
    Cache option \<Rightarrow> 'w LobbyService \<Rightarrow> nat \<times> 'w LobbyService" where
  "accept_refresh env owner lobby key version callback available selection st =
    (let (address, st) = (case selection of
           Some entry \<Rightarrow> (Some (ch_address entry), charge_used env (size_minus env (lb_maximum_payload st) (ch_payload_charge entry))
             (set_cache (ch_address entry) (\<lambda>e. e\<lparr>ch_payload_charge := lb_maximum_payload st\<rparr>) st))
         | None \<Rightarrow> if available then (\<lambda>(a, st). (Some a, st)) (add_cache env lobby key st) else (None, st));
         st = (if available \<and> lobby \<notin> fst ` set (lb_groups st) then add_group env lobby st else st)
     in add_request env owner address lobby version callback available st)"

definition hold :: "Cache option \<Rightarrow> 'w LobbyService \<Rightarrow> 'w LobbyService" where
  "hold selection st = (case selection of None \<Rightarrow> st
    | Some entry \<Rightarrow> set_cache (ch_address entry) (\<lambda>e. e\<lparr>ch_readers := Suc (ch_readers e)\<rparr>) st)"

text \<open>The entry is held while older ones make room.\<close>

definition start_refresh :: "'w lobby_env \<Rightarrow> nat \<Rightarrow> u64 \<Rightarrow> string \<Rightarrow> u32 \<Rightarrow> (LobbyRecord \<Rightarrow> lobby_call) \<Rightarrow> bool \<Rightarrow>
    Cache option \<Rightarrow> 'w LobbyService \<Rightarrow> (Diagnostic + nat) \<times> 'w LobbyService" where
  "start_refresh env owner lobby key version callback available selection st =
    (let group_charge = (if available \<and> lobby \<notin> fst ` set (lb_groups st) then group_size env else 0)
     in case retain env (refresh_charge env available selection key st + group_charge + request_size env) (hold selection st) of
          (False, st) \<Rightarrow>
            (Inl (diagnostic (en_name env owner) ''Lobby refresh storage exceeds the shared 256 KiB budget''),
             case selection of None \<Rightarrow> st
             | Some entry \<Rightarrow> set_cache (ch_address entry) (\<lambda>e. e\<lparr>ch_readers := ch_readers entry\<rparr>) st)
        | (True, st) \<Rightarrow> map_prod Inr id (accept_refresh env owner lobby key version callback available selection st))"

definition lobby_refresh :: "'w lobby_env \<Rightarrow> nat \<Rightarrow> u64 \<Rightarrow> string \<Rightarrow> u32 \<Rightarrow> (LobbyRecord \<Rightarrow> lobby_call) option \<Rightarrow> 'w LobbyService \<Rightarrow>
    (Diagnostic + nat) \<times> 'w LobbyService" where
  "lobby_refresh env owner lobby name version callback st =
    (if lb_key_limit st = 0
     then (Inl (diagnostic (en_name env owner) ''Lobby refresh is unavailable: the native key limit is unknown''), st)
     else case (if lobby = 0 then None else key_for name (lb_key_limit st)) of
       None \<Rightarrow> (Inl (diagnostic (en_name env owner) ''Lobby refresh requires a lobby, valid item name and callback''), st)
     | Some key \<Rightarrow>
         (case callback of
            None \<Rightarrow> (Inl (diagnostic (en_name env owner) ''Lobby refresh requires a lobby, valid item name and callback''), st)
          | Some callback \<Rightarrow> start_refresh env owner lobby key version callback (reads_available st)
              (if reads_available st then find_cache lobby name st else None) st))"

definition request_at :: "'w LobbyService \<Rightarrow> nat \<Rightarrow> LobbyRequest option" where
  "request_at st address = List.find (\<lambda>r. rq_address r = address) (lb_requests st)"

definition set_request :: "nat \<Rightarrow> (LobbyRequest \<Rightarrow> LobbyRequest) \<Rightarrow> 'w LobbyService \<Rightarrow> 'w LobbyService" where
  "set_request address f st = st\<lparr>lb_requests := map (\<lambda>r. if rq_address r = address then f r else r) (lb_requests st)\<rparr>"

definition lobby_cancel :: "'w lobby_env \<Rightarrow> nat \<Rightarrow> 'w LobbyService \<Rightarrow> 'w LobbyService" where
  "lobby_cancel env address st =
    (case request_at st address of
       None \<Rightarrow> st
     | Some r \<Rightarrow>
         let st = release_selection env (rq_cache r) st
         in (release_used env (request_size env) st)\<lparr>lb_requests := filter (\<lambda>r. rq_address r \<noteq> address) (lb_requests st)\<rparr>)"

section \<open>Patch code\<close>

primrec run_calls :: "'w lobby_env \<Rightarrow> lobby_call \<Rightarrow> 'w LobbyService \<Rightarrow> 'w LobbyService" where
  "run_calls env Lobby_Return = (\<lambda>st. st)"
| "run_calls env (Lobby_Register owner name version next') =
    (\<lambda>st. case lobby_item env owner name version st of (result, st) \<Rightarrow> run_calls env (next' result) st)"
| "run_calls env (Lobby_Current next') = (\<lambda>st. run_calls env (next' (current st)) st)"
| "run_calls env (Lobby_Cached lobby name version callback next') =
    (\<lambda>st. case map_option ((\<circ>) (run_calls env)) callback of
       None \<Rightarrow> run_calls env (next' False) st
     | Some call \<Rightarrow>
         (case cached_begin lobby name version st of
            None \<Rightarrow> run_calls env (next' False) st
          | Some (address, record', st) \<Rightarrow> run_calls env (next' True) (release_selection env (Some address) (call record' st))))"
| "run_calls env (Lobby_Refresh owner lobby name version callback next') =
    (\<lambda>st. case lobby_refresh env owner lobby name version callback st of (result, st) \<Rightarrow> run_calls env (next' result) st)"
| "run_calls env (Lobby_Publish address bytes next') =
    (\<lambda>st. case lobby_publish env address bytes st of (problem, st) \<Rightarrow> run_calls env (next' problem) st)"
| "run_calls env (Lobby_Clear address next') = (\<lambda>st. run_calls env next' (lobby_clear env address st))"
| "run_calls env (Lobby_Cancel address next') = (\<lambda>st. run_calls env next' (lobby_cancel env address st))"

section \<open>Completion and loss\<close>

definition group_of :: "'w LobbyService \<Rightarrow> u64 \<Rightarrow> LobbyGroup option" where
  "group_of st lobby = map_of (lb_groups st) lobby"

definition set_group :: "u64 \<Rightarrow> (LobbyGroup \<Rightarrow> LobbyGroup) \<Rightarrow> 'w LobbyService \<Rightarrow> 'w LobbyService" where
  "set_group lobby f st = st\<lparr>lb_groups := map (\<lambda>(l, g). (l, if l = lobby then f g else g)) (lb_groups st)\<rparr>"

definition complete :: "u64 \<Rightarrow> bool \<Rightarrow> u32 option \<Rightarrow> 'w LobbyService \<Rightarrow> bool \<times> 'w LobbyService" where
  "complete lobby success native_reason st =
    (case group_of st lobby of
       None \<Rightarrow> (False, st)
     | Some g \<Rightarrow>
         if gr_submitted g \<and> gr_completion g = None
         then (True, set_group lobby (\<lambda>g. g\<lparr>gr_completion := Some success, gr_native_reason := native_reason\<rparr>) st)
         else (False, st))"

text \<open>The completions of other threads up to here.\<close>

definition arrive :: "'w lobby_env \<Rightarrow> 'w LobbyService \<Rightarrow> 'w LobbyService" where
  "arrive env st = (case en_arrivals env (lb_world st) of (completions, world) \<Rightarrow>
    foldl (\<lambda>st (lobby, success, reason). snd (complete lobby success reason st)) (st\<lparr>lb_world := world\<rparr>) completions)"

definition finish :: "'w lobby_env \<Rightarrow> LobbyResult \<Rightarrow> LobbyRequest \<Rightarrow> 'w LobbyService \<Rightarrow> 'w LobbyService" where
  "finish env failure r st = set_request (rq_address r)
    (\<lambda>r. r\<lparr>rq_cache := None, rq_failure := failure, rq_phase := RequestReady\<rparr>) (release_selection env (rq_cache r) st)"

text \<open>A loop over the requests that satisfy a condition when it reaches them.\<close>

definition each_request :: "(LobbyRequest \<Rightarrow> bool) \<Rightarrow> (LobbyRequest \<Rightarrow> 'w LobbyService \<Rightarrow> 'w LobbyService) \<Rightarrow>
    'w LobbyService \<Rightarrow> 'w LobbyService" where
  "each_request P step st =
    foldl (\<lambda>st address. case request_at st address of None \<Rightarrow> st | Some r \<Rightarrow> if P r then step r st else st)
      st (map rq_address (lb_requests st))"

definition invalidate :: "'w lobby_env \<Rightarrow> 'w LobbyService \<Rightarrow> 'w LobbyService" where
  "invalidate env st =
    (let st = each_request (\<lambda>r. rq_phase r = RequestPending) (finish env LobbyUnavailable) st
     in st\<lparr>lb_groups := map (\<lambda>(l, g). (l, if gr_submitted g then g\<lparr>gr_invalidated := True\<rparr> else g)) (lb_groups st)\<rparr>)"

definition write_log :: "'w lobby_env \<Rightarrow> nat \<Rightarrow> string \<Rightarrow> 'w LobbyService \<Rightarrow> 'w LobbyService" where
  "write_log env owner line st = (if en_runtime env owner then st\<lparr>lb_log := lb_log st @ [(owner, line)]\<rparr> else st)"

definition request_key :: "'w LobbyService \<Rightarrow> LobbyRequest \<Rightarrow> string" where
  "request_key st r = (case rq_cache r of None \<Rightarrow> [] | Some address \<Rightarrow> (case cache_at st address of None \<Rightarrow> [] | Some entry \<Rightarrow> ch_key entry))"

definition read_failed :: "'w lobby_env \<Rightarrow> LobbyRequest \<Rightarrow> string \<Rightarrow> Diagnostic \<Rightarrow> 'w LobbyService \<Rightarrow> 'w LobbyService" where
  "read_failed env r operation error st = write_log env (rq_owner r)
    (''Lobby '' @ decimal (unat (rq_lobby r)) @ '' key '' @ quoted (request_key st r) @ '': '' @ operation @ '' failed: '' @
     en_diagnostic_text env error) st"

section \<open>One pass\<close>

definition pending_in :: "u64 \<Rightarrow> LobbyRequest \<Rightarrow> bool" where
  "pending_in lobby r \<longleftrightarrow> rq_lobby r = lobby \<and> rq_phase r = RequestPending"

definition awaiting :: "u64 \<Rightarrow> 'w LobbyService \<Rightarrow> bool" where
  "awaiting lobby st \<longleftrightarrow> list_ex (pending_in lobby) (lb_requests st)"

text \<open>Callbacks that are due still refer to the bytes of the entry.\<close>

definition waiting_delivery :: "nat \<Rightarrow> 'w LobbyService \<Rightarrow> bool" where
  "waiting_delivery address st \<longleftrightarrow>
    list_ex (\<lambda>r. rq_cache r = Some address \<and> (rq_phase r = RequestReady \<or> rq_phase r = RequestDelivering)) (lb_requests st)"

definition pending_on :: "nat \<Rightarrow> LobbyRequest \<Rightarrow> bool" where
  "pending_on address r \<longleftrightarrow> rq_cache r = Some address \<and> rq_phase r = RequestPending"

definition refuse_entry :: "'w lobby_env \<Rightarrow> nat \<Rightarrow> Diagnostic \<Rightarrow> 'w LobbyService \<Rightarrow> 'w LobbyService" where
  "refuse_entry env address error st =
    (let st = (case List.find (pending_on address) (lb_requests st) of
         None \<Rightarrow> st | Some r \<Rightarrow> read_failed env r ''native read'' error st)
     in each_request (pending_on address) (finish env LobbyFailed) st)"

definition observe_entry :: "int \<Rightarrow> nat \<Rightarrow> string \<Rightarrow> 'w LobbyService \<Rightarrow> 'w LobbyService" where
  "observe_entry now address value' st =
    (let decoded = decode value' (lb_value_limit st);
         st = (set_cache address (\<lambda>e. e\<lparr>ch_observation := Some \<lparr>ob_result = de_result decoded, ob_version = de_version decoded,
             ob_value = de_value decoded, ob_capacity = de_capacity decoded, ob_observed = now\<rparr>,
           ch_used := Suc (lb_cache_use st)\<rparr>) st)\<lparr>lb_cache_use := Suc (lb_cache_use st)\<rparr>
     in each_request (pending_on address) (\<lambda>r. set_request (rq_address r) (\<lambda>r. r\<lparr>rq_phase := RequestReady\<rparr>)) st)"

definition read_entry :: "'w lobby_env \<Rightarrow> int \<Rightarrow> u64 \<Rightarrow> 'w LobbyService \<Rightarrow> nat \<Rightarrow> 'w LobbyService" where
  "read_entry env now lobby st address =
    (case (cache_at st address, bk_read (lb_backend st)) of
       (Some entry, Some read) \<Rightarrow>
         if ch_lobby entry \<noteq> lobby \<or> ch_readers entry = 0 \<or> waiting_delivery address st then st
         else (case read (lb_world st) lobby (ch_key entry) of
             (Inl error, world) \<Rightarrow> refuse_entry env address error (st\<lparr>lb_world := world\<rparr>)
           | (Inr value', world) \<Rightarrow> observe_entry now address value' (st\<lparr>lb_world := world\<rparr>))
     | _ \<Rightarrow> st)"

definition submit_group :: "'w lobby_env \<Rightarrow> u64 \<Rightarrow> 'w LobbyService \<Rightarrow> 'w LobbyService" where
  "submit_group env lobby st =
    (let st = set_group lobby (\<lambda>g. g\<lparr>gr_submitted := True\<rparr>) st
     in case bk_request (lb_backend st) of
          None \<Rightarrow> st
        | Some request \<Rightarrow>
            (case request (lb_world st) lobby of (problem, world) \<Rightarrow>
               let st = arrive env (st\<lparr>lb_world := world\<rparr>)
               in case problem of
                    None \<Rightarrow> st
                  | Some error \<Rightarrow>
                      let st = (case List.find (pending_in lobby) (lb_requests st) of
                          None \<Rightarrow> st | Some r \<Rightarrow> read_failed env r ''native request'' error st)
                      in snd (complete lobby False None st)))"

definition fail_group :: "'w lobby_env \<Rightarrow> u64 \<Rightarrow> u32 option \<Rightarrow> 'w LobbyService \<Rightarrow> 'w LobbyService" where
  "fail_group env lobby native_reason st =
    (let st = (case (native_reason, List.find (pending_in lobby) (lb_requests st)) of
         (Some reason, Some r) \<Rightarrow> write_log env (rq_owner r)
           (''Lobby '' @ decimal (unat (rq_lobby r)) @ '' key '' @ quoted (request_key st r) @
            '': Galaxy could not complete the native read request (reason code '' @ decimal (unat reason) @
            ''); pending reads receive Failed'') st
       | _ \<Rightarrow> st)
     in each_request (pending_in lobby) (finish env LobbyFailed) st)"

text \<open>The state of a group is copied under the lock; a completion that was invalidated is consumed first.\<close>

definition pump_group :: "'w lobby_env \<Rightarrow> int \<Rightarrow> bool \<Rightarrow> 'w LobbyService \<Rightarrow> u64 \<Rightarrow> 'w LobbyService" where
  "pump_group env now available st lobby =
    (let st = arrive env st
     in case group_of st lobby of
       None \<Rightarrow> st
     | Some g \<Rightarrow>
         let consumed = (gr_completion g \<noteq> None \<and> gr_invalidated g);
             st = (if consumed then set_group lobby (\<lambda>_. new_group) st else st);
             submitted = (gr_submitted g \<and> \<not> consumed);
             completion = (if consumed then None else gr_completion g);
             submitting = (available \<and> \<not> submitted \<and> awaiting lobby st);
             st = (if submitting then submit_group env lobby st
               else case completion of
                 None \<Rightarrow> st
               | Some False \<Rightarrow> fail_group env lobby (gr_native_reason g) st
               | Some True \<Rightarrow> foldl (read_entry env now lobby) st (map ch_address (lb_cache st)))
         in if \<not> awaiting lobby st \<and> (\<not> (submitted \<or> submitting) \<or> completion \<noteq> None)
            then (release_used env (group_size env) st)\<lparr>lb_groups := filter (\<lambda>(l, _). l \<noteq> lobby) (lb_groups st)\<rparr>
            else st)"

definition forget_written :: "'w lobby_env \<Rightarrow> LobbyItem \<Rightarrow> 'w LobbyService \<Rightarrow> 'w LobbyService" where
  "forget_written env item st =
    (let written_charge = optional_size (li_desired item)
     in set_item (li_address item) (\<lambda>item. item\<lparr>li_written := None, li_written_charge := written_charge, li_written_lobby := 0\<rparr>)
          (release_used env (size_minus env (li_written_charge item) written_charge) st))"

definition each_item :: "(LobbyItem \<Rightarrow> 'w LobbyService \<Rightarrow> 'w LobbyService) \<Rightarrow> 'w LobbyService \<Rightarrow> 'w LobbyService" where
  "each_item step st = foldl (\<lambda>st address. case item_at st address of None \<Rightarrow> st | Some item \<Rightarrow> step item st)
    st (map li_address (lb_items st))"

definition publication_failed :: "'w lobby_env \<Rightarrow> LobbyItem \<Rightarrow> Diagnostic \<Rightarrow> 'w LobbyService \<Rightarrow> 'w LobbyService" where
  "publication_failed env item error st =
    (let failure = en_diagnostic_text env error;
         st' = set_item (li_address item) (\<lambda>item. item\<lparr>li_failure := Some failure\<rparr>) st
     in if li_failure item \<noteq> Some failure
        then write_log env (li_owner item) (''Lobby key '' @ quoted (li_key item) @ '': '' @ failure) st' else st')"

definition second :: int where "second = 1000000000"

definition nothing_to_write :: "int \<Rightarrow> u64 \<Rightarrow> LobbyItem \<Rightarrow> bool" where
  "nothing_to_write now owned item \<longleftrightarrow> li_desired item = None \<and> \<not> li_withdraw item \<or>
    li_desired item \<noteq> None \<and> li_failure item = None \<and> li_written_lobby item = owned \<and> li_written item = li_desired item \<or>
    (case li_attempted item of None \<Rightarrow> False | Some attempted \<Rightarrow> now - attempted < second)"

definition write_item :: "int \<Rightarrow> 'w lobby_env \<Rightarrow> u64 \<Rightarrow> LobbyItem \<Rightarrow> 'w LobbyService \<Rightarrow> 'w LobbyService" where
  "write_item now env owned item st =
    (case bk_write (lb_backend st) of
       None \<Rightarrow> st
     | Some write' \<Rightarrow>
         let st = set_item (li_address item) (\<lambda>item. item\<lparr>li_attempted := Some now\<rparr>) st
         in case write' (lb_world st) owned (li_key item) (li_desired item) of
              (Some error, world) \<Rightarrow> publication_failed env item error (st\<lparr>lb_world := world\<rparr>)
            | (None, world) \<Rightarrow>
                let new_size = optional_size (li_desired item)
                in set_item (li_address item)
                     (\<lambda>item. item\<lparr>li_written_charge := new_size, li_written := li_desired item, li_written_lobby := owned,
                        li_withdraw := False, li_failure := None\<rparr>)
                     (release_used env (size_minus env (li_written_charge item) new_size) (st\<lparr>lb_world := world\<rparr>)))"

definition pump_item :: "int \<Rightarrow> 'w lobby_env \<Rightarrow> u64 \<Rightarrow> LobbyItem \<Rightarrow> 'w LobbyService \<Rightarrow> 'w LobbyService" where
  "pump_item now env owned item st =
    (if en_state env (li_owner item) \<noteq> PInstalled then st
     else
       let st = (if li_written_lobby item \<noteq> owned then forget_written env item st else st)
       in case item_at st (li_address item) of
            None \<Rightarrow> st
          | Some item \<Rightarrow>
              if nothing_to_write now owned item then st
              else if li_desired item = None \<and> li_failure item = None \<and> li_written_lobby item = owned \<and> li_written item = None
              then set_item (li_address item) (\<lambda>item. item\<lparr>li_withdraw := False\<rparr>) st
              else write_item now env owned item st)"

definition pump :: "'w lobby_env \<Rightarrow> int \<Rightarrow> 'w LobbyService \<Rightarrow> 'w LobbyService" where
  "pump env now st =
    (let native = native_state st;
         available = (ns_available native \<and> bk_request (lb_backend st) \<noteq> None \<and> bk_read (lb_backend st) \<noteq> None \<and>
           bk_write (lb_backend st) \<noteq> None);
         st = (if available then st else invalidate env st);
         st = foldl (pump_group env now available) st (map fst (lb_groups st))
     in if \<not> available \<or> ns_owned native = 0 then each_item (forget_written env) st
        else each_item (pump_item now env (ns_owned native)) st)"

section \<open>Delivery\<close>

definition mark_ready :: "'w lobby_env \<Rightarrow> 'w LobbyService \<Rightarrow> 'w LobbyService" where
  "mark_ready env st = st\<lparr>lb_requests := map (\<lambda>r. if rq_phase r = RequestReady \<and> en_state env (rq_owner r) = PInstalled
     then r\<lparr>rq_phase := RequestDelivering\<rparr> else r) (lb_requests st)\<rparr>"

definition delivering :: "'w LobbyService \<Rightarrow> LobbyRequest option" where
  "delivering st = List.find (\<lambda>r. rq_phase r = RequestDelivering) (lb_requests st)"

definition failure_record :: "LobbyRequest \<Rightarrow> LobbyRecord" where
  "failure_record r = \<lparr>lr_lobby = rq_lobby r, lr_result = rq_failure r, lr_version = 0, lr_value = [], lr_observed = 0\<rparr>"

definition delivered_record :: "LobbyRequest \<Rightarrow> 'w LobbyService \<Rightarrow> LobbyRecord" where
  "delivered_record r st =
    (case rq_cache r of
       None \<Rightarrow> failure_record r
     | Some address \<Rightarrow>
         (case cache_at st address of
            Some entry \<Rightarrow> (case ch_observation entry of Some observation \<Rightarrow> observation_record (rq_lobby r) observation (rq_version r)
              | None \<Rightarrow> failure_record r)
          | None \<Rightarrow> failure_record r))"

text \<open>The entry gets a reader for the callback before the request lets go of it.\<close>

definition begin_delivery :: "'w lobby_env \<Rightarrow> LobbyRequest \<Rightarrow> 'w LobbyService \<Rightarrow> 'w LobbyService" where
  "begin_delivery env r st =
    (let st = (case rq_cache r of None \<Rightarrow> st | Some address \<Rightarrow> set_cache address (\<lambda>e. e\<lparr>ch_readers := Suc (ch_readers e)\<rparr>) st);
         st = set_request (rq_address r) (\<lambda>r. r\<lparr>rq_phase := RequestDelivered, rq_callback := None, rq_cache := None\<rparr>) st
     in release_selection env (rq_cache r) st)"

definition deliver_request :: "'w lobby_env \<Rightarrow> LobbyRequest \<Rightarrow> 'w LobbyService \<Rightarrow> 'w LobbyService" where
  "deliver_request env r st =
    (let record' = delivered_record r st; st = begin_delivery env r st;
         st = (case rq_callback r of None \<Rightarrow> st | Some callback \<Rightarrow> run_calls env (callback record') st)
     in release_selection env (rq_cache r) st)"

text \<open>What patch code leaves of the requests: it never makes one due.\<close>

lemma requests_frame [simp]:
  "lb_requests (release_used env n st) = lb_requests st" "lb_requests (charge_used env n st) = lb_requests st"
  "lb_requests (set_cache a f st) = lb_requests st" "lb_requests (set_item a g st) = lb_requests st"
  "lb_requests (set_group l h st) = lb_requests st"
  by (simp_all add: release_used_def charge_used_def set_cache_def set_item_def set_group_def)

lemma drop_reader_requests [simp]: "lb_requests (drop_reader env entry st) = lb_requests st"
  by (simp add: drop_reader_def)

lemma release_selection_requests [simp]: "lb_requests (release_selection env selection st) = lb_requests st"
  by (simp add: release_selection_def split: option.split)

lemma evict_requests [simp]: "lb_requests (evict env entry st) = lb_requests st"
  by (simp add: evict_def)

lemma retain_requests [simp]: "lb_requests (snd (retain env additional st)) = lb_requests st"
proof (induction env additional st rule: retain.induct)
  case (1 env additional st)
  then show ?case by (subst retain.simps) (simp split: option.split)
qed

lemma retain_requestsD: "retain env additional st = (kept, st') \<Longrightarrow> lb_requests st' = lb_requests st"
  using retain_requests [of env additional st] by simp

definition due :: "'w LobbyService \<Rightarrow> nat" where
  "due st = length (filter (\<lambda>r. rq_phase r = RequestDelivering) (lb_requests st))"

lemma due_item: "lobby_item env owner name version st = (result, st') \<Longrightarrow> due st' = due st"
  by (auto simp: lobby_item_def due_def dest: retain_requestsD split: if_splits option.splits prod.splits bool.splits)

lemma due_publish: "lobby_publish env address bytes st = (result, st') \<Longrightarrow> due st' = due st"
  by (auto simp: lobby_publish_def publish_item_def due_def Let_def dest: retain_requestsD split: if_splits option.splits prod.splits)

lemma due_clear [simp]: "due (lobby_clear env address st) = due st"
  by (simp add: lobby_clear_def clear_item_def due_def Let_def split: option.splits)

lemma length_filter_conj: "length (filter (\<lambda>x. P x \<and> Q x) xs) \<le> length (filter Q xs)"
  by (induction xs) auto

lemma due_cancel: "due (lobby_cancel env address st) \<le> due st"
  by (auto simp: lobby_cancel_def due_def Let_def length_filter_conj split: option.split)

lemma due_cached: "cached_begin lobby name version st = Some (address, record', st') \<Longrightarrow> due st' = due st"
  by (auto simp: cached_begin_def due_def split: option.splits)

lemma due_release [simp]: "due (release_selection env selection st) = due st"
  by (simp add: due_def)

lemma due_accept: "due (snd (accept_refresh env owner lobby key version callback available selection st)) = due st"
  by (auto simp: accept_refresh_def add_request_def add_group_def add_cache_def due_def Let_def split: option.splits)

lemma due_start: "due (snd (start_refresh env owner lobby key version callback available selection st)) = due st"
proof -
  define amount where "amount = refresh_charge env available selection key st +
    (if available \<and> lobby \<notin> fst ` set (lb_groups st) then group_size env else 0) + request_size env"
  obtain kept st' where kept: "retain env amount (hold selection st) = (kept, st')" by (cases "retain env amount (hold selection st)")
  have "due st' = due st" using retain_requestsD [OF kept] by (simp add: due_def hold_def split: option.splits)
  moreover have "due (set_cache a f st') = due st'" for a f by (simp add: due_def)
  ultimately show ?thesis using kept due_accept [of env owner lobby key version callback available selection st']
    by (cases kept) (auto simp: start_refresh_def amount_def Let_def split: option.split)
qed

lemma due_refresh: "due (snd (lobby_refresh env owner lobby name version callback st)) = due st"
  by (simp add: lobby_refresh_def due_start split: option.split)

lemma due_run_calls: "due (run_calls env call st) \<le> due st"
proof (induction call arbitrary: st)
  case (Lobby_Register owner name version next')
  obtain result st' where item: "lobby_item env owner name version st = (result, st')" by (cases "lobby_item env owner name version st")
  have "due (run_calls env (next' result) st') \<le> due st'" by (rule Lobby_Register) simp
  then show ?case using item due_item [OF item] by simp
next
  case (Lobby_Cached lobby name version callback next')
  show ?case
  proof (cases callback)
    case None
    then show ?thesis using Lobby_Cached(2) by simp
  next
    case (Some f)
    show ?thesis
    proof (cases "cached_begin lobby name version st")
      case None
      then show ?thesis using Lobby_Cached(2) Some by simp
    next
      case found: (Some result)
      obtain address record' st' where result: "result = (address, record', st')" by (cases result)
      have "due st' = due st" using due_cached found result by blast
      moreover have "due (run_calls env (f record') st') \<le> due st'" using Lobby_Cached(1) Some by auto
      moreover have "due (run_calls env (next' True) (release_selection env (Some address) (run_calls env (f record') st'))) \<le>
        due (release_selection env (Some address) (run_calls env (f record') st'))" by (rule Lobby_Cached(2)) simp
      ultimately show ?thesis using Some found result by simp
    qed
  qed
next
  case (Lobby_Refresh owner lobby name version callback next')
  obtain result st' where refreshed: "lobby_refresh env owner lobby name version callback st = (result, st')"
    by (cases "lobby_refresh env owner lobby name version callback st")
  have "due (run_calls env (next' result) st') \<le> due st'" by (rule Lobby_Refresh(2)) simp
  then show ?case using refreshed due_refresh [of env owner lobby name version callback st] by simp
next
  case (Lobby_Publish address bytes next')
  obtain problem st' where published: "lobby_publish env address bytes st = (problem, st')" by (cases "lobby_publish env address bytes st")
  have "due (run_calls env (next' problem) st') \<le> due st'" by (rule Lobby_Publish) simp
  then show ?case using published due_publish [OF published] by simp
next
  case (Lobby_Cancel address next')
  show ?case using Lobby_Cancel [of "lobby_cancel env address st"] due_cancel [of env address st] by simp
next
  case (Lobby_Clear address next')
  show ?case using Lobby_Clear [of "lobby_clear env address st"] by simp
qed auto

lemma due_begin:
  assumes "r \<in> set (lb_requests st)" and "rq_phase r = RequestDelivering"
  shows "due (begin_delivery env r st) < due st"
proof -
  have "length (filter (\<lambda>r. rq_phase r = RequestDelivering)
      (map (\<lambda>q. if rq_address q = rq_address r then q\<lparr>rq_phase := RequestDelivered, rq_callback := None, rq_cache := None\<rparr> else q) rs)) <
    length (filter (\<lambda>r. rq_phase r = RequestDelivering) rs)" if "r \<in> set rs" for rs
    using that
  proof (induction rs)
    case (Cons q rs)
    have le: "length (filter (\<lambda>r. rq_phase r = RequestDelivering)
      (map (\<lambda>q. if rq_address q = rq_address r then q\<lparr>rq_phase := RequestDelivered, rq_callback := None, rq_cache := None\<rparr> else q) rs)) \<le>
      length (filter (\<lambda>r. rq_phase r = RequestDelivering) rs)" for rs
      by (induction rs) auto
    show ?case
    proof (cases "r = q")
      case True
      then show ?thesis using assms(2) le [of rs] by simp
    next
      case False
      then show ?thesis using Cons by auto
    qed
  qed simp
  then show ?thesis using assms(1)
    by (auto simp: begin_delivery_def due_def set_request_def Let_def set_cache_def release_selection_def split: option.splits)
qed

lemma due_deliver:
  assumes "delivering st = Some r"
  shows "due (deliver_request env r st) < due st"
proof -
  have "due (begin_delivery env r st) < due st" using assms due_begin by (auto simp: delivering_def dest: find_SomeD)
  moreover have "due (run_calls env call (begin_delivery env r st)) \<le> due (begin_delivery env r st)" for call by (rule due_run_calls)
  ultimately show ?thesis by (auto simp: deliver_request_def Let_def split: option.split intro: order.strict_trans1)
qed

text \<open>The loop looks for the next due request after each callback, which may cancel requests or add some.\<close>

function deliver_due :: "'w lobby_env \<Rightarrow> 'w LobbyService \<Rightarrow> 'w LobbyService" where
  "deliver_due env st = (case delivering st of None \<Rightarrow> st | Some r \<Rightarrow> deliver_due env (deliver_request env r st))"
  by auto
termination by (relation "measure (\<lambda>(env, st). due st)") (auto dest: due_deliver)

declare deliver_due.simps [simp del]

definition deliver :: "'w lobby_env \<Rightarrow> 'w LobbyService \<Rightarrow> 'w LobbyService" where
  "deliver env st = deliver_due env (mark_ready env st)"

section \<open>A failed patch\<close>

definition discard_request :: "'w lobby_env \<Rightarrow> LobbyRequest \<Rightarrow> 'w LobbyService \<Rightarrow> 'w LobbyService" where
  "discard_request env r st = set_request (rq_address r)
    (\<lambda>r. r\<lparr>rq_cache := None, rq_callback := None, rq_phase := RequestDelivered\<rparr>) (release_selection env (rq_cache r) st)"

definition item_total :: "'w lobby_env \<Rightarrow> LobbyItem \<Rightarrow> nat" where
  "item_total env item = item_size env (li_key item) + optional_size (li_desired item) + li_written_charge item"

definition discard_item :: "'w lobby_env \<Rightarrow> nat \<Rightarrow> LobbyItem \<Rightarrow> 'w LobbyService \<Rightarrow> 'w LobbyService" where
  "discard_item env owner item st =
    (if li_owner item \<noteq> owner then st
     else (release_used env (item_total env item) st)\<lparr>lb_items := filter (\<lambda>i. li_address i \<noteq> li_address item) (lb_items st)\<rparr>)"

definition discard :: "'w lobby_env \<Rightarrow> nat \<Rightarrow> 'w LobbyService \<Rightarrow> 'w LobbyService" where
  "discard env owner st = each_item (discard_item env owner)
    (each_request (\<lambda>r. rq_owner r = owner \<and> rq_phase r \<noteq> RequestDelivered) (discard_request env) st)"

section \<open>Status\<close>

text \<open>A blank line between reports; the first refused line ends them.\<close>

definition report_lines :: "string \<Rightarrow> string \<Rightarrow> bool \<times> StatusText \<Rightarrow> bool \<times> StatusText" where
  "report_lines head detail so_far = (case so_far of (going, status) \<Rightarrow>
    if \<not> going then (False, status)
    else
      let status = (if st_text status \<noteq> [] then snd (status_line status []) else status)
      in case status_line status head of
           (False, status) \<Rightarrow> (False, status)
         | (True, status) \<Rightarrow> status_line status detail)"

definition issues :: "'w lobby_env \<Rightarrow> 'w LobbyService \<Rightarrow> StatusText \<Rightarrow> StatusText" where
  "issues env st status =
    (let failed = filter (\<lambda>item. li_failure item \<noteq> None) (lb_items st);
         waiting = filter (\<lambda>(lobby, g). gr_submitted g \<and> gr_invalidated g \<and> gr_completion g = None) (lb_groups st);
         so_far = fold (\<lambda>item. report_lines (''Lobby item '' @ en_name env (li_owner item) @ '' '' @ quoted (public_name (li_key item)) @ '': Failed'')
             (''  Native write failed: '' @ the (li_failure item))) failed (True, status)
     in snd (fold (\<lambda>(lobby, g). report_lines (''Lobby request for '' @ decimal (unat lobby) @ '': Waiting'')
          ''  Waiting for the previous native request to finish before starting new reads'') waiting so_far))"

end
