(* ===== verification/Lobby_Laws.thy ===== *)
theory Lobby_Laws
  imports Lobby_Reads
begin

text \<open>
  What the lobby service keeps through every operation: what it stores is what it charges for and never exceeds its
  budget, each cache entry counts exactly the requests and callbacks that read it, and requests refer to entries that exist.
\<close>

section \<open>Records at addresses\<close>

lemma find_address:
  "distinct (map addr xs) \<Longrightarrow> List.find (\<lambda>x. addr x = a) xs = Some x \<longleftrightarrow> x \<in> set xs \<and> addr x = a"
  by (induction xs) (auto simp: image_iff split: if_splits)

lemma find_address_None: "List.find (\<lambda>x. addr x = a) xs = None \<longleftrightarrow> a \<notin> addr ` set xs"
  by (auto simp: find_None_iff_all)

abbreviation at_address :: "('a \<Rightarrow> nat) \<Rightarrow> nat \<Rightarrow> ('a \<Rightarrow> 'a) \<Rightarrow> 'a list \<Rightarrow> 'a list" where
  "at_address addr a f xs \<equiv> map (\<lambda>x. if addr x = a then f x else x) xs"

lemma at_address_absent: "a \<notin> addr ` set xs \<Longrightarrow> at_address addr a f xs = xs"
  by (induction xs) auto

lemma sum_at_address:
  fixes w :: "'a \<Rightarrow> nat"
  assumes "distinct (map addr xs)" and "x \<in> set xs"
  shows "sum_list (map w (at_address addr (addr x) f xs)) + w x = sum_list (map w xs) + w (f x)"
  using assms
proof (induction xs)
  case (Cons y xs)
  show ?case
  proof (cases "addr y = addr x")
    case True
    then have "x = y" using Cons.prems by auto
    moreover have "at_address addr (addr x) f xs = xs" using Cons.prems True by (intro at_address_absent) auto
    ultimately show ?thesis by simp
  next
    case False
    then show ?thesis using Cons by auto
  qed
qed simp

lemma sum_without_address:
  fixes w :: "'a \<Rightarrow> nat"
  assumes "distinct (map addr xs)" and "x \<in> set xs"
  shows "sum_list (map w (filter (\<lambda>y. addr y \<noteq> addr x) xs)) + w x = sum_list (map w xs)"
  using assms
proof (induction xs)
  case (Cons y xs)
  show ?case
  proof (cases "addr y = addr x")
    case True
    then have "x = y" using Cons.prems by auto
    moreover have "filter (\<lambda>y. addr y \<noteq> addr x) xs = xs" using Cons.prems True by (intro filter_True) (auto simp: image_iff)
    ultimately show ?thesis by simp
  next
    case False
    then show ?thesis using Cons by auto
  qed
qed simp

lemma length_filter_sum: "length (filter P xs) = sum_list (map (\<lambda>x. if P x then 1 else (0 :: nat)) xs)"
  by (induction xs) auto

lemma length_sum: "length xs = sum_list (map (\<lambda>x. 1 :: nat) xs)"
  by (induction xs) auto

lemma map_at_address: "(\<And>x. g (f x) = g x) \<Longrightarrow> map g (at_address addr a f xs) = map g xs"
  by simp

lemma distinct_at_address: "distinct (map g xs) \<Longrightarrow> (\<And>x. g (f x) = g x) \<Longrightarrow> distinct (map g (at_address addr a f xs))"
  by (simp only: map_at_address)

lemma distinct_filter_map: "distinct (map g xs) \<Longrightarrow> distinct (map g (filter P xs))"
  by (induction xs) auto

section \<open>Sizes without wrap-around\<close>

lemma size_limit_large: "2 ^ 32 \<le> size_limit arch"
  by (cases arch) auto

lemma size_minus_exact: "b \<le> a \<Longrightarrow> a < 2 ^ 32 \<Longrightarrow> size_minus env a b = a - b"
proof -
  assume "b \<le> a" "a < 2 ^ 32"
  let ?n = "size_limit (en_arch env)"
  have "a < ?n" using \<open>a < 2 ^ 32\<close> size_limit_large [of "en_arch env"] by linarith
  then have "a + (?n - b mod ?n) = (a - b) + ?n" using \<open>b \<le> a\<close> by simp
  then show ?thesis using \<open>a < ?n\<close> by (simp add: size_minus_def)
qed

lemma size_plus_exact: "a + b < 2 ^ 32 \<Longrightarrow> size_plus env a b = a + b"
  using size_limit_large [of "en_arch env"] by (simp add: size_plus_def)

lemma budget_small: "kStorageBytes < 2 ^ 32" and kStorageBytes_value: "kStorageBytes = 262144"
  by (simp_all add: kStorageBytes_def)

section \<open>The invariant\<close>

definition cache_total :: "'w lobby_env \<Rightarrow> Cache \<Rightarrow> nat" where
  "cache_total env entry = cache_size env (ch_key entry) (ch_payload_charge entry)"

text \<open>What is stored, each part with the charge of its record.\<close>

definition stored :: "'w lobby_env \<Rightarrow> 'w LobbyService \<Rightarrow> nat" where
  "stored env st = lb_value_limit st + sum_list (map (item_total env) (lb_items st)) + sum_list (map (cache_total env) (lb_cache st)) +
    length (lb_requests st) * request_size env + length (lb_groups st) * group_size env"

definition accounted :: "'w lobby_env \<Rightarrow> 'w LobbyService \<Rightarrow> bool" where
  "accounted env st \<longleftrightarrow> lb_used st = stored env st \<and> lb_used st \<le> kStorageBytes"

definition item_ok :: "'w LobbyService \<Rightarrow> LobbyItem \<Rightarrow> bool" where
  "item_ok st item \<longleftrightarrow> optional_size (li_desired item) \<le> li_written_charge item \<and> optional_size (li_written item) \<le> li_written_charge item \<and>
    li_address item < lb_fresh st \<and> (\<exists>name. li_key item = kKeyPrefix @ name)"

definition items_ok :: "'w LobbyService \<Rightarrow> bool" where
  "items_ok st \<longleftrightarrow> distinct (map li_address (lb_items st)) \<and> distinct (map li_key (lb_items st)) \<and> (\<forall>item \<in> set (lb_items st). item_ok st item)"

text \<open>The readers of an entry: the callbacks that hold it and the requests on it.\<close>

definition refs :: "nat list \<Rightarrow> 'w LobbyService \<Rightarrow> nat \<Rightarrow> nat" where
  "refs held st address = count_list held address + length (filter (\<lambda>r. rq_cache r = Some address) (lb_requests st))"

definition entry_ok :: "nat list \<Rightarrow> 'w LobbyService \<Rightarrow> Cache \<Rightarrow> bool" where
  "entry_ok held st entry \<longleftrightarrow> ch_readers entry = refs held st (ch_address entry) \<and> observed_bytes entry \<le> ch_payload_charge entry \<and>
    ch_payload_charge entry \<le> lb_maximum_payload st \<and>
    ((\<exists>r \<in> set (lb_requests st). rq_cache r = Some (ch_address entry)) \<longrightarrow> ch_payload_charge entry = lb_maximum_payload st) \<and>
    ch_address entry < lb_fresh st \<and> (\<exists>name. ch_key entry = kKeyPrefix @ name)"

definition request_ok :: "'w LobbyService \<Rightarrow> LobbyRequest \<Rightarrow> bool" where
  "request_ok st r \<longleftrightarrow> rq_address r < lb_fresh st \<and>
    (\<forall>a. rq_cache r = Some a \<longrightarrow> (\<exists>entry \<in> set (lb_cache st). ch_address entry = a \<and> ch_lobby entry = rq_lobby r \<and>
      (rq_phase r = RequestReady \<or> rq_phase r = RequestDelivering \<longrightarrow> ch_observation entry \<noteq> None))) \<and>
    (rq_phase r = RequestPending \<longrightarrow> rq_cache r \<noteq> None \<and> rq_lobby r \<in> fst ` set (lb_groups st)) \<and>
    (rq_phase r = RequestDelivered \<longleftrightarrow> rq_callback r = None) \<and> (rq_phase r = RequestDelivered \<longrightarrow> rq_cache r = None)"

definition groups_ok :: "'w LobbyService \<Rightarrow> bool" where
  "groups_ok st \<longleftrightarrow> distinct (map fst (lb_groups st)) \<and>
    (\<forall>(l, g) \<in> set (lb_groups st). (gr_completion g \<noteq> None \<longrightarrow> gr_submitted g) \<and> (gr_invalidated g \<longrightarrow> gr_submitted g))"

definition reads_ok :: "nat list \<Rightarrow> 'w LobbyService \<Rightarrow> bool" where
  "reads_ok held st \<longleftrightarrow> distinct (map ch_address (lb_cache st)) \<and> distinct (map (\<lambda>e. (ch_lobby e, ch_key e)) (lb_cache st)) \<and>
    (\<forall>entry \<in> set (lb_cache st). entry_ok held st entry) \<and> distinct (map rq_address (lb_requests st)) \<and>
    (\<forall>r \<in> set (lb_requests st). request_ok st r) \<and> set held \<subseteq> ch_address ` set (lb_cache st)"

definition limits_ok :: "'w LobbyService \<Rightarrow> bool" where
  "limits_ok st \<longleftrightarrow> lb_maximum_payload st = (if lb_value_limit st \<ge> 6 then (lb_value_limit st - 6) div 4 * 3 else 0)"

definition lobby_ok :: "'w lobby_env \<Rightarrow> nat list \<Rightarrow> 'w LobbyService \<Rightarrow> bool" where
  "lobby_ok env held st \<longleftrightarrow> accounted env st \<and> limits_ok st \<and> items_ok st \<and> reads_ok held st \<and> groups_ok st"

text \<open>A request stays in order when groups and addresses stay and its entry is still there with what was read.\<close>

definition entry_kept :: "'w LobbyService \<Rightarrow> 'w LobbyService \<Rightarrow> nat \<Rightarrow> bool" where
  "entry_kept st st' a \<longleftrightarrow> (\<forall>e \<in> set (lb_cache st). ch_address e = a \<longrightarrow>
    (\<exists>e' \<in> set (lb_cache st'). ch_address e' = a \<and> ch_lobby e' = ch_lobby e \<and> (ch_observation e \<noteq> None \<longrightarrow> ch_observation e' \<noteq> None)))"

lemma entry_kept_same [simp]: "lb_cache st' = lb_cache st \<Longrightarrow> entry_kept st st' a"
  unfolding entry_kept_def by metis

lemma request_ok_mono:
  assumes ok: "request_ok st r" and "lb_fresh st \<le> lb_fresh st'" and "fst ` set (lb_groups st) \<subseteq> fst ` set (lb_groups st')"
    and kept: "\<And>a. rq_cache r = Some a \<Longrightarrow> entry_kept st st' a"
  shows "request_ok st' r"
proof -
  have "\<exists>e' \<in> set (lb_cache st'). ch_address e' = a \<and> ch_lobby e' = rq_lobby r \<and>
    (rq_phase r = RequestReady \<or> rq_phase r = RequestDelivering \<longrightarrow> ch_observation e' \<noteq> None)" if a: "rq_cache r = Some a" for a
  proof -
    from ok a obtain e where e: "e \<in> set (lb_cache st)" "ch_address e = a" "ch_lobby e = rq_lobby r"
      "rq_phase r = RequestReady \<or> rq_phase r = RequestDelivering \<longrightarrow> ch_observation e \<noteq> None"
      unfolding request_ok_def by blast
    with kept [OF a] obtain e' where "e' \<in> set (lb_cache st')" "ch_address e' = a" "ch_lobby e' = ch_lobby e"
      "ch_observation e \<noteq> None \<longrightarrow> ch_observation e' \<noteq> None" unfolding entry_kept_def by blast
    with e show ?thesis by metis
  qed
  moreover have "rq_address r < lb_fresh st'" using ok assms(2) by (simp add: request_ok_def)
  ultimately show ?thesis using ok assms(3) unfolding request_ok_def by blast
qed

section \<open>Eviction\<close>

lemma refs_zero: "refs held st a = 0 \<longleftrightarrow> a \<notin> set held \<and> (\<forall>r \<in> set (lb_requests st). rq_cache r \<noteq> Some a)"
  by (auto simp: refs_def filter_empty_conv count_list_0_iff)

lemma evict_ok:
  assumes ok: "lobby_ok env held st" and entry: "entry \<in> set (lb_cache st)" "ch_readers entry = 0"
  shows "lobby_ok env held (evict env entry st)"
proof -
  have addresses: "distinct (map ch_address (lb_cache st))" using ok by (simp add: lobby_ok_def reads_ok_def)
  have "entry_ok held st entry" using ok entry(1) by (simp add: lobby_ok_def reads_ok_def)
  then have "refs held st (ch_address entry) = 0" using entry(2) by (simp add: entry_ok_def)
  then have free: "ch_address entry \<notin> set held" "\<forall>r \<in> set (lb_requests st). rq_cache r \<noteq> Some (ch_address entry)"
    by (simp_all add: refs_zero)
  have acc: "lb_used st = stored env st" "lb_used st \<le> kStorageBytes" using ok by (simp_all add: lobby_ok_def accounted_def)
  have total: "sum_list (map (cache_total env) (filter (\<lambda>e. ch_address e \<noteq> ch_address entry) (lb_cache st))) + cache_total env entry =
    sum_list (map (cache_total env) (lb_cache st))" by (rule sum_without_address [OF addresses entry(1)])
  then have le: "cache_total env entry \<le> lb_used st" using acc(1) by (simp add: stored_def)
  then have used: "lb_used (evict env entry st) = lb_used st - cache_total env entry"
    using acc(2) budget_small by (simp add: evict_def release_used_def cache_total_def size_minus_exact)
  have "stored env (evict env entry st) + cache_total env entry = stored env st"
    using total by (simp add: stored_def evict_def release_used_def)
  then have acc': "accounted env (evict env entry st)" unfolding accounted_def using used acc by linarith
  have "request_ok (evict env entry st) r" if r: "r \<in> set (lb_requests st)" for r
  proof (rule request_ok_mono [of st])
    show "request_ok st r" using ok r by (simp add: lobby_ok_def reads_ok_def)
    fix a assume "rq_cache r = Some a"
    then have "a \<noteq> ch_address entry" using free(2) r by auto
    then show "entry_kept st (evict env entry st) a" by (auto simp: entry_kept_def evict_def)
  qed (simp_all add: evict_def release_used_def)
  moreover have "set held \<subseteq> ch_address ` set (lb_cache (evict env entry st))"
  proof
    fix a assume a: "a \<in> set held"
    then obtain e where "e \<in> set (lb_cache st)" "a = ch_address e" using ok by (auto simp: lobby_ok_def reads_ok_def)
    moreover have "a \<noteq> ch_address entry" using a free(1) by auto
    ultimately show "a \<in> ch_address ` set (lb_cache (evict env entry st))" by (simp add: evict_def)
  qed
  ultimately have "reads_ok held (evict env entry st)"
    using ok by (auto simp: lobby_ok_def reads_ok_def evict_def release_used_def entry_ok_def refs_def intro: distinct_filter_map)
  then show ?thesis
    using ok acc' by (simp add: lobby_ok_def limits_ok_def items_ok_def item_ok_def groups_ok_def evict_def release_used_def)
qed

text \<open>What making room leaves: everything but unread entries.\<close>

definition made_room :: "'w LobbyService \<Rightarrow> 'w LobbyService \<Rightarrow> bool" where
  "made_room st st' \<longleftrightarrow> st'\<lparr>lb_cache := [], lb_used := 0\<rparr> = st\<lparr>lb_cache := [], lb_used := 0\<rparr> \<and> set (lb_cache st') \<subseteq> set (lb_cache st) \<and>
    (\<forall>entry \<in> set (lb_cache st). ch_readers entry \<noteq> 0 \<longrightarrow> entry \<in> set (lb_cache st'))"

lemma made_room_fields:
  assumes "made_room st st'"
  shows "lb_items st' = lb_items st" "lb_requests st' = lb_requests st" "lb_groups st' = lb_groups st" "lb_fresh st' = lb_fresh st"
    "lb_maximum_payload st' = lb_maximum_payload st" "lb_value_limit st' = lb_value_limit st" "lb_key_limit st' = lb_key_limit st"
    "lb_cache_use st' = lb_cache_use st" "lb_backend st' = lb_backend st" "lb_world st' = lb_world st" "lb_log st' = lb_log st"
proof -
  have same: "st'\<lparr>lb_cache := [], lb_used := 0\<rparr> = st\<lparr>lb_cache := [], lb_used := 0\<rparr>" using assms by (simp add: made_room_def)
  from arg_cong [OF same, of lb_items] show "lb_items st' = lb_items st" by simp
  from arg_cong [OF same, of lb_requests] show "lb_requests st' = lb_requests st" by simp
  from arg_cong [OF same, of lb_groups] show "lb_groups st' = lb_groups st" by simp
  from arg_cong [OF same, of lb_fresh] show "lb_fresh st' = lb_fresh st" by simp
  from arg_cong [OF same, of lb_maximum_payload] show "lb_maximum_payload st' = lb_maximum_payload st" by simp
  from arg_cong [OF same, of lb_value_limit] show "lb_value_limit st' = lb_value_limit st" by simp
  from arg_cong [OF same, of lb_key_limit] show "lb_key_limit st' = lb_key_limit st" by simp
  from arg_cong [OF same, of lb_cache_use] show "lb_cache_use st' = lb_cache_use st" by simp
  from arg_cong [OF same, of lb_backend] show "lb_backend st' = lb_backend st" by simp
  from arg_cong [OF same, of lb_world] show "lb_world st' = lb_world st" by simp
  from arg_cong [OF same, of lb_log] show "lb_log st' = lb_log st" by simp
qed

lemma evict_made_room:
  assumes "distinct (map ch_address (lb_cache st))" and "entry \<in> set (lb_cache st)" and "ch_readers entry = 0"
  shows "made_room st (evict env entry st)"
proof -
  have "e \<in> set (lb_cache (evict env entry st))" if e: "e \<in> set (lb_cache st)" "ch_readers e \<noteq> 0" for e
  proof -
    have "e \<noteq> entry" using e(2) assms(3) by auto
    then have "ch_address e \<noteq> ch_address entry" using distinct_map_eq [OF assms(1) e(1) assms(2)] by blast
    then show ?thesis using e(1) by (simp add: evict_def)
  qed
  moreover have "set (lb_cache (evict env entry st)) \<subseteq> set (lb_cache st)" by (simp add: evict_def filter_is_subset)
  moreover have "(evict env entry st)\<lparr>lb_cache := [], lb_used := 0\<rparr> = st\<lparr>lb_cache := [], lb_used := 0\<rparr>"
    by (simp add: evict_def release_used_def)
  ultimately show ?thesis unfolding made_room_def by blast
qed

lemma made_room_refl: "made_room st st"
  by (simp add: made_room_def)

lemma made_room_trans: "made_room s t \<Longrightarrow> made_room t u \<Longrightarrow> made_room s u"
proof -
  assume s: "made_room s t" "made_room t u"
  have "u\<lparr>lb_cache := [], lb_used := 0\<rparr> = t\<lparr>lb_cache := [], lb_used := 0\<rparr>" using s(2) unfolding made_room_def by blast
  also have "\<dots> = s\<lparr>lb_cache := [], lb_used := 0\<rparr>" using s(1) unfolding made_room_def by blast
  finally show ?thesis using s unfolding made_room_def by blast
qed

lemma retain_ok:
  assumes "lobby_ok env held st" and "retain env additional st = (kept, st')"
  shows "lobby_ok env held st' \<and> made_room st st' \<and> (kept \<longrightarrow> lb_used st' + additional \<le> kStorageBytes)"
  using assms
proof (induction env additional st rule: retain.induct)
  case (1 env additional st)
  have used: "lb_used st \<le> kStorageBytes" using 1(2) by (simp add: lobby_ok_def accounted_def)
  then have room: "size_minus env kStorageBytes (lb_used st) = kStorageBytes - lb_used st"
    using budget_small by (rule size_minus_exact)
  show ?case
  proof (cases "additional \<le> size_minus env kStorageBytes (lb_used st)")
    case True
    then have "st' = st" using 1(3) by (subst (asm) retain.simps) simp
    moreover have "lb_used st + additional \<le> kStorageBytes" using True room used by linarith
    ultimately show ?thesis using 1(2) by (simp add: made_room_refl)
  next
    case full: False
    show ?thesis
    proof (cases "oldest_unread (lb_cache st)")
      case None
      then have "st' = st \<and> \<not> kept" using 1(3) full by (subst (asm) retain.simps) simp
      then show ?thesis using 1(2) by (simp add: made_room_refl)
    next
      case (Some entry)
      then have entry: "entry \<in> set (lb_cache st)" "ch_readers entry = 0" by (simp_all add: oldest_unread_in)
      have next': "retain env additional (evict env entry st) = (kept, st')"
        using 1(3) full Some by (subst (asm) retain.simps) simp
      have "distinct (map ch_address (lb_cache st))" using 1(2) by (simp add: lobby_ok_def reads_ok_def)
      then have "made_room st (evict env entry st)" using entry by (rule evict_made_room)
      then show ?thesis using 1(1) [OF full Some evict_ok [OF 1(2) entry] next'] made_room_trans by blast
    qed
  qed
qed

section \<open>Entries and their readers\<close>

lemma lobby_okD:
  assumes "lobby_ok env held st"
  shows "lb_used st = stored env st" "lb_used st \<le> kStorageBytes" "limits_ok st" "items_ok st" "reads_ok held st" "groups_ok st"
    "distinct (map ch_address (lb_cache st))" "distinct (map rq_address (lb_requests st))" "distinct (map li_address (lb_items st))"
    "set held \<subseteq> ch_address ` set (lb_cache st)"
  using assms by (simp_all add: lobby_ok_def accounted_def reads_ok_def items_ok_def)

lemma entry_okD: "lobby_ok env held st \<Longrightarrow> e \<in> set (lb_cache st) \<Longrightarrow> entry_ok held st e"
  by (simp add: lobby_ok_def reads_ok_def)

lemma request_okD: "lobby_ok env held st \<Longrightarrow> r \<in> set (lb_requests st) \<Longrightarrow> request_ok st r"
  by (simp add: lobby_ok_def reads_ok_def)

lemma item_okD: "lobby_ok env held st \<Longrightarrow> item \<in> set (lb_items st) \<Longrightarrow> item_ok st item"
  by (simp add: lobby_ok_def items_ok_def)

lemma cache_at_iff:
  "lobby_ok env held st \<Longrightarrow> cache_at st a = Some e \<longleftrightarrow> e \<in> set (lb_cache st) \<and> ch_address e = a"
  unfolding cache_at_def by (rule find_address) (simp add: lobby_okD)

lemma request_at_iff:
  "lobby_ok env held st \<Longrightarrow> request_at st a = Some r \<longleftrightarrow> r \<in> set (lb_requests st) \<and> rq_address r = a"
  unfolding request_at_def by (rule find_address) (simp add: lobby_okD)

lemma item_at_iff:
  "lobby_ok env held st \<Longrightarrow> item_at st a = Some item \<longleftrightarrow> item \<in> set (lb_items st) \<and> li_address item = a"
  unfolding item_at_def by (rule find_address) (simp add: lobby_okD)

lemma entry_ok_cong:
  "lb_requests st' = lb_requests st \<Longrightarrow> lb_fresh st' = lb_fresh st \<Longrightarrow> lb_maximum_payload st' = lb_maximum_payload st \<Longrightarrow>
   entry_ok held st' e \<longleftrightarrow> entry_ok held st e"
  by (simp add: entry_ok_def refs_def)

lemma entry_ok_held:
  "count_list held' (ch_address e) = count_list held (ch_address e) \<Longrightarrow> entry_ok held' st e \<longleftrightarrow> entry_ok held st e"
  by (simp add: entry_ok_def refs_def)

text \<open>One entry changes: its readers, its charge, what was read.\<close>

definition same_place :: "(Cache \<Rightarrow> Cache) \<Rightarrow> bool" where
  "same_place f \<longleftrightarrow> (\<forall>e. ch_address (f e) = ch_address e \<and> ch_lobby (f e) = ch_lobby e \<and> ch_key (f e) = ch_key e \<and>
    (ch_observation e \<noteq> None \<longrightarrow> ch_observation (f e) \<noteq> None))"

lemma set_cache_reads:
  assumes ok: "reads_ok held st" and f: "same_place f" and e: "e \<in> set (lb_cache st)" "ch_address e = a" "entry_ok held' st (f e)"
    and other: "\<And>b. b \<noteq> a \<Longrightarrow> count_list held' b = count_list held b"
  shows "reads_ok held' (set_cache a f st)"
proof -
  let ?cache = "at_address ch_address a f (lb_cache st)"
  have addresses: "distinct (map ch_address (lb_cache st))" using ok by (simp add: reads_ok_def)
  have same: "map ch_address ?cache = map ch_address (lb_cache st)"
    "map (\<lambda>e. (ch_lobby e, ch_key e)) ?cache = map (\<lambda>e. (ch_lobby e, ch_key e)) (lb_cache st)"
    using f by (simp_all add: same_place_def)
  have "entry_ok held' st x" if x: "x \<in> set ?cache" for x
  proof -
    from x obtain y where y: "y \<in> set (lb_cache st)" "x = (if ch_address y = a then f y else y)" by auto
    show ?thesis
    proof (cases "ch_address y = a")
      case True
      then have "y = e" using distinct_map_eq [OF addresses y(1) e(1)] e(2) by simp
      then show ?thesis using y(2) True e(3) by simp
    next
      case False
      then have "entry_ok held' st y \<longleftrightarrow> entry_ok held st y" using other by (intro entry_ok_held) auto
      then show ?thesis using y False ok by (simp add: reads_ok_def)
    qed
  qed
  then have entries: "\<forall>x \<in> set ?cache. entry_ok held' (set_cache a f st) x" by (simp add: set_cache_def entry_ok_def refs_def)
  have "request_ok (set_cache a f st) r" if r: "r \<in> set (lb_requests st)" for r
  proof (rule request_ok_mono [of st])
    show "request_ok st r" using ok r by (simp add: reads_ok_def)
    fix b
    show "entry_kept st (set_cache a f st) b"
      unfolding entry_kept_def
    proof (intro ballI impI)
      fix e assume e: "e \<in> set (lb_cache st)" "ch_address e = b"
      have "(if ch_address e = a then f e else e) \<in> set (lb_cache (set_cache a f st))" using e(1) by (auto simp: set_cache_def)
      then show "\<exists>e' \<in> set (lb_cache (set_cache a f st)). ch_address e' = b \<and> ch_lobby e' = ch_lobby e \<and>
        (ch_observation e \<noteq> None \<longrightarrow> ch_observation e' \<noteq> None)"
        by (rule rev_bexI) (use f e(2) in \<open>simp add: same_place_def\<close>)
    qed
  qed (simp_all add: set_cache_def)
  moreover have "set held' \<subseteq> ch_address ` set ?cache"
  proof
    fix b assume b: "b \<in> set held'"
    have "b \<in> ch_address ` set (lb_cache st)"
    proof (cases "b = a")
      case True
      then show ?thesis using e by auto
    next
      case False
      then have "b \<in> set held" using other [OF False] b by (metis count_list_0_iff)
      then show ?thesis using ok by (auto simp: reads_ok_def)
    qed
    then have "b \<in> set (map ch_address (lb_cache st))" by simp
    then have "b \<in> set (map ch_address ?cache)" by (simp only: same)
    then show "b \<in> ch_address ` set ?cache" by (simp only: set_map)
  qed
  moreover have "lb_cache (set_cache a f st) = ?cache" "lb_requests (set_cache a f st) = lb_requests st" by (simp_all add: set_cache_def)
  ultimately show ?thesis using ok entries unfolding reads_ok_def by (simp only: same) blast
qed

lemma stored_set_cache:
  assumes "distinct (map ch_address (lb_cache st))" and "e \<in> set (lb_cache st)" and "ch_address e = a"
  shows "stored env (set_cache a f st) + cache_total env e = stored env st + cache_total env (f e)"
  using sum_at_address [OF assms(1,2), of "cache_total env" f] assms(3) by (simp add: stored_def set_cache_def)

lemma stored_used [simp]: "stored env (st\<lparr>lb_used := n\<rparr>) = stored env st"
  by (simp add: stored_def)

lemma set_cache_other [simp]:
  "limits_ok (set_cache a f st) = limits_ok st" "items_ok (set_cache a f st) = items_ok st" "groups_ok (set_cache a f st) = groups_ok st"
  "lb_used (set_cache a f st) = lb_used st"
  by (simp_all add: limits_ok_def items_ok_def item_ok_def groups_ok_def set_cache_def)

lemma used_other [simp]:
  "limits_ok (st\<lparr>lb_used := n\<rparr>) = limits_ok st" "items_ok (st\<lparr>lb_used := n\<rparr>) = items_ok st" "groups_ok (st\<lparr>lb_used := n\<rparr>) = groups_ok st"
  "reads_ok held (st\<lparr>lb_used := n\<rparr>) = reads_ok held st"
  by (simp_all add: limits_ok_def items_ok_def item_ok_def groups_ok_def reads_ok_def entry_ok_def request_ok_def refs_def)

text \<open>An entry changes without its charge.\<close>

lemma set_cache_ok:
  assumes ok: "lobby_ok env held st" and f: "same_place f" and e: "e \<in> set (lb_cache st)" "ch_address e = a" "entry_ok held' st (f e)"
    and other: "\<And>b. b \<noteq> a \<Longrightarrow> count_list held' b = count_list held b" and charge: "ch_payload_charge (f e) = ch_payload_charge e"
  shows "lobby_ok env held' (set_cache a f st)"
proof -
  have "cache_total env (f e) = cache_total env e" using f charge by (simp add: cache_total_def cache_size_def same_place_def)
  then have "stored env (set_cache a f st) = stored env st" using stored_set_cache [OF _ e(1,2), of env f] lobby_okD(7) [OF ok] by simp
  then show ?thesis
    using ok set_cache_reads [OF lobby_okD(5) [OF ok] f e other] by (simp add: lobby_ok_def accounted_def)
qed

lemma hold_ok:
  assumes ok: "lobby_ok env held st" and e: "e \<in> set (lb_cache st)"
  shows "lobby_ok env (ch_address e # held) (set_cache (ch_address e) (\<lambda>e. e\<lparr>ch_readers := Suc (ch_readers e)\<rparr>) st)"
proof (rule set_cache_ok [OF ok _ e refl])
  show "entry_ok (ch_address e # held) st (e\<lparr>ch_readers := Suc (ch_readers e)\<rparr>)"
    using entry_okD [OF ok e] by (simp add: entry_ok_def refs_def observed_bytes_def)
qed (simp_all add: same_place_def)

lemma unhold_ok:
  assumes ok: "lobby_ok env (a # held) st" and e: "e \<in> set (lb_cache st)" "ch_address e = a"
  shows "lobby_ok env held (set_cache a (\<lambda>x. x\<lparr>ch_readers := ch_readers e - 1\<rparr>) st)"
proof (rule set_cache_ok [OF ok _ e])
  show "entry_ok held st (e\<lparr>ch_readers := ch_readers e - 1\<rparr>)"
    using entry_okD [OF ok e(1)] e(2) by (simp add: entry_ok_def refs_def observed_bytes_def)
qed (simp_all add: same_place_def)

lemma release_ok:
  assumes ok: "lobby_ok env (a # held) st"
  shows "lobby_ok env held (release_selection env (Some a) st)"
proof -
  obtain e where e: "e \<in> set (lb_cache st)" "ch_address e = a" using lobby_okD(10) [OF ok] by auto
  then have at: "cache_at st a = Some e" using cache_at_iff [OF ok] by blast
  have e_ok: "entry_ok (a # held) st e" by (rule entry_okD [OF ok e(1)])
  show ?thesis
  proof (cases "ch_readers e - 1 = 0")
    case False
    then show ?thesis using unhold_ok [OF ok e] e(2) at by (simp add: release_selection_def drop_reader_def)
  next
    case True
    let ?f = "\<lambda>x. x\<lparr>ch_readers := 0, ch_payload_charge := observed_bytes e\<rparr>" and ?n = "ch_payload_charge e - observed_bytes e"
    have zero: "refs held st a = 0" using e_ok e(2) True by (simp add: entry_ok_def refs_def)
    then have new: "entry_ok held st (?f e)"
      using e_ok e(2) by (auto simp: entry_ok_def observed_bytes_def refs_zero)
    have le: "observed_bytes e \<le> ch_payload_charge e" using e_ok by (simp add: entry_ok_def)
    have total: "stored env (set_cache a ?f st) + cache_total env e = stored env st + cache_total env (?f e)"
      by (rule stored_set_cache [OF lobby_okD(7) [OF ok] e])
    then have less: "stored env (set_cache a ?f st) + ?n = stored env st" using le by (simp add: cache_total_def cache_size_def)
    have part: "?n \<le> lb_used st" using less lobby_okD(1) [OF ok] by simp
    have small: "lb_used st < 2 ^ 32" using lobby_okD(2) [OF ok] budget_small by simp
    have charge_small: "ch_payload_charge e < 2 ^ 32"
    proof -
      have "cache_total env e \<le> sum_list (map (cache_total env) (lb_cache st))" using e(1) by (intro member_le_sum_list) auto
      then have "cache_total env e \<le> lb_used st" using lobby_okD(1) [OF ok] by (simp add: stored_def)
      then show ?thesis using small by (simp add: cache_total_def cache_size_def)
    qed
    have "size_minus env (lb_used st) (size_minus env (ch_payload_charge e) (observed_bytes e)) = lb_used st - ?n"
      by (simp only: size_minus_exact [OF le charge_small] size_minus_exact [OF part small])
    then have after: "release_selection env (Some a) st = (set_cache a ?f st)\<lparr>lb_used := lb_used st - ?n\<rparr>"
      using at e(2) True by (simp add: release_selection_def drop_reader_def release_used_def)
    have "reads_ok held (set_cache a ?f st)"
    proof (rule set_cache_reads [OF lobby_okD(5) [OF ok], where f = ?f and e = e])
      show "same_place ?f" by (simp add: same_place_def)
      show "entry_ok held st (?f e)" by (rule new)
    qed (simp_all add: e)
    moreover have "lb_used st - ?n = stored env (set_cache a ?f st)" using less lobby_okD(1) [OF ok] by linarith
    moreover have "lb_used st - ?n \<le> kStorageBytes" using lobby_okD(2) [OF ok] by linarith
    ultimately show ?thesis
      using ok unfolding after by (simp add: lobby_ok_def accounted_def)
  qed
qed

section \<open>Requests\<close>

lemma set_at_address:
  assumes "distinct (map addr xs)" and "x \<in> set xs"
  shows "set (at_address addr (addr x) f xs) = insert (f x) (set xs - {x})"
proof -
  have "(if addr y = addr x then f y else y) = (if y = x then f x else y)" if "y \<in> set xs" for y
    using distinct_map_eq [OF assms(1) that assms(2)] by metis
  then have "set (at_address addr (addr x) f xs) = (\<lambda>y. if y = x then f x else y) ` set xs" unfolding set_map by (rule image_cong [OF refl])
  also have "\<dots> = insert (f x) (set xs - {x})" using assms(2) by (auto simp: image_iff)
  finally show ?thesis .
qed

text \<open>The reference a request gives up is held by whoever made it do so.\<close>

definition given_up :: "nat option \<Rightarrow> nat option \<Rightarrow> nat list" where
  "given_up old new = (case old of None \<Rightarrow> [] | Some a \<Rightarrow> if new = None then [a] else [])"

lemma set_request_ok:
  assumes ok: "lobby_ok env held st" and r: "r \<in> set (lb_requests st)"
    and same: "\<And>q. rq_address (g q) = rq_address q" and new: "request_ok st (g r)"
    and cache: "rq_cache (g r) = None \<or> rq_cache (g r) = rq_cache r"
  shows "lobby_ok env (given_up (rq_cache r) (rq_cache (g r)) @ held) (set_request (rq_address r) g st)"
proof -
  let ?st = "set_request (rq_address r) g st" and ?held = "given_up (rq_cache r) (rq_cache (g r)) @ held"
  note addresses = lobby_okD(8) [OF ok]
  have set: "set (lb_requests ?st) = insert (g r) (set (lb_requests st) - {r})"
    using set_at_address [OF addresses r] by (simp add: set_request_def)
  have changed: "lb_requests ?st = at_address rq_address (rq_address r) g (lb_requests st)" by (simp add: set_request_def)
  have counts: "length (filter (\<lambda>q. rq_cache q = Some b) (lb_requests ?st)) + (if rq_cache r = Some b then 1 else 0) =
    length (filter (\<lambda>q. rq_cache q = Some b) (lb_requests st)) + (if rq_cache (g r) = Some b then 1 else 0)" for b
    using sum_at_address [OF addresses r, of "\<lambda>q. if rq_cache q = Some b then 1 else 0" g]
    by (simp only: length_filter_sum changed)
  have refs: "refs ?held ?st b = refs held st b" for b
    using counts [of b] cache by (auto simp: refs_def given_up_def split: option.splits if_splits)
  have users: "\<exists>q \<in> set (lb_requests st). rq_cache q = Some b" if "\<exists>q \<in> set (lb_requests ?st). rq_cache q = Some b" for b
    using that cache r unfolding set by auto
  have "entry_ok ?held ?st e" if e: "e \<in> set (lb_cache st)" for e
    using entry_okD [OF ok e] users refs by (auto simp: entry_ok_def set_request_def)
  moreover have "request_ok ?st q" if q: "q \<in> set (lb_requests ?st)" for q
  proof (rule request_ok_mono [of st])
    show "request_ok st q" using q new request_okD [OF ok] unfolding set by auto
  qed (simp_all add: set_request_def)
  moreover have "set ?held \<subseteq> ch_address ` set (lb_cache st)"
  proof -
    have "a \<in> ch_address ` set (lb_cache st)" if "rq_cache r = Some a" for a
      using request_okD [OF ok r] that unfolding request_ok_def by blast
    then show ?thesis using lobby_okD(10) [OF ok] by (auto simp: given_up_def split: option.splits if_splits)
  qed
  moreover have "distinct (map rq_address (lb_requests ?st))"
  proof -
    have "map rq_address (lb_requests ?st) = map rq_address (lb_requests st)" using same by (simp add: set_request_def)
    then show ?thesis using addresses by simp
  qed
  moreover have "lb_cache ?st = lb_cache st" by (simp add: set_request_def)
  ultimately have "reads_ok ?held ?st" using lobby_okD(5) [OF ok] unfolding reads_ok_def by (simp only:) blast
  moreover have "stored env ?st = stored env st" by (simp add: stored_def set_request_def)
  ultimately show ?thesis
    using ok by (simp add: lobby_ok_def accounted_def limits_ok_def items_ok_def item_ok_def groups_ok_def set_request_def)
qed

lemma remove_request_ok:
  assumes ok: "lobby_ok env held st" and r: "r \<in> set (lb_requests st)" and none: "rq_cache r = None"
  shows "lobby_ok env held ((release_used env (request_size env) st)\<lparr>lb_requests := filter (\<lambda>q. rq_address q \<noteq> rq_address r) (lb_requests st)\<rparr>)"
proof -
  let ?requests = "filter (\<lambda>q. rq_address q \<noteq> rq_address r) (lb_requests st)"
  let ?st = "(release_used env (request_size env) st)\<lparr>lb_requests := ?requests\<rparr>"
  note addresses = lobby_okD(8) [OF ok]
  have "length ?requests + 1 = length (lb_requests st)"
    using sum_without_address [OF addresses r, of "\<lambda>_. 1"] by (simp only: length_sum)
  then have long: "length (lb_requests st) = Suc (length ?requests)" by simp
  have less: "stored env ?st + request_size env = stored env st" by (simp add: stored_def release_used_def long)
  then have used: "lb_used ?st = lb_used st - request_size env"
    using lobby_okD(1,2) [OF ok] budget_small by (simp add: release_used_def size_minus_exact)
  have "accounted env ?st" unfolding accounted_def using less used lobby_okD(1,2) [OF ok] by linarith
  moreover have "refs held ?st b = refs held st b" for b
  proof -
    have kept: "lb_requests ?st = ?requests" by simp
    have "length (filter (\<lambda>q. rq_cache q = Some b) ?requests) + (if rq_cache r = Some b then 1 else 0) =
      length (filter (\<lambda>q. rq_cache q = Some b) (lb_requests st))"
      using sum_without_address [OF addresses r, of "\<lambda>q. if rq_cache q = Some b then 1 else 0"] by (simp only: length_filter_sum)
    then show ?thesis unfolding refs_def kept using none by simp
  qed
  then have "entry_ok held ?st e" if "e \<in> set (lb_cache st)" for e
    using entry_okD [OF ok that] by (auto simp: entry_ok_def release_used_def)
  moreover have "request_ok ?st q" if "q \<in> set ?requests" for q
  proof (rule request_ok_mono [of st])
    show "request_ok st q" using that request_okD [OF ok] by simp
  qed (simp_all add: release_used_def)
  ultimately show ?thesis
    using ok by (simp add: lobby_ok_def reads_ok_def limits_ok_def items_ok_def item_ok_def groups_ok_def release_used_def
        distinct_filter_map)
qed

lemma add_request_ok:
  assumes ok: "lobby_ok env (given_up selection None @ held) st"
    and pending: "available \<longleftrightarrow> selection \<noteq> None" and group: "available \<longrightarrow> lobby \<in> fst ` set (lb_groups st)"
    and entry: "\<And>a. selection = Some a \<Longrightarrow> \<exists>e \<in> set (lb_cache st). ch_address e = a \<and> ch_lobby e = lobby \<and>
      ch_payload_charge e = lb_maximum_payload st"
    and room: "lb_used st + request_size env \<le> kStorageBytes"
  shows "lobby_ok env held (snd (add_request env owner selection lobby version callback available st))"
proof -
  let ?st = "snd (add_request env owner selection lobby version callback available st)"
  define r where "r = \<lparr>rq_address = lb_fresh st, rq_owner = owner, rq_cache = selection, rq_lobby = lobby, rq_version = version,
    rq_callback = Some callback, rq_failure = LobbyUnavailable, rq_phase = (if available then RequestPending else RequestReady)\<rparr>"
  have requests: "lb_requests ?st = lb_requests st @ [r]" by (simp add: add_request_def r_def charge_used_def)
  have same: "lb_cache ?st = lb_cache st" "lb_groups ?st = lb_groups st" "lb_items ?st = lb_items st" "lb_fresh ?st = Suc (lb_fresh st)"
    "lb_maximum_payload ?st = lb_maximum_payload st" "lb_value_limit ?st = lb_value_limit st"
    by (simp_all add: add_request_def charge_used_def)
  have used: "lb_used ?st = lb_used st + request_size env"
    using room budget_small by (simp add: add_request_def charge_used_def size_plus_exact)
  have "stored env ?st = stored env st + request_size env" by (simp add: stored_def requests same)
  then have acc: "accounted env ?st" unfolding accounted_def using used room lobby_okD(1) [OF ok] by simp
  have refs: "refs held ?st b = refs (given_up selection None @ held) st b" for b
    by (auto simp: refs_def requests r_def given_up_def split: option.splits)
  have "entry_ok held ?st e" if e: "e \<in> set (lb_cache st)" for e
  proof -
    have "ch_payload_charge e = lb_maximum_payload st" if held: "selection = Some (ch_address e)"
    proof -
      from entry [OF held] obtain e' where e': "e' \<in> set (lb_cache st)" "ch_address e' = ch_address e"
        "ch_payload_charge e' = lb_maximum_payload st" by blast
      with distinct_map_eq [OF lobby_okD(7) [OF ok] e'(1) e] show ?thesis by simp
    qed
    moreover have "rq_cache r = selection" by (simp add: r_def)
    moreover have old: "entry_ok (given_up selection None @ held) st e" by (rule entry_okD [OF ok e])
    ultimately have "(\<exists>q \<in> set (lb_requests ?st). rq_cache q = Some (ch_address e)) \<longrightarrow> ch_payload_charge e = lb_maximum_payload st"
      unfolding requests entry_ok_def by auto
    then show ?thesis using old unfolding entry_ok_def refs same by simp
  qed
  moreover have "request_ok ?st q" if "q \<in> set (lb_requests st)" for q
  proof (rule request_ok_mono [of st])
    show "request_ok st q" using that request_okD [OF ok] by simp
  qed (simp_all add: same)
  moreover have "request_ok ?st r"
  proof -
    have fields: "rq_cache r = selection" "rq_lobby r = lobby" "rq_address r = lb_fresh st" "rq_callback r = Some callback"
      "rq_phase r = (if available then RequestPending else RequestReady)" by (simp_all add: r_def)
    show ?thesis unfolding request_ok_def same fields using pending group entry by (cases available) auto
  qed
  moreover have "rq_address r \<notin> rq_address ` set (lb_requests st)"
  proof
    assume "rq_address r \<in> rq_address ` set (lb_requests st)"
    then obtain q where q: "q \<in> set (lb_requests st)" "rq_address q = lb_fresh st" by (auto simp: r_def)
    have "rq_address q < lb_fresh st" using request_okD [OF ok q(1)] unfolding request_ok_def by blast
    then show False using q(2) by simp
  qed
  ultimately have "reads_ok held ?st"
    using lobby_okD(5) [OF ok] by (auto simp: reads_ok_def requests same)
  moreover have "items_ok ?st" using lobby_okD(4) [OF ok] by (auto simp: items_ok_def item_ok_def same)
  ultimately show ?thesis using acc lobby_okD(3,6) [OF ok] by (simp add: lobby_ok_def limits_ok_def groups_ok_def same)
qed

section \<open>Groups and other state\<close>

lemma add_cache_ok:
  assumes ok: "lobby_ok env held st" and new: "\<forall>e \<in> set (lb_cache st). (ch_lobby e, ch_key e) \<noteq> (lobby, key)"
    and key: "\<exists>name. key = kKeyPrefix @ name" and room: "lb_used st + cache_size env key (lb_maximum_payload st) \<le> kStorageBytes"
  shows "lobby_ok env (lb_fresh st # held) (snd (add_cache env lobby key st))"
proof -
  let ?st = "snd (add_cache env lobby key st)"
  define e where "e = \<lparr>ch_address = lb_fresh st, ch_lobby = lobby, ch_key = key, ch_observation = None, ch_readers = 1,
    ch_payload_charge = lb_maximum_payload st, ch_used = Suc (lb_cache_use st)\<rparr>"
  have cache: "lb_cache ?st = lb_cache st @ [e]" by (simp add: add_cache_def e_def charge_used_def)
  have same: "lb_requests ?st = lb_requests st" "lb_groups ?st = lb_groups st" "lb_items ?st = lb_items st" "lb_fresh ?st = Suc (lb_fresh st)"
    "lb_maximum_payload ?st = lb_maximum_payload st" "lb_value_limit ?st = lb_value_limit st"
    by (simp_all add: add_cache_def charge_used_def)
  have "lb_used ?st = lb_used st + cache_size env key (lb_maximum_payload st)"
    using room budget_small by (simp add: add_cache_def charge_used_def size_plus_exact)
  moreover have "stored env ?st = stored env st + cache_size env key (lb_maximum_payload st)"
    by (simp add: stored_def cache same cache_total_def e_def)
  ultimately have acc: "accounted env ?st" unfolding accounted_def using room lobby_okD(1) [OF ok] by simp
  have fresh: "x \<noteq> lb_fresh st" if x: "x \<in> ch_address ` set (lb_cache st)" for x
  proof -
    from x obtain y where "y \<in> set (lb_cache st)" "x = ch_address y" by blast
    then have "x < lb_fresh st" using entry_okD [OF ok] by (simp add: entry_ok_def)
    then show ?thesis by simp
  qed
  have unused: "rq_cache r \<noteq> Some (lb_fresh st)" if r: "r \<in> set (lb_requests st)" for r
    using request_okD [OF ok r] fresh unfolding request_ok_def by blast
  have "lb_fresh st \<notin> set held" using lobby_okD(10) [OF ok] fresh by blast
  then have "refs (lb_fresh st # held) ?st (lb_fresh st) = 1"
    using unused by (simp add: refs_def same filter_empty_conv count_list_0_iff)
  then have "entry_ok (lb_fresh st # held) ?st e"
    using unused key by (simp add: entry_ok_def same e_def observed_bytes_def)
  moreover have "entry_ok (lb_fresh st # held) ?st x" if x: "x \<in> set (lb_cache st)" for x
  proof -
    have "ch_address x \<noteq> lb_fresh st" using fresh x by blast
    then show ?thesis using entry_okD [OF ok x] by (auto simp: entry_ok_def refs_def same)
  qed
  moreover have "request_ok ?st r" if r: "r \<in> set (lb_requests st)" for r
  proof (rule request_ok_mono [of st])
    show "request_ok st r" by (rule request_okD [OF ok r])
    fix a
    show "entry_kept st ?st a" unfolding entry_kept_def cache by auto
  qed (simp_all add: same)
  moreover have "distinct (map ch_address (lb_cache ?st))"
    using lobby_okD(7) [OF ok] fresh by (auto simp: cache e_def)
  moreover have "distinct (map (\<lambda>e. (ch_lobby e, ch_key e)) (lb_cache ?st))"
    using lobby_okD(5) [OF ok] new by (auto simp: cache e_def reads_ok_def)
  moreover have "set (lb_fresh st # held) \<subseteq> ch_address ` set (lb_cache ?st)"
    using lobby_okD(10) [OF ok] by (auto simp: cache e_def)
  ultimately have "reads_ok (lb_fresh st # held) ?st"
    using lobby_okD(8) [OF ok] unfolding reads_ok_def same by (simp add: cache)
  moreover have "items_ok ?st" using lobby_okD(4) [OF ok] by (auto simp: items_ok_def item_ok_def same)
  ultimately show ?thesis using acc lobby_okD(3,6) [OF ok] by (simp add: lobby_ok_def limits_ok_def groups_ok_def same)
qed

text \<open>Changes that touch neither records nor charges.\<close>

definition same_records :: "'w LobbyService \<Rightarrow> 'w LobbyService \<Rightarrow> bool" where
  "same_records st st' \<longleftrightarrow> lb_used st' = lb_used st \<and> lb_items st' = lb_items st \<and> lb_cache st' = lb_cache st \<and> lb_requests st' = lb_requests st \<and>
    lb_fresh st' = lb_fresh st \<and> lb_value_limit st' = lb_value_limit st \<and> lb_maximum_payload st' = lb_maximum_payload st \<and>
    map fst (lb_groups st') = map fst (lb_groups st)"

lemma same_records_ok:
  assumes ok: "lobby_ok env held st" and same: "same_records st st'" and groups: "groups_ok st'"
  shows "lobby_ok env held st'"
proof -
  have fields: "lb_used st' = lb_used st" "lb_items st' = lb_items st" "lb_cache st' = lb_cache st" "lb_requests st' = lb_requests st"
    "lb_fresh st' = lb_fresh st" "lb_value_limit st' = lb_value_limit st" "lb_maximum_payload st' = lb_maximum_payload st"
    and keys: "map fst (lb_groups st') = map fst (lb_groups st)"
    using same by (simp_all add: same_records_def)
  have "length (lb_groups st') = length (lb_groups st)" using arg_cong [OF keys, of length] by simp
  then have "stored env st' = stored env st" by (simp add: stored_def fields)
  then have "accounted env st'" using ok by (simp add: lobby_ok_def accounted_def fields)
  moreover have "fst ` set (lb_groups st') = fst ` set (lb_groups st)" using arg_cong [OF keys, of set] by simp
  then have "request_ok st' r \<longleftrightarrow> request_ok st r" for r unfolding request_ok_def fields by (simp only:)
  then have "reads_ok held st'" using lobby_okD(5) [OF ok] unfolding reads_ok_def entry_ok_def refs_def fields by simp
  moreover have "items_ok st'" using lobby_okD(4) [OF ok] unfolding items_ok_def item_ok_def fields .
  moreover have "limits_ok st'" using lobby_okD(3) [OF ok] unfolding limits_ok_def fields .
  ultimately show ?thesis using groups by (simp add: lobby_ok_def)
qed

lemma distinct_insort_keys: "distinct (map f (insort_key f x xs)) \<longleftrightarrow> f x \<notin> f ` set xs \<and> distinct (map f xs)"
  by (induction xs) (auto simp: set_insort_key)

lemma groups_without: "filter (\<lambda>(l, _). l \<noteq> lobby) gs = filter (\<lambda>g. fst g \<noteq> lobby) gs"
  by (rule filter_cong [OF refl]) auto

lemma length_without:
  "distinct (map f xs) \<Longrightarrow> a \<in> f ` set xs \<Longrightarrow> length xs = Suc (length (filter (\<lambda>x. f x \<noteq> a) xs))"
proof (induction xs)
  case (Cons x xs)
  show ?case
  proof (cases "f x = a")
    case True
    then have "filter (\<lambda>x. f x \<noteq> a) xs = xs" using Cons.prems by (intro filter_True) (auto simp: image_iff)
    then show ?thesis using True by simp
  next
    case False
    then show ?thesis using Cons by auto
  qed
qed simp

lemma add_group_ok:
  assumes ok: "lobby_ok env held st" and new: "lobby \<notin> fst ` set (lb_groups st)" and room: "lb_used st + group_size env \<le> kStorageBytes"
  shows "lobby_ok env held (add_group env lobby st) \<and> lobby \<in> fst ` set (lb_groups (add_group env lobby st))"
proof -
  let ?st = "add_group env lobby st"
  have same: "lb_requests ?st = lb_requests st" "lb_cache ?st = lb_cache st" "lb_items ?st = lb_items st" "lb_fresh ?st = lb_fresh st"
    "lb_maximum_payload ?st = lb_maximum_payload st" "lb_value_limit ?st = lb_value_limit st"
    "lb_groups ?st = insort_key fst (lobby, new_group) (lb_groups st)"
    by (simp_all add: add_group_def charge_used_def)
  have "lb_used ?st = lb_used st + group_size env"
    using room budget_small by (simp add: add_group_def charge_used_def size_plus_exact)
  moreover have "stored env ?st = stored env st + group_size env" by (simp add: stored_def same)
  ultimately have "accounted env ?st" unfolding accounted_def using room lobby_okD(1) [OF ok] by simp
  moreover have "groups_ok ?st"
    using lobby_okD(6) [OF ok] new by (auto simp: groups_ok_def same distinct_insort_keys set_insort_key new_group_def)
  moreover have "reads_ok held ?st"
  proof -
    have "request_ok ?st r" if "r \<in> set (lb_requests st)" for r
    proof (rule request_ok_mono [of st])
      show "request_ok st r" by (rule request_okD [OF ok that])
    qed (auto simp: same set_insort_key)
    then show ?thesis using lobby_okD(5) [OF ok] by (simp add: reads_ok_def same entry_ok_def refs_def)
  qed
  ultimately show ?thesis
    using lobby_okD(3,4) [OF ok] by (simp add: lobby_ok_def limits_ok_def items_ok_def item_ok_def same set_insort_key)
qed

lemma remove_group_ok:
  assumes ok: "lobby_ok env held st" and known: "lobby \<in> fst ` set (lb_groups st)" and none: "\<not> awaiting lobby st"
  shows "lobby_ok env held ((release_used env (group_size env) st)\<lparr>lb_groups := filter (\<lambda>(l, _). l \<noteq> lobby) (lb_groups st)\<rparr>)"
proof -
  let ?groups = "filter (\<lambda>(l, _). l \<noteq> lobby) (lb_groups st)"
  let ?st = "(release_used env (group_size env) st)\<lparr>lb_groups := ?groups\<rparr>"
  have keys: "distinct (map fst (lb_groups st))" using lobby_okD(6) [OF ok] by (simp add: groups_ok_def)
  have long: "length (lb_groups st) = Suc (length ?groups)"
    unfolding groups_without by (rule length_without [OF keys known])
  have less: "stored env ?st + group_size env = stored env st" by (simp add: stored_def release_used_def long)
  then have used: "lb_used ?st = lb_used st - group_size env"
    using lobby_okD(1,2) [OF ok] budget_small by (simp add: release_used_def size_minus_exact)
  have "accounted env ?st" unfolding accounted_def using less used lobby_okD(1,2) [OF ok] by linarith
  moreover have requests: "request_ok ?st r" if r: "r \<in> set (lb_requests st)" for r
  proof -
    have old: "request_ok st r" by (rule request_okD [OF ok r])
    have "rq_lobby r \<in> fst ` set ?groups" if "rq_phase r = RequestPending"
    proof -
      have "rq_lobby r \<noteq> lobby" using none r that by (auto simp: awaiting_def pending_in_def list_ex_iff)
      moreover have "rq_lobby r \<in> fst ` set (lb_groups st)" using old that by (simp add: request_ok_def)
      ultimately show ?thesis by force
    qed
    then show ?thesis using old by (simp add: request_ok_def release_used_def)
  qed
  moreover have "groups_ok ?st"
    using lobby_okD(6) [OF ok] by (auto simp: groups_ok_def intro: distinct_filter_map)
  moreover have "reads_ok held ?st"
    using lobby_okD(5) [OF ok] requests
    by (simp add: reads_ok_def release_used_def entry_ok_def refs_def)
  moreover have "items_ok ?st" "limits_ok ?st"
    using lobby_okD(3,4) [OF ok] by (simp_all add: items_ok_def item_ok_def limits_ok_def release_used_def)
  ultimately show ?thesis by (simp add: lobby_ok_def)
qed

end
