(* ===== verification/Lobby_Invariant.thy ===== *)
theory Lobby_Invariant
  imports Lobby_Laws
begin

text \<open>
  Every operation of the lobby service keeps its invariant, patch code that calls back included, and so does the service
  as a whole, whatever the native side answers and whenever its listeners report.
\<close>

section \<open>Items\<close>

lemma set_item_ok:
  assumes ok: "lobby_ok env held st" and item: "item \<in> set (lb_items st)"
    and same: "\<And>i. li_address (f i) = li_address i \<and> li_key (f i) = li_key i" and new: "item_ok st (f item)"
    and used: "used + item_total env item = lb_used st + item_total env (f item)" "used \<le> kStorageBytes"
  shows "lobby_ok env held ((set_item (li_address item) f st)\<lparr>lb_used := used\<rparr>)"
proof -
  let ?st = "(set_item (li_address item) f st)\<lparr>lb_used := used\<rparr>"
  note addresses = lobby_okD(9) [OF ok]
  have items: "lb_items ?st = at_address li_address (li_address item) f (lb_items st)" by (simp add: set_item_def)
  have same_fields: "lb_cache ?st = lb_cache st" "lb_requests ?st = lb_requests st" "lb_groups ?st = lb_groups st" "lb_fresh ?st = lb_fresh st"
    "lb_value_limit ?st = lb_value_limit st" "lb_maximum_payload ?st = lb_maximum_payload st" "lb_used ?st = used"
    by (simp_all add: set_item_def)
  have "stored env ?st + item_total env item = stored env st + item_total env (f item)"
    using sum_at_address [OF addresses item, of "item_total env" f] unfolding stored_def items same_fields by linarith
  then have "accounted env ?st" unfolding accounted_def same_fields using used lobby_okD(1) [OF ok] by linarith
  moreover have "item_ok ?st i" if "i \<in> set (lb_items ?st)" for i
  proof -
    have "i = f item \<or> i \<in> set (lb_items st)" using that unfolding items set_at_address [OF addresses item] by auto
    then have "item_ok st i" using new item_okD [OF ok] by blast
    then show ?thesis unfolding item_ok_def same_fields .
  qed
  moreover have "map li_address (lb_items ?st) = map li_address (lb_items st)" "map li_key (lb_items ?st) = map li_key (lb_items st)"
    unfolding items using same by simp_all
  ultimately have "items_ok ?st" using lobby_okD(4) [OF ok] unfolding items_ok_def by metis
  moreover have "reads_ok held ?st"
    using lobby_okD(5) [OF ok] unfolding reads_ok_def entry_ok_def refs_def request_ok_def same_fields .
  moreover have "limits_ok ?st" using lobby_okD(3) [OF ok] unfolding limits_ok_def same_fields .
  moreover have "groups_ok ?st" using lobby_okD(6) [OF ok] unfolding groups_ok_def same_fields .
  ultimately show ?thesis using \<open>accounted env ?st\<close> by (simp add: lobby_ok_def)
qed

lemma item_part:
  assumes ok: "lobby_ok env held st" and item: "item \<in> set (lb_items st)"
  shows "item_total env item \<le> lb_used st"
proof -
  have "item_total env item \<le> sum_list (map (item_total env) (lb_items st))" using item by (intro member_le_sum_list) auto
  then show ?thesis using lobby_okD(1) [OF ok] by (simp add: stored_def)
qed

lemma lobby_item_ok:
  assumes ok: "lobby_ok env held st" and item: "lobby_item env owner name version st = (result, st')"
  shows "lobby_ok env held st'"
proof (cases "\<exists>key. key_for name (lb_key_limit st) = Some key \<and> \<not> list_ex (\<lambda>item. public_name (li_key item) = name) (lb_items st) \<and>
    en_state env owner = PPreparing \<and> lb_key_limit st \<noteq> 0")
  case False
  then have "st' = st" using item by (auto simp: lobby_item_def split: if_splits option.splits)
  then show ?thesis using ok by simp
next
  case True
  then obtain key where key: "key_for name (lb_key_limit st) = Some key" and new: "\<not> list_ex (\<lambda>item. public_name (li_key item) = name) (lb_items st)"
    and ready: "en_state env owner = PPreparing" "lb_key_limit st \<noteq> 0" by blast
  obtain kept st1 where kept: "retain env (item_size env key) st = (kept, st1)" by (cases "retain env (item_size env key) st")
  note r = retain_ok [OF ok kept]
  then have ok1: "lobby_ok env held st1" and fields: "made_room st st1" by blast+
  show ?thesis
  proof (cases kept)
    case False
    then have "st' = st1" using item key new ready kept by (simp add: lobby_item_def)
    then show ?thesis using ok1 by simp
  next
    case kept': True
    define i where "i = \<lparr>li_address = lb_fresh st1, li_owner = owner, li_key = key, li_version = version, li_desired = None,
      li_written = None, li_written_charge = 0, li_written_lobby = 0, li_attempted = None, li_withdraw = False, li_failure = None\<rparr>"
    have st': "st' = charge_used env (item_size env key) (st1\<lparr>lb_fresh := Suc (lb_fresh st1), lb_items := lb_items st1 @ [i]\<rparr>)"
      using item key new ready kept kept' by (simp add: lobby_item_def i_def)
    have same: "lb_items st' = lb_items st1 @ [i]" "lb_cache st' = lb_cache st1" "lb_requests st' = lb_requests st1" "lb_groups st' = lb_groups st1"
      "lb_fresh st' = Suc (lb_fresh st1)" "lb_value_limit st' = lb_value_limit st1" "lb_maximum_payload st' = lb_maximum_payload st1"
      by (simp_all add: st' charge_used_def)
    have room: "lb_used st1 + item_size env key \<le> kStorageBytes" using r kept' by simp
    then have "lb_used st' = lb_used st1 + item_size env key"
      using budget_small by (simp add: st' charge_used_def size_plus_exact)
    moreover have "stored env st' = stored env st1 + item_size env key"
      by (simp add: stored_def same item_total_def i_def optional_size_def)
    ultimately have "accounted env st'" unfolding accounted_def using room lobby_okD(1) [OF ok1] by simp
    moreover have "items_ok st'"
    proof -
      from key have k: "key = kKeyPrefix @ name" by (simp add: key_for_Some)
      have "li_key x \<noteq> key" if "x \<in> set (lb_items st1)" for x
        using new that made_room_fields(1) [OF fields] by (auto simp: k list_ex_iff)
      moreover have "li_address x \<noteq> lb_fresh st1" if "x \<in> set (lb_items st1)" for x
        using item_okD [OF ok1 that] by (simp add: item_ok_def)
      ultimately show ?thesis
        using lobby_okD(4) [OF ok1] k by (auto simp: items_ok_def item_ok_def same i_def optional_size_def)
    qed
    moreover have "reads_ok held st'"
    proof -
      have "request_ok st' q" if "q \<in> set (lb_requests st1)" for q
      proof (rule request_ok_mono [of st1])
        show "request_ok st1 q" by (rule request_okD [OF ok1 that])
      qed (simp_all add: same)
      moreover have "entry_ok held st' e" if "e \<in> set (lb_cache st1)" for e
        using entry_okD [OF ok1 that] by (simp add: entry_ok_def refs_def same)
      ultimately show ?thesis using lobby_okD(5) [OF ok1] unfolding reads_ok_def same by blast
    qed
    ultimately show ?thesis
      using lobby_okD(3,6) [OF ok1] by (simp add: lobby_ok_def limits_ok_def groups_ok_def same)
  qed
qed

lemma publish_item_ok:
  assumes ok: "lobby_ok env held st" and item: "item \<in> set (lb_items st)" and published: "publish_item env item bytes st = (problem, st')"
  shows "lobby_ok env held st'"
proof (cases "publication_fits item bytes st")
  case False
  then show ?thesis using ok published by (simp add: publish_item_def)
next
  case fits: True
  let ?text = "encode (li_version item) bytes"
  let ?charge = "max (optional_size (li_written item)) (length ?text)"
  let ?previous = "optional_size (li_desired item) + li_written_charge item"
  let ?next = "length ?text + ?charge"
  let ?kept = "if ?next > ?previous then retain env (?next - ?previous) st else (True, st)"
  obtain kept st1 where kept: "?kept = (kept, st1)" by (cases ?kept)
  have r: "lobby_ok env held st1 \<and> made_room st st1 \<and> (kept \<longrightarrow> lb_used st1 + (?next - ?previous) \<le> kStorageBytes)"
  proof (cases "?next > ?previous")
    case True
    then show ?thesis using kept retain_ok [OF ok, of "?next - ?previous" kept st1] by simp
  next
    case False
    then show ?thesis using kept ok lobby_okD(2) [OF ok] by (auto simp: made_room_refl)
  qed
  then have ok1: "lobby_ok env held st1" and "made_room st st1" by blast+
  then have item1: "item \<in> set (lb_items st1)" using item made_room_fields(1) [of st st1] by simp
  show ?thesis
  proof (cases kept)
    case False
    then have "st' = st1" using published fits kept by (simp add: publish_item_def Let_def split: prod.splits)
    then show ?thesis using ok1 by simp
  next
    case True
    let ?f = "\<lambda>item. item\<lparr>li_written_charge := ?charge, li_desired := Some ?text, li_withdraw := False\<rparr>"
    let ?used = "lb_used st1 - ?previous + ?next"
    have part: "?previous \<le> lb_used st1" using item_part [OF ok1 item1] by (simp add: item_total_def)
    have small: "lb_used st1 < 2 ^ 32" using lobby_okD(2) [OF ok1] budget_small by simp
    have room: "?used \<le> kStorageBytes" using r True part lobby_okD(2) [OF ok1] by auto
    have "?used < 2 ^ 32" using room budget_small by linarith
    then have "size_plus env (size_minus env (lb_used st1) ?previous) ?next = ?used"
      unfolding size_minus_exact [OF part small] by (rule size_plus_exact)
    moreover have "st' = set_item (li_address item) ?f (st1\<lparr>lb_used := size_plus env (size_minus env (lb_used st1) ?previous) ?next\<rparr>)"
      using published fits kept True by (simp add: publish_item_def Let_def split: prod.splits)
    ultimately have st': "st' = (set_item (li_address item) ?f st1)\<lparr>lb_used := ?used\<rparr>" by (simp add: set_item_def)
    show ?thesis unfolding st'
    proof (rule set_item_ok [OF ok1 item1])
      show "item_ok st1 (?f item)" using item_okD [OF ok1 item1] by (simp add: item_ok_def optional_size_def)
      show "?used + item_total env item = lb_used st1 + item_total env (?f item)"
        using part by (simp add: item_total_def optional_size_def)
    qed (simp_all add: room)
  qed
qed

text \<open>An item lets go of part of its charge.\<close>

lemma shrink_item_ok:
  assumes ok: "lobby_ok env held st" and item: "item \<in> set (lb_items st)"
    and same: "\<And>i. li_address (f i) = li_address i \<and> li_key (f i) = li_key i" and new: "item_ok st (f item)"
    and less: "item_total env (f item) + amount = item_total env item"
  shows "lobby_ok env held (set_item (li_address item) f (release_used env amount st))"
proof -
  have part: "amount \<le> lb_used st" using item_part [OF ok item] less by simp
  have "size_minus env (lb_used st) amount = lb_used st - amount"
    using part lobby_okD(2) [OF ok] budget_small by (simp add: size_minus_exact)
  then have "set_item (li_address item) f (release_used env amount st) = (set_item (li_address item) f st)\<lparr>lb_used := lb_used st - amount\<rparr>"
    by (simp add: set_item_def release_used_def)
  moreover have "lobby_ok env held ((set_item (li_address item) f st)\<lparr>lb_used := lb_used st - amount\<rparr>)"
  proof (rule set_item_ok [OF ok item same new])
    show "lb_used st - amount + item_total env item = lb_used st + item_total env (f item)" using part less by linarith
    show "lb_used st - amount \<le> kStorageBytes" using lobby_okD(2) [OF ok] by linarith
  qed
  ultimately show ?thesis by simp
qed

lemma charge_small:
  assumes ok: "lobby_ok env held st" and item: "item \<in> set (lb_items st)"
  shows "li_written_charge item < 2 ^ 32"
  using item_part [OF ok item] lobby_okD(2) [OF ok] budget_small by (simp add: item_total_def)

lemma clear_item_ok:
  assumes ok: "lobby_ok env held st" and item: "item \<in> set (lb_items st)"
  shows "lobby_ok env held (clear_item env item st)"
proof -
  let ?d = "optional_size (li_desired item)" and ?c = "li_written_charge item - optional_size (li_written item)"
  let ?f = "\<lambda>i. i\<lparr>li_desired := None, li_withdraw := True, li_written_charge := optional_size (li_written item)\<rparr>"
  have i: "item_ok st item" by (rule item_okD [OF ok item])
  have charge: "size_minus env (li_written_charge item) (optional_size (li_written item)) = ?c"
    using i charge_small [OF ok item] by (simp add: item_ok_def size_minus_exact)
  have total: "item_total env (?f item) + (?d + ?c) = item_total env item"
    using i by (simp add: item_total_def item_ok_def optional_size_def)
  have part: "?d + ?c \<le> lb_used st" using item_part [OF ok item] total by simp
  have small: "lb_used st < 2 ^ 32" using lobby_okD(2) [OF ok] budget_small by simp
  have "lb_used st - ?d < 2 ^ 32" "?c \<le> lb_used st - ?d" using part small by auto
  then have "size_minus env (size_minus env (lb_used st) ?d) ?c = lb_used st - (?d + ?c)"
    using part small by (simp add: size_minus_exact)
  moreover have "size_minus env (lb_used st) (?d + ?c) = lb_used st - (?d + ?c)" using part small by (rule size_minus_exact)
  moreover have "li_desired item = None \<Longrightarrow> size_minus env (lb_used st) ?d = lb_used st" using small by (simp add: optional_size_def size_minus_exact)
  ultimately have "clear_item env item st = set_item (li_address item) ?f (release_used env (?d + ?c) st)"
    using charge by (cases "li_desired item") (simp_all add: clear_item_def Let_def release_used_def set_item_def)
  moreover have "lobby_ok env held (set_item (li_address item) ?f (release_used env (?d + ?c) st))"
  proof (rule shrink_item_ok [OF ok item])
    show "item_ok st (?f item)" using i by (simp add: item_ok_def optional_size_def)
    show "item_total env (?f item) + (?d + ?c) = item_total env item" by (rule total)
  qed simp
  ultimately show ?thesis by simp
qed

lemma forget_written_ok:
  assumes ok: "lobby_ok env held st" and item: "item \<in> set (lb_items st)"
  shows "lobby_ok env held (forget_written env item st)"
proof -
  let ?f = "\<lambda>i. i\<lparr>li_written := None, li_written_charge := optional_size (li_desired item), li_written_lobby := 0\<rparr>"
  have i: "item_ok st item" by (rule item_okD [OF ok item])
  have charge: "size_minus env (li_written_charge item) (optional_size (li_desired item)) = li_written_charge item - optional_size (li_desired item)"
    using i charge_small [OF ok item] by (simp add: item_ok_def size_minus_exact)
  have "lobby_ok env held (set_item (li_address item) ?f
    (release_used env (li_written_charge item - optional_size (li_desired item)) st))"
  proof (rule shrink_item_ok [OF ok item])
    show "item_ok st (?f item)" using i by (simp add: item_ok_def optional_size_def)
    show "item_total env (?f item) + (li_written_charge item - optional_size (li_desired item)) = item_total env item"
      using i by (simp add: item_total_def item_ok_def)
  qed simp
  then show ?thesis by (simp add: forget_written_def Let_def charge)
qed

section \<open>Reads\<close>

lemma grow_ok:
  assumes ok: "lobby_ok env held st" and e: "e \<in> set (lb_cache st)"
    and room: "lb_used st + (lb_maximum_payload st - ch_payload_charge e) \<le> kStorageBytes"
  shows "lobby_ok env held ((set_cache (ch_address e) (\<lambda>x. x\<lparr>ch_payload_charge := lb_maximum_payload st\<rparr>) st)
    \<lparr>lb_used := lb_used st + (lb_maximum_payload st - ch_payload_charge e)\<rparr>)"
proof -
  let ?f = "\<lambda>x. x\<lparr>ch_payload_charge := lb_maximum_payload st\<rparr>"
  have old: "entry_ok held st e" by (rule entry_okD [OF ok e])
  then have le: "ch_payload_charge e \<le> lb_maximum_payload st" by (simp add: entry_ok_def)
  have new: "entry_ok held st (?f e)" using old le by (auto simp: entry_ok_def observed_bytes_def)
  have "stored env (set_cache (ch_address e) ?f st) + cache_total env e = stored env st + cache_total env (?f e)"
    by (rule stored_set_cache [OF lobby_okD(7) [OF ok] e refl])
  then have "stored env (set_cache (ch_address e) ?f st) = stored env st + (lb_maximum_payload st - ch_payload_charge e)"
    using le by (simp add: cache_total_def cache_size_def)
  moreover have "reads_ok held (set_cache (ch_address e) ?f st)"
  proof (rule set_cache_reads [OF lobby_okD(5) [OF ok], where f = ?f and e = e])
    show "same_place ?f" by (simp add: same_place_def)
    show "entry_ok held st (?f e)" by (rule new)
  qed (simp_all add: e)
  ultimately show ?thesis using ok room lobby_okD(1) [OF ok] by (simp add: lobby_ok_def accounted_def)
qed

lemma accept_refresh_ok:
  assumes ok: "lobby_ok env (given_up (map_option ch_address selection) None @ held) st"
    and selection: "\<And>e. selection = Some e \<Longrightarrow> available \<and> ch_lobby e = lobby \<and>
      (\<exists>e' \<in> set (lb_cache st). ch_address e' = ch_address e \<and> ch_lobby e' = ch_lobby e \<and> ch_payload_charge e' = ch_payload_charge e)"
    and new: "available \<Longrightarrow> selection = None \<Longrightarrow> \<forall>e \<in> set (lb_cache st). (ch_lobby e, ch_key e) \<noteq> (lobby, key)"
    and key: "key = kKeyPrefix @ name"
    and room: "lb_used st + (refresh_charge env available selection key st +
      (if available \<and> lobby \<notin> fst ` set (lb_groups st) then group_size env else 0) + request_size env) \<le> kStorageBytes"
  shows "lobby_ok env held (snd (accept_refresh env owner lobby key version callback available selection st))"
proof -
  define first where "first = (case selection of
      Some entry \<Rightarrow> (Some (ch_address entry), charge_used env (size_minus env (lb_maximum_payload st) (ch_payload_charge entry))
        (set_cache (ch_address entry) (\<lambda>e. e\<lparr>ch_payload_charge := lb_maximum_payload st\<rparr>) st))
    | None \<Rightarrow> if available then (\<lambda>(a, st). (Some a, st)) (add_cache env lobby key st) else (None, st))"
  obtain address st1 where first': "first = (address, st1)" by (cases first)
  have step1: "lobby_ok env (given_up address None @ held) st1 \<and> lb_groups st1 = lb_groups st \<and>
    lb_used st1 = lb_used st + refresh_charge env available selection key st \<and> (available \<longleftrightarrow> address \<noteq> None) \<and>
    (\<forall>a. address = Some a \<longrightarrow> (\<exists>e \<in> set (lb_cache st1). ch_address e = a \<and> ch_lobby e = lobby \<and> ch_payload_charge e = lb_maximum_payload st1))"
  proof (cases selection)
    case (Some e)
    from selection [OF Some] obtain e' where e': "e' \<in> set (lb_cache st)" "ch_address e' = ch_address e" "ch_lobby e' = lobby"
      "ch_payload_charge e' = ch_payload_charge e" and available by auto
    let ?f = "\<lambda>x. x\<lparr>ch_payload_charge := lb_maximum_payload st\<rparr>"
    have le: "ch_payload_charge e \<le> lb_maximum_payload st" using entry_okD [OF ok e'(1)] e'(4) by (simp add: entry_ok_def)
    have small: "lb_maximum_payload st < 2 ^ 32"
    proof -
      have "lb_maximum_payload st \<le> lb_value_limit st" using lobby_okD(3) [OF ok] by (auto simp: limits_ok_def split: if_splits)
      moreover have "lb_value_limit st \<le> lb_used st" using lobby_okD(1) [OF ok] by (simp add: stored_def)
      ultimately show ?thesis using lobby_okD(2) [OF ok] budget_small by linarith
    qed
    have charge: "refresh_charge env available selection key st = lb_maximum_payload st - ch_payload_charge e"
      using Some \<open>available\<close> le small by (simp add: refresh_charge_def size_minus_exact)
    have minus: "size_minus env (lb_maximum_payload st) (ch_payload_charge e) = lb_maximum_payload st - ch_payload_charge e"
      using le small by (rule size_minus_exact)
    have fits: "lb_used st + (lb_maximum_payload st - ch_payload_charge e) \<le> kStorageBytes" using room charge by simp
    then have "lb_used st + (lb_maximum_payload st - ch_payload_charge e) < 2 ^ 32" using budget_small by linarith
    then have plus: "size_plus env (lb_used st) (lb_maximum_payload st - ch_payload_charge e) = lb_used st + (lb_maximum_payload st - ch_payload_charge e)"
      by (rule size_plus_exact)
    have st1: "address = Some (ch_address e)"
      "st1 = (set_cache (ch_address e) ?f st)\<lparr>lb_used := lb_used st + (lb_maximum_payload st - ch_payload_charge e)\<rparr>"
      using first' Some minus plus by (auto simp: first_def charge_used_def)
    have "lobby_ok env (given_up (map_option ch_address selection) None @ held) st1"
      using grow_ok [OF ok e'(1)] fits e'(2,4) st1(2) by simp
    moreover have "?f e' \<in> set (lb_cache st1)" using e'(1,2) by (auto simp: st1(2) set_cache_def)
    then have "\<exists>x \<in> set (lb_cache st1). ch_address x = ch_address e \<and> ch_lobby x = lobby \<and> ch_payload_charge x = lb_maximum_payload st"
      by (rule rev_bexI) (use e'(2,3) in simp)
    moreover have "lb_groups st1 = lb_groups st" "lb_maximum_payload st1 = lb_maximum_payload st"
      "lb_used st1 = lb_used st + refresh_charge env available selection key st"
      using charge by (simp_all add: st1(2) set_cache_def)
    ultimately show ?thesis using Some \<open>available\<close> st1(1) by simp
  next
    case None
    show ?thesis
    proof (cases available)
      case True
      have charge: "refresh_charge env available selection key st = cache_size env key (lb_maximum_payload st)"
        using None True by (simp add: refresh_charge_def)
      then have fits: "lb_used st + cache_size env key (lb_maximum_payload st) \<le> kStorageBytes" using room by simp
      then have "lb_used st + cache_size env key (lb_maximum_payload st) < 2 ^ 32" using budget_small by linarith
      then have plus: "size_plus env (lb_used st) (cache_size env key (lb_maximum_payload st)) = lb_used st + cache_size env key (lb_maximum_payload st)"
        by (rule size_plus_exact)
      have st1: "address = Some (lb_fresh st)" "st1 = snd (add_cache env lobby key st)"
        using first' None True by (auto simp: first_def add_cache_def)
      have "lobby_ok env (lb_fresh st # held) st1" unfolding st1(2)
        by (rule add_cache_ok) (use ok new [OF True None] key fits None in \<open>simp_all add: given_up_def\<close>)
      then show ?thesis using True charge plus by (simp add: st1 given_up_def add_cache_def charge_used_def)
    next
      case False
      then show ?thesis using ok None first' by (auto simp: first_def given_up_def refresh_charge_def)
    qed
  qed
  define st2 where "st2 = (if available \<and> lobby \<notin> fst ` set (lb_groups st1) then add_group env lobby st1 else st1)"
  have step2: "lobby_ok env (given_up address None @ held) st2 \<and> (available \<longrightarrow> lobby \<in> fst ` set (lb_groups st2)) \<and>
    lb_used st2 + request_size env \<le> kStorageBytes \<and> lb_cache st2 = lb_cache st1 \<and> lb_maximum_payload st2 = lb_maximum_payload st1"
  proof (cases "available \<and> lobby \<notin> fst ` set (lb_groups st1)")
    case True
    have fits: "lb_used st1 + group_size env + request_size env \<le> kStorageBytes" using room step1 True by (simp add: add.assoc)
    then have "lb_used st1 + group_size env < 2 ^ 32" using budget_small by linarith
    then have "lb_used st2 = lb_used st1 + group_size env"
      using True by (simp add: st2_def add_group_def charge_used_def size_plus_exact)
    moreover have "lobby_ok env (given_up address None @ held) st2 \<and> lobby \<in> fst ` set (lb_groups st2)"
      using add_group_ok [of env "given_up address None @ held" st1 lobby] step1 True fits by (simp add: st2_def)
    moreover have "lb_cache st2 = lb_cache st1" "lb_maximum_payload st2 = lb_maximum_payload st1"
      using True by (simp_all add: st2_def add_group_def charge_used_def)
    ultimately show ?thesis using fits by simp
  next
    case False
    then have "st2 = st1" unfolding st2_def by (rule if_not_P)
    moreover have "lb_used st1 + request_size env \<le> kStorageBytes" using room step1 by (simp split: if_splits)
    ultimately show ?thesis using step1 False by auto
  qed
  have "lobby_ok env held (snd (add_request env owner address lobby version callback available st2))"
  proof (rule add_request_ok)
    show "lobby_ok env (given_up address None @ held) st2" "available \<longrightarrow> lobby \<in> fst ` set (lb_groups st2)"
      "lb_used st2 + request_size env \<le> kStorageBytes" using step2 by blast+
    show "available \<longleftrightarrow> address \<noteq> None" using step1 by blast
    fix a
    assume "address = Some a"
    then show "\<exists>e \<in> set (lb_cache st2). ch_address e = a \<and> ch_lobby e = lobby \<and> ch_payload_charge e = lb_maximum_payload st2"
      using step1 step2 by simp
  qed
  moreover have "accept_refresh env owner lobby key version callback available selection st =
    add_request env owner address lobby version callback available st2"
    unfolding accept_refresh_def first_def [symmetric] first' Let_def st2_def by simp
  ultimately show ?thesis by simp
qed

lemma find_cache_SomeD: "find_cache lobby name st = Some e \<Longrightarrow> e \<in> set (lb_cache st) \<and> ch_lobby e = lobby \<and> public_name (ch_key e) = name"
  unfolding find_cache_def by (drule find_SomeD) simp

lemma start_refresh_ok:
  assumes ok: "lobby_ok env held st" and key: "key = kKeyPrefix @ name"
    and selection: "selection = (if available then find_cache lobby name st else None)"
  shows "lobby_ok env held (snd (start_refresh env owner lobby key version callback available selection st))"
proof -
  define charge where "charge = refresh_charge env available selection key st +
    (if available \<and> lobby \<notin> fst ` set (lb_groups st) then group_size env else 0) + request_size env"
  define held' where "held' = given_up (map_option ch_address selection) None @ held"
  have found: "available \<and> e \<in> set (lb_cache st) \<and> ch_lobby e = lobby" if "selection = Some e" for e
    using that selection find_cache_SomeD [of lobby name st e] by (auto split: if_splits)
  have held: "lobby_ok env held' (hold selection st)"
  proof (cases selection)
    case None
    then show ?thesis using ok by (simp add: held'_def hold_def given_up_def)
  next
    case (Some e)
    then show ?thesis using hold_ok [OF ok, of e] found [OF Some] by (simp add: held'_def hold_def given_up_def)
  qed
  obtain kept st1 where kept: "retain env charge (hold selection st) = (kept, st1)" by (cases "retain env charge (hold selection st)")
  from retain_ok [OF held kept] have ok1: "lobby_ok env held' st1" and room: "made_room (hold selection st) st1"
    and fits: "kept \<longrightarrow> lb_used st1 + charge \<le> kStorageBytes" by blast+
  have same: "lb_groups st1 = lb_groups st" "lb_maximum_payload st1 = lb_maximum_payload st"
    using made_room_fields [OF room] by (simp_all add: hold_def set_cache_def split: option.split)
  have stays: "e\<lparr>ch_readers := Suc (ch_readers e)\<rparr> \<in> set (lb_cache st1)" if e: "selection = Some e" for e
  proof -
    have "e\<lparr>ch_readers := Suc (ch_readers e)\<rparr> \<in> set (lb_cache (hold selection st))"
      using e found [OF e] by (auto simp: hold_def set_cache_def)
    then show ?thesis using room unfolding made_room_def by auto
  qed
  show ?thesis
  proof (cases kept)
    case True
    have "lobby_ok env held (snd (accept_refresh env owner lobby key version callback available selection st1))"
    proof (rule accept_refresh_ok [OF _ _ _ key])
      show "lobby_ok env (given_up (map_option ch_address selection) None @ held) st1" using ok1 by (simp add: held'_def)
      show "available \<and> ch_lobby e = lobby \<and> (\<exists>e' \<in> set (lb_cache st1). ch_address e' = ch_address e \<and> ch_lobby e' = ch_lobby e \<and>
        ch_payload_charge e' = ch_payload_charge e)" if "selection = Some e" for e
        using found [OF that] stays [OF that] by (auto intro!: bexI [OF _ stays [OF that]])
      show "\<forall>e \<in> set (lb_cache st1). (ch_lobby e, ch_key e) \<noteq> (lobby, key)" if "available" "selection = None"
      proof -
        have "find_cache lobby name st = None" using that selection by simp
        then have "\<forall>e \<in> set (lb_cache st). \<not> (ch_lobby e = lobby \<and> public_name (ch_key e) = name)"
          unfolding find_cache_def find_None_iff_all .
        moreover have "set (lb_cache st1) \<subseteq> set (lb_cache st)" using room that(2) by (simp add: made_room_def hold_def)
        ultimately show ?thesis using key by auto
      qed
      show "lb_used st1 + (refresh_charge env available selection key st1 +
        (if available \<and> lobby \<notin> fst ` set (lb_groups st1) then group_size env else 0) + request_size env) \<le> kStorageBytes"
        using fits True unfolding charge_def refresh_charge_def same by simp
    qed
    then show ?thesis using kept True by (simp add: start_refresh_def charge_def Let_def)
  next
    case False
    show ?thesis
    proof (cases selection)
      case None
      then have "held' = held" by (simp add: held'_def given_up_def)
      then show ?thesis using kept False None ok1 by (simp add: start_refresh_def charge_def Let_def)
    next
      case (Some e)
      have "lobby_ok env (ch_address e # held) st1" using ok1 Some by (simp add: held'_def given_up_def)
      from unhold_ok [OF this stays [OF Some]] kept False Some show ?thesis by (simp add: start_refresh_def charge_def Let_def)
    qed
  qed
qed

lemma refresh_ok: "lobby_ok env held st \<Longrightarrow> lobby_ok env held (snd (lobby_refresh env owner lobby name version callback st))"
  by (auto simp: lobby_refresh_def key_for_Some intro: start_refresh_ok [where name = name] split: option.split)

lemma cached_ok:
  assumes ok: "lobby_ok env held st" and found: "cached_begin lobby name version st = Some (address, record', st')"
  shows "lobby_ok env (address # held) st'"
proof -
  from found obtain e observation where e: "find_cache lobby name st = Some e" "ch_observation e = Some observation" "address = ch_address e" and
    st': "st' = (set_cache (ch_address e) (\<lambda>e. e\<lparr>ch_used := Suc (lb_cache_use st), ch_readers := Suc (ch_readers e)\<rparr>) st)
      \<lparr>lb_cache_use := Suc (lb_cache_use st)\<rparr>"
    by (auto simp: cached_begin_def split: option.splits)
  let ?f = "\<lambda>e. e\<lparr>ch_used := Suc (lb_cache_use st), ch_readers := Suc (ch_readers e)\<rparr>"
  have e': "e \<in> set (lb_cache st)" using find_cache_SomeD [OF e(1)] by blast
  have "lobby_ok env (ch_address e # held) (set_cache (ch_address e) ?f st)"
  proof (rule set_cache_ok [OF ok _ e' refl])
    show "entry_ok (ch_address e # held) st (?f e)" using entry_okD [OF ok e'] by (simp add: entry_ok_def refs_def observed_bytes_def)
  qed (simp_all add: same_place_def)
  then show ?thesis unfolding st' e(3)
    by (rule same_records_ok) (use lobby_okD(6) [OF ok] in \<open>simp_all add: same_records_def set_cache_def groups_ok_def\<close>)
qed

text \<open>A request that lets go of its entry: the release and the update touch different records.\<close>

lemma release_set_request:
  "set_request a g (release_selection env selection st) = release_selection env selection (set_request a g st)"
  by (simp add: set_request_def release_selection_def drop_reader_def release_used_def set_cache_def cache_at_def split: option.split)

lemma let_go_ok:
  assumes ok: "lobby_ok env held st" and r: "r \<in> set (lb_requests st)" and same: "\<And>q. rq_address (g q) = rq_address q"
    and none: "rq_cache (g r) = None" and new: "request_ok st (g r)"
  shows "lobby_ok env held (set_request (rq_address r) g (release_selection env (rq_cache r) st))"
proof -
  have moved: "lobby_ok env (given_up (rq_cache r) (rq_cache (g r)) @ held) (set_request (rq_address r) g st)"
    by (rule set_request_ok [OF ok r same new]) (simp add: none)
  show ?thesis
  proof (cases "rq_cache r")
    case None
    then show ?thesis using moved by (simp add: given_up_def release_selection_def)
  next
    case (Some a)
    then have "lobby_ok env (a # held) (set_request (rq_address r) g st)" using moved none by (simp add: given_up_def)
    from release_ok [OF this] show ?thesis unfolding release_set_request Some .
  qed
qed

lemma finish_ok:
  assumes ok: "lobby_ok env held st" and r: "r \<in> set (lb_requests st)" "rq_phase r = RequestPending"
  shows "lobby_ok env held (finish env failure r st)"
  unfolding finish_def
  by (rule let_go_ok [OF ok r(1)]) (use request_okD [OF ok r(1)] r(2) in \<open>simp_all add: request_ok_def\<close>)

lemma cancel_ok:
  assumes ok: "lobby_ok env held st"
  shows "lobby_ok env held (lobby_cancel env address st)"
proof (cases "request_at st address")
  case None
  then show ?thesis using ok by (simp add: lobby_cancel_def)
next
  case (Some r)
  then have r: "r \<in> set (lb_requests st)" "rq_address r = address" using request_at_iff [OF ok] by blast+
  let ?g = "\<lambda>q. q\<lparr>rq_cache := None, rq_callback := None, rq_phase := RequestDelivered\<rparr>"
  let ?st = "set_request address ?g (release_selection env (rq_cache r) st)"
  have free: "lobby_ok env held ?st"
    unfolding r(2) [symmetric] by (rule let_go_ok [OF ok r(1)]) (use request_okD [OF ok r(1)] in \<open>simp_all add: request_ok_def\<close>)
  have "?g r \<in> set (lb_requests ?st)" using r by (auto simp: set_request_def)
  from remove_request_ok [OF free this]
  have "lobby_ok env held ((release_used env (request_size env) ?st)
    \<lparr>lb_requests := filter (\<lambda>q. rq_address q \<noteq> address) (lb_requests ?st)\<rparr>)" using r(2) by simp
  moreover have "filter (\<lambda>q. rq_address q \<noteq> address) (at_address rq_address address ?g rs) = filter (\<lambda>q. rq_address q \<noteq> address) rs"
    for rs :: "LobbyRequest list"
    by (induction rs) auto
  ultimately show ?thesis using Some by (simp add: lobby_cancel_def set_request_def release_used_def Let_def)
qed

lemma run_calls_ok: "lobby_ok env held st \<Longrightarrow> lobby_ok env held (run_calls env call st)"
proof (induction call arbitrary: held st)
  case (Lobby_Register owner name version next')
  obtain result st' where item: "lobby_item env owner name version st = (result, st')" by (cases "lobby_item env owner name version st")
  have "lobby_ok env held (run_calls env (next' result) st')"
    by (rule Lobby_Register(1)) (use lobby_item_ok [OF Lobby_Register(2) item] in simp_all)
  then show ?case by (simp add: item)
next
  case (Lobby_Cached lobby name version callback next')
  have next': "lobby_ok env held (run_calls env (next' b) st')" if "lobby_ok env held st'" for b st'
    using Lobby_Cached(2) [of "next' b"] that by simp
  show ?case
  proof (cases callback)
    case None
    then show ?thesis using next' [OF Lobby_Cached(3)] by simp
  next
    case (Some f)
    show ?thesis
    proof (cases "cached_begin lobby name version st")
      case None
      then show ?thesis using next' [OF Lobby_Cached(3)] Some by simp
    next
      case found: (Some result)
      obtain address record' st' where result: "result = (address, record', st')" by (cases result)
      have "lobby_ok env (address # held) st'" using cached_ok [OF Lobby_Cached(3)] found result by blast
      then have "lobby_ok env (address # held) (run_calls env (f record') st')" using Lobby_Cached(1) Some by auto
      from next' [OF release_ok [OF this]] show ?thesis using Some found result by simp
    qed
  qed
next
  case (Lobby_Refresh owner lobby name version callback next')
  obtain result st' where refreshed: "lobby_refresh env owner lobby name version callback st = (result, st')"
    by (cases "lobby_refresh env owner lobby name version callback st")
  have "lobby_ok env held st'" using refresh_ok [OF Lobby_Refresh(3), of owner lobby name version callback] refreshed by simp
  then have "lobby_ok env held (run_calls env (next' result) st')" using Lobby_Refresh(2) [of "next' result"] by simp
  then show ?case by (simp add: refreshed)
next
  case (Lobby_Publish address bytes next')
  obtain problem st' where published: "lobby_publish env address bytes st = (problem, st')" by (cases "lobby_publish env address bytes st")
  have "lobby_ok env held st'"
  proof (cases "item_at st address")
    case None
    then show ?thesis using published Lobby_Publish(2) by (simp add: lobby_publish_def)
  next
    case (Some item)
    then have "item \<in> set (lb_items st)" using item_at_iff [OF Lobby_Publish(2)] by blast
    then show ?thesis using published Some publish_item_ok [OF Lobby_Publish(2)] by (simp add: lobby_publish_def)
  qed
  then have "lobby_ok env held (run_calls env (next' problem) st')" using Lobby_Publish(1) [of "next' problem"] by simp
  then show ?case by (simp add: published)
next
  case (Lobby_Clear address next')
  have "lobby_ok env held (lobby_clear env address st)"
  proof (cases "item_at st address")
    case None
    then show ?thesis using Lobby_Clear(2) by (simp add: lobby_clear_def)
  next
    case (Some item)
    then have "item \<in> set (lb_items st)" using item_at_iff [OF Lobby_Clear(2)] by blast
    then show ?thesis using Some clear_item_ok [OF Lobby_Clear(2)] by (simp add: lobby_clear_def)
  qed
  then show ?case using Lobby_Clear(1) by simp
next
  case (Lobby_Cancel address next')
  have "lobby_ok env held (run_calls env next' (lobby_cancel env address st))"
    by (rule Lobby_Cancel(1) [OF cancel_ok [OF Lobby_Cancel(2)]])
  then show ?case by simp
qed auto

end
