(* ===== verification/Lobby_System.thy ===== *)
theory Lobby_System
  imports Lobby_Invariant
begin

text \<open>
  The passes of the lobby service keep its invariant, and the service as a transition system: patch code between passes, a
  pass, completions from listener threads, delivery, the loss of a patch.
\<close>

section \<open>Native requests\<close>

lemma groups_set_group: "map fst (lb_groups (set_group lobby f st)) = map fst (lb_groups st)"
  by (simp add: set_group_def case_prod_beta comp_def)

lemma set_group_ok:
  assumes ok: "lobby_ok env held st" and f: "\<And>g. group_of st lobby = Some g \<Longrightarrow>
    (gr_completion (f g) \<noteq> None \<longrightarrow> gr_submitted (f g)) \<and> (gr_invalidated (f g) \<longrightarrow> gr_submitted (f g))"
  shows "lobby_ok env held (set_group lobby f st)"
proof (rule same_records_ok [OF ok])
  show "same_records st (set_group lobby f st)" using groups_set_group [of lobby f st] by (simp add: same_records_def set_group_def)
  have keys: "distinct (map fst (lb_groups st))" using lobby_okD(6) [OF ok] by (simp add: groups_ok_def)
  show "groups_ok (set_group lobby f st)"
    unfolding groups_ok_def groups_set_group
  proof (intro conjI ballI)
    fix x
    assume "x \<in> set (lb_groups (set_group lobby f st))"
    then obtain l g where lg: "(l, g) \<in> set (lb_groups st)" "x = (l, if l = lobby then f g else g)"
      by (auto simp: set_group_def)
    have "group_of st l = Some g" using lg(1) keys by (simp add: group_of_def)
    moreover have "(gr_completion g \<noteq> None \<longrightarrow> gr_submitted g) \<and> (gr_invalidated g \<longrightarrow> gr_submitted g)"
      using lobby_okD(6) [OF ok] lg(1) by (auto simp: groups_ok_def)
    ultimately show "case x of (l, g) \<Rightarrow> (gr_completion g \<noteq> None \<longrightarrow> gr_submitted g) \<and> (gr_invalidated g \<longrightarrow> gr_submitted g)"
      using f lg(2) by auto
  qed (rule keys)
qed

lemma group_okD:
  assumes "lobby_ok env held st" and "group_of st lobby = Some g"
  shows "(gr_completion g \<noteq> None \<longrightarrow> gr_submitted g) \<and> (gr_invalidated g \<longrightarrow> gr_submitted g)"
proof -
  have "(lobby, g) \<in> set (lb_groups st)" using assms(2) unfolding group_of_def by (rule map_of_SomeD)
  with lobby_okD(6) [OF assms(1)] show ?thesis unfolding groups_ok_def by blast
qed

lemma complete_ok:
  assumes ok: "lobby_ok env held st"
  shows "lobby_ok env held (snd (complete lobby success reason st))"
proof (cases "group_of st lobby")
  case None
  then show ?thesis using ok by (simp add: complete_def)
next
  case (Some g)
  show ?thesis
  proof (cases "gr_submitted g \<and> gr_completion g = None")
    case True
    then have "lobby_ok env held (set_group lobby (\<lambda>g. g\<lparr>gr_completion := Some success, gr_native_reason := reason\<rparr>) st)"
      using Some by (intro set_group_ok [OF ok]) auto
    then show ?thesis using Some True by (simp add: complete_def)
  next
    case False
    then have "complete lobby success reason st = (False, st)" using Some by (simp only: complete_def option.case if_False)
    then show ?thesis using ok by simp
  qed
qed

lemma world_ok: "lobby_ok env held st \<Longrightarrow> lobby_ok env held (st\<lparr>lb_world := w\<rparr>)"
  by (rule same_records_ok) (simp_all add: same_records_def groups_ok_def lobby_ok_def)

lemma log_ok:
  assumes ok: "lobby_ok env held st"
  shows "lobby_ok env held (write_log env' owner line st)"
proof -
  have "lobby_ok env held (st\<lparr>lb_log := entries\<rparr>)" for entries
    by (rule same_records_ok [OF ok]) (use lobby_okD(6) [OF ok] in \<open>simp_all add: same_records_def groups_ok_def\<close>)
  then show ?thesis using ok by (simp add: write_log_def)
qed

lemma read_failed_ok: "lobby_ok env held st \<Longrightarrow> lobby_ok env held (read_failed env' r operation error st)"
  by (simp add: read_failed_def log_ok)

lemma completions_ok:
  "lobby_ok env held st \<Longrightarrow> lobby_ok env held (foldl (\<lambda>st (lobby, success, reason). snd (complete lobby success reason st)) st completions)"
proof (induction completions arbitrary: st)
  case (Cons c completions)
  obtain lobby success reason where c: "c = (lobby, success, reason)" by (cases c)
  show ?case using Cons.IH [OF complete_ok [OF Cons.prems, of lobby success reason]] by (simp add: c)
qed simp

lemma arrive_ok: "lobby_ok env held st \<Longrightarrow> lobby_ok env held (arrive env' st)"
  by (simp add: arrive_def completions_ok world_ok split: prod.split)

lemma each_request_inv:
  assumes start: "I st" and I: "\<And>st. I st \<Longrightarrow> lobby_ok env held st"
    and step: "\<And>st r. I st \<Longrightarrow> r \<in> set (lb_requests st) \<Longrightarrow> P r \<Longrightarrow> I (step r st)"
  shows "I (each_request P step st)"
proof -
  have "I (foldl (\<lambda>st address. case request_at st address of None \<Rightarrow> st | Some r \<Rightarrow> if P r then step r st else st) st addresses)"
    for addresses using start
  proof (induction addresses arbitrary: st)
    case (Cons a addresses)
    have "I (case request_at st a of None \<Rightarrow> st | Some r \<Rightarrow> if P r then step r st else st)"
      using Cons.prems step request_at_iff [OF I [OF Cons.prems], of a] by (auto split: option.split)
    from Cons.IH [OF this] show ?case by simp
  qed simp
  then show ?thesis by (simp add: each_request_def)
qed

lemma each_request_ok:
  assumes "lobby_ok env held st"
    and "\<And>st r. lobby_ok env held st \<Longrightarrow> r \<in> set (lb_requests st) \<Longrightarrow> P r \<Longrightarrow> lobby_ok env held (step r st)"
  shows "lobby_ok env held (each_request P step st)"
  by (rule each_request_inv [where I = "lobby_ok env held"]) (use assms in auto)

lemma each_item_ok:
  assumes ok: "lobby_ok env held st"
    and step: "\<And>st item. lobby_ok env held st \<Longrightarrow> item \<in> set (lb_items st) \<Longrightarrow> lobby_ok env held (step item st)"
  shows "lobby_ok env held (each_item step st)"
proof -
  have "lobby_ok env held (foldl (\<lambda>st address. case item_at st address of None \<Rightarrow> st | Some item \<Rightarrow> step item st) st addresses)"
    for addresses using ok
  proof (induction addresses arbitrary: st)
    case (Cons a addresses)
    have "lobby_ok env held (case item_at st a of None \<Rightarrow> st | Some item \<Rightarrow> step item st)"
      using Cons.prems step item_at_iff [OF Cons.prems, of a] by (auto split: option.split)
    from Cons.IH [OF this] show ?case by simp
  qed simp
  then show ?thesis by (simp add: each_item_def)
qed

lemma invalidate_ok:
  assumes ok: "lobby_ok env held st"
  shows "lobby_ok env held (invalidate env st)"
proof -
  let ?st = "each_request (\<lambda>r. rq_phase r = RequestPending) (finish env LobbyUnavailable) st"
  have ok': "lobby_ok env held ?st" by (rule each_request_ok [OF ok finish_ok])
  let ?mark = "\<lambda>(l :: u64, g). (l, if gr_submitted g then g\<lparr>gr_invalidated := True\<rparr> else g)"
  have keys: "map fst (map ?mark gs) = map fst gs" for gs by (simp add: case_prod_beta comp_def)
  then have "same_records ?st (?st\<lparr>lb_groups := map ?mark (lb_groups ?st)\<rparr>)" by (simp add: same_records_def)
  moreover have "groups_ok (?st\<lparr>lb_groups := map ?mark (lb_groups ?st)\<rparr>)"
  proof -
    have old: "groups_ok ?st" by (rule lobby_okD(6) [OF ok'])
    have "case x of (l, g) \<Rightarrow> (gr_completion g \<noteq> None \<longrightarrow> gr_submitted g) \<and> (gr_invalidated g \<longrightarrow> gr_submitted g)"
      if "x \<in> set (map ?mark (lb_groups ?st))" for x
    proof -
      from that obtain l g where lg: "(l, g) \<in> set (lb_groups ?st)" "x = ?mark (l, g)" by auto
      then have "gr_completion g \<noteq> None \<longrightarrow> gr_submitted g" "gr_invalidated g \<longrightarrow> gr_submitted g" using old unfolding groups_ok_def by auto
      then show ?thesis using lg(2) by auto
    qed
    moreover have "distinct (map fst (map ?mark (lb_groups ?st)))" unfolding keys using old by (simp add: groups_ok_def)
    moreover have "lb_groups (s\<lparr>lb_groups := xs\<rparr>) = xs" for s :: "'a LobbyService" and xs by simp
    ultimately show ?thesis unfolding groups_ok_def by (simp only:) blast
  qed
  ultimately show ?thesis using same_records_ok [OF ok'] by (simp add: invalidate_def Let_def)
qed

section \<open>Reading\<close>

lemma refuse_entry_ok:
  assumes ok: "lobby_ok env held st"
  shows "lobby_ok env held (refuse_entry env address error st)"
proof -
  let ?st = "case List.find (pending_on address) (lb_requests st) of None \<Rightarrow> st | Some r \<Rightarrow> read_failed env r ''native read'' error st"
  have "lobby_ok env held ?st" using ok by (auto simp: read_failed_ok split: option.split)
  then show ?thesis unfolding refuse_entry_def Let_def
    by (rule each_request_ok) (auto simp: pending_on_def intro: finish_ok)
qed

lemma cache_request_ready:
  assumes ok: "lobby_ok env held st" and r: "r \<in> set (lb_requests st)" "rq_cache r = Some a" "rq_phase r = RequestPending"
    and e: "e \<in> set (lb_cache st)" "ch_address e = a" "ch_observation e \<noteq> None"
  shows "lobby_ok env held (set_request (rq_address r) (\<lambda>r. r\<lparr>rq_phase := RequestReady\<rparr>) st)"
proof -
  let ?g = "\<lambda>r. r\<lparr>rq_phase := RequestReady\<rparr>"
  have old: "request_ok st r" by (rule request_okD [OF ok r(1)])
  then obtain x where x: "x \<in> set (lb_cache st)" "ch_address x = a" "ch_lobby x = rq_lobby r" using r(2) unfolding request_ok_def by blast
  have "x = e" using distinct_map_eq [OF lobby_okD(7) [OF ok] x(1) e(1)] x(2) e(2) by simp
  then have "\<exists>y \<in> set (lb_cache st). ch_address y = a \<and> ch_lobby y = rq_lobby r \<and> ch_observation y \<noteq> None" using x e(3) by blast
  then have "request_ok st (?g r)" using old r(2,3) unfolding request_ok_def by simp
  from set_request_ok [where g = ?g, OF ok r(1) _ this] r(2) show ?thesis by (simp add: given_up_def)
qed

lemma observe_entry_ok:
  assumes ok: "lobby_ok env held st" and e: "e \<in> set (lb_cache st)" "ch_address e = a"
    and reserved: "ch_payload_charge e = lb_maximum_payload st"
  shows "lobby_ok env held (observe_entry now a value' st)"
proof -
  define d where "d = decode value' (lb_value_limit st)"
  define observation where "observation = \<lparr>ob_result = de_result d, ob_version = de_version d, ob_value = de_value d,
    ob_capacity = de_capacity d, ob_observed = now\<rparr>"
  let ?f = "\<lambda>e. e\<lparr>ch_observation := Some observation, ch_used := Suc (lb_cache_use st)\<rparr>"
  let ?st = "(set_cache a ?f st)\<lparr>lb_cache_use := Suc (lb_cache_use st)\<rparr>"
  have "de_capacity d \<le> lb_maximum_payload st"
  proof (cases "lb_value_limit st \<ge> 6")
    case True
    then show ?thesis using decode_capacity [of value' "lb_value_limit st"] lobby_okD(3) [OF ok] by (simp add: d_def limits_ok_def)
  next
    case False
    then show ?thesis using decode_capacity [of value' "lb_value_limit st"] by (simp add: d_def)
  qed
  then have new: "entry_ok held st (?f e)"
    using entry_okD [OF ok e(1)] reserved by (simp add: entry_ok_def observed_bytes_def observation_def)
  have "lobby_ok env held (set_cache a ?f st)"
  proof (rule set_cache_ok [OF ok, where e = e])
    show "same_place ?f" by (simp add: same_place_def)
    show "entry_ok held st (?f e)" by (rule new)
  qed (simp_all add: e)
  then have ok': "lobby_ok env held ?st"
    by (rule same_records_ok) (use lobby_okD(6) [OF ok] in \<open>simp_all add: same_records_def set_cache_def groups_ok_def\<close>)
  define observed where "observed st = (lobby_ok env held st \<and> (\<exists>e \<in> set (lb_cache st). ch_address e = a \<and> ch_observation e \<noteq> None))"
    for st :: "'a LobbyService"
  have "?f e \<in> set (lb_cache ?st)" using e by (auto simp: set_cache_def)
  then have "\<exists>x \<in> set (lb_cache ?st). ch_address x = a \<and> ch_observation x \<noteq> None" by (rule rev_bexI) (simp add: e)
  then have start: "observed ?st" using ok' unfolding observed_def by blast
  have "observed (each_request (pending_on a) (\<lambda>r. set_request (rq_address r) (\<lambda>r. r\<lparr>rq_phase := RequestReady\<rparr>)) ?st)"
  proof (rule each_request_inv [where I = observed and env = env and held = held, OF start])
    fix st r
    assume st: "observed st" "r \<in> set (lb_requests st)" "pending_on a r"
    then obtain e where e: "e \<in> set (lb_cache st)" "ch_address e = a" "ch_observation e \<noteq> None" by (auto simp: observed_def)
    have "lobby_ok env held (set_request (rq_address r) (\<lambda>r. r\<lparr>rq_phase := RequestReady\<rparr>) st)"
      by (rule cache_request_ready [OF _ st(2) _ _ e]) (use st in \<open>simp_all add: observed_def pending_on_def\<close>)
    moreover have "lb_cache (set_request (rq_address r) (\<lambda>r. r\<lparr>rq_phase := RequestReady\<rparr>) st) = lb_cache st" by (simp add: set_request_def)
    ultimately show "observed (set_request (rq_address r) (\<lambda>r. r\<lparr>rq_phase := RequestReady\<rparr>) st)" using e by (auto simp: observed_def)
  qed (simp add: observed_def)
  then have "lobby_ok env held (each_request (pending_on a) (\<lambda>r. set_request (rq_address r) (\<lambda>r. r\<lparr>rq_phase := RequestReady\<rparr>)) ?st)"
    by (simp add: observed_def)
  then show ?thesis by (simp add: observe_entry_def d_def observation_def Let_def)
qed

text \<open>A pass runs when no callback does, so an entry with readers is reserved for a whole payload.\<close>

lemma read_entry_ok:
  assumes ok: "lobby_ok env [] st"
  shows "lobby_ok env [] (read_entry env now lobby st a)"
proof (cases "cache_at st a")
  case None
  then show ?thesis using ok by (simp add: read_entry_def)
next
  case (Some e)
  then have e: "e \<in> set (lb_cache st)" "ch_address e = a" using cache_at_iff [OF ok] by blast+
  show ?thesis
  proof (cases "bk_read (lb_backend st)")
    case None
    then show ?thesis using ok by (simp add: read_entry_def split: option.split)
  next
    case read: (Some read)
    show ?thesis
    proof (cases "ch_lobby e \<noteq> lobby \<or> ch_readers e = 0 \<or> waiting_delivery a st")
      case True
      then show ?thesis using ok Some read by (simp add: read_entry_def)
    next
      case False
      have "entry_ok [] st e" by (rule entry_okD [OF ok e(1)])
      moreover have "refs [] st a \<noteq> 0" using False e(2) calculation by (simp add: entry_ok_def)
      then have "\<exists>r \<in> set (lb_requests st). rq_cache r = Some a" by (simp add: refs_zero)
      ultimately have reserved: "ch_payload_charge e = lb_maximum_payload st" using e(2) unfolding entry_ok_def by blast
      obtain outcome w where outcome: "read (lb_world st) lobby (ch_key e) = (outcome, w)" by (cases "read (lb_world st) lobby (ch_key e)")
      have "lobby_ok env [] (refuse_entry env a error (st\<lparr>lb_world := w\<rparr>))" for error by (rule refuse_entry_ok [OF world_ok [OF ok]])
      moreover have "lobby_ok env [] (observe_entry now a value' (st\<lparr>lb_world := w\<rparr>))" for value'
        by (rule observe_entry_ok [OF world_ok [OF ok], where e = e]) (simp_all add: e reserved)
      ultimately show ?thesis using Some read False outcome by (simp add: read_entry_def split: sum.split)
    qed
  qed
qed

lemma foldl_ok: "I st \<Longrightarrow> (\<And>st x. I st \<Longrightarrow> I (f st x)) \<Longrightarrow> I (foldl f st xs)"
  by (induction xs arbitrary: st) auto

section \<open>A pass\<close>

lemma submit_group_ok:
  assumes ok: "lobby_ok env held st"
  shows "lobby_ok env held (submit_group env lobby st)"
proof -
  let ?marked = "set_group lobby (\<lambda>g. g\<lparr>gr_submitted := True\<rparr>) st"
  have marked: "lobby_ok env held ?marked" by (rule set_group_ok [OF ok]) simp
  show ?thesis
  proof (cases "bk_request (lb_backend ?marked)")
    case None
    then show ?thesis using marked by (simp add: submit_group_def)
  next
    case (Some request)
    obtain problem w where answer: "request (lb_world ?marked) lobby = (problem, w)" by (cases "request (lb_world ?marked) lobby")
    let ?arrived = "arrive env (?marked\<lparr>lb_world := w\<rparr>)"
    have arrived: "lobby_ok env held ?arrived" by (rule arrive_ok [OF world_ok [OF marked]])
    show ?thesis
    proof (cases problem)
      case None
      then show ?thesis using arrived Some answer by (simp add: submit_group_def Let_def)
    next
      case problem: (Some error)
      let ?logged = "case List.find (pending_in lobby) (lb_requests ?arrived) of None \<Rightarrow> ?arrived
        | Some r \<Rightarrow> read_failed env r ''native request'' error ?arrived"
      have "lobby_ok env held ?logged" using arrived by (simp add: read_failed_ok split: option.split)
      from complete_ok [OF this] show ?thesis using Some answer problem by (simp add: submit_group_def Let_def)
    qed
  qed
qed

lemma fail_group_ok:
  assumes ok: "lobby_ok env held st"
  shows "lobby_ok env held (fail_group env lobby reason st)"
  unfolding fail_group_def Let_def
proof (rule each_request_ok)
  show "lobby_ok env held (case (reason, List.find (pending_in lobby) (lb_requests st)) of
      (Some reason, Some r) \<Rightarrow> write_log env (rq_owner r)
        (''Lobby '' @ decimal (unat (rq_lobby r)) @ '' key '' @ quoted (request_key st r) @
          '': Galaxy could not complete the native read request (reason code '' @ decimal (unat reason) @
          ''); pending reads receive Failed'') st
    | _ \<Rightarrow> st)" using ok by (auto simp: log_ok split: option.split)
qed (auto simp: pending_in_def intro: finish_ok)

text \<open>Apart from the group that a pass retires, the groups stay.\<close>

definition group_keys :: "'w LobbyService \<Rightarrow> u64 list" where
  "group_keys st = map fst (lb_groups st)"

lemma group_keys_basic [simp]:
  "group_keys (set_request a g st) = group_keys st" "group_keys (set_cache a f st) = group_keys st"
  "group_keys (st\<lparr>lb_used := n\<rparr>) = group_keys st" "group_keys (st\<lparr>lb_world := w\<rparr>) = group_keys st"
  "group_keys (st\<lparr>lb_cache_use := n\<rparr>) = group_keys st" "group_keys (set_group lobby h st) = group_keys st"
  "group_keys (write_log env owner line st) = group_keys st" "group_keys (release_used env n st) = group_keys st"
  using groups_set_group [of lobby h st]
  by (simp_all add: group_keys_def set_request_def set_cache_def write_log_def release_used_def)

lemma group_keys_release [simp]: "group_keys (release_selection env selection st) = group_keys st"
  by (simp add: release_selection_def drop_reader_def split: option.split)

lemma group_keys_finish [simp]: "group_keys (finish env failure r st) = group_keys st"
  by (simp add: finish_def)

lemma group_keys_read_failed [simp]: "group_keys (read_failed env r operation error st) = group_keys st"
  by (simp add: read_failed_def)

lemma group_keys_complete [simp]: "group_keys (snd (complete lobby success reason st)) = group_keys st"
  by (simp add: complete_def split: option.split)

lemma group_keys_arrive [simp]: "group_keys (arrive env st) = group_keys st"
proof -
  have "group_keys (foldl (\<lambda>st (lobby, success, reason). snd (complete lobby success reason st)) st cs) = group_keys st"
    for cs and st :: "'a LobbyService"
    by (induction cs arbitrary: st) (auto simp: case_prod_beta)
  then show ?thesis by (simp add: arrive_def split: prod.split)
qed

lemma group_keys_each_request:
  assumes "\<And>st r. group_keys (step r st) = group_keys st"
  shows "group_keys (each_request P step st) = group_keys st"
proof -
  have "group_keys (foldl (\<lambda>st address. case request_at st address of None \<Rightarrow> st | Some r \<Rightarrow> if P r then step r st else st) st as) = group_keys st"
    for as by (induction as arbitrary: st) (auto simp: assms split: option.split)
  then show ?thesis by (simp add: each_request_def)
qed

lemma group_keys_read_entry [simp]: "group_keys (read_entry env now lobby st a) = group_keys st"
  by (simp add: read_entry_def refuse_entry_def observe_entry_def Let_def group_keys_each_request split: option.split sum.split prod.split)

lemma group_keys_submit [simp]: "group_keys (submit_group env lobby st) = group_keys st"
  by (simp add: submit_group_def Let_def split: option.split prod.split)

lemma group_keys_fail [simp]: "group_keys (fail_group env lobby reason st) = group_keys st"
  by (simp add: fail_group_def Let_def group_keys_each_request split: option.split)

lemma retire_group_ok:
  assumes ok: "lobby_ok env held st" and known: "lobby \<in> set (group_keys st)"
  shows "lobby_ok env held (if \<not> awaiting lobby st \<and> c
    then (release_used env (group_size env) st)\<lparr>lb_groups := filter (\<lambda>(l, _). l \<noteq> lobby) (lb_groups st)\<rparr> else st)"
  using ok known remove_group_ok [OF ok, of lobby] by (simp add: group_keys_def)

lemma pump_group_ok:
  assumes ok: "lobby_ok env [] st"
  shows "lobby_ok env [] (pump_group env now available st lobby)"
proof -
  let ?arrived = "arrive env st"
  have arrived: "lobby_ok env [] ?arrived" by (rule arrive_ok [OF ok])
  show ?thesis
  proof (cases "group_of ?arrived lobby")
    case None
    then show ?thesis using arrived by (simp add: pump_group_def Let_def)
  next
    case (Some g)
    have known: "lobby \<in> set (group_keys ?arrived)"
      using Some map_of_SomeD [of "lb_groups ?arrived" lobby g] by (force simp: group_keys_def group_of_def)
    define consumed where "consumed \<longleftrightarrow> gr_completion g \<noteq> None \<and> gr_invalidated g"
    define st1 where "st1 = (if consumed then set_group lobby (\<lambda>_. new_group) ?arrived else ?arrived)"
    define submitted where "submitted \<longleftrightarrow> gr_submitted g \<and> \<not> consumed"
    define completion where "completion = (if consumed then None else gr_completion g)"
    define submitting where "submitting \<longleftrightarrow> available \<and> \<not> submitted \<and> awaiting lobby st1"
    define st2 where "st2 = (if submitting then submit_group env lobby st1
      else case completion of
        None \<Rightarrow> st1
      | Some False \<Rightarrow> fail_group env lobby (gr_native_reason g) st1
      | Some True \<Rightarrow> foldl (read_entry env now lobby) st1 (map ch_address (lb_cache st1)))"
    have "lobby_ok env [] (set_group lobby (\<lambda>_. new_group) ?arrived)" by (rule set_group_ok [OF arrived]) (simp add: new_group_def)
    then have st1: "lobby_ok env [] st1" "lobby \<in> set (group_keys st1)" using arrived known by (simp_all add: st1_def)
    have reads: "lobby_ok env [] (foldl (read_entry env now lobby) st1 as) \<and> group_keys (foldl (read_entry env now lobby) st1 as) = group_keys st1" for as
      by (rule foldl_ok [where I = "\<lambda>st. lobby_ok env [] st \<and> group_keys st = group_keys st1"]) (use st1 read_entry_ok in auto)
    have st2: "lobby_ok env [] st2" "lobby \<in> set (group_keys st2)"
      using st1 reads submit_group_ok [OF st1(1)] fail_group_ok [OF st1(1)] by (simp_all add: st2_def split: option.split bool.split)
    from retire_group_ok [OF st2, of "\<not> (submitted \<or> submitting) \<or> completion \<noteq> None"]
    show ?thesis
      unfolding pump_group_def Let_def Some option.case st2_def st1_def submitting_def submitted_def completion_def consumed_def .
  qed
qed

lemma publication_failed_ok:
  assumes ok: "lobby_ok env held st" and item: "item \<in> set (lb_items st)"
  shows "lobby_ok env held (publication_failed env item error st)"
proof -
  let ?f = "\<lambda>i. i\<lparr>li_failure := Some (en_diagnostic_text env error)\<rparr>"
  have "lobby_ok env held ((set_item (li_address item) ?f st)\<lparr>lb_used := lb_used st\<rparr>)"
  proof (rule set_item_ok [OF ok item])
    show "item_ok st (?f item)" using item_okD [OF ok item] by (simp add: item_ok_def)
  qed (use lobby_okD(2) [OF ok] in \<open>simp_all add: item_total_def\<close>)
  then have "lobby_ok env held (set_item (li_address item) ?f st)" by (simp add: set_item_def)
  then show ?thesis by (simp add: publication_failed_def Let_def log_ok)
qed

text \<open>A change of an item that keeps its charge.\<close>

lemma mark_item_ok:
  assumes ok: "lobby_ok env held st" and item: "item \<in> set (lb_items st)"
    and f: "\<And>i. li_address (f i) = li_address i \<and> li_key (f i) = li_key i \<and> li_desired (f i) = li_desired i \<and>
      li_written (f i) = li_written i \<and> li_written_charge (f i) = li_written_charge i"
  shows "lobby_ok env held (set_item (li_address item) f st)"
proof -
  have "lobby_ok env held ((set_item (li_address item) f st)\<lparr>lb_used := lb_used st\<rparr>)"
  proof (rule set_item_ok [OF ok item])
    show "item_ok st (f item)" using item_okD [OF ok item] f by (simp add: item_ok_def)
  qed (use lobby_okD(2) [OF ok] f in \<open>simp_all add: item_total_def\<close>)
  then show ?thesis by (simp add: set_item_def)
qed

lemma write_item_ok:
  assumes ok: "lobby_ok env held st" and item: "item \<in> set (lb_items st)"
  shows "lobby_ok env held (write_item now env owned item st)"
proof (cases "bk_write (lb_backend st)")
  case None
  then show ?thesis using ok by (simp add: write_item_def)
next
  case (Some write')
  let ?a = "\<lambda>i. i\<lparr>li_attempted := Some now\<rparr>"
  let ?st = "set_item (li_address item) ?a st"
  obtain problem w where answer: "write' (lb_world ?st) owned (li_key item) (li_desired item) = (problem, w)"
    by (cases "write' (lb_world ?st) owned (li_key item) (li_desired item)")
  have marked: "lobby_ok env held ?st" by (rule mark_item_ok [OF ok item]) simp
  then have marked': "lobby_ok env held (?st\<lparr>lb_world := w\<rparr>)" by (rule world_ok)
  have item': "?a item \<in> set (lb_items (?st\<lparr>lb_world := w\<rparr>))" using item by (auto simp: set_item_def)
  show ?thesis
  proof (cases problem)
    case (Some error)
    have "publication_failed env item error s = publication_failed env (?a item) error s" for s
      by (simp add: publication_failed_def cong: if_cong)
    then have "lobby_ok env held (publication_failed env item error (?st\<lparr>lb_world := w\<rparr>))"
      using publication_failed_ok [OF marked' item'] by metis
    then show ?thesis using \<open>bk_write (lb_backend st) = Some write'\<close> answer Some by (simp add: write_item_def)
  next
    case None
    let ?n = "optional_size (li_desired item)"
    let ?f = "\<lambda>i. i\<lparr>li_written_charge := ?n, li_written := li_desired i, li_written_lobby := owned, li_withdraw := False, li_failure := None\<rparr>"
    have i: "item_ok st item" by (rule item_okD [OF ok item])
    have charge: "size_minus env (li_written_charge item) ?n = li_written_charge item - ?n"
      using i charge_small [OF ok item] by (simp add: item_ok_def size_minus_exact)
    have "lobby_ok env held (set_item (li_address (?a item)) ?f (release_used env (li_written_charge item - ?n) (?st\<lparr>lb_world := w\<rparr>)))"
    proof (rule shrink_item_ok [OF marked' item'])
      show "item_ok (?st\<lparr>lb_world := w\<rparr>) (?f (?a item))" using i by (simp add: item_ok_def set_item_def)
      show "item_total env (?f (?a item)) + (li_written_charge item - ?n) = item_total env (?a item)"
        using i by (simp add: item_total_def item_ok_def)
    qed simp
    then show ?thesis using Some answer None by (simp add: write_item_def Let_def charge)
  qed
qed

lemma pump_item_ok:
  assumes ok: "lobby_ok env held st" and item: "item \<in> set (lb_items st)"
  shows "lobby_ok env held (pump_item now env owned item st)"
proof (cases "en_state env (li_owner item) = PInstalled")
  case False
  then show ?thesis using ok by (simp add: pump_item_def)
next
  case True
  let ?st = "if li_written_lobby item \<noteq> owned then forget_written env item st else st"
  have ok': "lobby_ok env held ?st" using ok forget_written_ok [OF ok item] by simp
  show ?thesis
  proof (cases "item_at ?st (li_address item)")
    case None
    then show ?thesis using True ok' by (simp add: pump_item_def Let_def)
  next
    case (Some i)
    then have i: "i \<in> set (lb_items ?st)" using item_at_iff [OF ok'] by blast
    have "lobby_ok env held (set_item (li_address i) (\<lambda>i. i\<lparr>li_withdraw := False\<rparr>) ?st)" by (rule mark_item_ok [OF ok' i]) simp
    moreover have "lobby_ok env held (write_item now env owned i ?st)" by (rule write_item_ok [OF ok' i])
    ultimately show ?thesis using True Some ok' unfolding pump_item_def Let_def by simp
  qed
qed

lemma pump_ok:
  assumes ok: "lobby_ok env [] st"
  shows "lobby_ok env [] (pump env now st)"
proof -
  define available where "available \<longleftrightarrow> ns_available (native_state st) \<and> bk_request (lb_backend st) \<noteq> None \<and>
    bk_read (lb_backend st) \<noteq> None \<and> bk_write (lb_backend st) \<noteq> None"
  define st1 where "st1 = (if available then st else invalidate env st)"
  define st2 where "st2 = foldl (pump_group env now available) st1 (map fst (lb_groups st1))"
  have st1: "lobby_ok env [] st1" using ok invalidate_ok [OF ok] by (simp add: st1_def)
  have st2: "lobby_ok env [] st2" unfolding st2_def by (rule foldl_ok [where I = "lobby_ok env []", OF st1]) (rule pump_group_ok)
  have "lobby_ok env [] (each_item (forget_written env) st2)" by (rule each_item_ok [OF st2 forget_written_ok])
  moreover have "lobby_ok env [] (each_item (pump_item now env owned) st2)" for owned by (rule each_item_ok [OF st2 pump_item_ok])
  ultimately show ?thesis
    unfolding pump_def Let_def available_def [symmetric] st1_def [symmetric] st2_def [symmetric] by simp
qed

section \<open>Delivery\<close>

lemma mark_ready_ok:
  assumes ok: "lobby_ok env held st"
  shows "lobby_ok env held (mark_ready env st)"
proof -
  define g where "g r = (if rq_phase r = RequestReady \<and> en_state env (rq_owner r) = PInstalled then r\<lparr>rq_phase := RequestDelivering\<rparr> else r)"
    for r :: LobbyRequest
  have st: "mark_ready env st = st\<lparr>lb_requests := map g (lb_requests st)\<rparr>" by (simp add: mark_ready_def g_def)
  have g: "rq_cache (g r) = rq_cache r" "rq_address (g r) = rq_address r" for r by (simp_all add: g_def)
  have refs: "refs held (mark_ready env st) a = refs held st a" for a by (simp add: refs_def st filter_map comp_def g)
  have "request_ok (mark_ready env st) (g r)" if "r \<in> set (lb_requests st)" for r
    using request_okD [OF ok that] unfolding request_ok_def st by (auto simp: g_def)
  moreover have "entry_ok held (mark_ready env st) e" if "e \<in> set (lb_cache st)" for e
    using entry_okD [OF ok that] refs unfolding entry_ok_def by (simp add: st g)
  ultimately have "reads_ok held (mark_ready env st)"
    using lobby_okD(5) [OF ok] unfolding reads_ok_def by (simp add: st comp_def g)
  moreover have "stored env (mark_ready env st) = stored env st" by (simp add: stored_def st)
  ultimately show ?thesis
    using ok by (simp add: lobby_ok_def accounted_def limits_ok_def items_ok_def item_ok_def groups_ok_def st)
qed

lemma begin_delivery_ok:
  assumes ok: "lobby_ok env held st" and r: "r \<in> set (lb_requests st)"
  shows "lobby_ok env (given_up (rq_cache r) None @ held) (begin_delivery env r st)"
proof -
  let ?g = "\<lambda>r. r\<lparr>rq_phase := RequestDelivered, rq_callback := None, rq_cache := None\<rparr>"
  let ?hold = "case rq_cache r of None \<Rightarrow> st | Some address \<Rightarrow> set_cache address (\<lambda>e. e\<lparr>ch_readers := Suc (ch_readers e)\<rparr>) st"
  have held: "lobby_ok env (given_up (rq_cache r) None @ held) ?hold"
  proof (cases "rq_cache r")
    case None
    then show ?thesis using ok by (simp add: given_up_def)
  next
    case (Some a)
    then obtain e where e: "e \<in> set (lb_cache st)" "ch_address e = a" using request_okD [OF ok r] unfolding request_ok_def by blast
    then show ?thesis using hold_ok [OF ok e(1)] Some by (simp add: given_up_def)
  qed
  have r': "r \<in> set (lb_requests ?hold)" using r by (simp split: option.split)
  have "lobby_ok env (given_up (rq_cache r) None @ held) (set_request (rq_address r) ?g (release_selection env (rq_cache r) ?hold))"
    by (rule let_go_ok [OF held r']) (use request_okD [OF held r'] in \<open>simp_all add: request_ok_def\<close>)
  then show ?thesis unfolding release_set_request by (simp add: begin_delivery_def)
qed

lemma deliver_request_ok:
  assumes ok: "lobby_ok env held st" and r: "r \<in> set (lb_requests st)"
  shows "lobby_ok env held (deliver_request env r st)"
proof -
  let ?call = "\<lambda>st'. case rq_callback r of None \<Rightarrow> st' | Some callback \<Rightarrow> run_calls env (callback (delivered_record r st)) st'"
  have called: "lobby_ok env (given_up (rq_cache r) None @ held) (?call (begin_delivery env r st))"
    using begin_delivery_ok [OF ok r] run_calls_ok by (auto split: option.split)
  show ?thesis
  proof (cases "rq_cache r")
    case None
    then show ?thesis using called by (simp add: deliver_request_def Let_def given_up_def release_selection_def)
  next
    case (Some a)
    then have "lobby_ok env (a # held) (?call (begin_delivery env r st))" using called by (simp add: given_up_def)
    from release_ok [OF this] show ?thesis by (simp add: deliver_request_def Let_def Some)
  qed
qed

lemma deliver_ok:
  assumes "lobby_ok env held st"
  shows "lobby_ok env held (deliver env st)"
proof -
  have "lobby_ok env held st \<Longrightarrow> lobby_ok env held (deliver_due env st)" for st
  proof (induction env st rule: deliver_due.induct)
    case (1 env st)
    show ?case
    proof (cases "delivering st")
      case None
      then show ?thesis using 1(2) by (simp add: deliver_due.simps)
    next
      case (Some r)
      then have "r \<in> set (lb_requests st)" unfolding delivering_def by (auto dest: find_SomeD)
      from 1(1) [OF Some deliver_request_ok [OF 1(2) this]] show ?thesis using Some by (simp add: deliver_due.simps [of env st])
    qed
  qed
  then show ?thesis using mark_ready_ok [OF assms] by (simp add: deliver_def)
qed

section \<open>A failed patch\<close>

lemma discard_item_ok:
  assumes ok: "lobby_ok env held st" and item: "item \<in> set (lb_items st)"
  shows "lobby_ok env held (discard_item env owner item st)"
proof -
  let ?items = "filter (\<lambda>i. li_address i \<noteq> li_address item) (lb_items st)"
  let ?st = "(release_used env (item_total env item) st)\<lparr>lb_items := ?items\<rparr>"
  have part: "item_total env item \<le> lb_used st" by (rule item_part [OF ok item])
  have less: "stored env ?st + item_total env item = stored env st"
    using sum_without_address [OF lobby_okD(9) [OF ok] item, of "item_total env"] by (simp add: stored_def release_used_def)
  have "lb_used ?st = lb_used st - item_total env item"
    using part lobby_okD(2) [OF ok] budget_small by (simp add: release_used_def size_minus_exact)
  then have "accounted env ?st" unfolding accounted_def using less part lobby_okD(1,2) [OF ok] by linarith
  moreover have "items_ok ?st"
    using lobby_okD(4) [OF ok] by (auto simp: items_ok_def item_ok_def release_used_def intro: distinct_filter_map)
  moreover have "reads_ok held ?st"
    using lobby_okD(5) [OF ok] by (simp add: reads_ok_def entry_ok_def refs_def request_ok_def release_used_def)
  ultimately have "lobby_ok env held ?st" using lobby_okD(3,6) [OF ok] by (simp add: lobby_ok_def limits_ok_def groups_ok_def release_used_def)
  then show ?thesis using ok by (simp add: discard_item_def)
qed

lemma discard_request_ok:
  assumes ok: "lobby_ok env held st" and r: "r \<in> set (lb_requests st)"
  shows "lobby_ok env held (discard_request env r st)"
  unfolding discard_request_def
  by (rule let_go_ok [OF ok r]) (use request_okD [OF ok r] in \<open>simp_all add: request_ok_def\<close>)

lemma discard_ok: "lobby_ok env held st \<Longrightarrow> lobby_ok env held (discard env owner st)"
  unfolding discard_def by (intro each_item_ok each_request_ok discard_item_ok discard_request_ok)

end
