(* ===== verification/Lobby_Properties.thy ===== *)
theory Lobby_Properties
  imports Lobby_System
begin

text \<open>
  What the lobby service promises, over every sequence of what happens to it: its budget, its records and their readers,
  the bytes a callback receives, the delivery of results, the text other members of the lobby read.
\<close>

section \<open>The service as a system\<close>

text \<open>Between events the states of patches change, and the native side changes on its own.\<close>

datatype 'w lobby_event =
    LobbyCalls lobby_call
  | LobbyPump int
  | LobbyComplete u64 bool "u32 option"
  | LobbyInvalidate
  | LobbyDeliver
  | LobbyDiscard nat
  | LobbyAttach "'w LobbyBackend"
  | LobbyStates "nat \<Rightarrow> PatchState"
  | LobbyOutside 'w

type_synonym 'w lobby_system = "'w lobby_env \<times> 'w LobbyService"

fun lobby_step :: "'w lobby_system \<Rightarrow> 'w lobby_event \<Rightarrow> 'w lobby_system" where
  "lobby_step (env, st) (LobbyCalls call) = (env, run_calls env call st)"
| "lobby_step (env, st) (LobbyPump now) = (env, pump env now st)"
| "lobby_step (env, st) (LobbyComplete lobby success reason) = (env, snd (complete lobby success reason st))"
| "lobby_step (env, st) LobbyInvalidate = (env, invalidate env st)"
| "lobby_step (env, st) LobbyDeliver = (env, deliver env st)"
| "lobby_step (env, st) (LobbyDiscard owner) = (env, discard env owner st)"
| "lobby_step (env, st) (LobbyAttach backend) = (env, attach backend st)"
| "lobby_step (env, st) (LobbyStates states) = (env\<lparr>en_state := states\<rparr>, st)"
| "lobby_step (env, st) (LobbyOutside world) = (env, st\<lparr>lb_world := world\<rparr>)"

definition configured :: "'w lobby_system \<Rightarrow> bool" where
  "configured s \<longleftrightarrow> (\<exists>key_limit value_limit world. value_limit \<le> kStorageBytes \<and>
    snd s = configure (fst s) key_limit value_limit (new_lobby world))"

lemma configure_ok:
  assumes "value_limit \<le> kStorageBytes"
  shows "lobby_ok env [] (configure env key_limit value_limit (new_lobby world))"
proof -
  have "size_minus env 0 0 = 0" by (simp add: size_minus_exact)
  moreover have "size_plus env 0 value_limit = value_limit" using assms budget_small by (simp add: size_plus_exact)
  ultimately show ?thesis using assms
    by (simp add: lobby_ok_def accounted_def stored_def limits_ok_def items_ok_def reads_ok_def groups_ok_def configure_def
        new_lobby_def charge_used_def release_used_def)
qed

lemma attach_ok: "lobby_ok env held st \<Longrightarrow> lobby_ok env held (attach backend st)"
  unfolding attach_def by (rule same_records_ok) (simp_all add: same_records_def groups_ok_def lobby_ok_def)

lemma states_ok [simp]: "lobby_ok (env\<lparr>en_state := states\<rparr>) held st = lobby_ok env held st"
proof -
  have "item_total (env\<lparr>en_state := states\<rparr>) = item_total env" "cache_total (env\<lparr>en_state := states\<rparr>) = cache_total env"
    by (auto simp: item_total_def item_size_def cache_total_def cache_size_def)
  then have "stored (env\<lparr>en_state := states\<rparr>) st = stored env st" by (simp add: stored_def request_size_def group_size_def)
  then show ?thesis by (simp add: lobby_ok_def accounted_def)
qed

interpretation lobby: invariant_system configured lobby_step "\<lambda>_ _. True" "\<lambda>(env, st). lobby_ok env [] st"
proof unfold_locales
  fix s :: "'a lobby_system"
  assume "configured s"
  then show "case s of (env, st) \<Rightarrow> lobby_ok env [] st" by (cases s) (auto simp: configured_def intro: configure_ok)
next
  fix s :: "'a lobby_system" and e
  assume "case s of (env, st) \<Rightarrow> lobby_ok env [] st"
  then show "case lobby_step s e of (env, st) \<Rightarrow> lobby_ok env [] st"
    by (cases "(s, e)" rule: lobby_step.cases)
      (auto intro: run_calls_ok pump_ok complete_ok invalidate_ok deliver_ok discard_ok attach_ok world_ok)
qed

lemma always_allowed [simp]: "allowed_events step (\<lambda>_ _. True) s es"
  by (induction es arbitrary: s) auto

lemma lobby_reachable:
  assumes "value_limit \<le> kStorageBytes"
    and "run_events lobby_step (env, configure env key_limit value_limit (new_lobby world)) events = (env', st)"
  shows "lobby_ok env' [] st"
  using lobby.inv_reachable [of "(env, configure env key_limit value_limit (new_lobby world))" events] assms
  by (auto simp: configured_def)

subsection \<open>An example\<close>

text \<open>A lobby whose text is the list of what was written, newest first; every native request completes at once.\<close>

type_synonym sample_world = "(u64 \<times> string \<times> string option) list"

fun text_in :: "sample_world \<Rightarrow> u64 \<Rightarrow> string \<Rightarrow> string option" where
  "text_in [] = (\<lambda>_ _. None)"
| "text_in ((lobby, key, value') # world) = (text_in world)(lobby := (text_in world lobby)(key := value'))"

definition sample_lobby_env :: "sample_world lobby_env" where
  "sample_lobby_env = \<lparr>en_arch = FC_ARCH_X64, en_sizeof_item = 200, en_sizeof_cache = 152, en_sizeof_request = 72, en_sizeof_group = 24,
    en_sizeof_pointer = 8, en_state = (\<lambda>_. PPreparing), en_name = (\<lambda>_. ''demo.a''), en_runtime = (\<lambda>_. True),
    en_diagnostic_text = (\<lambda>_. ''failed''), en_arrivals = (\<lambda>world. ([(5, True, None)], world))\<rparr>"

definition sample_backend :: "sample_world LobbyBackend" where
  "sample_backend = \<lparr>bk_state = Some (\<lambda>_. \<lparr>ns_available = True, ns_current = 5, ns_owned = 5\<rparr>),
    bk_request = Some (\<lambda>world _. (None, world)),
    bk_read = Some (\<lambda>world lobby key. (Inr (case text_in world lobby key of None \<Rightarrow> [] | Some s \<Rightarrow> s), world)),
    bk_write = Some (\<lambda>world lobby key value'. (None, (lobby, key, value') # world))\<rparr>"

text \<open>A patch registers and publishes an item while it prepares, then asks for it after it is installed.\<close>

definition sample_published :: "sample_world lobby_event list" where
  "sample_published =
    [LobbyCalls (Lobby_Register 1 ''a'' 1 (\<lambda>_. Lobby_Publish 0 [7, 8, 9] (\<lambda>_. Lobby_Return))),
     LobbyAttach sample_backend, LobbyStates (\<lambda>_. PInstalled)]"

definition sample_asking :: "sample_world lobby_event list" where
  "sample_asking = sample_published @
    [LobbyPump 0, LobbyCalls (Lobby_Refresh 1 5 ''a'' 1 (Some (\<lambda>_. Lobby_Return)) (\<lambda>_. Lobby_Return))]"

definition sample_read :: "sample_world lobby_event list" where
  "sample_read = sample_asking @ [LobbyPump 0, LobbyPump 1]"

definition sample_after :: "sample_world lobby_event list \<Rightarrow> sample_world lobby_system" where
  "sample_after events = run_events lobby_step (sample_lobby_env, configure sample_lobby_env 64 1024 (new_lobby [])) events"

lemma lobby_sample_limit: "1024 \<le> kStorageBytes"
  by (simp add: kStorageBytes_def)

lemma lobby_sample_run:
  "run_events lobby_step (sample_lobby_env, configure sample_lobby_env 64 1024 (new_lobby [])) events = (fst (sample_after events), snd (sample_after events))"
  by (simp add: sample_after_def)

lemma lobby_sample_ok: "lobby_ok (fst (sample_after events)) [] (snd (sample_after events))"
  by (rule lobby_reachable [OF lobby_sample_limit lobby_sample_run])

text \<open>The state after each part, computed by rewriting.\<close>

lemma lobby_sample_env_fields [simp]:
  "en_arch sample_lobby_env = FC_ARCH_X64" "en_sizeof_item sample_lobby_env = 200" "en_sizeof_cache sample_lobby_env = 152"
  "en_sizeof_request sample_lobby_env = 72" "en_sizeof_group sample_lobby_env = 24" "en_sizeof_pointer sample_lobby_env = 8"
  "en_state sample_lobby_env owner = PPreparing" "en_arrivals sample_lobby_env world = ([(5, True, None)], world)"
  "en_diagnostic_text sample_lobby_env error = ''failed''"
  by (simp_all add: sample_lobby_env_def)

lemma lobby_sample_backend_fields [simp]:
  "bk_state sample_backend = Some (\<lambda>_. \<lparr>ns_available = True, ns_current = 5, ns_owned = 5\<rparr>)"
  "bk_request sample_backend = Some (\<lambda>world _. (None, world))"
  "bk_read sample_backend = Some (\<lambda>world lobby key. (Inr (case text_in world lobby key of None \<Rightarrow> [] | Some s \<Rightarrow> s), world))"
  "bk_write sample_backend = Some (\<lambda>world lobby key value'. (None, (lobby, key, value') # world))"
  by (simp_all add: sample_backend_def)

lemma lobby_sample_text: "length (encode 1 [7, 8, 9]) = 10" "length (decimal 1) = 1" "length (decimal (Suc 0)) = 1"
proof -
  have "decimal 1 = ''1''" by code_simp
  then show "length (encode 1 [7, 8, 9]) = 10" "length (decimal 1) = 1" "length (decimal (Suc 0)) = 1" by (simp_all add: length_encode)
qed

lemma lobby_sample_text_nonempty: "encode 1 [7, 8, 9] \<noteq> []"
  by (simp add: encode_def)

lemmas lobby_run = sample_after_def configure_def new_lobby_def charge_used_def release_used_def size_plus_def size_minus_def
  lobby_item_def lobby_publish_def publish_item_def publication_fits_def retain.simps kStorageBytes_def
  item_size_def key_for_def kKeyPrefix_def item_at_def set_item_def optional_size_def attach_def Let_def lobby_sample_text

lemma lobby_sample_published_state: "sample_after sample_published = (sample_lobby_env\<lparr>en_state := \<lambda>_. PInstalled\<rparr>, 
  \<lparr>lb_backend = sample_backend, lb_world = [], lb_key_limit = 64, lb_value_limit = 1024,
   lb_maximum_payload = 762, lb_used = 1256, lb_cache_use = 0, lb_items = [\<lparr>li_address = 0, li_owner = 1, li_key = ''FC.a'',
     li_version = 1, li_desired = Some (encode 1 [7, 8, 9]), li_written = None, li_written_charge = 10, li_written_lobby = 0,
     li_attempted = None, li_withdraw = False, li_failure = None\<rparr>],
   lb_cache = [], lb_requests = [], lb_groups = [], lb_fresh = 1, lb_log = []\<rparr>)"
  by (simp add: lobby_run sample_published_def lobby_sample_text_nonempty)

lemma lobby_sample_after_append: "sample_after (es @ fs) = run_events lobby_step (sample_after es) fs"
  by (simp add: sample_after_def run_events_append)

lemmas lobby_reads = charge_used_def release_used_def size_plus_def size_minus_def retain.simps kStorageBytes_def set_item_def item_at_def
  optional_size_def Let_def lobby_sample_text pump_def native_state_def each_item_def forget_written_def pump_item_def nothing_to_write_def
  write_item_def lobby_refresh_def key_for_def kKeyPrefix_def reads_available_def find_cache_def start_refresh_def refresh_charge_def
  hold_def accept_refresh_def add_cache_def add_group_def add_request_def new_group_def group_size_def request_size_def cache_size_def
  pump_group_def arrive_def complete_def group_of_def set_group_def awaiting_def pending_in_def submit_group_def
  read_entry_def cache_at_def waiting_delivery_def observe_entry_def set_cache_def each_request_def pending_on_def request_at_def
  set_request_def decode_encode

definition sample_asked :: "RequestPhase \<Rightarrow> Observation option \<Rightarrow> nat \<Rightarrow> (u64 \<times> LobbyGroup) list \<Rightarrow> nat \<Rightarrow> sample_world LobbyService" where
  "sample_asked phase observation cache_use groups used =
    \<lparr>lb_backend = sample_backend, lb_world = [(5, ''FC.a'', Some (encode 1 [7, 8, 9]))], lb_key_limit = 64, lb_value_limit = 1024,
     lb_maximum_payload = 762, lb_used = used, lb_cache_use = cache_use, lb_items = [\<lparr>li_address = 0, li_owner = 1, li_key = ''FC.a'',
       li_version = 1, li_desired = Some (encode 1 [7, 8, 9]), li_written = Some (encode 1 [7, 8, 9]), li_written_charge = 10,
       li_written_lobby = 5, li_attempted = Some 0, li_withdraw = False, li_failure = None\<rparr>],
     lb_cache = [\<lparr>ch_address = 1, ch_lobby = 5, ch_key = ''FC.a'', ch_observation = observation, ch_readers = 1, ch_payload_charge = 762,
       ch_used = cache_use\<rparr>],
     lb_requests = [\<lparr>rq_address = 2, rq_owner = 1, rq_cache = Some 1, rq_lobby = 5, rq_version = 1, rq_callback = Some (\<lambda>_. Lobby_Return),
       rq_failure = LobbyUnavailable, rq_phase = phase\<rparr>],
     lb_groups = groups, lb_fresh = 3, lb_log = []\<rparr>"

lemma lobby_sample_written: "sample_after sample_asking =
    (sample_lobby_env\<lparr>en_state := \<lambda>_. PInstalled\<rparr>, sample_asked RequestPending None 1 [(5, new_group)] 2318)"
  unfolding sample_asking_def lobby_sample_after_append lobby_sample_published_state
  by (simp add: lobby_reads sample_asked_def)

lemma lobby_sample_submitted: "pump (sample_lobby_env\<lparr>en_state := \<lambda>_. PInstalled\<rparr>) 0 (sample_asked RequestPending None 1 [(5, new_group)] 2318) =
    sample_asked RequestPending None 1 [(5, \<lparr>gr_submitted = True, gr_invalidated = False, gr_completion = Some True, gr_native_reason = None\<rparr>)] 2318"
  unfolding sample_asked_def by (simp add: lobby_reads)

lemma lobby_sample_observed: "pump (sample_lobby_env\<lparr>en_state := \<lambda>_. PInstalled\<rparr>) 1
    (sample_asked RequestPending None 1 [(5, \<lparr>gr_submitted = True, gr_invalidated = False, gr_completion = Some True, gr_native_reason = None\<rparr>)] 2318) =
    sample_asked RequestReady (Some \<lparr>ob_result = LobbyValue, ob_version = 1, ob_value = [7, 8, 9], ob_capacity = 3, ob_observed = 1\<rparr>) 2 [] 2262"
  unfolding sample_asked_def by (simp add: lobby_reads ex_bool_eq lobby_sample_text_nonempty)

lemma lobby_sample_read_state: "sample_after sample_read = (sample_lobby_env\<lparr>en_state := \<lambda>_. PInstalled\<rparr>,
    sample_asked RequestReady (Some \<lparr>ob_result = LobbyValue, ob_version = 1, ob_value = [7, 8, 9], ob_capacity = 3, ob_observed = 1\<rparr>) 2 [] 2262)"
  unfolding sample_read_def lobby_sample_after_append lobby_sample_written by (simp add: lobby_sample_submitted lobby_sample_observed del: One_nat_def)

text \<open>C18: The budget. Whatever patches call, the native side answers and listeners report, the service's count of its
  storage is at every moment what it stores - items with the text to publish and the text or reservation of the published
  one, cache entries with the bytes they keep or may receive, requests, groups, one native buffer - and never exceeds
  256 KiB.\<close>
theorem lobby_storage_budget:
  assumes "value_limit \<le> kStorageBytes"
    and "run_events lobby_step (env, configure env key_limit value_limit (new_lobby world)) events = (env', st)"
  shows "lb_used st = stored env' st \<and> lb_used st \<le> 256 * 1024"
  using lobby_okD(1,2) [OF lobby_reachable [OF assms]] by (simp add: kStorageBytes_def)

theorem lobby_storage_budget_witness:
  "lb_used (snd (sample_after sample_read)) = stored (fst (sample_after sample_read)) (snd (sample_after sample_read)) \<and>
   lb_used (snd (sample_after sample_read)) = 2262"
proof -
  have "lb_used (snd (sample_after sample_read)) = 2262" by (simp add: lobby_sample_read_state sample_asked_def)
  then show ?thesis using lobby_storage_budget [OF lobby_sample_limit lobby_sample_run, of sample_read] by blast
qed

text \<open>C22: Records and readers. In every reachable state no two items have one key and no two cache entries one lobby and
  key; the readers of an entry are exactly the requests that refer to it, so between events none is held for nothing and
  none that is needed may be evicted; a request refers to an entry of its own lobby that is still there, and one that is
  ready to be delivered to an entry that has been read.\<close>
theorem lobby_records_consistent:
  assumes "value_limit \<le> kStorageBytes"
    and "run_events lobby_step (env, configure env key_limit value_limit (new_lobby world)) events = (env', st)"
  shows "distinct (map li_key (lb_items st)) \<and> distinct (map (\<lambda>e. (ch_lobby e, ch_key e)) (lb_cache st)) \<and>
    (\<forall>e \<in> set (lb_cache st). ch_readers e = length (filter (\<lambda>r. rq_cache r = Some (ch_address e)) (lb_requests st))) \<and>
    (\<forall>r \<in> set (lb_requests st). \<forall>a. rq_cache r = Some a \<longrightarrow> (\<exists>e \<in> set (lb_cache st). ch_address e = a \<and> ch_lobby e = rq_lobby r \<and>
      (rq_phase r = RequestReady \<or> rq_phase r = RequestDelivering \<longrightarrow> ch_observation e \<noteq> None)))"
proof -
  have ok: "lobby_ok env' [] st" by (rule lobby_reachable [OF assms])
  have "ch_readers e = length (filter (\<lambda>r. rq_cache r = Some (ch_address e)) (lb_requests st))" if "e \<in> set (lb_cache st)" for e
    using entry_okD [OF ok that] by (simp add: entry_ok_def refs_def)
  moreover have "\<exists>e \<in> set (lb_cache st). ch_address e = a \<and> ch_lobby e = rq_lobby r \<and>
      (rq_phase r = RequestReady \<or> rq_phase r = RequestDelivering \<longrightarrow> ch_observation e \<noteq> None)"
    if "r \<in> set (lb_requests st)" "rq_cache r = Some a" for r a
    using request_okD [OF ok that(1)] that(2) unfolding request_ok_def by blast
  ultimately show ?thesis using lobby_okD(4,5) [OF ok] unfolding items_ok_def reads_ok_def by blast
qed

theorem lobby_records_consistent_witness:
  "map ch_readers (lb_cache (snd (sample_after sample_read))) = [1] \<and>
   map (\<lambda>e. length (filter (\<lambda>r. rq_cache r = Some (ch_address e)) (lb_requests (snd (sample_after sample_read)))))
     (lb_cache (snd (sample_after sample_read))) = [1]"
proof -
  let ?st = "snd (sample_after sample_read)"
  have readers: "map ch_readers (lb_cache ?st) = [1]" by (simp add: lobby_sample_read_state sample_asked_def)
  have "\<forall>e \<in> set (lb_cache ?st). ch_readers e = length (filter (\<lambda>r. rq_cache r = Some (ch_address e)) (lb_requests ?st))"
    using lobby_records_consistent [OF lobby_sample_limit lobby_sample_run, of sample_read] by blast
  then have "map (\<lambda>e. length (filter (\<lambda>r. rq_cache r = Some (ch_address e)) (lb_requests ?st))) (lb_cache ?st) = map ch_readers (lb_cache ?st)"
    by (intro map_cong) simp_all
  then show ?thesis using readers by simp
qed

text \<open>C23: The text of a value. A text reads as a value with this version and these bytes exactly when it fits the native limit
  and is the writer's text for them, \<open>encode version bytes\<close>, but for zeros before the digits of the version. So what one member
  publishes another reads back, and no other spelling of the bytes is accepted; they fit what the reader reserved.\<close>
theorem lobby_text_roundtrip:
  "(length (encode version bytes) \<le> limit \<longrightarrow> decode (encode version bytes) limit =
      \<lparr>de_result = LobbyValue, de_version = version, de_value = bytes, de_capacity = (length bytes + 2) div 3 * 3\<rparr>) \<and>
   (de_result (decode string limit) = LobbyValue \<and> de_version (decode string limit) = version \<and> de_value (decode string limit) = bytes \<longleftrightarrow>
     length string \<le> limit \<and> (\<exists>k. string = ''FC1:'' @ replicate k (CHR ''0'') @ drop 4 (encode version bytes))) \<and>
   length (de_value (decode string limit)) \<le> (limit - 6) div 4 * 3"
proof -
  have padded: "''FC1:'' @ replicate k (CHR ''0'') @ drop 4 (encode version bytes) = padded_text k version bytes" for k
    by (simp add: encode_def padded_text_def zero_padded_def)
  have "length (de_value (decode string limit)) \<le> (limit - 6) div 4 * 3" using decode_capacity [of string limit] by (meson le_trans)
  moreover have "de_result (decode string limit) = LobbyValue \<and> de_version (decode string limit) = version \<and> de_value (decode string limit) = bytes \<longleftrightarrow>
      length string \<le> limit \<and> (\<exists>k. string = padded_text k version bytes)"
    using decode_value [of string limit] decode_padded [of _ version bytes limit] by auto
  ultimately show ?thesis using decode_encode [of version bytes limit] unfolding padded by blast
qed

theorem lobby_text_roundtrip_witness:
  "de_value (decode (encode 1 [7, 8, 9]) 64) = [7, 8, 9] \<and> de_version (decode (''FC1:0'' @ drop 4 (encode 1 [7, 8, 9])) 64) = 1"
proof -
  have size: "length (encode 1 [7, 8, 9]) \<le> 64" "length (drop 4 (encode 1 [7, 8, 9])) = 6" by (simp_all add: lobby_sample_text)
  have "\<exists>k. ''FC1:0'' @ drop 4 (encode 1 [7, 8, 9]) = ''FC1:'' @ replicate k (CHR ''0'') @ drop 4 (encode 1 [7, 8, 9])"
    by (rule exI [of _ 1]) simp
  then show ?thesis using size lobby_text_roundtrip [of 1 "[7, 8, 9]" 64 "''FC1:0'' @ drop 4 (encode 1 [7, 8, 9])"] by simp
qed

section \<open>What a callback receives\<close>

definition entry_view :: "'w LobbyService \<Rightarrow> nat \<Rightarrow> (u64 \<times> string \<times> Observation option) option" where
  "entry_view st a = map_option (\<lambda>e. (ch_lobby e, ch_key e, ch_observation e)) (cache_at st a)"

lemma entry_view_cache: "lb_cache st' = lb_cache st \<Longrightarrow> entry_view st' a = entry_view st a"
  by (simp add: entry_view_def cache_at_def)

lemma entry_view_set_cache [simp]:
  assumes "\<And>e. ch_address (f e) = ch_address e" "\<And>e. ch_lobby (f e) = ch_lobby e" "\<And>e. ch_key (f e) = ch_key e"
    "\<And>e. ch_observation (f e) = ch_observation e"
  shows "entry_view (set_cache b f st) a = entry_view st a"
proof -
  have "map_option (\<lambda>e. (ch_lobby e, ch_key e, ch_observation e)) (List.find (\<lambda>e. ch_address e = a) (map (\<lambda>e. if ch_address e = b then f e else e) es)) =
    map_option (\<lambda>e. (ch_lobby e, ch_key e, ch_observation e)) (List.find (\<lambda>e. ch_address e = a) es)" for es
    by (induction es) (simp_all add: assms)
  then show ?thesis by (simp add: entry_view_def cache_at_def set_cache_def)
qed

lemma entry_view_frame [simp]:
  "entry_view (st\<lparr>lb_fresh := n\<rparr>) a = entry_view st a" "entry_view (st\<lparr>lb_used := n\<rparr>) a = entry_view st a" "entry_view (st\<lparr>lb_cache_use := n\<rparr>) a = entry_view st a"
  "entry_view (release_used env n st) a = entry_view st a" "entry_view (charge_used env n st) a = entry_view st a"
  "entry_view (set_item b g st) a = entry_view st a" "entry_view (set_request b h st) a = entry_view st a"
  "entry_view (st\<lparr>lb_requests := rs\<rparr>) a = entry_view st a" "entry_view (st\<lparr>lb_fresh := n, lb_items := is\<rparr>) a = entry_view st a"
  "entry_view (st\<lparr>lb_fresh := n, lb_requests := rs\<rparr>) a = entry_view st a" "entry_view (st\<lparr>lb_groups := gs\<rparr>) a = entry_view st a"
  by (simp_all add: entry_view_def cache_at_def release_used_def charge_used_def set_item_def set_request_def)

lemma entry_view_release [simp]: "entry_view (release_selection env selection st) a = entry_view st a"
  by (simp add: release_selection_def drop_reader_def split: option.split)

lemma held_entry:
  assumes ok: "lobby_ok env held st" and a: "a \<in> set held"
  obtains e where "cache_at st a = Some e" "e \<in> set (lb_cache st)" "ch_address e = a" "ch_readers e \<noteq> 0" "a < lb_fresh st"
proof -
  obtain e where e: "e \<in> set (lb_cache st)" "ch_address e = a" using lobby_okD(10) [OF ok] a by auto
  moreover have "count_list held a \<noteq> 0" using a by (simp add: count_list_0_iff)
  ultimately show ?thesis using that entry_okD [OF ok e(1)] cache_at_iff [OF ok] by (auto simp: entry_ok_def refs_def)
qed

lemma entry_view_evict:
  assumes "a \<noteq> ch_address entry"
  shows "entry_view (evict env entry st) a = entry_view st a"
proof -
  have "List.find (\<lambda>e. ch_address e = a) (filter (\<lambda>e. ch_address e \<noteq> ch_address entry) es) = List.find (\<lambda>e. ch_address e = a) es"
    for es :: "Cache list"
    using assms by (induction es) auto
  then show ?thesis by (simp add: entry_view_def cache_at_def evict_def)
qed

lemma entry_view_retain:
  assumes "lobby_ok env held st" and "a \<in> set held" and "retain env additional st = (kept, st')"
  shows "entry_view st' a = entry_view st a"
  using assms
proof (induction env additional st rule: retain.induct)
  case (1 env additional st)
  show ?case
  proof (cases "additional \<le> size_minus env kStorageBytes (lb_used st)")
    case True
    then show ?thesis using 1(4) by (subst (asm) retain.simps) simp
  next
    case full: False
    show ?thesis
    proof (cases "oldest_unread (lb_cache st)")
      case None
      then show ?thesis using 1(4) full by (subst (asm) retain.simps) simp
    next
      case (Some entry)
      then have entry: "entry \<in> set (lb_cache st)" "ch_readers entry = 0" by (simp_all add: oldest_unread_in)
      obtain e where e: "e \<in> set (lb_cache st)" "ch_address e = a" "ch_readers e \<noteq> 0" using held_entry [OF 1(2,3)] by metis
      have "a \<noteq> ch_address entry" using distinct_map_eq [OF lobby_okD(7) [OF 1(2)] e(1) entry(1)] e(2,3) entry(2) by auto
      moreover have "retain env additional (evict env entry st) = (kept, st')" using 1(4) full Some by (subst (asm) retain.simps) simp
      ultimately show ?thesis using 1(1) [OF full Some evict_ok [OF 1(2) entry] 1(3)] by (simp add: entry_view_evict)
    qed
  qed
qed

text \<open>Every call keeps what is held.\<close>

lemma entry_view_append:
  assumes "cache_at st a = Some e" and "lb_cache st' = lb_cache st @ es"
  shows "entry_view st' a = entry_view st a"
proof -
  have "List.find (\<lambda>e. ch_address e = a) (xs @ ys) = List.find (\<lambda>e. ch_address e = a) xs"
    if "List.find (\<lambda>e. ch_address e = a) xs \<noteq> None" for xs ys :: "Cache list"
    using that by (induction xs) auto
  then show ?thesis using assms by (simp add: entry_view_def cache_at_def)
qed

lemma entry_view_item:
  assumes "lobby_ok env held st" and "a \<in> set held" and "lobby_item env owner name version st = (result, st')"
  shows "entry_view st' a = entry_view st a"
  using assms(3) by (auto simp: lobby_item_def dest: entry_view_retain [OF assms(1,2)] split: if_splits option.splits prod.splits bool.splits)

lemma entry_view_publish:
  assumes "lobby_ok env held st" and "a \<in> set held" and "lobby_publish env address bytes st = (problem, st')"
  shows "entry_view st' a = entry_view st a"
  using assms(3)
  by (auto simp: lobby_publish_def publish_item_def Let_def dest: entry_view_retain [OF assms(1,2)] split: if_splits option.splits prod.splits)

lemma entry_view_clear [simp]: "entry_view (lobby_clear env address st) a = entry_view st a"
  by (simp add: lobby_clear_def clear_item_def Let_def split: option.split)

lemma entry_view_cancel [simp]: "entry_view (lobby_cancel env address st) a = entry_view st a"
  by (simp add: lobby_cancel_def Let_def split: option.split)

lemma entry_view_add [simp]:
  "entry_view (add_group env lobby st) a = entry_view st a"
  "entry_view (snd (add_request env owner selection lobby version callback available st)) a = entry_view st a"
  by (simp_all add: add_group_def add_request_def)

lemma entry_view_accept:
  assumes "cache_at st a = Some e"
  shows "entry_view (snd (accept_refresh env owner lobby key version callback available selection st)) a = entry_view st a"
proof -
  have "entry_view (snd (add_cache env lobby key st)) a = entry_view st a"
    by (rule entry_view_append [OF assms]) (simp add: add_cache_def)
  then show ?thesis by (auto simp: accept_refresh_def Let_def case_prod_beta split: option.split)
qed

lemma entry_view_refresh:
  assumes ok: "lobby_ok env held st" and a: "a \<in> set held"
  shows "entry_view (snd (lobby_refresh env owner lobby name version callback st)) a = entry_view st a"
proof -
  have started: "entry_view (snd (start_refresh env owner lobby key version callback available selection st)) a = entry_view st a"
    if selection: "selection = (if available then find_cache lobby name st else None)" for key callback available selection
  proof -
    define charge where "charge = refresh_charge env available selection key st +
      (if available \<and> lobby \<notin> fst ` set (lb_groups st) then group_size env else 0) + request_size env"
    define held' where "held' = given_up (map_option ch_address selection) None @ held"
    have held: "lobby_ok env held' (hold selection st)"
    proof (cases selection)
      case None
      then show ?thesis using ok by (simp add: held'_def hold_def given_up_def)
    next
      case (Some e)
      then have "e \<in> set (lb_cache st)" using selection find_cache_SomeD [of lobby name st e] by (auto split: if_splits)
      then show ?thesis using hold_ok [OF ok] Some by (simp add: held'_def hold_def given_up_def)
    qed
    have a': "a \<in> set held'" using a by (simp add: held'_def)
    obtain kept st1 where kept: "retain env charge (hold selection st) = (kept, st1)" by (cases "retain env charge (hold selection st)")
    have "entry_view st1 a = entry_view (hold selection st) a" by (rule entry_view_retain [OF held a' kept])
    then have view: "entry_view st1 a = entry_view st a" by (simp add: hold_def split: option.splits)
    have "lobby_ok env held' st1" using retain_ok [OF held kept] by blast
    then obtain e where "cache_at st1 a = Some e" using held_entry [OF _ a'] by metis
    then show ?thesis
      using kept view entry_view_accept [of st1 a e] by (cases kept) (auto simp: start_refresh_def charge_def Let_def split: option.split)
  qed
  show ?thesis by (simp add: lobby_refresh_def started split: option.split)
qed

lemma entry_view_cached: "cached_begin lobby name version st = Some (address, record', st') \<Longrightarrow> entry_view st' a = entry_view st a"
  by (auto simp: cached_begin_def split: option.splits)

lemma entry_view_calls: "lobby_ok env held st \<Longrightarrow> a \<in> set held \<Longrightarrow> entry_view (run_calls env call st) a = entry_view st a"
proof (induction call arbitrary: held st)
  case (Lobby_Register owner name version next')
  obtain result st' where item: "lobby_item env owner name version st = (result, st')" by (cases "lobby_item env owner name version st")
  have "entry_view (run_calls env (next' result) st') a = entry_view st' a"
    by (rule Lobby_Register(1) [OF _ lobby_item_ok [OF Lobby_Register(2) item] Lobby_Register(3)]) simp
  then show ?case using entry_view_item [OF Lobby_Register(2,3) item] by (simp add: item)
next
  case (Lobby_Cached lobby name version callback next')
  note ok = Lobby_Cached(3) and a = Lobby_Cached(4)
  have next': "entry_view (run_calls env (next' b) st') a = entry_view st' a" if "lobby_ok env held st'" for b st'
    using Lobby_Cached(2) [of "next' b"] that a by simp
  show ?case
  proof (cases callback)
    case None
    then show ?thesis using next' [OF ok] by simp
  next
    case (Some f)
    show ?thesis
    proof (cases "cached_begin lobby name version st")
      case None
      then show ?thesis using next' [OF ok] Some by simp
    next
      case found: (Some result)
      obtain address record' st' where result: "result = (address, record', st')" by (cases result)
      have st': "lobby_ok env (address # held) st'" using cached_ok [OF ok] found result by blast
      then have called: "lobby_ok env (address # held) (run_calls env (f record') st')" by (rule run_calls_ok)
      have "entry_view (run_calls env (f record') st') a = entry_view st' a" using Lobby_Cached(1) Some st' a by auto
      then show ?thesis
        using next' [OF release_ok [OF called]] entry_view_cached [of lobby name version st address record' st' a] Some found result by simp
    qed
  qed
next
  case (Lobby_Refresh owner lobby name version callback next')
  obtain result st' where refreshed: "lobby_refresh env owner lobby name version callback st = (result, st')"
    by (cases "lobby_refresh env owner lobby name version callback st")
  have "lobby_ok env held st'" using refresh_ok [OF Lobby_Refresh(3), of owner lobby name version callback] refreshed by simp
  then have "entry_view (run_calls env (next' result) st') a = entry_view st' a" using Lobby_Refresh(2) [of "next' result"] Lobby_Refresh(4) by simp
  then show ?case using entry_view_refresh [OF Lobby_Refresh(3,4), of owner lobby name version callback] refreshed by simp
next
  case (Lobby_Publish address bytes next')
  obtain problem st' where published: "lobby_publish env address bytes st = (problem, st')" by (cases "lobby_publish env address bytes st")
  have "lobby_ok env held (run_calls env (Lobby_Publish address bytes (\<lambda>_. Lobby_Return)) st)" by (rule run_calls_ok [OF Lobby_Publish(2)])
  then have "lobby_ok env held st'" using published by simp
  then have "entry_view (run_calls env (next' problem) st') a = entry_view st' a" using Lobby_Publish(1) [of "next' problem"] Lobby_Publish(3) by simp
  then show ?case using entry_view_publish [OF Lobby_Publish(2,3) published] by (simp add: published)
next
  case (Lobby_Clear address next')
  have "lobby_ok env held (run_calls env (Lobby_Clear address Lobby_Return) st)" by (rule run_calls_ok [OF Lobby_Clear(2)])
  then show ?case using Lobby_Clear(1) [of held "lobby_clear env address st"] Lobby_Clear(3) by simp
next
  case (Lobby_Cancel address next')
  show ?case using Lobby_Cancel(1) [OF cancel_ok [OF Lobby_Cancel(2)] Lobby_Cancel(3)] by simp
qed auto

text \<open>What a callback holds stays, whatever it calls.\<close>

lemma held_calls:
  assumes "lobby_ok env held st" and "a \<in> set held" and "cache_at st a = Some e"
  shows "\<exists>e'. cache_at (run_calls env call st) a = Some e' \<and> ch_observation e' = ch_observation e \<and> ch_lobby e' = ch_lobby e \<and> ch_key e' = ch_key e"
  using entry_view_calls [OF assms(1,2), of call] assms(3) by (auto simp: entry_view_def)

lemma entry_view_begin [simp]: "entry_view (begin_delivery env r st) a = entry_view st a"
  by (simp add: begin_delivery_def split: option.split)

lemma entry_viewD: "entry_view st' a = entry_view st a \<Longrightarrow> cache_at st a = Some e \<Longrightarrow>
    \<exists>e'. cache_at st' a = Some e' \<and> ch_observation e' = ch_observation e \<and> ch_lobby e' = ch_lobby e \<and> ch_key e' = ch_key e"
  by (auto simp: entry_view_def)

text \<open>The entry of a result that is being delivered has been read, and what was read is what the callback is given.\<close>

lemma delivered_entry:
  assumes ok: "lobby_ok env held st" and r: "r \<in> set (lb_requests st)" "rq_phase r = RequestDelivering" "rq_cache r = Some a"
  obtains e observation where "cache_at st a = Some e" "ch_lobby e = rq_lobby r" "ch_observation e = Some observation"
    "delivered_record r st = observation_record (rq_lobby r) observation (rq_version r)"
proof -
  from request_okD [OF ok r(1)] r(2,3) obtain e where e: "e \<in> set (lb_cache st)" "ch_address e = a" "ch_lobby e = rq_lobby r" "ch_observation e \<noteq> None"
    unfolding request_ok_def by blast
  then have "cache_at st a = Some e" using cache_at_iff [OF ok] by auto
  then show ?thesis using that e r(3) by (auto simp: delivered_record_def)
qed

lemma delivery_holds:
  assumes ok: "lobby_ok env held st" and r: "r \<in> set (lb_requests st)" "rq_phase r = RequestDelivering" "rq_cache r = Some a"
    and callback: "rq_callback r = Some callback"
  shows "\<exists>observation. deliver_request env r st = release_selection env (Some a)
      (run_calls env (callback (observation_record (rq_lobby r) observation (rq_version r))) (begin_delivery env r st)) \<and>
    (\<forall>call. \<exists>e. cache_at (run_calls env call (begin_delivery env r st)) a = Some e \<and> ch_lobby e = rq_lobby r \<and> ch_observation e = Some observation)"
proof -
  obtain e observation where e: "cache_at st a = Some e" "ch_lobby e = rq_lobby r" "ch_observation e = Some observation"
    and given: "delivered_record r st = observation_record (rq_lobby r) observation (rq_version r)" by (rule delivered_entry [OF ok r])
  have begun: "lobby_ok env (a # held) (begin_delivery env r st)" using begin_delivery_ok [OF ok r(1)] r(3) by (simp add: given_up_def)
  obtain e' where e': "cache_at (begin_delivery env r st) a = Some e'" "ch_lobby e' = rq_lobby r" "ch_observation e' = Some observation"
    using entry_viewD [OF entry_view_begin e(1)] e(2,3) by auto
  have "\<exists>e. cache_at (run_calls env call (begin_delivery env r st)) a = Some e \<and> ch_lobby e = rq_lobby r \<and> ch_observation e = Some observation" for call
    using held_calls [OF begun _ e'(1), of call] e'(2,3) by auto
  then show ?thesis using given callback r(3) by (auto simp: deliver_request_def)
qed

lemma cached_holds:
  assumes ok: "lobby_ok env held st" and found: "cached_begin lobby name version st = Some (a, record', st')"
  shows "\<exists>observation. record' = observation_record lobby observation version \<and>
    (\<forall>call. \<exists>e. cache_at (run_calls env call st') a = Some e \<and> ch_lobby e = lobby \<and> public_name (ch_key e) = name \<and>
      ch_observation e = Some observation)"
proof -
  from found obtain e observation where e: "find_cache lobby name st = Some e" "ch_observation e = Some observation" "a = ch_address e"
    "record' = observation_record lobby observation version" by (auto simp: cached_begin_def split: option.splits)
  then have inside: "e \<in> set (lb_cache st)" "ch_lobby e = lobby" "public_name (ch_key e) = name" unfolding find_cache_def by (auto dest: find_SomeD)
  then have at: "cache_at st a = Some e" using cache_at_iff [OF ok] e(3) by auto
  obtain e' where e': "cache_at st' a = Some e'" "ch_lobby e' = lobby" "public_name (ch_key e') = name" "ch_observation e' = Some observation"
    using entry_viewD [OF entry_view_cached [OF found] at] inside e(2) by auto
  have "\<exists>e. cache_at (run_calls env call st') a = Some e \<and> ch_lobby e = lobby \<and> public_name (ch_key e) = name \<and>
      ch_observation e = Some observation" for call
    using held_calls [OF cached_ok [OF ok found] _ e'(1), of call] e'(2,3,4) by auto
  then show ?thesis using e(4) by blast
qed

text \<open>C19: What a callback receives stays valid while it runs. The callback of a delivery runs with the record of what was read
  into the entry of its request, and that entry stays in the cache with those bytes whatever the callback calls - requests
  that need room, publications, cancelling its own request, its own nested reads - until it returns and the service lets
  go of the entry. The same holds for the callback of a cached read. Other callbacks may be running meanwhile (\<open>held\<close>
  lists the entries they hold). Any beginning of a program of calls is a program, so this holds after each call and not
  only at the end.\<close>
theorem callback_entry_stays:
  assumes "lobby_ok env held st"
  shows "(r \<in> set (lb_requests st) \<and> rq_phase r = RequestDelivering \<and> rq_cache r = Some a \<and> rq_callback r = Some callback \<longrightarrow>
      (\<exists>observation. deliver_request env r st = release_selection env (Some a)
          (run_calls env (callback (observation_record (rq_lobby r) observation (rq_version r))) (begin_delivery env r st)) \<and>
        (\<forall>call. \<exists>e. cache_at (run_calls env call (begin_delivery env r st)) a = Some e \<and>
          ch_lobby e = rq_lobby r \<and> ch_observation e = Some observation))) \<and>
    (cached_begin lobby name version st = Some (b, record', st') \<longrightarrow>
      run_calls env (Lobby_Cached lobby name version (Some callback') next') st =
        run_calls env (next' True) (release_selection env (Some b) (run_calls env (callback' record') st')) \<and>
      (\<exists>observation. record' = observation_record lobby observation version \<and>
        (\<forall>call. \<exists>e. cache_at (run_calls env call st') b = Some e \<and> ch_lobby e = lobby \<and> public_name (ch_key e) = name \<and>
          ch_observation e = Some observation)))"
  using delivery_holds [OF assms, of r a callback] cached_holds [OF assms, of lobby name version b record' st'] by simp

text \<open>A cached read whose callback asks for the item again.\<close>

definition sample_cached :: "(nat \<times> LobbyRecord \<times> sample_world LobbyService) option" where
  "sample_cached = cached_begin 5 ''a'' 1 (snd (sample_after sample_read))"

theorem callback_entry_stays_witness:
  "\<exists>b record' st e observation. sample_cached = Some (b, record', st) \<and> lr_value record' = [7, 8, 9] \<and>
    record' = observation_record 5 observation 1 \<and>
    cache_at (run_calls (fst (sample_after sample_read)) (Lobby_Refresh 1 5 ''a'' 2 (Some (\<lambda>_. Lobby_Return)) (\<lambda>_. Lobby_Return)) st) b = Some e \<and>
    ch_observation e = Some observation"
proof -
  have "map_option (\<lambda>(_, record', _). lr_value record') sample_cached = Some [7, 8, 9]"
    by (simp add: sample_cached_def lobby_sample_read_state sample_asked_def cached_begin_def find_cache_def kKeyPrefix_def public_name_def
        observation_record_def record_for_def)
  then obtain b record' st where found: "sample_cached = Some (b, record', st)" "lr_value record' = [7, 8, 9]" by auto
  from callback_entry_stays [OF lobby_sample_ok [of sample_read], of _ _ _ 5 "''a''" 1 b record' st] found
  show ?thesis unfolding sample_cached_def by metis
qed

end
