(* ===== verification/Lobby_Delivery.thy ===== *)
theory Lobby_Delivery
  imports Lobby_Properties "HOL-Library.Sublist"
begin

text \<open>
  Delivery: what patch code leaves of requests and entries, the callbacks that a delivery pass runs, and what it makes of
  the requests.
\<close>

section \<open>Patch code\<close>

lemma subseq_members: "subseq xs ys \<Longrightarrow> set xs \<subseteq> set ys"
  by (auto elim: list_emb_set)

text \<open>What patch code leaves of the requests: those that were there, as they were and in their order, and behind them new ones
  that are not due.\<close>

definition not_due :: "nat \<Rightarrow> LobbyRequest \<Rightarrow> bool" where
  "not_due fresh r \<longleftrightarrow> fresh \<le> rq_address r \<and> (rq_phase r = RequestPending \<or> rq_phase r = RequestReady)"

definition requests_left :: "'w LobbyService \<Rightarrow> 'w LobbyService \<Rightarrow> bool" where
  "requests_left st st' \<longleftrightarrow> lb_fresh st \<le> lb_fresh st' \<and> (\<exists>old new. lb_requests st' = old @ new \<and>
    subseq old (lb_requests st) \<and> list_all (not_due (lb_fresh st)) new)"

text \<open>And of the entries: one may be evicted, but its bytes never change.\<close>

definition views_left :: "'w LobbyService \<Rightarrow> 'w LobbyService \<Rightarrow> bool" where
  "views_left st st' \<longleftrightarrow> (\<forall>a < lb_fresh st. cache_at st' a = None \<or> entry_view st' a = entry_view st a)"

definition leaves :: "'w LobbyService \<Rightarrow> 'w LobbyService \<Rightarrow> bool" where
  "leaves st st' \<longleftrightarrow> requests_left st st' \<and> views_left st st'"

lemma requests_left_same: "lb_requests st' = lb_requests st \<Longrightarrow> lb_fresh st \<le> lb_fresh st' \<Longrightarrow> requests_left st st'"
  unfolding requests_left_def by (intro conjI exI [of _ "lb_requests st"] exI [of _ "[]"]) simp_all

lemma requests_left_trans:
  assumes "requests_left s t" and "requests_left t u"
  shows "requests_left s u"
proof -
  obtain old new where t: "lb_requests t = old @ new" "subseq old (lb_requests s)" "list_all (not_due (lb_fresh s)) new"
    and fresh: "lb_fresh s \<le> lb_fresh t" "lb_fresh t \<le> lb_fresh u" using assms unfolding requests_left_def by blast
  obtain old' new' where u: "lb_requests u = old' @ new'" "subseq old' (old @ new)" "list_all (not_due (lb_fresh t)) new'"
    using assms(2) unfolding requests_left_def t(1) by blast
  obtain xs ys where parts: "old' = xs @ ys" "subseq xs old" "subseq ys new" using u(2) by (rule subseq_appendE)
  have "list_all (not_due (lb_fresh s)) (ys @ new')"
    using t(3) u(3) fresh(1) subseq_members [OF parts(3)] by (auto simp: list_all_iff not_due_def subset_iff)
  moreover have "subseq xs (lb_requests s)" using parts(2) t(2) by (rule subseq_order.trans)
  moreover have "lb_requests u = xs @ (ys @ new')" using u(1) parts(1) by simp
  ultimately show ?thesis using fresh unfolding requests_left_def by (meson le_trans)
qed

lemma views_left_trans:
  assumes "views_left s t" and "views_left t u" and "lb_fresh s \<le> lb_fresh t"
  shows "views_left s u"
  unfolding views_left_def
proof (intro allI impI)
  fix a
  assume a: "a < lb_fresh s"
  then have "cache_at t a = None \<or> entry_view t a = entry_view s a" using assms(1) by (simp add: views_left_def)
  moreover have "cache_at u a = None \<or> entry_view u a = entry_view t a" using assms(2,3) a by (simp add: views_left_def)
  ultimately show "cache_at u a = None \<or> entry_view u a = entry_view s a" by (auto simp: entry_view_def)
qed

lemma leaves_trans: "leaves s t \<Longrightarrow> leaves t u \<Longrightarrow> leaves s u"
  unfolding leaves_def using requests_left_trans views_left_trans by (metis requests_left_def)

lemma leaves_same:
  "lb_requests st' = lb_requests st \<Longrightarrow> lb_fresh st \<le> lb_fresh st' \<Longrightarrow> (\<And>a. entry_view st' a = entry_view st a) \<Longrightarrow> leaves st st'"
  by (simp add: leaves_def requests_left_same views_left_def)

lemma leaves_refl [simp]: "leaves st st"
  by (rule leaves_same) simp_all

lemma fresh_frame [simp]:
  "lb_fresh (release_used env n st) = lb_fresh st" "lb_fresh (charge_used env n st) = lb_fresh st"
  "lb_fresh (set_cache a f st) = lb_fresh st" "lb_fresh (set_item a g st) = lb_fresh st" "lb_fresh (set_request a h st) = lb_fresh st"
  by (simp_all add: release_used_def charge_used_def set_cache_def set_item_def set_request_def)

lemma fresh_release [simp]: "lb_fresh (release_selection env selection st) = lb_fresh st"
  by (simp add: release_selection_def drop_reader_def split: option.split)

lemma leaves_evict: "leaves st (evict env entry st)"
proof -
  have "cache_at (evict env entry st) a = None \<or> entry_view (evict env entry st) a = entry_view st a" for a
  proof (cases "a = ch_address entry")
    case True
    then show ?thesis by (auto simp: cache_at_def evict_def find_None_iff)
  qed (simp add: entry_view_evict)
  moreover have "lb_fresh (evict env entry st) = lb_fresh st" by (simp add: evict_def)
  ultimately show ?thesis by (simp add: leaves_def views_left_def requests_left_same)
qed

lemma leaves_retain_snd: "leaves st (snd (retain env additional st))"
proof (induction env additional st rule: retain.induct)
  case (1 env additional st)
  then show ?case by (subst retain.simps) (auto split: option.split intro: leaves_trans [OF leaves_evict])
qed

lemma leaves_retain: "retain env additional st = (kept, st') \<Longrightarrow> leaves st st'"
  using leaves_retain_snd [of st env additional] by simp

lemma leaves_release: "leaves st (release_selection env selection st)"
  by (rule leaves_same) simp_all

lemma leaves_item:
  assumes "lobby_item env owner name version st = (result, st')"
  shows "leaves st st'"
proof -
  have added: "leaves s (s\<lparr>lb_fresh := Suc (lb_fresh s), lb_items := is, lb_used := u\<rparr>)" for s :: "'a LobbyService" and "is" u
    by (rule leaves_same) (simp_all add: entry_view_def cache_at_def)
  then show ?thesis using assms
    by (auto simp: lobby_item_def charge_used_def dest: leaves_retain leaves_trans [OF _ added]
        split: if_splits option.splits prod.splits bool.splits)
qed

lemma leaves_publish:
  assumes "lobby_publish env address bytes st = (result, st')"
  shows "leaves st st'"
proof -
  have written: "leaves s (set_item b g (s\<lparr>lb_used := u\<rparr>))" for s :: "'a LobbyService" and b g u
    by (rule leaves_same) (simp_all add: set_item_def entry_view_def cache_at_def)
  show ?thesis using assms
    by (auto simp: lobby_publish_def publish_item_def Let_def written dest: leaves_retain leaves_trans [OF _ written]
        split: if_splits option.splits prod.splits)
qed

lemma leaves_clear: "leaves st (lobby_clear env address st)"
  by (rule leaves_same) (simp_all add: lobby_clear_def clear_item_def Let_def split: option.split)

lemma leaves_cancel: "leaves st (lobby_cancel env address st)"
proof (cases "request_at st address")
  case (Some r)
  have "requests_left st (lobby_cancel env address st)"
    unfolding requests_left_def
    by (intro conjI exI [of _ "filter (\<lambda>r. rq_address r \<noteq> address) (lb_requests st)"] exI [of _ "[]"])
      (simp_all add: lobby_cancel_def Some Let_def)
  then show ?thesis by (simp add: leaves_def views_left_def)
qed (simp add: lobby_cancel_def)

lemma leaves_cached: "cached_begin lobby name version st = Some (address, record', st') \<Longrightarrow> leaves st st'"
  by (rule leaves_same) (auto simp: cached_begin_def entry_view_cached split: option.splits)

lemma leaves_add_request: "leaves st (snd (add_request env owner selection lobby version callback available st))"
proof -
  let ?r = "\<lparr>rq_address = lb_fresh st, rq_owner = owner, rq_cache = selection, rq_lobby = lobby, rq_version = version,
      rq_callback = Some callback, rq_failure = LobbyUnavailable, rq_phase = (if available then RequestPending else RequestReady)\<rparr>"
  have "requests_left st (snd (add_request env owner selection lobby version callback available st))"
    unfolding requests_left_def by (intro conjI exI [of _ "lb_requests st"] exI [of _ "[?r]"]) (simp_all add: add_request_def not_due_def)
  then show ?thesis by (simp add: leaves_def views_left_def)
qed

lemma leaves_add_cache: "leaves st (snd (add_cache env lobby key st))"
proof -
  have "cache_at (snd (add_cache env lobby key st)) a = cache_at st a" if "a < lb_fresh st" for a
  proof -
    have "List.find (\<lambda>e. ch_address e = a) (es @ [e]) = List.find (\<lambda>e. ch_address e = a) es" if "ch_address e \<noteq> a" for es and e :: Cache
      using that by (induction es) simp_all
    then show ?thesis using that by (simp add: cache_at_def add_cache_def charge_used_def)
  qed
  then have "views_left st (snd (add_cache env lobby key st))" by (auto simp: views_left_def entry_view_def)
  then show ?thesis by (simp add: leaves_def requests_left_same add_cache_def)
qed

lemma leaves_accept: "leaves st (snd (accept_refresh env owner lobby key version callback available selection st))"
proof -
  have group: "leaves s (add_group env lobby s)" for s by (rule leaves_same) (simp_all add: add_group_def)
  have again: "leaves s (charge_used env n (set_cache b (\<lambda>e. e\<lparr>ch_payload_charge := m\<rparr>) s))" for s n b m by (rule leaves_same) simp_all
  define first where "first = (case selection of
      Some entry \<Rightarrow> (Some (ch_address entry), charge_used env (size_minus env (lb_maximum_payload st) (ch_payload_charge entry))
        (set_cache (ch_address entry) (\<lambda>e. e\<lparr>ch_payload_charge := lb_maximum_payload st\<rparr>) st))
    | None \<Rightarrow> if available then (\<lambda>(a, st). (Some a, st)) (add_cache env lobby key st) else (None, st))"
  have "leaves st (snd first)" using leaves_add_cache [of st env lobby key] again
    by (auto simp: first_def split: option.split prod.split)
  moreover have "leaves s (if b then add_group env lobby s else s)" for b s using group by simp
  moreover have "accept_refresh env owner lobby key version callback available selection st =
      (let s = (if available \<and> lobby \<notin> fst ` set (lb_groups (snd first)) then add_group env lobby (snd first) else snd first)
       in add_request env owner (fst first) lobby version callback available s)"
    by (simp add: accept_refresh_def first_def Let_def case_prod_beta)
  ultimately show ?thesis using leaves_add_request leaves_trans by (metis (no_types, lifting))
qed

lemma leaves_refresh: "leaves st (snd (lobby_refresh env owner lobby name version callback st))"
proof -
  have "leaves st (snd (start_refresh env owner lobby key version callback available selection st))" for key callback available selection
  proof -
    define charge where "charge = refresh_charge env available selection key st +
      (if available \<and> lobby \<notin> fst ` set (lb_groups st) then group_size env else 0) + request_size env"
    obtain kept st' where kept: "retain env charge (hold selection st) = (kept, st')" by (cases "retain env charge (hold selection st)")
    have "leaves st (hold selection st)" by (rule leaves_same) (simp_all add: hold_def split: option.split)
    then have left: "leaves st st'" using leaves_retain [OF kept] by (rule leaves_trans)
    have restored: "leaves st' (set_cache b (\<lambda>e. e\<lparr>ch_readers := n\<rparr>) st')" for b n by (rule leaves_same) simp_all
    show ?thesis using kept left leaves_trans [OF left leaves_accept] leaves_trans [OF left restored]
      by (cases kept) (auto simp: start_refresh_def charge_def Let_def split: option.split)
  qed
  note started = this
  show ?thesis by (simp add: lobby_refresh_def started split: option.split)
qed

lemma leaves_calls: "leaves st (run_calls env call st)"
proof (induction call arbitrary: st)
  case (Lobby_Register owner name version next')
  then have "leaves s (run_calls env (next' result) s)" for result s by simp
  then show ?case by (auto split: prod.split intro: leaves_trans [OF leaves_item])
next
  case (Lobby_Cached lobby name version callback next')
  have next': "leaves s (run_calls env (next' b) s)" for b s by (rule Lobby_Cached(2)) simp
  show ?case
  proof (cases callback)
    case (Some f)
    have "leaves s (run_calls env (f record') s)" for record' s using Lobby_Cached(1) Some by auto
    then have "leaves st (run_calls env (next' True) (release_selection env (Some a) (run_calls env (f record') st')))"
      if "cached_begin lobby name version st = Some (a, record', st')" for a record' st'
      using leaves_trans [OF leaves_trans [OF leaves_cached [OF that]] leaves_trans [OF leaves_release next']] by blast
    then show ?thesis using Some next' by (simp split: option.split)
  qed (simp add: next')
next
  case (Lobby_Refresh owner lobby name version callback next')
  have "leaves s (run_calls env (next' result) s)" for result s by (rule Lobby_Refresh(2)) simp
  then show ?case using leaves_trans [OF leaves_refresh [of st env owner lobby name version callback]] by (simp add: case_prod_beta)
next
  case (Lobby_Publish address bytes next')
  then have "leaves s (run_calls env (next' problem) s)" for problem s by simp
  then show ?case by (auto split: prod.split intro: leaves_trans [OF leaves_publish])
next
  case (Lobby_Cancel address next')
  then show ?case by (auto intro: leaves_trans [OF leaves_cancel])
next
  case (Lobby_Clear address next')
  then show ?case by (auto intro: leaves_trans [OF leaves_clear])
qed simp_all

section \<open>A pass\<close>

definition settled :: "LobbyRequest \<Rightarrow> LobbyRequest" where
  "settled r = r\<lparr>rq_phase := RequestDelivered, rq_callback := None, rq_cache := None\<rparr>"

definition marked :: "'w lobby_env \<Rightarrow> LobbyRequest \<Rightarrow> LobbyRequest" where
  "marked env r = (if rq_phase r = RequestReady \<and> en_state env (rq_owner r) = PInstalled then r\<lparr>rq_phase := RequestDelivering\<rparr> else r)"

text \<open>
  A sequence of callbacks: each line is the address of a request, its callback and the record, and the service runs the
  callback on that record after it has settled the request, and lets go of the entry when it returns.
\<close>

inductive callbacks_run :: "'w lobby_env \<Rightarrow> 'w LobbyService \<Rightarrow> (nat \<times> (LobbyRecord \<Rightarrow> lobby_call) \<times> LobbyRecord) list \<Rightarrow> 'w LobbyService \<Rightarrow> bool"
  for env where
  idle: "callbacks_run env st [] st"
| called: "r \<in> set (lb_requests st) \<Longrightarrow> rq_callback r = Some callback \<Longrightarrow>
    callbacks_run env (release_selection env (rq_cache r) (run_calls env (callback record') (begin_delivery env r st))) calls st' \<Longrightarrow>
    callbacks_run env st ((rq_address r, callback, record') # calls) st'"

inductive_cases callbacks_runE: "callbacks_run env st calls st'"

text \<open>The requests that are due, in the order in which they are delivered.\<close>

definition due_addresses :: "'w LobbyService \<Rightarrow> nat list" where
  "due_addresses st = map rq_address (filter (\<lambda>r. rq_phase r = RequestDelivering) (lb_requests st))"

lemma settled_marked [simp]: "settled (marked env r) = settled r" "rq_address (marked env r) = rq_address r"
  "rq_callback (marked env r) = rq_callback r" "rq_cache (marked env r) = rq_cache r"
  by (simp_all add: settled_def marked_def)

lemma settled_fields [simp]: "rq_address (settled r) = rq_address r" "rq_phase (settled r) = RequestDelivered"
  by (simp_all add: settled_def)

lemma begin_requests:
  "lb_requests (begin_delivery env r st) = map (\<lambda>q. if rq_address q = rq_address r then settled q else q) (lb_requests st)"
  "lb_fresh (begin_delivery env r st) = lb_fresh st"
  by (simp_all add: begin_delivery_def set_request_def settled_def split: option.split)

lemma delivering_first:
  assumes "delivering st = Some r"
  obtains before after where "lb_requests st = before @ r # after" "list_all (\<lambda>q. rq_phase q \<noteq> RequestDelivering) before"
    "rq_phase r = RequestDelivering"
proof -
  from assms obtain i where i: "i < length (lb_requests st)" "rq_phase (lb_requests st ! i) = RequestDelivering" "r = lb_requests st ! i"
    "\<forall>j < i. rq_phase (lb_requests st ! j) \<noteq> RequestDelivering" by (auto simp: delivering_def find_Some_iff)
  have "list_all (\<lambda>q. rq_phase q \<noteq> RequestDelivering) (take i (lb_requests st))" using i(1,4) by (simp add: list_all_length)
  moreover have "lb_requests st = take i (lb_requests st) @ r # drop (Suc i) (lb_requests st)" using i(1,3) by (simp add: id_take_nth_drop)
  ultimately show ?thesis using that i(2,3) by blast
qed

text \<open>While a pass runs: a request of before is as it was marked or has been delivered, a new one is not due, and no entry that is
  still there has changed.\<close>

definition in_delivery :: "'w lobby_env \<Rightarrow> 'w LobbyService \<Rightarrow> 'w LobbyService \<Rightarrow> bool" where
  "in_delivery env start st \<longleftrightarrow> lb_fresh start \<le> lb_fresh st \<and> views_left start st \<and> (\<forall>q \<in> set (lb_requests st).
    (\<exists>r \<in> set (lb_requests start). q = marked env r \<or> rq_phase (marked env r) = RequestDelivering \<and> q = settled r) \<or>
    not_due (lb_fresh start) q)"

lemma leavesD:
  assumes "leaves st st'"
  shows "lb_fresh st \<le> lb_fresh st'" "views_left st st'"
    "q \<in> set (lb_requests st') \<Longrightarrow> q \<in> set (lb_requests st) \<or> not_due (lb_fresh st) q"
proof -
  obtain old new where new: "lb_requests st' = old @ new" "subseq old (lb_requests st)" "list_all (not_due (lb_fresh st)) new"
    and fresh: "lb_fresh st \<le> lb_fresh st'" and views: "views_left st st'"
    using assms unfolding leaves_def requests_left_def by blast
  show "lb_fresh st \<le> lb_fresh st'" "views_left st st'" by (fact fresh, fact views)
  show "q \<in> set (lb_requests st') \<Longrightarrow> q \<in> set (lb_requests st) \<or> not_due (lb_fresh st) q"
    using new subseq_members [OF new(2)] by (auto simp: list_all_iff)
qed

lemma not_due_later: "not_due n q \<Longrightarrow> m \<le> n \<Longrightarrow> not_due m q"
  by (auto simp: not_due_def)

lemma in_delivery_left:
  assumes "in_delivery env start st" and "leaves st st'"
  shows "in_delivery env start st'"
proof -
  have fresh: "lb_fresh start \<le> lb_fresh st" and views: "views_left start st" using assms(1) by (simp_all add: in_delivery_def)
  have "(\<exists>r \<in> set (lb_requests start). q = marked env r \<or> rq_phase (marked env r) = RequestDelivering \<and> q = settled r) \<or>
      not_due (lb_fresh start) q" if "q \<in> set (lb_requests st')" for q
    using leavesD(3) [OF assms(2) that] assms(1) not_due_later [OF _ fresh] unfolding in_delivery_def by blast
  then show ?thesis using views_left_trans [OF views leavesD(2) [OF assms(2)] fresh] fresh leavesD(1) [OF assms(2)]
    by (simp add: in_delivery_def)
qed

lemma in_delivery_begin:
  assumes ok: "lobby_ok env held st" and now: "in_delivery env start st" and r: "r \<in> set (lb_requests st)" "rq_phase r = RequestDelivering"
  shows "in_delivery env start (begin_delivery env r st)"
proof -
  have origin: "\<exists>s \<in> set (lb_requests start). r = marked env s"
    using now r unfolding in_delivery_def not_due_def by fastforce
  have "(\<exists>s \<in> set (lb_requests start). q = marked env s \<or> rq_phase (marked env s) = RequestDelivering \<and> q = settled s) \<or>
    not_due (lb_fresh start) q" if inside: "q \<in> set (lb_requests (begin_delivery env r st))" for q
  proof -
    obtain p where p: "p \<in> set (lb_requests st)" "q = (if rq_address p = rq_address r then settled p else p)"
      using inside unfolding begin_requests by auto
    show ?thesis
    proof (cases "rq_address p = rq_address r")
      case False
      then show ?thesis using p now unfolding in_delivery_def by auto
    next
      case True
      then have "p = r" using distinct_map_eq [OF lobby_okD(8) [OF ok] p(1) r(1)] by simp
      then show ?thesis using p(2) origin r(2) by auto
    qed
  qed
  moreover have "views_left start (begin_delivery env r st)"
  proof -
    have "cache_at (begin_delivery env r st) a = None \<longleftrightarrow> cache_at st a = None" for a
      using entry_view_begin [of env r st a] by (auto simp: entry_view_def)
    then show ?thesis using now by (simp add: in_delivery_def views_left_def)
  qed
  ultimately show ?thesis using now by (simp add: in_delivery_def begin_requests)
qed

text \<open>The record is the one of the request as it was when the pass began.\<close>

lemma delivered_same:
  assumes start: "lobby_ok env held start" and ok: "lobby_ok env held st" and now: "in_delivery env start st"
    and r: "r \<in> set (lb_requests st)" "rq_phase r = RequestDelivering"
  obtains s where "s \<in> set (lb_requests start)" "r = marked env s" "delivered_record r st = delivered_record s start"
proof -
  obtain s where s: "s \<in> set (lb_requests start)" "r = marked env s"
    using now r unfolding in_delivery_def not_due_def by fastforce
  have fields: "rq_lobby r = rq_lobby s" "rq_version r = rq_version s" "rq_failure r = rq_failure s" "rq_cache r = rq_cache s"
    by (simp_all add: s(2) marked_def)
  have "delivered_record r st = delivered_record s start"
  proof (cases "rq_cache s")
    case None
    then show ?thesis by (simp add: delivered_record_def failure_record_def fields)
  next
    case (Some a)
    obtain e where e: "cache_at st a = Some e" using delivered_entry [OF ok r, of a] fields(4) Some by metis
    obtain e' where "e' \<in> set (lb_cache start)" "ch_address e' = a" using request_okD [OF start s(1)] Some unfolding request_ok_def by blast
    then have "cache_at start a = Some e'" "a < lb_fresh start"
      using cache_at_iff [OF start] entry_okD [OF start] unfolding entry_ok_def by auto
    then have "entry_view st a = entry_view start a" using now e by (auto simp: in_delivery_def views_left_def)
    then have "ch_observation e = ch_observation e'" using e \<open>cache_at start a = Some e'\<close> by (simp add: entry_view_def)
    then show ?thesis using e \<open>cache_at start a = Some e'\<close> Some
      by (simp add: delivered_record_def failure_record_def fields split: option.split)
  qed
  then show ?thesis using that s by blast
qed

text \<open>One turn of the loop.\<close>

lemma turn_leaves:
  assumes "rq_callback r = Some callback"
  shows "leaves (begin_delivery env r st) (deliver_request env r st)"
  using leaves_trans [OF leaves_calls leaves_release] assms by (simp add: deliver_request_def Let_def)

lemma turn_due:
  assumes ok: "lobby_ok env held st" and first: "delivering st = Some r" and callback: "rq_callback r = Some callback"
  shows "\<exists>rest. due_addresses st = rq_address r # rest \<and> subseq (due_addresses (deliver_request env r st)) rest"
    and "a \<in> set (due_addresses st) \<Longrightarrow> a = rq_address r \<or> a \<in> set (due_addresses (deliver_request env r st)) \<or>
      a \<notin> rq_address ` set (lb_requests (deliver_request env r st))"
    and "q \<in> set (lb_requests (deliver_request env r st)) \<Longrightarrow> rq_address q \<in> rq_address ` set (lb_requests st) \<or> lb_fresh st \<le> rq_address q"
    and "lb_fresh st \<le> lb_fresh (deliver_request env r st)"
proof -
  let ?st' = "deliver_request env r st"
  let ?settle = "\<lambda>q. if rq_address q = rq_address r then settled q else q"
  obtain old new where left: "lb_requests ?st' = old @ new" "subseq old (map ?settle (lb_requests st))" "list_all (not_due (lb_fresh st)) new"
    "lb_fresh st \<le> lb_fresh ?st'"
    using turn_leaves [OF callback, of env st] unfolding leaves_def requests_left_def begin_requests by blast
  obtain before after where parts: "lb_requests st = before @ r # after" "list_all (\<lambda>q. rq_phase q \<noteq> RequestDelivering) before"
    "rq_phase r = RequestDelivering" using first by (rule delivering_first)
  have distinct: "distinct (map rq_address (lb_requests st))" by (rule lobby_okD(8) [OF ok])
  then have others: "rq_address q \<noteq> rq_address r" if "q \<in> set before \<or> q \<in> set after" for q
    using that unfolding parts(1) by (auto simp: image_iff)
  have same: "map ?settle before = before" "map ?settle after = after" using others by (auto intro!: map_idI)
  have none: "filter (\<lambda>q. rq_phase q = RequestDelivering) before = []" using parts(2) by (auto simp: list_all_iff filter_empty_conv)
  have begun: "map rq_address (filter (\<lambda>q. rq_phase q = RequestDelivering) (map ?settle (lb_requests st))) =
      map rq_address (filter (\<lambda>q. rq_phase q = RequestDelivering) after)"
    unfolding parts(1) map_append list.map(2) same by (simp add: none)
  have "filter (\<lambda>q. rq_phase q = RequestDelivering) new = []" using left(3) by (auto simp: list_all_iff filter_empty_conv not_due_def)
  then have now: "due_addresses ?st' = map rq_address (filter (\<lambda>q. rq_phase q = RequestDelivering) old)" by (simp add: due_addresses_def left(1))
  have "subseq (due_addresses ?st') (map rq_address (filter (\<lambda>q. rq_phase q = RequestDelivering) after))"
    unfolding now begun [symmetric] by (intro subseq_map subseq_filter left(2))
  moreover have "due_addresses st = rq_address r # map rq_address (filter (\<lambda>q. rq_phase q = RequestDelivering) after)"
    by (simp add: due_addresses_def parts(1,3) none)
  ultimately show "\<exists>rest. due_addresses st = rq_address r # rest \<and> subseq (due_addresses ?st') rest" by blast
  have older: "rq_address q < lb_fresh st" if "q \<in> set (lb_requests st)" for q using request_okD [OF ok that] by (simp add: request_ok_def)
  have olds: "\<exists>p \<in> set (lb_requests st). q = ?settle p" if "q \<in> set old" for q using that subseq_members [OF left(2)] by auto
  show "rq_address q \<in> rq_address ` set (lb_requests st) \<or> lb_fresh st \<le> rq_address q" if "q \<in> set (lb_requests ?st')" for q
  proof (cases "q \<in> set old")
    case True
    then obtain p where p: "p \<in> set (lb_requests st)" "q = ?settle p" using olds by blast
    then have "rq_address q = rq_address p" by simp
    then show ?thesis using p(1) by simp
  next
    case False
    then show ?thesis using left(1,3) that by (auto simp: list_all_iff not_due_def)
  qed
  show "lb_fresh st \<le> lb_fresh ?st'" by (rule left(4))
  assume "a \<in> set (due_addresses st)"
  then obtain p where p: "p \<in> set (lb_requests st)" "rq_address p = a" "rq_phase p = RequestDelivering" by (auto simp: due_addresses_def)
  show "a = rq_address r \<or> a \<in> set (due_addresses ?st') \<or> a \<notin> rq_address ` set (lb_requests ?st')"
  proof (cases "a = rq_address r \<or> a \<notin> rq_address ` set (lb_requests ?st')")
    case False
    then obtain q where q: "q \<in> set (lb_requests ?st')" "rq_address q = a" "a \<noteq> rq_address r" by auto
    then have "q \<in> set old" using left(1,3) older [OF p(1)] p(2) by (auto simp: list_all_iff not_due_def)
    then obtain p' where p': "p' \<in> set (lb_requests st)" "q = ?settle p'" using olds by blast
    then have "rq_address p' = rq_address p" using q(2) p(2) by (auto split: if_splits)
    then have "p' = p" using distinct_map_eq [OF distinct p'(1) p(1)] by simp
    then have "q = p" using p' q(3) p(2) by simp
    then show ?thesis using q(1) p by (auto simp: due_addresses_def)
  qed blast
qed

lemma in_delivery_turn:
  assumes ok: "lobby_ok env held st" and now: "in_delivery env start st" and r: "r \<in> set (lb_requests st)" "rq_phase r = RequestDelivering"
    and callback: "rq_callback r = Some callback"
  shows "in_delivery env start (deliver_request env r st)"
  by (rule in_delivery_left [OF in_delivery_begin [OF ok now r] turn_leaves [OF callback]])

text \<open>The whole loop.\<close>

lemma deliver_due_ends:
  assumes "lobby_ok env held st" and "in_delivery env start st"
  shows "in_delivery env start (deliver_due env st) \<and> delivering (deliver_due env st) = None \<and>
    (\<forall>q \<in> set (lb_requests (deliver_due env st)). rq_address q \<in> rq_address ` set (lb_requests st) \<or> lb_fresh st \<le> rq_address q)"
  using assms
proof (induction env st rule: deliver_due.induct)
  case (1 env st)
  show ?case
  proof (cases "delivering st")
    case None
    then show ?thesis using 1(3) by (simp add: deliver_due.simps)
  next
    case (Some r)
    note ok = 1(2) and now = 1(3)
    have r: "r \<in> set (lb_requests st)" "rq_phase r = RequestDelivering" using Some unfolding delivering_def by (auto dest: find_SomeD)
    then obtain callback where callback: "rq_callback r = Some callback" using request_okD [OF ok r(1)] by (auto simp: request_ok_def)
    note turn = turn_due(3,4) [OF ok Some callback]
    note ih = 1(1) [OF Some deliver_request_ok [OF ok r(1)] in_delivery_turn [OF ok now r callback]]
    have "rq_address q \<in> rq_address ` set (lb_requests st) \<or> lb_fresh st \<le> rq_address q"
      if "q \<in> set (lb_requests (deliver_due env (deliver_request env r st)))" for q
    proof (cases "lb_fresh st \<le> rq_address q")
      case False
      then have "rq_address q \<in> rq_address ` set (lb_requests (deliver_request env r st))" using ih that turn(2) by fastforce
      then show ?thesis using turn(1) False by fastforce
    qed simp
    then show ?thesis using ih Some by (simp add: deliver_due.simps [of env st])
  qed
qed

lemma deliver_due_calls:
  assumes start: "lobby_ok env held start"
  shows "lobby_ok env held st \<Longrightarrow> in_delivery env start st \<Longrightarrow>
    \<exists>calls. callbacks_run env st calls (deliver_due env st) \<and> subseq (map fst calls) (due_addresses st) \<and>
      (\<forall>(address, callback, record') \<in> set calls. \<exists>r \<in> set (lb_requests start). rq_address r = address \<and> rq_callback r = Some callback \<and>
        rq_phase (marked env r) = RequestDelivering \<and> record' = delivered_record r start) \<and>
      (\<forall>a \<in> set (due_addresses st). a \<in> fst ` set calls \<or> a \<notin> rq_address ` set (lb_requests (deliver_due env st)))"
proof (induction "due st" arbitrary: st rule: less_induct)
  case less
  show ?case
  proof (cases "delivering st")
    case None
    then have "due_addresses st = []" by (auto simp: due_addresses_def delivering_def find_None_iff filter_empty_conv)
    then show ?thesis using None callbacks_run.idle [of env st]
      by (intro exI [of _ "[]"]) (simp add: deliver_due.simps [of env st])
  next
    case (Some r)
    note ok = less.prems(1) and now = less.prems(2)
    have r: "r \<in> set (lb_requests st)" "rq_phase r = RequestDelivering" using Some unfolding delivering_def by (auto dest: find_SomeD)
    then obtain callback where callback: "rq_callback r = Some callback" using request_okD [OF ok r(1)] by (auto simp: request_ok_def)
    let ?turn = "deliver_request env r st"
    note turn = turn_due [OF ok Some callback]
    note after = deliver_request_ok [OF ok r(1)] in_delivery_turn [OF ok now r callback]
    from less.hyps [OF due_deliver [OF Some] after] obtain calls where
      calls: "callbacks_run env ?turn calls (deliver_due env ?turn)" "subseq (map fst calls) (due_addresses ?turn)"
        "\<forall>(address, callback, record') \<in> set calls. \<exists>r \<in> set (lb_requests start). rq_address r = address \<and> rq_callback r = Some callback \<and>
          rq_phase (marked env r) = RequestDelivering \<and> record' = delivered_record r start"
        "\<forall>a \<in> set (due_addresses ?turn). a \<in> fst ` set calls \<or> a \<notin> rq_address ` set (lb_requests (deliver_due env ?turn))" by blast
    have ends: "deliver_due env st = deliver_due env ?turn" using Some by (simp add: deliver_due.simps [of env st])
    let ?calls = "(rq_address r, callback, delivered_record r st) # calls"
    have "?turn = release_selection env (rq_cache r) (run_calls env (callback (delivered_record r st)) (begin_delivery env r st))"
      by (simp add: deliver_request_def callback Let_def)
    then have "callbacks_run env st ?calls (deliver_due env st)"
      unfolding ends using callbacks_run.called [OF r(1) callback] calls(1) by metis
    moreover have "subseq (map fst ?calls) (due_addresses st)" using turn(1) calls(2) subseq_order.trans by fastforce
    moreover obtain s where "s \<in> set (lb_requests start)" "r = marked env s" "delivered_record r st = delivered_record s start"
      by (rule delivered_same [OF start ok now r])
    then have "\<exists>s \<in> set (lb_requests start). rq_address s = rq_address r \<and> rq_callback s = Some callback \<and>
        rq_phase (marked env s) = RequestDelivering \<and> delivered_record r st = delivered_record s start"
      using callback r(2) by (intro bexI [of _ s]) auto
    then have "\<forall>(address, callback, record') \<in> set ?calls. \<exists>r \<in> set (lb_requests start). rq_address r = address \<and>
        rq_callback r = Some callback \<and> rq_phase (marked env r) = RequestDelivering \<and> record' = delivered_record r start"
      using calls(3) by simp
    moreover have "a \<in> fst ` set ?calls \<or> a \<notin> rq_address ` set (lb_requests (deliver_due env st))" if "a \<in> set (due_addresses st)" for a
    proof (rule ccontr)
      assume missed: "\<not> ?thesis"
      then have gone: "a \<notin> rq_address ` set (lb_requests ?turn)" using turn(2) [OF that] calls(4) ends by auto
      have "a < lb_fresh st" using that request_okD [OF ok] by (auto simp: due_addresses_def request_ok_def)
      then show False using deliver_due_ends [OF after] gone missed turn(4) unfolding ends by fastforce
    qed
    ultimately show ?thesis by blast
  qed
qed

text \<open>C21: Delivery settles each result once. A delivery pass ends, whatever its callbacks call. It runs the callbacks of requests of
  before the pass that were due - ready, with their patch installed - in their order and each at most once, on the record of
  what the request had read when the pass began; a due request whose callback has not run was cancelled before its turn.
  Afterwards a due request of before that is still there is settled: its callback and its entry are gone, so that it can
  never be called again. Every other request of before is untouched unless cancelled, and a request that a callback made
  waits for a later pass.\<close>
theorem deliver_settles:
  assumes "lobby_ok env held st"
  shows "(\<exists>calls. callbacks_run env (mark_ready env st) calls (deliver env st) \<and>
      distinct (map fst calls) \<and> subseq (map fst calls) (map rq_address (lb_requests st)) \<and>
      (\<forall>(address, callback, record') \<in> set calls. \<exists>r \<in> set (lb_requests st). rq_address r = address \<and> rq_callback r = Some callback \<and>
        rq_phase (marked env r) = RequestDelivering \<and> record' = delivered_record r st) \<and>
      (\<forall>r \<in> set (lb_requests st). rq_phase (marked env r) = RequestDelivering \<longrightarrow>
        rq_address r \<in> fst ` set calls \<or> rq_address r \<notin> rq_address ` set (lb_requests (deliver env st)))) \<and>
    (\<forall>q \<in> set (lb_requests (deliver env st)).
      (\<exists>r \<in> set (lb_requests st). q = (if rq_phase (marked env r) = RequestDelivering then settled r else r)) \<or>
      lb_fresh st \<le> rq_address q \<and> (rq_phase q = RequestPending \<or> rq_phase q = RequestReady))"
proof -
  have requests: "lb_requests (mark_ready env st) = map (marked env) (lb_requests st)" by (simp add: mark_ready_def marked_def)
  have begun: "in_delivery env st (mark_ready env st)"
    unfolding in_delivery_def requests by (auto simp: mark_ready_def views_left_def entry_view_def cache_at_def)
  note ok = mark_ready_ok [OF assms]
  obtain calls where calls: "callbacks_run env (mark_ready env st) calls (deliver env st)" "subseq (map fst calls) (due_addresses (mark_ready env st))"
    "\<forall>(address, callback, record') \<in> set calls. \<exists>r \<in> set (lb_requests st). rq_address r = address \<and> rq_callback r = Some callback \<and>
      rq_phase (marked env r) = RequestDelivering \<and> record' = delivered_record r st"
    "\<forall>a \<in> set (due_addresses (mark_ready env st)). a \<in> fst ` set calls \<or> a \<notin> rq_address ` set (lb_requests (deliver env st))"
    using deliver_due_calls [OF assms ok begun] unfolding deliver_def by blast
  have due: "due_addresses (mark_ready env st) = map rq_address (filter (\<lambda>r. rq_phase (marked env r) = RequestDelivering) (lb_requests st))"
    by (simp add: due_addresses_def requests filter_map comp_def)
  have order: "subseq (map fst calls) (map rq_address (lb_requests st))"
    using subseq_order.trans [OF calls(2)] unfolding due by (meson subseq_filter_left subseq_map)
  then have "distinct (map fst calls)" using lobby_okD(8) [OF assms] by (metis subseqs_distinctD in_set_subseqs)
  then have ran: "callbacks_run env (mark_ready env st) calls (deliver env st) \<and>
      distinct (map fst calls) \<and> subseq (map fst calls) (map rq_address (lb_requests st)) \<and>
      (\<forall>(address, callback, record') \<in> set calls. \<exists>r \<in> set (lb_requests st). rq_address r = address \<and> rq_callback r = Some callback \<and>
        rq_phase (marked env r) = RequestDelivering \<and> record' = delivered_record r st) \<and>
      (\<forall>r \<in> set (lb_requests st). rq_phase (marked env r) = RequestDelivering \<longrightarrow>
        rq_address r \<in> fst ` set calls \<or> rq_address r \<notin> rq_address ` set (lb_requests (deliver env st)))"
    using calls(1,3,4) order unfolding due by auto
  have left: "in_delivery env st (deliver env st)" and ended: "delivering (deliver env st) = None"
    using deliver_due_ends [OF ok begun] by (simp_all add: deliver_def)
  have "(\<exists>r \<in> set (lb_requests st). q = (if rq_phase (marked env r) = RequestDelivering then settled r else r)) \<or>
      lb_fresh st \<le> rq_address q \<and> (rq_phase q = RequestPending \<or> rq_phase q = RequestReady)" if q: "q \<in> set (lb_requests (deliver env st))" for q
  proof -
    have "rq_phase q \<noteq> RequestDelivering" using ended q unfolding delivering_def find_None_iff_all by blast
    moreover have "rq_phase (marked env r) \<noteq> RequestDelivering \<Longrightarrow> marked env r = r" for r by (auto simp: marked_def split: if_splits)
    ultimately show ?thesis using left q unfolding in_delivery_def not_due_def by metis
  qed
  then show ?thesis using ran by blast
qed

text \<open>The result that the sample patch asked for.\<close>

lemma lobby_sample_delivered:
  "map rq_address (lb_requests (deliver (fst (sample_after sample_read)) (snd (sample_after sample_read)))) = [2]"
proof -
  have return: "lb_requests (deliver_request env r st) = lb_requests (begin_delivery env r st)"
    if "rq_callback r = Some (\<lambda>_. Lobby_Return)" for env :: "sample_world lobby_env" and r st
    using that by (simp add: deliver_request_def Let_def)
  show ?thesis
    by (simp add: lobby_sample_read_state sample_asked_def deliver_def mark_ready_def deliver_due.simps delivering_def return begin_requests)
qed

theorem deliver_settles_witness:
  "\<exists>calls. callbacks_run (fst (sample_after sample_read)) (mark_ready (fst (sample_after sample_read)) (snd (sample_after sample_read))) calls
      (deliver (fst (sample_after sample_read)) (snd (sample_after sample_read))) \<and>
    map (\<lambda>(address, callback, record'). (address, lr_value record')) calls = [(2, [7, 8, 9])]"
proof -
  let ?st = "snd (sample_after sample_read)" and ?env = "fst (sample_after sample_read)"
  obtain r where st: "lb_requests ?st = [r]" and r: "rq_address r = 2" "rq_phase (marked ?env r) = RequestDelivering"
    "lr_value (delivered_record r ?st) = [7, 8, 9]"
    by (simp add: lobby_sample_read_state sample_asked_def marked_def delivered_record_def cache_at_def observation_record_def record_for_def)
  obtain calls where calls: "callbacks_run ?env (mark_ready ?env ?st) calls (deliver ?env ?st)" "subseq (map fst calls) [rq_address r]"
    "\<forall>(address, callback, record') \<in> set calls. \<exists>r \<in> set (lb_requests ?st). rq_address r = address \<and> rq_callback r = Some callback \<and>
        rq_phase (marked ?env r) = RequestDelivering \<and> record' = delivered_record r ?st"
    "rq_address r \<in> fst ` set calls \<or> rq_address r \<notin> rq_address ` set (lb_requests (deliver ?env ?st))"
    using deliver_settles [OF lobby_sample_ok [of sample_read]] r(2) unfolding st by auto
  have "rq_address r \<in> fst ` set calls" using calls(4) lobby_sample_delivered r(1) by (metis list.set_intros(1) set_map)
  then have "map fst calls = [2]" using calls(2) r(1) by (cases calls) (auto dest: list_emb_Nil2 split: if_splits)
  then obtain callback record' where one: "calls = [(2, callback, record')]" by (cases calls) auto
  then have "(2, callback, record') \<in> set calls" by simp
  from bspec [OF calls(3) this] have "lr_value record' = [7, 8, 9]" using r(3) unfolding st by simp
  then have "map (\<lambda>(address, callback, record'). (address, lr_value record')) calls = [(2, [7, 8, 9])]" by (simp add: one)
  with calls(1) show ?thesis by (intro exI [of _ calls] conjI)
qed

end
