(* ===== verification/Lobby_Publication.thy ===== *)
theory Lobby_Publication
  imports Lobby_Properties
begin

text \<open>
  What other members of an owned lobby read: a pass writes the text of every item that is due, and the service's record of
  what it wrote stays the text that is there.
\<close>

section \<open>The native text\<close>

text \<open>\<open>store\<close> reads the text of a lobby off the native side. The behaviour the service relies on: a write that succeeds
  stores its text and nothing else, one that fails and the other calls leave all text as it is.\<close>

definition native_text :: "('w \<Rightarrow> u64 \<Rightarrow> string \<Rightarrow> string option) \<Rightarrow> 'w lobby_env \<Rightarrow> 'w LobbyBackend \<Rightarrow> bool" where
  "native_text store env backend \<longleftrightarrow>
    (\<forall>request w l. bk_request backend = Some request \<longrightarrow> store (snd (request w l)) = store w) \<and>
    (\<forall>read w l k. bk_read backend = Some read \<longrightarrow> store (snd (read w l k)) = store w) \<and>
    (\<forall>w. store (snd (en_arrivals env w)) = store w) \<and>
    (\<forall>write' w l k v. bk_write backend = Some write' \<longrightarrow> store (snd (write' w l k v)) =
      (if fst (write' w l k v) = None then (store w)(l := (store w l)(k := v)) else store w))"

definition mirrored :: "('w \<Rightarrow> u64 \<Rightarrow> string \<Rightarrow> string option) \<Rightarrow> u64 \<Rightarrow> 'w LobbyService \<Rightarrow> bool" where
  "mirrored store owned st \<longleftrightarrow>
    (\<forall>i \<in> set (lb_items st). li_written_lobby i = owned \<longrightarrow> store (lb_world st) owned (li_key i) = li_written i)"

section \<open>Reads leave items and text alone\<close>

definition written_view :: "('w \<Rightarrow> u64 \<Rightarrow> string \<Rightarrow> string option) \<Rightarrow> 'w LobbyService \<Rightarrow>
    LobbyItem list \<times> 'w LobbyBackend \<times> (u64 \<Rightarrow> string \<Rightarrow> string option)" where
  "written_view store st = (lb_items st, lb_backend st, store (lb_world st))"

lemma written_view_frame [simp]:
  "written_view store (set_request a g st) = written_view store st" "written_view store (set_cache a f st) = written_view store st"
  "written_view store (st\<lparr>lb_used := n\<rparr>) = written_view store st" "written_view store (st\<lparr>lb_cache_use := n\<rparr>) = written_view store st"
  "written_view store (set_group lobby h st) = written_view store st" "written_view store (write_log env owner line st) = written_view store st"
  "written_view store (release_used env n st) = written_view store st" "written_view store (st\<lparr>lb_groups := gs\<rparr>) = written_view store st"
  by (simp_all add: written_view_def set_request_def set_cache_def set_group_def write_log_def release_used_def)

lemma written_view_world: "store w = store (lb_world st) \<Longrightarrow> written_view store (st\<lparr>lb_world := w\<rparr>) = written_view store st"
  by (simp add: written_view_def)

lemma written_view_release [simp]: "written_view store (release_selection env selection st) = written_view store st"
  by (simp add: release_selection_def drop_reader_def split: option.split)

lemma written_view_finish [simp]: "written_view store (finish env failure r st) = written_view store st"
  by (simp add: finish_def)

lemma written_view_read_failed [simp]: "written_view store (read_failed env r operation error st) = written_view store st"
  by (simp add: read_failed_def)

lemma written_view_complete [simp]: "written_view store (snd (complete lobby success reason st)) = written_view store st"
  by (simp add: complete_def split: option.split)

lemma written_view_arrive:
  assumes "native_text store env backend"
  shows "written_view store (arrive env st) = written_view store st"
proof -
  have completions: "written_view store (foldl (\<lambda>st (lobby, success, reason). snd (complete lobby success reason st)) s cs) = written_view store s" for s cs
    by (induction cs arbitrary: s) (auto simp: case_prod_beta)
  obtain cs w where arrivals: "en_arrivals env (lb_world st) = (cs, w)" by (cases "en_arrivals env (lb_world st)")
  have "store (snd (en_arrivals env (lb_world st))) = store (lb_world st)" using assms by (simp add: native_text_def)
  then show ?thesis by (simp add: arrive_def arrivals completions written_view_world)
qed

lemma written_view_each_request:
  assumes "\<And>st r. written_view store (step r st) = written_view store st"
  shows "written_view store (each_request P step st) = written_view store st"
proof -
  have "written_view store (foldl (\<lambda>st address. case request_at st address of None \<Rightarrow> st | Some r \<Rightarrow> if P r then step r st else st) st as) =
    written_view store st" for as
    by (induction as arbitrary: st) (auto simp: assms split: option.split)
  then show ?thesis by (simp add: each_request_def)
qed

lemma written_view_backend: "written_view store st' = written_view store st \<Longrightarrow> lb_backend st' = lb_backend st"
  by (simp add: written_view_def)

lemma written_view_read:
  assumes native: "native_text store env (lb_backend st)"
  shows "written_view store (read_entry env now lobby st a) = written_view store st"
proof (cases "cache_at st a")
  case None
  then show ?thesis by (simp add: read_entry_def)
next
  case (Some entry)
  show ?thesis
  proof (cases "bk_read (lb_backend st)")
    case None
    then show ?thesis using Some by (simp add: read_entry_def)
  next
    case read: (Some read)
    obtain result w where answer: "read (lb_world st) lobby (ch_key entry) = (result, w)" by (cases "read (lb_world st) lobby (ch_key entry)")
    have "store (snd (read (lb_world st) lobby (ch_key entry))) = store (lb_world st)" using native read by (simp add: native_text_def)
    then have same: "written_view store (st\<lparr>lb_world := w\<rparr>) = written_view store st" by (simp add: answer written_view_world)
    show ?thesis using Some read
      by (simp add: read_entry_def refuse_entry_def observe_entry_def Let_def written_view_each_request same answer
          split: option.split sum.split)
  qed
qed

lemma written_view_submit:
  assumes native: "native_text store env (lb_backend st)"
  shows "written_view store (submit_group env lobby st) = written_view store st"
proof (cases "bk_request (lb_backend st)")
  case None
  then show ?thesis by (simp add: submit_group_def set_group_def [of lobby _ st] written_view_def)
next
  case (Some request)
  let ?st = "set_group lobby (\<lambda>g. g\<lparr>gr_submitted := True\<rparr>) st"
  have st: "lb_backend ?st = lb_backend st" "lb_world ?st = lb_world st" by (simp_all add: set_group_def)
  obtain problem w where answer: "request (lb_world st) lobby = (problem, w)" by (cases "request (lb_world st) lobby")
  have "store (snd (request (lb_world st) lobby)) = store (lb_world st)" using native Some by (simp add: native_text_def)
  then have "store w = store (lb_world ?st)" by (simp add: answer st)
  from written_view_world [where st = ?st, OF this] have "written_view store (?st\<lparr>lb_world := w\<rparr>) = written_view store st" by simp
  then show ?thesis using Some answer by (simp add: submit_group_def Let_def st written_view_arrive [OF native] split: option.split)
qed

lemma written_view_fail [simp]: "written_view store (fail_group env lobby reason st) = written_view store st"
  by (simp add: fail_group_def Let_def written_view_each_request split: option.split)

lemma written_view_pump_group:
  assumes native: "native_text store env (lb_backend st)"
  shows "written_view store (pump_group env now available st lobby) = written_view store st"
proof -
  let ?arrived = "arrive env st"
  have arrived: "written_view store ?arrived = written_view store st" by (rule written_view_arrive [OF native])
  have native': "native_text store env (lb_backend s)" if "written_view store s = written_view store st" for s
    using native written_view_backend [OF that] by simp
  have reads: "written_view store (foldl (read_entry env now lobby) s as) = written_view store st" if "written_view store s = written_view store st" for s as
  proof (rule foldl_ok [where I = "\<lambda>s. written_view store s = written_view store st"])
    show "written_view store (read_entry env now lobby t a) = written_view store st" if "written_view store t = written_view store st" for t a
      using written_view_read [OF native' [OF that]] that by simp
  qed (rule that)
  have submits: "written_view store (submit_group env lobby s) = written_view store st" if "written_view store s = written_view store st" for s
    using written_view_submit [OF native' [OF that]] that by simp
  show ?thesis
  proof (cases "group_of ?arrived lobby")
    case None
    then show ?thesis using arrived by (simp add: pump_group_def Let_def)
  next
    case (Some g)
    define consumed where "consumed \<longleftrightarrow> gr_completion g \<noteq> None \<and> gr_invalidated g"
    define st1 where "st1 = (if consumed then set_group lobby (\<lambda>_. new_group) ?arrived else ?arrived)"
    have st1: "written_view store st1 = written_view store st" using arrived by (simp add: st1_def)
    have "written_view store (if submitting then submit_group env lobby st1
      else case completion of
        None \<Rightarrow> st1
      | Some False \<Rightarrow> fail_group env lobby (gr_native_reason g) st1
      | Some True \<Rightarrow> foldl (read_entry env now lobby) st1 (map ch_address (lb_cache st1))) = written_view store st" for submitting completion
      using st1 submits [OF st1] reads [OF st1] by (simp split: option.split bool.split)
    then show ?thesis unfolding pump_group_def Let_def Some option.case st1_def consumed_def by simp
  qed
qed

section \<open>One item\<close>

lemma item_at_set_item [simp]:
  assumes "\<And>i. li_address (f i) = li_address i"
  shows "item_at (set_item b f st) a = (if a = b then map_option f (item_at st a) else item_at st a)"
proof -
  have "List.find (\<lambda>i. li_address i = a) (map (\<lambda>i. if li_address i = b then f i else i) is) =
    (if a = b then map_option f (List.find (\<lambda>i. li_address i = a) is) else List.find (\<lambda>i. li_address i = a) is)" for "is"
    by (induction "is") (auto simp: assms)
  then show ?thesis by (simp add: item_at_def set_item_def)
qed

lemma item_at_frame [simp]:
  "item_at (release_used env n st) a = item_at st a" "item_at (st\<lparr>lb_world := w\<rparr>) a = item_at st a"
  "item_at (write_log env owner line st) a = item_at st a"
  by (simp_all add: item_at_def release_used_def write_log_def)

lemma set_item_outside [simp]: "lb_world (set_item a f st) = lb_world st" "lb_backend (set_item a f st) = lb_backend st"
  by (simp_all add: set_item_def)

text \<open>The record of what was written after an item and the text of its key changed.\<close>

definition due_item :: "int \<Rightarrow> 'w lobby_env \<Rightarrow> LobbyItem \<Rightarrow> bool" where
  "due_item now env item \<longleftrightarrow> en_state env (li_owner item) = PInstalled \<and> (li_desired item \<noteq> None \<or> li_withdraw item) \<and>
    (case li_attempted item of None \<Rightarrow> True | Some attempted \<Rightarrow> now - attempted \<ge> second)"

definition item_written :: "u64 \<Rightarrow> LobbyItem \<Rightarrow> LobbyItem \<Rightarrow> bool" where
  "item_written owned before after \<longleftrightarrow> li_key after = li_key before \<and> li_desired after = li_desired before \<and>
    (li_failure after \<noteq> None \<or> li_written_lobby after = owned \<and> li_written after = li_desired before)"

lemma mirrored_set_item:
  assumes ok: "lobby_ok env held st" and item: "item \<in> set (lb_items st)" and mirrored: "mirrored store owned st"
    and same: "\<And>i. li_address (f i) = li_address i" "\<And>i. li_key (f i) = li_key i"
    and items: "lb_items st' = lb_items (set_item (li_address item) f st)"
    and other: "\<And>k. k \<noteq> li_key item \<Longrightarrow> store (lb_world st') owned k = store (lb_world st) owned k"
    and new: "li_written_lobby (f item) = owned \<Longrightarrow> store (lb_world st') owned (li_key item) = li_written (f item)"
  shows "mirrored store owned st'"
  unfolding mirrored_def
proof (intro ballI impI)
  fix i
  assume i: "i \<in> set (lb_items st')" and owned: "li_written_lobby i = owned"
  have "set (lb_items st') = insert (f item) (set (lb_items st) - {item})"
    using set_at_address [OF lobby_okD(9) [OF ok] item] by (simp add: items set_item_def)
  with i consider "i = f item" | "i \<in> set (lb_items st)" "i \<noteq> item" by blast
  then show "store (lb_world st') owned (li_key i) = li_written i"
  proof cases
    case 1
    then show ?thesis using new owned same(2) by simp
  next
    case 2
    have "distinct (map li_key (lb_items st))" using lobby_okD(4) [OF ok] by (simp add: items_ok_def)
    then have "li_key i \<noteq> li_key item" using distinct_map_eq [OF _ 2(1) item] 2(2) by blast
    then show ?thesis using mirrored 2(1) owned other unfolding mirrored_def by simp
  qed
qed

text \<open>A step on one item: the others and the writer stay, the record mirrors the text.\<close>

definition item_step :: "('w \<Rightarrow> u64 \<Rightarrow> string \<Rightarrow> string option) \<Rightarrow> u64 \<Rightarrow> nat \<Rightarrow> 'w LobbyService \<Rightarrow> 'w LobbyService \<Rightarrow> bool" where
  "item_step store owned address st st' \<longleftrightarrow> mirrored store owned st' \<and> lb_backend st' = lb_backend st \<and>
    (\<forall>a. a \<noteq> address \<longrightarrow> item_at st' a = item_at st a)"

lemma item_step_trans: "item_step store owned a s t \<Longrightarrow> item_step store owned a t u \<Longrightarrow> item_step store owned a s u"
  by (simp add: item_step_def)

lemma failure_state:
  "lb_items (publication_failed env item error st) =
     lb_items (set_item (li_address item) (\<lambda>item. item\<lparr>li_failure := Some (en_diagnostic_text env error)\<rparr>) st)"
  "lb_world (publication_failed env item error st) = lb_world st" "lb_backend (publication_failed env item error st) = lb_backend st"
  "item_at (publication_failed env item error st) a =
     item_at (set_item (li_address item) (\<lambda>item. item\<lparr>li_failure := Some (en_diagnostic_text env error)\<rparr>) st) a"
  by (simp_all add: publication_failed_def Let_def set_item_def write_log_def item_at_def)

lemma write_item_step:
  assumes ok: "lobby_ok env held st" and item: "item \<in> set (lb_items st)" and mirrored: "mirrored store owned st"
    and native: "native_text store env (lb_backend st)" and writer: "bk_write (lb_backend st) = Some write'"
  shows "item_step store owned (li_address item) st (write_item now env owned item st) \<and>
    (\<exists>i'. item_at (write_item now env owned item st) (li_address item) = Some i' \<and> item_written owned item i')"
proof -
  have at: "item_at st (li_address item) = Some item" using item_at_iff [OF ok] item by blast
  let ?a = "\<lambda>i. i\<lparr>li_attempted := Some now\<rparr>"
  let ?st = "set_item (li_address item) ?a st"
  have st: "lb_world ?st = lb_world st" "lb_backend ?st = lb_backend st" by (simp_all add: set_item_def)
  obtain problem w where answer: "write' (lb_world st) owned (li_key item) (li_desired item) = (problem, w)"
    by (cases "write' (lb_world st) owned (li_key item) (li_desired item)")
  have "store (snd (write' (lb_world st) owned (li_key item) (li_desired item))) =
    (if fst (write' (lb_world st) owned (li_key item) (li_desired item)) = None
     then (store (lb_world st))(owned := (store (lb_world st) owned)(li_key item := li_desired item)) else store (lb_world st))"
    using native writer by (simp add: native_text_def)
  then have text': "store w = (if problem = None
     then (store (lb_world st))(owned := (store (lb_world st) owned)(li_key item := li_desired item)) else store (lb_world st))"
    by (simp only: answer fst_conv snd_conv)
  show ?thesis
  proof (cases problem)
    case (Some error)
    let ?f = "\<lambda>i. i\<lparr>li_attempted := Some now, li_failure := Some (en_diagnostic_text env error)\<rparr>"
    have result: "write_item now env owned item st = publication_failed env item error (?st\<lparr>lb_world := w\<rparr>)"
      using writer answer Some by (simp add: write_item_def st)
    have "lb_items (write_item now env owned item st) = lb_items (set_item (li_address item) ?f st)"
      by (simp add: result failure_state set_item_def)
    then have "mirrored store owned (write_item now env owned item st)"
    proof (rule mirrored_set_item [OF ok item mirrored, rotated 2])
      show "store (lb_world (write_item now env owned item st)) owned (li_key item) = li_written (?f item)"
        if "li_written_lobby (?f item) = owned"
        using mirrored item that text' Some by (simp add: mirrored_def result failure_state)
    qed (simp_all add: result failure_state text' Some)
    then show ?thesis
      using at by (simp add: item_step_def item_written_def result failure_state st)
  next
    case None
    let ?n = "optional_size (li_desired item)"
    let ?f = "\<lambda>i. i\<lparr>li_attempted := Some now, li_written_charge := ?n, li_written := li_desired i, li_written_lobby := owned,
      li_withdraw := False, li_failure := None\<rparr>"
    let ?g = "\<lambda>i. i\<lparr>li_written_charge := ?n, li_written := li_desired i, li_written_lobby := owned, li_withdraw := False, li_failure := None\<rparr>"
    have result: "write_item now env owned item st =
      set_item (li_address item) ?g (release_used env (size_minus env (li_written_charge item) ?n) (?st\<lparr>lb_world := w\<rparr>))"
      using writer answer None by (simp add: write_item_def Let_def st)
    have world: "lb_world (write_item now env owned item st) = w" "lb_backend (write_item now env owned item st) = lb_backend st"
      by (simp_all add: result set_item_def release_used_def)
    have "lb_items (write_item now env owned item st) = lb_items (set_item (li_address item) ?f st)"
      by (simp add: result set_item_def release_used_def)
    then have "mirrored store owned (write_item now env owned item st)"
      by (rule mirrored_set_item [OF ok item mirrored, rotated 2]) (simp_all add: world text' None)
    moreover have "item_at (write_item now env owned item st) a = (if a = li_address item then Some (?f item) else item_at st a)" for a
      using at by (simp add: result)
    ultimately show ?thesis by (simp add: item_step_def item_written_def world)
  qed
qed

lemma pump_item_step:
  assumes ok: "lobby_ok env held st" and item: "item \<in> set (lb_items st)" and mirrored: "mirrored store owned st"
    and native: "native_text store env (lb_backend st)" and writer: "bk_write (lb_backend st) \<noteq> None" and owned: "owned \<noteq> 0"
  shows "item_step store owned (li_address item) st (pump_item now env owned item st) \<and>
    (\<exists>i'. item_at (pump_item now env owned item st) (li_address item) = Some i' \<and> (due_item now env item \<longrightarrow> item_written owned item i'))"
proof (cases "en_state env (li_owner item) = PInstalled")
  case False
  then show ?thesis using mirrored item_at_iff [OF ok] item by (auto simp: pump_item_def item_step_def due_item_def)
next
  case True
  have at: "item_at st (li_address item) = Some item" using item_at_iff [OF ok] item by blast
  let ?f = "\<lambda>i. i\<lparr>li_written := None, li_written_charge := optional_size (li_desired item), li_written_lobby := 0\<rparr>"
  let ?st = "if li_written_lobby item \<noteq> owned then forget_written env item st else st"
  define i where "i = (if li_written_lobby item \<noteq> owned then ?f item else item)"
  have forgot: "lb_items (forget_written env item st) = lb_items (set_item (li_address item) ?f st)"
    "lb_world (forget_written env item st) = lb_world st" "lb_backend (forget_written env item st) = lb_backend st"
    by (simp_all add: forget_written_def Let_def set_item_def release_used_def)
  have ok': "lobby_ok env held ?st" using ok forget_written_ok [OF ok item] by simp
  have "mirrored store owned (forget_written env item st)"
    by (rule mirrored_set_item [OF ok item mirrored, of ?f]) (use owned in \<open>simp_all add: forgot\<close>)
  moreover have "item_at (forget_written env item st) a = item_at (set_item (li_address item) ?f st) a" for a
    by (simp add: item_at_def forgot)
  ultimately have start: "item_step store owned (li_address item) st ?st" using mirrored by (simp add: item_step_def forgot)
  have at': "item_at ?st (li_address item) = Some i"
    using at by (simp add: i_def forget_written_def Let_def)
  then have i: "i \<in> set (lb_items ?st)" using item_at_iff [OF ok'] by blast
  have same: "li_address i = li_address item" "li_key i = li_key item" "li_desired i = li_desired item" "li_attempted i = li_attempted item"
    "li_withdraw i = li_withdraw item" "li_owner i = li_owner item" by (simp_all add: i_def)
  have mirrored': "mirrored store owned ?st" using start by (simp add: item_step_def)
  have native': "native_text store env (lb_backend ?st)" using native by (simp add: forgot)
  have result: "pump_item now env owned item st = (if nothing_to_write now owned i then ?st
    else if li_desired i = None \<and> li_failure i = None \<and> li_written_lobby i = owned \<and> li_written i = None
    then set_item (li_address i) (\<lambda>item. item\<lparr>li_withdraw := False\<rparr>) ?st else write_item now env owned i ?st)"
    unfolding pump_item_def Let_def at' option.case using True by simp
  consider (unchanged) "nothing_to_write now owned i"
    | (cleared) "\<not> nothing_to_write now owned i" "li_desired i = None \<and> li_failure i = None \<and> li_written_lobby i = owned \<and> li_written i = None"
    | (writes) "\<not> nothing_to_write now owned i"
        "\<not> (li_desired i = None \<and> li_failure i = None \<and> li_written_lobby i = owned \<and> li_written i = None)" by blast
  then show ?thesis
  proof cases
    case unchanged
    then have "pump_item now env owned item st = ?st" by (simp only: result if_True)
    moreover have "item_written owned item i" if due: "due_item now env item"
    proof -
      have "\<not> (case li_attempted i of None \<Rightarrow> False | Some attempted \<Rightarrow> now - attempted < second)"
        using due unfolding due_item_def same by (simp split: option.splits)
      moreover have "\<not> (li_desired i = None \<and> \<not> li_withdraw i)" using due unfolding due_item_def same by simp
      ultimately have "li_written_lobby i = owned \<and> li_written i = li_desired i" using unchanged unfolding nothing_to_write_def by blast
      then show ?thesis using same by (simp add: item_written_def)
    qed
    ultimately show ?thesis using start at' by simp
  next
    case cleared
    let ?g = "\<lambda>item. item\<lparr>li_withdraw := False\<rparr>"
    have r: "pump_item now env owned item st = set_item (li_address i) ?g ?st" unfolding result if_not_P [OF cleared(1)] if_P [OF cleared(2)] ..
    have "mirrored store owned (set_item (li_address i) ?g ?st)"
    proof (rule mirrored_set_item [OF ok' i mirrored', of ?g])
      show "store (lb_world (set_item (li_address i) ?g ?st)) owned (li_key i) = li_written (?g i)" if "li_written_lobby (?g i) = owned"
        using mirrored' i that by (simp add: mirrored_def set_item_def)
    qed (simp_all add: set_item_def)
    then have "item_step store owned (li_address item) ?st (set_item (li_address i) ?g ?st)"
      by (simp add: item_step_def same)
    moreover have "item_at (set_item (li_address i) ?g ?st) (li_address item) = Some (?g i)" using at' same by simp
    moreover have "item_written owned item (?g i)" using cleared same by (simp add: item_written_def)
    ultimately show ?thesis unfolding r using item_step_trans [OF start] by blast
  next
    case writes
    then have r: "pump_item now env owned item st = write_item now env owned i ?st" by (simp only: result if_False)
    have "lb_backend ?st = lb_backend st" by (simp add: forgot)
    then obtain write' where "bk_write (lb_backend ?st) = Some write'" using writer by auto
    from write_item_step [OF ok' i mirrored' native' this, of now]
    have "item_step store owned (li_address item) ?st (write_item now env owned i ?st) \<and>
      (\<exists>i'. item_at (write_item now env owned i ?st) (li_address item) = Some i' \<and> item_written owned item i')"
      unfolding item_written_def same .
    then show ?thesis unfolding r using item_step_trans [OF start] by blast
  qed
qed

section \<open>A pass\<close>

lemma pump_items:
  assumes "distinct as" and "lobby_ok env held st" and "mirrored store owned st" and "native_text store env (lb_backend st)"
    and "bk_write (lb_backend st) \<noteq> None" and "owned \<noteq> 0"
    and "st' = foldl (\<lambda>st a. case item_at st a of None \<Rightarrow> st | Some item \<Rightarrow> pump_item now env owned item st) st as"
  shows "mirrored store owned st' \<and> (\<forall>a. a \<notin> set as \<longrightarrow> item_at st' a = item_at st a) \<and>
    (\<forall>a \<in> set as. \<forall>i. item_at st a = Some i \<longrightarrow> due_item now env i \<longrightarrow> (\<exists>i'. item_at st' a = Some i' \<and> item_written owned i i'))"
  using assms
proof (induction as arbitrary: st)
  case (Cons a as)
  define st1 where "st1 = (case item_at st a of None \<Rightarrow> st | Some item \<Rightarrow> pump_item now env owned item st)"
  have st1: "item_step store owned a st st1 \<and> lobby_ok env held st1 \<and>
    (\<forall>i. item_at st a = Some i \<longrightarrow> due_item now env i \<longrightarrow> (\<exists>i'. item_at st1 a = Some i' \<and> item_written owned i i'))"
  proof (cases "item_at st a")
    case None
    then show ?thesis using Cons.prems(2,3) by (simp add: st1_def item_step_def)
  next
    case (Some item)
    then have item: "item \<in> set (lb_items st)" "li_address item = a" using item_at_iff [OF Cons.prems(2)] by blast+
    from pump_item_step [OF Cons.prems(2) item(1) Cons.prems(3-6), of now] pump_item_ok [OF Cons.prems(2) item(1), of now owned]
    show ?thesis using Some item(2) by (auto simp: st1_def)
  qed
  then have step: "mirrored store owned st1" "lb_backend st1 = lb_backend st" "\<And>b. b \<noteq> a \<Longrightarrow> item_at st1 b = item_at st b"
    by (simp_all add: item_step_def)
  have rest: "mirrored store owned st' \<and> (\<forall>b. b \<notin> set as \<longrightarrow> item_at st' b = item_at st1 b) \<and>
    (\<forall>b \<in> set as. \<forall>i. item_at st1 b = Some i \<longrightarrow> due_item now env i \<longrightarrow> (\<exists>i'. item_at st' b = Some i' \<and> item_written owned i i'))"
    by (rule Cons.IH) (use Cons.prems st1 step in \<open>simp_all add: st1_def\<close>)
  have a: "a \<notin> set as" using Cons.prems(1) by simp
  then have "item_at st1 b = item_at st b" if "b \<in> set as" for b using that by (intro step(3)) blast
  then show ?case using rest st1 step(3) a by simp
qed simp

text \<open>C20: Publication. On a native side that stores what it accepts, one pass in an owned lobby settles every item that is due -
  its patch is installed, it has a text to publish or to withdraw and was not tried within the last second: afterwards the
  lobby's text under the item's key is the item's text, or absent if it was cleared, unless the native side refused the
  write, which the item then records; and the service's record of the text it wrote stays the text that is there.\<close>
theorem publication_reaches_lobby:
  assumes "lobby_ok env [] st" and "native_text store env (lb_backend st)"
    and "ns_available (native_state st)" and "bk_request (lb_backend st) \<noteq> None" and "bk_read (lb_backend st) \<noteq> None"
    and "bk_write (lb_backend st) \<noteq> None" and "ns_owned (native_state st) \<noteq> 0"
    and "mirrored store (ns_owned (native_state st)) st"
  shows "mirrored store (ns_owned (native_state st)) (pump env now st) \<and>
    (\<forall>i \<in> set (lb_items st). due_item now env i \<longrightarrow>
      (\<exists>i' \<in> set (lb_items (pump env now st)). li_address i' = li_address i \<and> li_key i' = li_key i \<and> li_desired i' = li_desired i \<and>
        (li_failure i' \<noteq> None \<or> store (lb_world (pump env now st)) (ns_owned (native_state st)) (li_key i) = li_desired i)))"
proof -
  let ?owned = "ns_owned (native_state st)"
  define st1 where "st1 = foldl (pump_group env now True) st (map fst (lb_groups st))"
  have available: "ns_available (native_state st) \<and> bk_request (lb_backend st) \<noteq> None \<and> bk_read (lb_backend st) \<noteq> None \<and>
    bk_write (lb_backend st) \<noteq> None" using assms(3-6) by blast
  have ok1: "lobby_ok env [] st1" unfolding st1_def
    by (rule foldl_ok [where I = "lobby_ok env []", OF assms(1)]) (rule pump_group_ok)
  have view: "written_view store st1 = written_view store st" unfolding st1_def
  proof (rule foldl_ok [where I = "\<lambda>s. written_view store s = written_view store st"])
    show "written_view store (pump_group env now True s lobby) = written_view store st" if s: "written_view store s = written_view store st" for s lobby
      using written_view_pump_group [of store env s now True lobby] assms(2) written_view_backend [OF s] s by simp
  qed simp
  then have same: "lb_items st1 = lb_items st" "lb_backend st1 = lb_backend st" "store (lb_world st1) = store (lb_world st)"
    by (simp_all add: written_view_def)
  define final where "final = pump env now st"
  have final: "final = foldl (\<lambda>st a. case item_at st a of None \<Rightarrow> st | Some item \<Rightarrow> pump_item now env ?owned item st) st1 (map li_address (lb_items st1))"
    using available assms(7) by (simp add: final_def pump_def Let_def st1_def each_item_def)
  have distinct: "distinct (map li_address (lb_items st1))" by (rule lobby_okD(9) [OF ok1])
  have "mirrored store ?owned st1" using assms(8) by (simp add: mirrored_def same)
  from pump_items [OF distinct ok1 this _ _ assms(7) final] assms(2,6)
  have mirrored: "mirrored store ?owned final" and
    written: "\<forall>a \<in> set (map li_address (lb_items st1)). \<forall>i. item_at st1 a = Some i \<longrightarrow> due_item now env i \<longrightarrow>
      (\<exists>i'. item_at final a = Some i' \<and> item_written ?owned i i')" by (simp_all add: same)
  have ok: "lobby_ok env [] final" unfolding final_def by (rule pump_ok [OF assms(1)])
  have "\<exists>i' \<in> set (lb_items final). li_address i' = li_address i \<and> li_key i' = li_key i \<and> li_desired i' = li_desired i \<and>
      (li_failure i' \<noteq> None \<or> store (lb_world final) ?owned (li_key i) = li_desired i)"
    if i: "i \<in> set (lb_items st)" and due: "due_item now env i" for i
  proof -
    have at: "item_at st1 (li_address i) = Some i" using item_at_iff [OF ok1] i by (simp add: same)
    moreover have "li_address i \<in> set (map li_address (lb_items st1))" using i by (simp add: same)
    ultimately obtain i' where i': "item_at final (li_address i) = Some i'" "item_written ?owned i i'" using written due by blast
    then have there: "i' \<in> set (lb_items final)" "li_address i' = li_address i" using item_at_iff [OF ok] by blast+
    then have "li_written_lobby i' = ?owned \<Longrightarrow> store (lb_world final) ?owned (li_key i') = li_written i'"
      using mirrored unfolding mirrored_def by blast
    then show ?thesis using there i'(2) unfolding item_written_def by metis
  qed
  then show ?thesis using mirrored unfolding final_def by blast
qed

theorem publication_reaches_lobby_witness:
  "text_in (lb_world (pump (fst (sample_after sample_published)) 0 (snd (sample_after sample_published)))) 5 ''FC.a'' =
    Some (encode 1 [7, 8, 9])"
proof -
  let ?env = "fst (sample_after sample_published)" and ?st = "snd (sample_after sample_published)"
  have backend: "lb_backend ?st = sample_backend" by (simp add: lobby_sample_published_state)
  have text': "native_text text_in ?env sample_backend" by (simp add: native_text_def lobby_sample_published_state)
  have native: "native_state ?st = \<lparr>ns_available = True, ns_current = 5, ns_owned = 5\<rparr>" by (simp add: native_state_def backend)
  have mirrored: "mirrored text_in 5 ?st" by (simp add: mirrored_def lobby_sample_published_state)
  have pass: "\<forall>i \<in> set (lb_items ?st). due_item 0 ?env i \<longrightarrow>
      (\<exists>i' \<in> set (lb_items (pump ?env 0 ?st)). li_address i' = li_address i \<and> li_key i' = li_key i \<and> li_desired i' = li_desired i \<and>
        (li_failure i' \<noteq> None \<or> text_in (lb_world (pump ?env 0 ?st)) 5 (li_key i) = li_desired i))"
    using publication_reaches_lobby [OF lobby_sample_ok, of text_in sample_published 0] text' mirrored
    unfolding backend native by simp
  have "\<exists>i \<in> set (lb_items ?st). due_item 0 ?env i \<and> li_key i = ''FC.a'' \<and> li_desired i = Some (encode 1 [7, 8, 9])"
    by (simp add: lobby_sample_published_state due_item_def)
  then obtain i where i: "i \<in> set (lb_items ?st)" "due_item 0 ?env i" "li_key i = ''FC.a''" "li_desired i = Some (encode 1 [7, 8, 9])" by blast
  from pass i(1,2) obtain i' where i': "i' \<in> set (lb_items (pump ?env 0 ?st))"
    "li_failure i' \<noteq> None \<or> text_in (lb_world (pump ?env 0 ?st)) 5 (li_key i) = li_desired i" by blast
  have "list_all (\<lambda>i. li_failure i = None) (lb_items (pump ?env 0 ?st))"
    by (simp add: lobby_sample_published_state lobby_reads)
  then have "li_failure i' = None" using i'(1) unfolding list_all_iff by blast
  then show ?thesis using i'(2) i(3,4) by simp
qed

end
