(* ===== verification/Patch_Session_Laws.thy ===== *)
theory Patch_Session_Laws
  imports Patch_Session
begin

text \<open>
  What selection keeps: configuration, late images and every refresh leave a settled session, so that installation finds
  patches that are selected, and an order of them in which providers come first.
\<close>

section \<open>States only fall\<close>

text \<open>The dependency pass moves a patch to \<open>Waiting\<close> or \<open>Failed\<close>, or leaves its state.\<close>

definition lowered :: "PatchRecord list \<Rightarrow> PatchRecord list \<Rightarrow> bool" where
  "lowered patches patches' \<longleftrightarrow> length patches' = length patches \<and>
    (\<forall>p. pr_state (patches' ! p) = pr_state (patches ! p) \<or> pr_state (patches' ! p) = PFailed \<or> pr_state (patches' ! p) = PWaiting)"

lemma lowered_refl [simp]: "lowered patches patches"
  by (simp add: lowered_def)

lemma lowered_trans: "lowered a b \<Longrightarrow> lowered b c \<Longrightarrow> lowered a c"
  unfolding lowered_def by metis

lemma lowered_update:
  assumes "pr_state patch = PFailed \<or> pr_state patch = PWaiting"
  shows "lowered patches (patches[p := patch])"
  using assms by (cases "p < length patches") (auto simp: lowered_def nth_list_update list_update_beyond)

lemma lowered_fail_cycle: "lowered patches (fail_cycle chain cycle patches)"
proof (induction cycle arbitrary: patches)
  case (Cons p cycle)
  show ?case unfolding fail_cycle.simps by (rule lowered_trans [OF lowered_update Cons.IH]) simp
qed simp

lemma lowered_provider: "lowered patches (snd (apply_provider name patch provider waiting patches))"
  by (simp add: apply_provider_def lowered_update)

lemma lowered_waiting: "lowered patches (apply_waiting name patch waiting patches)"
  by (simp add: apply_waiting_def lowered_update split: option.split)

lemma lowered_visit:
  "lowered (vs_patches st) (vs_patches (visit name n active patch st))"
  "lowered (vs_patches st) (vs_patches (snd (visit_providers name n active patch providers waiting st)))"
proof (induction name n active patch st and name n active patch providers waiting st rule: visit_visit_providers.induct)
  case (1 name n active patch st)
  show ?case
  proof (cases "patch \<ge> n \<or> terminal_state (pr_state (vs_patches st ! patch)) \<or> patch \<in> set (vs_visited st) \<or> patch \<in> set active")
    case True
    then show ?thesis by (auto simp: visit.simps [of name n active] lowered_fail_cycle)
  next
    case False
    obtain waiting st' where inner: "visit_providers name n (active @ [patch]) patch (pr_providers (vs_patches st ! patch)) None st = (waiting, st')"
      by fastforce
    with False 1 have "lowered (vs_patches st) (vs_patches st')" by auto
    then show ?thesis using False inner
      by (auto simp: visit.simps [of name n active] intro: lowered_trans lowered_waiting)
  qed
next
  case (2 name n active patch waiting st)
  show ?case by (simp add: visit_providers.simps)
next
  case (3 name n active patch provider providers waiting st)
  let ?st1 = "visit name n active provider st"
  obtain waiting' patches where applied: "apply_provider name patch provider waiting (vs_patches ?st1) = (waiting', patches)" by fastforce
  have "lowered (vs_patches ?st1) patches" using lowered_provider [of "vs_patches ?st1" name patch provider waiting] applied by simp
  then have "lowered (vs_patches st) patches" using 3(1) lowered_trans by blast
  moreover have "lowered patches (vs_patches (snd (visit_providers name n active patch providers waiting' (?st1\<lparr>vs_patches := patches\<rparr>))))"
    using 3(2) [OF refl applied [symmetric] refl] by simp
  ultimately show ?case using applied by (simp add: visit_providers.simps Let_def lowered_trans [of "vs_patches st" patches])
qed

lemma lowered_visit_all: "lowered (vs_patches st) (vs_patches (visit_all name n patches st))"
  by (induction patches arbitrary: st) (auto intro: lowered_trans lowered_visit(1))

section \<open>Sessions\<close>

definition record_ok :: "PatchRecord \<Rightarrow> bool" where
  "record_ok patch \<longleftrightarrow> pr_internal patch = None \<and> (pr_resolved patch = None \<longrightarrow> pr_state patch = PFailed)"

definition session_ok :: "SelectionSession \<Rightarrow> bool" where
  "session_ok session \<longleftrightarrow> providers_valid session \<and> list_all record_ok (ss_patches session)"

definition selected_ok :: "PatchRecord \<Rightarrow> bool" where
  "selected_ok patch \<longleftrightarrow> pr_state patch \<noteq> PPreparing \<and>
    (pr_state patch = PPlanning \<longrightarrow> pr_enabled patch \<and> pr_resolved patch \<noteq> None \<and> ps_state (pr_selection patch) = Ready)"

definition session_settled :: "SelectionSession \<Rightarrow> bool" where
  "session_settled session \<longleftrightarrow> session_ok session \<and> list_all selected_ok (ss_patches session) \<and>
    (\<exists>order. dependency_order (ss_patches session) order)"

subsection \<open>The dependency pass\<close>

lemma rebuild_record [simp]:
  "pr_internal (rebuild_providers session patch) = pr_internal patch"
  "pr_resolved (rebuild_providers session patch) = pr_resolved patch"
  "pr_enabled (rebuild_providers session patch) = pr_enabled patch"
  "pr_selection (rebuild_providers session patch) = pr_selection patch"
proof -
  have provider: "pr_internal p' = pr_internal p \<and> pr_resolved p' = pr_resolved p \<and> pr_enabled p' = pr_enabled p \<and> pr_selection p' = pr_selection p"
    if "add_provider session plugin ident p = (found, p')" for plugin ident found p p'
    using that by (auto simp: add_provider_def split: option.splits if_splits)
  have members: "pr_internal (add_members session plugin ms p) = pr_internal p \<and> pr_resolved (add_members session plugin ms p) = pr_resolved p \<and>
      pr_enabled (add_members session plugin ms p) = pr_enabled p \<and> pr_selection (add_members session plugin ms p) = pr_selection p"
    for plugin ms p
    by (induction ms arbitrary: p) (simp_all add: provider [OF surjective_pairing])
  have reference: "pr_internal (add_reference session r p) = pr_internal p \<and> pr_resolved (add_reference session r p) = pr_resolved p \<and>
      pr_enabled (add_reference session r p) = pr_enabled p \<and> pr_selection (add_reference session r p) = pr_selection p" for r p
    by (auto simp: add_reference_def fail_reference_def members dest: provider split: prod.splits option.splits bool.splits)
  have references: "pr_internal (add_references session rs p) = pr_internal p \<and> pr_resolved (add_references session rs p) = pr_resolved p \<and>
      pr_enabled (add_references session rs p) = pr_enabled p \<and> pr_selection (add_references session rs p) = pr_selection p" for rs p
    by (induction rs arbitrary: p) (simp_all add: reference)
  show "pr_internal (rebuild_providers session patch) = pr_internal patch"
    "pr_resolved (rebuild_providers session patch) = pr_resolved patch"
    "pr_enabled (rebuild_providers session patch) = pr_enabled patch"
    "pr_selection (rebuild_providers session patch) = pr_selection patch"
    by (auto simp: rebuild_providers_def references)
qed

lemma rebuild_state: "pr_state (rebuild_providers session patch) = pr_state patch \<or> pr_state (rebuild_providers session patch) = PFailed"
proof -
  have provider: "pr_state p' = pr_state p" if "add_provider session plugin ident p = (found, p')" for plugin ident found p p'
    using that by (auto simp: add_provider_def split: option.splits if_splits)
  have members: "pr_state (add_members session plugin ms p) = pr_state p" for plugin ms p
    by (induction ms arbitrary: p) (simp_all add: provider [OF surjective_pairing])
  have reference: "pr_state (add_reference session r p) = pr_state p \<or> pr_state (add_reference session r p) = PFailed" for r p
    by (auto simp: add_reference_def fail_reference_def members dest: provider split: prod.splits option.splits bool.splits)
  have references: "pr_state (add_references session rs p) = pr_state p \<or> pr_state (add_references session rs p) = PFailed" for rs p
  proof (induction rs arbitrary: p)
    case (Cons r rs)
    then show ?case using reference [of r p] by (metis add_references.simps(2))
  qed simp
  show ?thesis using references [of _ "patch\<lparr>pr_providers := []\<rparr>"] by (auto simp: rebuild_providers_def)
qed

lemma same_records_parts:
  assumes "same_records st st'" and "p < length (vs_patches st)"
  shows "pr_internal (vs_patches st' ! p) = pr_internal (vs_patches st ! p)" "pr_resolved (vs_patches st' ! p) = pr_resolved (vs_patches st ! p)"
    "pr_enabled (vs_patches st' ! p) = pr_enabled (vs_patches st ! p)" "pr_selection (vs_patches st' ! p) = pr_selection (vs_patches st ! p)"
proof -
  note same = same_records_nth [OF assms]
  show "pr_internal (vs_patches st' ! p) = pr_internal (vs_patches st ! p)" using arg_cong [OF same, of pr_internal] by simp
  show "pr_resolved (vs_patches st' ! p) = pr_resolved (vs_patches st ! p)" using arg_cong [OF same, of pr_resolved] by simp
  show "pr_enabled (vs_patches st' ! p) = pr_enabled (vs_patches st ! p)" using arg_cong [OF same, of pr_enabled] by simp
  show "pr_selection (vs_patches st' ! p) = pr_selection (vs_patches st ! p)" using arg_cong [OF same, of pr_selection] by simp
qed

lemma resolve_settles:
  assumes "session_ok session" and "list_all selected_ok (ss_patches session)"
  shows "session_settled (resolve_dependencies session)"
proof -
  let ?rebuilt = "rebuild_session session" and ?before = "\<lparr>vs_patches = ss_patches (rebuild_session session), vs_visited = []\<rparr>"
  let ?after = "vs_patches (visit_session ?rebuilt)"
  have valid: "providers_valid ?rebuilt" using assms(1) by (simp add: session_ok_def rebuild_valid)
  note correct = visit_session_correct [OF valid]
  have length: "length ?after = length (ss_patches session)"
    using same_records_length [OF correct(2)] by (simp add: rebuild_session_def)
  have low: "lowered (ss_patches ?rebuilt) ?after"
    using lowered_visit_all [of ?before] by (simp add: visit_session_def)
  have rebuilt: "ss_patches ?rebuilt ! p = rebuild_providers session (ss_patches session ! p)" if "p < length (ss_patches session)" for p
    using that by (simp add: rebuild_session_def)
  have ok: "record_ok (?after ! p) \<and> selected_ok (?after ! p)" if p: "p < length (ss_patches session)" for p
  proof -
    let ?old = "ss_patches session ! p" and ?new = "?after ! p"
    have old: "record_ok ?old" "selected_ok ?old" using assms p by (auto simp: session_ok_def list_all_length)
    have parts: "pr_internal ?new = pr_internal ?old" "pr_resolved ?new = pr_resolved ?old" "pr_enabled ?new = pr_enabled ?old"
      "pr_selection ?new = pr_selection ?old"
      using same_records_parts [OF correct(2), of p] p rebuilt [OF p] by (simp_all add: rebuild_session_def)
    have state: "pr_state ?new = pr_state ?old \<or> pr_state ?new = PFailed \<or> pr_state ?new = PWaiting"
      using spec [OF conjunct2 [OF low [unfolded lowered_def]], of p] rebuild_state [of session ?old] unfolding rebuilt [OF p] by auto
    have failed: "pr_state ?new = PFailed" if "pr_state ?old = PFailed"
      using correct(4) [of p] that p rebuilt [OF p] rebuild_state [of session ?old]
      by (auto simp: terminal_state_def rebuild_session_def)
    show ?thesis using old parts state failed by (auto simp: record_ok_def selected_ok_def)
  qed
  have result: "ss_patches (resolve_dependencies session) = ?after"
    by (simp add: resolve_dependencies_def Let_def)
  have "providers_valid (resolve_dependencies session)"
  proof -
    have "pr_providers (?after ! p) = pr_providers (ss_patches ?rebuilt ! p)" if "p < length (ss_patches session)" for p
      using same_records_providers [OF correct(2), of p] that by (simp add: rebuild_session_def)
    then show ?thesis using valid length by (auto simp: providers_valid_def result list_all_length rebuild_session_def)
  qed
  then show ?thesis using ok length correct(1) by (auto simp: session_settled_def session_ok_def result list_all_length)
qed

subsection \<open>Selection\<close>

lemma refresh_settles:
  assumes "session_ok session"
  shows "session_settled (refresh_selection observations session)"
proof -
  let ?session = "session\<lparr>ss_patches := map (refresh_record session observations) (ss_patches session)\<rparr>"
  have recorded: "record_ok (refresh_record session observations patch) \<and> selected_ok (refresh_record session observations patch) \<and>
      pr_providers (refresh_record session observations patch) = pr_providers patch" if "record_ok patch" for patch
    using that by (cases "ps_state (select_patch session observations (the (pr_resolved patch)))")
      (auto simp: refresh_record_def record_ok_def selected_ok_def Let_def split: option.split list.split)
  have "session_ok ?session" "list_all selected_ok (ss_patches ?session)"
    using assms recorded by (auto simp: session_ok_def providers_valid_def list_all_iff)
  then show ?thesis unfolding refresh_selection_def by (rule resolve_settles)
qed

lemma configured_ok:
  assumes "session_ok (fst state)"
  shows "session_ok (fst (configure_plugin plat worlds reads observations paths plugin state))"
proof -
  obtain session disk where state: "state = (session, disk)" by fastforce
  have kept: "session_ok (keep_configuration plugin loaded session')" if "session_ok session'" for loaded session'
    using that by (auto simp: keep_configuration_def Let_def session_ok_def providers_valid_def record_ok_def list_all_iff split: sum.split)
  have "session_ok (session\<lparr>ss_patches := map (evaluate_record session observations plugin) (ss_patches session)\<rparr>)"
    using assms by (auto simp: state session_ok_def providers_valid_def record_ok_def list_all_iff evaluate_record_def split: option.splits)
  then show ?thesis by (simp add: configure_plugin_def state Let_def kept split: prod.split)
qed

lemma resolved_ok: "session_ok (resolve_patches admitted catalog role)"
proof -
  have added: "session_ok (add_plugin plugin session)" if "session_ok session" for plugin session
  proof -
    have recorded: "record_ok (fst (resolve_record catalog' i plugin j)) \<and> pr_providers (fst (resolve_record catalog' i plugin j)) = []" for catalog' i j
      by (simp add: resolve_record_def new_record_def record_ok_def Let_def split: sum.split)
    show ?thesis using that recorded
      by (fastforce simp: add_plugin_def Let_def session_ok_def providers_valid_def list_all_iff)
  qed
  have "session_ok session \<Longrightarrow> session_ok (fold add_plugin plugins session)" for plugins session
    by (induction plugins arbitrary: session) (simp_all add: added)
  then show ?thesis by (simp add: resolve_patches_def session_ok_def providers_valid_def)
qed

lemma configured_settled:
  "session_settled (fst (configure_patches plat worlds reads observations paths (resolve_patches admitted catalog role, disk)))"
proof -
  have "session_ok (fst (fold (configure_plugin plat worlds reads observations paths) plugins state))" if "session_ok (fst state)" for plugins state
    using that by (induction plugins arbitrary: state) (simp_all add: configured_ok)
  then show ?thesis by (simp add: configure_patches_def resolved_ok refresh_settles)
qed

lemma settled_ok: "session_settled session \<Longrightarrow> session_ok session"
  by (simp add: session_settled_def)

lemma awaited_settled: "session_settled session \<Longrightarrow> session_settled (fst (process_awaited_images probe session images private_filenames))"
  using refresh_settles [OF settled_ok] by (simp add: process_awaited_images_def split: prod.split)

text \<open>Diagnostics, which reporting and notifications add, take no part in it.\<close>

lemma reported_settled [simp]:
  "session_settled (session\<lparr>ss_diagnostics := ds\<rparr>) = session_settled session"
  "session_ok (session\<lparr>ss_diagnostics := ds\<rparr>) = session_ok session"
  by (simp_all add: session_settled_def session_ok_def providers_valid_def)

end
