(* ===== verification/Patch_Handlers.thy ===== *)
theory Patch_Handlers
  imports Patch_Session Patch_Api Native_Install
begin

text \<open>
  Handlers and their lifecycle (\<open>construct_handler\<close> and \<open>destroy_unexposed\<close> of
  \<open>runtime/src/patches/patch_record.cpp\<close>, \<open>collect_patch_plan\<close> and \<open>reject_patch\<close> of \<open>installation.cpp\<close>). The code
  of a plugin is a parameter: a callback is a function of the world \<open>'w\<close> outside the runtime, and where it calls back
  into the runtime it is the program of those calls.
\<close>

section \<open>Owners and callbacks\<close>

text \<open>A record of the session, or one of the runtime's own integrations.\<close>

datatype owner = Session_Patch nat | Internal_Patch nat

text \<open>What a plan callback does: it submits operations and reads snapshots, each with the world at the moment of the
  call, and ends with a status and the errors it reported.\<close>

datatype 'w plan_program =
    Plan_Return 'w u32 "(string \<times> u32) list"
  | Plan_Submit 'w "FC_Operation option" "string + nat option \<Rightarrow> 'w plan_program"
  | Plan_Read 'w "FC_ReadClaim option" bool "string + byte list \<Rightarrow> 'w plan_program"

text \<open>What a prepare callback does with the patch APIs.\<close>

datatype 'w prepare_program =
    Prepare_Return 'w u32 "(string \<times> u32) list"
  | Prepare_Publish "FC_ApiContract option" "byte list option" "unit option \<times> (string \<times> u32) option \<Rightarrow> 'w prepare_program"
  | Prepare_Get FC_Text "FC_ApiContract option" bool "byte list option \<times> (string \<times> u32) option \<Rightarrow> 'w prepare_program"
  | Prepare_Subscribe FC_Text "FC_ApiContract option" nat "nat option" "unit option \<times> (string \<times> u32) option \<Rightarrow> 'w prepare_program"

text \<open>A handler's context is zero for none; a missing callback is \<open>None\<close>. Its status callback serves reports only.\<close>

record 'w FC_Handler =
  fh_context :: nat
  fh_destroy :: "('w \<Rightarrow> 'w) option"
  fh_plan :: "('w \<Rightarrow> 'w plan_program) option"
  fh_prepare :: "('w \<Rightarrow> 'w prepare_program) option"
  fh_activate :: "('w \<Rightarrow> 'w) option"
  fh_update :: "(int \<Rightarrow> int \<Rightarrow> 'w \<Rightarrow> 'w) option"

definition no_handler :: "'w FC_Handler" where
  "no_handler = \<lparr>fh_context = 0, fh_destroy = None, fh_plan = None, fh_prepare = None, fh_activate = None, fh_update = None\<rparr>"

text \<open>\<open>receive_diagnostic\<close>: each report replaces the message and the code.\<close>

definition receive_diagnostics :: "(string \<times> u32) list \<Rightarrow> Diagnostic \<Rightarrow> Diagnostic" where
  "receive_diagnostics reports failed =
    fold (\<lambda>(message, code) d. d\<lparr>dg_message := message, dg_windows_error := code\<rparr>) reports failed"

section \<open>The state of an installation\<close>

record 'w InstallState =
  in_session :: SelectionSession
  in_internal :: "PatchRecord list"
  in_handlers :: "owner \<Rightarrow> 'w FC_Handler"
  in_plans :: "owner \<Rightarrow> SubmittedPlan option"
  in_apis :: apis
  in_last_update :: "owner \<Rightarrow> int"
  in_next_update :: "owner \<Rightarrow> int"
  in_world :: 'w

text \<open>
  What installation uses besides: the size of a function pointer; the handler factories; the process a plan is
  checked against and where a factory's code is; preparation and installation of native plans (\<open>Native_Prepare\<close>); the
  registrations of a patch with the game, multiplayer and lobby services and its traces, which a rejected patch gives
  up; the crash report's annotations; the log; and the steady clock.
\<close>

record 'w services =
  sv_pointer :: nat
  sv_create :: "owner \<Rightarrow> ScalarValue list \<Rightarrow> 'w \<Rightarrow> 'w \<times> u32 \<times> 'w FC_Handler \<times> (string \<times> u32) list"
  sv_env :: "'w \<Rightarrow> native_env"
  sv_executable :: "owner \<Rightarrow> 'w \<Rightarrow> bool"
  sv_module :: "owner \<Rightarrow> nat option"
  sv_prepare :: "('w, unit) preparing"
  sv_install :: "'w \<times> SubmittedPlan \<Rightarrow> (('w \<times> SubmittedPlan) \<times> (NativeWriteFailure + unit)) option"
  sv_discard :: "owner \<Rightarrow> 'w \<Rightarrow> 'w"
  sv_discard_traces :: "owner \<Rightarrow> 'w \<Rightarrow> 'w"
  sv_annotate :: "owner \<Rightarrow> SubmittedPlan \<Rightarrow> 'w \<Rightarrow> 'w"
  sv_log :: "FC_LogLevel \<Rightarrow> owner \<Rightarrow> string \<Rightarrow> 'w \<Rightarrow> 'w"
  sv_now :: "'w \<Rightarrow> int"

fun owner_record :: "'w InstallState \<Rightarrow> owner \<Rightarrow> PatchRecord" where
  "owner_record st (Session_Patch i) = ss_patches (in_session st) ! i"
| "owner_record st (Internal_Patch k) = in_internal st ! k"

fun set_record :: "owner \<Rightarrow> PatchRecord \<Rightarrow> 'w InstallState \<Rightarrow> 'w InstallState" where
  "set_record (Session_Patch i) patch st =
    st\<lparr>in_session := (in_session st)\<lparr>ss_patches := (ss_patches (in_session st))[i := patch]\<rparr>\<rparr>"
| "set_record (Internal_Patch k) patch st = st\<lparr>in_internal := (in_internal st)[k := patch]\<rparr>"

definition owner_name :: "'w InstallState \<Rightarrow> owner \<Rightarrow> string" where
  "owner_name st owner = qualified_patch_id (in_session st) (owner_record st owner)"

definition set_state :: "owner \<Rightarrow> PatchState \<Rightarrow> 'w InstallState \<Rightarrow> 'w InstallState" where
  "set_state owner state st = set_record owner ((owner_record st owner)\<lparr>pr_state := state\<rparr>) st"

definition set_reason :: "owner \<Rightarrow> string \<Rightarrow> 'w InstallState \<Rightarrow> 'w InstallState" where
  "set_reason owner reason st = set_record owner ((owner_record st owner)\<lparr>pr_reason := reason\<rparr>) st"

definition set_handler :: "owner \<Rightarrow> 'w FC_Handler \<Rightarrow> 'w InstallState \<Rightarrow> 'w InstallState" where
  "set_handler owner handler st = st\<lparr>in_handlers := (in_handlers st)(owner := handler)\<rparr>"

definition set_plan :: "owner \<Rightarrow> SubmittedPlan option \<Rightarrow> 'w InstallState \<Rightarrow> 'w InstallState" where
  "set_plan owner plan st = st\<lparr>in_plans := (in_plans st)(owner := plan)\<rparr>"

definition change_world :: "('w \<Rightarrow> 'w) \<Rightarrow> 'w InstallState \<Rightarrow> 'w InstallState" where
  "change_world f st = st\<lparr>in_world := f (in_world st)\<rparr>"

definition plan_exposed :: "'w InstallState \<Rightarrow> owner \<Rightarrow> bool" where
  "plan_exposed st owner \<longleftrightarrow> (case in_plans st owner of None \<Rightarrow> False | Some plan \<Rightarrow> sp_exposed plan)"

text \<open>Plans are numbered by their owner.\<close>

fun plan_number :: "owner \<Rightarrow> nat" where
  "plan_number (Session_Patch i) = 2 * i"
| "plan_number (Internal_Patch k) = 2 * k + 1"

definition plan_owner :: "nat \<Rightarrow> owner" where
  "plan_owner n = (if even n then Session_Patch (n div 2) else Internal_Patch (n div 2))"

lemma plan_owner_number [simp]: "plan_owner (plan_number owner) = owner"
  by (cases owner) (simp_all add: plan_owner_def)

section \<open>Handlers\<close>

definition destroy_unexposed :: "owner \<Rightarrow> 'w InstallState \<Rightarrow> 'w InstallState" where
  "destroy_unexposed owner st =
    (if pr_state (owner_record st owner) \<noteq> PInstalled \<and> \<not> plan_exposed st owner
     then case fh_destroy (in_handlers st owner) of
            Some destroy \<Rightarrow> set_handler owner no_handler (change_world destroy st)
          | None \<Rightarrow> st
     else st)"

text \<open>The captured settings of the selected variant; the caller has made sure that they exist.\<close>

definition captured_values :: "'w InstallState \<Rightarrow> owner \<Rightarrow> ScalarValue list" where
  "captured_values st owner =
    (let patch = owner_record st owner
     in if pr_internal patch \<noteq> None then []
        else case pl_configuration (ss_plugins (in_session st) ! pr_plugin patch) of
          None \<Rightarrow> []
        | Some configuration \<Rightarrow>
            (case List.find (\<lambda>captured. cv_patch captured = pr_index patch \<and> cv_variant captured = ps_variant_index (pr_selection patch))
                    (pg_variants configuration) of
               Some captured \<Rightarrow> cv_values captured
             | None \<Rightarrow> []))"

definition construct_handler :: "'w services \<Rightarrow> owner \<Rightarrow> 'w InstallState \<Rightarrow> 'w InstallState \<times> Diagnostic option" where
  "construct_handler sv owner st =
    (case sv_create sv owner (captured_values st owner) (in_world st) of (w, result, handler, reports) \<Rightarrow>
       let failed = receive_diagnostics reports (diagnostic (owner_name st owner) ''Handler construction failed'');
           st = set_handler owner handler (st\<lparr>in_world := w\<rparr>)
       in if result = 0 \<or> fh_context handler = 0 \<or> Option.is_none (fh_destroy handler)
          then (set_reason owner (dg_message failed) (destroy_unexposed owner (set_state owner PFailed st)), Some failed)
          else (st, None))"

section \<open>Planning\<close>

definition submit_callback :: "native_env \<Rightarrow> FC_Operation option \<Rightarrow> nat option planning" where
  "submit_callback env operation plan =
    (case operation of
       None \<Rightarrow> (let plan = fail ''Native operation pointer is null'' plan in (plan, Inl (the (sp_error plan))))
     | Some request \<Rightarrow> submit env request plan)"

definition read_callback :: "native_env \<Rightarrow> FC_ReadClaim option \<Rightarrow> bool \<Rightarrow> byte list planning" where
  "read_callback env claim has_output plan =
    (case claim of
       None \<Rightarrow> (let plan = fail ''Native snapshot request is null'' plan in (plan, Inl (the (sp_error plan))))
     | Some request \<Rightarrow> submit_snapshot env request has_output plan)"

primrec run_plan :: "('w \<Rightarrow> native_env) \<Rightarrow> 'w plan_program \<Rightarrow> SubmittedPlan \<Rightarrow> 'w \<times> SubmittedPlan \<times> u32 \<times> (string \<times> u32) list" where
  "run_plan env (Plan_Return w status reports) = (\<lambda>plan. (w, plan, status, reports))"
| "run_plan env (Plan_Submit w operation rest) =
    (\<lambda>plan. case submit_callback (env w) operation plan of (plan, result) \<Rightarrow> run_plan env (rest result) plan)"
| "run_plan env (Plan_Read w claim has_output rest) =
    (\<lambda>plan. case read_callback (env w) claim has_output plan of (plan, result) \<Rightarrow> run_plan env (rest result) plan)"

text \<open>The constructor of a plan: the code of the factory must be executable, and names the plugin's module.\<close>

definition submitted_plan :: "'w services \<Rightarrow> owner \<Rightarrow> PlanImage list \<Rightarrow> 'w InstallState \<Rightarrow> SubmittedPlan" where
  "submitted_plan sv owner images st =
    (let plan = new_plan (plan_number owner) (owner_name st owner) (sv_module sv owner) images
     in if sv_executable sv owner (in_world st) then plan
        else fail ''Could not verify executable access to the handler factory'' plan)"

definition collect_patch_plan :: "'w services \<Rightarrow> owner \<Rightarrow> PlanImage list \<Rightarrow> 'w InstallState \<Rightarrow> 'w InstallState \<times> Diagnostic option" where
  "collect_patch_plan sv owner images st =
    (case construct_handler sv owner (change_world (sv_log sv FC_LOG_DEBUG owner ''Planning patch'') st) of
       (st, Some failed) \<Rightarrow> (st, Some failed)
     | (st, None) \<Rightarrow>
         (let plan = submitted_plan sv owner images st;
              name = owner_name st owner;
              (w, plan, status, reports) =
                (case fh_plan (in_handlers st owner) of
                   Some callback \<Rightarrow> run_plan (sv_env sv) (callback (in_world st)) plan
                 | None \<Rightarrow> (in_world st, plan, 1, []));
              st = set_plan owner (Some plan) (st\<lparr>in_world := w\<rparr>)
          in if status \<noteq> 1 then (st, Some (receive_diagnostics reports (diagnostic name ''Patch planning failed'')))
             else case sp_error plan of
               Some error \<Rightarrow> (st, Some (diagnostic name error))
             | None \<Rightarrow> (st, None)))"

section \<open>Rejection\<close>

text \<open>A step of the installation goes on, or ends the process with a reason; \<open>Halted\<close> is an end inside the native
  layer.\<close>

datatype 's run = Terminated string u32 | Halted | Running 's

definition then_run :: "'a run \<Rightarrow> ('a \<Rightarrow> 'b run) \<Rightarrow> 'b run" where
  "then_run step rest = (case step of Running s \<Rightarrow> rest s | Terminated reason code \<Rightarrow> Terminated reason code | Halted \<Rightarrow> Halted)"

definition add_diagnostic :: "Diagnostic \<Rightarrow> 'w InstallState \<Rightarrow> 'w InstallState" where
  "add_diagnostic failed st = st\<lparr>in_session := (in_session st)\<lparr>ss_diagnostics := ss_diagnostics (in_session st) @ [failed]\<rparr>\<rparr>"

fun discard_reservations :: "owner \<Rightarrow> 'w InstallState \<Rightarrow> 'w InstallState" where
  "discard_reservations (Session_Patch i) st = st\<lparr>in_apis := (in_apis st)(i := discard_api (in_apis st i))\<rparr>"
| "discard_reservations (Internal_Patch k) st = st"

definition release_patch :: "'w services \<Rightarrow> owner \<Rightarrow> 'w InstallState \<Rightarrow> 'w InstallState" where
  "release_patch sv owner st =
    set_plan owner None (change_world (sv_discard_traces sv owner) (discard_reservations owner
      (change_world (sv_discard sv owner) (destroy_unexposed owner st))))"

definition reject_patch :: "'w services \<Rightarrow> owner \<Rightarrow> Diagnostic \<Rightarrow> string \<Rightarrow> 'w InstallState \<Rightarrow> 'w InstallState run" where
  "reject_patch sv owner failed stage st =
    (let name = owner_name st owner; message = stage @ '' failed: '' @ dg_message failed
     in if plan_exposed st owner then Terminated (''Patch '' @ quoted name @ '': '' @ message) (dg_windows_error failed)
        else
          let message = message @ ''; patch will not run'';
              st = add_diagnostic (failed\<lparr>dg_owner := name, dg_message := message\<rparr>)
                (release_patch sv owner (set_state owner PFailed (set_reason owner message st)));
              patch = owner_record st owner
          in if pr_selected_for_startup patch \<and> failure_policy patch = FC_FAILURE_FATAL
             then case enforce_startup_policy ((in_session st)\<lparr>ss_fatal := True\<rparr>) of
                    Some reason \<Rightarrow> Terminated reason 0
                  | None \<Rightarrow> Running (st\<lparr>in_session := (in_session st)\<lparr>ss_fatal := True\<rparr>\<rparr>)
             else Running st)"

end
