(* ===== verification/Patch_Installation.thy ===== *)
theory Patch_Installation
  imports Patch_Handlers
begin

text \<open>
  Installation of the selected patches (\<open>runtime/src/patches/installation.cpp\<close>): the order of a batch, the collection
  and validation of its plans, preparation, installation and activation patch by patch, and the periodic work on
  installed patches.
\<close>

section \<open>Order\<close>

text \<open>Patches without a dependency between them go by their folded identifiers, which are unique.\<close>

definition order_key :: "SelectionSession \<Rightarrow> nat \<Rightarrow> string \<times> string" where
  "order_key session i =
    (let patch = ss_patches session ! i
     in (folded_id (fl_id (session_plugin session (pr_plugin patch))), folded_id (fp_id (pr_definition patch))))"

definition ready_in :: "(nat \<Rightarrow> nat list) \<Rightarrow> nat list \<Rightarrow> nat \<Rightarrow> bool" where
  "ready_in providers remaining patch \<longleftrightarrow> list_all (\<lambda>provider. provider \<notin> set remaining) (providers patch)"

text \<open>A cycle ends the process.\<close>

function order_remaining :: "(nat \<Rightarrow> nat list) \<Rightarrow> nat list \<Rightarrow> nat list option" where
  "order_remaining providers remaining =
    (if remaining = [] then Some []
     else case List.find (ready_in providers remaining) remaining of
       None \<Rightarrow> None
     | Some ready \<Rightarrow> map_option (\<lambda>order. ready # order) (order_remaining providers (remove1 ready remaining)))"
  by pat_completeness auto
termination
  by (relation "measure (\<lambda>(providers, remaining). length remaining)")
    (auto dest!: find_SomeD simp: length_remove1 length_pos_if_in_set)

declare order_remaining.simps [simp del]

definition planning_patches :: "SelectionSession \<Rightarrow> nat list" where
  "planning_patches session = filter (\<lambda>i. pr_state (ss_patches session ! i) = PPlanning) [0..<length (ss_patches session)]"

definition ready_patch_order :: "SelectionSession \<Rightarrow> nat list option" where
  "ready_patch_order session =
    order_remaining (\<lambda>i. pr_providers (ss_patches session ! i)) (sort_key (order_key session) (planning_patches session))"

section \<open>Providers\<close>

definition provider_problem :: "'w InstallState \<Rightarrow> bool \<Rightarrow> nat \<Rightarrow> string option" where
  "provider_problem st require_installed provider =
    (let state = record_state (in_session st) provider; name = quoted (owner_name st (Session_Patch provider))
     in if state = PFailed \<or> state = PDisabled
        then Some (''Required patch '' @ name @ (if state = PDisabled then '' is disabled'' else '' failed''))
        else if require_installed \<and> state \<noteq> PInstalled
        then Some (''Required patch '' @ name @ '' has not completed installation and activation'')
        else None)"

fun first_problem :: "'w InstallState \<Rightarrow> bool \<Rightarrow> nat list \<Rightarrow> string option" where
  "first_problem st require_installed [] = None"
| "first_problem st require_installed (provider # providers) =
    (case provider_problem st require_installed provider of
       Some problem \<Rightarrow> Some problem | None \<Rightarrow> first_problem st require_installed providers)"

definition unavailable_provider :: "'w InstallState \<Rightarrow> owner \<Rightarrow> bool \<Rightarrow> Diagnostic option" where
  "unavailable_provider st owner require_installed =
    map_option (diagnostic (owner_name st owner)) (first_problem st require_installed (pr_providers (owner_record st owner)))"

section \<open>The batch\<close>

definition internal_owners :: "'w InstallState \<Rightarrow> owner list" where
  "internal_owners st = map Internal_Patch [0..<length (in_internal st)]"

text \<open>The runtime's integrations that plan come first.\<close>

definition batch_order :: "'w InstallState \<Rightarrow> owner list run" where
  "batch_order st =
    (case ready_patch_order (in_session st) of
       None \<Rightarrow> Terminated ''Resolved ready dependency order contains a cycle'' 0
     | Some ordered \<Rightarrow> Running (filter (\<lambda>owner. pr_state (owner_record st owner) = PPlanning) (internal_owners st) @
         map Session_Patch ordered))"

definition installed_claims :: "'w InstallState \<Rightarrow> MemoryClaim list" where
  "installed_claims st =
    concat (map (\<lambda>owner. case in_plans st owner of
        Some plan \<Rightarrow> if pr_state (owner_record st owner) = PInstalled then sp_claims plan else [] | None \<Rightarrow> [])
      (internal_owners st @ map Session_Patch [0..<length (ss_patches (in_session st))]))"

section \<open>Collection\<close>

definition planning_images :: "LiveImageObservation list \<Rightarrow> 'w InstallState \<Rightarrow> owner \<Rightarrow> Diagnostic + PlanImage list" where
  "planning_images images st owner =
    (let patch = owner_record st owner
     in selected_plan_images (ss_catalog (in_session st)) (case pr_internal patch of Some name \<Rightarrow> name
          | None \<Rightarrow> rp_owner (the (pr_resolved patch))) (pr_selection patch) images)"

text \<open>One turn: the state, and whether the plan was collected.\<close>

definition collect_one :: "'w services \<Rightarrow> LiveImageObservation list \<Rightarrow> owner \<Rightarrow> 'w InstallState \<Rightarrow> ('w InstallState \<times> bool) run" where
  "collect_one sv images owner st =
    (case unavailable_provider st owner False of
       Some dependency \<Rightarrow> then_run (reject_patch sv owner dependency ''Dependency check'' st) (\<lambda>st. Running (st, False))
     | None \<Rightarrow>
         (case planning_images images st owner of
            Inl failed \<Rightarrow> then_run (reject_patch sv owner failed ''Planning'' st) (\<lambda>st. Running (st, False))
          | Inr selected \<Rightarrow>
              (case collect_patch_plan sv owner selected st of
                 (st, Some failed) \<Rightarrow> then_run (reject_patch sv owner failed ''Planning'' st) (\<lambda>st. Running (st, False))
               | (st, None) \<Rightarrow> Running (st, True))))"

fun collect_plans :: "'w services \<Rightarrow> LiveImageObservation list \<Rightarrow> owner list \<Rightarrow> 'w InstallState \<Rightarrow> ('w InstallState \<times> owner list) run" where
  "collect_plans sv images [] st = Running (st, [])"
| "collect_plans sv images (owner # owners) st =
    then_run (collect_one sv images owner st) (\<lambda>(st, collected).
    then_run (collect_plans sv images owners st) (\<lambda>(st, plans).
      Running (st, if collected then owner # plans else plans)))"

section \<open>Validation\<close>

definition plan_table :: "'w InstallState \<Rightarrow> nat \<Rightarrow> SubmittedPlan" where
  "plan_table st number = the (in_plans st (plan_owner number))"

fun reject_plans :: "'w services \<Rightarrow> (nat \<times> string) list \<Rightarrow> 'w InstallState \<Rightarrow> 'w InstallState run" where
  "reject_plans sv [] st = Running st"
| "reject_plans sv ((number, error) # failures) st =
    then_run (reject_patch sv (plan_owner number) (diagnostic (owner_name st (plan_owner number)) error) ''Plan validation'' st)
      (reject_plans sv failures)"

section \<open>Preparation, installation and activation\<close>

primrec run_prepare :: "nat \<Rightarrow> owner \<Rightarrow> 'w prepare_program \<Rightarrow> 'w InstallState \<Rightarrow> 'w InstallState \<times> u32 \<times> (string \<times> u32) list" where
  "run_prepare pointer owner (Prepare_Return w status reports) = (\<lambda>st. (st\<lparr>in_world := w\<rparr>, status, reports))"
| "run_prepare pointer owner (Prepare_Publish contract table rest) =
    (\<lambda>st. case publish_api pointer (in_session st) (in_apis st) (case owner of Session_Patch i \<Rightarrow> Some i | Internal_Patch k \<Rightarrow> None)
            contract table True of (apis, answer) \<Rightarrow> run_prepare pointer owner (rest answer) (st\<lparr>in_apis := apis\<rparr>))"
| "run_prepare pointer owner (Prepare_Get provider contract out rest) =
    (\<lambda>st. case retrieve_api pointer (in_session st) (in_apis st) (case owner of Session_Patch i \<Rightarrow> Some i | Internal_Patch k \<Rightarrow> None)
            provider contract out True of (apis, answer) \<Rightarrow> run_prepare pointer owner (rest answer) (st\<lparr>in_apis := apis\<rparr>))"
| "run_prepare pointer owner (Prepare_Subscribe provider contract context' callback rest) =
    (\<lambda>st. case on_available pointer (in_session st) (in_apis st) (case owner of Session_Patch i \<Rightarrow> Some i | Internal_Patch k \<Rightarrow> None)
            provider contract context' callback True of (apis, answer) \<Rightarrow> run_prepare pointer owner (rest answer) (st\<lparr>in_apis := apis\<rparr>))"

definition api_error :: "'w InstallState \<Rightarrow> owner \<Rightarrow> Diagnostic option" where
  "api_error st owner = (case owner of Session_Patch i \<Rightarrow> ra_error (in_apis st i) | Internal_Patch k \<Rightarrow> None)"

definition kMaximumTime :: int where "kMaximumTime = 2 ^ 63 - 1"

text \<open>The steady clock counts nanoseconds in 64 bits.\<close>

definition next_update_time :: "int \<Rightarrow> int \<Rightarrow> int" where
  "next_update_time now interval_ms =
    (if interval_ms > kMaximumTime div 1000000 then kMaximumTime
     else let duration = interval_ms * 1000000 in if now > kMaximumTime - duration then kMaximumTime else now + duration)"

definition activate_patch :: "'w services \<Rightarrow> owner \<Rightarrow> 'w InstallState \<Rightarrow> 'w InstallState" where
  "activate_patch sv owner st =
    (let st = change_world (sv_log sv FC_LOG_DEBUG owner ''Activating patch'') st;
         st = (case fh_activate (in_handlers st owner) of Some activate \<Rightarrow> change_world activate st | None \<Rightarrow> st);
         now = sv_now sv (in_world st);
         patch = owner_record st owner;
         st = st\<lparr>in_last_update := (in_last_update st)(owner := now),
                in_next_update := (if pr_internal patch = None
                  then (in_next_update st)(owner := next_update_time now (sint (fp_update_interval_ms (pr_definition patch))))
                  else in_next_update st)\<rparr>;
         st = set_reason owner [] (set_state owner PInstalled st)
     in change_world (sv_log sv FC_LOG_INFO owner ''Installed and activated'') st)"

definition apply_plan :: "'w services \<Rightarrow> owner \<Rightarrow> 'w InstallState \<Rightarrow> 'w InstallState run" where
  "apply_plan sv owner st =
    (let st = change_world (sv_log sv FC_LOG_DEBUG owner ''Installing patch'')
           (change_world (sv_annotate sv owner (the (in_plans st owner))) st)
     in case sv_install sv (in_world st, the (in_plans st owner)) of
          None \<Rightarrow> Halted
        | Some ((w, plan), result) \<Rightarrow>
            let st = set_plan owner (Some plan) (st\<lparr>in_world := w\<rparr>)
            in case result of
                 Inr _ \<Rightarrow> Running (activate_patch sv owner st)
               | Inl refused \<Rightarrow>
                   if sp_exposed plan \<or> nw_unsafe refused
                   then Terminated (''Patch '' @ quoted (owner_name st owner) @
                     '' installation failed and native bytes or memory protections may have changed: '' @ nw_message refused) 0
                   else reject_patch sv owner (diagnostic (owner_name st owner) (nw_message refused)) ''Installation'' st)"

definition prepare_handler :: "'w services \<Rightarrow> owner \<Rightarrow> 'w InstallState \<Rightarrow> 'w InstallState \<times> Diagnostic option" where
  "prepare_handler sv owner st =
    (case fh_prepare (in_handlers st owner) of
       None \<Rightarrow> (st, api_error st owner)
     | Some callback \<Rightarrow>
         (let unknown = diagnostic (owner_name st owner) ''the patch did not provide an error message''
          in case run_prepare (sv_pointer sv) owner (callback (in_world st)) st of (st, status, reports) \<Rightarrow>
               (st, if status \<noteq> 1 then Some (receive_diagnostics reports unknown) else api_error st owner)))"

definition prepare_patch :: "'w services \<Rightarrow> owner \<Rightarrow> 'w InstallState \<Rightarrow> 'w InstallState run" where
  "prepare_patch sv owner st =
    (let st = change_world (sv_log sv FC_LOG_DEBUG owner ''Preparing patch'') (set_state owner PPreparing st)
     in case sv_prepare sv (in_world st, the (in_plans st owner)) of
          None \<Rightarrow> Halted
        | Some ((w, plan), outcome) \<Rightarrow>
            let st = set_plan owner (Some plan) (st\<lparr>in_world := w\<rparr>)
            in case outcome of
                 Inl error \<Rightarrow> reject_patch sv owner (diagnostic (owner_name st owner) error) ''Preparation'' st
               | Inr _ \<Rightarrow>
                   (case prepare_handler sv owner st of
                      (st, Some failed) \<Rightarrow> reject_patch sv owner failed ''Preparation'' st
                    | (st, None) \<Rightarrow> apply_plan sv owner st))"

definition install_one :: "'w services \<Rightarrow> owner \<Rightarrow> 'w InstallState \<Rightarrow> 'w InstallState run" where
  "install_one sv owner st =
    (if pr_state (owner_record st owner) \<noteq> PPlanning then Running st
     else case unavailable_provider st owner True of
       Some dependency \<Rightarrow> reject_patch sv owner dependency ''Dependency check'' st
     | None \<Rightarrow> prepare_patch sv owner st)"

fun install_each :: "'w services \<Rightarrow> owner list \<Rightarrow> 'w InstallState \<Rightarrow> 'w InstallState run" where
  "install_each sv [] st = Running st"
| "install_each sv (owner # owners) st = then_run (install_one sv owner st) (install_each sv owners)"

definition install_ready_patches :: "'w services \<Rightarrow> LiveImageObservation list \<Rightarrow> 'w InstallState \<Rightarrow> 'w InstallState run" where
  "install_ready_patches sv images st =
    then_run (batch_order st) (\<lambda>ordered.
    let installed = installed_claims st in
    then_run (collect_plans sv images ordered st) (\<lambda>(st, plans).
    then_run (reject_plans sv (validate_plans (plan_table st) (map plan_number plans) installed) st)
      (install_each sv ordered)))"

section \<open>Periodic work\<close>

definition update_due :: "'w InstallState \<Rightarrow> int \<Rightarrow> nat \<Rightarrow> bool" where
  "update_due st now i \<longleftrightarrow> record_state (in_session st) i = PInstalled \<and> \<not> Option.is_none (fh_update (in_handlers st (Session_Patch i))) \<and>
    in_next_update st (Session_Patch i) \<le> now"

definition update_one :: "int \<Rightarrow> nat \<Rightarrow> 'w InstallState \<Rightarrow> 'w InstallState" where
  "update_one now i st =
    (if \<not> update_due st now i then st
     else
       let owner = Session_Patch i; elapsed = now - in_last_update st owner;
           interval = sint (fp_update_interval_ms (pr_definition (owner_record st owner)));
           st = st\<lparr>in_last_update := (in_last_update st)(owner := now),
                  in_next_update := (in_next_update st)(owner := next_update_time now interval)\<rparr>
       in change_world (the (fh_update (in_handlers st owner)) now elapsed) st)"

definition run_due_updates :: "int \<Rightarrow> 'w InstallState \<Rightarrow> 'w InstallState" where
  "run_due_updates now st = fold (update_one now) [0..<length (ss_patches (in_session st))] st"

text \<open>\<open>call\<close> runs the code behind a delivered callback.\<close>

definition notify_one :: "nat \<Rightarrow> (delivery \<Rightarrow> 'w \<Rightarrow> 'w) \<Rightarrow> nat \<Rightarrow> 'w InstallState \<Rightarrow> 'w InstallState" where
  "notify_one pointer call i st =
    (case deliver_available pointer (in_session st) (in_apis st) i of (api, warnings, calls) \<Rightarrow>
       change_world (fold call calls)
         (st\<lparr>in_apis := (in_apis st)(i := api),
            in_session := (in_session st)\<lparr>ss_diagnostics := ss_diagnostics (in_session st) @ warnings\<rparr>\<rparr>))"

definition deliver_api_notifications :: "nat \<Rightarrow> (delivery \<Rightarrow> 'w \<Rightarrow> 'w) \<Rightarrow> 'w InstallState \<Rightarrow> 'w InstallState" where
  "deliver_api_notifications pointer call st = fold (notify_one pointer call) [0..<length (ss_patches (in_session st))] st"

end
