(* ===== verification/Patch_Installation_Laws.thy ===== *)
theory Patch_Installation_Laws
  imports Patch_Installation Patch_Session_Laws
begin

text \<open>
  What a batch of installations does: the order it works in, the state in which it leaves every patch when it does
  not end the process, and the sessions that configuration, late images and installations reach.
\<close>

section \<open>Order\<close>

lemma order_remaining_correct:
  "order_remaining providers remaining = Some order \<Longrightarrow>
    mset order = mset remaining \<and> (\<forall>j < length order. \<forall>i \<le> j. order ! j \<notin> set (providers (order ! i)))"
proof (induction providers remaining arbitrary: order rule: order_remaining.induct)
  case (1 providers remaining)
  show ?case
  proof (cases "remaining = []")
    case True
    then show ?thesis using 1(2) by (simp add: order_remaining.simps [of _ "[]"])
  next
    case False
    then obtain ready rest where ready: "List.find (ready_in providers remaining) remaining = Some ready"
      and rest: "order_remaining providers (remove1 ready remaining) = Some rest" "order = ready # rest"
      using 1(2) by (subst (asm) order_remaining.simps) (auto split: option.splits)
    note found = find_SomeD [OF ready]
    have ih: "mset rest = mset (remove1 ready remaining)" "\<forall>j < length rest. \<forall>i \<le> j. rest ! j \<notin> set (providers (rest ! i))"
      using 1(1) [OF False ready rest(1)] by blast+
    have all: "mset order = mset remaining" using ih(1) found rest(2) by simp
    then have "set order = set remaining" by (metis set_mset_mset)
    then have first: "order ! j \<notin> set (providers ready)" if "j < length order" for j
      using found that nth_mem [of j order] by (auto simp: ready_in_def list_all_iff)
    have "order ! j \<notin> set (providers (order ! i))" if j: "j < length order" and le: "i \<le> j" for i j
    proof (cases i)
      case 0
      then show ?thesis using first j rest(2) by simp
    next
      case (Suc k)
      then obtain m where "j = Suc m" using le by (cases j) auto
      then show ?thesis using ih(2) j le rest(2) Suc by simp
    qed
    then show ?thesis using all by blast
  qed
qed

text \<open>Of two patches the one with the smaller key goes first, unless it waits for a provider.\<close>

lemma order_remaining_keys:
  "order_remaining providers remaining = Some order \<Longrightarrow> sorted (map key remaining) \<Longrightarrow>
    (\<forall>j < length order. \<forall>i < j. key (order ! j) < key (order ! i) \<longrightarrow>
      (\<exists>provider. provider \<in> set (providers (order ! j)) \<and> provider \<in> set (drop i order)))"
proof (induction providers remaining arbitrary: order rule: order_remaining.induct)
  case (1 providers remaining)
  show ?case
  proof (cases "remaining = []")
    case True
    then show ?thesis using 1(2) by (simp add: order_remaining.simps [of _ "[]"])
  next
    case False
    then obtain ready rest where ready: "List.find (ready_in providers remaining) remaining = Some ready"
      and rest: "order_remaining providers (remove1 ready remaining) = Some rest" "order = ready # rest"
      using 1(2) by (subst (asm) order_remaining.simps) (auto split: option.splits)
    have same: "set order = set remaining" using order_remaining_correct [OF 1(2)] by (metis set_mset_mset)
    have "sorted (map key (remove1 ready remaining))" using 1(3) by (simp add: sorted_map_remove1)
    note ih = 1(1) [OF False ready rest(1) this]
    obtain at where at: "at < length remaining" "ready = remaining ! at" "\<forall>k < at. \<not> ready_in providers remaining (remaining ! k)"
      using ready by (auto simp: find_Some_iff)
    have first: "\<exists>provider. provider \<in> set (providers x) \<and> provider \<in> set order" if x: "x \<in> set order" "key x < key ready" for x
    proof -
      obtain k where k: "k < length remaining" "x = remaining ! k" using x(1) same by (auto simp: in_set_conv_nth)
      then have "k < at" using sorted_nth_mono [OF 1(3), of at k] x(2) at(2) by (auto simp: not_less [symmetric])
      then show ?thesis using at(3) k same by (auto simp: ready_in_def list_all_iff)
    qed
    show ?thesis
    proof (intro allI impI)
      fix j i
      assume j: "j < length order" and i: "i < j" and smaller: "key (order ! j) < key (order ! i)"
      show "\<exists>provider. provider \<in> set (providers (order ! j)) \<and> provider \<in> set (drop i order)"
      proof (cases i)
        case 0
        then show ?thesis using first [of "order ! j", OF nth_mem [OF j]] smaller rest(2) by simp
      next
        case (Suc k)
        then obtain m where "j = Suc m" using i by (cases j) auto
        then show ?thesis using ih j i smaller rest(2) Suc by simp
      qed
    qed
  qed
qed

lemma ready_exists:
  assumes order: "dependency_order patches order" and "remaining \<noteq> []"
    and planning: "\<And>p. p \<in> set remaining \<Longrightarrow> p < length patches \<and> pr_state (patches ! p) = PPlanning"
  shows "\<exists>p \<in> set remaining. ready_in (\<lambda>i. pr_providers (patches ! i)) remaining p"
proof -
  have inside: "x \<in> set order" if "x \<in> set remaining" for x
    using order planning [OF that] unfolding dependency_order_def terminal_state_def by auto
  then obtain p where p: "List.find (\<lambda>p. p \<in> set remaining) order = Some p"
    using inside [OF hd_in_set [OF \<open>remaining \<noteq> []\<close>]] hd_in_set [OF \<open>remaining \<noteq> []\<close>]
    by (cases "List.find (\<lambda>p. p \<in> set remaining) order") (auto simp: find_None_iff)
  note first = find_SomeD [OF p]
  have before: "q \<notin> set remaining" if "q \<in> earlier order p" for q
    using p that unfolding earlier_def
    by (induction order) (auto split: if_splits)
  have "q \<notin> set remaining" if "q \<in> set (pr_providers (patches ! p))" for q
    using order first planning [of p] planning [of q] that before [of q] unfolding dependency_order_def by fastforce
  then show ?thesis using first by (auto simp: ready_in_def list_all_iff)
qed

lemma order_remaining_total:
  assumes "dependency_order patches order"
  shows "(\<And>p. p \<in> set remaining \<Longrightarrow> p < length patches \<and> pr_state (patches ! p) = PPlanning) \<Longrightarrow>
    \<exists>result. order_remaining (\<lambda>i. pr_providers (patches ! i)) remaining = Some result"
proof (induction "length remaining" arbitrary: remaining)
  case 0
  then show ?case by (simp add: order_remaining.simps)
next
  case (Suc n)
  then have "remaining \<noteq> []" by auto
  from ready_exists [OF assms this Suc.prems] obtain ready where
    ready: "List.find (ready_in (\<lambda>i. pr_providers (patches ! i)) remaining) remaining = Some ready"
    by (cases "List.find (ready_in (\<lambda>i. pr_providers (patches ! i)) remaining) remaining") (auto simp: find_None_iff)
  then have "n = length (remove1 ready remaining)" using Suc.hyps(2) find_SomeD [OF ready] by (simp add: length_remove1)
  from Suc.hyps(1) [OF this] Suc.prems obtain result where
    "order_remaining (\<lambda>i. pr_providers (patches ! i)) (remove1 ready remaining) = Some result"
    by (meson notin_set_remove1)
  then show ?case using \<open>remaining \<noteq> []\<close> ready by (subst order_remaining.simps) simp
qed

lemma ready_order_settled:
  assumes "session_settled session"
  shows "\<exists>order. ready_patch_order session = Some order"
proof -
  obtain order where order: "dependency_order (ss_patches session) order" using assms by (auto simp: session_settled_def)
  from order_remaining_total [OF order, of "sort_key (order_key session) (planning_patches session)"]
  show ?thesis by (simp add: ready_patch_order_def planning_patches_def)
qed

section \<open>What a step leaves alone\<close>

definition static_part :: "PatchRecord \<Rightarrow> PatchRecord" where
  "static_part patch = patch\<lparr>pr_state := PFailed, pr_reason := []\<rparr>"

definition same_shape :: "'w InstallState \<Rightarrow> 'w InstallState \<Rightarrow> bool" where
  "same_shape st st' \<longleftrightarrow> length (ss_patches (in_session st')) = length (ss_patches (in_session st)) \<and>
    length (in_internal st') = length (in_internal st) \<and>
    (\<forall>owner. static_part (owner_record st' owner) = static_part (owner_record st owner))"

definition kept :: "owner \<Rightarrow> 'w InstallState \<Rightarrow> 'w InstallState \<Rightarrow> bool" where
  "kept owner st st' \<longleftrightarrow> same_shape st st' \<and>
    (\<forall>other. other \<noteq> owner \<longrightarrow> owner_record st' other = owner_record st other \<and> in_plans st' other = in_plans st other)"

fun valid_owner :: "'w InstallState \<Rightarrow> owner \<Rightarrow> bool" where
  "valid_owner st (Session_Patch i) = (i < length (ss_patches (in_session st)))"
| "valid_owner st (Internal_Patch k) = (k < length (in_internal st))"

named_theorems kept_laws \<open>what a step on one patch leaves alone\<close>

lemma same_shape_refl [simp]: "same_shape st st"
  by (simp add: same_shape_def)

lemma same_shape_trans: "same_shape a b \<Longrightarrow> same_shape b c \<Longrightarrow> same_shape a c"
  by (simp add: same_shape_def)

lemma same_shape_valid: "same_shape st st' \<Longrightarrow> valid_owner st' owner = valid_owner st owner"
  by (cases owner) (simp_all add: same_shape_def)

lemma static_part_eqD:
  assumes "static_part p = static_part q"
  shows "pr_providers p = pr_providers q" "pr_selected_for_startup p = pr_selected_for_startup q" "failure_policy p = failure_policy q"
    "pr_internal p = pr_internal q" "pr_resolved p = pr_resolved q"
proof -
  show "pr_resolved p = pr_resolved q" using arg_cong [OF assms, of pr_resolved] by (simp add: static_part_def)
  show "pr_providers p = pr_providers q" using arg_cong [OF assms, of pr_providers] by (simp add: static_part_def)
  show "pr_selected_for_startup p = pr_selected_for_startup q"
    using arg_cong [OF assms, of pr_selected_for_startup] by (simp add: static_part_def)
  show int: "pr_internal p = pr_internal q" using arg_cong [OF assms, of pr_internal] by (simp add: static_part_def)
  have "pr_selection p = pr_selection q" using arg_cong [OF assms, of pr_selection] by (simp add: static_part_def)
  moreover have "pr_definition p = pr_definition q" using arg_cong [OF assms, of pr_definition] by (simp add: static_part_def)
  ultimately show "failure_policy p = failure_policy q" using int by (simp only: failure_policy_def)
qed

lemma same_shapeD: "same_shape st st' \<Longrightarrow> static_part (owner_record st' owner) = static_part (owner_record st owner)"
  by (simp add: same_shape_def)

lemma kept_self [simp]: "kept owner st st"
  by (simp add: kept_def)

lemma kept_steps: "kept owner a b \<Longrightarrow> kept owner b c \<Longrightarrow> kept owner a c"
  unfolding kept_def using same_shape_trans by metis

text \<open>States that differ in none of the records and plans.\<close>

lemma kept_same:
  assumes "ss_patches (in_session st') = ss_patches (in_session st)" "in_internal st' = in_internal st" "in_plans st' = in_plans st"
  shows "kept owner st st'"
proof -
  have "owner_record st' other = owner_record st other" for other using assms by (cases other) simp_all
  then show ?thesis using assms by (simp add: kept_def same_shape_def)
qed

lemma set_record_other: "other \<noteq> owner \<Longrightarrow> owner_record (set_record owner patch st) other = owner_record st other"
  by (cases owner; cases other) auto

lemma set_record_own: "valid_owner st owner \<Longrightarrow> owner_record (set_record owner patch st) owner = patch"
  by (cases owner) auto

lemma set_record_invalid: "\<not> valid_owner st owner \<Longrightarrow> owner_record (set_record owner patch st) owner = owner_record st owner"
  by (cases owner) (auto simp: list_update_beyond)

lemma set_record_frame [simp]:
  "length (ss_patches (in_session (set_record owner patch st))) = length (ss_patches (in_session st))"
  "length (in_internal (set_record owner patch st)) = length (in_internal st)"
  "in_plans (set_record owner patch st) = in_plans st" "in_handlers (set_record owner patch st) = in_handlers st"
  "in_world (set_record owner patch st) = in_world st" "in_apis (set_record owner patch st) = in_apis st"
  by (cases owner; simp)+

lemma kept_set_record:
  assumes "static_part patch = static_part (owner_record st owner)"
  shows "kept owner st (set_record owner patch st)"
proof -
  have "static_part (owner_record (set_record owner patch st) other) = static_part (owner_record st other)" for other
  proof (cases "other = owner")
    case True
    then show ?thesis using assms by (cases "valid_owner st owner") (simp_all add: set_record_own set_record_invalid)
  qed (simp add: set_record_other)
  then show ?thesis by (simp add: kept_def same_shape_def set_record_other)
qed

lemma kept_set_state [kept_laws]: "kept owner st (set_state owner state st)"
  unfolding set_state_def by (rule kept_set_record) (simp add: static_part_def)

lemma kept_set_reason [kept_laws]: "kept owner st (set_reason owner reason st)"
  unfolding set_reason_def by (rule kept_set_record) (simp add: static_part_def)

lemma kept_simple [kept_laws]:
  "kept owner st (set_handler other handler st)" "kept owner st (change_world f st)" "kept owner st (st\<lparr>in_world := w\<rparr>)"
  "kept owner st (add_diagnostic failed st)" "kept owner st (st\<lparr>in_apis := apis\<rparr>)"
  by (rule kept_same; simp add: set_handler_def change_world_def add_diagnostic_def)+

lemma kept_set_plan [kept_laws]: "kept owner st (set_plan owner plan st)"
proof -
  have "owner_record (set_plan owner plan st) other = owner_record st other" for other by (cases other) (simp_all add: set_plan_def)
  then show ?thesis by (simp add: kept_def same_shape_def set_plan_def)
qed

lemma kept_discard_reservations [kept_laws]: "kept owner st (discard_reservations other st)"
  by (cases other) (simp_all add: kept_laws)

lemma kept_destroy [kept_laws]: "kept owner st (destroy_unexposed owner st)"
  by (auto simp: destroy_unexposed_def split: option.split intro!: kept_steps [OF kept_simple(2) kept_simple(1)])


section \<open>Rejection\<close>

lemmas kept_after = kept_steps [OF _ kept_set_state] kept_steps [OF _ kept_set_reason] kept_steps [OF _ kept_simple(1)]
  kept_steps [OF _ kept_simple(2)] kept_steps [OF _ kept_simple(3)] kept_steps [OF _ kept_simple(4)] kept_steps [OF _ kept_simple(5)]
  kept_steps [OF _ kept_set_plan] kept_steps [OF _ kept_discard_reservations] kept_steps [OF _ kept_destroy]

text \<open>Steps that touch no record.\<close>

lemma records_simps [simp]:
  "owner_record (set_handler other handler st) owner = owner_record st owner"
  "owner_record (set_plan other plan st) owner = owner_record st owner"
  "owner_record (change_world f st) owner = owner_record st owner"
  "owner_record (add_diagnostic failed st) owner = owner_record st owner"
  "owner_record (discard_reservations other st) owner = owner_record st owner"
  "owner_record (st\<lparr>in_world := w\<rparr>) owner = owner_record st owner"
  "owner_record (st\<lparr>in_apis := apis\<rparr>) owner = owner_record st owner"
  "owner_record (destroy_unexposed other st) owner = owner_record st owner"
  by (cases owner; cases other; simp add: set_handler_def set_plan_def change_world_def add_diagnostic_def destroy_unexposed_def
      split: option.split)+

lemma plans_simps [simp]:
  "in_plans (set_handler other handler st) = in_plans st"
  "in_plans (set_plan other plan st) = (in_plans st)(other := plan)"
  "in_plans (change_world f st) = in_plans st"
  "in_plans (add_diagnostic failed st) = in_plans st"
  "in_plans (discard_reservations other st) = in_plans st"
  "in_plans (set_state other state st) = in_plans st"
  "in_plans (set_reason other reason st) = in_plans st"
  by (simp_all add: set_handler_def set_plan_def change_world_def add_diagnostic_def set_state_def set_reason_def)
    (cases other; simp)

lemma set_state_own: "valid_owner st owner \<Longrightarrow> pr_state (owner_record (set_state owner state st) owner) = state"
  by (simp add: set_state_def set_record_own)

lemma set_reason_own: "valid_owner st owner \<Longrightarrow> pr_state (owner_record (set_reason owner reason st) owner) = pr_state (owner_record st owner)"
  by (simp add: set_reason_def set_record_own)

lemma valid_simps [simp]:
  "valid_owner (set_record other patch st) owner = valid_owner st owner"
  "valid_owner (set_state other state st) owner = valid_owner st owner"
  "valid_owner (set_reason other reason st) owner = valid_owner st owner"
  by (cases owner; simp add: set_state_def set_reason_def)+

lemma kept_release [kept_laws]: "kept owner st (release_patch sv owner st)"
  unfolding release_patch_def by (intro kept_after kept_self)

lemma reject_running:
  assumes "reject_patch sv owner failed stage st = Running st'" and valid: "valid_owner st owner"
  shows "kept owner st st'" and "pr_state (owner_record st' owner) = PFailed" and "in_plans st' owner = None"
    and "pr_selected_for_startup (owner_record st owner) \<Longrightarrow> failure_policy (owner_record st owner) \<noteq> FC_FAILURE_FATAL"
proof -
  obtain message refused where st': "st' = add_diagnostic refused (release_patch sv owner (set_state owner PFailed (set_reason owner message st)))"
    and quiet: "\<not> (pr_selected_for_startup (owner_record st' owner) \<and> failure_policy (owner_record st' owner) = FC_FAILURE_FATAL)"
    using assms(1) by (auto simp: reject_patch_def Let_def enforce_startup_policy_def split: if_splits option.splits)
  show kept: "kept owner st st'" unfolding st' release_patch_def by (intro kept_after kept_self)
  show "pr_state (owner_record st' owner) = PFailed" "in_plans st' owner = None"
    by (simp_all add: st' release_patch_def set_state_own valid)
  have "same_shape st st'" using kept by (simp add: kept_def)
  note same = static_part_eqD [OF same_shapeD [OF this, of owner]]
  show "failure_policy (owner_record st owner) \<noteq> FC_FAILURE_FATAL" if "pr_selected_for_startup (owner_record st owner)"
    using quiet that same by simp
qed

section \<open>Planning and preparation\<close>

lemma kept_construct [kept_laws]: "kept owner st (fst (construct_handler sv owner st))"
  by (auto simp: construct_handler_def Let_def split: prod.split intro!: kept_after kept_self)

lemma construct_handler_quiet:
  assumes "construct_handler sv owner st = (st', None)"
  shows "owner_record st' other = owner_record st other" and "in_plans st' = in_plans st"
  using assms by (auto simp: construct_handler_def Let_def split: prod.splits if_splits)

lemma collect_patch_kept:
  assumes "collect_patch_plan sv owner images st = (st', result)"
  shows "kept owner st st'" and "result = None \<Longrightarrow> owner_record st' owner = owner_record st owner"
proof -
  let ?logged = "change_world (sv_log sv FC_LOG_DEBUG owner ''Planning patch'') st"
  obtain st1 failed where made: "construct_handler sv owner ?logged = (st1, failed)" by fastforce
  have "kept owner ?logged st1" using kept_construct [of owner ?logged sv] made by simp
  then have "kept owner st st1" using kept_steps [OF kept_simple(2)] by blast
  moreover have "kept owner st1 st' \<and> (result = None \<longrightarrow> failed = None \<and> owner_record st' owner = owner_record st1 owner)"
    using assms made
    by (auto simp: collect_patch_plan_def Let_def split: prod.splits option.splits if_splits intro!: kept_after)
  ultimately show "kept owner st st'" and "result = None \<Longrightarrow> owner_record st' owner = owner_record st owner"
    using kept_steps construct_handler_quiet(1) [of sv owner ?logged st1] made by auto
qed

lemma run_prepare_kept: "kept owner st (fst (run_prepare pointer owner program st))"
proof (induction program arbitrary: st)
  case (Prepare_Return w status reports)
  show ?case using kept_simple(3) by simp
qed (simp split: prod.split; use kept_steps [OF kept_simple(5)] in blast)+

lemma run_prepare_records:
  "owner_record (fst (run_prepare pointer owner program st)) other = owner_record st other"
  "in_plans (fst (run_prepare pointer owner program st)) = in_plans st"
  by (induction program arbitrary: st) (auto split: prod.split)

section \<open>Progress\<close>

text \<open>
  What a batch may do to a patch: nothing, unless it plans; then it may get a plan, fail without a plan unless it is
  required, or be installed after its providers.
\<close>

definition moved :: "'w InstallState \<Rightarrow> 'w InstallState \<Rightarrow> owner \<Rightarrow> bool" where
  "moved st st' owner \<longleftrightarrow>
    (let old = owner_record st owner; state = pr_state (owner_record st' owner)
     in (state = pr_state old \<and> (pr_state old \<noteq> PPlanning \<longrightarrow> in_plans st' owner = in_plans st owner)) \<or>
        (pr_state old = PPlanning \<and> state = PFailed \<and> in_plans st' owner = None \<and>
          \<not> (pr_selected_for_startup old \<and> failure_policy old = FC_FAILURE_FATAL)) \<or>
        (pr_state old = PPlanning \<and> state = PInstalled \<and>
          list_all (\<lambda>provider. record_state (in_session st') provider = PInstalled) (pr_providers old)))"

definition advance :: "'w InstallState \<Rightarrow> 'w InstallState \<Rightarrow> bool" where
  "advance st st' \<longleftrightarrow> same_shape st st' \<and> (\<forall>owner. moved st st' owner)"

lemma advance_refl [simp]: "advance st st"
  by (simp add: advance_def moved_def Let_def)

lemma record_state_owner: "record_state (in_session st) i = pr_state (owner_record st (Session_Patch i))"
  by (simp add: record_state_def)

lemma moved_installed: "moved st st' owner \<Longrightarrow> pr_state (owner_record st owner) \<noteq> PPlanning \<Longrightarrow>
    pr_state (owner_record st' owner) = pr_state (owner_record st owner) \<and> in_plans st' owner = in_plans st owner"
  by (auto simp: moved_def Let_def)

lemma advance_trans:
  assumes "advance a b" and "advance b c"
  shows "advance a c"
proof -
  have shape: "same_shape a b" "same_shape b c" using assms by (simp_all add: advance_def)
  have "moved a c owner" for owner
  proof -
    have first: "moved a b owner" and second: "moved b c owner" using assms by (simp_all add: advance_def)
    note same = static_part_eqD [OF same_shapeD [OF shape(1), of owner]]
    have stays: "record_state (in_session c) i = PInstalled" if "record_state (in_session b) i = PInstalled" for i
      using assms(2) that moved_installed [of b c "Session_Patch i"] by (simp add: advance_def record_state_owner del: owner_record.simps)
    show ?thesis
    proof (cases "pr_state (owner_record b owner) = PPlanning")
      case True
      then have "pr_state (owner_record a owner) = PPlanning" using first by (auto simp: moved_def Let_def)
      then show ?thesis using second True same unfolding moved_def Let_def by auto
    next
      case False
      then have "pr_state (owner_record c owner) = pr_state (owner_record b owner)" "in_plans c owner = in_plans b owner"
        using moved_installed [OF second] by simp_all
      then show ?thesis using first False stays unfolding moved_def Let_def list_all_iff by auto
    qed
  qed
  then show ?thesis using same_shape_trans [OF shape] by (simp add: advance_def)
qed

lemma advance_kept:
  assumes "kept owner st st'" and "moved st st' owner"
  shows "advance st st'"
proof -
  have "moved st st' other" for other
    using assms by (cases "other = owner") (simp_all add: kept_def moved_def Let_def)
  then show ?thesis using assms(1) by (simp add: advance_def kept_def)
qed

lemma advance_planning:
  assumes "kept owner st st'" and "pr_state (owner_record st' owner) = pr_state (owner_record st owner)"
    and "pr_state (owner_record st owner) = PPlanning"
  shows "advance st st'"
  using assms by (intro advance_kept) (auto simp: moved_def Let_def)

lemma advance_rejected:
  assumes kept: "kept owner st st'" and planning: "pr_state (owner_record st owner) = PPlanning" and valid: "valid_owner st owner"
    and "reject_patch sv owner failed stage st' = Running st''"
  shows "advance st st''" and "pr_state (owner_record st'' owner) = PFailed" and "kept owner st st''"
proof -
  have shape: "same_shape st st'" using kept by (simp add: kept_def)
  then have "valid_owner st' owner" using valid same_shape_valid by blast
  note rejected = reject_running [OF assms(4) this]
  show k: "kept owner st st''" using kept rejected(1) kept_steps by blast
  show state: "pr_state (owner_record st'' owner) = PFailed" by (rule rejected(2))
  have "moved st st'' owner"
    using rejected(3,4) state planning static_part_eqD [OF same_shapeD [OF shape, of owner]] by (simp add: moved_def Let_def)
  then show "advance st st''" using k advance_kept by blast
qed

subsection \<open>Collection\<close>

lemma then_run_Running [simp]: "then_run step rest = Running x \<longleftrightarrow> (\<exists>y. step = Running y \<and> rest y = Running x)"
  by (cases step) (simp_all add: then_run_def)

lemma keptD: "kept owner st st' \<Longrightarrow> other \<noteq> owner \<Longrightarrow> owner_record st' other = owner_record st other \<and> in_plans st' other = in_plans st other"
  by (simp add: kept_def)

lemma advance_valid: "advance st st' \<Longrightarrow> valid_owner st' owner = valid_owner st owner"
  using same_shape_valid by (auto simp: advance_def)

lemma collect_one_advance:
  assumes "collect_one sv images owner st = Running (st', collected)"
    and valid: "valid_owner st owner" and planning: "pr_state (owner_record st owner) = PPlanning"
  shows "advance st st' \<and> kept owner st st' \<and> (collected \<longrightarrow> pr_state (owner_record st' owner) = PPlanning)"
proof -
  note rejected = advance_rejected [OF _ planning valid]
  show ?thesis
  proof (cases "unavailable_provider st owner False")
    case (Some dependency)
    then show ?thesis using assms(1) rejected [OF kept_self] by (auto simp: collect_one_def)
  next
    case None
    show ?thesis
    proof (cases "planning_images images st owner")
      case (Inl failed)
      then show ?thesis using assms(1) None rejected [OF kept_self] by (auto simp: collect_one_def)
    next
      case (Inr selected)
      obtain st1 result where collect: "collect_patch_plan sv owner selected st = (st1, result)" by fastforce
      note plan = collect_patch_kept [OF collect]
      show ?thesis
      proof (cases result)
        case None
        then show ?thesis using assms(1) \<open>unavailable_provider _ _ _ = None\<close> Inr collect plan planning advance_planning [OF plan(1)]
          by (auto simp: collect_one_def)
      next
        case (Some failed)
        then show ?thesis using assms(1) None Inr collect rejected [OF plan(1)] by (auto simp: collect_one_def)
      qed
    qed
  qed
qed

lemma collect_plans_advance:
  assumes "collect_plans sv images owners st = Running (st', plans)" and "distinct owners"
    and "\<And>owner. owner \<in> set owners \<Longrightarrow> valid_owner st owner \<and> pr_state (owner_record st owner) = PPlanning"
  shows "advance st st' \<and> distinct plans \<and> set plans \<subseteq> set owners \<and>
    (\<forall>owner. owner \<in> set plans \<longrightarrow> pr_state (owner_record st' owner) = PPlanning) \<and>
    (\<forall>owner. owner \<notin> set owners \<longrightarrow> owner_record st' owner = owner_record st owner)"
  using assms
proof (induction owners arbitrary: st plans)
  case (Cons owner owners)
  then obtain st1 collected rest where one: "collect_one sv images owner st = Running (st1, collected)"
    and more: "collect_plans sv images owners st1 = Running (st', rest)" and plans: "plans = (if collected then owner # rest else rest)"
    by auto
  have start: "valid_owner st owner" "pr_state (owner_record st owner) = PPlanning" using Cons.prems(3) [of owner] by auto
  note first = collect_one_advance [OF one start]
  then have kept: "kept owner st st1" and moves: "advance st st1" by blast+
  have next_owners: "valid_owner st1 other \<and> pr_state (owner_record st1 other) = PPlanning" if "other \<in> set owners" for other
  proof -
    have "other \<noteq> owner" using that Cons.prems(2) by auto
    then show ?thesis using Cons.prems(3) [of other] that keptD [OF kept] advance_valid [OF moves] by auto
  qed
  have "distinct owners" using Cons.prems(2) by simp
  from Cons.IH [OF more this next_owners] have rest: "advance st1 st'" "distinct rest" "set rest \<subseteq> set owners"
    "\<forall>owner. owner \<in> set rest \<longrightarrow> pr_state (owner_record st' owner) = PPlanning"
    "\<forall>owner. owner \<notin> set owners \<longrightarrow> owner_record st' owner = owner_record st1 owner"
    by blast+
  have "advance st st'" using moves rest(1) advance_trans by blast
  moreover have "owner_record st' other = owner_record st other" if "other \<notin> set (owner # owners)" for other
    using rest(5) that keptD [OF kept, of other] by auto
  moreover have "collected \<Longrightarrow> pr_state (owner_record st' owner) = PPlanning" using rest(5) first Cons.prems(2) by auto
  ultimately show ?case using rest(2,3,4) plans Cons.prems(2) by (cases collected) auto
qed simp

subsection \<open>Validation\<close>

lemma validate_from_names:
  "\<exists>named. map fst (validate_from plans ready accepted failures) = map fst failures @ named \<and>
    set named \<subseteq> set ready \<and> (distinct ready \<longrightarrow> distinct named)"
proof (induction ready arbitrary: accepted failures)
  case (Cons p ready)
  have *: "\<exists>named. map fst (validate_from plans ready accepted' (failures @ extra)) = map fst failures @ named \<and>
      set named \<subseteq> set (p # ready) \<and> (distinct (p # ready) \<longrightarrow> distinct named)"
    if "extra = [] \<or> (\<exists>error. extra = [(p, error)])" for accepted' extra
  proof -
    obtain named where "map fst (validate_from plans ready accepted' (failures @ extra)) = map fst (failures @ extra) @ named"
      "set named \<subseteq> set ready" "distinct ready \<longrightarrow> distinct named" using Cons.IH by blast
    then show ?thesis using that by (intro exI [of _ "map fst extra @ named"]) auto
  qed
  show ?case using * [of "[]"] * [of "[(p, error)]" for error] by (auto split: option.splits sum.splits prod.splits)
qed simp

lemma reject_plans_advance:
  assumes "reject_plans sv failures st = Running st'" and "distinct (map fst failures)"
    and "\<And>number. number \<in> fst ` set failures \<Longrightarrow> valid_owner st (plan_owner number) \<and> pr_state (owner_record st (plan_owner number)) = PPlanning"
    and "inj_on plan_owner (fst ` set failures)"
  shows "advance st st'"
  using assms
proof (induction failures arbitrary: st)
  case (Cons item failures)
  obtain number error where item: "item = (number, error)" by fastforce
  let ?owner = "plan_owner number"
  obtain st1 where one: "reject_patch sv ?owner (diagnostic (owner_name st ?owner) error) ''Plan validation'' st = Running st1"
    and more: "reject_plans sv failures st1 = Running st'" using Cons.prems(1) item by auto
  have start: "valid_owner st ?owner" "pr_state (owner_record st ?owner) = PPlanning" using Cons.prems(3) [of number] item by auto
  note first = advance_rejected [OF kept_self start(2,1) one]
  have "valid_owner st1 (plan_owner other) \<and> pr_state (owner_record st1 (plan_owner other)) = PPlanning" if "other \<in> fst ` set failures" for other
  proof -
    have "other \<noteq> number" using Cons.prems(2) that item by auto
    then have "plan_owner other \<noteq> ?owner" using Cons.prems(4) that item by (auto simp: inj_on_def)
    then show ?thesis using Cons.prems(3) [of other] that keptD [OF first(3)] advance_valid [OF first(1)] by auto
  qed
  from Cons.IH [OF more _ this] Cons.prems(2,4) show ?case using first(1) advance_trans by (auto simp: inj_on_def)
qed simp

subsection \<open>Installation\<close>

lemma first_problem_None: "first_problem st required providers = None \<longleftrightarrow> list_all (\<lambda>provider. provider_problem st required provider = None) providers"
  by (induction providers) (auto split: option.split)

lemma providers_installed:
  "unavailable_provider st owner True = None \<longleftrightarrow>
    list_all (\<lambda>provider. record_state (in_session st) provider = PInstalled) (pr_providers (owner_record st owner))"
  by (auto simp: unavailable_provider_def first_problem_None provider_problem_def Let_def list_all_iff)

lemma kept_times [kept_laws]: "kept owner st (st\<lparr>in_last_update := f, in_next_update := g\<rparr>)" "kept owner st (st\<lparr>in_last_update := f\<rparr>)"
  by (rule kept_same; simp)+

lemma kept_valid: "kept owner st st' \<Longrightarrow> valid_owner st' other = valid_owner st other"
  using same_shape_valid by (auto simp: kept_def)

lemma activate_steps:
  "\<exists>st1 log. activate_patch sv owner st = change_world log (set_reason owner [] (set_state owner PInstalled st1)) \<and> kept owner st st1"
proof -
  let ?logged = "change_world (sv_log sv FC_LOG_DEBUG owner ''Activating patch'') st"
  let ?active = "case fh_activate (in_handlers ?logged owner) of Some activate \<Rightarrow> change_world activate ?logged | None \<Rightarrow> ?logged"
  have "kept owner st ?active" by (auto split: option.split intro!: kept_after kept_self)
  then have "kept owner st (?active\<lparr>in_last_update := f, in_next_update := g\<rparr>)" for f g using kept_steps kept_times(1) by blast
  then show ?thesis unfolding activate_patch_def Let_def by (intro exI conjI) (rule refl)
qed

lemma activate_installed:
  assumes "valid_owner st owner"
  shows "kept owner st (activate_patch sv owner st)" and "pr_state (owner_record (activate_patch sv owner st) owner) = PInstalled"
proof -
  obtain st1 log where steps: "activate_patch sv owner st = change_world log (set_reason owner [] (set_state owner PInstalled st1))"
    and kept: "kept owner st st1" using activate_steps by blast
  have "valid_owner st1 owner" using assms kept_valid [OF kept] by simp
  then show "pr_state (owner_record (activate_patch sv owner st) owner) = PInstalled"
    by (simp add: steps set_reason_own set_state_own)
  show "kept owner st (activate_patch sv owner st)" unfolding steps by (intro kept_after kept)
qed

definition settled_from :: "'w services \<Rightarrow> owner \<Rightarrow> 'w InstallState \<Rightarrow> 'w InstallState \<Rightarrow> bool" where
  "settled_from sv owner st st' \<longleftrightarrow> (kept owner st st' \<and> pr_state (owner_record st' owner) = PInstalled) \<or>
    (\<exists>st1 failed stage. kept owner st st1 \<and> reject_patch sv owner failed stage st1 = Running st')"

lemma settled_from_rejects: "reject_patch sv owner failed stage st = Running st' \<Longrightarrow> settled_from sv owner st st'"
  unfolding settled_from_def using kept_self by blast

lemma settled_from_kept: "kept owner st st1 \<Longrightarrow> settled_from sv owner st1 st' \<Longrightarrow> settled_from sv owner st st'"
  unfolding settled_from_def using kept_steps by blast

lemma apply_plan_settles:
  assumes "apply_plan sv owner st = Running st'" and "valid_owner st owner"
  shows "settled_from sv owner st st'"
proof -
  let ?st = "change_world (sv_log sv FC_LOG_DEBUG owner ''Installing patch'') (change_world (sv_annotate sv owner (the (in_plans st owner))) st)"
  obtain w plan result where applied: "sv_install sv (in_world ?st, the (in_plans ?st owner)) = Some ((w, plan), result)"
    using assms(1) by (auto simp: apply_plan_def Let_def split: option.splits)
  let ?st1 = "set_plan owner (Some plan) (?st\<lparr>in_world := w\<rparr>)"
  have kept: "kept owner st ?st1" by (intro kept_after kept_self)
  have valid: "valid_owner ?st1 owner" using assms(2) kept_valid [OF kept] by blast
  have "settled_from sv owner ?st1 st'"
  proof (cases result)
    case (Inl refused)
    then show ?thesis using assms(1) applied by (auto simp: apply_plan_def Let_def settled_from_rejects split: if_splits)
  next
    case (Inr u)
    then have "st' = activate_patch sv owner ?st1" using assms(1) applied by (simp add: apply_plan_def Let_def)
    then show ?thesis using activate_installed [OF valid] by (simp add: settled_from_def)
  qed
  then show ?thesis using settled_from_kept [OF kept] by blast
qed

lemma prepare_handler_kept: "kept owner st (fst (prepare_handler sv owner st))"
proof -
  have "kept owner st st'" if "run_prepare pointer owner program st = (st', status, reports)" for pointer program st' status reports
    using run_prepare_kept [of owner st pointer program] that by simp
  then show ?thesis by (auto simp: prepare_handler_def split: option.split prod.split)
qed

lemma prepare_patch_settles:
  assumes "prepare_patch sv owner st = Running st'" and "valid_owner st owner"
  shows "settled_from sv owner st st'"
proof -
  let ?st = "change_world (sv_log sv FC_LOG_DEBUG owner ''Preparing patch'') (set_state owner PPreparing st)"
  obtain w plan outcome where prepared: "sv_prepare sv (in_world ?st, the (in_plans ?st owner)) = Some ((w, plan), outcome)"
    using assms(1) by (auto simp: prepare_patch_def Let_def split: option.splits)
  let ?st1 = "set_plan owner (Some plan) (?st\<lparr>in_world := w\<rparr>)"
  obtain st2 failed where handler: "prepare_handler sv owner ?st1 = (st2, failed)" by fastforce
  have first: "kept owner st ?st1" by (intro kept_after kept_self)
  have "kept owner ?st1 st2"
    using prepare_handler_kept [of owner ?st1 sv] handler by simp
  then have kept: "kept owner st st2" using first kept_steps by blast
  show ?thesis
  proof (cases outcome)
    case (Inl error)
    then show ?thesis using assms(1) prepared settled_from_kept [OF first settled_from_rejects] by (auto simp: prepare_patch_def Let_def)
  next
    case (Inr u)
    then have "case failed of Some d \<Rightarrow> reject_patch sv owner d ''Preparation'' st2 = Running st' | None \<Rightarrow> apply_plan sv owner st2 = Running st'"
      using assms(1) prepared handler by (auto simp: prepare_patch_def Let_def split: option.splits)
    then have "settled_from sv owner st2 st'"
      using apply_plan_settles [of sv owner st2 st'] kept_valid [OF kept, of owner] assms(2) settled_from_rejects [of sv owner _ _ st2 st']
      by (cases failed) simp_all
    then show ?thesis using settled_from_kept [OF kept] by blast
  qed
qed

lemma install_one_advance:
  assumes "install_one sv owner st = Running st'" and valid: "valid_owner st owner"
  shows "advance st st' \<and> pr_state (owner_record st' owner) \<noteq> PPlanning"
proof (cases "pr_state (owner_record st owner) = PPlanning")
  case False
  then show ?thesis using assms(1) by (simp add: install_one_def)
next
  case planning: True
  show ?thesis
  proof (cases "unavailable_provider st owner True")
    case (Some dependency)
    then have "reject_patch sv owner dependency ''Dependency check'' st = Running st'" using assms(1) planning by (simp add: install_one_def)
    then show ?thesis using advance_rejected [OF kept_self planning valid] by auto
  next
    case None
    then have installed: "record_state (in_session st) i = PInstalled" if "i \<in> set (pr_providers (owner_record st owner))" for i
      using None [unfolded providers_installed list_all_iff] that by blast
    have "settled_from sv owner st st'" using assms None planning prepare_patch_settles by (auto simp: install_one_def)
    then show ?thesis unfolding settled_from_def
    proof (elim disjE exE conjE)
      assume kept: "kept owner st st'" and state: "pr_state (owner_record st' owner) = PInstalled"
      have "record_state (in_session st') i = PInstalled" if "i \<in> set (pr_providers (owner_record st owner))" for i
      proof -
        have "Session_Patch i \<noteq> owner" using installed [OF that] planning by (auto simp: record_state_owner simp del: owner_record.simps(1))
        then show ?thesis using installed [OF that] keptD [OF kept] by (simp add: record_state_owner del: owner_record.simps)
      qed
      then have "moved st st' owner" using planning state by (auto simp: moved_def Let_def list_all_iff)
      then show ?thesis using advance_kept [OF kept] state by auto
    next
      fix st1 failed stage
      assume "kept owner st st1" "reject_patch sv owner failed stage st1 = Running st'"
      then show ?thesis using advance_rejected [OF _ planning valid] by auto
    qed
  qed
qed

lemma advance_settled: "advance st st' \<Longrightarrow> pr_state (owner_record st owner) \<noteq> PPlanning \<Longrightarrow> pr_state (owner_record st' owner) \<noteq> PPlanning"
  using moved_installed [of st st' owner] by (simp add: advance_def)

lemma install_each_advance:
  assumes "install_each sv owners st = Running st'" and "\<And>owner. owner \<in> set owners \<Longrightarrow> valid_owner st owner"
  shows "advance st st' \<and> (\<forall>owner. owner \<in> set owners \<longrightarrow> pr_state (owner_record st' owner) \<noteq> PPlanning)"
  using assms
proof (induction owners arbitrary: st)
  case (Cons owner owners)
  then obtain st1 where one: "install_one sv owner st = Running st1" and more: "install_each sv owners st1 = Running st'" by auto
  note first = install_one_advance [OF one Cons.prems(2) [of owner, simplified]]
  then have moves: "advance st st1" and state: "pr_state (owner_record st1 owner) \<noteq> PPlanning" by blast+
  have "valid_owner st1 other" if "other \<in> set owners" for other
    using Cons.prems(2) [of other] that advance_valid [OF moves] by auto
  from Cons.IH [OF more this] have rest: "advance st1 st'" "\<forall>owner. owner \<in> set owners \<longrightarrow> pr_state (owner_record st' owner) \<noteq> PPlanning"
    by blast+
  then show ?case using advance_trans [OF moves rest(1)] advance_settled [OF rest(1) state] by auto
qed simp

section \<open>The batch\<close>

lemma batch_order_correct:
  assumes "batch_order st = Running owners"
  shows "distinct owners" and "set owners = {owner. valid_owner st owner \<and> pr_state (owner_record st owner) = PPlanning}"
proof -
  obtain order where order: "ready_patch_order (in_session st) = Some order"
    and owners: "owners = filter (\<lambda>owner. pr_state (owner_record st owner) = PPlanning) (internal_owners st) @ map Session_Patch order"
    using assms by (auto simp: batch_order_def split: option.splits)
  have mset: "mset order = mset (planning_patches (in_session st))"
    using order_remaining_correct order unfolding ready_patch_order_def by fastforce
  then have members: "set order = {i. i < length (ss_patches (in_session st)) \<and> pr_state (ss_patches (in_session st) ! i) = PPlanning}"
    using mset_eq_setD [OF mset] by (auto simp: planning_patches_def)
  have "distinct order" using mset_eq_imp_distinct_iff [OF mset] by (simp add: planning_patches_def)
  then show "distinct owners" by (auto simp: owners internal_owners_def distinct_map inj_on_def)
  have "owner \<in> set owners \<longleftrightarrow> valid_owner st owner \<and> pr_state (owner_record st owner) = PPlanning" for owner
    by (cases owner) (auto simp: owners members internal_owners_def)
  then show "set owners = {owner. valid_owner st owner \<and> pr_state (owner_record st owner) = PPlanning}" by blast
qed

lemma inj_plan_owner: "inj_on plan_owner (plan_number ` owners)"
  by (rule inj_on_inverseI [of _ plan_number]) auto

lemma installation_advances:
  assumes "install_ready_patches sv images st = Running st'"
  shows "advance st st'" and "valid_owner st owner \<Longrightarrow> pr_state (owner_record st' owner) \<noteq> PPlanning"
proof -
  obtain owners st1 plans st2 where order: "batch_order st = Running owners"
    and collect: "collect_plans sv images owners st = Running (st1, plans)"
    and reject: "reject_plans sv (validate_plans (plan_table st1) (map plan_number plans) (installed_claims st)) st1 = Running st2"
    and install: "install_each sv owners st2 = Running st'"
    using assms by (auto simp: install_ready_patches_def)
  note owners = batch_order_correct [OF order]
  have collected: "advance st st1" "distinct plans" "set plans \<subseteq> set owners"
    "\<And>owner. owner \<in> set plans \<Longrightarrow> pr_state (owner_record st1 owner) = PPlanning"
    using collect_plans_advance [OF collect owners(1)] owners(2) by auto
  let ?failures = "validate_plans (plan_table st1) (map plan_number plans) (installed_claims st)"
  have "inj_on plan_number (set plans)" by (rule inj_on_inverseI [of _ plan_owner]) simp
  then have numbers: "distinct (map plan_number plans)" using collected(2) by (simp add: distinct_map)
  obtain named where named: "map fst ?failures = named" "set named \<subseteq> plan_number ` set plans" "distinct named"
    using validate_from_names [of "plan_table st1" "map plan_number plans" "installed_claims st" "[]"] numbers
    by (auto simp: validate_plans_def)
  then have inside: "fst ` set ?failures \<subseteq> plan_number ` set plans" by (metis set_map)
  have rejected: "advance st1 st2"
  proof (rule reject_plans_advance [OF reject])
    show "distinct (map fst ?failures)" using named by simp
    show "inj_on plan_owner (fst ` set ?failures)" using inj_on_subset [OF inj_plan_owner inside] .
    show "valid_owner st1 (plan_owner number) \<and> pr_state (owner_record st1 (plan_owner number)) = PPlanning"
      if failed: "number \<in> fst ` set ?failures" for number
    proof -
      obtain owner where owner: "owner \<in> set plans" "number = plan_number owner" using subsetD [OF inside failed] by blast
      then have "valid_owner st owner" using collected(3) owners(2) by blast
      then show ?thesis using owner collected(4) [OF owner(1)] advance_valid [OF collected(1)] by simp
    qed
  qed
  have "valid_owner st2 owner" if "owner \<in> set owners" for owner
    using that owners(2) advance_valid [OF collected(1)] advance_valid [OF rejected] by auto
  note installed = install_each_advance [OF install this]
  show "advance st st'" using advance_trans [OF advance_trans [OF collected(1) rejected]] installed by blast
  show "pr_state (owner_record st' owner) \<noteq> PPlanning" if "valid_owner st owner"
  proof (cases "owner \<in> set owners")
    case True
    then show ?thesis using installed by blast
  next
    case False
    then have "pr_state (owner_record st owner) \<noteq> PPlanning" using that owners(2) by auto
    then show ?thesis using advance_settled [OF \<open>advance st st'\<close>] by blast
  qed
qed

section \<open>Runs\<close>

text \<open>
  The sessions of a process, as \<open>CoreRuntime::start\<close> and \<open>CoreRuntime::control_scan\<close> produce them. Selection starts with
  the configuration of the patches; awaited images, whenever some arrive, change it again. Each of these is followed by
  a batch of installations, in whatever state the runtime's integrations, handlers, plans and services are in, and the
  batch by a refresh, which propagates its failures. In between reporting and notifications add diagnostics.
\<close>

inductive selected_session :: "'w services \<Rightarrow> AdmissionResult \<Rightarrow> catalog \<Rightarrow> u32 \<Rightarrow> SelectionSession \<Rightarrow> bool"
  and installed_session :: "'w services \<Rightarrow> AdmissionResult \<Rightarrow> catalog \<Rightarrow> u32 \<Rightarrow> SelectionSession \<Rightarrow> bool"
  for sv :: "'w services" and admitted catalog role where
  configured: "selected_session sv admitted catalog role
    (fst (configure_patches plat worlds reads observations paths (resolve_patches admitted catalog role, disk)))"
| installed: "selected_session sv admitted catalog role (in_session st) \<Longrightarrow> install_ready_patches sv images st = Running st' \<Longrightarrow>
    installed_session sv admitted catalog role (in_session st')"
| propagated: "installed_session sv admitted catalog role session \<Longrightarrow>
    selected_session sv admitted catalog role (refresh_selection observations session)"
| refreshed: "selected_session sv admitted catalog role session \<Longrightarrow>
    selected_session sv admitted catalog role (refresh_selection observations session)"
| images_awaited: "selected_session sv admitted catalog role session \<Longrightarrow>
    selected_session sv admitted catalog role (fst (process_awaited_images probe session images private_filenames))"
| reported: "selected_session sv admitted catalog role session \<Longrightarrow>
    selected_session sv admitted catalog role (session\<lparr>ss_diagnostics := ds\<rparr>)"

inductive_cases selected_sessionE: "selected_session sv admitted catalog role session"
inductive_cases installed_sessionE: "installed_session sv admitted catalog role session"

lemma installed_record_ok:
  assumes "advance st st'" and "record_ok (owner_record st owner)"
  shows "record_ok (owner_record st' owner)"
proof -
  have "static_part (owner_record st' owner) = static_part (owner_record st owner)" "moved st st' owner"
    using assms(1) by (simp_all add: advance_def same_shape_def)
  note same = static_part_eqD [OF this(1)] and moves = this(2)
  show ?thesis using assms(2) same(4) same(5) moved_installed [OF moves] by (auto simp: record_ok_def)
qed

lemma installed_ok:
  assumes "session_ok (in_session st)" and "install_ready_patches sv images st = Running st'"
  shows "session_ok (in_session st')"
proof -
  have moves: "advance st st'" using installation_advances(1) [OF assms(2)] .
  then have size: "length (ss_patches (in_session st')) = length (ss_patches (in_session st))" by (simp add: advance_def same_shape_def)
  have "record_ok (ss_patches (in_session st') ! i)" if "i < length (ss_patches (in_session st))" for i
    using installed_record_ok [OF moves, of "Session_Patch i"] assms(1) that by (simp add: session_ok_def list_all_length)
  moreover have "pr_providers (ss_patches (in_session st') ! i) = pr_providers (ss_patches (in_session st) ! i)" for i
    using static_part_eqD(1) [of "owner_record st' (Session_Patch i)" "owner_record st (Session_Patch i)"] moves
    by (simp add: advance_def same_shape_def del: owner_record.simps) simp
  ultimately show ?thesis using assms(1) size by (simp add: session_ok_def providers_valid_def list_all_length)
qed

lemma run_settled:
  "selected_session sv admitted catalog role session \<Longrightarrow> session_settled session"
  "installed_session sv admitted catalog role session \<Longrightarrow> session_ok session"
proof (induction rule: selected_session_installed_session.inducts)
  case (installed st images st')
  then show ?case using installed_ok [OF settled_ok] by blast
qed (simp_all add: configured_settled refresh_settles settled_ok awaited_settled)

lemmas selected_settled = run_settled(1)

end
