(* ===== verification/Native_Services.thy ===== *)
theory Native_Services
  imports Patch_Installation_Laws
begin

text \<open>
  The native layer beneath an installation: \<open>SubmittedPlan::prepare\<close> and \<open>SubmittedPlan::install\<close> with the hook registry
  (\<open>runtime/src/native\<close>) as the services that \<open>Patch_Installation\<close> uses.
\<close>

section \<open>The world of the native layer\<close>

text \<open>The process, the registry's sites, and the hooks that each plan has pending between preparation and installation.\<close>

record 'm native_world =
  nt_process :: 'm
  nt_sites :: "HookSite list"
  nt_pending :: "nat \<Rightarrow> Item list"

definition with_process :: "'m native_world \<Rightarrow> 'm \<Rightarrow> 'm native_world" where
  "with_process w m = w\<lparr>nt_process := m\<rparr>"

text \<open>The calls of Windows on the process inside.\<close>

definition native_windows :: "'m windows \<Rightarrow> 'm native_world windows" where
  "native_windows os =
    \<lparr>virtual_query = (\<lambda>a w. virtual_query os a (nt_process w)),
     virtual_protect = (\<lambda>a n flags w. map_prod (with_process w) id (virtual_protect os a n flags (nt_process w))),
     write_process_memory = (\<lambda>a bytes w. map_prod (with_process w) id (write_process_memory os a bytes (nt_process w))),
     flush_instruction_cache = (\<lambda>a n w. map_prod (with_process w) id (flush_instruction_cache os a n (nt_process w))),
     read_process_memory = (\<lambda>a n w. read_process_memory os a n (nt_process w)),
     copy_bytes = (\<lambda>a bytes w. with_process w (copy_bytes os a bytes (nt_process w))),
     virtual_allocate = (\<lambda>w. virtual_allocate os (nt_process w)),
     reserved_memory = (\<lambda>a n w. with_process w (reserved_memory os a n (nt_process w))),
     system_information = system_information os, system_message = system_message os,
     last_error = (\<lambda>w. last_error os (nt_process w)), greatest_address = greatest_address os\<rparr>"

text \<open>The registry's preparation keeps the pending hooks of the plan and gives the resources of its original calls.\<close>

definition native_hooks :: "'m windows \<Rightarrow> 'm hook_os \<Rightarrow> FC_Architecture \<Rightarrow> 'm native_world \<Rightarrow> SubmittedPlan \<Rightarrow>
    ('m native_world \<times> (string + NativeResource list)) option" where
  "native_hooks os ho arch w plan =
    map_option (\<lambda>((m, prepared_plan), outcome).
      case outcome of
        Inl error \<Rightarrow> (with_process w m, Inl error)
      | Inr items \<Rightarrow> (with_process w m\<lparr>nt_pending := (nt_pending w)(sp_plan plan := items)\<rparr>, Inr (sp_resources prepared_plan)))
      (prepare_hooks os ho arch (nt_sites w) (nt_process w, plan))"

definition native_prepare :: "'m windows \<Rightarrow> 'm hook_os \<Rightarrow> FC_Architecture \<Rightarrow> ('m native_world \<Rightarrow> native_env) \<Rightarrow>
    (FC_NativeCall \<Rightarrow> string + unit) \<Rightarrow> ('m native_world, unit) preparing" where
  "native_prepare os ho arch env invoker = prepare (native_windows os) env invoker (Some (native_hooks os ho arch))"

definition native_install :: "'m windows \<Rightarrow> 'm hook_os \<Rightarrow> ('m native_world \<Rightarrow> native_env) \<Rightarrow> 'm native_world \<times> SubmittedPlan \<Rightarrow>
    (('m native_world \<times> SubmittedPlan) \<times> (NativeWriteFailure + unit)) option" where
  "native_install os ho env state = (case state of (w, plan) \<Rightarrow>
    map_option (\<lambda>((sites, m, plan), result). ((w\<lparr>nt_process := m, nt_sites := sites\<rparr>, plan), result))
      (install os (\<lambda>m. env (with_process w m)) (Some (install_registry (nt_pending w (sp_plan plan)) os ho)) (nt_sites w, nt_process w, plan)))"

definition native_services :: "'m windows \<Rightarrow> 'm hook_os \<Rightarrow> FC_Architecture \<Rightarrow> (FC_NativeCall \<Rightarrow> string + unit) \<Rightarrow>
    'm native_world services \<Rightarrow> 'm native_world services" where
  "native_services os ho arch invoker sv =
    sv\<lparr>sv_prepare := native_prepare os ho arch (sv_env sv) invoker, sv_install := native_install os ho (sv_env sv)\<rparr>"

section \<open>Installation tells the truth\<close>

text \<open>The world in which the plan is installed: the crash report has its annotations and the log its line.\<close>

definition before_install :: "'w services \<Rightarrow> owner \<Rightarrow> 'w InstallState \<Rightarrow> 'w" where
  "before_install sv owner st = sv_log sv FC_LOG_DEBUG owner ''Installing patch'' (sv_annotate sv owner (the (in_plans st owner)) (in_world st))"

text \<open>C2: Under Windows and the detour library as documented, installing a prepared plan never gets stuck, and there are three
  outcomes. Its writes and hooks are in place, and the patch is activated; or they are refused with nothing changed, no
  byte, no protection and no hook site, and the patch is rejected with the reason while the process goes on; or something
  may have changed, and the process is ended with that reason.\<close>

theorem native_apply_outcome:
  assumes "windows_laws page memory protection os" and "trap_law ho"
    and "in_plans st owner = Some plan" and "\<not> sp_exposed plan"
  shows "let sv' = native_services os ho arch invoker sv; w0 = before_install sv' owner st; outcome = apply_plan sv' owner st
    in \<exists>w plan' result. native_install os ho (sv_env sv) (w0, plan) = Some ((w, plan'), result) \<and>
      (let st' = set_plan owner (Some plan') (st\<lparr>in_world := w\<rparr>)
       in case result of
            Inr _ \<Rightarrow> sp_exposed plan' \<and> outcome = Running (activate_patch sv' owner st')
          | Inl refused \<Rightarrow>
              if nw_unsafe refused
              then outcome = Terminated (''Patch '' @ quoted (owner_name st' owner) @
                '' installation failed and native bytes or memory protections may have changed: '' @ nw_message refused) 0
              else memory (nt_process w) = memory (nt_process w0) \<and> protection (nt_process w) = protection (nt_process w0) \<and>
                nt_sites w = nt_sites w0 \<and>
                outcome = reject_patch sv' owner (diagnostic (owner_name st' owner) (nw_message refused)) ''Installation'' st')"
proof -
  let ?sv = "native_services os ho arch invoker sv"
  let ?w = "before_install ?sv owner st"
  have fields: "sv_install ?sv = native_install os ho (sv_env sv)" by (simp add: native_services_def)
  obtain sites m plan' result where run: "install os (\<lambda>m. sv_env sv (with_process ?w m))
      (Some (install_registry (nt_pending ?w (sp_plan plan)) os ho)) (nt_sites ?w, nt_process ?w, plan) = Some ((sites, m, plan'), result)"
    and told: "case result of
       Inl refused \<Rightarrow> nw_unsafe refused = sp_exposed plan' \<and>
         (nw_unsafe refused \<or> (sites = nt_sites ?w \<and> memory m = memory (nt_process ?w) \<and> protection m = protection (nt_process ?w)))
     | Inr _ \<Rightarrow> sp_exposed plan'"
    using registry.plan_install [OF assms(1,2,4)] by blast
  let ?final = "?w\<lparr>nt_process := m, nt_sites := sites\<rparr>"
  have native: "native_install os ho (sv_env sv) (?w, plan) = Some ((?final, plan'), result)"
    using run by (simp add: native_install_def)
  let ?st = "set_plan owner (Some plan') (st\<lparr>in_world := ?final\<rparr>)"
  have same: "set_plan owner (Some plan') (change_world f (change_world g st)\<lparr>in_world := ?final\<rparr>) = ?st" for f g
    by (simp add: change_world_def)
  have "apply_plan ?sv owner st = (case result of
      Inr _ \<Rightarrow> Running (activate_patch ?sv owner ?st)
    | Inl refused \<Rightarrow>
        if sp_exposed plan' \<or> nw_unsafe refused
        then Terminated (''Patch '' @ quoted (owner_name ?st owner) @
          '' installation failed and native bytes or memory protections may have changed: '' @ nw_message refused) 0
        else reject_patch ?sv owner (diagnostic (owner_name ?st owner) (nw_message refused)) ''Installation'' ?st)"
    using native same assms(3)
    by (cases result) (simp_all add: apply_plan_def Let_def fields before_install_def change_world_def)
  then show ?thesis using native told unfolding Let_def by (cases result) (auto split: if_splits)
qed

text \<open>An example plan after its preparation, and the example process.\<close>

definition native_plan :: SubmittedPlan where
  "native_plan = (sample_submitted 0)\<lparr>sp_preparing := True, sp_writes := [\<lparr>pw_address = 0x400010, pw_bytes = [1, 2, 3, 4],
     pw_location = \<lparr>loc_image = 0, loc_rva = 16, loc_name = []\<rparr>\<rparr>]\<rparr>"

definition native_state :: "((nat \<Rightarrow> byte) \<times> (nat \<Rightarrow> nat)) native_world InstallState" where
  "native_state = \<lparr>in_session = \<lparr>ss_catalog = [], ss_role = 1, ss_plugins = [], ss_patches = [], ss_diagnostics = [], ss_fatal = False\<rparr>,
     in_internal = [], in_handlers = (\<lambda>owner. no_handler), in_plans = (\<lambda>owner. Some native_plan), in_apis = (\<lambda>i. no_reservations),
     in_last_update = (\<lambda>owner. 0), in_next_update = (\<lambda>owner. 0),
     in_world = \<lparr>nt_process = (\<lambda>x. 0, \<lambda>p. PAGE_EXECUTE_READ), nt_sites = [], nt_pending = (\<lambda>plan. [])\<rparr>\<rparr>"

definition quiet_services :: "((nat \<Rightarrow> byte) \<times> (nat \<Rightarrow> nat)) native_world services" where
  "quiet_services =
    \<lparr>sv_pointer = 4, sv_create = (\<lambda>owner settings w. (w, 0, no_handler, [])), sv_env = (\<lambda>w. sample_env), sv_executable = (\<lambda>owner w. True),
     sv_module = (\<lambda>owner. None), sv_prepare = (\<lambda>state. None), sv_install = (\<lambda>state. None), sv_discard = (\<lambda>owner w. w),
     sv_discard_traces = (\<lambda>owner w. w), sv_annotate = (\<lambda>owner plan w. w), sv_log = (\<lambda>level owner message w. w), sv_now = (\<lambda>w. 0)\<rparr>"

lemma reject_never_halts: "reject_patch sv owner failed stage st \<noteq> Halted"
  by (simp add: reject_patch_def Let_def split: option.split)

theorem native_apply_outcome_witness:
  "apply_plan (native_services sample_windows sample_hook_os FC_ARCH_X86 (\<lambda>call. Inr ()) quiet_services) (Session_Patch 0) native_state \<noteq> Halted"
proof -
  have plan: "in_plans native_state (Session_Patch 0) = Some native_plan" by (simp add: native_state_def)
  have unexposed: "\<not> sp_exposed native_plan" by (simp add: native_plan_def sample_submitted_value new_plan_def)
  show ?thesis
    using native_apply_outcome [OF sample_windows_laws sample_trap_law plan unexposed, of FC_ARCH_X86 "\<lambda>call. Inr ()" quiet_services]
    unfolding Let_def by (elim exE conjE) (auto split: sum.splits if_splits simp: reject_never_halts)
qed

end
