(* ===== verification/Installation_Properties.thy ===== *)
theory Installation_Properties
  imports Patch_Installation_Laws
begin

text \<open>
  The properties of selection and installation as a whole, on the sessions that startup, late images and installations
  produce.
\<close>

section \<open>A startup\<close>

text \<open>One plugin with one patch and no configuration directory.\<close>

definition startup_admission :: AdmissionResult where
  "startup_admission = \<lparr>ad_admitted = [limit_plugin], ad_diagnostics = []\<rparr>"

definition startup_session :: SelectionSession where
  "startup_session = \<lparr>ss_catalog = [], ss_role = 1,
     ss_plugins = [\<lparr>pl_admitted = limit_plugin,
       pl_configuration = Some \<lparr>pg_controls = [\<lparr>pc_enabled = True, pc_source = SourceDefault\<rparr>],
         pg_variants = [\<lparr>cv_patch = 0, cv_variant = 0, cv_values = [SV_Unsigned 7]\<rparr>], pg_warnings = []\<rparr>, pl_failure = None\<rparr>],
     ss_patches = [\<lparr>pr_plugin = 0, pr_index = 0, pr_definition = limit_patch, pr_internal = None, pr_resolved = Some limit_resolved,
       pr_selection = evaluate_patch [] limit_resolved 1 [] (rp_variants limit_resolved),
       pr_enabled = True, pr_selected_for_startup = True, pr_state = PPlanning, pr_reason = [], pr_providers = []\<rparr>],
     ss_diagnostics = [], ss_fatal = False\<rparr>"

lemma limit_added: "resolve_patches startup_admission [] 1 = add_plugin limit_plugin
    \<lparr>ss_catalog = [], ss_role = 1, ss_plugins = [], ss_patches = [], ss_diagnostics = [], ss_fatal = False\<rparr>"
  by (simp add: resolve_patches_def startup_admission_def)

lemma limit_resolves: "resolve_patch limit_plugin 0 [] = Inr limit_resolved"
proof -
  have "length (resolve_variants [] limit_patch) = 1" by (simp add: resolve_variants_def limit_patch_def)
  then have "variant_pairs (length (resolve_variants [] limit_patch)) = []" by (simp add: variant_pairs_def)
  then show ?thesis by (simp add: resolve_patch_def limit_resolved_def limit_plugin_def)
qed

lemma limit_reasons: "ps_reasons (evaluate_patch [] limit_resolved 1 [] (rp_variants limit_resolved)) = []"
  by code_simp


definition configured_session :: SelectionSession where
  "configured_session = startup_session\<lparr>ss_patches := [\<lparr>pr_plugin = 0, pr_index = 0, pr_definition = limit_patch, pr_internal = None,
     pr_resolved = Some limit_resolved, pr_selection = evaluate_patch [] limit_resolved 1 [] (rp_variants limit_resolved),
     pr_enabled = False, pr_selected_for_startup = False, pr_state = PDisabled, pr_reason = [], pr_providers = []\<rparr>]\<rparr>"

lemma limit_configured:
  "fst (configure_plugin plat worlds (\<lambda>_ _. limit_environment) [] offline 0 (resolve_patches startup_admission [] 1, files)) = configured_session"
proof -
  let ?session = "add_plugin limit_plugin
    \<lparr>ss_catalog = [], ss_role = 1, ss_plugins = [], ss_patches = [], ss_diagnostics = [], ss_fatal = False\<rparr>"
  have patches: "fl_patches (ap_definition limit_plugin) = [limit_patch]" by (simp add: limit_plugin_def)
  have session: "?session = configured_session\<lparr>ss_plugins := [\<lparr>pl_admitted = limit_plugin, pl_configuration = None, pl_failure = None\<rparr>],
      ss_patches := [(hd (ss_patches configured_session))\<lparr>pr_selection := no_selection\<rparr>]\<rparr>"
    by (simp add: add_plugin_def patches resolve_record_def limit_resolves new_record_def Let_def configured_session_def startup_session_def)
  obtain disk where loaded: "load_configuration plat (worlds 0) (\<lambda>_. limit_environment) [] files limit_plugin [(0, limit_resolved)] 1 [] offline =
      (Inr \<lparr>pg_controls = [\<lparr>pc_enabled = True, pc_source = SourceDefault\<rparr>],
          pg_variants = [\<lparr>cv_patch = 0, cv_variant = 0, cv_values = [SV_Unsigned 7]\<rparr>], pg_warnings = []\<rparr>, disk)"
    using limit_loaded [of plat "worlds 0" files] by (metis prod.collapse)
  have evaluated: "evaluate_record ?session [] 0 (hd (ss_patches ?session)) = hd (ss_patches configured_session)"
    unfolding session by (simp add: evaluate_record_def select_patch_def configured_session_def startup_session_def)
  show ?thesis
    unfolding limit_added configure_plugin_def Let_def
    using loaded evaluated unfolding session
    by (simp add: configured_session_def startup_session_def resolved_of_def keep_configuration_def)
qed


lemma limit_references: "variant_references (hd (ss_patches startup_session)) = []"
  by code_simp

lemma startup_resolved: "resolve_dependencies startup_session = startup_session"
proof -
  obtain patch where patch: "ss_patches startup_session = [patch]" "pr_providers patch = []" "pr_state patch = PPlanning"
    "fp_depends_on (pr_definition patch) = []" "variant_references patch = []" "ss_fatal startup_session = False"
    using limit_references by (auto simp: startup_session_def limit_patch_def)
  then have "rebuild_providers startup_session patch = patch" by (simp add: rebuild_providers_def)
  then have rebuilt: "rebuild_session startup_session = startup_session" by (simp add: rebuild_session_def patch)
  have "vs_patches (visit_session startup_session) = [patch]"
    by (simp add: visit_session_def patch visit.simps visit_providers.simps terminal_state_def apply_waiting_def)
  then show ?thesis by (simp add: resolve_dependencies_def rebuilt patch fatal_failure_def)
qed

lemma startup_refreshed: "refresh_selection [] configured_session = startup_session"
proof -
  have "configured_session\<lparr>ss_patches := map (refresh_record configured_session []) (ss_patches configured_session)\<rparr> = startup_session"
    by (simp add: configured_session_def startup_session_def refresh_record_def select_patch_def limit_selected limit_reasons Let_def)
  then show ?thesis by (simp add: refresh_selection_def startup_resolved)
qed

lemma startup_selected: "selected_session sv startup_admission [] 1 startup_session"
proof -
  let ?start = "resolve_patches startup_admission [] 1"
  have "length (ss_plugins ?start) = 1" unfolding limit_added by (simp add: add_plugin_def Let_def)
  then have "fst (configure_patches undefined undefined (\<lambda>_ _. limit_environment) [] offline (?start, Map.empty)) = startup_session"
    by (simp add: configure_patches_def limit_configured startup_refreshed)
  then show ?thesis using selected_session_installed_session.configured [of sv startup_admission "[]" 1 undefined undefined "\<lambda>_ _. limit_environment" "[]" offline Map.empty]
    by simp
qed

section \<open>A batch\<close>

text \<open>The startup patch beside an integration whose factory fails.\<close>

definition startup_services :: "nat services" where
  "startup_services = \<lparr>sv_pointer = 4,
     sv_create = (\<lambda>owner settings w. (w + 1, if owner = Session_Patch 0 then 1 else 0, no_handler\<lparr>fh_context := 1, fh_destroy := Some (\<lambda>w. w + 100)\<rparr>, [])),
     sv_env = (\<lambda>w. sample_env), sv_executable = (\<lambda>owner w. True), sv_module = (\<lambda>owner. None),
     sv_prepare = (\<lambda>state. Some (state, Inr ())),
     sv_install = (\<lambda>(w, plan). Some ((w + 10, plan\<lparr>sp_exposed := True\<rparr>), Inr ())),
     sv_discard = (\<lambda>owner w. w), sv_discard_traces = (\<lambda>owner w. w), sv_annotate = (\<lambda>owner plan w. w),
     sv_log = (\<lambda>level owner message w. w), sv_now = (\<lambda>w. int w)\<rparr>"

definition startup_state :: "nat InstallState" where
  "startup_state = \<lparr>in_session = startup_session,
     in_internal = [(hd (ss_patches startup_session))\<lparr>pr_internal := Some ''game'', pr_selected_for_startup := False\<rparr>],
     in_handlers = (\<lambda>owner. no_handler), in_plans = (\<lambda>owner. None), in_apis = (\<lambda>i. no_reservations),
     in_last_update = (\<lambda>owner. 0), in_next_update = (\<lambda>owner. 0), in_world = 0\<rparr>"

lemma startup_images: "ps_images (pr_selection (hd (ss_patches startup_session))) = []"
  by code_simp

lemma startup_installs:
  "case install_ready_patches startup_services [] startup_state of
     Running st \<Rightarrow> pr_state (owner_record st (Session_Patch 0)) = PInstalled \<and> pr_state (owner_record st (Internal_Patch 0)) = PFailed \<and>
       in_world st = 112
   | _ \<Rightarrow> False"
  by code_simp

text \<open>The session after it.\<close>

definition installed_startup :: SelectionSession where
  "installed_startup = refresh_selection []
     (case install_ready_patches startup_services [] startup_state of Running st \<Rightarrow> in_session st | _ \<Rightarrow> startup_session)"

lemma installed_states: "map pr_state (ss_patches installed_startup) = [PInstalled]"
  by code_simp

lemma installed_selected: "selected_session startup_services startup_admission [] 1 installed_startup"
proof -
  obtain st where run: "install_ready_patches startup_services [] startup_state = Running st"
    using startup_installs by (cases "install_ready_patches startup_services [] startup_state") simp_all
  have "selected_session startup_services startup_admission [] 1 (in_session startup_state)"
    using startup_selected by (simp add: startup_state_def)
  then have "installed_session startup_services startup_admission [] 1 (in_session st)" using run by (rule selected_session_installed_session.installed)
  then show ?thesis using run by (simp add: installed_startup_def selected_session_installed_session.propagated)
qed

section \<open>Claims\<close>

text \<open>C6: In every session in which a batch of installations starts, at startup or after late images and the batches
  before them, a patch that plans is enabled and its images are ready, no patch is left preparing, and every patch it
  requires is itself installed or planning: never disabled, waiting or failed.\<close>

theorem planning_patches_ready:
  assumes "selected_session sv admitted catalog role session" and "p < length (ss_patches session)"
  shows "pr_state (ss_patches session ! p) \<noteq> PPreparing \<and>
    (pr_state (ss_patches session ! p) = PPlanning \<longrightarrow>
      pr_enabled (ss_patches session ! p) \<and> ps_state (pr_selection (ss_patches session ! p)) = Ready \<and>
      list_all (\<lambda>q. q < length (ss_patches session) \<and> q \<noteq> p \<and>
        (pr_state (ss_patches session ! q) = PInstalled \<or> pr_state (ss_patches session ! q) = PPlanning))
        (pr_providers (ss_patches session ! p)))"
proof -
  note settled = selected_settled [OF assms(1), unfolded session_settled_def session_ok_def]
  then obtain order where order: "dependency_order (ss_patches session) order" by blast
  have bounds: "q < length (ss_patches session)" if "q \<in> set (pr_providers (ss_patches session ! p))" for q
    using settled that assms(2) by (auto simp: providers_valid_def list_all_length in_set_conv_nth)
  have ok: "selected_ok (ss_patches session ! q)" if "q < length (ss_patches session)" for q
    using settled that by (simp add: list_all_length)
  have "pr_state (ss_patches session ! q) = PInstalled \<or> pr_state (ss_patches session ! q) = PPlanning"
    if "pr_state (ss_patches session ! p) = PPlanning" "q \<in> set (pr_providers (ss_patches session ! p))" for q
  proof -
    have "p \<in> set order" using order that(1) assms(2) by (auto simp: dependency_order_def terminal_state_def)
    then have "pr_state (ss_patches session ! q) \<noteq> PDisabled" "pr_state (ss_patches session ! q) \<noteq> PFailed"
      "pr_state (ss_patches session ! q) \<noteq> PWaiting" using order that by (auto simp: dependency_order_def)
    moreover have "pr_state (ss_patches session ! q) \<noteq> PPreparing" using ok [OF bounds [OF that(2)]] by (simp add: selected_ok_def)
    ultimately show ?thesis by (cases "pr_state (ss_patches session ! q)") simp_all
  qed
  moreover have "q \<noteq> p" if "pr_state (ss_patches session ! p) = PPlanning" "q \<in> set (pr_providers (ss_patches session ! p))" for q
  proof -
    have "p \<in> set order" using order that(1) assms(2) by (auto simp: dependency_order_def terminal_state_def)
    moreover have "p \<notin> earlier order p" by (auto simp: earlier_def dest: set_takeWhileD)
    moreover have "\<not> terminal_state (pr_state (ss_patches session ! p))" using that(1) by (simp add: terminal_state_def)
    ultimately show ?thesis using order that unfolding dependency_order_def terminal_state_def by metis
  qed
  ultimately show ?thesis using bounds ok [OF assms(2)] by (auto simp: selected_ok_def list_all_iff)
qed

theorem planning_patches_ready_witness:
  "pr_enabled (ss_patches startup_session ! 0) \<and> ps_state (pr_selection (ss_patches startup_session ! 0)) = Ready"
proof -
  have "0 < length (ss_patches startup_session)" "pr_state (ss_patches startup_session ! 0) = PPlanning"
    by (simp_all add: startup_session_def)
  then show ?thesis using planning_patches_ready [OF startup_selected, of 0] by blast
qed

text \<open>C5: In every session in which a batch starts, the batch has an order, so that the search for it never ends the process. The
  order lists the planning patches once each, no patch comes before a patch it requires, and of two patches the one with
  the smaller folded identifiers comes first unless a patch it requires is still to come.\<close>

theorem ready_order_exact:
  assumes "selected_session sv admitted catalog role session"
  shows "\<exists>order. ready_patch_order session = Some order \<and> mset order = mset (planning_patches session) \<and>
    (\<forall>j < length order. \<forall>i \<le> j. order ! j \<notin> set (pr_providers (ss_patches session ! (order ! i)))) \<and>
    (\<forall>j < length order. \<forall>i < j. order_key session (order ! j) < order_key session (order ! i) \<longrightarrow>
      (\<exists>provider. provider \<in> set (pr_providers (ss_patches session ! (order ! j))) \<and> provider \<in> set (drop i order)))"
proof -
  obtain order where order: "ready_patch_order session = Some order" using ready_order_settled [OF selected_settled [OF assms]] by blast
  note found = order [unfolded ready_patch_order_def]
  show ?thesis using order order_remaining_correct [OF found] order_remaining_keys [OF found, of "order_key session"] by simp
qed

theorem ready_order_exact_witness:
  "ready_patch_order startup_session = Some [0] \<and> ready_patch_order installed_startup = Some []"
proof -
  have "planning_patches startup_session = [0]" by (simp add: planning_patches_def startup_session_def)
  moreover have "planning_patches installed_startup = []" using installed_states by (auto simp: planning_patches_def)
  ultimately show ?thesis using ready_order_exact [OF startup_selected] ready_order_exact [OF installed_selected] by auto
qed

text \<open>C1: When a batch does not end the process it settles every patch it plans: each one is installed, and then all patches it requires
  are installed too, or failed, and then its plan is gone and it was not a patch whose failure is fatal at startup. The other
  patches keep their state and their plan.\<close>

theorem installation_settles:
  assumes "install_ready_patches sv images st = Running st'" and "valid_owner st owner"
  shows "if pr_state (owner_record st owner) = PPlanning
    then (pr_state (owner_record st' owner) = PInstalled \<and>
        list_all (\<lambda>provider. record_state (in_session st') provider = PInstalled) (pr_providers (owner_record st owner))) \<or>
      (pr_state (owner_record st' owner) = PFailed \<and> in_plans st' owner = None \<and>
        \<not> (pr_selected_for_startup (owner_record st owner) \<and> failure_policy (owner_record st owner) = FC_FAILURE_FATAL))
    else pr_state (owner_record st' owner) = pr_state (owner_record st owner) \<and> in_plans st' owner = in_plans st owner"
proof -
  have "moved st st' owner" using installation_advances(1) [OF assms(1)] by (simp add: advance_def)
  moreover have "pr_state (owner_record st' owner) \<noteq> PPlanning" using installation_advances(2) [OF assms] .
  ultimately show ?thesis by (auto simp: moved_def Let_def)
qed

theorem installation_settles_witness:
  "case install_ready_patches startup_services [] startup_state of
     Running st \<Rightarrow> pr_state (owner_record st (Session_Patch 0)) = PInstalled \<or>
       (pr_state (owner_record st (Session_Patch 0)) = PFailed \<and> in_plans st (Session_Patch 0) = None)
   | _ \<Rightarrow> False"
proof -
  obtain st where run: "install_ready_patches startup_services [] startup_state = Running st"
    using startup_installs by (cases "install_ready_patches startup_services [] startup_state") simp_all
  have valid: "valid_owner startup_state (Session_Patch 0)" and planning: "pr_state (owner_record startup_state (Session_Patch 0)) = PPlanning"
    by (simp_all add: startup_state_def startup_session_def)
  show ?thesis using installation_settles [OF run valid] unfolding if_P [OF planning] run by (auto simp del: owner_record.simps)
qed

end
