(* ===== verification/Native_Dispatch.thy ===== *)
theory Native_Dispatch
  imports Native_Hook_Laws
begin

text \<open>
  The dispatch of an installed hook (\<open>hook_dispatch.cpp\<close>): the state of one invocation, the observers before, the
  original call or its modifier, the observers after in the opposite order, with the thread's floating-point and
  error state kept apart from what the authors' callbacks do to it.
\<close>

section \<open>The thread\<close>

text \<open>
  What a dispatch asks of its thread. The ambient state is what \<open>Ambient\<close> saves; \<open>to_call\<close> runs a thunk of a
  participant under its owner's callback scope, \<open>to_initialize\<close> begins a participant's state at an address, and
  \<open>to_original\<close> runs an invoker on the original target. Storage may be refused.
\<close>

record ('w, 'a, 'f) thread_os =
  to_ambient :: "'w \<Rightarrow> 'a"
  to_restore :: "'a \<Rightarrow> 'w \<Rightarrow> 'w"
  to_return_address :: "'w \<Rightarrow> nat"
  to_set_return_address :: "nat \<Rightarrow> 'w \<Rightarrow> 'w"
  to_call :: "Participant \<Rightarrow> nat \<Rightarrow> 'f \<Rightarrow> nat option \<Rightarrow> 'w \<Rightarrow> 'w"
  to_initialize :: "Participant \<Rightarrow> nat \<Rightarrow> 'w \<Rightarrow> 'w"
  to_original :: "nat \<Rightarrow> nat \<Rightarrow> 'f \<Rightarrow> 'w \<Rightarrow> 'w"
  to_allocate :: "nat \<Rightarrow> nat \<Rightarrow> 'w \<Rightarrow> 'w \<times> nat option"
  to_release :: "nat \<Rightarrow> nat \<Rightarrow> 'w \<Rightarrow> 'w"

section \<open>The state of an invocation\<close>

definition state_value :: "nat \<Rightarrow> Participant \<Rightarrow> nat option" where
  "state_value storage p = (if hp_state_size (pt_operation p) \<noteq> 0 then Some (storage + pt_state_offset p) else None)"

fun initialize_states :: "('w, 'a, 'f) thread_os \<Rightarrow> nat \<Rightarrow> Participant list \<Rightarrow> 'w \<Rightarrow> 'w" where
  "initialize_states t storage [] w = w"
| "initialize_states t storage (p # ps) w =
    initialize_states t storage ps
      (case state_value storage p of Some address \<Rightarrow> to_initialize t p address w | None \<Rightarrow> w)"

text \<open>A list without state has no block.\<close>

definition invocation_state :: "('w, 'a, 'f) thread_os \<Rightarrow> Participants \<Rightarrow> 'w \<Rightarrow> ('w \<times> nat) option" where
  "invocation_state t list w =
    (if ps_state_size list = 0 then Some (w, 0)
     else case to_allocate t (ps_state_size list) (ps_state_alignment list) w of
       (w, None) \<Rightarrow> None
     | (w, Some storage) \<Rightarrow> Some (initialize_states t storage (ps_values list) w, storage))"

definition release_state :: "('w, 'a, 'f) thread_os \<Rightarrow> Participants \<Rightarrow> nat \<Rightarrow> 'w \<Rightarrow> 'w" where
  "release_state t list storage w = (if storage = 0 then w else to_release t storage (ps_state_alignment list) w)"

section \<open>Dispatch\<close>

definition invoke_observer :: "('w, 'a, 'f) thread_os \<Rightarrow> 'f \<Rightarrow> nat \<Rightarrow> 'a \<Rightarrow> (HookParticipant \<Rightarrow> nat) \<Rightarrow> Participant \<Rightarrow> 'w \<Rightarrow> 'w" where
  "invoke_observer t frame storage ambient thunk p w =
    (if thunk (pt_operation p) \<noteq> 0
     then to_call t p (thunk (pt_operation p)) frame (state_value storage p) (to_restore t ambient w)
     else w)"

text \<open>
  A dispatch ends in a world, or terminates the process: \<open>None\<close> is \<open>fatal_invariant\<close>. The site has its list before a
  thread can enter it.
\<close>

definition typed_dispatch :: "('w, 'a, 'f) thread_os \<Rightarrow> HookSite \<Rightarrow> 'f \<Rightarrow> nat \<Rightarrow> 'w \<Rightarrow> 'w option" where
  "typed_dispatch t site frame return_address w =
    (let list = the (hs_current site);
         incoming = to_ambient t w;
         previous = to_return_address t w;
         w = to_set_return_address t return_address w
     in case invocation_state t list w of
          None \<Rightarrow> None
        | Some (w, storage) \<Rightarrow>
            (let w = fold (invoke_observer t frame storage incoming hp_before) (ps_values list) w;
                 w = to_restore t incoming w;
                 w = (case ps_modifier list of
                        Some i \<Rightarrow> to_call t (ps_values list ! i) (hp_modifier (pt_operation (ps_values list ! i))) frame None w
                      | None \<Rightarrow> to_original t (hs_invoker site) (hs_original_target site) frame w);
                 outgoing = to_ambient t w;
                 w = fold (invoke_observer t frame storage outgoing hp_after) (rev (ps_values list)) w;
                 w = release_state t list storage w;
                 w = to_restore t outgoing w
             in Some (to_set_return_address t previous w)))"

subsection \<open>Instruction hooks\<close>

text \<open>
  The registers of the two machine contexts; each list names the registers one group of assignments copies, in its
  order. A context is its XMM area and its registers; the backend's has the slot its trampoline returns through.
\<close>

datatype cpu_register =
    R_FLAGS | R_15 | R_14 | R_13 | R_12 | R_11 | R_10 | R_9 | R_8 | R_DI | R_SI | R_DX | R_CX | R_BX | R_AX | R_BP | R_SP | R_IP

record cpu_context =
  cx_xmm :: "byte list"
  cx_register :: "cpu_register \<Rightarrow> nat"

record backend_context = cpu_context +
  cx_trampoline :: nat

definition copied_registers :: "FC_Architecture \<Rightarrow> cpu_register list" where
  "copied_registers arch = (case arch of
     FC_ARCH_X64 \<Rightarrow> [R_FLAGS, R_15, R_14, R_13, R_12, R_11, R_10, R_9, R_8, R_DI, R_SI, R_DX, R_CX, R_BX, R_AX, R_BP, R_SP, R_IP]
   | FC_ARCH_X86 \<Rightarrow> [R_FLAGS, R_DI, R_SI, R_DX, R_CX, R_BX, R_AX, R_BP, R_SP, R_IP])"

definition returned_registers :: "FC_Architecture \<Rightarrow> cpu_register list" where
  "returned_registers arch = (case arch of
     FC_ARCH_X64 \<Rightarrow> [R_FLAGS, R_15, R_14, R_13, R_12, R_11, R_10, R_9, R_8, R_DI, R_SI, R_DX, R_CX, R_BX, R_AX, R_BP, R_IP]
   | FC_ARCH_X86 \<Rightarrow> [R_FLAGS, R_DI, R_SI, R_DX, R_CX, R_BX, R_AX, R_BP, R_IP])"

definition xmm_bytes :: "FC_Architecture \<Rightarrow> nat" where
  "xmm_bytes arch = (case arch of FC_ARCH_X64 \<Rightarrow> 16 * 16 | FC_ARCH_X86 \<Rightarrow> 8 * 16)"

definition captured_context :: "FC_Architecture \<Rightarrow> backend_context \<Rightarrow> cpu_context" where
  "captured_context arch backend =
    \<lparr>cx_xmm = take (xmm_bytes arch) (cx_xmm backend),
     cx_register = fold (\<lambda>r registers. registers(r := cx_register backend r)) (copied_registers arch) (\<lambda>r. 0)\<rparr>"

definition applied_context :: "FC_Architecture \<Rightarrow> cpu_context \<Rightarrow> backend_context \<Rightarrow> backend_context" where
  "applied_context arch cpu backend =
    backend\<lparr>cx_xmm := take (xmm_bytes arch) (cx_xmm cpu) @ drop (xmm_bytes arch) (cx_xmm backend),
            cx_register := fold (\<lambda>r registers. registers(r := cx_register cpu r)) (returned_registers arch) (cx_register backend)\<rparr>"

text \<open>The thread of an instruction hook also holds the context its callbacks read and change.\<close>

record ('w, 'a) instruction_os = "('w, 'a, unit) thread_os" +
  io_backend :: "'w \<Rightarrow> backend_context"
  io_set_backend :: "backend_context \<Rightarrow> 'w \<Rightarrow> 'w"
  io_cpu :: "'w \<Rightarrow> cpu_context"
  io_set_cpu :: "cpu_context \<Rightarrow> 'w \<Rightarrow> 'w"

text \<open>A moved stack gets its return slot below the new stack pointer, which must be writable.\<close>

definition return_slot :: "FC_Architecture \<Rightarrow> cpu_context \<Rightarrow> nat" where
  "return_slot arch cpu = (cx_register cpu R_SP + (address_max arch + 1) - kWord arch) mod (address_max arch + 1)"

definition move_stack :: "'w windows \<Rightarrow> ('w, 'a) instruction_os \<Rightarrow> FC_Architecture \<Rightarrow> nat \<Rightarrow> 'w \<Rightarrow> 'w option" where
  "move_stack os t arch original_stack w =
    (let cpu = io_cpu t w
     in if cx_register cpu R_SP = original_stack then Some w
        else case check_native_access os w (return_slot arch cpu) (kWord arch) True False of
          Some (Inr _) \<Rightarrow>
            (let w = io_set_backend t ((io_backend t w)\<lparr>cx_trampoline := return_slot arch cpu\<rparr>) w
             in Some (copy_bytes os (return_slot arch cpu) (le_bytes (kWord arch) (cx_register cpu R_IP)) w))
        | _ \<Rightarrow> None)"

definition instruction_dispatch :: "'w windows \<Rightarrow> ('w, 'a) instruction_os \<Rightarrow> FC_Architecture \<Rightarrow> HookSite \<Rightarrow> 'w \<Rightarrow> 'w option" where
  "instruction_dispatch os t arch site w =
    (let th = thread_os.truncate t;
         previous = to_return_address th w;
         w = to_set_return_address th 0 w;
         w = io_set_cpu t (captured_context arch (io_backend t w)) w;
         original_stack = cx_register (io_cpu t w) R_SP;
         incoming = to_ambient th w;
         list = the (hs_current site)
     in case invocation_state th list w of
          None \<Rightarrow> None
        | Some (w, storage) \<Rightarrow>
            (let w = fold (invoke_observer th () storage incoming hp_before) (ps_values list) w;
                 w = to_restore th incoming w;
                 w = (case ps_modifier list of
                        Some i \<Rightarrow> to_call th (ps_values list ! i) (hp_modifier (pt_operation (ps_values list ! i))) ()
                          (state_value storage (ps_values list ! i)) w
                      | None \<Rightarrow> w);
                 outgoing = to_ambient th w;
                 w = fold (invoke_observer th () storage outgoing hp_after) (rev (ps_values list)) w;
                 w = release_state th list storage w;
                 w = to_restore th outgoing w;
                 w = io_set_backend t (applied_context arch (io_cpu t w) (io_backend t w)) w
             in map_option (to_set_return_address th previous) (move_stack os t arch original_stack w)))"

lemma fold_registers: "fold (\<lambda>r registers. registers(r := f r)) rs g x = (if x \<in> set rs then f x else g x)"
  by (induction rs arbitrary: g) auto

text \<open>Callbacks see every register, and change every one but the stack pointer.\<close>

lemma captured_register: "r \<in> set (copied_registers arch) \<Longrightarrow> cx_register (captured_context arch backend) r = cx_register backend r"
  by (simp add: captured_context_def fold_registers)

lemma applied_register:
  "r \<in> set (copied_registers arch) \<Longrightarrow> cx_register (applied_context arch cpu backend) r =
    (if r = R_SP then cx_register backend r else cx_register cpu r)"
  by (cases arch; cases r) (simp_all add: applied_context_def fold_registers copied_registers_def returned_registers_def)

lemma applied_unchanged:
  assumes "xmm_bytes arch \<le> length (cx_xmm backend)"
  shows "applied_context arch (captured_context arch backend) backend = backend"
proof (rule backend_context.equality)
  show "cx_register (applied_context arch (captured_context arch backend) backend) = cx_register backend"
    by (cases arch) (auto simp: fun_eq_iff applied_context_def fold_registers captured_context_def copied_registers_def returned_registers_def)
qed (use assms in \<open>simp_all add: applied_context_def captured_context_def\<close>)

section \<open>The order of a dispatch\<close>

text \<open>
  The history of a thread: each call of a thunk or of the original with the ambient state and the return address it
  found, and the life of the invocation's block.
\<close>

datatype ('a, 'f) dispatch_event =
    Block_Allocated nat nat nat
  | State_Begun Participant nat
  | Thunk_Called Participant nat 'f "nat option" 'a nat
  | Original_Called nat nat 'f 'a nat
  | Block_Released nat nat

text \<open>
  A history that the thread keeps: restoring the ambient state restores it, a callback may change it as it likes, and
  every call leaves the return address as it found it, as dispatches nested in it do.
\<close>

definition thread_laws :: "('w, 'a, 'f) thread_os \<Rightarrow> ('w \<Rightarrow> ('a, 'f) dispatch_event list) \<Rightarrow> bool" where
  "thread_laws t history \<longleftrightarrow>
    (\<forall>a w. history (to_restore t a w) = history w \<and> to_ambient t (to_restore t a w) = a \<and>
       to_return_address t (to_restore t a w) = to_return_address t w) \<and>
    (\<forall>a w. history (to_set_return_address t a w) = history w \<and> to_ambient t (to_set_return_address t a w) = to_ambient t w \<and>
       to_return_address t (to_set_return_address t a w) = a) \<and>
    (\<forall>p thunk frame state w. history (to_call t p thunk frame state w) =
         history w @ [Thunk_Called p thunk frame state (to_ambient t w) (to_return_address t w)] \<and>
       to_return_address t (to_call t p thunk frame state w) = to_return_address t w) \<and>
    (\<forall>p address w. history (to_initialize t p address w) = history w @ [State_Begun p address] \<and>
       to_return_address t (to_initialize t p address w) = to_return_address t w) \<and>
    (\<forall>invoker target frame w. history (to_original t invoker target frame w) =
         history w @ [Original_Called invoker target frame (to_ambient t w) (to_return_address t w)] \<and>
       to_return_address t (to_original t invoker target frame w) = to_return_address t w) \<and>
    (\<forall>n a w w' storage. to_allocate t n a w = (w', Some storage) \<longrightarrow>
       history w' = history w @ [Block_Allocated n a storage] \<and> storage \<noteq> 0 \<and> a dvd storage \<and>
       to_return_address t w' = to_return_address t w) \<and>
    (\<forall>storage a w. history (to_release t storage a w) = history w @ [Block_Released storage a] \<and>
       to_return_address t (to_release t storage a w) = to_return_address t w)"

text \<open>The events a dispatch must make.\<close>

definition begun_events :: "nat \<Rightarrow> Participant list \<Rightarrow> ('a, 'f) dispatch_event list" where
  "begun_events storage ps = map (\<lambda>p. State_Begun p (storage + pt_state_offset p)) (filter has_state ps)"

definition observer_events :: "(HookParticipant \<Rightarrow> nat) \<Rightarrow> 'f \<Rightarrow> nat \<Rightarrow> 'a \<Rightarrow> nat \<Rightarrow> Participant list \<Rightarrow> ('a, 'f) dispatch_event list" where
  "observer_events thunk frame storage ambient return_address ps =
    map (\<lambda>p. Thunk_Called p (thunk (pt_operation p)) frame (state_value storage p) ambient return_address)
      (filter (\<lambda>p. thunk (pt_operation p) \<noteq> 0) ps)"

lemma initialize_events:
  assumes "thread_laws t history"
  shows "history (initialize_states t storage ps w) = history w @ begun_events storage ps \<and>
    to_return_address t (initialize_states t storage ps w) = to_return_address t w"
proof (induction ps arbitrary: w)
  case (Cons p ps)
  have "history (to_initialize t p a w) = history w @ [State_Begun p a]"
    "to_return_address t (to_initialize t p a w) = to_return_address t w" for a
    using assms by (simp_all add: thread_laws_def)
  then show ?case using Cons by (simp add: begun_events_def state_value_def has_state_def)
qed (simp add: begun_events_def)

lemma invoke_observer_events:
  assumes "thread_laws t history"
  shows "history (fold (invoke_observer t frame storage ambient thunk) ps w) =
      history w @ observer_events thunk frame storage ambient (to_return_address t w) ps \<and>
    to_return_address t (fold (invoke_observer t frame storage ambient thunk) ps w) = to_return_address t w"
proof (induction ps arbitrary: w)
  case (Cons p ps)
  have "history (invoke_observer t frame storage ambient thunk p w) =
      history w @ observer_events thunk frame storage ambient (to_return_address t w) [p]"
    "to_return_address t (invoke_observer t frame storage ambient thunk p w) = to_return_address t w"
    using assms by (simp_all add: thread_laws_def invoke_observer_def observer_events_def)
  then show ?case using Cons by (simp add: observer_events_def)
qed (simp add: observer_events_def)

definition block_events :: "Participants \<Rightarrow> nat \<Rightarrow> ('a, 'f) dispatch_event list" where
  "block_events list storage =
    (if ps_state_size list = 0 then [] else [Block_Allocated (ps_state_size list) (ps_state_alignment list) storage]) @
    begun_events storage (ps_values list)"

definition release_events :: "Participants \<Rightarrow> nat \<Rightarrow> ('a, 'f) dispatch_event list" where
  "release_events list storage = (if ps_state_size list = 0 then [] else [Block_Released storage (ps_state_alignment list)])"

text \<open>The call in the middle: the modifier's, which replaces the original and gets no state, or the original's.\<close>

definition replaced_call :: "('w, 'a, 'f) thread_os \<Rightarrow> HookSite \<Rightarrow> Participants \<Rightarrow> 'f \<Rightarrow> 'w \<Rightarrow> 'w" where
  "replaced_call t site list frame w = (case ps_modifier list of
     Some i \<Rightarrow> to_call t (ps_values list ! i) (hp_modifier (pt_operation (ps_values list ! i))) frame None w
   | None \<Rightarrow> to_original t (hs_invoker site) (hs_original_target site) frame w)"

lemma no_state: "packing greatest list \<Longrightarrow> ps_state_size list = 0 \<Longrightarrow> filter has_state (ps_values list) = []"
  by (rule ccontr) (auto simp: packing_def state_layout_def list_all_iff has_state_def filter_empty_conv)

lemma invocation_state_events:
  assumes "thread_laws t history" and "packing greatest list" and "invocation_state t list w = Some (w', storage)"
  shows "history w' = history w @ block_events list storage \<and> to_return_address t w' = to_return_address t w \<and>
    (ps_state_size list = 0 \<longleftrightarrow> storage = 0) \<and> ps_state_alignment list dvd storage"
proof (cases "ps_state_size list = 0")
  case True
  then show ?thesis using assms(3) no_state [OF assms(2)]
    by (simp add: invocation_state_def block_events_def begun_events_def)
next
  case False
  then obtain u where "to_allocate t (ps_state_size list) (ps_state_alignment list) w = (u, Some storage)"
    and w': "w' = initialize_states t storage (ps_values list) u"
    using assms(3) by (auto simp: invocation_state_def split: prod.splits option.splits)
  then have "history u = history w @ [Block_Allocated (ps_state_size list) (ps_state_alignment list) storage]" "storage \<noteq> 0"
    "ps_state_alignment list dvd storage" "to_return_address t u = to_return_address t w"
    using assms(1) unfolding thread_laws_def by blast+
  then show ?thesis
    using initialize_events [OF assms(1), of storage "ps_values list" u] False unfolding w'
    by (simp add: block_events_def)
qed

lemma release_state_events:
  assumes "thread_laws t history" and "ps_state_size list = 0 \<longleftrightarrow> storage = 0"
  shows "history (release_state t list storage w) = history w @ release_events list storage \<and>
    to_return_address t (release_state t list storage w) = to_return_address t w"
  using assms by (auto simp: release_state_def release_events_def thread_laws_def)

lemma slices_aligned:
  assumes "packing greatest list" and "ps_state_alignment list dvd storage"
  shows "list_all (\<lambda>p. hp_state_alignment (pt_operation p) dvd storage + pt_state_offset p \<and> slice_end p \<le> ps_state_size list)
    (filter has_state (ps_values list))"
  using assms by (auto simp: packing_def state_layout_def list_all_iff slice_ok_def intro: dvd_add dvd_trans)

text \<open>C38: What one typed invocation does, for a site whose list the registry has laid out: it allocates the block and begins
  each participant's state at an aligned address inside it, runs the observers before in order, then the modifier
  or the original call exactly once, then the observers after in the opposite order, and frees the block. Each
  observer before, and the call, start with the thread's state as the native caller left it, and each observer
  after with the state the call left, whatever the callbacks do to it; all of them see the native caller's return
  address; and the native code gets back the state the call left and the enclosing invocation its own return
  address.
\<close>
theorem typed_dispatch_order:
  assumes "thread_laws t history" and "hs_current site = Some list" and "packing greatest list"
    and "typed_dispatch t site frame return_address w = Some w'"
  shows "\<exists>storage before.
    history before = history w @ block_events list storage @
      observer_events hp_before frame storage (to_ambient t w) return_address (ps_values list) \<and>
    to_ambient t before = to_ambient t w \<and> to_return_address t before = return_address \<and>
    history w' = history (replaced_call t site list frame before) @
      observer_events hp_after frame storage (to_ambient t (replaced_call t site list frame before)) return_address (rev (ps_values list)) @
      release_events list storage \<and>
    to_ambient t w' = to_ambient t (replaced_call t site list frame before) \<and>
    to_return_address t w' = to_return_address t w \<and>
    list_all (\<lambda>p. hp_state_alignment (pt_operation p) dvd storage + pt_state_offset p \<and> slice_end p \<le> ps_state_size list)
      (filter has_state (ps_values list))"
proof -
  let ?ra = "to_set_return_address t return_address w"
  have set_ra: "history ?ra = history w" "to_ambient t ?ra = to_ambient t w" "to_return_address t ?ra = return_address"
    using assms(1) by (simp_all add: thread_laws_def)
  obtain u storage where state: "invocation_state t list ?ra = Some (u, storage)"
    using assms(2,4) by (cases "invocation_state t list ?ra") (auto simp: typed_dispatch_def)
  note begun = invocation_state_events [OF assms(1,3) state]
  define observed where "observed = fold (invoke_observer t frame storage (to_ambient t w) hp_before) (ps_values list) u"
  note obs = invoke_observer_events [OF assms(1), where frame = frame and storage = storage and ps = "ps_values list"]
  define before where "before = to_restore t (to_ambient t w) observed"
  have before: "history before = history observed" "to_ambient t before = to_ambient t w"
    "to_return_address t before = to_return_address t observed"
    using assms(1) by (simp_all add: thread_laws_def before_def)
  define called where "called = replaced_call t site list frame before"
  have called: "to_return_address t called = to_return_address t before"
    using assms(1) by (simp add: thread_laws_def called_def replaced_call_def split: option.split)
  define seen where "seen = fold (invoke_observer t frame storage (to_ambient t called) hp_after) (rev (ps_values list)) called"
  note after = invoke_observer_events [OF assms(1), where frame = frame and storage = storage and ps = "rev (ps_values list)" and w = called]
  let ?freed = "release_state t list storage seen"
  note freed = release_state_events [OF assms(1), of list storage seen]
  have w': "w' = to_set_return_address t (to_return_address t w) (to_restore t (to_ambient t called) ?freed)"
    using assms(2,4) state by (simp add: typed_dispatch_def Let_def observed_def before_def called_def seen_def replaced_call_def)
  have last_steps: "history w' = history ?freed" "to_ambient t w' = to_ambient t called" "to_return_address t w' = to_return_address t w"
    using assms(1) by (simp_all add: thread_laws_def w')
  show ?thesis
  proof (intro exI [of _ storage] exI [of _ before] conjI)
    show "history before = history w @ block_events list storage @
        observer_events hp_before frame storage (to_ambient t w) return_address (ps_values list)"
      using obs [of "to_ambient t w" hp_before u] begun before set_ra by (simp add: observed_def)
    show "to_return_address t before = return_address"
      using obs [of "to_ambient t w" hp_before u] begun before set_ra by (simp add: observed_def)
    then show "history w' = history (replaced_call t site list frame before) @
        observer_events hp_after frame storage (to_ambient t (replaced_call t site list frame before)) return_address (rev (ps_values list)) @
        release_events list storage"
      using after [of "to_ambient t called" hp_after] freed begun last_steps called
      by (simp add: called_def [symmetric] seen_def)
    show "list_all (\<lambda>p. hp_state_alignment (pt_operation p) dvd storage + pt_state_offset p \<and> slice_end p \<le> ps_state_size list)
        (filter has_state (ps_values list))"
      by (rule slices_aligned [OF assms(3)]) (use begun in simp)
  qed (use before last_steps in \<open>simp_all add: called_def\<close>)
qed

lemma typed_dispatch_fatal:
  "typed_dispatch t site frame return_address w = None \<longleftrightarrow>
   invocation_state t (the (hs_current site)) (to_set_return_address t return_address w) = None"
  by (simp add: typed_dispatch_def Let_def split: option.split)

text \<open>A thread that records its calls, and whose callbacks spoil the ambient state.\<close>

type_synonym sample_thread_state = "(nat, unit) dispatch_event list \<times> nat \<times> nat"

definition sample_thread :: "(sample_thread_state, nat, unit) thread_os" where
  "sample_thread =
    \<lparr>to_ambient = (\<lambda>(h, a, r). a), to_restore = (\<lambda>b (h, a, r). (h, b, r)), to_return_address = (\<lambda>(h, a, r). r),
     to_set_return_address = (\<lambda>s (h, a, r). (h, a, s)),
     to_call = (\<lambda>p thunk frame state (h, a, r). (h @ [Thunk_Called p thunk frame state a r], a + 1, r)),
     to_initialize = (\<lambda>p address (h, a, r). (h @ [State_Begun p address], a + 1, r)),
     to_original = (\<lambda>invoker target frame (h, a, r). (h @ [Original_Called invoker target frame a r], 40, r)),
     to_allocate = (\<lambda>n al (h, a, r). ((h @ [Block_Allocated n al (al * 64)], a, r), if al = 0 then None else Some (al * 64))),
     to_release = (\<lambda>storage al (h, a, r). (h @ [Block_Released storage al], a, r))\<rparr>"

lemma sample_thread_laws: "thread_laws sample_thread fst"
  by (simp add: thread_laws_def sample_thread_def split: prod.splits)

definition sample_site :: HookSite where
  "sample_site =
    \<lparr>hs_address = 0x1000, hs_original_target = 0x2000, hs_scope = 0, hs_call = None, hs_original = [1, 2, 3, 4, 5],
     hs_installed = [6, 7, 8, 9, 10], hs_entry = 0x3000, hs_invoker = 0x4000, hs_relay = None,
     hs_current = Some (sample_finished\<lparr>ps_modifier := None\<rparr>), hs_lists = [], hs_detour = Some 0\<rparr>"

lemma sample_packing: "packing 64 (sample_finished\<lparr>ps_modifier := None\<rparr>)"
proof -
  have "\<exists>k. 16 = (2::nat) ^ k" by (rule exI [of _ 4]) simp
  then show ?thesis
    by (simp add: packing_def state_layout_def slice_ok_def sample_finished_def sample_participant_def has_state_def)
qed

text \<open>The native code gets back the state the original left, 40, and its own return address, 3.\<close>

lemma typed_dispatch_order_witness:
  "\<exists>w'. typed_dispatch sample_thread sample_site () 7 ([], 5, 3) = Some w' \<and> to_ambient sample_thread w' = 40 \<and>
     to_return_address sample_thread w' = 3"
proof -
  obtain w' where w': "typed_dispatch sample_thread sample_site () 7 ([], 5, 3) = Some w'"
    by (cases "typed_dispatch sample_thread sample_site () 7 ([], 5, 3)")
      (simp_all add: typed_dispatch_fatal sample_site_def invocation_state_def sample_finished_def sample_thread_def)
  have site: "hs_current sample_site = Some (sample_finished\<lparr>ps_modifier := None\<rparr>)" by (simp add: sample_site_def)
  from typed_dispatch_order [OF sample_thread_laws site sample_packing w'] obtain before where
    "to_ambient sample_thread w' = to_ambient sample_thread (replaced_call sample_thread sample_site (sample_finished\<lparr>ps_modifier := None\<rparr>) () before)"
    "to_return_address sample_thread w' = 3" by (auto simp: sample_thread_def)
  moreover have "to_ambient sample_thread (replaced_call sample_thread sample_site (sample_finished\<lparr>ps_modifier := None\<rparr>) () before) = 40"
    by (simp add: replaced_call_def sample_thread_def split: prod.split)
  ultimately show ?thesis using w' by auto
qed

end
