(* ===== verification/Native_Resources.thy ===== *)
theory Native_Resources
  imports Native_Hooks
begin

text \<open>
  The table of prepared resources (\<open>resource_api.cpp\<close>): each call checks that the resource is ready, of the right
  kind, and that the request lies in its range and its permissions. An error is what the caller's sink gets.
\<close>

section \<open>The calls\<close>

text \<open>A null handle is \<open>None\<close>.\<close>

definition resource_api :: "NativeResource option \<Rightarrow> (NativeResource \<Rightarrow> string + 'a) \<Rightarrow> string + 'a" where
  "resource_api opaque function =
    (case opaque of
       None \<Rightarrow> Inl ''Native resource is unavailable''
     | Some resource \<Rightarrow> if \<not> nr_ready resource then Inl ''Native resource has not been prepared'' else function resource)"

text \<open>\<open>outputs\<close> says that the caller passed both output pointers; \<open>exposed\<close> is the state of the resource's plan.\<close>

definition data_api :: "bool \<Rightarrow> bool \<Rightarrow> NativeResource option \<Rightarrow> string + nat \<times> nat" where
  "data_api outputs exposed opaque = resource_api opaque (\<lambda>resource.
    if \<not> outputs \<or> nr_kind resource \<noteq> RK_Data \<or> exposed
    then Inl ''Data access requires output pointers and unpublished prepared data storage''
    else Inr (nr_address resource, nr_count resource))"

text \<open>
  A copy into the resource takes the caller's bytes; a copy out of it gives them, \<open>load\<close> being \<open>memcpy\<close> from live
  memory. The buffer is null when it is \<open>None\<close>.
\<close>

definition memory_api :: "'w windows \<Rightarrow> (nat \<Rightarrow> nat \<Rightarrow> 'w \<Rightarrow> byte list) \<Rightarrow> nat \<Rightarrow> byte list option \<Rightarrow> nat \<Rightarrow> bool \<Rightarrow> NativeResource option \<Rightarrow> 'w \<Rightarrow>
    'w \<times> (string + byte list)" where
  "memory_api os load offset buffer n writes opaque w =
    (case resource_api opaque (\<lambda>resource.
       if nr_kind resource \<noteq> RK_Memory \<or> buffer = None \<or> n = 0 \<or> offset > nr_size resource \<or> n > nr_size resource - offset \<or>
         (writes \<and> \<not> nr_writable resource)
       then Inl ''Memory access has an invalid resource, buffer, size, range or write permission''
       else
         let address = nr_address resource + offset
         in take_value (the (check_native_access os w address n writes False)) (\<lambda>_. Inr address)) of
       Inl error \<Rightarrow> (w, Inl error)
     | Inr address \<Rightarrow>
         if writes then (copy_bytes os address (take n (the buffer)) w, Inr [])
         else (w, Inr (load address n w)))"

definition view_api :: "'w windows \<Rightarrow> bool \<Rightarrow> NativeResource option \<Rightarrow> 'w \<Rightarrow> string + nat \<times> nat" where
  "view_api os outputs opaque w = resource_api opaque (\<lambda>resource.
    if \<not> outputs \<or> nr_kind resource \<noteq> RK_Memory
    then Inl ''Memory view requires output pointers and a memory resource''
    else take_value (the (check_native_access os w (nr_address resource) (nr_size resource) (nr_writable resource) False)) (\<lambda>_.
      Inr (nr_address resource, nr_size resource)))"

definition resolve_api :: "bool \<Rightarrow> NativeResource option \<Rightarrow> string + nat" where
  "resolve_api has_output opaque = resource_api opaque (\<lambda>resource.
    if \<not> has_output \<or> (nr_kind resource \<noteq> RK_Call \<and> nr_kind resource \<noteq> RK_Data)
    then Inl ''Address resolution requires an output pointer and a call or data resource''
    else Inr (nr_address resource))"

text \<open>The invoker of a call: the hook site's, by its address, or the resource's own; and the target it is given.\<close>

definition resource_invoker :: "NativeResource \<Rightarrow> (nat + FC_NativeCall) option" where
  "resource_invoker resource =
    (case nr_borrowed_invoker resource of
       Some address \<Rightarrow> if address = 0 then None else Some (Inl address)
     | None \<Rightarrow> map_option Inr (nr_invoker resource))"

definition invoke_api :: "bool \<Rightarrow> NativeResource option \<Rightarrow> string + (nat + FC_NativeCall) \<times> nat" where
  "invoke_api has_frame opaque = resource_api opaque (\<lambda>resource.
    if \<not> has_frame \<or> nr_kind resource \<noteq> RK_Call
    then Inl ''Custom native invocation requires a frame, a call resource and a prepared invoker''
    else case resource_invoker resource of
      None \<Rightarrow> Inl ''Custom native invocation requires a frame, a call resource and a prepared invoker''
    | Some invoker \<Rightarrow> Inr (invoker, nr_address resource))"

text \<open>\<open>guarded_call\<close> is the crash reporter's scope: the fault's address and kind, and the answer.\<close>

definition expected_fault_api :: "(nat \<Rightarrow> nat \<Rightarrow> 'w \<Rightarrow> 'w \<times> nat) \<Rightarrow> NativeResource option \<Rightarrow> 'w \<Rightarrow> 'w \<times> nat" where
  "expected_fault_api guarded_call opaque w =
    (case opaque of
       None \<Rightarrow> (w, 0)
     | Some resource \<Rightarrow>
         if nr_kind resource \<noteq> RK_Fault \<or> \<not> nr_ready resource then (w, 0)
         else guarded_call (nr_address resource) (nr_fault_kind resource) w)"

section \<open>What a copy can reach\<close>

lemma resource_api_ok:
  "resource_api opaque function = Inr v \<longleftrightarrow> (\<exists>resource. opaque = Some resource \<and> nr_ready resource \<and> function resource = Inr v)"
  by (auto simp: resource_api_def split: option.splits)

text \<open>
  A copy through a memory resource stays in the resource's range, and writes only to a resource that was prepared
  for writing; everything else keeps its bytes.
\<close>

lemma memory_api_within:
  assumes "memory_api os load offset buffer n writes opaque w = (w', Inr bytes)"
    and "\<And>a bs x. \<not> (a \<le> x \<and> x < a + length bs) \<Longrightarrow> memory (copy_bytes os a bs w) x = memory w x"
  shows "\<exists>resource. opaque = Some resource \<and> nr_ready resource \<and> nr_kind resource = RK_Memory \<and> offset + n \<le> nr_size resource \<and>
    (w' \<noteq> w \<longrightarrow> nr_writable resource) \<and>
    (\<forall>x. \<not> (nr_address resource + offset \<le> x \<and> x < nr_address resource + offset + n) \<longrightarrow> memory w' x = memory w x)"
proof -
  define located where "located = resource_api opaque (\<lambda>resource.
      if nr_kind resource \<noteq> RK_Memory \<or> buffer = None \<or> n = 0 \<or> offset > nr_size resource \<or> n > nr_size resource - offset \<or>
        (writes \<and> \<not> nr_writable resource)
      then Inl ''Memory access has an invalid resource, buffer, size, range or write permission''
      else let address = nr_address resource + offset
        in take_value (the (check_native_access os w address n writes False)) (\<lambda>_. Inr address))"
  have run: "(case located of Inl error \<Rightarrow> (w, Inl error) | Inr address \<Rightarrow>
      if writes then (copy_bytes os address (take n (the buffer)) w, Inr []) else (w, Inr (load address n w))) = (w', Inr bytes)"
    using assms(1) unfolding memory_api_def located_def .
  then obtain address where found: "located = Inr address" by (cases located) auto
  from found obtain resource where resource: "opaque = Some resource" "nr_ready resource" "nr_kind resource = RK_Memory"
    "offset \<le> nr_size resource" "n \<le> nr_size resource - offset" "writes \<longrightarrow> nr_writable resource" "address = nr_address resource + offset"
    by (auto simp: located_def resource_api_ok Let_def take_value_ok not_less split: if_splits)
  show ?thesis
  proof (cases writes)
    case True
    then have w': "w' = copy_bytes os address (take n (the buffer)) w" using run found by simp
    have "memory w' x = memory w x" if "\<not> (address \<le> x \<and> x < address + n)" for x
      unfolding w' by (rule assms(2)) (use that in auto)
    then show ?thesis using resource True by auto
  next
    case False
    then have "w' = w" using run found by simp
    then show ?thesis using resource by auto
  qed
qed

text \<open>Until a resource is prepared, no call gives anything but an error.\<close>

lemma unprepared_resource:
  assumes "\<not> nr_ready resource"
  shows "data_api outputs exposed (Some resource) = Inl ''Native resource has not been prepared''"
    and "view_api os outputs (Some resource) w = Inl ''Native resource has not been prepared''"
    and "resolve_api has_output (Some resource) = Inl ''Native resource has not been prepared''"
    and "invoke_api has_frame (Some resource) = Inl ''Native resource has not been prepared''"
    and "memory_api os load offset buffer n writes (Some resource) w = (w, Inl ''Native resource has not been prepared'')"
  using assms
  by (simp_all add: data_api_def view_api_def resolve_api_def invoke_api_def memory_api_def resource_api_def)

end
