(* ===== verification/Spec2Isabelle.thy ===== *)
theory Spec2Isabelle
  imports FC_Prelude Utf8 Message_Protocol Text_Base Bounded_Text Status_Text Ini Ini_Laws
    Config_Storage Runtime_Settings Config_Properties
    Declarations Patch_Selection Selection_Laws Patch_Records Dependency_Laws
    Multiplayer_Base Multiplayer_Service Multiplayer_Transport Multiplayer_System Multiplayer_Queues
    Multiplayer_Budgets Multiplayer_Connections Multiplayer_Moves Multiplayer_Invariant Multiplayer_Pump
    Multiplayer_Runs Multiplayer_Sample Multiplayer_Establishment Multiplayer_Properties
    Native_Address Native_Memory Native_Call Native_Plan Native_Submit Native_Claims Native_Submit_Laws
    Plugin_Configuration Patch_Api Patch_Api_Laws
    Plugin_Admission Plugin_Admission_Laws Plugin_Admission_Properties
    Lobby_Codec Lobby Lobby_Reads Lobby_Laws Lobby_Invariant Lobby_System Lobby_Properties Lobby_Delivery Lobby_Publication
    Images Image_Laws Live_Images Patch_Session Patch_Session_Laws Patch_Handlers Patch_Installation Patch_Installation_Laws
    Native_Services Installation_Properties
    Native_Prepare Native_Install_Laws Native_Hooks Native_Hook_Laws Native_Install Native_Dispatch Native_Resources
begin

text \<open>
  Fusion Cutter is a modding runtime for a Windows game. A loader brings the runtime DLL into the game process; the
  runtime reads its settings, admits the plugins it finds, configures them, selects for each patch the variant that fits
  the images of the process, orders the patches by their dependencies, lets each one plan its native changes, checks all
  plans against each other, and prepares, installs and activates the patches one by one. Installed patches talk to each
  other through tables they publish, to other players through the multiplayer service and the lobby, and report into a
  bounded status text. This development models that program from its C++ source and proves what it promises.
  Paths below are under \<open>src/\<close>; \<open>runtime\<close> stands for \<open>runtime/src\<close>.

  \<^bold>\<open>Parts and theories.\<close> Each theory opens with the files and functions it models; definitions keep the
  names of the code where HOL allows it.

  \<^item> Texts and tables. \<open>FC_Prelude\<close> holds the shared types, list operations and the two generic locales (\<open>field_codec\<close>:
    fields with a prefix reader; \<open>invariant_system\<close>: an event system with an invariant). \<open>Text_Base\<close> is
    \<open>sdk/include/fc/base.hpp\<close>, \<open>Utf8\<close> the UTF-8 check and \<open>valid_feature_id\<close>, \<open>Bounded_Text\<close> and
    \<open>Status_Text\<close> are \<open>runtime/reporting/bounded_text.hpp\<close> and \<open>status.cpp\<close>: the report never passes its limit, and what is
    published is what was collected.
  \<^item> Configuration. \<open>Ini\<close> and \<open>Ini_Laws\<close> (\<open>runtime/configuration/ini.cpp\<close>), \<open>Config_Storage\<close> (\<open>storage.cpp\<close>),
    \<open>Runtime_Settings\<close> (\<open>runtime_settings.cpp\<close>), \<open>Plugin_Configuration\<close> (\<open>configuration.cpp\<close>), with the properties in
    \<open>Config_Properties\<close>: what a parsed document contains, that values survive being written and read, what becomes of an
    existing file in every outcome of the load (it is kept or replaced by itself with the missing entries added; only a
    \<open>ReplaceFileW\<close> that has removed it and cannot move the stage in its place loses it), and that captured settings have
    their declared types.
  \<^item> Admission. \<open>Plugin_Admission\<close>, \<open>Plugin_Admission_Laws\<close>, \<open>Plugin_Admission_Properties\<close> (\<open>plugins/validation.cpp\<close>):
    the declarations as they arrive through the C interface, each check in the order of the code with its diagnostic, and
    the admission of the valid declarations. \<open>plugin_view\<close> is what the other parts read. Its laws say that an admitted
    declaration is well formed throughout (\<open>declaration_ok\<close>) and that no two of its generated entries collide.
  \<^item> Images. \<open>Images\<close> and \<open>Image_Laws\<close> (\<open>runtime/images/image.cpp\<close>): PE parsing, recognition and the search of the loaded
    modules; \<open>Live_Images\<close> (\<open>runtime/patches/selection.cpp\<close>, \<open>native/plan.cpp\<close>): what selection and planning
    see of them.
  \<^item> Selection. \<open>Declarations\<close>, \<open>Patch_Selection\<close> and \<open>Selection_Laws\<close> (\<open>selection.cpp\<close>), \<open>Patch_Records\<close> and
    \<open>Dependency_Laws\<close> (\<open>dependency.cpp\<close>), \<open>Patch_Session\<close> and \<open>Patch_Session_Laws\<close> (\<open>patch_record.cpp\<close>,
    \<open>late_images.cpp\<close>): which variants apply, that the overlap check is exact, and that the depth first pass settles every
    patch. A session is a record of plugins, patch records and diagnostics; a pointer to a record is its position.
  \<^item> Patch interfaces. \<open>Patch_Api\<close>, \<open>Patch_Api_Laws\<close> (\<open>patch_api.cpp\<close>).
  \<^item> Native changes. \<open>Native_Address\<close>, \<open>Native_Memory\<close>, \<open>Native_Call\<close>, \<open>Native_Plan\<close>, \<open>Native_Submit\<close>,
    \<open>Native_Submit_Laws\<close>, \<open>Native_Claims\<close>, \<open>Native_Prepare\<close>, \<open>Native_Install_Laws\<close>, \<open>Native_Hooks\<close>,
    \<open>Native_Hook_Laws\<close>, \<open>Native_Install\<close>, \<open>Native_Dispatch\<close>, \<open>Native_Resources\<close> (\<open>runtime/native\<close>): requests to a plan,
    the ranges they reserve, conflicts between plans, preparation, the memory writes and their failures, hooks and their
    dispatch. The locale \<open>hook_installer\<close> is what a plan needs of a registry, interpreted on the modelled one.
  \<^item> Installation. \<open>Patch_Handlers\<close>, \<open>Patch_Installation\<close>, \<open>Patch_Installation_Laws\<close> (\<open>installation.cpp\<close>),
    \<open>Native_Services\<close> and \<open>Installation_Properties\<close>: the batch as a function from an installation state to a state, a
    termination of the process with its reason, or a halt inside the native layer. Its laws say that the order of a batch
    exists and respects dependencies, that every planned patch is installed after its providers or failed without a plan,
    and, with the native layer underneath, that a refused installation has changed nothing.
  \<^item> Multiplayer. \<open>Message_Protocol\<close> (\<open>message_protocol.cpp\<close>) is the frame format with its parser and encoders;
    \<open>Multiplayer_Base\<close>, \<open>Multiplayer_Service\<close>, \<open>Multiplayer_Transport\<close>, \<open>Multiplayer_System\<close> (\<open>multiplayer.cpp\<close>,
    \<open>multiplayer_messages.cpp\<close>) are the service, one event for each region that holds its lock, so that any other thread's
    work may come between two of them. \<open>Multiplayer_Queues\<close>, \<open>Multiplayer_Budgets\<close>, \<open>Multiplayer_Connections\<close>,
    \<open>Multiplayer_Moves\<close>, \<open>Multiplayer_Invariant\<close>, \<open>Multiplayer_Pump\<close> and \<open>Multiplayer_Runs\<close> hold the invariants,
    \<open>Multiplayer_Sample\<close> an evaluated run, \<open>Multiplayer_Establishment\<close> the three events that can establish a connection,
    \<open>Multiplayer_Properties\<close> the promises.
  \<^item> Lobby. \<open>Lobby_Codec\<close>, \<open>Lobby\<close>, \<open>Lobby_Reads\<close> (\<open>runtime/lobby.cpp\<close>) are the text of a value, the service's state with
    its items, cache and budget, and the reads, the pass and the delivery; pointers are addresses and patch code is a program of
    calls (\<open>lobby_call\<close>), so that a callback calls back. The locale \<open>canonical_code\<close> (a reader that undoes the writer and
    accepts nothing else) is interpreted on its base64. \<open>Lobby_Laws\<close> and \<open>Lobby_Invariant\<close> hold the invariant \<open>lobby_ok\<close>
    and that each operation keeps it, \<open>Lobby_System\<close> the passes, \<open>Lobby_Properties\<close> the service as an \<open>invariant_system\<close>
    with its budget, reader counts and the life of what a callback receives, \<open>Lobby_Delivery\<close> the callbacks that a delivery
    pass runs (\<open>callbacks_run\<close>), \<open>Lobby_Publication\<close> what other members of an owned lobby read.

  \<^bold>\<open>How the parts meet.\<close> Configuration reads the selection of each patch and gives its captured settings to the
  handler factory (\<open>captured_values\<close>); selection and dependencies leave sessions that installation can order
  (\<open>session_settled\<close>), and so does every later one: \<open>selected_session\<close> and \<open>installed_session\<close> generate the sessions of a
  run together, as \<open>core_runtime.cpp\<close> interleaves them, a batch installed before each report of late images; installation runs the plan callbacks against \<open>Native_Submit\<close>, validates
  the plans with \<open>Native_Claims\<close>, and installs through \<open>Native_Install\<close>; prepare callbacks use \<open>Patch_Api\<close>.

  \<^bold>\<open>What the environment is.\<close> Windows, the game, plugins, the instruction decoder (Zydis) and the detour library
  (SafetyHook) are arguments: records of functions (\<open>windows\<close>, \<open>hook_os\<close>, \<open>module_os\<close>, \<open>environment_os\<close>,
  \<open>load_world\<close>, \<open>thread_os\<close>, \<open>services\<close>) or events. Where a proof relies on what they document, the reliance is a named
  hypothesis (\<open>windows_laws\<close>, \<open>read_law\<close>, \<open>trap_law\<close>, \<open>detour_law\<close>), and a witness gives a concrete environment
  that satisfies it. Plugin callbacks are functions of the world outside, and where they call back, the programs of
  those calls.

  \<^bold>\<open>Integers, bounds and loops.\<close> Integers whose wrap-around the code can meet are words or naturals with the width written
  out; sizes that the code checks before use are naturals. Nothing runs on fuel that could cut a result short: recursion
  is structural or has a measure (the depth first pass counts the records outside its chain, the order of a batch the
  patches left), and the five loops that depend on the environment's answers are partial functions whose missing result
  is a value; the laws of Windows make those of \<open>Native_Memory\<close> total, and \<open>near_search_ends\<close> the search for storage. The pump
  of the multiplayer service sends at most sixteen frames, as in the code.

  \<^bold>\<open>Not modelled.\<close> Machine code emission for bridges (\<open>native/bridge.cpp\<close>: its input is the modelled layout, its output
  instructions of an assembler); log files, traces and crash reports (\<open>runtime/reporting\<close> besides the status: they write
  what they are given to files and ring buffers shared with the game's threads); the assembly of the runtime
  and its control thread (\<open>core_runtime.cpp\<close>, the \<open>_api.cpp\<close> tables and \<open>targets\<close>: they connect modelled services to the
  game's own structures); plugin discovery (\<open>plugins/loading.cpp\<close>: file and loader calls); the loaders; the command line
  verifier; the SDK's templates, which lower typed C++ to the C interface and have no state at runtime; the bundled
  patches, which are clients of the runtime and depend on the game's layout; and the vendored Lua. C++ exceptions
  for exhausted memory, the memory of returned texts and the race detector's view of single fields are left out
  throughout: state is what a thread holding the lock sees. The manifest gives the reason part by part.
\<close>

end
